(* ===== verification/Prelude.thy ===== *)
theory Prelude
  imports Main "HOL-Library.Word"
begin

text \<open>
  Common ground of the development: the machine integers of the program, the
  exceptions it throws (\<open>dcp/common/exceptions.h\<close>), and the state-and-exception
  computations in which its methods are written.

  A C++ method that mutates its object and may throw is a function from the old
  state to a pair of a result and the new state.  The result is \<open>Inl\<close> of the
  exception or \<open>Inr\<close> of the returned value; the state is returned in both cases,
  because a C++ exception does not undo the assignments made before it was
  thrown.  The message strings inside the exceptions are not modelled.

  The last constructors are not classes of \<open>exceptions.h\<close>: an exception of the standard library, the
  exception by which a module ends the simulation (\<open>error\<close>), a failing \<open>assert\<close>, and a dereferenced null pointer.
\<close>

type_synonym u8 = "8 word"
type_synonym u16 = "16 word"
type_synonym u32 = "32 word"
type_synonym u64 = "64 word"

datatype dcp_error =
    RingBufferException
  | AVLTreeException
  | ConfigurationException
  | SocketException
  | ReceiverException
  | TransmitterException
  | BPClientLibException
  | VardisClientLibException
  | VardisStoreException
  | SRPStoreException
  | ManagementException
  | LoggingException
  | AreaException
  | AssemblyAreaException
  | DisassemblyAreaException
  | ShmException
  | VardisReceiveException
  | VardisTransmitException
  | std_invalid_argument
  | cRuntimeError
  | assertion_failure
  | null_pointer

type_synonym ('s, 'a) action = "'s \<Rightarrow> (dcp_error + 'a) \<times> 's"

named_theorems action_simps \<open>evaluation of actions\<close>
named_theorems wf_intros \<open>preservation of well-formedness\<close>

section \<open>State-and-exception computations\<close>

definition retE :: "'a \<Rightarrow> ('s, 'a) action" where
  "retE x s = (Inr x, s)"

definition throwE :: "dcp_error \<Rightarrow> ('s, 'a) action" where
  "throwE e s = (Inl e, s)"

definition bindE :: "('s, 'a) action \<Rightarrow> ('a \<Rightarrow> ('s, 'b) action) \<Rightarrow> ('s, 'b) action" where
  "bindE m f s = (case m s of (Inl e, s') \<Rightarrow> (Inl e, s') | (Inr x, s') \<Rightarrow> f x s')"

abbreviation thenE :: "('s, 'a) action \<Rightarrow> ('s, 'b) action \<Rightarrow> ('s, 'b) action" where
  "thenE m n \<equiv> bindE m (\<lambda>_. n)"

definition getE :: "('s \<Rightarrow> 'a) \<Rightarrow> ('s, 'a) action" where
  "getE f s = (Inr (f s), s)"

definition modifyE :: "('s \<Rightarrow> 's) \<Rightarrow> ('s, unit) action" where
  "modifyE f s = (Inr (), f s)"

definition throw_if :: "dcp_error \<Rightarrow> ('s \<Rightarrow> bool) \<Rightarrow> ('s, unit) action" where
  "throw_if e P s = (if P s then (Inl e, s) else (Inr (), s))"

text \<open>An action on a part of the state, reached by a getter and a setter.\<close>

definition zoomE :: "('s \<Rightarrow> 't) \<Rightarrow> ('t \<Rightarrow> 's \<Rightarrow> 's) \<Rightarrow> ('t, 'a) action \<Rightarrow> ('s, 'a) action" where
  "zoomE get put m s = (case m (get s) of (r, t) \<Rightarrow> (r, put t s))"

text \<open>A \<open>for\<close> loop over a list, stopping at the first exception.\<close>

fun forE :: "('a \<Rightarrow> ('s, unit) action) \<Rightarrow> 'a list \<Rightarrow> ('s, unit) action" where
  "forE f [] s = (Inr (), s)"
| "forE f (x # xs) s = (case f x s of (Inl e, s') \<Rightarrow> (Inl e, s') | (Inr _, s') \<Rightarrow> forE f xs s')"

text \<open>A counting loop that collects what each round returns.\<close>

fun repeatE :: "nat \<Rightarrow> ('s, 'a) action \<Rightarrow> ('s, 'a list) action" where
  "repeatE 0 m = retE []"
| "repeatE (Suc n) m = bindE m (\<lambda>x. bindE (repeatE n m) (\<lambda>xs. retE (x # xs)))"

lemma forE_Nil: "forE f [] = retE ()"
  by (rule ext) (simp add: retE_def)

lemma forE_Cons: "forE f (x # xs) = bindE (f x) (\<lambda>_. forE f xs)"
  by (rule ext) (simp add: bindE_def)

lemma retE_simp [simp, action_simps]: "retE x s = (Inr x, s)"
  by (simp add: retE_def)

lemma throwE_simp [simp, action_simps]: "throwE e s = (Inl e, s)"
  by (simp add: throwE_def)

lemma getE_simp [simp, action_simps]: "getE f s = (Inr (f s), s)"
  by (simp add: getE_def)

lemma modifyE_simp [simp, action_simps]: "modifyE f s = (Inr (), f s)"
  by (simp add: modifyE_def)

lemma throw_if_simp [simp, action_simps]:
  "throw_if e P s = (if P s then (Inl e, s) else (Inr (), s))"
  by (simp add: throw_if_def)

lemma bindE_Inr [action_simps]: "m s = (Inr x, s') \<Longrightarrow> bindE m f s = f x s'"
  by (simp add: bindE_def)

lemma bindE_Inl [action_simps]: "m s = (Inl e, s') \<Longrightarrow> bindE m f s = (Inl e, s')"
  by (simp add: bindE_def)

lemma bindE_retE [simp]: "bindE (retE x) f = f x"
  by (rule ext) (simp add: bindE_def)

lemma bindE_throwE [simp]: "bindE (throwE e) f = throwE e"
  by (rule ext) (simp add: bindE_def)

lemma bindE_Pair [simp]:
  "bindE (Pair (Inr x)) f = f x" "bindE (Pair (Inl e)) f = Pair (Inl e)"
  by (rule ext; simp add: bindE_def)+

lemma bindE_assoc: "bindE (bindE m f) g = bindE m (\<lambda>x. bindE (f x) g)"
  by (rule ext) (simp add: bindE_def split: prod.splits sum.splits)

lemma forE_append: "forE f (xs @ ys) = bindE (forE f xs) (\<lambda>_. forE f ys)"
  by (induction xs) (simp_all add: forE_Nil forE_Cons bindE_assoc del: forE.simps retE_simp)

lemma bindE_InrE:
  assumes "bindE m f s = (Inr y, s'')"
  obtains x s' where "m s = (Inr x, s')" "f x s' = (Inr y, s'')"
  using assms by (auto simp: bindE_def split: prod.splits sum.splits)

lemma bindE_cases:
  assumes "bindE m f s = (r, s'')"
  obtains (Err) e where "m s = (Inl e, s'')" "r = Inl e"
  | (Ok) x s' where "m s = (Inr x, s')" "f x s' = (r, s'')"
  using assms by (auto simp: bindE_def split: prod.splits sum.splits)

lemma zoomE_simp [action_simps]: "m (get s) = (r, t) \<Longrightarrow> zoomE get put m s = (r, put t s)"
  by (simp add: zoomE_def)

text \<open>An action keeps an invariant, whether it returns or throws.\<close>

definition preserves :: "('s \<Rightarrow> bool) \<Rightarrow> ('s, 'a) action \<Rightarrow> bool" where
  "preserves P m \<longleftrightarrow> (\<forall>s. P s \<longrightarrow> P (snd (m s)))"

lemma preservesI: "(\<And>s. P s \<Longrightarrow> P (snd (m s))) \<Longrightarrow> preserves P m"
  by (simp add: preserves_def)

lemma preservesD: "preserves P m \<Longrightarrow> P s \<Longrightarrow> m s = (r, s') \<Longrightarrow> P s'"
  by (force simp: preserves_def)

lemma preserves_retE [wf_intros]: "preserves P (retE x)"
  and preserves_throwE [wf_intros]: "preserves P (throwE e)"
  and preserves_getE [wf_intros]: "preserves P (getE f)"
  and preserves_throw_if [wf_intros]: "preserves P (throw_if e Q)"
  by (simp_all add: preserves_def)

lemma preserves_bindE [wf_intros]:
  assumes "preserves P m" and "\<And>x. preserves P (f x)"
  shows "preserves P (bindE m f)"
  using assms by (auto simp: preserves_def bindE_def split: prod.splits sum.splits)


lemma preserves_if [wf_intros]:
  "(b \<Longrightarrow> preserves P m) \<Longrightarrow> (\<not> b \<Longrightarrow> preserves P n) \<Longrightarrow> preserves P (if b then m else n)"
  by simp

lemma preserves_forE [wf_intros]:
  assumes "\<And>x. x \<in> set xs \<Longrightarrow> preserves P (f x)"
  shows "preserves P (forE f xs)"
proof (rule preservesI)
  fix s assume "P s"
  with assms show "P (snd (forE f xs s))"
  proof (induction xs arbitrary: s)
    case (Cons x xs)
    then show ?case
      by (auto split: prod.splits sum.splits dest: preservesD)
  qed simp
qed

lemma preserves_repeatE [wf_intros]: "preserves P m \<Longrightarrow> preserves P (repeatE n m)"
  by (induction n) (auto intro!: wf_intros)

section \<open>Lists written by index\<close>

lemma take_add_append: "length xs = n \<Longrightarrow> take (n + m) (xs @ ys) = xs @ take m ys"
  by simp

lemma update_as_append:
  "n < length xs \<Longrightarrow> xs[n := x] = take n xs @ [x] @ drop (Suc n) xs"
  by (simp add: upd_conv_take_nth_drop)

lemma take_append_singleton_nth:
  "n < length xs \<Longrightarrow> take (Suc n) xs = take n xs @ [xs ! n]"
  by (rule take_Suc_conv_app_nth)

section \<open>Bytes as numbers\<close>

lemma unat_u8_less: "unat (b :: u8) < 256"
  using unsigned_less [of b, where 'a = nat] by simp

lemma unat_u8_le: "unat (b :: u8) \<le> 255"
  using unat_u8_less [of b] by simp

lemma unat_u16_less: "unat (b :: u16) < 65536"
  using unsigned_less [of b, where 'a = nat] by simp

lemma unat_of_nat_u8 [simp]: "n < 256 \<Longrightarrow> unat (of_nat n :: u8) = n"
  by (simp add: unat_of_nat take_bit_eq_mod)

end
