(* ===== verification/Area.thy ===== *)
theory Area
  imports Prelude
begin

text \<open>
  Serialization areas, \<open>dcp/common/area.h\<close>.  The class \<open>Area\<close> counts the bytes used
  and available; \<open>AssemblyArea\<close> and \<open>DisassemblyArea\<close> add the big-endian integer
  formats; the concrete classes keep the bytes in a memory chunk (with a moving
  pointer) or in a byte vector (indexed by the number of bytes used).  One record
  stands for both concrete classes, its kind field selecting the overriding method
  as the virtual call does.  A \<open>const byte*\<close> argument is an option, \<open>None\<close> for
  \<open>nullptr\<close>.

  The abstraction of an assembly area is the list \<open>aa_written\<close> of bytes written so
  far, that of a disassembly area the list \<open>da_rest\<close> of bytes still to be read; the
  lemmas show each method to append to the one or to consume from the other.
\<close>

unbundle bit_operations_syntax

section \<open>The base class\<close>

record area =
  bytes_available :: nat
  initial_available :: nat
  bytes_used :: nat

definition new_area :: "nat \<Rightarrow> area" where
  "new_area available = \<lparr>bytes_available = available, initial_available = available, bytes_used = 0\<rparr>"

definition area_incr :: "nat \<Rightarrow> ('a area_scheme, unit) action" where
  "area_incr by a =
     (if bytes_available a < by then (Inl AreaException, a)
      else (Inr (), a\<lparr>bytes_used := bytes_used a + by, bytes_available := bytes_available a - by\<rparr>))"

definition area_assert_block :: "nat \<Rightarrow> u8 list option \<Rightarrow> ('a area_scheme, unit) action" where
  "area_assert_block sz pb a =
     (if sz = 0 \<or> pb = None then (Inl AreaException, a)
      else if bytes_available a < sz then (Inl AreaException, a)
      else (Inr (), a))"

definition area_reset :: "'a area_scheme \<Rightarrow> 'a area_scheme" where
  "area_reset a = a\<lparr>bytes_available := initial_available a, bytes_used := 0\<rparr>"

definition area_resize :: "nat \<Rightarrow> ('a area_scheme, unit) action" where
  "area_resize new_initial a =
     (if new_initial = 0 \<or> bytes_used a > new_initial then (Inl AreaException, a)
      else (Inr (), a\<lparr>initial_available := new_initial,
                        bytes_available := new_initial - bytes_used a\<rparr>))"

section \<open>Assembly areas\<close>

datatype area_kind = MemoryChunk | ByteVector

record aa = area +
  aa_kind :: area_kind
  aa_buffer :: "u8 list"
  aa_pointer :: nat

definition MemoryChunkAssemblyArea_alloc :: "nat \<Rightarrow> dcp_error + aa" where
  "MemoryChunkAssemblyArea_alloc sz =
     (if sz = 0 then Inl AssemblyAreaException
      else Inr \<lparr>bytes_available = sz, initial_available = sz, bytes_used = 0,
                aa_kind = MemoryChunk, aa_buffer = replicate sz 0, aa_pointer = 0\<rparr>)"

definition MemoryChunkAssemblyArea_block :: "nat \<Rightarrow> u8 list option \<Rightarrow> dcp_error + aa" where
  "MemoryChunkAssemblyArea_block sz memblock =
     (if sz = 0 then Inl AssemblyAreaException
      else case memblock of
        None \<Rightarrow> Inl AssemblyAreaException
      | Some bs \<Rightarrow> Inr \<lparr>bytes_available = sz, initial_available = sz, bytes_used = 0,
                       aa_kind = MemoryChunk, aa_buffer = bs, aa_pointer = 0\<rparr>)"

definition ByteVectorAssemblyArea_alloc :: "nat \<Rightarrow> dcp_error + aa" where
  "ByteVectorAssemblyArea_alloc sz =
     (if sz = 0 then Inl AssemblyAreaException
      else Inr \<lparr>bytes_available = sz, initial_available = sz, bytes_used = 0,
                aa_kind = ByteVector, aa_buffer = replicate sz 0, aa_pointer = 0\<rparr>)"

definition ByteVectorAssemblyArea_vect :: "nat \<Rightarrow> u8 list \<Rightarrow> dcp_error + aa" where
  "ByteVectorAssemblyArea_vect sz vect =
     (if sz = 0 then Inl AssemblyAreaException
      else Inr \<lparr>bytes_available = sz, initial_available = sz, bytes_used = 0,
                aa_kind = ByteVector, aa_buffer = vect, aa_pointer = 0\<rparr>)"

definition mc_serialize_byte :: "u8 \<Rightarrow> (aa, unit) action" where
  "mc_serialize_byte b =
     bindE (throw_if AssemblyAreaException (\<lambda>a. bytes_available a = 0)) (\<lambda>_.
     bindE (modifyE (\<lambda>a. a\<lparr>aa_buffer := (aa_buffer a)[aa_pointer a := b]\<rparr>)) (\<lambda>_.
     bindE (modifyE (\<lambda>a. a\<lparr>aa_pointer := aa_pointer a + 1\<rparr>)) (\<lambda>_.
     area_incr 1)))"

definition bv_serialize_byte :: "u8 \<Rightarrow> (aa, unit) action" where
  "bv_serialize_byte b =
     bindE (throw_if AssemblyAreaException (\<lambda>a. bytes_available a = 0)) (\<lambda>_.
     bindE (modifyE (\<lambda>a. a\<lparr>aa_buffer := (aa_buffer a)[bytes_used a := b]\<rparr>)) (\<lambda>_.
     area_incr 1))"

definition serialize_byte :: "u8 \<Rightarrow> (aa, unit) action" where
  "serialize_byte b a =
     (case aa_kind a of MemoryChunk \<Rightarrow> mc_serialize_byte b a | ByteVector \<Rightarrow> bv_serialize_byte b a)"

text \<open>\<open>memcpy\<close> of \<open>n\<close> bytes of \<open>src\<close> into \<open>dst\<close> from index \<open>i\<close> on.\<close>

definition memcpy_at :: "u8 list \<Rightarrow> nat \<Rightarrow> u8 list \<Rightarrow> nat \<Rightarrow> u8 list" where
  "memcpy_at dst i src n = take i dst @ take n src @ drop (i + n) dst"

definition mc_serialize_byte_block :: "nat \<Rightarrow> u8 list option \<Rightarrow> (aa, unit) action" where
  "mc_serialize_byte_block sz pb =
     bindE (area_assert_block sz pb) (\<lambda>_.
     bindE (modifyE (\<lambda>a. a\<lparr>aa_buffer := memcpy_at (aa_buffer a) (aa_pointer a) (the pb) sz\<rparr>)) (\<lambda>_.
     bindE (area_incr sz) (\<lambda>_.
     modifyE (\<lambda>a. a\<lparr>aa_pointer := aa_pointer a + sz\<rparr>))))"

definition bv_serialize_byte_block :: "nat \<Rightarrow> u8 list option \<Rightarrow> (aa, unit) action" where
  "bv_serialize_byte_block sz pb =
     bindE (area_assert_block sz pb) (\<lambda>_.
     bindE (modifyE (\<lambda>a. a\<lparr>aa_buffer := memcpy_at (aa_buffer a) (bytes_used a) (the pb) sz\<rparr>)) (\<lambda>_.
     area_incr sz))"

definition serialize_byte_block :: "nat \<Rightarrow> u8 list option \<Rightarrow> (aa, unit) action" where
  "serialize_byte_block sz pb a =
     (case aa_kind a of
        MemoryChunk \<Rightarrow> mc_serialize_byte_block sz pb a
      | ByteVector \<Rightarrow> bv_serialize_byte_block sz pb a)"

text \<open>The default method of the base class, a loop over the bytes.\<close>

definition default_serialize_byte_block :: "nat \<Rightarrow> u8 list option \<Rightarrow> (aa, unit) action" where
  "default_serialize_byte_block sz pb =
     bindE (area_assert_block sz pb) (\<lambda>_.
     forE serialize_byte (take sz (the pb)))"

definition serialize_uint16_n :: "u16 \<Rightarrow> (aa, unit) action" where
  "serialize_uint16_n val =
     bindE (throw_if AssemblyAreaException (\<lambda>a. bytes_available a < 2)) (\<lambda>_.
     bindE (serialize_byte (ucast (drop_bit 8 val))) (\<lambda>_.
     serialize_byte (ucast (val AND 0x00FF))))"

definition serialize_uint32_n :: "u32 \<Rightarrow> (aa, unit) action" where
  "serialize_uint32_n val =
     bindE (throw_if AssemblyAreaException (\<lambda>a. bytes_available a < 4)) (\<lambda>_.
     bindE (serialize_byte (ucast (drop_bit 24 val))) (\<lambda>_.
     bindE (serialize_byte (ucast (drop_bit 16 (val AND 0x00FF0000)))) (\<lambda>_.
     bindE (serialize_byte (ucast (drop_bit 8 (val AND 0x0000FF00)))) (\<lambda>_.
     serialize_byte (ucast (val AND 0x000000FF))))))"

text \<open>The 64-bit method checks for the size of a 32-bit value (\<open>sizeof(uint32_t)\<close>).\<close>

definition serialize_uint64_n :: "u64 \<Rightarrow> (aa, unit) action" where
  "serialize_uint64_n val =
     bindE (throw_if AssemblyAreaException (\<lambda>a. bytes_available a < 4)) (\<lambda>_.
     bindE (serialize_byte (ucast (drop_bit 56 val))) (\<lambda>_.
     bindE (serialize_byte (ucast (drop_bit 48 (val AND 0x00FF000000000000)))) (\<lambda>_.
     bindE (serialize_byte (ucast (drop_bit 40 (val AND 0x0000FF0000000000)))) (\<lambda>_.
     bindE (serialize_byte (ucast (drop_bit 32 (val AND 0x000000FF00000000)))) (\<lambda>_.
     bindE (serialize_byte (ucast (drop_bit 24 (val AND 0x00000000FF000000)))) (\<lambda>_.
     bindE (serialize_byte (ucast (drop_bit 16 (val AND 0x0000000000FF0000)))) (\<lambda>_.
     bindE (serialize_byte (ucast (drop_bit 8 (val AND 0x000000000000FF00)))) (\<lambda>_.
     serialize_byte (ucast (val AND 0x00000000000000FF))))))))))"

definition aa_reset :: "aa \<Rightarrow> aa" where
  "aa_reset a = (case aa_kind a of MemoryChunk \<Rightarrow> (area_reset a)\<lparr>aa_pointer := 0\<rparr> | ByteVector \<Rightarrow> area_reset a)"

section \<open>Disassembly areas\<close>

record da = area +
  da_kind :: area_kind
  da_buffer :: "u8 list"
  da_pointer :: nat

definition MemoryChunkDisassemblyArea :: "nat \<Rightarrow> u8 list \<Rightarrow> da" where
  "MemoryChunkDisassemblyArea sz memblock =
     \<lparr>bytes_available = sz, initial_available = sz, bytes_used = 0,
      da_kind = MemoryChunk, da_buffer = memblock, da_pointer = 0\<rparr>"

definition ByteVectorDisassemblyArea :: "u8 list \<Rightarrow> da" where
  "ByteVectorDisassemblyArea vect =
     \<lparr>bytes_available = length vect, initial_available = length vect, bytes_used = 0,
      da_kind = ByteVector, da_buffer = vect, da_pointer = 0\<rparr>"

definition mc_deserialize_byte :: "(da, u8) action" where
  "mc_deserialize_byte =
     bindE (throw_if DisassemblyAreaException (\<lambda>a. bytes_available a = 0)) (\<lambda>_.
     bindE (getE (\<lambda>a. da_buffer a ! da_pointer a)) (\<lambda>rv.
     bindE (modifyE (\<lambda>a. a\<lparr>da_pointer := da_pointer a + 1\<rparr>)) (\<lambda>_.
     bindE (area_incr 1) (\<lambda>_.
     retE rv))))"

definition bv_deserialize_byte :: "(da, u8) action" where
  "bv_deserialize_byte =
     bindE (throw_if DisassemblyAreaException (\<lambda>a. bytes_available a = 0)) (\<lambda>_.
     bindE (getE (\<lambda>a. da_buffer a ! bytes_used a)) (\<lambda>rv.
     bindE (area_incr 1) (\<lambda>_.
     retE rv)))"

definition deserialize_byte :: "(da, u8) action" where
  "deserialize_byte a =
     (case da_kind a of MemoryChunk \<Rightarrow> mc_deserialize_byte a | ByteVector \<Rightarrow> bv_deserialize_byte a)"

definition mc_peek_byte :: "(da, u8) action" where
  "mc_peek_byte =
     bindE (throw_if DisassemblyAreaException (\<lambda>a. bytes_available a = 0)) (\<lambda>_.
     getE (\<lambda>a. da_buffer a ! da_pointer a))"

definition bv_peek_byte :: "(da, u8) action" where
  "bv_peek_byte =
     bindE (throw_if DisassemblyAreaException (\<lambda>a. bytes_available a = 0)) (\<lambda>_.
     getE (\<lambda>a. da_buffer a ! bytes_used a))"

definition peek_byte :: "(da, u8) action" where
  "peek_byte a =
     (case da_kind a of MemoryChunk \<Rightarrow> mc_peek_byte a | ByteVector \<Rightarrow> bv_peek_byte a)"

text \<open>
  The block methods fill a caller's buffer; the argument is that buffer (\<open>None\<close> for a
  null pointer) and the result its contents after the call.
\<close>

definition mc_deserialize_byte_block :: "nat \<Rightarrow> u8 list option \<Rightarrow> (da, u8 list) action" where
  "mc_deserialize_byte_block sz pb =
     bindE (area_assert_block sz pb) (\<lambda>_.
     bindE (getE (\<lambda>a. memcpy_at (the pb) 0 (drop (da_pointer a) (da_buffer a)) sz)) (\<lambda>out.
     bindE (area_incr sz) (\<lambda>_.
     bindE (modifyE (\<lambda>a. a\<lparr>da_pointer := da_pointer a + sz\<rparr>)) (\<lambda>_.
     retE out))))"

definition bv_deserialize_byte_block :: "nat \<Rightarrow> u8 list option \<Rightarrow> (da, u8 list) action" where
  "bv_deserialize_byte_block sz pb =
     bindE (area_assert_block sz pb) (\<lambda>_.
     bindE (getE (\<lambda>a. memcpy_at (the pb) 0 (drop (bytes_used a) (da_buffer a)) sz)) (\<lambda>out.
     bindE (area_incr sz) (\<lambda>_.
     retE out)))"

definition deserialize_byte_block :: "nat \<Rightarrow> u8 list option \<Rightarrow> (da, u8 list) action" where
  "deserialize_byte_block sz pb a =
     (case da_kind a of
        MemoryChunk \<Rightarrow> mc_deserialize_byte_block sz pb a
      | ByteVector \<Rightarrow> bv_deserialize_byte_block sz pb a)"

definition default_deserialize_byte_block :: "nat \<Rightarrow> u8 list option \<Rightarrow> (da, u8 list) action" where
  "default_deserialize_byte_block sz pb =
     bindE (area_assert_block sz pb) (\<lambda>_.
     bindE (repeatE sz deserialize_byte) (\<lambda>bs.
     retE (memcpy_at (the pb) 0 bs sz)))"

definition deserialize_uint16_n :: "(da, u16) action" where
  "deserialize_uint16_n =
     bindE (throw_if DisassemblyAreaException (\<lambda>a. bytes_available a < 2)) (\<lambda>_.
     bindE deserialize_byte (\<lambda>b1.
     bindE deserialize_byte (\<lambda>b2.
     retE (push_bit 8 (ucast b1) + ucast b2))))"

text \<open>The 32- and 64-bit methods check for the sz of a 16-bit value (\<open>sizeof(uint16_t)\<close>).\<close>

definition deserialize_uint32_n :: "(da, u32) action" where
  "deserialize_uint32_n =
     bindE (throw_if DisassemblyAreaException (\<lambda>a. bytes_available a < 2)) (\<lambda>_.
     bindE deserialize_byte (\<lambda>b1.
     bindE deserialize_byte (\<lambda>b2.
     bindE deserialize_byte (\<lambda>b3.
     bindE deserialize_byte (\<lambda>b4.
     retE (push_bit 24 (ucast b1) + push_bit 16 (ucast b2) + push_bit 8 (ucast b3) + ucast b4))))))"

definition deserialize_uint64_n :: "(da, u64) action" where
  "deserialize_uint64_n =
     bindE (throw_if DisassemblyAreaException (\<lambda>a. bytes_available a < 2)) (\<lambda>_.
     bindE deserialize_byte (\<lambda>b1.
     bindE deserialize_byte (\<lambda>b2.
     bindE deserialize_byte (\<lambda>b3.
     bindE deserialize_byte (\<lambda>b4.
     bindE deserialize_byte (\<lambda>b5.
     bindE deserialize_byte (\<lambda>b6.
     bindE deserialize_byte (\<lambda>b7.
     bindE deserialize_byte (\<lambda>b8.
     retE (push_bit 56 (ucast b1) + push_bit 48 (ucast b2) + push_bit 40 (ucast b3)
           + push_bit 32 (ucast b4) + push_bit 24 (ucast b5) + push_bit 16 (ucast b6)
           + push_bit 8 (ucast b7) + ucast b8))))))))))"

definition da_reset :: "da \<Rightarrow> da" where
  "da_reset a = (case da_kind a of MemoryChunk \<Rightarrow> (area_reset a)\<lparr>da_pointer := 0\<rparr> | ByteVector \<Rightarrow> area_reset a)"

section \<open>Well-formed areas and their abstraction\<close>

text \<open>
  The bytes used and the bytes available add up to the initial size, the buffer
  holds at least that many bytes, and the pointer of a memory chunk has moved as far
  as the count: every access of the methods is then inside the buffer.
\<close>

definition wf_area :: "'a area_scheme \<Rightarrow> bool" where
  "wf_area a \<longleftrightarrow> bytes_used a + bytes_available a = initial_available a"

definition wf_aa :: "aa \<Rightarrow> bool" where
  "wf_aa a \<longleftrightarrow> wf_area a \<and> initial_available a \<le> length (aa_buffer a)
     \<and> (aa_kind a = MemoryChunk \<longrightarrow> aa_pointer a = bytes_used a)"

definition wf_da :: "da \<Rightarrow> bool" where
  "wf_da a \<longleftrightarrow> wf_area a \<and> initial_available a \<le> length (da_buffer a)
     \<and> (da_kind a = MemoryChunk \<longrightarrow> da_pointer a = bytes_used a)"

definition aa_written :: "aa \<Rightarrow> u8 list" where
  "aa_written a = take (bytes_used a) (aa_buffer a)"

definition da_rest :: "da \<Rightarrow> u8 list" where
  "da_rest a = take (bytes_available a) (drop (bytes_used a) (da_buffer a))"

definition aa_append :: "u8 list \<Rightarrow> aa \<Rightarrow> aa" where
  "aa_append bs a = a\<lparr>
     aa_buffer := memcpy_at (aa_buffer a) (bytes_used a) bs (length bs),
     aa_pointer := (if aa_kind a = MemoryChunk then aa_pointer a + length bs else aa_pointer a),
     bytes_used := bytes_used a + length bs,
     bytes_available := bytes_available a - length bs\<rparr>"

definition da_advance :: "nat \<Rightarrow> da \<Rightarrow> da" where
  "da_advance n a = a\<lparr>
     da_pointer := (if da_kind a = MemoryChunk then da_pointer a + n else da_pointer a),
     bytes_used := bytes_used a + n,
     bytes_available := bytes_available a - n\<rparr>"

lemma aa_append_fields [simp]:
  "bytes_used (aa_append bs a) = bytes_used a + length bs"
  "bytes_available (aa_append bs a) = bytes_available a - length bs"
  "initial_available (aa_append bs a) = initial_available a"
  "aa_kind (aa_append bs a) = aa_kind a"
  by (simp_all add: aa_append_def)

lemma da_advance_fields [simp]:
  "bytes_used (da_advance n a) = bytes_used a + n"
  "bytes_available (da_advance n a) = bytes_available a - n"
  "initial_available (da_advance n a) = initial_available a"
  "da_kind (da_advance n a) = da_kind a"
  "da_buffer (da_advance n a) = da_buffer a"
  by (simp_all add: da_advance_def)

lemma aa_append_Nil [simp]: "aa_append [] a = a"
  by (simp add: aa_append_def memcpy_at_def)

lemma da_advance_0 [simp]: "da_advance 0 a = a"
  by (simp add: da_advance_def)

lemma length_memcpy_at [simp]:
  "i + n \<le> length dst \<Longrightarrow> n \<le> length src \<Longrightarrow> length (memcpy_at dst i src n) = length dst"
  by (simp add: memcpy_at_def)

lemma wf_aa_append [simp]:
  "wf_aa a \<Longrightarrow> length bs \<le> bytes_available a \<Longrightarrow> wf_aa (aa_append bs a)"
  by (auto simp: wf_aa_def wf_area_def aa_append_def)

lemma wf_da_advance [simp]:
  "wf_da a \<Longrightarrow> n \<le> bytes_available a \<Longrightarrow> wf_da (da_advance n a)"
  by (auto simp: wf_da_def wf_area_def da_advance_def)

lemma aa_written_append [simp]:
  "wf_aa a \<Longrightarrow> length bs \<le> bytes_available a \<Longrightarrow> aa_written (aa_append bs a) = aa_written a @ bs"
  by (cases bs) (auto simp: aa_written_def aa_append_def memcpy_at_def wf_aa_def wf_area_def min_def)

lemma memcpy_at_memcpy_at:
  assumes "i + length xs + length ys \<le> length dst"
  shows "memcpy_at (memcpy_at dst i xs (length xs)) (i + length xs) ys (length ys)
         = memcpy_at dst i (xs @ ys) (length (xs @ ys))"
  using assms by (cases xs) (auto simp: memcpy_at_def min_def ac_simps)

lemma aa_append_append:
  "wf_aa a \<Longrightarrow> length xs + length ys \<le> bytes_available a
   \<Longrightarrow> aa_append ys (aa_append xs a) = aa_append (xs @ ys) a"
  using memcpy_at_memcpy_at [of "bytes_used a" xs ys "aa_buffer a"]
  by (simp add: aa_append_def wf_aa_def wf_area_def add.assoc)

lemma da_advance_advance [simp]: "da_advance m (da_advance n a) = da_advance (n + m) a"
  by (simp add: da_advance_def)

lemma da_rest_advance [simp]: "da_rest (da_advance n a) = drop n (da_rest a)"
  by (simp add: da_rest_def drop_take add.commute)

lemma length_da_rest [simp]: "wf_da a \<Longrightarrow> length (da_rest a) = bytes_available a"
  by (auto simp: da_rest_def wf_da_def wf_area_def)

lemma length_aa_written [simp]: "wf_aa a \<Longrightarrow> length (aa_written a) = bytes_used a"
  by (simp add: aa_written_def wf_aa_def wf_area_def)

lemma wf_new_areas [simp]:
  "MemoryChunkAssemblyArea_alloc n = Inr a \<Longrightarrow> wf_aa a"
  "ByteVectorAssemblyArea_alloc n = Inr a \<Longrightarrow> wf_aa a"
  "ByteVectorAssemblyArea_vect n bs = Inr a \<Longrightarrow> n \<le> length bs \<Longrightarrow> wf_aa a"
  "MemoryChunkAssemblyArea_block n (Some bs) = Inr a \<Longrightarrow> n \<le> length bs \<Longrightarrow> wf_aa a"
  "wf_da (ByteVectorDisassemblyArea bs)"
  "n \<le> length bs \<Longrightarrow> wf_da (MemoryChunkDisassemblyArea n bs)"
  by (auto simp: MemoryChunkAssemblyArea_alloc_def ByteVectorAssemblyArea_alloc_def
      ByteVectorAssemblyArea_vect_def MemoryChunkAssemblyArea_block_def
      ByteVectorDisassemblyArea_def MemoryChunkDisassemblyArea_def wf_aa_def wf_da_def wf_area_def
      split: if_splits)

lemma da_rest_new [simp]:
  "da_rest (ByteVectorDisassemblyArea bs) = bs"
  "n \<le> length bs \<Longrightarrow> da_rest (MemoryChunkDisassemblyArea n bs) = take n bs"
  by (simp_all add: da_rest_def ByteVectorDisassemblyArea_def MemoryChunkDisassemblyArea_def)

section \<open>The methods in terms of the abstraction\<close>

lemma serialize_byte_spec:
  assumes "wf_aa a"
  shows "serialize_byte b a =
    (if bytes_available a = 0 then (Inl AssemblyAreaException, a) else (Inr (), aa_append [b] a))"
  using assms
  by (auto simp: serialize_byte_def mc_serialize_byte_def bv_serialize_byte_def bindE_def
      area_incr_def aa_append_def memcpy_at_def wf_aa_def wf_area_def update_as_append
      split: area_kind.splits)

lemma serialize_byte_block_spec:
  assumes "wf_aa a" "length bs = n"
  shows "serialize_byte_block n (Some bs) a =
    (if n = 0 \<or> bytes_available a < n then (Inl AreaException, a) else (Inr (), aa_append bs a))"
  using assms
  by (auto simp: serialize_byte_block_def mc_serialize_byte_block_def bv_serialize_byte_block_def
      bindE_def area_assert_block_def area_incr_def aa_append_def wf_aa_def wf_area_def
      split: area_kind.splits)

lemma serialize_byte_block_null [simp]: "serialize_byte_block n None a = (Inl AreaException, a)"
  by (simp add: serialize_byte_block_def mc_serialize_byte_block_def bv_serialize_byte_block_def
      bindE_def area_assert_block_def split: area_kind.splits)

lemma serialize_bytes_forE:
  assumes "wf_aa a" "length bs \<le> bytes_available a"
  shows "forE serialize_byte bs a = (Inr (), aa_append bs a)"
  using assms
proof (induction bs arbitrary: a)
  case (Cons b bs)
  then show ?case
    using Cons.IH [of "aa_append [b] a"] aa_append_append [of a "[b]" bs]
    by (simp add: serialize_byte_spec)
qed simp

text \<open>The \<open>memcpy\<close> of the derived classes does what the default loop does.\<close>

lemma serialize_byte_block_eq_default:
  assumes "wf_aa a" "length bs = n"
  shows "serialize_byte_block n (Some bs) a = default_serialize_byte_block n (Some bs) a"
  using assms
  by (auto simp: serialize_byte_block_spec default_serialize_byte_block_def bindE_def
      area_assert_block_def serialize_bytes_forE not_less)

lemma deserialize_byte_spec:
  assumes "wf_da a"
  shows "deserialize_byte a =
    (if bytes_available a = 0 then (Inl DisassemblyAreaException, a)
     else (Inr (hd (da_rest a)), da_advance 1 a))"
proof -
  have "da_buffer a ! bytes_used a = hd (da_rest a)" if "0 < bytes_available a"
    using assms that by (simp add: da_rest_def hd_drop_conv_nth wf_da_def wf_area_def)
  with assms show ?thesis
    by (auto simp: deserialize_byte_def mc_deserialize_byte_def bv_deserialize_byte_def bindE_def
        area_incr_def da_advance_def wf_da_def split: area_kind.splits)
qed

lemma peek_byte_spec:
  assumes "wf_da a"
  shows "peek_byte a =
    (if bytes_available a = 0 then (Inl DisassemblyAreaException, a) else (Inr (hd (da_rest a)), a))"
proof -
  have "da_buffer a ! bytes_used a = hd (da_rest a)" if "0 < bytes_available a"
    using assms that by (simp add: da_rest_def hd_drop_conv_nth wf_da_def wf_area_def)
  with assms show ?thesis
    by (auto simp: peek_byte_def mc_peek_byte_def bv_peek_byte_def bindE_def wf_da_def
        split: area_kind.splits)
qed

lemma deserialize_byte_block_spec:
  assumes "wf_da a" "length pb = n"
  shows "deserialize_byte_block n (Some pb) a =
    (if n = 0 \<or> bytes_available a < n then (Inl AreaException, a)
     else (Inr (take n (da_rest a)), da_advance n a))"
  using assms
  by (auto simp: deserialize_byte_block_def mc_deserialize_byte_block_def da_rest_def
      bv_deserialize_byte_block_def bindE_def area_assert_block_def area_incr_def da_advance_def
      memcpy_at_def wf_da_def wf_area_def min_def split: area_kind.splits)

lemma deserialize_bytes_repeatE:
  assumes "wf_da a" "n \<le> bytes_available a"
  shows "repeatE n deserialize_byte a = (Inr (take n (da_rest a)), da_advance n a)"
  using assms
proof (induction n arbitrary: a)
  case (Suc n)
  have "da_rest a \<noteq> []" using Suc.prems by (metis length_da_rest list.size(3) not_less_eq_eq zero_le)
  then obtain b bs where r: "da_rest a = b # bs" by (cases "da_rest a") auto
  show ?case
    using Suc.prems Suc.IH [of "da_advance 1 a"] r
    by (simp add: bindE_def deserialize_byte_spec)
qed simp

lemma deserialize_byte_block_eq_default:
  assumes "wf_da a" "length pb = n"
  shows "deserialize_byte_block n (Some pb) a = default_deserialize_byte_block n (Some pb) a"
  using assms
  by (auto simp: deserialize_byte_block_spec default_deserialize_byte_block_def bindE_def
      area_assert_block_def deserialize_bytes_repeatE not_less memcpy_at_def)

section \<open>Big-endian integers\<close>

definition be_bytes16 :: "u16 \<Rightarrow> u8 list" where
  "be_bytes16 v = [ucast (drop_bit 8 v), ucast v]"

definition be_bytes32 :: "u32 \<Rightarrow> u8 list" where
  "be_bytes32 v = [ucast (drop_bit 24 v), ucast (drop_bit 16 v), ucast (drop_bit 8 v), ucast v]"

definition be_bytes64 :: "u64 \<Rightarrow> u8 list" where
  "be_bytes64 v =
     [ucast (drop_bit 56 v), ucast (drop_bit 48 v), ucast (drop_bit 40 v), ucast (drop_bit 32 v),
      ucast (drop_bit 24 v), ucast (drop_bit 16 v), ucast (drop_bit 8 v), ucast v]"

lemma length_be_bytes [simp]:
  "length (be_bytes16 v) = 2" "length (be_bytes32 w) = 4" "length (be_bytes64 x) = 8"
  by (simp_all add: be_bytes16_def be_bytes32_def be_bytes64_def)

lemma be_masks:
  "(0x00FF :: u16) = mask 8"
  "(0x00FF0000 :: u32) = push_bit 16 (mask 8)"
  "(0x0000FF00 :: u32) = push_bit 8 (mask 8)"
  "(0x000000FF :: u32) = mask 8"
  "(0x00FF000000000000 :: u64) = push_bit 48 (mask 8)"
  "(0x0000FF0000000000 :: u64) = push_bit 40 (mask 8)"
  "(0x000000FF00000000 :: u64) = push_bit 32 (mask 8)"
  "(0x00000000FF000000 :: u64) = push_bit 24 (mask 8)"
  "(0x0000000000FF0000 :: u64) = push_bit 16 (mask 8)"
  "(0x000000000000FF00 :: u64) = push_bit 8 (mask 8)"
  "(0x00000000000000FF :: u64) = mask 8"
  by (simp_all add: mask_eq_exp_minus_1 push_bit_eq_mult)

lemma byte_of_mask:
  fixes v :: "'a::len word"
  shows "n + 8 \<le> LENGTH('a) \<Longrightarrow> (ucast (drop_bit n (v AND push_bit n (mask 8))) :: u8) = ucast (drop_bit n v)"
    and "8 \<le> LENGTH('a) \<Longrightarrow> (ucast (v AND mask 8) :: u8) = ucast v"
  by (rule bit_word_eqI; simp add: bit_simps; fail)+

lemma ucast_u8_u8:
  "8 \<le> LENGTH('a) \<Longrightarrow> (ucast (ucast (v :: 'a::len word) :: u8) :: 'a word) = take_bit 8 v"
  by (rule bit_word_eqI) (auto simp: bit_simps)

lemma take_bit_step:
  "push_bit n (take_bit 8 (drop_bit n v)) + take_bit n v = take_bit (n + 8) (v :: 'a::len word)"
  by (subst disjunctive_add) (auto intro!: bit_word_eqI simp: bit_simps)

lemma take_bit_full: "LENGTH('a) \<le> n \<Longrightarrow> take_bit n (v :: 'a::len word) = v"
  by (rule bit_word_eqI) (simp add: bit_simps)

lemma be_join16:
  "push_bit 8 (ucast (ucast (drop_bit 8 v) :: u8)) + ucast (ucast v :: u8) = (v :: u16)"
  using take_bit_step [of 8 v] by (simp add: ucast_u8_u8 take_bit_full)

lemma be_join32:
  "push_bit 24 (ucast (ucast (drop_bit 24 v) :: u8)) + push_bit 16 (ucast (ucast (drop_bit 16 v) :: u8))
   + push_bit 8 (ucast (ucast (drop_bit 8 v) :: u8)) + ucast (ucast v :: u8) = (v :: u32)"
  using take_bit_step [of 8 v] take_bit_step [of 16 v] take_bit_step [of 24 v]
  by (simp add: ucast_u8_u8 take_bit_full add.assoc)

lemma be_join64:
  "push_bit 56 (ucast (ucast (drop_bit 56 v) :: u8)) + push_bit 48 (ucast (ucast (drop_bit 48 v) :: u8))
   + push_bit 40 (ucast (ucast (drop_bit 40 v) :: u8)) + push_bit 32 (ucast (ucast (drop_bit 32 v) :: u8))
   + push_bit 24 (ucast (ucast (drop_bit 24 v) :: u8)) + push_bit 16 (ucast (ucast (drop_bit 16 v) :: u8))
   + push_bit 8 (ucast (ucast (drop_bit 8 v) :: u8)) + ucast (ucast v :: u8) = (v :: u64)"
  using take_bit_step [of 8 v] take_bit_step [of 16 v] take_bit_step [of 24 v] take_bit_step [of 32 v]
    take_bit_step [of 40 v] take_bit_step [of 48 v] take_bit_step [of 56 v]
  by (simp add: ucast_u8_u8 take_bit_full add.assoc)

lemma serialize_uint16_n_spec:
  assumes "wf_aa a"
  shows "serialize_uint16_n v a =
    (if bytes_available a < 2 then (Inl AssemblyAreaException, a)
     else (Inr (), aa_append (be_bytes16 v) a))"
  using assms
  by (simp add: serialize_uint16_n_def bindE_def serialize_byte_spec aa_append_append
      be_bytes16_def be_masks byte_of_mask)

lemma serialize_uint32_n_spec:
  assumes "wf_aa a"
  shows "serialize_uint32_n v a =
    (if bytes_available a < 4 then (Inl AssemblyAreaException, a)
     else (Inr (), aa_append (be_bytes32 v) a))"
  using assms
  by (simp add: serialize_uint32_n_def bindE_def serialize_byte_spec aa_append_append
      be_bytes32_def be_masks byte_of_mask del: drop_bit_and)

lemma serialize_uint64_n_spec:
  assumes "wf_aa a" "8 \<le> bytes_available a"
  shows "serialize_uint64_n v a = (Inr (), aa_append (be_bytes64 v) a)"
  using assms
  by (simp add: serialize_uint64_n_def bindE_def serialize_byte_spec aa_append_append
      be_bytes64_def be_masks byte_of_mask del: drop_bit_and)

lemma da_advance_Sucs:
  "da_advance (Suc (Suc 0)) = da_advance 2"
  "da_advance (Suc (Suc (Suc (Suc 0)))) = da_advance 4"
  "da_advance (Suc (Suc (Suc (Suc (Suc (Suc (Suc (Suc 0)))))))) = da_advance 8"
  by (simp_all add: eval_nat_numeral)

lemma deserialize_uint16_n_spec:
  assumes "wf_da a" "da_rest a = be_bytes16 v @ r"
  shows "deserialize_uint16_n a = (Inr v, da_advance 2 a)"
proof -
  have "bytes_available a \<ge> 2" using assms length_da_rest [of a] by simp
  with assms show ?thesis
    by (simp add: deserialize_uint16_n_def bindE_def deserialize_byte_spec be_bytes16_def be_join16 da_advance_Sucs)
qed

lemma deserialize_uint32_n_spec:
  assumes "wf_da a" "da_rest a = be_bytes32 v @ r"
  shows "deserialize_uint32_n a = (Inr v, da_advance 4 a)"
proof -
  have "bytes_available a \<ge> 4" using assms length_da_rest [of a] by simp
  with assms show ?thesis
    by (simp add: deserialize_uint32_n_def bindE_def deserialize_byte_spec be_bytes32_def be_join32 da_advance_Sucs)
qed

lemma deserialize_uint64_n_spec:
  assumes "wf_da a" "da_rest a = be_bytes64 v @ r"
  shows "deserialize_uint64_n a = (Inr v, da_advance 8 a)"
proof -
  have "bytes_available a \<ge> 8" using assms length_da_rest [of a] by simp
  with assms show ?thesis
    by (simp add: deserialize_uint64_n_def bindE_def deserialize_byte_spec be_bytes64_def be_join64 da_advance_Sucs)
qed

section \<open>Areas stay well-formed\<close>

lemma preserves_serialize_byte [wf_intros]: "preserves wf_aa (serialize_byte b)"
  by (rule preservesI) (simp add: serialize_byte_spec)

lemma preserves_serialize_uint16_n [wf_intros]: "preserves wf_aa (serialize_uint16_n v)"
  unfolding serialize_uint16_n_def by (intro wf_intros)

lemma preserves_serialize_uint32_n [wf_intros]: "preserves wf_aa (serialize_uint32_n v)"
  unfolding serialize_uint32_n_def by (intro wf_intros)

lemma preserves_serialize_uint64_n [wf_intros]: "preserves wf_aa (serialize_uint64_n v)"
  unfolding serialize_uint64_n_def by (intro wf_intros)

lemma preserves_deserialize_byte [wf_intros]: "preserves wf_da deserialize_byte"
  by (rule preservesI) (simp add: deserialize_byte_spec)

lemma preserves_deserialize_uint16_n [wf_intros]: "preserves wf_da deserialize_uint16_n"
  unfolding deserialize_uint16_n_def by (intro wf_intros)

lemma preserves_deserialize_uint32_n [wf_intros]: "preserves wf_da deserialize_uint32_n"
  unfolding deserialize_uint32_n_def by (intro wf_intros)

lemma preserves_deserialize_uint64_n [wf_intros]: "preserves wf_da deserialize_uint64_n"
  unfolding deserialize_uint64_n_def by (intro wf_intros)

text \<open>
  An insufficient area: with four to seven bytes left the 64-bit method passes its
  guard, writes the bytes that fit and throws from inside.
\<close>

lemma serialize_uint64_n_partial:
  assumes "wf_aa a" "4 \<le> bytes_available a" "bytes_available a < 8"
  shows "serialize_uint64_n v a
         = (Inl AssemblyAreaException, aa_append (take (bytes_available a) (be_bytes64 v)) a)"
proof -
  consider "bytes_available a = 4" | "bytes_available a = 5" | "bytes_available a = 6"
    | "bytes_available a = 7"
    using assms by linarith
  then show ?thesis
    by cases (use assms in \<open>simp_all add: serialize_uint64_n_def bindE_def serialize_byte_spec
      aa_append_append be_bytes64_def be_masks byte_of_mask del: drop_bit_and\<close>)
qed

end
