(* ===== verification/Codec.thy ===== *)
theory Codec
  imports Area
begin

text \<open>
  The contract between the transmissible types (\<open>dcp/common/transmissible_type.h\<close>)
  and the serialization areas, as the locale \<open>codec\<close>: \<open>serialize\<close> appends the wire
  image of a well-formed value to an assembly area with room for it, \<open>deserialize\<close>
  consumes that image and gives the value back, and whatever \<open>deserialize\<close> returns is
  a well-formed value whose wire image it has consumed.  The locale lifts the
  contract to sequences of records, as instruction containers hold them.  The file
  interprets it on the integral types.
\<close>

section \<open>The contract\<close>

locale codec =
  fixes ser :: "'a \<Rightarrow> (aa, unit) action"
    and des :: "(da, 'a) action"
    and enc :: "'a \<Rightarrow> u8 list"
    and ok :: "'a \<Rightarrow> bool"
  assumes ser: "ok x \<Longrightarrow> wf_aa a \<Longrightarrow> length (enc x) \<le> bytes_available a
      \<Longrightarrow> ser x a = (Inr (), aa_append (enc x) a)"
    and des: "ok x \<Longrightarrow> wf_da d \<Longrightarrow> da_rest d = enc x @ r
      \<Longrightarrow> des d = (Inr x, da_advance (length (enc x)) d)"
    and des_sound: "wf_da d \<Longrightarrow> des d = (Inr x, d')
      \<Longrightarrow> ok x \<and> (\<exists>r. da_rest d = enc x @ r) \<and> d' = da_advance (length (enc x)) d"
begin

lemma des_rest:
  assumes "ok x" "wf_da d" "da_rest d = enc x @ r"
  shows "\<exists>d'. des d = (Inr x, d') \<and> wf_da d' \<and> da_rest d' = r"
proof -
  have "length (enc x) \<le> bytes_available d" using assms length_da_rest [of d] by simp
  with assms des show ?thesis by simp
qed

lemma des_soundD:
  assumes "des d = (Inr x, d')" "wf_da d"
  shows "ok x" "da_rest d = enc x @ da_rest d'" "wf_da d'" "d' = da_advance (length (enc x)) d"
proof -
  from des_sound [OF assms(2,1)] obtain r where
    "ok x" and r: "da_rest d = enc x @ r" and d': "d' = da_advance (length (enc x)) d" by auto
  moreover have "length (enc x) \<le> bytes_available d"
    using r length_da_rest [OF assms(2)] by simp
  ultimately show "ok x" "da_rest d = enc x @ da_rest d'" "wf_da d'"
    "d' = da_advance (length (enc x)) d" using assms(2) by auto
qed

text \<open>Two values with the same wire image in front of the same rest are the same value.\<close>

lemma enc_inj:
  assumes "ok x" "ok y" "enc x @ r = enc y @ s"
  shows "x = y" and "r = s"
proof -
  let ?d = "ByteVectorDisassemblyArea (enc x @ r)"
  have "des ?d = (Inr x, da_advance (length (enc x)) ?d)"
    by (rule des [where r = r]) (use assms in simp_all)
  moreover have "des ?d = (Inr y, da_advance (length (enc y)) ?d)"
    by (rule des [where r = s]) (use assms in simp_all)
  ultimately show "x = y" by simp
  with assms show "r = s" by simp
qed

lemma roundtrip:
  assumes "ok x" "wf_aa a" "length (enc x) \<le> bytes_available a" "aa_written a = []"
  shows "\<exists>a'. ser x a = (Inr (), a') \<and>
    (\<exists>d'. des (ByteVectorDisassemblyArea (aa_written a')) = (Inr x, d') \<and> da_rest d' = [])"
  using ser [OF assms(1-3)] des_rest [of x "ByteVectorDisassemblyArea (enc x)" "[]"] assms
  by auto

lemma ser_list:
  "\<forall>x \<in> set xs. ok x \<Longrightarrow> wf_aa a \<Longrightarrow> length (concat (map enc xs)) \<le> bytes_available a
   \<Longrightarrow> forE ser xs a = (Inr (), aa_append (concat (map enc xs)) a)"
proof (induction xs arbitrary: a)
  case (Cons x xs)
  then show ?case
    using Cons.IH [of "aa_append (enc x) a"] aa_append_append [of a "enc x" "concat (map enc xs)"]
    by (simp add: ser)
qed simp

lemma des_list:
  "\<forall>x \<in> set xs. ok x \<Longrightarrow> wf_da d \<Longrightarrow> da_rest d = concat (map enc xs) @ r
   \<Longrightarrow> repeatE (length xs) des d = (Inr xs, da_advance (length (concat (map enc xs))) d)"
proof (induction xs arbitrary: d)
  case (Cons x xs)
  have "length (enc x) \<le> bytes_available d" using Cons.prems length_da_rest [of d] by simp
  then show ?case
    using Cons.prems Cons.IH [of "da_advance (length (enc x)) d"]
      des [of x d "concat (map enc xs) @ r"]
    by (simp add: bindE_def)
qed simp

lemma des_list_sound:
  "repeatE n des d = (Inr xs, d') \<Longrightarrow> wf_da d
   \<Longrightarrow> length xs = n \<and> (\<forall>x \<in> set xs. ok x) \<and> da_rest d = concat (map enc xs) @ da_rest d' \<and> wf_da d'"
proof (induction n arbitrary: d xs)
  case (Suc n)
  from Suc.prems(1) obtain x ys d1 where
    x: "des d = (Inr x, d1)" and ys: "repeatE n des d1 = (Inr ys, d')" "xs = x # ys"
    by (auto elim!: bindE_InrE)
  from des_soundD [OF x Suc.prems(2)] Suc.IH [OF ys(1)] ys(2) show ?case by auto
qed auto

end

section \<open>Composition\<close>

text \<open>
  A type whose methods serialize its fields one after the other: pairs of codecs, and
  a bijection between the record and the tuple of its fields.
\<close>

lemma codec_pair:
  assumes "codec s1 d1 e1 k1" "codec s2 d2 e2 k2"
  shows "codec (\<lambda>(x, y). thenE (s1 x) (s2 y)) (bindE d1 (\<lambda>x. bindE d2 (\<lambda>y. retE (x, y))))
    (\<lambda>(x, y). e1 x @ e2 y) (\<lambda>(x, y). k1 x \<and> k2 y)"
proof (unfold_locales, goal_cases)
  case (1 p a)
  then show ?case
    by (cases p) (simp add: bindE_def codec.ser [OF assms(1)] codec.ser [OF assms(2)] aa_append_append)
next
  case (2 p d r)
  obtain x y where p: "p = (x, y)" by (cases p)
  have "length (e1 x) \<le> bytes_available d" using 2 p length_da_rest [of d] by simp
  then show ?case
    using 2 p codec.des [OF assms(1), of x d "e2 y @ r"]
      codec.des [OF assms(2), of y "da_advance (length (e1 x)) d" r]
    by (simp add: bindE_def)
next
  case (3 d p d')
  from 3(2) obtain x dm y where x: "d1 d = (Inr x, dm)" and y: "d2 dm = (Inr y, d')" and p: "p = (x, y)"
    by (auto elim!: bindE_InrE)
  from codec.des_soundD [OF assms(1) x 3(1)] codec.des_soundD [OF assms(2) y] p
  show ?case by auto
qed

lemma codec_iso:
  assumes "codec s d e k" and fg: "\<And>y. f (g y) = y" "\<And>x. g (f x) = x"
  shows "codec (\<lambda>y. s (g y)) (bindE d (\<lambda>x. retE (f x))) (\<lambda>y. e (g y)) (\<lambda>y. k (g y))"
proof (unfold_locales, goal_cases)
  case (1 x a)
  then show ?case by (simp add: codec.ser [OF assms(1)])
next
  case (2 x da r)
  then show ?case using codec.des [OF assms(1), of "g x"] by (simp add: bindE_def fg)
next
  case (3 da y d')
  from 3(2) obtain x where x: "d da = (Inr x, d')" and y: "y = f x" by (auto elim!: bindE_InrE)
  from codec.des_sound [OF assms(1) 3(1) x] y show ?case by (simp add: fg)
qed

lemmas codec_unfold = bindE_assoc bindE_retE

section \<open>Integral types\<close>

text \<open>
  \<open>TransmissibleIntegral<T>\<close> for the sizes the protocols use.  Its arithmetic is that
  of the word type; \<open>++\<close> and \<open>--\<close> wrap.
\<close>

definition ser_integral8 :: "u8 \<Rightarrow> (aa, unit) action" where
  "ser_integral8 val = serialize_byte val"

definition des_integral8 :: "(da, u8) action" where
  "des_integral8 = deserialize_byte"

definition ser_integral16 :: "u16 \<Rightarrow> (aa, unit) action" where
  "ser_integral16 val = serialize_uint16_n val"

definition des_integral16 :: "(da, u16) action" where
  "des_integral16 = deserialize_uint16_n"

definition integral_incr :: "'a::len word \<Rightarrow> 'a word" where
  "integral_incr val = val + 1"

definition integral_decr :: "'a::len word \<Rightarrow> 'a word" where
  "integral_decr val = val - 1"

definition enc_byte :: "u8 \<Rightarrow> u8 list" where
  "enc_byte b = [b]"

lemma length_enc_byte [simp]: "length (enc_byte b) = 1"
  by (simp add: enc_byte_def)

lemma deserialize_byte_sound:
  assumes "wf_da d" "deserialize_byte d = (Inr b, d')"
  shows "(\<exists>r. da_rest d = b # r) \<and> d' = da_advance 1 d \<and> wf_da d' \<and> 0 < bytes_available d"
proof -
  have "0 < bytes_available d"
    using assms by (auto simp: deserialize_byte_spec split: if_splits)
  moreover from this have "da_rest d \<noteq> []" using length_da_rest [OF assms(1)] by force
  ultimately show ?thesis
    using assms by (cases "da_rest d") (auto simp: deserialize_byte_spec)
qed

interpretation c8: codec ser_integral8 des_integral8 enc_byte "\<lambda>_. True"
proof unfold_locales
  fix x :: u8 and a d d' r
  show "wf_aa a \<Longrightarrow> length (enc_byte x) \<le> bytes_available a
      \<Longrightarrow> ser_integral8 x a = (Inr (), aa_append (enc_byte x) a)"
    by (auto simp: ser_integral8_def serialize_byte_spec enc_byte_def)
  show "des_integral8 d = (Inr x, da_advance (length (enc_byte x)) d)"
    if "wf_da d" "da_rest d = enc_byte x @ r"
    using that length_da_rest [of d] by (auto simp: des_integral8_def deserialize_byte_spec enc_byte_def)
  show "wf_da d \<Longrightarrow> des_integral8 d = (Inr x, d')
      \<Longrightarrow> True \<and> (\<exists>r. da_rest d = enc_byte x @ r) \<and> d' = da_advance (length (enc_byte x)) d"
    using deserialize_byte_sound [of d x d'] by (auto simp: des_integral8_def enc_byte_def)
qed

lemma be_split16:
  "be_bytes16 (push_bit 8 (ucast b1) + ucast b2) = [b1, b2]"
  unfolding be_bytes16_def
  by (subst (1 2) disjunctive_add; (intro list.inject [THEN iffD2] conjI bit_word_eqI refl)?;
      auto simp: bit_simps dest: bit_imp_le_length)

interpretation c16: codec ser_integral16 des_integral16 be_bytes16 "\<lambda>_. True"
proof unfold_locales
  fix x :: u16 and a d d' r
  show "wf_aa a \<Longrightarrow> length (be_bytes16 x) \<le> bytes_available a
      \<Longrightarrow> ser_integral16 x a = (Inr (), aa_append (be_bytes16 x) a)"
    by (simp add: ser_integral16_def serialize_uint16_n_spec)
  show "wf_da d \<Longrightarrow> da_rest d = be_bytes16 x @ r
      \<Longrightarrow> des_integral16 d = (Inr x, da_advance (length (be_bytes16 x)) d)"
    by (simp add: des_integral16_def deserialize_uint16_n_spec)
  show "True \<and> (\<exists>r. da_rest d = be_bytes16 x @ r) \<and> d' = da_advance (length (be_bytes16 x)) d"
    if "wf_da d" "des_integral16 d = (Inr x, d')"
  proof -
    from that obtain b1 b2 d1 where b1: "deserialize_byte d = (Inr b1, d1)"
      and b2: "deserialize_byte d1 = (Inr b2, d')" and x: "x = push_bit 8 (ucast b1) + ucast b2"
      unfolding des_integral16_def deserialize_uint16_n_def
      by (elim bindE_InrE) (auto split: if_splits)
    from deserialize_byte_sound [OF that(1) b1] deserialize_byte_sound [OF _ b2]
    show ?thesis by (auto simp: x be_split16 numeral_2_eq_2)
  qed
qed

section \<open>Byte blocks\<close>

lemma ser_block:
  assumes "wf_aa a" "length bs \<le> bytes_available a" "bs \<noteq> []"
  shows "serialize_byte_block (length bs) (Some bs) a = (Inr (), aa_append bs a)"
  using assms by (simp add: serialize_byte_block_spec)

lemma des_block:
  assumes "wf_da d" "da_rest d = bs @ r" "bs \<noteq> []" "length pb = length bs"
  shows "deserialize_byte_block (length bs) (Some pb) d = (Inr bs, da_advance (length bs) d)"
proof -
  have "length bs \<le> bytes_available d" using assms length_da_rest [of d] by simp
  with assms show ?thesis by (simp add: deserialize_byte_block_spec)
qed

lemma des_block_sound:
  assumes "wf_da d" "length pb = n" "deserialize_byte_block n (Some pb) d = (Inr bs, d')"
  shows "length bs = n \<and> bs \<noteq> [] \<and> (\<exists>r. da_rest d = bs @ r) \<and> d' = da_advance n d \<and> wf_da d'"
proof -
  have b: "bs = take n (da_rest d)" "d' = da_advance n d" "0 < n" "n \<le> bytes_available d"
    using assms by (auto simp: deserialize_byte_block_spec split: if_splits)
  then have l: "length bs = n" and "wf_da d'" using assms by auto
  moreover have "bs \<noteq> []" using l b(3) by auto
  moreover have "\<exists>r. da_rest d = bs @ r" using b(1) by (metis append_take_drop_id)
  ultimately show ?thesis using b(2) by simp
qed

text \<open>
  The host's memory image of a 64-bit integer, as \<open>memcpy\<close> copies it: least
  significant byte first on the little-endian machines the program is built for.
\<close>

definition le_bytes64 :: "u64 \<Rightarrow> u8 list" where
  "le_bytes64 v = map (\<lambda>i. ucast (drop_bit (8 * i) v)) [0..<8]"

definition le_word64 :: "u8 list \<Rightarrow> u64" where
  "le_word64 bs = foldr (\<lambda>b w. push_bit 8 w + ucast b) bs 0"

lemma length_le_bytes64 [simp]: "length (le_bytes64 v) = 8"
  by (simp add: le_bytes64_def)

lemma bit_push_add:
  "bit (push_bit 8 w + ucast (b :: u8) :: u64) n \<longleftrightarrow> (if n < 8 then bit b n else n < 64 \<and> bit w (n - 8))"
  by (subst disjunctive_add) (auto simp: bit_simps not_le dest: bit_imp_le_length)

lemma bit_le_word64:
  "bit (le_word64 bs) n \<longleftrightarrow> n < 64 \<and> n div 8 < length bs \<and> bit (bs ! (n div 8)) (n mod 8)"
proof (induction bs arbitrary: n)
  case (Cons b bs)
  have "le_word64 (b # bs) = push_bit 8 (le_word64 bs) + ucast b" by (simp add: le_word64_def)
  then show ?case
    using Cons.IH [of "n - 8"] by (auto simp: bit_push_add le_div_geq le_mod_geq not_less)
qed (simp add: le_word64_def)

lemma le_word64_bytes [simp]: "le_word64 (le_bytes64 v) = v"
  by (rule bit_word_eqI) (simp add: bit_le_word64 le_bytes64_def bit_simps less_mult_imp_div_less)

lemma le_bytes64_word:
  assumes "length bs = 8"
  shows "le_bytes64 (le_word64 bs) = bs"
proof (rule nth_equalityI)
  fix i assume "i < length (le_bytes64 (le_word64 bs))"
  then show "le_bytes64 (le_word64 bs) ! i = bs ! i"
    using assms by (intro bit_word_eqI) (simp add: le_bytes64_def bit_simps bit_le_word64)
qed (use assms in simp)

end
