(* ===== verification/DcpTypes.thy ===== *)
theory DcpTypes
  imports Codec "HOL-Library.Signed_Division"
begin

text \<open>
  The types shared by the protocols: \<open>dcp/common/global_types_constants.h\<close> and
  \<open>dcp/common/memblock.h\<close>.  Each type has its serialization methods, its wire image
  and an interpretation of the locale \<open>codec\<close>.
\<close>

section \<open>Protocol identifiers\<close>

type_synonym BPProtocolIdT = u16

definition BP_PROTID_SRP :: BPProtocolIdT where "BP_PROTID_SRP = 0x0001"
definition BP_PROTID_VARDIS :: BPProtocolIdT where "BP_PROTID_VARDIS = 0x0002"

definition maxBeaconPayloadSize :: nat where "maxBeaconPayloadSize = 1500"

section \<open>Node identifiers\<close>

text \<open>The array \<open>nodeId\<close> of \<open>IEEE_MAC_ADDRESS_SIZE = 6\<close> bytes.\<close>

datatype NodeIdentifierT = NodeIdentifierT u8 u8 u8 u8 u8 u8

fun nodeId :: "NodeIdentifierT \<Rightarrow> u8 list" where
  "nodeId (NodeIdentifierT a b c d e f) = [a, b, c, d, e, f]"

definition nullNodeIdentifier :: NodeIdentifierT where
  "nullNodeIdentifier = NodeIdentifierT 0 0 0 0 0 0"

definition NodeIdentifierT_of_bytes :: "u8 list option \<Rightarrow> dcp_error + NodeIdentifierT" where
  "NodeIdentifierT_of_bytes pb =
     (case pb of
        None \<Rightarrow> Inl std_invalid_argument
      | Some bs \<Rightarrow> Inr (NodeIdentifierT (bs ! 0) (bs ! 1) (bs ! 2) (bs ! 3) (bs ! 4) (bs ! 5)))"

fun to_uint64_t :: "NodeIdentifierT \<Rightarrow> u64" where
  "to_uint64_t (NodeIdentifierT a b c d e f) =
     push_bit 40 (ucast a) + push_bit 32 (ucast b) + push_bit 24 (ucast c) + push_bit 16 (ucast d)
     + push_bit 8 (ucast e) + ucast f"

definition ser_NodeIdentifierT :: "NodeIdentifierT \<Rightarrow> (aa, unit) action" where
  "ser_NodeIdentifierT n = serialize_byte_block 6 (Some (nodeId n))"

definition des_NodeIdentifierT :: "(da, NodeIdentifierT) action" where
  "des_NodeIdentifierT =
     bindE (deserialize_byte_block 6 (Some (nodeId nullNodeIdentifier))) (\<lambda>bs.
     retE (NodeIdentifierT (bs ! 0) (bs ! 1) (bs ! 2) (bs ! 3) (bs ! 4) (bs ! 5)))"

lemma length_nodeId [simp]: "length (nodeId n) = 6"
  by (cases n) simp

lemma nodeId_not_Nil [simp]: "nodeId n \<noteq> []"
  by (cases n) simp

lemma nodeId_nth [simp, unfolded One_nat_def, simp]:
  "NodeIdentifierT (nodeId n ! 0) (nodeId n ! 1) (nodeId n ! 2) (nodeId n ! 3) (nodeId n ! 4) (nodeId n ! 5) = n"
  by (cases n) simp

lemma length_6_conv: "length bs = 6 \<longleftrightarrow> (\<exists>a b c d e f. bs = [a, b, c, d, e, f])"
  by (auto simp: numeral_eq_Suc length_Suc_conv)

lemma nodeId_of_nth [simp, unfolded One_nat_def, simp]:
  "length bs = 6 \<Longrightarrow> nodeId (NodeIdentifierT (bs ! 0) (bs ! 1) (bs ! 2) (bs ! 3) (bs ! 4) (bs ! 5)) = bs"
  by (auto simp: length_6_conv)

interpretation node_codec: codec ser_NodeIdentifierT des_NodeIdentifierT nodeId "\<lambda>_. True"
proof unfold_locales
  fix x :: NodeIdentifierT and a d d' r
  show "wf_aa a \<Longrightarrow> length (nodeId x) \<le> bytes_available a
      \<Longrightarrow> ser_NodeIdentifierT x a = (Inr (), aa_append (nodeId x) a)"
    using ser_block [of a "nodeId x"] by (simp add: ser_NodeIdentifierT_def)
  show "wf_da d \<Longrightarrow> da_rest d = nodeId x @ r
      \<Longrightarrow> des_NodeIdentifierT d = (Inr x, da_advance (length (nodeId x)) d)"
    using des_block [of d "nodeId x" r "nodeId nullNodeIdentifier"]
    by (simp add: des_NodeIdentifierT_def bindE_def)
  show "True \<and> (\<exists>r. da_rest d = nodeId x @ r) \<and> d' = da_advance (length (nodeId x)) d"
    if "wf_da d" "des_NodeIdentifierT d = (Inr x, d')"
    using that(2) unfolding des_NodeIdentifierT_def
    by (elim bindE_InrE) (auto simp del: nodeId.simps dest!: des_block_sound [OF that(1), rotated])
qed

text \<open>The order of node identifiers is that of their 48-bit numbers, a linear order.\<close>

lemma to_uint64_t_le_word64: "to_uint64_t n = le_word64 (rev (nodeId n))"
  by (cases n) (simp add: le_word64_def push_bit_add ac_simps)

lemma le_word64_inject: "le_word64 xs = le_word64 ys \<Longrightarrow> length xs = 8 \<Longrightarrow> length ys = 8 \<Longrightarrow> xs = ys"
  by (metis le_bytes64_word)

lemma to_uint64_t_inject: "to_uint64_t n = to_uint64_t m \<longleftrightarrow> n = m"
proof
  assume "to_uint64_t n = to_uint64_t m"
  moreover have "to_uint64_t k = le_word64 (rev (nodeId k) @ [0, 0])" for k
    by (simp add: to_uint64_t_le_word64 le_word64_def)
  ultimately have "le_word64 (rev (nodeId n) @ [0, 0]) = le_word64 (rev (nodeId m) @ [0, 0])" by simp
  then have "rev (nodeId n) @ [0, 0] = rev (nodeId m) @ [0, 0]"
    by (rule le_word64_inject) simp_all
  then show "n = m" by (cases n; cases m) simp
qed simp

definition node_less :: "NodeIdentifierT \<Rightarrow> NodeIdentifierT \<Rightarrow> bool" where
  "node_less lhs rhs \<longleftrightarrow> to_uint64_t lhs < to_uint64_t rhs"

definition node_less_eq :: "NodeIdentifierT \<Rightarrow> NodeIdentifierT \<Rightarrow> bool" where
  "node_less_eq lhs rhs \<longleftrightarrow> \<not> node_less rhs lhs"

instantiation NodeIdentifierT :: linorder
begin

definition less_NodeIdentifierT :: "NodeIdentifierT \<Rightarrow> NodeIdentifierT \<Rightarrow> bool" where
  "less_NodeIdentifierT = node_less"

definition less_eq_NodeIdentifierT :: "NodeIdentifierT \<Rightarrow> NodeIdentifierT \<Rightarrow> bool" where
  "less_eq_NodeIdentifierT = node_less_eq"

instance
proof
  fix x y z :: NodeIdentifierT
  show "x < y \<longleftrightarrow> x \<le> y \<and> \<not> y \<le> x"
    by (auto simp: less_NodeIdentifierT_def less_eq_NodeIdentifierT_def node_less_def node_less_eq_def)
  show "x \<le> x" by (simp add: less_eq_NodeIdentifierT_def node_less_eq_def node_less_def)
  show "x \<le> y \<Longrightarrow> y \<le> z \<Longrightarrow> x \<le> z" by (simp add: less_eq_NodeIdentifierT_def node_less_eq_def node_less_def not_less)
  show "x \<le> y \<Longrightarrow> y \<le> x \<Longrightarrow> x = y"
    by (simp add: less_eq_NodeIdentifierT_def node_less_eq_def node_less_def not_less to_uint64_t_inject [symmetric])
  show "x \<le> y \<or> y \<le> x" by (auto simp: less_eq_NodeIdentifierT_def node_less_eq_def node_less_def not_less)
qed

end

section \<open>Time stamps\<close>

text \<open>
  \<open>time_point<high_resolution_clock>\<close> holds a signed 64-bit count of nanoseconds; it is
  serialized as its memory image.  \<open>milliseconds_passed_since\<close> truncates the quotient
  to 32 bits.
\<close>

type_synonym TimeStampT = u64

definition timestamp_ge :: "TimeStampT \<Rightarrow> TimeStampT \<Rightarrow> bool" where
  "timestamp_ge lhs rhs \<longleftrightarrow> sint lhs \<ge> sint rhs"

definition ser_TimeStampT :: "TimeStampT \<Rightarrow> (aa, unit) action" where
  "ser_TimeStampT t = serialize_byte_block 8 (Some (le_bytes64 t))"

definition des_TimeStampT :: "(da, TimeStampT) action" where
  "des_TimeStampT =
     bindE (deserialize_byte_block 8 (Some (le_bytes64 0))) (\<lambda>bs.
     retE (le_word64 bs))"

definition milliseconds_passed_since :: "TimeStampT \<Rightarrow> TimeStampT \<Rightarrow> u32" where
  "milliseconds_passed_since tStamp past_time =
     (if sint tStamp < sint past_time then 0
      else word_of_int (sint (tStamp - past_time) sdiv 1000000))"

lemma le_bytes64_not_Nil [simp]: "le_bytes64 t \<noteq> []"
  using length_le_bytes64 [of t] by force

interpretation time_codec: codec ser_TimeStampT des_TimeStampT le_bytes64 "\<lambda>_. True"
proof unfold_locales
  fix x :: TimeStampT and a d d' r
  show "wf_aa a \<Longrightarrow> length (le_bytes64 x) \<le> bytes_available a
      \<Longrightarrow> ser_TimeStampT x a = (Inr (), aa_append (le_bytes64 x) a)"
    using ser_block [of a "le_bytes64 x"] by (simp add: ser_TimeStampT_def)
  show "wf_da d \<Longrightarrow> da_rest d = le_bytes64 x @ r
      \<Longrightarrow> des_TimeStampT d = (Inr x, da_advance (length (le_bytes64 x)) d)"
    using des_block [of d "le_bytes64 x" r "le_bytes64 0"]
    by (simp add: des_TimeStampT_def bindE_def)
  show "True \<and> (\<exists>r. da_rest d = le_bytes64 x @ r) \<and> d' = da_advance (length (le_bytes64 x)) d"
    if "wf_da d" "des_TimeStampT d = (Inr x, d')"
    using that(2) unfolding des_TimeStampT_def
    by (elim bindE_InrE) (auto simp: le_bytes64_word dest!: des_block_sound [OF that(1), rotated])
qed

section \<open>Memory blocks and strings\<close>

record MemBlock =
  mb_length :: nat
  mb_data :: "u8 list option"
  do_delete :: bool

definition new_MemBlock :: MemBlock where
  "new_MemBlock = \<lparr>mb_length = 0, mb_data = None, do_delete = True\<rparr>"

definition mb_check_delete :: "'a MemBlock_scheme \<Rightarrow> 'a MemBlock_scheme" where
  "mb_check_delete m =
     (if mb_data m \<noteq> None \<and> do_delete m then m\<lparr>mb_data := None, mb_length := 0\<rparr> else m)"

definition mb_set :: "nat \<Rightarrow> u8 list option \<Rightarrow> 'a MemBlock_scheme \<Rightarrow> 'a MemBlock_scheme" where
  "mb_set len pdata m =
     (let m = mb_check_delete m in
      case pdata of
        Some bs \<Rightarrow>
          (if 0 < len then m\<lparr>mb_length := len, mb_data := Some (take len bs), do_delete := True\<rparr>
           else m\<lparr>mb_length := 0, mb_data := None\<rparr>)
      | None \<Rightarrow> m\<lparr>mb_length := 0, mb_data := None\<rparr>)"

definition mb_eq :: "'a MemBlock_scheme \<Rightarrow> 'b MemBlock_scheme \<Rightarrow> bool" where
  "mb_eq m other =
     (if mb_length m = 0 then mb_length other = 0
      else if do_delete m \<noteq> do_delete other \<or> mb_length m \<noteq> mb_length other
              \<or> mb_data m = None \<or> mb_data other = None then False
      else take (mb_length m) (the (mb_data m)) = take (mb_length m) (the (mb_data other)))"

text \<open>The block that owns a copy of the bytes \<open>bs\<close>, and the bytes of a block.\<close>

definition mb_of :: "u8 list \<Rightarrow> MemBlock" where
  "mb_of bs = \<lparr>mb_length = length bs, mb_data = (if bs = [] then None else Some bs), do_delete = True\<rparr>"

definition mb_bytes :: "'a MemBlock_scheme \<Rightarrow> u8 list" where
  "mb_bytes m = (case mb_data m of None \<Rightarrow> [] | Some bs \<Rightarrow> bs)"

lemma mb_bytes_of [simp]: "mb_bytes (mb_of bs) = bs"
  by (simp add: mb_bytes_def mb_of_def)

lemma mb_length_of [simp]: "mb_length (mb_of bs) = length bs"
  by (simp add: mb_of_def)

lemma mb_set_new: "mb_set (length bs) (Some bs) new_MemBlock = mb_of bs"
  by (simp add: mb_set_def mb_check_delete_def new_MemBlock_def mb_of_def)

lemma mb_eq_of [simp]: "mb_eq (mb_of xs) (mb_of ys) \<longleftrightarrow> xs = ys"
  by (auto simp: mb_eq_def mb_of_def)

type_synonym StringT = MemBlock

definition ser_StringT :: "StringT \<Rightarrow> (aa, unit) action" where
  "ser_StringT s =
     bindE (serialize_byte (of_nat (mb_length s))) (\<lambda>_.
     if mb_length s > 0 then serialize_byte_block (mb_length s) (mb_data s) else retE ())"

text \<open>Deserialization into a fresh object, whose \<open>data\<close> pointer is null.\<close>

definition des_StringT :: "(da, StringT) action" where
  "des_StringT =
     bindE deserialize_byte (\<lambda>l.
     if unat l > 0 then
       bindE (deserialize_byte_block (unat l) (Some (replicate (unat l) 0))) (\<lambda>bs.
       retE (new_MemBlock\<lparr>mb_length := unat l, mb_data := Some bs\<rparr>))
     else retE new_MemBlock)"

definition StringT_of_chars :: "u8 list \<Rightarrow> dcp_error + StringT" where
  "StringT_of_chars cstr =
     (let len = length (takeWhile (\<lambda>b. b \<noteq> 0) cstr) in
      if len > 255 then Inl std_invalid_argument
      else Inr (mb_set len (Some cstr) (new_MemBlock\<lparr>mb_length := len\<rparr>)))"

definition wf_StringT :: "StringT \<Rightarrow> bool" where
  "wf_StringT s \<longleftrightarrow> s = mb_of (mb_bytes s) \<and> length (mb_bytes s) \<le> 255"

definition enc_StringT :: "StringT \<Rightarrow> u8 list" where
  "enc_StringT s = of_nat (mb_length s) # mb_bytes s"

definition StringT_total_size :: "StringT \<Rightarrow> nat" where
  "StringT_total_size s = 1 + mb_length s"

lemma wf_StringT_of [simp]: "length bs \<le> 255 \<Longrightarrow> wf_StringT (mb_of bs)"
  by (simp add: wf_StringT_def)

lemma wf_StringT_length: "wf_StringT s \<Longrightarrow> mb_length s = length (mb_bytes s)"
  unfolding wf_StringT_def by (metis mb_length_of)

lemma length_enc_StringT: "wf_StringT s \<Longrightarrow> length (enc_StringT s) = StringT_total_size s"
  by (simp add: enc_StringT_def StringT_total_size_def wf_StringT_length)

lemma mb_data_wf: "wf_StringT s \<Longrightarrow> mb_bytes s \<noteq> [] \<Longrightarrow> mb_data s = Some (mb_bytes s)"
  by (simp add: mb_bytes_def split: option.splits)

interpretation string_codec: codec ser_StringT des_StringT enc_StringT wf_StringT
proof unfold_locales
  fix x :: StringT and a d d' r
  show "ser_StringT x a = (Inr (), aa_append (enc_StringT x) a)"
    if "wf_StringT x" "wf_aa a" "length (enc_StringT x) \<le> bytes_available a"
  proof -
    note l = wf_StringT_length [OF that(1)]
    have s: "length (mb_bytes x) < bytes_available a"
      using that(3) by (simp add: enc_StringT_def)
    then have "serialize_byte (of_nat (mb_length x)) a = (Inr (), aa_append [of_nat (mb_length x)] a)"
      using that(2) by (simp add: serialize_byte_spec)
    then show ?thesis
      using s that(2) aa_append_append [of a "[of_nat (mb_length x)]" "mb_bytes x"]
      by (cases "mb_bytes x = []")
        (simp_all add: ser_StringT_def bindE_def l enc_StringT_def mb_data_wf [OF that(1)] ser_block)
  qed
  show "des_StringT d = (Inr x, da_advance (length (enc_StringT x)) d)"
    if "wf_StringT x" "wf_da d" "da_rest d = enc_StringT x @ r"
  proof -
    have x: "x = mb_of (mb_bytes x)" and u: "length (mb_bytes x) \<le> 255"
      using that(1) by (simp_all add: wf_StringT_def)
    note l = wf_StringT_length [OF that(1)]
    have "0 < bytes_available d" using that(2,3) length_da_rest [of d] by (simp add: enc_StringT_def)
    then have b: "deserialize_byte d = (Inr (of_nat (mb_length x)), da_advance 1 d)" and wd: "wf_da (da_advance 1 d)"
      using that(2,3) by (simp_all add: deserialize_byte_spec enc_StringT_def)
    have rest: "da_rest (da_advance 1 d) = mb_bytes x @ r" using that(3) by (simp add: enc_StringT_def)
    show ?thesis
    proof (cases "mb_bytes x = []")
      case True
      then show ?thesis using b x l
        by (simp add: des_StringT_def bindE_def enc_StringT_def mb_of_def new_MemBlock_def)
    next
      case False
      then show ?thesis using b l x u des_block [OF wd rest False, of "replicate (length (mb_bytes x)) 0"]
        by (simp add: des_StringT_def bindE_def enc_StringT_def mb_of_def new_MemBlock_def)
    qed
  qed
  show "wf_StringT x \<and> (\<exists>r. da_rest d = enc_StringT x @ r) \<and> d' = da_advance (length (enc_StringT x)) d"
    if "wf_da d" "des_StringT d = (Inr x, d')"
  proof -
    from that(2) obtain l d1 where b: "deserialize_byte d = (Inr l, d1)"
      and k: "(if unat l > 0 then
         bindE (deserialize_byte_block (unat l) (Some (replicate (unat l) 0))) (\<lambda>bs.
           retE (new_MemBlock\<lparr>mb_length := unat l, mb_data := Some bs\<rparr>))
         else retE new_MemBlock) d1 = (Inr x, d')"
      unfolding des_StringT_def by (elim bindE_InrE)
    from deserialize_byte_sound [OF that(1) b] obtain r1 where
      d1: "da_rest d = l # r1" "d1 = da_advance 1 d" "wf_da d1" by auto
    have u: "unat l \<le> 255" using unat_u8_less [of l] by simp
    show ?thesis
    proof (cases "unat l > 0")
      case True
      with k obtain bs where
        bs: "deserialize_byte_block (unat l) (Some (replicate (unat l) 0)) d1 = (Inr bs, d')"
        and x: "x = new_MemBlock\<lparr>mb_length := unat l, mb_data := Some bs\<rparr>"
        by (auto elim!: bindE_InrE)
      have "length bs = unat l \<and> bs \<noteq> [] \<and> (\<exists>r. da_rest d1 = bs @ r) \<and> d' = da_advance (unat l) d1 \<and> wf_da d'"
        by (rule des_block_sound [OF d1(3) _ bs]) simp
      moreover from this x have "x = mb_of bs" by (auto simp: mb_of_def new_MemBlock_def)
      ultimately show ?thesis using d1 u by (auto simp: enc_StringT_def)
    next
      case False
      then have "l = 0" by (simp add: unat_eq_0)
      moreover from this k have "x = mb_of []" "d' = d1" by (simp_all add: mb_of_def new_MemBlock_def)
      ultimately show ?thesis using d1 by (simp add: enc_StringT_def)
    qed
  qed
qed

end
