(* ===== verification/VardisTypes.thy ===== *)
theory VardisTypes
  imports DcpTypes
begin

text \<open>
  The transmissible types of VarDis, \<open>dcp/vardis/vardis_transmissible_types.h\<close>: the
  integral types, sequence number comparison, values, and the records of the six
  instruction container types with their header.
\<close>

section \<open>Integral types\<close>

type_synonym VarIdT = u8
type_synonym VarLenT = u8
type_synonym VarRepCntT = u8
type_synonym VarSeqnoT = u8
type_synonym VarTimeoutT = u16

definition VarIdT_max_number_identifiers :: nat where "VarIdT_max_number_identifiers = 256"
definition VarLenT_max_val :: nat where "VarLenT_max_val = 255"
definition VarRepCntT_max_val :: u8 where "VarRepCntT_max_val = 15"
definition VarSeqnoT_max_val :: nat where "VarSeqnoT_max_val = 255"
definition VarTimeoutT_max_val :: u16 where "VarTimeoutT_max_val = 65000"

definition more_recent_seqno :: "VarSeqnoT \<Rightarrow> VarSeqnoT \<Rightarrow> bool" where
  "more_recent_seqno a b \<longleftrightarrow>
     (a > b \<and> a - b \<le> of_nat (VarSeqnoT_max_val div 2))
     \<or> (a < b \<and> b - a > of_nat (VarSeqnoT_max_val div 2 + 1))"

section \<open>Values\<close>

record VarValueT = MemBlock +
  vv_len :: VarLenT

definition new_VarValueT :: VarValueT where
  "new_VarValueT = MemBlock.extend new_MemBlock \<lparr>vv_len = 0\<rparr>"

definition VarValueT_of :: "VarLenT \<Rightarrow> u8 list option \<Rightarrow> VarValueT" where
  "VarValueT_of sz d = (mb_set (unat sz) d new_VarValueT)\<lparr>vv_len := sz\<rparr>"

definition VarValueT_total_size :: "VarValueT \<Rightarrow> nat" where
  "VarValueT_total_size v = 1 + mb_length v"

definition ser_VarValueT :: "VarValueT \<Rightarrow> (aa, unit) action" where
  "ser_VarValueT v =
     bindE (ser_integral8 (vv_len v)) (\<lambda>_.
     if vv_len v > 0 then serialize_byte_block (mb_length v) (mb_data v) else retE ())"

definition des_VarValueT :: "(da, VarValueT) action" where
  "des_VarValueT =
     bindE des_integral8 (\<lambda>l.
     if unat l > 0 then
       bindE (deserialize_byte_block (unat l) (Some (replicate (unat l) 0))) (\<lambda>bs.
       retE (new_VarValueT\<lparr>vv_len := l, mb_length := unat l, mb_data := Some bs\<rparr>))
     else retE (new_VarValueT\<lparr>vv_len := l, mb_length := unat l\<rparr>))"

definition vv_of :: "u8 list \<Rightarrow> VarValueT" where
  "vv_of bs = MemBlock.extend (mb_of bs) \<lparr>vv_len = of_nat (length bs)\<rparr>"

definition wf_VarValueT :: "VarValueT \<Rightarrow> bool" where
  "wf_VarValueT v \<longleftrightarrow> v = vv_of (mb_bytes v) \<and> length (mb_bytes v) \<le> 255"

definition enc_VarValueT :: "VarValueT \<Rightarrow> u8 list" where
  "enc_VarValueT v = vv_len v # mb_bytes v"

lemma vv_of_simps [simp]:
  "mb_bytes (vv_of bs) = bs" "mb_length (vv_of bs) = length bs" "vv_len (vv_of bs) = of_nat (length bs)"
  by (simp_all add: vv_of_def MemBlock.defs mb_of_def mb_bytes_def)

lemma wf_VarValueT_of [simp]: "length bs \<le> 255 \<Longrightarrow> wf_VarValueT (vv_of bs)"
  by (simp add: wf_VarValueT_def)

lemma VarValueT_of_vv_of:
  assumes "length bs < 256"
  shows "VarValueT_of (of_nat (length bs)) (Some bs) = vv_of bs"
  using assms
  by (auto simp: VarValueT_of_def mb_set_def mb_check_delete_def new_VarValueT_def new_MemBlock_def
      MemBlock.defs vv_of_def mb_of_def)

lemma wf_VarValueT_fields:
  assumes "wf_VarValueT v"
  shows "mb_length v = length (mb_bytes v)" "vv_len v = of_nat (length (mb_bytes v))"
    "mb_bytes v \<noteq> [] \<Longrightarrow> mb_data v = Some (mb_bytes v)" "length (mb_bytes v) \<le> 255"
  using assms unfolding wf_VarValueT_def
  by (metis vv_of_simps(2), metis vv_of_simps(3), auto simp: mb_bytes_def split: option.splits)

lemma length_enc_VarValueT: "wf_VarValueT v \<Longrightarrow> length (enc_VarValueT v) = VarValueT_total_size v"
  by (simp add: enc_VarValueT_def VarValueT_total_size_def wf_VarValueT_fields(1))

lemma of_nat_u8_pos: "n < 256 \<Longrightarrow> 0 < (of_nat n :: u8) \<longleftrightarrow> 0 < n"
  by (simp add: word_less_nat_alt)

interpretation value_codec: codec ser_VarValueT des_VarValueT enc_VarValueT wf_VarValueT
proof (unfold_locales, goal_cases)
  case (1 x a)
  note f = wf_VarValueT_fields [OF 1(1)]
  have s: "length (mb_bytes x) < bytes_available a" using 1(3) by (simp add: enc_VarValueT_def)
  have z: "vv_len x > 0 \<longleftrightarrow> mb_bytes x \<noteq> []" using f of_nat_u8_pos by simp
  have "ser_integral8 (vv_len x) a = (Inr (), aa_append [vv_len x] a)"
    using s 1(2) by (simp add: c8.ser enc_byte_def)
  then show ?case
    using s 1(2) z f aa_append_append [of a "[vv_len x]" "mb_bytes x"]
    by (cases "mb_bytes x = []") (simp_all add: ser_VarValueT_def bindE_def enc_VarValueT_def ser_block)
next
  case (2 x d r)
  note f = wf_VarValueT_fields [OF 2(1)]
  have x: "x = vv_of (mb_bytes x)" using 2(1) by (simp add: wf_VarValueT_def)
  have b: "des_integral8 d = (Inr (vv_len x), da_advance 1 d)"
    using 2 c8.des [where x = "vv_len x" and d = d and r = "mb_bytes x @ r"] by (simp add: enc_VarValueT_def enc_byte_def)
  have av: "1 \<le> bytes_available d" using 2 length_da_rest [of d] by (simp add: enc_VarValueT_def)
  then have wd: "wf_da (da_advance 1 d)" using 2 by simp
  have rest: "da_rest (da_advance 1 d) = mb_bytes x @ r" using 2(3) by (simp add: enc_VarValueT_def)
  show ?case
  proof (cases "mb_bytes x = []")
    case True
    then show ?thesis using b f x
      by (simp add: des_VarValueT_def bindE_def enc_VarValueT_def vv_of_def new_VarValueT_def
          mb_of_def new_MemBlock_def MemBlock.defs)
  next
    case False
    then show ?thesis using b f x des_block [OF wd rest False, of "replicate (length (mb_bytes x)) 0"]
      by (simp add: des_VarValueT_def bindE_def enc_VarValueT_def vv_of_def new_VarValueT_def
          mb_of_def new_MemBlock_def MemBlock.defs)
  qed
next
  case (3 d x d')
  from 3(2) obtain l d1 where b: "des_integral8 d = (Inr l, d1)"
    and k: "(if unat l > 0 then
         bindE (deserialize_byte_block (unat l) (Some (replicate (unat l) 0))) (\<lambda>bs.
         retE (new_VarValueT\<lparr>vv_len := l, mb_length := unat l, mb_data := Some bs\<rparr>))
       else retE (new_VarValueT\<lparr>vv_len := l, mb_length := unat l\<rparr>)) d1 = (Inr x, d')"
    unfolding des_VarValueT_def by (elim bindE_InrE)
  obtain r1 where d1: "da_rest d = l # r1" "d1 = da_advance 1 d" "wf_da d1"
    using c8.des_sound [OF 3(1) b] c8.des_soundD(3) [OF b 3(1)] by (auto simp: enc_byte_def)
  show ?case
  proof (cases "unat l > 0")
    case True
    with k obtain bs where
      bs: "deserialize_byte_block (unat l) (Some (replicate (unat l) 0)) d1 = (Inr bs, d')"
      and x: "x = new_VarValueT\<lparr>vv_len := l, mb_length := unat l, mb_data := Some bs\<rparr>"
      by (auto elim!: bindE_InrE)
    have bs: "length bs = unat l \<and> bs \<noteq> [] \<and> (\<exists>r. da_rest d1 = bs @ r)
        \<and> d' = da_advance (unat l) d1 \<and> wf_da d'"
      by (rule des_block_sound [OF d1(3) _ bs]) simp
    then have l: "l = of_nat (length bs)" "unat l = length bs" and ne: "bs \<noteq> []" by simp_all
    have "x = vv_of bs" unfolding x l(2)
      by (simp add: l(1) ne vv_of_def mb_of_def new_VarValueT_def new_MemBlock_def MemBlock.defs)
    with bs d1 unat_u8_le [of l] show ?thesis by (auto simp: enc_VarValueT_def)
  next
    case False
    then have "l = 0" by (simp add: unat_eq_0)
    moreover from this k have "x = vv_of []" "d' = d1"
      by (simp_all add: vv_of_def mb_of_def new_VarValueT_def new_MemBlock_def MemBlock.defs)
    ultimately show ?thesis using d1 by (simp add: enc_VarValueT_def)
  qed
qed

section \<open>Records\<close>

record VarSummT =
  summ_varId :: VarIdT
  summ_seqno :: VarSeqnoT

record VarUpdateT =
  upd_varId :: VarIdT
  upd_seqno :: VarSeqnoT
  upd_value :: VarValueT

record VarSpecT =
  spec_varId :: VarIdT
  spec_prodId :: NodeIdentifierT
  spec_repCnt :: VarRepCntT
  spec_creationTime :: TimeStampT
  spec_timeout :: VarTimeoutT
  spec_descr :: StringT

record VarCreateT =
  create_spec :: VarSpecT
  create_update :: VarUpdateT

record VarDeleteT = del_varId :: VarIdT

record VarReqUpdateT = requpd_updSpec :: VarSummT

record VarReqCreateT = reqcreate_varId :: VarIdT

subsection \<open>Sizes\<close>

definition VarSummT_fixed_size :: nat where "VarSummT_fixed_size = 1 + 1"
definition VarUpdateT_fixed_size :: nat where "VarUpdateT_fixed_size = 1 + 1 + 1"
definition VarSpecT_fixed_size :: nat where "VarSpecT_fixed_size = 1 + 6 + 1 + 1 + 8 + 2"
definition VarCreateT_fixed_size :: nat where
  "VarCreateT_fixed_size = VarSpecT_fixed_size + VarUpdateT_fixed_size"
definition VarDeleteT_fixed_size :: nat where "VarDeleteT_fixed_size = 1"
definition VarReqUpdateT_fixed_size :: nat where "VarReqUpdateT_fixed_size = VarSummT_fixed_size"
definition VarReqCreateT_fixed_size :: nat where "VarReqCreateT_fixed_size = 1"

definition VarUpdateT_total_size :: "VarUpdateT \<Rightarrow> nat" where
  "VarUpdateT_total_size u = VarUpdateT_fixed_size + mb_length (upd_value u)"

definition VarSpecT_total_size :: "VarSpecT \<Rightarrow> nat" where
  "VarSpecT_total_size s = VarSpecT_fixed_size + mb_length (spec_descr s)"

definition VarCreateT_total_size :: "VarCreateT \<Rightarrow> nat" where
  "VarCreateT_total_size c =
     VarCreateT_fixed_size + mb_length (spec_descr (create_spec c)) + mb_length (upd_value (create_update c))"

subsection \<open>Serialization\<close>

definition ser_VarSummT :: "VarSummT \<Rightarrow> (aa, unit) action" where
  "ser_VarSummT s =
     bindE (ser_integral8 (summ_varId s)) (\<lambda>_.
     ser_integral8 (summ_seqno s))"

definition des_VarSummT :: "(da, VarSummT) action" where
  "des_VarSummT =
     bindE des_integral8 (\<lambda>i.
     bindE des_integral8 (\<lambda>n.
     retE \<lparr>summ_varId = i, summ_seqno = n\<rparr>))"

definition ser_VarUpdateT :: "VarUpdateT \<Rightarrow> (aa, unit) action" where
  "ser_VarUpdateT u =
     bindE (ser_integral8 (upd_varId u)) (\<lambda>_.
     bindE (ser_integral8 (upd_seqno u)) (\<lambda>_.
     ser_VarValueT (upd_value u)))"

definition des_VarUpdateT :: "(da, VarUpdateT) action" where
  "des_VarUpdateT =
     bindE des_integral8 (\<lambda>i.
     bindE des_integral8 (\<lambda>n.
     bindE des_VarValueT (\<lambda>v.
     retE \<lparr>upd_varId = i, upd_seqno = n, upd_value = v\<rparr>)))"

definition ser_VarSpecT :: "VarSpecT \<Rightarrow> (aa, unit) action" where
  "ser_VarSpecT s =
     bindE (ser_integral8 (spec_varId s)) (\<lambda>_.
     bindE (ser_NodeIdentifierT (spec_prodId s)) (\<lambda>_.
     bindE (ser_integral8 (spec_repCnt s)) (\<lambda>_.
     bindE (ser_TimeStampT (spec_creationTime s)) (\<lambda>_.
     bindE (ser_integral16 (spec_timeout s)) (\<lambda>_.
     ser_StringT (spec_descr s))))))"

definition des_VarSpecT :: "(da, VarSpecT) action" where
  "des_VarSpecT =
     bindE des_integral8 (\<lambda>i.
     bindE des_NodeIdentifierT (\<lambda>p.
     bindE des_integral8 (\<lambda>r.
     bindE des_TimeStampT (\<lambda>c.
     bindE des_integral16 (\<lambda>t.
     bindE des_StringT (\<lambda>d.
     retE \<lparr>spec_varId = i, spec_prodId = p, spec_repCnt = r, spec_creationTime = c,
           spec_timeout = t, spec_descr = d\<rparr>))))))"

definition ser_VarCreateT :: "VarCreateT \<Rightarrow> (aa, unit) action" where
  "ser_VarCreateT c =
     bindE (ser_VarSpecT (create_spec c)) (\<lambda>_.
     ser_VarUpdateT (create_update c))"

definition des_VarCreateT :: "(da, VarCreateT) action" where
  "des_VarCreateT =
     bindE des_VarSpecT (\<lambda>s.
     bindE des_VarUpdateT (\<lambda>u.
     retE \<lparr>create_spec = s, create_update = u\<rparr>))"

definition ser_VarDeleteT :: "VarDeleteT \<Rightarrow> (aa, unit) action" where
  "ser_VarDeleteT d = ser_integral8 (del_varId d)"

definition des_VarDeleteT :: "(da, VarDeleteT) action" where
  "des_VarDeleteT = bindE des_integral8 (\<lambda>i. retE \<lparr>del_varId = i\<rparr>)"

definition ser_VarReqUpdateT :: "VarReqUpdateT \<Rightarrow> (aa, unit) action" where
  "ser_VarReqUpdateT r = ser_VarSummT (requpd_updSpec r)"

definition des_VarReqUpdateT :: "(da, VarReqUpdateT) action" where
  "des_VarReqUpdateT = bindE des_VarSummT (\<lambda>s. retE \<lparr>requpd_updSpec = s\<rparr>)"

definition ser_VarReqCreateT :: "VarReqCreateT \<Rightarrow> (aa, unit) action" where
  "ser_VarReqCreateT r = ser_integral8 (reqcreate_varId r)"

definition des_VarReqCreateT :: "(da, VarReqCreateT) action" where
  "des_VarReqCreateT = bindE des_integral8 (\<lambda>i. retE \<lparr>reqcreate_varId = i\<rparr>)"

section \<open>Instruction container headers\<close>

type_synonym InstructionContainerT = u8

definition ICTYPE_SUMMARIES :: u8 where "ICTYPE_SUMMARIES = 1"
definition ICTYPE_UPDATES :: u8 where "ICTYPE_UPDATES = 2"
definition ICTYPE_REQUEST_VARUPDATES :: u8 where "ICTYPE_REQUEST_VARUPDATES = 3"
definition ICTYPE_REQUEST_VARCREATES :: u8 where "ICTYPE_REQUEST_VARCREATES = 4"
definition ICTYPE_CREATE_VARIABLES :: u8 where "ICTYPE_CREATE_VARIABLES = 5"
definition ICTYPE_DELETE_VARIABLES :: u8 where "ICTYPE_DELETE_VARIABLES = 6"

record ICHeaderT =
  icType :: InstructionContainerT
  icNumRecords :: u8

definition ICHeaderT_fixed_size :: nat where "ICHeaderT_fixed_size = 1 + 1"
definition ICHeaderT_max_records :: nat where "ICHeaderT_max_records = 255"

definition ser_ICHeaderT :: "ICHeaderT \<Rightarrow> (aa, unit) action" where
  "ser_ICHeaderT h =
     bindE (ser_integral8 (icType h)) (\<lambda>_.
     serialize_byte (icNumRecords h))"

definition des_ICHeaderT :: "(da, ICHeaderT) action" where
  "des_ICHeaderT =
     bindE des_integral8 (\<lambda>t.
     bindE deserialize_byte (\<lambda>n.
     retE \<lparr>icType = t, icNumRecords = n\<rparr>))"

definition vardis_instruction_container_to_string :: "InstructionContainerT \<Rightarrow> dcp_error + string" where
  "vardis_instruction_container_to_string ic =
     (if ic = ICTYPE_SUMMARIES then Inr ''ICTYPE_SUMMARIES''
      else if ic = ICTYPE_UPDATES then Inr ''ICTYPE_UPDATES''
      else if ic = ICTYPE_REQUEST_VARUPDATES then Inr ''ICTYPE_REQUEST_VARUPDATES''
      else if ic = ICTYPE_REQUEST_VARCREATES then Inr ''ICTYPE_REQUEST_VARCREATES''
      else if ic = ICTYPE_CREATE_VARIABLES then Inr ''ICTYPE_CREATE_VARIABLES''
      else if ic = ICTYPE_DELETE_VARIABLES then Inr ''ICTYPE_DELETE_VARIABLES''
      else Inl std_invalid_argument)"

section \<open>Wire images and codecs\<close>

definition enc_VarSummT :: "VarSummT \<Rightarrow> u8 list" where
  "enc_VarSummT s = enc_byte (summ_varId s) @ enc_byte (summ_seqno s)"

definition enc_VarUpdateT :: "VarUpdateT \<Rightarrow> u8 list" where
  "enc_VarUpdateT u = enc_byte (upd_varId u) @ enc_byte (upd_seqno u) @ enc_VarValueT (upd_value u)"

definition enc_VarSpecT :: "VarSpecT \<Rightarrow> u8 list" where
  "enc_VarSpecT s = enc_byte (spec_varId s) @ nodeId (spec_prodId s) @ enc_byte (spec_repCnt s)
     @ le_bytes64 (spec_creationTime s) @ be_bytes16 (spec_timeout s) @ enc_StringT (spec_descr s)"

definition enc_VarCreateT :: "VarCreateT \<Rightarrow> u8 list" where
  "enc_VarCreateT c = enc_VarSpecT (create_spec c) @ enc_VarUpdateT (create_update c)"

definition enc_VarDeleteT :: "VarDeleteT \<Rightarrow> u8 list" where
  "enc_VarDeleteT d = enc_byte (del_varId d)"

definition enc_VarReqUpdateT :: "VarReqUpdateT \<Rightarrow> u8 list" where
  "enc_VarReqUpdateT r = enc_VarSummT (requpd_updSpec r)"

definition enc_VarReqCreateT :: "VarReqCreateT \<Rightarrow> u8 list" where
  "enc_VarReqCreateT r = enc_byte (reqcreate_varId r)"

definition enc_ICHeaderT :: "ICHeaderT \<Rightarrow> u8 list" where
  "enc_ICHeaderT h = enc_byte (icType h) @ enc_byte (icNumRecords h)"

definition wf_VarUpdateT :: "VarUpdateT \<Rightarrow> bool" where
  "wf_VarUpdateT u \<longleftrightarrow> wf_VarValueT (upd_value u)"

definition wf_VarSpecT :: "VarSpecT \<Rightarrow> bool" where
  "wf_VarSpecT s \<longleftrightarrow> wf_StringT (spec_descr s)"

definition wf_VarCreateT :: "VarCreateT \<Rightarrow> bool" where
  "wf_VarCreateT c \<longleftrightarrow> wf_VarSpecT (create_spec c) \<and> wf_VarUpdateT (create_update c)"

text \<open>Each record type is a tuple of fields with codecs, up to the bijection with its fields.\<close>

lemma codec_VarSummT: "codec ser_VarSummT des_VarSummT enc_VarSummT (\<lambda>_. True)"
  using codec_iso [OF codec_pair [OF c8.codec_axioms c8.codec_axioms],
      of "\<lambda>(i, n). \<lparr>summ_varId = i, summ_seqno = n\<rparr>" "\<lambda>s. (summ_varId s, summ_seqno s)"]
  by (simp add: ser_VarSummT_def [abs_def] des_VarSummT_def enc_VarSummT_def [abs_def]
      codec_unfold split_beta del: retE_simp)

interpretation summ_codec: codec ser_VarSummT des_VarSummT enc_VarSummT "\<lambda>_. True"
  by (rule codec_VarSummT)


lemma codec_VarUpdateT: "codec ser_VarUpdateT des_VarUpdateT enc_VarUpdateT wf_VarUpdateT"
  using codec_iso [OF codec_pair [OF c8.codec_axioms codec_pair [OF c8.codec_axioms value_codec.codec_axioms]],
      of "\<lambda>(i, n, v). \<lparr>upd_varId = i, upd_seqno = n, upd_value = v\<rparr>"
        "\<lambda>u. (upd_varId u, upd_seqno u, upd_value u)"]
  by (simp add: ser_VarUpdateT_def [abs_def] des_VarUpdateT_def enc_VarUpdateT_def [abs_def]
      wf_VarUpdateT_def [abs_def] codec_unfold split_beta del: retE_simp)

interpretation update_codec: codec ser_VarUpdateT des_VarUpdateT enc_VarUpdateT wf_VarUpdateT
  by (rule codec_VarUpdateT)

lemma codec_VarSpecT: "codec ser_VarSpecT des_VarSpecT enc_VarSpecT wf_VarSpecT"
  using codec_iso [OF codec_pair [OF c8.codec_axioms codec_pair [OF node_codec.codec_axioms
          codec_pair [OF c8.codec_axioms codec_pair [OF time_codec.codec_axioms
              codec_pair [OF c16.codec_axioms string_codec.codec_axioms]]]]],
      of "\<lambda>(i, p, r, c, t, d). \<lparr>spec_varId = i, spec_prodId = p, spec_repCnt = r,
            spec_creationTime = c, spec_timeout = t, spec_descr = d\<rparr>"
        "\<lambda>s. (spec_varId s, spec_prodId s, spec_repCnt s, spec_creationTime s, spec_timeout s, spec_descr s)"]
  by (simp add: ser_VarSpecT_def [abs_def] des_VarSpecT_def enc_VarSpecT_def [abs_def]
      wf_VarSpecT_def [abs_def] codec_unfold split_beta del: retE_simp)

interpretation spec_codec: codec ser_VarSpecT des_VarSpecT enc_VarSpecT wf_VarSpecT
  by (rule codec_VarSpecT)

lemma codec_VarCreateT: "codec ser_VarCreateT des_VarCreateT enc_VarCreateT wf_VarCreateT"
  using codec_iso [OF codec_pair [OF spec_codec.codec_axioms update_codec.codec_axioms],
      of "\<lambda>(s, u). \<lparr>create_spec = s, create_update = u\<rparr>" "\<lambda>c. (create_spec c, create_update c)"]
  by (simp add: ser_VarCreateT_def [abs_def] des_VarCreateT_def enc_VarCreateT_def [abs_def]
      wf_VarCreateT_def [abs_def] codec_unfold split_beta del: retE_simp)

interpretation create_codec: codec ser_VarCreateT des_VarCreateT enc_VarCreateT wf_VarCreateT
  by (rule codec_VarCreateT)

lemma codec_VarDeleteT: "codec ser_VarDeleteT des_VarDeleteT enc_VarDeleteT (\<lambda>_. True)"
  using codec_iso [OF c8.codec_axioms, of "\<lambda>i. \<lparr>del_varId = i\<rparr>" del_varId]
  by (simp add: ser_VarDeleteT_def [abs_def] des_VarDeleteT_def enc_VarDeleteT_def [abs_def] del: retE_simp)

interpretation delete_codec: codec ser_VarDeleteT des_VarDeleteT enc_VarDeleteT "\<lambda>_. True"
  by (rule codec_VarDeleteT)

lemma codec_VarReqUpdateT: "codec ser_VarReqUpdateT des_VarReqUpdateT enc_VarReqUpdateT (\<lambda>_. True)"
  using codec_iso [OF summ_codec.codec_axioms, of "\<lambda>s. \<lparr>requpd_updSpec = s\<rparr>" requpd_updSpec]
  by (simp add: ser_VarReqUpdateT_def [abs_def] des_VarReqUpdateT_def enc_VarReqUpdateT_def [abs_def]
      del: retE_simp)

interpretation requpd_codec: codec ser_VarReqUpdateT des_VarReqUpdateT enc_VarReqUpdateT "\<lambda>_. True"
  by (rule codec_VarReqUpdateT)

lemma codec_VarReqCreateT: "codec ser_VarReqCreateT des_VarReqCreateT enc_VarReqCreateT (\<lambda>_. True)"
  using codec_iso [OF c8.codec_axioms, of "\<lambda>i. \<lparr>reqcreate_varId = i\<rparr>" reqcreate_varId]
  by (simp add: ser_VarReqCreateT_def [abs_def] des_VarReqCreateT_def enc_VarReqCreateT_def [abs_def]
      del: retE_simp)

interpretation reqcreate_codec: codec ser_VarReqCreateT des_VarReqCreateT enc_VarReqCreateT "\<lambda>_. True"
  by (rule codec_VarReqCreateT)

lemma codec_ICHeaderT: "codec ser_ICHeaderT des_ICHeaderT enc_ICHeaderT (\<lambda>_. True)"
  using codec_iso [OF codec_pair [OF c8.codec_axioms c8.codec_axioms],
      of "\<lambda>(t, n). \<lparr>icType = t, icNumRecords = n\<rparr>" "\<lambda>h. (icType h, icNumRecords h)"]
  by (simp add: ser_ICHeaderT_def [abs_def] des_ICHeaderT_def enc_ICHeaderT_def [abs_def]
      ser_integral8_def [abs_def] des_integral8_def codec_unfold split_beta del: retE_simp)

interpretation header_codec: codec ser_ICHeaderT des_ICHeaderT enc_ICHeaderT "\<lambda>_. True"
  by (rule codec_ICHeaderT)

text \<open>The declared sizes are the sizes on the wire.\<close>

lemma length_enc_fixed [simp]:
  "length (enc_VarSummT s) = VarSummT_fixed_size" "length (enc_VarDeleteT d) = VarDeleteT_fixed_size"
  "length (enc_VarReqUpdateT r) = VarReqUpdateT_fixed_size"
  "length (enc_VarReqCreateT c) = VarReqCreateT_fixed_size"
  "length (enc_ICHeaderT h) = ICHeaderT_fixed_size"
  by (simp_all add: enc_VarSummT_def enc_VarDeleteT_def enc_VarReqUpdateT_def enc_VarReqCreateT_def
      enc_ICHeaderT_def VarSummT_fixed_size_def VarDeleteT_fixed_size_def VarReqUpdateT_fixed_size_def
      VarReqCreateT_fixed_size_def ICHeaderT_fixed_size_def)

lemma length_enc_VarUpdateT: "wf_VarUpdateT u \<Longrightarrow> length (enc_VarUpdateT u) = VarUpdateT_total_size u"
  by (simp add: wf_VarUpdateT_def enc_VarUpdateT_def VarUpdateT_total_size_def VarUpdateT_fixed_size_def
      length_enc_VarValueT VarValueT_total_size_def)

lemma length_enc_VarSpecT: "wf_VarSpecT s \<Longrightarrow> length (enc_VarSpecT s) = VarSpecT_total_size s"
  by (simp add: wf_VarSpecT_def enc_VarSpecT_def VarSpecT_total_size_def VarSpecT_fixed_size_def
      length_enc_StringT StringT_total_size_def)

lemma length_enc_VarCreateT: "wf_VarCreateT c \<Longrightarrow> length (enc_VarCreateT c) = VarCreateT_total_size c"
  by (simp add: wf_VarCreateT_def enc_VarCreateT_def length_enc_VarUpdateT length_enc_VarSpecT
      VarCreateT_total_size_def VarCreateT_fixed_size_def VarUpdateT_total_size_def VarSpecT_total_size_def)

section \<open>Sequence numbers\<close>

lemma unat_diff_u8:
  "unat (a - b :: u8) = (if unat b \<le> unat a then unat a - unat b else unat a + 256 - unat b)"
  using unat_sub_if_size [of a b] by (simp add: word_size)

lemma more_recent_seqno_iff:
  "more_recent_seqno a b \<longleftrightarrow> 1 \<le> unat (a - b) \<and> unat (a - b) \<le> 127"
  using unat_u8_less [of a] unat_u8_less [of b]
  by (auto simp: more_recent_seqno_def VarSeqnoT_max_val_def word_less_nat_alt word_le_nat_alt
      unat_diff_u8 split: if_splits)

lemma more_recent_seqno_irrefl [simp]: "\<not> more_recent_seqno a a"
  by (simp add: more_recent_seqno_iff)

lemma more_recent_seqno_asym: "more_recent_seqno a b \<Longrightarrow> \<not> more_recent_seqno b a"
  using unat_u8_less [of a] unat_u8_less [of b]
  by (auto simp: more_recent_seqno_iff unat_diff_u8 split: if_splits)

text \<open>
  Of two different sequence numbers one is more recent, except when they are half the
  sequence space apart.
\<close>

lemma more_recent_seqno_total:
  assumes "a \<noteq> b" "unat (a - b) \<noteq> 128"
  shows "more_recent_seqno a b \<or> more_recent_seqno b a"
proof -
  have "unat a \<noteq> unat b" using assms(1) by (simp add: word_unat_eq_iff)
  with assms(2) show ?thesis
    using unat_u8_less [of a] unat_u8_less [of b]
    by (auto simp: more_recent_seqno_iff unat_diff_u8 split: if_splits)
qed

lemma more_recent_seqno_succ [simp]: "more_recent_seqno (a + 1) a"
  by (simp add: more_recent_seqno_iff)

end
