(* ===== verification/RingBuffer.thy ===== *)
theory RingBuffer
  imports Prelude
begin

text \<open>
  The ring buffer of \<open>dcp/common/fixedmem_ring_buffer.h\<close>: a fixed array of
  \<open>maxRingBufferElements\<close> cells with two indices and a count.  The template parameter
  is the length of the array.  Its contract is the locale \<open>bounded_queue\<close>, a bounded
  first-in first-out list; the array model is an interpretation of it, and the
  free lists of the variable store and the queues in shared memory use the laws.
\<close>

section \<open>The contract of a bounded queue\<close>

locale bounded_queue =
  fixes is_empty :: "'q \<Rightarrow> bool"
    and is_full :: "'q \<Rightarrow> bool"
    and stored :: "'q \<Rightarrow> nat"
    and pop :: "('q, 'e) action"
    and peek :: "('q, 'e) action"
    and push :: "'e \<Rightarrow> ('q, unit) action"
    and clear :: "'q \<Rightarrow> 'q"
    and elems :: "'q \<Rightarrow> 'e list"
    and capacity :: "'q \<Rightarrow> nat"
    and inv :: "'q \<Rightarrow> bool"
  assumes is_empty: "inv q \<Longrightarrow> is_empty q \<longleftrightarrow> elems q = []"
    and is_full: "inv q \<Longrightarrow> is_full q \<longleftrightarrow> length (elems q) = capacity q"
    and stored: "inv q \<Longrightarrow> stored q = length (elems q)"
    and pop_empty: "inv q \<Longrightarrow> elems q = [] \<Longrightarrow> pop q = (Inl RingBufferException, q)"
    and pop: "inv q \<Longrightarrow> elems q = x # xs
      \<Longrightarrow> \<exists>q'. pop q = (Inr x, q') \<and> inv q' \<and> elems q' = xs \<and> capacity q' = capacity q"
    and peek_empty: "inv q \<Longrightarrow> elems q = [] \<Longrightarrow> peek q = (Inl RingBufferException, q)"
    and peek: "inv q \<Longrightarrow> elems q = x # xs \<Longrightarrow> peek q = (Inr x, q)"
    and push_full: "inv q \<Longrightarrow> length (elems q) = capacity q
      \<Longrightarrow> push y q = (Inl RingBufferException, q)"
    and push: "inv q \<Longrightarrow> length (elems q) < capacity q
      \<Longrightarrow> \<exists>q'. push y q = (Inr (), q') \<and> inv q' \<and> elems q' = elems q @ [y] \<and> capacity q' = capacity q"
    and clear: "inv q \<Longrightarrow> inv (clear q)" "inv q \<Longrightarrow> elems (clear q) = []"
      "inv q \<Longrightarrow> capacity (clear q) = capacity q"
    and bounded: "inv q \<Longrightarrow> length (elems q) \<le> capacity q"
begin

lemma push_list:
  "inv q \<Longrightarrow> length (elems q) + length ys \<le> capacity q
   \<Longrightarrow> \<exists>q'. forE push ys q = (Inr (), q') \<and> inv q' \<and> elems q' = elems q @ ys \<and> capacity q' = capacity q"
proof (induction ys arbitrary: q)
  case (Cons y ys)
  from Cons.prems push [of q y] obtain q1 where
    q1: "push y q = (Inr (), q1)" "inv q1" "elems q1 = elems q @ [y]" "capacity q1 = capacity q"
    by auto
  with Cons.IH [of q1] Cons.prems show ?case by auto
qed auto

lemma pop_list:
  "inv q \<Longrightarrow> n \<le> length (elems q)
   \<Longrightarrow> \<exists>q'. repeatE n pop q = (Inr (take n (elems q)), q') \<and> inv q'
          \<and> elems q' = drop n (elems q) \<and> capacity q' = capacity q"
proof (induction n arbitrary: q)
  case (Suc n)
  then obtain x xs where xs: "elems q = x # xs" by (cases "elems q") auto
  with pop Suc.prems obtain q1 where
    q1: "pop q = (Inr x, q1)" "inv q1" "elems q1 = xs" "capacity q1 = capacity q" by blast
  with Suc.IH [of q1] Suc.prems xs show ?case by (auto simp: bindE_def)
qed simp

text \<open>What is pushed comes out again, in the same order.\<close>

lemma fifo:
  assumes "inv q" "elems q = []" "length ys \<le> capacity q"
  shows "\<exists>q'. bindE (forE push ys) (\<lambda>_. repeatE (length ys) pop) q = (Inr ys, q')
    \<and> inv q' \<and> elems q' = []"
proof -
  from push_list [of q ys] assms obtain q1 where
    q1: "forE push ys q = (Inr (), q1)" "inv q1" "elems q1 = ys" by auto
  from pop_list [of q1 "length ys"] q1 show ?thesis by (auto simp: bindE_def)
qed

text \<open>A full queue refuses, an empty one has nothing to give; neither changes.\<close>

lemma push_cases:
  assumes "inv q"
  shows "(\<exists>q'. push y q = (Inr (), q') \<and> inv q' \<and> elems q' = elems q @ [y] \<and> capacity q' = capacity q)
    \<or> (is_full q \<and> push y q = (Inl RingBufferException, q))"
  using assms push push_full is_full bounded [of q] by (cases "is_full q") auto

lemma preserves_inv:
  "preserves inv pop" "preserves inv peek" "preserves inv (push y)"
  using pop pop_empty peek peek_empty push_cases
  by (auto simp: preserves_def) (metis neq_Nil_conv snd_conv)+

end

section \<open>The ring buffer\<close>

record 'e ring_buffer =
  rb_in :: nat
  rb_out :: nat
  maxCapacity :: nat
  currentNumberElements :: nat
  rbName :: string
  the_ring :: "'e list"

definition maxRingBufferNameLength :: nat where
  "maxRingBufferNameLength = 64"

definition new_ring_buffer :: "string option \<Rightarrow> nat \<Rightarrow> 'e list \<Rightarrow> dcp_error + 'e ring_buffer" where
  "new_ring_buffer name maxCap ring =
     (case name of
        None \<Rightarrow> Inl RingBufferException
      | Some nm \<Rightarrow>
          if length nm > maxRingBufferNameLength - 1 then Inl RingBufferException
          else if maxCap < 1 \<or> maxCap \<ge> length ring then Inl RingBufferException
          else Inr \<lparr>rb_in = 0, rb_out = 0, maxCapacity = maxCap, currentNumberElements = 0,
                    rbName = nm, the_ring = ring\<rparr>)"

definition rb_isEmpty :: "'e ring_buffer \<Rightarrow> bool" where
  "rb_isEmpty r \<longleftrightarrow> currentNumberElements r = 0"

definition rb_isFull :: "'e ring_buffer \<Rightarrow> bool" where
  "rb_isFull r \<longleftrightarrow> currentNumberElements r = maxCapacity r"

definition rb_stored_elements :: "'e ring_buffer \<Rightarrow> nat" where
  "rb_stored_elements r = currentNumberElements r"

definition rb_pop :: "('e ring_buffer, 'e) action" where
  "rb_pop =
     bindE (throw_if RingBufferException rb_isEmpty) (\<lambda>_.
     bindE (getE rb_out) (\<lambda>rvidx.
     bindE (modifyE (\<lambda>r. r\<lparr>rb_out := (rb_out r + 1) mod length (the_ring r)\<rparr>)) (\<lambda>_.
     bindE (modifyE (\<lambda>r. r\<lparr>currentNumberElements := currentNumberElements r - 1\<rparr>)) (\<lambda>_.
     getE (\<lambda>r. the_ring r ! rvidx)))))"

definition rb_peek :: "('e ring_buffer, 'e) action" where
  "rb_peek =
     bindE (throw_if RingBufferException rb_isEmpty) (\<lambda>_.
     getE (\<lambda>r. the_ring r ! rb_out r))"

definition rb_push :: "'e \<Rightarrow> ('e ring_buffer, unit) action" where
  "rb_push buf =
     bindE (throw_if RingBufferException rb_isFull) (\<lambda>_.
     bindE (modifyE (\<lambda>r. r\<lparr>the_ring := (the_ring r)[rb_in r := buf]\<rparr>)) (\<lambda>_.
     bindE (modifyE (\<lambda>r. r\<lparr>rb_in := (rb_in r + 1) mod length (the_ring r)\<rparr>)) (\<lambda>_.
     modifyE (\<lambda>r. r\<lparr>currentNumberElements := currentNumberElements r + 1\<rparr>))))"

definition rb_reset :: "'e ring_buffer \<Rightarrow> 'e ring_buffer" where
  "rb_reset r = r\<lparr>rb_in := 0, rb_out := 0, currentNumberElements := 0\<rparr>"

section \<open>Invariant, abstraction, and the contract\<close>

definition wf_rb :: "'e ring_buffer \<Rightarrow> bool" where
  "wf_rb r \<longleftrightarrow> 1 \<le> maxCapacity r \<and> maxCapacity r < length (the_ring r)
     \<and> currentNumberElements r \<le> maxCapacity r
     \<and> rb_out r < length (the_ring r)
     \<and> rb_in r = (rb_out r + currentNumberElements r) mod length (the_ring r)"

definition rb_elems :: "'e ring_buffer \<Rightarrow> 'e list" where
  "rb_elems r = map (\<lambda>i. the_ring r ! ((rb_out r + i) mod length (the_ring r)))
                    [0..<currentNumberElements r]"

lemma length_rb_elems [simp]: "length (rb_elems r) = currentNumberElements r"
  by (simp add: rb_elems_def)

lemma wf_new_ring_buffer:
  "new_ring_buffer name maxCap ring = Inr r
   \<Longrightarrow> wf_rb r \<and> rb_elems r = [] \<and> maxCapacity r = maxCap \<and> length (the_ring r) = length ring"
  by (auto simp: new_ring_buffer_def wf_rb_def rb_elems_def split: option.splits if_splits)

lemma rb_elems_Cons:
  "0 < currentNumberElements r
   \<Longrightarrow> rb_elems r = the_ring r ! (rb_out r mod length (the_ring r)) #
         map (\<lambda>i. the_ring r ! ((rb_out r + Suc i) mod length (the_ring r)))
             [0..<currentNumberElements r - 1]"
  by (rule nth_equalityI) (auto simp: rb_elems_def nth_Cons split: nat.splits)

lemma rb_pop_empty: "currentNumberElements r = 0 \<Longrightarrow> rb_pop r = (Inl RingBufferException, r)"
  by (simp add: rb_pop_def bindE_def rb_isEmpty_def)

lemma rb_pop_spec:
  assumes "wf_rb r" "rb_elems r = x # xs"
  shows "\<exists>r'. rb_pop r = (Inr x, r') \<and> wf_rb r' \<and> rb_elems r' = xs \<and> maxCapacity r' = maxCapacity r"
proof -
  have n: "0 < currentNumberElements r"
    using assms(2) length_rb_elems [of r] by (simp del: length_rb_elems)
  let ?r' = "r\<lparr>rb_out := (rb_out r + 1) mod length (the_ring r),
               currentNumberElements := currentNumberElements r - 1\<rparr>"
  have hd_tl: "x = the_ring r ! rb_out r"
    "xs = map (\<lambda>i. the_ring r ! ((rb_out r + Suc i) mod length (the_ring r)))
             [0..<currentNumberElements r - 1]"
    using assms n by (auto simp: rb_elems_Cons wf_rb_def)
  have "rb_pop r = (Inr x, ?r')"
    using n hd_tl by (simp add: rb_pop_def bindE_def rb_isEmpty_def)
  moreover have "rb_elems ?r' = xs"
    unfolding hd_tl(2) by (simp add: rb_elems_def mod_simps)
  moreover have "wf_rb ?r'"
  proof -
    obtain m where m: "currentNumberElements r = Suc m" using n by (cases "currentNumberElements r") auto
    have "0 < length (the_ring r)" using assms(1) by (auto simp: wf_rb_def)
    with assms(1) m show ?thesis by (simp add: wf_rb_def mod_simps)
  qed
  ultimately show ?thesis by auto
qed

lemma mod_add_neq:
  fixes out i n N :: nat
  assumes "i < n" "n < N"
  shows "(out + i) mod N \<noteq> (out + n) mod N"
proof
  assume "(out + i) mod N = (out + n) mod N"
  with \<open>i < n\<close> have "N dvd (out + n) - (out + i)"
    by (subst mod_eq_dvd_iff_nat [symmetric]) auto
  with assms show False by (auto dest: dvd_imp_le)
qed

lemma rb_push_spec:
  assumes "wf_rb r" "currentNumberElements r < maxCapacity r"
  shows "\<exists>r'. rb_push y r = (Inr (), r') \<and> wf_rb r' \<and> rb_elems r' = rb_elems r @ [y]
    \<and> maxCapacity r' = maxCapacity r"
proof -
  let ?n = "currentNumberElements r" and ?N = "length (the_ring r)"
  let ?r' = "r\<lparr>the_ring := (the_ring r)[rb_in r := y], rb_in := (rb_in r + 1) mod ?N,
               currentNumberElements := ?n + 1\<rparr>"
  have N: "?n < ?N" using assms by (simp add: wf_rb_def)
  have i: "rb_in r = (rb_out r + ?n) mod ?N" using assms by (simp add: wf_rb_def)
  have "rb_push y r = (Inr (), ?r')"
    using assms by (simp add: rb_push_def bindE_def rb_isFull_def)
  moreover have "wf_rb ?r'" using assms by (auto simp: wf_rb_def mod_simps)
  moreover have "rb_in r \<noteq> (rb_out r + i) mod ?N" if "i < ?n" for i
    unfolding i by (rule mod_add_neq [OF that N, symmetric])
  moreover have "rb_in r < ?N" unfolding i using N by (intro mod_less_divisor) linarith
  ultimately have "rb_push y r = (Inr (), ?r')" "wf_rb ?r'" "rb_elems ?r' = rb_elems r @ [y]"
    by (simp_all add: rb_elems_def i [symmetric])
  then show ?thesis by auto
qed

lemma rb_push_full: "currentNumberElements r = maxCapacity r \<Longrightarrow> rb_push y r = (Inl RingBufferException, r)"
  by (simp add: rb_push_def bindE_def rb_isFull_def)

interpretation rbq: bounded_queue rb_isEmpty rb_isFull rb_stored_elements rb_pop rb_peek rb_push
  rb_reset rb_elems maxCapacity wf_rb
proof unfold_locales
  fix q :: "'e ring_buffer" and x y :: 'e and xs
  show "wf_rb q \<Longrightarrow> rb_isEmpty q = (rb_elems q = [])"
    by (simp add: rb_isEmpty_def rb_elems_def)
  show "wf_rb q \<Longrightarrow> rb_isFull q = (length (rb_elems q) = maxCapacity q)"
    by (simp add: rb_isFull_def)
  show "wf_rb q \<Longrightarrow> rb_stored_elements q = length (rb_elems q)"
    by (simp add: rb_stored_elements_def)
  show "wf_rb q \<Longrightarrow> rb_elems q = [] \<Longrightarrow> rb_pop q = (Inl RingBufferException, q)"
    by (simp add: rb_pop_empty rb_elems_def)
  show "wf_rb q \<Longrightarrow> rb_elems q = x # xs \<Longrightarrow>
      \<exists>q'. rb_pop q = (Inr x, q') \<and> wf_rb q' \<and> rb_elems q' = xs \<and> maxCapacity q' = maxCapacity q"
    by (rule rb_pop_spec)
  show "wf_rb q \<Longrightarrow> rb_elems q = [] \<Longrightarrow> rb_peek q = (Inl RingBufferException, q)"
    by (simp add: rb_peek_def bindE_def rb_isEmpty_def rb_elems_def)
  show "rb_peek q = (Inr x, q)" if "wf_rb q" "rb_elems q = x # xs"
  proof -
    have "0 < currentNumberElements q"
      using that(2) length_rb_elems [of q] by (simp del: length_rb_elems)
    with that show ?thesis
      by (simp add: rb_peek_def bindE_def rb_isEmpty_def rb_elems_Cons wf_rb_def)
  qed
  show "wf_rb q \<Longrightarrow> length (rb_elems q) = maxCapacity q \<Longrightarrow> rb_push y q = (Inl RingBufferException, q)"
    by (simp add: rb_push_full)
  show "wf_rb q \<Longrightarrow> length (rb_elems q) < maxCapacity q \<Longrightarrow>
      \<exists>q'. rb_push y q = (Inr (), q') \<and> wf_rb q' \<and> rb_elems q' = rb_elems q @ [y]
           \<and> maxCapacity q' = maxCapacity q"
    using rb_push_spec by auto
  show "wf_rb q \<Longrightarrow> wf_rb (rb_reset q)"
    by (auto simp: wf_rb_def rb_reset_def)
  show "wf_rb q \<Longrightarrow> rb_elems (rb_reset q) = []"
    by (simp add: rb_elems_def rb_reset_def)
  show "wf_rb q \<Longrightarrow> maxCapacity (rb_reset q) = maxCapacity q"
    by (simp add: rb_reset_def)
  show "wf_rb q \<Longrightarrow> length (rb_elems q) \<le> maxCapacity q"
    by (simp add: wf_rb_def)
qed

end
