(* ===== verification/VardisStore.thy ===== *)
theory VardisStore
  imports VardisTypes RingBuffer
begin

text \<open>
  The variable store, \<open>dcp/vardis/vardis_store_array.h\<close> (\<open>ArrayVariableStoreBase\<close>) with
  the database entries of \<open>vardis_rtdb_entry.h\<close> and the counters of
  \<open>vardis_protocol_statistics.h\<close>.  The store keeps one state per identifier, a free list
  of buffer offsets, and two byte areas in which the values and descriptions of the
  variables lie; the areas are memories from offsets to bytes, and the invariant keeps
  every access inside the 256 buffers.  The template parameters \<open>valueBufferSize\<close> and
  \<open>descrBufferSize\<close> are fields of the record.  The contract the protocol relies on is the
  locale \<open>variable_store\<close>, interpreted on the array model at the end.
\<close>

section \<open>Database entries and statistics\<close>

record DBEntry =
  db_varId :: VarIdT
  db_prodId :: NodeIdentifierT
  db_repCnt :: VarRepCntT
  db_creationTime :: TimeStampT
  db_timeout :: VarTimeoutT
  db_seqno :: VarSeqnoT
  db_tStamp :: TimeStampT
  db_countUpdate :: VarRepCntT
  db_countCreate :: VarRepCntT
  db_countDelete :: VarRepCntT
  db_isDeleted :: bool

definition new_DBEntry :: DBEntry where
  "new_DBEntry = \<lparr>db_varId = 0, db_prodId = nullNodeIdentifier, db_repCnt = 0, db_creationTime = 0,
     db_timeout = 0, db_seqno = 0, db_tStamp = 0, db_countUpdate = 0, db_countCreate = 0,
     db_countDelete = 0, db_isDeleted = False\<rparr>"

text \<open>The counters wrap around.\<close>

record VardisProtocolStatistics =
  count_handle_rtdb_create :: u64
  count_handle_rtdb_delete :: u64
  count_handle_rtdb_update :: u64
  count_handle_rtdb_read :: u64
  count_process_var_create :: u64
  count_process_var_delete :: u64
  count_process_var_update :: u64
  count_process_var_summary :: u64
  count_process_var_requpdate :: u64
  count_process_var_reqcreate :: u64

definition new_VardisProtocolStatistics :: VardisProtocolStatistics where
  "new_VardisProtocolStatistics = \<lparr>count_handle_rtdb_create = 0, count_handle_rtdb_delete = 0,
     count_handle_rtdb_update = 0, count_handle_rtdb_read = 0, count_process_var_create = 0,
     count_process_var_delete = 0, count_process_var_update = 0, count_process_var_summary = 0,
     count_process_var_requpdate = 0, count_process_var_reqcreate = 0\<rparr>"

section \<open>The state of the store\<close>

record IdentifierState =
  db_entry :: DBEntry
  is_used :: bool
  val_offs :: nat
  descr_offs :: nat
  val_size :: nat
  descr_size :: nat

definition new_IdentifierState :: IdentifierState where
  "new_IdentifierState = \<lparr>db_entry = new_DBEntry, is_used = False, val_offs = 0, descr_offs = 0,
     val_size = 0, descr_size = 0\<rparr>"

record GlobalStateBase =
  vardis_isActive :: bool
  conf_max_summaries :: u16
  conf_max_description_length :: nat
  conf_max_value_length :: nat
  conf_max_repetitions :: u8
  own_node_identifier :: NodeIdentifierT
  vardis_stats :: VardisProtocolStatistics

definition new_GlobalStateBase :: GlobalStateBase where
  "new_GlobalStateBase = \<lparr>vardis_isActive = True, conf_max_summaries = 0,
     conf_max_description_length = 0, conf_max_value_length = 0, conf_max_repetitions = 0,
     own_node_identifier = nullNodeIdentifier, vardis_stats = new_VardisProtocolStatistics\<rparr>"

record FreeListEntry =
  fle_buffer_offs :: nat
  fle_descr_offs :: nat

record ArrayContents =
  valueBufferSize :: nat
  descrBufferSize :: nat
  global_state :: GlobalStateBase
  number_current_variables :: nat
  id_states :: "VarIdT \<Rightarrow> IdentifierState"
  freeList :: "FreeListEntry ring_buffer"
  description_buffer :: "nat \<Rightarrow> u8"
  value_buffer :: "nat \<Rightarrow> u8"

definition get_number_buffers :: nat where
  "get_number_buffers = VarIdT_max_number_identifiers"

definition get_actual_value_buffer_size :: "nat \<Rightarrow> nat" where
  "get_actual_value_buffer_size vbs = 8 * ((vbs + 2 * 8) div 8)"

definition get_actual_description_buffer_size :: "nat \<Rightarrow> nat" where
  "get_actual_description_buffer_size dbs = 8 * ((dbs + 2 * 8) div 8)"

text \<open>\<open>memcpy\<close> into and out of a byte area at an offset.\<close>

definition mem_write :: "(nat \<Rightarrow> u8) \<Rightarrow> nat \<Rightarrow> u8 list \<Rightarrow> nat \<Rightarrow> u8" where
  "mem_write m offs bs i = (if offs \<le> i \<and> i < offs + length bs then bs ! (i - offs) else m i)"

definition mem_read :: "(nat \<Rightarrow> u8) \<Rightarrow> nat \<Rightarrow> nat \<Rightarrow> u8 list" where
  "mem_read m offs n = map (\<lambda>i. m (offs + i)) [0..<n]"

section \<open>Initialization\<close>

definition new_ArrayContents :: "nat \<Rightarrow> nat \<Rightarrow> (nat \<Rightarrow> u8) \<Rightarrow> (nat \<Rightarrow> u8) \<Rightarrow> ArrayContents" where
  "new_ArrayContents vbs dbs dmem vmem =
     \<lparr>valueBufferSize = vbs, descrBufferSize = dbs,
      global_state = new_GlobalStateBase, number_current_variables = 0,
      id_states = (\<lambda>_. new_IdentifierState),
      freeList = \<lparr>rb_in = 0, rb_out = 0, maxCapacity = get_number_buffers, currentNumberElements = 0,
                  rbName = ''ArrayContents::freeList'', the_ring = replicate (get_number_buffers + 1) \<lparr>fle_buffer_offs = 0, fle_descr_offs = 0\<rparr>\<rparr>,
      description_buffer = dmem, value_buffer = vmem\<rparr>"

definition slot_entry :: "nat \<Rightarrow> nat \<Rightarrow> nat \<Rightarrow> FreeListEntry" where
  "slot_entry vbs dbs i = \<lparr>fle_buffer_offs = i * get_actual_value_buffer_size vbs,
                           fle_descr_offs = i * get_actual_description_buffer_size dbs\<rparr>"

text \<open>
  The memory the store is placed in is an argument: \<open>None\<close> for a null start address,
  otherwise the previous contents of the description and the value area.
\<close>

definition initialize_array_store ::
  "nat \<Rightarrow> nat \<Rightarrow> ((nat \<Rightarrow> u8) \<times> (nat \<Rightarrow> u8)) option \<Rightarrow> u16 \<Rightarrow> nat \<Rightarrow> nat \<Rightarrow> u8
   \<Rightarrow> NodeIdentifierT \<Rightarrow> dcp_error + ArrayContents" where
  "initialize_array_store vbs dbs mem maxsumm maxdescrlen maxvallen maxrep own_node_id =
     (case mem of
        None \<Rightarrow> Inl VardisStoreException
      | Some (dmem, vmem) \<Rightarrow>
          if maxdescrlen \<ge> dbs - 8 then Inl VardisStoreException
          else if maxvallen \<ge> vbs - 8 then Inl VardisStoreException
          else
            (let pContents = new_ArrayContents vbs dbs dmem vmem in
             case forE rb_push (map (slot_entry vbs dbs) [0..<get_number_buffers]) (freeList pContents) of
               (Inl e, _) \<Rightarrow> Inl e
             | (Inr _, fl) \<Rightarrow>
                 Inr (pContents\<lparr>
                   freeList := fl,
                   global_state := (global_state pContents)\<lparr>
                     conf_max_summaries := maxsumm,
                     conf_max_description_length := maxdescrlen,
                     conf_max_value_length := maxvallen,
                     conf_max_repetitions := maxrep,
                     own_node_identifier := own_node_id\<rparr>\<rparr>)))"

section \<open>Getters and setters of the global state\<close>

definition get_conf_max_summaries :: "ArrayContents \<Rightarrow> u16" where
  "get_conf_max_summaries st = conf_max_summaries (global_state st)"

definition get_conf_max_description_length :: "ArrayContents \<Rightarrow> nat" where
  "get_conf_max_description_length st = conf_max_description_length (global_state st)"

definition get_conf_max_value_length :: "ArrayContents \<Rightarrow> nat" where
  "get_conf_max_value_length st = conf_max_value_length (global_state st)"

definition get_conf_max_repetitions :: "ArrayContents \<Rightarrow> u8" where
  "get_conf_max_repetitions st = conf_max_repetitions (global_state st)"

definition get_vardis_isactive :: "ArrayContents \<Rightarrow> bool" where
  "get_vardis_isactive st = vardis_isActive (global_state st)"

definition set_vardis_isactive :: "bool \<Rightarrow> ArrayContents \<Rightarrow> ArrayContents" where
  "set_vardis_isactive active st = st\<lparr>global_state := (global_state st)\<lparr>vardis_isActive := active\<rparr>\<rparr>"

definition get_own_node_identifier :: "ArrayContents \<Rightarrow> NodeIdentifierT" where
  "get_own_node_identifier st = own_node_identifier (global_state st)"

definition get_number_variables :: "ArrayContents \<Rightarrow> nat" where
  "get_number_variables st = number_current_variables st"

text \<open>An assignment through \<open>get_vardis_protocol_statistics_ref\<close>.\<close>

definition modify_stats ::
  "(VardisProtocolStatistics \<Rightarrow> VardisProtocolStatistics) \<Rightarrow> ArrayContents \<Rightarrow> ArrayContents" where
  "modify_stats f st = st\<lparr>global_state := (global_state st)\<lparr>vardis_stats := f (vardis_stats (global_state st))\<rparr>\<rparr>"

section \<open>Operations on identifiers\<close>

definition modify_id_state ::
  "VarIdT \<Rightarrow> (IdentifierState \<Rightarrow> IdentifierState) \<Rightarrow> ArrayContents \<Rightarrow> ArrayContents" where
  "modify_id_state varId f st = st\<lparr>id_states := (id_states st)(varId := f (id_states st varId))\<rparr>"

definition throw_unused :: "VarIdT \<Rightarrow> (ArrayContents, unit) action" where
  "throw_unused varId = throw_if VardisStoreException (\<lambda>st. \<not> is_used (id_states st varId))"

definition allocate_identifier :: "VarIdT \<Rightarrow> (ArrayContents, unit) action" where
  "allocate_identifier varId =
     bindE (throw_if VardisStoreException (\<lambda>st. is_used (id_states st varId))) (\<lambda>_.
     bindE (throw_if VardisStoreException (\<lambda>st. rb_isEmpty (freeList st))) (\<lambda>_.
     bindE (zoomE freeList (\<lambda>fl st. st\<lparr>freeList := fl\<rparr>) rb_pop) (\<lambda>fl_entry.
     bindE (modifyE (modify_id_state varId (\<lambda>s. s\<lparr>is_used := True\<rparr>))) (\<lambda>_.
     bindE (modifyE (modify_id_state varId (\<lambda>s. s\<lparr>val_offs := fle_buffer_offs fl_entry\<rparr>))) (\<lambda>_.
     bindE (modifyE (modify_id_state varId (\<lambda>s. s\<lparr>descr_offs := fle_descr_offs fl_entry\<rparr>))) (\<lambda>_.
     modifyE (\<lambda>st. st\<lparr>number_current_variables := number_current_variables st + 1\<rparr>)))))))"

definition deallocate_identifier :: "VarIdT \<Rightarrow> (ArrayContents, unit) action" where
  "deallocate_identifier varId =
     bindE (throw_unused varId) (\<lambda>_.
     bindE (modifyE (modify_id_state varId (\<lambda>s. s\<lparr>is_used := False\<rparr>))) (\<lambda>_.
     bindE (getE (\<lambda>st. \<lparr>fle_buffer_offs = val_offs (id_states st varId),
                         fle_descr_offs = descr_offs (id_states st varId)\<rparr>)) (\<lambda>fl_entry.
     bindE (modifyE (modify_id_state varId (\<lambda>s. s\<lparr>val_size := 0, descr_size := 0\<rparr>))) (\<lambda>_.
     bindE (zoomE freeList (\<lambda>fl st. st\<lparr>freeList := fl\<rparr>) (rb_push fl_entry)) (\<lambda>_.
     modifyE (\<lambda>st. st\<lparr>number_current_variables := number_current_variables st - 1\<rparr>))))))"

definition identifier_is_allocated :: "VarIdT \<Rightarrow> ArrayContents \<Rightarrow> bool" where
  "identifier_is_allocated varId st = is_used (id_states st varId)"

definition set_db_entry :: "VarIdT \<Rightarrow> DBEntry \<Rightarrow> (ArrayContents, unit) action" where
  "set_db_entry varId new_entry =
     bindE (throw_unused varId) (\<lambda>_.
     modifyE (modify_id_state varId (\<lambda>s. s\<lparr>db_entry := new_entry\<rparr>)))"

text \<open>
  \<open>get_db_entry_ref\<close> returns a reference: its value is read with \<open>get_db_entry\<close>, and an
  assignment to its fields is \<open>modify_db_entry\<close>.
\<close>

definition get_db_entry_ref :: "VarIdT \<Rightarrow> (ArrayContents, DBEntry) action" where
  "get_db_entry_ref varId =
     bindE (throw_unused varId) (\<lambda>_.
     getE (\<lambda>st. db_entry (id_states st varId)))"

definition modify_db_entry :: "VarIdT \<Rightarrow> (DBEntry \<Rightarrow> DBEntry) \<Rightarrow> ArrayContents \<Rightarrow> ArrayContents" where
  "modify_db_entry varId f = modify_id_state varId (\<lambda>s. s\<lparr>db_entry := f (db_entry s)\<rparr>)"

section \<open>Operations on values and descriptions\<close>

definition update_value_block :: "VarIdT \<Rightarrow> u8 list option \<Rightarrow> VarLenT \<Rightarrow> (ArrayContents, unit) action" where
  "update_value_block varId newval nvsize =
     bindE (throw_unused varId) (\<lambda>_.
     bindE (throw_if VardisStoreException (\<lambda>_. unat nvsize = 0)) (\<lambda>_.
     bindE (throw_if VardisStoreException (\<lambda>st. unat nvsize > valueBufferSize st)) (\<lambda>_.
     bindE (throw_if VardisStoreException (\<lambda>_. newval = None)) (\<lambda>_.
     bindE (modifyE (\<lambda>st. st\<lparr>value_buffer := mem_write (value_buffer st) (val_offs (id_states st varId))
                                 (take (unat nvsize) (the newval))\<rparr>)) (\<lambda>_.
     modifyE (modify_id_state varId (\<lambda>s. s\<lparr>val_size := unat nvsize\<rparr>)))))))"

definition update_value :: "VarIdT \<Rightarrow> VarValueT \<Rightarrow> (ArrayContents, unit) action" where
  "update_value varId newval =
     bindE (throw_unused varId) (\<lambda>_.
     bindE (throw_if VardisStoreException (\<lambda>_. mb_length newval = 0)) (\<lambda>_.
     bindE (throw_if VardisStoreException (\<lambda>st. mb_length newval > valueBufferSize st)) (\<lambda>_.
     bindE (modifyE (\<lambda>st. st\<lparr>value_buffer := mem_write (value_buffer st) (val_offs (id_states st varId))
                                 (take (mb_length newval) (mb_bytes newval))\<rparr>)) (\<lambda>_.
     modifyE (modify_id_state varId (\<lambda>s. s\<lparr>val_size := mb_length newval\<rparr>))))))"

text \<open>The bytes of a variable's value and description.\<close>

definition value_bytes :: "VarIdT \<Rightarrow> ArrayContents \<Rightarrow> u8 list" where
  "value_bytes varId st =
     mem_read (value_buffer st) (val_offs (id_states st varId)) (val_size (id_states st varId))"

definition descr_bytes :: "VarIdT \<Rightarrow> ArrayContents \<Rightarrow> u8 list" where
  "descr_bytes varId st =
     mem_read (description_buffer st) (descr_offs (id_states st varId)) (descr_size (id_states st varId))"

definition read_value_block ::
  "VarIdT \<Rightarrow> nat \<Rightarrow> u8 list option \<Rightarrow> (ArrayContents, u8 list \<times> VarLenT) action" where
  "read_value_block varId output_buffer_size output_buffer =
     bindE (throw_unused varId) (\<lambda>_.
     bindE (throw_if VardisStoreException (\<lambda>_. output_buffer = None)) (\<lambda>_.
     bindE (throw_if VardisStoreException (\<lambda>st. output_buffer_size < val_size (id_states st varId))) (\<lambda>_.
     getE (\<lambda>st. (memcpy_at (the output_buffer) 0 (value_bytes varId st) (val_size (id_states st varId)),
                  of_nat (val_size (id_states st varId)))))))"

text \<open>
  The other \<open>read_value\<close> and \<open>read_description\<close> return blocks that point into the store
  (\<open>do_delete = false\<close>); they are values here, taken at the time of the call, which is
  all the callers use before they release the store's lock.
\<close>

definition read_value :: "VarIdT \<Rightarrow> (ArrayContents, VarValueT) action" where
  "read_value varId =
     bindE (throw_unused varId) (\<lambda>_.
     getE (\<lambda>st. new_VarValueT\<lparr>do_delete := False, mb_data := Some (value_bytes varId st),
                  mb_length := val_size (id_states st varId),
                  vv_len := of_nat (val_size (id_states st varId))\<rparr>))"

definition size_of_value :: "VarIdT \<Rightarrow> ArrayContents \<Rightarrow> nat" where
  "size_of_value varId st = val_size (id_states st varId)"

definition update_description :: "VarIdT \<Rightarrow> StringT \<Rightarrow> (ArrayContents, unit) action" where
  "update_description varId new_descr =
     bindE (throw_unused varId) (\<lambda>_.
     bindE (throw_if VardisStoreException (\<lambda>_. mb_length new_descr = 0)) (\<lambda>_.
     bindE (throw_if VardisStoreException (\<lambda>st. mb_length new_descr > descrBufferSize st)) (\<lambda>_.
     bindE (modifyE (\<lambda>st. st\<lparr>description_buffer :=
                                 mem_write (description_buffer st) (descr_offs (id_states st varId))
                                   (take (mb_length new_descr) (mb_bytes new_descr))\<rparr>)) (\<lambda>_.
     modifyE (modify_id_state varId (\<lambda>s. s\<lparr>descr_size := mb_length new_descr\<rparr>))))))"

definition read_description :: "VarIdT \<Rightarrow> (ArrayContents, StringT) action" where
  "read_description varId =
     bindE (throw_unused varId) (\<lambda>_.
     getE (\<lambda>st. new_MemBlock\<lparr>do_delete := False, mb_data := Some (descr_bytes varId st),
                  mb_length := descr_size (id_states st varId)\<rparr>))"

definition read_description_block :: "VarIdT \<Rightarrow> u8 list option \<Rightarrow> (ArrayContents, u8 list) action" where
  "read_description_block varId buf =
     bindE (throw_unused varId) (\<lambda>_.
     bindE (throw_if VardisStoreException (\<lambda>_. buf = None)) (\<lambda>_.
     getE (\<lambda>st. (memcpy_at (the buf) 0 (descr_bytes varId st) (descr_size (id_states st varId)))
                  [descr_size (id_states st varId) := 0])))"

definition size_of_description :: "VarIdT \<Rightarrow> ArrayContents \<Rightarrow> nat" where
  "size_of_description varId st = descr_size (id_states st varId)"

section \<open>Invariant\<close>

text \<open>
  Every identifier in use owns one of the 256 pairs of buffers, no two the same; the
  other pairs are in the free list; sizes stay within the buffers.
\<close>

definition used_ids :: "ArrayContents \<Rightarrow> VarIdT set" where
  "used_ids st = {varId. is_used (id_states st varId)}"

definition slot_of :: "ArrayContents \<Rightarrow> VarIdT \<Rightarrow> FreeListEntry" where
  "slot_of st varId = \<lparr>fle_buffer_offs = val_offs (id_states st varId),
                       fle_descr_offs = descr_offs (id_states st varId)\<rparr>"

definition all_slots :: "ArrayContents \<Rightarrow> FreeListEntry set" where
  "all_slots st = slot_entry (valueBufferSize st) (descrBufferSize st) ` {..<get_number_buffers}"

definition wf_store :: "ArrayContents \<Rightarrow> bool" where
  "wf_store st \<longleftrightarrow>
     wf_rb (freeList st) \<and> maxCapacity (freeList st) = get_number_buffers
     \<and> distinct (rb_elems (freeList st)) \<and> set (rb_elems (freeList st)) \<subseteq> all_slots st
     \<and> inj_on (slot_of st) (used_ids st) \<and> slot_of st ` used_ids st \<subseteq> all_slots st
     \<and> slot_of st ` used_ids st \<inter> set (rb_elems (freeList st)) = {}
     \<and> length (rb_elems (freeList st)) + card (used_ids st) = get_number_buffers
     \<and> number_current_variables st = card (used_ids st)
     \<and> (\<forall>varId. val_size (id_states st varId) \<le> valueBufferSize st
              \<and> descr_size (id_states st varId) \<le> descrBufferSize st
              \<and> (\<not> is_used (id_states st varId) \<longrightarrow>
                   val_size (id_states st varId) = 0 \<and> descr_size (id_states st varId) = 0))
     \<and> conf_max_value_length (global_state st) < valueBufferSize st - 8
     \<and> conf_max_description_length (global_state st) < descrBufferSize st - 8"

lemma card_used_less:
  assumes "\<not> is_used (id_states st varId)"
  shows "card (used_ids st) < 256"
proof -
  have "used_ids st \<subset> UNIV" using assms by (auto simp: used_ids_def)
  then have "card (used_ids st) < card (UNIV :: u8 set)" by (intro psubset_card_mono) auto
  then show ?thesis by (simp add: card_word)
qed

lemma length_mem_read [simp]: "length (mem_read m offs n) = n"
  by (simp add: mem_read_def)

lemma mem_read_write_same [simp]: "mem_read (mem_write m offs bs) offs (length bs) = bs"
  by (rule nth_equalityI) (simp_all add: mem_read_def mem_write_def)

lemma mem_read_write_other:
  "offs + length bs \<le> offs' \<or> offs' + n \<le> offs \<Longrightarrow> mem_read (mem_write m offs bs) offs' n = mem_read m offs' n"
  by (auto simp: mem_read_def mem_write_def)

lemma slot_size:
  "vbs < get_actual_value_buffer_size vbs" "dbs < get_actual_description_buffer_size dbs"
  unfolding get_actual_value_buffer_size_def get_actual_description_buffer_size_def
  by (presburger, presburger)

section \<open>The effect of the operations\<close>

definition put_value :: "VarIdT \<Rightarrow> u8 list \<Rightarrow> ArrayContents \<Rightarrow> ArrayContents" where
  "put_value varId bs st = modify_id_state varId (\<lambda>s. s\<lparr>val_size := length bs\<rparr>)
     (st\<lparr>value_buffer := mem_write (value_buffer st) (val_offs (id_states st varId)) bs\<rparr>)"

definition put_descr :: "VarIdT \<Rightarrow> u8 list \<Rightarrow> ArrayContents \<Rightarrow> ArrayContents" where
  "put_descr varId bs st = modify_id_state varId (\<lambda>s. s\<lparr>descr_size := length bs\<rparr>)
     (st\<lparr>description_buffer := mem_write (description_buffer st) (descr_offs (id_states st varId)) bs\<rparr>)"

lemma mult_ranges_disjoint:
  fixes k k' A :: nat
  assumes "k \<noteq> k'" "n \<le> A" "n' \<le> A"
  shows "k * A + n \<le> k' * A \<or> k' * A + n' \<le> k * A"
proof (cases "k < k'")
  case True
  then have "(k + 1) * A \<le> k' * A" by (intro mult_le_mono1) simp
  with assms show ?thesis by simp
next
  case False
  with assms have "(k' + 1) * A \<le> k * A" by (intro mult_le_mono1) simp
  with assms show ?thesis by simp
qed

lemma used_slot:
  assumes "wf_store st" "is_used (id_states st varId)"
  obtains k where "k < get_number_buffers"
    "val_offs (id_states st varId) = k * get_actual_value_buffer_size (valueBufferSize st)"
    "descr_offs (id_states st varId) = k * get_actual_description_buffer_size (descrBufferSize st)"
proof -
  have "slot_of st varId \<in> all_slots st" using assms by (auto simp: wf_store_def used_ids_def)
  then show ?thesis
    by (auto simp: all_slots_def slot_of_def slot_entry_def intro: that)
qed

lemma used_ranges_disjoint:
  assumes "wf_store st" "is_used (id_states st i)" "is_used (id_states st j)" "i \<noteq> j"
    "n \<le> valueBufferSize st" "n' \<le> valueBufferSize st" "m \<le> descrBufferSize st" "m' \<le> descrBufferSize st"
  shows "val_offs (id_states st i) + n \<le> val_offs (id_states st j)
         \<or> val_offs (id_states st j) + n' \<le> val_offs (id_states st i)"
    and "descr_offs (id_states st i) + m \<le> descr_offs (id_states st j)
         \<or> descr_offs (id_states st j) + m' \<le> descr_offs (id_states st i)"
proof -
  obtain k where k: "val_offs (id_states st i) = k * get_actual_value_buffer_size (valueBufferSize st)"
    "descr_offs (id_states st i) = k * get_actual_description_buffer_size (descrBufferSize st)"
    using used_slot [OF assms(1,2)] by metis
  obtain k' where k': "val_offs (id_states st j) = k' * get_actual_value_buffer_size (valueBufferSize st)"
    "descr_offs (id_states st j) = k' * get_actual_description_buffer_size (descrBufferSize st)"
    using used_slot [OF assms(1,3)] by metis
  have "slot_of st i \<noteq> slot_of st j"
    using assms by (auto simp: wf_store_def inj_on_def used_ids_def)
  with k k' have ne: "k \<noteq> k'" by (auto simp: slot_of_def)
  note s = slot_size [of "valueBufferSize st"] slot_size(2) [of "descrBufferSize st"]
  show "val_offs (id_states st i) + n \<le> val_offs (id_states st j)
         \<or> val_offs (id_states st j) + n' \<le> val_offs (id_states st i)"
    unfolding k k' using s assms(5,6) by (intro mult_ranges_disjoint [OF ne]) linarith+
  show "descr_offs (id_states st i) + m \<le> descr_offs (id_states st j)
         \<or> descr_offs (id_states st j) + m' \<le> descr_offs (id_states st i)"
    unfolding k k' using s assms(7,8) by (intro mult_ranges_disjoint [OF ne]) linarith+
qed

lemma wf_store_sizes:
  assumes "wf_store st"
  shows "val_size (id_states st i) \<le> valueBufferSize st" "descr_size (id_states st i) \<le> descrBufferSize st"
    "\<not> is_used (id_states st i) \<Longrightarrow> val_size (id_states st i) = 0"
    "\<not> is_used (id_states st i) \<Longrightarrow> descr_size (id_states st i) = 0"
  using assms by (simp_all add: wf_store_def)

lemma put_simps [simp]:
  "is_used (id_states (put_value i bs st) j) = is_used (id_states st j)"
  "db_entry (id_states (put_value i bs st) j) = db_entry (id_states st j)"
  "global_state (put_value i bs st) = global_state st"
  "valueBufferSize (put_value i bs st) = valueBufferSize st"
  "descrBufferSize (put_value i bs st) = descrBufferSize st"
  "is_used (id_states (put_descr i bs st) j) = is_used (id_states st j)"
  "db_entry (id_states (put_descr i bs st) j) = db_entry (id_states st j)"
  "global_state (put_descr i bs st) = global_state st"
  "valueBufferSize (put_descr i bs st) = valueBufferSize st"
  "descrBufferSize (put_descr i bs st) = descrBufferSize st"
  "descr_bytes j (put_value i bs st) = descr_bytes j st"
  "value_bytes j (put_descr i bs st) = value_bytes j st"
  by (simp_all add: put_value_def put_descr_def modify_id_state_def descr_bytes_def value_bytes_def)

lemma value_bytes_put_value:
  assumes "wf_store st" "is_used (id_states st i)" "length bs \<le> valueBufferSize st"
  shows "value_bytes j (put_value i bs st) = (if j = i then bs else value_bytes j st)"
proof (cases "j = i")
  case True
  then show ?thesis by (simp add: value_bytes_def put_value_def modify_id_state_def)
next
  case False
  have "mem_read (mem_write (value_buffer st) (val_offs (id_states st i)) bs)
          (val_offs (id_states st j)) (val_size (id_states st j))
        = mem_read (value_buffer st) (val_offs (id_states st j)) (val_size (id_states st j))"
  proof (cases "is_used (id_states st j)")
    case True
    then show ?thesis
      using used_ranges_disjoint(1) [of st i j "length bs" "val_size (id_states st j)" 0 0]
        assms False wf_store_sizes [OF assms(1)] by (intro mem_read_write_other) auto
  next
    case False
    then show ?thesis using wf_store_sizes [OF assms(1)] by (simp add: mem_read_def)
  qed
  with False show ?thesis by (simp add: value_bytes_def put_value_def modify_id_state_def)
qed

lemma descr_bytes_put_descr:
  assumes "wf_store st" "is_used (id_states st i)" "length bs \<le> descrBufferSize st"
  shows "descr_bytes j (put_descr i bs st) = (if j = i then bs else descr_bytes j st)"
proof (cases "j = i")
  case True
  then show ?thesis by (simp add: descr_bytes_def put_descr_def modify_id_state_def)
next
  case False
  have "mem_read (mem_write (description_buffer st) (descr_offs (id_states st i)) bs)
          (descr_offs (id_states st j)) (descr_size (id_states st j))
        = mem_read (description_buffer st) (descr_offs (id_states st j)) (descr_size (id_states st j))"
  proof (cases "is_used (id_states st j)")
    case True
    then show ?thesis
      using used_ranges_disjoint(2) [of st i j 0 0 "length bs" "descr_size (id_states st j)"]
        assms False wf_store_sizes [OF assms(1)] by (intro mem_read_write_other) auto
  next
    case False
    then show ?thesis using wf_store_sizes [OF assms(1)] by (simp add: mem_read_def)
  qed
  with False show ?thesis by (simp add: descr_bytes_def put_descr_def modify_id_state_def)
qed

section \<open>The operations keep the invariant\<close>

lemma wf_store_same_layout:
  assumes "wf_store st"
    and "freeList st' = freeList st" "valueBufferSize st' = valueBufferSize st"
      "descrBufferSize st' = descrBufferSize st"
      "number_current_variables st' = number_current_variables st"
      "conf_max_value_length (global_state st') = conf_max_value_length (global_state st)"
      "conf_max_description_length (global_state st') = conf_max_description_length (global_state st)"
    and "\<And>i. is_used (id_states st' i) = is_used (id_states st i)"
      "\<And>i. val_offs (id_states st' i) = val_offs (id_states st i)"
      "\<And>i. descr_offs (id_states st' i) = descr_offs (id_states st i)"
    and "\<And>i. val_size (id_states st' i) \<le> valueBufferSize st
               \<and> descr_size (id_states st' i) \<le> descrBufferSize st
               \<and> (\<not> is_used (id_states st i) \<longrightarrow>
                    val_size (id_states st' i) = 0 \<and> descr_size (id_states st' i) = 0)"
  shows "wf_store st'"
proof -
  have "used_ids st' = used_ids st" "slot_of st' = slot_of st" "all_slots st' = all_slots st"
    using assms by (auto simp: used_ids_def slot_of_def all_slots_def)
  with assms show ?thesis unfolding wf_store_def by simp
qed

lemma wf_put_value [simp]:
  "wf_store st \<Longrightarrow> is_used (id_states st i) \<Longrightarrow> length bs \<le> valueBufferSize st \<Longrightarrow> wf_store (put_value i bs st)"
  by (rule wf_store_same_layout [of st])
    (auto simp: put_value_def modify_id_state_def wf_store_sizes)

lemma wf_put_descr [simp]:
  "wf_store st \<Longrightarrow> is_used (id_states st i) \<Longrightarrow> length bs \<le> descrBufferSize st \<Longrightarrow> wf_store (put_descr i bs st)"
  by (rule wf_store_same_layout [of st])
    (auto simp: put_descr_def modify_id_state_def wf_store_sizes)

lemma wf_modify_db_entry [simp]: "wf_store st \<Longrightarrow> wf_store (modify_db_entry i f st)"
  by (rule wf_store_same_layout [of st])
    (auto simp: modify_db_entry_def modify_id_state_def wf_store_sizes)

lemma wf_modify_stats [simp]: "wf_store st \<Longrightarrow> wf_store (modify_stats f st)"
  by (rule wf_store_same_layout [of st]) (auto simp: modify_stats_def wf_store_sizes)

lemma wf_set_vardis_isactive [simp]: "wf_store st \<Longrightarrow> wf_store (set_vardis_isactive b st)"
  by (rule wf_store_same_layout [of st]) (auto simp: set_vardis_isactive_def wf_store_sizes)

lemma modify_simps [simp]:
  "is_used (id_states (modify_db_entry i f st) j) = is_used (id_states st j)"
  "db_entry (id_states (modify_db_entry i f st) j) =
     (if j = i then f (db_entry (id_states st i)) else db_entry (id_states st j))"
  "global_state (modify_db_entry i f st) = global_state st"
  "value_bytes j (modify_db_entry i f st) = value_bytes j st"
  "descr_bytes j (modify_db_entry i f st) = descr_bytes j st"
  "valueBufferSize (modify_db_entry i f st) = valueBufferSize st"
  "descrBufferSize (modify_db_entry i f st) = descrBufferSize st"
  "val_size (id_states (modify_db_entry i f st) j) = val_size (id_states st j)"
  "descr_size (id_states (modify_db_entry i f st) j) = descr_size (id_states st j)"
  "id_states (modify_stats g st) = id_states st"
  "value_bytes j (modify_stats g st) = value_bytes j st"
  "descr_bytes j (modify_stats g st) = descr_bytes j st"
  "valueBufferSize (modify_stats g st) = valueBufferSize st"
  "descrBufferSize (modify_stats g st) = descrBufferSize st"
  "global_state (modify_stats g st) = (global_state st)\<lparr>vardis_stats := g (vardis_stats (global_state st))\<rparr>"
  by (simp_all add: modify_db_entry_def modify_id_state_def value_bytes_def descr_bytes_def modify_stats_def)

lemma length_value_bytes [simp]: "length (value_bytes i st) = val_size (id_states st i)"
  by (simp add: value_bytes_def)

lemma length_descr_bytes [simp]: "length (descr_bytes i st) = descr_size (id_states st i)"
  by (simp add: descr_bytes_def)

section \<open>The operations on every branch\<close>

lemma set_db_entry_spec:
  "set_db_entry i e st =
     (if is_used (id_states st i) then (Inr (), modify_db_entry i (\<lambda>_. e) st)
      else (Inl VardisStoreException, st))"
  by (simp add: set_db_entry_def throw_unused_def bindE_def modify_db_entry_def)

lemma get_db_entry_ref_spec:
  "get_db_entry_ref i st =
     (if is_used (id_states st i) then (Inr (db_entry (id_states st i)), st)
      else (Inl VardisStoreException, st))"
  by (simp add: get_db_entry_ref_def throw_unused_def bindE_def)

lemma update_value_spec:
  "update_value i v st =
     (if \<not> is_used (id_states st i) \<or> mb_length v = 0 \<or> mb_length v > valueBufferSize st
      then (Inl VardisStoreException, st)
      else (Inr (), modify_id_state i (\<lambda>s. s\<lparr>val_size := mb_length v\<rparr>)
             (st\<lparr>value_buffer := mem_write (value_buffer st) (val_offs (id_states st i))
                   (take (mb_length v) (mb_bytes v))\<rparr>)))"
  by (auto simp: update_value_def throw_unused_def bindE_def)

lemma update_value_ok:
  "is_used (id_states st i) \<Longrightarrow> bs \<noteq> [] \<Longrightarrow> length bs \<le> valueBufferSize st
   \<Longrightarrow> mb_length v = length bs \<Longrightarrow> mb_bytes v = bs
   \<Longrightarrow> update_value i v st = (Inr (), put_value i bs st)"
  by (simp add: update_value_spec put_value_def)

lemma update_value_block_ok:
  "is_used (id_states st i) \<Longrightarrow> bs \<noteq> [] \<Longrightarrow> length bs \<le> valueBufferSize st \<Longrightarrow> unat n = length bs
   \<Longrightarrow> update_value_block i (Some bs) n st = (Inr (), put_value i bs st)"
  by (auto simp: update_value_block_def throw_unused_def bindE_def put_value_def)

lemma update_description_ok:
  "is_used (id_states st i) \<Longrightarrow> bs \<noteq> [] \<Longrightarrow> length bs \<le> descrBufferSize st
   \<Longrightarrow> mb_length d = length bs \<Longrightarrow> mb_bytes d = bs
   \<Longrightarrow> update_description i d st = (Inr (), put_descr i bs st)"
  by (simp add: update_description_def throw_unused_def bindE_def put_descr_def)

lemma update_description_empty:
  "mb_length d = 0 \<Longrightarrow> update_description i d st = (Inl VardisStoreException, st)"
  by (simp add: update_description_def throw_unused_def bindE_def)

lemma read_value_ok:
  "is_used (id_states st i)
   \<Longrightarrow> read_value i st = (Inr ((new_VarValueT)\<lparr>do_delete := False, mb_data := Some (value_bytes i st),
         mb_length := length (value_bytes i st), vv_len := of_nat (length (value_bytes i st))\<rparr>), st)"
  by (simp add: read_value_def throw_unused_def bindE_def)

lemma read_description_ok:
  "is_used (id_states st i)
   \<Longrightarrow> read_description i st = (Inr (new_MemBlock\<lparr>do_delete := False, mb_data := Some (descr_bytes i st),
         mb_length := length (descr_bytes i st)\<rparr>), st)"
  by (simp add: read_description_def throw_unused_def bindE_def)

lemma unused_throws:
  assumes "\<not> is_used (id_states st i)"
  shows "get_db_entry_ref i st = (Inl VardisStoreException, st)"
    "set_db_entry i e st = (Inl VardisStoreException, st)"
    "update_value i v st = (Inl VardisStoreException, st)"
    "update_value_block i b n st = (Inl VardisStoreException, st)"
    "update_description i d st = (Inl VardisStoreException, st)"
    "read_value i st = (Inl VardisStoreException, st)"
    "read_value_block i m ob st = (Inl VardisStoreException, st)"
    "read_description i st = (Inl VardisStoreException, st)"
    "read_description_block i ob st = (Inl VardisStoreException, st)"
    "deallocate_identifier i st = (Inl VardisStoreException, st)"
  using assms
  by (simp_all add: get_db_entry_ref_def set_db_entry_def update_value_def update_value_block_def
      update_description_def read_value_def read_value_block_def read_description_def
      read_description_block_def deallocate_identifier_def throw_unused_def bindE_def)

section \<open>Allocation\<close>

text \<open>
  An unused identifier can always be allocated: there are as many buffer pairs as
  identifiers, so the free list is not empty.
\<close>

lemma allocate_identifier_ok:
  assumes wf: "wf_store st" and un: "\<not> is_used (id_states st i)"
  obtains st' where "allocate_identifier i st = (Inr (), st')" "wf_store st'"
    "\<And>j. is_used (id_states st' j) \<longleftrightarrow> j = i \<or> is_used (id_states st j)"
    "\<And>j. db_entry (id_states st' j) = db_entry (id_states st j)"
    "\<And>j. value_bytes j st' = value_bytes j st" "\<And>j. descr_bytes j st' = descr_bytes j st"
    "global_state st' = global_state st" "valueBufferSize st' = valueBufferSize st"
    "descrBufferSize st' = descrBufferSize st"
proof -
  let ?fl = "freeList st"
  have rb: "wf_rb ?fl" using wf by (simp add: wf_store_def)
  have "length (rb_elems ?fl) + card (used_ids st) = 256"
    using wf by (simp add: wf_store_def get_number_buffers_def VarIdT_max_number_identifiers_def)
  then have "rb_elems ?fl \<noteq> []" using card_used_less [OF un] by force
  then obtain e es where es: "rb_elems ?fl = e # es" by (cases "rb_elems ?fl") auto
  from rb_pop_spec [OF rb es] obtain fl' where
    fl': "rb_pop ?fl = (Inr e, fl')" "wf_rb fl'" "rb_elems fl' = es" "maxCapacity fl' = maxCapacity ?fl"
    by auto
  let ?st' = "st\<lparr>freeList := fl',
     id_states := (id_states st)(i := (id_states st i)\<lparr>is_used := True, val_offs := fle_buffer_offs e,
                                                        descr_offs := fle_descr_offs e\<rparr>),
     number_current_variables := number_current_variables st + 1\<rparr>"
  have ne: "\<not> rb_isEmpty ?fl" using rbq.is_empty [OF rb] es by simp
  have eq: "allocate_identifier i st = (Inr (), ?st')"
    using un ne fl'(1)
    by (simp add: allocate_identifier_def bindE_def zoomE_def modify_id_state_def)
  have u: "used_ids ?st' = insert i (used_ids st)" by (auto simp: used_ids_def)
  have i: "i \<notin> used_ids st" using un by (simp add: used_ids_def)
  have sl: "slot_of ?st' i = e" "\<And>j. j \<noteq> i \<Longrightarrow> slot_of ?st' j = slot_of st j"
    by (simp_all add: slot_of_def)
  have im: "slot_of ?st' ` used_ids st = slot_of st ` used_ids st"
    using i by (intro image_cong refl sl(2)) blast
  have "inj_on (slot_of st) (used_ids st)" using wf by (simp add: wf_store_def)
  then have inj: "inj_on (slot_of ?st') (used_ids st)"
    using i sl(2) unfolding inj_on_def by metis
  have eo: "e \<notin> slot_of st ` used_ids st" "e \<in> all_slots st" "e \<notin> set es" "set es \<subseteq> all_slots st"
    using wf es by (auto simp: wf_store_def)
  have as: "all_slots ?st' = all_slots st" by (simp add: all_slots_def)
  have fin: "card (insert i (used_ids st)) = Suc (card (used_ids st))" using i by simp
  have "wf_store ?st'"
    unfolding wf_store_def u as
    using wf fl' es inj im sl eo i fin by (auto simp: wf_store_def)
  moreover have "value_bytes j ?st' = value_bytes j st" "descr_bytes j ?st' = descr_bytes j st" for j
    using wf_store_sizes(3,4) [OF wf un]
    by (auto simp: value_bytes_def descr_bytes_def mem_read_def)
  ultimately show ?thesis using eq by (intro that [of ?st']) auto
qed

lemma allocate_identifier_used:
  "is_used (id_states st i) \<Longrightarrow> allocate_identifier i st = (Inl VardisStoreException, st)"
  by (simp add: allocate_identifier_def bindE_def)

text \<open>The free list has room for the buffers of an identifier that is given back.\<close>

lemma deallocate_identifier_ok:
  assumes wf: "wf_store st" and us: "is_used (id_states st i)"
  obtains st' where "deallocate_identifier i st = (Inr (), st')" "wf_store st'"
    "\<And>j. is_used (id_states st' j) \<longleftrightarrow> j \<noteq> i \<and> is_used (id_states st j)"
    "\<And>j. j \<noteq> i \<Longrightarrow> id_states st' j = id_states st j"
proof -
  let ?fl = "freeList st"
  let ?e = "slot_of st i"
  have rb: "wf_rb ?fl" using wf by (simp add: wf_store_def)
  have i: "i \<in> used_ids st" using us by (simp add: used_ids_def)
  then have pos: "0 < card (used_ids st)" by (auto simp: card_gt_0_iff)
  then have "currentNumberElements ?fl < maxCapacity ?fl"
    using wf by (simp add: wf_store_def)
  from rb_push_spec [OF rb this, of ?e] obtain fl' where
    fl': "rb_push ?e ?fl = (Inr (), fl')" "wf_rb fl'" "rb_elems fl' = rb_elems ?fl @ [?e]"
      "maxCapacity fl' = maxCapacity ?fl" by auto
  let ?st' = "st\<lparr>freeList := fl',
     id_states := (id_states st)(i := (id_states st i)\<lparr>is_used := False, val_size := 0, descr_size := 0\<rparr>),
     number_current_variables := number_current_variables st - 1\<rparr>"
  have eq: "deallocate_identifier i st = (Inr (), ?st')"
    using us fl'(1)
    by (simp add: deallocate_identifier_def throw_unused_def bindE_def zoomE_def modify_id_state_def
        slot_of_def)
  have u: "used_ids ?st' = used_ids st - {i}" by (auto simp: used_ids_def)
  have sl: "slot_of ?st' = slot_of st" by (rule ext) (simp add: slot_of_def)
  have as: "all_slots ?st' = all_slots st" by (simp add: all_slots_def)
  have inj: "inj_on (slot_of st) (used_ids st)" using wf by (simp add: wf_store_def)
  then have "?e \<notin> slot_of st ` (used_ids st - {i})" using i by (auto simp: inj_on_def)
  moreover have "?e \<in> all_slots st" "?e \<notin> set (rb_elems ?fl)" using wf i by (auto simp: wf_store_def)
  moreover have "card (used_ids st - {i}) = card (used_ids st) - 1" using i by simp
  moreover have "inj_on (slot_of st) (used_ids st - {i})" using inj by (rule inj_on_subset) auto
  ultimately have "wf_store ?st'"
    unfolding wf_store_def u as sl using wf fl' pos by (auto simp: wf_store_def)
  with eq show ?thesis by (intro that [of ?st']) auto
qed

section \<open>The initial store\<close>

lemma inj_slot_entry: "inj (slot_entry vbs dbs)"
  using slot_size(1) [of vbs] by (auto simp: inj_on_def slot_entry_def)

lemma wf_initialize_array_store:
  assumes "maxdescrlen < dbs - 8" "maxvallen < vbs - 8"
  obtains st where
    "initialize_array_store vbs dbs (Some (dmem, vmem)) maxsumm maxdescrlen maxvallen maxrep own = Inr st"
    "wf_store st" "\<And>i. \<not> is_used (id_states st i)"
    "get_own_node_identifier st = own" "get_conf_max_summaries st = maxsumm"
    "get_conf_max_description_length st = maxdescrlen" "get_conf_max_value_length st = maxvallen"
    "get_conf_max_repetitions st = maxrep" "get_vardis_isactive st"
    "valueBufferSize st = vbs" "descrBufferSize st = dbs"
    "vardis_stats (global_state st) = new_VardisProtocolStatistics"
proof -
  let ?c = "new_ArrayContents vbs dbs dmem vmem"
  let ?es = "map (slot_entry vbs dbs) [0..<get_number_buffers]"
  have n: "0 < get_number_buffers"
    by (simp add: get_number_buffers_def VarIdT_max_number_identifiers_def)
  have c: "wf_rb (freeList ?c)" "rb_elems (freeList ?c) = []" "maxCapacity (freeList ?c) = get_number_buffers"
    using n by (simp_all add: new_ArrayContents_def wf_rb_def rb_elems_def)
  then obtain fl where fl: "forE rb_push ?es (freeList ?c) = (Inr (), fl)" "wf_rb fl"
    "rb_elems fl = ?es" "maxCapacity fl = get_number_buffers"
    using rbq.push_list [of "freeList ?c" ?es] by auto
  let ?st = "?c\<lparr>freeList := fl, global_state := (global_state ?c)\<lparr>conf_max_summaries := maxsumm,
      conf_max_description_length := maxdescrlen, conf_max_value_length := maxvallen,
      conf_max_repetitions := maxrep, own_node_identifier := own\<rparr>\<rparr>"
  have eq: "initialize_array_store vbs dbs (Some (dmem, vmem)) maxsumm maxdescrlen maxvallen maxrep own
      = Inr ?st"
    using assms fl(1) by (simp add: initialize_array_store_def Let_def)
  have u: "used_ids ?st = {}" by (simp add: used_ids_def new_ArrayContents_def new_IdentifierState_def)
  have as: "all_slots ?st = slot_entry vbs dbs ` {..<get_number_buffers}"
    by (simp add: all_slots_def new_ArrayContents_def)
  have d: "distinct ?es" using inj_slot_entry by (simp add: distinct_map inj_on_def)
  have "wf_store ?st"
    unfolding wf_store_def u as using fl assms d
    by (auto simp: new_ArrayContents_def new_IdentifierState_def)
  then show ?thesis
    by (intro that [of ?st] eq)
      (auto simp: get_own_node_identifier_def get_conf_max_summaries_def
        get_conf_max_description_length_def get_conf_max_value_length_def
        get_conf_max_repetitions_def get_vardis_isactive_def new_ArrayContents_def
        new_IdentifierState_def new_GlobalStateBase_def)
qed

lemma initialize_array_store_errors:
  "initialize_array_store vbs dbs None ms md mv mr own = Inl VardisStoreException"
  "dbs - 8 \<le> md \<Longrightarrow> initialize_array_store vbs dbs mem ms md mv mr own = Inl VardisStoreException"
  "vbs - 8 \<le> mv \<Longrightarrow> initialize_array_store vbs dbs mem ms md mv mr own = Inl VardisStoreException"
  by (auto simp: initialize_array_store_def split: option.splits)

section \<open>The contract of a variable store\<close>

text \<open>
  What the protocol asks of a store (\<open>vardis_store_interface.h\<close>): allocation, database
  entries, values and descriptions, each independent of the others and of the other
  identifiers.  The sequence by which the protocol installs a new variable is
  proved once from the laws.
\<close>

locale variable_store =
  fixes inv :: "'s \<Rightarrow> bool"
    and used :: "'s \<Rightarrow> VarIdT \<Rightarrow> bool"
    and entry :: "'s \<Rightarrow> VarIdT \<Rightarrow> DBEntry"
    and val :: "'s \<Rightarrow> VarIdT \<Rightarrow> u8 list"
    and descr :: "'s \<Rightarrow> VarIdT \<Rightarrow> u8 list"
    and max_val :: "'s \<Rightarrow> nat"
    and max_descr :: "'s \<Rightarrow> nat"
    and conf :: "'s \<Rightarrow> 'c"
    and allocate :: "VarIdT \<Rightarrow> ('s, unit) action"
    and set_entry :: "VarIdT \<Rightarrow> DBEntry \<Rightarrow> ('s, unit) action"
    and upd_val :: "VarIdT \<Rightarrow> VarValueT \<Rightarrow> ('s, unit) action"
    and upd_descr :: "VarIdT \<Rightarrow> StringT \<Rightarrow> ('s, unit) action"
  assumes allocate: "inv s \<Longrightarrow> \<not> used s i \<Longrightarrow> \<exists>s'. allocate i s = (Inr (), s') \<and> inv s'
      \<and> used s' = (used s)(i := True) \<and> entry s' = entry s \<and> val s' = val s \<and> descr s' = descr s
      \<and> max_val s' = max_val s \<and> max_descr s' = max_descr s \<and> conf s' = conf s"
    and set_entry: "inv s \<Longrightarrow> used s i \<Longrightarrow> \<exists>s'. set_entry i e s = (Inr (), s') \<and> inv s'
      \<and> used s' = used s \<and> entry s' = (entry s)(i := e) \<and> val s' = val s \<and> descr s' = descr s
      \<and> max_val s' = max_val s \<and> max_descr s' = max_descr s \<and> conf s' = conf s"
    and upd_val: "inv s \<Longrightarrow> used s i \<Longrightarrow> mb_length v = length (mb_bytes v) \<Longrightarrow> mb_bytes v \<noteq> []
      \<Longrightarrow> length (mb_bytes v) \<le> max_val s \<Longrightarrow> \<exists>s'. upd_val i v s = (Inr (), s') \<and> inv s'
      \<and> used s' = used s \<and> entry s' = entry s \<and> val s' = (val s)(i := mb_bytes v) \<and> descr s' = descr s
      \<and> max_val s' = max_val s \<and> max_descr s' = max_descr s \<and> conf s' = conf s"
    and upd_descr: "inv s \<Longrightarrow> used s i \<Longrightarrow> mb_length d = length (mb_bytes d) \<Longrightarrow> mb_bytes d \<noteq> []
      \<Longrightarrow> length (mb_bytes d) \<le> max_descr s \<Longrightarrow> \<exists>s'. upd_descr i d s = (Inr (), s') \<and> inv s'
      \<and> used s' = used s \<and> entry s' = entry s \<and> val s' = val s \<and> descr s' = (descr s)(i := mb_bytes d)
      \<and> max_val s' = max_val s \<and> max_descr s' = max_descr s \<and> conf s' = conf s"
begin

definition install :: "bool \<Rightarrow> VarIdT \<Rightarrow> DBEntry \<Rightarrow> StringT \<Rightarrow> VarValueT \<Rightarrow> ('s, unit) action" where
  "install exists i e d v =
     bindE (if exists then retE () else allocate i) (\<lambda>_.
     bindE (set_entry i e) (\<lambda>_.
     bindE (upd_descr i d) (\<lambda>_.
     upd_val i v)))"

lemma install:
  assumes "inv s" "used s i = exists"
    "mb_length d = length (mb_bytes d)" "mb_bytes d \<noteq> []" "length (mb_bytes d) \<le> max_descr s"
    "mb_length v = length (mb_bytes v)" "mb_bytes v \<noteq> []" "length (mb_bytes v) \<le> max_val s"
  shows "\<exists>s'. install exists i e d v s = (Inr (), s') \<and> inv s' \<and> used s' = (used s)(i := True)
    \<and> entry s' = (entry s)(i := e) \<and> val s' = (val s)(i := mb_bytes v)
    \<and> descr s' = (descr s)(i := mb_bytes d) \<and> max_val s' = max_val s \<and> max_descr s' = max_descr s
    \<and> conf s' = conf s"
proof -
  obtain s1 where s1: "(if exists then retE () else allocate i) s = (Inr (), s1)" "inv s1"
    "used s1 = (used s)(i := True)" "entry s1 = entry s" "val s1 = val s" "descr s1 = descr s"
    "max_val s1 = max_val s" "max_descr s1 = max_descr s" "conf s1 = conf s"
  proof (cases "exists")
    case True
    then have "used s = (used s)(i := True)" using assms(2) by (auto simp: fun_eq_iff)
    with True assms(1) show ?thesis by (intro that [of s]) simp_all
  next
    case False
    then show ?thesis using allocate [of s i] assms(1,2) by (auto intro: that)
  qed
  obtain s2 where s2: "set_entry i e s1 = (Inr (), s2)" "inv s2" "used s2 = used s1"
    "entry s2 = (entry s1)(i := e)" "val s2 = val s1" "descr s2 = descr s1"
    "max_val s2 = max_val s1" "max_descr s2 = max_descr s1" "conf s2 = conf s1"
    using set_entry [of s1 i e] s1 by auto
  obtain s3 where s3: "upd_descr i d s2 = (Inr (), s3)" "inv s3" "used s3 = used s2"
    "entry s3 = entry s2" "val s3 = val s2" "descr s3 = (descr s2)(i := mb_bytes d)"
    "max_val s3 = max_val s2" "max_descr s3 = max_descr s2" "conf s3 = conf s2"
    using upd_descr [of s2 i d] s1 s2 assms by auto
  obtain s4 where s4: "upd_val i v s3 = (Inr (), s4)" "inv s4" "used s4 = used s3"
    "entry s4 = entry s3" "val s4 = (val s3)(i := mb_bytes v)" "descr s4 = descr s3"
    "max_val s4 = max_val s3" "max_descr s4 = max_descr s3" "conf s4 = conf s3"
    using upd_val [of s3 i v] s1 s2 s3 assms by auto
  show ?thesis
    unfolding install_def using s1 s2 s3 s4 by (intro exI [of _ s4]) (simp add: bindE_def)
qed

end

interpretation avs: variable_store wf_store "\<lambda>st i. is_used (id_states st i)"
  "\<lambda>st i. db_entry (id_states st i)" "\<lambda>st i. value_bytes i st" "\<lambda>st i. descr_bytes i st"
  valueBufferSize descrBufferSize global_state allocate_identifier set_db_entry update_value update_description
proof (unfold_locales, goal_cases)
  case (1 s i)
  then show ?case
    by (elim allocate_identifier_ok [of s i]) (auto simp: fun_eq_iff)
next
  case (2 s i e)
  then show ?case by (auto simp: set_db_entry_spec fun_eq_iff)
next
  case (3 s i v)
  then show ?case
    using update_value_ok [of s i "mb_bytes v" v] value_bytes_put_value [of s i "mb_bytes v"]
    by (auto simp: fun_eq_iff)
next
  case (4 s i d)
  then show ?case
    using update_description_ok [of s i "mb_bytes d" d] descr_bytes_put_descr [of s i "mb_bytes d"]
    by (auto simp: fun_eq_iff)
qed

end
