(* ===== verification/DcpServices.thy ===== *)
theory DcpServices
  imports VardisTypes
begin

text \<open>
  Service primitives: the service types and status codes of
  \<open>dcp/common/services_status.h\<close> and the requests and confirms of the RTDB services of
  \<open>dcp/vardis/vardis_service_primitives.h\<close> with their serialization, which is how a
  client and the demon exchange them through shared memory.
\<close>

section \<open>Service types and status codes\<close>

type_synonym DcpServiceType = u16
type_synonym DcpStatus = u16

definition BaseBPServiceType :: DcpServiceType where "BaseBPServiceType = 0x1000"
definition BaseVardisServiceType :: DcpServiceType where "BaseVardisServiceType = 0x2000"
definition InvalidServiceType :: DcpServiceType where "InvalidServiceType = 0xFFFF"
definition stBP_RegisterProtocol :: DcpServiceType where "stBP_RegisterProtocol = BaseBPServiceType + 0x0001"
definition stBP_DeregisterProtocol :: DcpServiceType where "stBP_DeregisterProtocol = BaseBPServiceType + 0x0002"
definition stBP_ListRegisteredProtocols :: DcpServiceType where "stBP_ListRegisteredProtocols = BaseBPServiceType + 0x0003"
definition stBP_ClearBuffer :: DcpServiceType where "stBP_ClearBuffer = BaseBPServiceType + 0x0004"
definition stBP_QueryNumberBufferedPayloads :: DcpServiceType where "stBP_QueryNumberBufferedPayloads = BaseBPServiceType + 0x0005"
definition stBP_ReceivePayload :: DcpServiceType where "stBP_ReceivePayload = BaseBPServiceType + 0x0006"
definition stBP_TransmitPayload :: DcpServiceType where "stBP_TransmitPayload = BaseBPServiceType + 0x0007"
definition stBP_ShutDown :: DcpServiceType where "stBP_ShutDown = BaseBPServiceType + 0x0100"
definition stBP_Activate :: DcpServiceType where "stBP_Activate = BaseBPServiceType + 0x0101"
definition stBP_Deactivate :: DcpServiceType where "stBP_Deactivate = BaseBPServiceType + 0x0102"
definition stBP_GetStatistics :: DcpServiceType where "stBP_GetStatistics = BaseBPServiceType + 0x0103"
definition stVardis_RTDB_DescribeDatabase :: DcpServiceType where "stVardis_RTDB_DescribeDatabase = BaseVardisServiceType + 0x0001"
definition stVardis_RTDB_DescribeVariable :: DcpServiceType where "stVardis_RTDB_DescribeVariable = BaseVardisServiceType + 0x0002"
definition stVardis_RTDB_Create :: DcpServiceType where "stVardis_RTDB_Create = BaseVardisServiceType + 0x0003"
definition stVardis_RTDB_Delete :: DcpServiceType where "stVardis_RTDB_Delete = BaseVardisServiceType + 0x0004"
definition stVardis_RTDB_Update :: DcpServiceType where "stVardis_RTDB_Update = BaseVardisServiceType + 0x0005"
definition stVardis_RTDB_Read :: DcpServiceType where "stVardis_RTDB_Read = BaseVardisServiceType + 0x0006"
definition stVardis_Register :: DcpServiceType where "stVardis_Register = BaseVardisServiceType + 0x0100"
definition stVardis_Deregister :: DcpServiceType where "stVardis_Deregister = BaseVardisServiceType + 0x0101"
definition stVardis_Shutdown :: DcpServiceType where "stVardis_Shutdown = BaseVardisServiceType + 0x0102"
definition stVardis_Activate :: DcpServiceType where "stVardis_Activate = BaseVardisServiceType + 0x0103"
definition stVardis_Deactivate :: DcpServiceType where "stVardis_Deactivate = BaseVardisServiceType + 0x0104"
definition stVardis_GetStatistics :: DcpServiceType where "stVardis_GetStatistics = BaseVardisServiceType + 0x0105"
definition BaseBPStatus :: DcpStatus where "BaseBPStatus = 0x1000"
definition BaseVardisStatus :: DcpStatus where "BaseVardisStatus = 0x2000"
definition BaseSRPStatus :: DcpStatus where "BaseSRPStatus = 0x3000"
definition BP_STATUS_OK :: DcpStatus where "BP_STATUS_OK = BaseBPStatus + 0x0000"
definition BP_STATUS_PROTOCOL_ALREADY_REGISTERED :: DcpStatus where "BP_STATUS_PROTOCOL_ALREADY_REGISTERED = BaseBPStatus + 0x0001"
definition BP_STATUS_ILLEGAL_MAX_PAYLOAD_SIZE :: DcpStatus where "BP_STATUS_ILLEGAL_MAX_PAYLOAD_SIZE = BaseBPStatus + 0x0002"
definition BP_STATUS_UNKNOWN_PROTOCOL :: DcpStatus where "BP_STATUS_UNKNOWN_PROTOCOL = BaseBPStatus + 0x0003"
definition BP_STATUS_PAYLOAD_TOO_LARGE :: DcpStatus where "BP_STATUS_PAYLOAD_TOO_LARGE = BaseBPStatus + 0x0004"
definition BP_STATUS_EMPTY_PAYLOAD :: DcpStatus where "BP_STATUS_EMPTY_PAYLOAD = BaseBPStatus + 0x0005"
definition BP_STATUS_ILLEGAL_DROPPING_QUEUE_SIZE :: DcpStatus where "BP_STATUS_ILLEGAL_DROPPING_QUEUE_SIZE = BaseBPStatus + 0x0006"
definition BP_STATUS_UNKNOWN_QUEUEING_MODE :: DcpStatus where "BP_STATUS_UNKNOWN_QUEUEING_MODE = BaseBPStatus + 0x0007"
definition BP_STATUS_INACTIVE :: DcpStatus where "BP_STATUS_INACTIVE = BaseBPStatus + 0x0008"
definition BP_STATUS_INTERNAL_ERROR :: DcpStatus where "BP_STATUS_INTERNAL_ERROR = BaseBPStatus + 0x0100"
definition BP_STATUS_INTERNAL_SHARED_MEMORY_ERROR :: DcpStatus where "BP_STATUS_INTERNAL_SHARED_MEMORY_ERROR = BaseBPStatus + 0x0101"
definition BP_STATUS_ILLEGAL_SERVICE_TYPE :: DcpStatus where "BP_STATUS_ILLEGAL_SERVICE_TYPE = BaseBPStatus + 0x0102"
definition BP_STATUS_WRONG_PROTOCOL_TYPE :: DcpStatus where "BP_STATUS_WRONG_PROTOCOL_TYPE = BaseBPStatus + 0x0103"
definition VARDIS_STATUS_OK :: DcpStatus where "VARDIS_STATUS_OK = BaseVardisStatus + 0x0000"
definition VARDIS_STATUS_VARIABLE_EXISTS :: DcpStatus where "VARDIS_STATUS_VARIABLE_EXISTS = BaseVardisStatus + 0x0001"
definition VARDIS_STATUS_VARIABLE_DESCRIPTION_TOO_LONG :: DcpStatus where "VARDIS_STATUS_VARIABLE_DESCRIPTION_TOO_LONG = BaseVardisStatus + 0x0002"
definition VARDIS_STATUS_VALUE_TOO_LONG :: DcpStatus where "VARDIS_STATUS_VALUE_TOO_LONG = BaseVardisStatus + 0x0003"
definition VARDIS_STATUS_EMPTY_VALUE :: DcpStatus where "VARDIS_STATUS_EMPTY_VALUE = BaseVardisStatus + 0x0004"
definition VARDIS_STATUS_ILLEGAL_REPCOUNT :: DcpStatus where "VARDIS_STATUS_ILLEGAL_REPCOUNT = BaseVardisStatus + 0x0005"
definition VARDIS_STATUS_VARIABLE_DOES_NOT_EXIST :: DcpStatus where "VARDIS_STATUS_VARIABLE_DOES_NOT_EXIST = BaseVardisStatus + 0x0006"
definition VARDIS_STATUS_NOT_PRODUCER :: DcpStatus where "VARDIS_STATUS_NOT_PRODUCER = BaseVardisStatus + 0x0007"
definition VARDIS_STATUS_VARIABLE_IS_DELETED :: DcpStatus where "VARDIS_STATUS_VARIABLE_IS_DELETED = BaseVardisStatus + 0x0008"
definition VARDIS_STATUS_INACTIVE :: DcpStatus where "VARDIS_STATUS_INACTIVE = BaseVardisStatus + 0x0009"
definition VARDIS_STATUS_INTERNAL_ERROR :: DcpStatus where "VARDIS_STATUS_INTERNAL_ERROR = BaseVardisStatus + 0x0100"
definition VARDIS_STATUS_APPLICATION_ALREADY_REGISTERED :: DcpStatus where "VARDIS_STATUS_APPLICATION_ALREADY_REGISTERED = BaseVardisStatus + 0x0101"
definition VARDIS_STATUS_INTERNAL_SHARED_MEMORY_ERROR :: DcpStatus where "VARDIS_STATUS_INTERNAL_SHARED_MEMORY_ERROR = BaseVardisStatus + 0x0102"
definition VARDIS_STATUS_UNKNOWN_APPLICATION :: DcpStatus where "VARDIS_STATUS_UNKNOWN_APPLICATION = BaseVardisStatus + 0x0103"
definition SRP_STATUS_OK :: DcpStatus where "SRP_STATUS_OK = BaseSRPStatus + 0x0000"

lemmas vardis_status_defs =
  VARDIS_STATUS_OK_def VARDIS_STATUS_VARIABLE_EXISTS_def
  VARDIS_STATUS_VARIABLE_DESCRIPTION_TOO_LONG_def VARDIS_STATUS_VALUE_TOO_LONG_def
  VARDIS_STATUS_EMPTY_VALUE_def VARDIS_STATUS_ILLEGAL_REPCOUNT_def
  VARDIS_STATUS_VARIABLE_DOES_NOT_EXIST_def VARDIS_STATUS_NOT_PRODUCER_def
  VARDIS_STATUS_VARIABLE_IS_DELETED_def VARDIS_STATUS_INACTIVE_def BaseVardisStatus_def

section \<open>The RTDB services\<close>

definition ser_RTDBServiceRequest :: "DcpServiceType \<Rightarrow> (aa, unit) action" where
  "ser_RTDBServiceRequest s_type = serialize_uint16_n s_type"

definition des_RTDBServiceRequest :: "(da, DcpServiceType) action" where
  "des_RTDBServiceRequest = deserialize_uint16_n"

definition ser_RTDBServiceConfirm :: "DcpServiceType \<times> DcpStatus \<Rightarrow> (aa, unit) action" where
  "ser_RTDBServiceConfirm c =
     bindE (serialize_uint16_n (fst c)) (\<lambda>_.
     serialize_uint16_n (snd c))"

definition des_RTDBServiceConfirm :: "(da, DcpServiceType \<times> DcpStatus) action" where
  "des_RTDBServiceConfirm =
     bindE deserialize_uint16_n (\<lambda>s_type.
     bindE deserialize_uint16_n (\<lambda>status_code.
     retE (s_type, status_code)))"

record RTDB_Create_Request =
  crq_s_type :: DcpServiceType
  crq_spec :: VarSpecT
  crq_value :: VarValueT

definition ser_RTDB_Create_Request :: "RTDB_Create_Request \<Rightarrow> (aa, unit) action" where
  "ser_RTDB_Create_Request r =
     bindE (ser_RTDBServiceRequest (crq_s_type r)) (\<lambda>_.
     bindE (ser_VarSpecT (crq_spec r)) (\<lambda>_.
     ser_VarValueT (crq_value r)))"

definition des_RTDB_Create_Request :: "(da, RTDB_Create_Request) action" where
  "des_RTDB_Create_Request =
     bindE des_RTDBServiceRequest (\<lambda>t.
     bindE des_VarSpecT (\<lambda>s.
     bindE des_VarValueT (\<lambda>v.
     retE \<lparr>crq_s_type = t, crq_spec = s, crq_value = v\<rparr>)))"

text \<open>The delete and the read request carry an identifier; so do three of the confirms.\<close>

record RTDB_Id_Request =
  irq_s_type :: DcpServiceType
  irq_varId :: VarIdT

type_synonym RTDB_Delete_Request = RTDB_Id_Request
type_synonym RTDB_Read_Request = RTDB_Id_Request

definition ser_RTDB_Delete_Request :: "RTDB_Delete_Request \<Rightarrow> (aa, unit) action" where
  "ser_RTDB_Delete_Request r =
     bindE (ser_RTDBServiceRequest (irq_s_type r)) (\<lambda>_.
     ser_integral8 (irq_varId r))"

definition des_RTDB_Delete_Request :: "(da, RTDB_Delete_Request) action" where
  "des_RTDB_Delete_Request =
     bindE des_RTDBServiceRequest (\<lambda>t.
     bindE des_integral8 (\<lambda>i.
     retE \<lparr>irq_s_type = t, irq_varId = i\<rparr>))"

definition ser_RTDB_Read_Request :: "RTDB_Read_Request \<Rightarrow> (aa, unit) action" where
  "ser_RTDB_Read_Request r =
     bindE (ser_RTDBServiceRequest (irq_s_type r)) (\<lambda>_.
     ser_integral8 (irq_varId r))"

definition des_RTDB_Read_Request :: "(da, RTDB_Read_Request) action" where
  "des_RTDB_Read_Request =
     bindE des_RTDBServiceRequest (\<lambda>t.
     bindE des_integral8 (\<lambda>i.
     retE \<lparr>irq_s_type = t, irq_varId = i\<rparr>))"

record RTDB_Update_Request =
  urq_s_type :: DcpServiceType
  urq_varId :: VarIdT
  urq_value :: VarValueT

definition ser_RTDB_Update_Request :: "RTDB_Update_Request \<Rightarrow> (aa, unit) action" where
  "ser_RTDB_Update_Request r =
     bindE (ser_RTDBServiceRequest (urq_s_type r)) (\<lambda>_.
     bindE (ser_integral8 (urq_varId r)) (\<lambda>_.
     ser_VarValueT (urq_value r)))"

definition des_RTDB_Update_Request :: "(da, RTDB_Update_Request) action" where
  "des_RTDB_Update_Request =
     bindE des_RTDBServiceRequest (\<lambda>t.
     bindE des_integral8 (\<lambda>i.
     bindE des_VarValueT (\<lambda>v.
     retE \<lparr>urq_s_type = t, urq_varId = i, urq_value = v\<rparr>)))"

record RTDB_Confirm =
  cnf_type_status :: "DcpServiceType \<times> DcpStatus"
  cnf_varId :: VarIdT

type_synonym RTDB_Create_Confirm = RTDB_Confirm
type_synonym RTDB_Delete_Confirm = RTDB_Confirm
type_synonym RTDB_Update_Confirm = RTDB_Confirm

definition RTDB_Create_Confirm :: "DcpStatus \<Rightarrow> VarIdT \<Rightarrow> RTDB_Create_Confirm" where
  "RTDB_Create_Confirm scode vid = \<lparr>cnf_type_status = (stVardis_RTDB_Create, scode), cnf_varId = vid\<rparr>"

definition RTDB_Delete_Confirm :: "DcpStatus \<Rightarrow> VarIdT \<Rightarrow> RTDB_Delete_Confirm" where
  "RTDB_Delete_Confirm scode vid = \<lparr>cnf_type_status = (stVardis_RTDB_Delete, scode), cnf_varId = vid\<rparr>"

definition RTDB_Update_Confirm :: "DcpStatus \<Rightarrow> VarIdT \<Rightarrow> RTDB_Update_Confirm" where
  "RTDB_Update_Confirm scode vid = \<lparr>cnf_type_status = (stVardis_RTDB_Update, scode), cnf_varId = vid\<rparr>"

definition ser_RTDB_Confirm :: "RTDB_Confirm \<Rightarrow> (aa, unit) action" where
  "ser_RTDB_Confirm c =
     bindE (ser_RTDBServiceConfirm (cnf_type_status c)) (\<lambda>_.
     ser_integral8 (cnf_varId c))"

definition des_RTDB_Confirm :: "(da, RTDB_Confirm) action" where
  "des_RTDB_Confirm =
     bindE des_RTDBServiceConfirm (\<lambda>ts.
     bindE des_integral8 (\<lambda>i.
     retE \<lparr>cnf_type_status = ts, cnf_varId = i\<rparr>))"

record RTDB_Read_Confirm = RTDB_Confirm +
  rcf_value :: VarValueT
  rcf_tStamp :: TimeStampT

definition RTDB_Read_Confirm :: "DcpStatus \<Rightarrow> VarIdT \<Rightarrow> RTDB_Read_Confirm" where
  "RTDB_Read_Confirm scode vid =
     \<lparr>cnf_type_status = (stVardis_RTDB_Read, scode), cnf_varId = vid,
      rcf_value = new_VarValueT, rcf_tStamp = 0\<rparr>"

definition RTDB_Read_Confirm_value ::
  "DcpStatus \<Rightarrow> VarIdT \<Rightarrow> VarLenT \<Rightarrow> u8 list option \<Rightarrow> RTDB_Read_Confirm" where
  "RTDB_Read_Confirm_value scode vid len pb =
     \<lparr>cnf_type_status = (stVardis_RTDB_Read, scode), cnf_varId = vid,
      rcf_value = VarValueT_of len pb, rcf_tStamp = 0\<rparr>"

definition ser_RTDB_Read_Confirm :: "RTDB_Read_Confirm \<Rightarrow> (aa, unit) action" where
  "ser_RTDB_Read_Confirm c =
     bindE (ser_RTDBServiceConfirm (cnf_type_status c)) (\<lambda>_.
     bindE (ser_integral8 (cnf_varId c)) (\<lambda>_.
     bindE (ser_VarValueT (rcf_value c)) (\<lambda>_.
     ser_TimeStampT (rcf_tStamp c))))"

definition des_RTDB_Read_Confirm :: "(da, RTDB_Read_Confirm) action" where
  "des_RTDB_Read_Confirm =
     bindE des_RTDBServiceConfirm (\<lambda>ts.
     bindE des_integral8 (\<lambda>i.
     bindE des_VarValueT (\<lambda>v.
     bindE des_TimeStampT (\<lambda>t.
     retE \<lparr>cnf_type_status = ts, cnf_varId = i, rcf_value = v, rcf_tStamp = t\<rparr>))))"

section \<open>Wire images and codecs\<close>

definition enc_TypeStatus :: "DcpServiceType \<times> DcpStatus \<Rightarrow> u8 list" where
  "enc_TypeStatus c = be_bytes16 (fst c) @ be_bytes16 (snd c)"

definition enc_RTDB_Create_Request :: "RTDB_Create_Request \<Rightarrow> u8 list" where
  "enc_RTDB_Create_Request r =
     be_bytes16 (crq_s_type r) @ enc_VarSpecT (crq_spec r) @ enc_VarValueT (crq_value r)"

definition wf_RTDB_Create_Request :: "RTDB_Create_Request \<Rightarrow> bool" where
  "wf_RTDB_Create_Request r \<longleftrightarrow> wf_VarSpecT (crq_spec r) \<and> wf_VarValueT (crq_value r)"

definition enc_RTDB_Id_Request :: "RTDB_Id_Request \<Rightarrow> u8 list" where
  "enc_RTDB_Id_Request r = be_bytes16 (irq_s_type r) @ enc_byte (irq_varId r)"

definition enc_RTDB_Update_Request :: "RTDB_Update_Request \<Rightarrow> u8 list" where
  "enc_RTDB_Update_Request r =
     be_bytes16 (urq_s_type r) @ enc_byte (urq_varId r) @ enc_VarValueT (urq_value r)"

definition wf_RTDB_Update_Request :: "RTDB_Update_Request \<Rightarrow> bool" where
  "wf_RTDB_Update_Request r \<longleftrightarrow> wf_VarValueT (urq_value r)"

definition enc_RTDB_Confirm :: "RTDB_Confirm \<Rightarrow> u8 list" where
  "enc_RTDB_Confirm c = enc_TypeStatus (cnf_type_status c) @ enc_byte (cnf_varId c)"

definition enc_RTDB_Read_Confirm :: "RTDB_Read_Confirm \<Rightarrow> u8 list" where
  "enc_RTDB_Read_Confirm c = enc_TypeStatus (cnf_type_status c) @ enc_byte (cnf_varId c)
     @ enc_VarValueT (rcf_value c) @ le_bytes64 (rcf_tStamp c)"

definition wf_RTDB_Read_Confirm :: "RTDB_Read_Confirm \<Rightarrow> bool" where
  "wf_RTDB_Read_Confirm c \<longleftrightarrow> wf_VarValueT (rcf_value c)"

lemma codec_RTDBServiceRequest:
  "codec ser_RTDBServiceRequest des_RTDBServiceRequest be_bytes16 (\<lambda>_. True)"
  using c16.codec_axioms
  by (simp add: ser_RTDBServiceRequest_def [abs_def] des_RTDBServiceRequest_def
      ser_integral16_def [abs_def] des_integral16_def)

lemma codec_RTDBServiceConfirm:
  "codec ser_RTDBServiceConfirm des_RTDBServiceConfirm enc_TypeStatus (\<lambda>_. True)"
  using codec_pair [OF c16.codec_axioms c16.codec_axioms]
  by (simp add: ser_RTDBServiceConfirm_def [abs_def] des_RTDBServiceConfirm_def enc_TypeStatus_def [abs_def]
      ser_integral16_def [abs_def] des_integral16_def case_prod_unfold del: retE_simp)

lemma codec_RTDB_Create_Request:
  "codec ser_RTDB_Create_Request des_RTDB_Create_Request enc_RTDB_Create_Request wf_RTDB_Create_Request"
  using codec_iso [OF codec_pair [OF codec_RTDBServiceRequest
        codec_pair [OF spec_codec.codec_axioms value_codec.codec_axioms]],
      of "\<lambda>(t, s, v). \<lparr>crq_s_type = t, crq_spec = s, crq_value = v\<rparr>"
        "\<lambda>r. (crq_s_type r, crq_spec r, crq_value r)"]
  by (simp add: ser_RTDB_Create_Request_def [abs_def] des_RTDB_Create_Request_def
      enc_RTDB_Create_Request_def [abs_def] wf_RTDB_Create_Request_def [abs_def]
      codec_unfold split_beta del: retE_simp)

interpretation create_request_codec: codec ser_RTDB_Create_Request des_RTDB_Create_Request
  enc_RTDB_Create_Request wf_RTDB_Create_Request
  by (rule codec_RTDB_Create_Request)

lemma codec_RTDB_Id_Request:
  "codec ser_RTDB_Delete_Request des_RTDB_Delete_Request enc_RTDB_Id_Request (\<lambda>_. True)"
  using codec_iso [OF codec_pair [OF codec_RTDBServiceRequest c8.codec_axioms],
      of "\<lambda>(t, i). \<lparr>irq_s_type = t, irq_varId = i\<rparr>" "\<lambda>r. (irq_s_type r, irq_varId r)"]
  by (simp add: ser_RTDB_Delete_Request_def [abs_def] des_RTDB_Delete_Request_def
      enc_RTDB_Id_Request_def [abs_def] codec_unfold split_beta del: retE_simp)

interpretation delete_request_codec: codec ser_RTDB_Delete_Request des_RTDB_Delete_Request
  enc_RTDB_Id_Request "\<lambda>_. True"
  by (rule codec_RTDB_Id_Request)

interpretation read_request_codec: codec ser_RTDB_Read_Request des_RTDB_Read_Request
  enc_RTDB_Id_Request "\<lambda>_. True"
  using codec_RTDB_Id_Request
  by (simp add: ser_RTDB_Delete_Request_def [abs_def] des_RTDB_Delete_Request_def
      ser_RTDB_Read_Request_def [abs_def] des_RTDB_Read_Request_def)

lemma codec_RTDB_Update_Request:
  "codec ser_RTDB_Update_Request des_RTDB_Update_Request enc_RTDB_Update_Request wf_RTDB_Update_Request"
  using codec_iso [OF codec_pair [OF codec_RTDBServiceRequest
        codec_pair [OF c8.codec_axioms value_codec.codec_axioms]],
      of "\<lambda>(t, i, v). \<lparr>urq_s_type = t, urq_varId = i, urq_value = v\<rparr>"
        "\<lambda>r. (urq_s_type r, urq_varId r, urq_value r)"]
  by (simp add: ser_RTDB_Update_Request_def [abs_def] des_RTDB_Update_Request_def
      enc_RTDB_Update_Request_def [abs_def] wf_RTDB_Update_Request_def [abs_def]
      codec_unfold split_beta del: retE_simp)

interpretation update_request_codec: codec ser_RTDB_Update_Request des_RTDB_Update_Request
  enc_RTDB_Update_Request wf_RTDB_Update_Request
  by (rule codec_RTDB_Update_Request)

lemma codec_RTDB_Confirm: "codec ser_RTDB_Confirm des_RTDB_Confirm enc_RTDB_Confirm (\<lambda>_. True)"
  using codec_iso [OF codec_pair [OF codec_RTDBServiceConfirm c8.codec_axioms],
      of "\<lambda>(t, i). \<lparr>cnf_type_status = t, cnf_varId = i\<rparr>" "\<lambda>r. (cnf_type_status r, cnf_varId r)"]
  by (simp add: ser_RTDB_Confirm_def [abs_def] des_RTDB_Confirm_def
      enc_RTDB_Confirm_def [abs_def] codec_unfold split_beta del: retE_simp)

interpretation confirm_codec: codec ser_RTDB_Confirm des_RTDB_Confirm enc_RTDB_Confirm "\<lambda>_. True"
  by (rule codec_RTDB_Confirm)

lemma codec_RTDB_Read_Confirm:
  "codec ser_RTDB_Read_Confirm des_RTDB_Read_Confirm enc_RTDB_Read_Confirm wf_RTDB_Read_Confirm"
  using codec_iso [OF codec_pair [OF codec_RTDBServiceConfirm codec_pair [OF c8.codec_axioms
          codec_pair [OF value_codec.codec_axioms time_codec.codec_axioms]]],
      of "\<lambda>(ts, i, v, t). \<lparr>cnf_type_status = ts, cnf_varId = i, rcf_value = v, rcf_tStamp = t\<rparr>"
        "\<lambda>r. (cnf_type_status r, cnf_varId r, rcf_value r, rcf_tStamp r)"]
  by (simp add: ser_RTDB_Read_Confirm_def [abs_def] des_RTDB_Read_Confirm_def
      enc_RTDB_Read_Confirm_def [abs_def] wf_RTDB_Read_Confirm_def [abs_def]
      codec_unfold split_beta del: retE_simp)

interpretation read_confirm_codec: codec ser_RTDB_Read_Confirm des_RTDB_Read_Confirm
  enc_RTDB_Read_Confirm wf_RTDB_Read_Confirm
  by (rule codec_RTDB_Read_Confirm)

end
