(* ===== verification/VarIdQueue.thy ===== *)
theory VarIdQueue
  imports VardisTypes
begin

text \<open>
  The identifier queues of \<open>dcp/vardis/vardis_protocol_data.h\<close> (\<open>VarIdQueue\<close>): a
  double-ended queue of identifiers without repetitions and the set of its members,
  which answers the membership questions.  The invariant is that the two agree; under
  it the queue is a list of distinct identifiers.
\<close>

record VarIdQueue =
  members :: "VarIdT set"
  queue :: "VarIdT list"

definition new_VarIdQueue :: VarIdQueue where
  "new_VarIdQueue = \<lparr>members = {}, queue = []\<rparr>"

definition q_empty :: "VarIdQueue \<Rightarrow> bool" where
  "q_empty q \<longleftrightarrow> members q = {}"

definition q_size :: "VarIdQueue \<Rightarrow> nat" where
  "q_size q = card (members q)"

definition q_contains :: "VarIdQueue \<Rightarrow> VarIdT \<Rightarrow> bool" where
  "q_contains q varId \<longleftrightarrow> varId \<in> members q"

definition q_remove :: "VarIdT \<Rightarrow> VarIdQueue \<Rightarrow> VarIdQueue" where
  "q_remove varId q =
     (if q_contains q varId
      then q\<lparr>members := members q - {varId}, queue := filter (\<lambda>v. v \<noteq> varId) (queue q)\<rparr>
      else q)"

definition q_insert :: "VarIdT \<Rightarrow> VarIdQueue \<Rightarrow> VarIdQueue" where
  "q_insert varId q =
     (if \<not> q_contains q varId
      then q\<lparr>members := insert varId (members q), queue := queue q @ [varId]\<rparr>
      else q)"

definition q_front :: "(VarIdQueue, VarIdT) action" where
  "q_front =
     bindE (throw_if std_invalid_argument q_empty) (\<lambda>_.
     getE (\<lambda>q. hd (queue q)))"

definition q_pop_front :: "(VarIdQueue, unit) action" where
  "q_pop_front = bindE q_front (\<lambda>varId. modifyE (q_remove varId))"

section \<open>Invariant and abstraction\<close>

definition wf_q :: "VarIdQueue \<Rightarrow> bool" where
  "wf_q q \<longleftrightarrow> members q = set (queue q) \<and> distinct (queue q)"

lemma wf_new_VarIdQueue [simp]: "wf_q new_VarIdQueue"
  by (simp add: wf_q_def new_VarIdQueue_def)

lemma queue_new [simp]: "queue new_VarIdQueue = []"
  by (simp add: new_VarIdQueue_def)

lemma wf_q_remove [simp]: "wf_q q \<Longrightarrow> wf_q (q_remove v q)"
  by (auto simp: wf_q_def q_remove_def)

lemma wf_q_insert [simp]: "wf_q q \<Longrightarrow> wf_q (q_insert v q)"
  by (auto simp: wf_q_def q_insert_def q_contains_def)

lemma queue_remove [simp]: "wf_q q \<Longrightarrow> queue (q_remove v q) = filter (\<lambda>x. x \<noteq> v) (queue q)"
  by (auto simp: wf_q_def q_remove_def q_contains_def intro!: filter_True [symmetric])

lemma queue_insert [simp]:
  "wf_q q \<Longrightarrow> queue (q_insert v q) = (if v \<in> set (queue q) then queue q else queue q @ [v])"
  by (auto simp: wf_q_def q_insert_def q_contains_def)

lemma q_contains_iff [simp]: "wf_q q \<Longrightarrow> q_contains q v \<longleftrightarrow> v \<in> set (queue q)"
  by (simp add: wf_q_def q_contains_def)

lemma q_empty_iff [simp]: "wf_q q \<Longrightarrow> q_empty q \<longleftrightarrow> queue q = []"
  by (simp add: wf_q_def q_empty_def)

lemma q_size_eq: "wf_q q \<Longrightarrow> q_size q = length (queue q)"
  by (simp add: wf_q_def q_size_def distinct_card)

lemma wf_q_distinct: "wf_q q \<Longrightarrow> distinct (queue q)"
  by (simp add: wf_q_def)

lemma q_front_empty: "wf_q q \<Longrightarrow> queue q = [] \<Longrightarrow> q_front q = (Inl std_invalid_argument, q)"
  by (simp add: q_front_def bindE_def)

lemma q_front_Cons: "wf_q q \<Longrightarrow> queue q = x # xs \<Longrightarrow> q_front q = (Inr x, q)"
  by (simp add: q_front_def bindE_def)

lemma q_pop_front_empty: "wf_q q \<Longrightarrow> queue q = [] \<Longrightarrow> q_pop_front q = (Inl std_invalid_argument, q)"
  by (simp add: q_pop_front_def bindE_def q_front_empty)

lemma q_pop_front_Cons: "wf_q q \<Longrightarrow> queue q = x # xs \<Longrightarrow> q_pop_front q = (Inr (), q_remove x q)"
  by (simp add: q_pop_front_def bindE_def q_front_Cons)

lemma queue_remove_hd: "wf_q q \<Longrightarrow> queue q = x # xs \<Longrightarrow> queue (q_remove x q) = xs"
  using wf_q_distinct [of q] by (auto intro: filter_True)

lemma length_queue_le: "wf_q q \<Longrightarrow> length (queue q) \<le> 256"
  using card_mono [of "UNIV :: u8 set" "set (queue q)"]
  by (simp add: wf_q_def distinct_card card_word)

text \<open>Two queues with the same identifiers in the same order are the same queue.\<close>

lemma wf_q_eqI: "wf_q p \<Longrightarrow> wf_q q \<Longrightarrow> queue p = queue q \<Longrightarrow> p = q"
  by (simp add: wf_q_def)

section \<open>The contract\<close>

text \<open>A queue of distinct elements: insertion at the end unless present, removal anywhere.\<close>

locale unique_queue =
  fixes inv :: "'q \<Rightarrow> bool"
    and elems :: "'q \<Rightarrow> 'e list"
    and ins :: "'e \<Rightarrow> 'q \<Rightarrow> 'q"
    and rem :: "'e \<Rightarrow> 'q \<Rightarrow> 'q"
    and front :: "('q, 'e) action"
    and pop :: "('q, unit) action"
  assumes distinct: "inv q \<Longrightarrow> distinct (elems q)"
    and ins: "inv q \<Longrightarrow> inv (ins x q)"
      "inv q \<Longrightarrow> elems (ins x q) = (if x \<in> set (elems q) then elems q else elems q @ [x])"
    and rem: "inv q \<Longrightarrow> inv (rem x q)" "inv q \<Longrightarrow> elems (rem x q) = removeAll x (elems q)"
    and front: "inv q \<Longrightarrow> elems q = x # xs \<Longrightarrow> front q = (Inr x, q)"
    and pop: "inv q \<Longrightarrow> elems q = x # xs \<Longrightarrow> pop q = (Inr (), rem x q)"
begin

lemma set_ins: "inv q \<Longrightarrow> set (elems (ins x q)) = insert x (set (elems q))"
  by (simp add: ins insert_absorb)

lemma set_rem: "inv q \<Longrightarrow> set (elems (rem x q)) = set (elems q) - {x}"
  by (simp add: rem)

text \<open>
  One round of a service discipline that takes the front element and appends it
  again rotates the queue.
\<close>

lemma rotate:
  assumes "inv q" "elems q = x # xs"
  shows "inv (ins x (rem x q))" "elems (ins x (rem x q)) = xs @ [x]"
proof -
  have "x \<notin> set xs" using distinct [OF assms(1)] assms(2) by simp
  then have "elems (rem x q) = xs" using assms by (simp add: rem)
  with \<open>x \<notin> set xs\<close> show "elems (ins x (rem x q)) = xs @ [x]" "inv (ins x (rem x q))"
    using assms(1) by (simp_all add: ins rem)
qed

end

interpretation vq: unique_queue wf_q queue q_insert q_remove q_front q_pop_front
proof (unfold_locales, goal_cases)
  case (5 q x)
  then show ?case by (simp add: removeAll_filter_not_eq neq_commute)
qed (simp_all add: wf_q_distinct q_front_Cons q_pop_front_Cons)

end
