(* ===== verification/VardisProtocol.thy ===== *)
theory VardisProtocol
  imports VardisStore DcpServices VarIdQueue
begin

text \<open>
  The protocol state of VarDis and the processing of received instructions and of
  service requests: \<open>class VardisProtocolData\<close> of \<open>dcp/vardis/vardis_protocol_data.h\<close> and
  \<open>vardis_protocol_data.cc\<close>.  Every method is an action on the record of the class; an
  exception leaves the state as it was when it was thrown.  The readings of the system
  clock are arguments.
\<close>

section \<open>State\<close>

record VardisProtocolData =
  ownNodeIdentifier :: NodeIdentifierT
  maxSummaries :: u16
  maxDescriptionLength :: nat
  maxValueLength :: nat
  maxRepetitions :: u8
  vardis_store :: ArrayContents
  active_variables :: "VarIdT set"
  createQ :: VarIdQueue
  deleteQ :: VarIdQueue
  updateQ :: VarIdQueue
  summaryQ :: VarIdQueue
  reqUpdQ :: VarIdQueue
  reqCreateQ :: VarIdQueue

definition new_VardisProtocolData :: "ArrayContents \<Rightarrow> VardisProtocolData" where
  "new_VardisProtocolData st =
     \<lparr>ownNodeIdentifier = get_own_node_identifier st,
      maxSummaries = get_conf_max_summaries st,
      maxDescriptionLength = get_conf_max_description_length st,
      maxValueLength = get_conf_max_value_length st,
      maxRepetitions = get_conf_max_repetitions st,
      vardis_store = st,
      active_variables = {},
      createQ = new_VarIdQueue, deleteQ = new_VarIdQueue, updateQ = new_VarIdQueue,
      summaryQ = new_VarIdQueue, reqUpdQ = new_VarIdQueue, reqCreateQ = new_VarIdQueue\<rparr>"

text \<open>A method of the store called from the protocol.\<close>

definition on_store :: "(ArrayContents, 'a) action \<Rightarrow> (VardisProtocolData, 'a) action" where
  "on_store = zoomE vardis_store (\<lambda>st pd. pd\<lparr>vardis_store := st\<rparr>)"

definition modify_entry :: "VarIdT \<Rightarrow> (DBEntry \<Rightarrow> DBEntry) \<Rightarrow> (VardisProtocolData, unit) action" where
  "modify_entry varId f =
     modifyE (\<lambda>pd. pd\<lparr>vardis_store := modify_db_entry varId f (vardis_store pd)\<rparr>)"

definition count_stats ::
  "(VardisProtocolStatistics \<Rightarrow> VardisProtocolStatistics) \<Rightarrow> (VardisProtocolData, unit) action" where
  "count_stats f = modifyE (\<lambda>pd. pd\<lparr>vardis_store := modify_stats f (vardis_store pd)\<rparr>)"

definition variableExists :: "VarIdT \<Rightarrow> VardisProtocolData \<Rightarrow> bool" where
  "variableExists varId pd = identifier_is_allocated varId (vardis_store pd)"

definition producerIsMe :: "VarIdT \<Rightarrow> (VardisProtocolData, bool) action" where
  "producerIsMe varId =
     bindE (on_store (get_db_entry_ref varId)) (\<lambda>theEntry.
     getE (\<lambda>pd. db_prodId theEntry = ownNodeIdentifier pd))"

section \<open>Queue assignments\<close>

definition createQ_remove :: "VarIdT \<Rightarrow> (VardisProtocolData, unit) action" where
  "createQ_remove v = modifyE (\<lambda>pd. pd\<lparr>createQ := q_remove v (createQ pd)\<rparr>)"
definition deleteQ_remove :: "VarIdT \<Rightarrow> (VardisProtocolData, unit) action" where
  "deleteQ_remove v = modifyE (\<lambda>pd. pd\<lparr>deleteQ := q_remove v (deleteQ pd)\<rparr>)"
definition updateQ_remove :: "VarIdT \<Rightarrow> (VardisProtocolData, unit) action" where
  "updateQ_remove v = modifyE (\<lambda>pd. pd\<lparr>updateQ := q_remove v (updateQ pd)\<rparr>)"
definition summaryQ_remove :: "VarIdT \<Rightarrow> (VardisProtocolData, unit) action" where
  "summaryQ_remove v = modifyE (\<lambda>pd. pd\<lparr>summaryQ := q_remove v (summaryQ pd)\<rparr>)"
definition reqUpdQ_remove :: "VarIdT \<Rightarrow> (VardisProtocolData, unit) action" where
  "reqUpdQ_remove v = modifyE (\<lambda>pd. pd\<lparr>reqUpdQ := q_remove v (reqUpdQ pd)\<rparr>)"
definition reqCreateQ_remove :: "VarIdT \<Rightarrow> (VardisProtocolData, unit) action" where
  "reqCreateQ_remove v = modifyE (\<lambda>pd. pd\<lparr>reqCreateQ := q_remove v (reqCreateQ pd)\<rparr>)"

definition createQ_insert :: "VarIdT \<Rightarrow> (VardisProtocolData, unit) action" where
  "createQ_insert v = modifyE (\<lambda>pd. pd\<lparr>createQ := q_insert v (createQ pd)\<rparr>)"
definition deleteQ_insert :: "VarIdT \<Rightarrow> (VardisProtocolData, unit) action" where
  "deleteQ_insert v = modifyE (\<lambda>pd. pd\<lparr>deleteQ := q_insert v (deleteQ pd)\<rparr>)"
definition updateQ_insert :: "VarIdT \<Rightarrow> (VardisProtocolData, unit) action" where
  "updateQ_insert v = modifyE (\<lambda>pd. pd\<lparr>updateQ := q_insert v (updateQ pd)\<rparr>)"
definition summaryQ_insert :: "VarIdT \<Rightarrow> (VardisProtocolData, unit) action" where
  "summaryQ_insert v = modifyE (\<lambda>pd. pd\<lparr>summaryQ := q_insert v (summaryQ pd)\<rparr>)"
definition reqUpdQ_insert :: "VarIdT \<Rightarrow> (VardisProtocolData, unit) action" where
  "reqUpdQ_insert v = modifyE (\<lambda>pd. pd\<lparr>reqUpdQ := q_insert v (reqUpdQ pd)\<rparr>)"
definition reqCreateQ_insert :: "VarIdT \<Rightarrow> (VardisProtocolData, unit) action" where
  "reqCreateQ_insert v = modifyE (\<lambda>pd. pd\<lparr>reqCreateQ := q_insert v (reqCreateQ pd)\<rparr>)"

lemmas queue_op_defs =
  createQ_remove_def deleteQ_remove_def updateQ_remove_def summaryQ_remove_def
  reqUpdQ_remove_def reqCreateQ_remove_def createQ_insert_def deleteQ_insert_def
  updateQ_insert_def summaryQ_insert_def reqUpdQ_insert_def reqCreateQ_insert_def

section \<open>Processing received instructions\<close>

definition process_var_create :: "TimeStampT \<Rightarrow> VarCreateT \<Rightarrow> (VardisProtocolData, unit) action" where
  "process_var_create now create pd =
     (let spec = create_spec create; update = create_update create;
          varId = spec_varId spec; prodId = spec_prodId spec;
          variable_exists = variableExists varId pd
      in if variable_exists
            \<and> timestamp_ge (db_creationTime (db_entry (id_states (vardis_store pd) varId))) (spec_creationTime spec)
         then (Inr (), pd)
         else if prodId \<noteq> ownNodeIdentifier pd
              \<and> mb_length (spec_descr spec) \<le> maxDescriptionLength pd
              \<and> mb_length (spec_descr spec) > 0
              \<and> mb_length (upd_value update) \<le> maxValueLength pd
              \<and> mb_length (upd_value update) > 0
              \<and> spec_repCnt spec \<le> maxRepetitions pd
              \<and> spec_repCnt spec > 0
         then
           (let newEntry = \<lparr>db_varId = spec_varId spec, db_prodId = spec_prodId spec,
                  db_repCnt = spec_repCnt spec, db_creationTime = spec_creationTime spec,
                  db_timeout = spec_timeout spec, db_seqno = upd_seqno update, db_tStamp = now,
                  db_countUpdate = 0, db_countCreate = spec_repCnt spec, db_countDelete = 0,
                  db_isDeleted = False\<rparr>
            in (bindE (if \<not> variable_exists then on_store (allocate_identifier varId) else retE ()) (\<lambda>_.
                bindE (on_store (set_db_entry varId newEntry)) (\<lambda>_.
                bindE (on_store (update_description varId (spec_descr spec))) (\<lambda>_.
                bindE (on_store (update_value varId (upd_value update))) (\<lambda>_.
                bindE (modifyE (\<lambda>pd. pd\<lparr>active_variables := insert varId (active_variables pd)\<rparr>)) (\<lambda>_.
                bindE (createQ_remove varId) (\<lambda>_.
                bindE (deleteQ_remove varId) (\<lambda>_.
                bindE (updateQ_remove varId) (\<lambda>_.
                bindE (summaryQ_remove varId) (\<lambda>_.
                bindE (reqUpdQ_remove varId) (\<lambda>_.
                bindE (reqCreateQ_remove varId) (\<lambda>_.
                bindE (createQ_insert varId) (\<lambda>_.
                bindE (summaryQ_insert varId) (\<lambda>_.
                \<comment> \<open>the counter is incremented in a local copy of the statistics\<close>
                bindE (getE (\<lambda>pd. vardis_stats (global_state (vardis_store pd)))) (\<lambda>vardis_stats.
                let vardis_stats = vardis_stats\<lparr>count_process_var_create := count_process_var_create vardis_stats + 1\<rparr>
                in retE ()))))))))))))))) pd)
         else (Inr (), pd))"

definition process_var_delete :: "VarDeleteT \<Rightarrow> (VardisProtocolData, unit) action" where
  "process_var_delete del pd =
     (let varId = del_varId del in
      if variableExists varId pd then
        bindE (on_store (get_db_entry_ref varId)) (\<lambda>theEntry.
        bindE (if \<not> db_isDeleted theEntry then bindE (producerIsMe varId) (\<lambda>me. retE (\<not> me)) else retE False) (\<lambda>go.
        if go then
          bindE (modify_entry varId (\<lambda>e. e\<lparr>db_isDeleted := True, db_countUpdate := 0, db_countCreate := 0,
                                           db_countDelete := db_repCnt e\<rparr>)) (\<lambda>_.
          bindE (updateQ_remove varId) (\<lambda>_.
          bindE (createQ_remove varId) (\<lambda>_.
          bindE (reqUpdQ_remove varId) (\<lambda>_.
          bindE (reqCreateQ_remove varId) (\<lambda>_.
          bindE (summaryQ_remove varId) (\<lambda>_.
          bindE (deleteQ_remove varId) (\<lambda>_.
          bindE (deleteQ_insert varId) (\<lambda>_.
          count_stats (\<lambda>s. s\<lparr>count_process_var_delete := count_process_var_delete s + 1\<rparr>)))))))))
        else retE ())) pd
      else (Inr (), pd))"

definition process_var_update :: "TimeStampT \<Rightarrow> VarUpdateT \<Rightarrow> (VardisProtocolData, unit) action" where
  "process_var_update now update pd =
     (let varId = upd_varId update in
      if \<not> variableExists varId pd then
        (if \<not> q_contains (reqCreateQ pd) varId then reqCreateQ_insert varId pd else (Inr (), pd))
      else
        bindE (on_store (get_db_entry_ref varId)) (\<lambda>theEntry.
        if db_isDeleted theEntry then retE ()
        else bindE (producerIsMe varId) (\<lambda>me.
        if me then retE ()
        else if mb_length (upd_value update) > maxValueLength pd \<or> mb_length (upd_value update) \<le> 0 then retE ()
        else if db_seqno theEntry = upd_seqno update then retE ()
        else if more_recent_seqno (db_seqno theEntry) (upd_seqno update) then
          (if \<not> q_contains (updateQ pd) varId then
             bindE (updateQ_insert varId) (\<lambda>_.
             modify_entry varId (\<lambda>e. e\<lparr>db_countUpdate := db_repCnt e\<rparr>))
           else retE ())
        else
          bindE (modify_entry varId (\<lambda>e. e\<lparr>db_seqno := upd_seqno update, db_tStamp := now,
                                           db_countUpdate := db_repCnt e\<rparr>)) (\<lambda>_.
          bindE (on_store (update_value varId (upd_value update))) (\<lambda>_.
          bindE (if \<not> q_contains (updateQ pd) varId then updateQ_insert varId else retE ()) (\<lambda>_.
          bindE (reqUpdQ_remove varId) (\<lambda>_.
          count_stats (\<lambda>s. s\<lparr>count_process_var_update := count_process_var_update s + 1\<rparr>))))))) pd)"

definition process_var_summary :: "VarSummT \<Rightarrow> (VardisProtocolData, unit) action" where
  "process_var_summary summ pd =
     (let varId = summ_varId summ; seqno = summ_seqno summ in
      if \<not> variableExists varId pd then
        (if \<not> q_contains (reqCreateQ pd) varId then reqCreateQ_insert varId pd else (Inr (), pd))
      else
        bindE (on_store (get_db_entry_ref varId)) (\<lambda>theEntry.
        if db_isDeleted theEntry then retE ()
        else bindE (producerIsMe varId) (\<lambda>me.
        if me then retE ()
        else if db_seqno theEntry = seqno then retE ()
        else if more_recent_seqno (db_seqno theEntry) seqno then
          (if \<not> q_contains (updateQ pd) varId then
             bindE (updateQ_insert varId) (\<lambda>_.
             modify_entry varId (\<lambda>e. e\<lparr>db_countUpdate := db_repCnt e\<rparr>))
           else retE ())
        else
          bindE (if \<not> q_contains (reqUpdQ pd) varId then reqUpdQ_insert varId else retE ()) (\<lambda>_.
          count_stats (\<lambda>s. s\<lparr>count_process_var_summary := count_process_var_summary s + 1\<rparr>)))) pd)"

definition process_var_requpdate :: "VarReqUpdateT \<Rightarrow> (VardisProtocolData, unit) action" where
  "process_var_requpdate requpd pd =
     (let varId = summ_varId (requpd_updSpec requpd); seqno = summ_seqno (requpd_updSpec requpd) in
      if \<not> variableExists varId pd then
        (if \<not> q_contains (reqCreateQ pd) varId then reqCreateQ_insert varId pd else (Inr (), pd))
      else
        bindE (on_store (get_db_entry_ref varId)) (\<lambda>theEntry.
        if db_isDeleted theEntry then retE ()
        else if more_recent_seqno seqno (db_seqno theEntry) then retE ()
        else
          bindE (modify_entry varId (\<lambda>e. e\<lparr>db_countUpdate := db_repCnt e\<rparr>)) (\<lambda>_.
          bindE (if \<not> q_contains (updateQ pd) varId then updateQ_insert varId else retE ()) (\<lambda>_.
          count_stats (\<lambda>s. s\<lparr>count_process_var_requpdate := count_process_var_requpdate s + 1\<rparr>)))) pd)"

definition process_var_reqcreate :: "VarReqCreateT \<Rightarrow> (VardisProtocolData, unit) action" where
  "process_var_reqcreate reqcreate pd =
     (let varId = reqcreate_varId reqcreate in
      if \<not> variableExists varId pd then
        (if \<not> q_contains (reqCreateQ pd) varId then reqCreateQ_insert varId pd else (Inr (), pd))
      else
        bindE (on_store (get_db_entry_ref varId)) (\<lambda>theEntry.
        if db_isDeleted theEntry then retE ()
        else
          bindE (modify_entry varId (\<lambda>e. e\<lparr>db_countCreate := db_repCnt e\<rparr>)) (\<lambda>_.
          bindE (if \<not> q_contains (createQ pd) varId then createQ_insert varId else retE ()) (\<lambda>_.
          count_stats (\<lambda>s. s\<lparr>count_process_var_reqcreate := count_process_var_reqcreate s + 1\<rparr>)))) pd)"

section \<open>Service requests\<close>

definition handle_rtdb_create_request ::
  "TimeStampT \<Rightarrow> TimeStampT \<Rightarrow> RTDB_Create_Request \<Rightarrow> (VardisProtocolData, RTDB_Create_Confirm) action" where
  "handle_rtdb_create_request now1 now2 createReq pd =
     (let spec = crq_spec createReq; value = crq_value createReq; varId = spec_varId spec;
          variable_exists = variableExists varId pd
      in if \<not> get_vardis_isactive (vardis_store pd) then
           (Inr (RTDB_Create_Confirm VARDIS_STATUS_INACTIVE varId), pd)
         else if variable_exists
              \<and> db_prodId (db_entry (id_states (vardis_store pd) varId)) \<noteq> ownNodeIdentifier pd then
           (Inr (RTDB_Create_Confirm VARDIS_STATUS_VARIABLE_EXISTS varId), pd)
         else if mb_length (spec_descr spec) > maxDescriptionLength pd then
           (Inr (RTDB_Create_Confirm VARDIS_STATUS_VARIABLE_DESCRIPTION_TOO_LONG varId), pd)
         else if mb_length value > maxValueLength pd then
           (Inr (RTDB_Create_Confirm VARDIS_STATUS_VALUE_TOO_LONG varId), pd)
         else if mb_length value = 0 then
           (Inr (RTDB_Create_Confirm VARDIS_STATUS_EMPTY_VALUE varId), pd)
         else if spec_repCnt spec = 0 \<or> spec_repCnt spec > maxRepetitions pd then
           (Inr (RTDB_Create_Confirm VARDIS_STATUS_ILLEGAL_REPCOUNT varId), pd)
         else
           (let newent = \<lparr>db_varId = spec_varId spec, db_prodId = ownNodeIdentifier pd,
                  db_repCnt = spec_repCnt spec, db_creationTime = now1,
                  db_timeout = spec_timeout spec, db_seqno = 0, db_tStamp = now2,
                  db_countUpdate = 0, db_countCreate = spec_repCnt spec, db_countDelete = 0,
                  db_isDeleted = False\<rparr>
            in (bindE (if \<not> variable_exists then on_store (allocate_identifier varId) else retE ()) (\<lambda>_.
                bindE (on_store (set_db_entry varId newent)) (\<lambda>_.
                bindE (on_store (update_description varId (spec_descr spec))) (\<lambda>_.
                bindE (on_store (update_value varId value)) (\<lambda>_.
                bindE (modifyE (\<lambda>pd. pd\<lparr>active_variables := insert varId (active_variables pd)\<rparr>)) (\<lambda>_.
                bindE (createQ_remove varId) (\<lambda>_.
                bindE (updateQ_remove varId) (\<lambda>_.
                bindE (summaryQ_remove varId) (\<lambda>_.
                bindE (deleteQ_remove varId) (\<lambda>_.
                bindE (reqUpdQ_remove varId) (\<lambda>_.
                bindE (reqCreateQ_remove varId) (\<lambda>_.
                bindE (createQ_insert varId) (\<lambda>_.
                bindE (summaryQ_insert varId) (\<lambda>_.
                bindE (count_stats (\<lambda>s. s\<lparr>count_handle_rtdb_create := count_handle_rtdb_create s + 1\<rparr>)) (\<lambda>_.
                retE (RTDB_Create_Confirm VARDIS_STATUS_OK varId))))))))))))))) pd)))"

text \<open>
  The length of the new value is first converted to \<open>VarLenT\<close>, and the comparison with
  \<open>maxValueLength\<close> converts the latter to a byte as well.
\<close>

definition handle_rtdb_update_request ::
  "TimeStampT \<Rightarrow> RTDB_Update_Request \<Rightarrow> (VardisProtocolData, RTDB_Update_Confirm) action" where
  "handle_rtdb_update_request now updateReq pd =
     (let varId = urq_varId updateReq; varLen = (of_nat (mb_length (urq_value updateReq)) :: VarLenT)
      in if \<not> get_vardis_isactive (vardis_store pd) then
           (Inr (RTDB_Update_Confirm VARDIS_STATUS_INACTIVE varId), pd)
         else if \<not> variableExists varId pd then
           (Inr (RTDB_Update_Confirm VARDIS_STATUS_VARIABLE_DOES_NOT_EXIST varId), pd)
         else
           (bindE (on_store (get_db_entry_ref varId)) (\<lambda>theEntry.
            bindE (producerIsMe varId) (\<lambda>me.
            if \<not> me then retE (RTDB_Update_Confirm VARDIS_STATUS_NOT_PRODUCER varId)
            else if db_isDeleted theEntry then retE (RTDB_Update_Confirm VARDIS_STATUS_VARIABLE_IS_DELETED varId)
            else if varLen > of_nat (maxValueLength pd) then
              retE (RTDB_Update_Confirm VARDIS_STATUS_VALUE_TOO_LONG varId)
            else if varLen = 0 then retE (RTDB_Update_Confirm VARDIS_STATUS_EMPTY_VALUE varId)
            else
              bindE (modify_entry varId (\<lambda>e. e\<lparr>db_seqno := of_nat ((unat (db_seqno e) + 1) mod (VarSeqnoT_max_val + 1)),
                                               db_countUpdate := db_repCnt e, db_tStamp := now\<rparr>)) (\<lambda>_.
              bindE (on_store (update_value varId (urq_value updateReq))) (\<lambda>_.
              bindE (if \<not> q_contains (updateQ pd) varId then updateQ_insert varId else retE ()) (\<lambda>_.
              bindE (count_stats (\<lambda>s. s\<lparr>count_handle_rtdb_update := count_handle_rtdb_update s + 1\<rparr>)) (\<lambda>_.
              retE (RTDB_Update_Confirm VARDIS_STATUS_OK varId)))))))) pd)"

definition handle_rtdb_delete_request ::
  "RTDB_Delete_Request \<Rightarrow> (VardisProtocolData, RTDB_Delete_Confirm) action" where
  "handle_rtdb_delete_request deleteReq pd =
     (let varId = irq_varId deleteReq
      in if \<not> get_vardis_isactive (vardis_store pd) then
           (Inr (RTDB_Delete_Confirm VARDIS_STATUS_INACTIVE varId), pd)
         else if \<not> variableExists varId pd then
           (Inr (RTDB_Delete_Confirm VARDIS_STATUS_VARIABLE_DOES_NOT_EXIST varId), pd)
         else
           (bindE (producerIsMe varId) (\<lambda>me.
            if \<not> me then retE (RTDB_Delete_Confirm VARDIS_STATUS_NOT_PRODUCER varId)
            else
              bindE (on_store (get_db_entry_ref varId)) (\<lambda>theEntry.
              if db_isDeleted theEntry then retE (RTDB_Delete_Confirm VARDIS_STATUS_VARIABLE_IS_DELETED varId)
              else
                bindE (createQ_remove varId) (\<lambda>_.
                bindE (deleteQ_remove varId) (\<lambda>_.
                bindE (summaryQ_remove varId) (\<lambda>_.
                bindE (updateQ_remove varId) (\<lambda>_.
                bindE (reqUpdQ_remove varId) (\<lambda>_.
                bindE (reqCreateQ_remove varId) (\<lambda>_.
                bindE (deleteQ_insert varId) (\<lambda>_.
                bindE (modify_entry varId (\<lambda>e. e\<lparr>db_isDeleted := True, db_countDelete := db_repCnt e,
                                                 db_countCreate := 0, db_countUpdate := 0\<rparr>)) (\<lambda>_.
                bindE (count_stats (\<lambda>s. s\<lparr>count_handle_rtdb_delete := count_handle_rtdb_delete s + 1\<rparr>)) (\<lambda>_.
                retE (RTDB_Delete_Confirm VARDIS_STATUS_OK varId))))))))))))) pd)"

definition handle_rtdb_read_request ::
  "RTDB_Read_Request \<Rightarrow> (VardisProtocolData, RTDB_Read_Confirm) action" where
  "handle_rtdb_read_request readReq pd =
     (let varId = irq_varId readReq
      in if \<not> get_vardis_isactive (vardis_store pd) then
           (Inr (RTDB_Read_Confirm VARDIS_STATUS_INACTIVE varId), pd)
         else if \<not> variableExists varId pd then
           (Inr (RTDB_Read_Confirm VARDIS_STATUS_VARIABLE_DOES_NOT_EXIST varId), pd)
         else
           (bindE (on_store (get_db_entry_ref varId)) (\<lambda>theEntry.
            if db_isDeleted theEntry then retE (RTDB_Read_Confirm VARDIS_STATUS_VARIABLE_IS_DELETED varId)
            else
              bindE (on_store (read_value varId)) (\<lambda>the_value.
              bindE (retE ((RTDB_Read_Confirm_value VARDIS_STATUS_OK varId
                             (of_nat (mb_length the_value)) (mb_data the_value))
                             \<lparr>rcf_tStamp := db_tStamp theEntry\<rparr>)) (\<lambda>conf.
              bindE (count_stats (\<lambda>s. s\<lparr>count_handle_rtdb_read := count_handle_rtdb_read s + 1\<rparr>)) (\<lambda>_.
              retE conf))))) pd)"

section \<open>The scrubber\<close>

text \<open>
  \<open>scrubbing_thread\<close> of \<open>dcp/vardis/vardis_scrubber.cc\<close>: a variable whose time stamp is
  older than its timeout is marked as deleted.  The comparison of the elapsed
  milliseconds (32 bits) with the timeout is the one of \<open>TransmissibleIntegral<uint16_t>\<close>,
  so the milliseconds are converted to 16 bits first.
\<close>

definition scrub_variable :: "TimeStampT \<Rightarrow> VarIdT \<Rightarrow> (VardisProtocolData, unit) action" where
  "scrub_variable curr_time varId =
     bindE (on_store (get_db_entry_ref varId)) (\<lambda>ent.
     if db_isDeleted ent \<or> db_timeout ent = 0
        \<or> ucast (milliseconds_passed_since curr_time (db_tStamp ent)) \<le> db_timeout ent
     then retE ()
     else
       bindE (modify_entry varId (\<lambda>e. e\<lparr>db_isDeleted := True, db_countUpdate := 0,
                                        db_countDelete := db_repCnt e, db_countCreate := 0\<rparr>)) (\<lambda>_.
       bindE (createQ_remove varId) (\<lambda>_.
       bindE (deleteQ_remove varId) (\<lambda>_.
       bindE (updateQ_remove varId) (\<lambda>_.
       bindE (summaryQ_remove varId) (\<lambda>_.
       bindE (reqUpdQ_remove varId) (\<lambda>_.
       bindE (reqCreateQ_remove varId) (\<lambda>_.
       deleteQ_insert varId))))))))"

text \<open>
  A round visits the active variables in ascending order, in batches under the
  store's lock.  A batch is the \<open>for\<close> loop, whose bound \<open>min(batch_size, numvars)\<close> is
  evaluated anew in each pass while \<open>numvars\<close> is counted down; the batches are repeated
  until no variable is left.  The fuel bounds the number of batches.
\<close>

fun scrub_batch :: "TimeStampT \<Rightarrow> nat \<Rightarrow> VarIdT list \<Rightarrow> nat \<Rightarrow> (VardisProtocolData, VarIdT list \<times> nat) action" where
  "scrub_batch curr_time i var_it numvars =
     (if i < min 50 numvars then
        bindE (scrub_variable curr_time (hd var_it)) (\<lambda>_.
        scrub_batch curr_time (i + 1) (tl var_it) (numvars - 1))
      else retE (var_it, numvars))"

declare scrub_batch.simps [simp del]

fun scrub_batches :: "nat \<Rightarrow> TimeStampT \<Rightarrow> VarIdT list \<Rightarrow> nat \<Rightarrow> (VardisProtocolData, bool) action" where
  "scrub_batches 0 curr_time var_it numvars = retE (numvars = 0)"
| "scrub_batches (Suc fuel) curr_time var_it numvars =
     (if numvars > 0 then
        bindE (scrub_batch curr_time 0 var_it numvars) (\<lambda>(var_it, numvars).
        scrub_batches fuel curr_time var_it numvars)
      else retE True)"

definition scrub_round :: "TimeStampT \<Rightarrow> (VardisProtocolData, bool) action" where
  "scrub_round curr_time pd =
     (let var_it = sorted_list_of_set (active_variables pd); numvars = card (active_variables pd)
      in scrub_batches numvars curr_time var_it numvars pd)"

text \<open>One pass of the thread's loop: nothing unless active and the scrubbing period is over.\<close>

definition scrubbing_step ::
  "u16 \<Rightarrow> TimeStampT \<Rightarrow> TimeStampT \<Rightarrow> TimeStampT \<Rightarrow> (VardisProtocolData, TimeStampT) action" where
  "scrubbing_step scrubbing_period last_scrub curr_time next_scrub pd =
     (if \<not> get_vardis_isactive (vardis_store pd)
         \<or> milliseconds_passed_since curr_time last_scrub \<le> ucast scrubbing_period
      then (Inr last_scrub, pd)
      else bindE (scrub_round curr_time) (\<lambda>_. retE next_scrub) pd)"

end
