(* ===== verification/VardisInvariant.thy ===== *)
theory VardisInvariant
  imports VardisProtocol
begin

text \<open>
  The invariant of the VarDis protocol state and its preservation by every operation:
  the six queues, the repetition counters and the deletion marks of the database agree.
\<close>

section \<open>Well-formed protocol states\<close>

abbreviation used :: "VardisProtocolData \<Rightarrow> VarIdT \<Rightarrow> bool" where
  "used pd i \<equiv> is_used (id_states (vardis_store pd) i)"

abbreviation entry :: "VardisProtocolData \<Rightarrow> VarIdT \<Rightarrow> DBEntry" where
  "entry pd i \<equiv> db_entry (id_states (vardis_store pd) i)"

abbreviation val_of :: "VardisProtocolData \<Rightarrow> VarIdT \<Rightarrow> u8 list" where
  "val_of pd i \<equiv> value_bytes i (vardis_store pd)"

abbreviation descr_of :: "VardisProtocolData \<Rightarrow> VarIdT \<Rightarrow> u8 list" where
  "descr_of pd i \<equiv> descr_bytes i (vardis_store pd)"

abbreviation in_q :: "VarIdT \<Rightarrow> VarIdQueue \<Rightarrow> bool" where
  "in_q i q \<equiv> i \<in> set (queue q)"

definition wf_entry :: "u8 \<Rightarrow> VarIdT \<Rightarrow> DBEntry \<Rightarrow> bool" where
  "wf_entry maxRep i e \<longleftrightarrow>
     db_varId e = i \<and> 0 < db_repCnt e \<and> db_repCnt e \<le> maxRep
     \<and> db_countCreate e \<le> db_repCnt e \<and> db_countUpdate e \<le> db_repCnt e \<and> db_countDelete e \<le> db_repCnt e
     \<and> (db_isDeleted e \<longrightarrow> db_countCreate e = 0 \<and> db_countUpdate e = 0)
     \<and> (\<not> db_isDeleted e \<longrightarrow> db_countDelete e = 0)"

definition wf_bytes :: "nat \<Rightarrow> u8 list \<Rightarrow> bool" where
  "wf_bytes maxLen bs \<longleftrightarrow> bs \<noteq> [] \<and> length bs \<le> maxLen \<and> length bs \<le> 255"

definition wf_var :: "VardisProtocolData \<Rightarrow> VarIdT \<Rightarrow> bool" where
  "wf_var pd i \<longleftrightarrow>
     (if used pd i then
        wf_entry (maxRepetitions pd) i (entry pd i)
        \<and> wf_bytes (maxValueLength pd) (val_of pd i) \<and> wf_bytes (maxDescriptionLength pd) (descr_of pd i)
        \<and> (in_q i (createQ pd) \<longleftrightarrow> 0 < db_countCreate (entry pd i))
        \<and> (in_q i (updateQ pd) \<longleftrightarrow> 0 < db_countUpdate (entry pd i))
        \<and> (in_q i (deleteQ pd) \<longleftrightarrow> 0 < db_countDelete (entry pd i))
        \<and> (in_q i (summaryQ pd) \<longleftrightarrow> \<not> db_isDeleted (entry pd i))
        \<and> (in_q i (reqUpdQ pd) \<longrightarrow> \<not> db_isDeleted (entry pd i))
        \<and> \<not> in_q i (reqCreateQ pd)
      else
        \<not> in_q i (createQ pd) \<and> \<not> in_q i (updateQ pd) \<and> \<not> in_q i (deleteQ pd)
        \<and> \<not> in_q i (summaryQ pd) \<and> \<not> in_q i (reqUpdQ pd))"

definition wf_queues :: "VardisProtocolData \<Rightarrow> bool" where
  "wf_queues pd \<longleftrightarrow> wf_q (createQ pd) \<and> wf_q (deleteQ pd) \<and> wf_q (updateQ pd) \<and> wf_q (summaryQ pd)
     \<and> wf_q (reqUpdQ pd) \<and> wf_q (reqCreateQ pd)"

definition wf_conf :: "VardisProtocolData \<Rightarrow> bool" where
  "wf_conf pd \<longleftrightarrow> maxValueLength pd \<le> 255 \<and> maxDescriptionLength pd \<le> 255
     \<and> maxValueLength pd \<le> valueBufferSize (vardis_store pd)
     \<and> maxDescriptionLength pd \<le> descrBufferSize (vardis_store pd)"

definition wf_pd :: "VardisProtocolData \<Rightarrow> bool" where
  "wf_pd pd \<longleftrightarrow> wf_store (vardis_store pd) \<and> wf_queues pd \<and> wf_conf pd
     \<and> active_variables pd = used_ids (vardis_store pd) \<and> (\<forall>i. wf_var pd i)"

text \<open>The configuration, which no operation changes.\<close>

definition same_conf :: "VardisProtocolData \<Rightarrow> VardisProtocolData \<Rightarrow> bool" where
  "same_conf pd pd' \<longleftrightarrow> ownNodeIdentifier pd' = ownNodeIdentifier pd
     \<and> maxSummaries pd' = maxSummaries pd \<and> maxDescriptionLength pd' = maxDescriptionLength pd
     \<and> maxValueLength pd' = maxValueLength pd \<and> maxRepetitions pd' = maxRepetitions pd"

lemma on_store_simp [action_simps]:
  "m (vardis_store pd) = (r, st') \<Longrightarrow> on_store m pd = (r, pd\<lparr>vardis_store := st'\<rparr>)"
  by (simp add: on_store_def zoomE_def)

lemma on_store_get_entry:
  "on_store (get_db_entry_ref i) pd =
     (if used pd i then (Inr (entry pd i), pd) else (Inl VardisStoreException, pd))"
  by (simp add: on_store_def zoomE_def get_db_entry_ref_spec)

lemma producerIsMe_spec:
  "producerIsMe i pd =
     (if used pd i then (Inr (db_prodId (entry pd i) = ownNodeIdentifier pd), pd)
      else (Inl VardisStoreException, pd))"
  by (simp add: producerIsMe_def bindE_def on_store_get_entry)

lemma variableExists_iff [simp]: "variableExists i pd = used pd i"
  by (simp add: variableExists_def identifier_is_allocated_def)

lemma used_ids_modify [simp]:
  "used_ids (modify_db_entry i f st) = used_ids st" "used_ids (modify_stats g st) = used_ids st"
  "used_ids (put_value i bs st) = used_ids st" "used_ids (put_descr i bs st) = used_ids st"
  by (simp_all add: used_ids_def)

lemma wf_pdD:
  assumes "wf_pd pd"
  shows "wf_store (vardis_store pd)" "wf_queues pd" "wf_conf pd"
    "active_variables pd = used_ids (vardis_store pd)" "\<And>i. wf_var pd i"
  using assms by (simp_all add: wf_pd_def)

lemma wf_queuesD:
  assumes "wf_queues pd"
  shows "wf_q (createQ pd)" "wf_q (deleteQ pd)" "wf_q (updateQ pd)" "wf_q (summaryQ pd)"
    "wf_q (reqUpdQ pd)" "wf_q (reqCreateQ pd)"
  using assms by (simp_all add: wf_queues_def)

section \<open>One identifier at a time\<close>

text \<open>
  Every operation of the protocol works on one identifier.  Its effect on the state is
  described by what it changes there, and the other identifiers keep what the
  invariant says of them.
\<close>

definition same_at :: "VarIdT \<Rightarrow> VardisProtocolData \<Rightarrow> VardisProtocolData \<Rightarrow> bool" where
  "same_at j pd pd' \<longleftrightarrow>
     used pd' j = used pd j \<and> entry pd' j = entry pd j \<and> val_of pd' j = val_of pd j
     \<and> descr_of pd' j = descr_of pd j
     \<and> in_q j (createQ pd') = in_q j (createQ pd) \<and> in_q j (deleteQ pd') = in_q j (deleteQ pd)
     \<and> in_q j (updateQ pd') = in_q j (updateQ pd) \<and> in_q j (summaryQ pd') = in_q j (summaryQ pd)
     \<and> in_q j (reqUpdQ pd') = in_q j (reqUpdQ pd) \<and> in_q j (reqCreateQ pd') = in_q j (reqCreateQ pd)"

lemma wf_var_same:
  "same_at j pd pd' \<Longrightarrow> same_conf pd pd' \<Longrightarrow> wf_var pd j \<Longrightarrow> wf_var pd' j"
  by (simp add: wf_var_def same_at_def same_conf_def)

lemma wf_pdI_local:
  assumes "wf_pd pd" "wf_store (vardis_store pd')" "wf_queues pd'" "same_conf pd pd'"
    "valueBufferSize (vardis_store pd') = valueBufferSize (vardis_store pd)"
    "descrBufferSize (vardis_store pd') = descrBufferSize (vardis_store pd)"
    "active_variables pd' = used_ids (vardis_store pd')"
    "\<And>j. j \<noteq> i \<Longrightarrow> same_at j pd pd'" "wf_var pd' i"
  shows "wf_pd pd'"
proof -
  have "wf_conf pd'" using assms by (simp add: wf_pd_def wf_conf_def same_conf_def)
  moreover have "wf_var pd' j" for j
    using wf_var_same [of j pd pd'] assms wf_pdD(5) [OF assms(1)] by (cases "j = i") auto
  ultimately show ?thesis using assms by (simp add: wf_pd_def)
qed

section \<open>Preservation: received instructions\<close>

lemma if_action: "(if b then m else n) s = (if b then m s else n s)"
  by simp

lemmas exec_simps = if_action bindE_def on_store_get_entry producerIsMe_spec queue_op_defs modify_entry_def
  count_stats_def Let_def

lemmas local_simps = same_at_def same_conf_def wf_queues_def wf_var_def wf_entry_def

lemma process_var_delete_wf:
  assumes "wf_pd pd"
  shows "\<exists>pd'. process_var_delete d pd = (Inr (), pd') \<and> wf_pd pd' \<and> same_conf pd pd'"
proof -
  let ?i = "del_varId d"
  note wf = wf_pdD [OF assms] and q = wf_queuesD [OF wf_pdD(2) [OF assms]]
  show ?thesis
  proof (cases "used pd ?i \<and> \<not> db_isDeleted (entry pd ?i)
      \<and> db_prodId (entry pd ?i) \<noteq> ownNodeIdentifier pd")
    case False
    then show ?thesis using assms by (auto simp: process_var_delete_def exec_simps same_conf_def)
  next
    case True
    obtain pd' where pd': "process_var_delete d pd = (Inr (), pd')"
      and pd'_def: "pd' = snd (process_var_delete d pd)"
      using True by (simp add: process_var_delete_def exec_simps)
    have "wf_pd pd' \<and> same_conf pd pd'"
      unfolding pd'_def
      using True q wf wf(5) [of ?i]
      by (intro conjI wf_pdI_local [OF assms, where i = ?i])
        (auto simp: process_var_delete_def exec_simps local_simps)
    with pd' show ?thesis by blast
  qed
qed

lemma on_store_update_value:
  assumes "used pd i" "wf_VarValueT v" "mb_length v \<noteq> 0" "mb_length v \<le> valueBufferSize (vardis_store pd)"
  shows "on_store (update_value i v) pd =
    (Inr (), pd\<lparr>vardis_store := put_value i (mb_bytes v) (vardis_store pd)\<rparr>)"
  using assms update_value_ok [of "vardis_store pd" i "mb_bytes v" v]
  by (intro on_store_simp) (auto simp: wf_VarValueT_fields)

text \<open>The branches of \<open>process_var_update\<close>.\<close>

lemma unknown_varId_requested:
  assumes "wf_pd pd" "\<not> used pd i"
  shows "wf_pd (pd\<lparr>reqCreateQ := q_insert i (reqCreateQ pd)\<rparr>)"
  using assms(2) wf_pdD [OF assms(1)] wf_queuesD [OF wf_pdD(2) [OF assms(1)]] wf_pdD(5) [OF assms(1), of i]
  by (intro wf_pdI_local [OF assms(1), where i = i]) (auto simp: local_simps)

lemma own_value_scheduled:
  assumes "wf_pd pd" "used pd i" "\<not> db_isDeleted (entry pd i)"
  shows "wf_pd (pd\<lparr>updateQ := q_insert i (updateQ pd),
    vardis_store := modify_db_entry i (\<lambda>e. e\<lparr>db_countUpdate := db_repCnt e\<rparr>) (vardis_store pd)\<rparr>)"
  using assms(2-) wf_pdD [OF assms(1)] wf_queuesD [OF wf_pdD(2) [OF assms(1)]] wf_pdD(5) [OF assms(1), of i]
  by (intro wf_pdI_local [OF assms(1), where i = i]) (auto simp: local_simps)

lemma process_var_update_unknown:
  "\<not> used pd (upd_varId u) \<Longrightarrow>
   process_var_update now u pd = (Inr (), pd\<lparr>reqCreateQ := q_insert (upd_varId u) (reqCreateQ pd)\<rparr>)"
  by (simp add: process_var_update_def exec_simps q_insert_def)

lemma process_var_update_ignore:
  assumes "used pd (upd_varId u)"
    and "db_isDeleted (entry pd (upd_varId u))
      \<or> db_prodId (entry pd (upd_varId u)) = ownNodeIdentifier pd
      \<or> mb_length (upd_value u) > maxValueLength pd \<or> mb_length (upd_value u) = 0
      \<or> db_seqno (entry pd (upd_varId u)) = upd_seqno u
      \<or> (more_recent_seqno (db_seqno (entry pd (upd_varId u))) (upd_seqno u)
          \<and> q_contains (updateQ pd) (upd_varId u))"
  shows "process_var_update now u pd = (Inr (), pd)"
  using assms by (elim disjE conjE) (simp_all add: process_var_update_def exec_simps)

lemma process_var_update_old:
  assumes "used pd (upd_varId u)" "\<not> db_isDeleted (entry pd (upd_varId u))"
    "db_prodId (entry pd (upd_varId u)) \<noteq> ownNodeIdentifier pd"
    "mb_length (upd_value u) \<le> maxValueLength pd" "mb_length (upd_value u) \<noteq> 0"
    "more_recent_seqno (db_seqno (entry pd (upd_varId u))) (upd_seqno u)"
    "\<not> q_contains (updateQ pd) (upd_varId u)"
  shows "process_var_update now u pd =
    (Inr (), pd\<lparr>updateQ := q_insert (upd_varId u) (updateQ pd),
       vardis_store := modify_db_entry (upd_varId u) (\<lambda>e. e\<lparr>db_countUpdate := db_repCnt e\<rparr>) (vardis_store pd)\<rparr>)"
proof -
  have "db_seqno (entry pd (upd_varId u)) \<noteq> upd_seqno u" using assms(6) by auto
  with assms show ?thesis by (simp add: process_var_update_def exec_simps)
qed

definition updated_pd :: "TimeStampT \<Rightarrow> VarUpdateT \<Rightarrow> VardisProtocolData \<Rightarrow> VardisProtocolData" where
  "updated_pd now u pd =
     pd\<lparr>vardis_store := modify_stats (\<lambda>s. s\<lparr>count_process_var_update := count_process_var_update s + 1\<rparr>)
          (put_value (upd_varId u) (mb_bytes (upd_value u))
            (modify_db_entry (upd_varId u) (\<lambda>e. e\<lparr>db_seqno := upd_seqno u, db_tStamp := now,
               db_countUpdate := db_repCnt e\<rparr>) (vardis_store pd))),
        updateQ := q_insert (upd_varId u) (updateQ pd),
        reqUpdQ := q_remove (upd_varId u) (reqUpdQ pd)\<rparr>"

lemma process_var_update_accept:
  assumes "used pd (upd_varId u)" "\<not> db_isDeleted (entry pd (upd_varId u))"
    "db_prodId (entry pd (upd_varId u)) \<noteq> ownNodeIdentifier pd" "wf_VarUpdateT u"
    "mb_length (upd_value u) \<le> maxValueLength pd" "mb_length (upd_value u) \<noteq> 0"
    "mb_length (upd_value u) \<le> valueBufferSize (vardis_store pd)"
    "db_seqno (entry pd (upd_varId u)) \<noteq> upd_seqno u"
    "\<not> more_recent_seqno (db_seqno (entry pd (upd_varId u))) (upd_seqno u)"
  shows "process_var_update now u pd = (Inr (), updated_pd now u pd)"
  using assms
  by (simp add: process_var_update_def exec_simps on_store_update_value updated_pd_def q_insert_def
      wf_VarUpdateT_def)

lemma updated_pd_wf:
  assumes "wf_pd pd" "used pd (upd_varId u)" "\<not> db_isDeleted (entry pd (upd_varId u))" "wf_VarUpdateT u"
    "mb_length (upd_value u) \<le> maxValueLength pd" "mb_length (upd_value u) \<noteq> 0"
    "mb_length (upd_value u) \<le> valueBufferSize (vardis_store pd)"
  shows "wf_pd (updated_pd now u pd)"
  using assms(2-) wf_pdD [OF assms(1)] wf_queuesD [OF wf_pdD(2) [OF assms(1)]]
    wf_pdD(5) [OF assms(1), of "upd_varId u"] wf_VarValueT_fields [of "upd_value u"]
  by (intro wf_pdI_local [OF assms(1), where i = "upd_varId u"])
    (auto simp: updated_pd_def local_simps value_bytes_put_value wf_bytes_def wf_VarUpdateT_def)

lemma same_conf_refl [simp]: "same_conf pd pd"
  by (simp add: same_conf_def)

lemma process_var_update_wf:
  assumes "wf_pd pd" "wf_VarUpdateT u"
  shows "\<exists>pd'. process_var_update now u pd = (Inr (), pd') \<and> wf_pd pd' \<and> same_conf pd pd'"
proof -
  let ?i = "upd_varId u" and ?v = "upd_value u"
  have vb: "maxValueLength pd \<le> valueBufferSize (vardis_store pd)"
    using wf_pdD(3) [OF assms(1)] by (simp add: wf_conf_def)
  show ?thesis
  proof (cases "used pd ?i")
    case False
    then show ?thesis
      using unknown_varId_requested [OF assms(1) False] process_var_update_unknown [OF False]
      by (simp add: same_conf_def)
  next
    case True
    consider (ignore) "db_isDeleted (entry pd ?i) \<or> db_prodId (entry pd ?i) = ownNodeIdentifier pd
        \<or> mb_length ?v > maxValueLength pd \<or> mb_length ?v = 0 \<or> db_seqno (entry pd ?i) = upd_seqno u
        \<or> (more_recent_seqno (db_seqno (entry pd ?i)) (upd_seqno u) \<and> q_contains (updateQ pd) ?i)"
      | (old) "\<not> db_isDeleted (entry pd ?i)" "db_prodId (entry pd ?i) \<noteq> ownNodeIdentifier pd"
        "mb_length ?v \<le> maxValueLength pd" "mb_length ?v \<noteq> 0"
        "more_recent_seqno (db_seqno (entry pd ?i)) (upd_seqno u)" "\<not> q_contains (updateQ pd) ?i"
      | (accept) "\<not> db_isDeleted (entry pd ?i)" "db_prodId (entry pd ?i) \<noteq> ownNodeIdentifier pd"
        "mb_length ?v \<le> maxValueLength pd" "mb_length ?v \<noteq> 0"
        "db_seqno (entry pd ?i) \<noteq> upd_seqno u" "\<not> more_recent_seqno (db_seqno (entry pd ?i)) (upd_seqno u)"
      by linarith
    then show ?thesis
    proof cases
      case ignore
      then show ?thesis using process_var_update_ignore [OF True] assms(1) by simp
    next
      case old
      show ?thesis
        unfolding process_var_update_old [OF True old]
        using own_value_scheduled [OF assms(1) True old(1)] by (simp add: same_conf_def)
    next
      case accept
      then have l: "mb_length ?v \<le> valueBufferSize (vardis_store pd)" using vb by simp
      show ?thesis
        unfolding process_var_update_accept [OF True accept(1,2) assms(2) accept(3,4) l accept(5,6)]
        using updated_pd_wf [OF assms(1) True accept(1) assms(2) accept(3,4) l]
        by (simp add: same_conf_def updated_pd_def)
    qed
  qed
qed

text \<open>Summaries and requests.\<close>

lemma wf_pd_stats:
  assumes "wf_pd pd"
  shows "wf_pd (pd\<lparr>vardis_store := modify_stats g (vardis_store pd)\<rparr>)"
  using wf_pdD [OF assms] wf_queuesD [OF wf_pdD(2) [OF assms]] wf_pdD(5) [OF assms, of 0]
  by (intro wf_pdI_local [OF assms, where i = 0]) (auto simp: local_simps)

lemma update_requested:
  assumes "wf_pd pd" "used pd i" "\<not> db_isDeleted (entry pd i)"
  shows "wf_pd (pd\<lparr>reqUpdQ := q_insert i (reqUpdQ pd), vardis_store := modify_stats g (vardis_store pd)\<rparr>)"
  using assms(2-) wf_pdD [OF assms(1)] wf_queuesD [OF wf_pdD(2) [OF assms(1)]] wf_pdD(5) [OF assms(1), of i]
  by (intro wf_pdI_local [OF assms(1), where i = i]) (auto simp: local_simps)

lemma create_scheduled:
  assumes "wf_pd pd" "used pd i" "\<not> db_isDeleted (entry pd i)"
  shows "wf_pd (pd\<lparr>createQ := q_insert i (createQ pd),
    vardis_store := modify_db_entry i (\<lambda>e. e\<lparr>db_countCreate := db_repCnt e\<rparr>) (vardis_store pd)\<rparr>)"
  using assms(2-) wf_pdD [OF assms(1)] wf_queuesD [OF wf_pdD(2) [OF assms(1)]] wf_pdD(5) [OF assms(1), of i]
  by (intro wf_pdI_local [OF assms(1), where i = i]) (auto simp: local_simps)

lemma process_var_summary_unknown:
  "\<not> used pd (summ_varId u) \<Longrightarrow>
   process_var_summary u pd = (Inr (), pd\<lparr>reqCreateQ := q_insert (summ_varId u) (reqCreateQ pd)\<rparr>)"
  by (simp add: process_var_summary_def exec_simps q_insert_def)

lemma process_var_summary_ignore:
  assumes "used pd (summ_varId u)"
    and "db_isDeleted (entry pd (summ_varId u))
      \<or> db_prodId (entry pd (summ_varId u)) = ownNodeIdentifier pd
      \<or> db_seqno (entry pd (summ_varId u)) = summ_seqno u
      \<or> (more_recent_seqno (db_seqno (entry pd (summ_varId u))) (summ_seqno u)
          \<and> q_contains (updateQ pd) (summ_varId u))"
  shows "process_var_summary u pd = (Inr (), pd)"
  using assms by (elim disjE conjE) (simp_all add: process_var_summary_def exec_simps)

lemma process_var_summary_old:
  assumes "used pd (summ_varId u)" "\<not> db_isDeleted (entry pd (summ_varId u))"
    "db_prodId (entry pd (summ_varId u)) \<noteq> ownNodeIdentifier pd"
    "more_recent_seqno (db_seqno (entry pd (summ_varId u))) (summ_seqno u)"
    "\<not> q_contains (updateQ pd) (summ_varId u)"
  shows "process_var_summary u pd =
    (Inr (), pd\<lparr>updateQ := q_insert (summ_varId u) (updateQ pd),
       vardis_store := modify_db_entry (summ_varId u) (\<lambda>e. e\<lparr>db_countUpdate := db_repCnt e\<rparr>) (vardis_store pd)\<rparr>)"
proof -
  have "db_seqno (entry pd (summ_varId u)) \<noteq> summ_seqno u" using assms(4) by auto
  with assms show ?thesis by (simp add: process_var_summary_def exec_simps)
qed

lemma process_var_summary_request:
  assumes "used pd (summ_varId u)" "\<not> db_isDeleted (entry pd (summ_varId u))"
    "db_prodId (entry pd (summ_varId u)) \<noteq> ownNodeIdentifier pd"
    "db_seqno (entry pd (summ_varId u)) \<noteq> summ_seqno u"
    "\<not> more_recent_seqno (db_seqno (entry pd (summ_varId u))) (summ_seqno u)"
  shows "process_var_summary u pd =
    (Inr (), pd\<lparr>reqUpdQ := q_insert (summ_varId u) (reqUpdQ pd),
       vardis_store := modify_stats (\<lambda>s. s\<lparr>count_process_var_summary := count_process_var_summary s + 1\<rparr>)
         (vardis_store pd)\<rparr>)"
  using assms by (simp add: process_var_summary_def exec_simps q_insert_def)

lemma process_var_summary_wf:
  assumes "wf_pd pd"
  shows "\<exists>pd'. process_var_summary u pd = (Inr (), pd') \<and> wf_pd pd' \<and> same_conf pd pd'"
proof (cases "used pd (summ_varId u)")
  case False
  then show ?thesis
    using unknown_varId_requested [OF assms False] process_var_summary_unknown [OF False]
    by (simp add: same_conf_def)
next
  case True
  let ?i = "summ_varId u"
  consider (ignore) "db_isDeleted (entry pd ?i) \<or> db_prodId (entry pd ?i) = ownNodeIdentifier pd
      \<or> db_seqno (entry pd ?i) = summ_seqno u
      \<or> (more_recent_seqno (db_seqno (entry pd ?i)) (summ_seqno u) \<and> q_contains (updateQ pd) ?i)"
    | (old) "\<not> db_isDeleted (entry pd ?i)" "db_prodId (entry pd ?i) \<noteq> ownNodeIdentifier pd"
      "more_recent_seqno (db_seqno (entry pd ?i)) (summ_seqno u)" "\<not> q_contains (updateQ pd) ?i"
    | (req) "\<not> db_isDeleted (entry pd ?i)" "db_prodId (entry pd ?i) \<noteq> ownNodeIdentifier pd"
      "db_seqno (entry pd ?i) \<noteq> summ_seqno u" "\<not> more_recent_seqno (db_seqno (entry pd ?i)) (summ_seqno u)"
    by blast
  then show ?thesis
  proof cases
    case ignore
    then show ?thesis using process_var_summary_ignore [OF True] assms by simp
  next
    case old
    show ?thesis
      unfolding process_var_summary_old [OF True old]
      using own_value_scheduled [OF assms True old(1)] by (simp add: same_conf_def)
  next
    case req
    show ?thesis
      unfolding process_var_summary_request [OF True req]
      using update_requested [OF assms True req(1)] by (simp add: same_conf_def)
  qed
qed

lemma process_var_requpdate_cases:
  defines "i \<equiv> \<lambda>r. summ_varId (requpd_updSpec r)"
  shows "\<not> used pd (i r) \<Longrightarrow>
      process_var_requpdate r pd = (Inr (), pd\<lparr>reqCreateQ := q_insert (i r) (reqCreateQ pd)\<rparr>)"
    and "used pd (i r) \<Longrightarrow> db_isDeleted (entry pd (i r))
        \<or> more_recent_seqno (summ_seqno (requpd_updSpec r)) (db_seqno (entry pd (i r)))
      \<Longrightarrow> process_var_requpdate r pd = (Inr (), pd)"
    and "used pd (i r) \<Longrightarrow> \<not> db_isDeleted (entry pd (i r))
      \<Longrightarrow> \<not> more_recent_seqno (summ_seqno (requpd_updSpec r)) (db_seqno (entry pd (i r)))
      \<Longrightarrow> process_var_requpdate r pd = (Inr (), pd\<lparr>updateQ := q_insert (i r) (updateQ pd),
         vardis_store := modify_stats (\<lambda>s. s\<lparr>count_process_var_requpdate := count_process_var_requpdate s + 1\<rparr>)
           (modify_db_entry (i r) (\<lambda>e. e\<lparr>db_countUpdate := db_repCnt e\<rparr>) (vardis_store pd))\<rparr>)"
  unfolding i_def by (auto simp: process_var_requpdate_def exec_simps q_insert_def)

lemma process_var_requpdate_wf:
  assumes "wf_pd pd"
  shows "\<exists>pd'. process_var_requpdate r pd = (Inr (), pd') \<and> wf_pd pd' \<and> same_conf pd pd'"
proof -
  let ?i = "summ_varId (requpd_updSpec r)"
  note c = process_var_requpdate_cases [where pd = pd and r = r]
  consider (unk) "\<not> used pd ?i"
    | (ign) "used pd ?i" "db_isDeleted (entry pd ?i)
        \<or> more_recent_seqno (summ_seqno (requpd_updSpec r)) (db_seqno (entry pd ?i))"
    | (go) "used pd ?i" "\<not> db_isDeleted (entry pd ?i)"
        "\<not> more_recent_seqno (summ_seqno (requpd_updSpec r)) (db_seqno (entry pd ?i))" by blast
  then show ?thesis
  proof cases
    case unk
    then show ?thesis using c(1) unknown_varId_requested [OF assms unk] by (simp add: same_conf_def)
  next
    case ign
    then show ?thesis using c(2) assms by simp
  next
    case go
    show ?thesis
      unfolding c(3) [OF go]
      using wf_pd_stats [OF own_value_scheduled [OF assms go(1,2)]] by (simp add: same_conf_def)
  qed
qed

lemma process_var_reqcreate_cases:
  "\<not> used pd (reqcreate_varId r) \<Longrightarrow>
     process_var_reqcreate r pd = (Inr (), pd\<lparr>reqCreateQ := q_insert (reqcreate_varId r) (reqCreateQ pd)\<rparr>)"
  "used pd (reqcreate_varId r) \<Longrightarrow> db_isDeleted (entry pd (reqcreate_varId r))
     \<Longrightarrow> process_var_reqcreate r pd = (Inr (), pd)"
  "used pd (reqcreate_varId r) \<Longrightarrow> \<not> db_isDeleted (entry pd (reqcreate_varId r))
     \<Longrightarrow> process_var_reqcreate r pd = (Inr (), pd\<lparr>createQ := q_insert (reqcreate_varId r) (createQ pd),
        vardis_store := modify_stats (\<lambda>s. s\<lparr>count_process_var_reqcreate := count_process_var_reqcreate s + 1\<rparr>)
          (modify_db_entry (reqcreate_varId r) (\<lambda>e. e\<lparr>db_countCreate := db_repCnt e\<rparr>) (vardis_store pd))\<rparr>)"
  by (auto simp: process_var_reqcreate_def exec_simps q_insert_def)

lemma process_var_reqcreate_wf:
  assumes "wf_pd pd"
  shows "\<exists>pd'. process_var_reqcreate r pd = (Inr (), pd') \<and> wf_pd pd' \<and> same_conf pd pd'"
proof -
  let ?i = "reqcreate_varId r"
  note c = process_var_reqcreate_cases [where pd = pd and r = r]
  consider (unk) "\<not> used pd ?i" | (ign) "used pd ?i" "db_isDeleted (entry pd ?i)"
    | (go) "used pd ?i" "\<not> db_isDeleted (entry pd ?i)" by blast
  then show ?thesis
  proof cases
    case unk
    then show ?thesis using c(1) unknown_varId_requested [OF assms unk] by (simp add: same_conf_def)
  next
    case ign
    then show ?thesis using c(2) assms by simp
  next
    case go
    show ?thesis
      unfolding c(3) [OF go]
      using wf_pd_stats [OF create_scheduled [OF assms go(1,2)]] by (simp add: same_conf_def)
  qed
qed

section \<open>Preservation: new variables\<close>

lemma on_store_bindE: "on_store (bindE m f) = bindE (on_store m) (\<lambda>x. on_store (f x))"
  by (rule ext) (simp add: on_store_def zoomE_def bindE_def split: prod.splits sum.splits)

lemma on_store_retE: "on_store (retE x) = retE x"
  by (rule ext) (simp add: on_store_def zoomE_def)

text \<open>
  Both a received creation and a service request install a variable in the store by the
  same four calls, to which the contract of the store applies.
\<close>

lemma install_variable:
  fixes pd :: VardisProtocolData
  assumes "wf_store (vardis_store pd)" "used pd i = ex"
    "wf_StringT d" "mb_length d > 0" "mb_length d \<le> descrBufferSize (vardis_store pd)"
    "wf_VarValueT v" "mb_length v > 0" "mb_length v \<le> valueBufferSize (vardis_store pd)"
  shows "\<exists>st'.
    (\<forall>k :: unit \<Rightarrow> (VardisProtocolData, 'b) action.
       bindE (if \<not> ex then on_store (allocate_identifier i) else retE ()) (\<lambda>_.
         bindE (on_store (set_db_entry i e)) (\<lambda>_.
         bindE (on_store (update_description i d)) (\<lambda>_.
         bindE (on_store (update_value i v)) k))) pd = k () (pd\<lparr>vardis_store := st'\<rparr>))
    \<and> wf_store st' \<and> (\<lambda>j. is_used (id_states st' j)) = (used pd)(i := True)
    \<and> (\<lambda>j. db_entry (id_states st' j)) = (entry pd)(i := e)
    \<and> (\<lambda>j. value_bytes j st') = (val_of pd)(i := mb_bytes v)
    \<and> (\<lambda>j. descr_bytes j st') = (descr_of pd)(i := mb_bytes d)
    \<and> valueBufferSize st' = valueBufferSize (vardis_store pd)
    \<and> descrBufferSize st' = descrBufferSize (vardis_store pd)
    \<and> global_state st' = global_state (vardis_store pd)"
proof -
  have dv: "mb_length d = length (mb_bytes d)" "mb_bytes d \<noteq> []"
    "mb_length v = length (mb_bytes v)" "mb_bytes v \<noteq> []"
    using assms(4,7) wf_StringT_length [OF assms(3)] wf_VarValueT_fields(1) [OF assms(6)] by auto
  from avs.install [of "vardis_store pd" i ex d v e] assms dv obtain st' where
    st': "avs.install ex i e d v (vardis_store pd) = (Inr (), st')"
    and rest: "wf_store st' \<and> (\<lambda>j. is_used (id_states st' j)) = (used pd)(i := True)
    \<and> (\<lambda>j. db_entry (id_states st' j)) = (entry pd)(i := e)
    \<and> (\<lambda>j. value_bytes j st') = (val_of pd)(i := mb_bytes v)
    \<and> (\<lambda>j. descr_bytes j st') = (descr_of pd)(i := mb_bytes d)
    \<and> valueBufferSize st' = valueBufferSize (vardis_store pd)
    \<and> descrBufferSize st' = descrBufferSize (vardis_store pd)
    \<and> global_state st' = global_state (vardis_store pd)" by auto
  have on: "on_store (avs.install ex i e d v) pd = (Inr (), pd\<lparr>vardis_store := st'\<rparr>)"
    by (simp add: on_store_def zoomE_def st')
  have "bindE (if \<not> ex then on_store (allocate_identifier i) else retE ()) (\<lambda>_.
         bindE (on_store (set_db_entry i e)) (\<lambda>_.
         bindE (on_store (update_description i d)) (\<lambda>_.
         bindE (on_store (update_value i v)) k)))
       = bindE (on_store (avs.install ex i e d v)) k" for k :: "unit \<Rightarrow> (VardisProtocolData, 'b) action"
    unfolding avs.install_def by (cases ex) (simp_all add: on_store_bindE bindE_assoc on_store_retE)
  with on rest show ?thesis by (intro exI [of _ st'] conjI allI) (simp_all add: bindE_Inr)
qed

definition installed_pd :: "VarIdT \<Rightarrow> ArrayContents \<Rightarrow> VardisProtocolData \<Rightarrow> VardisProtocolData" where
  "installed_pd i st' pd =
     pd\<lparr>vardis_store := st', active_variables := insert i (active_variables pd),
        createQ := q_insert i (q_remove i (createQ pd)), deleteQ := q_remove i (deleteQ pd),
        updateQ := q_remove i (updateQ pd), summaryQ := q_insert i (q_remove i (summaryQ pd)),
        reqUpdQ := q_remove i (reqUpdQ pd), reqCreateQ := q_remove i (reqCreateQ pd)\<rparr>"

lemma installed_pd_wf:
  assumes "wf_pd pd" "wf_store st'" "(\<lambda>j. is_used (id_states st' j)) = (used pd)(i := True)"
    "(\<lambda>j. db_entry (id_states st' j)) = (entry pd)(i := e)"
    "(\<lambda>j. value_bytes j st') = (val_of pd)(i := vb)"
    "(\<lambda>j. descr_bytes j st') = (descr_of pd)(i := db)"
    "valueBufferSize st' = valueBufferSize (vardis_store pd)"
    "descrBufferSize st' = descrBufferSize (vardis_store pd)"
    and "wf_entry (maxRepetitions pd) i e" "0 < db_countCreate e" "db_countUpdate e = 0" "db_countDelete e = 0"
    "\<not> db_isDeleted e" "wf_bytes (maxValueLength pd) vb" "wf_bytes (maxDescriptionLength pd) db"
  shows "wf_pd (installed_pd i st' pd) \<and> same_conf pd (installed_pd i st' pd)"
proof -
  note q = wf_queuesD [OF wf_pdD(2) [OF assms(1)]]
  have u: "is_used (id_states st' j) = (if j = i then True else used pd j)"
    "db_entry (id_states st' j) = (if j = i then e else entry pd j)"
    "value_bytes j st' = (if j = i then vb else val_of pd j)"
    "descr_bytes j st' = (if j = i then db else descr_of pd j)" for j
    using assms(3-6) by (simp_all add: fun_eq_iff)
  have "used_ids st' = insert i (used_ids (vardis_store pd))" by (auto simp: used_ids_def u)
  then show ?thesis
    using assms wf_pdD [OF assms(1)] q u
    by (intro conjI wf_pdI_local [OF assms(1), where i = i])
      (auto simp: installed_pd_def same_at_def same_conf_def wf_queues_def wf_var_def)
qed

definition create_accepted :: "VardisProtocolData \<Rightarrow> VarCreateT \<Rightarrow> bool" where
  "create_accepted pd c \<longleftrightarrow>
     (let s = create_spec c; v = upd_value (create_update c) in
      \<not> (used pd (spec_varId s)
           \<and> timestamp_ge (db_creationTime (entry pd (spec_varId s))) (spec_creationTime s))
      \<and> spec_prodId s \<noteq> ownNodeIdentifier pd
      \<and> mb_length (spec_descr s) \<le> maxDescriptionLength pd \<and> mb_length (spec_descr s) > 0
      \<and> mb_length v \<le> maxValueLength pd \<and> mb_length v > 0
      \<and> spec_repCnt s \<le> maxRepetitions pd \<and> spec_repCnt s > 0)"

definition created_entry :: "TimeStampT \<Rightarrow> VarCreateT \<Rightarrow> DBEntry" where
  "created_entry now c =
     (let s = create_spec c in
      \<lparr>db_varId = spec_varId s, db_prodId = spec_prodId s, db_repCnt = spec_repCnt s,
       db_creationTime = spec_creationTime s, db_timeout = spec_timeout s,
       db_seqno = upd_seqno (create_update c), db_tStamp = now, db_countUpdate = 0,
       db_countCreate = spec_repCnt s, db_countDelete = 0, db_isDeleted = False\<rparr>)"

lemma process_var_create_ignore:
  "\<not> create_accepted pd c \<Longrightarrow> process_var_create now c pd = (Inr (), pd)"
  by (auto simp: process_var_create_def create_accepted_def Let_def)

lemma mb_bytes_bounds:
  "wf_StringT d \<Longrightarrow> mb_length d > 0 \<Longrightarrow> mb_length d \<le> n \<Longrightarrow> wf_bytes n (mb_bytes d)"
  "wf_VarValueT v \<Longrightarrow> mb_length v > 0 \<Longrightarrow> mb_length v \<le> n \<Longrightarrow> wf_bytes n (mb_bytes v)"
  using wf_StringT_length [of d] wf_VarValueT_fields [of v]
  by (auto simp: wf_bytes_def wf_StringT_def)

lemma process_var_create_accept:
  assumes wf: "wf_pd pd" and c: "create_accepted pd c" "wf_VarCreateT c"
  obtains pd' where "process_var_create now c pd = (Inr (), pd')" "wf_pd pd'" "same_conf pd pd'"
    "used pd' = (used pd)(spec_varId (create_spec c) := True)"
    "entry pd' = (entry pd)(spec_varId (create_spec c) := created_entry now c)"
    "val_of pd' = (val_of pd)(spec_varId (create_spec c) := mb_bytes (upd_value (create_update c)))"
    "descr_of pd' = (descr_of pd)(spec_varId (create_spec c) := mb_bytes (spec_descr (create_spec c)))"
    "global_state (vardis_store pd') = global_state (vardis_store pd)"
proof -
  let ?s = "create_spec c" and ?v = "upd_value (create_update c)"
  let ?i = "spec_varId ?s" and ?d = "spec_descr ?s"
  have w: "wf_StringT ?d" "wf_VarValueT ?v"
    using c(2) by (simp_all add: wf_VarCreateT_def wf_VarSpecT_def wf_VarUpdateT_def)
  have l: "mb_length ?d > 0" "mb_length ?d \<le> maxDescriptionLength pd" "mb_length ?v > 0"
    "mb_length ?v \<le> maxValueLength pd" "spec_repCnt ?s \<le> maxRepetitions pd" "0 < spec_repCnt ?s"
    using c(1) by (simp_all add: create_accepted_def Let_def)
  have b: "mb_length ?d \<le> descrBufferSize (vardis_store pd)" "mb_length ?v \<le> valueBufferSize (vardis_store pd)"
    using l wf_pdD(3) [OF wf] by (simp_all add: wf_conf_def)
  obtain st' where st':
    "\<forall>k :: unit \<Rightarrow> (VardisProtocolData, unit) action.
       bindE (if \<not> used pd ?i then on_store (allocate_identifier ?i) else retE ()) (\<lambda>_.
         bindE (on_store (set_db_entry ?i (created_entry now c))) (\<lambda>_.
         bindE (on_store (update_description ?i ?d)) (\<lambda>_.
         bindE (on_store (update_value ?i ?v)) k))) pd = k () (pd\<lparr>vardis_store := st'\<rparr>)"
    "wf_store st'" "(\<lambda>j. is_used (id_states st' j)) = (used pd)(?i := True)"
    "(\<lambda>j. db_entry (id_states st' j)) = (entry pd)(?i := created_entry now c)"
    "(\<lambda>j. value_bytes j st') = (val_of pd)(?i := mb_bytes ?v)"
    "(\<lambda>j. descr_bytes j st') = (descr_of pd)(?i := mb_bytes ?d)"
    "valueBufferSize st' = valueBufferSize (vardis_store pd)"
    "descrBufferSize st' = descrBufferSize (vardis_store pd)"
    "global_state st' = global_state (vardis_store pd)"
    using install_variable [OF wf_pdD(1) [OF wf] refl w(1) l(1) b(1) w(2) l(3) b(2),
        where i = ?i and e = "created_entry now c"] by blast
  let ?pd' = "installed_pd ?i st' pd"
  have "process_var_create now c pd = (Inr (), ?pd')"
    using c(1) st'(1)
    by (auto simp: process_var_create_def create_accepted_def created_entry_def Let_def queue_op_defs
        bindE_def [of "modifyE f" for f] bindE_def [of "getE f" for f] installed_pd_def)
  moreover have "wf_pd ?pd' \<and> same_conf pd ?pd'"
    by (rule installed_pd_wf [OF wf st'(2-8)])
      (use l in \<open>auto simp: wf_entry_def created_entry_def Let_def mb_bytes_bounds w\<close>)
  ultimately show ?thesis
    by (intro that [of ?pd']) (use st' in \<open>simp_all add: installed_pd_def\<close>)
qed

lemma process_var_create_wf:
  assumes "wf_pd pd" "wf_VarCreateT c"
  shows "\<exists>pd'. process_var_create now c pd = (Inr (), pd') \<and> wf_pd pd' \<and> same_conf pd pd'"
proof (cases "create_accepted pd c")
  case True
  show ?thesis by (rule process_var_create_accept [OF assms(1) True assms(2), of now]) blast
next
  case False
  with assms show ?thesis by (simp add: process_var_create_ignore)
qed

section \<open>Preservation: service requests and scrubbing\<close>

definition own_entry :: "TimeStampT \<Rightarrow> TimeStampT \<Rightarrow> NodeIdentifierT \<Rightarrow> VarSpecT \<Rightarrow> DBEntry" where
  "own_entry now1 now2 own s =
     \<lparr>db_varId = spec_varId s, db_prodId = own, db_repCnt = spec_repCnt s, db_creationTime = now1,
      db_timeout = spec_timeout s, db_seqno = 0, db_tStamp = now2, db_countUpdate = 0,
      db_countCreate = spec_repCnt s, db_countDelete = 0, db_isDeleted = False\<rparr>"

text \<open>The checks of a create request in the order of the code, and the status they give.\<close>

definition create_status :: "VardisProtocolData \<Rightarrow> RTDB_Create_Request \<Rightarrow> DcpStatus" where
  "create_status pd r =
     (let s = crq_spec r; v = crq_value r in
      if \<not> get_vardis_isactive (vardis_store pd) then VARDIS_STATUS_INACTIVE
      else if used pd (spec_varId s) \<and> db_prodId (entry pd (spec_varId s)) \<noteq> ownNodeIdentifier pd
        then VARDIS_STATUS_VARIABLE_EXISTS
      else if mb_length (spec_descr s) > maxDescriptionLength pd
        then VARDIS_STATUS_VARIABLE_DESCRIPTION_TOO_LONG
      else if mb_length v > maxValueLength pd then VARDIS_STATUS_VALUE_TOO_LONG
      else if mb_length v = 0 then VARDIS_STATUS_EMPTY_VALUE
      else if spec_repCnt s = 0 \<or> spec_repCnt s > maxRepetitions pd then VARDIS_STATUS_ILLEGAL_REPCOUNT
      else VARDIS_STATUS_OK)"

lemma handle_rtdb_create_refused:
  "create_status pd r \<noteq> VARDIS_STATUS_OK \<Longrightarrow> handle_rtdb_create_request now1 now2 r pd
     = (Inr (RTDB_Create_Confirm (create_status pd r) (spec_varId (crq_spec r))), pd)"
  by (auto simp: handle_rtdb_create_request_def create_status_def Let_def split: if_splits)

lemma create_status_OK:
  "create_status pd r = VARDIS_STATUS_OK \<longleftrightarrow>
     get_vardis_isactive (vardis_store pd)
     \<and> (used pd (spec_varId (crq_spec r)) \<longrightarrow>
          db_prodId (entry pd (spec_varId (crq_spec r))) = ownNodeIdentifier pd)
     \<and> mb_length (spec_descr (crq_spec r)) \<le> maxDescriptionLength pd
     \<and> 0 < mb_length (crq_value r) \<and> mb_length (crq_value r) \<le> maxValueLength pd
     \<and> 0 < spec_repCnt (crq_spec r) \<and> spec_repCnt (crq_spec r) \<le> maxRepetitions pd"
  by (auto simp: create_status_def Let_def vardis_status_defs word_neq_0_conv)

lemma handle_rtdb_create_accept:
  assumes wf: "wf_pd pd" and ok: "create_status pd r = VARDIS_STATUS_OK" "wf_RTDB_Create_Request r"
    and ne: "mb_length (spec_descr (crq_spec r)) > 0"
  obtains pd' where
    "handle_rtdb_create_request now1 now2 r pd
       = (Inr (RTDB_Create_Confirm VARDIS_STATUS_OK (spec_varId (crq_spec r))), pd')"
    "wf_pd pd'" "same_conf pd pd'"
    "used pd' = (used pd)(spec_varId (crq_spec r) := True)"
    "entry pd' = (entry pd)(spec_varId (crq_spec r) :=
       own_entry now1 now2 (ownNodeIdentifier pd) (crq_spec r))"
    "val_of pd' = (val_of pd)(spec_varId (crq_spec r) := mb_bytes (crq_value r))"
    "descr_of pd' = (descr_of pd)(spec_varId (crq_spec r) := mb_bytes (spec_descr (crq_spec r)))"
    "get_vardis_isactive (vardis_store pd')"
proof -
  let ?s = "crq_spec r" and ?v = "crq_value r"
  let ?i = "spec_varId ?s" and ?d = "spec_descr ?s"
  let ?e = "own_entry now1 now2 (ownNodeIdentifier pd) ?s"
  have w: "wf_StringT ?d" "wf_VarValueT ?v"
    using ok(2) by (simp_all add: wf_RTDB_Create_Request_def wf_VarSpecT_def)
  note l = ok(1) [unfolded create_status_OK]
  have b: "mb_length ?d \<le> descrBufferSize (vardis_store pd)" "mb_length ?v \<le> valueBufferSize (vardis_store pd)"
    "mb_length ?v > 0"
    using l wf_pdD(3) [OF wf] by (simp_all add: wf_conf_def)
  obtain st' where st':
    "\<forall>k :: unit \<Rightarrow> (VardisProtocolData, RTDB_Create_Confirm) action.
       bindE (if \<not> used pd ?i then on_store (allocate_identifier ?i) else retE ()) (\<lambda>_.
         bindE (on_store (set_db_entry ?i ?e)) (\<lambda>_.
         bindE (on_store (update_description ?i ?d)) (\<lambda>_.
         bindE (on_store (update_value ?i ?v)) k))) pd = k () (pd\<lparr>vardis_store := st'\<rparr>)"
    "wf_store st'" "(\<lambda>j. is_used (id_states st' j)) = (used pd)(?i := True)"
    "(\<lambda>j. db_entry (id_states st' j)) = (entry pd)(?i := ?e)"
    "(\<lambda>j. value_bytes j st') = (val_of pd)(?i := mb_bytes ?v)"
    "(\<lambda>j. descr_bytes j st') = (descr_of pd)(?i := mb_bytes ?d)"
    "valueBufferSize st' = valueBufferSize (vardis_store pd)"
    "descrBufferSize st' = descrBufferSize (vardis_store pd)"
    "global_state st' = global_state (vardis_store pd)"
    using install_variable [OF wf_pdD(1) [OF wf] refl w(1) ne b(1) w(2) b(3,2),
        where i = ?i and e = ?e] by blast
  let ?pd1 = "installed_pd ?i st' pd"
  let ?pd' = "?pd1\<lparr>vardis_store := modify_stats (\<lambda>s. s\<lparr>count_handle_rtdb_create :=
      count_handle_rtdb_create s + 1\<rparr>) (vardis_store ?pd1)\<rparr>"
  have "handle_rtdb_create_request now1 now2 r pd = (Inr (RTDB_Create_Confirm VARDIS_STATUS_OK ?i), ?pd')"
    using l st'(1)
    by (auto simp: handle_rtdb_create_request_def own_entry_def Let_def queue_op_defs count_stats_def
        bindE_def [of "modifyE f" for f] installed_pd_def)
  moreover have wf1: "wf_pd ?pd1 \<and> same_conf pd ?pd1"
    by (rule installed_pd_wf [OF wf st'(2-8)])
      (use l ne in \<open>auto simp: wf_entry_def own_entry_def mb_bytes_bounds w\<close>)
  moreover have "wf_pd ?pd'" by (rule wf_pd_stats) (use wf1 in blast)
  moreover have "same_conf pd ?pd'" using wf1 by (simp add: same_conf_def)
  ultimately show ?thesis
    by (intro that [of ?pd']) (use st' l in \<open>simp_all add: installed_pd_def get_vardis_isactive_def\<close>)
qed

text \<open>
  An empty description passes the checks of the handler and makes the store throw, after
  the identifier has been allocated and its entry written: the exception reaches the
  caller and the queues still hold what they held.
\<close>

lemma handle_rtdb_create_empty_description:
  assumes wf: "wf_pd pd" and ok: "create_status pd r = VARDIS_STATUS_OK"
    and e: "mb_length (spec_descr (crq_spec r)) = 0"
  shows "\<exists>st'. handle_rtdb_create_request now1 now2 r pd
      = (Inl VardisStoreException, pd\<lparr>vardis_store := st'\<rparr>)
    \<and> is_used (id_states st' (spec_varId (crq_spec r)))
    \<and> db_entry (id_states st' (spec_varId (crq_spec r)))
        = own_entry now1 now2 (ownNodeIdentifier pd) (crq_spec r)"
proof -
  let ?s = "crq_spec r" and ?i = "spec_varId (crq_spec r)"
  let ?e = "own_entry now1 now2 (ownNodeIdentifier pd) ?s"
  obtain st1 where st1: "(if \<not> used pd ?i then allocate_identifier ?i else retE ()) (vardis_store pd) = (Inr (), st1)"
    "is_used (id_states st1 ?i)"
  proof (cases "used pd ?i")
    case True
    then show ?thesis by (intro that [of "vardis_store pd"]) simp_all
  next
    case False
    from avs.allocate [OF wf_pdD(1) [OF wf] False] obtain st' where
      a: "allocate_identifier ?i (vardis_store pd) = (Inr (), st')"
      and u: "(\<lambda>j. is_used (id_states st' j)) = (used pd)(?i := True)" by blast
    show ?thesis
      using a fun_cong [OF u, of ?i] False by (intro that [of st']) simp_all
  qed
  have 1: "(if \<not> used pd ?i then on_store (allocate_identifier ?i) else retE ()) pd
      = (Inr (), pd\<lparr>vardis_store := st1\<rparr>)"
    using st1(1) by (cases "used pd ?i") (simp_all add: on_store_def zoomE_def)
  let ?st2 = "modify_db_entry ?i (\<lambda>_. ?e) st1"
  have 2: "on_store (set_db_entry ?i ?e) (pd\<lparr>vardis_store := st1\<rparr>) = (Inr (), pd\<lparr>vardis_store := ?st2\<rparr>)"
    using st1(2) by (simp add: on_store_def zoomE_def set_db_entry_spec)
  have 3: "on_store (update_description ?i (spec_descr ?s)) (pd\<lparr>vardis_store := ?st2\<rparr>)
      = (Inl VardisStoreException, pd\<lparr>vardis_store := ?st2\<rparr>)"
    using e by (simp add: on_store_def zoomE_def update_description_empty)
  note l = ok [unfolded create_status_OK]
  have "handle_rtdb_create_request now1 now2 r pd = (Inl VardisStoreException, pd\<lparr>vardis_store := ?st2\<rparr>)"
    using l 1 2 3 unfolding own_entry_def
    by (auto simp: handle_rtdb_create_request_def Let_def bindE_Inr bindE_Inl)
  then show ?thesis using st1(2) by (intro exI [of _ ?st2]) simp
qed

definition update_status :: "VardisProtocolData \<Rightarrow> RTDB_Update_Request \<Rightarrow> DcpStatus" where
  "update_status pd r =
     (if \<not> get_vardis_isactive (vardis_store pd) then VARDIS_STATUS_INACTIVE
      else if \<not> used pd (urq_varId r) then VARDIS_STATUS_VARIABLE_DOES_NOT_EXIST
      else if db_prodId (entry pd (urq_varId r)) \<noteq> ownNodeIdentifier pd then VARDIS_STATUS_NOT_PRODUCER
      else if db_isDeleted (entry pd (urq_varId r)) then VARDIS_STATUS_VARIABLE_IS_DELETED
      else if mb_length (urq_value r) > maxValueLength pd then VARDIS_STATUS_VALUE_TOO_LONG
      else if mb_length (urq_value r) = 0 then VARDIS_STATUS_EMPTY_VALUE
      else VARDIS_STATUS_OK)"

lemma update_status_OK:
  "update_status pd r = VARDIS_STATUS_OK \<longleftrightarrow>
     get_vardis_isactive (vardis_store pd) \<and> used pd (urq_varId r)
     \<and> db_prodId (entry pd (urq_varId r)) = ownNodeIdentifier pd
     \<and> \<not> db_isDeleted (entry pd (urq_varId r))
     \<and> 0 < mb_length (urq_value r) \<and> mb_length (urq_value r) \<le> maxValueLength pd"
  by (auto simp: update_status_def vardis_status_defs)

lemma seqno_succ: "(of_nat (Suc (unat n) mod Suc VarSeqnoT_max_val) :: VarSeqnoT) = n + 1"
proof -
  have "(of_nat (m mod 256) :: VarSeqnoT) = of_nat m" for m
    by (simp add: word_of_nat_eq_iff take_bit_eq_mod)
  from this [of "Suc (unat n)"] show ?thesis by (simp add: VarSeqnoT_max_val_def add.commute)
qed

definition own_updated_pd ::
  "TimeStampT \<Rightarrow> RTDB_Update_Request \<Rightarrow> VardisProtocolData \<Rightarrow> VardisProtocolData" where
  "own_updated_pd now r pd =
     pd\<lparr>vardis_store := modify_stats (\<lambda>s. s\<lparr>count_handle_rtdb_update := count_handle_rtdb_update s + 1\<rparr>)
          (put_value (urq_varId r) (mb_bytes (urq_value r))
            (modify_db_entry (urq_varId r) (\<lambda>e. e\<lparr>db_seqno := db_seqno e + 1, db_countUpdate := db_repCnt e,
               db_tStamp := now\<rparr>) (vardis_store pd))),
        updateQ := q_insert (urq_varId r) (updateQ pd)\<rparr>"

lemma byte_length_compare:
  assumes "wf_VarValueT v" "n \<le> 255"
  shows "(of_nat (mb_length v) :: VarLenT) > of_nat n \<longleftrightarrow> mb_length v > n"
    and "(of_nat (mb_length v) :: VarLenT) = 0 \<longleftrightarrow> mb_length v = 0"
  using wf_VarValueT_fields [OF assms(1)] assms(2)
  by (simp_all add: word_less_nat_alt unat_eq_0 [symmetric])

lemma handle_rtdb_update_spec:
  assumes "wf_pd pd" "wf_RTDB_Update_Request r"
  shows "handle_rtdb_update_request now r pd =
    (Inr (RTDB_Update_Confirm (update_status pd r) (urq_varId r)),
     if update_status pd r = VARDIS_STATUS_OK then own_updated_pd now r pd else pd)"
proof -
  have v: "wf_VarValueT (urq_value r)" using assms(2) by (simp add: wf_RTDB_Update_Request_def)
  have m: "maxValueLength pd \<le> 255" "maxValueLength pd \<le> valueBufferSize (vardis_store pd)"
    using wf_pdD(3) [OF assms(1)] by (simp_all add: wf_conf_def)
  note cmp = byte_length_compare [OF v m(1)]
  show ?thesis
  proof (cases "update_status pd r = VARDIS_STATUS_OK")
    case False
    then show ?thesis
      using cmp by (auto simp: handle_rtdb_update_request_def update_status_def exec_simps)
  next
    case True
    then have l: "mb_length (urq_value r) \<noteq> 0" "mb_length (urq_value r) \<le> valueBufferSize (vardis_store pd)"
      using m(2) by (auto simp: update_status_OK)
    note T = True [unfolded update_status_OK]
    have "handle_rtdb_update_request now r pd
        = (Inr (RTDB_Update_Confirm VARDIS_STATUS_OK (urq_varId r)), own_updated_pd now r pd)"
      using T cmp l v
      by (simp add: handle_rtdb_update_request_def exec_simps on_store_update_value own_updated_pd_def
          q_insert_def seqno_succ)
    with True show ?thesis by simp
  qed
qed

lemma own_updated_pd_wf:
  assumes "wf_pd pd" "update_status pd r = VARDIS_STATUS_OK" "wf_RTDB_Update_Request r"
  shows "wf_pd (own_updated_pd now r pd)"
proof -
  have v: "wf_VarValueT (urq_value r)" using assms(3) by (simp add: wf_RTDB_Update_Request_def)
  have m: "maxValueLength pd \<le> valueBufferSize (vardis_store pd)"
    using wf_pdD(3) [OF assms(1)] by (simp_all add: wf_conf_def)
  show ?thesis
    using assms(2) m wf_VarValueT_fields [OF v] wf_pdD [OF assms(1)] wf_queuesD [OF wf_pdD(2) [OF assms(1)]]
      wf_pdD(5) [OF assms(1), of "urq_varId r"]
    by (intro wf_pdI_local [OF assms(1), where i = "urq_varId r"])
      (auto simp: own_updated_pd_def update_status_OK local_simps value_bytes_put_value wf_bytes_def)
qed

definition delete_status :: "VardisProtocolData \<Rightarrow> RTDB_Delete_Request \<Rightarrow> DcpStatus" where
  "delete_status pd r =
     (if \<not> get_vardis_isactive (vardis_store pd) then VARDIS_STATUS_INACTIVE
      else if \<not> used pd (irq_varId r) then VARDIS_STATUS_VARIABLE_DOES_NOT_EXIST
      else if db_prodId (entry pd (irq_varId r)) \<noteq> ownNodeIdentifier pd then VARDIS_STATUS_NOT_PRODUCER
      else if db_isDeleted (entry pd (irq_varId r)) then VARDIS_STATUS_VARIABLE_IS_DELETED
      else VARDIS_STATUS_OK)"

text \<open>Marking a variable as deleted: by a request, a received record or the scrubber.\<close>

definition deleted_pd :: "VarIdT \<Rightarrow> VardisProtocolData \<Rightarrow> VardisProtocolData" where
  "deleted_pd i pd =
     pd\<lparr>vardis_store := modify_db_entry i (\<lambda>e. e\<lparr>db_isDeleted := True, db_countUpdate := 0,
          db_countCreate := 0, db_countDelete := db_repCnt e\<rparr>) (vardis_store pd),
        createQ := q_remove i (createQ pd), deleteQ := q_insert i (q_remove i (deleteQ pd)),
        updateQ := q_remove i (updateQ pd), summaryQ := q_remove i (summaryQ pd),
        reqUpdQ := q_remove i (reqUpdQ pd), reqCreateQ := q_remove i (reqCreateQ pd)\<rparr>"

definition with_stats ::
  "(VardisProtocolStatistics \<Rightarrow> VardisProtocolStatistics) \<Rightarrow> VardisProtocolData \<Rightarrow> VardisProtocolData" where
  "with_stats g pd = pd\<lparr>vardis_store := modify_stats g (vardis_store pd)\<rparr>"

lemma deleted_pd_wf:
  assumes "wf_pd pd" "used pd i"
  shows "wf_pd (deleted_pd i pd)" "same_conf pd (deleted_pd i pd)"
  using assms(2) wf_pdD [OF assms(1)] wf_queuesD [OF wf_pdD(2) [OF assms(1)]] wf_pdD(5) [OF assms(1), of i]
  by (intro wf_pdI_local [OF assms(1), where i = i])
    (auto simp: deleted_pd_def local_simps)

lemma with_stats_wf: "wf_pd pd \<Longrightarrow> wf_pd (with_stats g pd)" "same_conf pd (with_stats g pd)"
  by (simp_all add: with_stats_def wf_pd_stats same_conf_def)

lemma mark_orders:
  "(\<lambda>e. e\<lparr>db_isDeleted := True, db_countDelete := db_repCnt e, db_countCreate := 0, db_countUpdate := 0\<rparr>)
   = (\<lambda>e. e\<lparr>db_isDeleted := True, db_countUpdate := 0, db_countCreate := 0, db_countDelete := db_repCnt e\<rparr>)"
  "(\<lambda>e. e\<lparr>db_isDeleted := True, db_countUpdate := 0, db_countDelete := db_repCnt e, db_countCreate := 0\<rparr>)
   = (\<lambda>e. e\<lparr>db_isDeleted := True, db_countUpdate := 0, db_countCreate := 0, db_countDelete := db_repCnt e\<rparr>)"
  by (rule ext; simp)+

lemma handle_rtdb_delete_spec:
  "handle_rtdb_delete_request r pd =
    (Inr (RTDB_Delete_Confirm (delete_status pd r) (irq_varId r)),
     if delete_status pd r = VARDIS_STATUS_OK
     then with_stats (\<lambda>s. s\<lparr>count_handle_rtdb_delete := count_handle_rtdb_delete s + 1\<rparr>) (deleted_pd (irq_varId r) pd)
     else pd)"
proof (cases "delete_status pd r = VARDIS_STATUS_OK")
  case False
  then show ?thesis by (auto simp: handle_rtdb_delete_request_def delete_status_def exec_simps)
next
  case True
  then have "get_vardis_isactive (vardis_store pd)" "used pd (irq_varId r)"
    "db_prodId (entry pd (irq_varId r)) = ownNodeIdentifier pd" "\<not> db_isDeleted (entry pd (irq_varId r))"
    by (auto simp: delete_status_def vardis_status_defs split: if_splits)
  then have "handle_rtdb_delete_request r pd
      = (Inr (RTDB_Delete_Confirm VARDIS_STATUS_OK (irq_varId r)),
         with_stats (\<lambda>s. s\<lparr>count_handle_rtdb_delete := count_handle_rtdb_delete s + 1\<rparr>) (deleted_pd (irq_varId r) pd))"
    by (simp add: handle_rtdb_delete_request_def exec_simps with_stats_def deleted_pd_def mark_orders)
  with True show ?thesis by simp
qed

lemma process_var_delete_spec:
  "process_var_delete d pd =
    (Inr (), if used pd (del_varId d) \<and> \<not> db_isDeleted (entry pd (del_varId d))
                \<and> db_prodId (entry pd (del_varId d)) \<noteq> ownNodeIdentifier pd
             then with_stats (\<lambda>s. s\<lparr>count_process_var_delete := count_process_var_delete s + 1\<rparr>) (deleted_pd (del_varId d) pd)
             else pd)"
  by (auto simp: process_var_delete_def exec_simps with_stats_def deleted_pd_def)

definition timed_out :: "TimeStampT \<Rightarrow> DBEntry \<Rightarrow> bool" where
  "timed_out curr_time e \<longleftrightarrow> \<not> db_isDeleted e \<and> db_timeout e \<noteq> 0
     \<and> db_timeout e < ucast (milliseconds_passed_since curr_time (db_tStamp e))"

lemma scrub_variable_spec:
  "used pd i \<Longrightarrow> scrub_variable t i pd =
     (Inr (), if timed_out t (entry pd i) then deleted_pd i pd else pd)"
  by (auto simp: scrub_variable_def exec_simps timed_out_def deleted_pd_def not_le
      mark_orders)

definition read_status :: "VardisProtocolData \<Rightarrow> RTDB_Read_Request \<Rightarrow> DcpStatus" where
  "read_status pd r =
     (if \<not> get_vardis_isactive (vardis_store pd) then VARDIS_STATUS_INACTIVE
      else if \<not> used pd (irq_varId r) then VARDIS_STATUS_VARIABLE_DOES_NOT_EXIST
      else if db_isDeleted (entry pd (irq_varId r)) then VARDIS_STATUS_VARIABLE_IS_DELETED
      else VARDIS_STATUS_OK)"

lemma handle_rtdb_read_spec:
  assumes "wf_pd pd"
  shows "handle_rtdb_read_request r pd =
    (if read_status pd r = VARDIS_STATUS_OK then
       (Inr \<lparr>cnf_type_status = (stVardis_RTDB_Read, VARDIS_STATUS_OK), cnf_varId = irq_varId r,
             rcf_value = vv_of (val_of pd (irq_varId r)), rcf_tStamp = db_tStamp (entry pd (irq_varId r))\<rparr>,
        with_stats (\<lambda>s. s\<lparr>count_handle_rtdb_read := count_handle_rtdb_read s + 1\<rparr>) pd)
     else (Inr (RTDB_Read_Confirm (read_status pd r) (irq_varId r)), pd))"
proof (cases "read_status pd r = VARDIS_STATUS_OK")
  case False
  then show ?thesis by (auto simp: handle_rtdb_read_request_def read_status_def exec_simps)
next
  case True
  then have t: "get_vardis_isactive (vardis_store pd)" "used pd (irq_varId r)"
    "\<not> db_isDeleted (entry pd (irq_varId r))"
    by (auto simp: read_status_def vardis_status_defs split: if_splits)
  let ?bs = "val_of pd (irq_varId r)"
  have "length ?bs < 256"
    using wf_pdD(5) [OF assms, of "irq_varId r"] t(2) by (simp add: wf_var_def wf_bytes_def)
  then have v: "VarValueT_of (of_nat (length ?bs)) (Some ?bs) = vv_of ?bs" by (rule VarValueT_of_vv_of)
  have "on_store (read_value (irq_varId r)) pd = (Inr (new_VarValueT\<lparr>do_delete := False,
      mb_data := Some ?bs, mb_length := length ?bs, vv_len := of_nat (length ?bs)\<rparr>), pd)"
    using t(2) by (simp add: on_store_def zoomE_def read_value_ok)
  with t v True show ?thesis
    by (simp add: handle_rtdb_read_request_def exec_simps RTDB_Read_Confirm_value_def with_stats_def
        del: length_value_bytes)
qed

end
