(* ===== verification/VardisScrub.thy ===== *)
theory VardisScrub
  imports VardisInvariant
begin

text \<open>
  The scrubber: a round in batches is the plain loop over the active variables, every
  variable is visited once, and exactly those whose timeout has passed are marked.
\<close>

section \<open>Batches\<close>

text \<open>The number of variables a batch visits, counted as the loop counts.\<close>

fun batch_len :: "nat \<Rightarrow> nat \<Rightarrow> nat" where
  "batch_len i numvars = (if i < min 50 numvars then Suc (batch_len (i + 1) (numvars - 1)) else 0)"

declare batch_len.simps [simp del]

lemma batch_len_le: "batch_len i n \<le> n"
proof (induction i n rule: batch_len.induct)
  case (1 i n)
  then show ?case by (subst batch_len.simps) auto
qed

lemma batch_len_pos: "0 < n \<Longrightarrow> 0 < batch_len 0 n"
  by (subst batch_len.simps) simp

lemma scrub_batch_eq:
  "n \<le> length vs \<Longrightarrow> scrub_batch t i vs n =
     bindE (forE (scrub_variable t) (take (batch_len i n) vs))
       (\<lambda>_. retE (drop (batch_len i n) vs, n - batch_len i n))"
proof (induction i n arbitrary: vs rule: batch_len.induct)
  case (1 i n)
  show ?case
  proof (cases "i < min 50 n")
    case True
    then obtain v vs' where vs: "vs = v # vs'" using 1(2) by (cases vs) auto
    have "scrub_batch t i vs n = bindE (scrub_variable t v) (\<lambda>_. scrub_batch t (i + 1) vs' (n - 1))"
      using True vs by (subst scrub_batch.simps) simp
    also have "scrub_batch t (i + 1) vs' (n - 1) =
        bindE (forE (scrub_variable t) (take (batch_len (i + 1) (n - 1)) vs'))
          (\<lambda>_. retE (drop (batch_len (i + 1) (n - 1)) vs', n - 1 - batch_len (i + 1) (n - 1)))"
      using 1(1) [OF True] 1(2) vs by (simp del: retE_simp)
    moreover have "batch_len i n = Suc (batch_len (i + 1) (n - 1))"
      using True by (subst batch_len.simps) simp
    ultimately show ?thesis by (simp add: vs forE_Cons bindE_assoc del: retE_simp)
  next
    case False
    then have "batch_len i n = 0" by (subst batch_len.simps) simp
    then show ?thesis using False by (subst scrub_batch.simps) (auto simp: forE_Nil)
  qed
qed

lemma scrub_batches_eq:
  "length vs = n \<Longrightarrow> n \<le> fuel \<Longrightarrow>
   scrub_batches fuel t vs n = bindE (forE (scrub_variable t) vs) (\<lambda>_. retE True)"
proof (induction fuel arbitrary: vs n)
  case 0
  then show ?case by (simp add: forE_Nil)
next
  case (Suc fuel)
  let ?k = "batch_len 0 n"
  show ?case
  proof (cases "n > 0")
    case True
    then have k: "0 < ?k" "?k \<le> n" using batch_len_pos batch_len_le by auto
    then have "scrub_batches fuel t (drop ?k vs) (n - ?k) =
        bindE (forE (scrub_variable t) (drop ?k vs)) (\<lambda>_. retE True)"
      using Suc.prems by (intro Suc.IH) simp_all
    then have "scrub_batches (Suc fuel) t vs n =
        bindE (forE (scrub_variable t) (take ?k vs @ drop ?k vs)) (\<lambda>_. retE True)"
      using True Suc.prems unfolding forE_append
      by (simp add: scrub_batch_eq bindE_assoc)
    then show ?thesis by (simp only: append_take_drop_id)
  next
    case False
    with Suc.prems show ?thesis by (simp add: forE_Nil)
  qed
qed

lemma scrub_round_eq:
  assumes "finite (active_variables pd)"
  shows "scrub_round t pd =
    bindE (forE (scrub_variable t) (sorted_list_of_set (active_variables pd))) (\<lambda>_. retE True) pd"
  using assms by (simp add: scrub_round_def Let_def scrub_batches_eq)

section \<open>The effect of a round\<close>

lemma deleted_pd_same_at: "i \<noteq> j \<Longrightarrow> wf_queues pd \<Longrightarrow> same_at j pd (deleted_pd i pd)"
  by (auto simp: same_at_def deleted_pd_def wf_queues_def)

lemma same_at_trans: "same_at j a b \<Longrightarrow> same_at j b c \<Longrightarrow> same_at j a c"
  by (simp add: same_at_def)

lemma same_at_refl [simp]: "same_at j a a"
  by (simp add: same_at_def)

lemma same_conf_trans: "same_conf a b \<Longrightarrow> same_conf b c \<Longrightarrow> same_conf a c"
  by (simp add: same_conf_def)

lemma scrub_loop:
  assumes "wf_pd pd" "\<forall>i \<in> set vs. used pd i" "distinct vs"
  shows "\<exists>pd'. forE (scrub_variable t) vs pd = (Inr (), pd') \<and> wf_pd pd' \<and> same_conf pd pd'
    \<and> (\<forall>j. j \<notin> set vs \<or> \<not> timed_out t (entry pd j) \<longrightarrow> same_at j pd pd')
    \<and> (\<forall>j \<in> set vs. timed_out t (entry pd j) \<longrightarrow> same_at j (deleted_pd j pd) pd')"
  using assms
proof (induction vs arbitrary: pd)
  case Nil
  then show ?case by simp
next
  case (Cons v vs)
  let ?pd1 = "if timed_out t (entry pd v) then deleted_pd v pd else pd"
  have q: "wf_queues pd" using Cons.prems(1) by (simp add: wf_pdD)
  have 1: "scrub_variable t v pd = (Inr (), ?pd1)" using Cons.prems(2) by (simp add: scrub_variable_spec)
  have wf1: "wf_pd ?pd1" "same_conf pd ?pd1"
    using Cons.prems deleted_pd_wf [of pd v] by auto
  have e1: "same_at j pd ?pd1" if "j \<noteq> v" for j
    using deleted_pd_same_at [OF _ q] that by simp
  have u: "\<forall>i \<in> set vs. used ?pd1 i" using Cons.prems(2) by (simp add: deleted_pd_def)
  from Cons.IH [OF wf1(1) u] Cons.prems(3) obtain pd' where
    pd': "forE (scrub_variable t) vs ?pd1 = (Inr (), pd')" "wf_pd pd'" "same_conf ?pd1 pd'"
    and keep: "\<And>j. j \<notin> set vs \<or> \<not> timed_out t (entry ?pd1 j) \<Longrightarrow> same_at j ?pd1 pd'"
    and mark: "\<And>j. j \<in> set vs \<Longrightarrow> timed_out t (entry ?pd1 j) \<Longrightarrow> same_at j (deleted_pd j ?pd1) pd'"
    by auto
  have v: "v \<notin> set vs" using Cons.prems(3) by simp
  have en: "entry ?pd1 j = entry pd j" if "j \<noteq> v" for j
    using e1 [OF that] by (simp add: same_at_def)
  have "same_at j pd pd'" if "j \<notin> set (v # vs) \<or> \<not> timed_out t (entry pd j)" for j
  proof (cases "j = v")
    case True
    then show ?thesis using that keep [of v] v by auto
  next
    case False
    then show ?thesis using that same_at_trans [OF e1 keep] en by auto
  qed
  moreover have "same_at j (deleted_pd j pd) pd'" if "j \<in> set (v # vs)" "timed_out t (entry pd j)" for j
  proof (cases "j = v")
    case True
    then show ?thesis using that keep [of v] v by auto
  next
    case False
    have "same_at j (deleted_pd j ?pd1) pd'" using that False en mark by auto
    moreover have "same_at j (deleted_pd j pd) (deleted_pd j ?pd1)"
      using e1 [OF False] q wf_queuesD [OF wf_pdD(2) [OF wf1(1)]] wf_queuesD [OF q]
      unfolding same_at_def deleted_pd_def by auto
    ultimately show ?thesis by (rule same_at_trans [rotated])
  qed
  ultimately show ?case
    using 1 pd' same_conf_trans [OF wf1(2) pd'(3)]
    by (intro exI [of _ pd']) auto
qed

end
