(* ===== verification/VardisTransmit.thy ===== *)
theory VardisTransmit
  imports VardisScrub
begin

text \<open>
  Construction of VarDis payloads: the \<open>addVar...\<close> and \<open>makeICType...\<close> methods of
  \<open>dcp/vardis/vardis_protocol_data.cc\<close> and \<open>construct_payload\<close> of
  \<open>vardis_transmitter.cc\<close>.  The six container methods share a contract, the locale
  \<open>container\<close>: a round of their loop takes the front of a queue and appends one record.
\<close>

section \<open>State of a transmission\<close>

record tx_state =
  tx_pd :: VardisProtocolData
  tx_area :: aa
  tx_containers :: nat

definition on_pd :: "(VardisProtocolData, 'a) action \<Rightarrow> (tx_state, 'a) action" where
  "on_pd = zoomE tx_pd (\<lambda>pd s. s\<lparr>tx_pd := pd\<rparr>)"

definition on_area :: "(aa, 'a) action \<Rightarrow> (tx_state, 'a) action" where
  "on_area = zoomE tx_area (\<lambda>a s. s\<lparr>tx_area := a\<rparr>)"

fun timesE :: "nat \<Rightarrow> ('s, unit) action \<Rightarrow> ('s, unit) action" where
  "timesE 0 m = retE ()"
| "timesE (Suc n) m = bindE m (\<lambda>_. timesE n m)"

section \<open>Sizes\<close>

definition instructionSizeVarCreate :: "VardisProtocolData \<Rightarrow> VarIdT \<Rightarrow> nat" where
  "instructionSizeVarCreate pd varId = VarSpecT_fixed_size + size_of_description varId (vardis_store pd)
     + VarUpdateT_fixed_size + size_of_value varId (vardis_store pd)"

definition instructionSizeVarSummary :: "VarIdT \<Rightarrow> nat" where
  "instructionSizeVarSummary varId = VarSummT_fixed_size"

definition instructionSizeVarUpdate :: "VardisProtocolData \<Rightarrow> VarIdT \<Rightarrow> nat" where
  "instructionSizeVarUpdate pd varId = VarUpdateT_fixed_size + size_of_value varId (vardis_store pd)"

definition instructionSizeVarDelete :: "VarIdT \<Rightarrow> nat" where
  "instructionSizeVarDelete varId = VarDeleteT_fixed_size"

definition instructionSizeReqCreate :: "VarIdT \<Rightarrow> nat" where
  "instructionSizeReqCreate varId = VarReqCreateT_fixed_size"

definition instructionSizeReqUpdate :: "VarIdT \<Rightarrow> nat" where
  "instructionSizeReqUpdate varId = VarReqUpdateT_fixed_size"

fun number_fitting_loop :: "VarIdT list \<Rightarrow> nat \<Rightarrow> (VarIdT \<Rightarrow> nat) \<Rightarrow> nat \<Rightarrow> nat \<Rightarrow> nat" where
  "number_fitting_loop [] available instructionSize numberRecordsToAdd bytesToBeAdded = numberRecordsToAdd"
| "number_fitting_loop (v # vs) available instructionSize numberRecordsToAdd bytesToBeAdded =
     (if bytesToBeAdded + instructionSize v \<le> available \<and> numberRecordsToAdd < ICHeaderT_max_records
      then number_fitting_loop vs available instructionSize (numberRecordsToAdd + 1)
             (bytesToBeAdded + instructionSize v)
      else numberRecordsToAdd)"

definition numberFittingRecords :: "VarIdT list \<Rightarrow> aa \<Rightarrow> (VarIdT \<Rightarrow> nat) \<Rightarrow> nat" where
  "numberFittingRecords q area instructionSize =
     min (number_fitting_loop q (bytes_available area) instructionSize 0 ICHeaderT_fixed_size)
         ICHeaderT_max_records"

section \<open>Single records\<close>

definition addVarCreate :: "VarIdT \<Rightarrow> DBEntry \<Rightarrow> (tx_state, unit) action" where
  "addVarCreate varId theEntry =
     bindE (on_pd (on_store (read_description (db_varId theEntry)))) (\<lambda>descr.
     bindE (on_pd (on_store (read_value (db_varId theEntry)))) (\<lambda>value.
     on_area (ser_VarCreateT
       \<lparr>create_spec = \<lparr>spec_varId = db_varId theEntry, spec_prodId = db_prodId theEntry,
                        spec_repCnt = db_repCnt theEntry, spec_creationTime = db_creationTime theEntry,
                        spec_timeout = db_timeout theEntry, spec_descr = descr\<rparr>,
        create_update = \<lparr>upd_varId = db_varId theEntry, upd_seqno = db_seqno theEntry,
                          upd_value = value\<rparr>\<rparr>)))"

definition addVarSummary :: "VarIdT \<Rightarrow> DBEntry \<Rightarrow> (tx_state, unit) action" where
  "addVarSummary varId theEntry =
     on_area (ser_VarSummT \<lparr>summ_varId = varId, summ_seqno = db_seqno theEntry\<rparr>)"

definition addVarUpdate :: "VarIdT \<Rightarrow> DBEntry \<Rightarrow> (tx_state, unit) action" where
  "addVarUpdate varId theEntry =
     bindE (on_pd (on_store (read_value (db_varId theEntry)))) (\<lambda>value.
     on_area (ser_VarUpdateT \<lparr>upd_varId = db_varId theEntry, upd_seqno = db_seqno theEntry,
                               upd_value = value\<rparr>))"

definition addVarDelete :: "VarIdT \<Rightarrow> (tx_state, unit) action" where
  "addVarDelete varId = on_area (ser_VarDeleteT \<lparr>del_varId = varId\<rparr>)"

definition addVarReqCreate :: "VarIdT \<Rightarrow> (tx_state, unit) action" where
  "addVarReqCreate varId = on_area (ser_VarReqCreateT \<lparr>reqcreate_varId = varId\<rparr>)"

definition addVarReqUpdate :: "VarIdT \<Rightarrow> DBEntry \<Rightarrow> (tx_state, unit) action" where
  "addVarReqUpdate varId theEntry =
     on_area (ser_VarReqUpdateT \<lparr>requpd_updSpec = \<lparr>summ_varId = varId, summ_seqno = db_seqno theEntry\<rparr>\<rparr>)"

section \<open>Containers\<close>

text \<open>
  \<open>nextVar\<close> is a reference into the store, so that the record is built from the entry
  as it is after the counter has been decremented.
\<close>

definition get_entry :: "VarIdT \<Rightarrow> (tx_state, DBEntry) action" where
  "get_entry varId = getE (\<lambda>s. db_entry (id_states (vardis_store (tx_pd s)) varId))"

definition on_createQ :: "(VarIdQueue, 'a) action \<Rightarrow> (tx_state, 'a) action" where
  "on_createQ m = on_pd (zoomE createQ (\<lambda>q pd. pd\<lparr>createQ := q\<rparr>) m)"
definition on_summaryQ :: "(VarIdQueue, 'a) action \<Rightarrow> (tx_state, 'a) action" where
  "on_summaryQ m = on_pd (zoomE summaryQ (\<lambda>q pd. pd\<lparr>summaryQ := q\<rparr>) m)"
definition on_updateQ :: "(VarIdQueue, 'a) action \<Rightarrow> (tx_state, 'a) action" where
  "on_updateQ m = on_pd (zoomE updateQ (\<lambda>q pd. pd\<lparr>updateQ := q\<rparr>) m)"
definition on_deleteQ :: "(VarIdQueue, 'a) action \<Rightarrow> (tx_state, 'a) action" where
  "on_deleteQ m = on_pd (zoomE deleteQ (\<lambda>q pd. pd\<lparr>deleteQ := q\<rparr>) m)"
definition on_reqUpdQ :: "(VarIdQueue, 'a) action \<Rightarrow> (tx_state, 'a) action" where
  "on_reqUpdQ m = on_pd (zoomE reqUpdQ (\<lambda>q pd. pd\<lparr>reqUpdQ := q\<rparr>) m)"
definition on_reqCreateQ :: "(VarIdQueue, 'a) action \<Rightarrow> (tx_state, 'a) action" where
  "on_reqCreateQ m = on_pd (zoomE reqCreateQ (\<lambda>q pd. pd\<lparr>reqCreateQ := q\<rparr>) m)"

definition create_round :: "(tx_state, unit) action" where
  "create_round =
     bindE (on_createQ q_front) (\<lambda>nextVarId.
     bindE (on_createQ q_pop_front) (\<lambda>_.
     bindE (on_pd (on_store (get_db_entry_ref nextVarId))) (\<lambda>nextVar.
     if db_countCreate nextVar \<le> 0 then throwE VardisTransmitException
     else
       bindE (on_pd (modify_entry nextVarId (\<lambda>e. e\<lparr>db_countCreate := db_countCreate e - 1\<rparr>))) (\<lambda>_.
       bindE (get_entry nextVarId) (\<lambda>nextVar.
       bindE (addVarCreate nextVarId nextVar) (\<lambda>_.
       if db_countCreate nextVar > 0 then on_pd (createQ_insert nextVarId) else retE ()))))))"

definition makeICTypeCreateVariables :: "(tx_state, unit) action" where
  "makeICTypeCreateVariables s =
     (let pd = tx_pd s; area = tx_area s in
      if q_empty (createQ pd)
         \<or> instructionSizeVarCreate pd (hd (queue (createQ pd))) + ICHeaderT_fixed_size > bytes_available area
      then (Inr (), s)
      else
        (let numberRecordsToAdd = numberFittingRecords (queue (createQ pd)) area (instructionSizeVarCreate pd) in
         if numberRecordsToAdd \<le> 0 then (Inl VardisTransmitException, s)
         else
           bindE (on_area (ser_ICHeaderT \<lparr>icType = ICTYPE_CREATE_VARIABLES, icNumRecords = of_nat numberRecordsToAdd\<rparr>)) (\<lambda>_.
           bindE (timesE numberRecordsToAdd create_round) (\<lambda>_.
           modifyE (\<lambda>s. s\<lparr>tx_containers := tx_containers s + 1\<rparr>))) s))"

definition summary_round :: "(tx_state, unit) action" where
  "summary_round =
     bindE (on_summaryQ q_front) (\<lambda>nextVarId.
     bindE (on_summaryQ q_pop_front) (\<lambda>_.
     bindE (on_pd (summaryQ_insert nextVarId)) (\<lambda>_.
     bindE (on_pd (on_store (get_db_entry_ref nextVarId))) (\<lambda>theNextEntry.
     addVarSummary nextVarId theNextEntry))))"

definition makeICTypeSummaries :: "(tx_state, unit) action" where
  "makeICTypeSummaries s =
     (let pd = tx_pd s; area = tx_area s in
      if q_empty (summaryQ pd)
         \<or> instructionSizeVarSummary (hd (queue (summaryQ pd))) + ICHeaderT_fixed_size > bytes_available area
         \<or> maxSummaries pd = 0
      then (Inr (), s)
      else
        (let numberRecordsToAdd = min (numberFittingRecords (queue (summaryQ pd)) area instructionSizeVarSummary)
                                      (unat (maxSummaries pd)) in
         if numberRecordsToAdd \<le> 0 then (Inl VardisTransmitException, s)
         else
           bindE (on_area (ser_ICHeaderT \<lparr>icType = ICTYPE_SUMMARIES, icNumRecords = of_nat numberRecordsToAdd\<rparr>)) (\<lambda>_.
           bindE (timesE numberRecordsToAdd summary_round) (\<lambda>_.
           modifyE (\<lambda>s. s\<lparr>tx_containers := tx_containers s + 1\<rparr>))) s))"

definition update_round :: "(tx_state, unit) action" where
  "update_round =
     bindE (on_updateQ q_front) (\<lambda>nextVarId.
     bindE (on_updateQ q_pop_front) (\<lambda>_.
     bindE (on_pd (on_store (get_db_entry_ref nextVarId))) (\<lambda>nextVar.
     if db_countUpdate nextVar \<le> 0 then throwE VardisTransmitException
     else
       bindE (on_pd (modify_entry nextVarId (\<lambda>e. e\<lparr>db_countUpdate := db_countUpdate e - 1\<rparr>))) (\<lambda>_.
       bindE (get_entry nextVarId) (\<lambda>nextVar.
       bindE (addVarUpdate nextVarId nextVar) (\<lambda>_.
       if db_countUpdate nextVar > 0 then on_pd (updateQ_insert nextVarId) else retE ()))))))"

definition makeICTypeUpdates :: "(tx_state, unit) action" where
  "makeICTypeUpdates s =
     (let pd = tx_pd s; area = tx_area s in
      if q_empty (updateQ pd)
         \<or> instructionSizeVarUpdate pd (hd (queue (updateQ pd))) + ICHeaderT_fixed_size > bytes_available area
      then (Inr (), s)
      else
        (let numberRecordsToAdd = numberFittingRecords (queue (updateQ pd)) area (instructionSizeVarUpdate pd) in
         if numberRecordsToAdd \<le> 0 then (Inl VardisTransmitException, s)
         else
           bindE (on_area (ser_ICHeaderT \<lparr>icType = ICTYPE_UPDATES, icNumRecords = of_nat numberRecordsToAdd\<rparr>)) (\<lambda>_.
           bindE (timesE numberRecordsToAdd update_round) (\<lambda>_.
           modifyE (\<lambda>s. s\<lparr>tx_containers := tx_containers s + 1\<rparr>))) s))"

definition delete_round :: "(tx_state, unit) action" where
  "delete_round =
     bindE (on_deleteQ q_front) (\<lambda>nextVarId.
     bindE (on_deleteQ q_pop_front) (\<lambda>_.
     bindE (throw_if VardisTransmitException (\<lambda>s. \<not> variableExists nextVarId (tx_pd s))) (\<lambda>_.
     bindE (on_pd (on_store (get_db_entry_ref nextVarId))) (\<lambda>nextVar.
     if db_countDelete nextVar \<le> 0 then throwE VardisTransmitException
     else
       bindE (on_pd (modify_entry nextVarId (\<lambda>e. e\<lparr>db_countDelete := db_countDelete e - 1\<rparr>))) (\<lambda>_.
       bindE (get_entry nextVarId) (\<lambda>nextVar.
       bindE (addVarDelete nextVarId) (\<lambda>_.
       if db_countDelete nextVar > 0 then on_pd (deleteQ_insert nextVarId) else retE ())))))))"

definition makeICTypeDeleteVariables :: "(tx_state, unit) action" where
  "makeICTypeDeleteVariables s =
     (let pd = tx_pd s; area = tx_area s in
      if q_empty (deleteQ pd)
         \<or> instructionSizeVarDelete (hd (queue (deleteQ pd))) + ICHeaderT_fixed_size > bytes_available area
      then (Inr (), s)
      else
        (let numberRecordsToAdd = numberFittingRecords (queue (deleteQ pd)) area instructionSizeVarDelete in
         if numberRecordsToAdd \<le> 0 then (Inl VardisTransmitException, s)
         else
           bindE (on_area (ser_ICHeaderT \<lparr>icType = ICTYPE_DELETE_VARIABLES, icNumRecords = of_nat numberRecordsToAdd\<rparr>)) (\<lambda>_.
           bindE (timesE numberRecordsToAdd delete_round) (\<lambda>_.
           modifyE (\<lambda>s. s\<lparr>tx_containers := tx_containers s + 1\<rparr>))) s))"

definition requpdate_round :: "(tx_state, unit) action" where
  "requpdate_round =
     bindE (on_reqUpdQ q_front) (\<lambda>nextVarId.
     bindE (on_reqUpdQ q_pop_front) (\<lambda>_.
     bindE (on_pd (on_store (get_db_entry_ref nextVarId))) (\<lambda>nextVar.
     addVarReqUpdate nextVarId nextVar)))"

definition makeICTypeRequestVarUpdates :: "(tx_state, unit) action" where
  "makeICTypeRequestVarUpdates s =
     (let pd = tx_pd s; area = tx_area s in
      if q_empty (reqUpdQ pd)
         \<or> instructionSizeReqUpdate (hd (queue (reqUpdQ pd))) + ICHeaderT_fixed_size > bytes_available area
      then (Inr (), s)
      else
        (let numberRecordsToAdd = numberFittingRecords (queue (reqUpdQ pd)) area instructionSizeReqUpdate in
         if numberRecordsToAdd \<le> 0 then (Inl VardisTransmitException, s)
         else
           bindE (on_area (ser_ICHeaderT \<lparr>icType = ICTYPE_REQUEST_VARUPDATES, icNumRecords = of_nat numberRecordsToAdd\<rparr>)) (\<lambda>_.
           bindE (timesE numberRecordsToAdd requpdate_round) (\<lambda>_.
           modifyE (\<lambda>s. s\<lparr>tx_containers := tx_containers s + 1\<rparr>))) s))"

definition reqcreate_round :: "(tx_state, unit) action" where
  "reqcreate_round =
     bindE (on_reqCreateQ q_front) (\<lambda>nextVarId.
     bindE (on_reqCreateQ q_pop_front) (\<lambda>_.
     addVarReqCreate nextVarId))"

definition makeICTypeRequestVarCreates :: "(tx_state, unit) action" where
  "makeICTypeRequestVarCreates s =
     (let pd = tx_pd s; area = tx_area s in
      if q_empty (reqCreateQ pd)
         \<or> instructionSizeReqCreate (hd (queue (reqCreateQ pd))) + ICHeaderT_fixed_size > bytes_available area
      then (Inr (), s)
      else
        (let numberRecordsToAdd = numberFittingRecords (queue (reqCreateQ pd)) area instructionSizeReqCreate in
         if numberRecordsToAdd \<le> 0 then (Inl VardisTransmitException, s)
         else
           bindE (on_area (ser_ICHeaderT \<lparr>icType = ICTYPE_REQUEST_VARCREATES, icNumRecords = of_nat numberRecordsToAdd\<rparr>)) (\<lambda>_.
           bindE (timesE numberRecordsToAdd reqcreate_round) (\<lambda>_.
           modifyE (\<lambda>s. s\<lparr>tx_containers := tx_containers s + 1\<rparr>))) s))"

text \<open>
  \<open>construct_payload\<close>: the containers in their order; any exception sets the exit flag
  and the number of containers to zero.  The result is the exit flag.  Whether the
  store's lock is taken once or per container makes no difference to this sequence.
\<close>

definition make_containers :: "(tx_state, unit) action" where
  "make_containers =
     bindE makeICTypeCreateVariables (\<lambda>_.
     bindE makeICTypeDeleteVariables (\<lambda>_.
     bindE makeICTypeRequestVarCreates (\<lambda>_.
     bindE makeICTypeSummaries (\<lambda>_.
     bindE makeICTypeUpdates (\<lambda>_.
     makeICTypeRequestVarUpdates)))))"

definition construct_payload :: "bool \<Rightarrow> (tx_state, bool) action" where
  "construct_payload exitFlag s =
     (case make_containers s of
        (Inr _, s') \<Rightarrow> (Inr exitFlag, s')
      | (Inl _, s') \<Rightarrow> (Inr True, s'\<lparr>tx_containers := 0\<rparr>))"

end
