(* ===== verification/VardisContainers.thy ===== *)
theory VardisContainers
  imports VardisTransmit
begin

text \<open>
  The container methods of \<open>VardisTransmit\<close> against their contract: in a well-formed
  state none of them throws, each appends a header and the records of a prefix of its
  queue, as many as fit, and keeps the state well-formed.
\<close>

section \<open>How many records fit\<close>

definition records_size :: "(VarIdT \<Rightarrow> nat) \<Rightarrow> VarIdT list \<Rightarrow> nat" where
  "records_size f vs = sum_list (map f vs)"

lemma records_size_simps [simp]:
  "records_size f [] = 0" "records_size f (v # vs) = f v + records_size f vs"
  "records_size f (xs @ ys) = records_size f xs + records_size f ys"
  by (simp_all add: records_size_def)

lemma number_fitting_loop_mono: "num \<le> number_fitting_loop vs av f num bytes"
  by (induction vs arbitrary: num bytes) (auto intro: order_trans [OF le_SucI [OF order_refl]] split: if_splits dest: Suc_leD)

lemma number_fitting_loop_spec:
  assumes "num \<le> 255" "bytes \<le> av \<or> num = 0"
  shows "\<exists>n. number_fitting_loop vs av f num bytes = num + n \<and> n \<le> length vs \<and> num + n \<le> 255
    \<and> (0 < n \<longrightarrow> bytes + records_size f (take n vs) \<le> av)
    \<and> (n < length vs \<and> num + n < 255 \<longrightarrow> av < bytes + records_size f (take (Suc n) vs))"
  using assms
proof (induction vs arbitrary: num bytes)
  case (Cons v vs)
  show ?case
  proof (cases "bytes + f v \<le> av \<and> num < 255")
    case True
    from Cons.IH [of "num + 1" "bytes + f v"] True obtain n where
      n: "number_fitting_loop vs av f (num + 1) (bytes + f v) = num + 1 + n" "n \<le> length vs" "num + 1 + n \<le> 255"
      "0 < n \<longrightarrow> bytes + f v + records_size f (take n vs) \<le> av"
      "n < length vs \<and> num + 1 + n < 255 \<longrightarrow> av < bytes + f v + records_size f (take (Suc n) vs)"
      by auto
    have "bytes + records_size f (take (Suc n) (v # vs)) \<le> av"
      using n(4) True by (cases "n = 0") auto
    with n True show ?thesis
      by (intro exI [of _ "Suc n"]) (auto simp: ICHeaderT_max_records_def)
  next
    case False
    with Cons.prems show ?thesis by (intro exI [of _ 0]) (auto simp: ICHeaderT_max_records_def)
  qed
qed auto

text \<open>
  \<open>numberFittingRecords\<close> returns the largest number of records, up to 255, that fit
  behind a header.
\<close>

lemma numberFittingRecords_spec:
  fixes q area f
  defines "n \<equiv> numberFittingRecords q area f"
  shows "n \<le> length q" "n \<le> 255" "0 < n \<Longrightarrow> 2 + records_size f (take n q) \<le> bytes_available area"
    "n < length q \<Longrightarrow> n < 255 \<Longrightarrow> bytes_available area < 2 + records_size f (take (Suc n) q)"
proof -
  have fs: "ICHeaderT_fixed_size = 2" "ICHeaderT_max_records = 255"
    by (simp_all add: ICHeaderT_fixed_size_def ICHeaderT_max_records_def)
  obtain k where k: "number_fitting_loop q (bytes_available area) f 0 2 = k" "k \<le> length q" "k \<le> 255"
    "0 < k \<longrightarrow> 2 + records_size f (take k q) \<le> bytes_available area"
    "k < length q \<and> k < 255 \<longrightarrow> bytes_available area < 2 + records_size f (take (Suc k) q)"
    using number_fitting_loop_spec [of 0 2 "bytes_available area" q f] by auto
  have "n = k" unfolding n_def numberFittingRecords_def fs k(1) using k(3) by simp
  with k show "n \<le> length q" "n \<le> 255" "0 < n \<Longrightarrow> 2 + records_size f (take n q) \<le> bytes_available area"
    "n < length q \<Longrightarrow> n < 255 \<Longrightarrow> bytes_available area < 2 + records_size f (take (Suc n) q)"
    by auto
qed

lemma numberFittingRecords_pos:
  "q \<noteq> [] \<Longrightarrow> f (hd q) + 2 \<le> bytes_available area \<Longrightarrow> 0 < numberFittingRecords q area f"
  using numberFittingRecords_spec(4) [of q area f]
  by (cases q) (auto simp: not_less intro!: gr0I)

section \<open>The contract of a container\<close>

locale container =
  fixes round :: "(tx_state, unit) action"
    and Q :: "VardisProtocolData \<Rightarrow> VarIdT list"
    and rec :: "VardisProtocolData \<Rightarrow> VarIdT \<Rightarrow> u8 list"
    and eff :: "VarIdT \<Rightarrow> VardisProtocolData \<Rightarrow> VardisProtocolData"
  assumes distinct: "wf_pd pd \<Longrightarrow> distinct (Q pd)"
    and round: "wf_pd pd \<Longrightarrow> wf_aa a \<Longrightarrow> Q pd = x # xs \<Longrightarrow> length (rec pd x) \<le> bytes_available a
      \<Longrightarrow> round \<lparr>tx_pd = pd, tx_area = a, tx_containers = c\<rparr>
          = (Inr (), \<lparr>tx_pd = eff x pd, tx_area = aa_append (rec pd x) a, tx_containers = c\<rparr>)"
    and eff_wf: "wf_pd pd \<Longrightarrow> Q pd = x # xs \<Longrightarrow> wf_pd (eff x pd)"
    and eff_conf: "wf_pd pd \<Longrightarrow> Q pd = x # xs \<Longrightarrow> same_conf pd (eff x pd)"
    and eff_queue: "wf_pd pd \<Longrightarrow> Q pd = x # xs \<Longrightarrow> \<exists>zs. Q (eff x pd) = xs @ zs"
    and eff_rec: "wf_pd pd \<Longrightarrow> Q pd = x # xs \<Longrightarrow> y \<noteq> x \<Longrightarrow> rec (eff x pd) y = rec pd y"
begin

lemma rounds:
  "wf_pd pd \<Longrightarrow> wf_aa a \<Longrightarrow> Q pd = vs @ ws \<Longrightarrow> length (concat (map (rec pd) vs)) \<le> bytes_available a
   \<Longrightarrow> timesE (length vs) round \<lparr>tx_pd = pd, tx_area = a, tx_containers = c\<rparr>
       = (Inr (), \<lparr>tx_pd = fold eff vs pd, tx_area = aa_append (concat (map (rec pd) vs)) a, tx_containers = c\<rparr>)
     \<and> wf_pd (fold eff vs pd) \<and> same_conf pd (fold eff vs pd)"
proof (induction vs arbitrary: pd a ws)
  case (Cons x vs)
  have q: "Q pd = x # (vs @ ws)" using Cons.prems(3) by simp
  have r: "round \<lparr>tx_pd = pd, tx_area = a, tx_containers = c\<rparr>
      = (Inr (), \<lparr>tx_pd = eff x pd, tx_area = aa_append (rec pd x) a, tx_containers = c\<rparr>)"
    using round [OF Cons.prems(1,2) q] Cons.prems(4) by simp
  obtain zs where zs: "Q (eff x pd) = vs @ (ws @ zs)"
    using eff_queue [OF Cons.prems(1) q] by auto
  have "x \<notin> set vs" using distinct [OF Cons.prems(1)] q by simp
  then have recs: "map (rec (eff x pd)) vs = map (rec pd) vs"
    by (intro map_cong refl eff_rec [OF Cons.prems(1) q]) blast
  have "timesE (length vs) round \<lparr>tx_pd = eff x pd, tx_area = aa_append (rec pd x) a, tx_containers = c\<rparr>
      = (Inr (), \<lparr>tx_pd = fold eff vs (eff x pd),
                  tx_area = aa_append (concat (map (rec (eff x pd)) vs)) (aa_append (rec pd x) a),
                  tx_containers = c\<rparr>)
    \<and> wf_pd (fold eff vs (eff x pd)) \<and> same_conf (eff x pd) (fold eff vs (eff x pd))"
    using Cons.prems(2,4) by (intro Cons.IH [OF eff_wf [OF Cons.prems(1) q] _ zs]) (auto simp: recs)
  then show ?case
    using r Cons.prems(2,4) same_conf_trans [OF eff_conf [OF Cons.prems(1) q]]
    by (simp add: recs bindE_Inr aa_append_append)
qed simp

text \<open>A header and the records of the first \<open>n\<close> elements of the queue.\<close>

lemma emit:
  assumes "wf_pd pd" "wf_aa a" "n \<le> length (Q pd)" "n \<le> 255"
    "2 + length (concat (map (rec pd) (take n (Q pd)))) \<le> bytes_available a"
  shows "bindE (on_area (ser_ICHeaderT \<lparr>icType = t, icNumRecords = of_nat n\<rparr>)) (\<lambda>_.
      bindE (timesE n round) (\<lambda>_. modifyE (\<lambda>s. s\<lparr>tx_containers := tx_containers s + 1\<rparr>)))
        \<lparr>tx_pd = pd, tx_area = a, tx_containers = c\<rparr>
    = (Inr (), \<lparr>tx_pd = fold eff (take n (Q pd)) pd,
                tx_area = aa_append (enc_ICHeaderT \<lparr>icType = t, icNumRecords = of_nat n\<rparr>
                            @ concat (map (rec pd) (take n (Q pd)))) a,
                tx_containers = c + 1\<rparr>)
    \<and> wf_pd (fold eff (take n (Q pd)) pd) \<and> same_conf pd (fold eff (take n (Q pd)) pd)"
proof -
  let ?h = "\<lparr>icType = t, icNumRecords = of_nat n\<rparr>"
  have l: "length (enc_ICHeaderT ?h) = 2" by (simp add: ICHeaderT_fixed_size_def)
  have h: "on_area (ser_ICHeaderT ?h) \<lparr>tx_pd = pd, tx_area = a, tx_containers = c\<rparr>
      = (Inr (), \<lparr>tx_pd = pd, tx_area = aa_append (enc_ICHeaderT ?h) a, tx_containers = c\<rparr>)"
    using assms(2,5) l by (simp add: on_area_def zoomE_def header_codec.ser)
  have "timesE (length (take n (Q pd))) round
        \<lparr>tx_pd = pd, tx_area = aa_append (enc_ICHeaderT ?h) a, tx_containers = c\<rparr>
      = (Inr (), \<lparr>tx_pd = fold eff (take n (Q pd)) pd,
           tx_area = aa_append (concat (map (rec pd) (take n (Q pd)))) (aa_append (enc_ICHeaderT ?h) a),
           tx_containers = c\<rparr>)
     \<and> wf_pd (fold eff (take n (Q pd)) pd) \<and> same_conf pd (fold eff (take n (Q pd)) pd)"
    using assms(2,5) l by (intro rounds [OF assms(1) _ append_take_drop_id [symmetric]]) auto
  moreover have "length (take n (Q pd)) = n" using assms(3) by simp
  ultimately show ?thesis
    using h assms(2,5) l by (simp add: bindE_Inr aa_append_append del: length_take)
qed

end

section \<open>The six containers\<close>

text \<open>The records as values, and their wire images.\<close>

definition create_record :: "VardisProtocolData \<Rightarrow> VarIdT \<Rightarrow> VarCreateT" where
  "create_record pd i =
     \<lparr>create_spec = \<lparr>spec_varId = i, spec_prodId = db_prodId (entry pd i), spec_repCnt = db_repCnt (entry pd i),
        spec_creationTime = db_creationTime (entry pd i), spec_timeout = db_timeout (entry pd i),
        spec_descr = mb_of (descr_of pd i)\<rparr>,
      create_update = \<lparr>upd_varId = i, upd_seqno = db_seqno (entry pd i), upd_value = vv_of (val_of pd i)\<rparr>\<rparr>"

definition update_record :: "VardisProtocolData \<Rightarrow> VarIdT \<Rightarrow> VarUpdateT" where
  "update_record pd i = \<lparr>upd_varId = i, upd_seqno = db_seqno (entry pd i), upd_value = vv_of (val_of pd i)\<rparr>"

definition summary_record :: "VardisProtocolData \<Rightarrow> VarIdT \<Rightarrow> VarSummT" where
  "summary_record pd i = \<lparr>summ_varId = i, summ_seqno = db_seqno (entry pd i)\<rparr>"

definition requpdate_record :: "VardisProtocolData \<Rightarrow> VarIdT \<Rightarrow> VarReqUpdateT" where
  "requpdate_record pd i = \<lparr>requpd_updSpec = summary_record pd i\<rparr>"

definition take_create :: "VarIdT \<Rightarrow> VardisProtocolData \<Rightarrow> VardisProtocolData" where
  "take_create i pd = pd\<lparr>
     vardis_store := modify_db_entry i (\<lambda>e. e\<lparr>db_countCreate := db_countCreate e - 1\<rparr>) (vardis_store pd),
     createQ := (if db_countCreate (entry pd i) - 1 > 0 then q_insert i (q_remove i (createQ pd))
                 else q_remove i (createQ pd))\<rparr>"

definition take_update :: "VarIdT \<Rightarrow> VardisProtocolData \<Rightarrow> VardisProtocolData" where
  "take_update i pd = pd\<lparr>
     vardis_store := modify_db_entry i (\<lambda>e. e\<lparr>db_countUpdate := db_countUpdate e - 1\<rparr>) (vardis_store pd),
     updateQ := (if db_countUpdate (entry pd i) - 1 > 0 then q_insert i (q_remove i (updateQ pd))
                 else q_remove i (updateQ pd))\<rparr>"

definition take_delete :: "VarIdT \<Rightarrow> VardisProtocolData \<Rightarrow> VardisProtocolData" where
  "take_delete i pd = pd\<lparr>
     vardis_store := modify_db_entry i (\<lambda>e. e\<lparr>db_countDelete := db_countDelete e - 1\<rparr>) (vardis_store pd),
     deleteQ := (if db_countDelete (entry pd i) - 1 > 0 then q_insert i (q_remove i (deleteQ pd))
                 else q_remove i (deleteQ pd))\<rparr>"

definition take_summary :: "VarIdT \<Rightarrow> VardisProtocolData \<Rightarrow> VardisProtocolData" where
  "take_summary i pd = pd\<lparr>summaryQ := q_insert i (q_remove i (summaryQ pd))\<rparr>"

definition take_requpdate :: "VarIdT \<Rightarrow> VardisProtocolData \<Rightarrow> VardisProtocolData" where
  "take_requpdate i pd = pd\<lparr>reqUpdQ := q_remove i (reqUpdQ pd)\<rparr>"

definition take_reqcreate :: "VarIdT \<Rightarrow> VardisProtocolData \<Rightarrow> VardisProtocolData" where
  "take_reqcreate i pd = pd\<lparr>reqCreateQ := q_remove i (reqCreateQ pd)\<rparr>"

lemmas on_tx_simps = on_pd_def on_area_def zoomE_def on_createQ_def on_summaryQ_def on_updateQ_def
  on_deleteQ_def on_reqUpdQ_def on_reqCreateQ_def get_entry_def on_store_get_entry

text \<open>A value that points into the store is serialized like a copy of its bytes.\<close>

lemma ser_VarValueT_ref:
  assumes "length bs < 256"
  shows "ser_VarValueT (new_VarValueT\<lparr>do_delete := False, mb_data := Some bs, mb_length := length bs,
      vv_len := of_nat (length bs)\<rparr>) = ser_VarValueT (vv_of bs)"
  using assms of_nat_u8_pos [of "length bs"]
  by (cases "bs = []")
    (simp_all add: ser_VarValueT_def vv_of_def mb_of_def new_VarValueT_def new_MemBlock_def MemBlock.defs)

lemma ser_StringT_ref:
  "ser_StringT (new_MemBlock\<lparr>do_delete := False, mb_data := Some bs, mb_length := length bs\<rparr>)
   = ser_StringT (mb_of bs)"
  by (simp add: ser_StringT_def mb_of_def new_MemBlock_def)

lemma wf_varD:
  assumes "wf_pd pd" "used pd i"
  shows "wf_entry (maxRepetitions pd) i (entry pd i)" "db_varId (entry pd i) = i"
    "wf_bytes (maxValueLength pd) (val_of pd i)" "wf_bytes (maxDescriptionLength pd) (descr_of pd i)"
    "length (val_of pd i) < 256" "length (descr_of pd i) < 256"
    "wf_VarValueT (vv_of (val_of pd i))" "wf_StringT (mb_of (descr_of pd i))"
  using wf_pdD(5) [OF assms(1), of i] assms(2)
  by (simp_all add: wf_var_def wf_entry_def wf_bytes_def del: length_value_bytes length_descr_bytes)

lemma queue_used:
  assumes "wf_pd pd"
  shows "in_q i (createQ pd) \<Longrightarrow> used pd i" "in_q i (updateQ pd) \<Longrightarrow> used pd i"
    "in_q i (deleteQ pd) \<Longrightarrow> used pd i" "in_q i (summaryQ pd) \<Longrightarrow> used pd i" "in_q i (reqUpdQ pd) \<Longrightarrow> used pd i"
  using wf_pdD(5) [OF assms, of i] by (auto simp: wf_var_def split: if_splits)

lemma queue_counts:
  assumes "wf_pd pd"
  shows "in_q i (createQ pd) \<Longrightarrow> 0 < db_countCreate (entry pd i)"
    "in_q i (updateQ pd) \<Longrightarrow> 0 < db_countUpdate (entry pd i)"
    "in_q i (deleteQ pd) \<Longrightarrow> 0 < db_countDelete (entry pd i)"
  using wf_pdD(5) [OF assms, of i] by (auto simp: wf_var_def split: if_splits)

lemma byte_decr: "0 < (c :: u8) \<Longrightarrow> c \<le> m \<Longrightarrow> c - 1 \<le> m"
  by (auto simp: word_le_nat_alt word_less_nat_alt unat_diff_u8)

text \<open>Each round keeps the invariant, as an operation on the identifier it takes.\<close>

lemma take_create_wf:
  assumes "wf_pd pd" "in_q i (createQ pd)"
  shows "wf_pd (take_create i pd)"
proof -
  note u = queue_used(1) [OF assms] and c = queue_counts(1) [OF assms]
  note q = wf_queuesD [OF wf_pdD(2) [OF assms(1)]] and w = wf_pdD [OF assms(1)] and v = wf_pdD(5) [OF assms(1), of i]
  have 1: "wf_queues (take_create i pd)" "wf_store (vardis_store (take_create i pd))"
    using q w(1) by (simp_all add: take_create_def wf_queues_def)
  have 2: "same_at j pd (take_create i pd)" if "j \<noteq> i" for j
    using q that by (simp add: take_create_def same_at_def)
  have 3: "wf_var (take_create i pd) i"
    using v u c q byte_decr [OF c] by (simp add: take_create_def wf_var_def wf_entry_def word_gt_0)
  show ?thesis
    by (rule wf_pdI_local [OF assms(1), where i = i])
      (use 1 2 3 w(4) in \<open>simp_all add: take_create_def same_conf_def\<close>)
qed

lemma take_update_wf:
  assumes "wf_pd pd" "in_q i (updateQ pd)"
  shows "wf_pd (take_update i pd)"
proof -
  note u = queue_used(2) [OF assms] and c = queue_counts(2) [OF assms]
  note q = wf_queuesD [OF wf_pdD(2) [OF assms(1)]] and w = wf_pdD [OF assms(1)] and v = wf_pdD(5) [OF assms(1), of i]
  have 1: "wf_queues (take_update i pd)" "wf_store (vardis_store (take_update i pd))"
    using q w(1) by (simp_all add: take_update_def wf_queues_def)
  have 2: "same_at j pd (take_update i pd)" if "j \<noteq> i" for j
    using q that by (simp add: take_update_def same_at_def)
  have 3: "wf_var (take_update i pd) i"
    using v u c q byte_decr [OF c] by (simp add: take_update_def wf_var_def wf_entry_def word_gt_0)
  show ?thesis
    by (rule wf_pdI_local [OF assms(1), where i = i])
      (use 1 2 3 w(4) in \<open>simp_all add: take_update_def same_conf_def\<close>)
qed

lemma take_delete_wf:
  assumes "wf_pd pd" "in_q i (deleteQ pd)"
  shows "wf_pd (take_delete i pd)"
proof -
  note u = queue_used(3) [OF assms] and c = queue_counts(3) [OF assms]
  note q = wf_queuesD [OF wf_pdD(2) [OF assms(1)]] and w = wf_pdD [OF assms(1)] and v = wf_pdD(5) [OF assms(1), of i]
  have 1: "wf_queues (take_delete i pd)" "wf_store (vardis_store (take_delete i pd))"
    using q w(1) by (simp_all add: take_delete_def wf_queues_def)
  have 2: "same_at j pd (take_delete i pd)" if "j \<noteq> i" for j
    using q that by (simp add: take_delete_def same_at_def)
  have 3: "wf_var (take_delete i pd) i"
    using v u c q byte_decr [OF c] by (auto simp: take_delete_def wf_var_def wf_entry_def word_gt_0)
  show ?thesis
    by (rule wf_pdI_local [OF assms(1), where i = i])
      (use 1 2 3 w(4) in \<open>simp_all add: take_delete_def same_conf_def\<close>)
qed

lemma take_summary_wf:
  assumes "wf_pd pd" "in_q i (summaryQ pd)"
  shows "wf_pd (take_summary i pd)"
proof -
  note u = queue_used(4) [OF assms]
  note q = wf_queuesD [OF wf_pdD(2) [OF assms(1)]] and w = wf_pdD [OF assms(1)] and v = wf_pdD(5) [OF assms(1), of i]
  have 1: "wf_queues (take_summary i pd)" "wf_store (vardis_store (take_summary i pd))"
    using q w(1) by (simp_all add: take_summary_def wf_queues_def)
  have 2: "same_at j pd (take_summary i pd)" if "j \<noteq> i" for j
    using q that by (simp add: take_summary_def same_at_def)
  have 3: "wf_var (take_summary i pd) i"
    using v u q assms(2) by (simp add: take_summary_def wf_var_def wf_entry_def word_gt_0)
  show ?thesis
    by (rule wf_pdI_local [OF assms(1), where i = i])
      (use 1 2 3 w(4) in \<open>simp_all add: take_summary_def same_conf_def\<close>)
qed

lemma take_requpdate_wf:
  assumes "wf_pd pd" "in_q i (reqUpdQ pd)"
  shows "wf_pd (take_requpdate i pd)"
proof -
  note u = queue_used(5) [OF assms]
  note q = wf_queuesD [OF wf_pdD(2) [OF assms(1)]] and w = wf_pdD [OF assms(1)] and v = wf_pdD(5) [OF assms(1), of i]
  have 1: "wf_queues (take_requpdate i pd)" "wf_store (vardis_store (take_requpdate i pd))"
    using q w(1) by (simp_all add: take_requpdate_def wf_queues_def)
  have 2: "same_at j pd (take_requpdate i pd)" if "j \<noteq> i" for j
    using q that by (simp add: take_requpdate_def same_at_def)
  have 3: "wf_var (take_requpdate i pd) i"
    using v u q assms(2) by (simp add: take_requpdate_def wf_var_def wf_entry_def word_gt_0)
  show ?thesis
    by (rule wf_pdI_local [OF assms(1), where i = i])
      (use 1 2 3 w(4) in \<open>simp_all add: take_requpdate_def same_conf_def\<close>)
qed

lemma take_reqcreate_wf:
  assumes "wf_pd pd"
  shows "wf_pd (take_reqcreate i pd)"
proof -
    note q = wf_queuesD [OF wf_pdD(2) [OF assms]] and w = wf_pdD [OF assms] and v = wf_pdD(5) [OF assms, of i]
  have 1: "wf_queues (take_reqcreate i pd)" "wf_store (vardis_store (take_reqcreate i pd))"
    using q w(1) by (simp_all add: take_reqcreate_def wf_queues_def)
  have 2: "same_at j pd (take_reqcreate i pd)" if "j \<noteq> i" for j
    using q that by (simp add: take_reqcreate_def same_at_def)
  have 3: "wf_var (take_reqcreate i pd) i"
    using v q by (simp add: take_reqcreate_def wf_var_def split: if_splits)
  show ?thesis
    by (rule wf_pdI_local [OF assms, where i = i])
      (use 1 2 3 w(4) in \<open>simp_all add: take_reqcreate_def same_conf_def\<close>)
qed

lemma take_conf:
  "same_conf pd (take_create i pd)" "same_conf pd (take_update i pd)" "same_conf pd (take_delete i pd)"
  "same_conf pd (take_summary i pd)" "same_conf pd (take_requpdate i pd)" "same_conf pd (take_reqcreate i pd)"
  by (simp_all add: same_conf_def take_create_def take_update_def take_delete_def take_summary_def
      take_requpdate_def take_reqcreate_def)

lemma create_record_wf:
  assumes "wf_pd pd" "used pd i"
  shows "wf_VarCreateT (create_record pd i)"
    and "length (enc_VarCreateT (create_record pd i)) = instructionSizeVarCreate pd i"
proof -
  show w: "wf_VarCreateT (create_record pd i)"
    using wf_varD [OF assms] by (simp add: wf_VarCreateT_def wf_VarSpecT_def wf_VarUpdateT_def create_record_def)
  show "length (enc_VarCreateT (create_record pd i)) = instructionSizeVarCreate pd i"
    unfolding length_enc_VarCreateT [OF w]
    by (simp add: VarCreateT_total_size_def create_record_def instructionSizeVarCreate_def
        size_of_value_def size_of_description_def VarCreateT_fixed_size_def)
qed

lemma update_record_wf:
  assumes "wf_pd pd" "used pd i"
  shows "wf_VarUpdateT (update_record pd i)"
    and "length (enc_VarUpdateT (update_record pd i)) = instructionSizeVarUpdate pd i"
proof -
  show w: "wf_VarUpdateT (update_record pd i)"
    using wf_varD [OF assms] by (simp add: wf_VarUpdateT_def update_record_def)
  show "length (enc_VarUpdateT (update_record pd i)) = instructionSizeVarUpdate pd i"
    unfolding length_enc_VarUpdateT [OF w]
    by (simp add: VarUpdateT_total_size_def update_record_def instructionSizeVarUpdate_def size_of_value_def)
qed

lemma addVarCreate_ok:
  assumes "wf_VarCreateT (create_record (tx_pd s) i)" "length (val_of (tx_pd s) i) < 256"
    "used (tx_pd s) i" "wf_aa (tx_area s)"
    "length (enc_VarCreateT (create_record (tx_pd s) i)) \<le> bytes_available (tx_area s)"
    "db_varId e = i" "db_prodId e = db_prodId (entry (tx_pd s) i)" "db_repCnt e = db_repCnt (entry (tx_pd s) i)"
    "db_creationTime e = db_creationTime (entry (tx_pd s) i)" "db_timeout e = db_timeout (entry (tx_pd s) i)"
    "db_seqno e = db_seqno (entry (tx_pd s) i)"
  shows "addVarCreate i e s =
    (Inr (), s\<lparr>tx_area := aa_append (enc_VarCreateT (create_record (tx_pd s) i)) (tx_area s)\<rparr>)"
proof -
  have "ser_VarCreateT \<lparr>create_spec = \<lparr>spec_varId = db_varId e, spec_prodId = db_prodId e,
          spec_repCnt = db_repCnt e, spec_creationTime = db_creationTime e, spec_timeout = db_timeout e,
          spec_descr = new_MemBlock\<lparr>do_delete := False, mb_data := Some (descr_of (tx_pd s) i),
             mb_length := length (descr_of (tx_pd s) i)\<rparr>\<rparr>,
        create_update = \<lparr>upd_varId = db_varId e, upd_seqno = db_seqno e,
          upd_value = new_VarValueT\<lparr>do_delete := False, mb_data := Some (val_of (tx_pd s) i),
             mb_length := length (val_of (tx_pd s) i), vv_len := of_nat (length (val_of (tx_pd s) i))\<rparr>\<rparr>\<rparr>
      = ser_VarCreateT (create_record (tx_pd s) i)"
    using assms(6-11) ser_VarValueT_ref [OF assms(2)] ser_StringT_ref
    by (simp add: ser_VarCreateT_def ser_VarSpecT_def ser_VarUpdateT_def create_record_def
        del: length_value_bytes length_descr_bytes)
  then show ?thesis
    using assms create_codec.ser [OF assms(1,4,5)]
    by (simp add: addVarCreate_def bindE_def on_tx_simps on_store_def read_value_ok read_description_ok
        del: length_value_bytes length_descr_bytes)
qed

lemma addVarUpdate_ok:
  assumes "wf_VarUpdateT (update_record (tx_pd s) i)" "length (val_of (tx_pd s) i) < 256"
    "used (tx_pd s) i" "wf_aa (tx_area s)"
    "length (enc_VarUpdateT (update_record (tx_pd s) i)) \<le> bytes_available (tx_area s)"
    "db_varId e = i" "db_seqno e = db_seqno (entry (tx_pd s) i)"
  shows "addVarUpdate i e s =
    (Inr (), s\<lparr>tx_area := aa_append (enc_VarUpdateT (update_record (tx_pd s) i)) (tx_area s)\<rparr>)"
proof -
  have "ser_VarUpdateT \<lparr>upd_varId = db_varId e, upd_seqno = db_seqno e,
          upd_value = new_VarValueT\<lparr>do_delete := False, mb_data := Some (val_of (tx_pd s) i),
             mb_length := length (val_of (tx_pd s) i), vv_len := of_nat (length (val_of (tx_pd s) i))\<rparr>\<rparr>
      = ser_VarUpdateT (update_record (tx_pd s) i)"
    using assms(6-7) ser_VarValueT_ref [OF assms(2)]
    by (simp add: ser_VarUpdateT_def update_record_def del: length_value_bytes)
  then show ?thesis
    using assms update_codec.ser [OF assms(1,4,5)]
    by (simp add: addVarUpdate_def bindE_def on_tx_simps on_store_def read_value_ok
        del: length_value_bytes)
qed


section \<open>The rounds\<close>

lemma on_queue_front:
  assumes "wf_queues (tx_pd s)"
  shows "queue (createQ (tx_pd s)) = x # xs \<Longrightarrow> on_createQ q_front s = (Inr x, s)"
    "queue (updateQ (tx_pd s)) = x # xs \<Longrightarrow> on_updateQ q_front s = (Inr x, s)"
    "queue (deleteQ (tx_pd s)) = x # xs \<Longrightarrow> on_deleteQ q_front s = (Inr x, s)"
    "queue (summaryQ (tx_pd s)) = x # xs \<Longrightarrow> on_summaryQ q_front s = (Inr x, s)"
    "queue (reqUpdQ (tx_pd s)) = x # xs \<Longrightarrow> on_reqUpdQ q_front s = (Inr x, s)"
    "queue (reqCreateQ (tx_pd s)) = x # xs \<Longrightarrow> on_reqCreateQ q_front s = (Inr x, s)"
  using wf_queuesD [OF assms] by (simp_all add: on_tx_simps q_front_Cons)

lemma on_queue_pop:
  assumes "wf_queues (tx_pd s)"
  shows "queue (createQ (tx_pd s)) = x # xs \<Longrightarrow> on_createQ q_pop_front s =
      (Inr (), s\<lparr>tx_pd := (tx_pd s)\<lparr>createQ := q_remove x (createQ (tx_pd s))\<rparr>\<rparr>)"
    "queue (updateQ (tx_pd s)) = x # xs \<Longrightarrow> on_updateQ q_pop_front s =
      (Inr (), s\<lparr>tx_pd := (tx_pd s)\<lparr>updateQ := q_remove x (updateQ (tx_pd s))\<rparr>\<rparr>)"
    "queue (deleteQ (tx_pd s)) = x # xs \<Longrightarrow> on_deleteQ q_pop_front s =
      (Inr (), s\<lparr>tx_pd := (tx_pd s)\<lparr>deleteQ := q_remove x (deleteQ (tx_pd s))\<rparr>\<rparr>)"
    "queue (summaryQ (tx_pd s)) = x # xs \<Longrightarrow> on_summaryQ q_pop_front s =
      (Inr (), s\<lparr>tx_pd := (tx_pd s)\<lparr>summaryQ := q_remove x (summaryQ (tx_pd s))\<rparr>\<rparr>)"
    "queue (reqUpdQ (tx_pd s)) = x # xs \<Longrightarrow> on_reqUpdQ q_pop_front s =
      (Inr (), s\<lparr>tx_pd := (tx_pd s)\<lparr>reqUpdQ := q_remove x (reqUpdQ (tx_pd s))\<rparr>\<rparr>)"
    "queue (reqCreateQ (tx_pd s)) = x # xs \<Longrightarrow> on_reqCreateQ q_pop_front s =
      (Inr (), s\<lparr>tx_pd := (tx_pd s)\<lparr>reqCreateQ := q_remove x (reqCreateQ (tx_pd s))\<rparr>\<rparr>)"
  using wf_queuesD [OF assms] by (simp_all add: on_tx_simps q_pop_front_Cons)

lemma on_pd_entry:
  "used (tx_pd s) i \<Longrightarrow> on_pd (on_store (get_db_entry_ref i)) s = (Inr (entry (tx_pd s) i), s)"
  "on_pd (modify_entry i f) s =
    (Inr (), s\<lparr>tx_pd := (tx_pd s)\<lparr>vardis_store := modify_db_entry i f (vardis_store (tx_pd s))\<rparr>\<rparr>)"
  "get_entry i s = (Inr (entry (tx_pd s) i), s)"
  by (simp_all add: on_pd_def zoomE_def on_store_get_entry modify_entry_def get_entry_def)

lemma on_pd_insert:
  "on_pd (createQ_insert i) s = (Inr (), s\<lparr>tx_pd := (tx_pd s)\<lparr>createQ := q_insert i (createQ (tx_pd s))\<rparr>\<rparr>)"
  "on_pd (updateQ_insert i) s = (Inr (), s\<lparr>tx_pd := (tx_pd s)\<lparr>updateQ := q_insert i (updateQ (tx_pd s))\<rparr>\<rparr>)"
  "on_pd (deleteQ_insert i) s = (Inr (), s\<lparr>tx_pd := (tx_pd s)\<lparr>deleteQ := q_insert i (deleteQ (tx_pd s))\<rparr>\<rparr>)"
  "on_pd (summaryQ_insert i) s = (Inr (), s\<lparr>tx_pd := (tx_pd s)\<lparr>summaryQ := q_insert i (summaryQ (tx_pd s))\<rparr>\<rparr>)"
  by (simp_all add: on_pd_def zoomE_def queue_op_defs)

lemmas round_simps = on_queue_front on_queue_pop on_pd_entry on_pd_insert

lemma summary_round_ok:
  assumes "wf_pd pd" "wf_aa a" "queue (summaryQ pd) = x # xs"
    "length (enc_VarSummT (summary_record pd x)) \<le> bytes_available a"
  shows "summary_round \<lparr>tx_pd = pd, tx_area = a, tx_containers = c\<rparr> =
    (Inr (), \<lparr>tx_pd = take_summary x pd, tx_area = aa_append (enc_VarSummT (summary_record pd x)) a,
      tx_containers = c\<rparr>)"
  using assms wf_pdD(2) [OF assms(1)] queue_used(4) [OF assms(1), of x]
    summ_codec.ser [where x = "summary_record pd x" and a = a]
  by (simp add: summary_round_def bindE_def round_simps
      on_area_def zoomE_def addVarSummary_def take_summary_def summary_record_def)

lemma requpdate_round_ok:
  assumes "wf_pd pd" "wf_aa a" "queue (reqUpdQ pd) = x # xs"
    "length (enc_VarReqUpdateT (requpdate_record pd x)) \<le> bytes_available a"
  shows "requpdate_round \<lparr>tx_pd = pd, tx_area = a, tx_containers = c\<rparr> =
    (Inr (), \<lparr>tx_pd = take_requpdate x pd, tx_area = aa_append (enc_VarReqUpdateT (requpdate_record pd x)) a,
      tx_containers = c\<rparr>)"
  using assms wf_pdD(2) [OF assms(1)] queue_used(5) [OF assms(1), of x]
    requpd_codec.ser [where x = "requpdate_record pd x" and a = a]
  by (simp add: requpdate_round_def bindE_def round_simps on_area_def zoomE_def addVarReqUpdate_def take_requpdate_def
      requpdate_record_def summary_record_def)

lemma reqcreate_round_ok:
  assumes "wf_pd pd" "wf_aa a" "queue (reqCreateQ pd) = x # xs"
    "length (enc_VarReqCreateT \<lparr>reqcreate_varId = x\<rparr>) \<le> bytes_available a"
  shows "reqcreate_round \<lparr>tx_pd = pd, tx_area = a, tx_containers = c\<rparr> =
    (Inr (), \<lparr>tx_pd = take_reqcreate x pd, tx_area = aa_append (enc_VarReqCreateT \<lparr>reqcreate_varId = x\<rparr>) a,
      tx_containers = c\<rparr>)"
  using assms wf_pdD(2) [OF assms(1)] reqcreate_codec.ser [where x = "\<lparr>reqcreate_varId = x\<rparr>" and a = a]
  by (simp add: reqcreate_round_def bindE_def round_simps on_area_def zoomE_def addVarReqCreate_def take_reqcreate_def)


lemma addVarDelete_ok:
  assumes "wf_aa (tx_area s)" "length (enc_VarDeleteT \<lparr>del_varId = i\<rparr>) \<le> bytes_available (tx_area s)"
  shows "addVarDelete i s = (Inr (), s\<lparr>tx_area := aa_append (enc_VarDeleteT \<lparr>del_varId = i\<rparr>) (tx_area s)\<rparr>)"
  using assms delete_codec.ser [where x = "\<lparr>del_varId = i\<rparr>"]
  by (simp add: addVarDelete_def on_area_def zoomE_def)

lemma delete_round_ok:
  assumes "wf_pd pd" "wf_aa a" "queue (deleteQ pd) = x # xs"
    "length (enc_VarDeleteT \<lparr>del_varId = x\<rparr>) \<le> bytes_available a"
  shows "delete_round \<lparr>tx_pd = pd, tx_area = a, tx_containers = c\<rparr> =
    (Inr (), \<lparr>tx_pd = take_delete x pd, tx_area = aa_append (enc_VarDeleteT \<lparr>del_varId = x\<rparr>) a,
      tx_containers = c\<rparr>)"
proof -
  have i: "used pd x" "0 < db_countDelete (entry pd x)"
    using queue_used(3) [OF assms(1), of x] queue_counts(3) [OF assms(1), of x] assms(3) by simp_all
  then show ?thesis
    using assms(2-) wf_pdD(2) [OF assms(1)]
    by (simp add: delete_round_def bindE_def round_simps addVarDelete_ok take_delete_def word_gt_0)
qed


lemma create_round_ok:
  assumes "wf_pd pd" "wf_aa a" "queue (createQ pd) = x # xs"
    "length (enc_VarCreateT (create_record pd x)) \<le> bytes_available a"
  shows "create_round \<lparr>tx_pd = pd, tx_area = a, tx_containers = c\<rparr> =
    (Inr (), \<lparr>tx_pd = take_create x pd, tx_area = aa_append (enc_VarCreateT (create_record pd x)) a,
      tx_containers = c\<rparr>)"
proof -
  have i: "used pd x" "0 < db_countCreate (entry pd x)"
    using queue_used(1) [OF assms(1), of x] queue_counts(1) [OF assms(1), of x] assms(3) by simp_all
  define pd1 where "pd1 = pd\<lparr>createQ := q_remove x (createQ pd),
    vardis_store := modify_db_entry x (\<lambda>e. e\<lparr>db_countCreate := db_countCreate e - 1\<rparr>) (vardis_store pd)\<rparr>"
  have rec: "create_record pd1 x = create_record pd x" by (simp add: create_record_def pd1_def)
  have vd: "val_of pd1 x = val_of pd x" "descr_of pd1 x = descr_of pd x" by (simp_all add: pd1_def)
  have "addVarCreate x (entry pd1 x) \<lparr>tx_pd = pd1, tx_area = a, tx_containers = c\<rparr> =
    (Inr (), \<lparr>tx_pd = pd1, tx_area = aa_append (enc_VarCreateT (create_record pd x)) a, tx_containers = c\<rparr>)"
    using addVarCreate_ok [of "\<lparr>tx_pd = pd1, tx_area = a, tx_containers = c\<rparr>" x "entry pd1 x"]
      create_record_wf(1) [OF assms(1) i(1)] wf_varD(2,5) [OF assms(1) i(1)] i(1) assms(2,4)
    unfolding tx_state.select_convs rec vd by (simp add: pd1_def)
  then show ?thesis
    using i assms(2-) wf_pdD(2) [OF assms(1)]
    by (simp add: create_round_def bindE_def round_simps take_create_def word_gt_0 pd1_def)
qed


lemma update_round_ok:
  assumes "wf_pd pd" "wf_aa a" "queue (updateQ pd) = x # xs"
    "length (enc_VarUpdateT (update_record pd x)) \<le> bytes_available a"
  shows "update_round \<lparr>tx_pd = pd, tx_area = a, tx_containers = c\<rparr> =
    (Inr (), \<lparr>tx_pd = take_update x pd, tx_area = aa_append (enc_VarUpdateT (update_record pd x)) a,
      tx_containers = c\<rparr>)"
proof -
  have i: "used pd x" "0 < db_countUpdate (entry pd x)"
    using queue_used(2) [OF assms(1), of x] queue_counts(2) [OF assms(1), of x] assms(3) by simp_all
  define pd1 where "pd1 = pd\<lparr>updateQ := q_remove x (updateQ pd),
    vardis_store := modify_db_entry x (\<lambda>e. e\<lparr>db_countUpdate := db_countUpdate e - 1\<rparr>) (vardis_store pd)\<rparr>"
  have rec: "update_record pd1 x = update_record pd x" by (simp add: update_record_def pd1_def)
  have vd: "val_of pd1 x = val_of pd x" by (simp add: pd1_def)
  have "addVarUpdate x (entry pd1 x) \<lparr>tx_pd = pd1, tx_area = a, tx_containers = c\<rparr> =
    (Inr (), \<lparr>tx_pd = pd1, tx_area = aa_append (enc_VarUpdateT (update_record pd x)) a, tx_containers = c\<rparr>)"
    using addVarUpdate_ok [of "\<lparr>tx_pd = pd1, tx_area = a, tx_containers = c\<rparr>" x "entry pd1 x"]
      update_record_wf(1) [OF assms(1) i(1)] wf_varD(2,5) [OF assms(1) i(1)] i(1) assms(2,4)
    unfolding tx_state.select_convs rec vd by (simp add: pd1_def)
  then show ?thesis
    using i assms(2-) wf_pdD(2) [OF assms(1)]
    by (simp add: update_round_def bindE_def round_simps take_update_def word_gt_0 pd1_def)
qed


section \<open>The contract holds\<close>

lemmas take_defs = take_create_def take_update_def take_delete_def take_summary_def take_requpdate_def
  take_reqcreate_def

lemmas record_defs = create_record_def update_record_def summary_record_def requpdate_record_def

lemma queue_step:
  assumes "wf_q q" "queue q = x # xs"
  shows "queue (q_remove x q) = xs" "queue (q_insert x (q_remove x q)) = xs @ [x]"
  using queue_remove_hd [OF assms] wf_q_distinct [OF assms(1)] assms by simp_all

lemma take_queues:
  assumes "wf_pd pd"
  shows "queue (createQ pd) = x # xs \<Longrightarrow> \<exists>zs. queue (createQ (take_create x pd)) = xs @ zs"
    "queue (updateQ pd) = x # xs \<Longrightarrow> \<exists>zs. queue (updateQ (take_update x pd)) = xs @ zs"
    "queue (deleteQ pd) = x # xs \<Longrightarrow> \<exists>zs. queue (deleteQ (take_delete x pd)) = xs @ zs"
    "queue (summaryQ pd) = x # xs \<Longrightarrow> \<exists>zs. queue (summaryQ (take_summary x pd)) = xs @ zs"
    "queue (reqUpdQ pd) = x # xs \<Longrightarrow> \<exists>zs. queue (reqUpdQ (take_requpdate x pd)) = xs @ zs"
    "queue (reqCreateQ pd) = x # xs \<Longrightarrow> \<exists>zs. queue (reqCreateQ (take_reqcreate x pd)) = xs @ zs"
  using wf_queuesD [OF wf_pdD(2) [OF assms]]
  by (simp_all add: take_defs queue_step del: queue_insert queue_remove)

interpretation create_ic: container create_round "\<lambda>pd. queue (createQ pd)"
  "\<lambda>pd i. enc_VarCreateT (create_record pd i)" take_create
  by unfold_locales
    (simp_all add: wf_pdD wf_queuesD wf_q_distinct create_round_ok take_create_wf take_conf take_queues,
     simp add: take_defs record_defs)

interpretation update_ic: container update_round "\<lambda>pd. queue (updateQ pd)"
  "\<lambda>pd i. enc_VarUpdateT (update_record pd i)" take_update
  by unfold_locales
    (simp_all add: wf_pdD wf_queuesD wf_q_distinct update_round_ok take_update_wf take_conf take_queues,
     simp add: take_defs record_defs)

interpretation delete_ic: container delete_round "\<lambda>pd. queue (deleteQ pd)"
  "\<lambda>pd i. enc_VarDeleteT \<lparr>del_varId = i\<rparr>" take_delete
  by unfold_locales
    (simp_all add: wf_pdD wf_queuesD wf_q_distinct delete_round_ok take_delete_wf take_conf take_queues)

interpretation summary_ic: container summary_round "\<lambda>pd. queue (summaryQ pd)"
  "\<lambda>pd i. enc_VarSummT (summary_record pd i)" take_summary
  by unfold_locales
    (simp_all add: wf_pdD wf_queuesD wf_q_distinct summary_round_ok take_summary_wf take_conf take_queues,
     simp add: take_defs record_defs)

interpretation requpdate_ic: container requpdate_round "\<lambda>pd. queue (reqUpdQ pd)"
  "\<lambda>pd i. enc_VarReqUpdateT (requpdate_record pd i)" take_requpdate
  by unfold_locales
    (simp_all add: wf_pdD wf_queuesD wf_q_distinct requpdate_round_ok take_requpdate_wf take_conf take_queues,
     simp add: take_defs record_defs)

interpretation reqcreate_ic: container reqcreate_round "\<lambda>pd. queue (reqCreateQ pd)"
  "\<lambda>pd i. enc_VarReqCreateT \<lparr>reqcreate_varId = i\<rparr>" take_reqcreate
  by unfold_locales
    (simp_all add: wf_pdD wf_queuesD wf_q_distinct reqcreate_round_ok take_reqcreate_wf take_conf take_queues)


section \<open>The container methods\<close>

text \<open>
  The number of records a container gets, and its bytes.  \<open>lim\<close> is the bound on the
  number of records: \<open>maxSummaries\<close> for summaries, the 255 of the header otherwise.
\<close>

definition record_count :: "VarIdT list \<Rightarrow> aa \<Rightarrow> (VarIdT \<Rightarrow> nat) \<Rightarrow> nat \<Rightarrow> nat" where
  "record_count q a f lim =
     (if q = [] \<or> bytes_available a < f (hd q) + 2 \<or> lim = 0 then 0 else min (numberFittingRecords q a f) lim)"

definition container_bytes :: "u8 \<Rightarrow> u8 list list \<Rightarrow> u8 list" where
  "container_bytes t rs =
     (if rs = [] then [] else enc_ICHeaderT \<lparr>icType = t, icNumRecords = of_nat (length rs)\<rparr> @ concat rs)"

lemma record_count_bounds:
  "record_count q a f lim \<le> length q" "record_count q a f lim \<le> 255" "record_count q a f lim \<le> lim"
  using numberFittingRecords_spec(1,2) [of q a f] by (auto simp: record_count_def)

lemma record_count_0: "record_count q a f lim = 0 \<longleftrightarrow> q = [] \<or> bytes_available a < f (hd q) + 2 \<or> lim = 0"
  using numberFittingRecords_pos [of q f a] by (auto simp: record_count_def)

lemma records_size_mono: "m \<le> n \<Longrightarrow> records_size f (take m q) \<le> records_size f (take n q)"
  using records_size_simps(3) [of f "take m q" "take (n - m) (drop m q)"]
  by (simp add: take_add [symmetric])

lemma record_count_fits:
  assumes "record_count q a f lim = n" "0 < n"
  shows "2 + records_size f (take n q) \<le> bytes_available a"
proof -
  have "n \<le> numberFittingRecords q a f" "0 < numberFittingRecords q a f"
    using assms by (auto simp: record_count_def split: if_splits)
  with numberFittingRecords_spec(3) [of q a f] records_size_mono [of n _ f q] show ?thesis
    by (meson add_left_mono order_trans)
qed

lemma record_count_maximal:
  assumes "record_count q a f lim = n" "n < length q" "n < 255" "n < lim"
  shows "bytes_available a < 2 + records_size f (take (Suc n) q)"
proof (cases "n = 0")
  case True
  then show ?thesis using assms record_count_0 [of q a f lim] by (cases q) auto
next
  case False
  then have "n = numberFittingRecords q a f" using assms by (auto simp: record_count_def split: if_splits)
  then show ?thesis using numberFittingRecords_spec(4) [of q a f] assms by simp
qed

locale container_maker = container +
  fixes make :: "(tx_state, unit) action"
    and sz :: "VardisProtocolData \<Rightarrow> VarIdT \<Rightarrow> nat"
    and t :: u8
    and lim :: "VardisProtocolData \<Rightarrow> nat"
  assumes make: "wf_pd pd \<Longrightarrow> make \<lparr>tx_pd = pd, tx_area = a, tx_containers = c\<rparr> =
      (let n = record_count (Q pd) a (sz pd) (lim pd) in
       if n = 0 then (Inr (), \<lparr>tx_pd = pd, tx_area = a, tx_containers = c\<rparr>)
       else bindE (on_area (ser_ICHeaderT \<lparr>icType = t, icNumRecords = of_nat n\<rparr>)) (\<lambda>_.
         bindE (timesE n round) (\<lambda>_. modifyE (\<lambda>s. s\<lparr>tx_containers := tx_containers s + 1\<rparr>)))
           \<lparr>tx_pd = pd, tx_area = a, tx_containers = c\<rparr>)"
    and sz: "wf_pd pd \<Longrightarrow> i \<in> set (Q pd) \<Longrightarrow> length (rec pd i) = sz pd i"
begin

lemma rec_size:
  assumes "wf_pd pd" "set vs \<subseteq> set (Q pd)"
  shows "length (concat (map (rec pd) vs)) = records_size (sz pd) vs"
  using assms(2) by (induction vs) (simp_all add: sz [OF assms(1)])

lemma spec:
  fixes pd a
  defines "vs \<equiv> take (record_count (Q pd) a (sz pd) (lim pd)) (Q pd)"
  assumes "wf_pd pd" "wf_aa a"
  shows "make \<lparr>tx_pd = pd, tx_area = a, tx_containers = c\<rparr> =
      (Inr (), \<lparr>tx_pd = fold eff vs pd, tx_area = aa_append (container_bytes t (map (rec pd) vs)) a,
                tx_containers = c + (if vs = [] then 0 else 1)\<rparr>)"
    and "wf_pd (fold eff vs pd)" "same_conf pd (fold eff vs pd)"
    and "length (container_bytes t (map (rec pd) vs)) \<le> bytes_available a"
proof -
  let ?n = "record_count (Q pd) a (sz pd) (lim pd)"
  have n: "?n \<le> length (Q pd)" "?n \<le> 255" "length vs = ?n"
    using record_count_bounds [of "Q pd" a "sz pd" "lim pd"] by (simp_all add: vs_def)
  have "make \<lparr>tx_pd = pd, tx_area = a, tx_containers = c\<rparr> =
      (Inr (), \<lparr>tx_pd = fold eff vs pd, tx_area = aa_append (container_bytes t (map (rec pd) vs)) a,
                tx_containers = c + (if vs = [] then 0 else 1)\<rparr>)
    \<and> wf_pd (fold eff vs pd) \<and> same_conf pd (fold eff vs pd)
    \<and> length (container_bytes t (map (rec pd) vs)) \<le> bytes_available a"
  proof (cases "?n = 0")
    case True
    then have "vs = []" by (simp add: vs_def)
    then show ?thesis using assms(2,3) make [OF assms(2), of a c] True by (simp add: container_bytes_def)
  next
    case False
    then have vs: "vs \<noteq> []" using n(3) by auto
    have fits: "2 + length (concat (map (rec pd) vs)) \<le> bytes_available a"
      using record_count_fits [OF refl, of "Q pd" a "sz pd" "lim pd"] False rec_size [OF assms(2), of vs]
        set_take_subset [of ?n "Q pd"] by (simp add: vs_def)
    show ?thesis
      using emit [OF assms(2,3) n(1,2) fits [unfolded vs_def], of t c] make [OF assms(2), of a c] False vs n(3) fits
      by (simp add: container_bytes_def Let_def vs_def [symmetric] ICHeaderT_fixed_size_def)
  qed
  then show "make \<lparr>tx_pd = pd, tx_area = a, tx_containers = c\<rparr> =
      (Inr (), \<lparr>tx_pd = fold eff vs pd, tx_area = aa_append (container_bytes t (map (rec pd) vs)) a,
                tx_containers = c + (if vs = [] then 0 else 1)\<rparr>)"
    "wf_pd (fold eff vs pd)" "same_conf pd (fold eff vs pd)"
    "length (container_bytes t (map (rec pd) vs)) \<le> bytes_available a"
    by blast+
qed

end


lemma numberFittingRecords_le: "numberFittingRecords q a f \<le> 255"
  by (rule numberFittingRecords_spec(2))

lemma record_count_255:
  "record_count q a f 255 = (if q = [] \<or> bytes_available a < f (hd q) + 2 then 0 else numberFittingRecords q a f)"
  using numberFittingRecords_le [of q a f] by (simp add: record_count_def)

lemma record_count_stuck:
  "q \<noteq> [] \<Longrightarrow> \<not> bytes_available a < f (hd q) + 2 \<Longrightarrow> numberFittingRecords q a f \<noteq> 0"
  using numberFittingRecords_pos [of q f a] by simp

lemma record_count_limited:
  "record_count q a f (unat (m :: u16)) =
     (if q = [] \<or> bytes_available a < f (hd q) + 2 \<or> m = 0 then 0 else min (numberFittingRecords q a f) (unat m))"
  "q \<noteq> [] \<Longrightarrow> \<not> bytes_available a < f (hd q) + 2 \<Longrightarrow> m \<noteq> 0
    \<Longrightarrow> min (numberFittingRecords q a f) (unat m) \<noteq> 0"
  using record_count_stuck [of q a f] by (auto simp: record_count_def min_def unat_eq_0 unat_gt_0)

lemmas record_count_simps = record_count_255 record_count_stuck Let_def ICHeaderT_fixed_size_def

interpretation create_maker: container_maker create_round "\<lambda>pd. queue (createQ pd)"
  "\<lambda>pd i. enc_VarCreateT (create_record pd i)" take_create makeICTypeCreateVariables instructionSizeVarCreate ICTYPE_CREATE_VARIABLES "\<lambda>_. 255"
proof (unfold_locales, goal_cases)
  case (1 pd a c)
  then show ?case
    by (simp add: makeICTypeCreateVariables_def record_count_simps wf_pdD wf_queuesD)
next
  case (2 pd i)
  then show ?case by (simp add: create_record_wf queue_used(1))
qed

interpretation update_maker: container_maker update_round "\<lambda>pd. queue (updateQ pd)"
  "\<lambda>pd i. enc_VarUpdateT (update_record pd i)" take_update makeICTypeUpdates instructionSizeVarUpdate ICTYPE_UPDATES "\<lambda>_. 255"
proof (unfold_locales, goal_cases)
  case (1 pd a c)
  then show ?case
    by (simp add: makeICTypeUpdates_def record_count_simps wf_pdD wf_queuesD)
next
  case (2 pd i)
  then show ?case by (simp add: update_record_wf queue_used(2))
qed

interpretation delete_maker: container_maker delete_round "\<lambda>pd. queue (deleteQ pd)"
  "\<lambda>pd i. enc_VarDeleteT \<lparr>del_varId = i\<rparr>" take_delete makeICTypeDeleteVariables "\<lambda>_. instructionSizeVarDelete" ICTYPE_DELETE_VARIABLES "\<lambda>_. 255"
proof (unfold_locales, goal_cases)
  case (1 pd a c)
  then show ?case
    by (simp add: makeICTypeDeleteVariables_def record_count_simps wf_pdD wf_queuesD)
next
  case (2 pd i)
  then show ?case by (simp add: instructionSizeVarDelete_def)
qed

interpretation summary_maker: container_maker summary_round "\<lambda>pd. queue (summaryQ pd)"
  "\<lambda>pd i. enc_VarSummT (summary_record pd i)" take_summary makeICTypeSummaries "\<lambda>_. instructionSizeVarSummary" ICTYPE_SUMMARIES "\<lambda>pd. unat (maxSummaries pd)"
proof (unfold_locales, goal_cases)
  case (1 pd a c)
  then show ?case
    by (simp add: makeICTypeSummaries_def record_count_simps wf_pdD wf_queuesD record_count_limited)
next
  case (2 pd i)
  then show ?case by (simp add: instructionSizeVarSummary_def)
qed

interpretation requpdate_maker: container_maker requpdate_round "\<lambda>pd. queue (reqUpdQ pd)"
  "\<lambda>pd i. enc_VarReqUpdateT (requpdate_record pd i)" take_requpdate makeICTypeRequestVarUpdates "\<lambda>_. instructionSizeReqUpdate" ICTYPE_REQUEST_VARUPDATES "\<lambda>_. 255"
proof (unfold_locales, goal_cases)
  case (1 pd a c)
  then show ?case
    by (simp add: makeICTypeRequestVarUpdates_def record_count_simps wf_pdD wf_queuesD)
next
  case (2 pd i)
  then show ?case by (simp add: instructionSizeReqUpdate_def)
qed

interpretation reqcreate_maker: container_maker reqcreate_round "\<lambda>pd. queue (reqCreateQ pd)"
  "\<lambda>pd i. enc_VarReqCreateT \<lparr>reqcreate_varId = i\<rparr>" take_reqcreate makeICTypeRequestVarCreates "\<lambda>_. instructionSizeReqCreate" ICTYPE_REQUEST_VARCREATES "\<lambda>_. 255"
proof (unfold_locales, goal_cases)
  case (1 pd a c)
  then show ?case
    by (simp add: makeICTypeRequestVarCreates_def record_count_simps wf_pdD wf_queuesD)
next
  case (2 pd i)
  then show ?case by (simp add: instructionSizeReqCreate_def)
qed

end
