(* ===== verification/VardisPayload.thy ===== *)
theory VardisPayload
  imports VardisContainers "HOL-Library.Sublist"
begin

text \<open>
  The payload that \<open>construct_payload\<close> (\<open>dcp/vardis/vardis_transmitter.cc\<close>) builds,
  as a sequence of instruction containers.  The payload never exceeds the space it is
  given, no exception is thrown, and what it contains are the records of prefixes of
  the six queues.
\<close>

section \<open>Instruction containers as values\<close>

datatype InstructionContainer =
    IC_Summaries "VarSummT list"
  | IC_Updates "VarUpdateT list"
  | IC_RequestVarUpdates "VarReqUpdateT list"
  | IC_RequestVarCreates "VarReqCreateT list"
  | IC_CreateVariables "VarCreateT list"
  | IC_DeleteVariables "VarDeleteT list"

fun enc_IC :: "InstructionContainer \<Rightarrow> u8 list" where
  "enc_IC (IC_Summaries xs) = container_bytes ICTYPE_SUMMARIES (map enc_VarSummT xs)"
| "enc_IC (IC_Updates xs) = container_bytes ICTYPE_UPDATES (map enc_VarUpdateT xs)"
| "enc_IC (IC_RequestVarUpdates xs) = container_bytes ICTYPE_REQUEST_VARUPDATES (map enc_VarReqUpdateT xs)"
| "enc_IC (IC_RequestVarCreates xs) = container_bytes ICTYPE_REQUEST_VARCREATES (map enc_VarReqCreateT xs)"
| "enc_IC (IC_CreateVariables xs) = container_bytes ICTYPE_CREATE_VARIABLES (map enc_VarCreateT xs)"
| "enc_IC (IC_DeleteVariables xs) = container_bytes ICTYPE_DELETE_VARIABLES (map enc_VarDeleteT xs)"

text \<open>The number of records fits the header, and every record has its invariant.\<close>

fun ic_size :: "InstructionContainer \<Rightarrow> nat" where
  "ic_size (IC_Summaries xs) = length xs"
| "ic_size (IC_Updates xs) = length xs"
| "ic_size (IC_RequestVarUpdates xs) = length xs"
| "ic_size (IC_RequestVarCreates xs) = length xs"
| "ic_size (IC_CreateVariables xs) = length xs"
| "ic_size (IC_DeleteVariables xs) = length xs"

fun ic_records_ok :: "InstructionContainer \<Rightarrow> bool" where
  "ic_records_ok (IC_Updates xs) \<longleftrightarrow> list_all wf_VarUpdateT xs"
| "ic_records_ok (IC_CreateVariables xs) \<longleftrightarrow> list_all wf_VarCreateT xs"
| "ic_records_ok _ \<longleftrightarrow> True"

definition wf_IC :: "InstructionContainer \<Rightarrow> bool" where
  "wf_IC c \<longleftrightarrow> 0 < ic_size c \<and> ic_size c \<le> 255 \<and> ic_records_ok c"

definition payload_bytes :: "InstructionContainer list \<Rightarrow> u8 list" where
  "payload_bytes cs = concat (map enc_IC cs)"

lemma payload_bytes_simps [simp]:
  "payload_bytes [] = []" "payload_bytes (c # cs) = enc_IC c @ payload_bytes cs"
  "payload_bytes (cs @ ds) = payload_bytes cs @ payload_bytes ds"
  by (simp_all add: payload_bytes_def)

lemma enc_IC_empty: "ic_size c = 0 \<Longrightarrow> enc_IC c = []"
  by (cases c) (simp_all add: container_bytes_def)

lemma payload_bytes_nonempty: "payload_bytes (filter (\<lambda>c. 0 < ic_size c) cs) = payload_bytes cs"
  by (induction cs) (simp_all add: enc_IC_empty)

section \<open>What a node sends\<close>

text \<open>The containers for given lists of identifiers, in the order of transmission.\<close>

record tx_choice =
  tx_creates :: "VarIdT list"
  tx_deletes :: "VarIdT list"
  tx_reqcreates :: "VarIdT list"
  tx_summaries :: "VarIdT list"
  tx_updates :: "VarIdT list"
  tx_requpdates :: "VarIdT list"

definition sent_containers :: "VardisProtocolData \<Rightarrow> tx_choice \<Rightarrow> InstructionContainer list" where
  "sent_containers pd ch =
     [IC_CreateVariables (map (create_record pd) (tx_creates ch)),
      IC_DeleteVariables (map (\<lambda>i. \<lparr>del_varId = i\<rparr>) (tx_deletes ch)),
      IC_RequestVarCreates (map (\<lambda>i. \<lparr>reqcreate_varId = i\<rparr>) (tx_reqcreates ch)),
      IC_Summaries (map (summary_record pd) (tx_summaries ch)),
      IC_Updates (map (update_record pd) (tx_updates ch)),
      IC_RequestVarUpdates (map (requpdate_record pd) (tx_requpdates ch))]"

definition after_sending :: "tx_choice \<Rightarrow> VardisProtocolData \<Rightarrow> VardisProtocolData" where
  "after_sending ch pd =
     fold take_requpdate (tx_requpdates ch) (fold take_update (tx_updates ch)
       (fold take_summary (tx_summaries ch) (fold take_reqcreate (tx_reqcreates ch)
         (fold take_delete (tx_deletes ch) (fold take_create (tx_creates ch) pd)))))"

definition choice_ok :: "VardisProtocolData \<Rightarrow> tx_choice \<Rightarrow> bool" where
  "choice_ok pd ch \<longleftrightarrow>
     prefix (tx_creates ch) (queue (createQ pd)) \<and> prefix (tx_deletes ch) (queue (deleteQ pd))
     \<and> prefix (tx_reqcreates ch) (queue (reqCreateQ pd)) \<and> prefix (tx_summaries ch) (queue (summaryQ pd))
     \<and> prefix (tx_updates ch) (queue (updateQ pd)) \<and> prefix (tx_requpdates ch) (queue (reqUpdQ pd))
     \<and> list_all (\<lambda>vs. length vs \<le> 255)
         [tx_creates ch, tx_deletes ch, tx_reqcreates ch, tx_summaries ch, tx_updates ch, tx_requpdates ch]
     \<and> length (tx_summaries ch) \<le> unat (maxSummaries pd)"

text \<open>A round on one queue leaves the other queues and all records as they are.\<close>

lemma fold_frame: "(\<And>x s. g (f x s) = g s) \<Longrightarrow> g (fold f vs s) = g s"
  by (induction vs arbitrary: s) simp_all

lemma frame_create:
  "queue (deleteQ (fold take_create vs pd)) = queue (deleteQ pd)"
  "queue (reqCreateQ (fold take_create vs pd)) = queue (reqCreateQ pd)"
  "queue (summaryQ (fold take_create vs pd)) = queue (summaryQ pd)"
  "queue (updateQ (fold take_create vs pd)) = queue (updateQ pd)"
  "queue (reqUpdQ (fold take_create vs pd)) = queue (reqUpdQ pd)"
  "maxSummaries (fold take_create vs pd) = maxSummaries pd"
  "update_record (fold take_create vs pd) = update_record pd"
  "summary_record (fold take_create vs pd) = summary_record pd"
  "requpdate_record (fold take_create vs pd) = requpdate_record pd"
  by (rule fold_frame; simp add: take_create_def record_defs fun_eq_iff)+

lemma frame_delete:
  "queue (reqCreateQ (fold take_delete vs pd)) = queue (reqCreateQ pd)"
  "queue (summaryQ (fold take_delete vs pd)) = queue (summaryQ pd)"
  "queue (updateQ (fold take_delete vs pd)) = queue (updateQ pd)"
  "queue (reqUpdQ (fold take_delete vs pd)) = queue (reqUpdQ pd)"
  "maxSummaries (fold take_delete vs pd) = maxSummaries pd"
  "update_record (fold take_delete vs pd) = update_record pd"
  "summary_record (fold take_delete vs pd) = summary_record pd"
  "requpdate_record (fold take_delete vs pd) = requpdate_record pd"
  by (rule fold_frame; simp add: take_delete_def record_defs fun_eq_iff)+

lemma frame_reqcreate:
  "queue (summaryQ (fold take_reqcreate vs pd)) = queue (summaryQ pd)"
  "queue (updateQ (fold take_reqcreate vs pd)) = queue (updateQ pd)"
  "queue (reqUpdQ (fold take_reqcreate vs pd)) = queue (reqUpdQ pd)"
  "maxSummaries (fold take_reqcreate vs pd) = maxSummaries pd"
  "update_record (fold take_reqcreate vs pd) = update_record pd"
  "summary_record (fold take_reqcreate vs pd) = summary_record pd"
  "requpdate_record (fold take_reqcreate vs pd) = requpdate_record pd"
  by (rule fold_frame; simp add: take_reqcreate_def record_defs fun_eq_iff)+

lemma frame_summary:
  "queue (updateQ (fold take_summary vs pd)) = queue (updateQ pd)"
  "queue (reqUpdQ (fold take_summary vs pd)) = queue (reqUpdQ pd)"
  "update_record (fold take_summary vs pd) = update_record pd"
  "requpdate_record (fold take_summary vs pd) = requpdate_record pd"
  by (rule fold_frame; simp add: take_summary_def record_defs fun_eq_iff)+

lemma frame_update:
  "queue (reqUpdQ (fold take_update vs pd)) = queue (reqUpdQ pd)"
  "requpdate_record (fold take_update vs pd) = requpdate_record pd"
  by (rule fold_frame; simp add: take_update_def record_defs fun_eq_iff)+

lemmas frames = frame_create frame_delete frame_reqcreate frame_summary frame_update


text \<open>
  \<open>sends m pd a bs pd'\<close>: from the state \<open>pd\<close> and the area \<open>a\<close> the method \<open>m\<close> returns, having
  appended \<open>bs\<close>, in the well-formed state \<open>pd'\<close>.
\<close>

definition sends ::
  "(tx_state, unit) action \<Rightarrow> VardisProtocolData \<Rightarrow> aa \<Rightarrow> u8 list \<Rightarrow> VardisProtocolData \<Rightarrow> bool" where
  "sends m pd a bs pd' \<longleftrightarrow> wf_pd pd' \<and> same_conf pd pd' \<and> wf_aa a \<and> length bs \<le> bytes_available a
     \<and> (\<forall>c. \<exists>k. m \<lparr>tx_pd = pd, tx_area = a, tx_containers = c\<rparr> =
          (Inr (), \<lparr>tx_pd = pd', tx_area = aa_append bs a, tx_containers = k\<rparr>) \<and> c \<le> k \<and> (c = k \<longleftrightarrow> bs = []))"

lemma sendsD: "sends m pd a bs pd' \<Longrightarrow> wf_pd pd' \<and> wf_aa (aa_append bs a)"
  by (simp add: sends_def)

lemma sends_bindE:
  assumes "sends m pd a bs pd1" "sends n pd1 (aa_append bs a) cs pd2"
  shows "sends (bindE m (\<lambda>_. n)) pd a (bs @ cs) pd2"
proof -
  have "\<exists>k. bindE m (\<lambda>_. n) \<lparr>tx_pd = pd, tx_area = a, tx_containers = c\<rparr> =
      (Inr (), \<lparr>tx_pd = pd2, tx_area = aa_append (bs @ cs) a, tx_containers = k\<rparr>) \<and> c \<le> k \<and> (c = k \<longleftrightarrow> bs @ cs = [])" for c
  proof -
    obtain k where "m \<lparr>tx_pd = pd, tx_area = a, tx_containers = c\<rparr> =
        (Inr (), \<lparr>tx_pd = pd1, tx_area = aa_append bs a, tx_containers = k\<rparr>)" "c \<le> k" "c = k \<longleftrightarrow> bs = []"
      using assms(1) unfolding sends_def by blast
    moreover obtain l where "n \<lparr>tx_pd = pd1, tx_area = aa_append bs a, tx_containers = k\<rparr> =
        (Inr (), \<lparr>tx_pd = pd2, tx_area = aa_append cs (aa_append bs a), tx_containers = l\<rparr>)" "k \<le> l" "k = l \<longleftrightarrow> cs = []"
      using assms(2) unfolding sends_def by blast
    ultimately show ?thesis
      using assms le_diff_conv2 [of "length bs" "bytes_available a" "length cs"]
      by (intro exI [of _ l]) (auto simp: sends_def bindE_Inr aa_append_append add.commute)
  qed
  then show ?thesis
    using assms same_conf_trans [of pd pd1 pd2] by (auto simp: sends_def)
qed

lemma hd_in_take: "q \<noteq> [] \<Longrightarrow> 0 < n \<Longrightarrow> hd q \<in> set (take n q)"
  by (cases q; cases n) simp_all

context container_maker
begin

lemma run:
  assumes "wf_pd pd \<and> wf_aa a"
  shows "\<exists>vs. prefix vs (Q pd) \<and> length vs \<le> 255 \<and> length vs \<le> lim pd
    \<and> sends make pd a (container_bytes t (map (rec pd) vs)) (fold eff vs pd)
    \<and> (Q pd \<noteq> [] \<and> sz pd (hd (Q pd)) + 2 \<le> bytes_available a \<and> 0 < lim pd \<longrightarrow> hd (Q pd) \<in> set vs)"
  using spec [of pd a] assms record_count_bounds [of "Q pd" a "sz pd" "lim pd"] record_count_0 [of "Q pd" a "sz pd" "lim pd"]
    hd_in_take [of "Q pd" "record_count (Q pd) a (sz pd) (lim pd)"]
  by (intro exI [of _ "take (record_count (Q pd) a (sz pd) (lim pd)) (Q pd)"])
    (auto simp: take_is_prefix sends_def container_bytes_def enc_ICHeaderT_def enc_byte_def)

end

lemma make_containers_spec:
  assumes "wf_pd pd" "wf_aa a"
  shows "\<exists>ch. choice_ok pd ch
    \<and> sends make_containers pd a (payload_bytes (sent_containers pd ch)) (after_sending ch pd)
    \<and> (queue (createQ pd) \<noteq> [] \<and> instructionSizeVarCreate pd (hd (queue (createQ pd))) + 2 \<le> bytes_available a
         \<longrightarrow> hd (queue (createQ pd)) \<in> set (tx_creates ch))"
proof -
  let ?p1 = "\<lambda>c. fold take_create c pd"
  let ?p2 = "\<lambda>c d. fold take_delete d (?p1 c)"
  let ?p3 = "\<lambda>c d r. fold take_reqcreate r (?p2 c d)"
  let ?p4 = "\<lambda>c d r s. fold take_summary s (?p3 c d r)"
  let ?p5 = "\<lambda>c d r s u. fold take_update u (?p4 c d r s)"
  obtain c where c: "prefix c (queue (createQ pd))" "length c \<le> 255"
    "sends makeICTypeCreateVariables pd a (enc_IC (IC_CreateVariables (map (create_record pd) c))) (?p1 c)"
    "queue (createQ pd) \<noteq> [] \<and> instructionSizeVarCreate pd (hd (queue (createQ pd))) + 2 \<le> bytes_available a
         \<longrightarrow> hd (queue (createQ pd)) \<in> set c"
    using create_maker.run [of pd a] assms by (auto simp: o_def)
  let ?a1 = "aa_append (enc_IC (IC_CreateVariables (map (create_record pd) c))) a"
  note a1 = sendsD [OF c(3)]
  from delete_maker.run [OF a1] obtain d where d: "prefix d (queue (deleteQ pd))" "length d \<le> 255"
    "sends makeICTypeDeleteVariables (?p1 c) ?a1
       (enc_IC (IC_DeleteVariables (map (\<lambda>i. \<lparr>del_varId = i\<rparr>) d))) (?p2 c d)"
    by (auto simp: o_def frames)
  let ?a2 = "aa_append (enc_IC (IC_DeleteVariables (map (\<lambda>i. \<lparr>del_varId = i\<rparr>) d))) ?a1"
  note a2 = sendsD [OF d(3)]
  from reqcreate_maker.run [OF a2] obtain r where r: "prefix r (queue (reqCreateQ pd))" "length r \<le> 255"
    "sends makeICTypeRequestVarCreates (?p2 c d) ?a2
       (enc_IC (IC_RequestVarCreates (map (\<lambda>i. \<lparr>reqcreate_varId = i\<rparr>) r))) (?p3 c d r)"
    by (auto simp: o_def frames)
  let ?a3 = "aa_append (enc_IC (IC_RequestVarCreates (map (\<lambda>i. \<lparr>reqcreate_varId = i\<rparr>) r))) ?a2"
  note a3 = sendsD [OF r(3)]
  from summary_maker.run [OF a3] obtain s where s: "prefix s (queue (summaryQ pd))" "length s \<le> 255"
    "length s \<le> unat (maxSummaries pd)"
    "sends makeICTypeSummaries (?p3 c d r) ?a3
       (enc_IC (IC_Summaries (map (summary_record pd) s))) (?p4 c d r s)"
    by (auto simp: o_def frames)
  let ?a4 = "aa_append (enc_IC (IC_Summaries (map (summary_record pd) s))) ?a3"
  note a4 = sendsD [OF s(4)]
  from update_maker.run [OF a4] obtain u where u: "prefix u (queue (updateQ pd))" "length u \<le> 255"
    "sends makeICTypeUpdates (?p4 c d r s) ?a4
       (enc_IC (IC_Updates (map (update_record pd) u))) (?p5 c d r s u)"
    by (auto simp: o_def frames)
  let ?a5 = "aa_append (enc_IC (IC_Updates (map (update_record pd) u))) ?a4"
  note a5 = sendsD [OF u(3)]
  from requpdate_maker.run [OF a5] obtain v where v: "prefix v (queue (reqUpdQ pd))" "length v \<le> 255"
    "sends makeICTypeRequestVarUpdates (?p5 c d r s u)
       ?a5
       (enc_IC (IC_RequestVarUpdates (map (requpdate_record pd) v))) (fold take_requpdate v (?p5 c d r s u))"
    by (auto simp: o_def frames)
  let ?ch = "\<lparr>tx_creates = c, tx_deletes = d, tx_reqcreates = r, tx_summaries = s, tx_updates = u, tx_requpdates = v\<rparr>"
  have "choice_ok pd ?ch"
    using c(1,2) d(1,2) r(1,2) s(1-3) u(1,2) v(1,2) by (simp add: choice_ok_def)
  moreover have "sends make_containers pd a (payload_bytes (sent_containers pd ?ch)) (after_sending ?ch pd)"
    unfolding make_containers_def sent_containers_def after_sending_def payload_bytes_simps append_Nil2
    using c(3) d(3) r(3) s(4) u(3) v(3) by (simp only: tx_choice.simps) (intro sends_bindE)
  moreover have "queue (createQ pd) \<noteq> [] \<and> instructionSizeVarCreate pd (hd (queue (createQ pd))) + 2 \<le> bytes_available a
      \<longrightarrow> hd (queue (createQ pd)) \<in> set (tx_creates ?ch)" using c(4) by simp
  ultimately show ?thesis by blast
qed


lemma construct_payload_ok:
  assumes "wf_pd pd" "wf_aa a"
  obtains ch k where "choice_ok pd ch"
    "construct_payload x \<lparr>tx_pd = pd, tx_area = a, tx_containers = c\<rparr> =
      (Inr x, \<lparr>tx_pd = after_sending ch pd, tx_area = aa_append (payload_bytes (sent_containers pd ch)) a,
               tx_containers = k\<rparr>)"
    "wf_pd (after_sending ch pd)" "same_conf pd (after_sending ch pd)"
    "length (payload_bytes (sent_containers pd ch)) \<le> bytes_available a"
    "c \<le> k" "c = k \<longleftrightarrow> payload_bytes (sent_containers pd ch) = []"
proof -
  obtain ch where ch: "choice_ok pd ch"
    "sends make_containers pd a (payload_bytes (sent_containers pd ch)) (after_sending ch pd)"
    using make_containers_spec [OF assms] by blast
  obtain k where k: "make_containers \<lparr>tx_pd = pd, tx_area = a, tx_containers = c\<rparr> =
      (Inr (), \<lparr>tx_pd = after_sending ch pd, tx_area = aa_append (payload_bytes (sent_containers pd ch)) a,
               tx_containers = k\<rparr>)" "c \<le> k" "c = k \<longleftrightarrow> payload_bytes (sent_containers pd ch) = []"
    using ch(2) unfolding sends_def by blast
  have "construct_payload x \<lparr>tx_pd = pd, tx_area = a, tx_containers = c\<rparr> =
      (Inr x, \<lparr>tx_pd = after_sending ch pd, tx_area = aa_append (payload_bytes (sent_containers pd ch)) a,
               tx_containers = k\<rparr>)"
    by (simp add: construct_payload_def k(1))
  with ch k(2,3) show ?thesis by (intro that [of ch k]) (simp_all add: sends_def)
qed

text \<open>The containers that are sent are well-formed.\<close>

lemma prefix_used:
  "prefix vs q \<Longrightarrow> (\<And>i. i \<in> set q \<Longrightarrow> P i) \<Longrightarrow> list_all P vs"
  using set_mono_prefix [of vs q] by (auto simp: list_all_iff)

lemma sent_containers_wf:
  assumes "wf_pd pd" "choice_ok pd ch" "c \<in> set (sent_containers pd ch)" "0 < ic_size c"
  shows "wf_IC c"
proof -
  have "list_all (\<lambda>i. wf_VarCreateT (create_record pd i)) (tx_creates ch)"
    using assms(2) create_record_wf(1) [OF assms(1) queue_used(1) [OF assms(1)]]
    by (intro prefix_used [of _ "queue (createQ pd)"]) (simp_all add: choice_ok_def)
  moreover have "list_all (\<lambda>i. wf_VarUpdateT (update_record pd i)) (tx_updates ch)"
    using assms(2) update_record_wf(1) [OF assms(1) queue_used(2) [OF assms(1)]]
    by (intro prefix_used [of _ "queue (updateQ pd)"]) (simp_all add: choice_ok_def)
  ultimately show ?thesis
    using assms(2-4) by (auto simp: sent_containers_def wf_IC_def choice_ok_def list.pred_map o_def)
qed

text \<open>Sending costs a repetition: the effect of a round repeated for several identifiers.\<close>

lemma fold_take_create_count:
  assumes "distinct vs"
  shows "db_countCreate (entry (fold take_create vs pd) i) =
    (if i \<in> set vs then db_countCreate (entry pd i) - 1 else db_countCreate (entry pd i))"
  using assms by (induction vs arbitrary: pd) (auto simp: take_create_def)

lemma fold_take_update_count:
  assumes "distinct vs"
  shows "db_countUpdate (entry (fold take_update vs pd) i) =
    (if i \<in> set vs then db_countUpdate (entry pd i) - 1 else db_countUpdate (entry pd i))"
  using assms by (induction vs arbitrary: pd) (auto simp: take_update_def)

lemma fold_take_delete_count:
  assumes "distinct vs"
  shows "db_countDelete (entry (fold take_delete vs pd) i) =
    (if i \<in> set vs then db_countDelete (entry pd i) - 1 else db_countDelete (entry pd i))"
  using assms by (induction vs arbitrary: pd) (auto simp: take_delete_def)

lemma counts_frame:
  "db_countCreate (entry (fold take_update vs pd) i) = db_countCreate (entry pd i)"
  "db_countCreate (entry (fold take_delete vs pd) i) = db_countCreate (entry pd i)"
  "db_countCreate (entry (fold take_summary vs pd) i) = db_countCreate (entry pd i)"
  "db_countCreate (entry (fold take_reqcreate vs pd) i) = db_countCreate (entry pd i)"
  "db_countCreate (entry (fold take_requpdate vs pd) i) = db_countCreate (entry pd i)"
  "db_countUpdate (entry (fold take_create vs pd) i) = db_countUpdate (entry pd i)"
  "db_countUpdate (entry (fold take_delete vs pd) i) = db_countUpdate (entry pd i)"
  "db_countUpdate (entry (fold take_summary vs pd) i) = db_countUpdate (entry pd i)"
  "db_countUpdate (entry (fold take_reqcreate vs pd) i) = db_countUpdate (entry pd i)"
  "db_countUpdate (entry (fold take_requpdate vs pd) i) = db_countUpdate (entry pd i)"
  "db_countDelete (entry (fold take_create vs pd) i) = db_countDelete (entry pd i)"
  "db_countDelete (entry (fold take_update vs pd) i) = db_countDelete (entry pd i)"
  "db_countDelete (entry (fold take_summary vs pd) i) = db_countDelete (entry pd i)"
  "db_countDelete (entry (fold take_reqcreate vs pd) i) = db_countDelete (entry pd i)"
  "db_countDelete (entry (fold take_requpdate vs pd) i) = db_countDelete (entry pd i)"
  by (rule fold_frame; simp add: take_defs)+

lemma after_sending_counts:
  assumes "wf_pd pd" "choice_ok pd ch"
  shows "db_countCreate (entry (after_sending ch pd) i) =
      (if i \<in> set (tx_creates ch) then db_countCreate (entry pd i) - 1 else db_countCreate (entry pd i))"
    "db_countUpdate (entry (after_sending ch pd) i) =
      (if i \<in> set (tx_updates ch) then db_countUpdate (entry pd i) - 1 else db_countUpdate (entry pd i))"
    "db_countDelete (entry (after_sending ch pd) i) =
      (if i \<in> set (tx_deletes ch) then db_countDelete (entry pd i) - 1 else db_countDelete (entry pd i))"
proof -
  note q = wf_queuesD [OF wf_pdD(2) [OF assms(1)], THEN wf_q_distinct]
  have "distinct (tx_creates ch)" "distinct (tx_updates ch)" "distinct (tx_deletes ch)"
    using assms(2) q unfolding choice_ok_def prefix_def by auto
  then show "db_countCreate (entry (after_sending ch pd) i) =
      (if i \<in> set (tx_creates ch) then db_countCreate (entry pd i) - 1 else db_countCreate (entry pd i))"
    "db_countUpdate (entry (after_sending ch pd) i) =
      (if i \<in> set (tx_updates ch) then db_countUpdate (entry pd i) - 1 else db_countUpdate (entry pd i))"
    "db_countDelete (entry (after_sending ch pd) i) =
      (if i \<in> set (tx_deletes ch) then db_countDelete (entry pd i) - 1 else db_countDelete (entry pd i))"
    by (simp_all only: after_sending_def counts_frame fold_take_create_count fold_take_update_count
        fold_take_delete_count)
qed

end
