(* ===== verification/VardisReceive.thy ===== *)
theory VardisReceive
  imports VardisPayload
begin

text \<open>
  Processing of received payloads (\<open>dcp/vardis/vardis_receiver.cc\<close>): the loop that
  splits a payload into its records, and the order in which the records are applied to
  the database.  Payloads come from the network, so that nothing is assumed of their
  bytes: the loop ends on every payload and the state remains well-formed.
\<close>

section \<open>Splitting the payload\<close>

record rx_lists =
  icSummaries :: "VarSummT list"
  icUpdates :: "VarUpdateT list"
  icRequestVarUpdates :: "VarReqUpdateT list"
  icRequestVarCreates :: "VarReqCreateT list"
  icCreateVariables :: "VarCreateT list"
  icDeleteVariables :: "VarDeleteT list"

definition new_rx_lists :: rx_lists where
  "new_rx_lists = \<lparr>icSummaries = [], icUpdates = [], icRequestVarUpdates = [], icRequestVarCreates = [],
     icCreateVariables = [], icDeleteVariables = []\<rparr>"

definition extractInstructionContainerElements :: "(da, 'a) action \<Rightarrow> ICHeaderT \<Rightarrow> (da, 'a list) action" where
  "extractInstructionContainerElements des icHeader =
     (if icNumRecords icHeader = 0 then throwE VardisReceiveException
      else repeatE (unat (icNumRecords icHeader)) des)"

text \<open>One round of the loop after the header has been read.\<close>

definition dispatch_container :: "ICHeaderT \<Rightarrow> rx_lists \<Rightarrow> (da, rx_lists) action" where
  "dispatch_container h rx =
     (if icType h = ICTYPE_SUMMARIES then
        bindE (extractInstructionContainerElements des_VarSummT h) (\<lambda>xs.
        retE (rx\<lparr>icSummaries := icSummaries rx @ xs\<rparr>))
      else if icType h = ICTYPE_UPDATES then
        bindE (extractInstructionContainerElements des_VarUpdateT h) (\<lambda>xs.
        retE (rx\<lparr>icUpdates := icUpdates rx @ xs\<rparr>))
      else if icType h = ICTYPE_REQUEST_VARUPDATES then
        bindE (extractInstructionContainerElements des_VarReqUpdateT h) (\<lambda>xs.
        retE (rx\<lparr>icRequestVarUpdates := icRequestVarUpdates rx @ xs\<rparr>))
      else if icType h = ICTYPE_REQUEST_VARCREATES then
        bindE (extractInstructionContainerElements des_VarReqCreateT h) (\<lambda>xs.
        retE (rx\<lparr>icRequestVarCreates := icRequestVarCreates rx @ xs\<rparr>))
      else if icType h = ICTYPE_CREATE_VARIABLES then
        bindE (extractInstructionContainerElements des_VarCreateT h) (\<lambda>xs.
        retE (rx\<lparr>icCreateVariables := icCreateVariables rx @ xs\<rparr>))
      else if icType h = ICTYPE_DELETE_VARIABLES then
        bindE (extractInstructionContainerElements des_VarDeleteT h) (\<lambda>xs.
        retE (rx\<lparr>icDeleteVariables := icDeleteVariables rx @ xs\<rparr>))
      else throwE VardisReceiveException)"

text \<open>The \<open>while\<close> loop; the value \<open>None\<close> stands for a loop that does not end.\<close>

partial_function (option) parse_containers :: "rx_lists \<Rightarrow> da \<Rightarrow> ((dcp_error + rx_lists) \<times> da) option" where
  "parse_containers rx area =
     (if bytes_used area < bytes_available area then
        (case des_ICHeaderT area of
           (Inl e, area1) \<Rightarrow> Some (Inl e, area1)
         | (Inr icHeader, area1) \<Rightarrow>
             (case dispatch_container icHeader rx area1 of
                (Inl e, area2) \<Rightarrow> Some (Inl e, area2)
              | (Inr rx', area2) \<Rightarrow> parse_containers rx' area2))
      else Some (Inr rx, area))"

section \<open>Processing the records\<close>

text \<open>
  \<open>clock k\<close> is the system time at which the \<open>k\<close>-th record is processed, counted over the
  creations and then the updates, the two kinds of records that read the clock.
\<close>

definition process_records :: "(nat \<Rightarrow> TimeStampT) \<Rightarrow> rx_lists \<Rightarrow> (VardisProtocolData, unit) action" where
  "process_records clock rx =
     bindE (forE (\<lambda>(k, c). process_var_create (clock k) c) (List.enumerate 0 (icCreateVariables rx))) (\<lambda>_.
     bindE (forE process_var_delete (icDeleteVariables rx)) (\<lambda>_.
     bindE (forE (\<lambda>(k, u). process_var_update (clock k) u)
              (List.enumerate (length (icCreateVariables rx)) (icUpdates rx))) (\<lambda>_.
     bindE (forE process_var_summary (icSummaries rx)) (\<lambda>_.
     bindE (forE process_var_requpdate (icRequestVarUpdates rx)) (\<lambda>_.
     forE process_var_reqcreate (icRequestVarCreates rx))))))"

definition process_received_payload ::
  "(nat \<Rightarrow> TimeStampT) \<Rightarrow> da \<Rightarrow> VardisProtocolData \<Rightarrow> ((dcp_error + unit) \<times> VardisProtocolData) option" where
  "process_received_payload clock area pd =
     (case parse_containers new_rx_lists area of
        None \<Rightarrow> None
      | Some (Inl e, _) \<Rightarrow> Some (Inl e, pd)
      | Some (Inr rx, _) \<Rightarrow> Some (process_records clock rx pd))"

text \<open>
  The body of the inner loop of \<open>receiver_thread\<close> with its handler: what \<open>receive_payload_wait\<close>
  delivered (status, length and buffer) is processed; an exception sets the exit flag of the demon.
\<close>

definition receiver_round ::
  "(nat \<Rightarrow> TimeStampT) \<Rightarrow> bool \<Rightarrow> nat \<Rightarrow> u8 list \<Rightarrow> VardisProtocolData \<times> bool
     \<Rightarrow> (VardisProtocolData \<times> bool) option" where
  "receiver_round clock rx_ok result_length rx_buffer s =
     (case s of (pd, vardis_exitFlag) \<Rightarrow>
        if \<not> vardis_exitFlag \<and> get_vardis_isactive (vardis_store pd) \<and> result_length > 0 \<and> rx_ok
        then (case process_received_payload clock (MemoryChunkDisassemblyArea result_length rx_buffer) pd of
                None \<Rightarrow> None
              | Some (Inr _, pd') \<Rightarrow> Some (pd', False)
              | Some (Inl _, pd') \<Rightarrow> Some (pd', True))
        else Some s)"

section \<open>The loop ends, on well-formed records\<close>

definition rx_ok :: "rx_lists \<Rightarrow> bool" where
  "rx_ok rx \<longleftrightarrow> list_all wf_VarUpdateT (icUpdates rx) \<and> list_all wf_VarCreateT (icCreateVariables rx)"

lemma extract_sound:
  assumes "codec ser des enc k" "extractInstructionContainerElements des h d = (Inr xs, d')" "wf_da d"
  shows "wf_da d' \<and> (\<forall>x \<in> set xs. k x) \<and> bytes_available d' \<le> bytes_available d"
proof -
  have "repeatE (unat (icNumRecords h)) des d = (Inr xs, d')"
    using assms(2) by (simp add: extractInstructionContainerElements_def split: if_splits)
  from codec.des_list_sound [OF assms(1) this assms(3)] show ?thesis
    using length_da_rest [OF assms(3)] length_da_rest [of d'] by auto
qed

lemma extract_then:
  assumes "bindE (extractInstructionContainerElements des h) (\<lambda>xs. retE (f xs)) d = (Inr y, d')"
    "codec ser des enc k" "wf_da d"
  obtains xs where "y = f xs" "wf_da d'" "\<forall>x \<in> set xs. k x" "bytes_available d' \<le> bytes_available d"
proof -
  obtain xs where "extractInstructionContainerElements des h d = (Inr xs, d')" "y = f xs"
    using assms(1) by (auto elim!: bindE_InrE)
  with extract_sound [OF assms(2) _ assms(3)] that show ?thesis by blast
qed

lemmas ICTYPE_defs = ICTYPE_SUMMARIES_def ICTYPE_UPDATES_def ICTYPE_REQUEST_VARUPDATES_def
  ICTYPE_REQUEST_VARCREATES_def ICTYPE_CREATE_VARIABLES_def ICTYPE_DELETE_VARIABLES_def

lemma dispatch_cases:
  "icType h = ICTYPE_SUMMARIES \<Longrightarrow> dispatch_container h rx =
    bindE (extractInstructionContainerElements des_VarSummT h) (\<lambda>xs. retE (rx\<lparr>icSummaries := icSummaries rx @ xs\<rparr>))"
  "icType h = ICTYPE_UPDATES \<Longrightarrow> dispatch_container h rx =
    bindE (extractInstructionContainerElements des_VarUpdateT h) (\<lambda>xs. retE (rx\<lparr>icUpdates := icUpdates rx @ xs\<rparr>))"
  "icType h = ICTYPE_REQUEST_VARUPDATES \<Longrightarrow> dispatch_container h rx =
    bindE (extractInstructionContainerElements des_VarReqUpdateT h) (\<lambda>xs. retE (rx\<lparr>icRequestVarUpdates := icRequestVarUpdates rx @ xs\<rparr>))"
  "icType h = ICTYPE_REQUEST_VARCREATES \<Longrightarrow> dispatch_container h rx =
    bindE (extractInstructionContainerElements des_VarReqCreateT h) (\<lambda>xs. retE (rx\<lparr>icRequestVarCreates := icRequestVarCreates rx @ xs\<rparr>))"
  "icType h = ICTYPE_CREATE_VARIABLES \<Longrightarrow> dispatch_container h rx =
    bindE (extractInstructionContainerElements des_VarCreateT h) (\<lambda>xs. retE (rx\<lparr>icCreateVariables := icCreateVariables rx @ xs\<rparr>))"
  "icType h = ICTYPE_DELETE_VARIABLES \<Longrightarrow> dispatch_container h rx =
    bindE (extractInstructionContainerElements des_VarDeleteT h) (\<lambda>xs. retE (rx\<lparr>icDeleteVariables := icDeleteVariables rx @ xs\<rparr>))"
  by (simp_all add: dispatch_container_def ICTYPE_defs del: retE_simp)

lemma dispatch_sound:
  assumes "dispatch_container h rx d = (Inr rx', d')" "wf_da d" "rx_ok rx"
  shows "wf_da d' \<and> rx_ok rx' \<and> bytes_available d' \<le> bytes_available d"
proof -
  consider "icType h = ICTYPE_SUMMARIES" | "icType h = ICTYPE_UPDATES" | "icType h = ICTYPE_REQUEST_VARUPDATES"
    | "icType h = ICTYPE_REQUEST_VARCREATES" | "icType h = ICTYPE_CREATE_VARIABLES"
    | "icType h = ICTYPE_DELETE_VARIABLES"
    using assms(1) by (auto simp: dispatch_container_def split: if_splits)
  then show ?thesis
  proof cases
    case 1
    show ?thesis
      by (rule extract_then [OF assms(1) [unfolded dispatch_cases(1) [OF 1]] summ_codec.codec_axioms assms(2)])
        (use assms(3) in \<open>simp add: rx_ok_def list_all_iff ball_Un\<close>)
  next
    case 2
    show ?thesis
      by (rule extract_then [OF assms(1) [unfolded dispatch_cases(2) [OF 2]] update_codec.codec_axioms assms(2)])
        (use assms(3) in \<open>simp add: rx_ok_def list_all_iff ball_Un\<close>)
  next
    case 3
    show ?thesis
      by (rule extract_then [OF assms(1) [unfolded dispatch_cases(3) [OF 3]] requpd_codec.codec_axioms assms(2)])
        (use assms(3) in \<open>simp add: rx_ok_def list_all_iff ball_Un\<close>)
  next
    case 4
    show ?thesis
      by (rule extract_then [OF assms(1) [unfolded dispatch_cases(4) [OF 4]] reqcreate_codec.codec_axioms assms(2)])
        (use assms(3) in \<open>simp add: rx_ok_def list_all_iff ball_Un\<close>)
  next
    case 5
    show ?thesis
      by (rule extract_then [OF assms(1) [unfolded dispatch_cases(5) [OF 5]] create_codec.codec_axioms assms(2)])
        (use assms(3) in \<open>simp add: rx_ok_def list_all_iff ball_Un\<close>)
  next
    case 6
    show ?thesis
      by (rule extract_then [OF assms(1) [unfolded dispatch_cases(6) [OF 6]] delete_codec.codec_axioms assms(2)])
        (use assms(3) in \<open>simp add: rx_ok_def list_all_iff ball_Un\<close>)
  qed
qed


lemma parse_containers_total:
  "wf_da d \<Longrightarrow> rx_ok rx \<Longrightarrow> \<exists>r d'. parse_containers rx d = Some (r, d') \<and> (\<forall>rx'. r = Inr rx' \<longrightarrow> rx_ok rx')"
proof (induction "bytes_available d" arbitrary: d rx rule: less_induct)
  case less
  show ?case
  proof (cases "bytes_used d < bytes_available d")
    case True
    show ?thesis
    proof (cases "des_ICHeaderT d")
      case (Pair r d1)
      show ?thesis
      proof (cases r)
        case (Inr h)
        note H = header_codec.des_soundD [OF Pair [unfolded Inr] less.prems(1)]
        have l: "bytes_available d1 < bytes_available d"
          using H(2) length_da_rest [OF less.prems(1)] length_da_rest [OF H(3)]
          by (simp add: ICHeaderT_fixed_size_def)
        show ?thesis
        proof (cases "dispatch_container h rx d1")
          case dc: (Pair q d2)
          show ?thesis
          proof (cases q)
            case (Inr rx')
            from dispatch_sound [OF dc [unfolded Inr] H(3) less.prems(2)] l
            have "bytes_available d2 < bytes_available d" "wf_da d2" "rx_ok rx'" by auto
            from less.hyps [OF this] show ?thesis
              using True Pair \<open>r = Inr h\<close> dc Inr by (subst parse_containers.simps) simp
          qed (use True Pair Inr dc in \<open>subst parse_containers.simps; simp\<close>)
        qed
      qed (use True Pair in \<open>subst parse_containers.simps; simp\<close>)
    qed
  next
    case False
    then show ?thesis using less.prems(2) by (subst parse_containers.simps) simp
  qed
qed

section \<open>Processing keeps the invariant\<close>

definition safe_action :: "(VardisProtocolData, unit) action \<Rightarrow> bool" where
  "safe_action m \<longleftrightarrow> (\<forall>pd. wf_pd pd \<longrightarrow> (\<exists>pd'. m pd = (Inr (), pd') \<and> wf_pd pd' \<and> same_conf pd pd'))"

lemma safe_actionI:
  "(\<And>pd. wf_pd pd \<Longrightarrow> \<exists>pd'. m pd = (Inr (), pd') \<and> wf_pd pd' \<and> same_conf pd pd') \<Longrightarrow> safe_action m"
  by (simp add: safe_action_def)

lemma safe_actionE:
  assumes "safe_action m" "wf_pd pd"
  obtains pd' where "m pd = (Inr (), pd')" "wf_pd pd'" "same_conf pd pd'"
  using assms unfolding safe_action_def by blast

lemma safe_bindE: "safe_action m \<Longrightarrow> safe_action n \<Longrightarrow> safe_action (bindE m (\<lambda>_. n))"
proof (rule safe_actionI)
  fix pd assume s: "safe_action m" "safe_action n" and wf: "wf_pd pd"
  obtain pd1 where 1: "m pd = (Inr (), pd1)" "wf_pd pd1" "same_conf pd pd1"
    by (rule safe_actionE [OF s(1) wf])
  obtain pd2 where 2: "n pd1 = (Inr (), pd2)" "wf_pd pd2" "same_conf pd1 pd2"
    by (rule safe_actionE [OF s(2) 1(2)])
  show "\<exists>pd'. bindE m (\<lambda>_. n) pd = (Inr (), pd') \<and> wf_pd pd' \<and> same_conf pd pd'"
    using 1 2 same_conf_trans [OF 1(3) 2(3)] by (simp add: bindE_Inr)
qed

lemma safe_forE: "\<forall>x \<in> set xs. safe_action (f x) \<Longrightarrow> safe_action (forE f xs)"
  by (induction xs) (simp_all add: forE_Nil forE_Cons safe_bindE safe_action_def [of "retE ()"] del: forE.simps)

lemma set_enumerate_snd: "p \<in> set (List.enumerate n xs) \<Longrightarrow> snd p \<in> set xs"
  by (cases p) (auto simp: enumerate_eq_zip dest: set_zip_rightD)

lemma process_records_safe:
  assumes "rx_ok rx"
  shows "safe_action (process_records clock rx)"
  unfolding process_records_def
  using assms
  by (intro safe_bindE safe_forE)
    (auto simp: rx_ok_def list_all_iff dest!: set_enumerate_snd
      intro!: safe_actionI process_var_create_wf process_var_delete_wf process_var_update_wf
        process_var_summary_wf process_var_requpdate_wf process_var_reqcreate_wf)

lemma process_received_payload_total:
  assumes "wf_pd pd" "wf_da d"
  obtains r pd' where "process_received_payload clock d pd = Some (r, pd')" "wf_pd pd'" "same_conf pd pd'"
    "\<And>e. r = Inl e \<Longrightarrow> pd' = pd"
proof -
  have "rx_ok new_rx_lists" by (simp add: rx_ok_def new_rx_lists_def)
  from parse_containers_total [OF assms(2) this] obtain r d' where
    r: "parse_containers new_rx_lists d = Some (r, d')" "\<And>rx. r = Inr rx \<Longrightarrow> rx_ok rx" by auto
  show thesis
  proof (cases r)
    case (Inl e)
    with r(1) assms(1) that [of "Inl e" pd] show ?thesis by (simp add: process_received_payload_def)
  next
    case (Inr rx)
    from safe_actionE [OF process_records_safe [OF r(2) [OF Inr]] assms(1)] obtain pd' where
      "process_records clock rx pd = (Inr (), pd')" "wf_pd pd'" "same_conf pd pd'" by blast
    with r(1) Inr that [of "Inr ()" pd'] show ?thesis by (simp add: process_received_payload_def)
  qed
qed

section \<open>What the loop reads\<close>

text \<open>
  The loop compares the bytes consumed with the bytes that remain.  It therefore reads
  the containers that start in the first half of the payload.
\<close>

fun read_containers :: "nat \<Rightarrow> nat \<Rightarrow> InstructionContainer list \<Rightarrow> InstructionContainer list" where
  "read_containers len start [] = []"
| "read_containers len start (c # cs) =
     (if 2 * start < len then c # read_containers len (start + length (enc_IC c)) cs else [])"

fun collect_IC :: "InstructionContainer \<Rightarrow> rx_lists \<Rightarrow> rx_lists" where
  "collect_IC (IC_Summaries xs) rx = rx\<lparr>icSummaries := icSummaries rx @ xs\<rparr>"
| "collect_IC (IC_Updates xs) rx = rx\<lparr>icUpdates := icUpdates rx @ xs\<rparr>"
| "collect_IC (IC_RequestVarUpdates xs) rx = rx\<lparr>icRequestVarUpdates := icRequestVarUpdates rx @ xs\<rparr>"
| "collect_IC (IC_RequestVarCreates xs) rx = rx\<lparr>icRequestVarCreates := icRequestVarCreates rx @ xs\<rparr>"
| "collect_IC (IC_CreateVariables xs) rx = rx\<lparr>icCreateVariables := icCreateVariables rx @ xs\<rparr>"
| "collect_IC (IC_DeleteVariables xs) rx = rx\<lparr>icDeleteVariables := icDeleteVariables rx @ xs\<rparr>"

lemma extract_ok:
  assumes "codec ser des enc k" "xs \<noteq> []" "length xs \<le> 255" "\<forall>x \<in> set xs. k x" "wf_da d"
    "da_rest d = concat (map enc xs) @ r"
  shows "extractInstructionContainerElements des \<lparr>icType = t, icNumRecords = of_nat (length xs)\<rparr> d
    = (Inr xs, da_advance (length (concat (map enc xs))) d)"
  using codec.des_list [OF assms(1,4-6)] assms(2,3) of_nat_u8_pos [of "length xs"]
  by (auto simp: extractInstructionContainerElements_def)


definition header_of :: "InstructionContainer \<Rightarrow> ICHeaderT" where
  "header_of c = \<lparr>icType = (case c of IC_Summaries _ \<Rightarrow> ICTYPE_SUMMARIES | IC_Updates _ \<Rightarrow> ICTYPE_UPDATES
      | IC_RequestVarUpdates _ \<Rightarrow> ICTYPE_REQUEST_VARUPDATES | IC_RequestVarCreates _ \<Rightarrow> ICTYPE_REQUEST_VARCREATES
      | IC_CreateVariables _ \<Rightarrow> ICTYPE_CREATE_VARIABLES | IC_DeleteVariables _ \<Rightarrow> ICTYPE_DELETE_VARIABLES),
    icNumRecords = of_nat (ic_size c)\<rparr>"

fun records_bytes :: "InstructionContainer \<Rightarrow> u8 list" where
  "records_bytes (IC_Summaries xs) = concat (map enc_VarSummT xs)"
| "records_bytes (IC_Updates xs) = concat (map enc_VarUpdateT xs)"
| "records_bytes (IC_RequestVarUpdates xs) = concat (map enc_VarReqUpdateT xs)"
| "records_bytes (IC_RequestVarCreates xs) = concat (map enc_VarReqCreateT xs)"
| "records_bytes (IC_CreateVariables xs) = concat (map enc_VarCreateT xs)"
| "records_bytes (IC_DeleteVariables xs) = concat (map enc_VarDeleteT xs)"

lemma enc_IC_split: "0 < ic_size c \<Longrightarrow> enc_IC c = enc_ICHeaderT (header_of c) @ records_bytes c"
  by (cases c) (simp_all add: container_bytes_def header_of_def)

lemma dispatch_ok:
  assumes "wf_IC c" "wf_da d" "da_rest d = records_bytes c @ r"
  shows "dispatch_container (header_of c) rx d = (Inr (collect_IC c rx), da_advance (length (records_bytes c)) d)"
proof (cases c)
  case (IC_Summaries xs)
  then have "icType (header_of c) = ICTYPE_SUMMARIES" by (simp add: header_of_def)
  with IC_Summaries show ?thesis
    using assms extract_ok [OF summ_codec.codec_axioms _ _ _ assms(2), of xs r]
    by (simp add: dispatch_cases(1) bindE_Inr header_of_def wf_IC_def list_all_iff)
next
  case (IC_Updates xs)
  then have "icType (header_of c) = ICTYPE_UPDATES" by (simp add: header_of_def)
  with IC_Updates show ?thesis
    using assms extract_ok [OF update_codec.codec_axioms _ _ _ assms(2), of xs r]
    by (simp add: dispatch_cases(2) bindE_Inr header_of_def wf_IC_def list_all_iff)
next
  case (IC_RequestVarUpdates xs)
  then have "icType (header_of c) = ICTYPE_REQUEST_VARUPDATES" by (simp add: header_of_def)
  with IC_RequestVarUpdates show ?thesis
    using assms extract_ok [OF requpd_codec.codec_axioms _ _ _ assms(2), of xs r]
    by (simp add: dispatch_cases(3) bindE_Inr header_of_def wf_IC_def list_all_iff)
next
  case (IC_RequestVarCreates xs)
  then have "icType (header_of c) = ICTYPE_REQUEST_VARCREATES" by (simp add: header_of_def)
  with IC_RequestVarCreates show ?thesis
    using assms extract_ok [OF reqcreate_codec.codec_axioms _ _ _ assms(2), of xs r]
    by (simp add: dispatch_cases(4) bindE_Inr header_of_def wf_IC_def list_all_iff)
next
  case (IC_CreateVariables xs)
  then have "icType (header_of c) = ICTYPE_CREATE_VARIABLES" by (simp add: header_of_def)
  with IC_CreateVariables show ?thesis
    using assms extract_ok [OF create_codec.codec_axioms _ _ _ assms(2), of xs r]
    by (simp add: dispatch_cases(5) bindE_Inr header_of_def wf_IC_def list_all_iff)
next
  case (IC_DeleteVariables xs)
  then have "icType (header_of c) = ICTYPE_DELETE_VARIABLES" by (simp add: header_of_def)
  with IC_DeleteVariables show ?thesis
    using assms extract_ok [OF delete_codec.codec_axioms _ _ _ assms(2), of xs r]
    by (simp add: dispatch_cases(6) bindE_Inr header_of_def wf_IC_def list_all_iff)
qed


lemma parse_containers_reads:
  "list_all wf_IC cs \<Longrightarrow> wf_da d \<Longrightarrow> da_rest d = payload_bytes cs \<Longrightarrow>
   \<exists>d'. parse_containers rx d =
     Some (Inr (fold collect_IC (read_containers (bytes_used d + bytes_available d) (bytes_used d) cs) rx), d')"
proof (induction cs arbitrary: d rx)
  case Nil
  then have "bytes_available d = 0" using length_da_rest [of d] by simp
  then show ?case by (subst parse_containers.simps) simp
next
  case (Cons c cs)
  have c: "wf_IC c" "0 < ic_size c" using Cons.prems(1) by (simp_all add: wf_IC_def)
  show ?case
  proof (cases "bytes_used d < bytes_available d")
    case False
    then show ?thesis by (subst parse_containers.simps) simp
  next
    case True
    let ?h = "enc_ICHeaderT (header_of c)" and ?b = "records_bytes c"
    let ?d1 = "da_advance (length ?h) d"
    let ?d2 = "da_advance (length (enc_IC c)) d"
    have rest: "da_rest d = ?h @ ?b @ payload_bytes cs"
      using Cons.prems(3) enc_IC_split [OF c(2)] by simp
    have l: "length (?h @ ?b) \<le> bytes_available d"
      using rest length_da_rest [OF Cons.prems(2)] by simp
    have h: "des_ICHeaderT d = (Inr (header_of c), ?d1)"
      by (rule header_codec.des [OF TrueI Cons.prems(2) rest])
    have r1: "da_rest ?d1 = ?b @ payload_bytes cs" using rest by simp
    have w1: "wf_da ?d1" using Cons.prems(2) l by simp
    have dc: "dispatch_container (header_of c) rx ?d1 = (Inr (collect_IC c rx), ?d2)"
      using dispatch_ok [OF c(1) w1 r1, of rx] enc_IC_split [OF c(2)] by simp
    have "wf_da ?d2" "da_rest ?d2 = payload_bytes cs"
      using Cons.prems(2) l rest enc_IC_split [OF c(2)] by simp_all
    from Cons.IH [OF _ this, of "collect_IC c rx"] Cons.prems(1) l enc_IC_split [OF c(2)] obtain d' where
      "parse_containers (collect_IC c rx) ?d2 = Some (Inr (fold collect_IC
        (read_containers (bytes_used d + bytes_available d) (bytes_used d + length (enc_IC c)) cs)
        (collect_IC c rx)), d')" by auto
    then show ?thesis
      using True h dc by (subst parse_containers.simps) simp
  qed
qed

lemma read_containers_prefix: "prefix (read_containers len start cs) cs"
  by (induction cs arbitrary: start) simp_all

lemma read_containers_all:
  assumes "2 * (start + length (payload_bytes (butlast cs))) < len"
  shows "read_containers len start cs = cs"
  using assms by (induction cs arbitrary: start) (auto split: if_splits simp: add.assoc)

lemma fresh_area_fields:
  "bytes_used (MemoryChunkDisassemblyArea n bs) = 0" "bytes_available (MemoryChunkDisassemblyArea n bs) = n"
  by (simp_all add: MemoryChunkDisassemblyArea_def)

text \<open>A payload that \<open>process_received_payload\<close> is handed as a fresh area.\<close>

lemma process_received_payload_reads:
  assumes "list_all wf_IC cs"
  shows "process_received_payload clock
      (MemoryChunkDisassemblyArea (length (payload_bytes cs)) (payload_bytes cs)) pd
    = Some (process_records clock
        (fold collect_IC (read_containers (length (payload_bytes cs)) 0 cs) new_rx_lists) pd)"
  using parse_containers_reads [OF assms, of "MemoryChunkDisassemblyArea (length (payload_bytes cs)) (payload_bytes cs)"
      new_rx_lists]
  by (auto simp: process_received_payload_def fresh_area_fields)

end
