(* ===== verification/VardisDemon.thy ===== *)
theory VardisDemon
  imports VardisReceive
begin

text \<open>
  The VarDis demon as a state machine: its threads (receiver, transmitter, scrubber, the
  RTDB service thread and the management commands) act on the protocol state under the
  store's lock, each action being one step.  An exception that reaches the main loop of
  a thread sets the exit flag of the demon.  The result is the invariant of every
  reachable state of a running demon.
\<close>

section \<open>Steps\<close>

record VardisDemon =
  protocol_data :: VardisProtocolData
  vardis_exitFlag :: bool

text \<open>
  \<open>handle_request_queue\<close> of \<open>dcp/vardis/vardis_management_rtdb.cc\<close> for one buffer of the
  request queue: the request is deserialized, handled, and the confirm is serialized
  into a buffer of \<open>conf_size\<close> bytes of the confirm queue.
\<close>

definition serve_request ::
  "(da, 'r) action \<Rightarrow> ('r \<Rightarrow> (VardisProtocolData, 'c) action) \<Rightarrow> ('c \<Rightarrow> (aa, unit) action)
     \<Rightarrow> nat \<Rightarrow> u8 list \<Rightarrow> nat \<Rightarrow> u8 list \<Rightarrow> (VardisProtocolData, u8 list) action" where
  "serve_request des handler ser conf_size conf_memaddr len memaddr pd =
     (case des (MemoryChunkDisassemblyArea len memaddr) of
        (Inl e, _) \<Rightarrow> (Inl e, pd)
      | (Inr theRequest, _) \<Rightarrow>
          bindE (handler theRequest) (\<lambda>theConfirm.
            case MemoryChunkAssemblyArea_block conf_size (Some conf_memaddr) of
              Inl e \<Rightarrow> throwE e
            | Inr ass_area \<Rightarrow>
                (case ser theConfirm ass_area of
                   (Inl e, _) \<Rightarrow> throwE e
                 | (Inr _, ass_area) \<Rightarrow> retE (aa_written ass_area))) pd)"

text \<open>The main loop of a thread catches an exception and sets the exit flag.\<close>

definition run_in_thread :: "(dcp_error + 'a) \<times> VardisProtocolData \<Rightarrow> VardisDemon" where
  "run_in_thread r =
     (case r of (Inl _, pd) \<Rightarrow> \<lparr>protocol_data = pd, vardis_exitFlag = True\<rparr>
              | (Inr _, pd) \<Rightarrow> \<lparr>protocol_data = pd, vardis_exitFlag = False\<rparr>)"

text \<open>
  The transmitter's callback: the payload is built in the buffer of the queue behind the
  request header of \<open>hdr\<close> bytes.  An empty payload is not handed over.
\<close>

definition transmit_handler ::
  "nat \<Rightarrow> nat \<Rightarrow> nat \<Rightarrow> u8 list \<Rightarrow> VardisProtocolData
     \<Rightarrow> dcp_error + (u8 list \<times> nat) \<times> VardisDemon" where
  "transmit_handler hdr maxPayloadSize bufferSize memaddr pd =
     (case MemoryChunkAssemblyArea_block (min maxPayloadSize bufferSize) (Some (drop hdr memaddr)) of
        Inl e \<Rightarrow> Inl e
      | Inr area \<Rightarrow>
          (case construct_payload False \<lparr>tx_pd = pd, tx_area = area, tx_containers = 0\<rparr> of
             (Inl e, _) \<Rightarrow> Inl e
           | (Inr x, s) \<Rightarrow>
               Inr (if tx_containers s = 0 then ([], 0)
                    else (aa_written (tx_area s), bytes_used (tx_area s) + hdr),
                    \<lparr>protocol_data = tx_pd s, vardis_exitFlag = x\<rparr>)))"

text \<open>
  With \<open>lockingForIndividualContainers\<close> the lock is released between the six loops of
  the receiver and between the six methods of the transmitter, so that other threads
  can come in between: the single loops and methods are steps as well.
\<close>

definition receiver_loops ::
  "(nat \<Rightarrow> TimeStampT) \<Rightarrow> rx_lists \<Rightarrow> (VardisProtocolData, unit) action list" where
  "receiver_loops clock rx =
     [forE (\<lambda>(k, c). process_var_create (clock k) c) (List.enumerate 0 (icCreateVariables rx)),
      forE process_var_delete (icDeleteVariables rx),
      forE (\<lambda>(k, u). process_var_update (clock k) u)
        (List.enumerate (length (icCreateVariables rx)) (icUpdates rx)),
      forE process_var_summary (icSummaries rx),
      forE process_var_requpdate (icRequestVarUpdates rx),
      forE process_var_reqcreate (icRequestVarCreates rx)]"

definition transmitter_methods :: "(tx_state, unit) action list" where
  "transmitter_methods =
     [makeICTypeCreateVariables, makeICTypeDeleteVariables, makeICTypeRequestVarCreates,
      makeICTypeSummaries, makeICTypeUpdates, makeICTypeRequestVarUpdates]"

inductive demon_step :: "VardisDemon \<Rightarrow> VardisDemon \<Rightarrow> bool" where
  receive: "len \<le> length buf \<Longrightarrow> receiver_round clock ok len buf (pd, False) = Some (pd', x)
    \<Longrightarrow> demon_step \<lparr>protocol_data = pd, vardis_exitFlag = False\<rparr> \<lparr>protocol_data = pd', vardis_exitFlag = x\<rparr>"
| receive_part: "rx_ok rx \<Longrightarrow> m \<in> set (receiver_loops clock rx)
    \<Longrightarrow> demon_step \<lparr>protocol_data = pd, vardis_exitFlag = False\<rparr> (run_in_thread (m pd))"
| transmit: "hdr + min maxp bsz \<le> length mem \<Longrightarrow> transmit_handler hdr maxp bsz mem pd = Inr (out, s')
    \<Longrightarrow> demon_step \<lparr>protocol_data = pd, vardis_exitFlag = False\<rparr> s'"
| transmit_part: "wf_aa a \<Longrightarrow> m \<in> set transmitter_methods
    \<Longrightarrow> m \<lparr>tx_pd = pd, tx_area = a, tx_containers = c\<rparr> = (r, t)
    \<Longrightarrow> demon_step \<lparr>protocol_data = pd, vardis_exitFlag = False\<rparr> (run_in_thread (r, tx_pd t))"
| scrub: "demon_step \<lparr>protocol_data = pd, vardis_exitFlag = False\<rparr>
    (run_in_thread (scrubbing_step period last_scrub t next_scrub pd))"
| rtdb_create: "len \<le> length mem \<Longrightarrow> demon_step \<lparr>protocol_data = pd, vardis_exitFlag = False\<rparr>
    (run_in_thread (serve_request des_RTDB_Create_Request (handle_rtdb_create_request now1 now2)
       ser_RTDB_Confirm conf_size conf_mem len mem pd))"
| rtdb_delete: "len \<le> length mem \<Longrightarrow> demon_step \<lparr>protocol_data = pd, vardis_exitFlag = False\<rparr>
    (run_in_thread (serve_request des_RTDB_Delete_Request handle_rtdb_delete_request
       ser_RTDB_Confirm conf_size conf_mem len mem pd))"
| rtdb_update: "len \<le> length mem \<Longrightarrow> demon_step \<lparr>protocol_data = pd, vardis_exitFlag = False\<rparr>
    (run_in_thread (serve_request des_RTDB_Update_Request (handle_rtdb_update_request now)
       ser_RTDB_Confirm conf_size conf_mem len mem pd))"
| rtdb_read: "demon_step \<lparr>protocol_data = pd, vardis_exitFlag = False\<rparr>
    (run_in_thread (handle_rtdb_read_request rd pd))"
| set_active: "demon_step \<lparr>protocol_data = pd, vardis_exitFlag = False\<rparr>
    \<lparr>protocol_data = pd\<lparr>vardis_store := set_vardis_isactive b (vardis_store pd)\<rparr>, vardis_exitFlag = False\<rparr>"

inductive demon_reachable :: "VardisProtocolData \<Rightarrow> VardisDemon \<Rightarrow> bool" for pd0 where
  start: "demon_reachable pd0 \<lparr>protocol_data = pd0, vardis_exitFlag = False\<rparr>"
| step: "demon_reachable pd0 s \<Longrightarrow> demon_step s s' \<Longrightarrow> demon_reachable pd0 s'"

definition demon_ok :: "VardisDemon \<Rightarrow> bool" where
  "demon_ok s \<longleftrightarrow> (\<not> vardis_exitFlag s \<longrightarrow> wf_pd (protocol_data s))"


section \<open>Every step keeps the invariant\<close>

lemma run_in_thread_simps [simp]:
  "run_in_thread (Inl e, pd) = \<lparr>protocol_data = pd, vardis_exitFlag = True\<rparr>"
  "run_in_thread (Inr x, pd) = \<lparr>protocol_data = pd, vardis_exitFlag = False\<rparr>"
  by (simp_all add: run_in_thread_def)

lemma demon_ok_run:
  "(\<And>x pd'. r = (Inr x, pd') \<Longrightarrow> wf_pd pd') \<Longrightarrow> demon_ok (run_in_thread r)"
  by (cases r; cases "fst r") (auto simp: demon_ok_def run_in_thread_def)

lemma process_safe:
  "wf_VarCreateT c \<Longrightarrow> safe_action (process_var_create now c)" "safe_action (process_var_delete d)"
  "wf_VarUpdateT u \<Longrightarrow> safe_action (process_var_update now u)" "safe_action (process_var_summary y)"
  "safe_action (process_var_requpdate q)" "safe_action (process_var_reqcreate r)"
  by (intro safe_actionI process_var_create_wf process_var_delete_wf process_var_update_wf
      process_var_summary_wf process_var_requpdate_wf process_var_reqcreate_wf; assumption)+

lemma receiver_loops_safe: "rx_ok rx \<Longrightarrow> m \<in> set (receiver_loops clock rx) \<Longrightarrow> safe_action m"
  by (auto simp: receiver_loops_def rx_ok_def list_all_iff process_safe
      intro!: safe_forE dest!: set_enumerate_snd)

lemma receiver_round_ok:
  assumes "wf_pd pd" "len \<le> length buf"
  obtains pd' x where "receiver_round clock ok len buf (pd, False) = Some (pd', x)" "wf_pd pd'" "same_conf pd pd'"
proof -
  obtain r pd' where
    "process_received_payload clock (MemoryChunkDisassemblyArea len buf) pd = Some (r, pd')"
    "wf_pd pd'" "same_conf pd pd'"
    by (rule process_received_payload_total [OF assms(1), of "MemoryChunkDisassemblyArea len buf" clock])
      (use assms(2) in simp)
  then show ?thesis
    using that [of pd' True] that [of pd' False] that [of pd False] assms(1)
    by (cases r; cases "get_vardis_isactive (vardis_store pd) \<and> len > 0 \<and> ok")
      (simp_all add: receiver_round_def)
qed

lemma transmitter_methods_sends:
  assumes "m \<in> set transmitter_methods" "wf_pd pd" "wf_aa a"
  shows "\<exists>bs pd'. sends m pd a bs pd'"
proof -
  have "wf_pd pd \<and> wf_aa a" using assms by simp
  note runs = create_maker.run [OF this] delete_maker.run [OF this] reqcreate_maker.run [OF this]
    summary_maker.run [OF this] update_maker.run [OF this] requpdate_maker.run [OF this]
  show ?thesis
    using assms(1) runs unfolding transmitter_methods_def list.set insert_iff empty_iff by blast
qed

lemma scrubbing_step_ok:
  assumes "wf_pd pd"
  obtains l pd' where "scrubbing_step period last_scrub t next_scrub pd = (Inr l, pd')"
    "wf_pd pd'" "same_conf pd pd'"
proof -
  let ?vs = "sorted_list_of_set (active_variables pd)"
  have "\<forall>i \<in> set ?vs. used pd i" "distinct ?vs"
    using wf_pdD(4) [OF assms] by (simp_all add: used_ids_def)
  from scrub_loop [OF assms this, of t] obtain pd' where
    "forE (scrub_variable t) ?vs pd = (Inr (), pd')" "wf_pd pd'" "same_conf pd pd'" by blast
  then have "\<exists>l pd'. scrubbing_step period last_scrub t next_scrub pd = (Inr l, pd') \<and> wf_pd pd' \<and> same_conf pd pd'"
    using assms by (auto simp: scrubbing_step_def bindE_def scrub_round_eq)
  with that show ?thesis by blast
qed

lemma create_request_ok:
  assumes "wf_pd pd" "wf_RTDB_Create_Request r" "handle_rtdb_create_request now1 now2 r pd = (Inr c, pd')"
  shows "wf_pd pd'"
proof (cases "create_status pd r = VARDIS_STATUS_OK")
  case False
  then show ?thesis using handle_rtdb_create_refused [OF False] assms by simp
next
  case True
  then have "mb_length (spec_descr (crq_spec r)) > 0"
    using handle_rtdb_create_empty_description [OF assms(1) True, of now1 now2] assms(3) by fastforce
  from handle_rtdb_create_accept [OF assms(1) True assms(2) this, of now1 now2] assms(3)
  show ?thesis by auto
qed

lemma serve_request_wf:
  assumes "serve_request des handler ser conf_size conf_mem len mem pd = (Inr out, pd')"
    and "codec s des enc k" "len \<le> length mem"
    and "\<And>r c pd'. k r \<Longrightarrow> handler r pd = (Inr c, pd') \<Longrightarrow> wf_pd pd'"
  shows "wf_pd pd'"
proof (cases "des (MemoryChunkDisassemblyArea len mem)")
  case (Pair q d)
  show ?thesis
  proof (cases q)
    case (Inl e)
    then show ?thesis using assms(1) Pair by (simp add: serve_request_def)
  next
    case (Inr r)
    have "k r" using codec.des_soundD(1) [OF assms(2) Pair [unfolded Inr]] assms(3) by simp
    with assms(1,4) Pair Inr show ?thesis
      by (auto simp: serve_request_def elim!: bindE_InrE split: sum.splits prod.splits)
  qed
qed

lemma set_active_simps:
  "id_states (set_vardis_isactive b st) = id_states st"
  "valueBufferSize (set_vardis_isactive b st) = valueBufferSize st"
  "descrBufferSize (set_vardis_isactive b st) = descrBufferSize st"
  "used_ids (set_vardis_isactive b st) = used_ids st"
  "value_bytes i (set_vardis_isactive b st) = value_bytes i st"
  "descr_bytes i (set_vardis_isactive b st) = descr_bytes i st"
  by (simp_all add: set_vardis_isactive_def used_ids_def value_bytes_def descr_bytes_def)

lemma wf_pd_set_active:
  assumes "wf_pd pd"
  shows "wf_pd (pd\<lparr>vardis_store := set_vardis_isactive b (vardis_store pd)\<rparr>)"
  using wf_pdD [OF assms] wf_queuesD [OF wf_pdD(2) [OF assms]] wf_pdD(5) [OF assms, of 0]
  by (intro wf_pdI_local [OF assms, where i = 0])
    (auto simp: local_simps set_active_simps)


lemma transmit_handler_ok:
  assumes "wf_pd pd" "hdr + min maxp bsz \<le> length mem"
    "transmit_handler hdr maxp bsz mem pd = Inr (out, s')"
  shows "wf_pd (protocol_data s') \<and> \<not> vardis_exitFlag s'"
proof -
  obtain a where a: "MemoryChunkAssemblyArea_block (min maxp bsz) (Some (drop hdr mem)) = Inr a"
    using assms(3) by (auto simp: transmit_handler_def split: sum.splits)
  have "wf_aa a" using wf_new_areas(4) [OF a] assms(2) by simp
  then obtain ch k where
    "construct_payload False \<lparr>tx_pd = pd, tx_area = a, tx_containers = 0\<rparr> =
      (Inr False, \<lparr>tx_pd = after_sending ch pd, tx_area = aa_append (payload_bytes (sent_containers pd ch)) a,
               tx_containers = k\<rparr>)" "wf_pd (after_sending ch pd)"
    by (rule construct_payload_ok [OF assms(1)])
  then show ?thesis using assms(3) a by (auto simp: transmit_handler_def)
qed

lemma handlers_ok:
  "wf_pd pd \<Longrightarrow> handle_rtdb_delete_request r pd = (Inr c, pd') \<Longrightarrow> wf_pd pd'"
  "wf_pd pd \<Longrightarrow> wf_RTDB_Update_Request u \<Longrightarrow> handle_rtdb_update_request now u pd = (Inr c', pd') \<Longrightarrow> wf_pd pd'"
  "wf_pd pd \<Longrightarrow> handle_rtdb_read_request rd pd = (Inr c'', pd') \<Longrightarrow> wf_pd pd'"
proof -
  assume wf: "wf_pd pd"
  show "wf_pd pd'" if "handle_rtdb_delete_request r pd = (Inr c, pd')"
  proof (cases "delete_status pd r = VARDIS_STATUS_OK")
    case True
    then have "used pd (irq_varId r)" by (auto simp: delete_status_def vardis_status_defs split: if_splits)
    with that True show ?thesis
      using with_stats_wf(1) [OF deleted_pd_wf(1) [OF wf]] by (auto simp: handle_rtdb_delete_spec)
  qed (use that wf in \<open>simp add: handle_rtdb_delete_spec\<close>)
  show "wf_pd pd'" if "wf_RTDB_Update_Request u" "handle_rtdb_update_request now u pd = (Inr c', pd')"
    using that wf own_updated_pd_wf [OF wf] by (auto simp: handle_rtdb_update_spec [OF wf] split: if_splits)
  show "wf_pd pd'" if "handle_rtdb_read_request rd pd = (Inr c'', pd')"
    using that wf with_stats_wf(1) [OF wf] by (auto simp: handle_rtdb_read_spec [OF wf] split: if_splits)
qed

lemma demon_step_ok: "demon_step s s' \<Longrightarrow> demon_ok s \<Longrightarrow> demon_ok s'"
proof (induction rule: demon_step.induct)
  case (receive len buf clock ok pd pd' x)
  then show ?case using receiver_round_ok [of pd len buf clock ok] by (auto simp: demon_ok_def)
next
  case (receive_part rx m clock pd)
  then have "safe_action m" "wf_pd pd" by (simp_all add: receiver_loops_safe demon_ok_def)
  then show ?case by (auto elim: safe_actionE intro!: demon_ok_run)
next
  case (transmit hdr maxp bsz mem pd out s')
  then show ?case using transmit_handler_ok by (simp add: demon_ok_def)
next
  case (transmit_part a m pd c r t)
  then have "wf_pd pd" by (simp add: demon_ok_def)
  with transmit_part transmitter_methods_sends obtain bs pd' where "sends m pd a bs pd'" by blast
  then have "\<exists>k. (r, t) = (Inr (), \<lparr>tx_pd = pd', tx_area = aa_append bs a, tx_containers = k\<rparr>)" "wf_pd pd'"
    unfolding sends_def transmit_part(3) [symmetric] by blast+
  then show ?case by (auto simp: demon_ok_def)
next
  case (scrub pd period last_scrub t next_scrub)
  then have "wf_pd pd" by (simp add: demon_ok_def)
  then obtain l pd' where "scrubbing_step period last_scrub t next_scrub pd = (Inr l, pd')" "wf_pd pd'"
    by (rule scrubbing_step_ok)
  then show ?case by (simp add: demon_ok_def)
next
  case (rtdb_create len mem pd now1 now2 conf_size conf_mem)
  then have wf: "wf_pd pd" by (simp add: demon_ok_def)
  show ?case
  proof (rule demon_ok_run)
    fix x pd'
    assume "serve_request des_RTDB_Create_Request (handle_rtdb_create_request now1 now2) ser_RTDB_Confirm
      conf_size conf_mem len mem pd = (Inr x, pd')"
    then show "wf_pd pd'"
      by (rule serve_request_wf [OF _ create_request_codec.codec_axioms rtdb_create(1)]) (rule create_request_ok [OF wf])
  qed
next
  case (rtdb_delete len mem pd conf_size conf_mem)
  then have wf: "wf_pd pd" by (simp add: demon_ok_def)
  show ?case
  proof (rule demon_ok_run)
    fix x pd'
    assume "serve_request des_RTDB_Delete_Request handle_rtdb_delete_request ser_RTDB_Confirm
      conf_size conf_mem len mem pd = (Inr x, pd')"
    then show "wf_pd pd'"
      by (rule serve_request_wf [OF _ delete_request_codec.codec_axioms rtdb_delete(1)]) (rule handlers_ok(1) [OF wf])
  qed
next
  case (rtdb_update len mem pd now conf_size conf_mem)
  then have wf: "wf_pd pd" by (simp add: demon_ok_def)
  show ?case
  proof (rule demon_ok_run)
    fix x pd'
    assume "serve_request des_RTDB_Update_Request (handle_rtdb_update_request now) ser_RTDB_Confirm
      conf_size conf_mem len mem pd = (Inr x, pd')"
    then show "wf_pd pd'"
      by (rule serve_request_wf [OF _ update_request_codec.codec_axioms rtdb_update(1)]) (rule handlers_ok(2) [OF wf])
  qed
next
  case (rtdb_read pd rd)
  then have wf: "wf_pd pd" by (simp add: demon_ok_def)
  show ?case by (rule demon_ok_run) (rule handlers_ok(3) [OF wf])
next
  case (set_active pd b)
  then show ?case by (simp add: demon_ok_def wf_pd_set_active)
qed

lemma demon_reachable_ok: "demon_reachable pd0 s \<Longrightarrow> wf_pd pd0 \<Longrightarrow> demon_ok s"
  by (induction rule: demon_reachable.induct) (simp add: demon_ok_def, blast intro: demon_step_ok)

text \<open>The initial state: a store as \<open>initialize_array_store\<close> builds it.\<close>

lemma initial_wf:
  assumes "maxdescrlen < dbs - 8" "maxvallen < vbs - 8" "maxdescrlen \<le> 255" "maxvallen \<le> 255"
  obtains st where
    "initialize_array_store vbs dbs (Some (dmem, vmem)) maxsumm maxdescrlen maxvallen maxrep own = Inr st"
    "wf_pd (new_VardisProtocolData st)"
proof -
  obtain st where st:
    "initialize_array_store vbs dbs (Some (dmem, vmem)) maxsumm maxdescrlen maxvallen maxrep own = Inr st"
    "wf_store st" "\<And>i. \<not> is_used (id_states st i)"
    "get_conf_max_description_length st = maxdescrlen" "get_conf_max_value_length st = maxvallen"
    "valueBufferSize st = vbs" "descrBufferSize st = dbs"
    by (rule wf_initialize_array_store [OF assms(1,2)]) blast
  have "maxvallen \<le> vbs" "maxdescrlen \<le> dbs" using assms by linarith+
  then have "wf_pd (new_VardisProtocolData st)"
    using st assms
    by (simp add: wf_pd_def new_VardisProtocolData_def wf_queues_def wf_conf_def wf_var_def used_ids_def)
  with st(1) that show ?thesis by blast
qed

lemma initialized_wf:
  assumes "initialize_array_store vbs dbs mem maxsumm maxdescrlen maxvallen maxrep own = Inr st"
    and "maxdescrlen \<le> 255" "maxvallen \<le> 255"
  shows "wf_pd (new_VardisProtocolData st)"
proof -
  obtain dmem vmem where m: "mem = Some (dmem, vmem)"
    using assms(1) initialize_array_store_errors(1) [of vbs dbs maxsumm maxdescrlen maxvallen maxrep own]
    by (cases mem) auto
  have "maxdescrlen < dbs - 8" "maxvallen < vbs - 8"
    using assms(1) initialize_array_store_errors(2,3) by (metis not_le sum.distinct(1))+
  from initial_wf [OF this assms(2,3), of dmem vmem maxsumm maxrep own] obtain st' where
    "initialize_array_store vbs dbs mem maxsumm maxdescrlen maxvallen maxrep own = Inr st'"
    "wf_pd (new_VardisProtocolData st')" unfolding m by blast
  then show ?thesis using assms(1) by simp
qed

end
