(* ===== verification/VardisPropagation.thy ===== *)
theory VardisPropagation
  imports VardisDemon
begin

text \<open>
  The purpose of VarDis: what a node sends reaches the database of its neighbours.  The
  view a node has of a variable, its data without the repetition counters and the
  queues, changes through a record for that variable only, and the payload of a node
  that carries the creation or the newest value of a variable gives the receiver the
  sender's data.
\<close>

section \<open>The view of a variable\<close>

definition data_of :: "DBEntry \<Rightarrow> DBEntry" where
  "data_of e = e\<lparr>db_countUpdate := 0, db_countCreate := 0, db_countDelete := 0\<rparr>"

definition view :: "VardisProtocolData \<Rightarrow> VarIdT \<Rightarrow> bool \<times> DBEntry \<times> u8 list \<times> u8 list" where
  "view pd i = (used pd i, data_of (entry pd i), val_of pd i, descr_of pd i)"

lemma data_of_fields [simp]:
  "db_varId (data_of e) = db_varId e" "db_prodId (data_of e) = db_prodId e"
  "db_repCnt (data_of e) = db_repCnt e" "db_creationTime (data_of e) = db_creationTime e"
  "db_timeout (data_of e) = db_timeout e" "db_seqno (data_of e) = db_seqno e"
  "db_tStamp (data_of e) = db_tStamp e" "db_isDeleted (data_of e) = db_isDeleted e"
  by (simp_all add: data_of_def)

lemma data_of_counts [simp]:
  "data_of (e\<lparr>db_countUpdate := n\<rparr>) = data_of e" "data_of (e\<lparr>db_countCreate := n\<rparr>) = data_of e"
  "data_of (e\<lparr>db_countDelete := n\<rparr>) = data_of e"
  by (simp_all add: data_of_def)

lemma view_eqD:
  assumes "view pd i = view pd' j"
  shows "used pd i = used pd' j" "data_of (entry pd i) = data_of (entry pd' j)" "val_of pd i = val_of pd' j"
    "descr_of pd i = descr_of pd' j"
  using assms by (simp_all add: view_def)

lemma view_entry:
  assumes "view pd i = view pd' i"
  shows "db_prodId (entry pd i) = db_prodId (entry pd' i)" "db_seqno (entry pd i) = db_seqno (entry pd' i)"
    "db_isDeleted (entry pd i) = db_isDeleted (entry pd' i)"
  using arg_cong [OF view_eqD(2) [OF assms], of db_prodId] arg_cong [OF view_eqD(2) [OF assms], of db_seqno]
    arg_cong [OF view_eqD(2) [OF assms], of db_isDeleted] by simp_all

section \<open>Records and views\<close>

text \<open>An action that keeps the view of \<open>i\<close>, the invariant and the configuration.\<close>

definition keeps_view :: "VarIdT \<Rightarrow> (VardisProtocolData, unit) action \<Rightarrow> bool" where
  "keeps_view i m \<longleftrightarrow> (\<forall>pd pd'. wf_pd pd \<longrightarrow> m pd = (Inr (), pd') \<longrightarrow> view pd' i = view pd i)"

lemma keeps_viewI:
  "(\<And>pd. wf_pd pd \<Longrightarrow> view (snd (m pd)) i = view pd i) \<Longrightarrow> keeps_view i m"
  unfolding keeps_view_def by (intro allI impI) (use snd_conv in fastforce)

lemma view_modify_simps [simp]:
  "view (pd\<lparr>vardis_store := modify_stats g st\<rparr>) i = view (pd\<lparr>vardis_store := st\<rparr>) i"
  "view (pd\<lparr>createQ := q\<rparr>) i = view pd i" "view (pd\<lparr>deleteQ := q\<rparr>) i = view pd i"
  "view (pd\<lparr>updateQ := q\<rparr>) i = view pd i" "view (pd\<lparr>summaryQ := q\<rparr>) i = view pd i"
  "view (pd\<lparr>reqUpdQ := q\<rparr>) i = view pd i" "view (pd\<lparr>reqCreateQ := q\<rparr>) i = view pd i"
  "view (pd\<lparr>active_variables := vs\<rparr>) i = view pd i"
  by (simp_all add: view_def)

lemma view_schedule [simp]:
  "view (pd\<lparr>vardis_store := modify_db_entry j (\<lambda>e. e\<lparr>db_countUpdate := n e\<rparr>) (vardis_store pd)\<rparr>) i = view pd i"
  "view (pd\<lparr>vardis_store := modify_db_entry j (\<lambda>e. e\<lparr>db_countCreate := n e\<rparr>) (vardis_store pd)\<rparr>) i = view pd i"
  by (simp_all add: view_def)

lemma view_summary: "keeps_view i (process_var_summary s)"
proof (rule keeps_viewI)
  fix pd assume "wf_pd pd"
  then show "view (snd (process_var_summary s pd)) i = view pd i"
    by (auto simp: process_var_summary_def exec_simps view_def)
qed

lemma view_requpdate: "keeps_view i (process_var_requpdate r)"
  by (rule keeps_viewI) (auto simp: process_var_requpdate_def exec_simps view_def)

lemma view_reqcreate: "keeps_view i (process_var_reqcreate r)"
  by (rule keeps_viewI) (auto simp: process_var_reqcreate_def exec_simps view_def)

lemma view_delete: "del_varId d \<noteq> i \<Longrightarrow> keeps_view i (process_var_delete d)"
  by (rule keeps_viewI) (auto simp: process_var_delete_spec with_stats_def deleted_pd_def view_def)

lemma view_create:
  assumes "wf_VarCreateT c" "spec_varId (create_spec c) \<noteq> i"
  shows "keeps_view i (process_var_create now c)"
proof (rule keeps_viewI)
  fix pd assume wf: "wf_pd pd"
  show "view (snd (process_var_create now c pd)) i = view pd i"
  proof (cases "create_accepted pd c")
    case True
    obtain pd' where "process_var_create now c pd = (Inr (), pd')"
      "used pd' = (used pd)(spec_varId (create_spec c) := True)"
      "entry pd' = (entry pd)(spec_varId (create_spec c) := created_entry now c)"
      "val_of pd' = (val_of pd)(spec_varId (create_spec c) := mb_bytes (upd_value (create_update c)))"
      "descr_of pd' = (descr_of pd)(spec_varId (create_spec c) := mb_bytes (spec_descr (create_spec c)))"
      by (rule process_var_create_accept [OF wf True assms(1), of now])
    then show ?thesis using assms(2) by (simp add: view_def fun_eq_iff)
  qed (simp add: process_var_create_ignore)
qed

lemma updated_pd_fields:
  assumes "wf_pd pd" "used pd (upd_varId u)" "wf_VarUpdateT u"
    "mb_length (upd_value u) \<le> valueBufferSize (vardis_store pd)"
  shows "used (updated_pd now u pd) j = used pd j"
    "entry (updated_pd now u pd) j = (if j = upd_varId u then (entry pd j)\<lparr>db_seqno := upd_seqno u,
        db_tStamp := now, db_countUpdate := db_repCnt (entry pd j)\<rparr> else entry pd j)"
    "val_of (updated_pd now u pd) j = (if j = upd_varId u then mb_bytes (upd_value u) else val_of pd j)"
    "descr_of (updated_pd now u pd) j = descr_of pd j"
  using assms wf_pdD(1) [OF assms(1)] wf_VarValueT_fields(1) [of "upd_value u"]
  by (simp_all add: updated_pd_def value_bytes_put_value wf_VarUpdateT_def)

text \<open>An update record for another variable, or with the sequence number the node has.\<close>

lemma view_update_other:
  assumes "wf_VarUpdateT u" "upd_varId u \<noteq> i"
  shows "keeps_view i (process_var_update now u)"
proof (rule keeps_viewI)
  fix pd assume wf: "wf_pd pd"
  let ?j = "upd_varId u" and ?v = "upd_value u"
  show "view (snd (process_var_update now u pd)) i = view pd i"
  proof (cases "used pd ?j \<and> \<not> db_isDeleted (entry pd ?j) \<and> db_prodId (entry pd ?j) \<noteq> ownNodeIdentifier pd
      \<and> mb_length ?v \<le> maxValueLength pd \<and> mb_length ?v \<noteq> 0
      \<and> db_seqno (entry pd ?j) \<noteq> upd_seqno u \<and> \<not> more_recent_seqno (db_seqno (entry pd ?j)) (upd_seqno u)")
    case True
    then have l: "mb_length ?v \<le> valueBufferSize (vardis_store pd)"
      using wf_pdD(3) [OF wf] by (simp add: wf_conf_def)
    with True have "process_var_update now u pd = (Inr (), updated_pd now u pd)"
      using process_var_update_accept [OF _ _ _ assms(1)] by blast
    with assms(2) updated_pd_fields [OF wf _ assms(1) l] True show ?thesis by (simp add: view_def)
  next
    case False
    then show ?thesis by (auto simp: process_var_update_def exec_simps view_def)
  qed
qed


lemma process_update_same:
  assumes "used pd (upd_varId u)" "db_seqno (entry pd (upd_varId u)) = upd_seqno u"
  shows "process_var_update now u pd = (Inr (), pd)"
  by (rule process_var_update_ignore) (use assms in auto)

text \<open>
  A loop in which every record keeps the view of \<open>i\<close> as long as the view is \<open>w\<close>.
\<close>

lemma loop_keeps_view:
  assumes "\<forall>x \<in> set xs. safe_action (f x)"
    and "\<And>x pd pd'. x \<in> set xs \<Longrightarrow> wf_pd pd \<Longrightarrow> view pd i = w \<Longrightarrow> f x pd = (Inr (), pd') \<Longrightarrow> view pd' i = w"
    and "wf_pd pd" "view pd i = w"
  obtains pd' where "forE f xs pd = (Inr (), pd')" "wf_pd pd'" "same_conf pd pd'" "view pd' i = w"
proof -
  have "\<exists>pd'. forE f xs pd = (Inr (), pd') \<and> wf_pd pd' \<and> same_conf pd pd' \<and> view pd' i = w"
    using assms
  proof (induction xs arbitrary: pd)
    case (Cons x xs)
    obtain pd1 where 1: "f x pd = (Inr (), pd1)" "wf_pd pd1" "same_conf pd pd1"
      using safe_actionE [of "f x" pd] Cons.prems by auto
    have "view pd1 i = w" using Cons.prems(2) [of x pd pd1] Cons.prems(3,4) 1(1) by simp
    with Cons.IH [OF _ _ 1(2)] Cons.prems(1,2) obtain pd' where
      "forE f xs pd1 = (Inr (), pd')" "wf_pd pd'" "same_conf pd1 pd'" "view pd' i = w" by auto
    then show ?case using 1 same_conf_trans [OF 1(3)] by auto
  qed simp
  with that show ?thesis by blast
qed


lemma keeps_viewD: "keeps_view i m \<Longrightarrow> wf_pd pd \<Longrightarrow> m pd = (Inr (), pd') \<Longrightarrow> view pd' i = view pd i"
  by (simp add: keeps_view_def)

lemma loop_keeps:
  assumes "\<And>x. x \<in> set xs \<Longrightarrow> safe_action (f x) \<and> keeps_view i (f x)" "wf_pd pd"
  obtains pd' where "forE f xs pd = (Inr (), pd')" "wf_pd pd'" "same_conf pd pd'" "view pd' i = view pd i"
proof (rule loop_keeps_view [of xs f i "view pd i" pd])
  fix x q q' assume "x \<in> set xs" "wf_pd q" "view q i = view pd i" "f x q = (Inr (), q')"
  with assms(1) keeps_viewD [of i "f x" q q'] show "view q' i = view pd i" by simp
qed (use assms that in auto)

section \<open>What a received payload does to one variable\<close>

lemma created_view:
  assumes "wf_pd pd" "wf_VarCreateT c" "create_accepted pd c"
  obtains pd' where "process_var_create now c pd = (Inr (), pd')" "wf_pd pd'" "same_conf pd pd'"
    "view pd' (spec_varId (create_spec c)) = (True, data_of (created_entry now c),
       mb_bytes (upd_value (create_update c)), mb_bytes (spec_descr (create_spec c)))"
proof -
  obtain pd' where "process_var_create now c pd = (Inr (), pd')" "wf_pd pd'" "same_conf pd pd'"
    "used pd' = (used pd)(spec_varId (create_spec c) := True)"
    "entry pd' = (entry pd)(spec_varId (create_spec c) := created_entry now c)"
    "val_of pd' = (val_of pd)(spec_varId (create_spec c) := mb_bytes (upd_value (create_update c)))"
    "descr_of pd' = (descr_of pd)(spec_varId (create_spec c) := mb_bytes (spec_descr (create_spec c)))"
    by (rule process_var_create_accept [OF assms(1,3,2), of now])
  then show ?thesis by (intro that [of pd']) (simp_all add: view_def fun_eq_iff)
qed

text \<open>Acceptance of a creation depends on the view of its variable and the configuration.\<close>

lemma create_accepted_cong:
  assumes "view pd' (spec_varId (create_spec c)) = view pd (spec_varId (create_spec c))" "same_conf pd pd'"
  shows "create_accepted pd' c = create_accepted pd c"
  using arg_cong [OF view_eqD(2) [OF assms(1)], of db_creationTime] view_eqD(1) [OF assms(1)] assms(2)
  by (simp add: create_accepted_def same_conf_def Let_def)

lemma create_loop_installs:
  fixes clock :: "nat \<Rightarrow> TimeStampT"
  assumes "\<forall>c \<in> set cs. wf_VarCreateT c" "distinct (map (\<lambda>c. spec_varId (create_spec c)) cs)"
    "c \<in> set cs" "create_accepted pd c" "wf_pd pd"
  obtains k pd' where "forE (\<lambda>(k, c). process_var_create (clock k) c) (List.enumerate n cs) pd = (Inr (), pd')"
    "wf_pd pd'" "same_conf pd pd'"
    "view pd' (spec_varId (create_spec c)) = (True, data_of (created_entry (clock k) c),
       mb_bytes (upd_value (create_update c)), mb_bytes (spec_descr (create_spec c)))"
proof -
  let ?f = "\<lambda>(k, c). process_var_create (clock k) c" and ?i = "spec_varId (create_spec c)"
  obtain xs ys where cs: "cs = xs @ c # ys" using assms(3) by (auto dest: split_list)
  have other: "safe_action (?f p) \<and> keeps_view ?i (?f p)"
    if p: "p \<in> set (List.enumerate m zs)" and "set zs \<subseteq> set cs - {c}" for p m zs
  proof -
    have "snd p \<in> set cs" "snd p \<noteq> c" using set_enumerate_snd [OF p] that(2) by auto
    moreover from this have "spec_varId (create_spec (snd p)) \<noteq> ?i"
      using assms(2,3) by (auto simp: distinct_map dest: inj_onD)
    ultimately show ?thesis
      using assms(1) view_create [of "snd p" ?i] by (auto simp: case_prod_beta process_safe)
  qed
  have sub: "set xs \<subseteq> set cs - {c}" "set ys \<subseteq> set cs - {c}" using assms(2) cs by (auto simp: distinct_map)
  obtain pd1 where 1: "forE ?f (List.enumerate n xs) pd = (Inr (), pd1)" "wf_pd pd1" "same_conf pd pd1"
    "view pd1 ?i = view pd ?i"
    by (rule loop_keeps [OF other [OF _ sub(1)] assms(5)])
  have "create_accepted pd1 c" using create_accepted_cong [OF 1(4,3)] assms(4) by simp
  then obtain pd2 where 2: "process_var_create (clock (n + length xs)) c pd1 = (Inr (), pd2)" "wf_pd pd2"
    "same_conf pd1 pd2" "view pd2 ?i = (True, data_of (created_entry (clock (n + length xs)) c),
       mb_bytes (upd_value (create_update c)), mb_bytes (spec_descr (create_spec c)))"
    by (rule created_view [OF 1(2), rotated]) (use assms(1,3) in auto)
  obtain pd3 where 3: "forE ?f (List.enumerate (Suc (n + length xs)) ys) pd2 = (Inr (), pd3)" "wf_pd pd3"
    "same_conf pd2 pd3" "view pd3 ?i = view pd2 ?i"
    by (rule loop_keeps [OF other [OF _ sub(2)] 2(2)])
  have "forE ?f (List.enumerate n cs) pd = (Inr (), pd3)"
    using 1(1) 2(1) 3(1) by (simp add: cs enumerate_append_eq forE_append bindE_Inr)
  then show ?thesis
    using that [of pd3 "n + length xs"] 2(4) 3 1(3) 2(3) same_conf_trans by metis
qed


text \<open>The loops over summaries and requests keep every view.\<close>

definition request_loops :: "rx_lists \<Rightarrow> (VardisProtocolData, unit) action" where
  "request_loops rx = bindE (forE process_var_summary (icSummaries rx)) (\<lambda>_.
     bindE (forE process_var_requpdate (icRequestVarUpdates rx)) (\<lambda>_.
     forE process_var_reqcreate (icRequestVarCreates rx)))"

lemma request_loops_keep_view:
  assumes "wf_pd pd"
  obtains pd' where "request_loops rx pd = (Inr (), pd')" "wf_pd pd'" "same_conf pd pd'" "view pd' i = view pd i"
proof -
  obtain p3 where 3: "forE process_var_summary (icSummaries rx) pd = (Inr (), p3)" "wf_pd p3" "same_conf pd p3"
    "view p3 i = view pd i"
    by (rule loop_keeps [where xs = "icSummaries rx" and f = process_var_summary and i = i, OF _ assms])
      (simp add: process_safe view_summary)
  obtain p4 where 4: "forE process_var_requpdate (icRequestVarUpdates rx) p3 = (Inr (), p4)" "wf_pd p4"
    "same_conf p3 p4" "view p4 i = view p3 i"
    by (rule loop_keeps [where xs = "icRequestVarUpdates rx" and f = process_var_requpdate and i = i, OF _ 3(2)])
      (simp add: process_safe view_requpdate)
  obtain p5 where 5: "forE process_var_reqcreate (icRequestVarCreates rx) p4 = (Inr (), p5)" "wf_pd p5"
    "same_conf p4 p5" "view p5 i = view p4 i"
    by (rule loop_keeps [where xs = "icRequestVarCreates rx" and f = process_var_reqcreate and i = i, OF _ 4(2)])
      (simp add: process_safe view_reqcreate)
  have "request_loops rx pd = (Inr (), p5)" using 3(1) 4(1) 5(1) by (simp add: request_loops_def bindE_Inr)
  then show ?thesis using that [of p5] 5(2-4) 3(3,4) 4(3,4) same_conf_trans by metis
qed

lemma process_records_split:
  "process_records clock rx = bindE (forE (\<lambda>(k, c). process_var_create (clock k) c) (List.enumerate 0 (icCreateVariables rx))) (\<lambda>_.
     bindE (forE process_var_delete (icDeleteVariables rx)) (\<lambda>_.
     bindE (forE (\<lambda>(k, u). process_var_update (clock k) u)
              (List.enumerate (length (icCreateVariables rx)) (icUpdates rx))) (\<lambda>_. request_loops rx)))"
  by (simp add: process_records_def request_loops_def)

text \<open>The loops after the creations keep a view that no delete or newer update record is for.\<close>

lemma later_loops_keep_view:
  assumes "rx_ok rx" "wf_pd pd" "view pd i = w" "fst w"
    and "\<forall>d \<in> set (icDeleteVariables rx). del_varId d \<noteq> i"
    and "\<forall>u \<in> set (icUpdates rx). upd_varId u \<noteq> i \<or> upd_seqno u = db_seqno (fst (snd w))"
    and creates: "forE (\<lambda>(k, c). process_var_create (clock k) c) (List.enumerate 0 (icCreateVariables rx)) pd0
      = (Inr (), pd)"
  obtains pd' where "process_records clock rx pd0 = (Inr (), pd')" "wf_pd pd'" "same_conf pd pd'" "view pd' i = w"
proof -
  let ?u = "\<lambda>(k, u). process_var_update (clock k) u"
  let ?us = "List.enumerate (length (icCreateVariables rx)) (icUpdates rx)"
  obtain p1 where 1: "forE process_var_delete (icDeleteVariables rx) pd = (Inr (), p1)" "wf_pd p1"
    "same_conf pd p1" "view p1 i = view pd i"
    by (rule loop_keeps [where xs = "icDeleteVariables rx" and f = process_var_delete and i = i, OF _ assms(2)])
      (use assms(5) in \<open>simp add: process_safe view_delete\<close>)
  have us: "safe_action (?u p)" "view q i = w \<Longrightarrow> wf_pd q \<Longrightarrow> ?u p q = (Inr (), q') \<Longrightarrow> view q' i = w"
    if "p \<in> set ?us" for p q q'
  proof -
    have p: "snd p \<in> set (icUpdates rx)" by (rule set_enumerate_snd [OF that])
    then have ok: "wf_VarUpdateT (snd p)" using assms(1) by (simp add: rx_ok_def list_all_iff)
    then show "safe_action (?u p)" by (simp add: case_prod_beta process_safe)
    assume q: "view q i = w" "wf_pd q" "?u p q = (Inr (), q')"
    show "view q' i = w"
    proof (cases "upd_varId (snd p) = i")
      case False
      then show ?thesis
        using keeps_viewD [OF view_update_other [OF ok False] q(2)] q by (simp add: case_prod_beta)
    next
      case True
      have "used q i" "db_seqno (entry q i) = db_seqno (fst (snd w))" using q(1) assms(4) by (auto simp: view_def)
      then have "process_var_update (clock (fst p)) (snd p) q = (Inr (), q)"
        using True assms(6) p by (intro process_update_same) auto
      then show ?thesis using q by (simp add: case_prod_beta)
    qed
  qed
  obtain p2 where 2: "forE ?u ?us p1 = (Inr (), p2)" "wf_pd p2" "same_conf p1 p2" "view p2 i = w"
    by (rule loop_keeps_view [of ?us ?u i w p1]) (use us 1(2,4) assms(3) in \<open>simp; blast?\<close>)+
  obtain p3 where 3: "request_loops rx p2 = (Inr (), p3)" "wf_pd p3" "same_conf p2 p3" "view p3 i = view p2 i"
    by (rule request_loops_keep_view [OF 2(2)])
  have "process_records clock rx pd0 = (Inr (), p3)"
    using creates 1(1) 2(1) 3(1) by (simp add: process_records_split bindE_Inr)
  then show ?thesis
    using that [of p3] 3(2-4) 1(3) 2(3,4) same_conf_trans by metis
qed

section \<open>The records of a sent payload\<close>

lemma collected_creates:
  "\<forall>c \<in> set cs. \<forall>xs. c \<noteq> IC_CreateVariables xs \<Longrightarrow>
   icCreateVariables (fold collect_IC cs rx) = icCreateVariables rx"
proof (induction cs arbitrary: rx)
  case (Cons c cs)
  then show ?case by (cases c) auto
qed simp

lemma collected_deletes:
  "set (icDeleteVariables (fold collect_IC cs rx))
     = set (icDeleteVariables rx) \<union> \<Union>{set xs |xs. IC_DeleteVariables xs \<in> set cs}"
proof (induction cs arbitrary: rx)
  case (Cons c cs)
  show ?case by (cases c; simp add: Cons.IH; blast)
qed simp

lemma collected_updates:
  "set (icUpdates (fold collect_IC cs rx)) = set (icUpdates rx) \<union> \<Union>{set xs |xs. IC_Updates xs \<in> set cs}"
proof (induction cs arbitrary: rx)
  case (Cons c cs)
  show ?case by (cases c; simp add: Cons.IH; blast)
qed simp

lemma collected_ok:
  "list_all ic_records_ok cs \<Longrightarrow> rx_ok rx \<Longrightarrow> rx_ok (fold collect_IC cs rx)"
proof (induction cs arbitrary: rx)
  case (Cons c cs)
  have "rx_ok (collect_IC c rx)" using Cons.prems by (cases c) (auto simp: rx_ok_def)
  then show ?case using Cons by simp
qed simp


definition sent :: "VardisProtocolData \<Rightarrow> tx_choice \<Rightarrow> InstructionContainer list" where
  "sent pd ch = filter (\<lambda>c. 0 < ic_size c) (sent_containers pd ch)"

definition received :: "VardisProtocolData \<Rightarrow> tx_choice \<Rightarrow> rx_lists" where
  "received pd ch = fold collect_IC (read_containers (length (payload_bytes (sent pd ch))) 0 (sent pd ch)) new_rx_lists"

lemma sent_wf: "wf_pd pd \<Longrightarrow> choice_ok pd ch \<Longrightarrow> list_all wf_IC (sent pd ch)"
  using sent_containers_wf by (auto simp: sent_def list_all_iff)

lemma payload_sent: "payload_bytes (sent pd ch) = payload_bytes (sent_containers pd ch)"
  by (simp add: sent_def payload_bytes_nonempty)

lemma receive_sent:
  assumes "wf_pd A" "choice_ok A ch"
  shows "process_received_payload clock (MemoryChunkDisassemblyArea
      (length (payload_bytes (sent_containers A ch))) (payload_bytes (sent_containers A ch))) B
    = Some (process_records clock (received A ch) B)"
  using process_received_payload_reads [OF sent_wf [OF assms], of clock B] by (simp add: payload_sent received_def)

lemma read_subset: "c \<in> set (read_containers n 0 cs) \<Longrightarrow> c \<in> set cs"
  using set_mono_prefix [OF read_containers_prefix [of n 0 cs]] by blast

lemma received_ok: "wf_pd A \<Longrightarrow> choice_ok A ch \<Longrightarrow> rx_ok (received A ch)"
  unfolding received_def
  by (rule collected_ok)
    (use sent_wf [of A ch] in \<open>auto simp: list_all_iff wf_IC_def rx_ok_def new_rx_lists_def dest: read_subset\<close>)

lemma received_deletes:
  "d \<in> set (icDeleteVariables (received A ch)) \<Longrightarrow> del_varId d \<in> set (tx_deletes ch)"
  unfolding received_def collected_deletes
  by (auto simp: new_rx_lists_def sent_def sent_containers_def dest!: read_subset split: if_splits)

lemma received_updates:
  "u \<in> set (icUpdates (received A ch)) \<Longrightarrow> \<exists>i \<in> set (tx_updates ch). u = update_record A i"
  unfolding received_def collected_updates
  by (auto simp: new_rx_lists_def sent_def sent_containers_def dest!: read_subset split: if_splits)

text \<open>The creations come first in the payload, so that they are always read.\<close>

lemma received_creates: "icCreateVariables (received A ch) = map (create_record A) (tx_creates ch)"
proof (cases "tx_creates ch = []")
  case True
  have "\<forall>c \<in> set (read_containers n 0 (sent A ch)). \<forall>xs. c \<noteq> IC_CreateVariables xs" for n
    using True by (auto simp: sent_def sent_containers_def dest!: read_subset split: if_splits)
  then show ?thesis using True by (simp add: received_def collected_creates new_rx_lists_def)
next
  case False
  let ?c = "IC_CreateVariables (map (create_record A) (tx_creates ch))"
  let ?r = "filter (\<lambda>c. 0 < ic_size c) (tl (sent_containers A ch))"
  have s: "sent A ch = ?c # ?r" using False by (simp add: sent_def sent_containers_def)
  have "0 < length (payload_bytes (sent A ch))" using False by (simp add: s container_bytes_def ICHeaderT_fixed_size_def)
  then obtain n where "received A ch = fold collect_IC (read_containers (length (payload_bytes (sent A ch))) n ?r)
      (collect_IC ?c new_rx_lists)"
    using s by (auto simp: received_def)
  moreover have "\<forall>c \<in> set (read_containers m n ?r). \<forall>xs. c \<noteq> IC_CreateVariables xs" for m
    using set_mono_prefix [OF read_containers_prefix [of m n ?r]] by (auto simp: sent_containers_def split: if_splits)
  ultimately show ?thesis by (simp add: collected_creates new_rx_lists_def)
qed

lemma queued_once:
  assumes "wf_pd A" "choice_ok A ch"
  shows "distinct (tx_creates ch)" "distinct (tx_updates ch)"
    "i \<in> set (tx_creates ch) \<Longrightarrow> used A i \<and> \<not> db_isDeleted (entry A i) \<and> i \<notin> set (tx_deletes ch)"
    "i \<in> set (tx_updates ch) \<Longrightarrow> used A i \<and> \<not> db_isDeleted (entry A i) \<and> i \<notin> set (tx_deletes ch)"
proof -
  note q = wf_queuesD [OF wf_pdD(2) [OF assms(1)], THEN wf_q_distinct]
  show "distinct (tx_creates ch)" "distinct (tx_updates ch)"
    using assms(2) q unfolding choice_ok_def prefix_def by auto
  have in_qs: "i \<in> set (tx_creates ch) \<Longrightarrow> in_q i (createQ A)" "i \<in> set (tx_updates ch) \<Longrightarrow> in_q i (updateQ A)"
    "i \<in> set (tx_deletes ch) \<Longrightarrow> in_q i (deleteQ A)"
    using assms(2) unfolding choice_ok_def prefix_def by auto
  show "used A i \<and> \<not> db_isDeleted (entry A i) \<and> i \<notin> set (tx_deletes ch)" if "i \<in> set (tx_creates ch)"
    using in_qs(1) [OF that] in_qs(3) wf_pdD(5) [OF assms(1), of i]
    by (auto simp: wf_var_def wf_entry_def split: if_splits)
  show "used A i \<and> \<not> db_isDeleted (entry A i) \<and> i \<notin> set (tx_deletes ch)" if "i \<in> set (tx_updates ch)"
    using in_qs(2) [OF that] in_qs(3) wf_pdD(5) [OF assms(1), of i]
    by (auto simp: wf_var_def wf_entry_def split: if_splits)
qed

lemma create_reaches_neighbour:
  assumes A: "wf_pd A" "choice_ok A ch" "i \<in> set (tx_creates ch)"
    and B: "wf_pd B" "create_accepted B (create_record A i)"
  obtains B' t where "process_received_payload clock (MemoryChunkDisassemblyArea
      (length (payload_bytes (sent_containers A ch))) (payload_bytes (sent_containers A ch))) B = Some (Inr (), B')"
    "wf_pd B'" "same_conf B B'" "view B' i = (True, (data_of (entry A i))\<lparr>db_tStamp := t\<rparr>, val_of A i, descr_of A i)"
proof -
  let ?c = "create_record A i" and ?rx = "received A ch"
  note q = queued_once [OF A(1,2)]
  have ci: "spec_varId (create_spec (create_record A j)) = j" for j by (simp add: create_record_def)
  have wfc: "\<forall>c \<in> set (icCreateVariables ?rx). wf_VarCreateT c"
    using received_ok [OF A(1,2)] by (simp add: rx_ok_def list_all_iff)
  obtain k B1 where 1: "forE (\<lambda>(k, c). process_var_create (clock k) c) (List.enumerate 0 (icCreateVariables ?rx)) B = (Inr (), B1)"
    "wf_pd B1" "same_conf B B1" "view B1 i = (True, data_of (created_entry (clock k) ?c),
       mb_bytes (upd_value (create_update ?c)), mb_bytes (spec_descr (create_spec ?c)))"
    by (rule create_loop_installs [OF wfc _ _ B(2,1), of clock 0, unfolded ci])
      (use q(1) A(3) in \<open>auto simp: received_creates o_def ci\<close>)
  have dat: "data_of (created_entry (clock k) ?c) = (data_of (entry A i))\<lparr>db_tStamp := clock k\<rparr>"
    using q(3) [OF A(3)] wf_varD(2) [OF A(1), of i]
    by (simp add: created_entry_def create_record_def data_of_def Let_def)
  let ?w = "(True, (data_of (entry A i))\<lparr>db_tStamp := clock k\<rparr>, val_of A i, descr_of A i)"
  have v: "view B1 i = ?w" using 1(4) by (simp add: dat) (simp add: create_record_def)
  have ups: "\<forall>u \<in> set (icUpdates ?rx). upd_varId u \<noteq> i \<or> upd_seqno u = db_seqno (fst (snd ?w))"
    by (auto simp: update_record_def dest!: received_updates)
  have dels: "\<forall>d \<in> set (icDeleteVariables ?rx). del_varId d \<noteq> i"
    using q(3) [OF A(3)] by (auto dest: received_deletes)
  obtain B' where "process_records clock ?rx B = (Inr (), B')" "wf_pd B'" "same_conf B1 B'" "view B' i = ?w"
    by (rule later_loops_keep_view [OF received_ok [OF A(1,2)] 1(2) v _ dels ups 1(1)]) simp
  then show ?thesis
    using that [of B' "clock k"] receive_sent [OF A(1,2), of clock B] same_conf_trans [OF 1(3)] by simp
qed


section \<open>Updates\<close>

fun updates_in :: "InstructionContainer \<Rightarrow> VarUpdateT list" where
  "updates_in (IC_Updates xs) = xs"
| "updates_in _ = []"

lemma collected_updates_list:
  "icUpdates (fold collect_IC cs rx) = icUpdates rx @ concat (map updates_in cs)"
proof (induction cs arbitrary: rx)
  case (Cons c cs)
  then show ?case by (cases c) simp_all
qed simp

lemma received_updates_distinct:
  assumes "wf_pd A" "choice_ok A ch"
  shows "distinct (map upd_varId (icUpdates (received A ch)))"
proof -
  let ?r = "read_containers (length (payload_bytes (sent A ch))) 0 (sent A ch)"
  obtain r where "sent A ch = ?r @ r" using read_containers_prefix unfolding prefix_def by blast
  then have "concat (map updates_in (sent A ch)) = icUpdates (received A ch) @ concat (map updates_in r)"
    by (metis received_def collected_updates_list concat_append map_append append_Nil new_rx_lists_def
        rx_lists.select_convs(2))
  moreover have "concat (map updates_in (sent A ch)) = map (update_record A) (tx_updates ch)"
    by (simp add: sent_def sent_containers_def)
  moreover have "distinct (map upd_varId (map (update_record A) (tx_updates ch)))"
    using queued_once(2) [OF assms] by (simp add: o_def update_record_def)
  ultimately show ?thesis by simp
qed

lemma updated_view:
  assumes "wf_pd pd" "wf_VarUpdateT u" "view pd (upd_varId u) = view pd0 (upd_varId u)" "same_conf pd0 pd"
    "used pd0 (upd_varId u)" "\<not> db_isDeleted (entry pd0 (upd_varId u))"
    "db_prodId (entry pd0 (upd_varId u)) \<noteq> ownNodeIdentifier pd0"
    "mb_length (upd_value u) \<le> maxValueLength pd0" "mb_length (upd_value u) \<noteq> 0"
    "more_recent_seqno (upd_seqno u) (db_seqno (entry pd0 (upd_varId u)))"
  obtains pd' where "process_var_update now u pd = (Inr (), pd')" "wf_pd pd'" "same_conf pd pd'"
    "view pd' (upd_varId u) = (True, (data_of (entry pd0 (upd_varId u)))\<lparr>db_seqno := upd_seqno u, db_tStamp := now\<rparr>,
       mb_bytes (upd_value u), descr_of pd0 (upd_varId u))"
proof -
  let ?i = "upd_varId u"
  note v = view_eqD [OF assms(3)] view_entry [OF assms(3)]
  have c: "ownNodeIdentifier pd = ownNodeIdentifier pd0" "maxValueLength pd = maxValueLength pd0"
    using assms(4) by (simp_all add: same_conf_def)
  have l: "mb_length (upd_value u) \<le> valueBufferSize (vardis_store pd)"
    using wf_pdD(3) [OF assms(1)] assms(8) c by (simp add: wf_conf_def)
  have h: "used pd ?i" "\<not> db_isDeleted (entry pd ?i)" "db_prodId (entry pd ?i) \<noteq> ownNodeIdentifier pd"
    "mb_length (upd_value u) \<le> maxValueLength pd" using assms(5-8) v c by simp_all
  have n: "db_seqno (entry pd ?i) \<noteq> upd_seqno u" "\<not> more_recent_seqno (db_seqno (entry pd ?i)) (upd_seqno u)"
    using assms(10) v(6) more_recent_seqno_asym by auto
  have run: "process_var_update now u pd = (Inr (), updated_pd now u pd)"
    by (rule process_var_update_accept [OF h(1-3) assms(2) h(4) assms(9) l n])
  have wf: "wf_pd (updated_pd now u pd)"
    by (rule updated_pd_wf [OF assms(1) h(1,2) assms(2) h(4) assms(9) l])
  have "data_of ((entry pd ?i)\<lparr>db_seqno := upd_seqno u, db_tStamp := now, db_countUpdate := k\<rparr>)
      = (data_of (entry pd0 ?i))\<lparr>db_seqno := upd_seqno u, db_tStamp := now\<rparr>" for k
    unfolding v(2) [symmetric] by (simp add: data_of_def)
  then have "view (updated_pd now u pd) ?i = (True, (data_of (entry pd0 ?i))\<lparr>db_seqno := upd_seqno u, db_tStamp := now\<rparr>,
       mb_bytes (upd_value u), descr_of pd0 ?i)"
    using updated_pd_fields [OF assms(1) h(1) assms(2) l, where now = now and j = ?i] h(1) v(4) by (simp add: view_def)
  with run wf that show ?thesis by (simp add: same_conf_def updated_pd_def)
qed

lemma update_loop_installs:
  fixes clock :: "nat \<Rightarrow> TimeStampT"
  assumes "\<forall>u \<in> set us. wf_VarUpdateT u" "distinct (map upd_varId us)" "u \<in> set us" "wf_pd pd"
    and v: "view pd (upd_varId u) = view orig (upd_varId u)" "same_conf orig pd"
    and h: "used orig (upd_varId u)" "\<not> db_isDeleted (entry orig (upd_varId u))"
      "db_prodId (entry orig (upd_varId u)) \<noteq> ownNodeIdentifier orig"
      "mb_length (upd_value u) \<le> maxValueLength orig" "mb_length (upd_value u) \<noteq> 0"
      "more_recent_seqno (upd_seqno u) (db_seqno (entry orig (upd_varId u)))"
  obtains k pd' where "forE (\<lambda>(k, u). process_var_update (clock k) u) (List.enumerate n us) pd = (Inr (), pd')"
    "wf_pd pd'" "same_conf pd pd'"
    "view pd' (upd_varId u) = (True, (data_of (entry orig (upd_varId u)))\<lparr>db_seqno := upd_seqno u, db_tStamp := clock k\<rparr>,
       mb_bytes (upd_value u), descr_of orig (upd_varId u))"
proof -
  let ?g = "\<lambda>(k, u). process_var_update (clock k) u" and ?i = "upd_varId u"
  obtain xs ys where us: "us = xs @ u # ys" using assms(3) by (auto dest: split_list)
  have other: "safe_action (?g p) \<and> keeps_view ?i (?g p)"
    if p: "p \<in> set (List.enumerate m zs)" and z: "set zs \<subseteq> set xs \<union> set ys" for p m zs
  proof -
    have m: "snd p \<in> set xs \<union> set ys" using set_enumerate_snd [OF p] z by blast
    then have "upd_varId (snd p) \<in> upd_varId ` (set xs \<union> set ys)" by (rule imageI)
    moreover have "?i \<notin> upd_varId ` (set xs \<union> set ys)" using assms(2) by (auto simp: us)
    ultimately have "upd_varId (snd p) \<noteq> ?i" by metis
    moreover have "wf_VarUpdateT (snd p)" using m assms(1) by (auto simp: us)
    ultimately show ?thesis by (simp add: case_prod_beta process_safe view_update_other)
  qed
  obtain p1 where 1: "forE ?g (List.enumerate n xs) pd = (Inr (), p1)" "wf_pd p1" "same_conf pd p1"
    "view p1 ?i = view pd ?i"
    by (rule loop_keeps [OF other [OF _ Un_upper1] assms(4)])
  obtain p2 where 2: "process_var_update (clock (n + length xs)) u p1 = (Inr (), p2)" "wf_pd p2" "same_conf p1 p2"
    "view p2 ?i = (True, (data_of (entry orig ?i))\<lparr>db_seqno := upd_seqno u, db_tStamp := clock (n + length xs)\<rparr>,
       mb_bytes (upd_value u), descr_of orig ?i)"
    by (rule updated_view [OF 1(2) _ trans [OF 1(4) v(1)] same_conf_trans [OF v(2) 1(3)] h])
      (use assms(1,3) in blast)+
  obtain p3 where 3: "forE ?g (List.enumerate (Suc (n + length xs)) ys) p2 = (Inr (), p3)" "wf_pd p3"
    "same_conf p2 p3" "view p3 ?i = view p2 ?i"
    by (rule loop_keeps [OF other [OF _ Un_upper2] 2(2)])
  have "forE ?g (List.enumerate n us) pd = (Inr (), p3)"
    using 1(1) 2(1) 3(1) by (simp add: us enumerate_append_eq forE_append bindE_Inr)
  then show ?thesis using that [of p3 "n + length xs"] 2(4) 3 1(3) 2(3) same_conf_trans by metis
qed

lemma update_reaches_neighbour:
  assumes A: "wf_pd A" "choice_ok A ch" "i \<in> set (tx_updates ch)" "i \<notin> set (tx_creates ch)"
      "update_record A i \<in> set (icUpdates (received A ch))"
    and B: "wf_pd B" "used B i" "\<not> db_isDeleted (entry B i)" "db_prodId (entry B i) \<noteq> ownNodeIdentifier B"
      "length (val_of A i) \<le> maxValueLength B" "more_recent_seqno (db_seqno (entry A i)) (db_seqno (entry B i))"
  obtains B' t where "process_received_payload clock (MemoryChunkDisassemblyArea
      (length (payload_bytes (sent_containers A ch))) (payload_bytes (sent_containers A ch))) B = Some (Inr (), B')"
    "wf_pd B'" "same_conf B B'" "view B' i = (True, (data_of (entry B i))\<lparr>db_seqno := db_seqno (entry A i), db_tStamp := t\<rparr>,
       val_of A i, descr_of B i)"
proof -
  let ?rx = "received A ch" and ?u = "update_record A i"
  let ?f = "\<lambda>(k, c). process_var_create (clock k) c" and ?g = "\<lambda>(k, u). process_var_update (clock k) u"
  note q = queued_once [OF A(1,2)] and rxok = received_ok [OF A(1,2)]
  have ci: "spec_varId (create_spec (create_record A j)) = j" for j by (simp add: create_record_def)
  have u: "upd_varId ?u = i" "upd_seqno ?u = db_seqno (entry A i)" "mb_length (upd_value ?u) = length (val_of A i)"
    "mb_bytes (upd_value ?u) = val_of A i" by (simp_all add: update_record_def)
  have cs: "safe_action (?f p) \<and> keeps_view i (?f p)" if p: "p \<in> set (List.enumerate 0 (icCreateVariables ?rx))" for p
  proof -
    have "wf_VarCreateT (snd p)" "spec_varId (create_spec (snd p)) \<noteq> i"
      using set_enumerate_snd [OF p] rxok A(4) by (auto simp: rx_ok_def list_all_iff received_creates ci)
    then show ?thesis by (simp add: case_prod_beta process_safe view_create)
  qed
  obtain B1 where 1: "forE ?f (List.enumerate 0 (icCreateVariables ?rx)) B = (Inr (), B1)" "wf_pd B1" "same_conf B B1"
    "view B1 i = view B i"
    by (rule loop_keeps [OF cs B(1)])
  have ds: "safe_action (process_var_delete d) \<and> keeps_view i (process_var_delete d)"
    if "d \<in> set (icDeleteVariables ?rx)" for d
    using received_deletes [OF that] q(4) [OF A(3)] view_delete [of d i] by (auto simp: process_safe)
  obtain B2 where 2: "forE process_var_delete (icDeleteVariables ?rx) B1 = (Inr (), B2)" "wf_pd B2" "same_conf B1 B2"
    "view B2 i = view B1 i"
    by (rule loop_keeps [OF ds 1(2)])
  have "\<forall>u \<in> set (icUpdates ?rx). wf_VarUpdateT u" using rxok by (simp add: rx_ok_def list_all_iff)
  moreover have "length (val_of A i) \<noteq> 0"
    using wf_varD(3) [OF A(1)] q(4) [OF A(3)] by (simp add: wf_bytes_def del: length_value_bytes)
  ultimately obtain k B3 where 3: "forE ?g (List.enumerate (length (icCreateVariables ?rx)) (icUpdates ?rx)) B2 = (Inr (), B3)"
    "wf_pd B3" "same_conf B2 B3" "view B3 i = (True, (data_of (entry B i))\<lparr>db_seqno := db_seqno (entry A i),
       db_tStamp := clock k\<rparr>, val_of A i, descr_of B i)"
    using update_loop_installs [OF _ received_updates_distinct [OF A(1,2)] A(5) 2(2), where orig = B, unfolded u,
        OF _ trans [OF 2(4) 1(4)] same_conf_trans [OF 1(3) 2(3)] B(2-5) _ B(6)] by blast
  obtain B4 where 4: "request_loops ?rx B3 = (Inr (), B4)" "wf_pd B4" "same_conf B3 B4" "view B4 i = view B3 i"
    by (rule request_loops_keep_view [OF 3(2)])
  have "process_records clock ?rx B = (Inr (), B4)"
    using 1(1) 2(1) 3(1) 4(1) by (simp add: process_records_split bindE_Inr)
  moreover have "same_conf B B4"
    by (rule same_conf_trans [OF 1(3) same_conf_trans [OF 2(3) same_conf_trans [OF 3(3) 4(3)]]])
  ultimately show ?thesis
    using that [of B4 "clock k"] 3(4) 4(2,4) receive_sent [OF A(1,2), of clock B] by simp
qed

end
