(* ===== verification/VardisExamples.thy ===== *)
theory VardisExamples
  imports VardisPropagation
begin

text \<open>
  Two concrete nodes, a producer that has created variable 7 and its neighbour, at which
  the properties of the protocol are shown to apply.
\<close>

definition node_A :: NodeIdentifierT where "node_A = NodeIdentifierT 2 0 0 0 0 1"
definition node_B :: NodeIdentifierT where "node_B = NodeIdentifierT 2 0 0 0 0 2"

definition fresh_store :: "NodeIdentifierT \<Rightarrow> ArrayContents" where
  "fresh_store own = projr (initialize_array_store 64 64 (Some (\<lambda>_. 0, \<lambda>_. 0)) 20 32 32 5 own)"

definition fresh_node :: "NodeIdentifierT \<Rightarrow> VardisProtocolData" where
  "fresh_node own = new_VardisProtocolData (fresh_store own)"

lemma fresh_node:
  "initialize_array_store 64 64 (Some (\<lambda>_. 0, \<lambda>_. 0)) 20 32 32 5 own = Inr (fresh_store own)"
  "wf_pd (fresh_node own)" "\<not> used (fresh_node own) i" "ownNodeIdentifier (fresh_node own) = own"
  "maxDescriptionLength (fresh_node own) = 32" "maxValueLength (fresh_node own) = 32"
  "maxRepetitions (fresh_node own) = 5" "maxSummaries (fresh_node own) = 20"
  "get_vardis_isactive (vardis_store (fresh_node own))"
proof -
  obtain st where st:
    "initialize_array_store 64 64 (Some (\<lambda>_. 0, \<lambda>_. 0)) 20 32 32 5 own = Inr st"
    "wf_store st" "\<And>i. \<not> is_used (id_states st i)" "get_own_node_identifier st = own"
    "get_conf_max_summaries st = 20" "get_conf_max_description_length st = 32"
    "get_conf_max_value_length st = 32" "get_conf_max_repetitions st = 5" "get_vardis_isactive st"
    by (rule wf_initialize_array_store [of 32 64 32 64 "\<lambda>_. 0" "\<lambda>_. 0" 20 5 own]) (simp, simp, blast)
  obtain st' where st': "initialize_array_store 64 64 (Some (\<lambda>_. 0, \<lambda>_. 0)) 20 32 32 5 own = Inr st'"
    "wf_pd (new_VardisProtocolData st')"
    by (rule initial_wf [of 32 64 32 64 "\<lambda>_. 0" "\<lambda>_. 0" 20 5 own]) simp_all
  have f: "fresh_store own = st" "fresh_store own = st'" using st(1) st'(1) by (simp_all add: fresh_store_def)
  show "initialize_array_store 64 64 (Some (\<lambda>_. 0, \<lambda>_. 0)) 20 32 32 5 own = Inr (fresh_store own)"
    using st(1) f(1) by simp
  show "wf_pd (fresh_node own)" using st'(2) f(2) by (simp add: fresh_node_def)
  show "\<not> used (fresh_node own) i" "ownNodeIdentifier (fresh_node own) = own"
    "maxDescriptionLength (fresh_node own) = 32" "maxValueLength (fresh_node own) = 32"
    "maxRepetitions (fresh_node own) = 5" "maxSummaries (fresh_node own) = 20"
    "get_vardis_isactive (vardis_store (fresh_node own))"
    using st(3-9) by (simp_all add: fresh_node_def f(1) new_VardisProtocolData_def)
qed

definition create_7 :: RTDB_Create_Request where
  "create_7 = \<lparr>crq_s_type = stVardis_RTDB_Create,
     crq_spec = \<lparr>spec_varId = 7, spec_prodId = node_A, spec_repCnt = 3, spec_creationTime = 0,
                 spec_timeout = 100, spec_descr = mb_of [116, 101]\<rparr>,
     crq_value = vv_of [1, 2]\<rparr>"

definition producer :: VardisProtocolData where
  "producer = snd (handle_rtdb_create_request 1000 1000 create_7 (fresh_node node_A))"

lemma create_7_ok: "create_status (fresh_node node_A) create_7 = VARDIS_STATUS_OK" "wf_RTDB_Create_Request create_7"
  by (simp_all add: create_status_OK fresh_node create_7_def wf_RTDB_Create_Request_def wf_VarSpecT_def)

lemma producer:
  "wf_pd producer" "same_conf (fresh_node node_A) producer" "used producer i \<longleftrightarrow> i = 7"
  "entry producer 7 = own_entry 1000 1000 node_A (crq_spec create_7)"
  "val_of producer 7 = [1, 2]" "descr_of producer 7 = [116, 101]"
  "get_vardis_isactive (vardis_store producer)"
  "handle_rtdb_create_request 1000 1000 create_7 (fresh_node node_A)
     = (Inr (RTDB_Create_Confirm VARDIS_STATUS_OK 7), producer)"
proof -
  have i: "spec_varId (crq_spec create_7) = 7" by (simp add: create_7_def)
  obtain pd' where p:
    "handle_rtdb_create_request 1000 1000 create_7 (fresh_node node_A) = (Inr (RTDB_Create_Confirm VARDIS_STATUS_OK 7), pd')"
    "wf_pd pd'" "same_conf (fresh_node node_A) pd'" "used pd' = (used (fresh_node node_A))(7 := True)"
    "entry pd' = (entry (fresh_node node_A))(7 := own_entry 1000 1000 (ownNodeIdentifier (fresh_node node_A)) (crq_spec create_7))"
    "val_of pd' = (val_of (fresh_node node_A))(7 := mb_bytes (crq_value create_7))"
    "descr_of pd' = (descr_of (fresh_node node_A))(7 := mb_bytes (spec_descr (crq_spec create_7)))"
    "get_vardis_isactive (vardis_store pd')"
    by (rule handle_rtdb_create_accept [OF fresh_node(2) create_7_ok, unfolded i]) (simp add: create_7_def)
  have e: "producer = pd'" using p(1) by (simp add: producer_def)
  show "wf_pd producer" "same_conf (fresh_node node_A) producer" "used producer i \<longleftrightarrow> i = 7"
    "entry producer 7 = own_entry 1000 1000 node_A (crq_spec create_7)"
    "val_of producer 7 = [1, 2]" "descr_of producer 7 = [116, 101]"
    "get_vardis_isactive (vardis_store producer)"
    "handle_rtdb_create_request 1000 1000 create_7 (fresh_node node_A)
     = (Inr (RTDB_Create_Confirm VARDIS_STATUS_OK 7), producer)"
    using p by (simp_all add: e fun_eq_iff fresh_node) (simp_all add: create_7_def)
qed


text \<open>Its queues: variable 7 waits to be created at the neighbours and to be summarized.\<close>

lemma singleton_queue:
  assumes "wf_q q" "\<And>i. in_q i q \<longleftrightarrow> i = x"
  shows "queue q = [x]"
proof -
  have "set (queue q) = {x}" using assms(2) by blast
  then show ?thesis using wf_q_distinct [OF assms(1)] by (cases "queue q"; cases "tl (queue q)") auto
qed

lemma single_queues:
  assumes "wf_pd pd" "\<And>i. used pd i \<longleftrightarrow> i = x"
  shows "0 < db_countCreate (entry pd x) \<Longrightarrow> queue (createQ pd) = [x]"
    "0 < db_countUpdate (entry pd x) \<Longrightarrow> queue (updateQ pd) = [x]"
proof -
  note q = wf_queuesD [OF wf_pdD(2) [OF assms(1)]]
  have v: "in_q x (createQ pd) \<longleftrightarrow> 0 < db_countCreate (entry pd x)"
    "in_q x (updateQ pd) \<longleftrightarrow> 0 < db_countUpdate (entry pd x)"
    using wf_pdD(5) [OF assms(1), of x] assms(2) by (simp_all add: wf_var_def)
  show "queue (createQ pd) = [x]" if "0 < db_countCreate (entry pd x)"
    by (rule singleton_queue [OF q(1)]) (use queue_used(1) [OF assms(1)] assms(2) v(1) that in blast)
  show "queue (updateQ pd) = [x]" if "0 < db_countUpdate (entry pd x)"
    by (rule singleton_queue [OF q(3)]) (use queue_used(2) [OF assms(1)] assms(2) v(2) that in blast)
qed

lemma producer_createQ: "queue (createQ producer) = [7]"
  by (rule single_queues(1) [OF producer(1,3)]) (simp add: producer own_entry_def create_7_def)

definition send_create :: tx_choice where
  "send_create = \<lparr>tx_creates = [7], tx_deletes = [], tx_reqcreates = [], tx_summaries = [], tx_updates = [],
     tx_requpdates = []\<rparr>"

lemma send_create_ok: "choice_ok producer send_create"
  by (simp add: choice_ok_def send_create_def producer_createQ)

lemma consumer_accepts: "create_accepted (fresh_node node_B) (create_record producer 7)"
  by (simp add: create_accepted_def create_record_def fresh_node producer own_entry_def create_7_def
      node_A_def node_B_def Let_def del: length_value_bytes length_descr_bytes)

text \<open>The neighbour after it has received the creation, and the producer after an update.\<close>

definition consumer :: VardisProtocolData where
  "consumer = snd (process_var_create 2000 (create_record producer 7) (fresh_node node_B))"

lemma consumer:
  "wf_pd consumer" "same_conf (fresh_node node_B) consumer" "used consumer i \<longleftrightarrow> i = 7"
  "entry consumer 7 = created_entry 2000 (create_record producer 7)" "val_of consumer 7 = [1, 2]"
proof -
  let ?c = "create_record producer 7"
  have i: "spec_varId (create_spec ?c) = 7" by (simp add: create_record_def)
  have w: "wf_VarCreateT ?c" by (rule create_record_wf(1) [OF producer(1)]) (simp add: producer)
  obtain pd' where p: "process_var_create 2000 ?c (fresh_node node_B) = (Inr (), pd')" "wf_pd pd'"
    "same_conf (fresh_node node_B) pd'" "used pd' = (used (fresh_node node_B))(7 := True)"
    "entry pd' = (entry (fresh_node node_B))(7 := created_entry 2000 ?c)"
    "val_of pd' = (val_of (fresh_node node_B))(7 := mb_bytes (upd_value (create_update ?c)))"
    by (rule process_var_create_accept [OF fresh_node(2) consumer_accepts w, unfolded i, of 2000]) blast
  have e: "consumer = pd'" using p(1) by (simp add: consumer_def)
  show "wf_pd consumer" "same_conf (fresh_node node_B) consumer" "used consumer i \<longleftrightarrow> i = 7"
    "entry consumer 7 = created_entry 2000 ?c" "val_of consumer 7 = [1, 2]"
    using p by (simp_all add: e fun_eq_iff fresh_node) (simp_all add: create_record_def producer)
qed

definition update_7 :: RTDB_Update_Request where
  "update_7 = \<lparr>urq_s_type = stVardis_RTDB_Update, urq_varId = 7, urq_value = vv_of [3]\<rparr>"

definition updated_producer :: VardisProtocolData where
  "updated_producer = own_updated_pd 3000 update_7 producer"

lemma update_7_ok: "update_status producer update_7 = VARDIS_STATUS_OK" "wf_RTDB_Update_Request update_7"
  using producer(2)
  by (simp_all add: update_status_OK producer update_7_def wf_RTDB_Update_Request_def own_entry_def same_conf_def fresh_node)

lemma updated_producer:
  "wf_pd updated_producer" "used updated_producer i \<longleftrightarrow> i = 7" "val_of updated_producer 7 = [3]"
  "db_seqno (entry updated_producer 7) = 1" "db_countUpdate (entry updated_producer 7) = 3"
proof -
  show "wf_pd updated_producer"
    unfolding updated_producer_def by (rule own_updated_pd_wf [OF producer(1) update_7_ok])
  show "used updated_producer i \<longleftrightarrow> i = 7"
    by (simp add: updated_producer_def own_updated_pd_def producer)
  have "1 \<le> valueBufferSize (vardis_store producer)"
    using wf_pdD(3) [OF producer(1)] producer(2) by (simp add: wf_conf_def same_conf_def fresh_node)
  then show "val_of updated_producer 7 = [3]"
    using wf_pdD(1) [OF producer(1)]
    by (simp add: updated_producer_def own_updated_pd_def update_7_def value_bytes_put_value producer)
  show "db_seqno (entry updated_producer 7) = 1" "db_countUpdate (entry updated_producer 7) = 3"
    by (simp_all add: updated_producer_def own_updated_pd_def update_7_def producer own_entry_def create_7_def)
qed

definition send_update :: tx_choice where
  "send_update = \<lparr>tx_creates = [], tx_deletes = [], tx_reqcreates = [], tx_summaries = [], tx_updates = [7],
     tx_requpdates = []\<rparr>"

lemma send_update_ok:
  "choice_ok updated_producer send_update"
  "update_record updated_producer 7 \<in> set (icUpdates (received updated_producer send_update))"
proof -
  have "queue (updateQ updated_producer) = [7]"
    by (rule single_queues(2) [OF updated_producer(1,2)]) (simp add: updated_producer)
  then show "choice_ok updated_producer send_update" by (simp add: choice_ok_def send_update_def)
  show "update_record updated_producer 7 \<in> set (icUpdates (received updated_producer send_update))"
    by (simp add: received_def sent_def sent_containers_def send_update_def container_bytes_def
        new_rx_lists_def ICHeaderT_fixed_size_def)
qed

end
