(* ===== verification/PropsVardis.thy ===== *)
theory PropsVardis
  imports VardisExamples
begin

text \<open>
  The properties of the VarDis protocol, each with a witness that applies it at the
  nodes of \<open>VardisExamples\<close>.
\<close>

section \<open>The demon\<close>

text \<open>C1. Invariant of the demon: in every state a running demon reaches from a freshly
  initialized store, by any interleaving of received payloads (arbitrary bytes), transmissions,
  scrubbing rounds, client requests (arbitrary bytes) and activations, the queues, counters,
  deletion marks and the database agree.\<close>

theorem demon_invariant:
  assumes "initialize_array_store vbs dbs mem maxsumm maxdescrlen maxvallen maxrep own = Inr st"
    and "maxdescrlen \<le> 255" "maxvallen \<le> 255"
    and "demon_reachable (new_VardisProtocolData st) s" "\<not> vardis_exitFlag s"
  shows "wf_pd (protocol_data s)"
  using demon_reachable_ok [OF assms(4) initialized_wf [OF assms(1-3)]] assms(5) by (simp add: demon_ok_def)

theorem demon_invariant_witness:
  "wf_pd (protocol_data \<lparr>protocol_data = (fresh_node node_B)\<lparr>vardis_store :=
     set_vardis_isactive False (vardis_store (fresh_node node_B))\<rparr>, vardis_exitFlag = False\<rparr>)"
  by (rule demon_invariant [OF fresh_node(1) [of node_B]])
    (simp, simp, unfold fresh_node_def [symmetric],
     blast intro: demon_reachable.intros demon_step.set_active, simp)

text \<open>C2. The receiver survives every payload: whatever the bytes, \<open>process_received_payload\<close>
  returns, the state remains well-formed, the configuration is kept, and a payload that raises an
  exception leaves the state as it was.\<close>

theorem any_payload_is_safe:
  assumes "wf_pd pd" "len \<le> length buf"
  shows "\<exists>r pd'. process_received_payload clock (MemoryChunkDisassemblyArea len buf) pd = Some (r, pd')
    \<and> wf_pd pd' \<and> same_conf pd pd' \<and> (\<forall>e. r = Inl e \<longrightarrow> pd' = pd)"
  by (rule process_received_payload_total [OF assms(1), of "MemoryChunkDisassemblyArea len buf" clock])
    (use assms(2) in simp, blast)

theorem any_payload_is_safe_witness:
  "\<exists>r pd'. process_received_payload (\<lambda>_. 0) (MemoryChunkDisassemblyArea 3 [9, 1, 5]) (fresh_node node_A) = Some (r, pd')
    \<and> wf_pd pd' \<and> same_conf (fresh_node node_A) pd' \<and> (\<forall>e. r = Inl e \<longrightarrow> pd' = fresh_node node_A)"
  by (rule any_payload_is_safe) (simp_all add: fresh_node)

text \<open>C3. The transmitter: \<open>construct_payload\<close> raises no exception and does not set the exit flag,
  the payload fits the area, and it consists of the records of prefixes of the six queues, each
  container with at most 255 records and at most \<open>maxSummaries\<close> summaries; the number of
  containers is zero just when nothing was written.\<close>

theorem construct_payload_spec:
  assumes "wf_pd pd" "wf_aa a"
  shows "\<exists>ch k. choice_ok pd ch
    \<and> construct_payload x \<lparr>tx_pd = pd, tx_area = a, tx_containers = 0\<rparr> =
        (Inr x, \<lparr>tx_pd = after_sending ch pd, tx_area = aa_append (payload_bytes (sent_containers pd ch)) a,
                 tx_containers = k\<rparr>)
    \<and> length (payload_bytes (sent_containers pd ch)) \<le> bytes_available a
    \<and> list_all wf_IC (filter (\<lambda>c. 0 < ic_size c) (sent_containers pd ch))
    \<and> (k = 0 \<longleftrightarrow> payload_bytes (sent_containers pd ch) = [])
    \<and> wf_pd (after_sending ch pd)"
proof -
  obtain ch k where ch: "choice_ok pd ch"
    "construct_payload x \<lparr>tx_pd = pd, tx_area = a, tx_containers = 0\<rparr> =
      (Inr x, \<lparr>tx_pd = after_sending ch pd, tx_area = aa_append (payload_bytes (sent_containers pd ch)) a,
               tx_containers = k\<rparr>)" "wf_pd (after_sending ch pd)"
    "length (payload_bytes (sent_containers pd ch)) \<le> bytes_available a" "0 = k \<longleftrightarrow> payload_bytes (sent_containers pd ch) = []"
    by (rule construct_payload_ok [OF assms])
  then show ?thesis using sent_wf [OF assms(1) ch(1)] by (intro exI [of _ ch] exI [of _ k]) (auto simp: sent_def)
qed

theorem construct_payload_spec_witness:
  "\<exists>ch k. choice_ok producer ch
    \<and> construct_payload False \<lparr>tx_pd = producer, tx_area = projr (MemoryChunkAssemblyArea_alloc 100), tx_containers = 0\<rparr> =
        (Inr False, \<lparr>tx_pd = after_sending ch producer,
           tx_area = aa_append (payload_bytes (sent_containers producer ch)) (projr (MemoryChunkAssemblyArea_alloc 100)),
           tx_containers = k\<rparr>)
    \<and> length (payload_bytes (sent_containers producer ch)) \<le> bytes_available (projr (MemoryChunkAssemblyArea_alloc 100))
    \<and> list_all wf_IC (filter (\<lambda>c. 0 < ic_size c) (sent_containers producer ch))
    \<and> (k = 0 \<longleftrightarrow> payload_bytes (sent_containers producer ch) = [])
    \<and> wf_pd (after_sending ch producer)"
  by (rule construct_payload_spec [OF producer(1)]) (rule wf_new_areas(1) [of 100], simp add: MemoryChunkAssemblyArea_alloc_def)


section \<open>Dissemination\<close>

text \<open>C4. A new variable reaches the neighbour: a payload of node A that carries the creation of
  variable i, processed by a node B that would accept it, makes B hold A's value, description,
  producer, sequence number, repetition count, creation time and timeout of i, whatever else the
  payload carries.\<close>

theorem creation_is_disseminated:
  assumes "wf_pd A" "choice_ok A ch" "i \<in> set (tx_creates ch)" "wf_pd B" "create_accepted B (create_record A i)"
    and "bytes = payload_bytes (sent_containers A ch)"
  shows "\<exists>B'. process_received_payload clock (MemoryChunkDisassemblyArea (length bytes) bytes) B = Some (Inr (), B')
    \<and> wf_pd B' \<and> used B' i \<and> \<not> db_isDeleted (entry B' i)
    \<and> val_of B' i = val_of A i \<and> descr_of B' i = descr_of A i
    \<and> db_prodId (entry B' i) = db_prodId (entry A i) \<and> db_seqno (entry B' i) = db_seqno (entry A i)
    \<and> db_repCnt (entry B' i) = db_repCnt (entry A i) \<and> db_timeout (entry B' i) = db_timeout (entry A i)
    \<and> db_creationTime (entry B' i) = db_creationTime (entry A i)"
proof -
  obtain B' t where B': "process_received_payload clock (MemoryChunkDisassemblyArea (length bytes) bytes) B = Some (Inr (), B')"
    "wf_pd B'" and v: "view B' i = (True, (data_of (entry A i))\<lparr>db_tStamp := t\<rparr>, val_of A i, descr_of A i)"
    unfolding assms(6) by (rule create_reaches_neighbour [OF assms(1-5), of clock])
  have d: "data_of (entry B' i) = (data_of (entry A i))\<lparr>db_tStamp := t\<rparr>" and u: "used B' i"
    "val_of B' i = val_of A i" "descr_of B' i = descr_of A i"
    using v by (simp_all add: view_def)
  show ?thesis
    using B' u queued_once(3) [OF assms(1-3)] arg_cong [OF d, of db_isDeleted] arg_cong [OF d, of db_prodId]
      arg_cong [OF d, of db_seqno] arg_cong [OF d, of db_repCnt] arg_cong [OF d, of db_timeout]
      arg_cong [OF d, of db_creationTime] by auto
qed

theorem creation_is_disseminated_witness:
  "\<exists>bytes B'. process_received_payload (\<lambda>_. 5000) (MemoryChunkDisassemblyArea (length bytes) bytes) (fresh_node node_B)
      = Some (Inr (), B') \<and> used B' 7 \<and> val_of B' 7 = [1, 2] \<and> db_prodId (entry B' 7) = node_A"
  using creation_is_disseminated [OF producer(1) send_create_ok _ fresh_node(2) consumer_accepts refl, of "\<lambda>_. 5000"]
  by (auto simp: send_create_def producer own_entry_def)

text \<open>C5. A new value reaches the neighbour: let node A send an update record, and no creation record, for
  variable i, at a place of the payload that the receiver reads (C21 says which), and let node B hold i as
  a variable of another node that is not deleted, with a sequence number older than A's, a value of A's
  length being allowed at B.  Then B reads the payload without error and has the value and the sequence
  number of A; the other fields of B's entry (variable id, producer, repetition count, creation time,
  timeout, deletion mark) and its description are kept.  Not stated are the reception time stamp, which
  is new, and the counters of repetitions.\<close>

theorem update_is_disseminated:
  assumes "wf_pd A" "choice_ok A ch" "i \<in> set (tx_updates ch)" "i \<notin> set (tx_creates ch)"
    and "update_record A i \<in> set (icUpdates (received A ch))"
    and "wf_pd B" "used B i" "\<not> db_isDeleted (entry B i)" "db_prodId (entry B i) \<noteq> ownNodeIdentifier B"
    and "length (val_of A i) \<le> maxValueLength B" "more_recent_seqno (db_seqno (entry A i)) (db_seqno (entry B i))"
    and "bytes = payload_bytes (sent_containers A ch)"
  shows "\<exists>B'. process_received_payload clock (MemoryChunkDisassemblyArea (length bytes) bytes) B = Some (Inr (), B')
    \<and> wf_pd B' \<and> used B' i \<and> \<not> db_isDeleted (entry B' i) \<and> val_of B' i = val_of A i
    \<and> db_seqno (entry B' i) = db_seqno (entry A i) \<and> descr_of B' i = descr_of B i
    \<and> db_varId (entry B' i) = db_varId (entry B i) \<and> db_prodId (entry B' i) = db_prodId (entry B i)
    \<and> db_repCnt (entry B' i) = db_repCnt (entry B i)
    \<and> db_creationTime (entry B' i) = db_creationTime (entry B i)
    \<and> db_timeout (entry B' i) = db_timeout (entry B i)"
proof -
  obtain B' t where B': "process_received_payload clock (MemoryChunkDisassemblyArea (length bytes) bytes) B = Some (Inr (), B')"
    "wf_pd B'" and v: "view B' i = (True, (data_of (entry B i))\<lparr>db_seqno := db_seqno (entry A i), db_tStamp := t\<rparr>,
       val_of A i, descr_of B i)"
    unfolding assms(12) by (rule update_reaches_neighbour [OF assms(1-11), of clock])
  have d: "data_of (entry B' i) = (data_of (entry B i))\<lparr>db_seqno := db_seqno (entry A i), db_tStamp := t\<rparr>"
    and u: "used B' i" "val_of B' i = val_of A i" "descr_of B' i = descr_of B i"
    using v by (simp_all add: view_def)
  show ?thesis
    using B' u assms(8) arg_cong [OF d, of db_isDeleted] arg_cong [OF d, of db_prodId] arg_cong [OF d, of db_seqno]
      arg_cong [OF d, of db_varId] arg_cong [OF d, of db_repCnt] arg_cong [OF d, of db_creationTime]
      arg_cong [OF d, of db_timeout]
    by simp
qed

theorem update_is_disseminated_witness:
  "\<exists>bytes B'. process_received_payload (\<lambda>_. 5000) (MemoryChunkDisassemblyArea (length bytes) bytes) consumer
      = Some (Inr (), B') \<and> val_of consumer 7 = [1, 2] \<and> val_of B' 7 = [3] \<and> db_seqno (entry B' 7) = 1"
proof -
  have e: "\<not> db_isDeleted (entry consumer 7)" "db_prodId (entry consumer 7) = node_A" "db_seqno (entry consumer 7) = 0"
    by (simp_all add: consumer created_entry_def create_record_def producer own_entry_def)
  have m: "more_recent_seqno 1 0" using more_recent_seqno_succ [of 0] by simp
  have c: "ownNodeIdentifier consumer = node_B" "maxValueLength consumer = 32"
    using consumer(2) by (simp_all add: same_conf_def fresh_node)
  show ?thesis
    using update_is_disseminated [OF updated_producer(1) send_update_ok(1) _ _ send_update_ok(2) consumer(1)
        _ e(1) _ _ _ refl, of "\<lambda>_. 5000"] c e m
    by (auto simp: send_update_def consumer updated_producer node_A_def node_B_def
        simp del: length_value_bytes)
qed

text \<open>C21. What the receiver reads: of a payload made of well-formed containers, the records of exactly
  those containers are processed that start in the first half of the payload.\<close>

theorem receiver_reads_first_half:
  assumes "list_all wf_IC cs" "bytes = payload_bytes cs"
  shows "process_received_payload clock (MemoryChunkDisassemblyArea (length bytes) bytes) pd
    = Some (process_records clock (fold collect_IC (read_containers (length bytes) 0 cs) new_rx_lists) pd)"
  unfolding assms(2) by (rule process_received_payload_reads [OF assms(1)])

theorem receiver_reads_first_half_witness:
  "process_received_payload (\<lambda>_. 0) (MemoryChunkDisassemblyArea 3 [6, 1, 9]) (fresh_node node_A)
    = Some (process_records (\<lambda>_. 0) (new_rx_lists\<lparr>icDeleteVariables := [\<lparr>del_varId = 9\<rparr>]\<rparr>) (fresh_node node_A))"
  using receiver_reads_first_half [of "[IC_DeleteVariables [\<lparr>del_varId = 9\<rparr>]]" "[6, 1, 9]" "\<lambda>_. 0" "fresh_node node_A"]
  by (simp add: wf_IC_def container_bytes_def enc_ICHeaderT_def enc_VarDeleteT_def enc_byte_def ICTYPE_defs
      new_rx_lists_def numeral_3_eq_3)

text \<open>The comparison in the receiver's loop loses records: of two containers of which the second
  is not longer than the first, the second is not processed.\<close>

lemma second_container_is_lost:
  assumes "wf_IC c" "wf_IC d" "length (enc_IC d) \<le> length (enc_IC c)"
    and "bytes = payload_bytes [c, d]" "bytes1 = payload_bytes [c]"
  shows "process_received_payload clock (MemoryChunkDisassemblyArea (length bytes) bytes) pd
    = process_received_payload clock (MemoryChunkDisassemblyArea (length bytes1) bytes1) pd"
proof -
  have pos: "0 < length (enc_IC c)"
    using assms(1) enc_IC_split [of c] by (simp add: wf_IC_def ICHeaderT_fixed_size_def)
  then have "read_containers (length (payload_bytes [c, d])) 0 [c, d] = [c]"
    "read_containers (length (payload_bytes [c])) 0 [c] = [c]"
    using assms(3) by simp_all
  moreover have "list_all wf_IC [c, d]" "list_all wf_IC [c]" using assms(1,2) by simp_all
  ultimately show ?thesis
    unfolding assms(4,5) by (simp only: process_received_payload_reads)
qed

section \<open>Service requests\<close>

text \<open>C6. A create request (with a non-empty description) is answered with the status of its first
  failing check and then changes nothing; otherwise the variable exists with the requested value
  and description, produced by this node with sequence number 0, and no other variable changes.\<close>

theorem create_request_spec:
  assumes "wf_pd pd" "wf_RTDB_Create_Request r" "mb_length (spec_descr (crq_spec r)) > 0"
    and "i = spec_varId (crq_spec r)"
  shows "\<exists>pd'. handle_rtdb_create_request now1 now2 r pd = (Inr (RTDB_Create_Confirm (create_status pd r) i), pd')
    \<and> wf_pd pd'
    \<and> (if create_status pd r = VARDIS_STATUS_OK then
         used pd' i \<and> entry pd' i = own_entry now1 now2 (ownNodeIdentifier pd) (crq_spec r)
         \<and> val_of pd' i = mb_bytes (crq_value r) \<and> descr_of pd' i = mb_bytes (spec_descr (crq_spec r))
         \<and> (\<forall>j. j \<noteq> i \<longrightarrow> view pd' j = view pd j)
       else pd' = pd)"
proof (cases "create_status pd r = VARDIS_STATUS_OK")
  case True
  obtain pd' where "handle_rtdb_create_request now1 now2 r pd = (Inr (RTDB_Create_Confirm VARDIS_STATUS_OK i), pd')"
    "wf_pd pd'" "used pd' = (used pd)(i := True)"
    "entry pd' = (entry pd)(i := own_entry now1 now2 (ownNodeIdentifier pd) (crq_spec r))"
    "val_of pd' = (val_of pd)(i := mb_bytes (crq_value r))"
    "descr_of pd' = (descr_of pd)(i := mb_bytes (spec_descr (crq_spec r)))"
    unfolding assms(4) by (rule handle_rtdb_create_accept [OF assms(1) True assms(2,3)])
  then show ?thesis using True by (intro exI [of _ pd']) (simp add: view_def fun_eq_iff)
next
  case False
  then show ?thesis using handle_rtdb_create_refused [OF False] assms(1,4) by simp
qed

theorem create_request_spec_witness:
  "\<exists>pd'. handle_rtdb_create_request 10 10 create_7 (fresh_node node_A)
      = (Inr (RTDB_Create_Confirm VARDIS_STATUS_OK 7), pd')
    \<and> used pd' 7 \<and> val_of pd' 7 = [1, 2] \<and> descr_of pd' 7 = [116, 101] \<and> \<not> used pd' 8"
proof -
  have "spec_varId (crq_spec create_7) = 7" "mb_bytes (crq_value create_7) = [1, 2]"
    "mb_bytes (spec_descr (crq_spec create_7)) = [116, 101]" "mb_length (spec_descr (crq_spec create_7)) > 0"
    by (simp_all add: create_7_def)
  with create_request_spec [OF fresh_node(2) [of node_A] create_7_ok(2) _ refl, of 10 10] create_7_ok(1)
  obtain pd' where p: "handle_rtdb_create_request 10 10 create_7 (fresh_node node_A)
      = (Inr (RTDB_Create_Confirm VARDIS_STATUS_OK 7), pd')" "used pd' 7" "val_of pd' 7 = [1, 2]"
    "descr_of pd' 7 = [116, 101]" and v: "\<forall>j. j \<noteq> 7 \<longrightarrow> view pd' j = view (fresh_node node_A) j" by auto
  have "\<not> used pd' 8" using v [rule_format, of 8] by (simp add: view_def fresh_node)
  with p show ?thesis by blast
qed

text \<open>An empty description passes the checks of the create request, and the store then throws:
  the demon's request handler ends with an exception in a state in which the identifier is allocated
  while no queue knows it.\<close>

lemma create_with_empty_description_throws:
  assumes "wf_pd pd" "create_status pd r = VARDIS_STATUS_OK" "mb_length (spec_descr (crq_spec r)) = 0"
  shows "\<exists>pd'. handle_rtdb_create_request now1 now2 r pd = (Inl VardisStoreException, pd')
    \<and> used pd' (spec_varId (crq_spec r)) \<and> createQ pd' = createQ pd \<and> active_variables pd' = active_variables pd"
  using handle_rtdb_create_empty_description [OF assms, of now1 now2] by auto

text \<open>C7. An update request by the producer stores the value under the next sequence number (modulo
  256) and schedules it for repetition; any other request is answered with the status of its first
  failing check and changes nothing.\<close>

theorem update_request_spec:
  assumes "wf_pd pd" "wf_RTDB_Update_Request r" "i = urq_varId r"
  shows "\<exists>pd'. handle_rtdb_update_request now r pd = (Inr (RTDB_Update_Confirm (update_status pd r) i), pd')
    \<and> wf_pd pd'
    \<and> (if update_status pd r = VARDIS_STATUS_OK then
         val_of pd' i = mb_bytes (urq_value r)
         \<and> unat (db_seqno (entry pd' i)) = (unat (db_seqno (entry pd i)) + 1) mod 256
         \<and> db_countUpdate (entry pd' i) = db_repCnt (entry pd i) \<and> in_q i (updateQ pd')
         \<and> (\<forall>j. j \<noteq> i \<longrightarrow> view pd' j = view pd j)
       else pd' = pd)"
proof (cases "update_status pd r = VARDIS_STATUS_OK")
  case True
  let ?pd' = "own_updated_pd now r pd"
  have v: "wf_VarValueT (urq_value r)" using assms(2) by (simp add: wf_RTDB_Update_Request_def)
  have "length (mb_bytes (urq_value r)) \<le> valueBufferSize (vardis_store pd)" "used pd i"
    using True wf_pdD(3) [OF assms(1)] wf_VarValueT_fields(1) [OF v] assms(3)
    by (simp_all add: update_status_OK wf_conf_def)
  moreover have "unat (s + 1) = (unat s + 1) mod 256" for s :: u8
    by (simp add: unat_word_ariths)
  ultimately have "val_of ?pd' i = mb_bytes (urq_value r)"
    "unat (db_seqno (entry ?pd' i)) = (unat (db_seqno (entry pd i)) + 1) mod 256"
    "db_countUpdate (entry ?pd' i) = db_repCnt (entry pd i)" "in_q i (updateQ ?pd')"
    "\<forall>j. j \<noteq> i \<longrightarrow> view ?pd' j = view pd j"
    using wf_pdD(1) [OF assms(1)] wf_queuesD(3) [OF wf_pdD(2) [OF assms(1)]] assms(3)
    by (simp_all add: own_updated_pd_def value_bytes_put_value view_def)
  then show ?thesis
    using True own_updated_pd_wf [OF assms(1) True assms(2), of now] assms(3)
    by (simp add: handle_rtdb_update_spec [OF assms(1,2)])
next
  case False
  then show ?thesis using assms by (simp add: handle_rtdb_update_spec)
qed

theorem update_request_spec_witness:
  "\<exists>pd'. handle_rtdb_update_request 9 update_7 producer = (Inr (RTDB_Update_Confirm VARDIS_STATUS_OK 7), pd')
    \<and> val_of pd' 7 = [3] \<and> unat (db_seqno (entry pd' 7)) = 1"
proof -
  have "urq_varId update_7 = 7" "mb_bytes (urq_value update_7) = [3]" "unat (db_seqno (entry producer 7)) = 0"
    by (simp_all add: update_7_def producer own_entry_def)
  with update_request_spec [OF producer(1) update_7_ok(2) refl, of 9] update_7_ok(1) show ?thesis by auto
qed


text \<open>C8. A delete request by the producer, and by nobody else, marks the variable as deleted, stops its
  creation, update and summary messages and schedules the deletion for repetition; the identifier
  remains allocated.\<close>

theorem delete_request_spec:
  assumes "wf_pd pd" "i = irq_varId r"
  shows "\<exists>pd'. handle_rtdb_delete_request r pd = (Inr (RTDB_Delete_Confirm (delete_status pd r) i), pd')
    \<and> wf_pd pd'
    \<and> (if delete_status pd r = VARDIS_STATUS_OK then
         used pd' i \<and> db_isDeleted (entry pd' i) \<and> in_q i (deleteQ pd')
         \<and> db_countDelete (entry pd' i) = db_repCnt (entry pd i)
         \<and> \<not> in_q i (createQ pd') \<and> \<not> in_q i (updateQ pd') \<and> \<not> in_q i (summaryQ pd')
         \<and> (\<forall>j. j \<noteq> i \<longrightarrow> view pd' j = view pd j)
       else pd' = pd)"
proof (cases "delete_status pd r = VARDIS_STATUS_OK")
  case True
  let ?pd' = "with_stats (\<lambda>s. s\<lparr>count_handle_rtdb_delete := count_handle_rtdb_delete s + 1\<rparr>) (deleted_pd i pd)"
  have u: "used pd i" using True assms(2) by (auto simp: delete_status_def vardis_status_defs split: if_splits)
  note q = wf_queuesD [OF wf_pdD(2) [OF assms(1)]]
  have "wf_pd ?pd'" by (rule with_stats_wf(1) [OF deleted_pd_wf(1) [OF assms(1) u]])
  moreover have "used ?pd' i \<and> db_isDeleted (entry ?pd' i) \<and> in_q i (deleteQ ?pd')
     \<and> db_countDelete (entry ?pd' i) = db_repCnt (entry pd i)
     \<and> \<not> in_q i (createQ ?pd') \<and> \<not> in_q i (updateQ ?pd') \<and> \<not> in_q i (summaryQ ?pd')
     \<and> (\<forall>j. j \<noteq> i \<longrightarrow> view ?pd' j = view pd j)"
    using u q by (auto simp: with_stats_def deleted_pd_def view_def)
  ultimately show ?thesis
    using True unfolding assms(2) handle_rtdb_delete_spec by auto
qed (use assms in \<open>simp add: handle_rtdb_delete_spec\<close>)

theorem delete_request_spec_witness:
  "\<exists>r pd'. handle_rtdb_delete_request r producer = (Inr (RTDB_Delete_Confirm VARDIS_STATUS_OK 7), pd')
    \<and> used pd' 7 \<and> db_isDeleted (entry pd' 7) \<and> in_q 7 (deleteQ pd') \<and> \<not> in_q 7 (createQ pd')"
proof -
  let ?r = "\<lparr>irq_s_type = stVardis_RTDB_Delete, irq_varId = 7\<rparr> :: RTDB_Delete_Request"
  have "delete_status producer ?r = VARDIS_STATUS_OK"
    using producer(2) by (simp add: delete_status_def producer own_entry_def same_conf_def fresh_node)
  with delete_request_spec [OF producer(1), of 7 ?r] show ?thesis by (intro exI [of _ ?r]) auto
qed

text \<open>A node reads its own writes: after an accepted update request, a read request for the variable
  is confirmed with the new value and its time stamp.\<close>

lemma read_your_writes:
  assumes "wf_pd pd" "wf_RTDB_Update_Request u" "update_status pd u = VARDIS_STATUS_OK" "irq_varId r = urq_varId u"
  shows "fst (handle_rtdb_read_request r (snd (handle_rtdb_update_request now u pd)))
    = Inr \<lparr>cnf_type_status = (stVardis_RTDB_Read, VARDIS_STATUS_OK), cnf_varId = urq_varId u,
           rcf_value = vv_of (mb_bytes (urq_value u)), rcf_tStamp = now\<rparr>"
proof -
  let ?pd' = "own_updated_pd now u pd"
  have wf: "wf_pd ?pd'" by (rule own_updated_pd_wf [OF assms(1,3,2)])
  have v: "wf_VarValueT (urq_value u)" using assms(2) by (simp add: wf_RTDB_Update_Request_def)
  have "length (mb_bytes (urq_value u)) \<le> valueBufferSize (vardis_store pd)" "used pd (urq_varId u)"
    "get_vardis_isactive (vardis_store pd)" "\<not> db_isDeleted (entry pd (urq_varId u))"
    using assms(3) wf_pdD(3) [OF assms(1)] wf_VarValueT_fields(1) [OF v] by (simp_all add: update_status_OK wf_conf_def)
  moreover have "get_vardis_isactive (vardis_store ?pd') = get_vardis_isactive (vardis_store pd)"
    by (simp add: own_updated_pd_def get_vardis_isactive_def put_value_def modify_id_state_def)
  ultimately have "read_status ?pd' r = VARDIS_STATUS_OK" "val_of ?pd' (urq_varId u) = mb_bytes (urq_value u)"
    "db_tStamp (entry ?pd' (urq_varId u)) = now"
    using wf_pdD(1) [OF assms(1)] assms(4)
    by (simp_all add: read_status_def own_updated_pd_def value_bytes_put_value)
  then show ?thesis using assms by (simp add: handle_rtdb_update_spec handle_rtdb_read_spec [OF wf])
qed

section \<open>Received records\<close>

text \<open>C9. A received update is requested if its variable is unknown, ignored if it cannot apply or is
  not new, answered with the node's own newer value, and otherwise stored and scheduled for repetition.\<close>

theorem process_var_update_spec:
  assumes "wf_pd pd" "wf_VarUpdateT u" "i = upd_varId u"
  shows "process_var_update now u pd = (Inr (),
    if \<not> used pd i then pd\<lparr>reqCreateQ := q_insert i (reqCreateQ pd)\<rparr>
    else if db_isDeleted (entry pd i) \<or> db_prodId (entry pd i) = ownNodeIdentifier pd
        \<or> mb_length (upd_value u) > maxValueLength pd \<or> mb_length (upd_value u) = 0
        \<or> db_seqno (entry pd i) = upd_seqno u then pd
    else if more_recent_seqno (db_seqno (entry pd i)) (upd_seqno u) then
      (if in_q i (updateQ pd) then pd
       else pd\<lparr>updateQ := q_insert i (updateQ pd),
               vardis_store := modify_db_entry i (\<lambda>e. e\<lparr>db_countUpdate := db_repCnt e\<rparr>) (vardis_store pd)\<rparr>)
    else updated_pd now u pd)"
proof -
  have m: "mb_length (upd_value u) \<le> maxValueLength pd \<Longrightarrow> mb_length (upd_value u) \<le> valueBufferSize (vardis_store pd)"
    using wf_pdD(3) [OF assms(1)] by (simp add: wf_conf_def)
  show ?thesis
    unfolding assms(3)
    using process_var_update_unknown [of pd u now] process_var_update_ignore [of pd u now]
      process_var_update_old [of pd u now] process_var_update_accept [of pd u now, OF _ _ _ assms(2)] m
      q_contains_iff [OF wf_queuesD(3) [OF wf_pdD(2) [OF assms(1)]]]
    by (auto simp: not_le)
qed

theorem process_var_update_spec_witness:
  "process_var_update 9 \<lparr>upd_varId = 8, upd_seqno = 1, upd_value = vv_of [4]\<rparr> producer
    = (Inr (), producer\<lparr>reqCreateQ := q_insert 8 (reqCreateQ producer)\<rparr>)"
  using process_var_update_spec [OF producer(1), of "\<lparr>upd_varId = 8, upd_seqno = 1, upd_value = vv_of [4]\<rparr>" 8 9]
  by (simp add: wf_VarUpdateT_def producer)

text \<open>C10. A received creation is installed exactly if the node has no newer incarnation, does not
  produce it itself and its limits are met; otherwise nothing changes.  In neither case does the
  statistics counter of processed creations change.\<close>

theorem process_var_create_spec:
  assumes "wf_pd pd" "wf_VarCreateT c" "i = spec_varId (create_spec c)"
  shows "\<exists>pd'. process_var_create now c pd = (Inr (), pd') \<and> wf_pd pd'
    \<and> global_state (vardis_store pd') = global_state (vardis_store pd)
    \<and> (if create_accepted pd c then
         used pd' i \<and> entry pd' i = created_entry now c \<and> val_of pd' i = mb_bytes (upd_value (create_update c))
         \<and> descr_of pd' i = mb_bytes (spec_descr (create_spec c)) \<and> in_q i (createQ pd') \<and> in_q i (summaryQ pd')
         \<and> (\<forall>j. j \<noteq> i \<longrightarrow> view pd' j = view pd j)
       else pd' = pd)"
proof (cases "create_accepted pd c")
  case True
  obtain pd' where p: "process_var_create now c pd = (Inr (), pd')" "wf_pd pd'"
    "used pd' = (used pd)(i := True)" "entry pd' = (entry pd)(i := created_entry now c)"
    "val_of pd' = (val_of pd)(i := mb_bytes (upd_value (create_update c)))"
    "descr_of pd' = (descr_of pd)(i := mb_bytes (spec_descr (create_spec c)))"
    "global_state (vardis_store pd') = global_state (vardis_store pd)"
    unfolding assms(3) by (rule process_var_create_accept [OF assms(1) True assms(2)])
  have "used pd' i" "entry pd' i = created_entry now c" using p(3,4) by (simp_all add: fun_eq_iff)
  moreover have "0 < db_countCreate (created_entry now c)" "\<not> db_isDeleted (created_entry now c)"
    using True by (simp_all add: created_entry_def create_accepted_def Let_def)
  ultimately have "in_q i (createQ pd') \<and> in_q i (summaryQ pd')"
    using wf_pdD(5) [OF p(2), of i] by (simp add: wf_var_def)
  with p True show ?thesis by (intro exI [of _ pd']) (simp add: view_def fun_eq_iff)
next
  case False
  then show ?thesis using assms(1) by (simp add: process_var_create_ignore)
qed

theorem process_var_create_spec_witness:
  "\<exists>pd'. process_var_create 5 (create_record producer 7) (fresh_node node_B) = (Inr (), pd') \<and> used pd' 7
    \<and> val_of pd' 7 = [1, 2] \<and> in_q 7 (createQ pd')
    \<and> global_state (vardis_store pd') = global_state (vardis_store (fresh_node node_B))"
proof -
  have "wf_VarCreateT (create_record producer 7)" by (rule create_record_wf(1) [OF producer(1)]) (simp add: producer)
  moreover have "7 = spec_varId (create_spec (create_record producer 7))"
    "mb_bytes (upd_value (create_update (create_record producer 7))) = [1, 2]"
    by (simp_all add: create_record_def producer)
  ultimately show ?thesis
    using process_var_create_spec [OF fresh_node(2) [of node_B], of "create_record producer 7" 7 5] consumer_accepts by auto
qed


text \<open>A received deletion marks the variable as deleted and schedules the deletion for repetition,
  unless the variable is unknown, already deleted or produced by the node itself.\<close>

lemma received_deletion_spec:
  assumes "wf_pd pd" "i = del_varId d"
  shows "\<exists>pd'. process_var_delete d pd = (Inr (), pd') \<and> wf_pd pd'
    \<and> (if used pd i \<and> \<not> db_isDeleted (entry pd i) \<and> db_prodId (entry pd i) \<noteq> ownNodeIdentifier pd then
         db_isDeleted (entry pd' i) \<and> in_q i (deleteQ pd') \<and> db_countDelete (entry pd' i) = db_repCnt (entry pd i)
         \<and> (\<forall>j. j \<noteq> i \<longrightarrow> view pd' j = view pd j)
       else pd' = pd)"
proof -
  note q = wf_queuesD [OF wf_pdD(2) [OF assms(1)]]
  obtain pd' where p: "process_var_delete d pd = (Inr (), pd')" "wf_pd pd'"
    using process_var_delete_wf [OF assms(1), of d] by blast
  show ?thesis
    using p q unfolding assms(2)
    by (intro exI [of _ pd']) (auto simp: process_var_delete_spec with_stats_def deleted_pd_def view_def split: if_splits)
qed

text \<open>Anti-entropy: a received summary of a foreign, live variable makes the node ask for the update
  if the summary is not older than its own value, and schedule its own value if it is older; of an
  unknown variable it asks for the creation.  The data of no variable changes.\<close>

lemma summary_spec:
  assumes "wf_pd pd" "i = summ_varId s"
  shows "\<exists>pd'. process_var_summary s pd = (Inr (), pd') \<and> wf_pd pd' \<and> (\<forall>j. view pd' j = view pd j)
    \<and> (\<not> used pd i \<longrightarrow> in_q i (reqCreateQ pd'))
    \<and> (used pd i \<and> \<not> db_isDeleted (entry pd i) \<and> db_prodId (entry pd i) \<noteq> ownNodeIdentifier pd
        \<and> db_seqno (entry pd i) \<noteq> summ_seqno s \<longrightarrow>
        (if more_recent_seqno (db_seqno (entry pd i)) (summ_seqno s) then in_q i (updateQ pd') else in_q i (reqUpdQ pd')))"
proof -
  note q = wf_queuesD [OF wf_pdD(2) [OF assms(1)]]
  obtain pd' where p: "process_var_summary s pd = (Inr (), pd')" "wf_pd pd'"
    using process_var_summary_wf [OF assms(1), of s] by blast
  have v: "view pd' j = view pd j" for j by (rule keeps_viewD [OF view_summary assms(1) p(1)])
  have u: "in_q i (reqCreateQ pd')" if "\<not> used pd i"
    using process_var_summary_unknown [of pd s] that p(1) q(6) assms(2) by auto
  have k: "if more_recent_seqno (db_seqno (entry pd i)) (summ_seqno s) then in_q i (updateQ pd') else in_q i (reqUpdQ pd')"
    if h: "used pd i" "\<not> db_isDeleted (entry pd i)" "db_prodId (entry pd i) \<noteq> ownNodeIdentifier pd"
      "db_seqno (entry pd i) \<noteq> summ_seqno s"
  proof (cases "more_recent_seqno (db_seqno (entry pd i)) (summ_seqno s)")
    case False
    then show ?thesis
      using process_var_summary_request [of pd s] h p(1) q(5) assms(2) by auto
  next
    case True
    have "in_q i (updateQ pd')"
    proof (cases "in_q i (updateQ pd)")
      case in_queue: True
      then have "process_var_summary s pd = (Inr (), pd)"
        using True h q(3) assms(2) by (intro process_var_summary_ignore) auto
      with p(1) in_queue show ?thesis by simp
    next
      case False
      then show ?thesis
        using process_var_summary_old [of pd s] True h p(1) q(3) assms(2) by auto
    qed
    with True show ?thesis by simp
  qed
  show ?thesis using p v u k by (intro exI [of _ pd']) blast
qed

section \<open>Repetition and scrubbing\<close>

text \<open>Every transmission costs a repetition: the counters of exactly the variables whose records are
  in the payload go down by one, and a variable stays in its queue as long as its counter is positive.\<close>

lemma repetitions_are_counted:
  assumes "wf_pd pd" "choice_ok pd ch" "pd' = after_sending ch pd" "wf_pd pd'" "used pd' i"
  shows "db_countCreate (entry pd' i) = db_countCreate (entry pd i) - (if i \<in> set (tx_creates ch) then 1 else 0)
    \<and> db_countUpdate (entry pd' i) = db_countUpdate (entry pd i) - (if i \<in> set (tx_updates ch) then 1 else 0)
    \<and> db_countDelete (entry pd' i) = db_countDelete (entry pd i) - (if i \<in> set (tx_deletes ch) then 1 else 0)
    \<and> (in_q i (createQ pd') \<longleftrightarrow> 0 < db_countCreate (entry pd' i))
    \<and> (in_q i (updateQ pd') \<longleftrightarrow> 0 < db_countUpdate (entry pd' i))
    \<and> (in_q i (deleteQ pd') \<longleftrightarrow> 0 < db_countDelete (entry pd' i))"
  using after_sending_counts [OF assms(1,2), of i] wf_pdD(5) [OF assms(4), of i] assms(3,5)
  by (simp add: wf_var_def)

text \<open>As many records as fit: the number of records a container gets is the largest number, up to 255
  (and the configured bound), such that header and records fit the area.\<close>

theorem record_count_is_maximal:
  assumes "n = record_count q a f lim"
  shows "n \<le> length q \<and> n \<le> 255 \<and> n \<le> lim
    \<and> (0 < n \<longrightarrow> 2 + records_size f (take n q) \<le> bytes_available a)
    \<and> (n < length q \<and> n < 255 \<and> n < lim \<longrightarrow> bytes_available a < 2 + records_size f (take (Suc n) q))"
  using record_count_bounds [of q a f lim] record_count_fits [of q a f lim n] record_count_maximal [of q a f lim n] assms
  by simp

theorem record_count_is_maximal_witness:
  "record_count [1, 2, 3] (projr (MemoryChunkAssemblyArea_alloc 7)) (\<lambda>_. 2) 255 = 2"
proof -
  let ?a = "projr (MemoryChunkAssemblyArea_alloc 7)" and ?n = "record_count [1, 2, 3] (projr (MemoryChunkAssemblyArea_alloc 7)) (\<lambda>_. 2) 255"
  have a: "bytes_available ?a = 7" by (simp add: MemoryChunkAssemblyArea_alloc_def)
  note m = record_count_is_maximal [OF refl, of "[1, 2, 3]" ?a "\<lambda>_. 2" 255, unfolded a]
  consider "?n = 0" | "?n = 1" | "?n = 2" | "?n = 3" using m by fastforce
  then show ?thesis by cases (use m in \<open>simp_all add: numeral_2_eq_2 numeral_3_eq_3\<close>)
qed

text \<open>A round of the scrubber marks exactly the live variables whose timeout has passed as deleted
  and leaves every other variable as it was, queues and counters included.\<close>

lemma scrubbing_round_spec:
  assumes "wf_pd pd"
  shows "\<exists>pd'. scrub_round t pd = (Inr True, pd') \<and> wf_pd pd'
    \<and> (\<forall>i. used pd i \<and> timed_out t (entry pd i) \<longrightarrow> same_at i (deleted_pd i pd) pd' \<and> db_isDeleted (entry pd' i))
    \<and> (\<forall>i. \<not> (used pd i \<and> timed_out t (entry pd i)) \<longrightarrow> same_at i pd pd')"
proof -
  let ?vs = "sorted_list_of_set (active_variables pd)"
  have vs: "set ?vs = {i. used pd i}" using wf_pdD(4) [OF assms] by (simp add: used_ids_def)
  then have "\<forall>i \<in> set ?vs. used pd i" "distinct ?vs" by auto
  from scrub_loop [OF assms this, of t] obtain pd' where
    p: "forE (scrub_variable t) ?vs pd = (Inr (), pd')" "wf_pd pd'"
      "\<And>j. j \<notin> set ?vs \<or> \<not> timed_out t (entry pd j) \<Longrightarrow> same_at j pd pd'"
      "\<And>j. j \<in> set ?vs \<Longrightarrow> timed_out t (entry pd j) \<Longrightarrow> same_at j (deleted_pd j pd) pd'" by blast
  have "db_isDeleted (entry pd' i)" if "used pd i" "timed_out t (entry pd i)" for i
    using p(4) [of i] that vs by (simp add: same_at_def deleted_pd_def)
  moreover have "scrub_round t pd = (Inr True, pd')" using p(1) by (simp add: scrub_round_eq bindE_def)
  ultimately show ?thesis using p vs by (intro exI [of _ pd']) auto
qed

text \<open>The timeout is compared with the elapsed time modulo 65536 milliseconds: a variable with a
  timeout of 100 ms that has not been updated for 65600 ms is not marked as deleted, while after
  1000 ms it is.\<close>

lemma timeout_wraps:
  assumes "db_tStamp e = 0" "db_timeout e = 100" "\<not> db_isDeleted e"
  shows "\<not> timed_out 65600000000 e \<and> timed_out 1000000000 e"
  using assms by (simp add: timed_out_def milliseconds_passed_since_def signed_divide_int_def)

end
