(* ===== verification/PropsCommon.thy ===== *)
theory PropsCommon
  imports VardisExamples
begin

text \<open>
  The properties of the components below the protocol: areas, wire formats, sequence
  numbers, the ring buffer and the variable store.
\<close>

section \<open>Wire formats\<close>

text \<open>A well-formed creation record survives the wire: serialized into an area with room for it and
  deserialized from what was written, it comes back, and all bytes are consumed.\<close>

lemma VarCreateT_roundtrip:
  assumes "wf_VarCreateT c" "wf_aa a" "VarCreateT_total_size c \<le> bytes_available a" "aa_written a = []"
  shows "\<exists>a'. ser_VarCreateT c a = (Inr (), a') \<and> bytes_used a' = VarCreateT_total_size c
    \<and> (\<exists>d'. des_VarCreateT (ByteVectorDisassemblyArea (aa_written a')) = (Inr c, d') \<and> da_rest d' = [])"
proof -
  have l: "length (enc_VarCreateT c) \<le> bytes_available a" using assms(1,3) by (simp add: length_enc_VarCreateT)
  obtain a' where a': "ser_VarCreateT c a = (Inr (), a')"
    "\<exists>d'. des_VarCreateT (ByteVectorDisassemblyArea (aa_written a')) = (Inr c, d') \<and> da_rest d' = []"
    using create_codec.roundtrip [OF assms(1,2) l assms(4)] by blast
  have "bytes_used a = 0" using assms(2,4) length_aa_written [of a] by simp
  then have "bytes_used a' = VarCreateT_total_size c"
    using a'(1) create_codec.ser [OF assms(1,2) l] assms(1) by (auto simp: length_enc_VarCreateT)
  with a' show ?thesis by blast
qed

text \<open>C20. Sequences of update records, as an instruction container holds them, are parsed uniquely: whatever
  \<open>n\<close> calls of \<open>deserialize\<close> return are \<open>n\<close> well-formed records, and the bytes they consumed are
  exactly the serialization of those records.\<close>

theorem update_records_sound:
  assumes "wf_da d" "repeatE n des_VarUpdateT d = (Inr us, d')"
  shows "length us = n \<and> list_all wf_VarUpdateT us \<and> da_rest d = concat (map enc_VarUpdateT us) @ da_rest d'
    \<and> wf_da d'"
  using update_codec.des_list_sound [OF assms(2,1)] by (simp add: list_all_iff)

theorem update_records_sound_witness:
  "\<exists>us d'. repeatE 2 des_VarUpdateT (ByteVectorDisassemblyArea [7, 1, 1, 42, 8, 2, 0]) = (Inr us, d')
    \<and> length us = 2 \<and> list_all wf_VarUpdateT us"
proof -
  let ?us = "[\<lparr>upd_varId = 7, upd_seqno = 1, upd_value = vv_of [42]\<rparr>, \<lparr>upd_varId = 8, upd_seqno = 2, upd_value = vv_of []\<rparr>]"
  let ?d = "ByteVectorDisassemblyArea [7, 1, 1, 42, 8, 2, 0]"
  have "da_rest ?d = concat (map enc_VarUpdateT ?us) @ []"
    by (simp add: enc_VarUpdateT_def enc_VarValueT_def enc_byte_def)
  then have "repeatE (length ?us) des_VarUpdateT ?d = (Inr ?us, da_advance (length (concat (map enc_VarUpdateT ?us))) ?d)"
    by (intro update_codec.des_list) (simp_all add: wf_VarUpdateT_def)
  then have r: "repeatE 2 des_VarUpdateT ?d = (Inr ?us, da_advance (length (concat (map enc_VarUpdateT ?us))) ?d)"
    by (simp add: numeral_2_eq_2)
  have w: "wf_da ?d" by simp
  from update_records_sound [OF w r] r show ?thesis by blast
qed

text \<open>Order of sequence numbers modulo 256: an increment is more recent, the relation is asymmetric, and
  it decides every pair of different numbers that are not half the number space apart.\<close>

theorem more_recent_seqno_spec:
  "more_recent_seqno (a + 1) a \<and> \<not> (more_recent_seqno a b \<and> more_recent_seqno b a)
   \<and> (more_recent_seqno a b \<or> more_recent_seqno b a \<or> a = b \<or> unat (a - b) = 128)
   \<and> (more_recent_seqno a b \<longleftrightarrow> 1 \<le> unat (a - b) \<and> unat (a - b) \<le> 127)"
  using more_recent_seqno_asym more_recent_seqno_total more_recent_seqno_iff by auto

section \<open>Areas\<close>

text \<open>The \<open>memcpy\<close> of the concrete assembly areas does what the byte-by-byte default of the base
  class does, in result, contents and all counters.\<close>

theorem byte_block_equals_default:
  assumes "wf_aa a" "length bs = n"
  shows "serialize_byte_block n (Some bs) a = default_serialize_byte_block n (Some bs) a"
  by (rule serialize_byte_block_eq_default [OF assms])

theorem byte_block_equals_default_witness:
  "serialize_byte_block 2 (Some [1, 2]) (projr (MemoryChunkAssemblyArea_alloc 4))
   = default_serialize_byte_block 2 (Some [1, 2]) (projr (MemoryChunkAssemblyArea_alloc 4))"
  by (rule byte_block_equals_default) (rule wf_new_areas(1) [of 4], simp_all add: MemoryChunkAssemblyArea_alloc_def)

text \<open>The guard of the 64-bit serialization asks for four bytes only: with four to seven bytes left the
  method fills the area with the first bytes of the value before it throws.\<close>

theorem uint64_partial_write:
  assumes "wf_aa a" "4 \<le> bytes_available a" "bytes_available a < 8"
  shows "serialize_uint64_n v a = (Inl AssemblyAreaException, aa_append (take (bytes_available a) (be_bytes64 v)) a)"
  by (rule serialize_uint64_n_partial [OF assms])

theorem uint64_partial_write_witness:
  "\<exists>a'. serialize_uint64_n 1 (projr (MemoryChunkAssemblyArea_alloc 5)) = (Inl AssemblyAreaException, a')"
proof -
  have "wf_aa (projr (MemoryChunkAssemblyArea_alloc 5))"
    by (rule wf_new_areas(1) [of 5]) (simp add: MemoryChunkAssemblyArea_alloc_def)
  from uint64_partial_write [OF this, of 1] show ?thesis by (simp add: MemoryChunkAssemblyArea_alloc_def)
qed

section \<open>Ring buffer\<close>

text \<open>The ring buffer is a FIFO queue: from an empty buffer, up to its capacity, what is pushed is popped
  in the same order, after any earlier wrap-around of the indices.\<close>

lemma ring_buffer_fifo:
  assumes "wf_rb q" "rb_elems q = []" "length ys \<le> maxCapacity q"
  shows "\<exists>q'. bindE (forE rb_push ys) (\<lambda>_. repeatE (length ys) rb_pop) q = (Inr ys, q') \<and> wf_rb q' \<and> rb_elems q' = []"
  by (rule rbq.fifo [OF assms])

section \<open>Variable store\<close>

text \<open>Values and descriptions of the store do not interfere: writing the value of one identifier and the
  description of another changes nothing else that can be read, the limits are enforced, and what
  was written is read back.\<close>

lemma store_isolation:
  assumes "wf_store st" "is_used (id_states st i)" "wf_VarValueT v" "0 < mb_length v" "mb_length v \<le> valueBufferSize st"
  shows "\<exists>st'. update_value i v st = (Inr (), st') \<and> wf_store st'
    \<and> (\<forall>j. value_bytes j st' = (if j = i then mb_bytes v else value_bytes j st) \<and> descr_bytes j st' = descr_bytes j st
         \<and> db_entry (id_states st' j) = db_entry (id_states st j))
    \<and> fst (read_value i st') = Inr (new_VarValueT\<lparr>do_delete := False, mb_data := Some (mb_bytes v),
         mb_length := mb_length v, vv_len := of_nat (mb_length v)\<rparr>)"
proof -
  have v: "mb_bytes v \<noteq> []" "mb_length v = length (mb_bytes v)"
    using assms(3,4) wf_VarValueT_fields(1) [OF assms(3)] by auto
  have len: "length (mb_bytes v) \<le> valueBufferSize st" using v(2) assms(5) by simp
  let ?st' = "put_value i (mb_bytes v) st"
  have "update_value i v st = (Inr (), ?st')"
    using update_value_ok [OF assms(2) v(1) len v(2) refl] .
  moreover have "wf_store ?st'" using assms(1,2) v len by simp
  moreover have "value_bytes j ?st' = (if j = i then mb_bytes v else value_bytes j st)" for j
    by (rule value_bytes_put_value [OF assms(1,2) len])
  moreover have "is_used (id_states ?st' i)" using assms(2) by simp
  ultimately show ?thesis
    using v(2) by (intro exI [of _ ?st']) (simp add: read_value_ok del: length_value_bytes)
qed

text \<open>Allocation: every unused identifier can be allocated (there are as many buffers as identifiers),
  allocation and deallocation keep the other identifiers and their contents, and both refuse
  identifiers in the wrong state.\<close>

theorem store_allocation:
  assumes "wf_store st"
  shows "(\<not> is_used (id_states st i) \<longrightarrow> (\<exists>st'. allocate_identifier i st = (Inr (), st') \<and> wf_store st'
      \<and> (\<forall>j. is_used (id_states st' j) \<longleftrightarrow> j = i \<or> is_used (id_states st j))
      \<and> (\<forall>j. value_bytes j st' = value_bytes j st \<and> descr_bytes j st' = descr_bytes j st)))
    \<and> (is_used (id_states st i) \<longrightarrow> (\<exists>st'. deallocate_identifier i st = (Inr (), st') \<and> wf_store st'
      \<and> (\<forall>j. is_used (id_states st' j) \<longleftrightarrow> j \<noteq> i \<and> is_used (id_states st j))
      \<and> (\<forall>j. j \<noteq> i \<longrightarrow> id_states st' j = id_states st j)))
    \<and> (\<not> is_used (id_states st i) \<longrightarrow> deallocate_identifier i st = (Inl VardisStoreException, st))"
  using allocate_identifier_ok [OF assms, of i] deallocate_identifier_ok [OF assms, of i] unused_throws(10) [of st i]
  by metis

theorem store_allocation_witness:
  "\<exists>st'. allocate_identifier 3 (vardis_store (fresh_node node_A)) = (Inr (), st') \<and> is_used (id_states st' 3)"
  using store_allocation [OF wf_pdD(1) [OF fresh_node(2) [of node_A]], of 3] fresh_node(3) [of node_A 3] by auto

end
