(* ===== verification/AvlSpec.thy ===== *)
theory AvlSpec
  imports Main "HOL-Library.Tree"
begin

text \<open>
  The algorithms of \<open>dcp/common/fixedmem_avl_tree.h\<close> on functional trees of key/data
  pairs, with heights computed instead of stored: rotations, the two kinds of
  rebalancing, insertion and removal.  Theory \<open>AvlTree\<close> shows that the array
  implementation refines them; here their correctness: order, balance and contents.
\<close>

section \<open>Algorithms\<close>

fun bal :: "'e tree \<Rightarrow> int" where
  "bal Leaf = 0"
| "bal (Node l _ r) = int (height l) - int (height r)"

fun rotR :: "'e tree \<Rightarrow> 'e tree" where
  "rotR (Node (Node a x b) y c) = Node a x (Node b y c)"
| "rotR t = t"

fun rotL :: "'e tree \<Rightarrow> 'e tree" where
  "rotL (Node a x (Node b y c)) = Node (Node a x b) y c"
| "rotL t = t"

definition rebal_ins :: "'k::linorder \<Rightarrow> ('k \<times> 'd) tree \<Rightarrow> ('k \<times> 'd) tree" where
  "rebal_ins k t =
     (case t of Leaf \<Rightarrow> Leaf
      | Node l x r \<Rightarrow>
          if bal t > 1 \<and> k < fst (value l) then rotR t
          else if bal t < -1 \<and> fst (value r) < k then rotL t
          else if bal t > 1 \<and> fst (value l) < k then rotR (Node (rotL l) x r)
          else if bal t < -1 \<and> k < fst (value r) then rotL (Node l x (rotR r))
          else t)"

fun ins :: "'k::linorder \<Rightarrow> 'd \<Rightarrow> ('k \<times> 'd) tree \<Rightarrow> ('k \<times> 'd) tree" where
  "ins k d Leaf = Node Leaf (k, d) Leaf"
| "ins k d (Node l x r) =
     (if k < fst x then rebal_ins k (Node (ins k d l) x r)
      else if fst x < k then rebal_ins k (Node l x (ins k d r))
      else Node l (fst x, d) r)"

definition rebal_rem :: "'e tree \<Rightarrow> 'e tree" where
  "rebal_rem t =
     (case t of Leaf \<Rightarrow> Leaf
      | Node l x r \<Rightarrow>
          if bal t > 1 \<and> bal l \<ge> 0 then rotR t
          else if bal t > 1 \<and> bal l < 0 then rotR (Node (rotL l) x r)
          else if bal t < -1 \<and> bal r \<le> 0 then rotL t
          else if bal t < -1 \<and> bal r > 0 then rotL (Node l x (rotR r))
          else t)"

fun min_elem :: "'e tree \<Rightarrow> 'e" where
  "min_elem (Node l x r) = (if l = Leaf then x else min_elem l)"
| "min_elem Leaf = undefined"

text \<open>A node with one child is replaced by the child; the new root is rebalanced as well.\<close>

fun rem :: "'k::linorder \<Rightarrow> ('k \<times> 'd) tree \<Rightarrow> ('k \<times> 'd) tree" where
  "rem k Leaf = Leaf"
| "rem k (Node l x r) =
     (if k < fst x then rebal_rem (Node (rem k l) x r)
      else if fst x < k then rebal_rem (Node l x (rem k r))
      else if l = Leaf then rebal_rem r
      else if r = Leaf then rebal_rem l
      else rebal_rem (Node l (min_elem r) (rem (fst (min_elem r)) r)))"

fun tfind :: "'k::linorder \<Rightarrow> ('k \<times> 'd) tree \<Rightarrow> 'd option" where
  "tfind k Leaf = None"
| "tfind k (Node l x r) =
     (if k = fst x then Some (snd x) else if k < fst x then tfind k l else tfind k r)"

section \<open>Order and contents\<close>

abbreviation keys :: "('k \<times> 'd) tree \<Rightarrow> 'k list" where
  "keys t \<equiv> map fst (inorder t)"

abbreviation ordered :: "('k::linorder \<times> 'd) tree \<Rightarrow> bool" where
  "ordered t \<equiv> sorted_wrt (<) (keys t)"

lemma inorder_rotR [simp]: "inorder (rotR t) = inorder t"
  by (cases t rule: rotR.cases) simp_all

lemma inorder_rotL [simp]: "inorder (rotL t) = inorder t"
  by (cases t rule: rotL.cases) simp_all

lemma inorder_rebal_ins [simp]: "inorder (rebal_ins k t) = inorder t"
  by (cases t) (simp_all add: rebal_ins_def)

lemma inorder_rebal_rem [simp]: "inorder (rebal_rem t) = inorder t"
  by (cases t) (simp_all add: rebal_rem_def)

lemma ordered_Node:
  "ordered (Node l x r) \<longleftrightarrow> ordered l \<and> ordered r
     \<and> (\<forall>e \<in> set_tree l. fst e < fst x) \<and> (\<forall>e \<in> set_tree r. fst x < fst e)"
  by (auto simp: sorted_wrt_append) force

lemma inorder_ins:
  "ordered t \<Longrightarrow> inorder (ins k d t) =
     filter (\<lambda>e. fst e < k) (inorder t) @ (k, d) # filter (\<lambda>e. k < fst e) (inorder t)"
proof (induction t)
  case (Node l x r)
  note o = Node.prems [unfolded ordered_Node]
  consider "k < fst x" | "fst x < k" | "k = fst x" by (meson linorder_less_linear)
  then show ?case
  proof cases
    case 1
    then have "filter (\<lambda>e. fst e < k) (inorder r) = []" "filter (\<lambda>e. k < fst e) (inorder r) = inorder r"
      using o by (auto simp: filter_empty_conv filter_id_conv)
    with 1 Node.IH(1) o show ?thesis by auto
  next
    case 2
    then have "filter (\<lambda>e. fst e < k) (inorder l) = inorder l" "filter (\<lambda>e. k < fst e) (inorder l) = []"
      using o by (auto simp: filter_empty_conv filter_id_conv)
    with 2 Node.IH(2) o show ?thesis by auto
  next
    case 3
    then have "filter (\<lambda>e. fst e < k) (inorder l) = inorder l" "filter (\<lambda>e. k < fst e) (inorder l) = []"
      "filter (\<lambda>e. fst e < k) (inorder r) = []" "filter (\<lambda>e. k < fst e) (inorder r) = inorder r"
      using o by (auto simp: filter_empty_conv filter_id_conv)
    with 3 show ?thesis by simp
  qed
qed simp

lemma inorder_hd_min: "t \<noteq> Leaf \<Longrightarrow> inorder t = min_elem t # tl (inorder t)"
proof (induction t)
  case (Node l x r)
  show ?case
  proof (cases "l = Leaf")
    case False
    with Node.IH(1) have "inorder l = min_elem l # tl (inorder l)" .
    with False show ?thesis by (cases "inorder l") auto
  qed simp
qed simp

lemma min_elem_in: "t \<noteq> Leaf \<Longrightarrow> min_elem t \<in> set_tree t"
  using inorder_hd_min [of t] by (metis list.set_intros(1) set_inorder)

lemma filter_hd_out:
  "sorted_wrt (<) (map fst (x # xs)) \<Longrightarrow> filter (\<lambda>e. fst e \<noteq> fst (x :: 'k::linorder \<times> 'd)) (x # xs) = xs"
  by (auto simp: filter_id_conv)

lemma inorder_rem:
  "ordered t \<Longrightarrow> inorder (rem k t) = filter (\<lambda>e. fst e \<noteq> k) (inorder t)"
proof (induction t arbitrary: k)
  case (Node l x r)
  note o = Node.prems [unfolded ordered_Node]
  consider "k < fst x" | "fst x < k" | "k = fst x" by (meson linorder_less_linear)
  then show ?case
  proof cases
    case 1
    then have "filter (\<lambda>e. fst e \<noteq> k) (inorder r) = inorder r" "fst x \<noteq> k" using o by (auto simp: filter_id_conv)
    with 1 Node.IH(1) [of k] o show ?thesis by simp
  next
    case 2
    then have "filter (\<lambda>e. fst e \<noteq> k) (inorder l) = inorder l" "fst x \<noteq> k" "\<not> k < fst x"
      using o by (auto simp: filter_id_conv)
    with 2 Node.IH(2) [of k] o show ?thesis by simp
  next
    case 3
    then have lr: "filter (\<lambda>e. fst e \<noteq> k) (inorder l) = inorder l" "filter (\<lambda>e. fst e \<noteq> k) (inorder r) = inorder r"
      using o by (auto simp: filter_id_conv)
    show ?thesis
    proof (cases "l = Leaf \<or> r = Leaf")
      case True with 3 lr show ?thesis by (elim disjE) simp_all
    next
      case False
      then have hd: "inorder r = min_elem r # tl (inorder r)" by (intro inorder_hd_min) simp
      have tl: "filter (\<lambda>e. fst e \<noteq> fst (min_elem r)) (inorder r) = tl (inorder r)"
        using filter_hd_out [of "min_elem r" "tl (inorder r)"] o hd by metis
      have "inorder (rem (fst (min_elem r)) r) = filter (\<lambda>e. fst e \<noteq> fst (min_elem r)) (inorder r)"
        by (rule Node.IH(2)) (use o in blast)
      then have "min_elem r # inorder (rem (fst (min_elem r)) r) = inorder r"
        by (simp only: tl hd [symmetric])
      with False 3 lr show ?thesis by simp
    qed
  qed
qed simp

lemma ordered_ins: "ordered t \<Longrightarrow> ordered (ins k d t)"
  by (auto simp: inorder_ins sorted_wrt_append sorted_wrt_map intro: sorted_wrt_filter)

lemma ordered_rem: "ordered t \<Longrightarrow> ordered (rem k t)"
  by (simp add: inorder_rem sorted_wrt_map sorted_wrt_filter)

lemma ordered_distinct: "ordered t \<Longrightarrow> distinct (keys t)"
  by (simp add: strict_sorted_iff)

text \<open>The partial map a tree stands for.\<close>

definition tree_map :: "('k \<times> 'd) tree \<Rightarrow> 'k \<rightharpoonup> 'd" where
  "tree_map t = map_of (inorder t)"

lemma tree_map_Leaf [simp]: "tree_map Leaf = Map.empty"
  by (simp add: tree_map_def)

lemma dom_tree_map: "dom (tree_map t) = fst ` set_tree t"
  by (simp add: tree_map_def dom_map_of_conv_image_fst)

lemma tree_map_Some: "ordered t \<Longrightarrow> tree_map t k = Some d \<longleftrightarrow> (k, d) \<in> set_tree t"
  by (simp add: tree_map_def ordered_distinct)

lemma map_eqI: "(\<And>k d. f k = Some d \<longleftrightarrow> g k = Some d) \<Longrightarrow> f = g"
  by (intro ext) (metis option.exhaust)

lemma elems_ins:
  "ordered t \<Longrightarrow> set_tree (ins k d t) = insert (k, d) {e \<in> set_tree t. fst e \<noteq> k}"
  by (subst set_inorder [symmetric], subst inorder_ins) auto

lemma elems_rem: "ordered t \<Longrightarrow> set_tree (rem k t) = {e \<in> set_tree t. fst e \<noteq> k}"
  by (subst set_inorder [symmetric], subst inorder_rem) auto

lemma tree_map_ins: "ordered t \<Longrightarrow> tree_map (ins k d t) = (tree_map t)(k \<mapsto> d)"
  by (rule map_eqI) (auto simp: tree_map_Some ordered_ins elems_ins)

lemma tree_map_rem: "ordered t \<Longrightarrow> tree_map (rem k t) = (tree_map t)(k := None)"
  by (rule map_eqI) (auto simp: tree_map_Some ordered_rem elems_rem)

lemma tree_map_Node: "tree_map (Node l x r) = (tree_map r)(fst x \<mapsto> snd x) ++ tree_map l"
  by (cases x) (simp add: tree_map_def)

lemma tfind_tree_map: "ordered t \<Longrightarrow> tfind k t = tree_map t k"
proof (induction t)
  case (Node l x r)
  note o = Node.prems [unfolded ordered_Node]
  have "k \<le> fst x \<Longrightarrow> k \<notin> dom (tree_map r)" "fst x \<le> k \<Longrightarrow> k \<notin> dom (tree_map l)"
    unfolding dom_tree_map using o by (metis imageE leD)+
  then have "k \<le> fst x \<Longrightarrow> tree_map r k = None" "fst x \<le> k \<Longrightarrow> tree_map l k = None"
    by (simp_all add: domIff)
  with Node.IH o show ?case by (cases "k = fst x") (simp_all add: tree_map_Node map_add_def split: option.splits)
qed simp

lemma size_ins: "ordered t \<Longrightarrow> size (ins k d t) = (if k \<in> fst ` set_tree t then size t else Suc (size t))"
proof -
  assume o: "ordered t"
  have c: "size t = card (fst ` set_tree t)" if "ordered t" for t :: "('a \<times> 'b) tree"
    using distinct_card [OF ordered_distinct [OF that]] by simp
  have "fst ` set_tree (ins k d t) = insert k (fst ` set_tree t)" using elems_ins [OF o] by force
  then show ?thesis using c [OF o] c [OF ordered_ins [OF o, of k d]] by (simp add: insert_absorb)
qed

lemma size_rem: "ordered t \<Longrightarrow> size (rem k t) = (if k \<in> fst ` set_tree t then size t - 1 else size t)"
proof -
  assume o: "ordered t"
  have c: "size t = card (fst ` set_tree t)" if "ordered t" for t :: "('a \<times> 'b) tree"
    using distinct_card [OF ordered_distinct [OF that]] by simp
  have "fst ` set_tree (rem k t) = fst ` set_tree t - {k}" using elems_rem [OF o] by force
  then show ?thesis using c [OF o] c [OF ordered_rem [OF o, of k]] by simp
qed

section \<open>Balance\<close>

fun avl :: "'e tree \<Rightarrow> bool" where
  "avl Leaf = True"
| "avl (Node l x r) \<longleftrightarrow> avl l \<and> avl r \<and> \<bar>bal (Node l x r)\<bar> \<le> 1"

text \<open>
  An insertion that makes a tree higher makes it lean to the side of the new key; so the
  code may choose the rotation by comparing keys.
\<close>

definition leans :: "'k::linorder \<Rightarrow> ('k \<times> 'd) tree \<Rightarrow> bool" where
  "leans k t = (case t of Leaf \<Rightarrow> False
     | Node a y b \<Rightarrow> if k < fst y then height b < height a
                   else if fst y < k then height a < height b else a = Leaf \<and> b = Leaf)"

lemma rebal_ins_id: "\<bar>bal t\<bar> \<le> 1 \<Longrightarrow> rebal_ins k t = t"
  by (cases t) (auto simp: rebal_ins_def)

lemma rot_right_avl:
  assumes "avl (Node a y b)" "avl r" "height (Node a y b) = height r + 2"
  shows "height b \<le> height a \<Longrightarrow> avl (rotR (Node (Node a y b) x r))
      \<and> height (rotR (Node (Node a y b) x r)) = height r + (if height b = height a then 3 else 2)"
    and "height a < height b \<Longrightarrow> avl (rotR (Node (rotL (Node a y b)) x r))
      \<and> height (rotR (Node (rotL (Node a y b)) x r)) = height r + 2"
proof -
  show "height b \<le> height a \<Longrightarrow> avl (rotR (Node (Node a y b) x r))
      \<and> height (rotR (Node (Node a y b) x r)) = height r + (if height b = height a then 3 else 2)"
    using assms by (auto simp: max_def split: if_splits)
  show "height a < height b \<Longrightarrow> avl (rotR (Node (rotL (Node a y b)) x r))
      \<and> height (rotR (Node (rotL (Node a y b)) x r)) = height r + 2"
    using assms by (cases b) (auto simp: max_def split: if_splits)
qed

lemma rot_left_avl:
  assumes "avl l" "avl (Node a y b)" "height (Node a y b) = height l + 2"
  shows "height a \<le> height b \<Longrightarrow> avl (rotL (Node l x (Node a y b)))
      \<and> height (rotL (Node l x (Node a y b))) = height l + (if height a = height b then 3 else 2)"
    and "height b < height a \<Longrightarrow> avl (rotL (Node l x (rotR (Node a y b))))
      \<and> height (rotL (Node l x (rotR (Node a y b)))) = height l + 2"
proof -
  show "height a \<le> height b \<Longrightarrow> avl (rotL (Node l x (Node a y b)))
      \<and> height (rotL (Node l x (Node a y b))) = height l + (if height a = height b then 3 else 2)"
    using assms by (auto simp: max_def split: if_splits)
  show "height b < height a \<Longrightarrow> avl (rotL (Node l x (rotR (Node a y b))))
      \<and> height (rotL (Node l x (rotR (Node a y b)))) = height l + 2"
    using assms by (cases a) (auto simp: max_def split: if_splits)
qed

lemma rebal_ins_left:
  assumes "avl l" "avl r" "height l = height r + 2" "leans k l"
  shows "avl (rebal_ins k (Node l x r)) \<and> height (rebal_ins k (Node l x r)) = height r + 2"
proof (cases l)
  case (Node a y b)
  have "k < fst y \<and> height b < height a \<or> fst y < k \<and> height a < height b"
    using assms(3,4) Node by (auto simp: leans_def split: if_splits)
  moreover have "bal (Node l x r) = 2" using assms(3) by simp
  ultimately show ?thesis
    using rot_right_avl [of a y b r x] assms(1,2,3) Node
    by (auto simp: rebal_ins_def simp del: rotL.simps rotR.simps bal.simps avl.simps height_tree.simps)
qed (use assms in simp)

lemma rebal_ins_right:
  assumes "avl l" "avl r" "height r = height l + 2" "leans k r"
  shows "avl (rebal_ins k (Node l x r)) \<and> height (rebal_ins k (Node l x r)) = height l + 2"
proof (cases r)
  case (Node a y b)
  have "k < fst y \<and> height b < height a \<or> fst y < k \<and> height a < height b"
    using assms(3,4) Node by (auto simp: leans_def split: if_splits)
  moreover have "bal (Node l x r) = -2" using assms(3) by simp
  ultimately show ?thesis
    using rot_left_avl [of l a y b x] assms(1,2,3) Node
    by (auto simp: rebal_ins_def simp del: rotL.simps rotR.simps bal.simps avl.simps height_tree.simps)
qed (use assms in simp)

lemma avl_ins:
  "avl t \<Longrightarrow> avl (ins k d t) \<and> (height (ins k d t) = height t
     \<or> height (ins k d t) = Suc (height t) \<and> leans k (ins k d t))"
proof (induction t)
  case (Node l x r)
  consider "k < fst x" | "fst x < k" | "k = fst x" by (meson linorder_less_linear)
  then show ?case
  proof cases
    case 1
    show ?thesis
    proof (cases "height (ins k d l) = height r + 2")
      case True
      with Node 1 show ?thesis
        using rebal_ins_left [of "ins k d l" r k x] by auto
    next
      case False
      with Node 1 have "rebal_ins k (Node (ins k d l) x r) = Node (ins k d l) x r"
        by (intro rebal_ins_id) auto
      with False Node 1 show ?thesis by (auto simp: leans_def)
    qed
  next
    case 2
    show ?thesis
    proof (cases "height (ins k d r) = height l + 2")
      case True
      with Node 2 show ?thesis
        using rebal_ins_right [of l "ins k d r" k x] by auto
    next
      case False
      with Node 2 have "rebal_ins k (Node l x (ins k d r)) = Node l x (ins k d r)"
        by (intro rebal_ins_id) auto
      with False Node 2 show ?thesis by (auto simp: leans_def)
    qed
  next
    case 3
    with Node show ?thesis by simp
  qed
qed (simp add: leans_def)

lemma rebal_rem_id: "\<bar>bal t\<bar> \<le> 1 \<Longrightarrow> rebal_rem t = t"
  by (cases t) (auto simp: rebal_rem_def)

lemma rebal_rem_left:
  assumes "avl l" "avl r" "height l = height r + 2"
  shows "avl (rebal_rem (Node l x r)) \<and> height (rebal_rem (Node l x r)) \<in> {height r + 2, height r + 3}"
proof (cases l)
  case (Node a y b)
  have "bal (Node l x r) = 2" "bal (Node a y b) = int (height a) - int (height b)" using assms(3) by simp_all
  then show ?thesis
    using rot_right_avl [of a y b r x] assms(1,2,3) Node
    by (cases "height b \<le> height a")
      (auto simp: rebal_rem_def simp del: rotL.simps rotR.simps bal.simps avl.simps height_tree.simps)
qed (use assms in simp)

lemma rebal_rem_right:
  assumes "avl l" "avl r" "height r = height l + 2"
  shows "avl (rebal_rem (Node l x r)) \<and> height (rebal_rem (Node l x r)) \<in> {height l + 2, height l + 3}"
proof (cases r)
  case (Node a y b)
  have "bal (Node l x r) = -2" "bal (Node a y b) = int (height a) - int (height b)" using assms(3) by simp_all
  then show ?thesis
    using rot_left_avl [of l a y b x] assms(1,2,3) Node
    by (cases "height a \<le> height b")
      (auto simp: rebal_rem_def simp del: rotL.simps rotR.simps bal.simps avl.simps height_tree.simps)
qed (use assms in simp)

lemma rebal_rem_shrunk_left:
  assumes "avl (Node l x r)" "avl l'" "height l' = height l \<or> Suc (height l') = height l"
  shows "avl (rebal_rem (Node l' x r)) \<and>
    (height (rebal_rem (Node l' x r)) = height (Node l x r) \<or> Suc (height (rebal_rem (Node l' x r))) = height (Node l x r))"
proof (cases "height r = height l' + 2")
  case True with assms rebal_rem_right [of l' r x] show ?thesis by auto
next
  case False
  with assms have "rebal_rem (Node l' x r) = Node l' x r" by (intro rebal_rem_id) auto
  with False assms show ?thesis by auto
qed

lemma rebal_rem_shrunk_right:
  assumes "avl (Node l x r)" "avl r'" "height r' = height r \<or> Suc (height r') = height r"
  shows "avl (rebal_rem (Node l x' r')) \<and>
    (height (rebal_rem (Node l x' r')) = height (Node l x r) \<or> Suc (height (rebal_rem (Node l x' r'))) = height (Node l x r))"
proof (cases "height l = height r' + 2")
  case True with assms rebal_rem_left [of l r' x'] show ?thesis by auto
next
  case False
  with assms have "rebal_rem (Node l x' r') = Node l x' r'" by (intro rebal_rem_id) auto
  with False assms show ?thesis by auto
qed

lemma avl_bal: "avl t \<Longrightarrow> \<bar>bal t\<bar> \<le> 1"
  by (cases t) simp_all

lemma avl_rem:
  "avl t \<Longrightarrow> avl (rem k t) \<and> (height (rem k t) = height t \<or> Suc (height (rem k t)) = height t)"
proof (induction t arbitrary: k)
  case (Node l x r)
  have sub: "avl l" "avl r" using Node.prems by simp_all
  consider "k < fst x" | "fst x < k" | "k = fst x" "l = Leaf" | "k = fst x" "l \<noteq> Leaf" "r = Leaf"
    | "k = fst x" "l \<noteq> Leaf" "r \<noteq> Leaf" by (meson linorder_less_linear)
  then show ?case
  proof cases
    case 1
    then show ?thesis
      using rebal_rem_shrunk_left [OF Node.prems, of "rem k l"] Node.IH(1) [OF sub(1), of k] by auto
  next
    case 2
    then have "\<not> k < fst x" by simp
    with 2 show ?thesis
      using rebal_rem_shrunk_right [OF Node.prems, of "rem k r"] Node.IH(2) [OF sub(2), of k] by auto
  next
    case 3
    with sub show ?thesis by (simp add: rebal_rem_id [OF avl_bal])
  next
    case 4
    with sub show ?thesis by (simp add: rebal_rem_id [OF avl_bal])
  next
    case 5
    then show ?thesis
      using rebal_rem_shrunk_right [OF Node.prems, of "rem (fst (min_elem r)) r"]
        Node.IH(2) [OF sub(2), of "fst (min_elem r)"] by auto
  qed
qed simp

text \<open>The height is at most twice the binary logarithm of the number of leaves.\<close>

lemma balanced_square:
  fixes x y :: nat
  assumes "2 ^ k \<le> x\<^sup>2" "2 ^ k \<le> y\<^sup>2"
  shows "x\<^sup>2 + y\<^sup>2 + 2 * 2 ^ k \<le> (x + y)\<^sup>2"
proof -
  have "(2 ^ k)\<^sup>2 \<le> (x * y)\<^sup>2" using mult_le_mono [OF assms] by (simp add: power2_eq_square ac_simps)
  then have "2 ^ k \<le> x * y" by (rule power2_le_imp_le) simp
  then show ?thesis by (simp add: power2_sum)
qed

lemma avl_size_height: "avl t \<Longrightarrow> 2 ^ height t \<le> (size1 t)\<^sup>2"
proof (induction t)
  case (Node l a r)
  have *: "2 ^ height l \<le> (size1 l)\<^sup>2" "2 ^ height r \<le> (size1 r)\<^sup>2" using Node by simp_all
  have m: "2 ^ min (height l) (height r) \<le> (size1 l)\<^sup>2" "2 ^ min (height l) (height r) \<le> (size1 r)\<^sup>2"
    using * order_trans [OF power_increasing [of "min (height l) (height r)" "height l" "2 :: nat"]]
      order_trans [OF power_increasing [of "min (height l) (height r)" "height r" "2 :: nat"]] by simp_all
  consider "height r = height l" | "height l = height r + 1" | "height r = height l + 1" using Node.prems by fastforce
  then show ?case using balanced_square [OF m] * by cases simp_all
qed simp

end
