(* ===== verification/AvlTree.thy ===== *)
theory AvlTree
  imports RingBuffer AvlSpec
begin

text \<open>
  The balanced search tree of \<open>dcp/common/fixedmem_avl_tree.h\<close>: nodes are entries of a fixed
  array and point to their children by index, -1 being null; the free entries are in a ring
  buffer.  The recursive methods follow the links as they are in the array; on an array that
  does not hold a tree they may not return, so they are partial functions (result \<open>None\<close>).
  \<open>rep h i F t\<close> says that at index \<open>i\<close> the array \<open>h\<close> holds the functional tree \<open>t\<close> in exactly
  the entries \<open>F\<close>; on such an array every method returns and refines its counterpart of theory
  \<open>AvlSpec\<close>.
\<close>

section \<open>Nodes and accessors\<close>

record ('k, 'd) ANode =
  a_key :: 'k
  a_data :: 'd
  nd_left :: int
  nd_right :: int
  nd_height :: int

record ('k, 'd) FixedMemAVLTree =
  avl_freeList :: "int ring_buffer"
  the_array :: "int \<Rightarrow> ('k, 'd) ANode"
  arraySize :: nat
  number_elements :: nat
  root :: int

definition A_NULL :: int where
  "A_NULL = -1"

definition is_null :: "int \<Rightarrow> bool" where
  "is_null idx \<longleftrightarrow> idx < 0"

definition left_ch :: "('k, 'd) FixedMemAVLTree \<Rightarrow> int \<Rightarrow> int" where
  "left_ch s idx = nd_left (the_array s idx)"

definition right_ch :: "('k, 'd) FixedMemAVLTree \<Rightarrow> int \<Rightarrow> int" where
  "right_ch s idx = nd_right (the_array s idx)"

definition has_left_child :: "('k, 'd) FixedMemAVLTree \<Rightarrow> int \<Rightarrow> bool" where
  "has_left_child s idx \<longleftrightarrow> nd_left (the_array s idx) \<noteq> A_NULL"

definition has_right_child :: "('k, 'd) FixedMemAVLTree \<Rightarrow> int \<Rightarrow> bool" where
  "has_right_child s idx \<longleftrightarrow> nd_right (the_array s idx) \<noteq> A_NULL"

definition n_key :: "('k, 'd) FixedMemAVLTree \<Rightarrow> int \<Rightarrow> 'k" where
  "n_key s idx = a_key (the_array s idx)"

definition n_data :: "('k, 'd) FixedMemAVLTree \<Rightarrow> int \<Rightarrow> 'd" where
  "n_data s idx = a_data (the_array s idx)"

definition n_height :: "('k, 'd) FixedMemAVLTree \<Rightarrow> int \<Rightarrow> int" where
  "n_height s idx = (if is_null idx then 0 else nd_height (the_array s idx))"

definition n_balance :: "('k, 'd) FixedMemAVLTree \<Rightarrow> int \<Rightarrow> int" where
  "n_balance s idx = (if is_null idx then 0 else n_height s (left_ch s idx) - n_height s (right_ch s idx))"

definition modify_node ::
  "int \<Rightarrow> (('k, 'd) ANode \<Rightarrow> ('k, 'd) ANode) \<Rightarrow> ('k, 'd) FixedMemAVLTree \<Rightarrow> ('k, 'd) FixedMemAVLTree" where
  "modify_node idx f s = s\<lparr>the_array := (the_array s)(idx := f (the_array s idx))\<rparr>"

definition set_left_ch :: "int \<Rightarrow> int \<Rightarrow> ('k, 'd) FixedMemAVLTree \<Rightarrow> ('k, 'd) FixedMemAVLTree" where
  "set_left_ch idx new_ch s = (if \<not> is_null idx then modify_node idx (\<lambda>n. n\<lparr>nd_left := new_ch\<rparr>) s else s)"

definition set_right_ch :: "int \<Rightarrow> int \<Rightarrow> ('k, 'd) FixedMemAVLTree \<Rightarrow> ('k, 'd) FixedMemAVLTree" where
  "set_right_ch idx new_ch s = (if \<not> is_null idx then modify_node idx (\<lambda>n. n\<lparr>nd_right := new_ch\<rparr>) s else s)"

definition set_height :: "int \<Rightarrow> int \<Rightarrow> ('k, 'd) FixedMemAVLTree \<Rightarrow> ('k, 'd) FixedMemAVLTree" where
  "set_height idx h s = (if \<not> is_null idx then modify_node idx (\<lambda>n. n\<lparr>nd_height := h\<rparr>) s else s)"

definition new_node_at :: "int \<Rightarrow> 'k \<Rightarrow> 'd \<Rightarrow> ('k, 'd) FixedMemAVLTree \<Rightarrow> ('k, 'd) FixedMemAVLTree" where
  "new_node_at idx key data = modify_node idx (\<lambda>n. n\<lparr>a_key := key, a_data := data,
     nd_left := A_NULL, nd_right := A_NULL, nd_height := 1\<rparr>)"

section \<open>Rotations\<close>

partial_function (option) calc_height :: "('k, 'd) FixedMemAVLTree \<Rightarrow> int \<Rightarrow> int option" where
  "calc_height s idx =
     (if is_null idx then Some 0
      else Option.bind (calc_height s (left_ch s idx)) (\<lambda>l.
           Option.bind (calc_height s (right_ch s idx)) (\<lambda>r. Some (1 + max l r))))"

definition rotate_right :: "int \<Rightarrow> ('k, 'd) FixedMemAVLTree \<Rightarrow> (int \<times> ('k, 'd) FixedMemAVLTree) option" where
  "rotate_right y s =
     (let x = left_ch s y; z = right_ch s x;
          y_key = n_key s y; y_data = n_data s y; y_left = z; y_right = right_ch s y;
          s = modify_node y (\<lambda>n. n\<lparr>a_key := n_key s x, a_data := n_data s x\<rparr>) s;
          s = set_left_ch y (left_ch s x) s;
          s = set_right_ch y x s;
          s = modify_node x (\<lambda>n. n\<lparr>a_key := y_key, a_data := y_data\<rparr>) s;
          s = set_left_ch x y_left s;
          s = set_right_ch x y_right s
      in Option.bind (calc_height s x) (\<lambda>hx.
         let s = set_height x hx s in
         Option.bind (calc_height s y) (\<lambda>hy.
         Some (y, set_height y hy s))))"

definition rotate_left :: "int \<Rightarrow> ('k, 'd) FixedMemAVLTree \<Rightarrow> (int \<times> ('k, 'd) FixedMemAVLTree) option" where
  "rotate_left x s =
     (let y = right_ch s x; z = left_ch s y;
          x_key = n_key s x; x_data = n_data s x; x_left = left_ch s x; x_right = z;
          s = modify_node x (\<lambda>n. n\<lparr>a_key := n_key s y, a_data := n_data s y\<rparr>) s;
          s = set_left_ch x y s;
          s = set_right_ch x (right_ch s y) s;
          s = modify_node y (\<lambda>n. n\<lparr>a_key := x_key, a_data := x_data\<rparr>) s;
          s = set_left_ch y x_left s;
          s = set_right_ch y x_right s
      in Option.bind (calc_height s x) (\<lambda>hx.
         let s = set_height x hx s in
         Option.bind (calc_height s y) (\<lambda>hy.
         Some (x, set_height y hy s))))"

section \<open>The tree in the array\<close>

definition kv :: "('k, 'd) ANode \<Rightarrow> 'k \<times> 'd" where
  "kv n = (a_key n, a_data n)"

primrec rep :: "(int \<Rightarrow> ('k, 'd) ANode) \<Rightarrow> int \<Rightarrow> int set \<Rightarrow> ('k \<times> 'd) tree \<Rightarrow> bool" where
  "rep h i F Leaf \<longleftrightarrow> i = A_NULL \<and> F = {}"
| "rep h i F (Node l x r) \<longleftrightarrow>
     0 \<le> i \<and> x = kv (h i) \<and> nd_height (h i) = int (height (Node l x r))
     \<and> (\<exists>L R. rep h (nd_left (h i)) L l \<and> rep h (nd_right (h i)) R r
          \<and> i \<notin> L \<union> R \<and> L \<inter> R = {} \<and> F = insert i (L \<union> R))"

text \<open>A node whose children are trees and whose height may be out of date.\<close>

definition node_at ::
  "(int \<Rightarrow> ('k, 'd) ANode) \<Rightarrow> int \<Rightarrow> int set \<Rightarrow> ('k \<times> 'd) tree \<Rightarrow> 'k \<times> 'd \<Rightarrow> ('k \<times> 'd) tree \<Rightarrow> bool" where
  "node_at h i F l x r \<longleftrightarrow>
     0 \<le> i \<and> x = kv (h i)
     \<and> (\<exists>L R. rep h (nd_left (h i)) L l \<and> rep h (nd_right (h i)) R r
          \<and> i \<notin> L \<union> R \<and> L \<inter> R = {} \<and> F = insert i (L \<union> R))"

lemma rep_Node_iff: "rep h i F (Node l x r) \<longleftrightarrow>
    node_at h i F l x r \<and> nd_height (h i) = int (height (Node l x r))"
  by (auto simp: node_at_def)

lemma node_atI:
  assumes "0 \<le> i" "rep h (nd_left (h i)) L l" "rep h (nd_right (h i)) R r"
    and "i \<notin> L" "i \<notin> R" "L \<inter> R = {}" "x = kv (h i)"
  shows "node_at h i (insert i (L \<union> R)) l x r"
  using assms unfolding node_at_def by blast

lemma node_atE:
  assumes "node_at h i F l x r"
  obtains L R where "0 \<le> i" "rep h (nd_left (h i)) L l" "rep h (nd_right (h i)) R r"
    "i \<notin> L" "i \<notin> R" "L \<inter> R = {}" "x = kv (h i)" "F = insert i (L \<union> R)"
  using assms unfolding node_at_def by blast

lemma rep_frame: "rep h i F t \<Longrightarrow> (\<And>j. j \<in> F \<Longrightarrow> h' j = h j) \<Longrightarrow> rep h' i F t"
proof (induction t arbitrary: i F)
  case (Node l x r)
  from Node.prems(1) obtain L R where n: "0 \<le> i" "rep h (nd_left (h i)) L l" "rep h (nd_right (h i)) R r"
    "i \<notin> L" "i \<notin> R" "L \<inter> R = {}" "x = kv (h i)" "F = insert i (L \<union> R)"
    "nd_height (h i) = int (height (Node l x r))"
    unfolding rep_Node_iff by (auto elim!: node_atE)
  have "rep h' (nd_left (h' i)) L l" "rep h' (nd_right (h' i)) R r" "h' i = h i"
    using n Node.prems(2) Node.IH(1) [OF n(2)] Node.IH(2) [OF n(3)] by auto
  then show ?case unfolding rep_Node_iff n(8) using n node_atI [of i h' L l R r x] by simp
qed simp

lemma rep_upd [simp]: "j \<notin> F \<Longrightarrow> rep (h(j := n)) i F t = rep h i F t"
  by (auto elim!: rep_frame)

lemma rep_nonneg: "rep h i F t \<Longrightarrow> j \<in> F \<Longrightarrow> 0 \<le> j"
  by (induction t arbitrary: i F) auto

lemma rep_root: "rep h i F t \<Longrightarrow> t \<noteq> Leaf \<Longrightarrow> i \<in> F \<and> 0 \<le> i"
  by (cases t) auto

lemma rep_null: "rep h i F t \<Longrightarrow> is_null i \<longleftrightarrow> t = Leaf"
  by (cases t) (auto simp: is_null_def A_NULL_def)

lemma rep_finite: "rep h i F t \<Longrightarrow> finite F \<and> card F = size t"
  by (induction t arbitrary: i F) (auto simp: card_Un_disjoint)

lemma rep_Node_split:
  assumes "rep h i F (Node l x r)"
  obtains L R where "0 \<le> i" "rep h (nd_left (h i)) L l" "rep h (nd_right (h i)) R r"
    "i \<notin> L" "i \<notin> R" "L \<inter> R = {}" "x = kv (h i)" "F = insert i (L \<union> R)"
    "nd_height (h i) = int (height (Node l x r))"
  using assms unfolding rep_Node_iff by (auto elim: node_atE)

lemma rep_height: "rep h i F t \<Longrightarrow> (if is_null i then 0 else nd_height (h i)) = int (height t)"
  by (cases t) (auto simp: is_null_def A_NULL_def)

lemma calc_height_rep: "rep (the_array s) i F t \<Longrightarrow> calc_height s i = Some (int (height t))"
proof (induction t arbitrary: i F)
  case Leaf
  then show ?case by (subst calc_height.simps) (simp add: is_null_def A_NULL_def)
next
  case (Node l x r)
  then obtain L R where "rep (the_array s) (left_ch s i) L l" "rep (the_array s) (right_ch s i) R r"
    by (auto simp: left_ch_def right_ch_def)
  with Node have "calc_height s (left_ch s i) = Some (int (height l))"
    "calc_height s (right_ch s i) = Some (int (height r))" by blast+
  with Node.prems show ?case
    by (subst calc_height.simps) (simp add: is_null_def max_def)
qed

lemma calc_height_children:
  "0 \<le> i \<Longrightarrow> calc_height s (left_ch s i) = Some m \<Longrightarrow> calc_height s (right_ch s i) = Some n
   \<Longrightarrow> calc_height s i = Some (1 + max m n)"
  by (subst calc_height.simps) (simp add: is_null_def)

lemma calc_height_node:
  assumes "node_at (the_array s) i F l x r"
  shows "calc_height s i = Some (int (height (Node l x r)))"
proof -
  have "calc_height s (left_ch s i) = Some (int (height l))"
    "calc_height s (right_ch s i) = Some (int (height r))"
    using assms calc_height_rep [of s] by (auto simp: node_at_def left_ch_def right_ch_def)
  with assms show ?thesis
    by (subst calc_height.simps) (simp add: is_null_def node_at_def max_def)
qed

lemmas access_defs = left_ch_def right_ch_def n_key_def n_data_def
lemmas update_defs = set_left_ch_def set_right_ch_def set_height_def modify_node_def is_null_def

text \<open>The rotations move keys and data and leave the root index where it is.\<close>

lemma rotate_right_ok:
  assumes "node_at (the_array s) y F (Node a ex b) ey c"
  shows "\<exists>h'. rotate_right y s = Some (y, s\<lparr>the_array := h'\<rparr>)
    \<and> rep h' y F (Node a ex (Node b ey c)) \<and> (\<forall>j. j \<notin> F \<longrightarrow> h' j = the_array s j)"
proof -
  define h where "h = the_array s"
  define x where "x = nd_left (h y)"
  from assms obtain F1 C where o: "0 \<le> y" "rep h x F1 (Node a ex b)" "rep h (nd_right (h y)) C c"
    "y \<notin> F1" "y \<notin> C" "F1 \<inter> C = {}" "ey = kv (h y)" "F = insert y (F1 \<union> C)"
    unfolding h_def x_def by (rule node_atE)
  from o(2) obtain A B where i: "0 \<le> x" "rep h (nd_left (h x)) A a" "rep h (nd_right (h x)) B b"
    "x \<notin> A" "x \<notin> B" "A \<inter> B = {}" "ex = kv (h x)" "F1 = insert x (A \<union> B)"
    by (rule rep_Node_split)
  have d: "y \<noteq> x" "y \<notin> A" "y \<notin> B" "x \<notin> C" "A \<inter> C = {}" "B \<inter> C = {}" using o i by auto
  define nx where "nx = h x\<lparr>a_key := a_key (h y), a_data := a_data (h y), nd_left := nd_right (h x),
    nd_right := nd_right (h y)\<rparr>"
  define ny where "ny = h y\<lparr>a_key := a_key (h x), a_data := a_data (h x), nd_left := nd_left (h x),
    nd_right := x\<rparr>"
  let ?h1 = "h(y := ny, x := nx)"
  let ?hx = "int (height (Node b ey c))"
  let ?h2 = "?h1(x := nx\<lparr>nd_height := ?hx\<rparr>)"
  let ?hy = "int (height (Node a ex (Node b ey c)))"
  let ?h3 = "?h2(y := ny\<lparr>nd_height := ?hy\<rparr>)"
  have kx: "kv nx = ey" "kv ny = ex" using o(7) i(7) by (simp_all add: kv_def nx_def ny_def)
  have n1: "node_at ?h1 x (insert x (B \<union> C)) b ey c"
    using i o d kx by (intro node_atI) (auto simp: nx_def kv_def)
  have n2: "rep ?h2 x (insert x (B \<union> C)) (Node b ey c)"
    unfolding rep_Node_iff using i o d kx by (intro conjI node_atI) (auto simp: nx_def kv_def)
  have n3: "node_at ?h2 y (insert y (A \<union> insert x (B \<union> C))) a ex (Node b ey c)"
    using i o d kx n2 by (intro node_atI) (auto simp: ny_def kv_def)
  have n4: "rep ?h3 y (insert y (A \<union> insert x (B \<union> C))) (Node a ex (Node b ey c))"
    unfolding rep_Node_iff
  proof (intro conjI node_atI)
    show "rep ?h3 (nd_right (?h3 y)) (insert x (B \<union> C)) (Node b ey c)"
      using n2 d o(5) by (subst rep_upd) (simp_all add: ny_def)
  qed (use i o d kx in \<open>auto simp: ny_def kv_def\<close>)
  have c1: "calc_height (s\<lparr>the_array := ?h1\<rparr>) x = Some ?hx"
    using calc_height_node [of "s\<lparr>the_array := ?h1\<rparr>"] n1 by simp
  have c2: "calc_height (s\<lparr>the_array := ?h2\<rparr>) y = Some ?hy"
    using calc_height_node [of "s\<lparr>the_array := ?h2\<rparr>"] n3 by simp
  have "rotate_right y s = Some (y, s\<lparr>the_array := ?h3\<rparr>)"
    using c1 c2 d(1) o(1) i(1)
    by (simp add: rotate_right_def access_defs update_defs Let_def h_def [symmetric] x_def [symmetric]
        nx_def ny_def fun_upd_twist)
  moreover have F: "F = insert y (A \<union> insert x (B \<union> C))" using o(8) i(8) by auto
  moreover have "\<forall>j. j \<notin> F \<longrightarrow> ?h3 j = the_array s j" unfolding F by (simp add: h_def)
  ultimately show ?thesis using n4 by blast
qed

lemma rotate_left_ok:
  assumes "node_at (the_array s) x F a ex (Node b ey c)"
  shows "\<exists>h'. rotate_left x s = Some (x, s\<lparr>the_array := h'\<rparr>)
    \<and> rep h' x F (Node (Node a ex b) ey c) \<and> (\<forall>j. j \<notin> F \<longrightarrow> h' j = the_array s j)"
proof -
  define h where "h = the_array s"
  define y where "y = nd_right (h x)"
  from assms obtain A F1 where o: "0 \<le> x" "rep h (nd_left (h x)) A a" "rep h y F1 (Node b ey c)"
    "x \<notin> A" "x \<notin> F1" "A \<inter> F1 = {}" "ex = kv (h x)" "F = insert x (A \<union> F1)"
    unfolding h_def y_def by (rule node_atE)
  from o(3) obtain B C where i: "0 \<le> y" "rep h (nd_left (h y)) B b" "rep h (nd_right (h y)) C c"
    "y \<notin> B" "y \<notin> C" "B \<inter> C = {}" "ey = kv (h y)" "F1 = insert y (B \<union> C)"
    by (rule rep_Node_split)
  have d: "x \<noteq> y" "x \<notin> B" "x \<notin> C" "y \<notin> A" "A \<inter> B = {}" "A \<inter> C = {}" using o i by auto
  define nx where "nx = h x\<lparr>a_key := a_key (h y), a_data := a_data (h y), nd_left := y,
    nd_right := nd_right (h y)\<rparr>"
  define ny where "ny = h y\<lparr>a_key := a_key (h x), a_data := a_data (h x), nd_left := nd_left (h x),
    nd_right := nd_left (h y)\<rparr>"
  let ?h1 = "h(x := nx, y := ny)"
  let ?hx = "int (height (Node (Node a ex b) ey c))"
  let ?hy = "int (height (Node a ex b))"
  let ?h2 = "?h1(x := nx\<lparr>nd_height := ?hx\<rparr>)"
  let ?h3 = "?h2(y := ny\<lparr>nd_height := ?hy\<rparr>)"
  have kx: "kv nx = ey" "kv ny = ex" using o(7) i(7) by (simp_all add: kv_def nx_def ny_def)
  have n1: "node_at ?h1 y (insert y (A \<union> B)) a ex b"
    using i o d kx by (intro node_atI) (auto simp: ny_def kv_def)
  let ?s = "s\<lparr>the_array := ?h1\<rparr>"
  have "calc_height ?s (left_ch ?s x) = Some ?hy"
    using calc_height_node [of ?s] n1 d(1) by (simp add: left_ch_def nx_def)
  moreover have "calc_height ?s (right_ch ?s x) = Some (int (height c))"
    using i(3,5) d(1,3) by (intro calc_height_rep [of _ _ C]) (simp add: right_ch_def nx_def)
  ultimately have c1: "calc_height ?s x = Some ?hx"
    using calc_height_children [OF o(1), of ?s] by simp
  have n2: "node_at ?h2 y (insert y (A \<union> B)) a ex b"
    using i o d kx by (intro node_atI) (auto simp: ny_def kv_def)
  have c2: "calc_height (s\<lparr>the_array := ?h2\<rparr>) y = Some ?hy"
    using calc_height_node [of "s\<lparr>the_array := ?h2\<rparr>"] n2 by simp
  have n3: "rep ?h3 y (insert y (A \<union> B)) (Node a ex b)"
    unfolding rep_Node_iff using i o d kx by (intro conjI node_atI) (auto simp: ny_def kv_def)
  have n4: "rep ?h3 x (insert x (insert y (A \<union> B) \<union> C)) (Node (Node a ex b) ey c)"
    unfolding rep_Node_iff
  proof (intro conjI node_atI)
    show "rep ?h3 (nd_left (?h3 x)) (insert y (A \<union> B)) (Node a ex b)"
      using n3 d by (simp add: nx_def)
  qed (use i o d kx in \<open>auto simp: nx_def kv_def\<close>)
  have "rotate_left x s = Some (x, s\<lparr>the_array := ?h3\<rparr>)"
    using c1 c2 d(1) o(1) i(1)
    by (simp add: rotate_left_def access_defs update_defs Let_def h_def [symmetric] y_def [symmetric]
        nx_def ny_def fun_upd_twist)
  moreover have F: "F = insert x (insert y (A \<union> B) \<union> C)" using o(8) i(8) by auto
  moreover have "\<forall>j. j \<notin> F \<longrightarrow> ?h3 j = the_array s j" unfolding F by (simp add: h_def)
  ultimately show ?thesis using n4 by blast
qed

end
