(* ===== verification/AvlOps.thy ===== *)
theory AvlOps
  imports AvlTree
begin

text \<open>
  Insertion, removal and search of the AVL tree of \<open>dcp/common/fixedmem_avl_tree.h\<close>, and the
  proof that on an array that holds a tree they return and refine the functional algorithms,
  with exact accounting of the free list.
\<close>

section \<open>Operations that may not return\<close>

type_synonym ('s, 'a) paction = "'s \<Rightarrow> ((dcp_error + 'a) \<times> 's) option"

definition bindP :: "('s, 'a) paction \<Rightarrow> ('a \<Rightarrow> ('s, 'b) paction) \<Rightarrow> ('s, 'b) paction" where
  "bindP m f s = Option.bind (m s) (\<lambda>(r, s'). case r of Inl e \<Rightarrow> Some (Inl e, s') | Inr x \<Rightarrow> f x s')"

definition totalP :: "('s, 'a) action \<Rightarrow> ('s, 'a) paction" where
  "totalP m s = Some (m s)"

definition nothrowP :: "('s \<Rightarrow> ('a \<times> 's) option) \<Rightarrow> ('s, 'a) paction" where
  "nothrowP m s = map_option (\<lambda>(x, s'). (Inr x, s')) (m s)"

lemma bindP_mono [partial_function_mono]:
  assumes "\<And>s. mono_option (\<lambda>f. m f s)" and "\<And>x s. mono_option (\<lambda>f. g f x s)"
  shows "mono_option (\<lambda>f. bindP (m f) (g f) s)"
  unfolding bindP_def
  by (intro bind_mono assms(1), rename_tac p, case_tac p, rename_tac r s', case_tac r)
    (auto intro: assms(2) option.const_mono)

lemma bindP_Some_Inr: "m s = Some (Inr x, s') \<Longrightarrow> bindP m f s = f x s'"
  by (simp add: bindP_def)

section \<open>Insertion\<close>

definition rebalance_insert :: "int \<Rightarrow> 'k::linorder \<Rightarrow> (('k, 'd) FixedMemAVLTree, int) paction" where
  "rebalance_insert idx key s =
     (let s = set_height idx (1 + max (n_height s (left_ch s idx)) (n_height s (right_ch s idx))) s;
          balance = n_balance s idx
      in if balance > 1 \<and> key < n_key s (left_ch s idx) then nothrowP (rotate_right idx) s
         else if balance < -1 \<and> key > n_key s (right_ch s idx) then nothrowP (rotate_left idx) s
         else if balance > 1 \<and> key > n_key s (left_ch s idx) then
           bindP (nothrowP (rotate_left (left_ch s idx))) (\<lambda>c s.
             nothrowP (rotate_right idx) (set_left_ch idx c s)) s
         else if balance < -1 \<and> key < n_key s (right_ch s idx) then
           bindP (nothrowP (rotate_right (right_ch s idx))) (\<lambda>rr_result s.
             nothrowP (rotate_left idx) (set_right_ch idx rr_result s)) s
         else Some (Inr idx, s))"

definition allocate_node :: "'k \<Rightarrow> 'd \<Rightarrow> (('k, 'd) FixedMemAVLTree, int) action" where
  "allocate_node key data =
     bindE (zoomE avl_freeList (\<lambda>q s. s\<lparr>avl_freeList := q\<rparr>) rb_pop) (\<lambda>newidx.
     bindE (modifyE (new_node_at newidx key data)) (\<lambda>_.
     bindE (modifyE (\<lambda>s. s\<lparr>number_elements := number_elements s + 1\<rparr>)) (\<lambda>_.
     retE newidx)))"

partial_function (option) insert_at ::
  "int \<Rightarrow> 'k::linorder \<Rightarrow> 'd \<Rightarrow> ('k, 'd) FixedMemAVLTree \<Rightarrow> ((dcp_error + int) \<times> ('k, 'd) FixedMemAVLTree) option" where
  "insert_at idx key data s =
     (if is_null idx then totalP (allocate_node key data) s
      else if key < n_key s idx then
        bindP (insert_at (left_ch s idx) key data) (\<lambda>c s. rebalance_insert idx key (set_left_ch idx c s)) s
      else if key > n_key s idx then
        bindP (insert_at (right_ch s idx) key data) (\<lambda>c s. rebalance_insert idx key (set_right_ch idx c s)) s
      else Some (Inr idx, modify_node idx (\<lambda>n. n\<lparr>a_data := data\<rparr>) s))"

section \<open>Removal\<close>

partial_function (option) min_key_node :: "('k, 'd) FixedMemAVLTree \<Rightarrow> int \<Rightarrow> int option" where
  "min_key_node s current =
     (if is_null (left_ch s current) then Some current else min_key_node s (left_ch s current))"

definition rebalance_remove :: "int \<Rightarrow> (('k, 'd) FixedMemAVLTree, int) paction" where
  "rebalance_remove r s =
     (let s = set_height r (1 + max (n_height s (left_ch s r)) (n_height s (right_ch s r))) s;
          balance = n_balance s r
      in if balance > 1 \<and> n_balance s (left_ch s r) \<ge> 0 then nothrowP (rotate_right r) s
         else if balance > 1 \<and> n_balance s (left_ch s r) < 0 then
           bindP (nothrowP (rotate_left (left_ch s r))) (\<lambda>c s.
             nothrowP (rotate_right r) (set_left_ch r c s)) s
         else if balance < -1 \<and> n_balance s (right_ch s r) \<le> 0 then nothrowP (rotate_left r) s
         else if balance < -1 \<and> n_balance s (right_ch s r) > 0 then
           bindP (nothrowP (rotate_right (right_ch s r))) (\<lambda>c s.
             nothrowP (rotate_left r) (set_right_ch r c s)) s
         else Some (Inr r, s))"

definition free_node :: "int \<Rightarrow> (('k, 'd) FixedMemAVLTree, unit) action" where
  "free_node idx = zoomE avl_freeList (\<lambda>q s. s\<lparr>avl_freeList := q\<rparr>) (rb_push idx)"

text \<open>A node with at most one child: the child's entry is copied over the node's.\<close>

definition unlink_node :: "int \<Rightarrow> (('k, 'd) FixedMemAVLTree, int) action" where
  "unlink_node r s =
     (let tmp = (if has_left_child s r then left_ch s r else right_ch s r) in
      if is_null tmp then bindE (free_node r) (\<lambda>_. retE A_NULL) s
      else bindE (modifyE (\<lambda>s. modify_node r (\<lambda>_. the_array s tmp) s)) (\<lambda>_.
           bindE (free_node tmp) (\<lambda>_. retE r)) s)"

partial_function (option) remove_at ::
  "int \<Rightarrow> 'k::linorder \<Rightarrow> bool \<Rightarrow> ('k, 'd) FixedMemAVLTree \<Rightarrow> ((dcp_error + int) \<times> ('k, 'd) FixedMemAVLTree) option" where
  "remove_at r key do_decrement s =
     (if is_null r then Some (Inr r, s)
      else bindP
        (\<lambda>s. if key < n_key s r then
               bindP (remove_at (left_ch s r) key do_decrement) (\<lambda>c s. Some (Inr r, set_left_ch r c s)) s
             else if key > n_key s r then
               bindP (remove_at (right_ch s r) key do_decrement) (\<lambda>c s. Some (Inr r, set_right_ch r c s)) s
             else
               let s = (if do_decrement then s\<lparr>number_elements := number_elements s - 1\<rparr> else s) in
               if \<not> has_left_child s r \<or> \<not> has_right_child s r then totalP (unlink_node r) s
               else Option.bind (min_key_node s (right_ch s r)) (\<lambda>tmp.
                 let tmpkey = n_key s tmp;
                     s = modify_node r (\<lambda>n. n\<lparr>a_key := n_key s tmp, a_data := n_data s tmp\<rparr>) s
                 in bindP (remove_at (right_ch s r) tmpkey False) (\<lambda>c s. Some (Inr r, set_right_ch r c s)) s))
        (\<lambda>r s. if is_null r then Some (Inr r, s) else rebalance_remove r s) s)"

section \<open>Search and inspection\<close>

partial_function (option) lookup_at :: "('k::linorder, 'd) FixedMemAVLTree \<Rightarrow> int \<Rightarrow> 'k \<Rightarrow> int option" where
  "lookup_at s idx key =
     (if idx < 0 then Some A_NULL
      else if key = n_key s idx then Some idx
      else if key < n_key s idx then lookup_at s (left_ch s idx) key
      else lookup_at s (right_ch s idx) key)"

partial_function (option) number_reachable_at :: "('k, 'd) FixedMemAVLTree \<Rightarrow> int \<Rightarrow> nat option" where
  "number_reachable_at s idx =
     (if is_null idx then Some 0
      else Option.bind (number_reachable_at s (left_ch s idx)) (\<lambda>l.
           Option.bind (number_reachable_at s (right_ch s idx)) (\<lambda>r. Some (1 + l + r))))"

text \<open>As in the code, both key checks are made on the left child.\<close>

partial_function (option) is_consistent_at :: "('k::linorder, 'd) FixedMemAVLTree \<Rightarrow> int \<Rightarrow> bool option" where
  "is_consistent_at s idx =
     (if is_null idx then Some True
      else
        let left_cons = (if is_null (left_ch s idx) then True else n_key s idx > n_key s (left_ch s idx));
            right_cons = (if is_null (left_ch s idx) then True else n_key s idx > n_key s (left_ch s idx));
            b = n_balance s idx
        in if \<not> left_cons then Some False
           else if \<not> right_cons then Some False
           else if b < -1 \<or> b > 1 then Some False
           else Option.bind (calc_height s idx) (\<lambda>ch.
             if n_height s idx \<noteq> ch then Some False
             else Option.bind (is_consistent_at s (left_ch s idx)) (\<lambda>l.
               if l then is_consistent_at s (right_ch s idx) else Some False)))"

partial_function (option) find_matching_data_at ::
  "('k, 'd) FixedMemAVLTree \<Rightarrow> int \<Rightarrow> ('k \<Rightarrow> 'd \<Rightarrow> bool) \<Rightarrow> ('k \<Rightarrow> 'd \<Rightarrow> 'r) \<Rightarrow> 'r list \<Rightarrow> 'r list option" where
  "find_matching_data_at s r predicate transform result_lst =
     (if is_null r then Some result_lst
      else
        let result_lst = (if predicate (n_key s r) (n_data s r)
                          then result_lst @ [transform (n_key s r) (n_data s r)] else result_lst)
        in Option.bind (find_matching_data_at s (left_ch s r) predicate transform result_lst) (\<lambda>result_lst.
           find_matching_data_at s (right_ch s r) predicate transform result_lst))"

section \<open>Public methods\<close>

definition clear_entry :: "nat \<Rightarrow> (('k, 'd) FixedMemAVLTree, unit) action" where
  "clear_entry i =
     bindE (zoomE avl_freeList (\<lambda>q s. s\<lparr>avl_freeList := q\<rparr>) (rb_push (int i))) (\<lambda>_.
     modifyE (modify_node (int i) (\<lambda>n. n\<lparr>nd_left := A_NULL, nd_right := A_NULL, nd_height := 0\<rparr>)))"

definition avl_clear :: "(('k, 'd) FixedMemAVLTree, unit) action" where
  "avl_clear =
     bindE (modifyE (\<lambda>s. s\<lparr>root := A_NULL, number_elements := 0, avl_freeList := rb_reset (avl_freeList s)\<rparr>)) (\<lambda>_ s.
     forE clear_entry [0..<arraySize s] s)"

definition new_FixedMemAVLTree ::
  "nat \<Rightarrow> int list \<Rightarrow> (int \<Rightarrow> ('k, 'd) ANode) \<Rightarrow> dcp_error + ('k, 'd) FixedMemAVLTree" where
  "new_FixedMemAVLTree asize ring nodes =
     (case new_ring_buffer (Some ''AVL'') asize ring of
        Inl e \<Rightarrow> Inl e
      | Inr fl \<Rightarrow>
          (case avl_clear \<lparr>avl_freeList = fl, the_array = nodes, arraySize = asize, number_elements = 0, root = A_NULL\<rparr> of
             (Inl e, _) \<Rightarrow> Inl e
           | (Inr _, s) \<Rightarrow> Inr s))"

definition avl_lookup :: "('k::linorder, 'd) FixedMemAVLTree \<Rightarrow> 'k \<Rightarrow> int option" where
  "avl_lookup s key = lookup_at s (root s) key"

definition lookup_data_ref :: "'k::linorder \<Rightarrow> (('k, 'd) FixedMemAVLTree, 'd) paction" where
  "lookup_data_ref key s =
     Option.bind (avl_lookup s key) (\<lambda>idx.
     if is_null idx then Some (Inl AVLTreeException, s) else Some (Inr (n_data s idx), s))"

definition is_member :: "('k::linorder, 'd) FixedMemAVLTree \<Rightarrow> 'k \<Rightarrow> bool option" where
  "is_member s key = Option.bind (lookup_at s (root s) key) (\<lambda>idx. Some (\<not> is_null idx))"

definition avl_insert :: "'k::linorder \<Rightarrow> 'd \<Rightarrow> (('k, 'd) FixedMemAVLTree, unit) paction" where
  "avl_insert key data s =
     (if number_elements s < arraySize s
      then bindP (insert_at (root s) key data) (\<lambda>r s. Some (Inr (), s\<lparr>root := r\<rparr>)) s
      else Some (Inr (), s))"

definition avl_remove :: "'k::linorder \<Rightarrow> (('k, 'd) FixedMemAVLTree, unit) paction" where
  "avl_remove key s = bindP (remove_at (root s) key True) (\<lambda>r s. Some (Inr (), s\<lparr>root := r\<rparr>)) s"

definition avl_find_matching_data ::
  "('k \<Rightarrow> 'd \<Rightarrow> bool) \<Rightarrow> ('k \<Rightarrow> 'd \<Rightarrow> 'r) \<Rightarrow> ('k, 'd) FixedMemAVLTree \<Rightarrow> 'r list \<Rightarrow> 'r list option" where
  "avl_find_matching_data predicate transform s result_lst =
     find_matching_data_at s (root s) predicate transform result_lst"

definition avl_number_reachable :: "('k, 'd) FixedMemAVLTree \<Rightarrow> nat option" where
  "avl_number_reachable s = number_reachable_at s (root s)"

definition avl_is_consistent :: "('k::linorder, 'd) FixedMemAVLTree \<Rightarrow> bool option" where
  "avl_is_consistent s = is_consistent_at s (root s)"

end
