(* ===== verification/AvlRefine.thy ===== *)
theory AvlRefine
  imports AvlOps
begin

text \<open>
  The methods of the AVL tree return on every array that holds a tree, and refine the
  functional algorithms of \<open>AvlSpec\<close>.
\<close>

section \<open>Reading\<close>

lemma n_height_rep: "rep (the_array s) i F t \<Longrightarrow> n_height s i = int (height t)"
  using rep_height by (fastforce simp: n_height_def)

lemma node_children:
  assumes "node_at (the_array s) i F l x r"
  obtains L R where "0 \<le> i" "rep (the_array s) (left_ch s i) L l" "rep (the_array s) (right_ch s i) R r"
    "i \<notin> L" "i \<notin> R" "L \<inter> R = {}" "n_key s i = fst x" "n_data s i = snd x" "F = insert i (L \<union> R)"
  using assms by (rule node_atE) (auto simp: access_defs kv_def)

lemma rep_node_at: "rep h i F (Node l x r) \<Longrightarrow> node_at h i F l x r"
  by (simp add: rep_Node_iff del: rep.simps)

lemma n_balance_node: "node_at (the_array s) i F l x r \<Longrightarrow> n_balance s i = bal (Node l x r)"
  by (erule node_children) (simp add: n_balance_def n_height_rep is_null_def)

lemma n_balance_rep: "rep (the_array s) i F t \<Longrightarrow> n_balance s i = bal t"
proof (cases t)
  case Leaf
  then show "rep (the_array s) i F t \<Longrightarrow> ?thesis" by (simp add: n_balance_def is_null_def A_NULL_def)
next
  case (Node l x r)
  then show "rep (the_array s) i F t \<Longrightarrow> ?thesis" using rep_node_at n_balance_node by blast
qed

lemma key_rep: "rep (the_array s) i F t \<Longrightarrow> t \<noteq> Leaf \<Longrightarrow> n_key s i = fst (value t) \<and> n_data s i = snd (value t)"
  by (cases t) (auto simp: access_defs kv_def)

section \<open>Changing a child\<close>

lemma node_at_left:
  assumes "node_at h i F l x r" "rep h (nd_left (h i)) L l" "rep h (nd_right (h i)) R r"
    and "i \<notin> G" "G \<inter> R = {}" "i \<notin> R" "0 \<le> i" "L' \<subseteq> G"
    and "\<forall>j. j \<notin> G \<longrightarrow> h' j = h j" "rep h' c L' l'"
  shows "node_at (h'(i := (h' i)\<lparr>nd_left := c\<rparr>)) i (insert i (L' \<union> R)) l' x r"
proof -
  have "rep h' (nd_right (h i)) R r" "i \<notin> L'" "L' \<inter> R = {}" using assms by (auto intro: rep_frame [OF assms(3)])
  then show ?thesis using assms by (intro node_atI) (auto simp: kv_def node_at_def)
qed

lemma node_at_right:
  assumes "node_at h i F l x r" "rep h (nd_left (h i)) L l" "rep h (nd_right (h i)) R r"
    and "i \<notin> G" "L \<inter> G = {}" "i \<notin> L" "0 \<le> i" "R' \<subseteq> G"
    and "\<forall>j. j \<notin> G \<longrightarrow> h' j = h j" "rep h' c R' r'"
  shows "node_at (h'(i := (h' i)\<lparr>nd_right := c\<rparr>)) i (insert i (L \<union> R')) l x r'"
proof -
  have "rep h' (nd_left (h i)) L l" "i \<notin> R'" "L \<inter> R' = {}" using assms by (auto intro: rep_frame [OF assms(2)])
  then show ?thesis using assms by (intro node_atI) (auto simp: kv_def node_at_def)
qed

section \<open>Rebalancing\<close>

text \<open>\<open>becomes s i F m t\<close>: \<open>m\<close> returns the index \<open>i\<close>, changes only the entries \<open>F\<close>, and they hold \<open>t\<close>.\<close>

definition becomes :: "('k, 'd) FixedMemAVLTree \<Rightarrow> int \<Rightarrow> int set
    \<Rightarrow> ((dcp_error + int) \<times> ('k, 'd) FixedMemAVLTree) option \<Rightarrow> ('k \<times> 'd) tree \<Rightarrow> bool" where
  "becomes s i F m t \<longleftrightarrow> (\<exists>h'. m = Some (Inr i, s\<lparr>the_array := h'\<rparr>) \<and> rep h' i F t
     \<and> (\<forall>j. j \<notin> F \<longrightarrow> h' j = the_array s j))"

lemma becomesE:
  assumes "becomes s i F m t"
  obtains h' where "m = Some (Inr i, s\<lparr>the_array := h'\<rparr>)" "rep h' i F t" "\<forall>j. j \<notin> F \<longrightarrow> h' j = the_array s j"
  using assms unfolding becomes_def by blast

lemma becomes_refl: "rep (the_array s) i F t \<Longrightarrow> becomes s i F (Some (Inr i, s)) t"
  unfolding becomes_def by (intro exI [of _ "the_array s"]) simp

lemma becomes_frame:
  assumes "becomes (s\<lparr>the_array := h\<rparr>) i F m t" "\<forall>j. j \<notin> F \<longrightarrow> h j = the_array s j"
  shows "becomes s i F m t"
  using assms by (auto simp: becomes_def)

lemma rotate_right_becomes:
  "node_at (the_array s) i F l x r \<Longrightarrow> l \<noteq> Leaf \<Longrightarrow> becomes s i F (nothrowP (rotate_right i) s) (rotR (Node l x r))"
  using rotate_right_ok [of s i F "left l" "value l" "right l" x r]
  by (cases l) (auto simp: becomes_def nothrowP_def)

lemma rotate_left_becomes:
  "node_at (the_array s) i F l x r \<Longrightarrow> r \<noteq> Leaf \<Longrightarrow> becomes s i F (nothrowP (rotate_left i) s) (rotL (Node l x r))"
  using rotate_left_ok [of s i F l x "left r" "value r" "right r"]
  by (cases r) (auto simp: becomes_def nothrowP_def)

lemma rotate_left_right_becomes:
  assumes "node_at (the_array s) i F (Node a y b) x r" "b \<noteq> Leaf"
  shows "becomes s i F (bindP (nothrowP (rotate_left (left_ch s i)))
      (\<lambda>c s. nothrowP (rotate_right i) (set_left_ch i c s)) s) (rotR (Node (rotL (Node a y b)) x r))"
proof -
  let ?h = "the_array s"
  from assms(1) obtain L R where n: "0 \<le> i" "rep ?h (left_ch s i) L (Node a y b)" "rep ?h (right_ch s i) R r"
    "i \<notin> L" "i \<notin> R" "L \<inter> R = {}" "n_key s i = fst x" "n_data s i = snd x" "F = insert i (L \<union> R)"
    by (rule node_children)
  from rotate_left_becomes [OF rep_node_at [OF n(2)] assms(2)] obtain h' where
    h': "nothrowP (rotate_left (left_ch s i)) s = Some (Inr (left_ch s i), s\<lparr>the_array := h'\<rparr>)"
      "rep h' (left_ch s i) L (rotL (Node a y b))" "\<forall>j. j \<notin> L \<longrightarrow> h' j = ?h j"
    by (rule becomesE)
  let ?h2 = "h'(i := (h' i)\<lparr>nd_left := left_ch s i\<rparr>)"
  have "node_at ?h2 i (insert i (L \<union> R)) (rotL (Node a y b)) x r"
    by (rule node_at_left [OF assms(1) n(2,3) [unfolded access_defs] n(4,6,5,1) subset_refl h'(3,2)])
  moreover have "rotL (Node a y b) \<noteq> Leaf" using assms(2) by (cases b) auto
  ultimately have "becomes (s\<lparr>the_array := ?h2\<rparr>) i F (nothrowP (rotate_right i) (s\<lparr>the_array := ?h2\<rparr>))
      (rotR (Node (rotL (Node a y b)) x r))"
    using rotate_right_becomes [of "s\<lparr>the_array := ?h2\<rparr>" i F] n(9) by simp
  from becomes_frame [OF this] have "becomes s i F (nothrowP (rotate_right i) (s\<lparr>the_array := ?h2\<rparr>))
      (rotR (Node (rotL (Node a y b)) x r))" using h'(3) n(9) by simp
  then show ?thesis
    using n(1) by (simp add: bindP_def h'(1) update_defs)
qed

lemma rotate_right_left_becomes:
  assumes "node_at (the_array s) i F l x (Node a y b)" "a \<noteq> Leaf"
  shows "becomes s i F (bindP (nothrowP (rotate_right (right_ch s i)))
      (\<lambda>c s. nothrowP (rotate_left i) (set_right_ch i c s)) s) (rotL (Node l x (rotR (Node a y b))))"
proof -
  let ?h = "the_array s"
  from assms(1) obtain L R where n: "0 \<le> i" "rep ?h (left_ch s i) L l" "rep ?h (right_ch s i) R (Node a y b)"
    "i \<notin> L" "i \<notin> R" "L \<inter> R = {}" "n_key s i = fst x" "n_data s i = snd x" "F = insert i (L \<union> R)"
    by (rule node_children)
  from rotate_right_becomes [OF rep_node_at [OF n(3)] assms(2)] obtain h' where
    h': "nothrowP (rotate_right (right_ch s i)) s = Some (Inr (right_ch s i), s\<lparr>the_array := h'\<rparr>)"
      "rep h' (right_ch s i) R (rotR (Node a y b))" "\<forall>j. j \<notin> R \<longrightarrow> h' j = ?h j"
    by (rule becomesE)
  let ?h2 = "h'(i := (h' i)\<lparr>nd_right := right_ch s i\<rparr>)"
  have "node_at ?h2 i (insert i (L \<union> R)) l x (rotR (Node a y b))"
    by (rule node_at_right [OF assms(1) n(2,3) [unfolded access_defs] n(5,6,4,1) subset_refl h'(3,2)])
  moreover have "rotR (Node a y b) \<noteq> Leaf" using assms(2) by (cases a) auto
  ultimately have "becomes (s\<lparr>the_array := ?h2\<rparr>) i F (nothrowP (rotate_left i) (s\<lparr>the_array := ?h2\<rparr>))
      (rotL (Node l x (rotR (Node a y b))))"
    using rotate_left_becomes [of "s\<lparr>the_array := ?h2\<rparr>" i F] n(9) by simp
  from becomes_frame [OF this] have "becomes s i F (nothrowP (rotate_left i) (s\<lparr>the_array := ?h2\<rparr>))
      (rotL (Node l x (rotR (Node a y b))))" using h'(3) n(9) by simp
  then show ?thesis
    using n(1) by (simp add: bindP_def h'(1) update_defs)
qed

text \<open>The height of a node is brought up to date before its balance is looked at.\<close>

lemma set_height_ok:
  assumes "node_at (the_array s) i F l x r"
  obtains h where "set_height i (1 + max (n_height s (left_ch s i)) (n_height s (right_ch s i))) s = s\<lparr>the_array := h\<rparr>"
    "rep h i F (Node l x r)" "\<forall>j. j \<notin> F \<longrightarrow> h j = the_array s j"
proof -
  let ?hi = "1 + max (n_height s (left_ch s i)) (n_height s (right_ch s i))"
  let ?h = "(the_array s)(i := the_array s i\<lparr>nd_height := ?hi\<rparr>)"
  from assms obtain L R where n: "0 \<le> i" "rep (the_array s) (left_ch s i) L l" "rep (the_array s) (right_ch s i) R r"
    "i \<notin> L" "i \<notin> R" "L \<inter> R = {}" "n_key s i = fst x" "n_data s i = snd x" "F = insert i (L \<union> R)"
    by (rule node_children)
  have "?hi = int (height (Node l x r))" using n by (simp add: n_height_rep max_def)
  then have "rep ?h i F (Node l x r)"
    unfolding rep_Node_iff n(9) using n by (intro conjI node_atI) (auto simp: access_defs kv_def)
  moreover have "set_height i ?hi s = s\<lparr>the_array := ?h\<rparr>" using n(1) by (simp add: update_defs)
  moreover have "\<forall>j. j \<notin> F \<longrightarrow> ?h j = the_array s j" using n(9) by simp
  ultimately show thesis by (intro that [of ?h])
qed

lemma rebalance_insert_ok:
  assumes n: "node_at (the_array s) i F l x r" and o: "ordered (Node l x r)"
    and k: "k \<in> fst ` set_tree l \<and> -1 \<le> bal (Node l x r) \<or> k \<in> fst ` set_tree r \<and> bal (Node l x r) \<le> 1"
  shows "becomes s i F (rebalance_insert i k s) (rebal_ins k (Node l x r))"
proof -
  from n obtain h where h: "set_height i (1 + max (n_height s (left_ch s i)) (n_height s (right_ch s i))) s = s\<lparr>the_array := h\<rparr>"
    "rep h i F (Node l x r)" "\<forall>j. j \<notin> F \<longrightarrow> h j = the_array s j" by (rule set_height_ok)
  let ?s = "s\<lparr>the_array := h\<rparr>"
  have at: "node_at (the_array ?s) i F l x r" using rep_node_at [OF h(2)] by simp
  then obtain L R where c: "rep (the_array ?s) (left_ch ?s i) L l" "rep (the_array ?s) (right_ch ?s i) R r"
    by (rule node_children)
  have b: "n_balance ?s i = bal (Node l x r)" by (rule n_balance_node [OF at])
  consider "bal (Node l x r) > 1" | "bal (Node l x r) < -1" | "\<bar>bal (Node l x r)\<bar> \<le> 1" by linarith
  then have "becomes ?s i F (rebalance_insert i k s) (rebal_ins k (Node l x r))"
  proof cases
    case 1
    then obtain a y b' where l: "l = Node a y b'" by (cases l) auto
    have kl: "n_key ?s (left_ch ?s i) = fst y" using key_rep [OF c(1)] l by simp
    have "k \<in> fst ` set_tree l" using k 1 by simp
    then have nl: "fst y < k \<Longrightarrow> b' \<noteq> Leaf" using o [unfolded ordered_Node] unfolding l ordered_Node by auto
    have "becomes ?s i F (nothrowP (rotate_right i) ?s) (rotR (Node l x r))"
      by (rule rotate_right_becomes [OF at]) (simp add: l)
    moreover have "fst y < k \<Longrightarrow> becomes ?s i F (bindP (nothrowP (rotate_left (left_ch ?s i)))
        (\<lambda>c s. nothrowP (rotate_right i) (set_left_ch i c s)) ?s) (rotR (Node (rotL l) x r))"
      using rotate_left_right_becomes [of ?s i F a y b' x r] at nl unfolding l by simp
    moreover have "becomes ?s i F (Some (Inr i, ?s)) (Node l x r)" using h(2) by (intro becomes_refl) simp
    ultimately show ?thesis
      using 1 by (simp add: rebalance_insert_def h(1) Let_def b kl l rebal_ins_def del: bal.simps rotR.simps rotL.simps)
  next
    case 2
    then obtain a y b' where r: "r = Node a y b'" by (cases r) auto
    have kr: "n_key ?s (right_ch ?s i) = fst y" using key_rep [OF c(2)] r by simp
    have "k \<in> fst ` set_tree r" using k 2 by simp
    then have nl: "k < fst y \<Longrightarrow> a \<noteq> Leaf" using o [unfolded ordered_Node] unfolding r ordered_Node by auto
    have "becomes ?s i F (nothrowP (rotate_left i) ?s) (rotL (Node l x r))"
      by (rule rotate_left_becomes [OF at]) (simp add: r)
    moreover have "k < fst y \<Longrightarrow> becomes ?s i F (bindP (nothrowP (rotate_right (right_ch ?s i)))
        (\<lambda>c s. nothrowP (rotate_left i) (set_right_ch i c s)) ?s) (rotL (Node l x (rotR r)))"
      using rotate_right_left_becomes [of ?s i F l x a y b'] at nl unfolding r by simp
    moreover have "becomes ?s i F (Some (Inr i, ?s)) (Node l x r)" using h(2) by (intro becomes_refl) simp
    ultimately show ?thesis
      using 2 by (simp add: rebalance_insert_def h(1) Let_def b kr r rebal_ins_def del: bal.simps rotR.simps rotL.simps)
  next
    case 3
    then have "\<not> 1 < bal (Node l x r)" "\<not> bal (Node l x r) < -1" by linarith+
    with 3 show ?thesis
      using becomes_refl [of ?s] h(2) by (simp add: rebalance_insert_def h(1) Let_def b rebal_ins_id del: bal.simps rep.simps)
  qed
  then show ?thesis by (rule becomes_frame [OF _ h(3)])
qed

lemma rebalance_remove_ok:
  assumes n: "node_at (the_array s) i F l x r"
  shows "becomes s i F (rebalance_remove i s) (rebal_rem (Node l x r))"
proof -
  from n obtain h where h: "set_height i (1 + max (n_height s (left_ch s i)) (n_height s (right_ch s i))) s = s\<lparr>the_array := h\<rparr>"
    "rep h i F (Node l x r)" "\<forall>j. j \<notin> F \<longrightarrow> h j = the_array s j" by (rule set_height_ok)
  let ?s = "s\<lparr>the_array := h\<rparr>"
  have at: "node_at (the_array ?s) i F l x r" using rep_node_at [OF h(2)] by simp
  then obtain L R where c: "rep (the_array ?s) (left_ch ?s i) L l" "rep (the_array ?s) (right_ch ?s i) R r"
    by (rule node_children)
  have b: "n_balance ?s i = bal (Node l x r)" by (rule n_balance_node [OF at])
  note bc = n_balance_rep [OF c(1)] n_balance_rep [OF c(2)]
  consider "bal (Node l x r) > 1" | "bal (Node l x r) < -1" | "\<bar>bal (Node l x r)\<bar> \<le> 1" by linarith
  then have "becomes ?s i F (rebalance_remove i s) (rebal_rem (Node l x r))"
  proof cases
    case 1
    then obtain a y b' where l: "l = Node a y b'" by (cases l) auto
    have "becomes ?s i F (nothrowP (rotate_right i) ?s) (rotR (Node l x r))"
      by (rule rotate_right_becomes [OF at]) (simp add: l)
    moreover have "bal l < 0 \<Longrightarrow> b' \<noteq> Leaf" using l by auto
    then have "bal l < 0 \<Longrightarrow> becomes ?s i F (bindP (nothrowP (rotate_left (left_ch ?s i)))
        (\<lambda>c s. nothrowP (rotate_right i) (set_left_ch i c s)) ?s) (rotR (Node (rotL l) x r))"
      using rotate_left_right_becomes [of ?s i F a y b' x r] at unfolding l by simp
    ultimately show ?thesis
      using 1 by (auto simp add: rebalance_remove_def h(1) Let_def b bc rebal_rem_def simp del: bal.simps rotR.simps rotL.simps)
  next
    case 2
    then obtain a y b' where r: "r = Node a y b'" by (cases r) auto
    have "becomes ?s i F (nothrowP (rotate_left i) ?s) (rotL (Node l x r))"
      by (rule rotate_left_becomes [OF at]) (simp add: r)
    moreover have "bal r > 0 \<Longrightarrow> a \<noteq> Leaf" using r by auto
    then have "bal r > 0 \<Longrightarrow> becomes ?s i F (bindP (nothrowP (rotate_right (right_ch ?s i)))
        (\<lambda>c s. nothrowP (rotate_left i) (set_right_ch i c s)) ?s) (rotL (Node l x (rotR r)))"
      using rotate_right_left_becomes [of ?s i F l x a y b'] at unfolding r by simp
    ultimately show ?thesis
      using 2 by (auto simp add: rebalance_remove_def h(1) Let_def b bc rebal_rem_def simp del: bal.simps rotR.simps rotL.simps)
  next
    case 3
    then have "\<not> 1 < bal (Node l x r)" "\<not> bal (Node l x r) < -1" by linarith+
    with 3 show ?thesis
      using becomes_refl [of ?s] h(2) by (simp add: rebalance_remove_def h(1) Let_def b rebal_rem_id del: bal.simps rep.simps)
  qed
  then show ?thesis by (rule becomes_frame [OF _ h(3)])
qed

section \<open>Insertion\<close>

text \<open>
  The effect of an insertion into the subtree at entries \<open>F\<close>: a new key takes the first free
  entry, a known one none.
\<close>

definition inserted :: "bool \<Rightarrow> int set \<Rightarrow> ('k, 'd) FixedMemAVLTree \<Rightarrow> int set \<Rightarrow> ('k, 'd) FixedMemAVLTree \<Rightarrow> bool" where
  "inserted known F s F' s' \<longleftrightarrow>
     arraySize s' = arraySize s \<and> root s' = root s \<and> (\<forall>j. j \<notin> F' \<longrightarrow> the_array s' j = the_array s j)
     \<and> (if known then F' = F \<and> avl_freeList s' = avl_freeList s \<and> number_elements s' = number_elements s
        else wf_rb (avl_freeList s') \<and> maxCapacity (avl_freeList s') = maxCapacity (avl_freeList s)
           \<and> rb_elems (avl_freeList s) = hd (rb_elems (avl_freeList s)) # rb_elems (avl_freeList s')
           \<and> F' = insert (hd (rb_elems (avl_freeList s))) F \<and> number_elements s' = Suc (number_elements s))"

definition room :: "('k, 'd) FixedMemAVLTree \<Rightarrow> int set \<Rightarrow> bool" where
  "room s F \<longleftrightarrow> wf_rb (avl_freeList s) \<and> rb_elems (avl_freeList s) \<noteq> []
     \<and> 0 \<le> hd (rb_elems (avl_freeList s)) \<and> hd (rb_elems (avl_freeList s)) \<notin> F"

lemma allocate_node_ok:
  assumes "room s F"
  obtains s' n where "allocate_node k d s = (Inr n, s')" "rep (the_array s') n {n} (Node Leaf (k, d) Leaf)"
    "inserted False {} s {n} s'"
proof -
  obtain n xs where e: "rb_elems (avl_freeList s) = n # xs" "0 \<le> n"
    using assms by (cases "rb_elems (avl_freeList s)") (auto simp: room_def)
  from rbq.pop [of "avl_freeList s", OF _ e(1)] assms obtain q where
    q: "rb_pop (avl_freeList s) = (Inr n, q)" "wf_rb q" "rb_elems q = xs" "maxCapacity q = maxCapacity (avl_freeList s)"
    by (auto simp: room_def)
  show thesis
    by (rule that [of n "(new_node_at n k d (s\<lparr>avl_freeList := q\<rparr>))\<lparr>number_elements := Suc (number_elements s)\<rparr>"])
      (use q e in \<open>auto simp: allocate_node_def bindE_def zoomE_def new_node_at_def modify_node_def kv_def A_NULL_def
        inserted_def\<close>)
qed

lemma inserted_node:
  assumes "inserted b L s L' s'" "\<forall>j. j \<notin> insert i (L' \<union> R) \<longrightarrow> h' j = the_array s' j"
  shows "inserted b (insert i (L \<union> R)) s (insert i (L' \<union> R)) (s'\<lparr>the_array := h'\<rparr>)"
    "inserted b (insert i (R \<union> L)) s (insert i (R \<union> L')) (s'\<lparr>the_array := h'\<rparr>)"
  using assms by (auto simp: inserted_def)

lemma ordered_ins_left: "ordered (Node l x r) \<Longrightarrow> k < fst x \<Longrightarrow> ordered (Node (ins k d l) x r)"
  using ordered_ins [of l k d] elems_ins [of l k d] unfolding ordered_Node by auto

lemma ordered_ins_right: "ordered (Node l x r) \<Longrightarrow> fst x < k \<Longrightarrow> ordered (Node l x (ins k d r))"
  using ordered_ins [of r k d] elems_ins [of r k d] unfolding ordered_Node by auto

lemma key_ins: "ordered t \<Longrightarrow> k \<in> fst ` set_tree (ins k d t)"
  by (simp add: elems_ins)

lemma height_ins_ge: "avl t \<Longrightarrow> height t \<le> height (ins k d t)"
  using avl_ins [of t k d] by auto

lemma insert_at_ok:
  assumes "rep (the_array s) i F t" "ordered t" "avl t" "k \<notin> fst ` set_tree t \<Longrightarrow> room s F"
  shows "\<exists>i' F' s'. insert_at i k d s = Some (Inr i', s') \<and> rep (the_array s') i' F' (ins k d t)
    \<and> inserted (k \<in> fst ` set_tree t) F s F' s'"
  using assms
proof (induction t arbitrary: i F)
  case Leaf
  then have r: "room s {}" "is_null i" "F = {}" by (simp_all add: A_NULL_def is_null_def)
  from r(1) obtain s' n where
    "allocate_node k d s = (Inr n, s')" "rep (the_array s') n {n} (Node Leaf (k, d) Leaf)"
    "inserted False {} s {n} s'" by (rule allocate_node_ok)
  with r show ?case by (subst insert_at.simps) (auto simp: totalP_def simp del: rep.simps)
next
  case (Node l x r)
  let ?h = "the_array s"
  from Node.prems(1) have at: "node_at ?h i F l x r" by (rule rep_node_at)
  then obtain L R where n: "0 \<le> i" "rep ?h (left_ch s i) L l" "rep ?h (right_ch s i) R r"
    "i \<notin> L" "i \<notin> R" "L \<inter> R = {}" "n_key s i = fst x" "n_data s i = snd x" "F = insert i (L \<union> R)"
    by (rule node_children)
  have nn: "\<not> is_null i" using n(1) by (simp add: is_null_def)
  note o = Node.prems(2) [unfolded ordered_Node]
  have av: "avl l" "avl r" using Node.prems(3) by simp_all
  consider "k < fst x" | "fst x < k" | "k = fst x" by (meson linorder_less_linear)
  then show ?case
  proof cases
    case 1
    have km: "k \<in> fst ` set_tree (Node l x r) \<longleftrightarrow> k \<in> fst ` set_tree l" using 1 o by force
    have rm: "k \<notin> fst ` set_tree l \<Longrightarrow> room s L" using Node.prems(4) km n(9) by (auto simp: room_def)
    from Node.IH(1) [OF n(2) _ av(1) rm] o obtain c L' s1 where
      s1: "insert_at (left_ch s i) k d s = Some (Inr c, s1)" "rep (the_array s1) c L' (ins k d l)"
        "inserted (k \<in> fst ` set_tree l) L s L' s1" by blast
    have LR: "i \<notin> L'" "L' \<inter> R = {}"
      using s1(3) n(4,5,6,9) Node.prems(4) km by (auto simp: inserted_def room_def split: if_splits)
    let ?h2 = "(the_array s1)(i := (the_array s1 i)\<lparr>nd_left := c\<rparr>)"
    let ?s2 = "s1\<lparr>the_array := ?h2\<rparr>"
    have "node_at (the_array ?s2) i (insert i (L' \<union> R)) (ins k d l) x r"
      using node_at_left [OF at, of L R L' L' "the_array s1" c "ins k d l"] n LR s1(2,3)
      by (simp add: access_defs inserted_def)
    moreover have "ordered (Node (ins k d l) x r)" by (rule ordered_ins_left [OF Node.prems(2) 1])
    moreover have "k \<in> fst ` set_tree (ins k d l)" using o by (simp add: key_ins)
    moreover have "-1 \<le> bal (Node (ins k d l) x r)" using Node.prems(3) height_ins_ge [OF av(1), of k d] by simp linarith
    ultimately have "becomes ?s2 i (insert i (L' \<union> R)) (rebalance_insert i k ?s2) (rebal_ins k (Node (ins k d l) x r))"
      by (intro rebalance_insert_ok) blast+
    then obtain h' where h': "rebalance_insert i k ?s2 = Some (Inr i, s1\<lparr>the_array := h'\<rparr>)"
      "rep h' i (insert i (L' \<union> R)) (rebal_ins k (Node (ins k d l) x r))"
      "\<forall>j. j \<notin> insert i (L' \<union> R) \<longrightarrow> h' j = the_array s1 j"
      by (auto elim!: becomesE)
    have "insert_at i k d s = Some (Inr i, s1\<lparr>the_array := h'\<rparr>)"
      using nn 1 n(7) h'(1) by (subst insert_at.simps) (simp add: bindP_def s1(1) update_defs)
    with h'(2) inserted_node(1) [OF s1(3) h'(3)] 1 show ?thesis unfolding n(9) [symmetric] km by auto
  next
    case 2
    then have nl: "\<not> k < fst x" by simp
    have km: "k \<in> fst ` set_tree (Node l x r) \<longleftrightarrow> k \<in> fst ` set_tree r" using 2 o by force
    have rm: "k \<notin> fst ` set_tree r \<Longrightarrow> room s R" using Node.prems(4) km n(9) by (auto simp: room_def)
    from Node.IH(2) [OF n(3) _ av(2) rm] o obtain c R' s1 where
      s1: "insert_at (right_ch s i) k d s = Some (Inr c, s1)" "rep (the_array s1) c R' (ins k d r)"
        "inserted (k \<in> fst ` set_tree r) R s R' s1" by blast
    have LR: "i \<notin> R'" "L \<inter> R' = {}"
      using s1(3) n(4,5,6,9) Node.prems(4) km by (auto simp: inserted_def room_def split: if_splits)
    let ?h2 = "(the_array s1)(i := (the_array s1 i)\<lparr>nd_right := c\<rparr>)"
    let ?s2 = "s1\<lparr>the_array := ?h2\<rparr>"
    have "node_at (the_array ?s2) i (insert i (L \<union> R')) l x (ins k d r)"
      using node_at_right [OF at, of L R R' R' "the_array s1" c "ins k d r"] n LR s1(2,3)
      by (simp add: access_defs inserted_def)
    moreover have "ordered (Node l x (ins k d r))" by (rule ordered_ins_right [OF Node.prems(2) 2])
    moreover have "k \<in> fst ` set_tree (ins k d r)" using o by (simp add: key_ins)
    moreover have "bal (Node l x (ins k d r)) \<le> 1" using Node.prems(3) height_ins_ge [OF av(2), of k d] by simp linarith
    ultimately have "becomes ?s2 i (insert i (L \<union> R')) (rebalance_insert i k ?s2) (rebal_ins k (Node l x (ins k d r)))"
      by (intro rebalance_insert_ok) blast+
    then obtain h' where h': "rebalance_insert i k ?s2 = Some (Inr i, s1\<lparr>the_array := h'\<rparr>)"
      "rep h' i (insert i (L \<union> R')) (rebal_ins k (Node l x (ins k d r)))"
      "\<forall>j. j \<notin> insert i (L \<union> R') \<longrightarrow> h' j = the_array s1 j"
      by (auto elim!: becomesE)
    have "insert_at i k d s = Some (Inr i, s1\<lparr>the_array := h'\<rparr>)"
      using nn 2 nl n(7) h'(1) by (subst insert_at.simps) (simp add: bindP_def s1(1) update_defs)
    with h'(2) inserted_node(2) [OF s1(3), of i L h'] h'(3) 2 nl show ?thesis unfolding n(9) [symmetric] km
      by (auto simp: Un_commute)
  next
    case 3
    let ?s1 = "modify_node i (\<lambda>n. n\<lparr>a_data := d\<rparr>) s"
    have "node_at (the_array ?s1) i F l (k, d) r"
      unfolding n(9) using n 3 by (intro node_atI) (auto simp: modify_node_def access_defs kv_def)
    moreover have "nd_height (the_array ?s1 i) = int (height (Node l (k, d) r))"
      using Node.prems(1) by (simp add: modify_node_def)
    ultimately have "rep (the_array ?s1) i F (ins k d (Node l x r))" using 3 by (simp add: rep_Node_iff del: rep.simps)
    moreover have "inserted True F s F ?s1" using n(9) by (simp add: inserted_def modify_node_def)
    moreover have "insert_at i k d s = Some (Inr i, ?s1)" using nn n(7) 3 by (subst insert_at.simps) simp
    ultimately show ?thesis using 3 by auto
  qed
qed

section \<open>Removal\<close>

lemma min_key_node_ok:
  "rep (the_array s) i F t \<Longrightarrow> t \<noteq> Leaf \<Longrightarrow> \<exists>m \<in> F. min_key_node s i = Some m \<and> kv (the_array s m) = min_elem t"
proof (induction t arbitrary: i F)
  case (Node l x r)
  from rep_node_at [OF Node.prems(1)] obtain L R where n: "0 \<le> i" "rep (the_array s) (left_ch s i) L l"
    "rep (the_array s) (right_ch s i) R r" "i \<notin> L" "i \<notin> R" "L \<inter> R = {}" "n_key s i = fst x" "n_data s i = snd x"
    "F = insert i (L \<union> R)" by (rule node_children)
  have e: "is_null (left_ch s i) \<longleftrightarrow> l = Leaf" by (rule rep_null [OF n(2)])
  show ?case
  proof (cases "l = Leaf")
    case True
    have "kv (the_array s i) = x" using n(7,8) by (simp add: kv_def access_defs)
    with True e n(9) show ?thesis by (subst min_key_node.simps) auto
  next
    case False
    from Node.IH(1) [OF n(2) this] False e n(9) show ?thesis by (subst min_key_node.simps) auto
  qed
qed simp

text \<open>The effect of a removal: the entry that is no longer used goes to the end of the free list.\<close>

definition freed :: "int \<Rightarrow> ('k, 'd) FixedMemAVLTree \<Rightarrow> ('k, 'd) FixedMemAVLTree \<Rightarrow> bool" where
  "freed f s s' \<longleftrightarrow> wf_rb (avl_freeList s') \<and> maxCapacity (avl_freeList s') = maxCapacity (avl_freeList s)
     \<and> rb_elems (avl_freeList s') = rb_elems (avl_freeList s) @ [f]"

definition removed :: "bool \<Rightarrow> bool \<Rightarrow> int set \<Rightarrow> ('k, 'd) FixedMemAVLTree \<Rightarrow> int set \<Rightarrow> ('k, 'd) FixedMemAVLTree \<Rightarrow> bool" where
  "removed known dec F s F' s' \<longleftrightarrow>
     arraySize s' = arraySize s \<and> root s' = root s \<and> (\<forall>j. j \<notin> F \<longrightarrow> the_array s' j = the_array s j)
     \<and> (if known then (\<exists>f \<in> F. F' = F - {f} \<and> freed f s s')
                    \<and> number_elements s' = (if dec then number_elements s - 1 else number_elements s)
        else F' = F \<and> avl_freeList s' = avl_freeList s \<and> number_elements s' = number_elements s)"

definition space :: "('k, 'd) FixedMemAVLTree \<Rightarrow> bool" where
  "space s \<longleftrightarrow> wf_rb (avl_freeList s) \<and> length (rb_elems (avl_freeList s)) < maxCapacity (avl_freeList s)"

lemma space_cong: "avl_freeList s' = avl_freeList s \<Longrightarrow> space s' \<longleftrightarrow> space s"
  by (simp add: space_def)

lemma free_node_ok:
  assumes "space s"
  obtains q where "free_node f s = (Inr (), s\<lparr>avl_freeList := q\<rparr>)" "freed f s (s\<lparr>avl_freeList := q\<rparr>)"
  using rbq.push [of "avl_freeList s" f] assms by (auto simp: space_def free_node_def zoomE_def freed_def)

lemma removed_node:
  assumes "removed b dec L s L' s'" "i \<notin> L" "\<forall>j. j \<notin> insert i (L' \<union> R) \<longrightarrow> h' j = the_array s' j" "L \<inter> R = {}"
  shows "removed b dec (insert i (L \<union> R)) s (insert i (L' \<union> R)) (s'\<lparr>the_array := h'\<rparr>)"
    "removed b dec (insert i (R \<union> L)) s (insert i (R \<union> L')) (s'\<lparr>the_array := h'\<rparr>)"
proof -
  have d: "insert i (L - {f} \<union> R) = insert i (L \<union> R) - {f}" "insert i (R \<union> (L - {f})) = insert i (R \<union> L) - {f}"
    if "f \<in> L" for f using that assms(2,4) by auto
  show "removed b dec (insert i (L \<union> R)) s (insert i (L' \<union> R)) (s'\<lparr>the_array := h'\<rparr>)"
    "removed b dec (insert i (R \<union> L)) s (insert i (R \<union> L')) (s'\<lparr>the_array := h'\<rparr>)"
    using assms d by (auto simp: removed_def freed_def split: if_splits)
qed

lemma removed_base:
  assumes "removed True False F s1 F' s'" "arraySize s1 = arraySize s" "root s1 = root s"
    "\<And>j. j \<notin> F \<Longrightarrow> the_array s1 j = the_array s j" "avl_freeList s1 = avl_freeList s"
    "number_elements s1 = (if dec then number_elements s - 1 else number_elements s)"
  shows "removed True dec F s F' s'"
  using assms by (simp add: removed_def freed_def)

lemma removed_subset: "removed b dec L s L' s' \<Longrightarrow> L' \<subseteq> L"
  by (auto simp: removed_def split: if_splits)

lemma has_child_rep:
  "rep (the_array s) (left_ch s i) L l \<Longrightarrow> has_left_child s i \<longleftrightarrow> l \<noteq> Leaf"
  "rep (the_array s) (right_ch s i) R r \<Longrightarrow> has_right_child s i \<longleftrightarrow> r \<noteq> Leaf"
  by (cases l; auto simp: has_left_child_def A_NULL_def left_ch_def)
    (cases r; auto simp: has_right_child_def A_NULL_def right_ch_def)

lemma unlink_leaf:
  assumes "node_at (the_array s) i F Leaf x Leaf" "space s"
  obtains q where "unlink_node i s = (Inr A_NULL, s\<lparr>avl_freeList := q\<rparr>)" "F = {i}" "freed i s (s\<lparr>avl_freeList := q\<rparr>)"
proof -
  from free_node_ok [OF assms(2), of i] obtain q where
    q: "free_node i s = (Inr (), s\<lparr>avl_freeList := q\<rparr>)" "freed i s (s\<lparr>avl_freeList := q\<rparr>)" by blast
  show thesis
    by (rule that [OF _ _ q(2)])
      (use assms(1) q(1) in \<open>auto simp: unlink_node_def node_at_def has_left_child_def left_ch_def right_ch_def
        is_null_def A_NULL_def bindE_def\<close>)
qed

lemma unlink_child:
  assumes "node_at (the_array s) i F l x r" "l = Leaf \<and> r = Node a y b \<or> l = Node a y b \<and> r = Leaf" "space s"
  obtains tmp h q where "unlink_node i s = (Inr i, s\<lparr>the_array := h, avl_freeList := q\<rparr>)"
    "node_at h i (F - {tmp}) a y b" "tmp \<in> F" "\<forall>j. j \<notin> F \<longrightarrow> h j = the_array s j"
    "freed tmp s (s\<lparr>the_array := h, avl_freeList := q\<rparr>)"
proof -
  from assms(1) obtain L R where n: "0 \<le> i" "rep (the_array s) (left_ch s i) L l" "rep (the_array s) (right_ch s i) R r"
    "i \<notin> L" "i \<notin> R" "L \<inter> R = {}" "n_key s i = fst x" "n_data s i = snd x" "F = insert i (L \<union> R)"
    by (rule node_children)
  define tmp where "tmp = (if has_left_child s i then left_ch s i else right_ch s i)"
  have t: "rep (the_array s) tmp (L \<union> R) (Node a y b)"
    using assms(2) n(2,3) has_child_rep [of s i L l] has_child_rep [of s i R r] by (auto simp: tmp_def)
  then obtain A B where c: "0 \<le> tmp" "rep (the_array s) (nd_left (the_array s tmp)) A a"
    "rep (the_array s) (nd_right (the_array s tmp)) B b" "tmp \<notin> A" "tmp \<notin> B" "A \<inter> B = {}"
    "y = kv (the_array s tmp)" "L \<union> R = insert tmp (A \<union> B)"
    by (rule rep_Node_split)
  let ?h = "(the_array s)(i := the_array s tmp)"
  have ne: "i \<noteq> tmp" "i \<notin> A" "i \<notin> B" using n(4,5) c(8) by auto
  then have FF: "F - {tmp} = insert i (A \<union> B)" using n(9) c(4,5,8) by auto
  have at: "node_at ?h i (F - {tmp}) a y b"
    unfolding FF using c n(1) ne by (intro node_atI) (auto simp: kv_def)
  from free_node_ok [of "s\<lparr>the_array := ?h\<rparr>" tmp] assms(3) obtain q where
    q: "free_node tmp (s\<lparr>the_array := ?h\<rparr>) = (Inr (), s\<lparr>the_array := ?h, avl_freeList := q\<rparr>)"
      "freed tmp s (s\<lparr>the_array := ?h, avl_freeList := q\<rparr>)"
    by (auto simp: space_def freed_def)
  have "unlink_node i s = (Inr i, s\<lparr>the_array := ?h, avl_freeList := q\<rparr>)"
    using c(1) q(1) by (simp add: unlink_node_def tmp_def [symmetric] is_null_def modify_node_def bindE_def)
  from that [OF this at _ _ q(2)] show thesis using n(9) c(8) by auto
qed

lemma remove_tail:
  assumes "node_at (the_array s2) i F2 l x r" "0 \<le> i"
  obtains h' where "(if is_null i then Some (Inr i, s2) else rebalance_remove i s2) = Some (Inr i, s2\<lparr>the_array := h'\<rparr>)"
    "rep h' i F2 (rebal_rem (Node l x r))" "\<forall>j. j \<notin> F2 \<longrightarrow> h' j = the_array s2 j"
  using rebalance_remove_ok [OF assms(1)] assms(2) that by (auto simp: is_null_def elim!: becomesE)

lemma remove_at_two_children:
  assumes "\<not> is_null i" "n_key s i = k" "has_left_child s i" "has_right_child s i"
    and s0: "s0 = (if dec then s\<lparr>number_elements := number_elements s - 1\<rparr> else s)"
    and "min_key_node s0 (right_ch s0 i) = Some m"
    and s1: "s1 = modify_node i (\<lambda>n. n\<lparr>a_key := n_key s0 m, a_data := n_data s0 m\<rparr>) s0"
    and "remove_at (right_ch s1 i) (n_key s0 m) False s1 = Some (Inr c, s2)"
  shows "remove_at i k dec s = rebalance_remove i (set_right_ch i c s2)"
proof -
  have "has_left_child s0 i" "has_right_child s0 i"
    using assms(3,4) by (simp_all add: s0 has_left_child_def has_right_child_def)
  with assms(1,2,6) assms(8) [unfolded s1] show ?thesis
    unfolding remove_at.simps [of i k dec s] Let_def s0 [symmetric] bindP_def by simp
qed

lemma remove_at_ok:
  assumes "rep (the_array s) i F t" "ordered t" "k \<in> fst ` set_tree t \<Longrightarrow> space s"
  shows "\<exists>i' F' s'. remove_at i k dec s = Some (Inr i', s') \<and> rep (the_array s') i' F' (rem k t)
    \<and> removed (k \<in> fst ` set_tree t) dec F s F' s'"
  using assms
proof (induction t arbitrary: i F k dec s)
  case Leaf
  then show ?case by (subst remove_at.simps) (auto simp: A_NULL_def is_null_def removed_def)
next
  case (Node l x r)
  let ?h = "the_array s"
  from Node.prems(1) have at: "node_at ?h i F l x r" by (rule rep_node_at)
  then obtain L R where n: "0 \<le> i" "rep ?h (left_ch s i) L l" "rep ?h (right_ch s i) R r"
    "i \<notin> L" "i \<notin> R" "L \<inter> R = {}" "n_key s i = fst x" "n_data s i = snd x" "F = insert i (L \<union> R)"
    by (rule node_children)
  have nn: "\<not> is_null i" using n(1) by (simp add: is_null_def)
  note o = Node.prems(2) [unfolded ordered_Node]
  consider "k < fst x" | "fst x < k" | "k = fst x" "l = Leaf" "r = Leaf"
    | a y b where "k = fst x" "l = Leaf \<and> r = Node a y b \<or> l = Node a y b \<and> r = Leaf"
    | "k = fst x" "l \<noteq> Leaf" "r \<noteq> Leaf"
    by (cases l; cases r; cases k "fst x" rule: linorder_cases) auto
  then show ?case
  proof cases
    case 1
    have km: "k \<in> fst ` set_tree (Node l x r) \<longleftrightarrow> k \<in> fst ` set_tree l" using 1 o by force
    have sp: "k \<in> fst ` set_tree l \<Longrightarrow> space s" using Node.prems(3) km by blast
    from Node.IH(1) [OF n(2) _ sp, where dec = dec] o obtain c L' s1 where
      s1: "remove_at (left_ch s i) k dec s = Some (Inr c, s1)" "rep (the_array s1) c L' (rem k l)"
        "removed (k \<in> fst ` set_tree l) dec L s L' s1" by blast
    let ?s2 = "set_left_ch i c s1"
    have "node_at (the_array ?s2) i (insert i (L' \<union> R)) (rem k l) x r"
      using node_at_left [OF at n(2,3) [unfolded access_defs] n(4,6,5,1) removed_subset [OF s1(3)] _ s1(2)] s1(3) nn
      by (simp add: removed_def update_defs)
    then obtain h' where
      h': "(if is_null i then Some (Inr i, ?s2) else rebalance_remove i ?s2) = Some (Inr i, ?s2\<lparr>the_array := h'\<rparr>)"
        "rep h' i (insert i (L' \<union> R)) (rebal_rem (Node (rem k l) x r))"
        "\<forall>j. j \<notin> insert i (L' \<union> R) \<longrightarrow> h' j = the_array ?s2 j" by (rule remove_tail [OF _ n(1)])
    have e: "?s2\<lparr>the_array := h'\<rparr> = s1\<lparr>the_array := h'\<rparr>" using nn by (simp add: set_left_ch_def modify_node_def)
    have fr: "\<forall>j. j \<notin> insert i (L' \<union> R) \<longrightarrow> h' j = the_array s1 j" using h'(3) nn by (simp add: set_left_ch_def modify_node_def)
    have "remove_at i k dec s = Some (Inr i, s1\<lparr>the_array := h'\<rparr>)"
      using nn 1 n(7) h'(1) by (subst remove_at.simps) (simp add: bindP_def s1(1) e)
    with h'(2) removed_node(1) [OF s1(3) n(4) fr n(6)] 1 show ?thesis unfolding n(9) [symmetric] km by auto
  next
    case 2
    then have nl: "\<not> k < fst x" by simp
    have km: "k \<in> fst ` set_tree (Node l x r) \<longleftrightarrow> k \<in> fst ` set_tree r" using 2 o by force
    have sp: "k \<in> fst ` set_tree r \<Longrightarrow> space s" using Node.prems(3) km by blast
    from Node.IH(2) [OF n(3) _ sp, where dec = dec] o obtain c R' s1 where
      s1: "remove_at (right_ch s i) k dec s = Some (Inr c, s1)" "rep (the_array s1) c R' (rem k r)"
        "removed (k \<in> fst ` set_tree r) dec R s R' s1" by blast
    let ?s2 = "set_right_ch i c s1"
    have "node_at (the_array ?s2) i (insert i (L \<union> R')) l x (rem k r)"
      using node_at_right [OF at n(2,3) [unfolded access_defs] n(5,6,4,1) removed_subset [OF s1(3)] _ s1(2)] s1(3) nn
      by (simp add: removed_def update_defs)
    then obtain h' where
      h': "(if is_null i then Some (Inr i, ?s2) else rebalance_remove i ?s2) = Some (Inr i, ?s2\<lparr>the_array := h'\<rparr>)"
        "rep h' i (insert i (L \<union> R')) (rebal_rem (Node l x (rem k r)))"
        "\<forall>j. j \<notin> insert i (L \<union> R') \<longrightarrow> h' j = the_array ?s2 j" by (rule remove_tail [OF _ n(1)])
    have e: "?s2\<lparr>the_array := h'\<rparr> = s1\<lparr>the_array := h'\<rparr>" using nn by (simp add: set_right_ch_def modify_node_def)
    have fr: "\<forall>j. j \<notin> insert i (R' \<union> L) \<longrightarrow> h' j = the_array s1 j"
      using h'(3) nn by (simp add: set_right_ch_def modify_node_def)
    have "remove_at i k dec s = Some (Inr i, s1\<lparr>the_array := h'\<rparr>)"
      using nn 2 nl n(7) h'(1) by (subst remove_at.simps) (simp add: bindP_def s1(1) e)
    with h'(2) removed_node(2) [OF s1(3) n(5) fr] n(6) 2 nl show ?thesis unfolding n(9) [symmetric] km by auto
  next
    case 3
    let ?s0 = "if dec then s\<lparr>number_elements := number_elements s - 1\<rparr> else s"
    have "node_at (the_array ?s0) i F Leaf x Leaf" using at 3 by simp
    moreover have "space ?s0" using Node.prems(3) 3 by (simp add: space_def)
    ultimately obtain q where q: "unlink_node i ?s0 = (Inr A_NULL, ?s0\<lparr>avl_freeList := q\<rparr>)" "F = {i}"
      "freed i ?s0 (?s0\<lparr>avl_freeList := q\<rparr>)" by (rule unlink_leaf)
    have "\<not> has_left_child s i" using has_child_rep(1) [OF n(2)] 3 by simp
    then have "remove_at i k dec s = Some (Inr A_NULL, ?s0\<lparr>avl_freeList := q\<rparr>)"
      using nn 3 n(7) q(1)
      by (subst remove_at.simps) (auto simp: bindP_def totalP_def Let_def is_null_def A_NULL_def has_left_child_def)
    moreover have "removed True dec F s {} (?s0\<lparr>avl_freeList := q\<rparr>)"
      using q(2,3) by (auto simp: removed_def freed_def)
    ultimately show ?thesis using 3 by (auto simp: rebal_rem_def)
  next
    case (4 a y b)
    let ?s0 = "if dec then s\<lparr>number_elements := number_elements s - 1\<rparr> else s"
    have a0: "node_at (the_array ?s0) i F l x r" using at by simp
    have "space ?s0" using Node.prems(3) 4 by (simp add: space_def)
    then obtain tmp h q where u:
      "unlink_node i ?s0 = (Inr i, ?s0\<lparr>the_array := h, avl_freeList := q\<rparr>)"
      "node_at h i (F - {tmp}) a y b" "tmp \<in> F" "\<forall>j. j \<notin> F \<longrightarrow> h j = the_array ?s0 j"
      "freed tmp ?s0 (?s0\<lparr>the_array := h, avl_freeList := q\<rparr>)" by (rule unlink_child [OF a0 4(2)])
    let ?s2 = "?s0\<lparr>the_array := h, avl_freeList := q\<rparr>"
    have "node_at (the_array ?s2) i (F - {tmp}) a y b" using u(2) by simp
    then obtain h' where
      h': "(if is_null i then Some (Inr i, ?s2) else rebalance_remove i ?s2) = Some (Inr i, ?s2\<lparr>the_array := h'\<rparr>)"
        "rep h' i (F - {tmp}) (rebal_rem (Node a y b))"
        "\<forall>j. j \<notin> F - {tmp} \<longrightarrow> h' j = the_array ?s2 j" by (rule remove_tail [OF _ n(1)])
    have hc: "\<not> has_left_child s i \<or> \<not> has_right_child s i"
      using has_child_rep(1) [OF n(2)] has_child_rep(2) [OF n(3)] 4(2) by auto
    then have "remove_at i k dec s = Some (Inr i, ?s2\<lparr>the_array := h'\<rparr>)"
      using nn 4(1) n(7) u(1) h'(1)
      by (subst remove_at.simps) (auto simp: bindP_def totalP_def Let_def has_left_child_def has_right_child_def)
    moreover have "removed True dec F s (F - {tmp}) (?s2\<lparr>the_array := h'\<rparr>)"
      using u(3,4,5) h'(3) by (auto simp: removed_def freed_def)
    moreover have "rem k (Node l x r) = rebal_rem (Node a y b)" using 4 by auto
    ultimately show ?thesis using h'(2) 4(1) by auto
  next
    case 5
    let ?s0 = "if dec then s\<lparr>number_elements := number_elements s - 1\<rparr> else s"
    have s0: "the_array ?s0 = ?h" "right_ch ?s0 i = right_ch s i" by (simp_all add: right_ch_def)
    from min_key_node_ok [of ?s0 "right_ch s i" R r] n(3) 5(3) obtain m where
      m: "m \<in> R" "min_key_node ?s0 (right_ch s i) = Some m" "kv (?h m) = min_elem r" unfolding s0 by blast
    let ?k = "fst (min_elem r)"
    let ?s1 = "modify_node i (\<lambda>n. n\<lparr>a_key := n_key ?s0 m, a_data := n_data ?s0 m\<rparr>) ?s0"
    have km: "n_key ?s0 m = ?k" "n_data ?s0 m = snd (min_elem r)"
      unfolding m(3) [symmetric] by (simp_all add: access_defs kv_def)
    have s1h: "the_array ?s1 = ?h(i := ?h i\<lparr>a_key := ?k, a_data := snd (min_elem r)\<rparr>)"
      unfolding km by (simp add: modify_node_def)
    have at1: "node_at (the_array ?s1) i F l (min_elem r) r"
      unfolding n(9) s1h using n by (intro node_atI) (auto simp: access_defs kv_def)
    have c1: "rep (the_array ?s1) (nd_left (the_array ?s1 i)) L l" "rep (the_array ?s1) (nd_right (the_array ?s1 i)) R r"
      unfolding s1h using n by (auto simp: access_defs)
    have rc: "right_ch ?s1 i = nd_right (the_array ?s1 i)" by (simp add: right_ch_def)
    have kr: "?k \<in> fst ` set_tree r" using min_elem_in [OF 5(3)] by simp
    have sp: "space ?s1" using Node.prems(3) 5(1) by (simp add: space_def modify_node_def)
    from Node.IH(2) [OF c1(2), where k = ?k and dec = False] o sp kr obtain c R' s2 where
      s2: "remove_at (right_ch ?s1 i) ?k False ?s1 = Some (Inr c, s2)" "rep (the_array s2) c R' (rem ?k r)"
        "removed True False R ?s1 R' s2" unfolding rc by auto
    let ?s3 = "set_right_ch i c s2"
    have "node_at (the_array ?s3) i (insert i (L \<union> R')) l (min_elem r) (rem ?k r)"
      using node_at_right [OF at1 c1 n(5,6,4,1) removed_subset [OF s2(3)] _ s2(2)] s2(3) nn
      by (simp add: removed_def set_right_ch_def modify_node_def)
    then obtain h' where
      h': "(if is_null i then Some (Inr i, ?s3) else rebalance_remove i ?s3) = Some (Inr i, ?s3\<lparr>the_array := h'\<rparr>)"
        "rep h' i (insert i (L \<union> R')) (rebal_rem (Node l (min_elem r) (rem ?k r)))"
        "\<forall>j. j \<notin> insert i (L \<union> R') \<longrightarrow> h' j = the_array ?s3 j" by (rule remove_tail [OF _ n(1)])
    have e: "?s3\<lparr>the_array := h'\<rparr> = s2\<lparr>the_array := h'\<rparr>" using nn by (simp add: set_right_ch_def modify_node_def)
    have fr: "\<forall>j. j \<notin> insert i (R' \<union> L) \<longrightarrow> h' j = the_array s2 j"
      using h'(3) nn by (simp add: set_right_ch_def modify_node_def)
    have hc: "has_left_child s i" "has_right_child s i"
      using has_child_rep(1) [OF n(2)] has_child_rep(2) [OF n(3)] 5 by auto
    have num: "right_ch ?s0 i = right_ch s i" by (simp add: right_ch_def)
    have "remove_at i k dec s = rebalance_remove i ?s3"
      using remove_at_two_children [OF nn _ hc refl _ refl, of k dec m c s2] n(7) 5(1) m(2) s2(1)
      unfolding num km by simp
    then have "remove_at i k dec s = Some (Inr i, s2\<lparr>the_array := h'\<rparr>)" using h'(1) nn e by simp
    moreover have "removed True dec F s (insert i (R' \<union> L)) (s2\<lparr>the_array := h'\<rparr>)"
    proof (rule removed_base)
      have F: "insert i (R \<union> L) = F" using n(9) by auto
      show "removed True False F ?s1 (insert i (R' \<union> L)) (s2\<lparr>the_array := h'\<rparr>)"
        using removed_node(1) [OF s2(3) n(5) fr] n(6) unfolding F by blast
    qed (simp_all add: modify_node_def n(9))
    moreover have "rem k (Node l x r) = rebal_rem (Node l (min_elem r) (rem ?k r))" using 5 by simp
    ultimately show ?thesis using h'(2) 5(1) by (auto simp: Un_commute)
  qed
qed

end
