(* ===== verification/AvlMap.thy ===== *)
theory AvlMap
  imports AvlRefine "HOL-Library.Multiset"
begin

text \<open>
  The public methods of the AVL tree as a bounded map: the invariant of the whole structure
  (a balanced search tree in the array, every other entry in the free list exactly once, the
  element count right), the effect of every method on it, and the contract \<open>bounded_map\<close>
  that the tree offers to its clients.
\<close>

section \<open>Invariant\<close>

definition wf_avl :: "('k::linorder, 'd) FixedMemAVLTree \<Rightarrow> ('k \<times> 'd) tree \<Rightarrow> bool" where
  "wf_avl s T \<longleftrightarrow> ordered T \<and> avl T \<and> number_elements s = size T
     \<and> wf_rb (avl_freeList s) \<and> maxCapacity (avl_freeList s) = arraySize s \<and> distinct (rb_elems (avl_freeList s))
     \<and> (\<exists>F. rep (the_array s) (root s) F T \<and> F \<subseteq> {0..<int (arraySize s)}
          \<and> set (rb_elems (avl_freeList s)) = {0..<int (arraySize s)} - F)"

lemma wf_avlE:
  assumes "wf_avl s T"
  obtains F where "rep (the_array s) (root s) F T" "F \<subseteq> {0..<int (arraySize s)}"
    "set (rb_elems (avl_freeList s)) = {0..<int (arraySize s)} - F" "finite F" "card F = size T"
    "length (rb_elems (avl_freeList s)) + size T = arraySize s"
proof -
  from assms obtain F where F: "rep (the_array s) (root s) F T" "F \<subseteq> {0..<int (arraySize s)}"
    "set (rb_elems (avl_freeList s)) = {0..<int (arraySize s)} - F" by (auto simp: wf_avl_def)
  have f: "finite F" "card F = size T" using rep_finite [OF F(1)] by simp_all
  have "length (rb_elems (avl_freeList s)) = card (set (rb_elems (avl_freeList s)))"
    using assms distinct_card by (fastforce simp: wf_avl_def)
  also have "\<dots> = arraySize s - size T" unfolding F(3) using F(2) f by (simp add: card_Diff_subset)
  finally have "length (rb_elems (avl_freeList s)) = arraySize s - size T" .
  moreover have "size T \<le> arraySize s" using card_mono [OF _ F(2)] f by simp
  ultimately show thesis using that [OF F f] by simp
qed

section \<open>Insertion and removal\<close>

theorem avl_insert_ok:
  assumes "wf_avl s T" "size T < arraySize s"
  obtains s' where "avl_insert k d s = Some (Inr (), s')" "wf_avl s' (ins k d T)" "arraySize s' = arraySize s"
proof -
  have w: "ordered T" "avl T" "number_elements s = size T" "wf_rb (avl_freeList s)"
    "maxCapacity (avl_freeList s) = arraySize s" "distinct (rb_elems (avl_freeList s))"
    using assms(1) by (simp_all add: wf_avl_def)
  from assms(1) obtain F where F: "rep (the_array s) (root s) F T" "F \<subseteq> {0..<int (arraySize s)}"
    "set (rb_elems (avl_freeList s)) = {0..<int (arraySize s)} - F" "finite F" "card F = size T"
    "length (rb_elems (avl_freeList s)) + size T = arraySize s" by (rule wf_avlE)
  have ne: "rb_elems (avl_freeList s) \<noteq> []" using F(6) assms(2) by (auto simp del: length_rb_elems)
  then have hd: "hd (rb_elems (avl_freeList s)) \<in> {0..<int (arraySize s)} - F" using F(3) hd_in_set by blast
  with ne w(4) have "room s F" by (simp add: room_def)
  from insert_at_ok [OF F(1) w(1,2) this] obtain i' F' s1 where
    s1: "insert_at (root s) k d s = Some (Inr i', s1)" "rep (the_array s1) i' F' (ins k d T)"
      "inserted (k \<in> fst ` set_tree T) F s F' s1" by blast
  have "wf_avl (s1\<lparr>root := i'\<rparr>) (ins k d T)"
  proof (cases "k \<in> fst ` set_tree T")
    case True
    with s1(3) have "F' = F" "avl_freeList s1 = avl_freeList s" "number_elements s1 = number_elements s"
      "arraySize s1 = arraySize s" by (simp_all add: inserted_def)
    with True s1(2) F w show ?thesis
      by (auto simp: wf_avl_def ordered_ins avl_ins size_ins)
  next
    case False
    with s1(3) obtain n xs where q: "rb_elems (avl_freeList s) = n # xs" "rb_elems (avl_freeList s1) = xs"
      "F' = insert n F" "number_elements s1 = Suc (number_elements s)" "arraySize s1 = arraySize s"
      "wf_rb (avl_freeList s1)" "maxCapacity (avl_freeList s1) = maxCapacity (avl_freeList s)"
      by (cases "rb_elems (avl_freeList s)") (auto simp: inserted_def)
    have "set xs = {0..<int (arraySize s)} - insert n F" "n \<in> {0..<int (arraySize s)}" "distinct xs"
      using F(3) w(6) hd unfolding q(1) by auto
    with False s1(2) F(2) w q show ?thesis by (auto simp: wf_avl_def ordered_ins avl_ins size_ins)
  qed
  moreover have "avl_insert k d s = Some (Inr (), s1\<lparr>root := i'\<rparr>)"
    using assms(2) w(3) by (simp add: avl_insert_def bindP_def s1(1))
  moreover have "arraySize (s1\<lparr>root := i'\<rparr>) = arraySize s" using s1(3) by (simp add: inserted_def)
  ultimately show thesis using that by blast
qed

lemma avl_insert_full: "wf_avl s T \<Longrightarrow> \<not> size T < arraySize s \<Longrightarrow> avl_insert k d s = Some (Inr (), s)"
  by (simp add: avl_insert_def wf_avl_def)

theorem avl_remove_ok:
  assumes "wf_avl s T"
  obtains s' where "avl_remove k s = Some (Inr (), s')" "wf_avl s' (rem k T)" "arraySize s' = arraySize s"
proof -
  have w: "ordered T" "avl T" "number_elements s = size T" "wf_rb (avl_freeList s)"
    "maxCapacity (avl_freeList s) = arraySize s" "distinct (rb_elems (avl_freeList s))"
    using assms by (simp_all add: wf_avl_def)
  from assms obtain F where F: "rep (the_array s) (root s) F T" "F \<subseteq> {0..<int (arraySize s)}"
    "set (rb_elems (avl_freeList s)) = {0..<int (arraySize s)} - F" "finite F" "card F = size T"
    "length (rb_elems (avl_freeList s)) + size T = arraySize s" by (rule wf_avlE)
  have sp: "space s" if "k \<in> fst ` set_tree T"
  proof -
    have "0 < size T" using that by (cases T) auto
    then show ?thesis using F(6) w(4,5) by (simp add: space_def)
  qed
  from remove_at_ok [OF F(1) w(1) sp, where dec = True] obtain i' F' s1 where
    s1: "remove_at (root s) k True s = Some (Inr i', s1)" "rep (the_array s1) i' F' (rem k T)"
      "removed (k \<in> fst ` set_tree T) True F s F' s1" by blast
  have "wf_avl (s1\<lparr>root := i'\<rparr>) (rem k T)"
  proof (cases "k \<in> fst ` set_tree T")
    case False
    with s1(3) have "F' = F" "avl_freeList s1 = avl_freeList s" "number_elements s1 = number_elements s"
      "arraySize s1 = arraySize s" by (simp_all add: removed_def)
    with False s1(2) F w show ?thesis by (auto simp: wf_avl_def ordered_rem avl_rem size_rem)
  next
    case True
    with s1(3) obtain f where f: "f \<in> F" "F' = F - {f}" "rb_elems (avl_freeList s1) = rb_elems (avl_freeList s) @ [f]"
      "number_elements s1 = number_elements s - 1" "arraySize s1 = arraySize s"
      "wf_rb (avl_freeList s1)" "maxCapacity (avl_freeList s1) = maxCapacity (avl_freeList s)"
      by (auto simp: removed_def freed_def)
    have "f \<notin> set (rb_elems (avl_freeList s))" "set (rb_elems (avl_freeList s) @ [f]) = {0..<int (arraySize s)} - F'"
      "F' \<subseteq> {0..<int (arraySize s)}" using F(2,3) f(1,2) by auto
    with True s1(2) F(2) w f show ?thesis by (auto simp: wf_avl_def ordered_rem avl_rem size_rem)
  qed
  moreover have "avl_remove k s = Some (Inr (), s1\<lparr>root := i'\<rparr>)"
    by (simp add: avl_remove_def bindP_def s1(1))
  moreover have "arraySize (s1\<lparr>root := i'\<rparr>) = arraySize s" using s1(3) by (simp add: removed_def)
  ultimately show thesis using that by blast
qed

section \<open>Search\<close>

lemma lookup_at_ok:
  assumes "rep (the_array s) i F t" "ordered t"
  shows "\<exists>j. lookup_at s i k = Some j
    \<and> (case tree_map t k of None \<Rightarrow> j = A_NULL | Some d \<Rightarrow> j \<in> F \<and> n_key s j = k \<and> n_data s j = d)"
  using assms
proof (induction t arbitrary: i F)
  case Leaf
  then show ?case by (subst lookup_at.simps) (simp add: A_NULL_def)
next
  case (Node l x r)
  from rep_node_at [OF Node.prems(1)] obtain L R where n: "0 \<le> i" "rep (the_array s) (left_ch s i) L l"
    "rep (the_array s) (right_ch s i) R r" "i \<notin> L" "i \<notin> R" "L \<inter> R = {}" "n_key s i = fst x" "n_data s i = snd x"
    "F = insert i (L \<union> R)" by (rule node_children)
  note o = Node.prems(2) [unfolded ordered_Node]
  have tm: "tree_map (Node l x r) k = (if k = fst x then Some (snd x) else if k < fst x then tree_map l k else tree_map r k)"
    using tfind_tree_map [OF Node.prems(2), of k] tfind_tree_map [of l k] tfind_tree_map [of r k] o
    by (cases k "fst x" rule: linorder_cases) auto
  consider "k = fst x" | "k < fst x" | "fst x < k" by (meson linorder_less_linear)
  then show ?case
  proof cases
    case 1 then show ?thesis unfolding tm using n by (subst lookup_at.simps) simp
  next
    case 2
    then have "lookup_at s i k = lookup_at s (left_ch s i) k" using n by (subst lookup_at.simps) auto
    with Node.IH(1) [OF n(2)] o 2 show ?thesis unfolding tm n(9) by (auto split: option.splits)
  next
    case 3
    then have "lookup_at s i k = lookup_at s (right_ch s i) k" using n by (subst lookup_at.simps) auto
    with Node.IH(2) [OF n(3)] o 3 show ?thesis unfolding tm n(9) by (auto split: option.splits)
  qed
qed

lemma avl_lookup_ok:
  assumes "wf_avl s T"
  shows "\<exists>j. avl_lookup s k = Some j \<and> (case tree_map T k of None \<Rightarrow> j = A_NULL
    | Some d \<Rightarrow> 0 \<le> j \<and> j < int (arraySize s) \<and> n_key s j = k \<and> n_data s j = d)"
proof -
  from assms obtain F where F: "rep (the_array s) (root s) F T" "F \<subseteq> {0..<int (arraySize s)}" "ordered T"
    by (auto simp: wf_avl_def)
  from lookup_at_ok [OF F(1,3), of k] F(2) show ?thesis
    by (force simp: avl_lookup_def split: option.splits)
qed

lemma is_member_ok: "wf_avl s T \<Longrightarrow> is_member s k = Some (tree_map T k \<noteq> None)"
  using avl_lookup_ok [of s T k]
  by (auto simp: is_member_def avl_lookup_def is_null_def A_NULL_def split: option.splits)

lemma lookup_data_ref_ok:
  "wf_avl s T \<Longrightarrow> lookup_data_ref k s = Some (case tree_map T k of None \<Rightarrow> Inl AVLTreeException | Some d \<Rightarrow> Inr d, s)"
  using avl_lookup_ok [of s T k]
  by (auto simp: lookup_data_ref_def is_null_def A_NULL_def split: option.splits)

lemma number_reachable_ok: "rep (the_array s) i F t \<Longrightarrow> number_reachable_at s i = Some (size t)"
proof (induction t arbitrary: i F)
  case Leaf
  then show ?case by (subst number_reachable_at.simps) (simp add: is_null_def A_NULL_def)
next
  case (Node l x r)
  from rep_node_at [OF Node.prems] obtain L R where n: "0 \<le> i" "rep (the_array s) (left_ch s i) L l"
    "rep (the_array s) (right_ch s i) R r" by (rule node_children)
  with Node.IH(1) [OF n(2)] Node.IH(2) [OF n(3)] show ?case
    by (subst number_reachable_at.simps) (simp add: is_null_def)
qed

lemma is_consistent_ok:
  "rep (the_array s) i F t \<Longrightarrow> ordered t \<Longrightarrow> avl t \<Longrightarrow> is_consistent_at s i = Some True"
proof (induction t arbitrary: i F)
  case Leaf
  then show ?case by (subst is_consistent_at.simps) (simp add: is_null_def A_NULL_def)
next
  case (Node l x r)
  from rep_node_at [OF Node.prems(1)] obtain L R where n: "0 \<le> i" "rep (the_array s) (left_ch s i) L l"
    "rep (the_array s) (right_ch s i) R r" "i \<notin> L" "i \<notin> R" "L \<inter> R = {}" "n_key s i = fst x" "n_data s i = snd x"
    "F = insert i (L \<union> R)" by (rule node_children)
  have k: "is_null (left_ch s i) \<or> n_key s (left_ch s i) < n_key s i"
    using key_rep [OF n(2)] rep_null [OF n(2)] Node.prems(2) [unfolded ordered_Node] n(7) by (cases l) auto
  have b: "\<not> n_balance s i < -1" "\<not> 1 < n_balance s i"
    using n_balance_rep [OF Node.prems(1)] avl_bal [OF Node.prems(3)] by linarith+
  have h: "calc_height s i = Some (n_height s i)"
    using calc_height_rep [OF Node.prems(1)] n_height_rep [OF Node.prems(1)] by simp
  show ?case
    using Node.IH(1) [OF n(2)] Node.IH(2) [OF n(3)] Node.prems(2) [unfolded ordered_Node] Node.prems(3) k b h n(1)
    by (subst is_consistent_at.simps) (auto simp: is_null_def Let_def)
qed

lemma find_matching_data_ok:
  "rep (the_array s) i F t \<Longrightarrow> find_matching_data_at s i P f acc
     = Some (acc @ map (case_prod f) (filter (case_prod P) (preorder t)))"
proof (induction t arbitrary: i F acc)
  case Leaf
  then show ?case by (subst find_matching_data_at.simps) (simp add: is_null_def A_NULL_def)
next
  case (Node l x r)
  from rep_node_at [OF Node.prems] obtain L R where n: "0 \<le> i" "rep (the_array s) (left_ch s i) L l"
    "rep (the_array s) (right_ch s i) R r" "i \<notin> L" "i \<notin> R" "L \<inter> R = {}" "n_key s i = fst x" "n_data s i = snd x"
    "F = insert i (L \<union> R)" by (rule node_children)
  with Node.IH(1) [OF n(2)] Node.IH(2) [OF n(3)] show ?case
    by (subst find_matching_data_at.simps) (cases x; simp add: is_null_def Let_def)
qed

section \<open>Construction\<close>

lemma clear_entry_ok:
  assumes "wf_rb (avl_freeList s)" "length (rb_elems (avl_freeList s)) < maxCapacity (avl_freeList s)"
  obtains q h where "clear_entry i s = (Inr (), s\<lparr>avl_freeList := q, the_array := h\<rparr>)" "wf_rb q"
    "rb_elems q = rb_elems (avl_freeList s) @ [int i]" "maxCapacity q = maxCapacity (avl_freeList s)"
  using rbq.push [OF assms, of "int i"] by (auto simp: clear_entry_def bindE_def zoomE_def modify_node_def)

lemma clear_loop:
  "wf_rb (avl_freeList s) \<Longrightarrow> length (rb_elems (avl_freeList s)) + length xs \<le> maxCapacity (avl_freeList s)
   \<Longrightarrow> \<exists>q h. forE clear_entry xs s = (Inr (), s\<lparr>avl_freeList := q, the_array := h\<rparr>) \<and> wf_rb q
     \<and> rb_elems q = rb_elems (avl_freeList s) @ map int xs \<and> maxCapacity q = maxCapacity (avl_freeList s)"
proof (induction xs arbitrary: s)
  case Nil
  then show ?case by (intro exI [of _ "avl_freeList s"] exI [of _ "the_array s"]) simp
next
  case (Cons i xs)
  from Cons.prems obtain q h where c: "clear_entry i s = (Inr (), s\<lparr>avl_freeList := q, the_array := h\<rparr>)" "wf_rb q"
    "rb_elems q = rb_elems (avl_freeList s) @ [int i]" "maxCapacity q = maxCapacity (avl_freeList s)"
    by (elim clear_entry_ok [of s, where i = i]) simp
  from Cons.IH [of "s\<lparr>avl_freeList := q, the_array := h\<rparr>"] c Cons.prems show ?case by (auto simp: bindE_def)
qed

lemma avl_clear_ok:
  assumes "wf_rb (avl_freeList s)" "maxCapacity (avl_freeList s) = arraySize s"
  obtains s' where "avl_clear s = (Inr (), s')" "wf_avl s' Leaf" "arraySize s' = arraySize s"
proof -
  let ?s = "s\<lparr>root := A_NULL, number_elements := 0, avl_freeList := rb_reset (avl_freeList s)\<rparr>"
  note c = rbq.clear [OF assms(1)]
  from clear_loop [of ?s "[0..<arraySize s]"] c assms(2) obtain q h where
    q: "forE clear_entry [0..<arraySize s] ?s = (Inr (), ?s\<lparr>avl_freeList := q, the_array := h\<rparr>)" "wf_rb q"
      "rb_elems q = map int [0..<arraySize s]" "maxCapacity q = arraySize s" by auto
  have "wf_avl (?s\<lparr>avl_freeList := q, the_array := h\<rparr>) Leaf"
    using q by (auto simp: wf_avl_def distinct_map image_int_atLeastLessThan)
  moreover have "avl_clear s = (Inr (), ?s\<lparr>avl_freeList := q, the_array := h\<rparr>)"
    using q(1) by (simp add: avl_clear_def bindE_def)
  ultimately show thesis using that by simp
qed

lemma new_FixedMemAVLTree_ok:
  assumes "3 \<le> n" "length ring = n + 1"
  obtains s where "new_FixedMemAVLTree n ring nodes = Inr s" "wf_avl s Leaf" "arraySize s = n"
proof -
  obtain fl where fl: "new_ring_buffer (Some ''AVL'') n ring = Inr fl"
    using assms by (simp add: new_ring_buffer_def maxRingBufferNameLength_def)
  from wf_new_ring_buffer [OF fl] have w: "wf_rb fl" "maxCapacity fl = n" by simp_all
  let ?s = "\<lparr>avl_freeList = fl, the_array = nodes, arraySize = n, number_elements = 0, root = A_NULL\<rparr>"
  from avl_clear_ok [of ?s] w obtain s' where "avl_clear ?s = (Inr (), s')" "wf_avl s' Leaf" "arraySize s' = n" by auto
  with fl that [of s'] show thesis by (simp add: new_FixedMemAVLTree_def)
qed

section \<open>The contract\<close>

text \<open>What a client of the tree may rely on, over the partial map it stands for.\<close>

locale bounded_map =
  fixes inv :: "'s \<Rightarrow> bool"
    and contents :: "'s \<Rightarrow> 'k::linorder \<rightharpoonup> 'd"
    and capacity :: "'s \<Rightarrow> nat"
    and put :: "'k \<Rightarrow> 'd \<Rightarrow> ('s, unit) paction"
    and delete :: "'k \<Rightarrow> ('s, unit) paction"
    and get :: "'k \<Rightarrow> ('s, 'd) paction"
    and member :: "'s \<Rightarrow> 'k \<Rightarrow> bool option"
    and count :: "'s \<Rightarrow> nat"
  assumes put: "inv s \<Longrightarrow> count s < capacity s \<Longrightarrow> \<exists>s'. put k d s = Some (Inr (), s') \<and> inv s'
      \<and> contents s' = (contents s)(k \<mapsto> d) \<and> capacity s' = capacity s"
    and put_full: "inv s \<Longrightarrow> \<not> count s < capacity s \<Longrightarrow> put k d s = Some (Inr (), s)"
    and delete: "inv s \<Longrightarrow> \<exists>s'. delete k s = Some (Inr (), s') \<and> inv s'
      \<and> contents s' = (contents s)(k := None) \<and> capacity s' = capacity s"
    and get: "inv s \<Longrightarrow> get k s = Some (case contents s k of None \<Rightarrow> Inl AVLTreeException | Some d \<Rightarrow> Inr d, s)"
    and member: "inv s \<Longrightarrow> member s k = Some (k \<in> dom (contents s))"
    and count: "inv s \<Longrightarrow> count s = card (dom (contents s)) \<and> finite (dom (contents s))"
    and bounded: "inv s \<Longrightarrow> count s \<le> capacity s"
begin

lemma put_get:
  assumes "inv s" "count s < capacity s"
  shows "\<exists>s'. bindP (put k d) (\<lambda>_. get k) s = Some (Inr d, s') \<and> inv s' \<and> (\<forall>j. j \<noteq> k \<longrightarrow> contents s' j = contents s j)"
  using put [OF assms, of k d] get by (fastforce simp: bindP_def)

lemma count_put:
  assumes "inv s" "count s < capacity s" "put k d s = Some (Inr (), s')"
  shows "count s' = (if k \<in> dom (contents s) then count s else Suc (count s))"
  using put [OF assms(1,2), of k d] assms(3) count [OF assms(1)] count [of s'] by (auto simp: insert_absorb)

lemma count_delete:
  assumes "inv s" "delete k s = Some (Inr (), s')"
  shows "count s' = (if k \<in> dom (contents s) then count s - 1 else count s)"
  using delete [OF assms(1), of k] assms(2) count [OF assms(1)] count [of s'] by auto

text \<open>A full map refuses every insertion, of a known key as well, without a sign of it.\<close>

lemma full_keeps_old_value:
  assumes "inv s" "count s = capacity s" "contents s k = Some d0"
  shows "bindP (put k d) (\<lambda>_. get k) s = Some (Inr d0, s)"
  using put_full [OF assms(1), of k d] get [OF assms(1), of k] assms(2,3) by (simp add: bindP_def)

fun put_all :: "('k \<times> 'd) list \<Rightarrow> ('s, unit) paction" where
  "put_all [] s = Some (Inr (), s)"
| "put_all (x # xs) s = bindP (put (fst x) (snd x)) (\<lambda>_. put_all xs) s"

lemma put_all_ok:
  "inv s \<Longrightarrow> card (dom (contents s) \<union> fst ` set xs) \<le> capacity s \<Longrightarrow> distinct (map fst xs)
   \<Longrightarrow> dom (contents s) \<inter> fst ` set xs = {}
   \<Longrightarrow> \<exists>s'. put_all xs s = Some (Inr (), s') \<and> inv s' \<and> contents s' = contents s ++ map_of xs
          \<and> capacity s' = capacity s"
proof (induction xs arbitrary: s)
  case (Cons x xs)
  have f: "finite (dom (contents s))" and c: "count s = card (dom (contents s))" using count [OF Cons.prems(1)] by auto
  have "card (dom (contents s)) < card (insert (fst x) (dom (contents s)))" using f Cons.prems(4) by simp
  also have "\<dots> \<le> card (dom (contents s) \<union> fst ` set (x # xs))" using f by (intro card_mono) auto
  finally have "count s < capacity s" using c Cons.prems(2) by simp
  from put [OF Cons.prems(1) this, of "fst x" "snd x"] obtain s1 where
    s1: "put (fst x) (snd x) s = Some (Inr (), s1)" "inv s1" "contents s1 = (contents s)(fst x \<mapsto> snd x)"
      "capacity s1 = capacity s" by blast
  have "card (dom (contents s1) \<union> fst ` set xs) \<le> capacity s1" using Cons.prems(2) s1(3,4) by simp
  moreover have "distinct (map fst xs)" "fst x \<notin> fst ` set xs" using Cons.prems(3) by auto
  moreover have "dom (contents s1) \<inter> fst ` set xs = {}" using Cons.prems(4) s1(3) calculation(3) by auto
  ultimately obtain s' where
    s': "put_all xs s1 = Some (Inr (), s')" "inv s'" "contents s' = contents s1 ++ map_of xs"
      "capacity s' = capacity s"
    using Cons.IH [OF s1(2)] s1(4) by metis
  have "contents s' = contents s ++ map_of (x # xs)"
  proof
    fix k
    have "fst x \<notin> dom (map_of xs)" using Cons.prems(3) by (simp add: dom_map_of_conv_image_fst)
    then show "contents s' k = (contents s ++ map_of (x # xs)) k"
      unfolding s'(3) s1(3) by (cases x) (auto simp: map_add_def domIff split: option.splits)
  qed
  moreover have "put_all (x # xs) s = Some (Inr (), s')" using s1(1) s'(1) by (simp add: bindP_def)
  ultimately show ?case using s'(2,4) by blast
qed simp

end

text \<open>The map of an array tree, by what the search returns.\<close>

definition avl_contents :: "('k::linorder, 'd) FixedMemAVLTree \<Rightarrow> 'k \<rightharpoonup> 'd" where
  "avl_contents s k = (case lookup_data_ref k s of Some (Inr d, _) \<Rightarrow> Some d | _ \<Rightarrow> None)"

definition avl_inv :: "('k::linorder, 'd) FixedMemAVLTree \<Rightarrow> bool" where
  "avl_inv s \<longleftrightarrow> (\<exists>T. wf_avl s T)"

lemma avl_contents_eq: "wf_avl s T \<Longrightarrow> avl_contents s = tree_map T"
  by (rule ext) (simp add: avl_contents_def lookup_data_ref_ok split: option.splits)

lemma avl_invE:
  assumes "avl_inv s"
  obtains T where "wf_avl s T" "avl_contents s = tree_map T" "ordered T" "number_elements s = size T"
    "size T = card (dom (tree_map T))" "size T \<le> arraySize s"
proof -
  from assms obtain T where T: "wf_avl s T" by (auto simp: avl_inv_def)
  have o: "ordered T" "number_elements s = size T" using T by (simp_all add: wf_avl_def)
  have "size T = card (dom (tree_map T))"
    using distinct_card [OF ordered_distinct [OF o(1)]] by (simp add: dom_tree_map)
  moreover have "size T \<le> arraySize s" using T by (rule wf_avlE) simp
  ultimately show thesis using that T avl_contents_eq [OF T] o by blast
qed

interpretation avl: bounded_map avl_inv avl_contents arraySize avl_insert avl_remove lookup_data_ref
  is_member number_elements
proof unfold_locales
  fix s :: "('k::linorder, 'd) FixedMemAVLTree" and k d
  assume i: "avl_inv s"
  then obtain T where T: "wf_avl s T" "avl_contents s = tree_map T" "ordered T" "number_elements s = size T"
    "size T = card (dom (tree_map T))" "size T \<le> arraySize s" by (rule avl_invE)
  show "\<exists>s'. avl_insert k d s = Some (Inr (), s') \<and> avl_inv s' \<and> avl_contents s' = (avl_contents s)(k \<mapsto> d)
      \<and> arraySize s' = arraySize s" if "number_elements s < arraySize s"
    using avl_insert_ok [OF T(1), of k d] that T avl_contents_eq tree_map_ins [OF T(3)]
    by (metis avl_inv_def)
  show "\<not> number_elements s < arraySize s \<Longrightarrow> avl_insert k d s = Some (Inr (), s)"
    using avl_insert_full [OF T(1)] T(4) by simp
  show "\<exists>s'. avl_remove k s = Some (Inr (), s') \<and> avl_inv s' \<and> avl_contents s' = (avl_contents s)(k := None)
      \<and> arraySize s' = arraySize s"
    using avl_remove_ok [OF T(1), of k] T avl_contents_eq tree_map_rem [OF T(3)]
    by (metis avl_inv_def)
  show "lookup_data_ref k s = Some (case avl_contents s k of None \<Rightarrow> Inl AVLTreeException | Some d \<Rightarrow> Inr d, s)"
    using lookup_data_ref_ok [OF T(1)] T(2) by simp
  show "is_member s k = Some (k \<in> dom (avl_contents s))"
    using is_member_ok [OF T(1)] T(2) by (simp add: domIff)
  show "number_elements s = card (dom (avl_contents s)) \<and> finite (dom (avl_contents s))"
    using T(2,4,5) by (simp add: dom_tree_map)
  show "number_elements s \<le> arraySize s" using T by simp
qed

text \<open>The search over all nodes returns every matching entry once.\<close>

lemma avl_find_matching_ok:
  assumes "avl_inv s"
  obtains es where "avl_find_matching_data P f s acc = Some (acc @ map (case_prod f) es)" "distinct (map fst es)"
    "set es = {(k, d). avl_contents s k = Some d \<and> P k d}"
proof -
  from assms obtain T where T: "wf_avl s T" "avl_contents s = tree_map T" "ordered T" by (rule avl_invE)
  then obtain F where F: "rep (the_array s) (root s) F T" by (auto simp: wf_avl_def)
  have "mset (preorder t) = mset (inorder t)" for t :: "('a \<times> 'b) tree" by (induction t) auto
  then have "distinct (map fst (preorder T))"
    using ordered_distinct [OF T(3)] mset_eq_imp_distinct_iff [of "map fst (preorder T)" "map fst (inorder T)"]
    by (metis mset_map)
  then have "distinct (map fst (filter (case_prod P) (preorder T)))" by (rule distinct_map_filter)
  moreover have "set (filter (case_prod P) (preorder T)) = {(k, d). avl_contents s k = Some d \<and> P k d}"
    using tree_map_Some [OF T(3)] T(2) by auto
  ultimately show thesis
    using that [of "filter (case_prod P) (preorder T)"] find_matching_data_ok [OF F, of P f acc]
    by (simp add: avl_find_matching_data_def)
qed

end
