(* ===== verification/PropsAvl.thy ===== *)
theory PropsAvl
  imports AvlMap
begin

text \<open>The properties of the AVL tree.\<close>

section \<open>Concrete trees\<close>

abbreviation empty_node :: "(nat, string) ANode" where
  "empty_node \<equiv> \<lparr>a_key = 0, a_data = '''', nd_left = A_NULL, nd_right = A_NULL, nd_height = 0\<rparr>"

abbreviation three :: "(nat \<times> string) list" where
  "three \<equiv> [(2, ''b''), (5, ''e''), (9, ''i'')]"

lemma small_tree:
  obtains s where "new_FixedMemAVLTree 3 (replicate 4 0) (\<lambda>_. empty_node) = Inr s" "avl_inv s" "arraySize s = 3"
    "number_elements s = 0" "avl_contents s = Map.empty"
proof -
  from new_FixedMemAVLTree_ok [of 3 "replicate 4 0" "\<lambda>_. empty_node"] obtain s where
    s: "new_FixedMemAVLTree 3 (replicate 4 0) (\<lambda>_. empty_node) = Inr s" "wf_avl s Leaf" "arraySize s = 3"
    by auto
  have "avl_contents s = tree_map Leaf" by (rule avl_contents_eq [OF s(2)])
  moreover have "number_elements s = 0" using s(2) by (simp add: wf_avl_def)
  ultimately show thesis using that [OF s(1) _ s(3)] s(2) by (auto simp: avl_inv_def)
qed

lemma full_tree:
  obtains s :: "(nat, string) FixedMemAVLTree"
  where "avl_inv s" "arraySize s = 3" "number_elements s = 3" "avl_contents s = map_of three"
proof -
  obtain s0 where s0: "new_FixedMemAVLTree 3 (replicate 4 0) (\<lambda>_. empty_node) = Inr s0"
    "avl_inv s0" "arraySize s0 = 3" "number_elements s0 = 0" "avl_contents s0 = Map.empty" by (rule small_tree)
  have "card (dom (avl_contents s0) \<union> fst ` set three) \<le> arraySize s0" using s0 by simp
  from avl.put_all_ok [OF s0(2) this] s0(3,5) obtain s where
    s: "avl_inv s" "avl_contents s = map_of three" "arraySize s = 3" by auto
  moreover have "number_elements s = 3" using avl.count [OF s(1)] by (simp add: s(2) dom_map_of_conv_image_fst)
  ultimately show thesis using that by blast
qed

section \<open>The tree as a bounded map\<close>

text \<open>C37. Insertion into a tree that is not full returns without an exception, keeps the invariant (search order,
  balance, stored heights, free list and element count), and afterwards the tree maps the key to the new data
  and every other key to what it was mapped to; the element count grows exactly when the key is new.\<close>

theorem avl_insert_spec:
  assumes "avl_inv s" "number_elements s < arraySize s"
  shows "\<exists>s'. avl_insert k d s = Some (Inr (), s') \<and> avl_inv s' \<and> avl_contents s' = (avl_contents s)(k \<mapsto> d)
    \<and> number_elements s' = (if k \<in> dom (avl_contents s) then number_elements s else Suc (number_elements s))"
  using avl.put [OF assms, of k d] avl.count_put [OF assms, of k d] by blast

theorem avl_insert_spec_witness:
  "\<exists>s s'. new_FixedMemAVLTree 3 (replicate 4 0) (\<lambda>_. empty_node) = Inr s
    \<and> avl_insert 7 ''g'' s = Some (Inr (), s') \<and> avl_contents s' = [7 \<mapsto> ''g''] \<and> number_elements s' = 1"
proof -
  obtain s where s: "new_FixedMemAVLTree 3 (replicate 4 0) (\<lambda>_. empty_node) = Inr s" "avl_inv s" "arraySize s = 3"
    "number_elements s = 0" "avl_contents s = Map.empty" by (rule small_tree)
  with avl_insert_spec [OF s(2), of 7 "''g''"] show ?thesis by auto
qed

text \<open>C38. Removal returns without an exception, keeps the invariant, and afterwards the key is unmapped and
  every other key is as before; the slot of the node is available again, so the element count drops exactly when
  the key was there.\<close>

theorem avl_remove_spec:
  assumes "avl_inv s"
  shows "\<exists>s'. avl_remove k s = Some (Inr (), s') \<and> avl_inv s' \<and> avl_contents s' = (avl_contents s)(k := None)
    \<and> number_elements s' = (if k \<in> dom (avl_contents s) then number_elements s - 1 else number_elements s)"
  using avl.delete [OF assms, of k] avl.count_delete [OF assms, of k] by blast

theorem avl_remove_spec_witness:
  "\<exists>s s'. avl_contents s = map_of three \<and> avl_remove 5 s = Some (Inr (), s')
    \<and> avl_contents s' = [2 \<mapsto> ''b'', 9 \<mapsto> ''i''] \<and> number_elements s' = 2"
proof -
  obtain s :: "(nat, string) FixedMemAVLTree" where s: "avl_inv s" "number_elements s = 3" "avl_contents s = map_of three"
    by (rule full_tree)
  from avl_remove_spec [OF s(1), of 5] s obtain s' where
    "avl_remove 5 s = Some (Inr (), s')" "avl_contents s' = (map_of three)(5 := None)" "number_elements s' = 2" by auto
  moreover have "(map_of three)(5 := None) = [2 \<mapsto> ''b'', 9 \<mapsto> ''i'']" by (rule ext) simp
  ultimately show ?thesis using s(3) by metis
qed

text \<open>When all entries of the array are in use, inserting changes nothing and reports nothing, for a key that
  is already in the tree as well: a lookup of the key afterwards still returns its old data.\<close>

lemma avl_full_insert_is_ignored:
  assumes "avl_inv s" "number_elements s = arraySize s" "avl_contents s k = Some d0"
  shows "bindP (avl_insert k d) (\<lambda>_. lookup_data_ref k) s = Some (Inr d0, s)"
  by (rule avl.full_keeps_old_value [OF assms])

text \<open>C39. Balance: in every tree that satisfies the invariant, with n elements, the height h is at most twice the binary
  logarithm of n + 1 (stated as 2 to the power h is at most the square of n + 1), the recursive height computation agrees with the stored height and returns,
  all elements are reachable, and the consistency check of the class succeeds.\<close>

theorem avl_shape:
  assumes "avl_inv s"
  shows "\<exists>h. calc_height s (root s) = Some (int h) \<and> n_height s (root s) = int h
    \<and> 2 ^ h \<le> (number_elements s + 1)\<^sup>2
    \<and> avl_number_reachable s = Some (number_elements s) \<and> avl_is_consistent s = Some True"
proof -
  from assms obtain T where T: "wf_avl s T" by (auto simp: avl_inv_def)
  then obtain F where F: "rep (the_array s) (root s) F T" "ordered T" "avl T" "number_elements s = size T"
    by (auto simp: wf_avl_def)
  show ?thesis
    using calc_height_rep [OF F(1)] n_height_rep [OF F(1)] avl_size_height [OF F(3)] F(4)
      number_reachable_ok [OF F(1)] is_consistent_ok [OF F(1,2,3)]
    by (auto simp: size1_size avl_number_reachable_def avl_is_consistent_def intro!: exI [of _ "height T"])
qed

theorem avl_shape_witness:
  "\<exists>s h. avl_contents s = map_of three \<and> calc_height s (root s) = Some (int h) \<and> 2 ^ h \<le> (16::nat)
    \<and> avl_is_consistent s = Some True"
proof -
  obtain s :: "(nat, string) FixedMemAVLTree" where s: "avl_inv s" "number_elements s = 3"
    "avl_contents s = map_of three" by (rule full_tree)
  with avl_shape [OF s(1)] show ?thesis by auto
qed

text \<open>The search over all nodes appends, for every entry of the tree that satisfies the predicate, its
  transformed value exactly once, and nothing else.\<close>

theorem avl_find_matching_spec:
  assumes "avl_inv s"
  shows "\<exists>es. avl_find_matching_data P f s acc = Some (acc @ map (\<lambda>(k, d). f k d) es) \<and> distinct (map fst es)
    \<and> set es = {(k, d). avl_contents s k = Some d \<and> P k d}"
proof -
  from avl_find_matching_ok [OF assms] obtain es where
    "avl_find_matching_data P f s acc = Some (acc @ map (case_prod f) es)" "distinct (map fst es)"
    "set es = {(k, d). avl_contents s k = Some d \<and> P k d}" by blast
  then show ?thesis by (intro exI [of _ es]) simp
qed

theorem avl_find_matching_spec_witness:
  "\<exists>s es. avl_contents s = map_of three \<and> avl_find_matching_data (\<lambda>k d. 4 < k) (\<lambda>k d. d) s [] = Some (map snd es)
    \<and> set es = {(5 :: nat, ''e''), (9, ''i'')} \<and> distinct (map fst es)"
proof -
  obtain s :: "(nat, string) FixedMemAVLTree" where s: "avl_inv s" "avl_contents s = map_of three" by (rule full_tree)
  have e: "(\<lambda>(k :: nat, d :: string). d) = snd" by auto
  from avl_find_matching_spec [OF s(1), of "\<lambda>k d. 4 < k" "\<lambda>k d. d" "[]", unfolded e append_Nil]
  obtain es where
    es: "avl_find_matching_data (\<lambda>k d. 4 < k) (\<lambda>k d. d) s [] = Some (map snd es)" "distinct (map fst es)"
    "set es = {(k, d). avl_contents s k = Some d \<and> 4 < k}" by blast
  have "{(k, d). map_of three k = Some d \<and> 4 < k} = {(5, ''e''), (9, ''i'')}" by (auto split: if_splits)
  with es s(2) show ?thesis by (intro exI [of _ s] exI [of _ es] conjI) simp_all
qed

end
