(* ===== verification/ShmQueue.thy ===== *)
theory ShmQueue
  imports RingBuffer VardisStore
begin

text \<open>
  The finite queue of buffers in shared memory, \<open>dcp/common/sharedmem_finite_queue.h\<close>, by which
  demons and clients exchange messages.  A buffer is a block of \<open>buffer_space\<close>, found by the
  offset in its descriptor; the queue and the free list are ring buffers of descriptors.

  The caller of a method passes a handler that writes or reads the buffer.  A push handler is an
  action on the caller's state and the bytes of the buffer, a pop handler gets the bytes and acts
  on the caller's state.  What the operating system decides is an argument of a method: whether
  the mutex was obtained in time (\<open>owns\<close>), and what happened while the method waited for a
  condition variable (\<open>wait\<close>: whether the variable was signalled in time, and what the
  other processes have made of the queue by then).
\<close>

section \<open>Data\<close>

record DescrT =
  d_offs :: nat
  d_len :: nat

record ShmFiniteQueue =
  numberBuffers :: nat
  bufferSize :: nat
  magicNo :: u64
  queue_name :: string
  shm_queue :: "DescrT ring_buffer"
  shm_freeList :: "DescrT ring_buffer"
  buffer_space :: "nat \<Rightarrow> u8"
  has_data :: bool

type_synonym 'h PushHandler = "nat \<Rightarrow> ('h \<times> u8 list, nat) action"
type_synonym 'h PopHandler = "u8 list \<Rightarrow> ('h, unit) action"
type_synonym 'h shm = "'h \<times> ShmFiniteQueue"
type_synonym waiting = "ShmFiniteQueue \<Rightarrow> bool \<times> ShmFiniteQueue"

definition maxQueueNameLength :: nat where
  "maxQueueNameLength = 255"

definition defaultMagicNo :: u64 where
  "defaultMagicNo = 0x497E471112349876"

definition get_actual_buffer_size :: "nat \<Rightarrow> nat" where
  "get_actual_buffer_size bufsize = (let s = 8 in s * ((bufsize + 4 * s) div s))"

abbreviation on_queue :: "(DescrT ring_buffer, 'a) action \<Rightarrow> ('h shm, 'a) action" where
  "on_queue \<equiv> zoomE (\<lambda>(h, q). shm_queue q) (\<lambda>r (h, q). (h, q\<lparr>shm_queue := r\<rparr>))"

abbreviation on_freeList :: "(DescrT ring_buffer, 'a) action \<Rightarrow> ('h shm, 'a) action" where
  "on_freeList \<equiv> zoomE (\<lambda>(h, q). shm_freeList q) (\<lambda>r (h, q). (h, q\<lparr>shm_freeList := r\<rparr>))"

definition set_has_data :: "bool \<Rightarrow> ('h shm, unit) action" where
  "set_has_data b = modifyE (\<lambda>(h, q). (h, q\<lparr>has_data := b\<rparr>))"

section \<open>Construction and reset\<close>

definition initialize_queue_and_freelist :: "(ShmFiniteQueue, unit) action" where
  "initialize_queue_and_freelist =
     bindE (modifyE (\<lambda>q. q\<lparr>shm_queue := rb_reset (shm_queue q)\<rparr>)) (\<lambda>_.
     bindE (modifyE (\<lambda>q. q\<lparr>shm_freeList := rb_reset (shm_freeList q)\<rparr>)) (\<lambda>_ q.
     forE (\<lambda>i. zoomE shm_freeList (\<lambda>r q. q\<lparr>shm_freeList := r\<rparr>)
                 (rb_push \<lparr>d_offs = i * get_actual_buffer_size (bufferSize q), d_len = 0\<rparr>))
          [0..<numberBuffers q] q))"

definition new_ShmFiniteQueue ::
  "nat \<Rightarrow> nat \<Rightarrow> string option \<Rightarrow> nat \<Rightarrow> DescrT list \<Rightarrow> DescrT list \<Rightarrow> (nat \<Rightarrow> u8) \<Rightarrow> dcp_error + ShmFiniteQueue" where
  "new_ShmFiniteQueue nbuffers bufsize qname maxcap qring fring mem =
     (case new_ring_buffer (Some ''queue'') maxcap qring of
        Inl e \<Rightarrow> Inl e
      | Inr q \<Rightarrow>
          (case new_ring_buffer (Some ''freeList'') nbuffers fring of
             Inl e \<Rightarrow> Inl e
           | Inr fl \<Rightarrow>
               (case qname of
                  None \<Rightarrow> Inl ShmException
                | Some nm \<Rightarrow>
                    if length nm > maxQueueNameLength then Inl ShmException
                    else case initialize_queue_and_freelist
                           \<lparr>numberBuffers = nbuffers, bufferSize = bufsize, magicNo = defaultMagicNo, queue_name = nm,
                            shm_queue = q, shm_freeList = fl, buffer_space = mem, has_data = False\<rparr> of
                           (Inl e, _) \<Rightarrow> Inl e
                         | (Inr _, s) \<Rightarrow> Inr s)))"

definition assert_magicno :: "('h shm, unit) action" where
  "assert_magicno = throw_if ShmException (\<lambda>(h, q). magicNo q \<noteq> defaultMagicNo)"

definition report_sizes :: "ShmFiniteQueue \<Rightarrow> nat \<times> nat" where
  "report_sizes q = (rb_stored_elements (shm_queue q), rb_stored_elements (shm_freeList q))"

definition shm_reset :: "(ShmFiniteQueue, unit) action" where
  "shm_reset = initialize_queue_and_freelist"

definition shm_stored_elements :: "ShmFiniteQueue \<Rightarrow> nat" where
  "shm_stored_elements q = rb_stored_elements (shm_queue q)"

section \<open>Push\<close>

definition call_push_handler :: "'h PushHandler \<Rightarrow> nat \<Rightarrow> ('h shm, nat) action" where
  "call_push_handler handler offs = (\<lambda>(h, q).
     case handler (bufferSize q) (h, mem_read (buffer_space q) offs (bufferSize q)) of
       (r, (h', bs)) \<Rightarrow> (r, (h', q\<lparr>buffer_space := mem_write (buffer_space q) offs bs\<rparr>)))"

text \<open>The part that all push methods share, from the call of the handler on.\<close>

definition fill_buffer :: "'h PushHandler \<Rightarrow> DescrT \<Rightarrow> ('h shm, unit) action" where
  "fill_buffer handler descr =
     bindE (call_push_handler handler (d_offs descr)) (\<lambda>len.
     let descr = descr\<lparr>d_len := len\<rparr> in
     if len = 0 then on_freeList (rb_push descr)
     else bindE (throw_if ShmException (\<lambda>(h, q). len > bufferSize q)) (\<lambda>_.
          bindE (on_queue (rb_push descr)) (\<lambda>_.
          set_has_data True)))"

definition wait_for :: "waiting \<Rightarrow> ('h shm, bool) action" where
  "wait_for wait = (\<lambda>(h, q). case wait q of (signalled, q') \<Rightarrow> (Inr signalled, (h, q')))"

text \<open>Result: whether an operation timed out.\<close>

definition push_wait :: "'h PushHandler \<Rightarrow> u16 \<Rightarrow> bool \<Rightarrow> waiting \<Rightarrow> ('h shm, bool) action" where
  "push_wait handler timeoutMS owns wait =
     bindE (throw_if ShmException (\<lambda>_. timeoutMS = 0)) (\<lambda>_.
     if \<not> owns then retE True
     else bindE (getE (\<lambda>(h, q). has_data q)) (\<lambda>hd.
          bindE (if hd then wait_for wait else retE True) (\<lambda>signalled.
          if \<not> signalled then retE True
          else bindE (on_freeList rb_pop) (\<lambda>descr.
               bindE (fill_buffer handler descr) (\<lambda>_. retE False)))))"

text \<open>Result: whether an operation timed out, and whether the queue was full.\<close>

definition push_nowait :: "'h PushHandler \<Rightarrow> u16 \<Rightarrow> bool \<Rightarrow> ('h shm, bool \<times> bool) action" where
  "push_nowait handler timeoutMS owns =
     bindE (throw_if ShmException (\<lambda>_. timeoutMS = 0)) (\<lambda>_.
     if \<not> owns then retE (True, False)
     else bindE (getE (\<lambda>(h, q). rb_isFull (shm_queue q))) (\<lambda>full.
          if full then retE (False, True)
          else bindE (on_freeList rb_pop) (\<lambda>descr.
               bindE (fill_buffer handler descr) (\<lambda>_. retE (False, False)))))"

definition push_wait_force :: "'h PushHandler \<Rightarrow> u16 \<Rightarrow> bool \<Rightarrow> ('h shm, bool) action" where
  "push_wait_force handler timeoutMS owns =
     bindE (throw_if ShmException (\<lambda>_. timeoutMS = 0)) (\<lambda>_.
     if \<not> owns then retE True
     else bindE (getE (\<lambda>(h, q). rb_isFull (shm_queue q))) (\<lambda>full.
          bindE (if full then on_queue rb_pop else on_freeList rb_pop) (\<lambda>descr.
          bindE (fill_buffer handler descr) (\<lambda>_. retE False))))"

section \<open>Pop and peek\<close>

definition call_pop_handler :: "'h PopHandler \<Rightarrow> DescrT \<Rightarrow> ('h shm, unit) action" where
  "call_pop_handler handler descr = (\<lambda>(h, q).
     case handler (mem_read (buffer_space q) (d_offs descr) (d_len descr)) h of (r, h') \<Rightarrow> (r, (h', q)))"

definition drain_buffer :: "'h PopHandler \<Rightarrow> ('h shm, unit) action" where
  "drain_buffer handler =
     bindE (on_queue rb_pop) (\<lambda>descr.
     bindE (call_pop_handler handler descr) (\<lambda>_.
     on_freeList (rb_push (descr\<lparr>d_len := 0\<rparr>))))"

definition pop_head :: "'h PopHandler \<Rightarrow> ('h shm, bool \<times> bool) action" where
  "pop_head handler =
     bindE (drain_buffer handler) (\<lambda>_.
     bindE (getE (\<lambda>(h, q). rb_isEmpty (shm_queue q))) (\<lambda>empty.
     if empty then bindE (set_has_data False) (\<lambda>_. retE (False, False)) else retE (False, True)))"

text \<open>Result: whether an operation timed out, and whether there are further entries.\<close>

definition pop_wait :: "'h PopHandler \<Rightarrow> u16 \<Rightarrow> bool \<Rightarrow> waiting \<Rightarrow> ('h shm, bool \<times> bool) action" where
  "pop_wait handler timeoutMS owns wait =
     bindE (throw_if ShmException (\<lambda>_. timeoutMS = 0)) (\<lambda>_.
     if \<not> owns then retE (True, False)
     else bindE (getE (\<lambda>(h, q). has_data q)) (\<lambda>hd.
          bindE (if \<not> hd then wait_for wait else retE True) (\<lambda>signalled.
          if \<not> signalled then retE (True, False) else pop_head handler)))"

definition pop_nowait :: "'h PopHandler \<Rightarrow> u16 \<Rightarrow> bool \<Rightarrow> ('h shm, bool \<times> bool) action" where
  "pop_nowait handler timeoutMS owns =
     bindE assert_magicno (\<lambda>_.
     bindE (throw_if ShmException (\<lambda>_. timeoutMS = 0)) (\<lambda>_.
     if \<not> owns then retE (True, False)
     else bindE (getE (\<lambda>(h, q). has_data q)) (\<lambda>hd.
          if \<not> hd then retE (False, False) else pop_head handler)))"

text \<open>The loop \<open>while (not queue.isEmpty())\<close> takes one element out in each round, so as many
  rounds as there are elements are enough.\<close>

fun drain_all :: "'h PopHandler \<Rightarrow> nat \<Rightarrow> ('h shm, unit) action" where
  "drain_all handler 0 = retE ()"
| "drain_all handler (Suc n) = (\<lambda>(h, q).
     if rb_isEmpty (shm_queue q) then (Inr (), (h, q))
     else bindE (drain_buffer handler) (\<lambda>_. drain_all handler n) (h, q))"

definition pop_every :: "'h PopHandler \<Rightarrow> ('h shm, bool) action" where
  "pop_every handler =
     bindE (\<lambda>(h, q). drain_all handler (rb_stored_elements (shm_queue q)) (h, q)) (\<lambda>_.
     bindE (set_has_data False) (\<lambda>_. retE False))"

definition popall_wait :: "'h PopHandler \<Rightarrow> u16 \<Rightarrow> bool \<Rightarrow> waiting \<Rightarrow> ('h shm, bool) action" where
  "popall_wait handler timeoutMS owns wait =
     bindE (throw_if ShmException (\<lambda>_. timeoutMS = 0)) (\<lambda>_.
     if \<not> owns then retE True
     else bindE (getE (\<lambda>(h, q). has_data q)) (\<lambda>hd.
          bindE (if \<not> hd then wait_for wait else retE True) (\<lambda>signalled.
          if \<not> signalled then retE True else pop_every handler)))"

definition popall_nowait :: "'h PopHandler \<Rightarrow> u16 \<Rightarrow> bool \<Rightarrow> ('h shm, bool) action" where
  "popall_nowait handler timeoutMS owns =
     bindE (throw_if ShmException (\<lambda>_. timeoutMS = 0)) (\<lambda>_.
     if \<not> owns then retE True
     else bindE (getE (\<lambda>(h, q). has_data q)) (\<lambda>hd.
          if \<not> hd then retE False else pop_every handler))"

definition peek_head :: "'h PopHandler \<Rightarrow> ('h shm, bool) action" where
  "peek_head handler =
     bindE (on_queue rb_peek) (\<lambda>descr.
     bindE (call_pop_handler handler descr) (\<lambda>_. retE False))"

definition peek_wait :: "'h PopHandler \<Rightarrow> u16 \<Rightarrow> bool \<Rightarrow> waiting \<Rightarrow> ('h shm, bool) action" where
  "peek_wait handler timeoutMS owns wait =
     bindE (throw_if ShmException (\<lambda>_. timeoutMS = 0)) (\<lambda>_.
     if \<not> owns then retE True
     else bindE (getE (\<lambda>(h, q). has_data q)) (\<lambda>hd.
          bindE (if \<not> hd then wait_for wait else retE True) (\<lambda>signalled.
          if \<not> signalled then retE True else peek_head handler)))"

definition peek_nowait :: "'h PopHandler \<Rightarrow> u16 \<Rightarrow> bool \<Rightarrow> ('h shm, bool) action" where
  "peek_nowait handler timeoutMS owns =
     bindE (throw_if ShmException (\<lambda>_. timeoutMS = 0)) (\<lambda>_.
     if \<not> owns then retE True
     else bindE (getE (\<lambda>(h, q). has_data q)) (\<lambda>hd.
          if \<not> hd then retE False else peek_head handler))"

end
