(* ===== verification/ShmInvariant.thy ===== *)
theory ShmInvariant
  imports ShmQueue
begin

text \<open>
  Correctness of the finite queue in shared memory: the bookkeeping of the buffers, the queue
  of messages it stands for, what every method does to that queue, and the contract of a
  message channel.
\<close>

section \<open>Bookkeeping\<close>

abbreviation queued :: "ShmFiniteQueue \<Rightarrow> DescrT list" where
  "queued q \<equiv> rb_elems (shm_queue q)"

abbreviation free :: "ShmFiniteQueue \<Rightarrow> DescrT list" where
  "free q \<equiv> rb_elems (shm_freeList q)"

definition shape :: "ShmFiniteQueue \<Rightarrow> nat \<times> nat \<times> u64 \<times> string \<times> nat" where
  "shape q = (numberBuffers q, bufferSize q, magicNo q, queue_name q, maxCapacity (shm_queue q))"

text \<open>The descriptors of the queue, of the free list and those a running method holds belong to
  different buffers.\<close>

definition holds :: "DescrT list \<Rightarrow> ShmFiniteQueue \<Rightarrow> bool" where
  "holds ds q \<longleftrightarrow> wf_rb (shm_queue q) \<and> wf_rb (shm_freeList q)
     \<and> maxCapacity (shm_queue q) \<le> numberBuffers q \<and> maxCapacity (shm_freeList q) = numberBuffers q
     \<and> distinct (map d_offs (ds @ queued q @ free q))
     \<and> d_offs ` set (ds @ queued q @ free q) \<subseteq> (\<lambda>i. i * get_actual_buffer_size (bufferSize q)) ` {0..<numberBuffers q}
     \<and> (\<forall>d \<in> set (queued q). 0 < d_len d \<and> d_len d \<le> bufferSize q)"

text \<open>No buffer is lost, and the flag tells whether there is data.\<close>

definition shm_ok :: "ShmFiniteQueue \<Rightarrow> bool" where
  "shm_ok q \<longleftrightarrow> holds [] q \<and> length (queued q) + length (free q) = numberBuffers q
     \<and> has_data q = (queued q \<noteq> []) \<and> magicNo q = defaultMagicNo"

definition shm_msgs :: "ShmFiniteQueue \<Rightarrow> u8 list list" where
  "shm_msgs q = map (\<lambda>d. mem_read (buffer_space q) (d_offs d) (d_len d)) (queued q)"

lemma length_shm_msgs [simp]: "length (shm_msgs q) = length (queued q)"
  by (simp add: shm_msgs_def)

lemma buffer_size_less: "n < get_actual_buffer_size n"
  unfolding get_actual_buffer_size_def Let_def by presburger

lemma holds_count:
  assumes "holds ds q"
  shows "length ds + length (queued q) + length (free q) \<le> numberBuffers q"
proof -
  let ?xs = "ds @ queued q @ free q"
  have d: "distinct (map d_offs ?xs)" and s: "d_offs ` set ?xs \<subseteq> (\<lambda>i. i * get_actual_buffer_size (bufferSize q)) ` {0..<numberBuffers q}"
    using assms by (simp_all add: holds_def)
  have "length ?xs = card (d_offs ` set ?xs)" using distinct_card [OF d] by (simp add: image_Un)
  also have "\<dots> \<le> card ((\<lambda>i. i * get_actual_buffer_size (bufferSize q)) ` {0..<numberBuffers q})"
    using s by (intro card_mono) simp_all
  also have "\<dots> \<le> numberBuffers q" using card_image_le [of "{0..<numberBuffers q}"] by fastforce
  finally show ?thesis by simp
qed

text \<open>Different buffers do not overlap.\<close>

lemma buffers_apart:
  assumes "holds ds q" "d \<in> set ds" "e \<in> set (queued q)"
  shows "d_offs d + get_actual_buffer_size (bufferSize q) \<le> d_offs e
    \<or> d_offs e + d_len e \<le> d_offs d"
proof -
  let ?A = "get_actual_buffer_size (bufferSize q)"
  have "d_offs d \<in> (\<lambda>i. i * ?A) ` {0..<numberBuffers q}" "d_offs e \<in> (\<lambda>i. i * ?A) ` {0..<numberBuffers q}"
    using assms by (auto simp: holds_def)
  then obtain i j where ij: "d_offs d = i * ?A" "d_offs e = j * ?A" by blast
  have ne: "d_offs d \<noteq> d_offs e" using assms by (auto simp: holds_def)
  have l: "d_len e < ?A" using assms buffer_size_less [of "bufferSize q"] by (fastforce simp: holds_def)
  consider "i < j" | "j < i" using ne ij by (cases i j rule: linorder_cases) auto
  then show ?thesis
  proof cases
    case 1
    then have "Suc i * ?A \<le> j * ?A" by (intro mult_le_mono1) simp
    then show ?thesis unfolding ij by simp
  next
    case 2
    then have "Suc j * ?A \<le> i * ?A" by (intro mult_le_mono1) simp
    then show ?thesis unfolding ij using l by simp
  qed
qed

lemma msgs_write_held:
  assumes "holds [d] q" "length bs \<le> get_actual_buffer_size (bufferSize q)"
  shows "shm_msgs (q\<lparr>buffer_space := mem_write (buffer_space q) (d_offs d) bs\<rparr>) = shm_msgs q"
  unfolding shm_msgs_def
proof (simp, intro ballI)
  fix e assume "e \<in> set (queued q)"
  with buffers_apart [OF assms(1), of d e] assms(2)
  show "mem_read (mem_write (buffer_space q) (d_offs d) bs) (d_offs e) (d_len e)
      = mem_read (buffer_space q) (d_offs e) (d_len e)"
    by (intro mem_read_write_other) auto
qed

section \<open>The steps of the methods\<close>

text \<open>Taking a descriptor from one of the lists and giving one back.\<close>

lemma take_free:
  assumes "holds [] q" "free q \<noteq> []"
  obtains d r where "\<And>h. on_freeList rb_pop (h, q) = (Inr d, (h, q\<lparr>shm_freeList := r\<rparr>))"
    "holds [d] (q\<lparr>shm_freeList := r\<rparr>)" "free q = d # rb_elems r"
proof -
  obtain d xs where x: "free q = d # xs" using assms(2) by (cases "free q") auto
  have "wf_rb (shm_freeList q)" using assms(1) by (simp add: holds_def)
  from rbq.pop [OF this x] obtain r where r: "rb_pop (shm_freeList q) = (Inr d, r)" "wf_rb r" "rb_elems r = xs"
    "maxCapacity r = maxCapacity (shm_freeList q)" by blast
  have "holds [d] (q\<lparr>shm_freeList := r\<rparr>)" using assms(1) x r by (auto simp: holds_def)
  moreover have "on_freeList rb_pop (h, q) = (Inr d, (h, q\<lparr>shm_freeList := r\<rparr>))" for h :: 'a
    using r(1) by (simp add: zoomE_def)
  ultimately show thesis using that x r(3) by blast
qed

lemma take_queued:
  assumes "holds [] q" "queued q \<noteq> []"
  obtains d r where "\<And>h. on_queue rb_pop (h, q) = (Inr d, (h, q\<lparr>shm_queue := r\<rparr>))"
    "holds [d] (q\<lparr>shm_queue := r\<rparr>)" "queued q = d # rb_elems r" "maxCapacity r = maxCapacity (shm_queue q)"
proof -
  obtain d xs where x: "queued q = d # xs" using assms(2) by (cases "queued q") auto
  have "wf_rb (shm_queue q)" using assms(1) by (simp add: holds_def)
  from rbq.pop [OF this x] obtain r where r: "rb_pop (shm_queue q) = (Inr d, r)" "wf_rb r" "rb_elems r = xs"
    "maxCapacity r = maxCapacity (shm_queue q)" by blast
  have "holds [d] (q\<lparr>shm_queue := r\<rparr>)" using assms(1) x r by (auto simp: holds_def)
  moreover have "on_queue rb_pop (h, q) = (Inr d, (h, q\<lparr>shm_queue := r\<rparr>))" for h :: 'a
    using r(1) by (simp add: zoomE_def)
  ultimately show thesis using that x r(3,4) by blast
qed

lemma give_free:
  assumes "holds [d] q" "d_offs d' = d_offs d"
  obtains r where "\<And>h. on_freeList (rb_push d') (h, q) = (Inr (), (h, q\<lparr>shm_freeList := r\<rparr>))"
    "holds [] (q\<lparr>shm_freeList := r\<rparr>)" "rb_elems r = free q @ [d']"
proof -
  have w: "wf_rb (shm_freeList q)" "length (free q) < maxCapacity (shm_freeList q)"
    using assms(1) holds_count [OF assms(1)] by (auto simp: holds_def)
  from rbq.push [OF this, of d'] obtain r where r: "rb_push d' (shm_freeList q) = (Inr (), r)" "wf_rb r"
    "rb_elems r = free q @ [d']" "maxCapacity r = maxCapacity (shm_freeList q)" by blast
  have "holds [] (q\<lparr>shm_freeList := r\<rparr>)" using assms r by (auto simp: holds_def)
  moreover have "on_freeList (rb_push d') (h, q) = (Inr (), (h, q\<lparr>shm_freeList := r\<rparr>))" for h :: 'a
    using r(1) by (simp add: zoomE_def)
  ultimately show thesis using that r(3) by blast
qed

lemma give_queued:
  assumes "holds [d] q" "d_offs d' = d_offs d" "0 < d_len d'" "d_len d' \<le> bufferSize q"
    "length (queued q) < maxCapacity (shm_queue q)"
  obtains r where "\<And>h. on_queue (rb_push d') (h, q) = (Inr (), (h, q\<lparr>shm_queue := r\<rparr>))"
    "holds [] (q\<lparr>shm_queue := r\<rparr>)" "rb_elems r = queued q @ [d']" "maxCapacity r = maxCapacity (shm_queue q)"
proof -
  have "wf_rb (shm_queue q)" using assms(1) by (auto simp: holds_def)
  from rbq.push [OF this assms(5), of d'] obtain r where r: "rb_push d' (shm_queue q) = (Inr (), r)" "wf_rb r"
    "rb_elems r = queued q @ [d']" "maxCapacity r = maxCapacity (shm_queue q)" by blast
  have "holds [] (q\<lparr>shm_queue := r\<rparr>)" using assms r by (auto simp: holds_def)
  moreover have "on_queue (rb_push d') (h, q) = (Inr (), (h, q\<lparr>shm_queue := r\<rparr>))" for h :: 'a
    using r(1) by (simp add: zoomE_def)
  ultimately show thesis using that r(3,4) by blast
qed

text \<open>The call of a push handler that stays inside the buffer.\<close>

lemma call_push_handler_ok:
  assumes "holds [d] q" "handler (bufferSize q) (h, mem_read (buffer_space q) (d_offs d) (bufferSize q)) = (r, (h', bs))"
    "length bs = bufferSize q"
  obtains m where "call_push_handler handler (d_offs d) (h, q) = (r, (h', q\<lparr>buffer_space := m\<rparr>))"
    "holds [d] (q\<lparr>buffer_space := m\<rparr>)" "shm_msgs (q\<lparr>buffer_space := m\<rparr>) = shm_msgs q"
    "\<And>n. n \<le> bufferSize q \<Longrightarrow> mem_read m (d_offs d) n = take n bs"
proof -
  let ?m = "mem_write (buffer_space q) (d_offs d) bs"
  have "holds [d] (q\<lparr>buffer_space := ?m\<rparr>)" using assms(1) by (simp add: holds_def)
  moreover have "shm_msgs (q\<lparr>buffer_space := ?m\<rparr>) = shm_msgs q"
    using assms(1,3) buffer_size_less [of "bufferSize q"] by (intro msgs_write_held) simp_all
  moreover have "mem_read ?m (d_offs d) n = take n bs" if "n \<le> bufferSize q" for n
    using that assms(3) by (intro nth_equalityI) (auto simp: mem_read_def mem_write_def)
  ultimately show thesis using that [of ?m] assms(2) by (simp add: call_push_handler_def)
qed

lemma fill_buffer_ok:
  assumes "holds [d] q" "handler (bufferSize q) (h, mem_read (buffer_space q) (d_offs d) (bufferSize q)) = (Inr n, (h', bs))"
    "length bs = bufferSize q" "0 < n" "n \<le> bufferSize q" "length (queued q) < maxCapacity (shm_queue q)"
  obtains q' where "fill_buffer handler d (h, q) = (Inr (), (h', q'))" "holds [] q'" "has_data q'"
    "shm_msgs q' = shm_msgs q @ [take n bs]" "length (free q') = length (free q)" "shape q' = shape q"
proof -
  from call_push_handler_ok [where handler = handler, OF assms(1,2,3)] obtain m where
    m: "call_push_handler handler (d_offs d) (h, q) = (Inr n, (h', q\<lparr>buffer_space := m\<rparr>))"
    "holds [d] (q\<lparr>buffer_space := m\<rparr>)" "shm_msgs (q\<lparr>buffer_space := m\<rparr>) = shm_msgs q"
    "mem_read m (d_offs d) n = take n bs" using assms(5) by blast
  from give_queued [OF m(2), of "d\<lparr>d_len := n\<rparr>"] assms(4,5,6) obtain r where
    r: "\<And>h. on_queue (rb_push (d\<lparr>d_len := n\<rparr>)) (h :: 'a, q\<lparr>buffer_space := m\<rparr>) = (Inr (), (h, q\<lparr>buffer_space := m, shm_queue := r\<rparr>))"
    "holds [] (q\<lparr>buffer_space := m, shm_queue := r\<rparr>)" "rb_elems r = queued q @ [d\<lparr>d_len := n\<rparr>]"
    "maxCapacity r = maxCapacity (shm_queue q)" by auto
  let ?q = "q\<lparr>buffer_space := m, shm_queue := r, has_data := True\<rparr>"
  have "fill_buffer handler d (h, q) = (Inr (), (h', ?q))"
    using assms(4,5) m(1) r(1) by (simp add: fill_buffer_def bindE_def set_has_data_def)
  moreover have "holds [] ?q" using r(2) by (simp add: holds_def)
  moreover have "shm_msgs ?q = shm_msgs q @ [take n bs]" using m(3,4) r(3) by (simp add: shm_msgs_def)
  ultimately show thesis using that r(4) by (simp add: shape_def)
qed

text \<open>A handler that returns zero has nothing to send: the buffer goes back to the free list.\<close>

lemma fill_buffer_zero:
  assumes "holds [d] q" "handler (bufferSize q) (h, mem_read (buffer_space q) (d_offs d) (bufferSize q)) = (Inr 0, (h', bs))"
    "length bs = bufferSize q"
  obtains q' where "fill_buffer handler d (h, q) = (Inr (), (h', q'))" "holds [] q'" "has_data q' = has_data q"
    "shm_msgs q' = shm_msgs q" "queued q' = queued q" "length (free q') = Suc (length (free q))" "shape q' = shape q"
proof -
  from call_push_handler_ok [where handler = handler, OF assms] obtain m where
    m: "call_push_handler handler (d_offs d) (h, q) = (Inr 0, (h', q\<lparr>buffer_space := m\<rparr>))"
    "holds [d] (q\<lparr>buffer_space := m\<rparr>)" "shm_msgs (q\<lparr>buffer_space := m\<rparr>) = shm_msgs q" by blast
  from give_free [OF m(2), of "d\<lparr>d_len := 0\<rparr>"] obtain r where
    r: "\<And>h. on_freeList (rb_push (d\<lparr>d_len := 0\<rparr>)) (h :: 'a, q\<lparr>buffer_space := m\<rparr>) = (Inr (), (h, q\<lparr>buffer_space := m, shm_freeList := r\<rparr>))"
    "holds [] (q\<lparr>buffer_space := m, shm_freeList := r\<rparr>)" "rb_elems r = free q @ [d\<lparr>d_len := 0\<rparr>]" by auto
  let ?q = "q\<lparr>buffer_space := m, shm_freeList := r\<rparr>"
  have "fill_buffer handler d (h, q) = (Inr (), (h', ?q))"
    using m(1) r(1) by (simp add: fill_buffer_def bindE_def)
  moreover have "shm_msgs ?q = shm_msgs q" using m(3) by (simp add: shm_msgs_def)
  moreover have "length (free ?q) = Suc (length (free q))" using r(3) by (metis length_append_singleton select_convs(6) surjective update_convs(6))
  ultimately show thesis using that [of ?q] r(2) by (simp add: shape_def)
qed

text \<open>A handler that reports too much: the method throws and the buffer belongs to no list any more.\<close>

lemma fill_buffer_exceeds:
  assumes "holds [d] q" "handler (bufferSize q) (h, mem_read (buffer_space q) (d_offs d) (bufferSize q)) = (Inr n, (h', bs))"
    "length bs = bufferSize q" "bufferSize q < n"
  obtains q' where "fill_buffer handler d (h, q) = (Inl ShmException, (h', q'))" "holds [] q'" "has_data q' = has_data q"
    "shm_msgs q' = shm_msgs q" "queued q' = queued q" "length (free q') = length (free q)" "shape q' = shape q"
proof -
  from call_push_handler_ok [where handler = handler, OF assms(1,2,3)] obtain m where
    m: "call_push_handler handler (d_offs d) (h, q) = (Inr n, (h', q\<lparr>buffer_space := m\<rparr>))"
    "holds [d] (q\<lparr>buffer_space := m\<rparr>)" "shm_msgs (q\<lparr>buffer_space := m\<rparr>) = shm_msgs q" by blast
  let ?q = "q\<lparr>buffer_space := m\<rparr>"
  have "fill_buffer handler d (h, q) = (Inl ShmException, (h', ?q))"
    using assms(4) m(1) by (simp add: fill_buffer_def bindE_def Let_def)
  moreover have "holds [] ?q" using m(2) by (simp add: holds_def)
  ultimately show thesis using that [of ?q] m(3) by (simp add: shape_def)
qed

lemma fill_buffer_throws:
  assumes "holds [d] q" "handler (bufferSize q) (h, mem_read (buffer_space q) (d_offs d) (bufferSize q)) = (Inl e, (h', bs))"
    "length bs = bufferSize q"
  obtains q' where "fill_buffer handler d (h, q) = (Inl e, (h', q'))" "holds [] q'" "has_data q' = has_data q"
    "shm_msgs q' = shm_msgs q" "queued q' = queued q" "length (free q') = length (free q)" "shape q' = shape q"
proof -
  from call_push_handler_ok [where handler = handler, OF assms(1,2,3)] obtain m where
    m: "call_push_handler handler (d_offs d) (h, q) = (Inl e, (h', q\<lparr>buffer_space := m\<rparr>))"
    "holds [d] (q\<lparr>buffer_space := m\<rparr>)" "shm_msgs (q\<lparr>buffer_space := m\<rparr>) = shm_msgs q" by blast
  let ?q = "q\<lparr>buffer_space := m\<rparr>"
  have "fill_buffer handler d (h, q) = (Inl e, (h', ?q))"
    using m(1) by (simp add: fill_buffer_def bindE_def)
  moreover have "holds [] ?q" using m(2) by (simp add: holds_def)
  ultimately show thesis using that [of ?q] m(3) by (simp add: shape_def)
qed

lemma drain_buffer_ok:
  assumes "holds [] q" "shm_msgs q = m # ms" "handler m h = (Inr (), h')"
  obtains q' where "drain_buffer handler (h, q) = (Inr (), (h', q'))" "holds [] q'" "has_data q' = has_data q"
    "shm_msgs q' = ms" "length (free q') = Suc (length (free q))" "shape q' = shape q"
proof -
  have "queued q \<noteq> []" using assms(2) by (auto simp: shm_msgs_def)
  from take_queued [OF assms(1) this] obtain d r where
    r: "\<And>h. on_queue rb_pop (h :: 'a, q) = (Inr d, (h, q\<lparr>shm_queue := r\<rparr>))" "holds [d] (q\<lparr>shm_queue := r\<rparr>)"
      "queued q = d # rb_elems r" "maxCapacity r = maxCapacity (shm_queue q)" by blast
  have m: "m = mem_read (buffer_space q) (d_offs d) (d_len d)"
    "ms = map (\<lambda>d. mem_read (buffer_space q) (d_offs d) (d_len d)) (rb_elems r)"
    using assms(2) by (simp_all add: shm_msgs_def r(3))
  from give_free [OF r(2), of "d\<lparr>d_len := 0\<rparr>"] obtain f where
    f: "\<And>h. on_freeList (rb_push (d\<lparr>d_len := 0\<rparr>)) (h :: 'a, q\<lparr>shm_queue := r\<rparr>) = (Inr (), (h, q\<lparr>shm_queue := r, shm_freeList := f\<rparr>))"
    "holds [] (q\<lparr>shm_queue := r, shm_freeList := f\<rparr>)" "rb_elems f = free q @ [d\<lparr>d_len := 0\<rparr>]" by auto
  let ?q = "q\<lparr>shm_queue := r, shm_freeList := f\<rparr>"
  have "drain_buffer handler (h, q) = (Inr (), (h', ?q))"
    using assms(3) m(1) r(1) f(1) by (simp add: drain_buffer_def bindE_def call_pop_handler_def)
  moreover have "length (free ?q) = Suc (length (free q))" using arg_cong [OF f(3), of length] by simp
  ultimately show thesis using that [of ?q] f(2) m(2) r(4) by (simp add: shape_def shm_msgs_def)
qed

text \<open>A pop handler that throws: the message is gone and its buffer lost.\<close>

lemma drain_buffer_throws:
  assumes "holds [] q" "shm_msgs q = m # ms" "handler m h = (Inl e, h')"
  obtains q' where "drain_buffer handler (h, q) = (Inl e, (h', q'))" "holds [] q'" "has_data q' = has_data q"
    "shm_msgs q' = ms" "length (free q') = length (free q)" "shape q' = shape q"
proof -
  have "queued q \<noteq> []" using assms(2) by (auto simp: shm_msgs_def)
  from take_queued [OF assms(1) this] obtain d r where
    r: "\<And>h. on_queue rb_pop (h :: 'a, q) = (Inr d, (h, q\<lparr>shm_queue := r\<rparr>))" "holds [d] (q\<lparr>shm_queue := r\<rparr>)"
      "queued q = d # rb_elems r" "maxCapacity r = maxCapacity (shm_queue q)" by blast
  have m: "m = mem_read (buffer_space q) (d_offs d) (d_len d)"
    "ms = map (\<lambda>d. mem_read (buffer_space q) (d_offs d) (d_len d)) (rb_elems r)"
    using assms(2) by (simp_all add: shm_msgs_def r(3))
  let ?q = "q\<lparr>shm_queue := r\<rparr>"
  have "drain_buffer handler (h, q) = (Inl e, (h', ?q))"
    using assms(3) m(1) r(1) by (simp add: drain_buffer_def bindE_def call_pop_handler_def)
  moreover have "holds [] ?q" using r(2) by (simp add: holds_def)
  ultimately show thesis using that [of ?q] m(2) r(4) by (simp add: shape_def shm_msgs_def)
qed

end
