(* ===== verification/ShmChannel.thy ===== *)
theory ShmChannel
  imports ShmInvariant
begin

text \<open>
  The methods of the shared memory queue on the queue of messages it stands for, and the
  contract \<open>message_channel\<close> between the process that pushes and the one that pops.
\<close>

section \<open>The methods on the messages\<close>

lemma bindE_step: "bindE (throw_if e P) f s = (if P s then (Inl e, s) else f () s)" "bindE (getE g) k s = k (g s) s"
  by (simp_all add: bindE_def)

lemma bindE_tail: "bindE m f s = (Inr y, s') \<Longrightarrow> bindE m (\<lambda>x. bindE (f x) g) s = g y s'"
  by (simp add: bindE_assoc [symmetric] bindE_Inr)

lemma shm_okE:
  assumes "shm_ok q"
  obtains "holds [] q" "length (shm_msgs q) + length (free q) = numberBuffers q" "has_data q = (shm_msgs q \<noteq> [])"
    "magicNo q = defaultMagicNo" "rb_isFull (shm_queue q) = (length (shm_msgs q) = maxCapacity (shm_queue q))"
    "rb_isEmpty (shm_queue q) = (shm_msgs q = [])" "length (shm_msgs q) \<le> maxCapacity (shm_queue q)"
    "0 < maxCapacity (shm_queue q)" "maxCapacity (shm_queue q) \<le> numberBuffers q"
    "length (queued q) = length (shm_msgs q)"
proof -
  have w: "wf_rb (shm_queue q)" using assms by (simp add: shm_ok_def holds_def)
  have e: "shm_msgs q = [] \<longleftrightarrow> queued q = []" by (simp add: shm_msgs_def)
  show thesis
    using assms rbq.bounded [OF w] w
    by (intro that) (simp_all add: shm_ok_def holds_def rbq.is_full [OF w] rbq.is_empty [OF w] e wf_rb_def)
qed

lemma shm_okI:
  assumes "shm_ok q" "holds [] q'" "length (shm_msgs q') + length (free q') = length (shm_msgs q) + length (free q)"
    "shape q' = shape q" "has_data q' = (shm_msgs q' \<noteq> [])"
  shows "shm_ok q'"
  using assms by (auto simp: shm_ok_def shape_def shm_msgs_def)

text \<open>What a push handler does that copies a message of \<open>n\<close> bytes into the buffer.\<close>

definition writes :: "'h PushHandler \<Rightarrow> 'h \<Rightarrow> nat \<Rightarrow> u8 list \<Rightarrow> 'h \<Rightarrow> bool" where
  "writes handler h sz msg h' \<longleftrightarrow> length msg \<le> sz
     \<and> (\<forall>bs. length bs = sz \<longrightarrow> handler sz (h, bs) = (Inr (length msg), (h', msg @ drop (length msg) bs)))"

lemma push_into_free:
  assumes "shm_ok q" "writes handler h (bufferSize q) m h'" "m \<noteq> []" "length (shm_msgs q) < maxCapacity (shm_queue q)"
  obtains q' where "bindE (on_freeList rb_pop) (fill_buffer handler) (h, q) = (Inr (), (h', q'))"
    "shm_ok q'" "shm_msgs q' = shm_msgs q @ [m]" "shape q' = shape q"
proof -
  from assms(1) have q: "holds [] q" "length (shm_msgs q) + length (free q) = numberBuffers q"
    "maxCapacity (shm_queue q) \<le> numberBuffers q" by (auto elim: shm_okE)
  have "free q \<noteq> []" using q(2,3) assms(4) by (auto simp del: length_rb_elems)
  from take_free [OF q(1) this] obtain d r where
    d: "\<And>h. on_freeList rb_pop (h :: 'a, q) = (Inr d, (h, q\<lparr>shm_freeList := r\<rparr>))" "holds [d] (q\<lparr>shm_freeList := r\<rparr>)"
      "free q = d # rb_elems r" by blast
  let ?q = "q\<lparr>shm_freeList := r\<rparr>"
  let ?bs = "mem_read (buffer_space q) (d_offs d) (bufferSize q)"
  have h: "handler (bufferSize ?q) (h, mem_read (buffer_space ?q) (d_offs d) (bufferSize ?q))
      = (Inr (length m), (h', m @ drop (length m) ?bs))" "length m \<le> bufferSize q"
    using assms(2) by (simp_all add: writes_def)
  from fill_buffer_ok [where handler = handler, OF d(2) h(1)] h(2) assms(3,4) obtain q' where
    q': "fill_buffer handler d (h, ?q) = (Inr (), (h', q'))" "holds [] q'" "has_data q'"
      "shm_msgs q' = shm_msgs ?q @ [m]" "length (free q') = length (free ?q)" "shape q' = shape ?q"
    by auto
  have m: "shm_msgs ?q = shm_msgs q" "shape ?q = shape q" by (simp_all add: shm_msgs_def shape_def)
  have "shm_ok q'"
    using q' m d(3) by (intro shm_okI [OF assms(1)]) auto
  then show thesis using that q' m d(1) by (simp add: bindE_def)
qed

lemma push_nowait_ok:
  assumes "shm_ok q" "writes handler h (bufferSize q) m h'" "m \<noteq> []" "length (shm_msgs q) < maxCapacity (shm_queue q)"
    "t \<noteq> 0"
  obtains q' where "push_nowait handler t True (h, q) = (Inr (False, False), (h', q'))"
    "shm_ok q'" "shm_msgs q' = shm_msgs q @ [m]" "shape q' = shape q"
proof -
  from push_into_free [OF assms(1-4)] obtain q' where
    q': "bindE (on_freeList rb_pop) (fill_buffer handler) (h, q) = (Inr (), (h', q'))"
      "shm_ok q'" "shm_msgs q' = shm_msgs q @ [m]" "shape q' = shape q" by blast
  have "\<not> rb_isFull (shm_queue q)" using assms(1,4) by (auto elim: shm_okE)
  then have "push_nowait handler t True (h, q) = (Inr (False, False), (h', q'))"
    using assms(5) by (simp add: push_nowait_def bindE_step bindE_tail [OF q'(1)])
  with q' show thesis using that by blast
qed

lemma push_nowait_full:
  assumes "shm_ok q" "length (shm_msgs q) = maxCapacity (shm_queue q)" "t \<noteq> 0"
  shows "push_nowait handler t True (h, q) = (Inr (False, True), (h, q))"
  using assms(1,2,3) by (elim shm_okE) (simp add: push_nowait_def bindE_def)

lemma push_wait_ok:
  assumes "shm_ok q" "writes handler h (bufferSize q) m h'" "m \<noteq> []" "shm_msgs q = []" "t \<noteq> 0"
  obtains q' where "push_wait handler t True wait (h, q) = (Inr False, (h', q'))"
    "shm_ok q'" "shm_msgs q' = [m]" "shape q' = shape q"
proof -
  have "length (shm_msgs q) < maxCapacity (shm_queue q)" "\<not> has_data q"
    using assms(1,4) by (auto elim!: shm_okE)
  from push_into_free [OF assms(1-3) this(1)] this(2) obtain q' where
    q': "bindE (on_freeList rb_pop) (fill_buffer handler) (h, q) = (Inr (), (h', q'))" "\<not> has_data q"
      "shm_ok q'" "shm_msgs q' = [m]" "shape q' = shape q" using assms(4) by auto
  then have "push_wait handler t True wait (h, q) = (Inr False, (h', q'))"
    using assms(5) by (simp add: push_wait_def bindE_step bindE_tail [OF q'(1)])
  with q' show thesis using that by blast
qed

text \<open>A writer that finds any data in the queue, full or not, waits; without a signal it gives up.\<close>

lemma push_wait_blocked:
  assumes "has_data q" "wait q = (False, q')" "t \<noteq> 0"
  shows "push_wait handler t True wait (h, q) = (Inr True, (h, q'))"
  using assms by (simp add: push_wait_def bindE_def wait_for_def)

lemma push_wait_force_ok:
  assumes "shm_ok q" "writes handler h (bufferSize q) m h'" "m \<noteq> []" "t \<noteq> 0"
  obtains q' where "push_wait_force handler t True (h, q) = (Inr False, (h', q'))"
    "shm_ok q'" "shape q' = shape q"
    "shm_msgs q' = (if length (shm_msgs q) = maxCapacity (shm_queue q) then tl (shm_msgs q) else shm_msgs q) @ [m]"
proof (cases "length (shm_msgs q) = maxCapacity (shm_queue q)")
  case False
  then have l: "length (shm_msgs q) < maxCapacity (shm_queue q)" "\<not> rb_isFull (shm_queue q)"
    using assms(1) by (auto elim!: shm_okE)
  from push_into_free [OF assms(1-3) l(1)] obtain q' where
    q': "bindE (on_freeList rb_pop) (fill_buffer handler) (h, q) = (Inr (), (h', q'))"
      "shm_ok q'" "shm_msgs q' = shm_msgs q @ [m]" "shape q' = shape q" by blast
  then have "push_wait_force handler t True (h, q) = (Inr False, (h', q'))"
    using assms(4) l(2) by (simp add: push_wait_force_def bindE_step bindE_tail [OF q'(1)])
  with q' show thesis using that False by simp
next
  case True
  from assms(1) have q: "holds [] q" "0 < maxCapacity (shm_queue q)" "has_data q = (shm_msgs q \<noteq> [])"
    "length (queued q) = length (shm_msgs q)"
    by (auto elim: shm_okE simp del: length_rb_elems)
  have full: "rb_isFull (shm_queue q)" using assms(1) True by (auto elim: shm_okE)
  have "queued q \<noteq> []" using q(2,4) True by (auto simp del: length_rb_elems)
  from take_queued [OF q(1) this] obtain d r where
    d: "\<And>h. on_queue rb_pop (h :: 'a, q) = (Inr d, (h, q\<lparr>shm_queue := r\<rparr>))" "holds [d] (q\<lparr>shm_queue := r\<rparr>)"
      "queued q = d # rb_elems r" "maxCapacity r = maxCapacity (shm_queue q)" by blast
  let ?q = "q\<lparr>shm_queue := r\<rparr>"
  let ?bs = "mem_read (buffer_space q) (d_offs d) (bufferSize q)"
  have m: "shm_msgs ?q = tl (shm_msgs q)" "shape ?q = shape q" using d(3,4) by (simp_all add: shm_msgs_def shape_def)
  have h: "handler (bufferSize ?q) (h, mem_read (buffer_space ?q) (d_offs d) (bufferSize ?q))
      = (Inr (length m), (h', m @ drop (length m) ?bs))" "length m \<le> bufferSize q"
    using assms(2) by (simp_all add: writes_def)
  have "length (queued ?q) < maxCapacity (shm_queue ?q)"
    using d(3,4) True q(4) by (simp del: length_rb_elems)
  with fill_buffer_ok [where handler = handler, OF d(2) h(1)] h(2) assms(3) obtain q' where
    q': "fill_buffer handler d (h, ?q) = (Inr (), (h', q'))" "holds [] q'" "has_data q'"
      "shm_msgs q' = shm_msgs ?q @ [m]" "length (free q') = length (free ?q)" "shape q' = shape ?q"
    by auto
  have "length (shm_msgs q) = Suc (length (tl (shm_msgs q)))" using True q(2) by (cases "shm_msgs q") auto
  then have "shm_ok q'"
    using q' m by (intro shm_okI [OF assms(1)]) auto
  moreover have "push_wait_force handler t True (h, q) = (Inr False, (h', q'))"
    using assms(4) full d(1) q'(1) by (simp add: push_wait_force_def bindE_def)
  ultimately show thesis using that q' m True by simp
qed

section \<open>Reading\<close>

lemma pop_head_ok:
  assumes "shm_ok q" "shm_msgs q = m # ms" "handler m h = (Inr (), h')"
  obtains q' where "pop_head handler (h, q) = (Inr (False, ms \<noteq> []), (h', q'))" "shm_ok q'" "shm_msgs q' = ms" "shape q' = shape q"
proof -
  have q: "holds [] q" "has_data q" using assms(1,2) by (auto elim: shm_okE)
  from drain_buffer_ok [where handler = handler, OF q(1) assms(2,3)] obtain q1 where
    q1: "drain_buffer handler (h, q) = (Inr (), (h', q1))" "holds [] q1" "has_data q1 = has_data q"
    "shm_msgs q1 = ms" "length (free q1) = Suc (length (free q))" "shape q1 = shape q" by blast
  have l: "length (shm_msgs q) = Suc (length (shm_msgs q1))" using assms(2) q1(4) by simp
  have w: "wf_rb (shm_queue q1)" using q1(2) by (simp add: holds_def)
  have e: "rb_isEmpty (shm_queue q1) = (ms = [])"
    using rbq.is_empty [OF w] q1(4) by (auto simp: shm_msgs_def)
  show thesis
  proof (cases "ms = []")
    case False
    then have "pop_head handler (h, q) = (Inr (False, True), (h', q1))"
      using q1(1) e by (simp add: pop_head_def bindE_def)
    moreover have "shm_ok q1" using q1 l q(2) False by (intro shm_okI [OF assms(1)]) auto
    ultimately show ?thesis using that q1(4,6) False by simp
  next
    case True
    let ?q = "q1\<lparr>has_data := False\<rparr>"
    have "pop_head handler (h, q) = (Inr (False, False), (h', ?q))"
      using q1(1) e True by (simp add: pop_head_def bindE_def set_has_data_def)
    moreover have "holds [] ?q" "shape ?q = shape q1" "shm_msgs ?q = ms"
      using q1(2,4) by (simp_all add: holds_def shape_def shm_msgs_def)
    moreover from this have "shm_ok ?q" using q1 l True by (intro shm_okI [OF assms(1)]) auto
    ultimately show ?thesis using that q1(6) True by simp
  qed
qed

lemma pop_nowait_ok:
  assumes "shm_ok q" "shm_msgs q = m # ms" "handler m h = (Inr (), h')" "t \<noteq> 0"
  obtains q' where "pop_nowait handler t True (h, q) = (Inr (False, ms \<noteq> []), (h', q'))"
    "shm_ok q'" "shm_msgs q' = ms" "shape q' = shape q"
proof -
  have "has_data q" "magicNo q = defaultMagicNo" using assms(1,2) by (auto elim: shm_okE)
  then have "pop_nowait handler t True (h, q) = pop_head handler (h, q)"
    using assms(4) by (simp add: pop_nowait_def assert_magicno_def bindE_step)
  then show thesis using that pop_head_ok [where handler = handler, OF assms(1-3)] by metis
qed

lemma pop_nowait_empty:
  assumes "shm_ok q" "shm_msgs q = []" "t \<noteq> 0"
  shows "pop_nowait handler t True (h, q) = (Inr (False, False), (h, q))"
proof -
  have "\<not> has_data q" "magicNo q = defaultMagicNo" using assms(1,2) by (auto elim!: shm_okE)
  then show ?thesis using assms(3) by (simp add: pop_nowait_def assert_magicno_def bindE_step)
qed

lemma pop_wait_ok:
  assumes "shm_ok q" "shm_msgs q = m # ms" "handler m h = (Inr (), h')" "t \<noteq> 0"
  obtains q' where "pop_wait handler t True wait (h, q) = (Inr (False, ms \<noteq> []), (h', q'))"
    "shm_ok q'" "shm_msgs q' = ms" "shape q' = shape q"
proof -
  have "has_data q" using assms(1,2) by (auto elim: shm_okE)
  then have "pop_wait handler t True wait (h, q) = pop_head handler (h, q)"
    using assms(4) by (simp add: pop_wait_def bindE_step)
  then show thesis using that pop_head_ok [where handler = handler, OF assms(1-3)] by metis
qed

text \<open>Peeking gives the same message and leaves the queue as it is.\<close>

lemma peek_head_ok:
  assumes "shm_ok q" "shm_msgs q = m # ms"
  shows "peek_head handler (h, q) = (case handler m h of (Inl e, h') \<Rightarrow> (Inl e, (h', q)) | (Inr _, h') \<Rightarrow> (Inr False, (h', q)))"
proof -
  have w: "wf_rb (shm_queue q)" using assms(1) by (auto simp: shm_ok_def holds_def)
  obtain d ds where d: "queued q = d # ds" using assms(2) by (cases "queued q") (auto simp: shm_msgs_def)
  have "m = mem_read (buffer_space q) (d_offs d) (d_len d)" using assms(2) d by (simp add: shm_msgs_def)
  moreover have "rb_peek (shm_queue q) = (Inr d, shm_queue q)" by (rule rbq.peek [OF w d])
  ultimately show ?thesis
    by (simp add: peek_head_def bindE_def zoomE_def call_pop_handler_def split: prod.split sum.split)
qed

lemma peek_nowait_ok:
  assumes "shm_ok q" "shm_msgs q = m # ms" "handler m h = (Inr (), h')" "t \<noteq> 0"
  shows "peek_nowait handler t True (h, q) = (Inr False, (h', q))"
proof -
  have "has_data q" using assms(1,2) by (auto elim: shm_okE)
  then show ?thesis using assms(3,4) peek_head_ok [OF assms(1,2), of handler h] by (simp add: peek_nowait_def bindE_step)
qed

text \<open>Reading everything handles the messages in their order and leaves an empty queue.\<close>

lemma drain_all_ok:
  assumes "holds [] q" "forE handler (shm_msgs q) h = (Inr (), h')" "length (shm_msgs q) \<le> n"
  shows "\<exists>q'. drain_all handler n (h, q) = (Inr (), (h', q')) \<and> holds [] q' \<and> shm_msgs q' = [] \<and> shape q' = shape q
    \<and> length (free q') = length (free q) + length (shm_msgs q)"
  using assms
proof (induction n arbitrary: q h)
  case 0
  then have "shm_msgs q = []" by (metis le_0_eq length_0_conv)
  with 0 show ?case by (intro exI [of _ q]) simp
next
  case (Suc n)
  have w: "wf_rb (shm_queue q)" using Suc.prems(1) by (simp add: holds_def)
  have e: "rb_isEmpty (shm_queue q) = (shm_msgs q = [])" using rbq.is_empty [OF w] by (simp add: shm_msgs_def)
  show ?case
  proof (cases "shm_msgs q")
    case Nil
    with Suc.prems e show ?thesis by (intro exI [of _ q]) simp
  next
    case (Cons m ms)
    with Suc.prems(2) obtain h1 where h1: "handler m h = (Inr (), h1)" "forE handler ms h1 = (Inr (), h')"
      by (auto split: prod.splits sum.splits)
    from drain_buffer_ok [where handler = handler, OF Suc.prems(1) Cons h1(1)] obtain q1 where
      q1: "drain_buffer handler (h, q) = (Inr (), (h1, q1))" "holds [] q1" "has_data q1 = has_data q"
      "shm_msgs q1 = ms" "length (free q1) = Suc (length (free q))" "shape q1 = shape q" by blast
    from Suc.IH [OF q1(2), of h1] q1(4) h1(2) Suc.prems(3) Cons obtain q' where
      "drain_all handler n (h1, q1) = (Inr (), (h', q'))" "holds [] q'" "shm_msgs q' = []" "shape q' = shape q1"
      "length (free q') = length (free q1) + length ms" by (auto simp del: length_shm_msgs)
    with q1 Cons e show ?thesis
      by (intro exI [of _ q']) (simp add: bindE_def del: length_shm_msgs length_rb_elems)
  qed
qed

lemma popall_nowait_ok:
  assumes "shm_ok q" "forE handler (shm_msgs q) h = (Inr (), h')" "t \<noteq> 0"
  obtains q' where "popall_nowait handler t True (h, q) = (Inr False, (h', q'))" "shm_ok q'" "shm_msgs q' = []"
    "shape q' = shape q"
proof (cases "shm_msgs q = []")
  case True
  then have "\<not> has_data q" using assms(1) by (auto elim!: shm_okE)
  with True assms show ?thesis using that [of q] by (simp add: popall_nowait_def bindE_step)
next
  case False
  have q: "holds [] q" "has_data q" using assms(1) False by (auto elim: shm_okE)
  have w: "wf_rb (shm_queue q)" using q(1) by (simp add: holds_def)
  have n: "length (shm_msgs q) \<le> rb_stored_elements (shm_queue q)" by (simp add: rbq.stored [OF w])
  from drain_all_ok [OF q(1) assms(2) n] obtain q1 where
    q1: "drain_all handler (rb_stored_elements (shm_queue q)) (h, q) = (Inr (), (h', q1))" "holds [] q1"
      "shm_msgs q1 = []" "shape q1 = shape q" "length (free q1) = length (free q) + length (shm_msgs q)" by blast
  let ?q = "q1\<lparr>has_data := False\<rparr>"
  have "popall_nowait handler t True (h, q) = (Inr False, (h', ?q))"
    using q(2) assms(3) q1(1) by (simp add: popall_nowait_def pop_every_def bindE_step) (simp add: bindE_def set_has_data_def)
  moreover have m: "holds [] ?q" "shape ?q = shape q" "shm_msgs ?q = []"
    using q1(2-4) by (simp_all add: holds_def shape_def shm_msgs_def)
  moreover have "shm_ok ?q" using m q1(5) by (intro shm_okI [OF assms(1)]) (simp_all del: length_shm_msgs length_rb_elems)
  ultimately show ?thesis using that by blast
qed

section \<open>Construction and reset\<close>

lemma forE_push_free:
  "forE (\<lambda>i. zoomE shm_freeList (\<lambda>r q. q\<lparr>shm_freeList := r\<rparr>) (rb_push (g i))) xs q
    = (case forE rb_push (map g xs) (shm_freeList q) of (r, f) \<Rightarrow> (r, q\<lparr>shm_freeList := f\<rparr>))"
  by (induction xs arbitrary: q) (simp_all add: zoomE_def split: prod.split sum.split)

lemma initialize_ok:
  assumes "wf_rb (shm_queue q)" "wf_rb (shm_freeList q)" "maxCapacity (shm_queue q) \<le> numberBuffers q"
    "maxCapacity (shm_freeList q) = numberBuffers q"
  obtains q' where "initialize_queue_and_freelist q = (Inr (), q')" "holds [] q'" "shm_msgs q' = []"
    "length (free q') = numberBuffers q'" "has_data q' = has_data q" "shape q' = shape q"
proof -
  let ?g = "\<lambda>i. \<lparr>d_offs = i * get_actual_buffer_size (bufferSize q), d_len = 0\<rparr>"
  let ?f = "rb_reset (shm_freeList q)"
  note c = rbq.clear [OF assms(2)] and cq = rbq.clear [OF assms(1)]
  from rbq.push_list [OF c(1), of "map ?g [0..<numberBuffers q]"] c(2,3) assms(4) obtain f where
    f: "forE rb_push (map ?g [0..<numberBuffers q]) ?f = (Inr (), f)" "wf_rb f"
      "rb_elems f = map ?g [0..<numberBuffers q]" "maxCapacity f = maxCapacity ?f" by auto
  let ?q = "q\<lparr>shm_queue := rb_reset (shm_queue q), shm_freeList := f\<rparr>"
  have "initialize_queue_and_freelist q = (Inr (), ?q)"
    using f(1) by (simp add: initialize_queue_and_freelist_def bindE_def forE_push_free)
  moreover have "inj_on (\<lambda>i. i * get_actual_buffer_size (bufferSize q)) {0..<numberBuffers q}"
    using buffer_size_less [of "bufferSize q"] by (auto intro!: inj_onI)
  then have "holds [] ?q"
    using f c cq assms by (simp add: holds_def distinct_map o_def image_image)
  moreover have "shm_msgs ?q = []" using cq by (simp add: shm_msgs_def)
  moreover have "length (free ?q) = numberBuffers ?q" using arg_cong [OF f(3), of length] by simp
  moreover have "shape ?q = shape q" using cq by (simp add: shape_def)
  ultimately show thesis using that by simp
qed

lemma new_ShmFiniteQueue_ok:
  assumes "1 \<le> cap" "cap \<le> n" "length qring = n + 1" "length fring = n + 1" "length nm \<le> 255"
  obtains q where "new_ShmFiniteQueue n bs (Some nm) cap qring fring mem = Inr q" "shm_ok q" "shm_msgs q = []"
    "maxCapacity (shm_queue q) = cap" "bufferSize q = bs" "numberBuffers q = n"
proof -
  obtain r f where rf: "new_ring_buffer (Some ''queue'') cap qring = Inr r" "new_ring_buffer (Some ''freeList'') n fring = Inr f"
    using assms by (simp add: new_ring_buffer_def maxRingBufferNameLength_def)
  note w = wf_new_ring_buffer [OF rf(1)] wf_new_ring_buffer [OF rf(2)]
  let ?q = "\<lparr>numberBuffers = n, bufferSize = bs, magicNo = defaultMagicNo, queue_name = nm,
              shm_queue = r, shm_freeList = f, buffer_space = mem, has_data = False\<rparr>"
  from initialize_ok [of ?q] w assms(2) obtain q where
    q: "initialize_queue_and_freelist ?q = (Inr (), q)" "holds [] q" "shm_msgs q = []"
    "length (free q) = numberBuffers q" "has_data q = has_data ?q" "shape q = shape ?q" by auto
  have "new_ShmFiniteQueue n bs (Some nm) cap qring fring mem = Inr q"
    using rf q(1) assms(5) by (simp add: new_ShmFiniteQueue_def maxQueueNameLength_def)
  moreover have "queued q = []" using q(3) by (simp add: shm_msgs_def)
  then have "shm_ok q" using q by (simp add: shm_ok_def shape_def del: length_rb_elems)
  ultimately show thesis using that q w by (simp add: shape_def)
qed

text \<open>Resetting empties the queue but leaves the flag as it is.\<close>

lemma shm_reset_ok:
  assumes "shm_ok q"
  obtains q' where "shm_reset q = (Inr (), q')" "holds [] q'" "shm_msgs q' = []" "length (free q') = numberBuffers q'"
    "has_data q' = (shm_msgs q \<noteq> [])" "shape q' = shape q"
proof -
  have "wf_rb (shm_queue q)" "wf_rb (shm_freeList q)" "maxCapacity (shm_queue q) \<le> numberBuffers q"
    "maxCapacity (shm_freeList q) = numberBuffers q" "has_data q = (shm_msgs q \<noteq> [])"
    using assms by (auto simp: shm_ok_def holds_def shm_msgs_def)
  with initialize_ok [of q] that show thesis unfolding shm_reset_def by metis
qed

text \<open>A flag that says there is data in an empty queue makes the readers throw.\<close>

lemma stale_flag:
  assumes "holds [] q" "shm_msgs q = []" "has_data q" "magicNo q = defaultMagicNo" "t \<noteq> 0"
  shows "pop_nowait handler t True (h, q) = (Inl RingBufferException, (h, q))"
    "peek_nowait handler t True (h, q) = (Inl RingBufferException, (h, q))"
proof -
  have w: "wf_rb (shm_queue q)" "queued q = []" using assms(1,2) by (simp_all add: holds_def shm_msgs_def)
  show "pop_nowait handler t True (h, q) = (Inl RingBufferException, (h, q))"
    using assms(3-5) rbq.pop_empty [OF w]
    by (simp add: pop_nowait_def assert_magicno_def bindE_step pop_head_def drain_buffer_def)
      (simp add: bindE_def zoomE_def)
  show "peek_nowait handler t True (h, q) = (Inl RingBufferException, (h, q))"
    using assms(3-5) rbq.peek_empty [OF w]
    by (simp add: peek_nowait_def bindE_step peek_head_def) (simp add: bindE_def zoomE_def)
qed

section \<open>The contract of a message channel\<close>

datatype 'm chan_op = Send 'm | Recv

text \<open>Sender and receiver take turns in any order; collected are the messages that the channel accepted
  and those that the receiver got.\<close>

fun channel_run :: "('m \<Rightarrow> 's \<Rightarrow> bool \<times> 's) \<Rightarrow> ('s \<Rightarrow> 'm option \<times> 's) \<Rightarrow> 'm chan_op list \<Rightarrow> 's \<Rightarrow> 'm list \<times> 'm list \<times> 's" where
  "channel_run send recv [] s = ([], [], s)"
| "channel_run send recv (Send m # ops) s =
     (let (ok, s) = send m s; (acc, rcv, s) = channel_run send recv ops s
      in (if ok then m # acc else acc, rcv, s))"
| "channel_run send recv (Recv # ops) s =
     (let (r, s) = recv s; (acc, rcv, s) = channel_run send recv ops s
      in (acc, (case r of None \<Rightarrow> rcv | Some m \<Rightarrow> m # rcv), s))"

locale message_channel =
  fixes inv :: "'s \<Rightarrow> bool"
    and msgs :: "'s \<Rightarrow> 'm list"
    and capacity :: "'s \<Rightarrow> nat"
    and fits :: "'s \<Rightarrow> 'm \<Rightarrow> bool"
    and send :: "'m \<Rightarrow> 's \<Rightarrow> bool \<times> 's"
    and recv :: "'s \<Rightarrow> 'm option \<times> 's"
  assumes send: "inv s \<Longrightarrow> fits s m \<Longrightarrow> length (msgs s) < capacity s \<Longrightarrow>
      \<exists>s'. send m s = (True, s') \<and> inv s' \<and> msgs s' = msgs s @ [m] \<and> capacity s' = capacity s \<and> fits s' = fits s"
    and send_full: "inv s \<Longrightarrow> \<not> length (msgs s) < capacity s \<Longrightarrow> send m s = (False, s)"
    and recv: "inv s \<Longrightarrow> msgs s = m # ms \<Longrightarrow>
      \<exists>s'. recv s = (Some m, s') \<and> inv s' \<and> msgs s' = ms \<and> capacity s' = capacity s \<and> fits s' = fits s"
    and recv_empty: "inv s \<Longrightarrow> msgs s = [] \<Longrightarrow> recv s = (None, s)"
    and bounded: "inv s \<Longrightarrow> length (msgs s) \<le> capacity s"
begin

lemma run_fifo:
  assumes "inv s" "\<forall>m. Send m \<in> set ops \<longrightarrow> fits s m" "channel_run send recv ops s = (acc, rcv, s')"
  shows "inv s' \<and> rcv @ msgs s' = msgs s @ acc \<and> capacity s' = capacity s"
  using assms
proof (induction ops arbitrary: s acc rcv)
  case (Cons op ops)
  show ?case
  proof (cases op)
    case (Send m)
    obtain ok s1 where s1: "send m s = (ok, s1)" by fastforce
    obtain acc1 where r: "channel_run send recv ops s1 = (acc1, rcv, s')" "acc = (if ok then m # acc1 else acc1)"
      using Cons.prems(3) s1 Send by (auto split: prod.splits)
    have "inv s1 \<and> msgs s1 = msgs s @ (if ok then [m] else []) \<and> capacity s1 = capacity s \<and> fits s1 = fits s"
      using send [OF Cons.prems(1), of m] send_full [OF Cons.prems(1), of m] Cons.prems(1,2) s1 Send
      by (cases "length (msgs s) < capacity s") auto
    with Cons.IH [OF _ _ r(1)] Cons.prems(2) r(2) show ?thesis by auto
  next
    case Recv
    obtain o1 s1 where s1: "recv s = (o1, s1)" by fastforce
    obtain rcv1 where r: "channel_run send recv ops s1 = (acc, rcv1, s')"
      "rcv = (case o1 of None \<Rightarrow> rcv1 | Some m \<Rightarrow> m # rcv1)"
      using Cons.prems(3) s1 Recv by (auto split: prod.splits)
    have "inv s1 \<and> (case o1 of None \<Rightarrow> [] | Some m \<Rightarrow> [m]) @ msgs s1 = msgs s \<and> capacity s1 = capacity s \<and> fits s1 = fits s"
      using recv [OF Cons.prems(1)] recv_empty [OF Cons.prems(1)] s1 Cons.prems(1) by (cases "msgs s") auto
    with Cons.IH [OF _ _ r(1)] Cons.prems(2) r(2) show ?thesis by (auto split: option.splits)
  qed
qed simp

text \<open>From an empty channel: the receiver gets a prefix of what was accepted, at most the capacity behind.\<close>

lemma run_from_empty:
  assumes "inv s" "msgs s = []" "\<forall>m. Send m \<in> set ops \<longrightarrow> fits s m" "channel_run send recv ops s = (acc, rcv, s')"
  shows "\<exists>rest. acc = rcv @ rest \<and> length rest \<le> capacity s"
  using run_fifo [OF assms(1,3,4)] bounded [of s'] assms(2) by (metis append_Nil)

end

text \<open>The two sides of the channel in shared memory: a handler that copies a payload into the buffer, as in
  \<open>bp_shm_control_segment.cc\<close>, and one that copies the buffer out.\<close>

definition copy_payload :: "u8 list \<Rightarrow> unit PushHandler" where
  "copy_payload payload sz = (\<lambda>(h, bs). (Inr (length payload), (h, payload @ drop (length payload) bs)))"

definition fetch_payload :: "u8 list option PopHandler" where
  "fetch_payload m h = (Inr (), Some m)"

definition shm_send :: "u8 list \<Rightarrow> ShmFiniteQueue \<Rightarrow> bool \<times> ShmFiniteQueue" where
  "shm_send m q = (case push_nowait (copy_payload m) 1000 True ((), q) of
     (r, (_, q')) \<Rightarrow> (r = Inr (False, False), q'))"

definition shm_recv :: "ShmFiniteQueue \<Rightarrow> u8 list option \<times> ShmFiniteQueue" where
  "shm_recv q = (case pop_nowait fetch_payload 1000 True (None, q) of (_, (m, q')) \<Rightarrow> (m, q'))"

definition shm_fits :: "ShmFiniteQueue \<Rightarrow> u8 list \<Rightarrow> bool" where
  "shm_fits q m \<longleftrightarrow> m \<noteq> [] \<and> length m \<le> bufferSize q"

lemma writes_copy_payload: "length m \<le> sz \<Longrightarrow> writes (copy_payload m) () sz m ()"
  by (simp add: writes_def copy_payload_def)

interpretation chan: message_channel shm_ok shm_msgs "\<lambda>q. maxCapacity (shm_queue q)" shm_fits shm_send shm_recv
proof unfold_locales
  fix q :: ShmFiniteQueue and m :: "u8 list" and ms
  assume ok: "shm_ok q"
  have fits: "shape q' = shape q \<Longrightarrow> shm_fits q' = shm_fits q" for q'
    by (rule ext) (simp add: shm_fits_def shape_def)
  show "\<exists>q'. shm_send m q = (True, q') \<and> shm_ok q' \<and> shm_msgs q' = shm_msgs q @ [m]
      \<and> maxCapacity (shm_queue q') = maxCapacity (shm_queue q) \<and> shm_fits q' = shm_fits q"
    if f: "shm_fits q m" and l: "length (shm_msgs q) < maxCapacity (shm_queue q)"
  proof -
    have "writes (copy_payload m) () (bufferSize q) m ()" "m \<noteq> []"
      using f by (simp_all add: writes_copy_payload shm_fits_def)
    from push_nowait_ok [where handler = "copy_payload m", OF ok this l, where t = 1000] obtain q' where
      "push_nowait (copy_payload m) 1000 True ((), q) = (Inr (False, False), ((), q'))" "shm_ok q'"
      "shm_msgs q' = shm_msgs q @ [m]" "shape q' = shape q" by auto
    with fits [of q'] show ?thesis by (simp add: shm_send_def shape_def)
  qed
  show "shm_send m q = (False, q)" if "\<not> length (shm_msgs q) < maxCapacity (shm_queue q)"
  proof -
    have "length (shm_msgs q) = maxCapacity (shm_queue q)"
      using ok that by (elim shm_okE) (simp del: length_shm_msgs)
    from push_nowait_full [OF ok this, of 1000 "copy_payload m" "()"] show ?thesis by (simp add: shm_send_def)
  qed
  show "\<exists>q'. shm_recv q = (Some m, q') \<and> shm_ok q' \<and> shm_msgs q' = ms
      \<and> maxCapacity (shm_queue q') = maxCapacity (shm_queue q) \<and> shm_fits q' = shm_fits q" if "shm_msgs q = m # ms"
  proof -
    have h: "fetch_payload m None = (Inr (), Some m)" by (simp add: fetch_payload_def)
    from pop_nowait_ok [where handler = fetch_payload, OF ok that h, where t = 1000] obtain q' where
      "pop_nowait fetch_payload 1000 True (None, q) = (Inr (False, ms \<noteq> []), (Some m, q'))" "shm_ok q'"
      "shm_msgs q' = ms" "shape q' = shape q" by auto
    with fits [of q'] show ?thesis by (simp add: shm_recv_def shape_def)
  qed
  show "shm_recv q = (None, q)" if "shm_msgs q = []"
    using pop_nowait_empty [OF ok that, of 1000 fetch_payload None] by (simp add: shm_recv_def)
  show "length (shm_msgs q) \<le> maxCapacity (shm_queue q)" using ok by (auto elim: shm_okE)
qed

end
