(* ===== verification/PropsShm.thy ===== *)
theory PropsShm
  imports ShmChannel
begin

text \<open>The properties of the shared memory queue.\<close>

section \<open>Concrete queues\<close>

abbreviation no_descr :: DescrT where
  "no_descr \<equiv> \<lparr>d_offs = 0, d_len = 0\<rparr>"

abbreviation queue_of_two :: "dcp_error + ShmFiniteQueue" where
  "queue_of_two \<equiv> new_ShmFiniteQueue 2 8 (Some ''q'') 2 (replicate 3 no_descr) (replicate 3 no_descr) (\<lambda>_. 0)"

lemma empty_queue:
  obtains q where "queue_of_two = Inr q" "shm_ok q" "shm_msgs q = []" "maxCapacity (shm_queue q) = 2" "bufferSize q = 8"
  by (rule new_ShmFiniteQueue_ok [of 2 2 "replicate 3 no_descr" "replicate 3 no_descr" "''q''" 8 "\<lambda>_. 0"]) auto

lemma queue_with_one:
  obtains q where "shm_ok q" "shm_msgs q = [[7]]" "maxCapacity (shm_queue q) = 2" "bufferSize q = 8"
proof -
  obtain q0 where q0: "queue_of_two = Inr q0" "shm_ok q0" "shm_msgs q0 = []" "maxCapacity (shm_queue q0) = 2" "bufferSize q0 = 8"
    by (rule empty_queue)
  have w: "writes (copy_payload [7]) () (bufferSize q0) [7] ()" by (rule writes_copy_payload) (simp add: q0)
  from push_nowait_ok [where handler = "copy_payload [7]", OF q0(2) w, where t = 1000] q0(3,4) obtain q where
    "shm_ok q" "shm_msgs q = [[7]]" "shape q = shape q0" by auto
  with q0 show thesis using that by (simp add: shape_def)
qed

section \<open>Message exchange\<close>

text \<open>C40. Two processes exchange messages through the queue in any interleaving: starting from an empty
  queue, what the reader has got is a prefix of the list of the messages that the writer was told were
  accepted, in their order and with their bytes, and at most the capacity of the queue is outstanding.\<close>

theorem shm_messages_in_order:
  assumes "shm_ok q" "shm_msgs q = []" "\<forall>m. Send m \<in> set ops \<longrightarrow> m \<noteq> [] \<and> length m \<le> bufferSize q"
    "channel_run shm_send shm_recv ops q = (accepted, received, q')"
  shows "shm_ok q' \<and> (\<exists>rest. accepted = received @ rest \<and> rest = shm_msgs q' \<and> length rest \<le> maxCapacity (shm_queue q))"
proof -
  have f: "\<forall>m. Send m \<in> set ops \<longrightarrow> shm_fits q m" using assms(3) by (simp add: shm_fits_def)
  from chan.run_fifo [OF assms(1) f assms(4)] chan.bounded [of q'] assms(2) show ?thesis by simp
qed

theorem shm_messages_in_order_witness:
  "\<exists>q q'. queue_of_two = Inr q
    \<and> channel_run shm_send shm_recv [Send [1], Send [2, 3], Recv, Recv, Recv] q = ([[1], [2, 3]], [[1], [2, 3]], q')"
proof -
  obtain q where q: "queue_of_two = Inr q" "shm_ok q" "shm_msgs q = []" "maxCapacity (shm_queue q) = 2" "bufferSize q = 8"
    by (rule empty_queue)
  let ?ops = "[Send [1], Send [2, 3], Recv, Recv, Recv] :: u8 list chan_op list"
  from chan.send [OF q(2), of "[1]"] q obtain q1 where q1: "shm_send [1] q = (True, q1)" "shm_ok q1" "shm_msgs q1 = [[1]]"
    "maxCapacity (shm_queue q1) = 2" "shm_fits q1 = shm_fits q" by (auto simp: shm_fits_def)
  from chan.send [OF q1(2), of "[2, 3]"] q1 q(5) obtain q2 where q2: "shm_send [2, 3] q1 = (True, q2)" "shm_ok q2"
    "shm_msgs q2 = [[1], [2, 3]]" by (auto simp: shm_fits_def)
  from chan.recv [OF q2(2,3)] obtain q3 where q3: "shm_recv q2 = (Some [1], q3)" "shm_ok q3" "shm_msgs q3 = [[2, 3]]" by auto
  from chan.recv [OF q3(2,3)] obtain q4 where q4: "shm_recv q3 = (Some [2, 3], q4)" "shm_ok q4" "shm_msgs q4 = []" by auto
  have r: "channel_run shm_send shm_recv ?ops q = ([[1], [2, 3]], [[1], [2, 3]], q4)"
    using q1(1) q2(1) q3(1) q4(1) chan.recv_empty [OF q4(2,3)] by simp
  have "\<forall>m. Send m \<in> set ?ops \<longrightarrow> m \<noteq> [] \<and> length m \<le> bufferSize q" using q(5) by auto
  from shm_messages_in_order [OF q(2,3) this r] q(1) r show ?thesis by blast
qed

section \<open>The flag\<close>

text \<open>A writer that waits for room waits whenever the queue holds any message: with one message in it and
  room for more, \<open>push_wait\<close> gives up with a timeout when no reader comes, and the message is not stored, while
  \<open>push_nowait\<close> stores the same message at once.\<close>

lemma push_wait_blocks_with_room:
  assumes "shm_ok q" "shm_msgs q \<noteq> []" "length (shm_msgs q) < maxCapacity (shm_queue q)" "t \<noteq> 0" "wait q = (False, q)"
    "m \<noteq> []" "length m \<le> bufferSize q"
  shows "push_wait (copy_payload m) t True wait ((), q) = (Inr True, ((), q))
    \<and> (\<exists>q'. push_nowait (copy_payload m) t True ((), q) = (Inr (False, False), ((), q')) \<and> shm_msgs q' = shm_msgs q @ [m])"
proof -
  have "has_data q" using assms(1,2) by (auto elim: shm_okE)
  moreover obtain q' where "push_nowait (copy_payload m) t True ((), q) = (Inr (False, False), ((), q'))"
    "shm_msgs q' = shm_msgs q @ [m]"
    by (rule push_nowait_ok [OF assms(1) writes_copy_payload [OF assms(7)] assms(6,3,4)])
  ultimately show ?thesis using push_wait_blocked [where wait = wait and handler = "copy_payload m" and h = "()", OF _ assms(5,4)] by blast
qed

text \<open>Resetting a queue that holds messages empties it but leaves the flag that says it has data; until the
  next message is pushed, both \<open>pop_nowait\<close> and \<open>peek_nowait\<close> throw instead of reporting that there is
  nothing to read.\<close>

lemma reset_leaves_stale_flag:
  assumes "shm_ok q" "shm_msgs q \<noteq> []" "t \<noteq> 0"
  shows "\<exists>q'. shm_reset q = (Inr (), q') \<and> shm_msgs q' = [] \<and> snd (report_sizes q') = numberBuffers q
    \<and> pop_nowait handler t True (h, q') = (Inl RingBufferException, (h, q'))
    \<and> peek_nowait handler t True (h, q') = (Inl RingBufferException, (h, q'))"
proof -
  from shm_reset_ok [OF assms(1)] obtain q' where q': "shm_reset q = (Inr (), q')" "holds [] q'" "shm_msgs q' = []"
    "length (free q') = numberBuffers q'" "has_data q' = (shm_msgs q \<noteq> [])" "shape q' = shape q" by blast
  have m: "magicNo q' = defaultMagicNo" "has_data q'" "numberBuffers q' = numberBuffers q"
    using q'(5,6) assms(1,2) by (auto simp: shape_def shm_ok_def)
  have "wf_rb (shm_freeList q')" using q'(2) by (simp add: holds_def)
  from rbq.stored [OF this] q'(4) m(3) have "snd (report_sizes q') = numberBuffers q" by (simp add: report_sizes_def)
  moreover note stale_flag [where handler = handler and h = h, OF q'(2,3) m(2,1) assms(3)]
  ultimately show ?thesis using q'(1,3) by blast
qed

end
