(* ===== verification/BpTypes.thy ===== *)
theory BpTypes
  imports DcpServices
begin

text \<open>
  Wire formats of the beaconing protocol: the headers of \<open>dcp/bp/bp_transmissible_types.h\<close> with
  their serialization, interpretations of \<open>codec\<close>.
\<close>

section \<open>Headers\<close>

type_synonym BPLengthT = u16
type_synonym BPNetworkIdentifierT = u16

definition bpHeaderVersion :: u8 where "bpHeaderVersion = 1"
definition bpMagicNo :: u16 where "bpMagicNo = 0x497E"

record BPHeaderT =
  bh_version :: u8
  bh_magicNo :: u16
  bh_senderId :: NodeIdentifierT
  bh_networkId :: BPNetworkIdentifierT
  bh_length :: BPLengthT
  bh_numPayloads :: u8
  bh_seqno :: u32

definition BPHeaderT_fixed_size :: nat where
  "BPHeaderT_fixed_size = 1 + 2 + 6 + 2 + 2 + 1 + 4"

definition ser_BPHeaderT :: "BPHeaderT \<Rightarrow> (aa, unit) action" where
  "ser_BPHeaderT h =
     bindE (serialize_byte (bh_version h)) (\<lambda>_.
     bindE (serialize_uint16_n (bh_magicNo h)) (\<lambda>_.
     bindE (ser_NodeIdentifierT (bh_senderId h)) (\<lambda>_.
     bindE (ser_integral16 (bh_networkId h)) (\<lambda>_.
     bindE (ser_integral16 (bh_length h)) (\<lambda>_.
     bindE (serialize_byte (bh_numPayloads h)) (\<lambda>_.
     serialize_uint32_n (bh_seqno h)))))))"

definition des_BPHeaderT :: "(da, BPHeaderT) action" where
  "des_BPHeaderT =
     bindE deserialize_byte (\<lambda>v.
     bindE deserialize_uint16_n (\<lambda>m.
     bindE des_NodeIdentifierT (\<lambda>s.
     bindE des_integral16 (\<lambda>n.
     bindE des_integral16 (\<lambda>l.
     bindE deserialize_byte (\<lambda>p.
     bindE deserialize_uint32_n (\<lambda>q.
     retE \<lparr>bh_version = v, bh_magicNo = m, bh_senderId = s, bh_networkId = n, bh_length = l,
           bh_numPayloads = p, bh_seqno = q\<rparr>)))))))"

definition BPHeaderT_reserve :: "(aa, unit) action" where
  "BPHeaderT_reserve = area_incr BPHeaderT_fixed_size"

definition isWellFormed :: "BPHeaderT \<Rightarrow> NodeIdentifierT \<Rightarrow> BPNetworkIdentifierT \<Rightarrow> bool" where
  "isWellFormed h ownNodeId netwId \<longleftrightarrow>
     bh_version h = bpHeaderVersion \<and> bh_magicNo h = bpMagicNo \<and> bh_senderId h \<noteq> ownNodeId
     \<and> bh_networkId h = netwId \<and> bh_numPayloads h > 0 \<and> bh_length h > 0"

record BPPayloadHeaderT =
  ph_protocolId :: BPProtocolIdT
  ph_length :: BPLengthT

definition BPPayloadHeaderT_fixed_size :: nat where
  "BPPayloadHeaderT_fixed_size = 2 + 2"

definition ser_BPPayloadHeaderT :: "BPPayloadHeaderT \<Rightarrow> (aa, unit) action" where
  "ser_BPPayloadHeaderT h =
     bindE (ser_integral16 (ph_protocolId h)) (\<lambda>_.
     ser_integral16 (ph_length h))"

definition des_BPPayloadHeaderT :: "(da, BPPayloadHeaderT) action" where
  "des_BPPayloadHeaderT =
     bindE des_integral16 (\<lambda>p.
     bindE des_integral16 (\<lambda>l.
     retE \<lparr>ph_protocolId = p, ph_length = l\<rparr>))"

section \<open>Wire images\<close>

definition enc_BPHeaderT :: "BPHeaderT \<Rightarrow> u8 list" where
  "enc_BPHeaderT h = enc_byte (bh_version h) @ be_bytes16 (bh_magicNo h) @ nodeId (bh_senderId h)
     @ be_bytes16 (bh_networkId h) @ be_bytes16 (bh_length h) @ enc_byte (bh_numPayloads h) @ be_bytes32 (bh_seqno h)"

definition enc_BPPayloadHeaderT :: "BPPayloadHeaderT \<Rightarrow> u8 list" where
  "enc_BPPayloadHeaderT h = be_bytes16 (ph_protocolId h) @ be_bytes16 (ph_length h)"

lemma length_enc_BPHeaderT [simp]: "length (enc_BPHeaderT h) = BPHeaderT_fixed_size"
  by (simp add: enc_BPHeaderT_def BPHeaderT_fixed_size_def)

lemma length_enc_BPPayloadHeaderT [simp]: "length (enc_BPPayloadHeaderT h) = BPPayloadHeaderT_fixed_size"
  by (simp add: enc_BPPayloadHeaderT_def BPPayloadHeaderT_fixed_size_def)

lemma bit_u8_ge [simp]: "\<not> bit (b :: u8) (8 + n)" "\<not> bit (b :: u8) (16 + n)" "\<not> bit (b :: u8) (24 + n)"
  by (auto dest: bit_imp_le_length)

lemma be_split32:
  "be_bytes32 (push_bit 24 (ucast (b1 :: u8)) + push_bit 16 (ucast (b2 :: u8)) + push_bit 8 (ucast (b3 :: u8)) + ucast (b4 :: u8))
    = [b1, b2, b3, b4]"
proof -
  let ?w = "push_bit 24 (ucast b1) + push_bit 16 (ucast b2) + push_bit 8 (ucast b3) + ucast b4 :: u32"
  have "?w = push_bit 24 (ucast b1) OR push_bit 16 (ucast b2) OR push_bit 8 (ucast b3) OR ucast b4"
    by (subst disjunctive_add; (subst disjunctive_add)?; (subst disjunctive_add)?)
      (auto simp: bit_simps or.assoc dest: bit_imp_le_length)
  then show ?thesis unfolding be_bytes32_def
    by (auto intro!: bit_word_eqI simp: bit_simps dest: bit_imp_le_length)
qed

interpretation c32: codec serialize_uint32_n deserialize_uint32_n be_bytes32 "\<lambda>_. True"
proof unfold_locales
  fix x :: u32 and a d d' r
  show "wf_aa a \<Longrightarrow> length (be_bytes32 x) \<le> bytes_available a
      \<Longrightarrow> serialize_uint32_n x a = (Inr (), aa_append (be_bytes32 x) a)"
    by (simp add: serialize_uint32_n_spec)
  show "wf_da d \<Longrightarrow> da_rest d = be_bytes32 x @ r
      \<Longrightarrow> deserialize_uint32_n d = (Inr x, da_advance (length (be_bytes32 x)) d)"
    by (simp add: deserialize_uint32_n_spec)
  show "True \<and> (\<exists>r. da_rest d = be_bytes32 x @ r) \<and> d' = da_advance (length (be_bytes32 x)) d"
    if "wf_da d" "deserialize_uint32_n d = (Inr x, d')"
  proof -
    from that obtain b1 b2 b3 b4 d1 d2 d3 where
      b: "deserialize_byte d = (Inr b1, d1)" "deserialize_byte d1 = (Inr b2, d2)"
        "deserialize_byte d2 = (Inr b3, d3)" "deserialize_byte d3 = (Inr b4, d')"
      and x: "x = push_bit 24 (ucast b1) + push_bit 16 (ucast b2) + push_bit 8 (ucast b3) + ucast b4"
      unfolding deserialize_uint32_n_def by (elim bindE_InrE) (auto split: if_splits)
    note s1 = deserialize_byte_sound [OF that(1) b(1)]
    note s2 = deserialize_byte_sound [OF s1 [THEN conjunct2, THEN conjunct2, THEN conjunct1] b(2)]
    note s3 = deserialize_byte_sound [OF s2 [THEN conjunct2, THEN conjunct2, THEN conjunct1] b(3)]
    note s4 = deserialize_byte_sound [OF s3 [THEN conjunct2, THEN conjunct2, THEN conjunct1] b(4)]
    have e: "d1 = da_advance 1 d" "d2 = da_advance 1 d1" "d3 = da_advance 1 d2" "d' = da_advance 1 d3"
      using s1 s2 s3 s4 by blast+
    have a: "0 < bytes_available d" "0 < bytes_available d1" "0 < bytes_available d2" "0 < bytes_available d3"
      using s1 s2 s3 s4 by blast+
    obtain r1 r2 r3 r4 where r: "da_rest d = b1 # r1" "da_rest d1 = b2 # r2" "da_rest d2 = b3 # r3" "da_rest d3 = b4 # r4"
      using s1 s2 s3 s4 by blast
    have "r1 = da_rest d1" "r2 = da_rest d2" "r3 = da_rest d3"
      using s1 s2 s3 r unfolding e by simp_all
    with r have "da_rest d = [b1, b2, b3, b4] @ r4" by simp
    moreover have "d' = da_advance 4 d" unfolding e by (simp add: eval_nat_numeral)
    ultimately show ?thesis by (simp add: x be_split32 da_advance_Sucs)
  qed
qed

lemma codec_BPHeaderT: "codec ser_BPHeaderT des_BPHeaderT enc_BPHeaderT (\<lambda>_. True)"
  using codec_iso [OF codec_pair [OF c8.codec_axioms codec_pair [OF c16.codec_axioms codec_pair [OF node_codec.codec_axioms
          codec_pair [OF c16.codec_axioms codec_pair [OF c16.codec_axioms codec_pair [OF c8.codec_axioms c32.codec_axioms]]]]]],
      of "\<lambda>(v, m, s, n, l, p, q). \<lparr>bh_version = v, bh_magicNo = m, bh_senderId = s, bh_networkId = n,
            bh_length = l, bh_numPayloads = p, bh_seqno = q\<rparr>"
        "\<lambda>h. (bh_version h, bh_magicNo h, bh_senderId h, bh_networkId h, bh_length h, bh_numPayloads h, bh_seqno h)"]
  by (simp add: ser_BPHeaderT_def [abs_def] des_BPHeaderT_def enc_BPHeaderT_def [abs_def]
      ser_integral8_def [abs_def] des_integral8_def ser_integral16_def [abs_def] des_integral16_def
      codec_unfold split_beta del: retE_simp)

interpretation bphdr_codec: codec ser_BPHeaderT des_BPHeaderT enc_BPHeaderT "\<lambda>_. True"
  by (rule codec_BPHeaderT)

lemma codec_BPPayloadHeaderT: "codec ser_BPPayloadHeaderT des_BPPayloadHeaderT enc_BPPayloadHeaderT (\<lambda>_. True)"
  using codec_iso [OF codec_pair [OF c16.codec_axioms c16.codec_axioms],
      of "\<lambda>(p, l). \<lparr>ph_protocolId = p, ph_length = l\<rparr>" "\<lambda>h. (ph_protocolId h, ph_length h)"]
  by (simp add: ser_BPPayloadHeaderT_def [abs_def] des_BPPayloadHeaderT_def enc_BPPayloadHeaderT_def [abs_def]
      codec_unfold split_beta del: retE_simp)

interpretation pldhdr_codec: codec ser_BPPayloadHeaderT des_BPPayloadHeaderT enc_BPPayloadHeaderT "\<lambda>_. True"
  by (rule codec_BPPayloadHeaderT)

end
