(* ===== verification/BpSegment.thy ===== *)
theory BpSegment
  imports BpTypes ShmChannel
begin

text \<open>
  What the beaconing demon keeps about its client protocols: queueing modes
  (\<open>bp_queueing_mode.h\<close>), the segment of queues in shared memory
  (\<open>bp_shm_control_segment.h\<close>, \<open>.cc\<close>), static data (\<open>bp_client_static_info.h\<close>), the entry of a
  client protocol (\<open>bp_client_protocol_data.h\<close>) and the data of the demon
  (\<open>bp_runtime_data.h\<close>); and the hand-over of a payload by a client.

  The service primitives in the buffers (\<open>bp_service_primitives.h\<close>) are objects in
  memory, whose layout the compiler chooses.  It is a parameter, a record of the size of the
  objects, their images and how a length field is read back.
\<close>

section \<open>Queueing modes and static data\<close>

type_synonym BPQueueingMode = u16

definition BP_QMODE_ONCE :: BPQueueingMode where "BP_QMODE_ONCE = 0"
definition BP_QMODE_REPEAT :: BPQueueingMode where "BP_QMODE_REPEAT = 1"
definition BP_QMODE_QUEUE_DROPTAIL :: BPQueueingMode where "BP_QMODE_QUEUE_DROPTAIL = 2"
definition BP_QMODE_QUEUE_DROPHEAD :: BPQueueingMode where "BP_QMODE_QUEUE_DROPHEAD = 3"

lemmas qmode_defs = BP_QMODE_ONCE_def BP_QMODE_REPEAT_def BP_QMODE_QUEUE_DROPTAIL_def BP_QMODE_QUEUE_DROPHEAD_def

record BPStaticClientInfo =
  ci_protocolId :: BPProtocolIdT
  ci_protocolName :: string
  ci_maxPayloadSize :: BPLengthT
  ci_queueingMode :: BPQueueingMode
  ci_maxEntries :: u16
  ci_allowMultiplePayloads :: bool

definition defaultLongSharedMemoryLockTimeoutMS :: u16 where
  "defaultLongSharedMemoryLockTimeoutMS = 1000"

definition defaultShortSharedMemoryLockTimeoutMS :: u16 where
  "defaultShortSharedMemoryLockTimeoutMS = 20"

section \<open>Memory images of the service primitives\<close>

text \<open>
  \<open>req_size\<close> is the size of a \<open>BPTransmitPayload_Request\<close>, \<open>req_image\<close> the object with given fields,
  \<open>req_length\<close> the value of its length field; likewise for \<open>BPReceivePayload_Indication\<close> and
  \<open>BPTransmitPayload_Confirm\<close>.
\<close>

record bp_layout =
  req_size :: nat
  req_image :: "BPProtocolIdT \<Rightarrow> BPLengthT \<Rightarrow> u8 list"
  req_length :: "u8 list \<Rightarrow> BPLengthT"
  ind_size :: nat
  ind_image :: "BPLengthT \<Rightarrow> u8 list"
  conf_size :: nat
  conf_image :: "DcpStatus \<Rightarrow> u8 list"

text \<open>A field that was stored is read back, and images have the size of their type.  Nothing is said of the
  length field of a message that is shorter than the object.\<close>

definition layout_ok :: "bp_layout \<Rightarrow> bool" where
  "layout_ok L \<longleftrightarrow> (\<forall>p l. length (req_image L p l) = req_size L)
     \<and> (\<forall>p l r. req_length L (req_image L p l @ r) = l)
     \<and> (\<forall>l. length (ind_image L l) = ind_size L) \<and> (\<forall>st. length (conf_image L st) = conf_size L)
     \<and> 0 < conf_size L"

section \<open>The control segment\<close>

record BPShmControlSegment =
  pqTransmitPayloadConfirm :: ShmFiniteQueue
  pqReceivePayloadIndication :: ShmFiniteQueue
  cs_queue :: ShmFiniteQueue
  cs_buffer :: ShmFiniteQueue
  generateTransmitPayloadConfirms :: bool
  static_client_info :: BPStaticClientInfo

definition maxQueueLength :: nat where
  "maxQueueLength = 10"

definition maxBufferSize :: nat where
  "maxBufferSize = maxBeaconPayloadSize + 128"

definition confirmBufferSize :: "bp_layout \<Rightarrow> nat" where
  "confirmBufferSize L = conf_size L + 128"

text \<open>The uninitialized memory of a queue in the segment: descriptors and bytes.\<close>

type_synonym raw_queue = "DescrT list \<times> DescrT list \<times> (nat \<Rightarrow> u8)"

definition new_queue :: "nat \<Rightarrow> string \<Rightarrow> nat \<Rightarrow> raw_queue \<Rightarrow> dcp_error + ShmFiniteQueue" where
  "new_queue bufsize nm maxcap = (\<lambda>(qring, fring, mem).
     new_ShmFiniteQueue maxQueueLength bufsize (Some nm) maxcap qring fring mem)"

definition new_BPShmControlSegment ::
  "bp_layout \<Rightarrow> BPStaticClientInfo \<Rightarrow> bool \<Rightarrow> raw_queue \<Rightarrow> raw_queue \<Rightarrow> raw_queue \<Rightarrow> raw_queue
     \<Rightarrow> dcp_error + BPShmControlSegment" where
  "new_BPShmControlSegment L static_ci gen_pld_confirms m1 m2 m3 m4 =
     (case new_queue (confirmBufferSize L) ''transmit-payload-confirms'' maxQueueLength m1 of
        Inl e \<Rightarrow> Inl e
      | Inr conf \<Rightarrow>
     (case new_queue maxBufferSize ''receive-payload-indications'' maxQueueLength m2 of
        Inl e \<Rightarrow> Inl e
      | Inr ind \<Rightarrow>
     (case new_queue maxBufferSize ''payload-queue'' (max 1 (unat (ci_maxEntries static_ci))) m3 of
        Inl e \<Rightarrow> Inl e
      | Inr q \<Rightarrow>
     (case new_queue maxBufferSize ''payload-buffer'' 1 m4 of
        Inl e \<Rightarrow> Inl e
      | Inr b \<Rightarrow>
        Inr \<lparr>pqTransmitPayloadConfirm = conf, pqReceivePayloadIndication = ind, cs_queue = q, cs_buffer = b,
             generateTransmitPayloadConfirms = gen_pld_confirms, static_client_info = static_ci\<rparr>))))"

section \<open>Handing over a payload\<close>

abbreviation on_cs_queue :: "('h shm, 'a) action \<Rightarrow> ('h \<times> BPShmControlSegment, 'a) action" where
  "on_cs_queue \<equiv> zoomE (\<lambda>(h, cs). (h, cs_queue cs)) (\<lambda>(h, q) (_, cs). (h, cs\<lparr>cs_queue := q\<rparr>))"

abbreviation on_cs_buffer :: "('h shm, 'a) action \<Rightarrow> ('h \<times> BPShmControlSegment, 'a) action" where
  "on_cs_buffer \<equiv> zoomE (\<lambda>(h, cs). (h, cs_buffer cs)) (\<lambda>(h, q) (_, cs). (h, cs\<lparr>cs_buffer := q\<rparr>))"

text \<open>\<open>reset\<close> has no timeout: it waits for the mutex as long as it takes.\<close>

definition reset_buffer :: "('h \<times> BPShmControlSegment, unit) action" where
  "reset_buffer = zoomE (\<lambda>(h, cs). cs_buffer cs) (\<lambda>q (h, cs). (h, cs\<lparr>cs_buffer := q\<rparr>)) shm_reset"

definition transmit_payload_handler ::
  "'h PushHandler \<Rightarrow> bool \<Rightarrow> waiting \<Rightarrow> ('h \<times> BPShmControlSegment, DcpStatus) action" where
  "transmit_payload_handler handler owns wait = (\<lambda>(h, cs).
     let queueingMode = ci_queueingMode (static_client_info cs);
         status = (\<lambda>timed_out. retE (if timed_out then BP_STATUS_INTERNAL_SHARED_MEMORY_ERROR else BP_STATUS_OK)) in
     (if queueingMode = BP_QMODE_ONCE \<or> queueingMode = BP_QMODE_REPEAT then
        bindE reset_buffer (\<lambda>_.
        bindE (on_cs_buffer (push_wait handler defaultLongSharedMemoryLockTimeoutMS owns wait)) status)
      else if queueingMode = BP_QMODE_QUEUE_DROPTAIL \<or> queueingMode = BP_QMODE_QUEUE_DROPHEAD then
        (if queueingMode = BP_QMODE_QUEUE_DROPHEAD then
           bindE (on_cs_queue (push_wait_force handler defaultLongSharedMemoryLockTimeoutMS owns)) status
         else if queueingMode = BP_QMODE_QUEUE_DROPTAIL
                 \<and> shm_stored_elements (cs_queue cs) \<ge> unat (ci_maxEntries (static_client_info cs)) then
           retE BP_STATUS_OK
         else bindE (on_cs_queue (push_wait handler defaultLongSharedMemoryLockTimeoutMS owns wait)) status)
      else retE BP_STATUS_INTERNAL_ERROR) (h, cs))"

text \<open>The sum with the size of the object is a value of the type of the length, 16 bits.\<close>

definition transmit_payload ::
  "bp_layout \<Rightarrow> BPLengthT \<Rightarrow> u8 list option \<Rightarrow> bool \<Rightarrow> waiting \<Rightarrow> (unit \<times> BPShmControlSegment, DcpStatus) action" where
  "transmit_payload L len payload owns wait = (\<lambda>(h, cs).
     if len = 0 \<or> payload = None then (Inr BP_STATUS_EMPTY_PAYLOAD, (h, cs))
     else if len > ci_maxPayloadSize (static_client_info cs) + of_nat (req_size L)
       then (Inr BP_STATUS_PAYLOAD_TOO_LARGE, (h, cs))
     else transmit_payload_handler (copy_payload (take (unat len) (the payload))) owns wait (h, cs))"

section \<open>Client protocols and the demon\<close>

record BPClientProtocolData =
  static_info :: BPStaticClientInfo
  timeStampRegistration :: TimeStampT
  pSCS :: BPShmControlSegment
  cntOutgoingPayloads :: u32
  cntReceivedPayloads :: u32
  cntDroppedOutgoingPayloads :: u32
  cntDroppedIncomingPayloads :: u32

record BPRuntimeData =
  maxBeaconSize :: nat
  ownNetworkIdentifier :: BPNetworkIdentifierT
  bp_isActive :: bool
  bp_exitFlag :: bool
  bp_ownNodeIdentifier :: NodeIdentifierT
  bpSequenceNumber :: u32
  clientProtocols :: "BPProtocolIdT \<rightharpoonup> BPClientProtocolData"
  clientProtocols_mutex :: bool
  cntDroppedUnknownPayloads :: u32
  cntBPPayloads :: u32

text \<open>\<open>std::map\<close> is traversed in the order of the keys.\<close>

definition protocol_ids :: "BPRuntimeData \<Rightarrow> BPProtocolIdT list" where
  "protocol_ids rt = sorted_list_of_set (dom (clientProtocols rt))"

abbreviation update_client :: "BPProtocolIdT \<Rightarrow> BPClientProtocolData \<Rightarrow> BPRuntimeData \<Rightarrow> BPRuntimeData" where
  "update_client p c rt \<equiv> rt\<lparr>clientProtocols := (clientProtocols rt)(p \<mapsto> c)\<rparr>"

end
