(* ===== verification/BpTransmit.thy ===== *)
theory BpTransmit
  imports BpSegment
begin

text \<open>
  Generation of beacons, \<open>dcp/bp/bp_transmitter.cc\<close>.  The handlers that the transmitter gives
  to the queues act on what they capture: the assembly area, the number of payloads in it, the
  counter of the client and the exit flag of the demon.
\<close>

section \<open>One payload\<close>

record beacon =
  bc_area :: aa
  bc_numPayloads :: u32
  bc_cntOutgoing :: u32
  bc_exitFlag :: bool

abbreviation on_area :: "(aa, 'a) action \<Rightarrow> (beacon, 'a) action" where
  "on_area \<equiv> zoomE bc_area (\<lambda>a b. b\<lparr>bc_area := a\<rparr>)"

definition serialize_payload :: "BPProtocolIdT \<Rightarrow> u8 list \<Rightarrow> BPLengthT \<Rightarrow> (beacon, unit) action" where
  "serialize_payload protocolId memaddr pld_len =
     bindE (on_area (ser_BPPayloadHeaderT \<lparr>ph_protocolId = protocolId, ph_length = pld_len\<rparr>)) (\<lambda>_.
     bindE (on_area (serialize_byte_block (unat pld_len) (Some memaddr))) (\<lambda>_.
     modifyE (\<lambda>b. b\<lparr>bc_numPayloads := bc_numPayloads b + 1, bc_cntOutgoing := bc_cntOutgoing b + 1\<rparr>)))"

text \<open>The sum of the size of the object and the length, and with it the comparison, is one of 16-bit values.\<close>

definition add_payload_handler :: "bp_layout \<Rightarrow> BPProtocolIdT \<Rightarrow> beacon PopHandler" where
  "add_payload_handler L protocolId memaddr =
     (if of_nat (length memaddr) \<noteq> of_nat (req_size L) + req_length L memaddr
      then modifyE (\<lambda>b. b\<lparr>bc_exitFlag := True\<rparr>)
      else serialize_payload protocolId (drop (req_size L) memaddr) (req_length L memaddr))"

section \<open>One client protocol\<close>

text \<open>The state of the generation: the demon, the area and the number of payloads.\<close>

record bp_gen =
  g_rt :: BPRuntimeData
  g_area :: aa
  g_num :: u32

definition gen_beacon_of :: "BPClientProtocolData \<Rightarrow> bp_gen \<Rightarrow> beacon" where
  "gen_beacon_of e g = \<lparr>bc_area = g_area g, bc_numPayloads = g_num g, bc_cntOutgoing = cntOutgoingPayloads e,
     bc_exitFlag = bp_exitFlag (g_rt g)\<rparr>"

definition put_gen :: "BPProtocolIdT \<Rightarrow> BPClientProtocolData \<Rightarrow> beacon \<times> BPShmControlSegment \<Rightarrow> bp_gen \<Rightarrow> bp_gen" where
  "put_gen p e = (\<lambda>(b, cs) g.
     \<lparr>g_rt = (update_client p (e\<lparr>pSCS := cs, cntOutgoingPayloads := bc_cntOutgoing b\<rparr>) (g_rt g))\<lparr>bp_exitFlag := bc_exitFlag b\<rparr>,
      g_area = bc_area b, g_num = bc_numPayloads b\<rparr>)"

definition on_segment ::
  "BPProtocolIdT \<Rightarrow> BPClientProtocolData \<Rightarrow> (beacon \<times> BPShmControlSegment, 'a) action \<Rightarrow> (bp_gen, 'a) action" where
  "on_segment p e = zoomE (\<lambda>g. (gen_beacon_of e g, pSCS e)) (put_gen p e)"

definition attempt_add_payload :: "bp_layout \<Rightarrow> bool \<Rightarrow> BPProtocolIdT \<Rightarrow> (bp_gen, unit) action" where
  "attempt_add_payload L owns p = (\<lambda>g.
     let protEntry = the (clientProtocols (g_rt g) p);
         queueingMode = ci_queueingMode (static_info protEntry);
         handler = add_payload_handler L (ci_protocolId (static_info protEntry));
         set_exit = (\<lambda>g. g\<lparr>g_rt := (g_rt g)\<lparr>bp_exitFlag := True\<rparr>\<rparr>);
         finish = (\<lambda>timed_out. if timed_out then modifyE set_exit else retE ()) in
     (if queueingMode = BP_QMODE_QUEUE_DROPTAIL \<or> queueingMode = BP_QMODE_QUEUE_DROPHEAD then
        bindE (on_segment p protEntry (on_cs_queue (pop_nowait handler defaultLongSharedMemoryLockTimeoutMS owns))) (\<lambda>(timed_out, more_payloads).
        finish timed_out)
      else if queueingMode = BP_QMODE_ONCE then
        bindE (on_segment p protEntry (on_cs_buffer (pop_nowait handler defaultLongSharedMemoryLockTimeoutMS owns))) (\<lambda>(timed_out, more_payloads).
        finish timed_out)
      else if queueingMode = BP_QMODE_REPEAT then
        bindE (on_segment p protEntry (on_cs_buffer (peek_nowait handler defaultLongSharedMemoryLockTimeoutMS owns))) finish
      else modifyE set_exit) g)"

section \<open>The beacon\<close>

fun attempt_all :: "bp_layout \<Rightarrow> (BPProtocolIdT \<Rightarrow> bool) \<Rightarrow> BPProtocolIdT list \<Rightarrow> (bp_gen, unit) action" where
  "attempt_all L owns [] = retE ()"
| "attempt_all L owns (p # ps) =
     bindE (attempt_add_payload L (owns p) p) (\<lambda>_ g.
     if bp_exitFlag (g_rt g) then (Inr (), g) else attempt_all L owns ps g)"

definition beacon_header :: "BPRuntimeData \<Rightarrow> nat \<Rightarrow> u32 \<Rightarrow> BPHeaderT" where
  "beacon_header rt used numPayloadsAdded =
     \<lparr>bh_version = bpHeaderVersion, bh_magicNo = bpMagicNo, bh_senderId = bp_ownNodeIdentifier rt,
      bh_networkId = ownNetworkIdentifier rt, bh_length = of_nat (used - BPHeaderT_fixed_size),
      bh_numPayloads = ucast numPayloadsAdded, bh_seqno = bpSequenceNumber rt\<rparr>"

text \<open>The result is the frame that is sent, if any.\<close>

definition generate_beacon :: "bp_layout \<Rightarrow> (BPProtocolIdT \<Rightarrow> bool) \<Rightarrow> (BPRuntimeData, u8 list option) action" where
  "generate_beacon L owns rt =
     (if \<not> bp_isActive rt then (Inr None, rt)
      else case ByteVectorAssemblyArea_vect (maxBeaconSize rt) (replicate (maxBeaconSize rt) 0) of
        Inl e \<Rightarrow> (Inl e, rt)
      | Inr area \<Rightarrow>
          (case bindE (zoomE g_area (\<lambda>a g. g\<lparr>g_area := a\<rparr>) BPHeaderT_reserve) (\<lambda>_.
                 attempt_all L owns (protocol_ids rt)) \<lparr>g_rt = rt, g_area = area, g_num = 0\<rparr> of
             (Inl e, g) \<Rightarrow> (Inl e, g_rt g)
           | (Inr _, g) \<Rightarrow>
               (let rt = g_rt g; used = bytes_used (g_area g); bv_payload = take used (aa_buffer (g_area g)) in
                if bp_exitFlag rt \<or> g_num g = 0 then (Inr None, rt)
                else
                  (let bpHdr = beacon_header rt used (g_num g);
                       rt = rt\<lparr>bpSequenceNumber := bpSequenceNumber rt + 1\<rparr> in
                   case ByteVectorAssemblyArea_vect BPHeaderT_fixed_size bv_payload of
                     Inl e \<Rightarrow> (Inl e, rt)
                   | Inr tmpArea \<Rightarrow>
                       (case ser_BPHeaderT bpHdr tmpArea of
                          (Inl e, _) \<Rightarrow> (Inl e, rt)
                        | (Inr _, tmpArea) \<Rightarrow> (Inr (Some (aa_buffer tmpArea)), rt))))))"

section \<open>The thread\<close>

text \<open>
  A round of the transmitter thread: the mutex of the client protocols is locked and, when the
  generation throws, not unlocked again; the handler around the loop sets the exit flag.
  Result: the frame sent, if any.  The round needs the mutex to be free.
\<close>

definition lock_clients :: "BPRuntimeData \<Rightarrow> BPRuntimeData" where
  "lock_clients rt = rt\<lparr>clientProtocols_mutex := True\<rparr>"

definition unlock_clients :: "BPRuntimeData \<Rightarrow> BPRuntimeData" where
  "unlock_clients rt = rt\<lparr>clientProtocols_mutex := False\<rparr>"

definition transmitter_round :: "bp_layout \<Rightarrow> (BPProtocolIdT \<Rightarrow> bool) \<Rightarrow> BPRuntimeData \<Rightarrow> u8 list option \<times> BPRuntimeData" where
  "transmitter_round L owns rt =
     (case generate_beacon L owns (lock_clients rt) of
        (Inl e, rt) \<Rightarrow> (None, rt\<lparr>bp_exitFlag := True\<rparr>)
      | (Inr frame, rt) \<Rightarrow> (frame, unlock_clients rt))"

end
