(* ===== verification/BpReceive.thy ===== *)
theory BpReceive
  imports BpSegment
begin

text \<open>
  Processing of received beacons, \<open>dcp/bp/bp_receiver.cc\<close>: the state is the data of the demon
  and the area over the bytes of the frame.
\<close>

section \<open>Delivery of a payload\<close>

text \<open>The handler writes the indication and behind it the payload, read from the area.\<close>

definition indication_handler :: "bp_layout \<Rightarrow> BPPayloadHeaderT \<Rightarrow> da PushHandler" where
  "indication_handler L pldHdr sz = (\<lambda>(area, bs).
     let bs = ind_image L (ph_length pldHdr) @ drop (ind_size L) bs in
     case deserialize_byte_block (unat (ph_length pldHdr)) (Some (take (unat (ph_length pldHdr)) (drop (ind_size L) bs))) area of
       (Inl e, area) \<Rightarrow> (Inl e, (area, bs))
     | (Inr block, area) \<Rightarrow>
         (Inr (ind_size L + unat (ph_length pldHdr)),
          (area, take (ind_size L) bs @ block @ drop (ind_size L + unat (ph_length pldHdr)) bs)))"

type_synonym bp_rx = "BPRuntimeData \<times> da"

abbreviation skip_payload :: "BPLengthT \<Rightarrow> (bp_rx, unit) action" where
  "skip_payload len \<equiv> zoomE snd (\<lambda>a (rt, _). (rt, a)) (area_incr (unat len))"

definition count_client :: "BPProtocolIdT \<Rightarrow> (BPClientProtocolData \<Rightarrow> BPClientProtocolData) \<Rightarrow> (bp_rx, unit) action" where
  "count_client p f = modifyE (\<lambda>(rt, area). (update_client p (f (the (clientProtocols rt p))) rt, area))"

definition count_received :: "BPClientProtocolData \<Rightarrow> BPClientProtocolData" where
  "count_received c = c\<lparr>cntReceivedPayloads := cntReceivedPayloads c + 1\<rparr>"

definition dropped_incoming :: "BPClientProtocolData \<Rightarrow> BPClientProtocolData" where
  "dropped_incoming c = c\<lparr>cntDroppedIncomingPayloads := cntDroppedIncomingPayloads c + 1\<rparr>"

definition on_indications :: "BPProtocolIdT \<Rightarrow> (da shm, 'a) action \<Rightarrow> (bp_rx, 'a) action" where
  "on_indications p = zoomE (\<lambda>(rt, area). (area, pqReceivePayloadIndication (pSCS (the (clientProtocols rt p)))))
     (\<lambda>(area, q) (rt, _).
        let c = the (clientProtocols rt p) in
        (update_client p (c\<lparr>pSCS := (pSCS c)\<lparr>pqReceivePayloadIndication := q\<rparr>\<rparr>) rt, area))"

definition deliver_payload :: "bp_layout \<Rightarrow> bool \<Rightarrow> waiting \<Rightarrow> BPPayloadHeaderT \<Rightarrow> (bp_rx, unit) action" where
  "deliver_payload L owns wait pldHdr = (\<lambda>(rt, area).
     let p = ph_protocolId pldHdr; shortTimeoutMS = 5 in
     case clientProtocols rt p of
       None \<Rightarrow> skip_payload (ph_length pldHdr) (rt, area)
     | Some clientProt \<Rightarrow>
         bindE (count_client p count_received) (\<lambda>_.
         if ci_protocolId (static_info clientProt) \<noteq> p then
           bindE (skip_payload (ph_length pldHdr)) (\<lambda>_. count_client p dropped_incoming)
         else if unat (ph_length pldHdr) + ind_size L > bufferSize (pqReceivePayloadIndication (pSCS clientProt)) then
           bindE (skip_payload (ph_length pldHdr)) (\<lambda>_. count_client p dropped_incoming)
         else
           bindE (on_indications p (push_wait (indication_handler L pldHdr) shortTimeoutMS owns wait)) (\<lambda>timed_out.
           if timed_out then bindE (skip_payload (ph_length pldHdr)) (\<lambda>_. count_client p dropped_incoming)
           else retE ())) (rt, area))"

section \<open>A beacon\<close>

abbreviation on_frame :: "(da, 'a) action \<Rightarrow> (bp_rx, 'a) action" where
  "on_frame \<equiv> zoomE snd (\<lambda>a (rt, _). (rt, a))"

definition set_mutex :: "bool \<Rightarrow> (bp_rx, unit) action" where
  "set_mutex b = modifyE (\<lambda>(rt, area). (rt\<lparr>clientProtocols_mutex := b\<rparr>, area))"

text \<open>The loop over the payloads of the frame.  What the operating system does for the
  deliveries is a list, one entry for each.\<close>

fun deliver_all :: "bp_layout \<Rightarrow> (bool \<times> waiting) list \<Rightarrow> (bp_rx, unit) action" where
  "deliver_all L [] = retE ()"
| "deliver_all L ((owns, wait) # env) = (\<lambda>(rt, area).
     if bytes_available area < BPPayloadHeaderT_fixed_size then (Inr (), (rt, area))
     else bindE (on_frame des_BPPayloadHeaderT) (\<lambda>pldHdr (rt, area).
          if bytes_available area < unat (ph_length pldHdr) then (Inr (), (rt, area))
          else bindE (set_mutex True) (\<lambda>_.
               bindE (deliver_payload L owns wait pldHdr) (\<lambda>_.
               bindE (set_mutex False) (\<lambda>_.
               deliver_all L env))) (rt, area)) (rt, area))"

definition bp_process_received_payload :: "bp_layout \<Rightarrow> (nat \<Rightarrow> bool \<times> waiting) \<Rightarrow> (bp_rx, unit) action" where
  "bp_process_received_payload L env = (\<lambda>(rt, area).
     if bytes_available area \<le> BPHeaderT_fixed_size then (Inr (), (rt, area))
     else bindE (on_frame des_BPHeaderT) (\<lambda>bpHdr (rt, area).
       if \<not> isWellFormed bpHdr (bp_ownNodeIdentifier rt) (ownNetworkIdentifier rt) then (Inr (), (rt, area))
       else if unat (bh_length bpHdr) > bytes_available area then (Inr (), (rt\<lparr>bp_exitFlag := True\<rparr>, area))
       else bindE (if unat (bh_length bpHdr) < bytes_available area
                   then on_frame (area_resize (BPHeaderT_fixed_size + unat (bh_length bpHdr))) else retE ()) (\<lambda>_.
            deliver_all L (map env [0..<unat (bh_numPayloads bpHdr)])) (rt, area)) (rt, area))"

text \<open>What the receiver thread does with a frame of the right type; the averages it keeps for the
  statistics are not modelled.  An exception ends the thread and sets the exit flag.\<close>

definition receiver_frame :: "bp_layout \<Rightarrow> (nat \<Rightarrow> bool \<times> waiting) \<Rightarrow> u8 list \<Rightarrow> BPRuntimeData \<Rightarrow> BPRuntimeData" where
  "receiver_frame L env payload rt =
     (let area = ByteVectorDisassemblyArea payload; rt = rt\<lparr>cntBPPayloads := cntBPPayloads rt + 1\<rparr> in
      if bp_isActive rt then
        (case bp_process_received_payload L env (rt, area) of
           (Inl e, (rt, _)) \<Rightarrow> rt\<lparr>bp_exitFlag := True\<rparr>
         | (Inr _, (rt, _)) \<Rightarrow> rt)
      else rt)"

end
