(* ===== verification/BpManagement.thy ===== *)
theory BpManagement
  imports BpTransmit BpReceive
begin

text \<open>
  Management of the beaconing demon: the commands that clients send over the command socket
  (\<open>dcp/bp/bp_management_command.cc\<close>) and the payload management thread
  (\<open>dcp/bp/bp_management_payload.cc\<close>).  A command is a request object that was received with
  the right number of bytes, or \<open>None\<close> for a wrong number; the result is the confirm primitive
  that is sent back.
\<close>

section \<open>Primitives\<close>

record BPRegisterProtocol_Request =
  rr_static_info :: BPStaticClientInfo
  rr_shm_area_name :: string
  rr_generateTransmitPayloadConfirms :: bool

record BPRegisteredProtocolDataDescription =
  rd_protocolId :: BPProtocolIdT
  rd_protocolName :: string
  rd_maxPayloadSize :: BPLengthT
  rd_queueingMode :: BPQueueingMode
  rd_timeStampRegistration :: TimeStampT
  rd_maxEntries :: u16
  rd_allowMultiplePayloads :: bool
  rd_cntOutgoingPayloads :: u32
  rd_cntReceivedPayloads :: u32
  rd_cntDroppedOutgoingPayloads :: u32
  rd_cntDroppedIncomingPayloads :: u32

datatype bp_confirm =
    Register_Confirm DcpStatus NodeIdentifierT
  | Simple_Confirm DcpServiceType DcpStatus
  | GetStatistics_Confirm DcpStatus u32
  | ListRegisteredProtocols_Confirm DcpStatus nat bool "BPRegisteredProtocolDataDescription list"
  | QueryNumberBufferedPayloads_Confirm nat

type_synonym bp_handler = "(BPRuntimeData, bp_confirm) action"

definition set_bp_exit :: "(BPRuntimeData, unit) action" where
  "set_bp_exit = modifyE (\<lambda>rt. rt\<lparr>bp_exitFlag := True\<rparr>)"

section \<open>Activation\<close>

definition handleBPShutDown_Request :: "(BPRuntimeData, unit) action" where
  "handleBPShutDown_Request = set_bp_exit"

definition handleBPActivate_Request :: "unit option \<Rightarrow> bp_handler" where
  "handleBPActivate_Request req =
     (case req of
        None \<Rightarrow> bindE set_bp_exit (\<lambda>_. retE (Simple_Confirm stBP_Activate BP_STATUS_INTERNAL_ERROR))
      | Some _ \<Rightarrow> bindE (modifyE (\<lambda>rt. rt\<lparr>bp_isActive := True\<rparr>)) (\<lambda>_.
                  retE (Simple_Confirm stBP_Activate BP_STATUS_OK)))"

definition handleBPDeactivate_Request :: "unit option \<Rightarrow> bp_handler" where
  "handleBPDeactivate_Request req =
     (case req of
        None \<Rightarrow> bindE set_bp_exit (\<lambda>_. retE (Simple_Confirm stBP_Deactivate BP_STATUS_INTERNAL_ERROR))
      | Some _ \<Rightarrow> bindE (modifyE (\<lambda>rt. rt\<lparr>bp_isActive := False\<rparr>)) (\<lambda>_.
                  retE (Simple_Confirm stBP_Deactivate BP_STATUS_OK)))"

text \<open>The averages among the statistics are not modelled.\<close>

definition handleBPGetStatistics_Request :: "unit option \<Rightarrow> bp_handler" where
  "handleBPGetStatistics_Request req =
     (case req of
        None \<Rightarrow> bindE set_bp_exit (\<lambda>_. retE (Simple_Confirm stBP_GetStatistics BP_STATUS_INTERNAL_ERROR))
      | Some _ \<Rightarrow> getE (\<lambda>rt. GetStatistics_Confirm BP_STATUS_OK (cntBPPayloads rt)))"

section \<open>Registration\<close>

definition register_confirmation :: "DcpStatus \<Rightarrow> bp_handler" where
  "register_confirmation statcode = getE (\<lambda>rt. Register_Confirm statcode (bp_ownNodeIdentifier rt))"

definition new_BPClientProtocolData ::
  "bp_layout \<Rightarrow> dcp_error + raw_queue \<times> raw_queue \<times> raw_queue \<times> raw_queue \<Rightarrow> BPStaticClientInfo \<Rightarrow> bool \<Rightarrow> TimeStampT
     \<Rightarrow> dcp_error + BPClientProtocolData" where
  "new_BPClientProtocolData L shm_area si gen_pld_confirms now =
     (case shm_area of
        Inl e \<Rightarrow> Inl e
      | Inr (m1, m2, m3, m4) \<Rightarrow>
          (case new_BPShmControlSegment L si gen_pld_confirms m1 m2 m3 m4 of
             Inl e \<Rightarrow> Inl e
           | Inr cs \<Rightarrow>
               Inr \<lparr>static_info = si, timeStampRegistration = now, pSCS = cs, cntOutgoingPayloads = 0,
                    cntReceivedPayloads = 0, cntDroppedOutgoingPayloads = 0, cntDroppedIncomingPayloads = 0\<rparr>))"

definition bp_queueing_mode_known :: "BPQueueingMode \<Rightarrow> bool" where
  "bp_queueing_mode_known qm \<longleftrightarrow> qm = BP_QMODE_ONCE \<or> qm = BP_QMODE_REPEAT \<or> qm = BP_QMODE_QUEUE_DROPTAIL \<or> qm = BP_QMODE_QUEUE_DROPHEAD"

text \<open>
  The configuration makes \<open>maxBeaconSize\<close> larger than the two headers, so the difference is exact.
  \<open>logged\<close> tells whether the message with the parameters of the request passes the filter of the
  log; \<open>bp_queueing_mode_to_string\<close>, which throws for an unknown mode, is called only then.
  \<open>shm_area\<close> is the shared memory that the operating system provides, or the exception.
\<close>

definition handleBPRegisterProtocol_Request ::
  "bp_layout \<Rightarrow> bool \<Rightarrow> dcp_error + raw_queue \<times> raw_queue \<times> raw_queue \<times> raw_queue \<Rightarrow> TimeStampT
     \<Rightarrow> BPRegisterProtocol_Request option \<Rightarrow> bp_handler" where
  "handleBPRegisterProtocol_Request L logged shm_area now request =
     (case request of
        None \<Rightarrow> bindE set_bp_exit (\<lambda>_. register_confirmation BP_STATUS_INTERNAL_ERROR)
      | Some req \<Rightarrow>
          (let sci = rr_static_info req in
           bindE (throw_if std_invalid_argument (\<lambda>_. logged \<and> \<not> bp_queueing_mode_known (ci_queueingMode sci))) (\<lambda>_ rt.
           (if clientProtocols rt (ci_protocolId sci) \<noteq> None then
              register_confirmation BP_STATUS_PROTOCOL_ALREADY_REGISTERED
            else if ci_maxPayloadSize sci = 0 then
              register_confirmation BP_STATUS_ILLEGAL_MAX_PAYLOAD_SIZE
            else if unat (ci_maxPayloadSize sci) > maxBeaconSize rt - (BPHeaderT_fixed_size + BPPayloadHeaderT_fixed_size) then
              register_confirmation BP_STATUS_ILLEGAL_MAX_PAYLOAD_SIZE
            else if (ci_queueingMode sci = BP_QMODE_QUEUE_DROPTAIL \<or> ci_queueingMode sci = BP_QMODE_QUEUE_DROPHEAD)
                    \<and> ci_maxEntries sci = 0 then
              register_confirmation BP_STATUS_ILLEGAL_DROPPING_QUEUE_SIZE
            else (case new_BPClientProtocolData L shm_area sci (rr_generateTransmitPayloadConfirms req) now of
                    Inl e \<Rightarrow> throwE e
                  | Inr clientProt \<Rightarrow>
                      bindE (modifyE (update_client (ci_protocolId sci) clientProt)) (\<lambda>_.
                      register_confirmation BP_STATUS_OK))) rt)))"

definition handleBPDeregisterProtocol_Request :: "BPProtocolIdT option \<Rightarrow> bp_handler" where
  "handleBPDeregisterProtocol_Request req =
     (case req of
        None \<Rightarrow> bindE set_bp_exit (\<lambda>_. retE (Simple_Confirm stBP_DeregisterProtocol BP_STATUS_INTERNAL_ERROR))
      | Some p \<Rightarrow> (\<lambda>rt.
          if clientProtocols rt p = None then (Inr (Simple_Confirm stBP_DeregisterProtocol BP_STATUS_UNKNOWN_PROTOCOL), rt)
          else (Inr (Simple_Confirm stBP_DeregisterProtocol BP_STATUS_OK),
                rt\<lparr>clientProtocols := (clientProtocols rt)(p := None)\<rparr>)))"

definition describe_protocol :: "BPClientProtocolData \<Rightarrow> BPRegisteredProtocolDataDescription" where
  "describe_protocol c =
     \<lparr>rd_protocolId = ci_protocolId (static_info c), rd_protocolName = ci_protocolName (static_info c),
      rd_maxPayloadSize = ci_maxPayloadSize (static_info c), rd_queueingMode = ci_queueingMode (static_info c),
      rd_timeStampRegistration = timeStampRegistration c, rd_maxEntries = ci_maxEntries (static_info c),
      rd_allowMultiplePayloads = ci_allowMultiplePayloads (static_info c),
      rd_cntOutgoingPayloads = cntOutgoingPayloads c, rd_cntReceivedPayloads = cntReceivedPayloads c,
      rd_cntDroppedOutgoingPayloads = cntDroppedOutgoingPayloads c, rd_cntDroppedIncomingPayloads = cntDroppedIncomingPayloads c\<rparr>"

definition handleBPListRegisteredProtocols_Request :: "unit option \<Rightarrow> bp_handler" where
  "handleBPListRegisteredProtocols_Request req =
     (case req of
        None \<Rightarrow> bindE set_bp_exit (\<lambda>_. retE (ListRegisteredProtocols_Confirm BP_STATUS_INTERNAL_ERROR 0 False []))
      | Some _ \<Rightarrow> getE (\<lambda>rt. ListRegisteredProtocols_Confirm BP_STATUS_OK (length (protocol_ids rt)) (bp_isActive rt)
                    (map (\<lambda>p. describe_protocol (the (clientProtocols rt p))) (protocol_ids rt))))"

section \<open>Buffers of a client\<close>

definition handleRegularRequestUsingSharedMemory ::
  "DcpServiceType \<Rightarrow> BPProtocolIdT option \<Rightarrow> (BPProtocolIdT \<Rightarrow> BPClientProtocolData \<Rightarrow> bp_handler) \<Rightarrow> bp_handler" where
  "handleRegularRequestUsingSharedMemory ct req act =
     (case req of
        None \<Rightarrow> bindE set_bp_exit (\<lambda>_. retE (Simple_Confirm ct BP_STATUS_INTERNAL_ERROR))
      | Some p \<Rightarrow> (\<lambda>rt.
          case clientProtocols rt p of
            None \<Rightarrow> (Inr (Simple_Confirm ct BP_STATUS_UNKNOWN_PROTOCOL), rt)
          | Some clientProt \<Rightarrow> act p clientProt rt))"

definition on_client_queue :: "BPProtocolIdT \<Rightarrow> (ShmFiniteQueue, 'a) action \<Rightarrow> (BPRuntimeData, 'a) action" where
  "on_client_queue p = zoomE (\<lambda>rt. cs_queue (pSCS (the (clientProtocols rt p))))
     (\<lambda>q rt. let c = the (clientProtocols rt p) in update_client p (c\<lparr>pSCS := (pSCS c)\<lparr>cs_queue := q\<rparr>\<rparr>) rt)"

definition on_client_buffer :: "BPProtocolIdT \<Rightarrow> (ShmFiniteQueue, 'a) action \<Rightarrow> (BPRuntimeData, 'a) action" where
  "on_client_buffer p = zoomE (\<lambda>rt. cs_buffer (pSCS (the (clientProtocols rt p))))
     (\<lambda>q rt. let c = the (clientProtocols rt p) in update_client p (c\<lparr>pSCS := (pSCS c)\<lparr>cs_buffer := q\<rparr>\<rparr>) rt)"

definition handleBPClearBuffer_Request :: "BPProtocolIdT option \<Rightarrow> bp_handler" where
  "handleBPClearBuffer_Request req =
     handleRegularRequestUsingSharedMemory stBP_ClearBuffer req (\<lambda>p clientProt.
       let qm = ci_queueingMode (static_info clientProt) in
       if qm = BP_QMODE_ONCE \<or> qm = BP_QMODE_REPEAT then
         bindE (on_client_buffer p shm_reset) (\<lambda>_. retE (Simple_Confirm stBP_ClearBuffer BP_STATUS_OK))
       else if qm = BP_QMODE_QUEUE_DROPHEAD \<or> qm = BP_QMODE_QUEUE_DROPTAIL then
         bindE (on_client_queue p shm_reset) (\<lambda>_. retE (Simple_Confirm stBP_ClearBuffer BP_STATUS_OK))
       else bindE set_bp_exit (\<lambda>_. retE (Simple_Confirm stBP_ClearBuffer BP_STATUS_INTERNAL_ERROR)))"

definition handleBPQueryNumberBufferedPayloads_Request :: "BPProtocolIdT option \<Rightarrow> bp_handler" where
  "handleBPQueryNumberBufferedPayloads_Request req =
     handleRegularRequestUsingSharedMemory stBP_QueryNumberBufferedPayloads req (\<lambda>p clientProt.
       let qm = ci_queueingMode (static_info clientProt) in
       if qm = BP_QMODE_ONCE \<or> qm = BP_QMODE_REPEAT then
         retE (QueryNumberBufferedPayloads_Confirm (shm_stored_elements (cs_buffer (pSCS clientProt))))
       else if qm = BP_QMODE_QUEUE_DROPHEAD \<or> qm = BP_QMODE_QUEUE_DROPTAIL then
         retE (QueryNumberBufferedPayloads_Confirm (shm_stored_elements (cs_queue (pSCS clientProt))))
       else bindE set_bp_exit (\<lambda>_. retE (Simple_Confirm stBP_QueryNumberBufferedPayloads BP_STATUS_INTERNAL_ERROR)))"

section \<open>The command socket\<close>

text \<open>Requests by service type; some are handled under the mutex of the client protocols.\<close>

datatype bp_command =
    RegisterProtocol bool "dcp_error + raw_queue \<times> raw_queue \<times> raw_queue \<times> raw_queue" TimeStampT "BPRegisterProtocol_Request option"
  | DeregisterProtocol "BPProtocolIdT option"
  | ListRegisteredProtocols "unit option"
  | ShutDown
  | Activate "unit option"
  | Deactivate "unit option"
  | GetStatistics "unit option"
  | ClearBuffer "BPProtocolIdT option"
  | QueryNumberBufferedPayloads "BPProtocolIdT option"
  | UnknownService DcpServiceType

definition with_clients_locked :: "(BPRuntimeData, 'a) action \<Rightarrow> (BPRuntimeData, 'a) action" where
  "with_clients_locked m =
     bindE (modifyE lock_clients) (\<lambda>_. bindE m (\<lambda>x. bindE (modifyE unlock_clients) (\<lambda>_. retE x)))"

abbreviation confirmed :: "bp_handler \<Rightarrow> (BPRuntimeData, bp_confirm option) action" where
  "confirmed m \<equiv> bindE m (\<lambda>c. retE (Some c))"

fun handle_command_socket :: "bp_layout \<Rightarrow> bp_command \<Rightarrow> (BPRuntimeData, bp_confirm option) action" where
  "handle_command_socket L (RegisterProtocol logged shm_area now req) =
     with_clients_locked (confirmed (handleBPRegisterProtocol_Request L logged shm_area now req))"
| "handle_command_socket L (DeregisterProtocol req) =
     with_clients_locked (confirmed (handleBPDeregisterProtocol_Request req))"
| "handle_command_socket L (ListRegisteredProtocols req) =
     with_clients_locked (confirmed (handleBPListRegisteredProtocols_Request req))"
| "handle_command_socket L ShutDown = bindE handleBPShutDown_Request (\<lambda>_. retE None)"
| "handle_command_socket L (Activate req) = confirmed (handleBPActivate_Request req)"
| "handle_command_socket L (Deactivate req) = confirmed (handleBPDeactivate_Request req)"
| "handle_command_socket L (GetStatistics req) = confirmed (handleBPGetStatistics_Request req)"
| "handle_command_socket L (ClearBuffer req) = with_clients_locked (confirmed (handleBPClearBuffer_Request req))"
| "handle_command_socket L (QueryNumberBufferedPayloads req) =
     with_clients_locked (confirmed (handleBPQueryNumberBufferedPayloads_Request req))"
| "handle_command_socket L (UnknownService st) = bindE set_bp_exit (\<lambda>_. retE None)"

section \<open>The payload management thread\<close>

definition send_transmit_payload_confirmation ::
  "bp_layout \<Rightarrow> DcpStatus \<Rightarrow> bool \<Rightarrow> waiting \<Rightarrow> (bool \<times> BPShmControlSegment, unit) action" where
  "send_transmit_payload_confirmation L status_code owns wait = (\<lambda>(exitFlag, cs).
     if \<not> generateTransmitPayloadConfirms cs then (Inr (), (exitFlag, cs))
     else bindE (zoomE (\<lambda>(e, cs). (e, pqTransmitPayloadConfirm cs)) (\<lambda>(e, q) (_, cs). (e, cs\<lparr>pqTransmitPayloadConfirm := q\<rparr>))
            (push_wait (\<lambda>sz (e, bs).
                if conf_size L > sz then (Inr 0, (True, bs))
                else (Inr (conf_size L), (e, conf_image L status_code @ drop (conf_size L) bs)))
              defaultLongSharedMemoryLockTimeoutMS owns wait)) (\<lambda>timed_out.
          if timed_out then modifyE (\<lambda>(_, cs). (True, cs)) else retE ()) (exitFlag, cs))"

definition reset_client :: "BPProtocolIdT \<Rightarrow> (BPRuntimeData, unit) action" where
  "reset_client p rt =
     (if \<not> bp_isActive rt \<or> bp_exitFlag rt then
        bindE (on_client_queue p shm_reset) (\<lambda>_. on_client_buffer p shm_reset) rt
      else (Inr (), rt))"

definition handle_payload_from_client :: "(BPRuntimeData, unit) action" where
  "handle_payload_from_client rt = forE reset_client (protocol_ids rt) rt"

definition payload_management_round :: "BPRuntimeData \<Rightarrow> BPRuntimeData" where
  "payload_management_round rt =
     (case with_clients_locked handle_payload_from_client rt of
        (Inl e, rt) \<Rightarrow> rt\<lparr>bp_exitFlag := True\<rparr>
      | (Inr _, rt) \<Rightarrow> rt)"

end
