(* ===== verification/BpBeacon.thy ===== *)
theory BpBeacon
  imports BpManagement
begin

text \<open>
  Correctness of beacons: what \<open>generate_beacon\<close> puts into a beacon, and that the receiver
  delivers exactly that.
\<close>

section \<open>Messages of the clients\<close>

text \<open>The queue that the transmitter reads for a client, and what it expects in it.\<close>

definition is_queue_mode :: "BPQueueingMode \<Rightarrow> bool" where
  "is_queue_mode qm \<longleftrightarrow> qm = BP_QMODE_QUEUE_DROPTAIL \<or> qm = BP_QMODE_QUEUE_DROPHEAD"

definition outgoing :: "BPClientProtocolData \<Rightarrow> ShmFiniteQueue" where
  "outgoing c = (if is_queue_mode (ci_queueingMode (static_info c)) then cs_queue (pSCS c) else cs_buffer (pSCS c))"

abbreviation indications :: "BPClientProtocolData \<Rightarrow> ShmFiniteQueue" where
  "indications c \<equiv> pqReceivePayloadIndication (pSCS c)"

definition request_of :: "bp_layout \<Rightarrow> u8 list \<Rightarrow> u8 list \<Rightarrow> bool" where
  "request_of L m pl \<longleftrightarrow> (\<exists>p. m = req_image L p (of_nat (length pl)) @ pl) \<and> pl \<noteq> [] \<and> length pl < 65536"

definition client_ok :: "bp_layout \<Rightarrow> BPClientProtocolData \<Rightarrow> bool" where
  "client_ok L c \<longleftrightarrow> shm_ok (outgoing c) \<and> bp_queueing_mode_known (ci_queueingMode (static_info c))
     \<and> (\<forall>m \<in> set (shm_msgs (outgoing c)). \<exists>pl. request_of L m pl)"

text \<open>What a client has to send: the payload at the head of its queue.\<close>

definition contribution :: "bp_layout \<Rightarrow> BPClientProtocolData \<Rightarrow> (BPProtocolIdT \<times> u8 list) list" where
  "contribution L c = (case shm_msgs (outgoing c) of
     [] \<Rightarrow> [] | m # _ \<Rightarrow> [(ci_protocolId (static_info c), drop (req_size L) m)])"

definition enc_payload :: "BPProtocolIdT \<times> u8 list \<Rightarrow> u8 list" where
  "enc_payload x = enc_BPPayloadHeaderT \<lparr>ph_protocolId = fst x, ph_length = of_nat (length (snd x))\<rparr> @ snd x"

lemma length_enc_payload [simp]: "length (enc_payload x) = 4 + length (snd x)"
  by (simp add: enc_payload_def BPPayloadHeaderT_fixed_size_def)

text \<open>A client after one round: the head of its queue is gone, unless it is to be repeated.\<close>

definition sent_from :: "bp_layout \<Rightarrow> BPClientProtocolData \<Rightarrow> BPClientProtocolData \<Rightarrow> bool" where
  "sent_from L c c' \<longleftrightarrow> client_ok L c' \<and> static_info c' = static_info c \<and> indications c' = indications c
     \<and> shm_msgs (outgoing c') = (if ci_queueingMode (static_info c) = BP_QMODE_REPEAT
          then shm_msgs (outgoing c) else tl (shm_msgs (outgoing c)))
     \<and> cntOutgoingPayloads c' = cntOutgoingPayloads c + of_nat (length (contribution L c))"

lemma request_of_facts:
  assumes "layout_ok L" "request_of L m pl"
  shows "req_length L m = of_nat (length pl)" "unat (req_length L m) = length pl" "drop (req_size L) m = pl"
    "length m = req_size L + length pl"
proof -
  obtain p where m: "m = req_image L p (of_nat (length pl)) @ pl" "pl \<noteq> []" "length pl < 65536"
    using assms(2) by (auto simp: request_of_def)
  show l: "req_length L m = of_nat (length pl)" using assms(1) m(1) by (simp add: layout_ok_def)
  show "unat (req_length L m) = length pl" unfolding l using m(3) by (simp add: unat_of_nat take_bit_eq_mod)
  show "drop (req_size L) m = pl" "length m = req_size L + length pl" using assms(1) m(1) by (simp_all add: layout_ok_def)
qed

section \<open>One payload\<close>

lemma add_payload_handler_ok:
  assumes "layout_ok L" "request_of L m pl" "wf_aa (bc_area b)" "4 + length pl \<le> bytes_available (bc_area b)"
  shows "add_payload_handler L p m b = (Inr (), b\<lparr>bc_area := aa_append (enc_payload (p, pl)) (bc_area b),
    bc_numPayloads := bc_numPayloads b + 1, bc_cntOutgoing := bc_cntOutgoing b + 1\<rparr>)"
proof -
  note f = request_of_facts [OF assms(1,2)]
  let ?h = "\<lparr>ph_protocolId = p, ph_length = of_nat (length pl)\<rparr>" and ?a = "bc_area b"
  have a: "ser_BPPayloadHeaderT ?h ?a = (Inr (), aa_append (enc_BPPayloadHeaderT ?h) ?a)"
    using assms(3,4) by (intro pldhdr_codec.ser) (simp_all add: BPPayloadHeaderT_fixed_size_def)
  have "pl \<noteq> []" using assms(2) by (simp add: request_of_def)
  then have "serialize_byte_block (length pl) (Some pl) (aa_append (enc_BPPayloadHeaderT ?h) ?a)
      = (Inr (), aa_append pl (aa_append (enc_BPPayloadHeaderT ?h) ?a))"
    using assms(3,4) by (intro ser_block) (simp_all add: BPPayloadHeaderT_fixed_size_def)
  also have "aa_append pl (aa_append (enc_BPPayloadHeaderT ?h) ?a) = aa_append (enc_payload (p, pl)) ?a"
    using assms(3,4) by (simp add: aa_append_append enc_payload_def BPPayloadHeaderT_fixed_size_def)
  finally show ?thesis
    using a f by (simp add: add_payload_handler_def serialize_payload_def bindE_def zoomE_def)
qed

lemma known_mode_cases:
  assumes "bp_queueing_mode_known qm"
  obtains "is_queue_mode qm" "qm \<noteq> BP_QMODE_REPEAT" | "qm = BP_QMODE_ONCE" "\<not> is_queue_mode qm"
    | "qm = BP_QMODE_REPEAT" "\<not> is_queue_mode qm" "qm \<noteq> BP_QMODE_ONCE"
  using assms by (auto simp: bp_queueing_mode_known_def is_queue_mode_def qmode_defs)

lemma timeout_nonzero [simp]: "defaultLongSharedMemoryLockTimeoutMS \<noteq> 0"
  by (simp add: defaultLongSharedMemoryLockTimeoutMS_def)

text \<open>The queues of a client, read and written through its entry.\<close>

lemma on_segment_queue:
  "on_segment p e (on_cs_queue m) g = (case m (gen_beacon_of e g, cs_queue (pSCS e)) of
     (r, (b, q)) \<Rightarrow> (r, put_gen p e (b, (pSCS e)\<lparr>cs_queue := q\<rparr>) g))"
  by (simp add: on_segment_def zoomE_def split: prod.split)

lemma on_segment_buffer:
  "on_segment p e (on_cs_buffer m) g = (case m (gen_beacon_of e g, cs_buffer (pSCS e)) of
     (r, (b, q)) \<Rightarrow> (r, put_gen p e (b, (pSCS e)\<lparr>cs_buffer := q\<rparr>) g))"
  by (simp add: on_segment_def zoomE_def split: prod.split)

definition with_outgoing :: "BPClientProtocolData \<Rightarrow> ShmFiniteQueue \<Rightarrow> BPShmControlSegment" where
  "with_outgoing c q = (if is_queue_mode (ci_queueingMode (static_info c))
     then (pSCS c)\<lparr>cs_queue := q\<rparr> else (pSCS c)\<lparr>cs_buffer := q\<rparr>)"

text \<open>All modes in one equation.\<close>

lemma attempt_add_payload_eq:
  assumes "clientProtocols (g_rt g) p = Some c" "bp_queueing_mode_known (ci_queueingMode (static_info c))"
    "reader = (if ci_queueingMode (static_info c) = BP_QMODE_REPEAT
       then bindE (peek_nowait (add_payload_handler L (ci_protocolId (static_info c))) defaultLongSharedMemoryLockTimeoutMS owns)
              (\<lambda>timed_out. retE (timed_out, False))
       else pop_nowait (add_payload_handler L (ci_protocolId (static_info c))) defaultLongSharedMemoryLockTimeoutMS owns)"
  shows "attempt_add_payload L owns p g = (case reader (gen_beacon_of c g, outgoing c) of
     (Inl e, (b, q)) \<Rightarrow> (Inl e, put_gen p c (b, with_outgoing c q) g)
   | (Inr (timed_out, further), (b, q)) \<Rightarrow> (Inr (), (let g = put_gen p c (b, with_outgoing c q) g in
        if timed_out then g\<lparr>g_rt := (g_rt g)\<lparr>bp_exitFlag := True\<rparr>\<rparr> else g)))"
  using assms(2)
proof (cases rule: known_mode_cases)
  case 1
  then show ?thesis
    unfolding attempt_add_payload_def Let_def assms(1,3)
    by (simp add: bindE_def on_segment_queue outgoing_def with_outgoing_def is_queue_mode_def [symmetric]
        split: prod.split sum.split)
next
  case 2
  then have "BP_QMODE_ONCE \<noteq> BP_QMODE_REPEAT" by (simp add: qmode_defs)
  with 2 show ?thesis
    unfolding attempt_add_payload_def Let_def assms(1,3)
    by (simp add: bindE_def on_segment_buffer outgoing_def with_outgoing_def is_queue_mode_def [symmetric]
        split: prod.split sum.split)
next
  case 3
  then show ?thesis
    unfolding attempt_add_payload_def Let_def assms(1,3)
    by (simp add: bindE_def on_segment_buffer outgoing_def with_outgoing_def is_queue_mode_def [symmetric]
        split: prod.split sum.split)
qed

lemma with_outgoing_facts [simp]:
  "outgoing (c\<lparr>pSCS := with_outgoing c q, cntOutgoingPayloads := n\<rparr>) = q"
  "pqReceivePayloadIndication (with_outgoing c q) = indications c"
  by (simp_all add: outgoing_def with_outgoing_def)

lemma with_outgoing_same [simp]: "with_outgoing c (outgoing c) = pSCS c"
  by (simp add: outgoing_def with_outgoing_def)

lemma put_gen_same:
  assumes "clientProtocols (g_rt g) p = Some c"
  shows "put_gen p c (gen_beacon_of c g, pSCS c) g = g"
  using assms by (cases g) (simp add: put_gen_def gen_beacon_of_def fun_upd_idem)

lemma attempt_ok:
  assumes L: "layout_ok L" and c: "clientProtocols (g_rt g) p = Some c" "client_ok L c" and a: "wf_aa (g_area g)"
    and room: "length (concat (map enc_payload (contribution L c))) \<le> bytes_available (g_area g)"
  obtains c' where "attempt_add_payload L True p g = (Inr (),
      \<lparr>g_rt = update_client p c' (g_rt g), g_area = aa_append (concat (map enc_payload (contribution L c))) (g_area g),
       g_num = g_num g + of_nat (length (contribution L c))\<rparr>)" "sent_from L c c'"
proof -
  let ?h = "add_payload_handler L (ci_protocolId (static_info c))"
  let ?b = "gen_beacon_of c g"
  have ok: "shm_ok (outgoing c)" "bp_queueing_mode_known (ci_queueingMode (static_info c))"
    using c(2) by (simp_all add: client_ok_def)
  note eq = attempt_add_payload_eq [OF c(1) ok(2) refl, of L True]
  have gen: "\<lparr>g_rt = update_client p c (g_rt g), g_area = g_area g, g_num = g_num g\<rparr> = g"
    using c(1) by (cases g) (simp add: fun_upd_idem)
  show thesis
  proof (cases "shm_msgs (outgoing c)")
    case Nil
    have nd: "\<not> has_data (outgoing c)" using ok(1) Nil by (auto elim!: shm_okE)
    have "attempt_add_payload L True p g = (Inr (), g)"
      unfolding eq using pop_nowait_empty [OF ok(1) Nil timeout_nonzero, of ?h ?b] nd
      by (auto simp: bindE_def peek_nowait_def put_gen_same [OF c(1)] split: if_splits)
    moreover have "sent_from L c c" using c(2) Nil by (simp add: sent_from_def contribution_def)
    ultimately show ?thesis using that [of c] Nil gen by (simp add: contribution_def)
  next
    case (Cons m ms)
    obtain pl where pl: "request_of L m pl" using c(2) Cons by (auto simp: client_ok_def)
    have con: "contribution L c = [(ci_protocolId (static_info c), pl)]"
      using Cons request_of_facts [OF L pl] by (simp add: contribution_def)
    let ?b' = "?b\<lparr>bc_area := aa_append (enc_payload (ci_protocolId (static_info c), pl)) (bc_area ?b),
        bc_numPayloads := bc_numPayloads ?b + 1, bc_cntOutgoing := bc_cntOutgoing ?b + 1\<rparr>"
    have h: "?h m ?b = (Inr (), ?b')"
      using a room con by (intro add_payload_handler_ok [OF L pl]) (simp_all add: gen_beacon_of_def)
    have msgs: "\<forall>m' \<in> set (m # ms). \<exists>pl. request_of L m' pl" using c(2) Cons by (simp add: client_ok_def)
    show ?thesis
    proof (cases "ci_queueingMode (static_info c) = BP_QMODE_REPEAT")
      case True
      let ?c = "c\<lparr>pSCS := with_outgoing c (outgoing c), cntOutgoingPayloads := cntOutgoingPayloads c + 1\<rparr>"
      have "attempt_add_payload L True p g = (Inr (), put_gen p c (?b', with_outgoing c (outgoing c)) g)"
        unfolding eq using True peek_nowait_ok [where handler = ?h, OF ok(1) Cons h timeout_nonzero]
        by (simp add: bindE_def Let_def)
      moreover have "outgoing ?c = outgoing c" by (rule with_outgoing_facts(1))
      then have "sent_from L c ?c"
        using c(2) True con unfolding sent_from_def client_ok_def by simp
      ultimately show ?thesis using that [of ?c] con by (simp add: put_gen_def gen_beacon_of_def)
    next
      case False
      from pop_nowait_ok [where handler = ?h, OF ok(1) Cons h timeout_nonzero] obtain q' where
        q': "pop_nowait ?h defaultLongSharedMemoryLockTimeoutMS True (?b, outgoing c) = (Inr (False, ms \<noteq> []), (?b', q'))"
        "shm_ok q'" "shm_msgs q' = ms" by blast
      let ?c = "c\<lparr>pSCS := with_outgoing c q', cntOutgoingPayloads := cntOutgoingPayloads c + 1\<rparr>"
      have "attempt_add_payload L True p g = (Inr (), put_gen p c (?b', with_outgoing c q') g)"
        unfolding eq using False q'(1) by (simp add: Let_def)
      moreover have "outgoing ?c = q'" by (rule with_outgoing_facts(1))
      then have "sent_from L c ?c"
        using c(2) q'(2,3) msgs False con Cons unfolding sent_from_def client_ok_def by simp
      ultimately show ?thesis using that [of ?c] con by (simp add: put_gen_def gen_beacon_of_def)
    qed
  qed
qed

section \<open>The beacon\<close>

definition contributions :: "bp_layout \<Rightarrow> BPRuntimeData \<Rightarrow> BPProtocolIdT list \<Rightarrow> (BPProtocolIdT \<times> u8 list) list" where
  "contributions L rt ps = concat (map (\<lambda>p. contribution L (the (clientProtocols rt p))) ps)"

abbreviation enc_payloads :: "(BPProtocolIdT \<times> u8 list) list \<Rightarrow> u8 list" where
  "enc_payloads pls \<equiv> concat (map enc_payload pls)"

lemma contributions_simps [simp]:
  "contributions L rt [] = []"
  "contributions L rt (p # ps) = contribution L (the (clientProtocols rt p)) @ contributions L rt ps"
  by (simp_all add: contributions_def)

lemma contributions_cong:
  "(\<And>p. p \<in> set ps \<Longrightarrow> clientProtocols rt p = clientProtocols rt' p) \<Longrightarrow> contributions L rt ps = contributions L rt' ps"
  unfolding contributions_def by (intro arg_cong [of _ _ concat] map_cong) auto

lemma attempt_all_ok:
  assumes "layout_ok L" "\<forall>p \<in> set ps. \<exists>c. clientProtocols (g_rt g) p = Some c \<and> client_ok L c" "distinct ps"
    "wf_aa (g_area g)" "\<not> bp_exitFlag (g_rt g)"
    "length (enc_payloads (contributions L (g_rt g) ps)) \<le> bytes_available (g_area g)"
  shows "\<exists>cps. attempt_all L (\<lambda>_. True) ps g = (Inr (), \<lparr>g_rt = (g_rt g)\<lparr>clientProtocols := cps\<rparr>,
      g_area = aa_append (enc_payloads (contributions L (g_rt g) ps)) (g_area g),
      g_num = g_num g + of_nat (length (contributions L (g_rt g) ps))\<rparr>)
    \<and> (\<forall>p. p \<notin> set ps \<longrightarrow> cps p = clientProtocols (g_rt g) p)
    \<and> (\<forall>p \<in> set ps. \<exists>c'. cps p = Some c' \<and> sent_from L (the (clientProtocols (g_rt g) p)) c')"
  using assms(2-)
proof (induction ps arbitrary: g)
  case Nil
  then show ?case by (intro exI [of _ "clientProtocols (g_rt g)"]) (cases g, simp)
next
  case (Cons p ps)
  obtain c where c: "clientProtocols (g_rt g) p = Some c" "client_ok L c" using Cons.prems(1) by auto
  let ?x = "contribution L c" and ?xs = "contributions L (g_rt g) ps"
  have room: "length (enc_payloads ?x) + length (enc_payloads ?xs) \<le> bytes_available (g_area g)"
    using Cons.prems(5) c by simp
  then obtain c' where c': "attempt_add_payload L True p g = (Inr (),
      \<lparr>g_rt = update_client p c' (g_rt g), g_area = aa_append (enc_payloads ?x) (g_area g),
       g_num = g_num g + of_nat (length ?x)\<rparr>)" "sent_from L c c'"
    using attempt_ok [OF assms(1) c Cons.prems(3)] by (metis add_leD1)
  let ?g = "\<lparr>g_rt = update_client p c' (g_rt g), g_area = aa_append (enc_payloads ?x) (g_area g),
       g_num = g_num g + of_nat (length ?x)\<rparr>"
  have np: "p \<notin> set ps" using Cons.prems(2) by simp
  have cs: "contributions L (g_rt ?g) ps = ?xs" using np by (intro contributions_cong) auto
  have "\<forall>p \<in> set ps. \<exists>c. clientProtocols (g_rt ?g) p = Some c \<and> client_ok L c" using Cons.prems(1) np by auto
  moreover have "wf_aa (g_area ?g)" using Cons.prems(3) room by simp
  moreover have "length (enc_payloads (contributions L (g_rt ?g) ps)) \<le> bytes_available (g_area ?g)"
    unfolding cs using room by simp
  ultimately obtain cps where r: "attempt_all L (\<lambda>_. True) ps ?g = (Inr (), \<lparr>g_rt = (g_rt ?g)\<lparr>clientProtocols := cps\<rparr>,
      g_area = aa_append (enc_payloads ?xs) (g_area ?g), g_num = g_num ?g + of_nat (length ?xs)\<rparr>)"
    "\<forall>p. p \<notin> set ps \<longrightarrow> cps p = clientProtocols (g_rt ?g) p"
    "\<forall>p \<in> set ps. \<exists>c'. cps p = Some c' \<and> sent_from L (the (clientProtocols (g_rt ?g) p)) c'"
    using Cons.IH [of ?g] Cons.prems(2,4) unfolding cs by auto
  have "attempt_all L (\<lambda>_. True) (p # ps) g = (Inr (), \<lparr>g_rt = (g_rt g)\<lparr>clientProtocols := cps\<rparr>,
      g_area = aa_append (enc_payloads (contributions L (g_rt g) (p # ps))) (g_area g),
      g_num = g_num g + of_nat (length (contributions L (g_rt g) (p # ps)))\<rparr>)"
    using c'(1) r(1) c(1) Cons.prems(3,4) room by (simp add: bindE_def aa_append_append add.assoc)
  moreover have "\<forall>q. q \<notin> set (p # ps) \<longrightarrow> cps q = clientProtocols (g_rt g) q" using r(2) by simp
  moreover have "\<exists>c'. cps q = Some c' \<and> sent_from L (the (clientProtocols (g_rt g) q)) c'" if "q \<in> set (p # ps)" for q
  proof (cases "q = p")
    case True
    with r(2) np c c'(2) show ?thesis by simp
  next
    case False
    with that r(3) show ?thesis by auto
  qed
  ultimately show ?case by blast
qed

text \<open>All clients after the round.\<close>

definition clients_after :: "bp_layout \<Rightarrow> BPRuntimeData \<Rightarrow> (BPProtocolIdT \<rightharpoonup> BPClientProtocolData) \<Rightarrow> bool" where
  "clients_after L rt cps \<longleftrightarrow> (\<forall>p. case clientProtocols rt p of None \<Rightarrow> cps p = None
     | Some c \<Rightarrow> \<exists>c'. cps p = Some c' \<and> sent_from L c c')"

definition bp_sender_ok :: "bp_layout \<Rightarrow> BPRuntimeData \<Rightarrow> bool" where
  "bp_sender_ok L rt \<longleftrightarrow> finite (dom (clientProtocols rt)) \<and> (\<forall>p c. clientProtocols rt p = Some c \<longrightarrow> client_ok L c)
     \<and> bp_isActive rt \<and> \<not> bp_exitFlag rt"

lemma set_protocol_ids: "finite (dom (clientProtocols rt)) \<Longrightarrow> set (protocol_ids rt) = dom (clientProtocols rt)"
  and distinct_protocol_ids [simp]: "distinct (protocol_ids rt)"
  by (simp_all add: protocol_ids_def)

lemma generate_beacon_ok:
  fixes rt L
  defines "pls \<equiv> contributions L rt (protocol_ids rt)"
  assumes "layout_ok L" "bp_sender_ok L rt" "BPHeaderT_fixed_size + length (enc_payloads pls) \<le> maxBeaconSize rt"
    "length pls < 2 ^ 32"
  obtains cps where "generate_beacon L (\<lambda>_. True) rt = (if pls = [] then (Inr None, rt\<lparr>clientProtocols := cps\<rparr>)
      else (Inr (Some (enc_BPHeaderT (beacon_header rt (BPHeaderT_fixed_size + length (enc_payloads pls)) (of_nat (length pls)))
              @ enc_payloads pls)),
            rt\<lparr>clientProtocols := cps, bpSequenceNumber := bpSequenceNumber rt + 1\<rparr>))"
    "clients_after L rt cps"
proof -
  let ?N = "BPHeaderT_fixed_size"
  have rt: "finite (dom (clientProtocols rt))" "bp_isActive rt" "\<not> bp_exitFlag rt"
    and ok: "\<And>p c. clientProtocols rt p = Some c \<Longrightarrow> client_ok L c"
    using assms(3) by (auto simp: bp_sender_ok_def)
  have N: "0 < ?N" by (simp add: BPHeaderT_fixed_size_def)
  have M: "0 < maxBeaconSize rt" "?N \<le> maxBeaconSize rt" using assms(4) N by linarith+
  let ?v = "replicate (maxBeaconSize rt) (0 :: u8)"
  obtain a where a: "ByteVectorAssemblyArea_vect (maxBeaconSize rt) ?v = Inr a" "wf_aa a" "bytes_available a = maxBeaconSize rt"
    "bytes_used a = 0" "aa_buffer a = ?v" "aa_kind a = ByteVector" "initial_available a = maxBeaconSize rt"
    using M(1) by (auto simp: ByteVectorAssemblyArea_vect_def wf_aa_def wf_area_def)
  define b where "b = a\<lparr>bytes_used := bytes_used a + ?N, bytes_available := bytes_available a - ?N\<rparr>"
  have res: "BPHeaderT_reserve a = (Inr (), b)" using a(3) M(2) by (simp add: BPHeaderT_reserve_def area_incr_def b_def)
  have b: "wf_aa b" "bytes_available b = maxBeaconSize rt - ?N" "aa_written b = replicate ?N 0"
    using a(2-7) M(2) by (auto simp: b_def wf_aa_def wf_area_def aa_written_def)
  let ?g = "\<lparr>g_rt = rt, g_area = b, g_num = 0\<rparr>"
  have g: "\<forall>p \<in> set (protocol_ids rt). \<exists>c. clientProtocols (g_rt ?g) p = Some c \<and> client_ok L c"
    "wf_aa (g_area ?g)" "\<not> bp_exitFlag (g_rt ?g)"
    "length (enc_payloads (contributions L (g_rt ?g) (protocol_ids rt))) \<le> bytes_available (g_area ?g)"
    using ok set_protocol_ids [OF rt(1)] b(1,2) rt(3) assms(4) by (auto simp: pls_def)
  from attempt_all_ok [OF assms(2) g(1) distinct_protocol_ids g(2-4)] obtain cps where r0:
    "attempt_all L (\<lambda>_. True) (protocol_ids rt) ?g = (Inr (), \<lparr>g_rt = (g_rt ?g)\<lparr>clientProtocols := cps\<rparr>,
      g_area = aa_append (enc_payloads (contributions L (g_rt ?g) (protocol_ids rt))) (g_area ?g),
      g_num = g_num ?g + of_nat (length (contributions L (g_rt ?g) (protocol_ids rt)))\<rparr>)"
    "\<forall>p. p \<notin> set (protocol_ids rt) \<longrightarrow> cps p = clientProtocols (g_rt ?g) p"
    "\<forall>p \<in> set (protocol_ids rt). \<exists>c'. cps p = Some c' \<and> sent_from L (the (clientProtocols (g_rt ?g) p)) c'" by blast
  then have r: "attempt_all L (\<lambda>_. True) (protocol_ids rt) ?g = (Inr (), \<lparr>g_rt = rt\<lparr>clientProtocols := cps\<rparr>,
      g_area = aa_append (enc_payloads pls) b, g_num = of_nat (length pls)\<rparr>)"
    "\<And>p. p \<notin> set (protocol_ids rt) \<Longrightarrow> cps p = clientProtocols rt p"
    "\<And>p. p \<in> set (protocol_ids rt) \<Longrightarrow> \<exists>c'. cps p = Some c' \<and> sent_from L (the (clientProtocols rt p)) c'"
    by (simp_all add: pls_def)
  have after: "clients_after L rt cps"
    unfolding clients_after_def
  proof
    fix p
    show "case clientProtocols rt p of None \<Rightarrow> cps p = None | Some c \<Rightarrow> \<exists>c'. cps p = Some c' \<and> sent_from L c c'"
      using r(2) [of p] r(3) [of p] set_protocol_ids [OF rt(1)] by (cases "clientProtocols rt p") auto
  qed
  have num: "(of_nat (length pls) :: u32) = 0 \<longleftrightarrow> pls = []"
    using assms(5) by (auto simp: word_of_nat_eq_0_iff dvd_imp_le)
  have gen: "bindE (zoomE g_area (\<lambda>a g. g\<lparr>g_area := a\<rparr>) BPHeaderT_reserve) (\<lambda>_. attempt_all L (\<lambda>_. True) (protocol_ids rt))
      \<lparr>g_rt = rt, g_area = a, g_num = 0\<rparr> = (Inr (), \<lparr>g_rt = rt\<lparr>clientProtocols := cps\<rparr>,
        g_area = aa_append (enc_payloads pls) b, g_num = of_nat (length pls)\<rparr>)"
    using r(1) res by (simp add: bindE_def zoomE_def)
  show thesis
  proof (cases "pls = []")
    case True
    then have "generate_beacon L (\<lambda>_. True) rt = (Inr None, rt\<lparr>clientProtocols := cps\<rparr>)"
      using rt(2) a(1) gen by (simp add: generate_beacon_def)
    with that after True show ?thesis by simp
  next
    case False
    let ?used = "?N + length (enc_payloads pls)" and ?bv = "replicate ?N 0 @ enc_payloads pls"
    let ?hdr = "beacon_header rt ?used (of_nat (length pls))"
    have w: "aa_written (aa_append (enc_payloads pls) b) = ?bv" using b assms(4) by simp
    have u: "bytes_used (aa_append (enc_payloads pls) b) = ?used" using a(4) by (simp add: b_def)
    obtain t where t: "ByteVectorAssemblyArea_vect ?N ?bv = Inr t" "aa_buffer t = ?bv" "bytes_used t = 0" "bytes_available t = ?N"
      "aa_kind t = ByteVector" "wf_aa t"
      using N by (auto simp: ByteVectorAssemblyArea_vect_def wf_aa_def wf_area_def)
    have s: "ser_BPHeaderT ?hdr t = (Inr (), aa_append (enc_BPHeaderT ?hdr) t)" using t(4,6) by (intro bphdr_codec.ser) simp_all
    have buf: "aa_buffer (aa_append (enc_BPHeaderT ?hdr) t) = enc_BPHeaderT ?hdr @ enc_payloads pls"
      using t(2,3) by (simp add: aa_append_def memcpy_at_def)
    have h: "beacon_header (rt\<lparr>clientProtocols := cps\<rparr>) ?used (of_nat (length pls)) = ?hdr"
      by (simp add: beacon_header_def)
    have "generate_beacon L (\<lambda>_. True) rt = (Inr (Some (enc_BPHeaderT ?hdr @ enc_payloads pls)),
        rt\<lparr>clientProtocols := cps, bpSequenceNumber := bpSequenceNumber rt + 1\<rparr>)"
      using rt(2,3) a(1) gen num False w u t(1) s buf h
      by (simp add: generate_beacon_def Let_def aa_written_def)
    with that after False show ?thesis by simp
  qed
qed

end
