(* ===== verification/BpDeliver.thy ===== *)
theory BpDeliver
  imports BpBeacon
begin

text \<open>
  Correctness of the receiver: the payloads of a well-formed beacon reach the indication queues of
  the registered client protocols, and the composition of sender and receiver.
\<close>

section \<open>One payload\<close>

definition received_by :: "bp_layout \<Rightarrow> u8 list \<Rightarrow> BPClientProtocolData \<Rightarrow> BPClientProtocolData \<Rightarrow> bool" where
  "received_by L pl c c' \<longleftrightarrow> static_info c' = static_info c \<and> outgoing c' = outgoing c
     \<and> cntReceivedPayloads c' = cntReceivedPayloads c + 1 \<and> cntDroppedIncomingPayloads c' = cntDroppedIncomingPayloads c
     \<and> shm_ok (indications c') \<and> shm_msgs (indications c') = [ind_image L (of_nat (length pl)) @ pl]"

text \<open>A client that is ready for a payload: its indication queue is in order, read empty, and has
  buffers that are large enough.\<close>

definition ready_for :: "bp_layout \<Rightarrow> BPRuntimeData \<Rightarrow> BPProtocolIdT \<Rightarrow> u8 list \<Rightarrow> bool" where
  "ready_for L rt p pl \<longleftrightarrow> pl \<noteq> [] \<and> length pl < 65536
     \<and> (\<forall>c. clientProtocols rt p = Some c \<longrightarrow> ci_protocolId (static_info c) = p
          \<and> shm_ok (indications c) \<and> shm_msgs (indications c) = [] \<and> length pl + ind_size L \<le> bufferSize (indications c))"

lemma unat_length: "length pl < 65536 \<Longrightarrow> unat (of_nat (length pl) :: u16) = length pl"
  by (simp add: unat_of_nat take_bit_eq_mod)

lemma writes_indication:
  assumes "layout_ok L" "wf_da area" "da_rest area = pl @ r" "pl \<noteq> []" "length pl < 65536" "length pl + ind_size L \<le> sz"
  shows "writes (indication_handler L \<lparr>ph_protocolId = p, ph_length = of_nat (length pl)\<rparr>) area sz
    (ind_image L (of_nat (length pl)) @ pl) (da_advance (length pl) area)"
proof -
  have i: "length (ind_image L (of_nat (length pl))) = ind_size L" using assms(1) by (simp add: layout_ok_def)
  have d: "deserialize_byte_block (length pl) (Some (take (length pl) (drop (ind_size L) bs))) area = (Inr pl, da_advance (length pl) area)"
    if "length bs = sz" for bs :: "u8 list"
    using assms(2,3,4,6) that by (intro des_block) simp_all
  show ?thesis
    unfolding writes_def using assms(6) i
    by (simp add: indication_handler_def unat_length [OF assms(5)] d Let_def drop_drop add.commute)
qed

lemma deliver_payload_ok:
  assumes "layout_ok L" "wf_da area" "da_rest area = pl @ r" "ready_for L rt p pl" "clientProtocols rt p = Some c"
  obtains c' where "deliver_payload L True wait \<lparr>ph_protocolId = p, ph_length = of_nat (length pl)\<rparr> (rt, area)
      = (Inr (), (update_client p c' rt, da_advance (length pl) area))" "received_by L pl c c'"
proof -
  let ?hdr = "\<lparr>ph_protocolId = p, ph_length = of_nat (length pl) :: u16\<rparr>"
  have c: "pl \<noteq> []" "length pl < 65536" "ci_protocolId (static_info c) = p" "shm_ok (indications c)"
    "shm_msgs (indications c) = []" "length pl + ind_size L \<le> bufferSize (indications c)"
    using assms(4,5) by (auto simp: ready_for_def)
  from push_wait_ok [OF c(4) writes_indication [OF assms(1,2,3) c(1,2,6)] _ c(5), of 5 p wait] c(1) obtain q' where
    q': "push_wait (indication_handler L ?hdr) 5 True wait (area, indications c) = (Inr False, (da_advance (length pl) area, q'))"
      "shm_ok q'" "shm_msgs q' = [ind_image L (of_nat (length pl)) @ pl]" by auto
  let ?c = "(count_received c)\<lparr>pSCS := (pSCS c)\<lparr>pqReceivePayloadIndication := q'\<rparr>\<rparr>"
  have "deliver_payload L True wait ?hdr (rt, area) = (Inr (), (update_client p ?c rt, da_advance (length pl) area))"
    using assms(5) c(3,6) q'(1)
    by (simp add: deliver_payload_def Let_def bindE_def count_client_def on_indications_def zoomE_def unat_length [OF c(2)]
        count_received_def)
  moreover have "received_by L pl c ?c" using q' by (simp add: received_by_def count_received_def outgoing_def)
  ultimately show thesis using that by blast
qed

lemma area_incr_frame:
  "da_kind area = ByteVector \<Longrightarrow> n \<le> bytes_available area \<Longrightarrow> area_incr n area = (Inr (), da_advance n area)"
  by (simp add: area_incr_def da_advance_def)

lemma deliver_payload_unknown:
  assumes "clientProtocols rt p = None" "da_kind area = ByteVector" "length pl \<le> bytes_available area" "length pl < 65536"
  shows "deliver_payload L owns wait \<lparr>ph_protocolId = p, ph_length = of_nat (length pl)\<rparr> (rt, area)
      = (Inr (), (rt, da_advance (length pl) area))"
  using assms by (simp add: deliver_payload_def Let_def zoomE_def area_incr_frame unat_length)

section \<open>All payloads\<close>

definition clients_got :: "bp_layout \<Rightarrow> (BPProtocolIdT \<times> u8 list) list \<Rightarrow> BPRuntimeData \<Rightarrow> (BPProtocolIdT \<rightharpoonup> BPClientProtocolData) \<Rightarrow> bool" where
  "clients_got L pls rt cps \<longleftrightarrow> (\<forall>p. case clientProtocols rt p of None \<Rightarrow> cps p = None
     | Some c \<Rightarrow> (case map_of pls p of None \<Rightarrow> cps p = Some c | Some pl \<Rightarrow> \<exists>c'. cps p = Some c' \<and> received_by L pl c c'))"

lemma deliver_all_ok:
  assumes "layout_ok L" "wf_da area" "da_kind area = ByteVector" "da_rest area = enc_payloads pls @ r"
    "distinct (map fst pls)" "\<forall>(p, pl) \<in> set pls. ready_for L rt p pl" "\<not> clientProtocols_mutex rt"
    "length env = length pls" "\<forall>e \<in> set env. fst e"
  shows "\<exists>cps area'. deliver_all L env (rt, area) = (Inr (), (rt\<lparr>clientProtocols := cps\<rparr>, area')) \<and> clients_got L pls rt cps"
  using assms(2-)
proof (induction pls arbitrary: area rt env)
  case Nil
  then show ?case
    by (intro exI [of _ "clientProtocols rt"] exI [of _ area]) (auto simp: clients_got_def split: option.split)
next
  case (Cons x pls)
  obtain p pl where x: "x = (p, pl)" by (cases x)
  obtain wait env' where env: "env = (True, wait) # env'" using Cons.prems(7,8) by (cases env) (auto intro: that)
  let ?hdr = "\<lparr>ph_protocolId = p, ph_length = of_nat (length pl) :: u16\<rparr>"
  have r: "ready_for L rt p pl" "pl \<noteq> []" "length pl < 65536" using Cons.prems(5) x by (auto simp: ready_for_def)
  have rest: "da_rest area = enc_BPPayloadHeaderT ?hdr @ (pl @ enc_payloads pls @ r)"
    using Cons.prems(3) x by (simp add: enc_payload_def [of "(p, pl)"])
  have av: "BPPayloadHeaderT_fixed_size + length pl \<le> bytes_available area"
    using length_da_rest [OF Cons.prems(1)] rest by simp
  let ?a1 = "da_advance BPPayloadHeaderT_fixed_size area" and ?rt = "rt\<lparr>clientProtocols_mutex := True\<rparr>"
  have hdr: "des_BPPayloadHeaderT area = (Inr ?hdr, ?a1)"
    using pldhdr_codec.des [OF _ Cons.prems(1) rest] by simp
  have a1: "wf_da ?a1" "da_rest ?a1 = pl @ enc_payloads pls @ r" using Cons.prems(1) av rest by simp_all
  obtain cps1 where d: "deliver_payload L True wait ?hdr (?rt, ?a1) = (Inr (), (?rt\<lparr>clientProtocols := cps1\<rparr>, da_advance (length pl) ?a1))"
    "\<And>q. q \<noteq> p \<Longrightarrow> cps1 q = clientProtocols rt q"
    "case clientProtocols rt p of None \<Rightarrow> cps1 p = None | Some c \<Rightarrow> \<exists>c'. cps1 p = Some c' \<and> received_by L pl c c'"
  proof (cases "clientProtocols rt p")
    case None
    then have "deliver_payload L True wait ?hdr (?rt, ?a1) = (Inr (), (?rt, da_advance (length pl) ?a1))"
      using Cons.prems(2) av r(3) by (intro deliver_payload_unknown) simp_all
    with None show ?thesis using that [of "clientProtocols rt"] by simp
  next
    case (Some c)
    have "ready_for L ?rt p pl" using r(1) by (simp add: ready_for_def)
    from deliver_payload_ok [OF assms(1) a1 this, of c wait] Some obtain c' where
      "deliver_payload L True wait ?hdr (?rt, ?a1) = (Inr (), (update_client p c' ?rt, da_advance (length pl) ?a1))"
      "received_by L pl c c'" by auto
    with Some show ?thesis using that [of "(clientProtocols rt)(p \<mapsto> c')"] by simp
  qed
  let ?a2 = "da_advance (length pl) ?a1" and ?rt2 = "rt\<lparr>clientProtocols := cps1\<rparr>"
  have np: "p \<notin> fst ` set pls" using Cons.prems(4) x by auto
  have "\<forall>(q, pl) \<in> set pls. ready_for L ?rt2 q pl"
  proof (intro ballI, clarify)
    fix q pl' assume m: "(q, pl') \<in> set pls"
    then have "q \<noteq> p" using np by force
    with d(2) Cons.prems(5) m show "ready_for L ?rt2 q pl'" by (auto simp: ready_for_def)
  qed
  moreover have "wf_da ?a2" "da_kind ?a2 = ByteVector" "da_rest ?a2 = enc_payloads pls @ r"
    using Cons.prems(1,2) av rest by simp_all
  ultimately obtain cps area' where ih: "deliver_all L env' (?rt2, ?a2) = (Inr (), (?rt2\<lparr>clientProtocols := cps\<rparr>, area'))"
    "clients_got L pls ?rt2 cps"
    using Cons.IH [of ?a2 ?rt2 env'] Cons.prems(4,6,7,8) env by auto
  have m: "?rt\<lparr>clientProtocols := cps1, clientProtocols_mutex := False\<rparr> = ?rt2" using Cons.prems(6) by (cases rt) simp
  have "deliver_all L env (rt, area) = (Inr (), (rt\<lparr>clientProtocols := cps\<rparr>, area'))"
    using env av hdr d(1) ih(1) m by (simp add: bindE_def zoomE_def set_mutex_def unat_length [OF r(3)])
  moreover have "clients_got L (x # pls) rt cps"
    unfolding clients_got_def
  proof
    fix q
    have "map_of pls p = None" using np by (simp add: map_of_eq_None_iff)
    with ih(2) [unfolded clients_got_def, rule_format, of q] d(2) [of q] d(3) x
    show "case clientProtocols rt q of None \<Rightarrow> cps q = None | Some c \<Rightarrow> (case map_of (x # pls) q of None \<Rightarrow> cps q = Some c
        | Some pl \<Rightarrow> \<exists>c'. cps q = Some c' \<and> received_by L pl c c')"
      by (cases "q = p") (auto split: option.splits)
  qed
  ultimately show ?case by blast
qed

section \<open>A frame\<close>

lemma receiver_frame_ok:
  assumes "layout_ok L" "isWellFormed hdr (bp_ownNodeIdentifier rt) (ownNetworkIdentifier rt)"
    "unat (bh_length hdr) = length (enc_payloads pls)" "unat (bh_numPayloads hdr) = length pls"
    "distinct (map fst pls)" "\<forall>(p, pl) \<in> set pls. ready_for L rt p pl" "\<not> clientProtocols_mutex rt" "bp_isActive rt"
  obtains cps where "receiver_frame L (\<lambda>i. (True, wait i)) (enc_BPHeaderT hdr @ enc_payloads pls) rt
      = rt\<lparr>clientProtocols := cps, cntBPPayloads := cntBPPayloads rt + 1\<rparr>" "clients_got L pls rt cps"
proof -
  let ?frame = "enc_BPHeaderT hdr @ enc_payloads pls" and ?rt = "rt\<lparr>cntBPPayloads := cntBPPayloads rt + 1\<rparr>"
  let ?d = "ByteVectorDisassemblyArea ?frame" and ?env = "\<lambda>i. (True, wait i)"
  have d: "wf_da ?d" "da_rest ?d = enc_BPHeaderT hdr @ enc_payloads pls" by (rule wf_new_areas) (rule da_rest_new)
  have d34: "da_kind ?d = ByteVector" "bytes_available ?d = BPHeaderT_fixed_size + length (enc_payloads pls)"
    by (simp_all add: ByteVectorDisassemblyArea_def)
  note d = d d34
  let ?a = "da_advance BPHeaderT_fixed_size ?d"
  have h: "des_BPHeaderT ?d = (Inr hdr, ?a)" using bphdr_codec.des [OF _ d(1,2)] by simp
  have "0 < length pls" using assms(2,4) by (auto simp: isWellFormed_def word_gt_0 unat_eq_0)
  then have ne: "0 < length (enc_payloads pls)" by (cases pls) auto
  have a: "wf_da ?a" "da_kind ?a = ByteVector" "da_rest ?a = enc_payloads pls @ []" "bytes_available ?a = length (enc_payloads pls)"
    using d by simp_all
  have rdy: "\<forall>(p, pl) \<in> set pls. ready_for L ?rt p pl" using assms(6) by (auto simp: ready_for_def)
  let ?es = "map ?env [0..<length pls]"
  have "length ?es = length pls" "\<forall>e \<in> set ?es. fst e" by auto
  from deliver_all_ok [OF assms(1) a(1,2,3) assms(5) rdy _ this] assms(7) obtain cps area' where
    r: "deliver_all L ?es (?rt, ?a) = (Inr (), (?rt\<lparr>clientProtocols := cps\<rparr>, area'))" "clients_got L pls ?rt cps"
    by auto
  have c: "\<not> bytes_available ?d \<le> BPHeaderT_fixed_size" unfolding d(4) using ne by linarith
  have "bp_process_received_payload L ?env (?rt, ?d) = (Inr (), (?rt\<lparr>clientProtocols := cps\<rparr>, area'))"
    using c h a(4) assms(2,3,4) r(1)
    by (simp add: bp_process_received_payload_def bindE_def zoomE_def)
  then have "receiver_frame L ?env ?frame rt = ?rt\<lparr>clientProtocols := cps\<rparr>"
    using assms(8) by (simp add: receiver_frame_def Let_def)
  also have "?rt\<lparr>clientProtocols := cps\<rparr> = rt\<lparr>clientProtocols := cps, cntBPPayloads := cntBPPayloads rt + 1\<rparr>"
    by (cases rt) simp
  finally show thesis using that r(2) by (simp add: clients_got_def)
qed

section \<open>From node to node\<close>

text \<open>The entries of the sender's table are under their own identifiers.\<close>

definition ids_ok :: "BPRuntimeData \<Rightarrow> bool" where
  "ids_ok rt \<longleftrightarrow> (\<forall>p c. clientProtocols rt p = Some c \<longrightarrow> ci_protocolId (static_info c) = p)"

lemma contributions_facts:
  assumes "layout_ok L" "bp_sender_ok L rt" "ids_ok rt" "set ps \<subseteq> dom (clientProtocols rt)" "distinct ps"
  shows "distinct (map fst (contributions L rt ps)) \<and> fst ` set (contributions L rt ps) \<subseteq> set ps
    \<and> (\<forall>(p, pl) \<in> set (contributions L rt ps). pl \<noteq> [] \<and> length pl < 65536)"
  using assms(4,5)
proof (induction ps)
  case (Cons p ps)
  then obtain c where c: "clientProtocols rt p = Some c" by auto
  with assms(2,3) have ok: "client_ok L c" "ci_protocolId (static_info c) = p" by (auto simp: bp_sender_ok_def ids_ok_def)
  have "contribution L c = [] \<or> (\<exists>pl. contribution L c = [(p, pl)] \<and> pl \<noteq> [] \<and> length pl < 65536)"
  proof (cases "shm_msgs (outgoing c)")
    case (Cons m ms)
    then obtain pl where pl: "request_of L m pl" using ok(1) by (auto simp: client_ok_def)
    then have "contribution L c = [(p, pl)]"
      using Cons ok(2) request_of_facts(3) [OF assms(1) pl] by (simp add: contribution_def)
    with pl show ?thesis by (simp add: request_of_def)
  qed (simp add: contribution_def)
  then show ?case
  proof
    assume "contribution L c = []"
    with Cons.IH Cons.prems c show ?thesis by auto
  next
    assume "\<exists>pl. contribution L c = [(p, pl)] \<and> pl \<noteq> [] \<and> length pl < 65536"
    then obtain pl where pl: "contribution L c = [(p, pl)]" "pl \<noteq> []" "length pl < 65536" by blast
    have ih: "distinct (map fst (contributions L rt ps))" "fst ` set (contributions L rt ps) \<subseteq> set ps"
      "\<forall>(p, pl) \<in> set (contributions L rt ps). pl \<noteq> [] \<and> length pl < 65536"
      using Cons.IH Cons.prems by simp_all
    have "p \<notin> fst ` set (contributions L rt ps)" using ih(2) Cons.prems(2) by auto
    with ih pl c show ?thesis by (simp add: subset_insertI2)
  qed
qed simp

lemma clients_got_id: "clients_got L pls rt cps \<Longrightarrow> p \<notin> fst ` set pls \<Longrightarrow> cps p = clientProtocols rt p"
  unfolding clients_got_def by (auto simp: map_of_eq_None_iff dest!: spec [of _ p] split: option.splits)

lemma unat_ucast_count: "n < 256 \<Longrightarrow> unat (ucast (of_nat n :: u32) :: u8) = n"
  by (simp add: unsigned_ucast_eq take_bit_eq_mod unat_of_nat)

lemma node_to_node:
  fixes A B L
  defines "pls \<equiv> contributions L A (protocol_ids A)"
  assumes L: "layout_ok L" and A: "bp_sender_ok L A" "ids_ok A"
    and fits: "BPHeaderT_fixed_size + length (enc_payloads pls) \<le> maxBeaconSize A" "length (enc_payloads pls) < 65536"
    and n: "length pls < 256" "pls \<noteq> []"
    and B: "bp_isActive B" "\<not> clientProtocols_mutex B" "bp_ownNodeIdentifier B \<noteq> bp_ownNodeIdentifier A"
      "ownNetworkIdentifier B = ownNetworkIdentifier A"
    and ready: "\<forall>(p, pl) \<in> set pls. \<forall>c. clientProtocols B p = Some c \<longrightarrow> ci_protocolId (static_info c) = p
          \<and> shm_ok (indications c) \<and> shm_msgs (indications c) = [] \<and> length pl + ind_size L \<le> bufferSize (indications c)"
  shows "\<exists>frame cpsA cpsB. generate_beacon L (\<lambda>_. True) A
      = (Inr (Some frame), A\<lparr>clientProtocols := cpsA, bpSequenceNumber := bpSequenceNumber A + 1\<rparr>)
    \<and> clients_after L A cpsA
    \<and> receiver_frame L (\<lambda>i. (True, wait i)) frame B = B\<lparr>clientProtocols := cpsB, cntBPPayloads := cntBPPayloads B + 1\<rparr>
    \<and> clients_got L pls B cpsB"
proof -
  let ?hdr = "beacon_header A (BPHeaderT_fixed_size + length (enc_payloads pls)) (of_nat (length pls))"
  have n32: "length pls < 2 ^ 32" using n(1) by simp
  from generate_beacon_ok [OF L A(1) fits(1) [unfolded pls_def] n32 [unfolded pls_def]] n(2) obtain cpsA where
    g: "generate_beacon L (\<lambda>_. True) A = (Inr (Some (enc_BPHeaderT ?hdr @ enc_payloads pls)),
          A\<lparr>clientProtocols := cpsA, bpSequenceNumber := bpSequenceNumber A + 1\<rparr>)" "clients_after L A cpsA"
    unfolding pls_def by auto
  have ids: "set (protocol_ids A) \<subseteq> dom (clientProtocols A)"
    using A(1) set_protocol_ids [of A] by (auto simp: bp_sender_ok_def)
  note f = contributions_facts [OF L A ids distinct_protocol_ids, folded pls_def]
  have num: "unat (bh_numPayloads ?hdr) = length pls" using unat_ucast_count [OF n(1)] by (simp add: beacon_header_def)
  have len: "unat (bh_length ?hdr) = length (enc_payloads pls)"
    using fits(2) by (simp add: beacon_header_def unat_of_nat take_bit_eq_mod del: length_concat)
  have "0 < length (enc_payloads pls)" using n(2) by (cases pls) auto
  then have "bh_length ?hdr \<noteq> 0" "bh_numPayloads ?hdr \<noteq> 0" using len num n(2) by (metis unat_0 less_irrefl length_0_conv)+
  then have wf: "isWellFormed ?hdr (bp_ownNodeIdentifier B) (ownNetworkIdentifier B)"
    using B(3,4) by (simp add: isWellFormed_def beacon_header_def word_neq_0_conv)
  have rdy: "\<forall>(p, pl) \<in> set pls. ready_for L B p pl" using ready f by (fastforce simp: ready_for_def)
  from receiver_frame_ok [OF L wf len num _ rdy B(2,1)] f obtain cpsB where
    "receiver_frame L (\<lambda>i. (True, wait i)) (enc_BPHeaderT ?hdr @ enc_payloads pls) B
        = B\<lparr>clientProtocols := cpsB, cntBPPayloads := cntBPPayloads B + 1\<rparr>" "clients_got L pls B cpsB" by blast
  with g show ?thesis by blast
qed

end
