(* ===== verification/ShmSafety.thy ===== *)
theory ShmSafety
  imports ShmChannel
begin

text \<open>
  Safety of the shared memory queue whatever the handlers do inside their buffers, exceptions and
  wrong lengths included: no method ever mixes up buffers.
\<close>

text \<open>A handler that writes inside the buffer, and other processes that only use the methods.\<close>

definition stays_inside :: "'h PushHandler \<Rightarrow> 'h \<Rightarrow> nat \<Rightarrow> bool" where
  "stays_inside handler h n \<longleftrightarrow> (\<forall>bs. length bs = n \<longrightarrow> length (snd (snd (handler n (h, bs)))) = n)"

definition fair_wait :: "waiting \<Rightarrow> bool" where
  "fair_wait wait \<longleftrightarrow> (\<forall>q. holds [] q \<longrightarrow> holds [] (snd (wait q)) \<and> shape (snd (wait q)) = shape q)"

definition keeps :: "('h shm, 'a) action \<Rightarrow> 'h \<Rightarrow> ShmFiniteQueue \<Rightarrow> bool" where
  "keeps m h q \<longleftrightarrow> holds [] (snd (snd (m (h, q)))) \<and> shape (snd (snd (m (h, q)))) = shape q"

lemma keepsD: "keeps m h q \<Longrightarrow> m (h, q) = (r, (h', q')) \<Longrightarrow> holds [] q' \<and> shape q' = shape q"
  by (simp add: keeps_def)

lemma holds_weaken: "holds (d # ds) q \<Longrightarrow> holds ds q"
  by (auto simp: holds_def)

lemma shape_updates [simp]:
  "shape (q\<lparr>shm_freeList := r\<rparr>) = shape q" "shape (q\<lparr>has_data := b\<rparr>) = shape q" "shape (q\<lparr>buffer_space := m\<rparr>) = shape q"
  "maxCapacity r = maxCapacity (shm_queue q) \<Longrightarrow> shape (q\<lparr>shm_queue := r\<rparr>) = shape q"
  by (simp_all add: shape_def)

lemma holds_has_data [simp]: "holds ds (q\<lparr>has_data := b\<rparr>) = holds ds q"
  by (simp add: holds_def)

lemma fill_buffer_holds:
  assumes "holds [d] q" "stays_inside handler h (bufferSize q)" "fill_buffer handler d (h, q) = (r, (h', q'))"
  shows "holds [] q' \<and> shape q' = shape q"
proof -
  obtain x h1 bs where x: "handler (bufferSize q) (h, mem_read (buffer_space q) (d_offs d) (bufferSize q)) = (x, (h1, bs))"
    by (metis surj_pair)
  have l: "length bs = bufferSize q" using assms(2) [unfolded stays_inside_def, rule_format, of "mem_read (buffer_space q) (d_offs d) (bufferSize q)"] x by simp
  show ?thesis
  proof (cases x)
    case (Inl e)
    from fill_buffer_throws [where handler = handler, OF assms(1) x [unfolded Inl] l] assms(3) show ?thesis by auto
  next
    case (Inr n)
    consider "n = 0" | "bufferSize q < n" | "0 < n" "n \<le> bufferSize q" by linarith
    then show ?thesis
    proof cases
      case 1
      from fill_buffer_zero [where handler = handler, OF assms(1) x [unfolded Inr 1] l] assms(3) show ?thesis by auto
    next
      case 2
      from fill_buffer_exceeds [where handler = handler, OF assms(1) x [unfolded Inr] l 2] assms(3) show ?thesis by auto
    next
      case 3
      have w: "wf_rb (shm_queue q)" using assms(1) by (simp add: holds_def)
      show ?thesis
      proof (cases "length (queued q) < maxCapacity (shm_queue q)")
        case True
        from fill_buffer_ok [where handler = handler, OF assms(1) x [unfolded Inr] l 3 True] assms(3) show ?thesis by auto
      next
        case False
        from call_push_handler_ok [where handler = handler, OF assms(1) x l] obtain m where
          m: "call_push_handler handler (d_offs d) (h, q) = (Inr n, (h1, q\<lparr>buffer_space := m\<rparr>))"
            "holds [d] (q\<lparr>buffer_space := m\<rparr>)" unfolding Inr by blast
        have "rb_push (d\<lparr>d_len := n\<rparr>) (shm_queue q) = (Inl RingBufferException, shm_queue q)"
          using False rbq.bounded [OF w] by (intro rbq.push_full [OF w]) (simp del: length_rb_elems)
        then have "fill_buffer handler d (h, q) = (Inl RingBufferException, (h1, q\<lparr>buffer_space := m\<rparr>))"
          using m(1) 3 by (simp add: fill_buffer_def bindE_def zoomE_def)
        with assms(3) m(2) show ?thesis by (auto dest: holds_weaken)
      qed
    qed
  qed
qed

lemma push_from_free_keeps:
  assumes "holds [] q" "stays_inside handler h (bufferSize q)"
  shows "keeps (bindE (on_freeList rb_pop) (fill_buffer handler)) h q"
proof -
  have "holds [] q' \<and> shape q' = shape q"
    if r: "bindE (on_freeList rb_pop) (fill_buffer handler) (h, q) = (r, (h', q'))" for h' r q'
  proof (cases "free q = []")
    case True
    have w: "wf_rb (shm_freeList q)" using assms(1) by (simp add: holds_def)
    from rbq.pop_empty [OF w True] r assms(1) show ?thesis by (auto simp: bindE_def zoomE_def)
  next
    case False
    from take_free [OF assms(1) False] obtain d f where
      d: "\<And>h. on_freeList rb_pop (h :: 'a, q) = (Inr d, (h, q\<lparr>shm_freeList := f\<rparr>))" "holds [d] (q\<lparr>shm_freeList := f\<rparr>)" by blast
    with r have "fill_buffer handler d (h, q\<lparr>shm_freeList := f\<rparr>) = (r, (h', q'))" by (simp add: bindE_def)
    with fill_buffer_holds [where handler = handler, OF d(2)] assms(2) show ?thesis by simp
  qed
  then show ?thesis unfolding keeps_def by (metis surj_pair snd_conv)
qed

lemma push_nowait_keeps:
  assumes "holds [] q" "stays_inside handler h (bufferSize q)"
  shows "keeps (push_nowait handler t owns) h q"
proof -
  have "snd (push_nowait handler t owns (h, q)) = (h, q)
      \<or> snd (push_nowait handler t owns (h, q)) = snd (bindE (on_freeList rb_pop) (fill_buffer handler) (h, q))"
    unfolding push_nowait_def by (simp add: bindE_step) (simp add: bindE_def split: prod.split sum.split)
  with push_from_free_keeps [OF assms] assms(1) show ?thesis unfolding keeps_def by (metis snd_conv)
qed

lemma push_wait_keeps:
  assumes "holds [] q" "stays_inside handler h (bufferSize q)" "fair_wait wait"
  shows "keeps (push_wait handler t owns wait) h q"
  unfolding keeps_def
proof -
  obtain b q1 where q1: "wait q = (b, q1)" by fastforce
  have f: "holds [] q1" "shape q1 = shape q" using assms(1,3) q1 by (force simp: fair_wait_def)+
  then have i: "stays_inside handler h (bufferSize q1)" using assms(2) by (simp add: shape_def)
  have "snd (push_wait handler t owns wait (h, q)) \<in> {(h, q), (h, q1),
      snd (bindE (on_freeList rb_pop) (fill_buffer handler) (h, q)), snd (bindE (on_freeList rb_pop) (fill_buffer handler) (h, q1))}"
    unfolding push_wait_def using q1
    by (simp add: bindE_step) (simp add: bindE_def wait_for_def split: prod.split sum.split)
  with push_from_free_keeps [OF assms(1,2)] push_from_free_keeps [OF f(1) i] assms(1) f
  show "holds [] (snd (snd (push_wait handler t owns wait (h, q)))) \<and> shape (snd (snd (push_wait handler t owns wait (h, q)))) = shape q"
    unfolding keeps_def by (metis (no_types, lifting) empty_iff insert_iff snd_conv)
qed

lemma push_wait_force_keeps:
  assumes "holds [] q" "stays_inside handler h (bufferSize q)"
  shows "keeps (push_wait_force handler t owns) h q"
proof -
  have full: "holds [] q' \<and> shape q' = shape q"
    if r: "bindE (on_queue rb_pop) (fill_buffer handler) (h, q) = (r, (h', q'))" for h' r q'
  proof (cases "queued q = []")
    case True
    have w: "wf_rb (shm_queue q)" using assms(1) by (simp add: holds_def)
    from rbq.pop_empty [OF w True] r assms(1) show ?thesis by (auto simp: bindE_def zoomE_def)
  next
    case False
    from take_queued [OF assms(1) False] obtain d f where
      d: "\<And>h. on_queue rb_pop (h :: 'a, q) = (Inr d, (h, q\<lparr>shm_queue := f\<rparr>))" "holds [d] (q\<lparr>shm_queue := f\<rparr>)"
        "maxCapacity f = maxCapacity (shm_queue q)" by blast
    with r have "fill_buffer handler d (h, q\<lparr>shm_queue := f\<rparr>) = (r, (h', q'))" by (simp add: bindE_def)
    with fill_buffer_holds [where handler = handler, OF d(2)] assms(2) d(3) show ?thesis by simp
  qed
  have "snd (push_wait_force handler t owns (h, q)) = (h, q)
      \<or> snd (push_wait_force handler t owns (h, q)) = snd (bindE (on_freeList rb_pop) (fill_buffer handler) (h, q))
      \<or> snd (push_wait_force handler t owns (h, q)) = snd (bindE (on_queue rb_pop) (fill_buffer handler) (h, q))"
    unfolding push_wait_force_def by (simp add: bindE_step) (simp add: bindE_def split: prod.split sum.split)
  moreover have "keeps (bindE (on_queue rb_pop) (fill_buffer handler)) h q"
    unfolding keeps_def using full by (metis surj_pair snd_conv)
  ultimately show ?thesis
    using push_from_free_keeps [OF assms] assms(1) unfolding keeps_def by (metis snd_conv)
qed

text \<open>Reading.\<close>

lemma drain_buffer_keeps:
  assumes "holds [] q"
  shows "keeps (drain_buffer handler) h q"
proof -
  have "holds [] q' \<and> shape q' = shape q" if r: "drain_buffer handler (h, q) = (r, (h', q'))" for h' r q'
  proof (cases "shm_msgs q")
    case Nil
    have w: "wf_rb (shm_queue q)" "queued q = []" using assms Nil by (simp_all add: holds_def shm_msgs_def)
    from rbq.pop_empty [OF w] r assms show ?thesis by (auto simp: drain_buffer_def bindE_def zoomE_def)
  next
    case (Cons m ms)
    obtain x h1 where x: "handler m h = (x, h1)" by fastforce
    show ?thesis
    proof (cases x)
      case (Inl e)
      from drain_buffer_throws [where handler = handler, OF assms Cons x [unfolded Inl]] r show ?thesis by auto
    next
      case (Inr u)
      have "handler m h = (Inr (), h1)" using x Inr by simp
      from drain_buffer_ok [where handler = handler, OF assms Cons this] r show ?thesis by auto
    qed
  qed
  then show ?thesis unfolding keeps_def by (metis surj_pair snd_conv)
qed

lemma pop_head_keeps:
  assumes "holds [] q"
  shows "keeps (pop_head handler) h q"
  unfolding keeps_def
proof -
  obtain x h1 q1 where d: "drain_buffer handler (h, q) = (x, (h1, q1))" by (metis surj_pair)
  with keepsD [OF drain_buffer_keeps [OF assms] d]
  show "holds [] (snd (snd (pop_head handler (h, q)))) \<and> shape (snd (snd (pop_head handler (h, q)))) = shape q"
    by (cases x) (simp_all add: pop_head_def bindE_def set_has_data_def)
qed

lemma pop_nowait_keeps:
  assumes "holds [] q"
  shows "keeps (pop_nowait handler t owns) h q"
proof -
  have "snd (pop_nowait handler t owns (h, q)) = (h, q) \<or> snd (pop_nowait handler t owns (h, q)) = snd (pop_head handler (h, q))"
    unfolding pop_nowait_def by (simp add: assert_magicno_def bindE_step)
  with pop_head_keeps [OF assms] assms show ?thesis unfolding keeps_def by (metis snd_conv)
qed

lemma peek_nowait_keeps:
  assumes "holds [] q"
  shows "snd (snd (peek_nowait handler t owns (h, q))) = q"
proof -
  have w: "wf_rb (shm_queue q)" using assms by (simp add: holds_def)
  have "snd (rb_peek (shm_queue q)) = shm_queue q"
    using rbq.peek [OF w] rbq.peek_empty [OF w] by (cases "queued q") auto
  then have "snd (snd (peek_head handler (h, q))) = q"
    by (cases "rb_peek (shm_queue q)")
      (auto simp: peek_head_def bindE_def zoomE_def call_pop_handler_def split: prod.split sum.split)
  then show ?thesis unfolding peek_nowait_def by (simp add: bindE_step)
qed

lemma shm_reset_keeps:
  assumes "holds [] q"
  obtains q' where "shm_reset q = (Inr (), q')" "holds [] q'" "shape q' = shape q"
proof -
  have "wf_rb (shm_queue q)" "wf_rb (shm_freeList q)" "maxCapacity (shm_queue q) \<le> numberBuffers q"
    "maxCapacity (shm_freeList q) = numberBuffers q" using assms by (auto simp: holds_def)
  from initialize_ok [OF this] that show thesis unfolding shm_reset_def by metis
qed

text \<open>Emptying a queue whose flag may be wrong: what the handler keeps, as long as it does not throw, is kept.\<close>

lemma drain_all_safe:
  assumes "holds [] q" "P h" "\<And>m h h'. P h \<Longrightarrow> handler m h = (Inr (), h') \<Longrightarrow> P h'"
    "drain_all handler n (h, q) = (Inr (), (h', q'))"
  shows "P h' \<and> holds [] q' \<and> shape q' = shape q"
  using assms(1,2,4)
proof (induction n arbitrary: h q)
  case (Suc n)
  show ?case
  proof (cases "rb_isEmpty (shm_queue q)")
    case True
    then show ?thesis using Suc.prems by simp
  next
    case False
    then obtain h1 q1 where d: "drain_buffer handler (h, q) = (Inr (), (h1, q1))" "drain_all handler n (h1, q1) = (Inr (), (h', q'))"
      using Suc.prems(3) by (auto simp: bindE_def split: prod.splits sum.splits)
    have k: "holds [] q1" "shape q1 = shape q" using keepsD [OF drain_buffer_keeps [OF Suc.prems(1)] d(1)] by simp_all
    obtain m where "handler m h = (Inr (), h1)"
      using d(1) by (auto simp: drain_buffer_def call_pop_handler_def bindE_def zoomE_def split: prod.splits sum.splits)
    then have "P h1" using assms(3) Suc.prems(2) by blast
    from Suc.IH [OF k(1) this d(2)] k(2) show ?thesis by simp
  qed
qed simp

lemma popall_nowait_safe:
  assumes "holds [] q" "P h" "\<And>m h h'. P h \<Longrightarrow> handler m h = (Inr (), h') \<Longrightarrow> P h'"
    "popall_nowait handler t owns (h, q) = (Inr late, (h', q'))"
  shows "P h' \<and> holds [] q' \<and> shape q' = shape q"
proof (cases "owns \<and> has_data q")
  case False
  then show ?thesis using assms(1,2,4) by (auto simp: popall_nowait_def bindE_def split: if_splits)
next
  case True
  then obtain q1 where "drain_all handler (rb_stored_elements (shm_queue q)) (h, q) = (Inr (), (h', q1))" "q' = q1\<lparr>has_data := False\<rparr>"
    using assms(4) by (auto simp: popall_nowait_def pop_every_def set_has_data_def bindE_def split: prod.splits sum.splits if_splits)
  with drain_all_safe [where P = P, OF assms(1-3)] show ?thesis by auto
qed

lemma pop_wait_keeps:
  assumes "holds [] q" "fair_wait wait"
  shows "keeps (pop_wait handler t owns wait) h q"
proof -
  obtain b q1 where q1: "wait q = (b, q1)" by fastforce
  have f: "holds [] q1" "shape q1 = shape q" using assms q1 by (force simp: fair_wait_def)+
  have "snd (pop_wait handler t owns wait (h, q)) \<in> {(h, q), (h, q1), snd (pop_head handler (h, q)), snd (pop_head handler (h, q1))}"
    unfolding pop_wait_def using q1
    by (simp add: bindE_step) (simp add: bindE_def wait_for_def split: prod.split sum.split)
  with pop_head_keeps [OF assms(1), of handler h] pop_head_keeps [OF f(1), of handler h] assms(1) f show ?thesis
    unfolding keeps_def by (metis (no_types, lifting) empty_iff insert_iff snd_conv)
qed

text \<open>What becomes of the caller's state: nothing, or what the handler made of it.\<close>

lemma fill_buffer_caller:
  assumes "P h" "\<And>bs. length bs = bufferSize q \<Longrightarrow> P (fst (snd (handler (bufferSize q) (h, bs))))"
    "fill_buffer handler d (h, q) = (r, (h', q'))"
  shows "P h'"
proof -
  obtain x h1 bs where x: "handler (bufferSize q) (h, mem_read (buffer_space q) (d_offs d) (bufferSize q)) = (x, (h1, bs))"
    by (metis surj_pair)
  have "P h1" using assms(2) [of "mem_read (buffer_space q) (d_offs d) (bufferSize q)"] x by simp
  moreover have "h' = h1"
    using assms(3) x by (auto simp: fill_buffer_def call_push_handler_def bindE_def zoomE_def set_has_data_def Let_def
        split: sum.splits prod.splits if_splits)
  ultimately show ?thesis by simp
qed

lemma push_wait_caller:
  assumes "P h" "\<And>bs. length bs = bufferSize q \<Longrightarrow> P (fst (snd (handler (bufferSize q) (h, bs))))"
    "holds [] q" "fair_wait wait" "push_wait handler t owns wait (h, q) = (r, (h', q'))"
  shows "P h'"
proof -
  have fill: "P (fst (snd (bindE (on_freeList rb_pop) (fill_buffer handler) (h, q2))))" if n: "bufferSize q2 = bufferSize q" for q2
  proof -
    obtain x q1 where x: "on_freeList rb_pop (h, q2) = (x, (h, q1))" "bufferSize q1 = bufferSize q"
      using n by (cases "rb_pop (shm_freeList q2)") (auto simp: zoomE_def)
    show ?thesis
    proof (cases x)
      case (Inl e)
      then show ?thesis using x(1) assms(1) by (simp add: bindE_def)
    next
      case (Inr d)
      obtain y h2 q3 where y: "fill_buffer handler d (h, q1) = (y, (h2, q3))" by (metis surj_pair)
      have "P h2" by (rule fill_buffer_caller [where P = P and handler = handler, OF assms(1) _ y]) (simp add: x(2) assms(2))
      then show ?thesis using x(1) Inr y by (simp add: bindE_def)
    qed
  qed
  obtain b q1 where q1: "wait q = (b, q1)" by fastforce
  have n: "bufferSize q1 = bufferSize q" using assms(3,4) q1 by (auto simp: fair_wait_def shape_def)
  have "snd (push_wait handler t owns wait (h, q)) \<in> {(h, q), (h, q1),
      snd (bindE (on_freeList rb_pop) (fill_buffer handler) (h, q)), snd (bindE (on_freeList rb_pop) (fill_buffer handler) (h, q1))}"
    unfolding push_wait_def using q1
    by (simp add: bindE_step) (simp add: bindE_def wait_for_def split: prod.split sum.split)
  then have "h' = h \<or> h' = fst (snd (bindE (on_freeList rb_pop) (fill_buffer handler) (h, q)))
      \<or> h' = fst (snd (bindE (on_freeList rb_pop) (fill_buffer handler) (h, q1)))"
    unfolding assms(5) by (metis empty_iff fst_conv insert_iff snd_conv)
  then show ?thesis using assms(1) fill [OF refl] fill [OF n] by metis
qed

end
