(* ===== verification/BpDemon.thy ===== *)
theory BpDemon
  imports BpDeliver ShmSafety
begin

text \<open>
  The beaconing demon as a whole: its threads and the processes of its clients as a step relation,
  and the invariant of the reachable states.  A step is what a thread does while it holds the mutex
  of the client protocols, or the mutex of a queue for the clients.
\<close>

section \<open>Steps\<close>

text \<open>The memory of a segment has the arrays that the types of its queues declare.\<close>

definition raw_ok :: "raw_queue \<Rightarrow> bool" where
  "raw_ok raw \<longleftrightarrow> length (fst raw) = maxQueueLength + 1 \<and> length (fst (snd raw)) = maxQueueLength + 1"

fun command_ok :: "bp_command \<Rightarrow> bool" where
  "command_ok (RegisterProtocol logged (Inr (m1, m2, m3, m4)) now req) \<longleftrightarrow> raw_ok m1 \<and> raw_ok m2 \<and> raw_ok m3 \<and> raw_ok m4"
| "command_ok _ \<longleftrightarrow> True"

inductive bp_step :: "bp_layout \<Rightarrow> BPRuntimeData \<Rightarrow> BPRuntimeData \<Rightarrow> bool" for L where
  client_transmit: "clientProtocols rt p = Some c \<Longrightarrow> fair_wait wait \<Longrightarrow> unat len \<le> length payload
    \<Longrightarrow> transmit_payload L len (Some payload) owns wait ((), pSCS c) = (r, (u, cs))
    \<Longrightarrow> bp_step L rt (update_client p (c\<lparr>pSCS := cs\<rparr>) rt)"
| client_receive: "clientProtocols rt p = Some c
    \<Longrightarrow> pop_nowait handler t owns (h :: u8 list list, indications c) = (r, (h', q))
    \<Longrightarrow> bp_step L rt (update_client p (c\<lparr>pSCS := (pSCS c)\<lparr>pqReceivePayloadIndication := q\<rparr>\<rparr>) rt)"
| transmit: "\<not> clientProtocols_mutex rt \<Longrightarrow> bp_step L rt (snd (transmitter_round L owns rt))"
| receive: "\<not> clientProtocols_mutex rt \<Longrightarrow> (\<And>i. fair_wait (snd (env i)))
    \<Longrightarrow> bp_step L rt (receiver_frame L env frame rt)"
| command: "\<not> clientProtocols_mutex rt \<Longrightarrow> command_ok cmd \<Longrightarrow> handle_command_socket L cmd rt = (Inr conf, rt')
    \<Longrightarrow> bp_step L rt rt'"
| payload_management: "\<not> clientProtocols_mutex rt \<Longrightarrow> bp_step L rt (payload_management_round rt)"

inductive bp_reachable :: "bp_layout \<Rightarrow> BPRuntimeData \<Rightarrow> BPRuntimeData \<Rightarrow> bool" for L rt0 where
  start: "bp_reachable L rt0 rt0"
| step: "bp_reachable L rt0 rt \<Longrightarrow> bp_step L rt rt' \<Longrightarrow> bp_reachable L rt0 rt'"

section \<open>The invariant\<close>

definition queue_ok :: "nat \<Rightarrow> nat \<Rightarrow> ShmFiniteQueue \<Rightarrow> bool" where
  "queue_ok bufsize cap q \<longleftrightarrow> holds [] q \<and> bufferSize q = bufsize \<and> maxCapacity (shm_queue q) = cap
     \<and> numberBuffers q = maxQueueLength \<and> magicNo q = defaultMagicNo"

definition client_wf :: "bp_layout \<Rightarrow> nat \<Rightarrow> BPProtocolIdT \<Rightarrow> BPClientProtocolData \<Rightarrow> bool" where
  "client_wf L maxBeacon p c \<longleftrightarrow> ci_protocolId (static_info c) = p \<and> static_client_info (pSCS c) = static_info c
     \<and> 0 < ci_maxPayloadSize (static_info c)
     \<and> unat (ci_maxPayloadSize (static_info c)) \<le> maxBeacon - (BPHeaderT_fixed_size + BPPayloadHeaderT_fixed_size)
     \<and> unat (ci_maxEntries (static_info c)) \<le> maxQueueLength
     \<and> queue_ok maxBufferSize (max 1 (unat (ci_maxEntries (static_info c)))) (cs_queue (pSCS c))
     \<and> queue_ok maxBufferSize 1 (cs_buffer (pSCS c))
     \<and> queue_ok maxBufferSize maxQueueLength (pqReceivePayloadIndication (pSCS c))
     \<and> queue_ok (confirmBufferSize L) maxQueueLength (pqTransmitPayloadConfirm (pSCS c))"

definition bp_wf :: "bp_layout \<Rightarrow> BPRuntimeData \<Rightarrow> bool" where
  "bp_wf L rt \<longleftrightarrow> finite (dom (clientProtocols rt))
     \<and> (\<forall>p c. clientProtocols rt p = Some c \<longrightarrow> client_wf L (maxBeaconSize rt) p c)
     \<and> maxBeaconSize rt + req_size L \<le> maxBufferSize + (BPHeaderT_fixed_size + BPPayloadHeaderT_fixed_size)
     \<and> (clientProtocols_mutex rt \<longrightarrow> bp_exitFlag rt)"

text \<open>What the invariant leaves out while a thread is at work: the mutex.\<close>

definition bp_wf0 :: "bp_layout \<Rightarrow> BPRuntimeData \<Rightarrow> bool" where
  "bp_wf0 L rt \<longleftrightarrow> finite (dom (clientProtocols rt))
     \<and> (\<forall>p c. clientProtocols rt p = Some c \<longrightarrow> client_wf L (maxBeaconSize rt) p c)
     \<and> maxBeaconSize rt + req_size L \<le> maxBufferSize + (BPHeaderT_fixed_size + BPPayloadHeaderT_fixed_size)"

lemma bp_wf_iff: "bp_wf L rt \<longleftrightarrow> bp_wf0 L rt \<and> (clientProtocols_mutex rt \<longrightarrow> bp_exitFlag rt)"
  by (auto simp: bp_wf_def bp_wf0_def)

lemma bp_wf0_updates [simp]:
  "bp_wf0 L (rt\<lparr>bp_exitFlag := b\<rparr>) = bp_wf0 L rt" "bp_wf0 L (rt\<lparr>clientProtocols_mutex := b\<rparr>) = bp_wf0 L rt"
  "bp_wf0 L (rt\<lparr>bp_isActive := b\<rparr>) = bp_wf0 L rt" "bp_wf0 L (rt\<lparr>cntBPPayloads := k\<rparr>) = bp_wf0 L rt"
  "bp_wf0 L (rt\<lparr>bpSequenceNumber := k\<rparr>) = bp_wf0 L rt"
  by (simp_all add: bp_wf0_def)

lemma bp_wf0_client: "bp_wf0 L rt \<Longrightarrow> clientProtocols rt p = Some c \<Longrightarrow> client_wf L (maxBeaconSize rt) p c"
  by (simp add: bp_wf0_def)

lemma bp_wf0_update: "bp_wf0 L rt \<Longrightarrow> client_wf L (maxBeaconSize rt) p c \<Longrightarrow> bp_wf0 L (update_client p c rt)"
  by (auto simp: bp_wf0_def)

lemma queue_ok_keeps: "queue_ok n k q \<Longrightarrow> holds [] q' \<and> shape q' = shape q \<Longrightarrow> queue_ok n k q'"
  by (auto simp: queue_ok_def shape_def)

lemma queue_ok_holds: "queue_ok n k q \<Longrightarrow> holds [] q"
  by (simp add: queue_ok_def)

lemma new_queue_ok:
  assumes "new_queue bufsize nm cap raw = Inr q"
    "raw_ok raw" "length nm \<le> 255"
  shows "queue_ok bufsize cap q" "1 \<le> cap" "cap \<le> maxQueueLength"
proof -
  obtain m1 m2 m3 where raw: "raw = (m1, m2, m3)" by (cases raw)
  note l = assms(2) [unfolded raw raw_ok_def fst_conv snd_conv, THEN conjunct1]
    assms(2) [unfolded raw raw_ok_def fst_conv snd_conv, THEN conjunct2]
  have new: "new_ShmFiniteQueue maxQueueLength bufsize (Some nm) cap m1 m2 m3 = Inr q" using assms(1) raw by (simp add: new_queue_def)
  obtain r where "new_ring_buffer (Some ''queue'') cap m1 = Inr r" using new by (auto simp: new_ShmFiniteQueue_def split: sum.splits)
  then show cap: "1 \<le> cap" "cap \<le> maxQueueLength" using l(1) by (auto simp: new_ring_buffer_def split: if_splits)
  from new_ShmFiniteQueue_ok [OF cap l assms(3), of bufsize m3] new show "queue_ok bufsize cap q"
    by (auto simp: queue_ok_def shm_ok_def)
qed

section \<open>Clients\<close>

lemma copy_payload_inside: "length m \<le> n \<Longrightarrow> stays_inside (copy_payload m) h n"
  by (simp add: stays_inside_def copy_payload_def)

lemma reset_buffer_wf:
  assumes "queue_ok n k (cs_buffer cs)"
  obtains q where "reset_buffer (h, cs) = (Inr (), (h, cs\<lparr>cs_buffer := q\<rparr>))" "queue_ok n k q"
proof -
  obtain q where q: "shm_reset (cs_buffer cs) = (Inr (), q)" "holds [] q" "shape q = shape (cs_buffer cs)"
    by (rule shm_reset_keeps [OF queue_ok_holds [OF assms]])
  then have "reset_buffer (h, cs) = (Inr (), (h, cs\<lparr>cs_buffer := q\<rparr>))" by (simp add: reset_buffer_def zoomE_def)
  moreover have "queue_ok n k q" by (rule queue_ok_keeps [OF assms]) (use q in simp)
  ultimately show thesis by (rule that)
qed

lemma transmit_handler_wf:
  assumes "queue_ok maxBufferSize k (cs_queue cs)" "queue_ok maxBufferSize 1 (cs_buffer cs)"
    "stays_inside handler h maxBufferSize" "fair_wait wait"
    "transmit_payload_handler handler owns wait (h, cs) = (r, (h', cs'))"
  shows "\<exists>q b. cs' = cs\<lparr>cs_queue := q, cs_buffer := b\<rparr> \<and> queue_ok maxBufferSize k q \<and> queue_ok maxBufferSize 1 b"
proof -
  let ?t = defaultLongSharedMemoryLockTimeoutMS
  have i: "stays_inside handler h (bufferSize (cs_queue cs))" using assms(1,3) by (simp add: queue_ok_def)
  note kq = push_wait_keeps [OF queue_ok_holds [OF assms(1)] i assms(4), of ?t owns]
  note kf = push_wait_force_keeps [OF queue_ok_holds [OF assms(1)] i, of ?t owns]
  have pq: "\<exists>q b. cs' = cs\<lparr>cs_queue := q, cs_buffer := b\<rparr> \<and> queue_ok maxBufferSize k q \<and> queue_ok maxBufferSize 1 b"
    if m: "keeps m h (cs_queue cs)" and r: "bindE (on_cs_queue m) status (h, cs) = (r, (h', cs'))"
      and st: "\<And>x s. snd (status x s) = s" for m :: "('a shm, bool) action" and status
  proof -
    obtain x h1 q1 where x: "m (h, cs_queue cs) = (x, (h1, q1))" by (metis surj_pair)
    have "queue_ok maxBufferSize k q1" by (rule queue_ok_keeps [OF assms(1) keepsD [OF m x]])
    moreover have "cs' = cs\<lparr>cs_queue := q1\<rparr>"
      using r x by (cases x) (auto simp: bindE_def zoomE_def dest: arg_cong [where f = snd] simp: st)
    ultimately show ?thesis using assms(2) by (intro exI [of _ q1] exI [of _ "cs_buffer cs"]) simp
  qed
  obtain b where b: "reset_buffer (h, cs) = (Inr (), (h, cs\<lparr>cs_buffer := b\<rparr>))" "queue_ok maxBufferSize 1 b"
    by (rule reset_buffer_wf [OF assms(2)])
  have ib: "stays_inside handler h (bufferSize b)" using b(2) assms(3) by (simp add: queue_ok_def)
  let ?status = "\<lambda>timed_out. retE (if timed_out then BP_STATUS_INTERNAL_SHARED_MEMORY_ERROR else BP_STATUS_OK)
    :: ('a \<times> BPShmControlSegment, DcpStatus) action"
  have pb: "\<exists>q b. cs' = cs\<lparr>cs_queue := q, cs_buffer := b\<rparr> \<and> queue_ok maxBufferSize k q \<and> queue_ok maxBufferSize 1 b"
    if r: "bindE (on_cs_buffer (push_wait handler ?t owns wait)) ?status (h, cs\<lparr>cs_buffer := b\<rparr>) = (r, (h', cs'))"
  proof -
    obtain x h1 q1 where x: "push_wait handler ?t owns wait (h, b) = (x, (h1, q1))" by (metis surj_pair)
    have "queue_ok maxBufferSize 1 q1"
      by (rule queue_ok_keeps [OF b(2) keepsD [OF push_wait_keeps [OF queue_ok_holds [OF b(2)] ib assms(4)] x]])
    moreover have "cs' = cs\<lparr>cs_buffer := q1\<rparr>" using r x by (cases x) (auto simp: bindE_def zoomE_def)
    ultimately show ?thesis using assms(1) by (intro exI [of _ "cs_queue cs"] exI [of _ q1]) simp
  qed
  have id: "\<exists>q b. cs = cs\<lparr>cs_queue := q, cs_buffer := b\<rparr> \<and> queue_ok maxBufferSize k q \<and> queue_ok maxBufferSize 1 b"
    using assms(1,2) by (intro exI [of _ "cs_queue cs"] exI [of _ "cs_buffer cs"]) simp
  note r = assms(5) [unfolded transmit_payload_handler_def Let_def prod.case]
  consider "bindE reset_buffer (\<lambda>_. bindE (on_cs_buffer (push_wait handler ?t owns wait)) ?status) (h, cs) = (r, (h', cs'))"
    | "bindE (on_cs_queue (push_wait_force handler ?t owns)) ?status (h, cs) = (r, (h', cs'))"
    | "bindE (on_cs_queue (push_wait handler ?t owns wait)) ?status (h, cs) = (r, (h', cs'))"
    | "cs' = cs"
    using r by (auto split: if_splits)
  then show ?thesis
  proof cases
    case 1 then show ?thesis using pb b(1) by (simp add: bindE_Inr)
  next
    case 2 then show ?thesis by (rule pq [OF kf]) simp
  next
    case 3 then show ?thesis by (rule pq [OF kq]) simp
  next
    case 4 then show ?thesis using id by simp
  qed
qed

lemma unat_add_of_nat_le: "unat (a + of_nat n :: 'a::len word) \<le> unat a + n"
proof -
  have "unat (a + of_nat n) \<le> unat a + unat (of_nat n :: 'a word)"
    by (simp add: unat_word_ariths(1))
  also have "unat (of_nat n :: 'a word) \<le> n" by (simp add: unat_of_nat take_bit_eq_mod)
  finally show ?thesis by simp
qed

lemma client_transmit_wf:
  assumes "bp_wf0 L rt" "clientProtocols rt p = Some c" "fair_wait wait" "unat len \<le> length payload"
    "transmit_payload L len (Some payload) owns wait ((), pSCS c) = (r, (u, cs))"
  shows "bp_wf0 L (update_client p (c\<lparr>pSCS := cs\<rparr>) rt)"
proof (cases "len > ci_maxPayloadSize (static_client_info (pSCS c)) + of_nat (req_size L) \<or> len = 0")
  case True
  then have "cs = pSCS c" using assms(5) by (auto simp: transmit_payload_def split: if_splits)
  with assms(1,2) show ?thesis by (simp add: fun_upd_idem)
next
  case False
  note w = bp_wf0_client [OF assms(1,2), unfolded client_wf_def]
  have m: "0 < unat (ci_maxPayloadSize (static_info c))" "static_client_info (pSCS c) = static_info c"
    "unat (ci_maxPayloadSize (static_info c)) \<le> maxBeaconSize rt - (BPHeaderT_fixed_size + BPPayloadHeaderT_fixed_size)"
    using w by (simp_all add: unat_gt_0 word_neq_0_conv)
  moreover have "maxBeaconSize rt + req_size L \<le> maxBufferSize + (BPHeaderT_fixed_size + BPPayloadHeaderT_fixed_size)"
    using assms(1) by (simp add: bp_wf0_def)
  moreover have "unat len \<le> unat (ci_maxPayloadSize (static_info c)) + req_size L"
    using False m(2) unat_add_of_nat_le [of "ci_maxPayloadSize (static_info c)" "req_size L"]
    by (simp add: not_less word_le_nat_alt)
  ultimately have "unat len \<le> maxBufferSize" by linarith
  then have "length (take (unat len) payload) \<le> maxBufferSize" using assms(4) by simp
  note inside = copy_payload_inside [OF this]
  have q: "queue_ok maxBufferSize (max 1 (unat (ci_maxEntries (static_info c)))) (cs_queue (pSCS c))"
    "queue_ok maxBufferSize 1 (cs_buffer (pSCS c))" using w by simp_all
  have "transmit_payload_handler (copy_payload (take (unat len) payload)) owns wait ((), pSCS c) = (r, (u, cs))"
    using assms(5) False by (simp add: transmit_payload_def)
  from transmit_handler_wf [OF q inside assms(3) this]
  obtain q b where "cs = (pSCS c)\<lparr>cs_queue := q, cs_buffer := b\<rparr>"
    "queue_ok maxBufferSize (max 1 (unat (ci_maxEntries (static_info c)))) q" "queue_ok maxBufferSize 1 b" by blast
  with w have "client_wf L (maxBeaconSize rt) p (c\<lparr>pSCS := cs\<rparr>)" by (simp add: client_wf_def)
  with assms(1) show ?thesis by (rule bp_wf0_update)
qed

lemma client_receive_wf:
  assumes "bp_wf0 L rt" "clientProtocols rt p = Some c" "pop_nowait handler t owns (h, indications c) = (r, (h', q))"
  shows "bp_wf0 L (update_client p (c\<lparr>pSCS := (pSCS c)\<lparr>pqReceivePayloadIndication := q\<rparr>\<rparr>) rt)"
proof -
  note w = bp_wf0_client [OF assms(1,2), unfolded client_wf_def]
  have i: "queue_ok maxBufferSize maxQueueLength (indications c)" using w by simp
  have "queue_ok maxBufferSize maxQueueLength q"
    by (rule queue_ok_keeps [OF i keepsD [OF pop_nowait_keeps [OF queue_ok_holds [OF i]] assms(3)]])
  with w have "client_wf L (maxBeaconSize rt) p (c\<lparr>pSCS := (pSCS c)\<lparr>pqReceivePayloadIndication := q\<rparr>\<rparr>)"
    by (simp add: client_wf_def)
  with assms(1) show ?thesis by (rule bp_wf0_update)
qed

section \<open>Transmitter\<close>

lemma put_gen_wf:
  assumes "bp_wf0 L (g_rt g)" "clientProtocols (g_rt g) p = Some c" "holds [] q" "shape q = shape (outgoing c)"
  shows "bp_wf0 L (g_rt (put_gen p c (b, with_outgoing c q) g))"
proof -
  note w = bp_wf0_client [OF assms(1,2), unfolded client_wf_def]
  have "client_wf L (maxBeaconSize (g_rt g)) p (c\<lparr>pSCS := with_outgoing c q, cntOutgoingPayloads := bc_cntOutgoing b\<rparr>)"
    using w queue_ok_keeps [of _ _ "outgoing c" q] assms(3,4)
    by (auto simp: client_wf_def with_outgoing_def outgoing_def split: if_splits)
  then show ?thesis using bp_wf0_update [OF assms(1)] by (simp add: put_gen_def)
qed

lemma holds_outgoing: "client_wf L M p c \<Longrightarrow> holds [] (outgoing c)"
  by (auto simp: client_wf_def outgoing_def queue_ok_def)

definition same_but :: "BPProtocolIdT \<Rightarrow> BPRuntimeData \<Rightarrow> BPRuntimeData \<Rightarrow> bool" where
  "same_but p rt rt' \<longleftrightarrow> (\<forall>q. q \<noteq> p \<longrightarrow> clientProtocols rt' q = clientProtocols rt q)
     \<and> clientProtocols rt' p \<noteq> None \<and> clientProtocols_mutex rt' = clientProtocols_mutex rt"

lemma attempt_wf:
  assumes "bp_wf0 L (g_rt g)" "clientProtocols (g_rt g) p = Some c" "attempt_add_payload L owns p g = (r, g')"
  shows "bp_wf0 L (g_rt g') \<and> same_but p (g_rt g) (g_rt g')"
proof (cases "bp_queueing_mode_known (ci_queueingMode (static_info c))")
  case False
  then have "attempt_add_payload L owns p g = (Inr (), g\<lparr>g_rt := (g_rt g)\<lparr>bp_exitFlag := True\<rparr>\<rparr>)"
    using assms(2) by (simp add: attempt_add_payload_def bp_queueing_mode_known_def)
  with assms show ?thesis by (auto simp: same_but_def)
next
  case True
  let ?h = "add_payload_handler L (ci_protocolId (static_info c))" and ?t = defaultLongSharedMemoryLockTimeoutMS
  define reader where "reader = (if ci_queueingMode (static_info c) = BP_QMODE_REPEAT
       then bindE (peek_nowait ?h ?t owns) (\<lambda>timed_out. retE (timed_out, False)) else pop_nowait ?h ?t owns)"
  note eq = attempt_add_payload_eq [OF assms(2) True reader_def]
  note ho = holds_outgoing [OF bp_wf0_client [OF assms(1,2)]]
  obtain x b q where x: "reader (gen_beacon_of c g, outgoing c) = (x, (b, q))" by (metis surj_pair)
  have q: "holds [] q \<and> shape q = shape (outgoing c)"
  proof (cases "ci_queueingMode (static_info c) = BP_QMODE_REPEAT")
    case True
    have "snd (snd (reader (gen_beacon_of c g, outgoing c))) = outgoing c"
      using True peek_nowait_keeps [OF ho, of ?h ?t owns "gen_beacon_of c g"]
      by (auto simp: reader_def bindE_def split: prod.split sum.split)
    with x ho show ?thesis by simp
  next
    case False
    with x keepsD [OF pop_nowait_keeps [OF ho]] show ?thesis by (simp add: reader_def)
  qed
  let ?g = "put_gen p c (b, with_outgoing c q) g"
  have "g' = ?g \<or> g' = ?g\<lparr>g_rt := (g_rt ?g)\<lparr>bp_exitFlag := True\<rparr>\<rparr>"
    using assms(3) x unfolding eq by (auto simp: Let_def split: sum.splits prod.splits if_splits)
  moreover have "bp_wf0 L (g_rt ?g)" using put_gen_wf [OF assms(1,2)] q by simp
  moreover have "same_but p (g_rt g) (g_rt ?g)" by (simp add: same_but_def put_gen_def)
  ultimately show ?thesis by (auto simp: same_but_def)
qed

lemma attempt_all_wf:
  assumes "bp_wf0 L (g_rt g)" "set ps \<subseteq> dom (clientProtocols (g_rt g))" "attempt_all L owns ps g = (r, g')"
  shows "bp_wf0 L (g_rt g') \<and> clientProtocols_mutex (g_rt g') = clientProtocols_mutex (g_rt g)"
  using assms
proof (induction ps arbitrary: g)
  case (Cons p ps)
  then obtain c where c: "clientProtocols (g_rt g) p = Some c" by auto
  obtain x g1 where g1: "attempt_add_payload L (owns p) p g = (x, g1)" by fastforce
  from attempt_wf [OF Cons.prems(1) c g1] have w: "bp_wf0 L (g_rt g1)" "same_but p (g_rt g) (g_rt g1)" by auto
  then have d: "set ps \<subseteq> dom (clientProtocols (g_rt g1))"
    using Cons.prems(2) unfolding same_but_def by (auto simp: subset_iff domIff)
  show ?case
    using Cons.IH [OF w(1) d] Cons.prems(3) g1 w by (auto simp: bindE_def same_but_def split: sum.splits if_splits)
qed simp

lemma generate_beacon_wf:
  assumes "bp_wf0 L rt" "generate_beacon L owns rt = (r, rt')"
  shows "bp_wf0 L rt' \<and> clientProtocols_mutex rt' = clientProtocols_mutex rt"
proof -
  have ids: "set (protocol_ids rt) \<subseteq> dom (clientProtocols rt)" using assms(1) set_protocol_ids by (auto simp: bp_wf0_def)
  have g: "bp_wf0 L (g_rt g') \<and> clientProtocols_mutex (g_rt g') = clientProtocols_mutex rt"
    if "bindE (zoomE g_area (\<lambda>a g. g\<lparr>g_area := a\<rparr>) BPHeaderT_reserve) (\<lambda>_. attempt_all L owns (protocol_ids rt))
      \<lparr>g_rt = rt, g_area = a, g_num = 0\<rparr> = (x, g')" for a x g'
    using that attempt_all_wf [of L "\<lparr>g_rt = rt, g_area = b, g_num = 0\<rparr>" "protocol_ids rt" owns x g' for b] assms(1) ids
    by (auto simp: bindE_def zoomE_def split: prod.splits sum.splits)
  show ?thesis
    using assms g by (auto simp: generate_beacon_def Let_def split: if_splits sum.splits prod.splits)
qed

lemma transmitter_round_wf:
  assumes "bp_wf L rt" "\<not> clientProtocols_mutex rt"
  shows "bp_wf L (snd (transmitter_round L owns rt))"
proof -
  obtain r rt' where g: "generate_beacon L owns (lock_clients rt) = (r, rt')" by fastforce
  have "bp_wf0 L (lock_clients rt)" using assms(1) by (simp add: bp_wf_iff lock_clients_def)
  from generate_beacon_wf [OF this g] g show ?thesis
    by (auto simp: transmitter_round_def bp_wf_iff unlock_clients_def split: sum.split)
qed

section \<open>Receiver\<close>

lemma des_block_wf:
  assumes "wf_da area" "length pb = n"
  shows "wf_da (snd (deserialize_byte_block n (Some pb) area))"
    "deserialize_byte_block n (Some pb) area = (Inr blk, a') \<Longrightarrow> length blk = n"
  using deserialize_byte_block_spec [OF assms] des_block_sound [OF assms, of blk a'] assms(1) by auto

lemma indication_handler_inside:
  assumes "layout_ok L" "wf_da area" "unat (ph_length hdr) + ind_size L \<le> n"
  shows "stays_inside (indication_handler L hdr) area n"
  unfolding stays_inside_def
proof (intro allI impI)
  fix bs :: "u8 list" assume l: "length bs = n"
  let ?bs = "ind_image L (ph_length hdr) @ drop (ind_size L) bs"
  let ?pb = "take (unat (ph_length hdr)) (drop (ind_size L) ?bs)"
  have i: "length (ind_image L (ph_length hdr)) = ind_size L" using assms(1) by (simp add: layout_ok_def)
  then have b: "length ?bs = n" "length ?pb = unat (ph_length hdr)" using assms(3) l by simp_all
  obtain x a' where x: "deserialize_byte_block (unat (ph_length hdr)) (Some ?pb) area = (x, a')" by fastforce
  show "length (snd (snd (indication_handler L hdr n (area, bs)))) = n"
    using x des_block_wf(2) [OF assms(2) b(2), of _ a'] b assms(3) i l
    by (cases x) (simp_all add: indication_handler_def Let_def)
qed

definition frame_ok :: "da \<Rightarrow> bool" where
  "frame_ok a \<longleftrightarrow> wf_da a \<and> da_kind a = ByteVector"

lemma des_block_frame: "frame_ok area \<Longrightarrow> length pb = n \<Longrightarrow> frame_ok (snd (deserialize_byte_block n (Some pb) area))"
  using deserialize_byte_block_spec [of area pb n] by (auto simp: frame_ok_def)

lemma area_incr_frame_ok: "frame_ok area \<Longrightarrow> frame_ok (snd (area_incr n area))"
  using area_incr_frame [of area n] by (cases "n \<le> bytes_available area") (auto simp: frame_ok_def area_incr_def)

lemma indication_handler_area:
  assumes "layout_ok L" "frame_ok area" "ind_size L + unat (ph_length hdr) \<le> n" "length bs = n"
  shows "frame_ok (fst (snd (indication_handler L hdr n (area, bs))))"
proof -
  let ?bs = "ind_image L (ph_length hdr) @ drop (ind_size L) bs"
  let ?pb = "take (unat (ph_length hdr)) (drop (ind_size L) ?bs)"
  have "length (ind_image L (ph_length hdr)) = ind_size L" using assms(1) by (simp add: layout_ok_def)
  then have b: "length ?pb = unat (ph_length hdr)" using assms(3,4) by simp
  obtain x a' where x: "deserialize_byte_block (unat (ph_length hdr)) (Some ?pb) area = (x, a')" by fastforce
  with des_block_frame [OF assms(2) b] show ?thesis
    by (cases x) (simp_all add: indication_handler_def Let_def)
qed

definition rx_wf :: "bp_layout \<Rightarrow> bp_rx \<Rightarrow> bool" where
  "rx_wf L s \<longleftrightarrow> bp_wf0 L (fst s) \<and> frame_ok (snd s)"

lemma rx_wf_skip: "rx_wf L s \<Longrightarrow> rx_wf L (snd (skip_payload len s))"
  using area_incr_frame_ok [of "snd s" "unat len"] by (cases s) (auto simp: rx_wf_def zoomE_def split: prod.split)

text \<open>Counting changes neither the shape of the entry nor the mutex.\<close>

lemma count_client_wf:
  assumes "rx_wf L s" "clientProtocols (fst s) p \<noteq> None" "\<And>c. client_wf L (maxBeaconSize (fst s)) p (f c) = client_wf L (maxBeaconSize (fst s)) p c"
  shows "rx_wf L (snd (count_client p f s))"
proof -
  from assms(2) obtain c where c: "clientProtocols (fst s) p = Some c" by auto
  with assms(1,3) have "client_wf L (maxBeaconSize (fst s)) p (f c)" by (simp add: rx_wf_def bp_wf0_client)
  with assms(1) c bp_wf0_update [of L "fst s"] show ?thesis by (cases s) (simp add: rx_wf_def count_client_def)
qed

lemma client_wf_counts [simp]:
  "client_wf L M p (count_received c) = client_wf L M p c" "client_wf L M p (dropped_incoming c) = client_wf L M p c"
  by (simp_all add: client_wf_def count_received_def dropped_incoming_def)

definition rx_rel :: "bp_layout \<Rightarrow> BPProtocolIdT \<Rightarrow> (bp_rx, 'a) action \<Rightarrow> bool" where
  "rx_rel L p m \<longleftrightarrow> (\<forall>s. rx_wf L s \<longrightarrow> clientProtocols (fst s) p \<noteq> None \<longrightarrow>
     rx_wf L (snd (m s)) \<and> clientProtocols (fst (snd (m s))) p \<noteq> None \<and> clientProtocols_mutex (fst (snd (m s))) = clientProtocols_mutex (fst s)
     \<and> maxBeaconSize (fst (snd (m s))) = maxBeaconSize (fst s))"

lemma rx_rel_bindE:
  assumes "rx_rel L p m" "\<And>x. rx_rel L p (f x)"
  shows "rx_rel L p (bindE m f)"
  unfolding rx_rel_def
proof (intro allI impI)
  fix s assume s: "rx_wf L s" "clientProtocols (fst s) p \<noteq> None"
  obtain x s1 where x: "m s = (x, s1)" by (rule prod.exhaust)
  note one = assms(1) [unfolded rx_rel_def, rule_format, OF s, unfolded x snd_conv]
  note two = assms(2) [unfolded rx_rel_def, rule_format, of s1]
  show "rx_wf L (snd (bindE m f s)) \<and> clientProtocols (fst (snd (bindE m f s))) p \<noteq> None
      \<and> clientProtocols_mutex (fst (snd (bindE m f s))) = clientProtocols_mutex (fst s)
      \<and> maxBeaconSize (fst (snd (bindE m f s))) = maxBeaconSize (fst s)"
  proof (cases x)
    case (Inl e)
    with x one show ?thesis by (simp add: bindE_def)
  next
    case (Inr y)
    with x one two [of y] show ?thesis by (simp add: bindE_def)
  qed
qed

lemma rx_rel_ret: "rx_rel L p (retE x)"
  by (simp add: rx_rel_def)

lemma rx_rel_skip: "rx_rel L p (skip_payload len)"
  using rx_wf_skip by (fastforce simp: rx_rel_def zoomE_def split: prod.split)

lemma rx_rel_count:
  assumes "\<And>M c. client_wf L M p (f c) = client_wf L M p c"
  shows "rx_rel L p (count_client p f)"
  unfolding rx_rel_def using count_client_wf [OF _ _ assms] by (auto simp: count_client_def)

lemma rx_rel_push:
  assumes "layout_ok L" "fair_wait wait"
    "\<And>s. rx_wf L s \<Longrightarrow> clientProtocols (fst s) p \<noteq> None \<Longrightarrow> unat (ph_length hdr) + ind_size L \<le> maxBufferSize"
  shows "rx_rel L p (on_indications p (push_wait (indication_handler L hdr) t owns wait))"
  unfolding rx_rel_def
proof (intro allI impI)
  fix s assume s: "rx_wf L s" "clientProtocols (fst s) p \<noteq> None"
  obtain rt area where sd: "s = (rt, area)" by (cases s)
  obtain c where c: "clientProtocols rt p = Some c" using s(2) sd by auto
  have wf: "bp_wf0 L rt" "frame_ok area" using s(1) sd by (simp_all add: rx_wf_def)
  note w = bp_wf0_client [OF wf(1) c, unfolded client_wf_def]
  have i: "queue_ok maxBufferSize maxQueueLength (indications c)" using w by simp
  have n: "bufferSize (indications c) = maxBufferSize" using i by (simp add: queue_ok_def)
  have b: "unat (ph_length hdr) + ind_size L \<le> maxBufferSize" by (rule assms(3) [OF s])
  have st: "stays_inside (indication_handler L hdr) area (bufferSize (indications c))"
    unfolding n using wf(2) b by (intro indication_handler_inside [OF assms(1)]) (simp_all add: frame_ok_def)
  obtain x area' q where x: "push_wait (indication_handler L hdr) t owns wait (area, indications c) = (x, (area', q))"
    by (metis surj_pair)
  have "queue_ok maxBufferSize maxQueueLength q"
    by (rule queue_ok_keeps [OF i keepsD [OF push_wait_keeps [OF queue_ok_holds [OF i] st assms(2)] x]])
  then have "client_wf L (maxBeaconSize rt) p (c\<lparr>pSCS := (pSCS c)\<lparr>pqReceivePayloadIndication := q\<rparr>\<rparr>)"
    using w by (simp add: client_wf_def)
  then have "bp_wf0 L (update_client p (c\<lparr>pSCS := (pSCS c)\<lparr>pqReceivePayloadIndication := q\<rparr>\<rparr>) rt)" by (rule bp_wf0_update [OF wf(1)])
  moreover have "frame_ok area'"
    using indication_handler_area [OF assms(1) wf(2)] b n
    by (intro push_wait_caller [where P = frame_ok, OF wf(2) _ queue_ok_holds [OF i] assms(2) x]) (simp add: add.commute)
  ultimately show "rx_wf L (snd (on_indications p (push_wait (indication_handler L hdr) t owns wait) s))
      \<and> clientProtocols (fst (snd (on_indications p (push_wait (indication_handler L hdr) t owns wait) s))) p \<noteq> None
      \<and> clientProtocols_mutex (fst (snd (on_indications p (push_wait (indication_handler L hdr) t owns wait) s))) = clientProtocols_mutex (fst s)
      \<and> maxBeaconSize (fst (snd (on_indications p (push_wait (indication_handler L hdr) t owns wait) s))) = maxBeaconSize (fst s)"
    using c x sd by (simp add: on_indications_def zoomE_def rx_wf_def Let_def)
qed

lemma deliver_payload_wf:
  assumes "layout_ok L" "rx_wf L s" "fair_wait wait"
  shows "rx_wf L (snd (deliver_payload L owns wait hdr s))
    \<and> clientProtocols_mutex (fst (snd (deliver_payload L owns wait hdr s))) = clientProtocols_mutex (fst s)"
proof -
  obtain rt area where sd: "s = (rt, area)" by (cases s)
  let ?p = "ph_protocolId hdr"
  show ?thesis
  proof (cases "clientProtocols rt ?p")
    case None
    then have "deliver_payload L owns wait hdr s = skip_payload (ph_length hdr) s" using sd by (simp add: deliver_payload_def Let_def)
    moreover have "clientProtocols_mutex (fst (snd (skip_payload (ph_length hdr) s))) = clientProtocols_mutex (fst s)"
      using sd by (simp add: zoomE_def split: prod.split)
    ultimately show ?thesis using rx_wf_skip [OF assms(2)] by simp
  next
    case (Some c)
    let ?drop = "bindE (skip_payload (ph_length hdr)) (\<lambda>_. count_client ?p dropped_incoming)"
    have d: "rx_rel L ?p ?drop" by (intro rx_rel_bindE rx_rel_skip rx_rel_count) simp
    have n: "bufferSize (indications c) = maxBufferSize"
      using bp_wf0_client [of L rt ?p c] Some assms(2) sd by (simp add: rx_wf_def client_wf_def queue_ok_def)
    have rel: "rx_rel L ?p (bindE (count_client ?p count_received) (\<lambda>_.
         if ci_protocolId (static_info c) \<noteq> ?p then ?drop
         else if unat (ph_length hdr) + ind_size L > bufferSize (indications c) then ?drop
         else bindE (on_indications ?p (push_wait (indication_handler L hdr) 5 owns wait)) (\<lambda>timed_out.
           if timed_out then ?drop else retE ())))"
      using d assms(1,3) n
      by (intro rx_rel_bindE rx_rel_count)
        (auto intro!: rx_rel_bindE rx_rel_push rx_rel_ret simp: not_less split: if_splits)
    have "deliver_payload L owns wait hdr s = (bindE (count_client ?p count_received) (\<lambda>_.
         if ci_protocolId (static_info c) \<noteq> ?p then ?drop
         else if unat (ph_length hdr) + ind_size L > bufferSize (indications c) then ?drop
         else bindE (on_indications ?p (push_wait (indication_handler L hdr) 5 owns wait)) (\<lambda>timed_out.
           if timed_out then ?drop else retE ()))) s"
      unfolding sd deliver_payload_def Let_def prod.case using Some by simp
    with rel [unfolded rx_rel_def, rule_format, OF assms(2)] Some sd show ?thesis by simp
  qed
qed

end
