(* ===== verification/BpInvariant.thy ===== *)
theory BpInvariant
  imports BpDemon
begin

text \<open>
  The invariant of the beaconing demon, continued: whole frames, the commands, the payload
  management thread; then all reachable states.
\<close>

section \<open>Frames\<close>

lemma frame_ok_new: "frame_ok (ByteVectorDisassemblyArea bs)"
  by (simp add: frame_ok_def ByteVectorDisassemblyArea_def wf_da_def wf_area_def)

lemma frame_keeps_byte [wf_intros]: "preserves frame_ok deserialize_byte"
  by (rule preservesI) (simp add: frame_ok_def deserialize_byte_spec)

lemma frame_keeps_uint16 [wf_intros]: "preserves frame_ok deserialize_uint16_n"
  unfolding deserialize_uint16_n_def by (intro wf_intros)

lemma frame_keeps_uint32 [wf_intros]: "preserves frame_ok deserialize_uint32_n"
  unfolding deserialize_uint32_n_def by (intro wf_intros)

lemma frame_keeps_node [wf_intros]: "preserves frame_ok des_NodeIdentifierT"
  unfolding des_NodeIdentifierT_def
  by (intro wf_intros preservesI [of _ "deserialize_byte_block n pb" for n pb]) (simp add: des_block_frame)

lemma frame_keeps_headers [wf_intros]:
  "preserves frame_ok des_BPHeaderT" "preserves frame_ok des_BPPayloadHeaderT"
  unfolding des_BPHeaderT_def des_BPPayloadHeaderT_def des_integral16_def by (intro wf_intros)+

text \<open>The area is never made larger than the frame.\<close>

lemma frame_keeps_resize: "frame_ok a \<Longrightarrow> n \<le> initial_available a \<Longrightarrow> frame_ok (snd (area_resize n a))"
  by (auto simp: area_resize_def frame_ok_def wf_da_def wf_area_def)

lemma rx_wf_frame: "rx_wf L (rt, a) \<Longrightarrow> preserves frame_ok m \<Longrightarrow> rx_wf L (snd (on_frame m (rt, a)))"
  using preservesD [of frame_ok m a] by (auto simp: rx_wf_def zoomE_def split: prod.split)

lemma set_mutex_wf [simp]: "rx_wf L (snd (set_mutex b s)) = rx_wf L s"
  by (cases s) (simp add: set_mutex_def rx_wf_def)

lemma deliver_all_wf:
  assumes "layout_ok L" "rx_wf L (rt, area)" "\<not> clientProtocols_mutex rt" "\<forall>e \<in> set env. fair_wait (snd e)"
    "deliver_all L env (rt, area) = (r, (rt', area'))"
  shows "rx_wf L (rt', area') \<and> (clientProtocols_mutex rt' \<longrightarrow> isl r)"
  using assms(2-)
proof (induction env arbitrary: rt area)
  case (Cons e env)
  obtain owns wait where e: "e = (owns, wait)" by (cases e)
  show ?case
  proof (cases "bytes_available area < BPPayloadHeaderT_fixed_size")
    case True
    with Cons.prems e show ?thesis by simp
  next
    case False
    obtain x a1 where x: "des_BPPayloadHeaderT area = (x, a1)" by fastforce
    have w1: "rx_wf L (rt, a1)"
      using rx_wf_frame [OF Cons.prems(1) frame_keeps_headers(2)] x by (simp add: zoomE_def)
    show ?thesis
    proof (cases x)
      case (Inl err)
      with Cons.prems e False x w1 show ?thesis by (auto simp: bindE_def zoomE_def)
    next
      case (Inr hdr)
      let ?s = "(rt\<lparr>clientProtocols_mutex := True\<rparr>, a1)"
      obtain y rt2 a2 where y: "deliver_payload L owns wait hdr ?s = (y, (rt2, a2))" by (metis surj_pair)
      have "fair_wait wait" using Cons.prems(3) e by simp
      moreover have "rx_wf L ?s" using w1 by (simp add: rx_wf_def)
      ultimately have w2: "rx_wf L (rt2, a2)"
        using deliver_payload_wf [OF assms(1), of ?s wait owns hdr] y by simp
      then have w3: "rx_wf L (rt2\<lparr>clientProtocols_mutex := False\<rparr>, a2)" by (simp add: rx_wf_def)
      have m: "\<not> clientProtocols_mutex (rt2\<lparr>clientProtocols_mutex := False\<rparr>)" by simp
      have env: "\<forall>e \<in> set env. fair_wait (snd e)" using Cons.prems(3) by simp
      show ?thesis
      proof (cases "bytes_available a1 < unat (ph_length hdr)")
        case True
        with Cons.prems e False x Inr w1 show ?thesis by (simp add: bindE_def zoomE_def)
      next
        case b: False
        show ?thesis
        proof (cases y)
          case (Inl err)
          with Cons.prems e False x Inr b y w2 show ?thesis by (auto simp: bindE_def zoomE_def set_mutex_def)
        next
          case (Inr u)
          with Cons.prems(4) e False x \<open>x = Inr hdr\<close> b y
          have "deliver_all L env (rt2\<lparr>clientProtocols_mutex := False\<rparr>, a2) = (r, (rt', area'))"
            by (simp add: bindE_def zoomE_def set_mutex_def)
          from Cons.IH [OF w3 m env this] show ?thesis .
        qed
      qed
    qed
  qed
qed simp

lemma received_payload_wf:
  assumes "layout_ok L" "rx_wf L (rt, area)" "\<not> clientProtocols_mutex rt" "\<And>i. fair_wait (snd (env i))"
    "bp_process_received_payload L env (rt, area) = (r, (rt', area'))"
  shows "bp_wf0 L rt' \<and> (clientProtocols_mutex rt' \<longrightarrow> isl r)"
proof -
  have w0: "bp_wf0 L rt" using assms(2) by (simp add: rx_wf_def)
  obtain x a1 where x: "des_BPHeaderT area = (x, a1)" by fastforce
  have w1: "rx_wf L (rt, a1)" using rx_wf_frame [OF assms(2) frame_keeps_headers(1)] x by (simp add: zoomE_def)
  consider "rt' = rt" | "rt' = rt\<lparr>bp_exitFlag := True\<rparr>"
    | hdr where "x = Inr hdr" "unat (bh_length hdr) \<le> bytes_available a1"
      "bindE (if unat (bh_length hdr) < bytes_available a1
                   then on_frame (area_resize (BPHeaderT_fixed_size + unat (bh_length hdr))) else retE ()) (\<lambda>_.
            deliver_all L (map env [0..<unat (bh_numPayloads hdr)])) (rt, a1) = (r, (rt', area'))"
    using assms(5) x by (auto simp: bp_process_received_payload_def bindE_def zoomE_def split: if_splits sum.splits)
  then show ?thesis
  proof cases
    case (3 hdr)
    let ?env = "map env [0..<unat (bh_numPayloads hdr)]"
    have env: "\<forall>e \<in> set ?env. fair_wait (snd e)" using assms(4) by simp
    show ?thesis
    proof (cases "unat (bh_length hdr) < bytes_available a1")
      case False
      then have "deliver_all L ?env (rt, a1) = (r, (rt', area'))" using 3(3) by simp
      from deliver_all_wf [OF assms(1) w1 assms(3) env this] show ?thesis by (simp add: rx_wf_def)
    next
      case True
      let ?n = "BPHeaderT_fixed_size + unat (bh_length hdr)"
      obtain y a2 where y: "area_resize ?n a1 = (y, a2)" by fastforce
      have "des_BPHeaderT area = (Inr hdr, a1)" using x 3(1) by simp
      then have "a1 = da_advance BPHeaderT_fixed_size area" "wf_da area"
        using bphdr_codec.des_sound [of area hdr a1] assms(2) by (auto simp: rx_wf_def frame_ok_def)
      then have "BPHeaderT_fixed_size \<le> bytes_used a1" by simp
      moreover have "bytes_used a1 + bytes_available a1 = initial_available a1"
        using w1 by (simp add: rx_wf_def frame_ok_def wf_da_def wf_area_def)
      ultimately have "?n \<le> initial_available a1" using True by linarith
      then have w2: "rx_wf L (rt, a2)" using w1 y frame_keeps_resize [of a1 ?n] by (simp add: rx_wf_def)
      show ?thesis
      proof (cases y)
        case (Inl err)
        with 3(3) True y w0 assms(3) show ?thesis by (auto simp: bindE_def zoomE_def)
      next
        case (Inr u)
        then have "deliver_all L ?env (rt, a2) = (r, (rt', area'))"
          using 3(3) True y by (simp add: bindE_def zoomE_def)
        from deliver_all_wf [OF assms(1) w2 assms(3) env this] show ?thesis by (simp add: rx_wf_def)
      qed
    qed
  qed (use w0 assms(3) in simp_all)
qed

lemma receiver_frame_wf:
  assumes "layout_ok L" "bp_wf L rt" "\<not> clientProtocols_mutex rt" "\<And>i. fair_wait (snd (env i))"
  shows "bp_wf L (receiver_frame L env frame rt)"
proof -
  let ?rt = "rt\<lparr>cntBPPayloads := cntBPPayloads rt + 1\<rparr>" and ?a = "ByteVectorDisassemblyArea frame"
  obtain r rt' a' where p: "bp_process_received_payload L env (?rt, ?a) = (r, (rt', a'))" by (metis surj_pair)
  have "rx_wf L (?rt, ?a)" using assms(2) frame_ok_new by (simp add: rx_wf_def bp_wf_iff)
  from received_payload_wf [OF assms(1) this _ assms(4) p] assms(3)
  have "bp_wf0 L rt'" "clientProtocols_mutex rt' \<longrightarrow> isl r" by simp_all
  with p assms(2,3) show ?thesis
    by (auto simp: receiver_frame_def Let_def bp_wf_iff split: sum.splits)
qed

section \<open>Commands\<close>

text \<open>What a command may do under the mutex: keep the tables, and not touch the mutex itself.\<close>

definition cmd_ok :: "bp_layout \<Rightarrow> (BPRuntimeData, 'a) action \<Rightarrow> bool" where
  "cmd_ok L m \<longleftrightarrow> (\<forall>b. preserves (\<lambda>rt. bp_wf0 L rt \<and> clientProtocols_mutex rt = b) m)"

lemma cmd_okI: "(\<And>rt. bp_wf0 L rt \<Longrightarrow> bp_wf0 L (snd (m rt)) \<and> clientProtocols_mutex (snd (m rt)) = clientProtocols_mutex rt)
    \<Longrightarrow> cmd_ok L m"
  by (simp add: cmd_ok_def preserves_def)

lemma cmd_okD: "cmd_ok L m \<Longrightarrow> bp_wf0 L rt \<Longrightarrow> m rt = (r, rt')
    \<Longrightarrow> bp_wf0 L rt' \<and> clientProtocols_mutex rt' = clientProtocols_mutex rt"
  unfolding cmd_ok_def by (auto dest: preservesD)

lemma cmd_ok_basic [wf_intros]:
  "cmd_ok L (retE x)" "cmd_ok L (throwE e)" "cmd_ok L (getE f)" "cmd_ok L (throw_if e Q)" "cmd_ok L set_bp_exit"
  by (simp_all add: cmd_ok_def preserves_def set_bp_exit_def)

lemma cmd_ok_bindE [wf_intros]: "cmd_ok L m \<Longrightarrow> (\<And>x. cmd_ok L (f x)) \<Longrightarrow> cmd_ok L (bindE m f)"
  by (simp add: cmd_ok_def preserves_bindE)

lemma cmd_ok_if [wf_intros]: "(b \<Longrightarrow> cmd_ok L m) \<Longrightarrow> (\<not> b \<Longrightarrow> cmd_ok L n) \<Longrightarrow> cmd_ok L (if b then m else n)"
  by simp

lemma cmd_ok_option [wf_intros]: "cmd_ok L m \<Longrightarrow> (\<And>x. y = Some x \<Longrightarrow> cmd_ok L (n x)) \<Longrightarrow> cmd_ok L (case y of None \<Rightarrow> m | Some x \<Rightarrow> n x)"
  by (cases y) simp_all

lemma confirmation_ok [wf_intros]: "cmd_ok L (register_confirmation st)"
  unfolding register_confirmation_def by (intro wf_intros)

lemma activation_ok [wf_intros]:
  "cmd_ok L (modifyE (\<lambda>rt. rt\<lparr>bp_isActive := b\<rparr>))" "cmd_ok L handleBPShutDown_Request"
  "cmd_ok L (handleBPActivate_Request req)" "cmd_ok L (handleBPDeactivate_Request req)"
  "cmd_ok L (handleBPGetStatistics_Request req)" "cmd_ok L (handleBPListRegisteredProtocols_Request req)"
proof -
  show m: "cmd_ok L (modifyE (\<lambda>rt. rt\<lparr>bp_isActive := b\<rparr>))" for b by (rule cmd_okI) simp
  show "cmd_ok L handleBPShutDown_Request" "cmd_ok L (handleBPActivate_Request req)" "cmd_ok L (handleBPDeactivate_Request req)"
    "cmd_ok L (handleBPGetStatistics_Request req)" "cmd_ok L (handleBPListRegisteredProtocols_Request req)"
    unfolding handleBPShutDown_Request_def handleBPActivate_Request_def handleBPDeactivate_Request_def
      handleBPGetStatistics_Request_def handleBPListRegisteredProtocols_Request_def
    by (intro wf_intros m)+
qed

text \<open>Resetting a queue of a client.\<close>

lemma reset_queue_ok:
  assumes "queue_ok n k q"
  obtains q' where "shm_reset q = (Inr (), q')" "queue_ok n k q'"
  by (rule shm_reset_keeps [OF queue_ok_holds [OF assms]]) (use queue_ok_keeps [OF assms] in auto)

lemma reset_on_client_ok:
  assumes "bp_wf0 L rt" "clientProtocols rt p = Some c"
  shows "\<exists>rt'. on_client_queue p shm_reset rt = (Inr (), rt') \<and> bp_wf0 L rt'
      \<and> clientProtocols_mutex rt' = clientProtocols_mutex rt \<and> dom (clientProtocols rt') = dom (clientProtocols rt)"
    "\<exists>rt'. on_client_buffer p shm_reset rt = (Inr (), rt') \<and> bp_wf0 L rt'
      \<and> clientProtocols_mutex rt' = clientProtocols_mutex rt \<and> dom (clientProtocols rt') = dom (clientProtocols rt)"
proof -
  note w = bp_wf0_client [OF assms, unfolded client_wf_def]
  have q: "queue_ok maxBufferSize (max 1 (unat (ci_maxEntries (static_info c)))) (cs_queue (pSCS c))"
    "queue_ok maxBufferSize 1 (cs_buffer (pSCS c))" using w by simp_all
  have d: "insert p (dom (clientProtocols rt)) = dom (clientProtocols rt)" using assms(2) by auto
  obtain q' where q': "shm_reset (cs_queue (pSCS c)) = (Inr (), q')"
    "queue_ok maxBufferSize (max 1 (unat (ci_maxEntries (static_info c)))) q'" by (rule reset_queue_ok [OF q(1)])
  have "client_wf L (maxBeaconSize rt) p (c\<lparr>pSCS := (pSCS c)\<lparr>cs_queue := q'\<rparr>\<rparr>)"
    using w q' by (simp add: client_wf_def)
  from bp_wf0_update [OF assms(1) this] q' assms(2) d
  show "\<exists>rt'. on_client_queue p shm_reset rt = (Inr (), rt') \<and> bp_wf0 L rt'
      \<and> clientProtocols_mutex rt' = clientProtocols_mutex rt \<and> dom (clientProtocols rt') = dom (clientProtocols rt)"
    by (simp add: on_client_queue_def zoomE_def Let_def)
  obtain b' where b': "shm_reset (cs_buffer (pSCS c)) = (Inr (), b')" "queue_ok maxBufferSize 1 b'" by (rule reset_queue_ok [OF q(2)])
  have "client_wf L (maxBeaconSize rt) p (c\<lparr>pSCS := (pSCS c)\<lparr>cs_buffer := b'\<rparr>\<rparr>)"
    using w b' by (simp add: client_wf_def)
  from bp_wf0_update [OF assms(1) this] b' assms(2) d
  show "\<exists>rt'. on_client_buffer p shm_reset rt = (Inr (), rt') \<and> bp_wf0 L rt'
      \<and> clientProtocols_mutex rt' = clientProtocols_mutex rt \<and> dom (clientProtocols rt') = dom (clientProtocols rt)"
    by (simp add: on_client_buffer_def zoomE_def Let_def)
qed

lemma clear_ok [wf_intros]: "cmd_ok L (handleBPClearBuffer_Request req)"
proof (rule cmd_okI)
  fix rt assume w: "bp_wf0 L rt"
  show "bp_wf0 L (snd (handleBPClearBuffer_Request req rt))
      \<and> clientProtocols_mutex (snd (handleBPClearBuffer_Request req rt)) = clientProtocols_mutex rt"
  proof (cases "\<exists>p c. req = Some p \<and> clientProtocols rt p = Some c")
    case False
    with w show ?thesis
      by (auto simp: handleBPClearBuffer_Request_def handleRegularRequestUsingSharedMemory_def bindE_def set_bp_exit_def split: option.split)
  next
    case True
    then obtain p c where c: "req = Some p" "clientProtocols rt p = Some c" by blast
    obtain rt1 where r1: "on_client_queue p shm_reset rt = (Inr (), rt1)" "bp_wf0 L rt1"
      "clientProtocols_mutex rt1 = clientProtocols_mutex rt" using reset_on_client_ok(1) [OF w c(2)] by blast
    obtain rt2 where r2: "on_client_buffer p shm_reset rt = (Inr (), rt2)" "bp_wf0 L rt2"
      "clientProtocols_mutex rt2 = clientProtocols_mutex rt" using reset_on_client_ok(2) [OF w c(2)] by blast
    show ?thesis using w c r1 r2
      by (simp add: handleBPClearBuffer_Request_def handleRegularRequestUsingSharedMemory_def bindE_def set_bp_exit_def Let_def)
  qed
qed

lemma query_ok [wf_intros]: "cmd_ok L (handleBPQueryNumberBufferedPayloads_Request req)"
  by (rule cmd_okI) (auto simp: handleBPQueryNumberBufferedPayloads_Request_def handleRegularRequestUsingSharedMemory_def
      bindE_def set_bp_exit_def Let_def split: option.split)

lemma deregister_ok [wf_intros]: "cmd_ok L (handleBPDeregisterProtocol_Request req)"
  by (rule cmd_okI) (auto simp: handleBPDeregisterProtocol_Request_def bindE_def set_bp_exit_def bp_wf0_def split: option.split if_splits)

text \<open>A registration that succeeds makes a well-formed entry.\<close>

lemma new_segment_ok:
  assumes "new_BPShmControlSegment L sci gen m1 m2 m3 m4 = Inr cs" "raw_ok m1" "raw_ok m2" "raw_ok m3" "raw_ok m4"
  shows "static_client_info cs = sci \<and> unat (ci_maxEntries sci) \<le> maxQueueLength
     \<and> queue_ok maxBufferSize (max 1 (unat (ci_maxEntries sci))) (cs_queue cs)
     \<and> queue_ok maxBufferSize 1 (cs_buffer cs)
     \<and> queue_ok maxBufferSize maxQueueLength (pqReceivePayloadIndication cs)
     \<and> queue_ok (confirmBufferSize L) maxQueueLength (pqTransmitPayloadConfirm cs)"
proof -
  obtain a b c d where n: "new_queue (confirmBufferSize L) ''transmit-payload-confirms'' maxQueueLength m1 = Inr a"
    "new_queue maxBufferSize ''receive-payload-indications'' maxQueueLength m2 = Inr b"
    "new_queue maxBufferSize ''payload-queue'' (max 1 (unat (ci_maxEntries sci))) m3 = Inr c"
    "new_queue maxBufferSize ''payload-buffer'' 1 m4 = Inr d"
    and cs: "cs = \<lparr>pqTransmitPayloadConfirm = a, pqReceivePayloadIndication = b, cs_queue = c, cs_buffer = d,
             generateTransmitPayloadConfirms = gen, static_client_info = sci\<rparr>"
    using assms(1) by (auto simp: new_BPShmControlSegment_def split: sum.splits)
  have "queue_ok (confirmBufferSize L) maxQueueLength a" by (rule new_queue_ok(1) [OF n(1) assms(2)]) simp
  moreover have "queue_ok maxBufferSize maxQueueLength b" by (rule new_queue_ok(1) [OF n(2) assms(3)]) simp
  moreover have "queue_ok maxBufferSize (max 1 (unat (ci_maxEntries sci))) c" by (rule new_queue_ok(1) [OF n(3) assms(4)]) simp
  moreover have "max 1 (unat (ci_maxEntries sci)) \<le> maxQueueLength" by (rule new_queue_ok(3) [OF n(3) assms(4)]) simp
  moreover have "queue_ok maxBufferSize 1 d" by (rule new_queue_ok(1) [OF n(4) assms(5)]) simp
  ultimately show ?thesis using cs by simp
qed

lemma register_ok [wf_intros]:
  assumes "command_ok (RegisterProtocol logged shm now req)"
  shows "cmd_ok L (handleBPRegisterProtocol_Request L logged shm now req)"
proof (rule cmd_okI)
  fix rt assume w: "bp_wf0 L rt"
  let ?rt = "snd (handleBPRegisterProtocol_Request L logged shm now req rt)"
  note defs = handleBPRegisterProtocol_Request_def bindE_def set_bp_exit_def register_confirmation_def Let_def
  show "bp_wf0 L ?rt \<and> clientProtocols_mutex ?rt = clientProtocols_mutex rt"
  proof (cases req)
    case None
    with w show ?thesis by (simp add: defs)
  next
    case (Some r)
    let ?si = "rr_static_info r"
    let ?new = "new_BPClientProtocolData L shm ?si (rr_generateTransmitPayloadConfirms r) now"
    show ?thesis
    proof (cases "?rt = rt")
      case False
      have "?rt = rt \<or> ci_maxPayloadSize ?si \<noteq> 0
          \<and> unat (ci_maxPayloadSize ?si) \<le> maxBeaconSize rt - (BPHeaderT_fixed_size + BPPayloadHeaderT_fixed_size)
          \<and> ?rt = (case ?new of Inl e \<Rightarrow> rt | Inr c \<Rightarrow> update_client (ci_protocolId ?si) c rt)"
        using Some by (simp add: defs split: sum.split)
      with False obtain c where c: "?new = Inr c" "?rt = update_client (ci_protocolId ?si) c rt"
        "0 < ci_maxPayloadSize ?si"
        "unat (ci_maxPayloadSize ?si) \<le> maxBeaconSize rt - (BPHeaderT_fixed_size + BPPayloadHeaderT_fixed_size)"
        by (cases ?new) (simp_all add: word_neq_0_conv)
      obtain m1 m2 m3 m4 cs where m: "shm = Inr (m1, m2, m3, m4)"
        "new_BPShmControlSegment L ?si (rr_generateTransmitPayloadConfirms r) m1 m2 m3 m4 = Inr cs"
        "static_info c = ?si" "pSCS c = cs"
        using c(1) by (auto simp: new_BPClientProtocolData_def split: sum.splits prod.splits)
      have "raw_ok m1" "raw_ok m2" "raw_ok m3" "raw_ok m4" using assms m(1) by simp_all
      from new_segment_ok [OF m(2) this] m(3,4) c(3,4) have "client_wf L (maxBeaconSize rt) (ci_protocolId ?si) c"
        by (simp add: client_wf_def)
      from bp_wf0_update [OF w this] c(2) show ?thesis by simp
    qed (use w in simp)
  qed
qed

section \<open>The socket and the management of payloads\<close>

text \<open>When nothing is thrown, the mutex is free again.\<close>

lemma with_clients_locked_wf:
  assumes "bp_wf L rt" "\<not> clientProtocols_mutex rt" "cmd_ok L m" "with_clients_locked m rt = (r, rt')"
  shows "bp_wf0 L rt' \<and> (clientProtocols_mutex rt' \<longrightarrow> isl r)"
proof -
  obtain x rt1 where x: "m (lock_clients rt) = (x, rt1)" by fastforce
  have "bp_wf0 L (lock_clients rt)" using assms(1) by (simp add: bp_wf_iff lock_clients_def)
  from cmd_okD [OF assms(3) this x] have "bp_wf0 L rt1" by simp
  with assms(4) x show ?thesis
    by (auto simp: with_clients_locked_def bindE_def unlock_clients_def split: sum.splits)
qed

lemma unlocked_wf:
  assumes "bp_wf L rt" "\<not> clientProtocols_mutex rt" "cmd_ok L m" "m rt = (r, rt')"
  shows "bp_wf L rt'"
  using cmd_okD [OF assms(3) _ assms(4)] assms(1,2) by (simp add: bp_wf_iff)

lemma command_wf:
  assumes "bp_wf L rt" "\<not> clientProtocols_mutex rt" "command_ok cmd" "handle_command_socket L cmd rt = (Inr conf, rt')"
  shows "bp_wf L rt'"
proof -
  have l: "bp_wf L rt'" if "with_clients_locked m rt = (Inr conf, rt')" "cmd_ok L m" for m
    using with_clients_locked_wf [OF assms(1,2) that(2,1)] by (auto simp: bp_wf_iff)
  have u: "bp_wf L rt'" if "handle_command_socket L cmd = m" "cmd_ok L m" for m
    by (rule unlocked_wf [OF assms(1,2) that(2) assms(4) [unfolded that(1)]])
  show ?thesis
  proof (cases cmd)
    case (RegisterProtocol a b c d)
    have "cmd_ok L (confirmed (handleBPRegisterProtocol_Request L a b c d))"
      by (intro wf_intros) (rule assms(3) [unfolded RegisterProtocol])
    with l assms(4) show ?thesis unfolding RegisterProtocol by simp
  next
    case (DeregisterProtocol req)
    show ?thesis by (rule l [OF assms(4) [unfolded DeregisterProtocol handle_command_socket.simps]]) (intro wf_intros)
  next
    case (ListRegisteredProtocols req)
    show ?thesis by (rule l [OF assms(4) [unfolded ListRegisteredProtocols handle_command_socket.simps]]) (intro wf_intros)
  next
    case (ClearBuffer req)
    show ?thesis by (rule l [OF assms(4) [unfolded ClearBuffer handle_command_socket.simps]]) (intro wf_intros)
  next
    case (QueryNumberBufferedPayloads req)
    show ?thesis by (rule l [OF assms(4) [unfolded QueryNumberBufferedPayloads handle_command_socket.simps]]) (intro wf_intros)
  qed (rule u, (rule handle_command_socket.simps ext; simp), intro wf_intros)+
qed

lemma reset_client_keeps:
  assumes "p \<in> d"
  shows "preserves (\<lambda>rt. bp_wf0 L rt \<and> clientProtocols_mutex rt = b \<and> dom (clientProtocols rt) = d) (reset_client p)"
proof (rule preservesI, elim conjE)
  fix rt assume a: "bp_wf0 L rt" "clientProtocols_mutex rt = b" "dom (clientProtocols rt) = d"
  with assms obtain c where c: "clientProtocols rt p = Some c" by blast
  obtain rt1 where r1: "on_client_queue p shm_reset rt = (Inr (), rt1)" "bp_wf0 L rt1"
    "clientProtocols_mutex rt1 = clientProtocols_mutex rt" "dom (clientProtocols rt1) = dom (clientProtocols rt)"
    using reset_on_client_ok(1) [OF a(1) c] by blast
  then obtain c1 where c1: "clientProtocols rt1 p = Some c1" using a(3) assms by (metis domD)
  obtain rt2 where r2: "on_client_buffer p shm_reset rt1 = (Inr (), rt2)" "bp_wf0 L rt2"
    "clientProtocols_mutex rt2 = clientProtocols_mutex rt1" "dom (clientProtocols rt2) = dom (clientProtocols rt1)"
    using reset_on_client_ok(2) [OF r1(2) c1] by blast
  have "snd (reset_client p rt) = rt2 \<or> snd (reset_client p rt) = rt"
    using r1 r2 by (simp add: reset_client_def bindE_def)
  then show "bp_wf0 L (snd (reset_client p rt))
      \<and> clientProtocols_mutex (snd (reset_client p rt)) = b \<and> dom (clientProtocols (snd (reset_client p rt))) = d"
    using a r1 r2 by (elim disjE) (simp_all del: domIff)
qed

lemma payloads_ok: "cmd_ok L handle_payload_from_client"
proof (rule cmd_okI)
  fix rt assume w: "bp_wf0 L rt"
  have "set (protocol_ids rt) = dom (clientProtocols rt)" using w by (intro set_protocol_ids) (simp add: bp_wf0_def)
  then have "preserves (\<lambda>rt'. bp_wf0 L rt' \<and> clientProtocols_mutex rt' = clientProtocols_mutex rt
      \<and> dom (clientProtocols rt') = dom (clientProtocols rt)) (forE reset_client (protocol_ids rt))"
    by (intro preserves_forE reset_client_keeps) simp
  with w show "bp_wf0 L (snd (handle_payload_from_client rt))
      \<and> clientProtocols_mutex (snd (handle_payload_from_client rt)) = clientProtocols_mutex rt"
    by (simp add: handle_payload_from_client_def preserves_def)
qed

lemma payload_management_wf:
  assumes "bp_wf L rt" "\<not> clientProtocols_mutex rt"
  shows "bp_wf L (payload_management_round rt)"
proof -
  obtain r rt' where r: "with_clients_locked handle_payload_from_client rt = (r, rt')" by fastforce
  from with_clients_locked_wf [OF assms payloads_ok r] r show ?thesis
    by (cases r) (auto simp: payload_management_round_def bp_wf_iff)
qed

section \<open>Reachable states\<close>

lemma client_wf_mutex: "bp_wf L rt \<Longrightarrow> bp_wf0 L (update_client p c rt) \<Longrightarrow> bp_wf L (update_client p c rt)"
  by (simp add: bp_wf_iff)

lemma bp_step_wf:
  assumes "layout_ok L" "bp_wf L rt" "bp_step L rt rt'"
  shows "bp_wf L rt'"
proof -
  have w0: "bp_wf0 L rt" using assms(2) by (simp add: bp_wf_iff)
  show ?thesis using assms(3)
  proof cases
    case client_transmit
    then show ?thesis using client_wf_mutex [OF assms(2)] client_transmit_wf [OF w0] by blast
  next
    case (client_receive p c handler t owns h r h' q)
    from client_wf_mutex [OF assms(2) client_receive_wf [OF w0 client_receive(2,3)]] client_receive(1) show ?thesis by simp
  next
    case transmit
    then show ?thesis using transmitter_round_wf [OF assms(2)] by simp
  next
    case receive
    then show ?thesis using receiver_frame_wf [OF assms(1,2)] by simp
  next
    case command
    then show ?thesis using command_wf [OF assms(2)] by blast
  next
    case payload_management
    then show ?thesis using payload_management_wf [OF assms(2)] by simp
  qed
qed

lemma bp_reachable_wf:
  assumes "bp_reachable L rt0 rt" "layout_ok L" "bp_wf L rt0"
  shows "bp_wf L rt"
  using assms by (induction rule: bp_reachable.induct) (auto intro: bp_step_wf)

end
