(* ===== verification/BpRegister.thy ===== *)
theory BpRegister
  imports BpInvariant
begin

text \<open>
  What a registration with the beaconing demon gives a client: a segment of four empty queues, or
  an exception when the requested queue is longer than the ring buffer in the segment.  Then two
  concrete nodes, at which the properties of the protocol are shown to apply.
\<close>

section \<open>A new segment\<close>

lemma new_queue_usable:
  assumes "raw_ok raw" "1 \<le> cap" "cap \<le> maxQueueLength" "length nm \<le> 255"
  obtains q where "new_queue bufsize nm cap raw = Inr q" "shm_ok q" "shm_msgs q = []" "maxCapacity (shm_queue q) = cap"
    "bufferSize q = bufsize"
proof -
  obtain m1 m2 m3 where raw: "raw = (m1, m2, m3)" by (cases raw)
  have l: "length m1 = maxQueueLength + 1" "length m2 = maxQueueLength + 1" using assms(1) raw by (simp_all add: raw_ok_def)
  show thesis
    by (rule new_ShmFiniteQueue_ok [OF assms(2,3) l assms(4), of bufsize m3]) (rule that, simp_all add: raw new_queue_def)
qed

lemma new_queue_too_long:
  assumes "raw_ok raw" "maxQueueLength < cap"
  shows "new_queue bufsize nm cap raw = Inl RingBufferException"
proof -
  obtain m1 m2 m3 where raw: "raw = (m1, m2, m3)" by (cases raw)
  with assms show ?thesis
    by (simp add: raw_ok_def new_queue_def new_ShmFiniteQueue_def new_ring_buffer_def maxRingBufferNameLength_def)
qed

text \<open>The queues of a client that has just been registered.\<close>

definition fresh_client :: "bp_layout \<Rightarrow> BPStaticClientInfo \<Rightarrow> BPClientProtocolData \<Rightarrow> bool" where
  "fresh_client L sci c \<longleftrightarrow> static_info c = sci \<and> static_client_info (pSCS c) = sci
     \<and> (\<forall>q \<in> {cs_queue (pSCS c), cs_buffer (pSCS c), indications c, pqTransmitPayloadConfirm (pSCS c)}.
          shm_ok q \<and> shm_msgs q = [])
     \<and> bufferSize (cs_queue (pSCS c)) = maxBufferSize \<and> bufferSize (cs_buffer (pSCS c)) = maxBufferSize
     \<and> bufferSize (indications c) = maxBufferSize
     \<and> maxCapacity (shm_queue (cs_queue (pSCS c))) = max 1 (unat (ci_maxEntries sci))
     \<and> cntOutgoingPayloads c = 0 \<and> cntReceivedPayloads c = 0"

lemma new_client_ok:
  assumes "raw_ok m1" "raw_ok m2" "raw_ok m3" "raw_ok m4" "unat (ci_maxEntries sci) \<le> maxQueueLength"
  obtains c where "new_BPClientProtocolData L (Inr (m1, m2, m3, m4)) sci gen now = Inr c" "fresh_client L sci c"
proof -
  have k: "1 \<le> maxQueueLength" "max 1 (unat (ci_maxEntries sci)) \<le> maxQueueLength"
    using assms(5) by (simp_all add: maxQueueLength_def)
  obtain q1 where q1: "new_queue (confirmBufferSize L) ''transmit-payload-confirms'' maxQueueLength m1 = Inr q1"
    "shm_ok q1" "shm_msgs q1 = []" by (rule new_queue_usable [OF assms(1) k(1) order_refl]) auto
  obtain q2 where q2: "new_queue maxBufferSize ''receive-payload-indications'' maxQueueLength m2 = Inr q2"
    "shm_ok q2" "shm_msgs q2 = []" "bufferSize q2 = maxBufferSize"
    by (rule new_queue_usable [OF assms(2) k(1) order_refl]) auto
  obtain q3 where q3: "new_queue maxBufferSize ''payload-queue'' (max 1 (unat (ci_maxEntries sci))) m3 = Inr q3"
    "shm_ok q3" "shm_msgs q3 = []" "maxCapacity (shm_queue q3) = max 1 (unat (ci_maxEntries sci))" "bufferSize q3 = maxBufferSize"
    by (rule new_queue_usable [OF assms(3) max.cobounded1 k(2)]) auto
  obtain q4 where q4: "new_queue maxBufferSize ''payload-buffer'' 1 m4 = Inr q4"
    "shm_ok q4" "shm_msgs q4 = []" "bufferSize q4 = maxBufferSize"
    by (rule new_queue_usable [OF assms(4) order_refl k(1)]) auto
  show thesis
  proof (rule that)
    show "new_BPClientProtocolData L (Inr (m1, m2, m3, m4)) sci gen now =
        Inr \<lparr>static_info = sci, timeStampRegistration = now,
          pSCS = \<lparr>pqTransmitPayloadConfirm = q1, pqReceivePayloadIndication = q2, cs_queue = q3, cs_buffer = q4,
                  generateTransmitPayloadConfirms = gen, static_client_info = sci\<rparr>,
          cntOutgoingPayloads = 0, cntReceivedPayloads = 0, cntDroppedOutgoingPayloads = 0, cntDroppedIncomingPayloads = 0\<rparr>"
      by (simp only: new_BPClientProtocolData_def new_BPShmControlSegment_def q1(1) q2(1) q3(1) q4(1) sum.case prod.case)
  qed (use q1 q2 q3 q4 in \<open>simp add: fresh_client_def\<close>)
qed

lemma new_client_throws:
  assumes "raw_ok m1" "raw_ok m2" "raw_ok m3" "maxQueueLength < unat (ci_maxEntries sci)"
  shows "new_BPClientProtocolData L (Inr (m1, m2, m3, m4)) sci gen now = Inl RingBufferException"
proof -
  have k: "1 \<le> maxQueueLength" "maxQueueLength < max 1 (unat (ci_maxEntries sci))"
    using assms(4) by (simp_all add: maxQueueLength_def)
  obtain q1 where q1: "new_queue (confirmBufferSize L) ''transmit-payload-confirms'' maxQueueLength m1 = Inr q1"
    by (rule new_queue_usable [OF assms(1) k(1) order_refl]) auto
  obtain q2 where q2: "new_queue maxBufferSize ''receive-payload-indications'' maxQueueLength m2 = Inr q2"
    by (rule new_queue_usable [OF assms(2) k(1) order_refl]) auto
  show ?thesis
    by (simp only: new_BPClientProtocolData_def new_BPShmControlSegment_def q1 q2 new_queue_too_long [OF assms(3) k(2)]
        sum.case prod.case)
qed

section \<open>The command\<close>

text \<open>What the demon asks of the parameters.\<close>

definition registrable :: "BPRuntimeData \<Rightarrow> BPStaticClientInfo \<Rightarrow> bool" where
  "registrable rt sci \<longleftrightarrow> bp_queueing_mode_known (ci_queueingMode sci) \<and> clientProtocols rt (ci_protocolId sci) = None
     \<and> ci_maxPayloadSize sci \<noteq> 0
     \<and> unat (ci_maxPayloadSize sci) \<le> maxBeaconSize rt - (BPHeaderT_fixed_size + BPPayloadHeaderT_fixed_size)
     \<and> (is_queue_mode (ci_queueingMode sci) \<longrightarrow> ci_maxEntries sci \<noteq> 0)"

lemma register_unfold:
  assumes "registrable rt (rr_static_info req)"
  shows "handle_command_socket L (RegisterProtocol logged shm now (Some req)) rt =
     (case new_BPClientProtocolData L shm (rr_static_info req) (rr_generateTransmitPayloadConfirms req) now of
        Inl e \<Rightarrow> (Inl e, lock_clients rt)
      | Inr c \<Rightarrow> (Inr (Some (Register_Confirm BP_STATUS_OK (bp_ownNodeIdentifier rt))),
                   unlock_clients (update_client (ci_protocolId (rr_static_info req)) c (lock_clients rt))))"
proof -
  let ?si = "rr_static_info req"
  have r: "bp_queueing_mode_known (ci_queueingMode ?si)" "clientProtocols rt (ci_protocolId ?si) = None" "ci_maxPayloadSize ?si \<noteq> 0"
    "\<not> unat (ci_maxPayloadSize ?si) > maxBeaconSize rt - (BPHeaderT_fixed_size + BPPayloadHeaderT_fixed_size)"
    "((ci_queueingMode ?si = BP_QMODE_QUEUE_DROPTAIL \<or> ci_queueingMode ?si = BP_QMODE_QUEUE_DROPHEAD) \<and> ci_maxEntries ?si = 0) = False"
    using assms unfolding registrable_def is_queue_mode_def by auto
  show ?thesis
    unfolding handle_command_socket.simps with_clients_locked_def handleBPRegisterProtocol_Request_def option.case Let_def
    using r(1-4)
    by (cases "new_BPClientProtocolData L shm ?si (rr_generateTransmitPayloadConfirms req) now")
      (simp_all add: r(5) register_confirmation_def bindE_def lock_clients_def unlock_clients_def)
qed

section \<open>Two concrete nodes\<close>

text \<open>Objects without padding, with the fields in network order.\<close>

definition layout1 :: bp_layout where
  "layout1 = \<lparr>req_size = 4, req_image = (\<lambda>p l. be_bytes16 p @ be_bytes16 l),
     req_length = (\<lambda>bs. push_bit 8 (ucast (bs ! 2)) + ucast (bs ! 3)),
     ind_size = 2, ind_image = be_bytes16, conf_size = 2, conf_image = be_bytes16\<rparr>"

lemma layout1_ok: "layout_ok layout1"
  by (simp add: layout_ok_def layout1_def be_bytes16_def be_join16)

definition idle_demon :: "u8 \<Rightarrow> BPRuntimeData" where
  "idle_demon n = \<lparr>maxBeaconSize = 1000, ownNetworkIdentifier = 5, bp_isActive = True, bp_exitFlag = False,
     bp_ownNodeIdentifier = NodeIdentifierT 2 0 0 0 0 n, bpSequenceNumber = 0, clientProtocols = (\<lambda>_. None),
     clientProtocols_mutex = False, cntDroppedUnknownPayloads = 0, cntBPPayloads = 0\<rparr>"

lemma idle_demon_wf: "bp_wf layout1 (idle_demon n)"
  by (simp add: bp_wf_def idle_demon_def layout1_def maxBufferSize_def maxBeaconPayloadSize_def)

definition client_info :: "BPQueueingMode \<Rightarrow> u16 \<Rightarrow> BPStaticClientInfo" where
  "client_info qm n = \<lparr>ci_protocolId = 9, ci_protocolName = ''app'', ci_maxPayloadSize = 100, ci_queueingMode = qm,
     ci_maxEntries = n, ci_allowMultiplePayloads = False\<rparr>"

definition raw1 :: raw_queue where
  "raw1 = (replicate 11 \<lparr>d_offs = 0, d_len = 0\<rparr>, replicate 11 \<lparr>d_offs = 0, d_len = 0\<rparr>, \<lambda>_. 0)"

lemma raw1_ok: "raw_ok raw1"
  by (simp add: raw_ok_def raw1_def maxQueueLength_def)

definition register1 :: "BPStaticClientInfo \<Rightarrow> bp_command" where
  "register1 sci = RegisterProtocol True (Inr (raw1, raw1, raw1, raw1)) 0
     (Some \<lparr>rr_static_info = sci, rr_shm_area_name = ''app'', rr_generateTransmitPayloadConfirms = False\<rparr>)"

lemma registrable1: "n \<noteq> 0 \<Longrightarrow> bp_queueing_mode_known qm \<Longrightarrow> registrable (idle_demon k) (client_info qm n)"
  by (simp add: registrable_def client_info_def idle_demon_def BPHeaderT_fixed_size_def BPPayloadHeaderT_fixed_size_def)

lemma registered1:
  obtains c where "handle_command_socket layout1 (register1 (client_info BP_QMODE_QUEUE_DROPTAIL 2)) (idle_demon k)
      = (Inr (Some (Register_Confirm BP_STATUS_OK (bp_ownNodeIdentifier (idle_demon k)))), update_client 9 c (idle_demon k))"
    "fresh_client layout1 (client_info BP_QMODE_QUEUE_DROPTAIL 2) c"
proof -
  let ?si = "client_info BP_QMODE_QUEUE_DROPTAIL 2"
  have "unat (ci_maxEntries ?si) \<le> maxQueueLength" by (simp add: client_info_def maxQueueLength_def)
  from new_client_ok [OF raw1_ok raw1_ok raw1_ok raw1_ok this] obtain c where
    c: "new_BPClientProtocolData layout1 (Inr (raw1, raw1, raw1, raw1)) ?si False 0 = Inr c" "fresh_client layout1 ?si c" by blast
  have "registrable (idle_demon k) ?si" by (rule registrable1) (simp_all add: bp_queueing_mode_known_def)
  from register_unfold [where req = "\<lparr>rr_static_info = ?si, rr_shm_area_name = ''app'', rr_generateTransmitPayloadConfirms = False\<rparr>",
      of "idle_demon k" layout1 True "Inr (raw1, raw1, raw1, raw1)" 0] this c(1)
  show thesis
    by (intro that [OF _ c(2)]) (simp add: register1_def client_info_def idle_demon_def lock_clients_def unlock_clients_def)
qed

text \<open>The client of the first node has handed over a payload.\<close>

lemma transmitted1:
  assumes "fresh_client layout1 (client_info BP_QMODE_QUEUE_DROPTAIL 2) c"
  obtains cs where "transmit_payload layout1 7 (Some (be_bytes16 9 @ be_bytes16 3 @ [1, 2, 3])) True wait ((), pSCS c)
      = (Inr BP_STATUS_OK, ((), cs))"
    "shm_ok (cs_queue cs)" "shm_msgs (cs_queue cs) = [be_bytes16 9 @ be_bytes16 3 @ [1, 2, 3]]"
proof -
  let ?m = "be_bytes16 9 @ be_bytes16 3 @ [1, 2, 3]" and ?q = "cs_queue (pSCS c)"
  have q: "shm_ok ?q" "shm_msgs ?q = []" "bufferSize ?q = maxBufferSize"
    "static_client_info (pSCS c) = client_info BP_QMODE_QUEUE_DROPTAIL 2" using assms by (simp_all add: fresh_client_def)
  have "length ?m \<le> bufferSize ?q" unfolding q(3) by (simp add: maxBufferSize_def maxBeaconPayloadSize_def)
  from push_wait_ok [OF q(1) writes_copy_payload [OF this] _ q(2) timeout_nonzero, of wait] obtain q' where
    q': "push_wait (copy_payload ?m) defaultLongSharedMemoryLockTimeoutMS True wait ((), ?q) = (Inr False, ((), q'))"
    "shm_ok q'" "shm_msgs q' = [?m]" by (auto simp: be_bytes16_def)
  have "shm_stored_elements ?q = 0" using q(1,2) rbq.stored [of "shm_queue ?q"]
    by (auto simp: shm_ok_def holds_def shm_stored_elements_def shm_msgs_def simp del: length_rb_elems)
  then have "transmit_payload layout1 7 (Some ?m) True wait ((), pSCS c) = (Inr BP_STATUS_OK, ((), (pSCS c)\<lparr>cs_queue := q'\<rparr>))"
    using q(4) q'(1)
    by (simp add: transmit_payload_def transmit_payload_handler_def Let_def bindE_def zoomE_def client_info_def qmode_defs layout1_def
        be_bytes16_def)
  with q' that show thesis by simp
qed

end
