(* ===== verification/BpFaults.thy ===== *)
theory BpFaults
  imports BpRegister
begin

text \<open>
  How the beaconing demon ends: after a queue with payloads has been reset, the next round of the
  transmitter throws.
\<close>

section \<open>A queue that was reset\<close>

definition stale :: "BPClientProtocolData \<Rightarrow> bool" where
  "stale c \<longleftrightarrow> holds [] (outgoing c) \<and> shm_msgs (outgoing c) = [] \<and> has_data (outgoing c)
     \<and> magicNo (outgoing c) = defaultMagicNo \<and> bp_queueing_mode_known (ci_queueingMode (static_info c))"

lemma attempt_stale:
  assumes "clientProtocols (g_rt g) p = Some c" "stale c"
  shows "isl (fst (attempt_add_payload L True p g))"
proof -
  have s: "holds [] (outgoing c)" "shm_msgs (outgoing c) = []" "has_data (outgoing c)" "magicNo (outgoing c) = defaultMagicNo"
    "bp_queueing_mode_known (ci_queueingMode (static_info c))" using assms(2) by (simp_all add: stale_def)
  note t = stale_flag [OF s(1-4) timeout_nonzero]
  show ?thesis
    unfolding attempt_add_payload_eq [OF assms(1) s(5) refl] by (simp add: t bindE_def)
qed

text \<open>Whatever the clients before it do, the round does not get past this client.\<close>

lemma attempt_all_stale:
  assumes "bp_wf0 L (g_rt g)" "set ps \<subseteq> dom (clientProtocols (g_rt g))" "distinct ps" "p \<in> set ps"
    "clientProtocols (g_rt g) p = Some c" "stale c" "attempt_all L (\<lambda>_. True) ps g = (r, g')"
  shows "isl r \<or> bp_exitFlag (g_rt g')"
  using assms(1-5,7)
proof (induction ps arbitrary: g)
  case (Cons q ps)
  obtain x g1 where x: "attempt_add_payload L True q g = (x, g1)" by fastforce
  show ?case
  proof (cases "q = p")
    case True
    with attempt_stale [OF Cons.prems(5) assms(6), of L] x Cons.prems(6) show ?thesis
      by (cases x) (simp_all add: bindE_def)
  next
    case False
    obtain d where d: "clientProtocols (g_rt g) q = Some d" using Cons.prems(2) by auto
    from attempt_wf [OF Cons.prems(1) d x] have w: "bp_wf0 L (g_rt g1)" "same_but q (g_rt g) (g_rt g1)" by auto
    have c: "clientProtocols (g_rt g1) p = Some c" using w(2) False Cons.prems(5) by (simp add: same_but_def)
    have s: "set ps \<subseteq> dom (clientProtocols (g_rt g1))"
      using w(2) Cons.prems(2) unfolding same_but_def by (auto simp: subset_iff domIff)
    have i: "distinct ps" "p \<in> set ps" using Cons.prems(3,4) False by auto
    show ?thesis
    proof (cases "isl x \<or> bp_exitFlag (g_rt g1)")
      case True
      with x Cons.prems(6) show ?thesis by (cases x) (auto simp: bindE_def)
    next
      case False
      then have "attempt_all L (\<lambda>_. True) ps g1 = (r, g')" using x Cons.prems(6) by (cases x) (auto simp: bindE_def)
      from Cons.IH [OF w(1) s i c this] show ?thesis .
    qed
  qed
qed simp

lemma generate_beacon_stale:
  assumes "bp_wf0 L rt" "bp_isActive rt" "clientProtocols rt p = Some c" "stale c"
    "generate_beacon L (\<lambda>_. True) rt = (r, rt')"
  shows "isl r \<or> r = Inr None \<and> bp_exitFlag rt'"
proof (cases "ByteVectorAssemblyArea_vect (maxBeaconSize rt) (replicate (maxBeaconSize rt) 0)")
  case (Inl e)
  with assms(2,5) show ?thesis by (auto simp: generate_beacon_def)
next
  case (Inr area)
  obtain x a1 where x: "BPHeaderT_reserve area = (x, a1)" by fastforce
  show ?thesis
  proof (cases x)
    case (Inl e)
    with assms(2,5) Inr x show ?thesis by (auto simp: generate_beacon_def bindE_def zoomE_def)
  next
    case x': (Inr u)
    let ?g = "\<lparr>g_rt = rt, g_area = a1, g_num = 0\<rparr>"
    obtain y g' where y: "attempt_all L (\<lambda>_. True) (protocol_ids rt) ?g = (y, g')" by fastforce
    have "set (protocol_ids rt) = dom (clientProtocols rt)" using assms(1) by (intro set_protocol_ids) (simp add: bp_wf0_def)
    then have "isl y \<or> bp_exitFlag (g_rt g')"
      using attempt_all_stale [of L ?g "protocol_ids rt" p c y g'] assms(1,3,4) y by auto
    with assms(2,5) Inr x x' y show ?thesis
      by (cases y) (auto simp: generate_beacon_def bindE_def zoomE_def Let_def)
  qed
qed

lemma transmitter_round_stale:
  assumes "bp_wf L rt" "bp_isActive rt" "clientProtocols rt p = Some c" "stale c"
  shows "\<exists>rt'. transmitter_round L (\<lambda>_. True) rt = (None, rt') \<and> bp_exitFlag rt'"
proof -
  obtain r rt' where r: "generate_beacon L (\<lambda>_. True) (lock_clients rt) = (r, rt')" by fastforce
  have "bp_wf0 L (lock_clients rt)" using assms(1) by (simp add: bp_wf_iff lock_clients_def)
  from generate_beacon_stale [OF this _ _ assms(4) r] assms(2,3) have "isl r \<or> r = Inr None \<and> bp_exitFlag rt'"
    by (simp add: lock_clients_def)
  with r show ?thesis by (cases r) (auto simp: transmitter_round_def unlock_clients_def)
qed

section \<open>The command that resets\<close>

lemma reset_makes_stale:
  assumes "shm_ok (outgoing c)" "shm_msgs (outgoing c) \<noteq> []" "bp_queueing_mode_known (ci_queueingMode (static_info c))"
  obtains q where "shm_reset (outgoing c) = (Inr (), q)" "stale (c\<lparr>pSCS := with_outgoing c q\<rparr>)"
proof -
  from shm_reset_ok [OF assms(1)] obtain q where q: "shm_reset (outgoing c) = (Inr (), q)" "holds [] q" "shm_msgs q = []"
    "has_data q = (shm_msgs (outgoing c) \<noteq> [])" "shape q = shape (outgoing c)" by blast
  have "magicNo q = defaultMagicNo" using q(5) assms(1) by (simp add: shape_def shm_ok_def)
  moreover have "outgoing (c\<lparr>pSCS := with_outgoing c q\<rparr>) = q" by (simp add: outgoing_def with_outgoing_def)
  ultimately show thesis using q assms(2,3) by (intro that [OF q(1)]) (simp add: stale_def)
qed

lemma clear_buffer_outgoing:
  assumes "clientProtocols rt p = Some c" "\<not> clientProtocols_mutex rt" "shm_reset (outgoing c) = (Inr (), q)"
    "bp_queueing_mode_known (ci_queueingMode (static_info c))"
  shows "handle_command_socket L (ClearBuffer (Some p)) rt
    = (Inr (Some (Simple_Confirm stBP_ClearBuffer BP_STATUS_OK)), update_client p (c\<lparr>pSCS := with_outgoing c q\<rparr>) rt)"
proof -
  let ?qm = "ci_queueingMode (static_info c)"
  have rt: "unlock_clients (update_client p d (lock_clients rt)) = update_client p d rt" for d
    using assms(2) by (cases rt) (simp add: lock_clients_def unlock_clients_def)
  have c: "clientProtocols (lock_clients rt) p = Some c" using assms(1) by (simp add: lock_clients_def)
  note defs = with_clients_locked_def handleBPClearBuffer_Request_def handleRegularRequestUsingSharedMemory_def
  show ?thesis
  proof (cases "is_queue_mode ?qm")
    case True
    then have m: "\<not> (?qm = BP_QMODE_ONCE \<or> ?qm = BP_QMODE_REPEAT)" "?qm = BP_QMODE_QUEUE_DROPHEAD \<or> ?qm = BP_QMODE_QUEUE_DROPTAIL"
      by (auto simp: is_queue_mode_def qmode_defs)
    have "on_client_queue p shm_reset (lock_clients rt) = (Inr (), update_client p (c\<lparr>pSCS := with_outgoing c q\<rparr>) (lock_clients rt))"
      using True assms(3) c by (simp add: on_client_queue_def zoomE_def Let_def outgoing_def with_outgoing_def)
    with m c rt show ?thesis by (simp add: defs bindE_def)
  next
    case False
    then have m: "?qm = BP_QMODE_ONCE \<or> ?qm = BP_QMODE_REPEAT"
      using assms(4) by (auto simp: is_queue_mode_def bp_queueing_mode_known_def)
    have "on_client_buffer p shm_reset (lock_clients rt) = (Inr (), update_client p (c\<lparr>pSCS := with_outgoing c q\<rparr>) (lock_clients rt))"
      using False assms(3) c by (simp add: on_client_buffer_def zoomE_def Let_def outgoing_def with_outgoing_def)
    with m c rt show ?thesis by (simp add: defs bindE_def)
  qed
qed

end
