(* ===== verification/PropsBp.thy ===== *)
theory PropsBp
  imports BpFaults
begin

text \<open>The properties of the beaconing demon.\<close>

section \<open>Transport\<close>

text \<open>C22. A beacon carries the payloads at the heads of the queues of all clients of the sender to the clients that are
  registered at the receiver for the same protocols, when they all fit: the heads of the non-empty queues, with their headers, fit
  one beacon of the maximum size together, take less than 65536 bytes, and are at least one and fewer than 256.  Both demons are
  active and obtain the mutexes, the sender's clients hold only well-formed requests, the nodes have different identifiers and the same network identifier, and at the receiver each client registered for one of
  these protocols has an empty indication queue whose buffers are large enough.  Then the sender's queues lose exactly these
  heads, unless they are to be repeated; at the receiver every registered protocol of which the beacon has a payload finds
  it, byte by byte, as the only message in its indication queue, and all other clients of the receiver are unchanged.  What
  happens to payloads that do not fit together is not part of this statement.\<close>

theorem beacon_reaches_neighbour:
  assumes "layout_ok L" "bp_sender_ok L A" "ids_ok A"
    "BPHeaderT_fixed_size + length (enc_payloads (contributions L A (protocol_ids A))) \<le> maxBeaconSize A"
    "length (enc_payloads (contributions L A (protocol_ids A))) < 65536"
    "length (contributions L A (protocol_ids A)) < 256" "contributions L A (protocol_ids A) \<noteq> []"
    "bp_isActive B" "\<not> clientProtocols_mutex B" "bp_ownNodeIdentifier B \<noteq> bp_ownNodeIdentifier A"
    "ownNetworkIdentifier B = ownNetworkIdentifier A"
    "\<forall>(p, pl) \<in> set (contributions L A (protocol_ids A)). \<forall>c. clientProtocols B p = Some c \<longrightarrow>
       ci_protocolId (static_info c) = p \<and> shm_ok (indications c) \<and> shm_msgs (indications c) = []
       \<and> length pl + ind_size L \<le> bufferSize (indications c)"
  shows "\<exists>frame cpsA cpsB. generate_beacon L (\<lambda>_. True) A
      = (Inr (Some frame), A\<lparr>clientProtocols := cpsA, bpSequenceNumber := bpSequenceNumber A + 1\<rparr>)
    \<and> clients_after L A cpsA
    \<and> receiver_frame L (\<lambda>i. (True, wait i)) frame B = B\<lparr>clientProtocols := cpsB, cntBPPayloads := cntBPPayloads B + 1\<rparr>
    \<and> clients_got L (contributions L A (protocol_ids A)) B cpsB"
  using node_to_node [OF assms] .

text \<open>Two demons with one client each; the client of the first has handed over the payload 1, 2, 3.\<close>

theorem beacon_reaches_neighbour_witness:
  "\<exists>cA cB cs frame A' cB'.
     handle_command_socket layout1 (register1 (client_info BP_QMODE_QUEUE_DROPTAIL 2)) (idle_demon 1)
       = (Inr (Some (Register_Confirm BP_STATUS_OK (NodeIdentifierT 2 0 0 0 0 1))), update_client 9 cA (idle_demon 1))
   \<and> handle_command_socket layout1 (register1 (client_info BP_QMODE_QUEUE_DROPTAIL 2)) (idle_demon 2)
       = (Inr (Some (Register_Confirm BP_STATUS_OK (NodeIdentifierT 2 0 0 0 0 2))), update_client 9 cB (idle_demon 2))
   \<and> transmit_payload layout1 7 (Some (be_bytes16 9 @ be_bytes16 3 @ [1, 2, 3])) True (\<lambda>q. (False, q)) ((), pSCS cA)
       = (Inr BP_STATUS_OK, ((), cs))
   \<and> generate_beacon layout1 (\<lambda>_. True) (update_client 9 (cA\<lparr>pSCS := cs\<rparr>) (idle_demon 1)) = (Inr (Some frame), A')
   \<and> clientProtocols (receiver_frame layout1 (\<lambda>i. (True, \<lambda>q. (False, q))) frame (update_client 9 cB (idle_demon 2))) 9 = Some cB'
   \<and> shm_msgs (indications cB') = [be_bytes16 3 @ [1, 2, 3]]"
proof -
  let ?si = "client_info BP_QMODE_QUEUE_DROPTAIL 2" and ?m = "be_bytes16 9 @ be_bytes16 3 @ [1, 2, 3]"
  obtain cA where cA: "handle_command_socket layout1 (register1 ?si) (idle_demon 1)
      = (Inr (Some (Register_Confirm BP_STATUS_OK (bp_ownNodeIdentifier (idle_demon 1)))), update_client 9 cA (idle_demon 1))"
    "fresh_client layout1 ?si cA" by (rule registered1)
  obtain cB where rB: "handle_command_socket layout1 (register1 ?si) (idle_demon 2)
      = (Inr (Some (Register_Confirm BP_STATUS_OK (bp_ownNodeIdentifier (idle_demon 2)))), update_client 9 cB (idle_demon 2))"
    and cB: "fresh_client layout1 ?si cB" by (rule registered1)
  obtain cs where cs: "transmit_payload layout1 7 (Some ?m) True (\<lambda>q. (False, q)) ((), pSCS cA) = (Inr BP_STATUS_OK, ((), cs))"
    "shm_ok (cs_queue cs)" "shm_msgs (cs_queue cs) = [?m]" by (rule transmitted1 [OF cA(2)])
  let ?c = "cA\<lparr>pSCS := cs\<rparr>"
  let ?A = "update_client 9 ?c (idle_demon 1)" and ?B = "update_client 9 cB (idle_demon 2)"
  have si: "static_info cA = ?si" "static_info cB = ?si" using cA(2) cB by (simp_all add: fresh_client_def)
  have out: "outgoing ?c = cs_queue cs" using si by (simp add: outgoing_def is_queue_mode_def client_info_def)
  have req: "request_of layout1 ?m [1, 2, 3]" unfolding request_of_def layout1_def by (auto intro: exI [of _ 9])
  have ok: "client_ok layout1 ?c"
    unfolding client_ok_def out cs(3) using cs(2) req si by (auto simp: bp_queueing_mode_known_def client_info_def)
  have ids: "protocol_ids ?A = [9]" by (simp add: protocol_ids_def idle_demon_def)
  have con: "contributions layout1 ?A (protocol_ids ?A) = [(9, [1, 2, 3])]"
    unfolding ids using cs(3) si by (simp add: contribution_def out client_info_def layout1_def be_bytes16_def)
  have ind: "shm_ok (indications cB)" "shm_msgs (indications cB) = []" "bufferSize (indications cB) = maxBufferSize"
    using cB by (simp_all add: fresh_client_def)
  have A: "bp_sender_ok layout1 ?A" "ids_ok ?A"
    using ok si by (simp_all add: bp_sender_ok_def ids_ok_def idle_demon_def client_info_def)
  have s: "BPHeaderT_fixed_size + length (enc_payloads [(9, [1, 2, 3])]) \<le> maxBeaconSize ?A"
    "length (enc_payloads [(9 :: u16, [1, 2, 3])]) < 65536" "length [(9 :: u16, [1, 2, 3 :: u8])] < 256"
    by (simp_all add: BPHeaderT_fixed_size_def idle_demon_def)
  have B: "bp_isActive ?B" "\<not> clientProtocols_mutex ?B" "bp_ownNodeIdentifier ?B \<noteq> bp_ownNodeIdentifier ?A"
    "ownNetworkIdentifier ?B = ownNetworkIdentifier ?A" by (simp_all add: idle_demon_def)
  have r: "\<forall>(p, pl) \<in> set [(9, [1, 2, 3])]. \<forall>c. clientProtocols ?B p = Some c \<longrightarrow>
       ci_protocolId (static_info c) = p \<and> shm_ok (indications c) \<and> shm_msgs (indications c) = []
       \<and> length pl + ind_size layout1 \<le> bufferSize (indications c)"
    using ind si by (simp add: client_info_def layout1_def maxBufferSize_def maxBeaconPayloadSize_def)
  from beacon_reaches_neighbour [OF layout1_ok A, unfolded con, OF s _ B r, of "\<lambda>_ q. (False, q)"] obtain frame cpsA cpsB where
    f: "generate_beacon layout1 (\<lambda>_. True) ?A = (Inr (Some frame), ?A\<lparr>clientProtocols := cpsA, bpSequenceNumber := bpSequenceNumber ?A + 1\<rparr>)"
    "receiver_frame layout1 (\<lambda>i. (True, \<lambda>q. (False, q))) frame ?B = ?B\<lparr>clientProtocols := cpsB, cntBPPayloads := cntBPPayloads ?B + 1\<rparr>"
    "clients_got layout1 [(9, [1, 2, 3])] ?B cpsB" by auto
  from f(3) [unfolded clients_got_def, rule_format, of 9] obtain cB' where "cpsB 9 = Some cB'" "received_by layout1 [1, 2, 3] cB cB'"
    by auto
  then have "cpsB 9 = Some cB'" "shm_msgs (indications cB') = [be_bytes16 3 @ [1, 2, 3]]"
    by (simp_all add: received_by_def layout1_def)
  moreover have "bp_ownNodeIdentifier (idle_demon n) = NodeIdentifierT 2 0 0 0 0 n" for n by (simp add: idle_demon_def)
  note registered = cA(1) [unfolded this] rB [unfolded this]
  moreover have "clientProtocols (receiver_frame layout1 (\<lambda>i. (True, \<lambda>q. (False, q))) frame ?B) 9 = cpsB 9"
    unfolding f(2) by simp
  ultimately show ?thesis using cs(1) f(1)
    by (intro exI [of _ cA] exI [of _ cB] exI [of _ cs] exI [of _ frame] exI [of _ cB']
      exI [of _ "?A\<lparr>clientProtocols := cpsA, bpSequenceNumber := bpSequenceNumber ?A + 1\<rparr>"] conjI) simp_all
qed

section \<open>The demon\<close>

text \<open>C23. In every state that the threads of the demon and its clients reach from a well-formed state, by any
  payloads handed over, any frames received and any commands, the queues of all clients keep their buffers apart and
  inside their memory with the sizes they were registered with, the entries are filed under their own protocol
  identifier with a maximal payload that fits into a beacon, and the mutex of the client table is left locked only by
  a thread that has set the exit flag.\<close>

theorem bp_demon_invariant:
  assumes "bp_reachable L rt0 rt" "layout_ok L" "bp_wf L rt0"
  shows "bp_wf L rt"
  using assms by (rule bp_reachable_wf)

theorem bp_demon_invariant_witness:
  "bp_wf layout1 (snd (transmitter_round layout1 (\<lambda>_. True) (receiver_frame layout1 (\<lambda>_. (True, \<lambda>q. (False, q))) [1, 2, 3] (idle_demon 1))))"
proof -
  let ?r = "receiver_frame layout1 (\<lambda>_. (True, \<lambda>q. (False, q))) [1, 2, 3] (idle_demon 1)"
  have m: "\<not> clientProtocols_mutex (idle_demon 1)" by (simp add: idle_demon_def)
  have "bp_step layout1 (idle_demon 1) ?r" by (rule bp_step.receive [OF m]) (simp add: fair_wait_def)
  then have r: "bp_reachable layout1 (idle_demon 1) ?r" by (rule bp_reachable.step [OF bp_reachable.start])
  have "\<not> clientProtocols_mutex ?r"
    by (simp add: receiver_frame_def bp_process_received_payload_def ByteVectorDisassemblyArea_def BPHeaderT_fixed_size_def
        idle_demon_def)
  then have "bp_reachable layout1 (idle_demon 1) (snd (transmitter_round layout1 (\<lambda>_. True) ?r))"
    by (intro bp_reachable.step [OF r] bp_step.transmit)
  then show ?thesis by (rule bp_demon_invariant [OF _ layout1_ok idle_demon_wf])
qed

text \<open>A registration with parameters that the demon checks and accepts gives the client a segment of empty queues
  with the requested capacity, when at most ten entries are requested; for more, which the demon does not check, the
  command throws and leaves the mutex of the client table locked.\<close>

lemma register_protocol_spec:
  assumes "registrable rt (rr_static_info req)" "\<not> clientProtocols_mutex rt" "raw_ok m1" "raw_ok m2" "raw_ok m3" "raw_ok m4"
  shows "if unat (ci_maxEntries (rr_static_info req)) \<le> maxQueueLength
    then \<exists>c. handle_command_socket L (RegisterProtocol logged (Inr (m1, m2, m3, m4)) now (Some req)) rt
        = (Inr (Some (Register_Confirm BP_STATUS_OK (bp_ownNodeIdentifier rt))), update_client (ci_protocolId (rr_static_info req)) c rt)
      \<and> fresh_client L (rr_static_info req) c
    else handle_command_socket L (RegisterProtocol logged (Inr (m1, m2, m3, m4)) now (Some req)) rt
        = (Inl RingBufferException, rt\<lparr>clientProtocols_mutex := True\<rparr>)"
proof (cases "unat (ci_maxEntries (rr_static_info req)) \<le> maxQueueLength")
  case True
  obtain c where "new_BPClientProtocolData L (Inr (m1, m2, m3, m4)) (rr_static_info req) (rr_generateTransmitPayloadConfirms req) now = Inr c"
    "fresh_client L (rr_static_info req) c" by (rule new_client_ok [OF assms(3-6) True])
  moreover have "unlock_clients (update_client p c (lock_clients rt)) = update_client p c rt" for p c
    using assms(2) by (cases rt) (simp add: lock_clients_def unlock_clients_def)
  ultimately show ?thesis using True by (auto simp add: register_unfold [OF assms(1)] simp del: handle_command_socket.simps)
next
  case False
  then have "maxQueueLength < unat (ci_maxEntries (rr_static_info req))" by simp
  from new_client_throws [OF assms(3-5) this] False show ?thesis
    by (simp add: register_unfold [OF assms(1)] lock_clients_def del: handle_command_socket.simps)
qed

section \<open>How the demon ends\<close>

text \<open>C24. The command that clears the buffer of a client ends the demon: when the client has a payload waiting,
  the command is confirmed as successful, but in the next round of the transmitter nothing is sent and the exit flag
  is set, whatever the other clients have to send, because the reset leaves the flag that the queue holds data.\<close>

theorem clear_buffer_stops_demon:
  assumes "layout_ok L" "bp_wf L rt" "bp_isActive rt" "\<not> clientProtocols_mutex rt" "clientProtocols rt p = Some c"
    "bp_queueing_mode_known (ci_queueingMode (static_info c))" "shm_ok (outgoing c)" "shm_msgs (outgoing c) \<noteq> []"
  shows "\<exists>rt1 rt2. handle_command_socket L (ClearBuffer (Some p)) rt = (Inr (Some (Simple_Confirm stBP_ClearBuffer BP_STATUS_OK)), rt1)
    \<and> transmitter_round L (\<lambda>_. True) rt1 = (None, rt2) \<and> bp_exitFlag rt2"
proof -
  obtain q where q: "shm_reset (outgoing c) = (Inr (), q)" "stale (c\<lparr>pSCS := with_outgoing c q\<rparr>)"
    by (rule reset_makes_stale [OF assms(7,8,6)])
  note clear = clear_buffer_outgoing [OF assms(5,4) q(1) assms(6), of L]
  have "bp_wf L (update_client p (c\<lparr>pSCS := with_outgoing c q\<rparr>) rt)"
    by (rule command_wf [OF assms(2,4) _ clear]) simp
  from transmitter_round_stale [OF this _ _ q(2), of p] assms(3) clear show ?thesis by auto
qed

theorem clear_buffer_stops_demon_witness:
  "\<exists>rt rt1 rt2. bp_reachable layout1 (idle_demon 1) rt
    \<and> handle_command_socket layout1 (ClearBuffer (Some 9)) rt = (Inr (Some (Simple_Confirm stBP_ClearBuffer BP_STATUS_OK)), rt1)
    \<and> transmitter_round layout1 (\<lambda>_. True) rt1 = (None, rt2) \<and> bp_exitFlag rt2"
proof -
  let ?si = "client_info BP_QMODE_QUEUE_DROPTAIL 2" and ?m = "be_bytes16 9 @ be_bytes16 3 @ [1, 2, 3]"
  obtain c where c: "handle_command_socket layout1 (register1 ?si) (idle_demon 1)
      = (Inr (Some (Register_Confirm BP_STATUS_OK (bp_ownNodeIdentifier (idle_demon 1)))), update_client 9 c (idle_demon 1))"
    "fresh_client layout1 ?si c" by (rule registered1)
  obtain cs where cs: "transmit_payload layout1 7 (Some ?m) True (\<lambda>q. (False, q)) ((), pSCS c) = (Inr BP_STATUS_OK, ((), cs))"
    "shm_ok (cs_queue cs)" "shm_msgs (cs_queue cs) = [?m]" by (rule transmitted1 [OF c(2)])
  let ?registered = "update_client 9 c (idle_demon 1)" and ?c = "c\<lparr>pSCS := cs\<rparr>"
  let ?rt = "update_client 9 ?c ?registered"
  have m: "\<not> clientProtocols_mutex (idle_demon 1)" "\<not> clientProtocols_mutex ?rt" "bp_isActive ?rt"
    by (simp_all add: idle_demon_def)
  have "command_ok (register1 ?si)" by (simp add: register1_def raw1_ok)
  from bp_reachable.step [OF bp_reachable.start bp_step.command [OF m(1) this c(1)]]
  have r0: "bp_reachable layout1 (idle_demon 1) ?registered" .
  have s: "bp_step layout1 ?registered ?rt"
    by (rule bp_step.client_transmit [OF _ _ _ cs(1)]) (simp_all add: fair_wait_def be_bytes16_def)
  have r: "bp_reachable layout1 (idle_demon 1) ?rt" by (rule bp_reachable.step [OF r0 s])
  have si: "static_info ?c = ?si" using c(2) by (simp add: fresh_client_def)
  have out: "outgoing ?c = cs_queue cs" using si by (simp add: outgoing_def is_queue_mode_def client_info_def)
  have k: "bp_queueing_mode_known (ci_queueingMode (static_info ?c))" "shm_ok (outgoing ?c)" "shm_msgs (outgoing ?c) \<noteq> []"
    unfolding si out cs(3) using cs(2) by (simp_all add: bp_queueing_mode_known_def client_info_def be_bytes16_def)
  have "clientProtocols ?rt 9 = Some ?c" by simp
  from clear_buffer_stops_demon [OF layout1_ok bp_reachable_wf [OF r layout1_ok idle_demon_wf] m(3,2) this k] r
  show ?thesis by blast
qed

end
