(* ===== verification/AvlUpdate.thy ===== *)
theory AvlUpdate
  imports AvlMap
begin

text \<open>
  Updates through the reference that \<open>lookup_data_ref\<close> of \<open>dcp/common/fixedmem_avl_tree.h\<close>
  returns: the data of a node changes in place, the shape of the tree does not.
\<close>

definition update_data_ref :: "'k::linorder \<Rightarrow> ('d \<Rightarrow> 'd) \<Rightarrow> (('k, 'd) FixedMemAVLTree, unit) paction" where
  "update_data_ref key f s =
     Option.bind (avl_lookup s key) (\<lambda>idx.
     if is_null idx then Some (Inl AVLTreeException, s)
     else Some (Inr (), modify_node idx (\<lambda>n. n\<lparr>a_data := f (a_data n)\<rparr>) s))"

section \<open>The functional tree\<close>

abbreviation set_data :: "'k \<Rightarrow> 'd \<Rightarrow> ('k \<times> 'd) tree \<Rightarrow> ('k \<times> 'd) tree" where
  "set_data k d \<equiv> map_tree (\<lambda>x. if fst x = k then (fst x, d) else x)"

lemma map_fst_set_data: "map fst (inorder (set_data k d t)) = map fst (inorder t)"
  by (induction t) auto

lemma ordered_set_data: "ordered (set_data k d t) = ordered t"
  by (simp only: map_fst_set_data)

lemma avl_set_data [simp]: "avl (set_data k d t) = avl t"
  by (induction t) auto

lemma set_data_elem:
  assumes "j \<noteq> k"
  shows "(j, x) \<in> set_tree (set_data k d t) \<longleftrightarrow> (j, x) \<in> set_tree t"
proof
  assume "(j, x) \<in> set_tree (set_data k d t)"
  then obtain e where "e \<in> set_tree t" "(j, x) = (if fst e = k then (fst e, d) else e)" by (auto simp: tree.set_map)
  with assms show "(j, x) \<in> set_tree t" by (auto split: if_splits)
next
  assume "(j, x) \<in> set_tree t"
  then have "(if fst (j, x) = k then (fst (j, x), d) else (j, x)) \<in> set_tree (set_data k d t)"
    unfolding tree.set_map by (rule imageI)
  with assms show "(j, x) \<in> set_tree (set_data k d t)" by simp
qed

lemma option_eqI: "(\<And>x. a = Some x \<longleftrightarrow> b = Some x) \<Longrightarrow> a = b"
  by (cases a; cases b) auto

lemma tree_map_set_data:
  assumes "ordered t" "tree_map t k \<noteq> None"
  shows "tree_map (set_data k d t) = (tree_map t)(k \<mapsto> d)"
proof (rule ext)
  fix j
  have o: "ordered (set_data k d t)" using assms(1) by (simp only: ordered_set_data)
  show "tree_map (set_data k d t) j = ((tree_map t)(k \<mapsto> d)) j"
  proof (cases "j = k")
    case True
    from assms(2) obtain d0 where "(k, d0) \<in> set_tree t" using tree_map_Some [OF assms(1)] by auto
    then have "(if fst (k, d0) = k then (fst (k, d0), d) else (k, d0)) \<in> set_tree (set_data k d t)"
      unfolding tree.set_map by (rule imageI)
    then have "(k, d) \<in> set_tree (set_data k d t)" by simp
    with tree_map_Some [OF o, of k d] have "tree_map (set_data k d t) k = Some d" by (rule iffD2)
    with True show ?thesis by simp
  next
    case False
    have "tree_map (set_data k d t) j = Some x \<longleftrightarrow> tree_map t j = Some x" for x
      by (rule trans [OF tree_map_Some [OF o] trans [OF set_data_elem [OF False] sym [OF tree_map_Some [OF assms(1)]]]])
    then have "tree_map (set_data k d t) j = tree_map t j" by (rule option_eqI)
    with False show ?thesis by simp
  qed
qed

lemma set_data_other: "k \<notin> fst ` set_tree t \<Longrightarrow> set_data k d t = t"
  by (induction t) auto

section \<open>The array\<close>

lemma rep_set_data:
  assumes "rep h i F t" "ordered t" "j \<in> F" "a_key (h j) = k"
  shows "rep (h(j := (h j)\<lparr>a_data := d\<rparr>)) i F (set_data k d t)"
  using assms(1-3)
proof (induction t arbitrary: i F)
  case (Node l x r)
  from Node.prems(1) obtain L R where n: "0 \<le> i" "x = kv (h i)" "nd_height (h i) = int (height (Node l x r))"
    "rep h (nd_left (h i)) L l" "rep h (nd_right (h i)) R r" "i \<notin> L \<union> R" "L \<inter> R = {}" "F = insert i (L \<union> R)" by auto
  note o = Node.prems(2) [unfolded ordered_Node]
  have keys: "a_key (h j) \<in> fst ` set_tree t" if "rep h i F t" "j \<in> F" for i F t
    using that
  proof (induction t arbitrary: i F)
    case (Node l x r)
    from Node.prems(1) obtain L R where n: "x = kv (h i)" "rep h (nd_left (h i)) L l" "rep h (nd_right (h i)) R r"
      "F = insert i (L \<union> R)" by auto
    show ?case using Node.IH(1) [OF n(2)] Node.IH(2) [OF n(3)] Node.prems(2) n(1,4) by (auto simp: kv_def)
  qed simp
  have nl: "k' \<notin> fst ` set_tree l" if "fst x \<le> k'" for k' using o that by (auto dest!: bspec)
  have nr: "k' \<notin> fst ` set_tree r" if "k' \<le> fst x" for k' using o that by (auto dest!: bspec)
  define h' where "h' = h(j := (h j)\<lparr>a_data := d\<rparr>)"
  have eq: "nd_left (h' i) = nd_left (h i)" "nd_right (h' i) = nd_right (h i)" "nd_height (h' i) = nd_height (h i)"
    "j \<noteq> i \<Longrightarrow> kv (h' i) = kv (h i)" "j = i \<Longrightarrow> kv (h' i) = (k, d)"
    using assms(4) by (auto simp: h'_def kv_def)
  have frame: "j \<notin> G \<Longrightarrow> rep h' i G t = rep h i G t" for i G t unfolding h'_def by (rule rep_upd)
  have node: "rep h' i F (Node l' x' r')" if "rep h' (nd_left (h i)) L l'" "rep h' (nd_right (h i)) R r'" "x' = kv (h' i)"
      "height l' = height l" "height r' = height r" for l' r' x'
  proof -
    have "nd_height (h i) = int (height (Node l' x' r'))" using n(3) that(4,5) by simp
    with that(1-3) n(1,6-8) eq show ?thesis unfolding rep.simps(2) by (intro conjI exI [of _ L] exI [of _ R]) simp_all
  qed
  consider "j = i" | "j \<in> L" "j \<noteq> i" | "j \<in> R" "j \<noteq> i" using Node.prems(3) n(8) by blast
  then have "rep h' i F (set_data k d (Node l x r))"
  proof cases
    case 1
    then have k: "fst x = k" using n(2) assms(4) by (simp add: kv_def)
    have "set_data k d (Node l x r) = Node l (fst x, d) r" using nl nr k by (simp add: set_data_other)
    moreover have "j \<notin> L" "j \<notin> R" using 1 n(6) by auto
    ultimately show ?thesis using frame n(4,5) 1 k eq(5) by (simp only:) (rule node, simp_all)
  next
    case 2
    have "k \<in> fst ` set_tree l" using keys [OF n(4) 2(1)] assms(4) by simp
    then have "k < fst x" using nl [of k] by (meson not_le)
    then have "k \<notin> fst ` set_tree r" "fst x \<noteq> k" using nr [of k] by auto
    then have e: "set_data k d (Node l x r) = Node (set_data k d l) x r" by (simp add: set_data_other)
    have "j \<notin> R" using 2 n(7) by blast
    moreover have "rep h' (nd_left (h i)) L (set_data k d l)" unfolding h'_def using Node.IH(1) [OF n(4) _ 2(1)] o by blast
    ultimately show ?thesis unfolding e using frame n(2,5) 2(2) eq(4) by (intro node) simp_all
  next
    case 3
    have "k \<in> fst ` set_tree r" using keys [OF n(5) 3(1)] assms(4) by simp
    then have "fst x < k" using nr [of k] by (meson not_le)
    then have "k \<notin> fst ` set_tree l" "fst x \<noteq> k" using nl [of k] by auto
    then have e: "set_data k d (Node l x r) = Node l x (set_data k d r)" by (simp add: set_data_other)
    have "j \<notin> L" using 3 n(7) by blast
    moreover have "rep h' (nd_right (h i)) R (set_data k d r)" unfolding h'_def using Node.IH(2) [OF n(5) _ 3(1)] o by blast
    ultimately show ?thesis unfolding e using frame n(2,4) 3(2) eq(4) by (intro node) simp_all
  qed
  then show ?case unfolding h'_def .
qed simp

lemma update_data_ref_ok:
  assumes "avl_inv s" "avl_contents s k = Some d"
  obtains s' where "update_data_ref k f s = Some (Inr (), s')" "avl_inv s'" "avl_contents s' = (avl_contents s)(k \<mapsto> f d)"
    "number_elements s' = number_elements s" "arraySize s' = arraySize s"
proof -
  from assms(1) obtain T where T: "wf_avl s T" "avl_contents s = tree_map T" "ordered T" by (rule avl_invE)
  then obtain F where F: "rep (the_array s) (root s) F T" "F \<subseteq> {0..<int (arraySize s)}"
    "set (rb_elems (avl_freeList s)) = {0..<int (arraySize s)} - F" by (auto simp: wf_avl_def)
  have t: "tree_map T k = Some d" using T(2) assms(2) by simp
  from lookup_at_ok [OF F(1) T(3), of k] t obtain j where
    j: "lookup_at s (root s) k = Some j" "j \<in> F" "n_key s j = k" "n_data s j = d" by auto
  let ?s = "modify_node j (\<lambda>n. n\<lparr>a_data := f (a_data n)\<rparr>) s"
  have "rep ((the_array s)(j := (the_array s j)\<lparr>a_data := f d\<rparr>)) (root s) F (set_data k (f d) T)"
    using j(3) by (intro rep_set_data [OF F(1) T(3) j(2)]) (simp add: n_key_def)
  then have "rep (the_array ?s) (root ?s) F (set_data k (f d) T)"
    using j(4) by (simp add: modify_node_def n_data_def)
  then have w: "wf_avl ?s (set_data k (f d) T)"
    using T(1) F(2,3) by (auto simp: wf_avl_def modify_node_def map_fst_set_data)
  have "avl_contents ?s = (avl_contents s)(k \<mapsto> f d)"
    using avl_contents_eq [OF w] tree_map_set_data [OF T(3)] t T(2) by simp
  moreover have "update_data_ref k f s = Some (Inr (), ?s)"
    using j(1) rep_nonneg [OF F(1) j(2)] by (simp add: update_data_ref_def avl_lookup_def is_null_def)
  moreover have "number_elements ?s = number_elements s" "arraySize ?s = arraySize s" by (simp_all add: modify_node_def)
  ultimately show thesis using that w by (auto simp: avl_inv_def)
qed

end
