(* ===== verification/SrpStore.thy ===== *)
theory SrpStore
  imports AvlUpdate DcpTypes
begin

text \<open>
  The store of the state reporting protocol, \<open>dcp/srp/srp_store_fixedmem.h\<close>: a search tree with the
  state of every neighbour, an array of buffers for their safety data, found by byte offset, and a
  ring buffer of the free ones.  Methods of the tree may not return on a broken tree, so the
  operations of the store are partial functions.

  Values of type \<open>double\<close> are of a type parameter; the operations on them, which the floating point
  unit does, are the record \<open>fp\<close>.
\<close>

section \<open>Data\<close>

record 'f fp =
  fp_of_u32 :: "u32 \<Rightarrow> 'f"
  fp_add :: "'f \<Rightarrow> 'f \<Rightarrow> 'f"
  fp_sub :: "'f \<Rightarrow> 'f \<Rightarrow> 'f"
  fp_mul :: "'f \<Rightarrow> 'f \<Rightarrow> 'f"

record 'f SafetyDataT =
  position_x :: 'f
  position_y :: 'f
  position_z :: 'f

record 'f ExtendedSafetyDataT =
  safetyData :: "'f SafetyDataT"
  esd_nodeId :: NodeIdentifierT
  esd_timeStamp :: TimeStampT
  esd_seqno :: u32

record 'f NeighbourState =
  ns_nodeId :: NodeIdentifierT
  ns_esd_offs :: nat
  ns_seqno_received :: bool
  ns_last_seqno :: u32
  ns_avg_seqno_gap_size :: 'f
  ns_last_esd_received :: TimeStampT

record EsdFreeListEntry =
  fl_esd_offs :: nat

record 'f SrpGlobalState =
  own_sd :: "'f SafetyDataT"
  last_own_sd_write :: TimeStampT
  own_sd_written :: bool
  next_seqno :: u32
  srp_ownNodeIdentifier :: NodeIdentifierT
  gapSizeEstimatorEWMAAlphaValue :: 'f
  srp_isActive :: bool

record 'f FixedMemContents =
  srp_global_state :: "'f SrpGlobalState"
  neighbour_ESD :: "nat \<Rightarrow> 'f ExtendedSafetyDataT"
  esd_freeList :: "EsdFreeListEntry ring_buffer"
  neighbour_table :: "(NodeIdentifierT, 'f NeighbourState) FixedMemAVLTree"

type_synonym ('f, 'a) srp_action = "('f FixedMemContents, 'a) paction"

definition zoomP :: "('s \<Rightarrow> 't) \<Rightarrow> ('t \<Rightarrow> 's \<Rightarrow> 's) \<Rightarrow> ('t, 'a) paction \<Rightarrow> ('s, 'a) paction" where
  "zoomP get put m s = map_option (\<lambda>(r, t). (r, put t s)) (m (get s))"

abbreviation on_table :: "((NodeIdentifierT, 'f NeighbourState) FixedMemAVLTree, 'a) paction \<Rightarrow> ('f, 'a) srp_action" where
  "on_table \<equiv> zoomP neighbour_table (\<lambda>t s. s\<lparr>neighbour_table := t\<rparr>)"

abbreviation on_esd_freeList :: "(EsdFreeListEntry ring_buffer, 'a) action \<Rightarrow> ('f FixedMemContents, 'a) action" where
  "on_esd_freeList \<equiv> zoomE esd_freeList (\<lambda>q s. s\<lparr>esd_freeList := q\<rparr>)"

text \<open>A \<open>for\<close> loop over a list.\<close>

fun forP :: "('a \<Rightarrow> ('s, unit) paction) \<Rightarrow> 'a list \<Rightarrow> ('s, unit) paction" where
  "forP f [] s = Some (Inr (), s)"
| "forP f (x # xs) s = bindP (f x) (\<lambda>_. forP f xs) s"

abbreviation retP :: "'a \<Rightarrow> ('s, 'a) paction" where
  "retP x \<equiv> totalP (retE x)"

section \<open>Construction\<close>

text \<open>The memory block before the constructors run: global state, buffers and the arrays of the ring
  buffers and of the tree; \<open>n\<close> is the template parameter \<open>maxNeighbours\<close>.\<close>

record 'f raw_srp =
  raw_global :: "'f SrpGlobalState"
  raw_ESD :: "nat \<Rightarrow> 'f ExtendedSafetyDataT"
  raw_freeList :: "EsdFreeListEntry list"
  raw_avl_freeList :: "int list"
  raw_nodes :: "int \<Rightarrow> (NodeIdentifierT, 'f NeighbourState) ANode"

definition new_FixedMemContents :: "nat \<Rightarrow> 'f raw_srp \<Rightarrow> dcp_error + 'f FixedMemContents" where
  "new_FixedMemContents n raw =
     (case new_ring_buffer (Some ''FixedMemContents::freeList'') n (raw_freeList raw) of
        Inl e \<Rightarrow> Inl e
      | Inr fl \<Rightarrow>
          (case new_FixedMemAVLTree n (raw_avl_freeList raw) (raw_nodes raw) of
             Inl e \<Rightarrow> Inl e
           | Inr t \<Rightarrow> Inr \<lparr>srp_global_state = raw_global raw, neighbour_ESD = raw_ESD raw, esd_freeList = fl, neighbour_table = t\<rparr>))"

text \<open>\<open>sz\<close> is the size of an \<open>ExtendedSafetyDataT\<close>.\<close>

definition initialize_srp_store ::
  "nat \<Rightarrow> nat \<Rightarrow> 'f raw_srp option \<Rightarrow> NodeIdentifierT \<Rightarrow> 'f \<Rightarrow> TimeStampT \<Rightarrow> dcp_error + 'f FixedMemContents" where
  "initialize_srp_store n sz mem own_node_id alpha now =
     (case mem of
        None \<Rightarrow> Inl SRPStoreException
      | Some raw \<Rightarrow>
          (case new_FixedMemContents n raw of
             Inl e \<Rightarrow> Inl e
           | Inr c \<Rightarrow>
               (case forE (\<lambda>i. on_esd_freeList (rb_push \<lparr>fl_esd_offs = i * sz\<rparr>)) [0..<n] c of
                  (Inl e, _) \<Rightarrow> Inl e
                | (Inr _, c) \<Rightarrow> Inr (c\<lparr>srp_global_state := (srp_global_state c)\<lparr>srp_isActive := True,
                    srp_ownNodeIdentifier := own_node_id, gapSizeEstimatorEWMAAlphaValue := alpha,
                    last_own_sd_write := now, next_seqno := 0, own_sd_written := False\<rparr>\<rparr>))))"

section \<open>Flags and own safety data\<close>

abbreviation modify_srp_global :: "('f SrpGlobalState \<Rightarrow> 'f SrpGlobalState) \<Rightarrow> 'f FixedMemContents \<Rightarrow> 'f FixedMemContents" where
  "modify_srp_global f s \<equiv> s\<lparr>srp_global_state := f (srp_global_state s)\<rparr>"

definition get_srp_isactive :: "'f FixedMemContents \<Rightarrow> bool" where
  "get_srp_isactive s = srp_isActive (srp_global_state s)"

definition set_srp_isactive :: "bool \<Rightarrow> 'f FixedMemContents \<Rightarrow> 'f FixedMemContents" where
  "set_srp_isactive active = modify_srp_global (\<lambda>g. g\<lparr>srp_isActive := active\<rparr>)"

definition srp_get_own_node_identifier :: "'f FixedMemContents \<Rightarrow> NodeIdentifierT" where
  "srp_get_own_node_identifier s = srp_ownNodeIdentifier (srp_global_state s)"

definition get_own_safety_data_timestamp :: "'f FixedMemContents \<Rightarrow> TimeStampT" where
  "get_own_safety_data_timestamp s = last_own_sd_write (srp_global_state s)"

definition get_own_safety_data :: "'f FixedMemContents \<Rightarrow> 'f SafetyDataT" where
  "get_own_safety_data s = own_sd (srp_global_state s)"

definition get_own_sequence_number :: "'f FixedMemContents \<Rightarrow> u32" where
  "get_own_sequence_number s = next_seqno (srp_global_state s)"

definition set_own_sequence_number :: "u32 \<Rightarrow> 'f FixedMemContents \<Rightarrow> 'f FixedMemContents" where
  "set_own_sequence_number newseqno = modify_srp_global (\<lambda>g. g\<lparr>next_seqno := newseqno\<rparr>)"

definition set_own_safety_data :: "TimeStampT \<Rightarrow> 'f SafetyDataT \<Rightarrow> 'f FixedMemContents \<Rightarrow> 'f FixedMemContents" where
  "set_own_safety_data now sd = modify_srp_global (\<lambda>g. g\<lparr>own_sd := sd, last_own_sd_write := now, own_sd_written := True\<rparr>)"

definition get_own_safety_data_written_flag :: "'f FixedMemContents \<Rightarrow> bool" where
  "get_own_safety_data_written_flag s = own_sd_written (srp_global_state s)"

definition set_own_safety_data_written_flag :: "bool \<Rightarrow> 'f FixedMemContents \<Rightarrow> 'f FixedMemContents" where
  "set_own_safety_data_written_flag flag = modify_srp_global (\<lambda>g. g\<lparr>own_sd_written := flag\<rparr>)"

section \<open>Neighbours\<close>

definition write_esd :: "nat \<Rightarrow> 'f ExtendedSafetyDataT \<Rightarrow> 'f FixedMemContents \<Rightarrow> 'f FixedMemContents" where
  "write_esd offs esd s = s\<lparr>neighbour_ESD := (neighbour_ESD s)(offs := esd)\<rparr>"

definition update_nstate :: "'f fp \<Rightarrow> 'f \<Rightarrow> TimeStampT \<Rightarrow> u32 \<Rightarrow> 'f NeighbourState \<Rightarrow> 'f NeighbourState" where
  "update_nstate fp alpha now seqno nstate =
     nstate\<lparr>ns_last_esd_received := now,
       ns_avg_seqno_gap_size :=
         (if ns_seqno_received nstate
          then (let new_gap_size = fp_of_u32 fp (seqno - ns_last_seqno nstate) in
                fp_add fp (fp_mul fp (fp_sub fp (fp_of_u32 fp 1) alpha) new_gap_size)
                          (fp_mul fp alpha (ns_avg_seqno_gap_size nstate)))
          else fp_of_u32 fp 1),
       ns_last_seqno := seqno, ns_seqno_received := True\<rparr>"

definition insert_esd_entry :: "'f fp \<Rightarrow> TimeStampT \<Rightarrow> 'f ExtendedSafetyDataT \<Rightarrow> ('f, unit) srp_action" where
  "insert_esd_entry fp now new_esd s =
     (let node = esd_nodeId new_esd in
      if node = srp_get_own_node_identifier s then Some (Inr (), s)
      else Option.bind (is_member (neighbour_table s) node) (\<lambda>known.
        if known then
          bindP (on_table (lookup_data_ref node)) (\<lambda>nstate s.
            let alpha = gapSizeEstimatorEWMAAlphaValue (srp_global_state s);
                s = write_esd (ns_esd_offs nstate) new_esd s
            in on_table (update_data_ref node (update_nstate fp alpha now (esd_seqno new_esd))) s) s
        else
          bindP (totalP (on_esd_freeList rb_pop)) (\<lambda>fl_entry s.
            let new_nstate = \<lparr>ns_nodeId = node, ns_esd_offs = fl_esd_offs fl_entry, ns_seqno_received = False,
                  ns_last_seqno = esd_seqno new_esd, ns_avg_seqno_gap_size = fp_of_u32 fp 0, ns_last_esd_received = now\<rparr>;
                s = write_esd (ns_esd_offs new_nstate) new_esd s
            in on_table (avl_insert node new_nstate) s) s))"

definition remove_esd_entry :: "NodeIdentifierT \<Rightarrow> ('f, unit) srp_action" where
  "remove_esd_entry node s =
     Option.bind (is_member (neighbour_table s) node) (\<lambda>known.
     if \<not> known then Some (Inr (), s)
     else bindP (on_table (lookup_data_ref node)) (\<lambda>nstat.
          bindP (totalP (on_esd_freeList (rb_push \<lparr>fl_esd_offs = ns_esd_offs nstat\<rparr>))) (\<lambda>_.
          on_table (avl_remove node))) s)"

definition get_neighbour_last_reception_time :: "NodeIdentifierT \<Rightarrow> ('f, TimeStampT) srp_action" where
  "get_neighbour_last_reception_time node =
     bindP (on_table (lookup_data_ref node)) (\<lambda>nstate. retP (ns_last_esd_received nstate))"

definition get_neighbour_avg_seqno_gap_estimate :: "NodeIdentifierT \<Rightarrow> ('f, 'f) srp_action" where
  "get_neighbour_avg_seqno_gap_estimate node =
     bindP (on_table (lookup_data_ref node)) (\<lambda>nstate. retP (ns_avg_seqno_gap_size nstate))"

definition get_esd_entry_ref :: "NodeIdentifierT \<Rightarrow> ('f, 'f ExtendedSafetyDataT) srp_action" where
  "get_esd_entry_ref node =
     bindP (on_table (lookup_data_ref node)) (\<lambda>nstate s. Some (Inr (neighbour_ESD s (ns_esd_offs nstate)), s))"

definition does_esd_entry_exist :: "NodeIdentifierT \<Rightarrow> 'f FixedMemContents \<Rightarrow> bool option" where
  "does_esd_entry_exist node s = is_member (neighbour_table s) node"

definition find_nodes_to_scrub :: "TimeStampT \<Rightarrow> u16 \<Rightarrow> 'f FixedMemContents \<Rightarrow> NodeIdentifierT list option" where
  "find_nodes_to_scrub current_time timeoutMS s =
     avl_find_matching_data
       (\<lambda>_ nstate. unat (milliseconds_passed_since current_time (ns_last_esd_received nstate)) \<ge> unat timeoutMS)
       (\<lambda>node _. node) (neighbour_table s) []"

record 'f NodeInformation =
  ni_esd :: "'f ExtendedSafetyDataT"
  ni_last_reception_time :: TimeStampT
  ni_avg_seqno_gap_size_estimate :: 'f

definition list_matching_node_information ::
  "('f ExtendedSafetyDataT \<Rightarrow> bool) \<Rightarrow> 'f FixedMemContents \<Rightarrow> 'f NodeInformation list option" where
  "list_matching_node_information esd_predicate s =
     avl_find_matching_data
       (\<lambda>_ nstate. esd_predicate (neighbour_ESD s (ns_esd_offs nstate)))
       (\<lambda>_ nstate. \<lparr>ni_esd = neighbour_ESD s (ns_esd_offs nstate), ni_last_reception_time = ns_last_esd_received nstate,
          ni_avg_seqno_gap_size_estimate = ns_avg_seqno_gap_size nstate\<rparr>)
       (neighbour_table s) []"

end
