(* ===== verification/SrpTable.thy ===== *)
theory SrpTable
  imports SrpStore
begin

text \<open>
  The neighbour table as a map.  The invariant accounts for every buffer: it belongs to exactly one
  neighbour or is in the free list exactly once.  The operations of the store implement those on the
  map, as long as there is a free buffer for a new neighbour.
\<close>

section \<open>Invariant and abstraction\<close>

definition free_offs :: "'f FixedMemContents \<Rightarrow> nat list" where
  "free_offs s = map fl_esd_offs (rb_elems (esd_freeList s))"

abbreviation nstate_of :: "'f FixedMemContents \<Rightarrow> NodeIdentifierT \<rightharpoonup> 'f NeighbourState" where
  "nstate_of s \<equiv> avl_contents (neighbour_table s)"

definition srp_inv :: "nat \<Rightarrow> nat \<Rightarrow> 'f FixedMemContents \<Rightarrow> bool" where
  "srp_inv n sz s \<longleftrightarrow> avl_inv (neighbour_table s) \<and> arraySize (neighbour_table s) = n
     \<and> wf_rb (esd_freeList s) \<and> maxCapacity (esd_freeList s) = n
     \<and> number_elements (neighbour_table s) + length (free_offs s) = n
     \<and> distinct (free_offs s) \<and> set (free_offs s) \<subseteq> (\<lambda>i. i * sz) ` {0..<n}
     \<and> (\<forall>k d. nstate_of s k = Some d \<longrightarrow> ns_nodeId d = k \<and> k \<noteq> srp_get_own_node_identifier s
          \<and> ns_esd_offs d \<in> (\<lambda>i. i * sz) ` {0..<n} - set (free_offs s)
          \<and> esd_nodeId (neighbour_ESD s (ns_esd_offs d)) = k)
     \<and> (\<forall>k k' d d'. nstate_of s k = Some d \<longrightarrow> nstate_of s k' = Some d' \<longrightarrow> k \<noteq> k' \<longrightarrow> ns_esd_offs d \<noteq> ns_esd_offs d')"

record 'f neighbour =
  nb_esd :: "'f ExtendedSafetyDataT"
  nb_seqno_received :: bool
  nb_last_seqno :: u32
  nb_gap :: 'f
  nb_last_received :: TimeStampT

definition neighbour_of :: "'f FixedMemContents \<Rightarrow> 'f NeighbourState \<Rightarrow> 'f neighbour" where
  "neighbour_of s d = \<lparr>nb_esd = neighbour_ESD s (ns_esd_offs d), nb_seqno_received = ns_seqno_received d,
     nb_last_seqno = ns_last_seqno d, nb_gap = ns_avg_seqno_gap_size d, nb_last_received = ns_last_esd_received d\<rparr>"

definition neighbours :: "'f FixedMemContents \<Rightarrow> NodeIdentifierT \<rightharpoonup> 'f neighbour" where
  "neighbours s k = map_option (neighbour_of s) (nstate_of s k)"

text \<open>What the map knows of a neighbour after a record of it: of a new one, that it was heard; of a known
  one, in addition, how many of its records are missing on average.\<close>

definition heard :: "'f fp \<Rightarrow> 'f \<Rightarrow> TimeStampT \<Rightarrow> 'f ExtendedSafetyDataT \<Rightarrow> 'f neighbour option \<Rightarrow> 'f neighbour" where
  "heard fp alpha now esd old =
     (case old of
        None \<Rightarrow> \<lparr>nb_esd = esd, nb_seqno_received = False, nb_last_seqno = esd_seqno esd, nb_gap = fp_of_u32 fp 0, nb_last_received = now\<rparr>
      | Some nb \<Rightarrow> \<lparr>nb_esd = esd, nb_seqno_received = True, nb_last_seqno = esd_seqno esd,
          nb_gap = (if nb_seqno_received nb
             then fp_add fp (fp_mul fp (fp_sub fp (fp_of_u32 fp 1) alpha) (fp_of_u32 fp (esd_seqno esd - nb_last_seqno nb)))
                            (fp_mul fp alpha (nb_gap nb))
             else fp_of_u32 fp 1),
          nb_last_received = now\<rparr>)"

lemma srp_inv_parts:
  assumes "srp_inv n sz s"
  shows "avl_inv (neighbour_table s)" "arraySize (neighbour_table s) = n" "wf_rb (esd_freeList s)"
    "maxCapacity (esd_freeList s) = n" "number_elements (neighbour_table s) + length (free_offs s) = n"
    "distinct (free_offs s)" "set (free_offs s) \<subseteq> (\<lambda>i. i * sz) ` {0..<n}"
  using assms unfolding srp_inv_def by blast+

lemma srp_inv_each:
  assumes "srp_inv n sz s" "nstate_of s k = Some d"
  shows "ns_nodeId d = k \<and> k \<noteq> srp_get_own_node_identifier s
    \<and> ns_esd_offs d \<in> (\<lambda>i. i * sz) ` {0..<n} - set (free_offs s) \<and> esd_nodeId (neighbour_ESD s (ns_esd_offs d)) = k"
  using assms unfolding srp_inv_def by blast

lemma srp_inv_apart:
  assumes "srp_inv n sz s" "nstate_of s k = Some d" "nstate_of s k' = Some d'" "k \<noteq> k'"
  shows "ns_esd_offs d \<noteq> ns_esd_offs d'"
  using assms unfolding srp_inv_def by blast

lemma dom_neighbours: "dom (neighbours s) = dom (nstate_of s)"
  by (auto simp: neighbours_def)

lemma neighbour_count:
  assumes "srp_inv n sz s"
  shows "card (dom (neighbours s)) = number_elements (neighbour_table s)" "finite (dom (neighbours s))"
    "card (dom (neighbours s)) + length (free_offs s) = n"
  using avl.count [OF srp_inv_parts(1) [OF assms]] srp_inv_parts(5) [OF assms] by (simp_all add: dom_neighbours)

lemma neighbour_node:
  assumes "srp_inv n sz s" "neighbours s k = Some nb"
  shows "esd_nodeId (nb_esd nb) = k" "k \<noteq> srp_get_own_node_identifier s"
  using srp_inv_each [OF assms(1)] assms(2) by (auto simp: neighbours_def neighbour_of_def)

lemma neighbour_lookup:
  assumes "srp_inv n sz s" "neighbours s k = Some nb"
  shows "get_esd_entry_ref k s = Some (Inr (nb_esd nb), s)" "get_neighbour_last_reception_time k s = Some (Inr (nb_last_received nb), s)"
    "get_neighbour_avg_seqno_gap_estimate k s = Some (Inr (nb_gap nb), s)" "does_esd_entry_exist k s = Some True"
proof -
  obtain d where d: "nstate_of s k = Some d" "nb = neighbour_of s d" using assms(2) by (auto simp: neighbours_def)
  note get = avl.get [OF srp_inv_parts(1) [OF assms(1)], of k] and defs = zoomP_def bindP_def totalP_def neighbour_of_def d
  show "get_esd_entry_ref k s = Some (Inr (nb_esd nb), s)" using get by (simp add: get_esd_entry_ref_def defs)
  show "get_neighbour_last_reception_time k s = Some (Inr (nb_last_received nb), s)"
    using get by (simp add: get_neighbour_last_reception_time_def defs)
  show "get_neighbour_avg_seqno_gap_estimate k s = Some (Inr (nb_gap nb), s)"
    using get by (simp add: get_neighbour_avg_seqno_gap_estimate_def defs)
  show "does_esd_entry_exist k s = Some True"
    using avl.member [OF srp_inv_parts(1) [OF assms(1)], of k] d(1) by (simp add: does_esd_entry_exist_def domI)
qed

section \<open>Writing a buffer\<close>

text \<open>Safety data that is written for one neighbour is not seen at another.\<close>

lemma write_esd_facts [simp]:
  "neighbour_table (write_esd offs esd s) = neighbour_table s" "esd_freeList (write_esd offs esd s) = esd_freeList s"
  "srp_global_state (write_esd offs esd s) = srp_global_state s" "free_offs (write_esd offs esd s) = free_offs s"
  "srp_get_own_node_identifier (write_esd offs esd s) = srp_get_own_node_identifier s"
  "neighbour_ESD (write_esd offs esd s) offs' = (if offs' = offs then esd else neighbour_ESD s offs')"
  by (simp_all add: write_esd_def free_offs_def srp_get_own_node_identifier_def)

lemma table_update_facts [simp]:
  "free_offs (s\<lparr>neighbour_table := t\<rparr>) = free_offs s"
  "srp_get_own_node_identifier (s\<lparr>neighbour_table := t\<rparr>) = srp_get_own_node_identifier s"
  "srp_get_own_node_identifier (s\<lparr>esd_freeList := q\<rparr>) = srp_get_own_node_identifier s"
  by (simp_all add: free_offs_def srp_get_own_node_identifier_def)

section \<open>Insertion\<close>

lemma insert_own: "esd_nodeId esd = srp_get_own_node_identifier s \<Longrightarrow> insert_esd_entry fp now esd s = Some (Inr (), s)"
  by (simp add: insert_esd_entry_def)

lemma insert_known:
  assumes "srp_inv n sz s" "neighbours s (esd_nodeId esd) = Some nb"
  obtains s' where "insert_esd_entry fp now esd s = Some (Inr (), s')" "srp_inv n sz s'" "srp_global_state s' = srp_global_state s"
    "neighbours s' = (neighbours s)(esd_nodeId esd \<mapsto>
       heard fp (gapSizeEstimatorEWMAAlphaValue (srp_global_state s)) now esd (Some nb))"
proof -
  let ?k = "esd_nodeId esd" and ?alpha = "gapSizeEstimatorEWMAAlphaValue (srp_global_state s)"
  obtain d where d: "nstate_of s ?k = Some d" "nb = neighbour_of s d" using assms(2) by (auto simp: neighbours_def)
  note i = srp_inv_parts [OF assms(1)] and each = srp_inv_each [OF assms(1)] and apart = srp_inv_apart [OF assms(1)]
  let ?f = "update_nstate fp ?alpha now (esd_seqno esd)"
  obtain t where t: "update_data_ref ?k ?f (neighbour_table s) = Some (Inr (), t)" "avl_inv t"
    "avl_contents t = (nstate_of s)(?k \<mapsto> ?f d)" "number_elements t = number_elements (neighbour_table s)"
    "arraySize t = arraySize (neighbour_table s)" by (rule update_data_ref_ok [OF i(1) d(1)])
  let ?s = "(write_esd (ns_esd_offs d) esd s)\<lparr>neighbour_table := t\<rparr>"
  have f: "ns_nodeId (?f d) = ns_nodeId d" "ns_esd_offs (?f d) = ns_esd_offs d" by (simp_all add: update_nstate_def Let_def)
  have own: "?k \<noteq> srp_get_own_node_identifier s" using each [OF d(1)] by simp
  have run: "insert_esd_entry fp now esd s = Some (Inr (), ?s)"
    using own avl.member [OF i(1), of ?k] avl.get [OF i(1), of ?k] d(1) t(1)
    by (simp add: insert_esd_entry_def Let_def zoomP_def bindP_def domI)
  have inv: "srp_inv n sz ?s"
    unfolding srp_inv_def using i t each apart f d(1)
    by simp
  have nb: "neighbours ?s = (neighbours s)(?k \<mapsto> heard fp ?alpha now esd (Some nb))"
  proof (rule ext)
    fix k
    show "neighbours ?s k = ((neighbours s)(?k \<mapsto> heard fp ?alpha now esd (Some nb))) k"
    proof (cases "k = ?k")
      case True
      then show ?thesis using t(3) f(2) d(2) by (simp add: neighbours_def neighbour_of_def heard_def update_nstate_def Let_def)
    next
      case False
      then show ?thesis using t(3) apart [OF _ d(1)] by (cases "nstate_of s k") (auto simp: neighbours_def neighbour_of_def)
    qed
  qed
  show thesis by (rule that [OF run inv _ nb]) simp
qed


lemma elems_of_offs:
  assumes "free_offs s = off # offs"
  obtains e es where "rb_elems (esd_freeList s) = e # es" "fl_esd_offs e = off" "offs = map fl_esd_offs es"
  using assms by (cases "rb_elems (esd_freeList s)") (auto simp: free_offs_def)

lemma insert_new:
  assumes "srp_inv n sz s" "neighbours s (esd_nodeId esd) = None" "esd_nodeId esd \<noteq> srp_get_own_node_identifier s"
    "card (dom (neighbours s)) < n"
  obtains s' where "insert_esd_entry fp now esd s = Some (Inr (), s')" "srp_inv n sz s'" "srp_global_state s' = srp_global_state s"
    "neighbours s' = (neighbours s)(esd_nodeId esd \<mapsto>
       heard fp (gapSizeEstimatorEWMAAlphaValue (srp_global_state s)) now esd None)"
proof -
  let ?k = "esd_nodeId esd" and ?alpha = "gapSizeEstimatorEWMAAlphaValue (srp_global_state s)"
  have none: "nstate_of s ?k = None" using assms(2) by (simp add: neighbours_def)
  note i = srp_inv_parts [OF assms(1)] and each = srp_inv_each [OF assms(1)] and apart = srp_inv_apart [OF assms(1)]
  have room: "number_elements (neighbour_table s) < n" using neighbour_count(1) [OF assms(1)] assms(4) by simp
  then have "free_offs s \<noteq> []" using i(5) by auto
  then obtain off offs where os: "free_offs s = off # offs" by (cases "free_offs s") auto
  obtain e es where e: "rb_elems (esd_freeList s) = e # es" "fl_esd_offs e = off" "offs = map fl_esd_offs es"
    by (rule elems_of_offs [OF os])
  obtain q where q: "rb_pop (esd_freeList s) = (Inr e, q)" "wf_rb q" "rb_elems q = es" "maxCapacity q = n"
    using rbq.pop [OF i(3) e(1)] i(4) by auto
  define d where "d = \<lparr>ns_nodeId = ?k, ns_esd_offs = off, ns_seqno_received = False, ns_last_seqno = esd_seqno esd,
    ns_avg_seqno_gap_size = fp_of_u32 fp 0, ns_last_esd_received = now\<rparr>"
  have df: "ns_nodeId d = ?k" "ns_esd_offs d = off" by (simp_all add: d_def)
  obtain t where t: "avl_insert ?k d (neighbour_table s) = Some (Inr (), t)" "avl_inv t"
    "avl_contents t = (nstate_of s)(?k \<mapsto> d)" "arraySize t = n"
    using avl.put [OF i(1), of ?k d] room i(2) by auto
  have cnt: "number_elements t = Suc (number_elements (neighbour_table s))"
    using avl.count_put [OF i(1) _ t(1)] room i(2) none by (simp add: domIff)
  let ?s = "(write_esd off esd (s\<lparr>esd_freeList := q\<rparr>))\<lparr>neighbour_table := t\<rparr>"
  have run: "insert_esd_entry fp now esd s = Some (Inr (), ?s)"
    using assms(3) avl.member [OF i(1), of ?k] none q(1) t(1) e(2)
    by (simp add: insert_esd_entry_def Let_def zoomP_def zoomE_def bindP_def totalP_def domIff d_def write_esd_def)
  have fo: "free_offs ?s = offs" using q(3) e(3) by (simp add: free_offs_def write_esd_def)
  have own: "srp_get_own_node_identifier ?s = srp_get_own_node_identifier s"
    by (simp add: srp_get_own_node_identifier_def write_esd_def)
  have esd: "neighbour_ESD ?s a = (if a = off then esd else neighbour_ESD s a)" for a by (simp add: write_esd_def)
  have o_in: "off \<in> (\<lambda>i. i * sz) ` {0..<n}" "off \<notin> set offs" "distinct offs" "set offs \<subseteq> (\<lambda>i. i * sz) ` {0..<n}"
    using i(6,7) unfolding os by auto
  have fresh: "ns_esd_offs d' \<noteq> off" if "nstate_of s k = Some d'" for k d' using each [OF that] os by auto
  have each': "ns_nodeId d' = k \<and> k \<noteq> srp_get_own_node_identifier ?s
          \<and> ns_esd_offs d' \<in> (\<lambda>i. i * sz) ` {0..<n} - set (free_offs ?s)
          \<and> esd_nodeId (neighbour_ESD ?s (ns_esd_offs d')) = k" if "nstate_of ?s k = Some d'" for k d'
  proof (cases "k = ?k")
    case True
    then have "d' = d" using that t(3) by simp
    with True df o_in assms(3) show ?thesis unfolding own fo esd by simp
  next
    case False
    then have "nstate_of s k = Some d'" using that t(3) by simp
    with each [OF this] fresh [OF this] show ?thesis unfolding own fo esd os by simp
  qed
  have apart': "ns_esd_offs d1 \<noteq> ns_esd_offs d2" if "nstate_of ?s k1 = Some d1" "nstate_of ?s k2 = Some d2" "k1 \<noteq> k2" for k1 k2 d1 d2
    using that t(3) df(2) fresh [of k1 d1] fresh [of k2 d2] apart [of k1 d1 k2 d2] by (auto split: if_splits)
  have fl: "neighbour_table ?s = t" "esd_freeList ?s = q" by (simp_all add: write_esd_def)
  have inv: "srp_inv n sz ?s"
    unfolding srp_inv_def using each' apart' t(2,4) q(2,4) cnt i(5) o_in(3,4) unfolding fo fl os by simp
  have nb: "neighbours ?s = (neighbours s)(?k \<mapsto> heard fp ?alpha now esd None)"
  proof (rule ext)
    fix k
    show "neighbours ?s k = ((neighbours s)(?k \<mapsto> heard fp ?alpha now esd None)) k"
    proof (cases "k = ?k")
      case True
      then show ?thesis using t(3) by (simp add: neighbours_def neighbour_of_def heard_def d_def)
    next
      case False
      then show ?thesis using t(3) fresh [of k] by (cases "nstate_of s k") (auto simp: neighbours_def neighbour_of_def)
    qed
  qed
  show thesis by (rule that [OF run inv _ nb]) (simp add: write_esd_def)
qed

text \<open>A node that is not known yet when all buffers are taken ends in an exception; the table stays as it was.\<close>

lemma insert_full:
  assumes "srp_inv n sz s" "neighbours s (esd_nodeId esd) = None" "esd_nodeId esd \<noteq> srp_get_own_node_identifier s"
    "card (dom (neighbours s)) = n"
  shows "insert_esd_entry fp now esd s = Some (Inl RingBufferException, s)"
proof -
  have none: "nstate_of s (esd_nodeId esd) = None" using assms(2) by (simp add: neighbours_def)
  note i = srp_inv_parts(1,3) [OF assms(1)]
  have "free_offs s = []" using neighbour_count(3) [OF assms(1)] assms(4) by simp
  then have "rb_pop (esd_freeList s) = (Inl RingBufferException, esd_freeList s)"
    by (intro rbq.pop_empty [OF i(2)]) (simp add: free_offs_def)
  then show ?thesis using assms(3) avl.member [OF i(1), of "esd_nodeId esd"] none
    by (simp add: insert_esd_entry_def Let_def zoomE_def bindP_def totalP_def domIff)
qed


section \<open>Removal\<close>

lemma remove_unknown:
  assumes "srp_inv n sz s" "neighbours s k = None"
  shows "remove_esd_entry k s = Some (Inr (), s)"
  using avl.member [OF srp_inv_parts(1) [OF assms(1)], of k] assms(2)
  by (simp add: remove_esd_entry_def neighbours_def domIff)

lemma remove_known:
  assumes "srp_inv n sz s" "neighbours s k = Some nb"
  obtains s' where "remove_esd_entry k s = Some (Inr (), s')" "srp_inv n sz s'" "srp_global_state s' = srp_global_state s"
    "neighbours s' = (neighbours s)(k := None)"
proof -
  note i = srp_inv_parts [OF assms(1)] and each = srp_inv_each [OF assms(1)] and apart = srp_inv_apart [OF assms(1)]
  obtain d where d: "nstate_of s k = Some d" using assms(2) by (auto simp: neighbours_def)
  then have pos: "0 < number_elements (neighbour_table s)"
    using avl.count [OF i(1)] by (metis card_gt_0_iff domI empty_iff)
  have "length (rb_elems (esd_freeList s)) < maxCapacity (esd_freeList s)" using pos i(4,5) by (simp add: free_offs_def)
  then obtain q where q: "rb_push \<lparr>fl_esd_offs = ns_esd_offs d\<rparr> (esd_freeList s) = (Inr (), q)" "wf_rb q"
    "rb_elems q = rb_elems (esd_freeList s) @ [\<lparr>fl_esd_offs = ns_esd_offs d\<rparr>]" "maxCapacity q = n"
    using rbq.push [OF i(3), of "\<lparr>fl_esd_offs = ns_esd_offs d\<rparr>"] i(4) by auto
  obtain t where t: "avl_remove k (neighbour_table s) = Some (Inr (), t)" "avl_inv t"
    "avl_contents t = (nstate_of s)(k := None)" "arraySize t = n"
    using avl.delete [OF i(1), of k] i(2) by auto
  have cnt: "number_elements t = number_elements (neighbour_table s) - 1"
    using avl.count_delete [OF i(1) t(1)] d by (simp add: domI)
  let ?s = "s\<lparr>esd_freeList := q, neighbour_table := t\<rparr>"
  have run: "remove_esd_entry k s = Some (Inr (), ?s)"
    using avl.member [OF i(1), of k] avl.get [OF i(1), of k] d q(1) t(1)
    by (simp add: remove_esd_entry_def zoomP_def zoomE_def bindP_def totalP_def domI)
  have fo: "free_offs ?s = free_offs s @ [ns_esd_offs d]" using q(3) by (simp add: free_offs_def)
  have own: "srp_get_own_node_identifier ?s = srp_get_own_node_identifier s" by (simp add: srp_get_own_node_identifier_def)
  have each': "ns_nodeId d' = j \<and> j \<noteq> srp_get_own_node_identifier ?s
          \<and> ns_esd_offs d' \<in> (\<lambda>i. i * sz) ` {0..<n} - set (free_offs ?s)
          \<and> esd_nodeId (neighbour_ESD ?s (ns_esd_offs d')) = j" if "nstate_of ?s j = Some d'" for j d'
  proof -
    have j: "nstate_of s j = Some d'" "j \<noteq> k" using that t(3) by (simp_all split: if_splits)
    with each [OF j(1)] apart [OF j(1) d] show ?thesis unfolding own fo by simp
  qed
  have apart': "ns_esd_offs d1 \<noteq> ns_esd_offs d2" if "nstate_of ?s k1 = Some d1" "nstate_of ?s k2 = Some d2" "k1 \<noteq> k2" for k1 k2 d1 d2
    using that t(3) apart [of k1 d1 k2 d2] by (auto split: if_splits)
  have inv: "srp_inv n sz ?s"
    unfolding srp_inv_def using each' apart' t(2,4) q(2,4) cnt pos i(5-7) each [OF d] unfolding fo by simp
  have "neighbour_of ?s = neighbour_of s" by (rule ext, simp add: neighbour_of_def)
  then have nb: "neighbours ?s = (neighbours s)(k := None)" using t(3) by (intro ext) (simp add: neighbours_def)
  show thesis by (rule that [OF run inv _ nb]) simp
qed

lemma remove_ok:
  assumes "srp_inv n sz s"
  obtains s' where "remove_esd_entry k s = Some (Inr (), s')" "srp_inv n sz s'" "srp_global_state s' = srp_global_state s"
    "neighbours s' = (neighbours s)(k := None)"
proof (cases "neighbours s k")
  case None
  then have "(neighbours s)(k := None) = neighbours s" by auto
  with that [OF remove_unknown [OF assms None] assms] show thesis by simp
next
  case (Some nb)
  from remove_known [OF assms this] that show thesis by blast
qed


section \<open>Search\<close>

lemma find_nodes_to_scrub_ok:
  assumes "srp_inv n sz s"
  obtains ks where "find_nodes_to_scrub now timeoutMS s = Some ks" "distinct ks"
    "set ks = {k. \<exists>nb. neighbours s k = Some nb \<and> unat timeoutMS \<le> unat (milliseconds_passed_since now (nb_last_received nb))}"
proof -
  let ?P = "\<lambda>(_ :: NodeIdentifierT) nstate :: 'a NeighbourState.
    unat timeoutMS \<le> unat (milliseconds_passed_since now (ns_last_esd_received nstate))"
  obtain es where es: "avl_find_matching_data ?P (\<lambda>node _. node) (neighbour_table s) [] = Some ([] @ map (case_prod (\<lambda>node _. node)) es)"
    "distinct (map fst es)" "set es = {(k, d). nstate_of s k = Some d \<and> ?P k d}"
    by (rule avl_find_matching_ok [OF srp_inv_parts(1) [OF assms]])
  have m: "map (case_prod (\<lambda>node _. node)) es = map fst es" by (simp add: fst_def)
  have "set (map fst es) = {k. \<exists>nb. neighbours s k = Some nb \<and> unat timeoutMS \<le> unat (milliseconds_passed_since now (nb_last_received nb))}"
    unfolding set_map es(3) by (force simp: neighbours_def neighbour_of_def)
  with es(1,2) m that show thesis by (simp add: find_nodes_to_scrub_def)
qed

lemma list_matching_node_information_ok:
  assumes "srp_inv n sz s"
  obtains es where "list_matching_node_information P s = Some (map snd es)" "distinct (map fst es)"
    "set es = {(k, \<lparr>ni_esd = nb_esd nb, ni_last_reception_time = nb_last_received nb, ni_avg_seqno_gap_size_estimate = nb_gap nb\<rparr>)
       | k nb. neighbours s k = Some nb \<and> P (nb_esd nb)}"
proof -
  let ?P = "\<lambda>(_ :: NodeIdentifierT) nstate. P (neighbour_ESD s (ns_esd_offs nstate))"
  let ?f = "\<lambda>(_ :: NodeIdentifierT) nstate. \<lparr>ni_esd = neighbour_ESD s (ns_esd_offs nstate), ni_last_reception_time = ns_last_esd_received nstate,
          ni_avg_seqno_gap_size_estimate = ns_avg_seqno_gap_size nstate\<rparr>"
  obtain es where es: "avl_find_matching_data ?P ?f (neighbour_table s) [] = Some ([] @ map (case_prod ?f) es)"
    "distinct (map fst es)" "set es = {(k, d). nstate_of s k = Some d \<and> ?P k d}"
    by (rule avl_find_matching_ok [OF srp_inv_parts(1) [OF assms]])
  let ?es = "map (\<lambda>(k, d). (k, ?f k d)) es"
  have m: "map snd ?es = map (case_prod ?f) es" "map fst ?es = map fst es" by (auto simp: case_prod_beta)
  have "list_matching_node_information P s = Some (map snd ?es)" unfolding m(1) list_matching_node_information_def es(1) by simp
  moreover have "distinct (map fst ?es)" unfolding m(2) by (rule es(2))
  moreover have "set ?es = {(k, \<lparr>ni_esd = nb_esd nb, ni_last_reception_time = nb_last_received nb, ni_avg_seqno_gap_size_estimate = nb_gap nb\<rparr>)
       | k nb. neighbours s k = Some nb \<and> P (nb_esd nb)}"
    unfolding set_map es(3) by (force simp: neighbours_def neighbour_of_def)
  ultimately show thesis by (rule that)
qed


section \<open>Initialization\<close>

lemma forE_push_esd:
  "forE (\<lambda>i. on_esd_freeList (rb_push (g i))) xs c
    = (case forE rb_push (map g xs) (esd_freeList c) of (r, f) \<Rightarrow> (r, c\<lparr>esd_freeList := f\<rparr>))"
proof (induction xs arbitrary: c)
  case (Cons x xs)
  obtain r f where r: "rb_push (g x) (esd_freeList c) = (r, f)" by fastforce
  show ?case by (cases r) (simp_all add: zoomE_def [of _ _ _ c] r Cons)
qed simp

lemma initialize_srp_ok:
  assumes "3 \<le> n" "0 < sz" "length (raw_freeList raw) = n + 1" "length (raw_avl_freeList raw) = n + 1"
  obtains s where "initialize_srp_store n sz (Some raw) own alpha now = Inr s" "srp_inv n sz s" "neighbours s = Map.empty"
    "srp_get_own_node_identifier s = own" "get_srp_isactive s" "\<not> get_own_safety_data_written_flag s"
    "gapSizeEstimatorEWMAAlphaValue (srp_global_state s) = alpha" "get_own_sequence_number s = 0"
proof -
  obtain fl where fl: "new_ring_buffer (Some ''FixedMemContents::freeList'') n (raw_freeList raw) = Inr fl"
    using assms(1,3) by (simp add: new_ring_buffer_def maxRingBufferNameLength_def)
  note w = wf_new_ring_buffer [OF fl]
  obtain t where t: "new_FixedMemAVLTree n (raw_avl_freeList raw) (raw_nodes raw) = Inr t" "wf_avl t Leaf" "arraySize t = n"
    by (rule new_FixedMemAVLTree_ok [OF assms(1,4)])
  let ?c = "\<lparr>srp_global_state = raw_global raw, neighbour_ESD = raw_ESD raw, esd_freeList = fl, neighbour_table = t\<rparr>"
  let ?g = "\<lambda>i. \<lparr>fl_esd_offs = i * sz\<rparr>"
  obtain q where q: "forE rb_push (map ?g [0..<n]) fl = (Inr (), q)" "wf_rb q" "rb_elems q = map ?g [0..<n]" "maxCapacity q = n"
    using rbq.push_list [of fl "map ?g [0..<n]"] w by auto
  let ?s = "?c\<lparr>esd_freeList := q, srp_global_state := (raw_global raw)\<lparr>srp_isActive := True,
     srp_ownNodeIdentifier := own, gapSizeEstimatorEWMAAlphaValue := alpha, last_own_sd_write := now, next_seqno := 0,
     own_sd_written := False\<rparr>\<rparr>"
  have run: "initialize_srp_store n sz (Some raw) own alpha now = Inr ?s"
    using fl t(1) q(1) by (simp add: initialize_srp_store_def new_FixedMemContents_def forE_push_esd)
  have fo: "free_offs ?s = map (\<lambda>i. i * sz) [0..<n]" using q(3) by (simp add: free_offs_def)
  have "number_elements t = 0" "avl_inv t" using t(2) by (auto simp: wf_avl_def avl_inv_def)
  with avl_contents_eq [OF t(2)] have empty: "nstate_of ?s = Map.empty" "avl_contents t = Map.empty" "number_elements t = 0" "avl_inv t"
    by simp_all
  have "inj_on (\<lambda>i. i * sz) {0..<n}" using assms(2) by (simp add: inj_on_def)
  then have "distinct (map (\<lambda>i. i * sz) [0..<n])" by (simp add: distinct_map)
  then have inv: "srp_inv n sz ?s" unfolding srp_inv_def fo using empty q(2,4) t(3) by simp
  show thesis
    by (rule that [OF run inv]) (simp_all add: neighbours_def fun_eq_iff empty srp_get_own_node_identifier_def
      get_srp_isactive_def get_own_safety_data_written_flag_def get_own_sequence_number_def)
qed

end
