(* ===== verification/SrpMap.thy ===== *)
theory SrpMap
  imports SrpTable
begin

text \<open>
  The contract of the neighbour table for the threads of the demon: a map of at most \<open>capacity\<close> nodes, in which
  the node itself is not entered, and what a list of received records and a scrubbing run do to it.
\<close>

section \<open>The contract\<close>

locale neighbour_map =
  fixes inv :: "'s \<Rightarrow> bool"
    and contents :: "'s \<Rightarrow> 'k \<rightharpoonup> 'nb"
    and own :: "'s \<Rightarrow> 'k"
    and capacity :: nat
    and node :: "'r \<Rightarrow> 'k"
    and effect :: "'s \<Rightarrow> 'r \<Rightarrow> 'nb option \<Rightarrow> 'nb"
    and hear :: "'r \<Rightarrow> ('s, unit) paction"
    and forget :: "'k \<Rightarrow> ('s, unit) paction"
  assumes hear_own: "node r = own s \<Longrightarrow> hear r s = Some (Inr (), s)"
    and hear: "inv s \<Longrightarrow> node r \<noteq> own s \<Longrightarrow> node r \<in> dom (contents s) \<or> card (dom (contents s)) < capacity
      \<Longrightarrow> \<exists>s'. hear r s = Some (Inr (), s') \<and> inv s' \<and> own s' = own s \<and> effect s' = effect s
        \<and> contents s' = (contents s)(node r \<mapsto> effect s r (contents s (node r)))"
    and hear_full: "inv s \<Longrightarrow> node r \<noteq> own s \<Longrightarrow> node r \<notin> dom (contents s) \<Longrightarrow> card (dom (contents s)) = capacity
      \<Longrightarrow> hear r s = Some (Inl RingBufferException, s)"
    and forget: "inv s \<Longrightarrow> \<exists>s'. forget k s = Some (Inr (), s') \<and> inv s' \<and> own s' = own s \<and> effect s' = effect s
        \<and> contents s' = (contents s)(k := None)"
    and bounded: "inv s \<Longrightarrow> finite (dom (contents s)) \<and> card (dom (contents s)) \<le> capacity \<and> own s \<notin> dom (contents s)"
begin

text \<open>What a list of records makes of the map.\<close>

definition learn :: "'s \<Rightarrow> 'r list \<Rightarrow> 'k \<rightharpoonup> 'nb" where
  "learn s rs = foldl (\<lambda>m r. if node r = own s then m else m(node r \<mapsto> effect s r (m (node r)))) (contents s) rs"

lemma hear_all:
  "inv s \<Longrightarrow> card (dom (contents s) \<union> (node ` set rs - {own s})) \<le> capacity
   \<Longrightarrow> \<exists>s'. forP hear rs s = Some (Inr (), s') \<and> inv s' \<and> own s' = own s \<and> effect s' = effect s \<and> contents s' = learn s rs"
proof (induction rs arbitrary: s)
  case Nil
  then show ?case by (simp add: learn_def)
next
  case (Cons r rs)
  show ?case
  proof (cases "node r = own s")
    case True
    with Cons.prems(2) have c: "card (dom (contents s) \<union> (node ` set rs - {own s})) \<le> capacity" by simp
    have l: "learn s (r # rs) = learn s rs" using True by (simp add: learn_def)
    from Cons.IH [OF Cons.prems(1) c] show ?thesis
      unfolding l forP.simps bindP_def hear_own [OF True] by simp
  next
    case False
    have f: "finite (dom (contents s))" using bounded [OF Cons.prems(1)] by simp
    have room: "card (dom (contents s)) < capacity" if "node r \<notin> dom (contents s)"
    proof -
      have "card (dom (contents s)) < card (insert (node r) (dom (contents s)))" using f that by simp
      also have "\<dots> \<le> card (dom (contents s) \<union> (node ` set (r # rs) - {own s}))" using f False by (intro card_mono) auto
      finally show ?thesis using Cons.prems(2) by simp
    qed
    then have "node r \<in> dom (contents s) \<or> card (dom (contents s)) < capacity" by blast
    from hear [OF Cons.prems(1) False this] obtain s1 where s1: "hear r s = Some (Inr (), s1)" "inv s1" "own s1 = own s"
      "effect s1 = effect s" "contents s1 = (contents s)(node r \<mapsto> effect s r (contents s (node r)))" by blast
    have "dom (contents s1) \<union> (node ` set rs - {own s1}) = dom (contents s) \<union> (node ` set (r # rs) - {own s})"
      unfolding s1(3,5) using False by auto
    with Cons.prems(2) have c: "card (dom (contents s1) \<union> (node ` set rs - {own s1})) \<le> capacity" by simp
    have l: "learn s (r # rs) = learn s1 rs" unfolding learn_def s1(3-5) using False by simp
    from Cons.IH [OF s1(2) c] show ?thesis unfolding l forP.simps bindP_def s1(1) by (simp add: s1(3,4))
  qed
qed

lemma dom_learn: "dom (learn s rs) = dom (contents s) \<union> (node ` set rs - {own s})"
  by (induction rs rule: rev_induct) (auto simp: learn_def)

lemma learn_last:
  "k \<noteq> own s \<Longrightarrow> filter (\<lambda>r. node r = k) rs = before @ [r] \<Longrightarrow> \<exists>old. learn s rs k = Some (effect s r old)"
proof (induction rs arbitrary: before rule: rev_induct)
  case (snoc x rs)
  show ?case
  proof (cases "node x = k")
    case True
    with snoc.prems(2) have "x = r" by simp
    with True snoc.prems(1) show ?thesis by (auto simp: learn_def)
  next
    case False
    with snoc show ?thesis by (simp add: learn_def) 
  qed
qed simp

lemma forget_all:
  "inv s \<Longrightarrow> \<exists>s'. forP forget ks s = Some (Inr (), s') \<and> inv s' \<and> own s' = own s \<and> effect s' = effect s
     \<and> contents s' = contents s |` (- set ks)"
proof (induction ks arbitrary: s)
  case Nil
  then show ?case by simp
next
  case (Cons k ks)
  from forget [OF Cons.prems] obtain s1 where s1: "forget k s = Some (Inr (), s1)" "inv s1" "own s1 = own s"
    "effect s1 = effect s" "contents s1 = (contents s)(k := None)" by blast
  have "contents s1 |` (- set ks) = contents s |` (- set (k # ks))" unfolding s1(5) by (auto simp: restrict_map_def)
  with Cons.IH [OF s1(2)] show ?case unfolding forP.simps bindP_def s1(1) by (simp add: s1(3,4))
qed

end

section \<open>The store\<close>

text \<open>A record together with the time at which it arrives.\<close>

type_synonym 'f arrival = "TimeStampT \<times> 'f ExtendedSafetyDataT"

abbreviation hear_record :: "'f fp \<Rightarrow> 'f arrival \<Rightarrow> ('f, unit) srp_action" where
  "hear_record fp r \<equiv> insert_esd_entry fp (fst r) (snd r)"

abbreviation heard_record :: "'f fp \<Rightarrow> 'f FixedMemContents \<Rightarrow> 'f arrival \<Rightarrow> 'f neighbour option \<Rightarrow> 'f neighbour" where
  "heard_record fp s r \<equiv> heard fp (gapSizeEstimatorEWMAAlphaValue (srp_global_state s)) (fst r) (snd r)"

text \<open>What the threads of the demon do to the table leaves the rest of the store as it is; \<open>g\<close> is that rest.\<close>

interpretation nbt: neighbour_map "\<lambda>s. srp_inv n sz s \<and> srp_global_state s = g" neighbours srp_get_own_node_identifier n
  "\<lambda>r. esd_nodeId (snd r)" "heard_record fp" "hear_record fp" remove_esd_entry
  for n sz :: nat and fp :: "'f fp" and g :: "'f SrpGlobalState"
proof
  fix s :: "'f FixedMemContents" and r :: "'f arrival" and k
  show "esd_nodeId (snd r) = srp_get_own_node_identifier s \<Longrightarrow> hear_record fp r s = Some (Inr (), s)"
    by (rule insert_own)
  assume i: "srp_inv n sz s \<and> srp_global_state s = g"
  then have i': "srp_inv n sz s" by simp
  have same: "srp_get_own_node_identifier s' = srp_get_own_node_identifier s"
    "heard_record fp s' = heard_record fp s" if "srp_global_state s' = srp_global_state s" for s' :: "'f FixedMemContents"
    using that by (simp_all add: srp_get_own_node_identifier_def)
  show "\<exists>s'. hear_record fp r s = Some (Inr (), s') \<and> (srp_inv n sz s' \<and> srp_global_state s' = g)
      \<and> srp_get_own_node_identifier s' = srp_get_own_node_identifier s \<and> heard_record fp s' = heard_record fp s
      \<and> neighbours s' = (neighbours s)(esd_nodeId (snd r) \<mapsto> heard_record fp s r (neighbours s (esd_nodeId (snd r))))"
    if own: "esd_nodeId (snd r) \<noteq> srp_get_own_node_identifier s"
      and room: "esd_nodeId (snd r) \<in> dom (neighbours s) \<or> card (dom (neighbours s)) < n"
  proof (cases "neighbours s (esd_nodeId (snd r))")
    case None
    then have "card (dom (neighbours s)) < n" using room by (simp add: domIff)
    from insert_new [OF i' None own this, of fp "fst r"] obtain s' where s': "hear_record fp r s = Some (Inr (), s')"
      "srp_inv n sz s'" "srp_global_state s' = srp_global_state s"
      "neighbours s' = (neighbours s)(esd_nodeId (snd r) \<mapsto> heard_record fp s r None)" by blast
    with same [OF s'(3)] i None show ?thesis by auto
  next
    case (Some nb)
    from insert_known [OF i' Some, of fp "fst r"] obtain s' where s': "hear_record fp r s = Some (Inr (), s')"
      "srp_inv n sz s'" "srp_global_state s' = srp_global_state s"
      "neighbours s' = (neighbours s)(esd_nodeId (snd r) \<mapsto> heard_record fp s r (Some nb))" by blast
    with same [OF s'(3)] i Some show ?thesis by auto
  qed
  show "esd_nodeId (snd r) \<noteq> srp_get_own_node_identifier s \<Longrightarrow> esd_nodeId (snd r) \<notin> dom (neighbours s)
    \<Longrightarrow> card (dom (neighbours s)) = n \<Longrightarrow> hear_record fp r s = Some (Inl RingBufferException, s)"
    by (rule insert_full [OF i']) (simp_all add: domIff)
  show "\<exists>s'. remove_esd_entry k s = Some (Inr (), s') \<and> (srp_inv n sz s' \<and> srp_global_state s' = g)
      \<and> srp_get_own_node_identifier s' = srp_get_own_node_identifier s \<and> heard_record fp s' = heard_record fp s
      \<and> neighbours s' = (neighbours s)(k := None)"
  proof -
    obtain s' where s': "remove_esd_entry k s = Some (Inr (), s')" "srp_inv n sz s'" "srp_global_state s' = srp_global_state s"
      "neighbours s' = (neighbours s)(k := None)" by (rule remove_ok [OF i'])
    with same [OF s'(3)] i show ?thesis by auto
  qed
  show "finite (dom (neighbours s)) \<and> card (dom (neighbours s)) \<le> n \<and> srp_get_own_node_identifier s \<notin> dom (neighbours s)"
    using neighbour_count [OF i'] neighbour_node(2) [OF i'] by auto
qed

end
