(* ===== verification/BpClient.thy ===== *)
theory BpClient
  imports BpSegment AvlOps
begin

text \<open>
  The client library of the beaconing protocol, \<open>dcp/bp/bpclient_lib.cc\<close> and
  \<open>bpclient_lib_payload.cc\<close>: how a client hands over a payload and takes received ones out
  of its queue of indications.

  A waiting receiver may wait for ever: its pops, one for each round of the loop, are an argument, each with
  what the operating system decides and the value the exit flag has afterwards.  When the last of them has timed
  out, the receiver has not returned, and the result is \<open>None\<close>.
\<close>

section \<open>Data\<close>

record BPClientRuntime =
  cl_isRegistered :: bool
  cl_static_info :: BPStaticClientInfo

text \<open>How a client reads the memory image of a \<open>BPReceivePayload_Indication\<close>.\<close>

record ind_reader =
  ind_length :: "u8 list \<Rightarrow> BPLengthT"
  ind_s_type :: "u8 list \<Rightarrow> DcpServiceType"

definition reader_ok :: "bp_layout \<Rightarrow> ind_reader \<Rightarrow> bool" where
  "reader_ok L R \<longleftrightarrow> (\<forall>l r. ind_length R (ind_image L l @ r) = l \<and> ind_s_type R (ind_image L l @ r) = stBP_ReceivePayload)"

record rx_result =
  rx_status :: DcpStatus
  rx_length :: BPLengthT
  rx_payload :: "u8 list"

type_synonym pop_attempt = "bool \<times> waiting \<times> bool"

datatype rx_mode = Waiting "pop_attempt list" | NoWait bool

definition maximumProtocolNameLength :: nat where
  "maximumProtocolNameLength = 127"

definition maxShmAreaNameLength :: nat where
  "maxShmAreaNameLength = 255"

section \<open>Names\<close>

definition check_protocol_name :: "string \<Rightarrow> dcp_error + unit" where
  "check_protocol_name protName =
     (if length protName = 0 then Inl BPClientLibException
      else if length protName > maximumProtocolNameLength - 1 then Inl BPClientLibException
      else Inr ())"

text \<open>The capacity of a string, which is at least its length, is up to the standard library.\<close>

definition check_shm_area_name :: "nat \<Rightarrow> string \<Rightarrow> dcp_error + unit" where
  "check_shm_area_name capacity shmAreaName =
     (if shmAreaName = [] then Inl BPClientLibException
      else if capacity > maxShmAreaNameLength - 1 then Inl BPClientLibException
      else Inr ())"

section \<open>Payloads\<close>

definition client_transmit_payload ::
  "bp_layout \<Rightarrow> BPClientRuntime \<Rightarrow> BPLengthT \<Rightarrow> u8 list option \<Rightarrow> bool \<Rightarrow> waiting
     \<Rightarrow> (unit \<times> BPShmControlSegment, DcpStatus) action" where
  "client_transmit_payload L cl len payload owns wait =
     bindE (throw_if BPClientLibException (\<lambda>_. \<not> cl_isRegistered cl)) (\<lambda>_.
     bindE (throw_if BPClientLibException (\<lambda>_. len = 0)) (\<lambda>_.
     bindE (throw_if BPClientLibException (\<lambda>_. payload = None)) (\<lambda>_.
     transmit_payload L len payload owns wait)))"

definition receive_handler :: "bp_layout \<Rightarrow> ind_reader \<Rightarrow> BPLengthT \<Rightarrow> rx_result PopHandler" where
  "receive_handler L R max_length msg h =
     (if ind_size L \<le> length msg then
        if ind_s_type R msg \<noteq> stBP_ReceivePayload then (Inl BPClientLibException, h)
        else if ind_length R msg = 0 then (Inl BPClientLibException, h)
        else if ind_length R msg > max_length then (Inr (), h\<lparr>rx_status := BP_STATUS_PAYLOAD_TOO_LARGE\<rparr>)
        else if unat (ind_length R msg) \<noteq> length msg - ind_size L then (Inr (), h\<lparr>rx_status := BP_STATUS_INTERNAL_ERROR\<rparr>)
        else (Inr (), h\<lparr>rx_length := ind_length R msg, rx_payload := take (unat (ind_length R msg)) (drop (ind_size L) msg)\<rparr>)
      else (Inr (), h))"

fun pop_until :: "'h PopHandler \<Rightarrow> pop_attempt list \<Rightarrow> ('h shm, bool) paction" where
  "pop_until handler [] s = None"
| "pop_until handler ((owns, wait, exitFlag) # attempts) s =
     bindP (totalP (pop_wait handler defaultShortSharedMemoryLockTimeoutMS owns wait)) (\<lambda>(timed_out, more_payloads) s.
     if \<not> exitFlag \<and> timed_out then pop_until handler attempts s else Some (Inr more_payloads, s)) s"

definition receive_payload_helper ::
  "bp_layout \<Rightarrow> ind_reader \<Rightarrow> BPClientRuntime \<Rightarrow> bool \<Rightarrow> rx_mode \<Rightarrow> (BPShmControlSegment, rx_result \<times> bool) paction" where
  "receive_payload_helper L R cl has_buffer mode cs =
     (let max_length = ci_maxPayloadSize (cl_static_info cl);
          handler = receive_handler L R max_length;
          start = (\<lparr>rx_status = BP_STATUS_OK, rx_length = 0, rx_payload = []\<rparr>, pqReceivePayloadIndication cs) in
      if \<not> cl_isRegistered cl then Some (Inl BPClientLibException, cs)
      else if max_length = 0 then Some (Inl BPClientLibException, cs)
      else if \<not> has_buffer then Some (Inl BPClientLibException, cs)
      else map_option (\<lambda>(r, (res, q)). (map_sum id (\<lambda>more_payloads. (res, more_payloads)) r, cs\<lparr>pqReceivePayloadIndication := q\<rparr>))
             (case mode of
                Waiting attempts \<Rightarrow> pop_until handler attempts start
              | NoWait owns \<Rightarrow> Some (bindE (pop_nowait handler defaultShortSharedMemoryLockTimeoutMS owns)
                                  (\<lambda>(timed_out, more_payloads). retE more_payloads) start)))"

definition receive_payload_nowait ::
  "bp_layout \<Rightarrow> ind_reader \<Rightarrow> BPClientRuntime \<Rightarrow> bool \<Rightarrow> bool \<Rightarrow> (BPShmControlSegment, rx_result \<times> bool) paction" where
  "receive_payload_nowait L R cl has_buffer owns = receive_payload_helper L R cl has_buffer (NoWait owns)"

definition receive_payload_wait ::
  "bp_layout \<Rightarrow> ind_reader \<Rightarrow> BPClientRuntime \<Rightarrow> bool \<Rightarrow> pop_attempt list \<Rightarrow> (BPShmControlSegment, rx_result \<times> bool) paction" where
  "receive_payload_wait L R cl has_buffer attempts = receive_payload_helper L R cl has_buffer (Waiting attempts)"


section \<open>Receiving\<close>

lemma short_timeout_nonzero: "defaultShortSharedMemoryLockTimeoutMS \<noteq> 0"
  by (simp add: defaultShortSharedMemoryLockTimeoutMS_def)

text \<open>An indication of the demon is taken over as a whole, or refused because the client announced a smaller size.\<close>

lemma receive_handler_ok:
  assumes "layout_ok L" "reader_ok L R" "pl \<noteq> []" "length pl \<le> unat max_length"
  shows "receive_handler L R max_length (ind_image L (of_nat (length pl)) @ pl) h
    = (Inr (), h\<lparr>rx_length := of_nat (length pl), rx_payload := pl\<rparr>)"
proof -
  have "unat max_length < 65536" using unsigned_less [of max_length, where 'a = nat] by simp
  then have n: "unat (of_nat (length pl) :: u16) = length pl" using assms(4) by (simp add: unat_of_nat take_bit_eq_mod)
  then have "(of_nat (length pl) :: u16) \<noteq> 0" "\<not> (of_nat (length pl) :: u16) > max_length"
    using assms(3,4) by (auto simp: word_less_nat_alt dest: arg_cong [where f = unat])
  with assms(1,2) n show ?thesis by (simp add: receive_handler_def layout_ok_def reader_ok_def)
qed

lemma receive_handler_too_large:
  assumes "layout_ok L" "reader_ok L R" "length pl < 65536" "unat max_length < length pl"
  shows "receive_handler L R max_length (ind_image L (of_nat (length pl)) @ pl) h
    = (Inr (), h\<lparr>rx_status := BP_STATUS_PAYLOAD_TOO_LARGE\<rparr>)"
proof -
  have n: "unat (of_nat (length pl) :: u16) = length pl" using assms(3) by (simp add: unat_of_nat take_bit_eq_mod)
  then have "(of_nat (length pl) :: u16) \<noteq> 0" "(of_nat (length pl) :: u16) > max_length"
    using assms(4) by (auto simp: word_less_nat_alt dest: arg_cong [where f = unat])
  with assms(1,2) show ?thesis by (simp add: receive_handler_def layout_ok_def reader_ok_def)
qed

definition registered :: "BPClientRuntime \<Rightarrow> bool" where
  "registered cl \<longleftrightarrow> cl_isRegistered cl \<and> ci_maxPayloadSize (cl_static_info cl) \<noteq> 0"

lemma receive_payload_wait_step:
  assumes "registered cl" "shm_ok (pqReceivePayloadIndication cs)" "shm_msgs (pqReceivePayloadIndication cs) = m # ms"
    "receive_handler L R (ci_maxPayloadSize (cl_static_info cl)) m \<lparr>rx_status = BP_STATUS_OK, rx_length = 0, rx_payload = []\<rparr> = (Inr (), res)"
  obtains q where "receive_payload_wait L R cl True ((True, wait, e) # attempts) cs
      = Some (Inr (res, ms \<noteq> []), cs\<lparr>pqReceivePayloadIndication := q\<rparr>)" "shm_ok q" "shm_msgs q = ms"
    "shape q = shape (pqReceivePayloadIndication cs)"
proof -
  let ?h = "receive_handler L R (ci_maxPayloadSize (cl_static_info cl))"
  obtain q where q: "pop_wait ?h defaultShortSharedMemoryLockTimeoutMS True wait
      (\<lparr>rx_status = BP_STATUS_OK, rx_length = 0, rx_payload = []\<rparr>, pqReceivePayloadIndication cs) = (Inr (False, ms \<noteq> []), (res, q))"
    "shm_ok q" "shm_msgs q = ms" "shape q = shape (pqReceivePayloadIndication cs)"
    by (rule pop_wait_ok [where handler = ?h and wait = wait, OF assms(2-4) short_timeout_nonzero])
  have "receive_payload_wait L R cl True ((True, wait, e) # attempts) cs
      = Some (Inr (res, ms \<noteq> []), cs\<lparr>pqReceivePayloadIndication := q\<rparr>)"
    using assms(1) q(1)
    by (simp add: receive_payload_wait_def receive_payload_helper_def registered_def Let_def bindP_def totalP_def)
  with q(2-4) that show thesis by blast
qed

lemma receive_payload_wait_ok:
  assumes "layout_ok L" "reader_ok L R" "registered cl" "shm_ok (pqReceivePayloadIndication cs)"
    "shm_msgs (pqReceivePayloadIndication cs) = (ind_image L (of_nat (length pl)) @ pl) # ms" "pl \<noteq> []"
    "length pl \<le> unat (ci_maxPayloadSize (cl_static_info cl))"
  obtains q where "receive_payload_wait L R cl True ((True, wait, e) # attempts) cs
      = Some (Inr (\<lparr>rx_status = BP_STATUS_OK, rx_length = of_nat (length pl), rx_payload = pl\<rparr>, ms \<noteq> []),
          cs\<lparr>pqReceivePayloadIndication := q\<rparr>)" "shm_ok q" "shm_msgs q = ms" "shape q = shape (pqReceivePayloadIndication cs)"
  using receive_payload_wait_step [OF assms(3-5), of L R _ wait e attempts] receive_handler_ok [OF assms(1,2,6,7)] that
  by fastforce

text \<open>Without a message the receiver keeps waiting until the exit flag is set, and then reports a payload of length 0.\<close>

lemma pop_until_idle:
  assumes "\<forall>(owns, wait, e) \<in> set as. \<not> owns \<or> (\<not> has_data q \<and> wait q = (False, q))"
  shows "pop_until handler as (h, q) = (if \<exists>(owns, wait, e) \<in> set as. e then Some (Inr False, (h, q)) else None)"
  using assms
proof (induction as)
  case (Cons a as)
  obtain owns wait e where a: "a = (owns, wait, e)" by (cases a)
  have "pop_wait handler defaultShortSharedMemoryLockTimeoutMS owns wait (h, q) = (Inr (True, False), (h, q))"
    using Cons.prems a short_timeout_nonzero by (auto simp: pop_wait_def bindE_def wait_for_def)
  with Cons a show ?case by (auto simp: bindP_def totalP_def)
qed simp

end
