(* ===== verification/SrpDemon.thy ===== *)
theory SrpDemon
  imports SrpMap BpClient
begin

text \<open>
  The demon of the state reporting protocol: its data (\<open>dcp/srp/srp_runtime_data.h\<close>), a round of
  the transmitter (\<open>srp_transmitter.cc\<close>), of the receiver (\<open>srp_receiver.cc\<close>) and of the scrubber
  (\<open>srp_scrubber.cc\<close>), and what the client library (\<open>srpclient_lib.cc\<close>) offers to applications.

  The state of a round is the data of the demon together with the segment in shared memory, over which it
  exchanges payloads with the beaconing demon.  An \<open>ExtendedSafetyDataT\<close> travels as its memory image, whose layout is a parameter, as is the
  time at which a function reads the clock.
\<close>

section \<open>Data\<close>

record 'f SRPRuntimeData =
  srp_store :: "'f FixedMemContents"
  srp_exitFlag :: bool
  srp_client :: BPClientRuntime
  srpKeepaliveTimeoutMS :: u16
  srpScrubbingTimeoutMS :: u16

record 'f esd_layout =
  esd_size :: nat
  esd_image :: "'f ExtendedSafetyDataT \<Rightarrow> u8 list"
  esd_read :: "u8 list \<Rightarrow> 'f ExtendedSafetyDataT"

definition esd_layout_ok :: "'f esd_layout \<Rightarrow> bool" where
  "esd_layout_ok E \<longleftrightarrow> 0 < esd_size E \<and> (\<forall>e. length (esd_image E e) = esd_size E) \<and> (\<forall>e r. esd_read E (esd_image E e @ r) = e)"

type_synonym 'f srp_state = "'f SRPRuntimeData \<times> BPShmControlSegment"

abbreviation on_srp_store :: "('f, 'a) srp_action \<Rightarrow> ('f srp_state, 'a) paction" where
  "on_srp_store \<equiv> zoomP (\<lambda>(rt, cs). srp_store rt) (\<lambda>s (rt, cs). (rt\<lparr>srp_store := s\<rparr>, cs))"

abbreviation on_srp_segment :: "(BPShmControlSegment, 'a) paction \<Rightarrow> ('f srp_state, 'a) paction" where
  "on_srp_segment \<equiv> zoomP snd (\<lambda>cs (rt, _). (rt, cs))"

abbreviation modify_store :: "('f FixedMemContents \<Rightarrow> 'f FixedMemContents) \<Rightarrow> 'f SRPRuntimeData \<Rightarrow> 'f SRPRuntimeData" where
  "modify_store f rt \<equiv> rt\<lparr>srp_store := f (srp_store rt)\<rparr>"

abbreviation set_srp_exit :: "'f srp_state \<Rightarrow> 'f srp_state" where
  "set_srp_exit \<equiv> \<lambda>(rt, cs). (rt\<lparr>srp_exitFlag := True\<rparr>, cs)"

text \<open>The exception handlers of the threads.\<close>

definition catching_srp :: "('f srp_state, unit) paction \<Rightarrow> 'f srp_state \<Rightarrow> 'f srp_state option" where
  "catching_srp m s = map_option (\<lambda>(r, s'). case r of Inl e \<Rightarrow> set_srp_exit s' | Inr _ \<Rightarrow> s') (m s)"

section \<open>Transmitter\<close>

definition own_record :: "TimeStampT \<Rightarrow> 'f FixedMemContents \<Rightarrow> 'f ExtendedSafetyDataT" where
  "own_record stamp s = \<lparr>safetyData = get_own_safety_data s, esd_nodeId = srp_get_own_node_identifier s, esd_timeStamp = stamp,
     esd_seqno = get_own_sequence_number s\<rparr>"

text \<open>\<open>curr_time\<close> and \<open>stamp\<close> are the times of the two readings of the clock.\<close>

definition srp_transmitter_round ::
  "bp_layout \<Rightarrow> 'f esd_layout \<Rightarrow> TimeStampT \<Rightarrow> TimeStampT \<Rightarrow> bool \<Rightarrow> waiting \<Rightarrow> 'f srp_state \<Rightarrow> 'f srp_state" where
  "srp_transmitter_round L E curr_time stamp owns wait = (\<lambda>(rt, cs).
     let store = srp_store rt in
     if \<not> get_srp_isactive store then (rt, cs)
     else if \<not> get_own_safety_data_written_flag store then (rt, cs)
     else if unat (milliseconds_passed_since curr_time (get_own_safety_data_timestamp store)) \<ge> unat (srpKeepaliveTimeoutMS rt)
       then (modify_store (set_own_safety_data_written_flag False) rt, cs)
     else
       (let esd = own_record stamp store;
            pld_buffer = req_image L BP_PROTID_SRP (of_nat (esd_size E)) @ esd_image E esd;
            rt = modify_store (set_own_sequence_number (esd_seqno esd + 1)) rt in
        case transmit_payload L (of_nat (req_size L + esd_size E)) (Some pld_buffer) owns wait ((), cs) of
          (Inl e, (_, cs)) \<Rightarrow> set_srp_exit (rt, cs)
        | (Inr retval, (_, cs)) \<Rightarrow> if retval \<noteq> BP_STATUS_OK then set_srp_exit (rt, cs) else (rt, cs)))"

section \<open>Receiver\<close>

definition process_received :: "'f fp \<Rightarrow> 'f esd_layout \<Rightarrow> TimeStampT \<Rightarrow> rx_result \<Rightarrow> ('f, unit) srp_action" where
  "process_received fp E now res s =
     (if rx_status res = BP_STATUS_OK \<and> unat (rx_length res) = esd_size E then
        (let esd = esd_read E (rx_payload res) in
         if esd_nodeId esd = srp_get_own_node_identifier s then Some (Inr (), s)
         else insert_esd_entry fp now esd s)
      else Some (Inr (), s))"

text \<open>The loop over the payloads that are there: for each, the pops while the thread waits, and the time at which the
  payload is processed.  Without a further element the thread still waits.\<close>

fun receive_payloads ::
  "bp_layout \<Rightarrow> ind_reader \<Rightarrow> 'f esd_layout \<Rightarrow> 'f fp \<Rightarrow> (pop_attempt list \<times> TimeStampT) list \<Rightarrow> ('f srp_state, unit) paction" where
  "receive_payloads L R E fp [] s = None"
| "receive_payloads L R E fp ((attempts, now) # rounds) s =
     bindP (on_srp_segment (receive_payload_wait L R (srp_client (fst s)) True attempts)) (\<lambda>(res, more_payloads).
     bindP (on_srp_store (process_received fp E now res)) (\<lambda>_.
     if more_payloads then receive_payloads L R E fp rounds else retP ())) s"

definition srp_receiver_round ::
  "bp_layout \<Rightarrow> ind_reader \<Rightarrow> 'f esd_layout \<Rightarrow> 'f fp \<Rightarrow> (pop_attempt list \<times> TimeStampT) list \<Rightarrow> 'f srp_state \<Rightarrow> 'f srp_state option" where
  "srp_receiver_round L R E fp rounds s =
     (if \<not> get_srp_isactive (srp_store (fst s)) then Some s
      else catching_srp (receive_payloads L R E fp rounds) s)"

section \<open>Scrubber\<close>

definition srp_scrubber_round :: "TimeStampT \<Rightarrow> 'f srp_state \<Rightarrow> 'f srp_state option" where
  "srp_scrubber_round current_time s =
     (if \<not> get_srp_isactive (srp_store (fst s)) then Some s
      else Option.bind (find_nodes_to_scrub current_time (srpScrubbingTimeoutMS (fst s)) (srp_store (fst s))) (\<lambda>nodes_to_remove.
           catching_srp (on_srp_store (forP remove_esd_entry nodes_to_remove)) s))"

section \<open>Applications\<close>

definition client_set_own_safety_data :: "TimeStampT \<Rightarrow> 'f SafetyDataT \<Rightarrow> 'f srp_state \<Rightarrow> 'f srp_state" where
  "client_set_own_safety_data now sd = (\<lambda>(rt, cs). (modify_store (set_own_safety_data now sd) rt, cs))"

definition get_all_neighbours_node_information :: "'f FixedMemContents \<Rightarrow> 'f NodeInformation list option" where
  "get_all_neighbours_node_information = list_matching_node_information (\<lambda>_. True)"

definition get_matching_neighbours_node_information ::
  "('f ExtendedSafetyDataT \<Rightarrow> bool) \<Rightarrow> 'f FixedMemContents \<Rightarrow> 'f NodeInformation list option" where
  "get_matching_neighbours_node_information = list_matching_node_information"

text \<open>The activity flag is in the shared memory, where a process may change it.\<close>

definition change_srp_active :: "bool \<Rightarrow> 'f srp_state \<Rightarrow> 'f srp_state" where
  "change_srp_active active = (\<lambda>(rt, cs). (modify_store (set_srp_isactive active) rt, cs))"

section \<open>Steps of the demon\<close>

text \<open>The threads of the demon, as long as the exit flag is not set, and its environment: applications, and the beaconing demon,
  which changes the segment.\<close>

inductive srp_step :: "bp_layout \<Rightarrow> ind_reader \<Rightarrow> 'f esd_layout \<Rightarrow> 'f fp \<Rightarrow> 'f srp_state \<Rightarrow> 'f srp_state \<Rightarrow> bool"
  for L :: bp_layout and R :: ind_reader and E :: "'f esd_layout" and fp :: "'f fp" where
  transmits: "\<not> srp_exitFlag rt \<Longrightarrow> srp_step L R E fp (rt, cs) (srp_transmitter_round L E now stamp owns wait (rt, cs))"
| receives: "\<not> srp_exitFlag rt \<Longrightarrow> srp_receiver_round L R E fp rounds (rt, cs) = Some s'
    \<Longrightarrow> srp_step L R E fp (rt, cs) s'"
| scrubs: "\<not> srp_exitFlag rt \<Longrightarrow> srp_scrubber_round now (rt, cs) = Some s' \<Longrightarrow> srp_step L R E fp (rt, cs) s'"
| application_writes: "srp_step L R E fp s (client_set_own_safety_data now sd s)"
| activity: "srp_step L R E fp s (change_srp_active active s)"
| beaconing: "srp_step L R E fp (rt, cs) (rt, cs')"

inductive_cases srp_stepE: "srp_step L R E fp s s'"

end
