(* ===== verification/SrpRounds.thy ===== *)
theory SrpRounds
  imports SrpDemon BpFaults
begin

text \<open>What a round of each thread of the state reporting protocol does.\<close>

section \<open>The segment\<close>

text \<open>The demon registers for payloads of the size of its records, of which only the latest is kept.\<close>

definition srp_link :: "bp_layout \<Rightarrow> 'f esd_layout \<Rightarrow> BPShmControlSegment \<Rightarrow> bool" where
  "srp_link L E cs \<longleftrightarrow> ci_queueingMode (static_client_info cs) = BP_QMODE_ONCE
     \<and> ci_maxPayloadSize (static_client_info cs) = of_nat (esd_size E)
     \<and> req_size L + esd_size E \<le> bufferSize (cs_buffer cs) \<and> req_size L + esd_size E < 65536"

abbreviation srp_message :: "bp_layout \<Rightarrow> 'f esd_layout \<Rightarrow> 'f ExtendedSafetyDataT \<Rightarrow> u8 list" where
  "srp_message L E esd \<equiv> req_image L BP_PROTID_SRP (of_nat (esd_size E)) @ esd_image E esd"

abbreviation srp_length :: "bp_layout \<Rightarrow> 'f esd_layout \<Rightarrow> BPLengthT" where
  "srp_length L E \<equiv> of_nat (req_size L + esd_size E)"

lemma transmit_once:
  assumes "layout_ok L" "esd_layout_ok E" "srp_link L E cs"
  shows "transmit_payload L (srp_length L E) (Some (srp_message L E esd)) owns wait ((), cs)
    = bindE reset_buffer (\<lambda>_. bindE (on_cs_buffer (push_wait (copy_payload (srp_message L E esd)) defaultLongSharedMemoryLockTimeoutMS owns wait))
        (\<lambda>timed_out. retE (if timed_out then BP_STATUS_INTERNAL_SHARED_MEMORY_ERROR else BP_STATUS_OK))) ((), cs)"
proof -
  have l: "length (srp_message L E esd) = req_size L + esd_size E" using assms(1,2) by (simp add: layout_ok_def esd_layout_ok_def)
  have n: "unat (srp_length L E) = req_size L + esd_size E"
    using assms(3) by (simp add: srp_link_def unat_of_nat take_bit_eq_mod del: of_nat_add)
  have "0 < req_size L + esd_size E" using assms(2) by (simp add: esd_layout_ok_def)
  then have "srp_length L E \<noteq> 0" using n by (metis less_irrefl unat_0)
  moreover have "\<not> srp_length L E > ci_maxPayloadSize (static_client_info cs) + of_nat (req_size L)"
    using assms(3) by (simp add: srp_link_def add.commute)
  moreover have "take (unat (srp_length L E)) (srp_message L E esd) = srp_message L E esd" by (simp only: n l take_all order_refl)
  ultimately show ?thesis
    using assms(3) by (simp add: transmit_payload_def transmit_payload_handler_def srp_link_def Let_def del: of_nat_add)
qed

lemma transmit_ok:
  assumes "layout_ok L" "esd_layout_ok E" "srp_link L E cs" "shm_ok (cs_buffer cs)" "shm_msgs (cs_buffer cs) = []"
  obtains b where "transmit_payload L (srp_length L E) (Some (srp_message L E esd)) True wait ((), cs)
      = (Inr BP_STATUS_OK, ((), cs\<lparr>cs_buffer := b\<rparr>))"
    "shm_ok b" "shm_msgs b = [srp_message L E esd]" "shape b = shape (cs_buffer cs)"
proof -
  obtain q where q: "shm_reset (cs_buffer cs) = (Inr (), q)" "holds [] q" "shm_msgs q = []" "length (free q) = numberBuffers q"
    "has_data q = (shm_msgs (cs_buffer cs) \<noteq> [])" "shape q = shape (cs_buffer cs)" by (rule shm_reset_ok [OF assms(4)])
  have "magicNo q = defaultMagicNo" using q(6) assms(4) by (simp add: shape_def shm_ok_def)
  then have ok: "shm_ok q" using q(2-5) assms(5) by (simp add: shm_ok_def shm_msgs_def)
  have "length (srp_message L E esd) \<le> bufferSize q"
    using assms(1-3) q(6) by (simp add: layout_ok_def esd_layout_ok_def srp_link_def shape_def)
  note w = writes_copy_payload [OF this]
  have "srp_message L E esd \<noteq> []" using assms(2) by (auto simp: esd_layout_ok_def dest: arg_cong [where f = length])
  from push_wait_ok [OF ok w this q(3) timeout_nonzero, of wait] obtain b where
    b: "push_wait (copy_payload (srp_message L E esd)) defaultLongSharedMemoryLockTimeoutMS True wait ((), q) = (Inr False, ((), b))"
    "shm_ok b" "shm_msgs b = [srp_message L E esd]" "shape b = shape q" by blast
  show thesis
  proof (rule that [OF _ b(2,3)])
    show "transmit_payload L (srp_length L E) (Some (srp_message L E esd)) True wait ((), cs) = (Inr BP_STATUS_OK, ((), cs\<lparr>cs_buffer := b\<rparr>))"
      unfolding transmit_once [OF assms(1-3)] using q(1) b(1) by (simp add: bindE_def reset_buffer_def zoomE_def)
    show "shape b = shape (cs_buffer cs)" using b(4) q(6) by simp
  qed
qed

text \<open>While a record has not been sent yet, the next one does not replace it.\<close>

lemma transmit_blocked:
  assumes "layout_ok L" "esd_layout_ok E" "srp_link L E cs" "shm_ok (cs_buffer cs)" "shm_msgs (cs_buffer cs) \<noteq> []"
  obtains b where "transmit_payload L (srp_length L E) (Some (srp_message L E esd)) True (\<lambda>q. (False, q)) ((), cs)
      = (Inr BP_STATUS_INTERNAL_SHARED_MEMORY_ERROR, ((), cs\<lparr>cs_buffer := b\<rparr>))"
    "shm_reset (cs_buffer cs) = (Inr (), b)"
proof -
  obtain q where q: "shm_reset (cs_buffer cs) = (Inr (), q)" "has_data q = (shm_msgs (cs_buffer cs) \<noteq> [])"
    by (rule shm_reset_ok [OF assms(4)])
  have "push_wait (copy_payload (srp_message L E esd)) defaultLongSharedMemoryLockTimeoutMS True (\<lambda>q. (False, q)) ((), q) = (Inr True, ((), q))"
    by (rule push_wait_blocked) (use q(2) assms(5) timeout_nonzero in simp_all)
  then have "transmit_payload L (srp_length L E) (Some (srp_message L E esd)) True (\<lambda>q. (False, q)) ((), cs)
      = (Inr BP_STATUS_INTERNAL_SHARED_MEMORY_ERROR, ((), cs\<lparr>cs_buffer := q\<rparr>))"
    unfolding transmit_once [OF assms(1-3)] using q(1) by (simp add: bindE_def reset_buffer_def zoomE_def)
  then show thesis using q(1) by (rule that)
qed

section \<open>The transmitter\<close>

definition sends_now :: "TimeStampT \<Rightarrow> 'f SRPRuntimeData \<Rightarrow> bool" where
  "sends_now now rt \<longleftrightarrow> get_srp_isactive (srp_store rt) \<and> get_own_safety_data_written_flag (srp_store rt)
     \<and> unat (milliseconds_passed_since now (get_own_safety_data_timestamp (srp_store rt))) < unat (srpKeepaliveTimeoutMS rt)"

abbreviation count_record :: "'f SRPRuntimeData \<Rightarrow> 'f SRPRuntimeData" where
  "count_record rt \<equiv> modify_store (set_own_sequence_number (get_own_sequence_number (srp_store rt) + 1)) rt"

lemma transmitter_round_sends:
  assumes "sends_now now rt"
  shows "srp_transmitter_round L E now stamp owns wait (rt, cs)
    = (case transmit_payload L (srp_length L E) (Some (srp_message L E (own_record stamp (srp_store rt)))) owns wait ((), cs) of
         (Inl e, (_, cs)) \<Rightarrow> set_srp_exit (count_record rt, cs)
       | (Inr retval, (_, cs)) \<Rightarrow> if retval \<noteq> BP_STATUS_OK then set_srp_exit (count_record rt, cs) else (count_record rt, cs))"
proof -
  have "esd_seqno (own_record stamp (srp_store rt)) = get_own_sequence_number (srp_store rt)" by (simp add: own_record_def)
  with assms show ?thesis unfolding srp_transmitter_round_def sends_now_def Let_def prod.case by (simp only: not_less [symmetric] simp_thms if_False if_True)
qed

lemma transmitter_round_silent:
  assumes "\<not> sends_now now rt"
  shows "srp_transmitter_round L E now stamp owns wait (rt, cs)
    = (if get_srp_isactive (srp_store rt) \<and> get_own_safety_data_written_flag (srp_store rt)
       then modify_store (set_own_safety_data_written_flag False) rt else rt, cs)"
  using assms unfolding sends_now_def by (auto simp: srp_transmitter_round_def Let_def not_less)


section \<open>The receiver\<close>

definition srp_listens :: "'f esd_layout \<Rightarrow> 'f SRPRuntimeData \<Rightarrow> bool" where
  "srp_listens E rt \<longleftrightarrow> registered (srp_client rt) \<and> esd_size E < 65536
     \<and> ci_maxPayloadSize (cl_static_info (srp_client rt)) = of_nat (esd_size E)"

abbreviation srp_indication :: "bp_layout \<Rightarrow> 'f esd_layout \<Rightarrow> 'f ExtendedSafetyDataT \<Rightarrow> u8 list" where
  "srp_indication L E esd \<equiv> ind_image L (of_nat (esd_size E)) @ esd_image E esd"

lemma receives_record:
  assumes "layout_ok L" "reader_ok L R" "esd_layout_ok E" "srp_listens E rt" "shm_ok (pqReceivePayloadIndication cs)"
    "shm_msgs (pqReceivePayloadIndication cs) = srp_indication L E esd # ms"
  obtains q where "receive_payloads L R E fp (((True, wait, e) # attempts, now) # rounds) (rt, cs)
      = bindP (on_srp_store (insert_esd_entry fp now esd)) (\<lambda>_. if ms \<noteq> [] then receive_payloads L R E fp rounds else retP ())
          (rt, cs\<lparr>pqReceivePayloadIndication := q\<rparr>)"
    "shm_ok q" "shm_msgs q = ms" "shape q = shape (pqReceivePayloadIndication cs)"
proof -
  let ?pl = "esd_image E esd"
  have l: "length ?pl = esd_size E" "?pl \<noteq> []" "esd_read E ?pl = esd"
    using assms(3) unfolding esd_layout_ok_def by (auto dest!: spec [of _ esd] spec [of _ "[]"] dest: arg_cong [where f = length])
  have n: "unat (of_nat (esd_size E) :: u16) = esd_size E" using assms(4) by (simp add: srp_listens_def unat_of_nat take_bit_eq_mod)
  have r: "registered (srp_client rt)" "length ?pl \<le> unat (ci_maxPayloadSize (cl_static_info (srp_client rt)))"
    using assms(4) l(1) n by (simp_all add: srp_listens_def)
  have m: "shm_msgs (pqReceivePayloadIndication cs) = (ind_image L (of_nat (length ?pl)) @ ?pl) # ms" using assms(6) l(1) by simp
  obtain q where q: "receive_payload_wait L R (srp_client rt) True ((True, wait, e) # attempts) cs
      = Some (Inr (\<lparr>rx_status = BP_STATUS_OK, rx_length = of_nat (length ?pl), rx_payload = ?pl\<rparr>, ms \<noteq> []),
          cs\<lparr>pqReceivePayloadIndication := q\<rparr>)" "shm_ok q" "shm_msgs q = ms" "shape q = shape (pqReceivePayloadIndication cs)"
    by (rule receive_payload_wait_ok [OF assms(1,2) r(1) assms(5) m l(2) r(2)])
  have p: "process_received fp E now \<lparr>rx_status = BP_STATUS_OK, rx_length = of_nat (length ?pl), rx_payload = ?pl\<rparr>
      = insert_esd_entry fp now esd"
    by (rule ext) (simp add: process_received_def l n insert_own)
  show thesis
    by (rule that [OF _ q(2-4)]) (simp add: zoomP_def [of snd] q(1) bindP_def [of "on_srp_segment _"] p)
qed

lemma srp_receiver_round_ok:
  assumes "layout_ok L" "reader_ok L R" "esd_layout_ok E" "srp_listens E rt" "shm_ok (pqReceivePayloadIndication cs)"
    "shm_msgs (pqReceivePayloadIndication cs) = [srp_indication L E esd]" "get_srp_isactive (srp_store rt)"
    "srp_inv n sz (srp_store rt)" "esd_nodeId esd \<noteq> srp_get_own_node_identifier (srp_store rt)"
    "esd_nodeId esd \<in> dom (neighbours (srp_store rt)) \<or> card (dom (neighbours (srp_store rt))) < n"
  obtains s q where "srp_receiver_round L R E fp [((True, wait, e) # attempts, now)] (rt, cs)
      = Some (rt\<lparr>srp_store := s\<rparr>, cs\<lparr>pqReceivePayloadIndication := q\<rparr>)"
    "srp_inv n sz s" "srp_global_state s = srp_global_state (srp_store rt)"
    "neighbours s = (neighbours (srp_store rt))(esd_nodeId esd \<mapsto> heard_record fp (srp_store rt) (now, esd) (neighbours (srp_store rt) (esd_nodeId esd)))"
    "shm_ok q" "shm_msgs q = []"
proof -
  obtain q where q: "receive_payloads L R E fp [((True, wait, e) # attempts, now)] (rt, cs)
      = bindP (on_srp_store (insert_esd_entry fp now esd)) (\<lambda>_. if ([] :: u8 list list) \<noteq> [] then receive_payloads L R E fp [] else retP ())
          (rt, cs\<lparr>pqReceivePayloadIndication := q\<rparr>)"
    "shm_ok q" "shm_msgs q = []" by (rule receives_record [OF assms(1-6)])
  obtain s where s: "insert_esd_entry fp now esd (srp_store rt) = Some (Inr (), s)" "srp_inv n sz s"
    "srp_global_state s = srp_global_state (srp_store rt)"
    "neighbours s = (neighbours (srp_store rt))(esd_nodeId esd \<mapsto> heard_record fp (srp_store rt) (now, esd) (neighbours (srp_store rt) (esd_nodeId esd)))"
    using nbt.hear [of n sz "srp_store rt" "srp_global_state (srp_store rt)" "(now, esd)" fp] assms(8-10) by auto
  show thesis
    by (rule that [OF _ s(2-4) q(2,3)]) (use assms(7) q(1) s(1) in \<open>simp add: srp_receiver_round_def catching_srp_def bindP_def zoomP_def totalP_def\<close>)
qed

text \<open>One node too many: the receiver ends the demon.\<close>

lemma receiver_round_full:
  assumes "layout_ok L" "reader_ok L R" "esd_layout_ok E" "srp_listens E rt" "shm_ok (pqReceivePayloadIndication cs)"
    "shm_msgs (pqReceivePayloadIndication cs) = srp_indication L E esd # ms" "get_srp_isactive (srp_store rt)"
    "srp_inv n sz (srp_store rt)" "esd_nodeId esd \<noteq> srp_get_own_node_identifier (srp_store rt)"
    "esd_nodeId esd \<notin> dom (neighbours (srp_store rt))" "card (dom (neighbours (srp_store rt))) = n"
  obtains q where "srp_receiver_round L R E fp (((True, wait, e) # attempts, now) # rounds) (rt, cs)
      = Some (rt\<lparr>srp_exitFlag := True\<rparr>, cs\<lparr>pqReceivePayloadIndication := q\<rparr>)"
    "shm_ok q" "shm_msgs q = ms"
proof -
  obtain q where q: "receive_payloads L R E fp (((True, wait, e) # attempts, now) # rounds) (rt, cs)
      = bindP (on_srp_store (insert_esd_entry fp now esd)) (\<lambda>_. if ms \<noteq> [] then receive_payloads L R E fp rounds else retP ())
          (rt, cs\<lparr>pqReceivePayloadIndication := q\<rparr>)"
    "shm_ok q" "shm_msgs q = ms" by (rule receives_record [OF assms(1-6)])
  have "neighbours (srp_store rt) (esd_nodeId esd) = None" using assms(10) by (simp add: domIff)
  note f = insert_full [OF assms(8) this assms(9,11), of fp now]
  show thesis
    by (rule that [OF _ q(2,3)]) (use assms(7) q(1) f in \<open>simp add: srp_receiver_round_def catching_srp_def bindP_def zoomP_def\<close>)
qed

section \<open>The scrubber\<close>

definition expired :: "TimeStampT \<Rightarrow> u16 \<Rightarrow> 'f neighbour \<Rightarrow> bool" where
  "expired now timeoutMS nb \<longleftrightarrow> unat timeoutMS \<le> unat (milliseconds_passed_since now (nb_last_received nb))"

lemma scrubber_round_ok:
  assumes "srp_inv n sz (srp_store rt)" "get_srp_isactive (srp_store rt)"
  obtains s where "srp_scrubber_round now (rt, cs) = Some (rt\<lparr>srp_store := s\<rparr>, cs)" "srp_inv n sz s"
    "srp_global_state s = srp_global_state (srp_store rt)"
    "neighbours s = (\<lambda>k. case neighbours (srp_store rt) k of None \<Rightarrow> None
       | Some nb \<Rightarrow> if expired now (srpScrubbingTimeoutMS rt) nb then None else Some nb)"
proof -
  obtain ks where ks: "find_nodes_to_scrub now (srpScrubbingTimeoutMS rt) (srp_store rt) = Some ks"
    "set ks = {k. \<exists>nb. neighbours (srp_store rt) k = Some nb \<and> expired now (srpScrubbingTimeoutMS rt) nb}"
    by (rule find_nodes_to_scrub_ok [OF assms(1), of now "srpScrubbingTimeoutMS rt"]) (simp add: expired_def)
  obtain s where s: "forP remove_esd_entry ks (srp_store rt) = Some (Inr (), s)" "srp_inv n sz s"
    "srp_global_state s = srp_global_state (srp_store rt)" "neighbours s = neighbours (srp_store rt) |` (- set ks)"
    using nbt.forget_all [of n sz "srp_store rt" "srp_global_state (srp_store rt)" ks] assms(1) by auto
  have "neighbours s = (\<lambda>k. case neighbours (srp_store rt) k of None \<Rightarrow> None
       | Some nb \<Rightarrow> if expired now (srpScrubbingTimeoutMS rt) nb then None else Some nb)"
    unfolding s(4) ks(2) by (auto simp: restrict_map_def fun_eq_iff split: option.split)
  moreover have "srp_scrubber_round now (rt, cs) = Some (rt\<lparr>srp_store := s\<rparr>, cs)"
    using assms(2) ks(1) s(1) by (simp add: srp_scrubber_round_def catching_srp_def zoomP_def)
  ultimately show thesis using s(2,3) that by blast
qed

end
