(* ===== verification/SrpInvariant.thy ===== *)
theory SrpInvariant
  imports SrpRounds
begin

text \<open>
  The invariant of the store holds in every state that the demon of the state reporting protocol reaches, and
  its rounds return.
\<close>

section \<open>Operations\<close>

lemma srp_inv_global [simp]:
  assumes "srp_ownNodeIdentifier g = srp_ownNodeIdentifier (srp_global_state s)"
  shows "srp_inv n sz (s\<lparr>srp_global_state := g\<rparr>) = srp_inv n sz s"
  using assms by (simp add: srp_inv_def free_offs_def srp_get_own_node_identifier_def)

lemma setters_inv [simp]:
  "srp_inv n sz (set_srp_isactive a s) = srp_inv n sz s"
  "srp_inv n sz (set_own_sequence_number sn s) = srp_inv n sz s"
  "srp_inv n sz (set_own_safety_data now sd s) = srp_inv n sz s"
  "srp_inv n sz (set_own_safety_data_written_flag fl s) = srp_inv n sz s"
  by (simp_all add: set_srp_isactive_def set_own_sequence_number_def set_own_safety_data_def set_own_safety_data_written_flag_def)

lemma insert_total:
  assumes "srp_inv n sz s"
  obtains r s' where "insert_esd_entry fp now esd s = Some (r, s')" "srp_inv n sz s'"
proof -
  consider "esd_nodeId esd = srp_get_own_node_identifier s"
    | "esd_nodeId esd \<noteq> srp_get_own_node_identifier s" "esd_nodeId esd \<in> dom (neighbours s) \<or> card (dom (neighbours s)) < n"
    | "esd_nodeId esd \<noteq> srp_get_own_node_identifier s" "esd_nodeId esd \<notin> dom (neighbours s)" "card (dom (neighbours s)) = n"
    using neighbour_count(3) [OF assms] by linarith
  then show thesis
  proof cases
    case 1 then show ?thesis using insert_own that assms by blast
  next
    case 2
    with nbt.hear [of n sz s "srp_global_state s" "(now, esd)" fp] assms that show ?thesis by auto
  next
    case 3
    then have "neighbours s (esd_nodeId esd) = None" by (simp add: domIff)
    from insert_full [OF assms this 3(1,3)] assms that show ?thesis by blast
  qed
qed

lemma process_received_total:
  assumes "srp_inv n sz s"
  obtains r s' where "process_received fp E now res s = Some (r, s')" "srp_inv n sz s'"
proof -
  obtain r s' where i: "insert_esd_entry fp now (esd_read E (rx_payload res)) s = Some (r, s')" "srp_inv n sz s'"
    by (rule insert_total [OF assms])
  have "process_received fp E now res s \<in> {Some (r, s'), Some (Inr (), s)}" using i(1) by (simp add: process_received_def Let_def)
  with i(2) assms that show thesis by blast
qed

section \<open>Rounds\<close>

lemma receive_payloads_inv:
  "srp_inv n sz (srp_store rt) \<Longrightarrow> receive_payloads L R E fp rounds (rt, cs) = Some (r, (rt', cs')) \<Longrightarrow> srp_inv n sz (srp_store rt')"
proof (induction rounds arbitrary: rt cs)
  case (Cons x rounds)
  obtain attempts now where x: "x = (attempts, now)" by (cases x)
  let ?w = "receive_payload_wait L R (srp_client rt) True attempts cs"
  show ?case
  proof (cases ?w)
    case None
    with Cons.prems(2) x show ?thesis by (simp add: bindP_def zoomP_def [of snd])
  next
    case (Some a)
    obtain w cs1 where a: "a = (w, cs1)" by (cases a)
    show ?thesis
    proof (cases w)
      case (Inl ex)
      with Cons.prems x Some a show ?thesis by (auto simp: bindP_def zoomP_def [of snd])
    next
      case (Inr y)
      obtain res more where y: "y = (res, more)" by (cases y)
      obtain p s1 where p: "process_received fp E now res (srp_store rt) = Some (p, s1)" "srp_inv n sz s1"
        by (rule process_received_total [OF Cons.prems(1)])
      have "bindP (on_srp_store (process_received fp E now res)) (\<lambda>_. if more then receive_payloads L R E fp rounds else retP ()) (rt, cs1)
          = Some (r, (rt', cs'))"
        using Cons.prems(2) x Some a Inr y by (simp add: bindP_def [of "on_srp_segment _"] zoomP_def [of snd])
      then have f: "(case p of Inl e \<Rightarrow> Some (Inl e, (rt\<lparr>srp_store := s1\<rparr>, cs1))
          | Inr _ \<Rightarrow> (if more then receive_payloads L R E fp rounds else retP ()) (rt\<lparr>srp_store := s1\<rparr>, cs1)) = Some (r, (rt', cs'))"
        using p(1) by (simp add: bindP_def zoomP_def)
      show ?thesis
      proof (cases "more \<and> \<not> isl p")
        case True
        then have "receive_payloads L R E fp rounds (rt\<lparr>srp_store := s1\<rparr>, cs1) = Some (r, (rt', cs'))"
          using f by (cases p) simp_all
        with Cons.IH [of "rt\<lparr>srp_store := s1\<rparr>"] p(2) show ?thesis by simp
      next
        case False
        with f p(2) show ?thesis by (cases p) (auto simp: totalP_def)
      qed
    qed
  qed
qed simp

lemma receiver_round_inv:
  assumes "srp_inv n sz (srp_store rt)" "srp_receiver_round L R E fp rounds (rt, cs) = Some (rt', cs')"
  shows "srp_inv n sz (srp_store rt')"
proof (cases "get_srp_isactive (srp_store rt)")
  case True
  with assms(2) obtain r rt1 cs1 where r: "receive_payloads L R E fp rounds (rt, cs) = Some (r, (rt1, cs1))"
    "(rt', cs') = (case r of Inl e \<Rightarrow> set_srp_exit (rt1, cs1) | Inr _ \<Rightarrow> (rt1, cs1))"
    by (auto simp: srp_receiver_round_def catching_srp_def)
  with receive_payloads_inv [OF assms(1) r(1)] show ?thesis by (cases r) auto
next
  case False
  with assms show ?thesis by (simp add: srp_receiver_round_def)
qed

lemma scrubber_round_inv:
  assumes "srp_inv n sz (srp_store rt)" "srp_scrubber_round now (rt, cs) = Some (rt', cs')"
  shows "srp_inv n sz (srp_store rt')"
proof (cases "get_srp_isactive (srp_store rt)")
  case True
  obtain s where s: "srp_scrubber_round now (rt, cs) = Some (rt\<lparr>srp_store := s\<rparr>, cs)" "srp_inv n sz s"
    by (rule scrubber_round_ok [OF assms(1) True])
  have "rt' = rt\<lparr>srp_store := s\<rparr>" using s(1) assms(2) by simp
  with s(2) show ?thesis by simp
next
  case False
  with assms show ?thesis by (simp add: srp_scrubber_round_def)
qed

lemma transmitter_round_inv:
  assumes "srp_inv n sz (srp_store rt)" "srp_transmitter_round L E now stamp owns wait (rt, cs) = (rt', cs')"
  shows "srp_inv n sz (srp_store rt')"
proof (cases "sends_now now rt")
  case True
  obtain r u cs1 where t: "transmit_payload L (srp_length L E) (Some (srp_message L E (own_record stamp (srp_store rt)))) owns wait ((), cs)
      = (r, (u, cs1))" by (metis surj_pair)
  have "srp_transmitter_round L E now stamp owns wait (rt, cs)
      \<in> {(count_record rt, cs1), ((count_record rt)\<lparr>srp_exitFlag := True\<rparr>, cs1)}"
    unfolding transmitter_round_sends [OF True] t by (cases r) simp_all
  then have "rt' = count_record rt \<or> rt' = (count_record rt)\<lparr>srp_exitFlag := True\<rparr>" unfolding assms(2) by blast
  then show ?thesis by (rule disjE) (simp_all add: assms(1))
next
  case False
  with transmitter_round_silent [OF False, of L E stamp owns wait cs] assms show ?thesis by (auto split: if_splits)
qed

section \<open>Reachable states\<close>

theorem srp_step_inv:
  assumes "srp_step L R E fp s s'" "srp_inv n sz (srp_store (fst s))"
  shows "srp_inv n sz (srp_store (fst s'))"
  using assms
proof (cases rule: srp_step.cases)
  case (transmits rt cs now stamp owns wait)
  obtain rt' cs' where r: "srp_transmitter_round L E now stamp owns wait (rt, cs) = (rt', cs')" by fastforce
  from transmitter_round_inv [OF _ r] assms(2) transmits r show ?thesis by simp
next
  case (receives rt rounds cs)
  obtain rt' cs' where r: "s' = (rt', cs')" by (cases s')
  from receiver_round_inv [of n sz rt] assms(2) receives r show ?thesis by simp
next
  case (scrubs rt now cs)
  obtain rt' cs' where r: "s' = (rt', cs')" by (cases s')
  from scrubber_round_inv [of n sz rt] assms(2) scrubs r show ?thesis by simp
next
  case (application_writes now sd)
  with assms(2) show ?thesis by (cases s) (simp add: client_set_own_safety_data_def)
next
  case (activity active)
  with assms(2) show ?thesis by (cases s) (simp add: change_srp_active_def)
qed simp

lemma srp_run_inv:
  assumes "(srp_step L R E fp)\<^sup>*\<^sup>* s s'" "srp_inv n sz (srp_store (fst s))"
  shows "srp_inv n sz (srp_store (fst s'))"
  using assms by (induction rule: rtranclp_induct) (auto intro: srp_step_inv)

section \<open>Return\<close>

lemma pop_head_throws:
  assumes "shm_ok q" "shm_msgs q = m # ms" "handler m h = (Inl e, h')"
  obtains q' where "pop_head handler (h, q) = (Inl e, (h', q'))"
proof -
  have q: "holds [] q" using assms(1) by (auto elim: shm_okE)
  have "queued q \<noteq> []" using assms(2) by (auto simp: shm_msgs_def)
  from take_queued [OF q this] obtain d r where d: "\<And>h. on_queue rb_pop (h :: 'a, q) = (Inr d, (h, q\<lparr>shm_queue := r\<rparr>))"
    "queued q = d # rb_elems r" by blast
  have "mem_read (buffer_space q) (d_offs d) (d_len d) = m" using assms(2) d(2) by (simp add: shm_msgs_def)
  then have "pop_head handler (h, q) = (Inl e, (h', q\<lparr>shm_queue := r\<rparr>))"
    using d(1) assms(3) by (simp add: pop_head_def drain_buffer_def bindE_def call_pop_handler_def)
  then show thesis by (rule that)
qed

lemma pop_step_returns:
  assumes "shm_ok (pqReceivePayloadIndication cs)" "shm_msgs (pqReceivePayloadIndication cs) = m # ms"
  obtains (throws) ex cs' where "receive_payload_wait L R cl True ((True, wait, e) # attempts) cs = Some (Inl ex, cs')"
  | (takes) res q where "receive_payload_wait L R cl True ((True, wait, e) # attempts) cs
      = Some (Inr (res, ms \<noteq> []), cs\<lparr>pqReceivePayloadIndication := q\<rparr>)" "shm_ok q" "shm_msgs q = ms"
proof (cases "registered cl")
  case False
  then have "receive_payload_wait L R cl True ((True, wait, e) # attempts) cs = Some (Inl BPClientLibException, cs)"
    by (auto simp: registered_def receive_payload_wait_def receive_payload_helper_def Let_def)
  then show thesis by (rule throws)
next
  case True
  let ?h = "receive_handler L R (ci_maxPayloadSize (cl_static_info cl))"
    and ?start = "\<lparr>rx_status = BP_STATUS_OK, rx_length = 0, rx_payload = []\<rparr>"
  obtain r res where r: "?h m ?start = (r, res)" by fastforce
  show thesis
  proof (cases r)
    case (Inr u)
    then have h: "?h m ?start = (Inr (), res)" using r by simp
    show thesis by (rule receive_payload_wait_step [OF True assms h, of wait e attempts]) (rule takes)
  next
    case (Inl ex)
    obtain q where q: "pop_head ?h (?start, pqReceivePayloadIndication cs) = (Inl ex, (res, q))"
      by (rule pop_head_throws [where handler = ?h, OF assms r [unfolded Inl]])
    have "has_data (pqReceivePayloadIndication cs)" using assms by (auto elim: shm_okE)
    then have "pop_wait ?h defaultShortSharedMemoryLockTimeoutMS True wait (?start, pqReceivePayloadIndication cs) = (Inl ex, (res, q))"
      using q short_timeout_nonzero by (simp add: pop_wait_def bindE_step)
    then have "receive_payload_wait L R cl True ((True, wait, e) # attempts) cs = Some (Inl ex, cs\<lparr>pqReceivePayloadIndication := q\<rparr>)"
      using True by (simp add: receive_payload_wait_def receive_payload_helper_def registered_def Let_def bindP_def totalP_def)
    then show thesis by (rule throws)
  qed
qed

text \<open>A receiver that gets the mutex takes all messages out, one for each round of its loop.\<close>

lemma receive_payloads_returns:
  assumes "srp_inv n sz (srp_store rt)" "shm_ok (pqReceivePayloadIndication cs)" "shm_msgs (pqReceivePayloadIndication cs) \<noteq> []"
    "length (shm_msgs (pqReceivePayloadIndication cs)) \<le> length rounds" "\<forall>(attempts, now) \<in> set rounds. attempts \<noteq> [] \<and> fst (hd attempts)"
  shows "\<exists>y. receive_payloads L R E fp rounds (rt, cs) = Some y"
  using assms
proof (induction rounds arbitrary: rt cs)
  case (Cons x rounds)
  obtain attempts now where x: "x = (attempts, now)" by (cases x)
  obtain wait e as where at: "attempts = (True, wait, e) # as" using Cons.prems(5) x by (cases attempts) auto
  obtain m ms where m: "shm_msgs (pqReceivePayloadIndication cs) = m # ms" using Cons.prems(3) by (cases "shm_msgs (pqReceivePayloadIndication cs)") auto
  show ?case
  proof (cases rule: pop_step_returns [OF Cons.prems(2) m, of L R "srp_client rt" wait e as])
    case (1 ex cs')
    then show ?thesis unfolding x at by (simp add: bindP_def zoomP_def [of snd])
  next
    case (2 res q)
    let ?cs = "cs\<lparr>pqReceivePayloadIndication := q\<rparr>"
    obtain p s1 where p: "process_received fp E now res (srp_store rt) = Some (p, s1)" "srp_inv n sz s1"
      by (rule process_received_total [OF Cons.prems(1)])
    have next': "receive_payloads L R E fp (x # rounds) (rt, cs) = (case p of Inl e \<Rightarrow> Some (Inl e, (rt\<lparr>srp_store := s1\<rparr>, ?cs))
          | Inr _ \<Rightarrow> (if ms \<noteq> [] then receive_payloads L R E fp rounds else retP ()) (rt\<lparr>srp_store := s1\<rparr>, ?cs))"
      unfolding x at using 2(1) p(1) by (simp add: bindP_def zoomP_def)
    show ?thesis
    proof (cases "ms \<noteq> [] \<and> \<not> isl p")
      case True
      have "length (shm_msgs (pqReceivePayloadIndication cs)) = Suc (length ms)" using m by simp
      then have "length ms \<le> length rounds" using Cons.prems(4) by simp
      with Cons.IH [of "rt\<lparr>srp_store := s1\<rparr>" ?cs] p(2) 2(2,3) True Cons.prems(5) obtain y where
        "receive_payloads L R E fp rounds (rt\<lparr>srp_store := s1\<rparr>, ?cs) = Some y" by (auto simp del: length_shm_msgs)
      with next' True have "receive_payloads L R E fp (x # rounds) (rt, cs) = Some y" by (cases p) auto
      then show ?thesis by blast
    next
      case False
      with next' show ?thesis by (cases p) (auto simp: totalP_def)
    qed
  qed
qed (simp del: length_shm_msgs)

end
