(* ===== verification/SrpExamples.thy ===== *)
theory SrpExamples
  imports SrpInvariant
begin

text \<open>Two concrete nodes that run the state reporting protocol, at which its properties are shown to apply.\<close>

section \<open>Numbers and records\<close>

text \<open>Bytes take the place of the floating point numbers.\<close>

definition fp1 :: "u8 fp" where
  "fp1 = \<lparr>fp_of_u32 = ucast, fp_add = (+), fp_sub = (-), fp_mul = (*)\<rparr>"

definition node_n :: "u8 \<Rightarrow> NodeIdentifierT" where
  "node_n n = NodeIdentifierT 2 0 0 0 0 n"

definition esd1 :: "u8 esd_layout" where
  "esd1 = \<lparr>esd_size = 21,
     esd_image = (\<lambda>e. [position_x (safetyData e), position_y (safetyData e), position_z (safetyData e)] @ nodeId (esd_nodeId e)
        @ rev (be_bytes64 (esd_timeStamp e)) @ be_bytes32 (esd_seqno e)),
     esd_read = (\<lambda>bs. \<lparr>safetyData = \<lparr>position_x = bs ! 0, position_y = bs ! 1, position_z = bs ! 2\<rparr>,
        esd_nodeId = NodeIdentifierT (bs ! 3) (bs ! 4) (bs ! 5) (bs ! 6) (bs ! 7) (bs ! 8),
        esd_timeStamp = push_bit 56 (ucast (bs ! 16)) + push_bit 48 (ucast (bs ! 15)) + push_bit 40 (ucast (bs ! 14))
          + push_bit 32 (ucast (bs ! 13)) + push_bit 24 (ucast (bs ! 12)) + push_bit 16 (ucast (bs ! 11))
          + push_bit 8 (ucast (bs ! 10)) + ucast (bs ! 9),
        esd_seqno = push_bit 24 (ucast (bs ! 17)) + push_bit 16 (ucast (bs ! 18)) + push_bit 8 (ucast (bs ! 19)) + ucast (bs ! 20)\<rparr>)\<rparr>"

lemma esd1_ok: "esd_layout_ok esd1"
proof -
  have "esd_read esd1 (esd_image esd1 e @ r) = e" for e :: "u8 ExtendedSafetyDataT" and r
  proof -
    obtain sd n t k where e: "e = \<lparr>safetyData = sd, esd_nodeId = n, esd_timeStamp = t, esd_seqno = k\<rparr>" by (cases e) auto
    obtain x y z where sd: "sd = \<lparr>position_x = x, position_y = y, position_z = z\<rparr>" by (cases sd) auto
    show ?thesis unfolding e sd esd1_def by (cases n) (simp add: be_bytes64_def be_bytes32_def be_join64 be_join32)
  qed
  then show ?thesis by (simp add: esd_layout_ok_def) (simp add: esd1_def)
qed

definition reader1 :: ind_reader where
  "reader1 = \<lparr>ind_length = (\<lambda>bs. push_bit 8 (ucast (bs ! 0)) + ucast (bs ! 1)), ind_s_type = (\<lambda>_. stBP_ReceivePayload)\<rparr>"

lemma reader1_ok: "reader_ok layout1 reader1"
  by (simp add: reader_ok_def reader1_def layout1_def be_bytes16_def be_join16)

definition record1 :: "u8 \<Rightarrow> u32 \<Rightarrow> u8 ExtendedSafetyDataT" where
  "record1 n k = \<lparr>safetyData = \<lparr>position_x = 1, position_y = 2, position_z = 3\<rparr>, esd_nodeId = node_n n, esd_timeStamp = 0, esd_seqno = k\<rparr>"

lemma record1_node [simp]: "esd_nodeId (record1 n k) = node_n n"
  by (simp add: record1_def)

lemma node_n_eq [simp]: "node_n a = node_n b \<longleftrightarrow> a = b"
  by (simp add: node_n_def)

section \<open>A new store\<close>

definition raw_srp1 :: "u8 raw_srp" where
  "raw_srp1 = \<lparr>raw_global = \<lparr>own_sd = \<lparr>position_x = 0, position_y = 0, position_z = 0\<rparr>, last_own_sd_write = 0, own_sd_written = True,
       next_seqno = 7, srp_ownNodeIdentifier = node_n 0, gapSizeEstimatorEWMAAlphaValue = 0, srp_isActive = False\<rparr>,
     raw_ESD = (\<lambda>_. record1 0 0), raw_freeList = replicate 4 \<lparr>fl_esd_offs = 0\<rparr>, raw_avl_freeList = replicate 4 0,
     raw_nodes = (\<lambda>_. \<lparr>a_key = node_n 0, a_data = \<lparr>ns_nodeId = node_n 0, ns_esd_offs = 0, ns_seqno_received = False,
       ns_last_seqno = 0, ns_avg_seqno_gap_size = 0, ns_last_esd_received = 0\<rparr>, nd_left = 0, nd_right = 0, nd_height = 0\<rparr>)\<rparr>"

lemma raw_srp1_ok: "length (raw_freeList raw_srp1) = 3 + 1" "length (raw_avl_freeList raw_srp1) = 3 + 1"
  by (simp_all add: raw_srp1_def)

lemma store1:
  obtains s where "initialize_srp_store 3 21 (Some raw_srp1) (node_n k) 0 0 = Inr s" "srp_inv 3 21 s" "neighbours s = Map.empty"
    "srp_get_own_node_identifier s = node_n k" "get_srp_isactive s"
  by (rule initialize_srp_ok [OF _ _ raw_srp1_ok, of 21 "node_n k" 0 0]) (use that in simp_all)

text \<open>Three neighbours fill the table.\<close>

lemma store1_full:
  obtains s s' where "initialize_srp_store 3 21 (Some raw_srp1) (node_n 9) 0 0 = Inr s"
    "forP (hear_record fp1) [(0, record1 1 0), (0, record1 2 0), (0, record1 3 0)] s = Some (Inr (), s')" "srp_inv 3 21 s'"
    "srp_get_own_node_identifier s' = node_n 9" "get_srp_isactive s'" "dom (neighbours s') = {node_n 1, node_n 2, node_n 3}"
proof -
  obtain s where s: "initialize_srp_store 3 21 (Some raw_srp1) (node_n 9) 0 0 = Inr s" "srp_inv 3 21 s" "neighbours s = Map.empty"
    "srp_get_own_node_identifier s = node_n 9" "get_srp_isactive s" by (rule store1)
  let ?rs = "[(0, record1 1 0), (0, record1 2 0), (0, record1 3 0)]"
  have nodes: "dom (neighbours s) \<union> ((\<lambda>r. esd_nodeId (snd r)) ` set ?rs - {srp_get_own_node_identifier s}) = {node_n 1, node_n 2, node_n 3}"
    using s(3,4) by auto
  have "card {node_n 1, node_n 2, node_n 3} \<le> 3" by (simp add: card_insert_if)
  then obtain s' where s': "forP (hear_record fp1) ?rs s = Some (Inr (), s')" "srp_inv 3 21 s'" "srp_global_state s' = srp_global_state s"
    "neighbours s' = nbt.learn fp1 s ?rs"
    using nbt.hear_all [of 3 21 s "srp_global_state s" ?rs fp1] s(2) nodes by auto
  have "dom (neighbours s') = {node_n 1, node_n 2, node_n 3}" unfolding s'(4) nbt.dom_learn nodes ..
  with s s' that show thesis by (simp add: srp_get_own_node_identifier_def get_srp_isactive_def)
qed

section \<open>The demons\<close>

definition srp_info :: BPStaticClientInfo where
  "srp_info = \<lparr>ci_protocolId = BP_PROTID_SRP, ci_protocolName = ''State Reporting Protocol'', ci_maxPayloadSize = 21,
     ci_queueingMode = BP_QMODE_ONCE, ci_maxEntries = 0, ci_allowMultiplePayloads = False\<rparr>"

definition srp_demon :: "u8 FixedMemContents \<Rightarrow> u8 SRPRuntimeData" where
  "srp_demon s = \<lparr>srp_store = s, srp_exitFlag = False, srp_client = \<lparr>cl_isRegistered = True, cl_static_info = srp_info\<rparr>,
     srpKeepaliveTimeoutMS = 5000, srpScrubbingTimeoutMS = 3000\<rparr>"

lemma srp_demon_simps [simp]:
  "srp_store (srp_demon s) = s" "srp_exitFlag (srp_demon s) = False" "srpScrubbingTimeoutMS (srp_demon s) = 3000"
  "srpKeepaliveTimeoutMS (srp_demon s) = 5000"
  by (simp_all add: srp_demon_def)

lemma srp_demon_listens: "srp_listens esd1 (srp_demon s)"
  by (simp add: srp_listens_def srp_demon_def registered_def srp_info_def esd1_def)

definition position1 :: "u8 SafetyDataT" where
  "position1 = \<lparr>position_x = 1, position_y = 2, position_z = 3\<rparr>"

lemma written_sends:
  assumes "get_srp_isactive s"
  shows "sends_now 0 (srp_demon (set_own_safety_data 0 position1 s))"
  using assms by (simp add: sends_now_def get_srp_isactive_def get_own_safety_data_written_flag_def get_own_safety_data_timestamp_def
    set_own_safety_data_def milliseconds_passed_since_def)

definition register_srp :: bp_command where
  "register_srp = RegisterProtocol True (Inr (raw1, raw1, raw1, raw1)) 0
     (Some \<lparr>rr_static_info = srp_info, rr_shm_area_name = ''srp'', rr_generateTransmitPayloadConfirms = False\<rparr>)"

lemma srp_registered:
  obtains c where "handle_command_socket layout1 register_srp (idle_demon k)
      = (Inr (Some (Register_Confirm BP_STATUS_OK (node_n k))), update_client BP_PROTID_SRP c (idle_demon k))"
    "fresh_client layout1 srp_info c"
proof -
  have "unat (ci_maxEntries srp_info) \<le> maxQueueLength" by (simp add: srp_info_def)
  from new_client_ok [OF raw1_ok raw1_ok raw1_ok raw1_ok this] obtain c where
    c: "new_BPClientProtocolData layout1 (Inr (raw1, raw1, raw1, raw1)) srp_info False 0 = Inr c" "fresh_client layout1 srp_info c" by blast
  have "registrable (idle_demon k) srp_info"
    by (simp add: registrable_def srp_info_def idle_demon_def BPHeaderT_fixed_size_def BPPayloadHeaderT_fixed_size_def
        bp_queueing_mode_known_def is_queue_mode_def qmode_defs)
  from register_unfold [where req = "\<lparr>rr_static_info = srp_info, rr_shm_area_name = ''srp'', rr_generateTransmitPayloadConfirms = False\<rparr>",
      of "idle_demon k" layout1 True "Inr (raw1, raw1, raw1, raw1)" 0] this c(1)
  show thesis
    by (intro that [OF _ c(2)]) (simp add: register_srp_def srp_info_def idle_demon_def node_n_def lock_clients_def unlock_clients_def)
qed

lemma srp_fresh:
  assumes "fresh_client layout1 srp_info c"
  shows "srp_link layout1 esd1 (pSCS c)" "shm_ok (cs_buffer (pSCS c))" "shm_msgs (cs_buffer (pSCS c)) = []"
    "ci_protocolId (static_info c) = BP_PROTID_SRP" "static_client_info (pSCS c) = static_info c"
    "shm_ok (indications c)" "shm_msgs (indications c) = []" "esd_size esd1 + ind_size layout1 \<le> bufferSize (indications c)"
  using assms by (simp_all add: fresh_client_def srp_link_def srp_info_def esd1_def layout1_def maxBufferSize_def maxBeaconPayloadSize_def)

end
