(* ===== verification/PropsSrp.thy ===== *)
theory PropsSrp
  imports SrpExamples
begin

text \<open>The properties of the state reporting protocol.\<close>

section \<open>A queue with an indication\<close>

lemma indication_queue:
  assumes "m \<noteq> []" "length m \<le> maxBufferSize"
  obtains q :: ShmFiniteQueue where "shm_ok q" "shm_msgs q = [m]"
proof -
  obtain c where c: "fresh_client layout1 srp_info c" by (rule srp_registered)
  then have i: "shm_ok (indications c)" "shm_msgs (indications c) = []" "bufferSize (indications c) = maxBufferSize"
    by (simp_all add: fresh_client_def)
  have "length m \<le> bufferSize (indications c)" using assms(2) i(3) by simp
  from push_wait_ok [OF i(1) writes_copy_payload [OF this] assms(1) i(2), of 1] that show thesis by (metis one_neq_zero)
qed

section \<open>From node to node\<close>

lemma single_client:
  assumes "dom (clientProtocols A) = {p}" "clientProtocols A p = Some c"
  shows "protocol_ids A = [p]" "contributions L A (protocol_ids A) = contribution L c"
proof -
  show "protocol_ids A = [p]" using assms(1) by (simp add: protocol_ids_def)
  then show "contributions L A (protocol_ids A) = contribution L c" using assms(2) by simp
qed

lemma sends_contribution:
  assumes "layout_ok L" "esd_layout_ok E" "shm_ok (outgoing c)" "shm_msgs (outgoing c) = [srp_message L E esd]" "esd_size E < 65536"
    "bp_queueing_mode_known (ci_queueingMode (static_info c))"
  shows "client_ok L c" "contribution L c = [(ci_protocolId (static_info c), esd_image E esd)]"
proof -
  have l: "length (esd_image E esd) = esd_size E" "esd_image E esd \<noteq> []" "length (req_image L p k) = req_size L" for p k
    using assms(1,2) unfolding layout_ok_def esd_layout_ok_def by (auto dest!: spec [of _ esd] dest: arg_cong [where f = length])
  have "request_of L (srp_message L E esd) (esd_image E esd)"
    unfolding request_of_def using l assms(5) by auto
  with assms(3,4,6) show "client_ok L c" by (auto simp: client_ok_def)
  show "contribution L c = [(ci_protocolId (static_info c), esd_image E esd)]" using assms(4) l(3) by (simp add: contribution_def)
qed

text \<open>C25. Safety data that an application of one node has written reaches the neighbour table of another, under these
  conditions.  Sender: state reporting is active and has safety data that is not too old; it is the only client of its
  beaconing demon, in the mode ONCE, with an empty buffer; this demon is active and a record fits a beacon.  Receiver: its
  beaconing demon is active, with its mutex free, another node identifier and the same network identifier; state reporting is
  registered there with an empty indication queue whose buffers hold a record; its own demon is registered and active, has another
  identifier than the sender, and its neighbour table has an entry for the sender or room for one.  All mutexes are obtained in
  time.  Then a round of the sender's transmitter hands a record with the node's identifier, the time and the next sequence number
  to the beaconing demon, the beacon that this demon generates carries it, the receiving beaconing demon hands it to the state
  reporting demon there, and a round of its receiver enters it for the sender, as a new neighbour or an update of a known
  one, and for no other node.  What becomes of a full table is C29.\<close>

theorem safety_data_reaches_neighbour:
  assumes "layout_ok L" "reader_ok L R" "esd_layout_ok E"
    "sends_now nowA rtA" "srp_link L E (pSCS c)" "shm_ok (cs_buffer (pSCS c))" "shm_msgs (cs_buffer (pSCS c)) = []"
    "clientProtocols A BP_PROTID_SRP = Some c" "dom (clientProtocols A) = {BP_PROTID_SRP}" "ci_protocolId (static_info c) = BP_PROTID_SRP"
    "static_client_info (pSCS c) = static_info c" "bp_isActive A" "\<not> bp_exitFlag A"
    "BPHeaderT_fixed_size + BPPayloadHeaderT_fixed_size + esd_size E \<le> maxBeaconSize A" "BPPayloadHeaderT_fixed_size + esd_size E < 65536"
    "bp_isActive B" "\<not> clientProtocols_mutex B" "bp_ownNodeIdentifier B \<noteq> bp_ownNodeIdentifier A"
    "ownNetworkIdentifier B = ownNetworkIdentifier A"
    "clientProtocols B BP_PROTID_SRP = Some d" "ci_protocolId (static_info d) = BP_PROTID_SRP"
    "shm_ok (indications d)" "shm_msgs (indications d) = []" "esd_size E + ind_size L \<le> bufferSize (indications d)"
    "srp_listens E rtB" "get_srp_isactive (srp_store rtB)" "srp_inv n sz (srp_store rtB)"
    "srp_get_own_node_identifier (srp_store rtA) \<noteq> srp_get_own_node_identifier (srp_store rtB)"
    "srp_get_own_node_identifier (srp_store rtA) \<in> dom (neighbours (srp_store rtB)) \<or> card (dom (neighbours (srp_store rtB))) < n"
  shows "\<exists>csA frame A' d' s csB.
      srp_transmitter_round L E nowA stamp True waitA (rtA, pSCS c) = (count_record rtA, csA)
    \<and> generate_beacon L (\<lambda>_. True) (update_client BP_PROTID_SRP (c\<lparr>pSCS := csA\<rparr>) A) = (Inr (Some frame), A')
    \<and> clientProtocols (receiver_frame L (\<lambda>i. (True, waitB i)) frame B) BP_PROTID_SRP = Some d'
    \<and> srp_receiver_round L R E fp [((True, waitC, e) # attempts, nowB)] (rtB, pSCS d') = Some (rtB\<lparr>srp_store := s\<rparr>, csB)
    \<and> srp_inv n sz s
    \<and> neighbours s = (neighbours (srp_store rtB))(srp_get_own_node_identifier (srp_store rtA) \<mapsto>
        heard_record fp (srp_store rtB) (nowB, own_record stamp (srp_store rtA))
          (neighbours (srp_store rtB) (srp_get_own_node_identifier (srp_store rtA))))"
proof -
  let ?esd = "own_record stamp (srp_store rtA)" and ?p = BP_PROTID_SRP
  have once: "ci_queueingMode (static_info c) = BP_QMODE_ONCE" using assms(5,11) by (simp add: srp_link_def)
  obtain b where b: "transmit_payload L (srp_length L E) (Some (srp_message L E ?esd)) True waitA ((), pSCS c)
      = (Inr BP_STATUS_OK, ((), (pSCS c)\<lparr>cs_buffer := b\<rparr>))" "shm_ok b" "shm_msgs b = [srp_message L E ?esd]"
    by (rule transmit_ok [OF assms(1,3,5-7)])
  let ?cs = "(pSCS c)\<lparr>cs_buffer := b\<rparr>"
  let ?c = "c\<lparr>pSCS := ?cs\<rparr>" 
  let ?A = "update_client ?p ?c A"
  have tx: "srp_transmitter_round L E nowA stamp True waitA (rtA, pSCS c) = (count_record rtA, ?cs)"
    unfolding transmitter_round_sends [OF assms(4)] b(1) by simp
  have out: "outgoing ?c = b" using once by (simp add: outgoing_def is_queue_mode_def qmode_defs)
  have qm: "bp_queueing_mode_known (ci_queueingMode (static_info ?c))" using once by (simp add: bp_queueing_mode_known_def)
  have size: "esd_size E < 65536" using assms(15) by simp
  have l: "length (esd_image E ?esd) = esd_size E" using assms(3) by (simp add: esd_layout_ok_def)
  have con: "client_ok L ?c" "contribution L ?c = [(?p, esd_image E ?esd)]"
    using sends_contribution [OF assms(1,3) _ _ size qm, of ?esd] b(2,3) out assms(10) by simp_all
  have dom: "dom (clientProtocols ?A) = {?p}" "clientProtocols ?A ?p = Some ?c" using assms(9) by auto
  have pls: "contributions L ?A (protocol_ids ?A) = [(?p, esd_image E ?esd)]" using single_client(2) [OF dom] con(2) by simp
  have only: "clientProtocols ?A q = Some c' \<Longrightarrow> q = ?p \<and> c' = ?c" for q c' using assms(9) by (auto split: if_splits)
  have "finite (dom (clientProtocols ?A))" unfolding dom(1) by simp
  moreover have "client_ok L c'" "ci_protocolId (static_info c') = q" if "clientProtocols ?A q = Some c'" for q c'
    using only [OF that] con(1) assms(10) by simp_all
  moreover have "bp_isActive ?A" "\<not> bp_exitFlag ?A" using assms(12,13) by simp_all
  ultimately have A: "bp_sender_ok L ?A" "ids_ok ?A" unfolding bp_sender_ok_def ids_ok_def by blast+
  have fits: "BPHeaderT_fixed_size + length (enc_payloads [(?p, esd_image E ?esd)]) \<le> maxBeaconSize ?A"
    "length (enc_payloads [(?p, esd_image E ?esd)]) < 65536" using assms(14,15) l by (simp_all add: BPPayloadHeaderT_fixed_size_def)
  have ready: "\<forall>(q, pl) \<in> set [(?p, esd_image E ?esd)]. \<forall>c. clientProtocols B q = Some c \<longrightarrow> ci_protocolId (static_info c) = q
          \<and> shm_ok (indications c) \<and> shm_msgs (indications c) = [] \<and> length pl + ind_size L \<le> bufferSize (indications c)"
    using assms(20-24) l by simp
  from node_to_node [OF assms(1) A, unfolded pls, OF fits _ _ assms(16,17) _ _ ready, of waitB] assms(18,19) obtain frame cpsA cpsB where
    f: "generate_beacon L (\<lambda>_. True) ?A = (Inr (Some frame), ?A\<lparr>clientProtocols := cpsA, bpSequenceNumber := bpSequenceNumber ?A + 1\<rparr>)"
    "receiver_frame L (\<lambda>i. (True, waitB i)) frame B = B\<lparr>clientProtocols := cpsB, cntBPPayloads := cntBPPayloads B + 1\<rparr>"
    "clients_got L [(?p, esd_image E ?esd)] B cpsB" by auto
  from f(3) [unfolded clients_got_def, rule_format, of ?p] assms(20) obtain d' where
    d': "cpsB ?p = Some d'" "received_by L (esd_image E ?esd) d d'" by auto
  have ind: "shm_ok (pqReceivePayloadIndication (pSCS d'))" "shm_msgs (pqReceivePayloadIndication (pSCS d')) = [srp_indication L E ?esd]"
    using d'(2) l by (simp_all add: received_by_def)
  have id: "esd_nodeId ?esd = srp_get_own_node_identifier (srp_store rtA)" by (simp add: own_record_def)
  obtain s q where s: "srp_receiver_round L R E fp [((True, waitC, e) # attempts, nowB)] (rtB, pSCS d')
      = Some (rtB\<lparr>srp_store := s\<rparr>, (pSCS d')\<lparr>pqReceivePayloadIndication := q\<rparr>)" "srp_inv n sz s"
    "neighbours s = (neighbours (srp_store rtB))(esd_nodeId ?esd \<mapsto> heard_record fp (srp_store rtB) (nowB, ?esd) (neighbours (srp_store rtB) (esd_nodeId ?esd)))"
    by (rule srp_receiver_round_ok [OF assms(1-3,25) ind assms(26,27) assms(28,29) [folded id], of fp waitC e attempts nowB])
  have "clientProtocols (receiver_frame L (\<lambda>i. (True, waitB i)) frame B) ?p = Some d'" using f(2) d'(1) by simp
  with tx f(1) s show ?thesis unfolding id by blast
qed


text \<open>The second node does not know the first yet.\<close>

theorem safety_data_reaches_neighbour_witness:
  "\<exists>sA sB cA cB csA frame A' d' s csB.
     initialize_srp_store 3 21 (Some raw_srp1) (node_n 1) 0 0 = Inr sA \<and> initialize_srp_store 3 21 (Some raw_srp1) (node_n 2) 0 0 = Inr sB
   \<and> handle_command_socket layout1 register_srp (idle_demon 1)
       = (Inr (Some (Register_Confirm BP_STATUS_OK (node_n 1))), update_client BP_PROTID_SRP cA (idle_demon 1))
   \<and> handle_command_socket layout1 register_srp (idle_demon 2)
       = (Inr (Some (Register_Confirm BP_STATUS_OK (node_n 2))), update_client BP_PROTID_SRP cB (idle_demon 2))
   \<and> snd (srp_transmitter_round layout1 esd1 0 4 True (\<lambda>q. (False, q)) (srp_demon (set_own_safety_data 0 position1 sA), pSCS cA)) = csA
   \<and> generate_beacon layout1 (\<lambda>_. True) (update_client BP_PROTID_SRP (cA\<lparr>pSCS := csA\<rparr>) (update_client BP_PROTID_SRP cA (idle_demon 1)))
       = (Inr (Some frame), A')
   \<and> clientProtocols (receiver_frame layout1 (\<lambda>i. (True, \<lambda>q. (False, q))) frame (update_client BP_PROTID_SRP cB (idle_demon 2))) BP_PROTID_SRP
       = Some d'
   \<and> srp_receiver_round layout1 reader1 esd1 fp1 [([(True, \<lambda>q. (False, q), False)], 6)] (srp_demon sB, pSCS d')
       = Some ((srp_demon sB)\<lparr>srp_store := s\<rparr>, csB)
   \<and> neighbours s = [node_n 1 \<mapsto> \<lparr>nb_esd = \<lparr>safetyData = position1, esd_nodeId = node_n 1, esd_timeStamp = 4, esd_seqno = get_own_sequence_number sA\<rparr>,
       nb_seqno_received = False, nb_last_seqno = get_own_sequence_number sA, nb_gap = 0, nb_last_received = 6\<rparr>]"
proof -
  obtain sA where sA: "initialize_srp_store 3 21 (Some raw_srp1) (node_n 1) 0 0 = Inr sA" "srp_inv 3 21 sA"
    "srp_get_own_node_identifier sA = node_n 1" "get_srp_isactive sA" by (rule store1)
  obtain sB where sB: "initialize_srp_store 3 21 (Some raw_srp1) (node_n 2) 0 0 = Inr sB" "srp_inv 3 21 sB" "neighbours sB = Map.empty"
    "srp_get_own_node_identifier sB = node_n 2" "get_srp_isactive sB" by (rule store1)
  obtain cA where cA: "handle_command_socket layout1 register_srp (idle_demon 1)
      = (Inr (Some (Register_Confirm BP_STATUS_OK (node_n 1))), update_client BP_PROTID_SRP cA (idle_demon 1))"
    "fresh_client layout1 srp_info cA" by (rule srp_registered)
  obtain cB where cB: "handle_command_socket layout1 register_srp (idle_demon 2)
      = (Inr (Some (Register_Confirm BP_STATUS_OK (node_n 2))), update_client BP_PROTID_SRP cB (idle_demon 2))"
    "fresh_client layout1 srp_info cB" by (rule srp_registered)
  let ?sA = "set_own_safety_data 0 position1 sA"
  let ?A = "update_client BP_PROTID_SRP cA (idle_demon 1)" and ?B = "update_client BP_PROTID_SRP cB (idle_demon 2)"
  note fA = srp_fresh [OF cA(2)] and fB = srp_fresh [OF cB(2)]
  have own: "srp_get_own_node_identifier (srp_store (srp_demon ?sA)) = node_n 1"
    using sA(3) by (simp add: srp_get_own_node_identifier_def set_own_safety_data_def)
  have A: "clientProtocols ?A BP_PROTID_SRP = Some cA" "dom (clientProtocols ?A) = {BP_PROTID_SRP}" "bp_isActive ?A" "\<not> bp_exitFlag ?A"
    "BPHeaderT_fixed_size + BPPayloadHeaderT_fixed_size + esd_size esd1 \<le> maxBeaconSize ?A" "BPPayloadHeaderT_fixed_size + esd_size esd1 < 65536"
    by (simp_all add: idle_demon_def BPHeaderT_fixed_size_def BPPayloadHeaderT_fixed_size_def esd1_def)
  have B: "bp_isActive ?B" "\<not> clientProtocols_mutex ?B" "bp_ownNodeIdentifier ?B \<noteq> bp_ownNodeIdentifier ?A"
    "ownNetworkIdentifier ?B = ownNetworkIdentifier ?A" "clientProtocols ?B BP_PROTID_SRP = Some cB" by (simp_all add: idle_demon_def)
  have r: "get_srp_isactive (srp_store (srp_demon sB))" "srp_inv 3 21 (srp_store (srp_demon sB))"
    "srp_get_own_node_identifier (srp_store (srp_demon ?sA)) \<noteq> srp_get_own_node_identifier (srp_store (srp_demon sB))"
    "srp_get_own_node_identifier (srp_store (srp_demon ?sA)) \<in> dom (neighbours (srp_store (srp_demon sB)))
      \<or> card (dom (neighbours (srp_store (srp_demon sB)))) < 3"
    unfolding own using sB by simp_all
  from safety_data_reaches_neighbour [OF layout1_ok reader1_ok esd1_ok written_sends [OF sA(4)] fA(1-3) A(1,2) fA(4,5) A(3-6)
      B(1-5) fB(4,6-8) srp_demon_listens r, of 4 "\<lambda>q. (False, q)" "\<lambda>i q. (False, q)" fp1 "\<lambda>q. (False, q)" False "[]" 6]
  obtain csA frame A' d' s csB where
    t: "srp_transmitter_round layout1 esd1 0 4 True (\<lambda>q. (False, q)) (srp_demon ?sA, pSCS cA) = (count_record (srp_demon ?sA), csA)"
    and g: "generate_beacon layout1 (\<lambda>_. True) (update_client BP_PROTID_SRP (cA\<lparr>pSCS := csA\<rparr>) ?A) = (Inr (Some frame), A')"
      "clientProtocols (receiver_frame layout1 (\<lambda>i. (True, \<lambda>q. (False, q))) frame ?B) BP_PROTID_SRP = Some d'"
      "srp_receiver_round layout1 reader1 esd1 fp1 [([(True, \<lambda>q. (False, q), False)], 6)] (srp_demon sB, pSCS d')
       = Some ((srp_demon sB)\<lparr>srp_store := s\<rparr>, csB)"
    and n: "neighbours s = (neighbours (srp_store (srp_demon sB)))(srp_get_own_node_identifier (srp_store (srp_demon ?sA)) \<mapsto>
        heard_record fp1 (srp_store (srp_demon sB)) (6, own_record 4 (srp_store (srp_demon ?sA)))
          (neighbours (srp_store (srp_demon sB)) (srp_get_own_node_identifier (srp_store (srp_demon ?sA)))))" by blast
  have "neighbours s = [node_n 1 \<mapsto> \<lparr>nb_esd = \<lparr>safetyData = position1, esd_nodeId = node_n 1, esd_timeStamp = 4, esd_seqno = get_own_sequence_number sA\<rparr>,
       nb_seqno_received = False, nb_last_seqno = get_own_sequence_number sA, nb_gap = 0, nb_last_received = 6\<rparr>]"
    unfolding n own using sB(3) own by (simp add: heard_def own_record_def fp1_def)
      (simp add: get_own_sequence_number_def get_own_safety_data_def set_own_safety_data_def)
  moreover have "snd (srp_transmitter_round layout1 esd1 0 4 True (\<lambda>q. (False, q)) (srp_demon ?sA, pSCS cA)) = csA" unfolding t by simp
  ultimately show ?thesis using sA(1) sB(1) cA(1) cB(1) g by blast
qed


section \<open>The neighbour table\<close>

text \<open>C26. The neighbour table remembers: after any list of records from at most as many other nodes as the table has room
  for, received into a newly initialized store, the table has exactly these nodes, each with the record that was received
  last and the time at which it was; nothing was thrown, and the own records are ignored.\<close>

theorem table_has_latest_records:
  assumes "3 \<le> n" "0 < sz" "length (raw_freeList raw) = n + 1" "length (raw_avl_freeList raw) = n + 1"
    "card (esd_nodeId ` snd ` set rs - {own}) \<le> n"
  shows "\<exists>s0 s. initialize_srp_store n sz (Some raw) own alpha now = Inr s0 \<and> forP (hear_record fp) rs s0 = Some (Inr (), s)
    \<and> dom (neighbours s) = esd_nodeId ` snd ` set rs - {own}
    \<and> (\<forall>k before t esd. k \<noteq> own \<longrightarrow> filter (\<lambda>r. esd_nodeId (snd r) = k) rs = before @ [(t, esd)] \<longrightarrow>
         get_esd_entry_ref k s = Some (Inr esd, s) \<and> get_neighbour_last_reception_time k s = Some (Inr t, s))"
proof -
  obtain s0 where s0: "initialize_srp_store n sz (Some raw) own alpha now = Inr s0" "srp_inv n sz s0" "neighbours s0 = Map.empty"
    "srp_get_own_node_identifier s0 = own" by (rule initialize_srp_ok [OF assms(1-4)])
  have "card (dom (neighbours s0) \<union> ((\<lambda>r. esd_nodeId (snd r)) ` set rs - {srp_get_own_node_identifier s0})) \<le> n"
    using assms(5) s0(3,4) by (simp add: image_image)
  then obtain s where s: "forP (hear_record fp) rs s0 = Some (Inr (), s)" "srp_inv n sz s" "neighbours s = nbt.learn fp s0 rs"
    using nbt.hear_all [of n sz s0 "srp_global_state s0" rs fp] s0(2) by auto
  have "get_esd_entry_ref k s = Some (Inr esd, s) \<and> get_neighbour_last_reception_time k s = Some (Inr t, s)"
    if k: "k \<noteq> own" "filter (\<lambda>r. esd_nodeId (snd r) = k) rs = before @ [(t, esd)]" for k before t esd
  proof -
    have "k \<noteq> srp_get_own_node_identifier s0" using k(1) s0(4) by simp
    from nbt.learn_last [OF this k(2), of fp] s(3) obtain old where "neighbours s k = Some (heard_record fp s0 (t, esd) old)" by auto
    then have "\<exists>nb. neighbours s k = Some nb \<and> nb_esd nb = esd \<and> nb_last_received nb = t" by (auto simp: heard_def split: option.split)
    then show ?thesis by (auto intro: neighbour_lookup [OF s(2)])
  qed
  moreover have "dom (neighbours s) = esd_nodeId ` snd ` set rs - {own}"
    unfolding s(3) nbt.dom_learn s0(3,4) by (simp add: image_image)
  ultimately show ?thesis using s0(1) s(1) by blast
qed

theorem table_has_latest_records_witness:
  "\<exists>s0 s. initialize_srp_store 3 21 (Some raw_srp1) (node_n 9) 0 0 = Inr s0
    \<and> forP (hear_record fp1) [(0, record1 1 0), (5, record1 2 0), (7, record1 9 0), (8, record1 1 4)] s0 = Some (Inr (), s)
    \<and> dom (neighbours s) = {node_n 1, node_n 2}
    \<and> get_esd_entry_ref (node_n 1) s = Some (Inr (record1 1 4), s) \<and> get_neighbour_last_reception_time (node_n 1) s = Some (Inr 8, s)"
proof -
  let ?rs = "[(0, record1 1 0), (5, record1 2 0), (7, record1 9 0), (8, record1 1 4)]"
  have d: "esd_nodeId ` snd ` set ?rs - {node_n 9} = {node_n 1, node_n 2}" by auto
  then have c: "card (esd_nodeId ` snd ` set ?rs - {node_n 9}) \<le> 3" by simp
  obtain s0 s where s: "initialize_srp_store 3 21 (Some raw_srp1) (node_n 9) 0 0 = Inr s0" "forP (hear_record fp1) ?rs s0 = Some (Inr (), s)"
    "dom (neighbours s) = esd_nodeId ` snd ` set ?rs - {node_n 9}"
    and l: "\<And>k before t esd. k \<noteq> node_n 9 \<Longrightarrow> filter (\<lambda>r. esd_nodeId (snd r) = k) ?rs = before @ [(t, esd)] \<Longrightarrow>
         get_esd_entry_ref k s = Some (Inr esd, s) \<and> get_neighbour_last_reception_time k s = Some (Inr t, s)"
    using table_has_latest_records [OF _ _ raw_srp1_ok c, of 21 0 0 fp1] by auto
  have "filter (\<lambda>r. esd_nodeId (snd r) = node_n 1) ?rs = [(0, record1 1 0)] @ [(8, record1 1 4)]" by simp
  moreover have "node_n 1 \<noteq> node_n 9" by simp
  ultimately have "get_esd_entry_ref (node_n 1) s = Some (Inr (record1 1 4), s) \<and> get_neighbour_last_reception_time (node_n 1) s = Some (Inr 8, s)"
    using l by blast
  with s show ?thesis unfolding d by blast
qed

text \<open>C28. Scrubbing is exact: a round of the scrubber always returns, and removes those neighbours of which nothing has been
  received for the configured time, and only those; the others keep everything that is known of them.\<close>

theorem scrubber_exact:
  assumes "srp_inv n sz (srp_store rt)" "get_srp_isactive (srp_store rt)"
  shows "\<exists>s. srp_scrubber_round now (rt, cs) = Some (rt\<lparr>srp_store := s\<rparr>, cs) \<and> srp_inv n sz s
    \<and> neighbours s = (\<lambda>k. case neighbours (srp_store rt) k of None \<Rightarrow> None
       | Some nb \<Rightarrow> if unat (srpScrubbingTimeoutMS rt) \<le> unat (milliseconds_passed_since now (nb_last_received nb)) then None else Some nb)"
  by (rule scrubber_round_ok [OF assms, of now cs, unfolded expired_def]) blast

theorem scrubber_exact_witness:
  "\<forall>cs. \<exists>s0 s1 s. initialize_srp_store 3 21 (Some raw_srp1) (node_n 9) 0 0 = Inr s0
    \<and> forP (hear_record fp1) [(0, record1 1 0), (1000000, record1 2 0)] s0 = Some (Inr (), s1)
    \<and> srp_scrubber_round 3000500000 (srp_demon s1, cs) = Some ((srp_demon s1)\<lparr>srp_store := s\<rparr>, cs)
    \<and> neighbours s = [node_n 2 \<mapsto> \<lparr>nb_esd = record1 2 0, nb_seqno_received = False, nb_last_seqno = 0, nb_gap = 0, nb_last_received = 1000000\<rparr>]"
    (is "\<forall>cs. ?P cs")
proof (rule allI)
  fix cs :: BPShmControlSegment
  let ?rs = "[(0, record1 1 0), (1000000, record1 2 0)]"
  obtain s0 where s0: "initialize_srp_store 3 21 (Some raw_srp1) (node_n 9) 0 0 = Inr s0" "srp_inv 3 21 s0" "neighbours s0 = Map.empty"
    "srp_get_own_node_identifier s0 = node_n 9" "get_srp_isactive s0" by (rule store1)
  have "card (dom (neighbours s0) \<union> ((\<lambda>r. esd_nodeId (snd r)) ` set ?rs - {srp_get_own_node_identifier s0})) \<le> 3"
    using s0(3) by (simp add: card_insert_if card_Diff_singleton_if)
  then obtain s1 where s1: "forP (hear_record fp1) ?rs s0 = Some (Inr (), s1)" "srp_inv 3 21 s1" "srp_global_state s1 = srp_global_state s0"
    "neighbours s1 = nbt.learn fp1 s0 ?rs" using nbt.hear_all [of 3 21 s0 "srp_global_state s0" ?rs fp1] s0(2) by auto
  have "neighbours s1 = [node_n 1 \<mapsto> heard_record fp1 s0 (0, record1 1 0) None, node_n 2 \<mapsto> heard_record fp1 s0 (1000000, record1 2 0) None]"
    unfolding s1(4) nbt.learn_def using s0(3,4) by simp
  then have n: "neighbours s1 = [node_n 1 \<mapsto> \<lparr>nb_esd = record1 1 0, nb_seqno_received = False, nb_last_seqno = 0, nb_gap = 0, nb_last_received = 0\<rparr>,
     node_n 2 \<mapsto> \<lparr>nb_esd = record1 2 0, nb_seqno_received = False, nb_last_seqno = 0, nb_gap = 0, nb_last_received = 1000000\<rparr>]"
    by (simp add: heard_def record1_def fp1_def)
  have a: "get_srp_isactive s1" using s0(5) s1(3) by (simp add: get_srp_isactive_def)
  obtain s where s: "srp_scrubber_round 3000500000 (srp_demon s1, cs) = Some ((srp_demon s1)\<lparr>srp_store := s\<rparr>, cs)"
    "neighbours s = (\<lambda>k. case neighbours s1 k of None \<Rightarrow> None
       | Some nb \<Rightarrow> if unat (3000 :: u16) \<le> unat (milliseconds_passed_since 3000500000 (nb_last_received nb)) then None else Some nb)"
    using scrubber_exact [of 3 21 "srp_demon s1" 3000500000 cs, unfolded srp_demon_simps, OF s1(2) a] by blast
  have "neighbours s = [node_n 2 \<mapsto> \<lparr>nb_esd = record1 2 0, nb_seqno_received = False, nb_last_seqno = 0, nb_gap = 0, nb_last_received = 1000000\<rparr>]"
    unfolding s(2) n by (rule ext) (simp add: milliseconds_passed_since_def signed_divide_int_def)
  with s0(1) s1(1) s(1) show "?P cs" by blast
qed


section \<open>The demon\<close>

text \<open>C27. In every state that the threads of the demon, applications and the beaconing demon reach from a well-formed store,
  the neighbour table is a balanced search tree, every buffer for a record belongs to exactly one neighbour or is
  in the free list exactly once, the record in the buffer of a neighbour is one of this neighbour, and the node itself is not in
  the table.\<close>

theorem srp_demon_invariant:
  assumes "(srp_step L R E fp)\<^sup>*\<^sup>* s s'" "srp_inv n sz (srp_store (fst s))"
  shows "srp_inv n sz (srp_store (fst s'))"
  using assms by (rule srp_run_inv)

theorem srp_demon_invariant_witness:
  "\<forall>wait cs. \<exists>s0. initialize_srp_store 3 21 (Some raw_srp1) (node_n 9) 0 0 = Inr s0
    \<and> srp_inv 3 21 (srp_store (fst (srp_transmitter_round layout1 esd1 0 4 True wait (client_set_own_safety_data 0 position1 (srp_demon s0, cs)))))"
    (is "\<forall>wait cs. ?P wait cs")
proof (intro allI)
  fix wait and cs :: BPShmControlSegment
  obtain s0 where s0: "initialize_srp_store 3 21 (Some raw_srp1) (node_n 9) 0 0 = Inr s0" "srp_inv 3 21 s0" by (rule store1)
  let ?s1 = "client_set_own_safety_data 0 position1 (srp_demon s0, cs)"
  obtain rt cs1 where s1: "?s1 = (rt, cs1)" by (cases ?s1)
  have "srp_exitFlag rt = False" using s1 by (auto simp: client_set_own_safety_data_def)
  then have "srp_step layout1 reader1 esd1 fp1 ?s1 (srp_transmitter_round layout1 esd1 0 4 True wait ?s1)"
    unfolding s1 by (intro srp_step.transmits) simp
  with srp_step.application_writes [of layout1 reader1 esd1 fp1 "(srp_demon s0, cs)" 0 position1]
  have "(srp_step layout1 reader1 esd1 fp1)\<^sup>*\<^sup>* (srp_demon s0, cs) (srp_transmitter_round layout1 esd1 0 4 True wait ?s1)"
    by (meson rtranclp.rtrancl_refl rtranclp.rtrancl_into_rtrancl)
  from srp_demon_invariant [OF this, of 3 21] s0 show "?P wait cs" by auto
qed

text \<open>The receiver returns: when the queue holds payloads, of whatever length and content, and the thread gets the mutex, a round
  ends after as many iterations of its loop as there are payloads at the most, and leaves the store well-formed.\<close>

lemma receiver_round_returns:
  assumes "srp_inv n sz (srp_store rt)" "shm_ok (pqReceivePayloadIndication cs)" "shm_msgs (pqReceivePayloadIndication cs) \<noteq> []"
    "length (shm_msgs (pqReceivePayloadIndication cs)) \<le> length rounds" "\<forall>(attempts, now) \<in> set rounds. attempts \<noteq> [] \<and> fst (hd attempts)"
  shows "\<exists>rt' cs'. srp_receiver_round L R E fp rounds (rt, cs) = Some (rt', cs') \<and> srp_inv n sz (srp_store rt')"
proof -
  obtain y where y: "receive_payloads L R E fp rounds (rt, cs) = Some y"
    using receive_payloads_returns [OF assms, of L R E fp] by blast
  have "\<exists>s'. srp_receiver_round L R E fp rounds (rt, cs) = Some s'" using y by (simp add: srp_receiver_round_def catching_srp_def)
  then obtain rt' cs' where r: "srp_receiver_round L R E fp rounds (rt, cs) = Some (rt', cs')" by auto
  with receiver_round_inv [OF assms(1) r] show ?thesis by blast
qed


section \<open>How the demon ends\<close>

text \<open>C29. One node too many ends the demon: when the table is full and a record of a further node arrives, taking a free buffer
  throws, and the receiver sets the exit flag; the table stays as it was.\<close>

theorem full_table_stops_demon:
  assumes "layout_ok L" "reader_ok L R" "esd_layout_ok E" "srp_listens E rt" "shm_ok (pqReceivePayloadIndication cs)"
    "shm_msgs (pqReceivePayloadIndication cs) = srp_indication L E esd # ms" "get_srp_isactive (srp_store rt)"
    "srp_inv n sz (srp_store rt)" "esd_nodeId esd \<noteq> srp_get_own_node_identifier (srp_store rt)"
    "esd_nodeId esd \<notin> dom (neighbours (srp_store rt))" "card (dom (neighbours (srp_store rt))) = n"
  shows "\<exists>cs'. srp_receiver_round L R E fp (((True, wait, e) # attempts, now) # rounds) (rt, cs) = Some (rt\<lparr>srp_exitFlag := True\<rparr>, cs')"
  by (rule receiver_round_full [OF assms, of fp wait e attempts now rounds]) blast

theorem full_table_stops_demon_witness:
  "\<forall>cs. \<exists>s0 s1 q cs'. initialize_srp_store 3 21 (Some raw_srp1) (node_n 9) 0 0 = Inr s0
    \<and> forP (hear_record fp1) [(0, record1 1 0), (0, record1 2 0), (0, record1 3 0)] s0 = Some (Inr (), s1)
    \<and> shm_msgs q = [srp_indication layout1 esd1 (record1 4 0)]
    \<and> srp_receiver_round layout1 reader1 esd1 fp1 [([(True, \<lambda>q. (False, q), False)], 6)] (srp_demon s1, cs\<lparr>pqReceivePayloadIndication := q\<rparr>)
        = Some ((srp_demon s1)\<lparr>srp_exitFlag := True\<rparr>, cs')"
    (is "\<forall>cs. ?P cs")
proof (rule allI)
  fix cs :: BPShmControlSegment
  obtain s0 s1 where s: "initialize_srp_store 3 21 (Some raw_srp1) (node_n 9) 0 0 = Inr s0"
    "forP (hear_record fp1) [(0, record1 1 0), (0, record1 2 0), (0, record1 3 0)] s0 = Some (Inr (), s1)" "srp_inv 3 21 s1"
    "srp_get_own_node_identifier s1 = node_n 9" "get_srp_isactive s1" "dom (neighbours s1) = {node_n 1, node_n 2, node_n 3}"
    by (rule store1_full)
  let ?m = "srp_indication layout1 esd1 (record1 4 0)"
  have "?m \<noteq> []" "length ?m \<le> maxBufferSize"
    by (simp_all add: layout1_def esd1_def maxBufferSize_def maxBeaconPayloadSize_def be_bytes16_def)
  then obtain q where q: "shm_ok q" "shm_msgs q = [?m]" by (rule indication_queue)
  let ?cs = "cs\<lparr>pqReceivePayloadIndication := q\<rparr>"
  have c: "shm_ok (pqReceivePayloadIndication ?cs)" "shm_msgs (pqReceivePayloadIndication ?cs) = [?m]" using q by simp_all
  have f: "get_srp_isactive (srp_store (srp_demon s1))" "srp_inv 3 21 (srp_store (srp_demon s1))"
    "esd_nodeId (record1 4 0) \<noteq> srp_get_own_node_identifier (srp_store (srp_demon s1))"
    "esd_nodeId (record1 4 0) \<notin> dom (neighbours (srp_store (srp_demon s1)))" "card (dom (neighbours (srp_store (srp_demon s1)))) = 3"
    using s(3-6) by simp_all
  from full_table_stops_demon [OF layout1_ok reader1_ok esd1_ok srp_demon_listens c f, of fp1 "\<lambda>q. (False, q)" False "[]" 6 "[]"] s(1,2) q(2)
  show "?P cs" by blast
qed

text \<open>Two records of a node between two beacons end both demons: when the transmitter has a record to send and the record it handed
  over before has not been put into a beacon yet, its buffer is cleared, but the flag that it holds data stays; the transmitter waits
  in vain for the buffer to be read, gets an error status and sets the exit flag, and the next round of the beaconing demon's
  transmitter throws, sends nothing and sets the exit flag of that demon as well.\<close>

lemma unsent_record_stops_demons:
  assumes "layout_ok L" "esd_layout_ok E" "sends_now now rt" "srp_link L E (pSCS c)" "shm_ok (cs_buffer (pSCS c))" "shm_msgs (cs_buffer (pSCS c)) \<noteq> []"
    "clientProtocols A p = Some c" "static_client_info (pSCS c) = static_info c" "bp_wf L A" "bp_isActive A"
  shows "\<exists>cs A'. srp_transmitter_round L E now stamp True (\<lambda>q. (False, q)) (rt, pSCS c) = ((count_record rt)\<lparr>srp_exitFlag := True\<rparr>, cs)
    \<and> transmitter_round L (\<lambda>_. True) (update_client p (c\<lparr>pSCS := cs\<rparr>) A) = (None, A') \<and> bp_exitFlag A'"
proof -
  let ?m = "srp_message L E (own_record stamp (srp_store rt))"
  obtain b where b: "transmit_payload L (srp_length L E) (Some ?m) True (\<lambda>q. (False, q)) ((), pSCS c)
      = (Inr BP_STATUS_INTERNAL_SHARED_MEMORY_ERROR, ((), (pSCS c)\<lparr>cs_buffer := b\<rparr>))"
    "shm_reset (cs_buffer (pSCS c)) = (Inr (), b)" by (rule transmit_blocked [OF assms(1,2,4-6)])
  let ?cs = "(pSCS c)\<lparr>cs_buffer := b\<rparr>"
  have "BP_STATUS_INTERNAL_SHARED_MEMORY_ERROR \<noteq> BP_STATUS_OK"
    by (simp add: BP_STATUS_INTERNAL_SHARED_MEMORY_ERROR_def BP_STATUS_OK_def BaseBPStatus_def)
  then have srp: "srp_transmitter_round L E now stamp True (\<lambda>q. (False, q)) (rt, pSCS c) = ((count_record rt)\<lparr>srp_exitFlag := True\<rparr>, ?cs)"
    unfolding transmitter_round_sends [OF assms(3)] b(1) by simp
  have once: "ci_queueingMode (static_info c) = BP_QMODE_ONCE" using assms(4,8) by (simp add: srp_link_def)
  then have out: "outgoing c = cs_buffer (pSCS c)" "with_outgoing c b = ?cs"
    "bp_queueing_mode_known (ci_queueingMode (static_info c))"
    by (simp_all add: outgoing_def with_outgoing_def is_queue_mode_def bp_queueing_mode_known_def qmode_defs)
  have st: "stale (c\<lparr>pSCS := ?cs\<rparr>)"
    by (rule reset_makes_stale [OF assms(5,6) [folded out(1)] out(3)]) (use b(2) out in simp)
  have l: "unat (srp_length L E) \<le> length ?m"
    using assms(1,2,4) by (simp add: layout_ok_def esd_layout_ok_def srp_link_def unat_of_nat take_bit_eq_mod del: of_nat_add)
  have "bp_wf0 L A" using assms(9) by (simp add: bp_wf_iff)
  from client_transmit_wf [OF this assms(7) _ l b(1)] have "bp_wf0 L (update_client p (c\<lparr>pSCS := ?cs\<rparr>) A)" by (simp add: fair_wait_def)
  then have "bp_wf L (update_client p (c\<lparr>pSCS := ?cs\<rparr>) A)" using assms(9) by (simp add: bp_wf_iff)
  from transmitter_round_stale [OF this _ _ st, of p] assms(10) srp show ?thesis by auto
qed


text \<open>The transmitter sends in two rounds, and no beacon is generated in between.\<close>

end
