(* ===== verification/VardisRtdb.thy ===== *)
theory VardisRtdb
  imports VardisDemon BpSegment ShmSafety "HOL-Library.Char_ord" "HOL-Library.List_Lexorder"
begin

text \<open>
  The RTDB service thread of the VarDis demon, \<open>dcp/vardis/vardis_management_rtdb.cc\<close>: each registered
  application shares a segment of six queues with the demon (\<open>dcp/vardis/vardis_shm_control_segment.h\<close>).
  In a round the thread takes all requests out of the queues of each application, handles them and
  puts the confirms into the confirm queues.

  What the environment decides is numbered by a counter in the state: the readings \<open>clock k\<close> of the system
  clock, and whether the mutex of a queue was obtained in time, \<open>owns k\<close>.  The mutexes around the handlers
  are scoped, so that they are released in all cases; they are not part of the state.
\<close>

section \<open>Segments and applications\<close>

definition maxServicePrimitiveQueueLength :: nat where
  "maxServicePrimitiveQueueLength = 30"

definition MAX_maxValueLength :: nat where
  "MAX_maxValueLength = VarLenT_max_val"

definition MAX_maxDescriptionLength :: nat where
  "MAX_maxDescriptionLength = 255"

definition maxRTDBServiceBufferSize :: nat where
  "maxRTDBServiceBufferSize = MAX_maxValueLength + MAX_maxDescriptionLength + VarCreateT_fixed_size + 16"

text \<open>The size of a confirm object in memory depends on the compiler; it is at least that of its parts.\<close>

definition maxRTDBConfirmBufferSize :: "nat \<Rightarrow> nat" where
  "maxRTDBConfirmBufferSize sizeof_CT = sizeof_CT + 16"

record VardisShmControlSegment =
  pqCreateRequest :: ShmFiniteQueue
  pqDeleteRequest :: ShmFiniteQueue
  pqUpdateRequest :: ShmFiniteQueue
  pqCreateConfirm :: ShmFiniteQueue
  pqDeleteConfirm :: ShmFiniteQueue
  pqUpdateConfirm :: ShmFiniteQueue

text \<open>The memory of a new queue, before its construction: two arrays of descriptors and the buffers.\<close>

type_synonym raw_memory = "DescrT list \<times> DescrT list \<times> (nat \<Rightarrow> u8)"

definition new_rtdb_queue :: "nat \<Rightarrow> string \<Rightarrow> raw_memory \<Rightarrow> dcp_error + ShmFiniteQueue" where
  "new_rtdb_queue bufsize nm raw =
     (case raw of (qring, fring, mem) \<Rightarrow>
        new_ShmFiniteQueue maxServicePrimitiveQueueLength bufsize (Some nm) maxServicePrimitiveQueueLength qring fring mem)"

fun new_VardisShmControlSegment :: "nat \<Rightarrow> raw_memory list \<Rightarrow> dcp_error + VardisShmControlSegment" where
  "new_VardisShmControlSegment csz [m1, m2, m3, m4, m5, m6] =
     (case new_rtdb_queue maxRTDBServiceBufferSize ''RTDB-Create request'' m1 of Inl e \<Rightarrow> Inl e | Inr q1 \<Rightarrow>
     (case new_rtdb_queue maxRTDBServiceBufferSize ''RTDB-Delete request'' m2 of Inl e \<Rightarrow> Inl e | Inr q2 \<Rightarrow>
     (case new_rtdb_queue maxRTDBServiceBufferSize ''RTDB-Update request'' m3 of Inl e \<Rightarrow> Inl e | Inr q3 \<Rightarrow>
     (case new_rtdb_queue (maxRTDBConfirmBufferSize csz) ''RTDB-Create confirm'' m4 of Inl e \<Rightarrow> Inl e | Inr q4 \<Rightarrow>
     (case new_rtdb_queue (maxRTDBConfirmBufferSize csz) ''RTDB-Delete confirm'' m5 of Inl e \<Rightarrow> Inl e | Inr q5 \<Rightarrow>
     (case new_rtdb_queue (maxRTDBConfirmBufferSize csz) ''RTDB-Update confirm'' m6 of Inl e \<Rightarrow> Inl e | Inr q6 \<Rightarrow>
        Inr \<lparr>pqCreateRequest = q1, pqDeleteRequest = q2, pqUpdateRequest = q3,
             pqCreateConfirm = q4, pqDeleteConfirm = q5, pqUpdateConfirm = q6\<rparr>))))))"
| "new_VardisShmControlSegment csz _ = Inl ShmException"

record VardisClientProtocolData =
  vc_clientName :: string
  vc_pSCS :: VardisShmControlSegment

record VardisRuntimeData = VardisDemon +
  clientApplications :: "string \<rightharpoonup> VardisClientProtocolData"

section \<open>Requests and confirms in a buffer\<close>

text \<open>A push handler that serializes an object into the first \<open>n\<close> bytes of the buffer.\<close>

definition serialize_into :: "nat \<Rightarrow> ('x \<Rightarrow> (aa, unit) action) \<Rightarrow> 'x \<Rightarrow> 'h PushHandler" where
  "serialize_into n ser x = (\<lambda>_ (h, bs).
     case MemoryChunkAssemblyArea_block n (Some bs) of
       Inl e \<Rightarrow> (Inl e, (h, bs))
     | Inr area \<Rightarrow>
         (case ser x area of
            (Inl e, area) \<Rightarrow> (Inl e, (h, aa_buffer area))
          | (Inr _, area) \<Rightarrow> (Inr (bytes_used area), (h, aa_buffer area))))"

text \<open>State: the counter, the protocol data, the exit flag, and the confirm queue.\<close>

type_synonym rtdb_state = "nat \<times> VardisProtocolData \<times> bool \<times> ShmFiniteQueue"
type_synonym ('r, 'c) caller_handler = "'r \<Rightarrow> (nat \<times> VardisProtocolData, 'c) action"

definition request_handler ::
  "nat \<Rightarrow> (nat \<Rightarrow> bool) \<Rightarrow> (da, 'r) action \<Rightarrow> ('r, 'c) caller_handler \<Rightarrow> ('c \<Rightarrow> (aa, unit) action) \<Rightarrow> rtdb_state PopHandler" where
  "request_handler sizeof_CT owns des caller ser msg = (\<lambda>(k, pd, x, cq).
     case des (MemoryChunkDisassemblyArea (length msg) msg) of
       (Inl e, _) \<Rightarrow> (Inl e, (k, pd, x, cq))
     | (Inr theRequest, _) \<Rightarrow>
         (case caller theRequest (k, pd) of
            (Inl e, (k, pd)) \<Rightarrow> (Inl e, (k, pd, x, cq))
          | (Inr theConfirm, (k, pd)) \<Rightarrow>
              (case push_nowait (serialize_into sizeof_CT ser theConfirm) defaultLongSharedMemoryLockTimeoutMS (owns k) ((), cq) of
                 (Inl e, (_, cq)) \<Rightarrow> (Inl e, (Suc k, pd, x, cq))
               | (Inr (conf_timed_out, conf_is_full), (_, cq)) \<Rightarrow>
                   (Inr (), (Suc k, pd, x \<or> conf_timed_out \<or> conf_is_full, cq)))))"

definition handle_request_queue ::
  "nat \<Rightarrow> (nat \<Rightarrow> bool) \<Rightarrow> (da, 'r) action \<Rightarrow> ('r, 'c) caller_handler \<Rightarrow> ('c \<Rightarrow> (aa, unit) action)
     \<Rightarrow> (nat \<times> VardisProtocolData \<times> bool \<times> ShmFiniteQueue \<times> ShmFiniteQueue, unit) action" where
  "handle_request_queue sizeof_CT owns des caller ser = (\<lambda>(k, pd, x, rq, cq).
     case popall_nowait (request_handler sizeof_CT owns des caller ser) defaultLongSharedMemoryLockTimeoutMS (owns k)
            ((Suc k, pd, x, cq), rq) of
       (Inl e, ((k, pd, x, cq), rq)) \<Rightarrow> (Inl e, (k, pd, x, rq, cq))
     | (Inr late, ((k, pd, x, cq), rq)) \<Rightarrow> (Inr (), (k, pd, x \<or> late, rq, cq)))"

section \<open>The three services\<close>

definition create_handler :: "(nat \<Rightarrow> TimeStampT) \<Rightarrow> (RTDB_Create_Request, RTDB_Create_Confirm) caller_handler" where
  "create_handler clock cr_req = (\<lambda>(k, pd).
     case handle_rtdb_create_request (clock k) (clock (Suc k)) cr_req pd of (r, pd) \<Rightarrow> (r, (k + 2, pd)))"

definition delete_handler :: "(RTDB_Delete_Request, RTDB_Delete_Confirm) caller_handler" where
  "delete_handler del_req = (\<lambda>(k, pd).
     case handle_rtdb_delete_request del_req pd of (r, pd) \<Rightarrow> (r, (k, pd)))"

definition update_handler :: "(nat \<Rightarrow> TimeStampT) \<Rightarrow> (RTDB_Update_Request, RTDB_Update_Confirm) caller_handler" where
  "update_handler clock upd_req = (\<lambda>(k, pd).
     case handle_rtdb_update_request (clock k) upd_req pd of (r, pd) \<Rightarrow> (r, (Suc k, pd)))"

type_synonym segment_state = "nat \<times> VardisProtocolData \<times> bool \<times> VardisShmControlSegment"

definition serve_creates :: "nat \<Rightarrow> (nat \<Rightarrow> bool) \<Rightarrow> (nat \<Rightarrow> TimeStampT) \<Rightarrow> (segment_state, unit) action" where
  "serve_creates csz owns clock =
     zoomE (\<lambda>(k, pd, x, CS). (k, pd, x, pqCreateRequest CS, pqCreateConfirm CS))
       (\<lambda>(k, pd, x, rq, cq) (_, _, _, CS). (k, pd, x, CS\<lparr>pqCreateRequest := rq, pqCreateConfirm := cq\<rparr>))
       (handle_request_queue csz owns des_RTDB_Create_Request (create_handler clock) ser_RTDB_Confirm)"

definition serve_deletes :: "nat \<Rightarrow> (nat \<Rightarrow> bool) \<Rightarrow> (segment_state, unit) action" where
  "serve_deletes csz owns =
     zoomE (\<lambda>(k, pd, x, CS). (k, pd, x, pqDeleteRequest CS, pqDeleteConfirm CS))
       (\<lambda>(k, pd, x, rq, cq) (_, _, _, CS). (k, pd, x, CS\<lparr>pqDeleteRequest := rq, pqDeleteConfirm := cq\<rparr>))
       (handle_request_queue csz owns des_RTDB_Delete_Request delete_handler ser_RTDB_Confirm)"

definition serve_updates :: "nat \<Rightarrow> (nat \<Rightarrow> bool) \<Rightarrow> (nat \<Rightarrow> TimeStampT) \<Rightarrow> (segment_state, unit) action" where
  "serve_updates csz owns clock =
     zoomE (\<lambda>(k, pd, x, CS). (k, pd, x, pqUpdateRequest CS, pqUpdateConfirm CS))
       (\<lambda>(k, pd, x, rq, cq) (_, _, _, CS). (k, pd, x, CS\<lparr>pqUpdateRequest := rq, pqUpdateConfirm := cq\<rparr>))
       (handle_request_queue csz owns des_RTDB_Update_Request (update_handler clock) ser_RTDB_Confirm)"

definition serve_segment :: "nat \<Rightarrow> (nat \<Rightarrow> bool) \<Rightarrow> (nat \<Rightarrow> TimeStampT) \<Rightarrow> (segment_state, unit) action" where
  "serve_segment csz owns clock =
     bindE (serve_creates csz owns clock) (\<lambda>_.
     bindE (serve_deletes csz owns) (\<lambda>_.
     serve_updates csz owns clock))"

section \<open>The thread\<close>

definition on_client :: "string \<Rightarrow> (segment_state, 'a) action \<Rightarrow> (nat \<times> VardisRuntimeData, 'a) action" where
  "on_client name =
     zoomE (\<lambda>(k, rt). (k, protocol_data rt, vardis_exitFlag rt, vc_pSCS (the (clientApplications rt name))))
       (\<lambda>(k, pd, x, CS) (_, rt). (k, rt\<lparr>protocol_data := pd, vardis_exitFlag := x,
          clientApplications := (clientApplications rt)(name \<mapsto> (the (clientApplications rt name))\<lparr>vc_pSCS := CS\<rparr>)\<rparr>))"

definition handle_client_shared_memory ::
  "nat \<Rightarrow> (nat \<Rightarrow> bool) \<Rightarrow> (nat \<Rightarrow> TimeStampT) \<Rightarrow> string \<Rightarrow> (nat \<times> VardisRuntimeData, unit) action" where
  "handle_client_shared_memory csz owns clock name = (\<lambda>(k, rt).
     if \<not> get_vardis_isactive (vardis_store (protocol_data rt)) then (Inr (), (k, rt))
     else if vardis_exitFlag rt then (Inr (), (k, rt))
     else on_client name (serve_segment csz owns clock) (k, rt))"

text \<open>The applications in the order of the map: of their names, as strings of unsigned characters.\<close>

definition application_names :: "VardisRuntimeData \<Rightarrow> string list" where
  "application_names rt = sorted_list_of_set (dom (clientApplications rt))"

definition rtdb_round ::
  "nat \<Rightarrow> (nat \<Rightarrow> bool) \<Rightarrow> (nat \<Rightarrow> TimeStampT) \<Rightarrow> nat \<times> VardisRuntimeData \<Rightarrow> nat \<times> VardisRuntimeData" where
  "rtdb_round csz owns clock = (\<lambda>(k, rt).
     case forE (handle_client_shared_memory csz owns clock) (application_names rt) (k, rt) of
       (Inl e, (k, rt)) \<Rightarrow> (k, rt\<lparr>vardis_exitFlag := True\<rparr>)
     | (Inr _, s) \<Rightarrow> s)"

section \<open>Messages\<close>

lemma long_timeout_nonzero: "defaultLongSharedMemoryLockTimeoutMS \<noteq> 0"
  by (simp add: defaultLongSharedMemoryLockTimeoutMS_def)

lemma serialize_into_writes:
  assumes "codec ser des enc ok" "ok x" "length (enc x) \<le> n" "n \<le> sz" "0 < n"
  shows "writes (serialize_into n ser x) h sz (enc x) h"
proof -
  have "serialize_into n ser x sz (h, bs) = (Inr (length (enc x)), (h, enc x @ drop (length (enc x)) bs))"
    if l: "length bs = sz" for bs
  proof -
    obtain a where a: "MemoryChunkAssemblyArea_block n (Some bs) = Inr a" "wf_aa a" "bytes_available a = n"
      "bytes_used a = 0" "aa_buffer a = bs"
      using assms(4,5) l wf_new_areas(4) [of n bs] by (simp add: MemoryChunkAssemblyArea_block_def)
    have "ser x a = (Inr (), aa_append (enc x) a)" using codec.ser [OF assms(1,2) a(2)] assms(3) a(3) by simp
    moreover have "aa_buffer (aa_append (enc x) a) = enc x @ drop (length (enc x)) bs"
      using a(4,5) assms(3,4) l by (simp add: aa_append_def memcpy_at_def)
    ultimately show ?thesis using a by (simp add: serialize_into_def)
  qed
  then show ?thesis using assms(3,4) by (simp add: writes_def)
qed

section \<open>The contract of a service\<close>

text \<open>What the handlers of the protocol make of the requests, one after the other.\<close>

fun serve_all :: "('r, 'c) caller_handler \<Rightarrow> 'r list \<Rightarrow> nat \<times> VardisProtocolData \<Rightarrow> 'c list \<times> nat \<times> VardisProtocolData" where
  "serve_all caller [] s = ([], s)"
| "serve_all caller (r # rs) s =
     (case caller r s of
        (Inl e, s) \<Rightarrow> ([], s)
      | (Inr c, (k, pd)) \<Rightarrow> (case serve_all caller rs (Suc k, pd) of (cs, s) \<Rightarrow> (c # cs, s)))"

definition confirm_queue_ok :: "nat \<Rightarrow> ShmFiniteQueue \<Rightarrow> bool" where
  "confirm_queue_ok csz cq \<longleftrightarrow> shm_ok cq \<and> csz \<le> bufferSize cq"

definition room :: "ShmFiniteQueue \<Rightarrow> nat" where
  "room q = maxCapacity (shm_queue q) - length (shm_msgs q)"

lemma push_confirm:
  assumes "confirm_queue_ok csz cq" "codec ser des enc (\<lambda>_. True)" "0 < length (enc c)" "length (enc c) \<le> csz"
  obtains (pushed) cq' where "own" "0 < room cq"
      "push_nowait (serialize_into csz ser c) defaultLongSharedMemoryLockTimeoutMS own ((), cq) = (Inr (False, False), ((), cq'))"
      "confirm_queue_ok csz cq'" "shm_msgs cq' = shm_msgs cq @ [enc c]" "shape cq' = shape cq"
    | (refused) late full where "\<not> own \<or> room cq = 0" "late \<or> full"
      "push_nowait (serialize_into csz ser c) defaultLongSharedMemoryLockTimeoutMS own ((), cq) = (Inr (late, full), ((), cq))"
proof (cases "own \<and> 0 < room cq")
  case True
  have w: "writes (serialize_into csz ser c) () (bufferSize cq) (enc c) ()"
    using assms less_le_trans [OF assms(3,4)] by (intro serialize_into_writes [OF assms(2)]) (auto simp: confirm_queue_ok_def)
  have q: "shm_ok cq" "length (shm_msgs cq) < maxCapacity (shm_queue cq)" "enc c \<noteq> []"
    using assms(1,3) True by (auto simp: confirm_queue_ok_def room_def)
  show ?thesis
    by (rule push_nowait_ok [OF q(1) w q(3,2) long_timeout_nonzero], rule pushed)
      (use True assms(1) in \<open>auto simp: confirm_queue_ok_def shape_def\<close>)
next
  case False
  show ?thesis
  proof (cases own)
    case True
    then have "length (shm_msgs cq) = maxCapacity (shm_queue cq)" "shm_ok cq"
      using False assms(1) shm_okE [of cq] by (auto simp: room_def confirm_queue_ok_def)
    then have "push_nowait (serialize_into csz ser c) defaultLongSharedMemoryLockTimeoutMS own ((), cq) = (Inr (False, True), ((), cq))"
      using True by (simp add: push_nowait_full long_timeout_nonzero)
    then show ?thesis using True False refused [of False True] by simp
  next
    case False
    then show ?thesis using refused [of True False] long_timeout_nonzero by (simp add: push_nowait_def bindE_def)
  qed
qed

locale rtdb_service =
  fixes ser_r :: "'r \<Rightarrow> (aa, unit) action"
    and des :: "(da, 'r) action"
    and enc :: "'r \<Rightarrow> u8 list"
    and ok :: "'r \<Rightarrow> bool"
    and caller :: "('r, 'c) caller_handler"
    and good :: "'r \<Rightarrow> bool"
    and ser :: "'c \<Rightarrow> (aa, unit) action"
    and des_c :: "(da, 'c) action"
    and enc_c :: "'c \<Rightarrow> u8 list"
  assumes request_codec: "codec ser_r des enc ok"
    and confirm_codec: "codec ser des_c enc_c (\<lambda>_. True)"
    and confirm_size: "length (enc_c c) = 5"
    and good_ok: "good r \<Longrightarrow> ok r"
    and answers: "good r \<Longrightarrow> wf_pd pd \<Longrightarrow> \<exists>c k' pd'. caller r (k, pd) = (Inr c, (k', pd')) \<and> wf_pd pd'"
    and keeps: "ok r \<Longrightarrow> wf_pd pd \<Longrightarrow> caller r (k, pd) = (Inr c, (k', pd')) \<Longrightarrow> wf_pd pd'"
begin

lemma read_request: "good r \<Longrightarrow> \<exists>d. des (MemoryChunkDisassemblyArea (length (enc r)) (enc r)) = (Inr r, d)"
  using codec.des [OF request_codec good_ok, of r "MemoryChunkDisassemblyArea (length (enc r)) (enc r)" "[]"] by auto

lemma request_handled:
  assumes "good r" "caller r (k, pd) = (Inr c, (k', pd'))" "confirm_queue_ok csz cq" "5 \<le> csz" "0 < room cq" "owns k'"
  obtains cq' where "request_handler csz owns des caller ser (enc r) (k, pd, x, cq) = (Inr (), (Suc k', pd', x, cq'))"
    "confirm_queue_ok csz cq'" "shm_msgs cq' = shm_msgs cq @ [enc_c c]" "shape cq' = shape cq"
proof -
  have l: "0 < length (enc_c c)" "length (enc_c c) \<le> csz" using assms(4) by (simp_all add: confirm_size)
  show thesis
  proof (cases rule: push_confirm [OF assms(3) confirm_codec l, of "owns k'"])
    case (1 cq')
    then show ?thesis using that [of cq'] read_request [OF assms(1)] assms(2) by (auto simp: request_handler_def)
  next
    case (2 late full)
    then show ?thesis using assms(5,6) by simp
  qed
qed

text \<open>Requests are answered in their order, as far as there is room for the confirms.\<close>

lemma requests_handled:
  assumes "\<forall>r \<in> set rs. good r" "wf_pd pd" "confirm_queue_ok csz cq" "5 \<le> csz" "length rs \<le> room cq" "\<forall>k. owns k"
  shows "\<exists>cs k' pd' cq'. serve_all caller rs (k, pd) = (cs, k', pd') \<and> length cs = length rs \<and> wf_pd pd'
    \<and> forE (request_handler csz owns des caller ser) (map enc rs) (k, pd, x, cq) = (Inr (), (k', pd', x, cq'))
    \<and> confirm_queue_ok csz cq' \<and> shm_msgs cq' = shm_msgs cq @ map enc_c cs \<and> shape cq' = shape cq"
  using assms
proof (induction rs arbitrary: k pd cq)
  case (Cons r rs)
  have g: "good r" "\<forall>r \<in> set rs. good r" using Cons.prems(1) by simp_all
  obtain c k1 pd1 where c: "caller r (k, pd) = (Inr c, (k1, pd1))" "wf_pd pd1" using answers [OF g(1) Cons.prems(2)] by blast
  have "0 < room cq" "owns k1" using Cons.prems(5,6) by simp_all
  from request_handled [where owns = owns, OF g(1) c(1) Cons.prems(3,4) this] obtain cq1 where
    q1: "request_handler csz owns des caller ser (enc r) (k, pd, x, cq) = (Inr (), (Suc k1, pd1, x, cq1))"
      "confirm_queue_ok csz cq1" "shm_msgs cq1 = shm_msgs cq @ [enc_c c]" "shape cq1 = shape cq" by blast
  have "length rs \<le> room cq1" using Cons.prems(5) q1(3,4) by (auto simp: room_def shape_def)
  from Cons.IH [OF g(2) c(2) q1(2) Cons.prems(4) this Cons.prems(6), of "Suc k1"] obtain cs k' pd' cq' where
    "serve_all caller rs (Suc k1, pd1) = (cs, k', pd')" "length cs = length rs" "wf_pd pd'"
    "forE (request_handler csz owns des caller ser) (map enc rs) (Suc k1, pd1, x, cq1) = (Inr (), (k', pd', x, cq'))"
    "confirm_queue_ok csz cq'" "shm_msgs cq' = shm_msgs cq1 @ map enc_c cs" "shape cq' = shape cq1" by blast
  then show ?case using c q1 by (intro exI [of _ "c # cs"] exI [of _ k'] exI [of _ pd'] exI [of _ cq']) simp
qed simp

lemma queue_served:
  assumes "shm_ok rq" "shm_msgs rq = map enc rs" "\<forall>r \<in> set rs. good r" "wf_pd pd" "confirm_queue_ok csz cq" "5 \<le> csz"
    "length rs \<le> room cq" "\<forall>k. owns k"
  obtains cs k' pd' rq' cq' where "serve_all caller rs (Suc k, pd) = (cs, k', pd')" "length cs = length rs" "wf_pd pd'"
    "handle_request_queue csz owns des caller ser (k, pd, x, rq, cq) = (Inr (), (k', pd', x, rq', cq'))"
    "shm_ok rq'" "shm_msgs rq' = []" "shape rq' = shape rq"
    "confirm_queue_ok csz cq'" "shm_msgs cq' = shm_msgs cq @ map enc_c cs" "shape cq' = shape cq"
proof -
  obtain cs k' pd' cq' where s: "serve_all caller rs (Suc k, pd) = (cs, k', pd')" "length cs = length rs" "wf_pd pd'"
    "forE (request_handler csz owns des caller ser) (shm_msgs rq) (Suc k, pd, x, cq) = (Inr (), (k', pd', x, cq'))"
    "confirm_queue_ok csz cq'" "shm_msgs cq' = shm_msgs cq @ map enc_c cs" "shape cq' = shape cq"
    using requests_handled [OF assms(3-8), of "Suc k" x] assms(2) by auto
  from popall_nowait_ok [OF assms(1) s(4) long_timeout_nonzero] obtain rq' where
    "popall_nowait (request_handler csz owns des caller ser) defaultLongSharedMemoryLockTimeoutMS True ((Suc k, pd, x, cq), rq)
       = (Inr False, ((k', pd', x, cq'), rq'))" "shm_ok rq'" "shm_msgs rq' = []" "shape rq' = shape rq" by blast
  then show thesis using that s assms(8) by (simp add: handle_request_queue_def)
qed

text \<open>Without room for the confirm the request is carried out, but the demon exits.\<close>

lemma request_unconfirmed:
  assumes "good r" "caller r (k, pd) = (Inr c, (k', pd'))" "confirm_queue_ok csz cq" "5 \<le> csz" "room cq = 0"
  shows "request_handler csz owns des caller ser (enc r) (k, pd, x, cq) = (Inr (), (Suc k', pd', True, cq))"
proof -
  have l: "0 < length (enc_c c)" "length (enc_c c) \<le> csz" using assms(4) by (simp_all add: confirm_size)
  show ?thesis
  proof (cases rule: push_confirm [OF assms(3) confirm_codec l, of "owns k'"])
    case (1 cq')
    then show ?thesis using assms(5) by simp
  next
    case (2 late full)
    then show ?thesis using read_request [OF assms(1)] assms(2) by (auto simp: request_handler_def)
  qed
qed

text \<open>Whatever bytes a client has put into the queue, whoever holds the mutexes, and whether or not the flags of the
  queues are right: the confirm queue keeps its shape, and no buffer is used twice.\<close>

lemma push_confirm_safe:
  assumes "holds [] cq" "csz \<le> bufferSize cq" "5 \<le> csz"
    "push_nowait (serialize_into csz ser c) t own ((), cq) = (r, (u, cq'))"
  shows "holds [] cq' \<and> shape cq' = shape cq"
proof -
  have "writes (serialize_into csz ser c) () (bufferSize cq) (enc_c c) ()"
    using assms(2,3) by (intro serialize_into_writes [OF confirm_codec]) (simp_all add: confirm_size)
  then have "stays_inside (serialize_into csz ser c) () (bufferSize cq)"
    using assms(2,3) by (auto simp: writes_def stays_inside_def)
  from keepsD [OF push_nowait_keeps [OF assms(1) this] assms(4)] show ?thesis .
qed

lemma any_request_safe:
  assumes "wf_pd pd" "holds [] cq" "csz \<le> bufferSize cq" "5 \<le> csz"
    "request_handler csz owns des caller ser msg (k, pd, x, cq) = (Inr (), (k', pd', x', cq'))"
  shows "wf_pd pd' \<and> holds [] cq' \<and> shape cq' = shape cq"
proof -
  obtain r d where d: "des (MemoryChunkDisassemblyArea (length msg) msg) = (Inr r, d)"
    using assms(5) by (auto simp: request_handler_def split: prod.splits sum.splits)
  have "ok r" using codec.des_soundD(1) [OF request_codec d] by simp
  obtain c k1 pd1 where c: "caller r (k, pd) = (Inr c, (k1, pd1))"
    using assms(5) d by (auto simp: request_handler_def split: prod.splits sum.splits)
  have "wf_pd pd1" by (rule keeps [OF \<open>ok r\<close> assms(1) c])
  obtain p u cq1 where p: "push_nowait (serialize_into csz ser c) defaultLongSharedMemoryLockTimeoutMS (owns k1) ((), cq) = (p, (u, cq1))"
    by (rule prod_cases3)
  have "pd' = pd1" "cq' = cq1"
    using assms(5) d c p by (auto simp: request_handler_def split: sum.splits prod.splits)
  with push_confirm_safe [OF assms(2-4) p] \<open>wf_pd pd1\<close> show ?thesis by simp
qed

lemma any_queue_safe:
  assumes "wf_pd pd" "holds [] rq" "holds [] cq" "csz \<le> bufferSize cq" "5 \<le> csz"
    "handle_request_queue csz owns des caller ser (k, pd, x, rq, cq) = (Inr (), (k', pd', x', rq', cq'))"
  shows "wf_pd pd' \<and> holds [] rq' \<and> shape rq' = shape rq \<and> holds [] cq' \<and> shape cq' = shape cq"
proof -
  let ?P = "\<lambda>(k, pd, x, cq'). wf_pd pd \<and> holds [] cq' \<and> shape cq' = shape cq"
  have start: "?P (Suc k, pd, x, cq)" using assms(1,3) by simp
  have step: "?P h'" if "?P h" "request_handler csz owns des caller ser m h = (Inr (), h')" for m h h'
  proof -
    obtain k1 pd1 x1 cq1 k2 pd2 x2 cq2 where h: "h = (k1, pd1, x1, cq1)" "h' = (k2, pd2, x2, cq2)"
      by (cases h; cases h') blast
    have "csz \<le> bufferSize cq1" using that(1) assms(4) h(1) by (simp add: shape_def)
    with any_request_safe [OF _ _ this assms(5) that(2) [unfolded h]] that(1) h show ?thesis by simp
  qed
  obtain late x1 where p: "popall_nowait (request_handler csz owns des caller ser) defaultLongSharedMemoryLockTimeoutMS (owns k)
      ((Suc k, pd, x, cq), rq) = (Inr late, ((k', pd', x1, cq'), rq'))"
    using assms(6) by (auto simp: handle_request_queue_def split: sum.splits prod.splits)
  from popall_nowait_safe [where P = ?P, OF assms(2) start step p] show ?thesis by simp
qed

end

end
