(* ===== verification/VardisSegment.thy ===== *)
theory VardisSegment
  imports VardisRtdb
begin

text \<open>
  The segments of the applications and the RTDB thread: a new segment is usable, whatever requests a client
  leaves in it the thread keeps the protocol data and the segments in order, and requests that are well-formed
  are answered one by one.
\<close>

section \<open>The services keep their contract\<close>

lemma length_enc_RTDB_Confirm: "length (enc_RTDB_Confirm c) = 5"
  by (simp add: enc_RTDB_Confirm_def enc_TypeStatus_def be_bytes16_def enc_byte_def)

text \<open>A create request with an empty description makes the store throw; the others are answered.\<close>

definition described :: "RTDB_Create_Request \<Rightarrow> bool" where
  "described r \<longleftrightarrow> wf_RTDB_Create_Request r \<and> 0 < mb_length (spec_descr (crq_spec r))"

lemma create_answered:
  assumes "described r" "wf_pd pd"
  shows "\<exists>pd'. handle_rtdb_create_request now1 now2 r pd
      = (Inr (RTDB_Create_Confirm (create_status pd r) (spec_varId (crq_spec r))), pd') \<and> wf_pd pd'"
proof (cases "create_status pd r = VARDIS_STATUS_OK")
  case False
  then show ?thesis using handle_rtdb_create_refused [OF False, of now1 now2] assms(2) by simp
next
  case True
  have d: "wf_RTDB_Create_Request r" "mb_length (spec_descr (crq_spec r)) > 0" using assms(1) by (simp_all add: described_def)
  from handle_rtdb_create_accept [OF assms(2) True d, of now1 now2] True show ?thesis by metis
qed

interpretation create_service: rtdb_service ser_RTDB_Create_Request des_RTDB_Create_Request enc_RTDB_Create_Request
  wf_RTDB_Create_Request "create_handler clock" described ser_RTDB_Confirm des_RTDB_Confirm enc_RTDB_Confirm
proof (rule rtdb_service.intro, goal_cases)
  case (5 r pd k)
  then show ?case using create_answered [of r pd "clock k" "clock (Suc k)"] by (auto simp: create_handler_def)
next
  case (6 r pd k c k' pd')
  then show ?case using create_request_ok [of pd r] by (auto simp: create_handler_def split: prod.splits)
qed (simp_all add: create_request_codec.codec_axioms confirm_codec.codec_axioms length_enc_RTDB_Confirm described_def)

interpretation delete_service: rtdb_service ser_RTDB_Delete_Request des_RTDB_Delete_Request enc_RTDB_Id_Request
  "\<lambda>_. True" delete_handler "\<lambda>_. True" ser_RTDB_Confirm des_RTDB_Confirm enc_RTDB_Confirm
proof (rule rtdb_service.intro, goal_cases)
  case (5 r pd k)
  then show ?case using handlers_ok(1) [of pd r] by (auto simp: delete_handler_def handle_rtdb_delete_spec split: prod.splits)
next
  case (6 r pd k c k' pd')
  then show ?case using handlers_ok(1) [of pd r] by (auto simp: delete_handler_def split: prod.splits)
qed (simp_all add: delete_request_codec.codec_axioms confirm_codec.codec_axioms length_enc_RTDB_Confirm)

interpretation update_service: rtdb_service ser_RTDB_Update_Request des_RTDB_Update_Request enc_RTDB_Update_Request
  wf_RTDB_Update_Request "update_handler clock" wf_RTDB_Update_Request ser_RTDB_Confirm des_RTDB_Confirm enc_RTDB_Confirm
proof (rule rtdb_service.intro, goal_cases)
  case (5 r pd k)
  then show ?case using handlers_ok(2) [of pd r "clock k"]
    by (auto simp: update_handler_def handle_rtdb_update_spec split: prod.splits)
next
  case (6 r pd k c k' pd')
  then show ?case using handlers_ok(2) [of pd r "clock k"] by (auto simp: update_handler_def split: prod.splits)
qed (simp_all add: update_request_codec.codec_axioms confirm_codec.codec_axioms length_enc_RTDB_Confirm)

section \<open>Segments\<close>

definition rtdb_queue_ok :: "nat \<Rightarrow> ShmFiniteQueue \<Rightarrow> bool" where
  "rtdb_queue_ok bufsize q \<longleftrightarrow> shm_ok q \<and> bufferSize q = bufsize \<and> maxCapacity (shm_queue q) = maxServicePrimitiveQueueLength"

definition segment_ok :: "nat \<Rightarrow> VardisShmControlSegment \<Rightarrow> bool" where
  "segment_ok csz CS \<longleftrightarrow>
     (\<forall>q \<in> {pqCreateRequest CS, pqDeleteRequest CS, pqUpdateRequest CS}. rtdb_queue_ok maxRTDBServiceBufferSize q)
   \<and> (\<forall>q \<in> {pqCreateConfirm CS, pqDeleteConfirm CS, pqUpdateConfirm CS}. rtdb_queue_ok (maxRTDBConfirmBufferSize csz) q)"

definition raw_memory_ok :: "raw_memory \<Rightarrow> bool" where
  "raw_memory_ok raw \<longleftrightarrow> (case raw of (qring, fring, mem) \<Rightarrow>
     length qring = maxServicePrimitiveQueueLength + 1 \<and> length fring = maxServicePrimitiveQueueLength + 1)"

lemma new_rtdb_queue_ok:
  assumes "raw_memory_ok raw" "length nm \<le> 255"
  obtains q where "new_rtdb_queue bufsize nm raw = Inr q" "rtdb_queue_ok bufsize q" "shm_msgs q = []"
proof -
  obtain m1 m2 m3 where raw: "raw = (m1, m2, m3)" by (cases raw)
  have l: "length m1 = maxServicePrimitiveQueueLength + 1" "length m2 = maxServicePrimitiveQueueLength + 1"
    using assms(1) raw by (simp_all add: raw_memory_ok_def)
  have k: "1 \<le> maxServicePrimitiveQueueLength" by (simp add: maxServicePrimitiveQueueLength_def)
  show thesis
    by (rule new_ShmFiniteQueue_ok [OF k order_refl l assms(2), of bufsize m3])
      (rule that, simp_all add: raw new_rtdb_queue_def rtdb_queue_ok_def)
qed

lemma new_vardis_segment_ok:
  assumes "length raws = 6" "\<forall>raw \<in> set raws. raw_memory_ok raw"
  obtains CS where "new_VardisShmControlSegment csz raws = Inr CS" "segment_ok csz CS"
    "\<forall>q \<in> {pqCreateRequest CS, pqDeleteRequest CS, pqUpdateRequest CS, pqCreateConfirm CS, pqDeleteConfirm CS, pqUpdateConfirm CS}.
       shm_msgs q = []"
proof -
  obtain m1 m2 m3 m4 m5 m6 where m: "raws = [m1, m2, m3, m4, m5, m6]"
    using assms(1) by (auto simp: length_Suc_conv eval_nat_numeral)
  have ok: "raw_memory_ok m1" "raw_memory_ok m2" "raw_memory_ok m3" "raw_memory_ok m4" "raw_memory_ok m5" "raw_memory_ok m6"
    using assms(2) m by simp_all
  obtain q1 where q1: "new_rtdb_queue maxRTDBServiceBufferSize ''RTDB-Create request'' m1 = Inr q1"
    "rtdb_queue_ok maxRTDBServiceBufferSize q1" "shm_msgs q1 = []" by (rule new_rtdb_queue_ok [OF ok(1)]) auto
  obtain q2 where q2: "new_rtdb_queue maxRTDBServiceBufferSize ''RTDB-Delete request'' m2 = Inr q2"
    "rtdb_queue_ok maxRTDBServiceBufferSize q2" "shm_msgs q2 = []" by (rule new_rtdb_queue_ok [OF ok(2)]) auto
  obtain q3 where q3: "new_rtdb_queue maxRTDBServiceBufferSize ''RTDB-Update request'' m3 = Inr q3"
    "rtdb_queue_ok maxRTDBServiceBufferSize q3" "shm_msgs q3 = []" by (rule new_rtdb_queue_ok [OF ok(3)]) auto
  obtain q4 where q4: "new_rtdb_queue (maxRTDBConfirmBufferSize csz) ''RTDB-Create confirm'' m4 = Inr q4"
    "rtdb_queue_ok (maxRTDBConfirmBufferSize csz) q4" "shm_msgs q4 = []" by (rule new_rtdb_queue_ok [OF ok(4)]) auto
  obtain q5 where q5: "new_rtdb_queue (maxRTDBConfirmBufferSize csz) ''RTDB-Delete confirm'' m5 = Inr q5"
    "rtdb_queue_ok (maxRTDBConfirmBufferSize csz) q5" "shm_msgs q5 = []" by (rule new_rtdb_queue_ok [OF ok(5)]) auto
  obtain q6 where q6: "new_rtdb_queue (maxRTDBConfirmBufferSize csz) ''RTDB-Update confirm'' m6 = Inr q6"
    "rtdb_queue_ok (maxRTDBConfirmBufferSize csz) q6" "shm_msgs q6 = []" by (rule new_rtdb_queue_ok [OF ok(6)]) auto
  show thesis
  proof (rule that)
    show "new_VardisShmControlSegment csz raws = Inr \<lparr>pqCreateRequest = q1, pqDeleteRequest = q2, pqUpdateRequest = q3,
        pqCreateConfirm = q4, pqDeleteConfirm = q5, pqUpdateConfirm = q6\<rparr>"
      by (simp only: m new_VardisShmControlSegment.simps q1(1) q2(1) q3(1) q4(1) q5(1) q6(1) sum.case)
  qed (use q1 q2 q3 q4 q5 q6 in \<open>simp_all add: segment_ok_def\<close>)
qed

section \<open>Requests are served in order\<close>

definition seg_msgs :: "VardisShmControlSegment
   \<Rightarrow> u8 list list \<times> u8 list list \<times> u8 list list \<times> u8 list list \<times> u8 list list \<times> u8 list list" where
  "seg_msgs CS = (shm_msgs (pqCreateRequest CS), shm_msgs (pqDeleteRequest CS), shm_msgs (pqUpdateRequest CS),
                  shm_msgs (pqCreateConfirm CS), shm_msgs (pqDeleteConfirm CS), shm_msgs (pqUpdateConfirm CS))"

lemma rtdb_queue_okD:
  "rtdb_queue_ok n q \<Longrightarrow> shm_ok q" "rtdb_queue_ok (maxRTDBConfirmBufferSize csz) q \<Longrightarrow> confirm_queue_ok csz q"
  "rtdb_queue_ok n q \<Longrightarrow> room q = maxServicePrimitiveQueueLength - length (shm_msgs q)"
  by (simp_all add: rtdb_queue_ok_def confirm_queue_ok_def maxRTDBConfirmBufferSize_def room_def)

lemma rtdb_queue_ok_shape: "shm_ok q' \<Longrightarrow> shape q' = shape q \<Longrightarrow> rtdb_queue_ok n q \<Longrightarrow> rtdb_queue_ok n q'"
  by (simp add: rtdb_queue_ok_def shape_def)

lemma segment_okD:
  assumes "segment_ok csz CS"
  shows "rtdb_queue_ok maxRTDBServiceBufferSize (pqCreateRequest CS)" "rtdb_queue_ok maxRTDBServiceBufferSize (pqDeleteRequest CS)"
    "rtdb_queue_ok maxRTDBServiceBufferSize (pqUpdateRequest CS)" "rtdb_queue_ok (maxRTDBConfirmBufferSize csz) (pqCreateConfirm CS)"
    "rtdb_queue_ok (maxRTDBConfirmBufferSize csz) (pqDeleteConfirm CS)" "rtdb_queue_ok (maxRTDBConfirmBufferSize csz) (pqUpdateConfirm CS)"
  using assms by (simp_all add: segment_ok_def)

lemma creates_served:
  assumes "segment_ok csz CS" "seg_msgs CS = (map enc_RTDB_Create_Request rs, b, c, cc, e, f)" "\<forall>r \<in> set rs. described r"
    "wf_pd pd" "5 \<le> csz" "length cc + length rs \<le> maxServicePrimitiveQueueLength" "\<forall>k. owns k"
  obtains cs k' pd' CS' where "serve_all (create_handler clock) rs (Suc k, pd) = (cs, k', pd')" "length cs = length rs" "wf_pd pd'"
    "serve_creates csz owns clock (k, pd, x, CS) = (Inr (), (k', pd', x, CS'))" "segment_ok csz CS'"
    "seg_msgs CS' = ([], b, c, cc @ map enc_RTDB_Confirm cs, e, f)"
proof -
  note s = segment_okD [OF assms(1)]
  have m: "shm_msgs (pqCreateRequest CS) = map enc_RTDB_Create_Request rs" "shm_msgs (pqCreateConfirm CS) = cc"
    using assms(2) by (simp_all add: seg_msgs_def)
  have "length rs \<le> room (pqCreateConfirm CS)" using rtdb_queue_okD(3) [OF s(4)] m(2) assms(6) by simp
  then obtain cs k' pd' rq' cq' where h: "serve_all (create_handler clock) rs (Suc k, pd) = (cs, k', pd')" "length cs = length rs" "wf_pd pd'"
    "handle_request_queue csz owns des_RTDB_Create_Request (create_handler clock) ser_RTDB_Confirm
       (k, pd, x, pqCreateRequest CS, pqCreateConfirm CS) = (Inr (), (k', pd', x, rq', cq'))"
    "shm_ok rq'" "shm_msgs rq' = []" "shape rq' = shape (pqCreateRequest CS)"
    "confirm_queue_ok csz cq'" "shm_msgs cq' = shm_msgs (pqCreateConfirm CS) @ map enc_RTDB_Confirm cs" "shape cq' = shape (pqCreateConfirm CS)"
    using create_service.queue_served [OF rtdb_queue_okD(1) [OF s(1)] m(1) assms(3,4) rtdb_queue_okD(2) [OF s(4)] assms(5) _ assms(7)] by blast
  show thesis
  proof (rule that [OF h(1-3)])
    show "serve_creates csz owns clock (k, pd, x, CS) = (Inr (), (k', pd', x, CS\<lparr>pqCreateRequest := rq', pqCreateConfirm := cq'\<rparr>))"
      using h(4) by (simp add: serve_creates_def zoomE_def)
    show "segment_ok csz (CS\<lparr>pqCreateRequest := rq', pqCreateConfirm := cq'\<rparr>)"
      using s rtdb_queue_ok_shape [OF h(5,7) s(1)] rtdb_queue_ok_shape [OF _ h(10) s(4)] h(8)
      by (simp add: segment_ok_def confirm_queue_ok_def)
    show "seg_msgs (CS\<lparr>pqCreateRequest := rq', pqCreateConfirm := cq'\<rparr>) = ([], b, c, cc @ map enc_RTDB_Confirm cs, e, f)"
      using assms(2) h(6,9) by (simp add: seg_msgs_def)
  qed
qed

lemma deletes_served:
  assumes "segment_ok csz CS" "seg_msgs CS = (a, map enc_RTDB_Id_Request rs, c, d, dc, f)"
    "wf_pd pd" "5 \<le> csz" "length dc + length rs \<le> maxServicePrimitiveQueueLength" "\<forall>k. owns k"
  obtains cs k' pd' CS' where "serve_all delete_handler rs (Suc k, pd) = (cs, k', pd')" "length cs = length rs" "wf_pd pd'"
    "serve_deletes csz owns (k, pd, x, CS) = (Inr (), (k', pd', x, CS'))" "segment_ok csz CS'"
    "seg_msgs CS' = (a, [], c, d, dc @ map enc_RTDB_Confirm cs, f)"
proof -
  note s = segment_okD [OF assms(1)]
  have m: "shm_msgs (pqDeleteRequest CS) = map enc_RTDB_Id_Request rs" "shm_msgs (pqDeleteConfirm CS) = dc"
    using assms(2) by (simp_all add: seg_msgs_def)
  have "length rs \<le> room (pqDeleteConfirm CS)" using rtdb_queue_okD(3) [OF s(5)] m(2) assms(5) by simp
  then obtain cs k' pd' rq' cq' where h: "serve_all delete_handler rs (Suc k, pd) = (cs, k', pd')" "length cs = length rs" "wf_pd pd'"
    "handle_request_queue csz owns des_RTDB_Delete_Request delete_handler ser_RTDB_Confirm
       (k, pd, x, pqDeleteRequest CS, pqDeleteConfirm CS) = (Inr (), (k', pd', x, rq', cq'))"
    "shm_ok rq'" "shm_msgs rq' = []" "shape rq' = shape (pqDeleteRequest CS)"
    "confirm_queue_ok csz cq'" "shm_msgs cq' = shm_msgs (pqDeleteConfirm CS) @ map enc_RTDB_Confirm cs" "shape cq' = shape (pqDeleteConfirm CS)"
    using delete_service.queue_served [OF rtdb_queue_okD(1) [OF s(2)] m(1) _ assms(3) rtdb_queue_okD(2) [OF s(5)] assms(4) _ assms(6)] by blast
  show thesis
  proof (rule that [OF h(1-3)])
    show "serve_deletes csz owns (k, pd, x, CS) = (Inr (), (k', pd', x, CS\<lparr>pqDeleteRequest := rq', pqDeleteConfirm := cq'\<rparr>))"
      using h(4) by (simp add: serve_deletes_def zoomE_def)
    show "segment_ok csz (CS\<lparr>pqDeleteRequest := rq', pqDeleteConfirm := cq'\<rparr>)"
      using s rtdb_queue_ok_shape [OF h(5,7) s(2)] rtdb_queue_ok_shape [OF _ h(10) s(5)] h(8)
      by (simp add: segment_ok_def confirm_queue_ok_def)
    show "seg_msgs (CS\<lparr>pqDeleteRequest := rq', pqDeleteConfirm := cq'\<rparr>) = (a, [], c, d, dc @ map enc_RTDB_Confirm cs, f)"
      using assms(2) h(6,9) by (simp add: seg_msgs_def)
  qed
qed

lemma updates_served:
  assumes "segment_ok csz CS" "seg_msgs CS = (a, b, map enc_RTDB_Update_Request rs, d, e, uc)" "\<forall>r \<in> set rs. wf_RTDB_Update_Request r"
    "wf_pd pd" "5 \<le> csz" "length uc + length rs \<le> maxServicePrimitiveQueueLength" "\<forall>k. owns k"
  obtains cs k' pd' CS' where "serve_all (update_handler clock) rs (Suc k, pd) = (cs, k', pd')" "length cs = length rs" "wf_pd pd'"
    "serve_updates csz owns clock (k, pd, x, CS) = (Inr (), (k', pd', x, CS'))" "segment_ok csz CS'"
    "seg_msgs CS' = (a, b, [], d, e, uc @ map enc_RTDB_Confirm cs)"
proof -
  note s = segment_okD [OF assms(1)]
  have m: "shm_msgs (pqUpdateRequest CS) = map enc_RTDB_Update_Request rs" "shm_msgs (pqUpdateConfirm CS) = uc"
    using assms(2) by (simp_all add: seg_msgs_def)
  have "length rs \<le> room (pqUpdateConfirm CS)" using rtdb_queue_okD(3) [OF s(6)] m(2) assms(6) by simp
  then obtain cs k' pd' rq' cq' where h: "serve_all (update_handler clock) rs (Suc k, pd) = (cs, k', pd')" "length cs = length rs" "wf_pd pd'"
    "handle_request_queue csz owns des_RTDB_Update_Request (update_handler clock) ser_RTDB_Confirm
       (k, pd, x, pqUpdateRequest CS, pqUpdateConfirm CS) = (Inr (), (k', pd', x, rq', cq'))"
    "shm_ok rq'" "shm_msgs rq' = []" "shape rq' = shape (pqUpdateRequest CS)"
    "confirm_queue_ok csz cq'" "shm_msgs cq' = shm_msgs (pqUpdateConfirm CS) @ map enc_RTDB_Confirm cs" "shape cq' = shape (pqUpdateConfirm CS)"
    using update_service.queue_served [OF rtdb_queue_okD(1) [OF s(3)] m(1) assms(3,4) rtdb_queue_okD(2) [OF s(6)] assms(5) _ assms(7)] by blast
  show thesis
  proof (rule that [OF h(1-3)])
    show "serve_updates csz owns clock (k, pd, x, CS) = (Inr (), (k', pd', x, CS\<lparr>pqUpdateRequest := rq', pqUpdateConfirm := cq'\<rparr>))"
      using h(4) by (simp add: serve_updates_def zoomE_def)
    show "segment_ok csz (CS\<lparr>pqUpdateRequest := rq', pqUpdateConfirm := cq'\<rparr>)"
      using s rtdb_queue_ok_shape [OF h(5,7) s(3)] rtdb_queue_ok_shape [OF _ h(10) s(6)] h(8)
      by (simp add: segment_ok_def confirm_queue_ok_def)
    show "seg_msgs (CS\<lparr>pqUpdateRequest := rq', pqUpdateConfirm := cq'\<rparr>) = (a, b, [], d, e, uc @ map enc_RTDB_Confirm cs)"
      using assms(2) h(6,9) by (simp add: seg_msgs_def)
  qed
qed

lemma segment_served:
  assumes "segment_ok csz CS"
    "seg_msgs CS = (map enc_RTDB_Create_Request crs, map enc_RTDB_Id_Request drs, map enc_RTDB_Update_Request urs, cc, dc, uc)"
    "\<forall>r \<in> set crs. described r" "\<forall>r \<in> set urs. wf_RTDB_Update_Request r" "wf_pd pd" "5 \<le> csz"
    "length cc + length crs \<le> maxServicePrimitiveQueueLength" "length dc + length drs \<le> maxServicePrimitiveQueueLength"
    "length uc + length urs \<le> maxServicePrimitiveQueueLength" "\<forall>k. owns k"
  obtains c1 k1 pd1 c2 k2 pd2 c3 k' pd' CS' where
    "serve_all (create_handler clock) crs (Suc k, pd) = (c1, k1, pd1)" "serve_all delete_handler drs (Suc k1, pd1) = (c2, k2, pd2)"
    "serve_all (update_handler clock) urs (Suc k2, pd2) = (c3, k', pd')"
    "length c1 = length crs" "length c2 = length drs" "length c3 = length urs"
    "serve_segment csz owns clock (k, pd, x, CS) = (Inr (), (k', pd', x, CS'))" "wf_pd pd'" "segment_ok csz CS'"
    "seg_msgs CS' = ([], [], [], cc @ map enc_RTDB_Confirm c1, dc @ map enc_RTDB_Confirm c2, uc @ map enc_RTDB_Confirm c3)"
proof -
  obtain c1 k1 pd1 CS1 where 1: "serve_all (create_handler clock) crs (Suc k, pd) = (c1, k1, pd1)" "length c1 = length crs" "wf_pd pd1"
    "serve_creates csz owns clock (k, pd, x, CS) = (Inr (), (k1, pd1, x, CS1))" "segment_ok csz CS1"
    "seg_msgs CS1 = ([], map enc_RTDB_Id_Request drs, map enc_RTDB_Update_Request urs, cc @ map enc_RTDB_Confirm c1, dc, uc)"
    by (rule creates_served [OF assms(1,2,3,5,6,7,10)])
  obtain c2 k2 pd2 CS2 where 2: "serve_all delete_handler drs (Suc k1, pd1) = (c2, k2, pd2)" "length c2 = length drs" "wf_pd pd2"
    "serve_deletes csz owns (k1, pd1, x, CS1) = (Inr (), (k2, pd2, x, CS2))" "segment_ok csz CS2"
    "seg_msgs CS2 = ([], [], map enc_RTDB_Update_Request urs, cc @ map enc_RTDB_Confirm c1, dc @ map enc_RTDB_Confirm c2, uc)"
    by (rule deletes_served [OF 1(5,6,3) assms(6,8,10)])
  obtain c3 k' pd' CS' where 3: "serve_all (update_handler clock) urs (Suc k2, pd2) = (c3, k', pd')" "length c3 = length urs" "wf_pd pd'"
    "serve_updates csz owns clock (k2, pd2, x, CS2) = (Inr (), (k', pd', x, CS'))" "segment_ok csz CS'"
    "seg_msgs CS' = ([], [], [], cc @ map enc_RTDB_Confirm c1, dc @ map enc_RTDB_Confirm c2, uc @ map enc_RTDB_Confirm c3)"
    by (rule updates_served [OF 2(5,6) assms(4) 2(3) assms(6,9,10)])
  have "serve_segment csz owns clock (k, pd, x, CS) = (Inr (), (k', pd', x, CS'))"
    using 1(4) 2(4) 3(4) by (simp add: serve_segment_def bindE_def)
  from that [OF 1(1) 2(1) 3(1) 1(2) 2(2) 3(2) this 3(3,5,6)] show thesis .
qed

section \<open>The thread keeps everything in order\<close>

text \<open>What holds of a segment whatever the applications do with the client library: no buffer of a queue is used twice,
  all lie inside the segment, and messages fit into their buffers.  The flag of a queue may be wrong and a buffer may
  be lost, after a reset or an exception.\<close>

definition rtdb_queue_safe :: "nat \<Rightarrow> ShmFiniteQueue \<Rightarrow> bool" where
  "rtdb_queue_safe bufsize q \<longleftrightarrow> holds [] q \<and> bufferSize q = bufsize \<and> maxCapacity (shm_queue q) = maxServicePrimitiveQueueLength"

definition segment_safe :: "nat \<Rightarrow> VardisShmControlSegment \<Rightarrow> bool" where
  "segment_safe csz CS \<longleftrightarrow>
     (\<forall>q \<in> {pqCreateRequest CS, pqDeleteRequest CS, pqUpdateRequest CS}. rtdb_queue_safe maxRTDBServiceBufferSize q)
   \<and> (\<forall>q \<in> {pqCreateConfirm CS, pqDeleteConfirm CS, pqUpdateConfirm CS}. rtdb_queue_safe (maxRTDBConfirmBufferSize csz) q)"

definition wf_vardis :: "nat \<Rightarrow> VardisRuntimeData \<Rightarrow> bool" where
  "wf_vardis csz rt \<longleftrightarrow> wf_pd (protocol_data rt) \<and> finite (dom (clientApplications rt))
     \<and> (\<forall>name c. clientApplications rt name = Some c \<longrightarrow> vc_clientName c = name \<and> segment_ok csz (vc_pSCS c))"

definition safe_vardis :: "nat \<Rightarrow> VardisRuntimeData \<Rightarrow> bool" where
  "safe_vardis csz rt \<longleftrightarrow> wf_pd (protocol_data rt) \<and> finite (dom (clientApplications rt))
     \<and> (\<forall>name c. clientApplications rt name = Some c \<longrightarrow> vc_clientName c = name \<and> segment_safe csz (vc_pSCS c))"

definition vardis_ok :: "nat \<Rightarrow> VardisRuntimeData \<Rightarrow> bool" where
  "vardis_ok csz rt \<longleftrightarrow> (\<not> vardis_exitFlag rt \<longrightarrow> safe_vardis csz rt)"

lemma rtdb_queue_safeD:
  "rtdb_queue_safe n q \<Longrightarrow> holds [] q" "rtdb_queue_safe (maxRTDBConfirmBufferSize csz) q \<Longrightarrow> csz \<le> bufferSize q"
  by (simp_all add: rtdb_queue_safe_def maxRTDBConfirmBufferSize_def)

lemma rtdb_queue_safe_shape: "holds [] q' \<Longrightarrow> shape q' = shape q \<Longrightarrow> rtdb_queue_safe n q \<Longrightarrow> rtdb_queue_safe n q'"
  by (simp add: rtdb_queue_safe_def shape_def)

lemma segment_safeD:
  assumes "segment_safe csz CS"
  shows "rtdb_queue_safe maxRTDBServiceBufferSize (pqCreateRequest CS)" "rtdb_queue_safe maxRTDBServiceBufferSize (pqDeleteRequest CS)"
    "rtdb_queue_safe maxRTDBServiceBufferSize (pqUpdateRequest CS)" "rtdb_queue_safe (maxRTDBConfirmBufferSize csz) (pqCreateConfirm CS)"
    "rtdb_queue_safe (maxRTDBConfirmBufferSize csz) (pqDeleteConfirm CS)" "rtdb_queue_safe (maxRTDBConfirmBufferSize csz) (pqUpdateConfirm CS)"
  using assms by (simp_all add: segment_safe_def)

lemma segment_ok_safe: "segment_ok csz CS \<Longrightarrow> segment_safe csz CS"
  by (simp add: segment_ok_def segment_safe_def rtdb_queue_ok_def rtdb_queue_safe_def shm_ok_def)

lemma serve_creates_safe:
  assumes "wf_pd pd" "segment_safe csz CS" "5 \<le> csz" "serve_creates csz owns clock (k, pd, x, CS) = (Inr (), (k', pd', x', CS'))"
  shows "wf_pd pd' \<and> segment_safe csz CS'"
proof -
  note s = segment_safeD [OF assms(2)]
  obtain rq' cq' where h: "handle_request_queue csz owns des_RTDB_Create_Request (create_handler clock) ser_RTDB_Confirm
      (k, pd, x, pqCreateRequest CS, pqCreateConfirm CS) = (Inr (), (k', pd', x', rq', cq'))"
    "CS' = CS\<lparr>pqCreateRequest := rq', pqCreateConfirm := cq'\<rparr>"
    using assms(4) by (auto simp: serve_creates_def zoomE_def split: prod.splits)
  from create_service.any_queue_safe [OF assms(1) rtdb_queue_safeD(1) [OF s(1)] rtdb_queue_safeD [OF s(4)] assms(3) h(1)] s h(2)
  show ?thesis by (auto simp: segment_safe_def intro: rtdb_queue_safe_shape)
qed

lemma serve_deletes_safe:
  assumes "wf_pd pd" "segment_safe csz CS" "5 \<le> csz" "serve_deletes csz owns (k, pd, x, CS) = (Inr (), (k', pd', x', CS'))"
  shows "wf_pd pd' \<and> segment_safe csz CS'"
proof -
  note s = segment_safeD [OF assms(2)]
  obtain rq' cq' where h: "handle_request_queue csz owns des_RTDB_Delete_Request delete_handler ser_RTDB_Confirm
      (k, pd, x, pqDeleteRequest CS, pqDeleteConfirm CS) = (Inr (), (k', pd', x', rq', cq'))"
    "CS' = CS\<lparr>pqDeleteRequest := rq', pqDeleteConfirm := cq'\<rparr>"
    using assms(4) by (auto simp: serve_deletes_def zoomE_def split: prod.splits)
  from delete_service.any_queue_safe [OF assms(1) rtdb_queue_safeD(1) [OF s(2)] rtdb_queue_safeD [OF s(5)] assms(3) h(1)] s h(2)
  show ?thesis by (auto simp: segment_safe_def intro: rtdb_queue_safe_shape)
qed

lemma serve_updates_safe:
  assumes "wf_pd pd" "segment_safe csz CS" "5 \<le> csz" "serve_updates csz owns clock (k, pd, x, CS) = (Inr (), (k', pd', x', CS'))"
  shows "wf_pd pd' \<and> segment_safe csz CS'"
proof -
  note s = segment_safeD [OF assms(2)]
  obtain rq' cq' where h: "handle_request_queue csz owns des_RTDB_Update_Request (update_handler clock) ser_RTDB_Confirm
      (k, pd, x, pqUpdateRequest CS, pqUpdateConfirm CS) = (Inr (), (k', pd', x', rq', cq'))"
    "CS' = CS\<lparr>pqUpdateRequest := rq', pqUpdateConfirm := cq'\<rparr>"
    using assms(4) by (auto simp: serve_updates_def zoomE_def split: prod.splits)
  from update_service.any_queue_safe [OF assms(1) rtdb_queue_safeD(1) [OF s(3)] rtdb_queue_safeD [OF s(6)] assms(3) h(1)] s h(2)
  show ?thesis by (auto simp: segment_safe_def intro: rtdb_queue_safe_shape)
qed

lemma serve_segment_safe:
  assumes "wf_pd pd" "segment_safe csz CS" "5 \<le> csz" "serve_segment csz owns clock (k, pd, x, CS) = (Inr (), (k', pd', x', CS'))"
  shows "wf_pd pd' \<and> segment_safe csz CS'"
proof -
  obtain u s1 where a: "serve_creates csz owns clock (k, pd, x, CS) = (Inr u, s1)"
    "bindE (serve_deletes csz owns) (\<lambda>_. serve_updates csz owns clock) s1 = (Inr (), (k', pd', x', CS'))"
    using assms(4) unfolding serve_segment_def by (rule bindE_InrE)
  obtain v s2 where b: "serve_deletes csz owns s1 = (Inr v, s2)" "serve_updates csz owns clock s2 = (Inr (), (k', pd', x', CS'))"
    using a(2) by (rule bindE_InrE)
  obtain k1 pd1 x1 CS1 k2 pd2 x2 CS2 where s: "s1 = (k1, pd1, x1, CS1)" "s2 = (k2, pd2, x2, CS2)"
    by (cases s1; cases s2) blast
  have 1: "serve_creates csz owns clock (k, pd, x, CS) = (Inr (), (k1, pd1, x1, CS1))"
    and 2: "serve_deletes csz owns (k1, pd1, x1, CS1) = (Inr (), (k2, pd2, x2, CS2))"
    and 3: "serve_updates csz owns clock (k2, pd2, x2, CS2) = (Inr (), (k', pd', x', CS'))" using a b s by simp_all
  from serve_creates_safe [OF assms(1-3) 1] serve_deletes_safe [OF _ _ assms(3) 2] serve_updates_safe [OF _ _ assms(3) 3]
  show ?thesis by blast
qed

lemma client_served_safe:
  assumes "safe_vardis csz rt" "name \<in> dom (clientApplications rt)" "5 \<le> csz"
    "handle_client_shared_memory csz owns clock name (k, rt) = (Inr (), (k', rt'))"
  shows "safe_vardis csz rt' \<and> dom (clientApplications rt') = dom (clientApplications rt)"
proof (cases "get_vardis_isactive (vardis_store (protocol_data rt)) \<and> \<not> vardis_exitFlag rt")
  case False
  then show ?thesis using assms(1,4) by (auto simp: handle_client_shared_memory_def split: if_splits)
next
  case True
  obtain c where c: "clientApplications rt name = Some c" using assms(2) by blast
  obtain pd x CS where s: "serve_segment csz owns clock (k, protocol_data rt, vardis_exitFlag rt, vc_pSCS c) = (Inr (), (k', pd, x, CS))"
    "rt' = rt\<lparr>protocol_data := pd, vardis_exitFlag := x, clientApplications := (clientApplications rt)(name \<mapsto> c\<lparr>vc_pSCS := CS\<rparr>)\<rparr>"
    using assms(4) True c by (auto simp: handle_client_shared_memory_def on_client_def zoomE_def split: prod.splits)
  have "wf_pd (protocol_data rt)" "segment_safe csz (vc_pSCS c)" using assms(1) c by (auto simp: safe_vardis_def)
  from serve_segment_safe [OF this assms(3) s(1)] s(2) assms(1,2) c show ?thesis by (auto simp: safe_vardis_def)
qed

lemma rtdb_round_safe:
  assumes "vardis_ok csz rt" "5 \<le> csz" "\<not> vardis_exitFlag rt"
  shows "vardis_ok csz (snd (rtdb_round csz owns clock (k, rt)))"
proof -
  have loop: "safe_vardis csz rt'"
    if "safe_vardis csz rt" "set names \<subseteq> dom (clientApplications rt)"
      "forE (handle_client_shared_memory csz owns clock) names (k, rt) = (Inr (), (k', rt'))" for names k rt k' rt'
    using that
  proof (induction names arbitrary: k rt)
    case (Cons n ns)
    obtain k1 rt1 where h: "handle_client_shared_memory csz owns clock n (k, rt) = (Inr (), (k1, rt1))"
      "forE (handle_client_shared_memory csz owns clock) ns (k1, rt1) = (Inr (), (k', rt'))"
      using Cons.prems(3) by (auto split: prod.splits sum.splits)
    have "n \<in> dom (clientApplications rt)" using Cons.prems(2) by simp
    from client_served_safe [OF Cons.prems(1) this assms(2) h(1)] Cons.IH [OF _ _ h(2)] Cons.prems(2) show ?case by auto
  qed simp
  have wf: "safe_vardis csz rt" using assms(1,3) by (simp add: vardis_ok_def)
  have names: "set (application_names rt) \<subseteq> dom (clientApplications rt)"
    using wf by (simp add: application_names_def safe_vardis_def)
  obtain r k' rt' where f: "forE (handle_client_shared_memory csz owns clock) (application_names rt) (k, rt) = (r, (k', rt'))"
    by (rule prod_cases3)
  show ?thesis
  proof (cases r)
    case (Inl e)
    then show ?thesis using f by (simp add: rtdb_round_def vardis_ok_def)
  next
    case (Inr u)
    then have "safe_vardis csz rt'" using loop [OF wf names] f by simp
    then show ?thesis using f Inr by (simp add: rtdb_round_def vardis_ok_def)
  qed
qed

end
