(* ===== verification/CommandSocket.thy ===== *)
theory CommandSocket
  imports DcpServices
begin

text \<open>
  Command sockets, \<open>dcp/common/command_socket.cc\<close> and \<open>command_socket.h\<close>: stream sockets by
  which a client sends one command to a demon and reads the answer.  The demon's side accepts one
  connection at a time; the client's side opens a connection for each command.

  The system calls are a parameter of the model, a record of functions on the state of the
  operating system: each takes the arguments the code passes and gives the result the code looks
  at.  What POSIX promises about reading is a named hypothesis, \<open>posix_read\<close>.
\<close>

section \<open>System calls\<close>

record timeval =
  tv_sec :: nat
  tv_usec :: nat

definition milliseconds_to_timeval :: "u16 \<Rightarrow> timeval" where
  "milliseconds_to_timeval ms = \<lparr>tv_sec = unat ms div 1000, tv_usec = 1000 * (unat ms mod 1000)\<rparr>"

record 'w sockets =
  sys_socket :: "'w \<Rightarrow> int \<times> 'w"
  sys_umask :: "nat \<Rightarrow> 'w \<Rightarrow> nat \<times> 'w"
  sys_bind :: "int \<Rightarrow> string \<Rightarrow> 'w \<Rightarrow> int \<times> 'w"
  sys_set_rcvtimeo :: "int \<Rightarrow> timeval \<Rightarrow> 'w \<Rightarrow> int \<times> 'w"
  sys_listen :: "int \<Rightarrow> nat \<Rightarrow> 'w \<Rightarrow> int \<times> 'w"
  sys_connect :: "int \<Rightarrow> string \<Rightarrow> 'w \<Rightarrow> int \<times> 'w"
  sys_select :: "int \<Rightarrow> timeval \<Rightarrow> 'w \<Rightarrow> int \<times> 'w"
  sys_accept :: "int \<Rightarrow> 'w \<Rightarrow> int \<times> 'w"
  sys_read :: "int \<Rightarrow> nat \<Rightarrow> 'w \<Rightarrow> (int \<times> u8 list) \<times> 'w"
  sys_write :: "int \<Rightarrow> u8 list \<Rightarrow> 'w \<Rightarrow> int \<times> 'w"
  sys_close :: "int \<Rightarrow> 'w \<Rightarrow> 'w"
  sys_unlink :: "string \<Rightarrow> 'w \<Rightarrow> 'w"

definition posix_read :: "'w sockets \<Rightarrow> bool" where
  "posix_read S \<longleftrightarrow> (\<forall>fd n w r bs w'. sys_read S fd n w = ((r, bs), w') \<longrightarrow> r \<le> int n \<and> length bs = nat r)"

text \<open>A call on the operating system, from a state that has it as its first component.\<close>

definition callE :: "('w \<Rightarrow> 'a \<times> 'w) \<Rightarrow> ('w \<times> 's, 'a) action" where
  "callE f = (\<lambda>(w, s). case f w of (x, w') \<Rightarrow> (Inr x, (w', s)))"

definition doE :: "('w \<Rightarrow> 'w) \<Rightarrow> ('w \<times> 's, unit) action" where
  "doE f = (\<lambda>(w, s). (Inr (), (f w, s)))"

lemma callE_simp [simp]: "callE f (w, s) = (Inr (fst (f w)), (snd (f w), s))"
  by (simp add: callE_def split: prod.split)

lemma doE_simp [simp]: "doE f (w, s) = (Inr (), (f w, s))"
  by (simp add: doE_def)

section \<open>The socket of a demon\<close>

record CommandSocket =
  the_command_socket :: int
  data_socket :: int
  socketName :: string
  socketTimeoutMS :: u16

definition commandSocketListenBufferBacklog :: nat where
  "commandSocketListenBufferBacklog = 20"

definition maxUnixDomainSocketPathLength :: nat where
  "maxUnixDomainSocketPathLength = 108"

definition max_command_socket_name_length :: nat where
  "max_command_socket_name_length = maxUnixDomainSocketPathLength - 1"

text \<open>The length of a string ends at the first zero character.\<close>

definition strlen :: "string \<Rightarrow> nat" where
  "strlen s = length (takeWhile (\<lambda>c. c \<noteq> CHR 0x00) s)"

definition new_CommandSocket :: "string \<Rightarrow> u16 \<Rightarrow> dcp_error + CommandSocket" where
  "new_CommandSocket name timeout =
     (if name = [] then Inl SocketException
      else if timeout \<le> 0 then Inl SocketException
      else Inr \<lparr>the_command_socket = -1, data_socket = -1, socketName = name, socketTimeoutMS = timeout\<rparr>)"

definition is_open :: "CommandSocket \<Rightarrow> bool" where
  "is_open c \<longleftrightarrow> 0 \<le> the_command_socket c"

text \<open>Closing again what was opened so far, and throwing.\<close>

definition give_up :: "'w sockets \<Rightarrow> int \<Rightarrow> string \<Rightarrow> ('w \<times> CommandSocket, unit) action" where
  "give_up S fd name =
     bindE (doE (sys_close S fd)) (\<lambda>_.
     bindE (doE (sys_unlink S name)) (\<lambda>_.
     throwE SocketException))"

definition open_owner :: "'w sockets \<Rightarrow> ('w \<times> CommandSocket, unit) action" where
  "open_owner S = (\<lambda>(w, c).
     let name = socketName c in
     bindE (throw_if SocketException (\<lambda>_. strlen name > max_command_socket_name_length)) (\<lambda>_.
     bindE (doE (sys_unlink S name)) (\<lambda>_.
     bindE (callE (sys_socket S)) (\<lambda>fd.
     bindE (modifyE (\<lambda>(w, c). (w, c\<lparr>the_command_socket := fd\<rparr>))) (\<lambda>_.
     bindE (throw_if SocketException (\<lambda>_. fd < 0)) (\<lambda>_.
     bindE (callE (sys_umask S 0)) (\<lambda>curr_umask.
     bindE (callE (sys_bind S fd name)) (\<lambda>ret.
     bindE (if ret < 0 then give_up S fd name else retE ()) (\<lambda>_.
     bindE (callE (sys_umask S curr_umask)) (\<lambda>_.
     bindE (callE (sys_set_rcvtimeo S fd (milliseconds_to_timeval (socketTimeoutMS c)))) (\<lambda>ret.
     bindE (if ret < 0 then give_up S fd name else retE ()) (\<lambda>_.
     bindE (callE (sys_listen S fd commandSocketListenBufferBacklog)) (\<lambda>ret.
     if ret < 0 then give_up S fd name else retE ())))))))))))) (w, c))"

definition close_owner :: "'w sockets \<Rightarrow> ('w \<times> CommandSocket, unit) action" where
  "close_owner S = (\<lambda>(w, c).
     bindE (if the_command_socket c \<ge> 0
            then bindE (doE (sys_unlink S (socketName c))) (\<lambda>_. doE (sys_close S (the_command_socket c)))
            else retE ()) (\<lambda>_.
     modifyE (\<lambda>(w, c). (w, c\<lparr>the_command_socket := -1\<rparr>))) (w, c))"

text \<open>Result: the number of bytes (-1 for an error, 0 for none) and the bytes.\<close>

definition read_owner :: "'w sockets \<Rightarrow> nat \<Rightarrow> ('w \<times> CommandSocket, int \<times> u8 list) action" where
  "read_owner S buflen = (\<lambda>(w, c).
     (if the_command_socket c < 0 then retE (-1, [])
      else bindE (callE (sys_select S (the_command_socket c) (milliseconds_to_timeval (socketTimeoutMS c)))) (\<lambda>rv.
           if rv = 0 then retE (0, [])
           else if rv < 0 then retE (-1, [])
           else bindE (callE (sys_accept S (the_command_socket c))) (\<lambda>fd.
                bindE (modifyE (\<lambda>(w, c). (w, c\<lparr>data_socket := fd\<rparr>))) (\<lambda>_.
                if fd < 0 then retE (-1, [])
                else bindE (callE (sys_read S fd buflen)) (\<lambda>(nbytes, bs).
                     if nbytes < 0 then bindE (doE (sys_close S fd)) (\<lambda>_. retE (-1, []))
                     else retE (nbytes, bs)))))) (w, c))"

text \<open>
  The methods that follow also get a reference to the exit flag of the demon.  How the service type is read
  out of the first bytes of the buffer depends on the byte order of the machine and is an argument.
\<close>

definition close_data_socket :: "'w sockets \<Rightarrow> ('w \<times> CommandSocket \<times> bool, unit) action" where
  "close_data_socket S = (\<lambda>(w, c, x).
     (Inr (), (sys_close S (data_socket c) w, c\<lparr>data_socket := -1\<rparr>, x)))"

definition set_exit :: "('w \<times> CommandSocket \<times> bool, unit) action" where
  "set_exit = modifyE (\<lambda>(w, c, x). (w, c, True))"

definition start_read_command ::
  "'w sockets \<Rightarrow> (u8 list \<Rightarrow> DcpServiceType) \<Rightarrow> nat
     \<Rightarrow> ('w \<times> CommandSocket \<times> bool, int \<times> u8 list \<times> DcpServiceType) action" where
  "start_read_command S s_type_of buflen = (\<lambda>(w, c, x).
     if data_socket c \<noteq> -1 then (Inr (-1, [], InvalidServiceType), (w, c, True))
     else bindE (zoomE (\<lambda>(w, c, x). (w, c)) (\<lambda>(w, c) (_, _, x). (w, c, x)) (read_owner S buflen)) (\<lambda>(nbytes, bs).
          if nbytes < 0 then
            bindE set_exit (\<lambda>_.
            bindE (getE (\<lambda>(w, c, x). data_socket c)) (\<lambda>fd.
            bindE (if fd \<ge> 0 then close_data_socket S else retE ()) (\<lambda>_.
            retE (-1, [], InvalidServiceType))))
          else if nbytes = 0 then retE (0, [], InvalidServiceType)
          else if nbytes < 2 then
            bindE (close_data_socket S) (\<lambda>_.
            bindE set_exit (\<lambda>_.
            retE (-1, [], InvalidServiceType)))
          else retE (nbytes, bs, s_type_of bs)) (w, c, x))"

definition stop_read_command :: "'w sockets \<Rightarrow> ('w \<times> CommandSocket \<times> bool, int) action" where
  "stop_read_command S = (\<lambda>(w, c, x).
     if data_socket c < 0 then (Inr (-1), (w, c, True))
     else bindE (close_data_socket S) (\<lambda>_. retE 0) (w, c, x))"

definition send_raw_data :: "'w sockets \<Rightarrow> u8 list \<Rightarrow> ('w \<times> CommandSocket \<times> bool, int) action" where
  "send_raw_data S buffer = (\<lambda>(w, c, x).
     if data_socket c < 0 then (Inr (-1), (w, c, True))
     else bindE (callE (sys_write S (data_socket c) buffer)) (\<lambda>bytessent.
          if bytessent < 0 then bindE set_exit (\<lambda>_. retE (-1))
          else if bytessent \<noteq> int (length buffer) then bindE set_exit (\<lambda>_. retE (-1))
          else retE bytessent) (w, c, x))"

definition send_raw_confirmation :: "'w sockets \<Rightarrow> u8 list \<Rightarrow> ('w \<times> CommandSocket \<times> bool, unit) action" where
  "send_raw_confirmation S conf = (\<lambda>(w, c, x).
     if data_socket c < 0 then (Inr (), (w, c, True))
     else bindE (callE (sys_write S (data_socket c) conf)) (\<lambda>bytessent.
          if bytessent < 0 then set_exit
          else if bytessent \<noteq> int (length conf) then set_exit
          else retE ()) (w, c, x))"

text \<open>The demon keeps the exit flag among its data: an action on the socket and the flag, on the socket and the data.\<close>

definition on_flag ::
  "('d \<Rightarrow> bool) \<Rightarrow> (bool \<Rightarrow> 'd \<Rightarrow> 'd) \<Rightarrow> ('w \<times> CommandSocket \<times> bool, 'a) action \<Rightarrow> ('w \<times> CommandSocket \<times> 'd, 'a) action" where
  "on_flag get put = zoomE (\<lambda>(w, c, d). (w, c, get d)) (\<lambda>(w, c, x) (_, _, d). (w, c, put x d))"

text \<open>
  One round of the command loop, \<open>handle_command_socket\<close> of each demon: \<open>serve\<close> is what the demon does with a
  command, given the number of bytes, the buffer and the service type.
\<close>

definition command_round ::
  "('d \<Rightarrow> bool) \<Rightarrow> (bool \<Rightarrow> 'd \<Rightarrow> 'd) \<Rightarrow> 'w sockets \<Rightarrow> (u8 list \<Rightarrow> DcpServiceType) \<Rightarrow> nat
     \<Rightarrow> (nat \<Rightarrow> u8 list \<Rightarrow> DcpServiceType \<Rightarrow> ('w \<times> CommandSocket \<times> 'd, unit) action)
     \<Rightarrow> ('w \<times> CommandSocket \<times> 'd, unit) action" where
  "command_round get put S s_type_of buflen serve =
     bindE (on_flag get put (start_read_command S s_type_of buflen)) (\<lambda>(nbytes, buffer, serv_type).
     if nbytes \<le> 0 then retE ()
     else bindE (serve (nat nbytes) buffer serv_type) (\<lambda>_.
          bindE (on_flag get put (stop_read_command S)) (\<lambda>_. retE ())))"

section \<open>The socket of a client\<close>

definition open_client :: "'w sockets \<Rightarrow> CommandSocket \<Rightarrow> ('w \<times> unit, int) action" where
  "open_client S c =
     bindE (throw_if SocketException (\<lambda>_. strlen (socketName c) > max_command_socket_name_length)) (\<lambda>_.
     bindE (callE (sys_socket S)) (\<lambda>fd.
     bindE (throw_if SocketException (\<lambda>_. fd < 0)) (\<lambda>_.
     bindE (callE (sys_connect S fd (socketName c))) (\<lambda>ret.
     bindE (if ret < 0 then bindE (doE (sys_close S fd)) (\<lambda>_. throwE SocketException) else retE ()) (\<lambda>_.
     bindE (callE (sys_set_rcvtimeo S fd (milliseconds_to_timeval (socketTimeoutMS c)))) (\<lambda>ret.
     bindE (if ret < 0 then bindE (doE (sys_close S fd)) (\<lambda>_. throwE SocketException) else retE ()) (\<lambda>_.
     retE fd)))))))"

text \<open>A \<open>ScopedClientSocket\<close> is the state of the operating system and the descriptor.\<close>

definition abort_client :: "'w sockets \<Rightarrow> ('w \<times> int, 'a) action" where
  "abort_client S = (\<lambda>(w, the_sock).
     (Inl SocketException, (if the_sock \<ge> 0 then sys_close S the_sock w else w, -1)))"

text \<open>
  The loop of \<open>read_whole_response\<close>: \<open>n\<close> bytes were read, collected in \<open>acc\<close>.  A round that does not leave the
  loop reads at least one byte and stays within the buffer, so the loop ends.
\<close>

function read_rounds ::
  "'w sockets \<Rightarrow> int \<Rightarrow> nat \<Rightarrow> nat \<Rightarrow> nat \<Rightarrow> nat \<Rightarrow> u8 list \<Rightarrow> 'w \<Rightarrow> (dcp_error + nat \<times> u8 list) \<times> 'w" where
  "read_rounds S fd buffer_len max_attempts attempts n acc w =
     (case sys_select S fd \<lparr>tv_sec = 0, tv_usec = 500000\<rparr> w of (rv, w1) \<Rightarrow>
        if rv = -1 then (Inl SocketException, w1)
        else if rv = 0 \<and> Suc attempts \<ge> max_attempts then (Inl SocketException, w1)
        else (case sys_read S fd (buffer_len - n) w1 of ((nrcvd, bs), w2) \<Rightarrow>
                if nrcvd < 0 then (Inl SocketException, w2)
                else if nrcvd = 0 then (Inr (n, acc), w2)
                else if n + nat nrcvd > buffer_len then (Inl SocketException, w2)
                else read_rounds S fd buffer_len max_attempts (Suc attempts) (n + nat nrcvd) (acc @ bs) w2))"
  by pat_completeness auto
termination
  by (relation "measure (\<lambda>(S, fd, buffer_len, max_attempts, attempts, n, acc, w). buffer_len - n)") auto

declare read_rounds.simps [simp del]

definition read_whole_response :: "'w sockets \<Rightarrow> nat \<Rightarrow> nat \<Rightarrow> ('w \<times> int, nat \<times> u8 list) action" where
  "read_whole_response S buffer_len max_attempts = (\<lambda>(w, the_sock).
     if the_sock < 0 then (Inl SocketException, (w, the_sock))
     else (case read_rounds S the_sock buffer_len max_attempts 0 0 [] w of (r, w') \<Rightarrow> (r, (w', the_sock))))"

definition default_max_attempts :: nat where
  "default_max_attempts = 5"

definition sendRequestAndReadResponseBlock :: "'w sockets \<Rightarrow> u8 list \<Rightarrow> nat \<Rightarrow> ('w \<times> int, nat \<times> u8 list) action" where
  "sendRequestAndReadResponseBlock S sReq buffer_len = (\<lambda>(w, the_sock).
     bindE (callE (sys_write S the_sock sReq)) (\<lambda>ret.
     if ret < 0 then abort_client S else read_whole_response S buffer_len default_max_attempts) (w, the_sock))"

definition sendRequest :: "'w sockets \<Rightarrow> u8 list \<Rightarrow> ('w \<times> int, int) action" where
  "sendRequest S sReq = (\<lambda>(w, the_sock).
     bindE (callE (sys_write S the_sock sReq)) (\<lambda>ret.
     if ret < 0 then abort_client S else retE ret) (w, the_sock))"

text \<open>The constructor opens the connection, the destructor closes it, also when an exception is on its way.\<close>

definition with_client_socket :: "'w sockets \<Rightarrow> CommandSocket \<Rightarrow> ('w \<times> int, 'a) action \<Rightarrow> ('w, 'a) action" where
  "with_client_socket S c m w =
     (case open_client S c (w, ()) of
        (Inl e, (w, _)) \<Rightarrow> (Inl e, w)
      | (Inr fd, (w, _)) \<Rightarrow>
          if fd < 0 then (Inl ManagementException, w)
          else (case m (w, fd) of (r, (w, the_sock)) \<Rightarrow>
                  (r, if the_sock \<ge> 0 then sys_close S the_sock w else w)))"

definition command_sock_buffer_size :: nat where
  "command_sock_buffer_size = 2000"

text \<open>How a client reads a confirm in the buffer, and the size of the confirm.\<close>

record confirm_reader =
  conf_sizeof :: nat
  conf_s_type :: "u8 list \<Rightarrow> DcpServiceType"
  conf_status_code :: "u8 list \<Rightarrow> DcpStatus"

definition simple_request_confirm_service ::
  "'w sockets \<Rightarrow> CommandSocket \<Rightarrow> u8 list \<Rightarrow> DcpServiceType \<Rightarrow> confirm_reader \<Rightarrow> ('w, DcpStatus) action" where
  "simple_request_confirm_service S commandSock srReq s_type CT =
     with_client_socket S commandSock
       (bindE (sendRequestAndReadResponseBlock S srReq command_sock_buffer_size) (\<lambda>(nrcvd, buffer).
        if nrcvd \<noteq> conf_sizeof CT then abort_client S
        else if conf_s_type CT buffer \<noteq> s_type then abort_client S
        else retE (conf_status_code CT buffer)))"

section \<open>Reading a response\<close>

text \<open>
  The promise of a connected stream socket whose peer writes the bytes \<open>pending\<close> and closes: waiting succeeds,
  and a read takes some of the pending bytes, none only if it asks for none or none are left.
\<close>

definition peer_stream :: "'w sockets \<Rightarrow> int \<Rightarrow> ('w \<Rightarrow> u8 list) \<Rightarrow> bool" where
  "peer_stream S fd pending \<longleftrightarrow>
     (\<forall>t w rv w'. sys_select S fd t w = (rv, w') \<longrightarrow> 0 < rv \<and> pending w' = pending w)
   \<and> (\<forall>k w r bs w'. sys_read S fd k w = ((r, bs), w') \<longrightarrow>
        r = int (length bs) \<and> length bs \<le> k \<and> pending w = bs @ pending w'
        \<and> (0 < k \<and> pending w \<noteq> [] \<longrightarrow> bs \<noteq> []))"

lemma read_rounds_stream:
  assumes "peer_stream S fd pending" "n \<le> buffer_len"
  shows "\<exists>w'. read_rounds S fd buffer_len max_attempts attempts n acc w
      = (Inr (n + min (buffer_len - n) (length (pending w)), acc @ take (buffer_len - n) (pending w)), w')
    \<and> pending w' = drop (buffer_len - n) (pending w)"
  using assms(2)
proof (induction "buffer_len - n" arbitrary: n acc w attempts rule: less_induct)
  case less
  obtain rv w1 where sel: "sys_select S fd \<lparr>tv_sec = 0, tv_usec = 500000\<rparr> w = (rv, w1)"
    by (cases "sys_select S fd \<lparr>tv_sec = 0, tv_usec = 500000\<rparr> w")
  obtain r bs w2 where rd: "sys_read S fd (buffer_len - n) w1 = ((r, bs), w2)"
    by (cases "sys_read S fd (buffer_len - n) w1"; cases "fst (sys_read S fd (buffer_len - n) w1)") simp
  have s: "0 < rv" "pending w1 = pending w" using assms(1) sel unfolding peer_stream_def by blast+
  have "r = int (length bs) \<and> length bs \<le> buffer_len - n \<and> pending w1 = bs @ pending w2
      \<and> (0 < buffer_len - n \<and> pending w1 \<noteq> [] \<longrightarrow> bs \<noteq> [])"
    using assms(1) rd unfolding peer_stream_def by blast
  then have r: "r = int (length bs)" "length bs \<le> buffer_len - n" "pending w = bs @ pending w2"
    "0 < buffer_len - n \<and> pending w \<noteq> [] \<longrightarrow> bs \<noteq> []" unfolding s(2) by blast+
  show ?case
  proof (cases "bs = []")
    case True
    with r have e: "buffer_len - n = 0 \<or> pending w = []" "pending w2 = pending w" by auto
    have "read_rounds S fd buffer_len max_attempts attempts n acc w = (Inr (n, acc), w2)"
      using s(1) r(1) True by (simp add: read_rounds.simps [of S fd buffer_len _ _ n] sel rd)
    with e show ?thesis by auto
  next
    case False
    then have l: "0 < length bs" by simp
    have le: "\<not> buffer_len < n + length bs" using r(2) l less.prems by linarith
    have "read_rounds S fd buffer_len max_attempts attempts n acc w
        = read_rounds S fd buffer_len max_attempts (Suc attempts) (n + length bs) (acc @ bs) w2"
      using s(1) r(1) l le by (simp add: read_rounds.simps [of S fd buffer_len _ _ n] sel rd)
    moreover have "buffer_len - (n + length bs) < buffer_len - n" "n + length bs \<le> buffer_len"
      using l le by linarith+
    from less.hyps [OF this] obtain w' where
      "read_rounds S fd buffer_len max_attempts (Suc attempts) (n + length bs) (acc @ bs) w2
        = (Inr (n + length bs + min (buffer_len - (n + length bs)) (length (pending w2)),
             (acc @ bs) @ take (buffer_len - (n + length bs)) (pending w2)), w')"
      "pending w' = drop (buffer_len - (n + length bs)) (pending w2)" by blast
    moreover obtain d where "buffer_len = n + length bs + d" using le by (metis le_add_diff_inverse not_le_imp_less not_less)
    ultimately show ?thesis by (intro exI [of _ w']) (simp add: r(3) min_def)
  qed
qed

lemma read_whole_response_stream:
  assumes "peer_stream S fd pending" "0 \<le> fd"
  obtains w' where "read_whole_response S buffer_len max_attempts (w, fd)
      = (Inr (min buffer_len (length (pending w)), take buffer_len (pending w)), (w', fd))"
    "pending w' = drop buffer_len (pending w)"
  using read_rounds_stream [OF assms(1), of 0 buffer_len max_attempts 0 "[]" w] assms(2)
  by (auto simp: read_whole_response_def)

text \<open>
  Whatever the peer does, the loop ends: every round but the last one reads something.  Here \<open>calls\<close> counts
  the calls of \<open>select\<close> and \<open>read\<close>.
\<close>

definition counts_calls :: "'w sockets \<Rightarrow> ('w \<Rightarrow> nat) \<Rightarrow> bool" where
  "counts_calls S calls \<longleftrightarrow> (\<forall>fd t w. calls (snd (sys_select S fd t w)) = Suc (calls w))
     \<and> (\<forall>fd n w. calls (snd (sys_read S fd n w)) = Suc (calls w))"

lemma read_rounds_calls:
  assumes "posix_read S" "counts_calls S calls" "n \<le> buffer_len" "length acc = n"
    "read_rounds S fd buffer_len max_attempts attempts n acc w = (r, w')"
  shows "calls w' \<le> calls w + 2 * (buffer_len - n + 1) \<and> (\<forall>k bs. r = Inr (k, bs) \<longrightarrow> k \<le> buffer_len \<and> length bs = k)"
  using assms(3-5)
proof (induction "buffer_len - n" arbitrary: n acc w attempts rule: less_induct)
  case less
  obtain rv w1 where sel: "sys_select S fd \<lparr>tv_sec = 0, tv_usec = 500000\<rparr> w = (rv, w1)"
    by (cases "sys_select S fd \<lparr>tv_sec = 0, tv_usec = 500000\<rparr> w")
  obtain q bs w2 where rd: "sys_read S fd (buffer_len - n) w1 = ((q, bs), w2)"
    by (cases "sys_read S fd (buffer_len - n) w1"; cases "fst (sys_read S fd (buffer_len - n) w1)") simp
  have c: "calls w1 = Suc (calls w)" "calls w2 = Suc (Suc (calls w))"
    using assms(2) sel rd unfolding counts_calls_def by (metis snd_conv)+
  have "q \<le> int (buffer_len - n) \<and> length bs = nat q" using assms(1) rd unfolding posix_read_def by blast
  then have b: "nat q \<le> buffer_len - n" "length bs = nat q" by auto
  note unfolded = read_rounds.simps [of S fd buffer_len max_attempts attempts n acc w] sel rd
  show ?case
  proof (cases "rv = -1 \<or> rv = 0 \<and> Suc attempts \<ge> max_attempts \<or> q \<le> 0")
    case True
    then show ?thesis using less.prems c by (auto simp: unfolded split: if_splits)
  next
    case False
    have n: "\<not> buffer_len < n + nat q" "0 < nat q" using b less.prems(1) False by linarith+
    then have r: "read_rounds S fd buffer_len max_attempts (Suc attempts) (n + nat q) (acc @ bs) w2 = (r, w')"
      using less.prems(3) False by (auto simp: unfolded)
    have "calls w' \<le> calls w2 + 2 * (buffer_len - (n + nat q) + 1) \<and> (\<forall>k bs. r = Inr (k, bs) \<longrightarrow> k \<le> buffer_len \<and> length bs = k)"
      by (rule less.hyps [OF _ _ _ r]) (use n b less.prems(2) in auto)
    moreover have "2 * (buffer_len - (n + nat q) + 1) + 2 \<le> 2 * (buffer_len - n + 1)" using n by simp
    ultimately show ?thesis using c(2) by (intro conjI) (linarith, blast)
  qed
qed

section \<open>The life of the demon's socket\<close>

text \<open>What the demon does with the flag: read it, write it.\<close>

definition flag_lens :: "('d \<Rightarrow> bool) \<Rightarrow> (bool \<Rightarrow> 'd \<Rightarrow> 'd) \<Rightarrow> bool" where
  "flag_lens get put \<longleftrightarrow> (\<forall>x d. get (put x d) = x \<and> put (get d) d = d)"

lemma flag_lensD:
  assumes "flag_lens get put"
  shows "get (put x d) = x" "put (get d) d = d" "get d = x \<Longrightarrow> put x d = d"
  using assms unfolding flag_lens_def by blast+

lemmas round_defs = command_round_def on_flag_def start_read_command_def read_owner_def is_open_def bindE_def zoomE_def

text \<open>A command that a client has sent is served, and the connection is closed again.\<close>

lemma command_round_served:
  assumes "flag_lens get put" "data_socket c = -1" "is_open c"
    "sys_select S (the_command_socket c) (milliseconds_to_timeval (socketTimeoutMS c)) w = (rv, w1)" "0 < rv"
    "sys_accept S (the_command_socket c) w1 = (fd, w2)" "0 \<le> fd"
    "sys_read S fd buflen w2 = ((n, bs), w3)" "2 \<le> n"
    "serve (nat n) bs (s_type_of bs) (w3, c\<lparr>data_socket := fd\<rparr>, d) = (Inr (), (w4, c\<lparr>data_socket := fd\<rparr>, d'))"
  shows "command_round get put S s_type_of buflen serve (w, c, d) = (Inr (), (sys_close S fd w4, c, d'))"
proof -
  have "c\<lparr>data_socket := -1\<rparr> = c" using assms(2) by (cases c) simp
  with assms flag_lensD(2) [OF assms(1)] show ?thesis
    by (simp add: round_defs stop_read_command_def close_data_socket_def)
qed

text \<open>Nobody wants anything.\<close>

lemma command_round_idle:
  assumes "flag_lens get put" "data_socket c = -1" "is_open c"
    "sys_select S (the_command_socket c) (milliseconds_to_timeval (socketTimeoutMS c)) w = (0, w1)"
  shows "command_round get put S s_type_of buflen serve (w, c, d) = (Inr (), (w1, c, d))"
  using assms flag_lensD(2) [OF assms(1)] by (simp add: round_defs)

text \<open>A client that connects and closes without sending anything leaves the socket in use.\<close>

lemma command_round_silent:
  assumes "flag_lens get put" "data_socket c = -1" "is_open c"
    "sys_select S (the_command_socket c) (milliseconds_to_timeval (socketTimeoutMS c)) w = (rv, w1)" "0 < rv"
    "sys_accept S (the_command_socket c) w1 = (fd, w2)" "0 \<le> fd"
    "sys_read S fd buflen w2 = ((0, bs), w3)"
  shows "command_round get put S s_type_of buflen serve (w, c, d) = (Inr (), (w3, c\<lparr>data_socket := fd\<rparr>, d))"
  using assms flag_lensD(2) [OF assms(1)] by (simp add: round_defs)

lemma command_round_in_use:
  assumes "data_socket c \<noteq> -1"
  shows "command_round get put S s_type_of buflen serve (w, c, d) = (Inr (), (w, c, put True d))"
  using assms by (simp add: round_defs)

text \<open>
  When binding fails, the mask for new files stays 0, and the descriptor that was closed counts as open,
  so that the destructor closes it once more.
\<close>

lemma open_owner_bind_fails:
  assumes "strlen (socketName c) \<le> max_command_socket_name_length"
    "sys_socket S (sys_unlink S (socketName c) w) = (fd, w1)" "0 \<le> fd" "sys_umask S 0 w1 = (m, w2)"
    "sys_bind S fd (socketName c) w2 = (ret, w3)" "ret < 0"
  shows "open_owner S (w, c) = (Inl SocketException, (sys_unlink S (socketName c) (sys_close S fd w3), c\<lparr>the_command_socket := fd\<rparr>))"
    and "is_open (c\<lparr>the_command_socket := fd\<rparr>)"
  using assms by (simp_all add: open_owner_def give_up_def is_open_def bindE_def Let_def)

end
