(* ===== verification/VardisManagement.thy ===== *)
theory VardisManagement
  imports VardisSegment CommandSocket
begin

text \<open>
  The management commands of the VarDis demon, \<open>dcp/vardis/vardis_management_command.cc\<close>: registration of
  applications, activation, statistics, and descriptions of the database.

  A request that was received with the right number of bytes is \<open>Some\<close> of its content, with another number of
  bytes \<open>None\<close>; a handler returns the objects that are written to the socket, one after the other.  The memory
  images of the objects depend on the compiler and are an argument of the command loop.  A member that the code
  does not initialize has the value it finds in memory, again an argument (\<open>junk\<close>).
\<close>

section \<open>Primitives\<close>

record VardisRegister_Request =
  vrq_shm_area_name :: string
  vrq_delete_old_registration :: bool

record DescribeDatabaseVariableDescription =
  dd_varId :: VarIdT
  dd_prodId :: NodeIdentifierT
  dd_repCnt :: VarRepCntT
  dd_creationTime :: TimeStampT
  dd_timeout :: VarTimeoutT
  dd_description :: "u8 list"
  dd_tStamp :: TimeStampT
  dd_isDeleted :: bool

record DescribeVariableDescription =
  dv_varId :: VarIdT
  dv_prodId :: NodeIdentifierT
  dv_repCnt :: VarRepCntT
  dv_creationTime :: TimeStampT
  dv_timeout :: VarTimeoutT
  dv_description :: "u8 list"
  dv_seqno :: VarSeqnoT
  dv_tStamp :: TimeStampT
  dv_countUpdate :: VarRepCntT
  dv_countCreate :: VarRepCntT
  dv_countDelete :: VarRepCntT
  dv_isDeleted :: bool
  dv_value_length :: VarLenT

text \<open>The description and the flag have no initial value.\<close>

definition new_DescribeVariableDescription :: "u8 list \<Rightarrow> bool \<Rightarrow> DescribeVariableDescription" where
  "new_DescribeVariableDescription junk junk_flag =
     \<lparr>dv_varId = 0, dv_prodId = nullNodeIdentifier, dv_repCnt = 0, dv_creationTime = 0, dv_timeout = 0,
      dv_description = junk, dv_seqno = 0, dv_tStamp = 0, dv_countUpdate = 0, dv_countCreate = 0, dv_countDelete = 0,
      dv_isDeleted = junk_flag, dv_value_length = 0\<rparr>"

datatype vardis_message =
    VardisRegister_Confirm DcpStatus NodeIdentifierT
  | VardisSimple_Confirm DcpServiceType DcpStatus
  | VardisGetStatistics_Confirm DcpStatus VardisProtocolStatistics
  | VardisDescribeDatabase_Confirm DcpStatus nat
  | VariableDescription DescribeDatabaseVariableDescription
  | VardisDescribeVariable_Confirm DcpStatus DescribeVariableDescription
  | ValueBytes "u8 list"

type_synonym vardis_handler = "(VardisRuntimeData, vardis_message list) action"

definition set_vardis_exit :: "(VardisRuntimeData, unit) action" where
  "set_vardis_exit = modifyE (\<lambda>rt. rt\<lparr>vardis_exitFlag := True\<rparr>)"

definition wrong_request_size :: "vardis_message \<Rightarrow> vardis_handler" where
  "wrong_request_size conf = bindE set_vardis_exit (\<lambda>_. retE [conf])"

section \<open>Registration\<close>

definition new_VardisClientProtocolData ::
  "nat \<Rightarrow> dcp_error + raw_memory list \<Rightarrow> dcp_error + VardisClientProtocolData" where
  "new_VardisClientProtocolData csz shm_area =
     (case shm_area of
        Inl e \<Rightarrow> Inl e
      | Inr memory_address \<Rightarrow>
          (case new_VardisShmControlSegment csz memory_address of
             Inl e \<Rightarrow> Inl e
           | Inr CS \<Rightarrow> Inr \<lparr>vc_clientName = [], vc_pSCS = CS\<rparr>))"

text \<open>\<open>shm_area\<close> is the shared memory that the operating system provides, or the exception.\<close>

definition handleVardisRegisterRequest ::
  "nat \<Rightarrow> dcp_error + raw_memory list \<Rightarrow> VardisRegister_Request option \<Rightarrow> vardis_handler" where
  "handleVardisRegisterRequest csz shm_area request =
     (case request of
        None \<Rightarrow> wrong_request_size (VardisRegister_Confirm VARDIS_STATUS_INTERNAL_ERROR nullNodeIdentifier)
      | Some pReq \<Rightarrow> (\<lambda>rt.
          let name = vrq_shm_area_name pReq in
          if clientApplications rt name \<noteq> None \<and> \<not> vrq_delete_old_registration pReq then
            (Inr [VardisRegister_Confirm VARDIS_STATUS_APPLICATION_ALREADY_REGISTERED nullNodeIdentifier], rt)
          else
            (let rt = rt\<lparr>clientApplications := (clientApplications rt)(name := None)\<rparr> in
             case new_VardisClientProtocolData csz shm_area of
               Inl e \<Rightarrow> (Inl e, rt)
             | Inr clientProt \<Rightarrow>
                 (Inr [VardisRegister_Confirm VARDIS_STATUS_OK (ownNodeIdentifier (protocol_data rt))],
                  rt\<lparr>clientApplications := (clientApplications rt)(name \<mapsto> clientProt\<lparr>vc_clientName := name\<rparr>)\<rparr>))))"

definition handleVardisDeregisterRequest :: "string option \<Rightarrow> vardis_handler" where
  "handleVardisDeregisterRequest request =
     (case request of
        None \<Rightarrow> wrong_request_size (VardisSimple_Confirm stVardis_Deregister VARDIS_STATUS_INTERNAL_ERROR)
      | Some name \<Rightarrow> (\<lambda>rt.
          if clientApplications rt name = None then
            (Inr [VardisSimple_Confirm stVardis_Deregister VARDIS_STATUS_UNKNOWN_APPLICATION], rt)
          else (Inr [VardisSimple_Confirm stVardis_Deregister VARDIS_STATUS_OK],
                rt\<lparr>clientApplications := (clientApplications rt)(name := None)\<rparr>)))"

section \<open>Activation and statistics\<close>

definition handleVardisShutdownRequest :: "(VardisRuntimeData, unit) action" where
  "handleVardisShutdownRequest = set_vardis_exit"

definition set_store_active :: "bool \<Rightarrow> (VardisRuntimeData, unit) action" where
  "set_store_active b = modifyE (\<lambda>rt. rt\<lparr>protocol_data :=
     (protocol_data rt)\<lparr>vardis_store := set_vardis_isactive b (vardis_store (protocol_data rt))\<rparr>\<rparr>)"

definition handleVardisActivateRequest :: "unit option \<Rightarrow> vardis_handler" where
  "handleVardisActivateRequest request =
     (case request of
        None \<Rightarrow> wrong_request_size (VardisSimple_Confirm stVardis_Activate VARDIS_STATUS_INTERNAL_ERROR)
      | Some _ \<Rightarrow> bindE (set_store_active True) (\<lambda>_.
                  retE [VardisSimple_Confirm stVardis_Activate VARDIS_STATUS_OK]))"

definition handleVardisDeactivateRequest :: "unit option \<Rightarrow> vardis_handler" where
  "handleVardisDeactivateRequest request =
     (case request of
        None \<Rightarrow> wrong_request_size (VardisSimple_Confirm stVardis_Deactivate VARDIS_STATUS_INTERNAL_ERROR)
      | Some _ \<Rightarrow> bindE (set_store_active False) (\<lambda>_.
                  retE [VardisSimple_Confirm stVardis_Deactivate VARDIS_STATUS_OK]))"

text \<open>The status code of the confirm with the statistics is not set.\<close>

definition handleVardisGetStatisticsRequest ::
  "DcpStatus \<Rightarrow> unit option \<Rightarrow> vardis_handler" where
  "handleVardisGetStatisticsRequest junk request =
     (case request of
        None \<Rightarrow> wrong_request_size (VardisGetStatistics_Confirm VARDIS_STATUS_INTERNAL_ERROR new_VardisProtocolStatistics)
      | Some _ \<Rightarrow> getE (\<lambda>rt. [VardisGetStatistics_Confirm junk
                                (vardis_stats (global_state (vardis_store (protocol_data rt))))]))"

section \<open>Descriptions\<close>

definition describe_database_entry ::
  "u8 list \<Rightarrow> VarIdT \<Rightarrow> (ArrayContents, DescribeDatabaseVariableDescription) action" where
  "describe_database_entry junk varId =
     bindE (get_db_entry_ref varId) (\<lambda>db_entry.
     bindE (read_description_block varId (Some junk)) (\<lambda>description.
     retE \<lparr>dd_varId = db_varId db_entry, dd_prodId = db_prodId db_entry, dd_repCnt = db_repCnt db_entry,
           dd_creationTime = db_creationTime db_entry, dd_timeout = db_timeout db_entry,
           dd_description = description, dd_tStamp = db_tStamp db_entry, dd_isDeleted = db_isDeleted db_entry\<rparr>))"

fun describe_entries :: "u8 list \<Rightarrow> VarIdT list \<Rightarrow> (ArrayContents, DescribeDatabaseVariableDescription list) action" where
  "describe_entries junk [] = retE []"
| "describe_entries junk (varId # varIds) =
     bindE (describe_database_entry junk varId) (\<lambda>descr.
     bindE (describe_entries junk varIds) (\<lambda>descrs.
     retE (descr # descrs)))"

definition on_vardis_store :: "(ArrayContents, 'a) action \<Rightarrow> (VardisRuntimeData, 'a) action" where
  "on_vardis_store = zoomE (\<lambda>rt. vardis_store (protocol_data rt))
     (\<lambda>st rt. rt\<lparr>protocol_data := (protocol_data rt)\<lparr>vardis_store := st\<rparr>\<rparr>)"

definition handleVardisRTDBDescribeDatabaseRequest :: "u8 list \<Rightarrow> unit option \<Rightarrow> vardis_handler" where
  "handleVardisRTDBDescribeDatabaseRequest junk request =
     (case request of
        None \<Rightarrow> wrong_request_size (VardisDescribeDatabase_Confirm VARDIS_STATUS_INTERNAL_ERROR 0)
      | Some _ \<Rightarrow> (\<lambda>rt.
          bindE (on_vardis_store (describe_entries junk (sorted_list_of_set (active_variables (protocol_data rt))))) (\<lambda>var_descriptions.
          retE (VardisDescribeDatabase_Confirm VARDIS_STATUS_OK (length var_descriptions)
                # map VariableDescription var_descriptions)) rt))"

definition describe_variable_entry ::
  "u8 list \<Rightarrow> u8 list \<Rightarrow> VarIdT \<Rightarrow> (ArrayContents, DescribeVariableDescription \<times> u8 list) action" where
  "describe_variable_entry junk val_buffer varId =
     bindE (get_db_entry_ref varId) (\<lambda>db_entry.
     bindE (read_description_block varId (Some junk)) (\<lambda>description.
     bindE (getE (size_of_value varId)) (\<lambda>value_length.
     bindE (read_value_block varId (MAX_maxValueLength + 1) (Some val_buffer)) (\<lambda>(val_buffer, val_size).
     retE (\<lparr>dv_varId = db_varId db_entry, dv_prodId = db_prodId db_entry, dv_repCnt = db_repCnt db_entry,
            dv_creationTime = db_creationTime db_entry, dv_timeout = db_timeout db_entry,
            dv_description = description, dv_seqno = db_seqno db_entry, dv_tStamp = db_tStamp db_entry,
            dv_countUpdate = db_countUpdate db_entry, dv_countCreate = db_countCreate db_entry,
            dv_countDelete = db_countDelete db_entry, dv_isDeleted = db_isDeleted db_entry,
            dv_value_length = of_nat value_length\<rparr>, val_buffer)))))"

definition handleVardisRTDBDescribeVariableRequest ::
  "bool \<Rightarrow> u8 list \<Rightarrow> u8 list \<Rightarrow> VarIdT option \<Rightarrow> vardis_handler" where
  "handleVardisRTDBDescribeVariableRequest junk_flag junk val_buffer request =
     (case request of
        None \<Rightarrow> wrong_request_size (VardisDescribeVariable_Confirm VARDIS_STATUS_INTERNAL_ERROR (new_DescribeVariableDescription junk junk_flag))
      | Some varId \<Rightarrow> (\<lambda>rt.
          if \<not> identifier_is_allocated varId (vardis_store (protocol_data rt)) then
            (Inr [VardisDescribeVariable_Confirm VARDIS_STATUS_VARIABLE_DOES_NOT_EXIST (new_DescribeVariableDescription junk junk_flag)], rt)
          else bindE (on_vardis_store (describe_variable_entry junk val_buffer varId)) (\<lambda>(var_descr, val_buffer).
               retE [VardisDescribeVariable_Confirm VARDIS_STATUS_OK var_descr,
                     ValueBytes (take (unat (dv_value_length var_descr)) val_buffer)]) rt))"

section \<open>The command loop\<close>

datatype vardis_command =
    VardisRegister "dcp_error + raw_memory list" "VardisRegister_Request option"
  | VardisDeregister "string option"
  | VardisShutdown
  | VardisActivate "unit option"
  | VardisDeactivate "unit option"
  | VardisGetStatistics DcpStatus "unit option"
  | VardisDescribeDatabase "u8 list" "unit option"
  | VardisDescribeVariable bool "u8 list" "u8 list" "VarIdT option"
  | VardisUnknownService DcpServiceType

fun handle_vardis_command :: "nat \<Rightarrow> vardis_command \<Rightarrow> vardis_handler" where
  "handle_vardis_command csz (VardisRegister shm_area req) = handleVardisRegisterRequest csz shm_area req"
| "handle_vardis_command csz (VardisDeregister req) = handleVardisDeregisterRequest req"
| "handle_vardis_command csz VardisShutdown = bindE handleVardisShutdownRequest (\<lambda>_. retE [])"
| "handle_vardis_command csz (VardisActivate req) = handleVardisActivateRequest req"
| "handle_vardis_command csz (VardisDeactivate req) = handleVardisDeactivateRequest req"
| "handle_vardis_command csz (VardisGetStatistics junk req) = handleVardisGetStatisticsRequest junk req"
| "handle_vardis_command csz (VardisDescribeDatabase junk req) = handleVardisRTDBDescribeDatabaseRequest junk req"
| "handle_vardis_command csz (VardisDescribeVariable junk_flag junk val_buffer req) =
     handleVardisRTDBDescribeVariableRequest junk_flag junk val_buffer req"
| "handle_vardis_command csz (VardisUnknownService st) = bindE set_vardis_exit (\<lambda>_. retE [])"

definition vardisCommandSocketBufferSize :: nat where
  "vardisCommandSocketBufferSize = 8192"

abbreviation on_exit_flag :: "('w \<times> CommandSocket \<times> bool, 'a) action \<Rightarrow> ('w \<times> CommandSocket \<times> VardisRuntimeData, 'a) action" where
  "on_exit_flag \<equiv> on_flag vardis_exitFlag (\<lambda>x rt. rt\<lparr>vardis_exitFlag := x\<rparr>)"

text \<open>
  The decoding of a request, with what the environment contributes to its handling, and the memory image of a
  message are arguments.  All messages are written whatever became of the one before.
\<close>

definition send_message :: "'w sockets \<Rightarrow> (vardis_message \<Rightarrow> u8 list) \<Rightarrow> vardis_message
     \<Rightarrow> ('w \<times> CommandSocket \<times> VardisRuntimeData, unit) action" where
  "send_message S obj_image m =
     on_exit_flag (case m of
       VardisSimple_Confirm _ _ \<Rightarrow> send_raw_confirmation S (obj_image m)
     | _ \<Rightarrow> bindE (send_raw_data S (obj_image m)) (\<lambda>_. retE ()))"

definition vardis_command_round ::
  "'w sockets \<Rightarrow> (u8 list \<Rightarrow> DcpServiceType) \<Rightarrow> (nat \<Rightarrow> u8 list \<Rightarrow> DcpServiceType \<Rightarrow> vardis_command)
     \<Rightarrow> (vardis_message \<Rightarrow> u8 list) \<Rightarrow> nat \<Rightarrow> ('w \<times> CommandSocket \<times> VardisRuntimeData, unit) action" where
  "vardis_command_round S s_type_of decode obj_image csz =
     command_round vardis_exitFlag (\<lambda>x rt. rt\<lparr>vardis_exitFlag := x\<rparr>) S s_type_of vardisCommandSocketBufferSize
       (\<lambda>nbytes buffer serv_type.
          bindE (zoomE (\<lambda>(w, c, rt). rt) (\<lambda>rt (w, c, _). (w, c, rt)) (handle_vardis_command csz (decode nbytes buffer serv_type)))
            (forE (send_message S obj_image)))"

definition vardis_command_thread_round ::
  "'w sockets \<Rightarrow> (u8 list \<Rightarrow> DcpServiceType) \<Rightarrow> (nat \<Rightarrow> u8 list \<Rightarrow> DcpServiceType \<Rightarrow> vardis_command)
     \<Rightarrow> (vardis_message \<Rightarrow> u8 list) \<Rightarrow> nat \<Rightarrow> 'w \<times> CommandSocket \<times> VardisRuntimeData \<Rightarrow> 'w \<times> CommandSocket \<times> VardisRuntimeData" where
  "vardis_command_thread_round S s_type_of decode obj_image csz s =
     (case vardis_command_round S s_type_of decode obj_image csz s of
        (Inl e, (w, c, rt)) \<Rightarrow> (w, c, rt\<lparr>vardis_exitFlag := True\<rparr>)
      | (Inr _, s) \<Rightarrow> s)"

section \<open>What the commands do\<close>

lemma vardis_ok_clients:
  assumes "safe_vardis csz rt" "\<forall>name c. cs name = Some c \<longrightarrow> vc_clientName c = name \<and> segment_safe csz (vc_pSCS c)" "finite (dom cs)"
  shows "safe_vardis csz (rt\<lparr>clientApplications := cs\<rparr>)"
  using assms by (simp add: safe_vardis_def)

lemma new_client_segment:
  assumes "shm_area = Inr raws" "length raws = 6" "\<forall>raw \<in> set raws. raw_memory_ok raw"
  obtains c where "new_VardisClientProtocolData csz shm_area = Inr c" "segment_ok csz (vc_pSCS c)"
proof -
  obtain CS where "new_VardisShmControlSegment csz raws = Inr CS" "segment_ok csz CS"
    by (rule new_vardis_segment_ok [OF assms(2,3)])
  then show thesis using that assms(1) by (simp add: new_VardisClientProtocolData_def)
qed

text \<open>The memory the operating system gives for a segment holds the six queues.\<close>

definition command_ok :: "vardis_command \<Rightarrow> bool" where
  "command_ok cmd \<longleftrightarrow> (case cmd of
     VardisRegister (Inr raws) _ \<Rightarrow> length raws = 6 \<and> (\<forall>raw \<in> set raws. raw_memory_ok raw)
   | VardisDescribeDatabase junk _ \<Rightarrow> length junk = MAX_maxDescriptionLength + 1
   | VardisDescribeVariable _ junk val_buffer _ \<Rightarrow> length junk = MAX_maxDescriptionLength + 1 \<and> length val_buffer = MAX_maxValueLength + 1
   | _ \<Rightarrow> True)"

lemma register_new:
  assumes "shm_area = Inr raws" "length raws = 6" "\<forall>raw \<in> set raws. raw_memory_ok raw"
    "clientApplications rt name = None \<or> del_old"
  obtains c where "handleVardisRegisterRequest csz shm_area (Some \<lparr>vrq_shm_area_name = name, vrq_delete_old_registration = del_old\<rparr>) rt
      = (Inr [VardisRegister_Confirm VARDIS_STATUS_OK (ownNodeIdentifier (protocol_data rt))],
         rt\<lparr>clientApplications := (clientApplications rt)(name \<mapsto> c)\<rparr>)"
    "vc_clientName c = name" "segment_ok csz (vc_pSCS c)"
proof -
  obtain c where c: "new_VardisClientProtocolData csz shm_area = Inr c" "segment_ok csz (vc_pSCS c)"
    by (rule new_client_segment [OF assms(1-3)])
  show thesis
    by (rule that [of "c\<lparr>vc_clientName := name\<rparr>"])
      (use c assms(4) in \<open>auto simp: handleVardisRegisterRequest_def Let_def\<close>)
qed

lemma terminated_copy:
  "length d < length junk \<Longrightarrow> (memcpy_at junk 0 d (length d))[length d := 0] = d @ 0 # drop (Suc (length d)) junk"
  by (simp add: memcpy_at_def list_update_append Cons_nth_drop_Suc [symmetric])

text \<open>The description of a variable: what the demon holds about it, the text terminated by a zero.\<close>

definition database_description :: "u8 list \<Rightarrow> VardisProtocolData \<Rightarrow> VarIdT \<Rightarrow> DescribeDatabaseVariableDescription" where
  "database_description junk pd i =
     \<lparr>dd_varId = i, dd_prodId = db_prodId (entry pd i), dd_repCnt = db_repCnt (entry pd i),
      dd_creationTime = db_creationTime (entry pd i), dd_timeout = db_timeout (entry pd i),
      dd_description = descr_of pd i @ 0 # drop (Suc (length (descr_of pd i))) junk,
      dd_tStamp = db_tStamp (entry pd i), dd_isDeleted = db_isDeleted (entry pd i)\<rparr>"

definition variable_description :: "u8 list \<Rightarrow> VardisProtocolData \<Rightarrow> VarIdT \<Rightarrow> DescribeVariableDescription" where
  "variable_description junk pd i =
     \<lparr>dv_varId = i, dv_prodId = db_prodId (entry pd i), dv_repCnt = db_repCnt (entry pd i),
      dv_creationTime = db_creationTime (entry pd i), dv_timeout = db_timeout (entry pd i),
      dv_description = descr_of pd i @ 0 # drop (Suc (length (descr_of pd i))) junk,
      dv_seqno = db_seqno (entry pd i), dv_tStamp = db_tStamp (entry pd i), dv_countUpdate = db_countUpdate (entry pd i),
      dv_countCreate = db_countCreate (entry pd i), dv_countDelete = db_countDelete (entry pd i),
      dv_isDeleted = db_isDeleted (entry pd i), dv_value_length = of_nat (length (val_of pd i))\<rparr>"

lemma var_lengths:
  assumes "wf_pd pd" "used pd i"
  shows "length (descr_of pd i) \<le> MAX_maxDescriptionLength" "length (val_of pd i) \<le> MAX_maxValueLength"
    "db_varId (entry pd i) = i"
proof -
  have "wf_entry (maxRepetitions pd) i (entry pd i)" "wf_bytes (maxValueLength pd) (val_of pd i)"
    "wf_bytes (maxDescriptionLength pd) (descr_of pd i)"
    using wf_pdD(5) [OF assms(1), of i] assms(2) by (simp_all add: wf_var_def)
  moreover have "maxValueLength pd \<le> 255" "maxDescriptionLength pd \<le> 255" using wf_pdD(3) [OF assms(1)] by (simp_all add: wf_conf_def)
  ultimately show "length (descr_of pd i) \<le> MAX_maxDescriptionLength" "length (val_of pd i) \<le> MAX_maxValueLength"
    "db_varId (entry pd i) = i"
    by (simp_all add: wf_bytes_def wf_entry_def MAX_maxDescriptionLength_def MAX_maxValueLength_def VarLenT_max_val_def)
qed

lemma describe_database_entry_ok:
  assumes "wf_pd pd" "used pd i" "length junk = MAX_maxDescriptionLength + 1"
  shows "describe_database_entry junk i (vardis_store pd) = (Inr (database_description junk pd i), vardis_store pd)"
  using assms(2) var_lengths [OF assms(1,2)] assms(3) terminated_copy [of "descr_of pd i" junk, unfolded length_descr_bytes]
  by (simp add: describe_database_entry_def get_db_entry_ref_def read_description_block_def throw_unused_def bindE_def
      database_description_def)

lemma describe_entries_ok:
  assumes "wf_pd pd" "\<forall>i \<in> set is. used pd i" "length junk = MAX_maxDescriptionLength + 1"
  shows "describe_entries junk is (vardis_store pd) = (Inr (map (database_description junk pd) is), vardis_store pd)"
  using assms(2) by (induction "is") (simp_all add: bindE_def describe_database_entry_ok [OF assms(1) _ assms(3)])

lemma describe_variable_entry_ok:
  assumes "wf_pd pd" "used pd i" "length junk = MAX_maxDescriptionLength + 1" "length val_buffer = MAX_maxValueLength + 1"
  shows "describe_variable_entry junk val_buffer i (vardis_store pd)
    = (Inr (variable_description junk pd i, val_of pd i @ drop (length (val_of pd i)) val_buffer), vardis_store pd)"
  using assms(2-) var_lengths [OF assms(1,2)] terminated_copy [of "descr_of pd i" junk, unfolded length_descr_bytes]
  by (simp add: describe_variable_entry_def get_db_entry_ref_def read_description_block_def read_value_block_def throw_unused_def
      bindE_def size_of_value_def variable_description_def memcpy_at_def)

lemma on_vardis_store_read:
  "m (vardis_store (protocol_data rt)) = (r, vardis_store (protocol_data rt)) \<Longrightarrow> on_vardis_store m rt = (r, rt)"
  by (simp add: on_vardis_store_def zoomE_def)

lemma describe_database_ok:
  assumes "wf_pd (protocol_data rt)" "length junk = MAX_maxDescriptionLength + 1"
  shows "handleVardisRTDBDescribeDatabaseRequest junk (Some ()) rt =
    (let vars = sorted_list_of_set {i. used (protocol_data rt) i} in
     (Inr (VardisDescribeDatabase_Confirm VARDIS_STATUS_OK (length vars)
        # map (\<lambda>i. VariableDescription (database_description junk (protocol_data rt) i)) vars), rt))"
proof -
  have a: "active_variables (protocol_data rt) = {i. used (protocol_data rt) i}"
    using wf_pdD(4) [OF assms(1)] by (simp add: used_ids_def)
  have "\<forall>i \<in> set (sorted_list_of_set {i. used (protocol_data rt) i}). used (protocol_data rt) i" by simp
  from on_vardis_store_read [where m = "describe_entries junk (sorted_list_of_set {i. used (protocol_data rt) i})" and rt = rt,
      OF describe_entries_ok [OF assms(1) this assms(2)]]
  show ?thesis by (simp add: handleVardisRTDBDescribeDatabaseRequest_def a bindE_def Let_def comp_def)
qed

lemma describe_variable_ok:
  assumes "wf_pd (protocol_data rt)" "length junk = MAX_maxDescriptionLength + 1" "length val_buffer = MAX_maxValueLength + 1"
  shows "handleVardisRTDBDescribeVariableRequest junk_flag junk val_buffer (Some i) rt =
    (Inr (if used (protocol_data rt) i
          then [VardisDescribeVariable_Confirm VARDIS_STATUS_OK (variable_description junk (protocol_data rt) i),
                ValueBytes (val_of (protocol_data rt) i)]
          else [VardisDescribeVariable_Confirm VARDIS_STATUS_VARIABLE_DOES_NOT_EXIST (new_DescribeVariableDescription junk junk_flag)]), rt)"
proof (cases "used (protocol_data rt) i")
  case True
  have "length (val_of (protocol_data rt) i) < 256"
    using var_lengths(2) [OF assms(1) True] by (simp add: MAX_maxValueLength_def VarLenT_max_val_def)
  then have "unat (of_nat (length (val_of (protocol_data rt) i)) :: u8) = length (val_of (protocol_data rt) i)"
    by (simp add: unat_of_nat take_bit_eq_mod)
  with True on_vardis_store_read [where m = "describe_variable_entry junk val_buffer i" and rt = rt, OF describe_variable_entry_ok [OF assms(1) True assms(2,3)]] show ?thesis
    by (simp add: handleVardisRTDBDescribeVariableRequest_def identifier_is_allocated_def bindE_def variable_description_def)
next
  case False
  then show ?thesis by (simp add: handleVardisRTDBDescribeVariableRequest_def identifier_is_allocated_def)
qed

section \<open>Every command keeps the demon in order\<close>

lemma set_store_active_safe:
  assumes "safe_vardis csz rt"
  shows "safe_vardis csz (rt\<lparr>protocol_data := (protocol_data rt)\<lparr>vardis_store := set_vardis_isactive b (vardis_store (protocol_data rt))\<rparr>\<rparr>)"
  using assms wf_pd_set_active [of "protocol_data rt" b] by (simp add: safe_vardis_def)

lemma vardis_command_safe:
  assumes "vardis_ok csz rt" "\<not> vardis_exitFlag rt" "command_ok cmd" "handle_vardis_command csz cmd rt = (Inr msgs, rt')"
  shows "vardis_ok csz rt'"
proof -
  have wf: "safe_vardis csz rt" using assms(1,2) by (simp add: vardis_ok_def)
  note c = safe_vardis_def vardis_ok_def
  note d = set_vardis_exit_def wrong_request_size_def bindE_def
  show ?thesis
  proof (cases cmd)
    case (VardisRegister shm_area req)
    show ?thesis
    proof (cases req)
      case None
      then show ?thesis using assms(4) VardisRegister by (auto simp: handleVardisRegisterRequest_def d c)
    next
      case (Some q)
      show ?thesis
      proof (cases "clientApplications rt (vrq_shm_area_name q) \<noteq> None \<and> \<not> vrq_delete_old_registration q")
        case True
        then show ?thesis using assms(1,4) VardisRegister Some by (auto simp: handleVardisRegisterRequest_def Let_def)
      next
        case False
        obtain cl where cl: "new_VardisClientProtocolData csz shm_area = Inr cl"
          "rt' = rt\<lparr>clientApplications := (clientApplications rt)(vrq_shm_area_name q \<mapsto> cl\<lparr>vc_clientName := vrq_shm_area_name q\<rparr>)\<rparr>"
          using assms(4) VardisRegister Some False
          by (auto simp: handleVardisRegisterRequest_def Let_def split: sum.splits if_splits)
        then obtain raws where raws: "shm_area = Inr raws" by (auto simp: new_VardisClientProtocolData_def split: sum.splits)
        have "length raws = 6" "\<forall>raw \<in> set raws. raw_memory_ok raw" using assms(3) VardisRegister raws by (simp_all add: command_ok_def)
        then obtain cl' where "new_VardisClientProtocolData csz shm_area = Inr cl'" "segment_ok csz (vc_pSCS cl')"
          by (rule new_client_segment [OF raws])
        then have "segment_safe csz (vc_pSCS cl)" using cl(1) segment_ok_safe by simp
        then have "\<forall>n a. ((clientApplications rt)(vrq_shm_area_name q \<mapsto> cl\<lparr>vc_clientName := vrq_shm_area_name q\<rparr>)) n = Some a
            \<longrightarrow> vc_clientName a = n \<and> segment_safe csz (vc_pSCS a)" using wf by (simp add: safe_vardis_def)
        moreover have "finite (dom ((clientApplications rt)(vrq_shm_area_name q \<mapsto> cl\<lparr>vc_clientName := vrq_shm_area_name q\<rparr>)))"
          using wf by (simp add: safe_vardis_def)
        ultimately have "safe_vardis csz rt'" unfolding cl(2) by (rule vardis_ok_clients [OF wf])
        then show ?thesis by (simp add: vardis_ok_def)
      qed
    qed
  next
    case (VardisDeregister req)
    then show ?thesis using assms(4) wf
      by (cases req) (auto simp: handleVardisDeregisterRequest_def d c split: if_splits)
  next
    case VardisShutdown
    then show ?thesis using assms(4) by (auto simp: handleVardisShutdownRequest_def d c)
  next
    case (VardisActivate req)
    then show ?thesis using assms(4) set_store_active_safe [OF wf]
      by (cases req) (auto simp: handleVardisActivateRequest_def set_store_active_def d vardis_ok_def)
  next
    case (VardisDeactivate req)
    then show ?thesis using assms(4) set_store_active_safe [OF wf]
      by (cases req) (auto simp: handleVardisDeactivateRequest_def set_store_active_def d vardis_ok_def)
  next
    case (VardisGetStatistics junk req)
    then show ?thesis using assms(1,4) by (cases req) (auto simp: handleVardisGetStatisticsRequest_def d c)
  next
    case (VardisDescribeDatabase junk req)
    have "length junk = MAX_maxDescriptionLength + 1" using assms(3) VardisDescribeDatabase by (simp add: command_ok_def)
    then show ?thesis using assms(1,4) wf VardisDescribeDatabase describe_database_ok [of rt junk]
      by (cases req) (auto simp: handleVardisRTDBDescribeDatabaseRequest_def d c Let_def)
  next
    case (VardisDescribeVariable f junk vb req)
    have "length junk = MAX_maxDescriptionLength + 1" "length vb = MAX_maxValueLength + 1"
      using assms(3) VardisDescribeVariable by (simp_all add: command_ok_def)
    then show ?thesis using assms(1,4) wf VardisDescribeVariable describe_variable_ok [of rt junk vb f]
      by (cases req) (auto simp: d c handleVardisRTDBDescribeVariableRequest_def)
  next
    case (VardisUnknownService st)
    then show ?thesis using assms(4) by (auto simp: d c)
  qed
qed

end
