(* ===== verification/VardisClientLib.thy ===== *)
theory VardisClientLib
  imports VardisManagement
begin

text \<open>
  The client library of VarDis, \<open>dcp/vardis/vardisclient_lib.cc\<close> and \<open>vardisclient_lib_rtdb.cc\<close>: the
  constructor, the commands over the command socket, and the RTDB services over the segment that client and
  demon share.

  Between the request and the confirm of an RTDB service the demon works: what it does to its own state (the type
  \<open>'o\<close>) and to the segment is an argument of the service.
\<close>

section \<open>RTDB services through the segment\<close>

definition conf_handler :: "DcpStatus PopHandler" where
  "conf_handler msg retval =
     (case des_RTDB_Confirm (MemoryChunkDisassemblyArea (length msg) msg) of
        (Inl e, _) \<Rightarrow> (Inl e, retval)
      | (Inr conf, _) \<Rightarrow> (Inr (), snd (cnf_type_status conf)))"

text \<open>What the operating system decides in a call: the two mutexes and the two waits; and the value that the
  result has before it is assigned.\<close>

record rtdb_call =
  rc_owns_request :: bool
  rc_wait_request :: waiting
  rc_owns_confirm :: bool
  rc_wait_confirm :: waiting
  rc_junk :: DcpStatus

definition await_confirm ::
  "(VardisShmControlSegment \<Rightarrow> ShmFiniteQueue) \<Rightarrow> (ShmFiniteQueue \<Rightarrow> VardisShmControlSegment \<Rightarrow> VardisShmControlSegment)
   \<Rightarrow> rtdb_call \<Rightarrow> ('o \<times> VardisShmControlSegment, DcpStatus) action" where
  "await_confirm confirmQueue set_confirmQueue call = (\<lambda>(d, CS).
     case pop_wait conf_handler defaultLongSharedMemoryLockTimeoutMS (rc_owns_confirm call) (rc_wait_confirm call)
            (rc_junk call, confirmQueue CS) of
       (Inl e, (_, q)) \<Rightarrow> (Inl e, (d, set_confirmQueue q CS))
     | (Inr (late, further_entries), (retval, q)) \<Rightarrow>
         (Inr (if late then VARDIS_STATUS_INTERNAL_SHARED_MEMORY_ERROR
               else if further_entries then VARDIS_STATUS_INTERNAL_ERROR
               else retval), (d, set_confirmQueue q CS)))"

definition rtdb_helper ::
  "(VardisShmControlSegment \<Rightarrow> ShmFiniteQueue) \<Rightarrow> (ShmFiniteQueue \<Rightarrow> VardisShmControlSegment \<Rightarrow> VardisShmControlSegment)
   \<Rightarrow> (VardisShmControlSegment \<Rightarrow> ShmFiniteQueue) \<Rightarrow> (ShmFiniteQueue \<Rightarrow> VardisShmControlSegment \<Rightarrow> VardisShmControlSegment)
   \<Rightarrow> unit PushHandler \<Rightarrow> rtdb_call \<Rightarrow> ('o \<times> VardisShmControlSegment \<Rightarrow> 'o \<times> VardisShmControlSegment)
   \<Rightarrow> ('o \<times> VardisShmControlSegment, DcpStatus) action" where
  "rtdb_helper requestQueue set_requestQueue confirmQueue set_confirmQueue req_handler call others =
     bindE (zoomE (\<lambda>(d, CS). confirmQueue CS) (\<lambda>q (d, CS). (d, set_confirmQueue q CS)) shm_reset) (\<lambda>_.
     bindE (zoomE (\<lambda>(d, CS). ((), requestQueue CS)) (\<lambda>(_, q) (d, CS). (d, set_requestQueue q CS))
              (push_wait req_handler defaultLongSharedMemoryLockTimeoutMS (rc_owns_request call) (rc_wait_request call))) (\<lambda>late.
     if late then retE VARDIS_STATUS_INTERNAL_SHARED_MEMORY_ERROR
     else bindE (modifyE others) (\<lambda>_. await_confirm confirmQueue set_confirmQueue call)))"

text \<open>The handler of a request serializes it into the whole buffer.\<close>

definition request_into :: "('r \<Rightarrow> (aa, unit) action) \<Rightarrow> 'r \<Rightarrow> 'h PushHandler" where
  "request_into ser r = (\<lambda>bufsize. serialize_into bufsize ser r bufsize)"

definition rtdb_create ::
  "VarSpecT \<Rightarrow> VarValueT \<Rightarrow> rtdb_call \<Rightarrow> ('o \<times> VardisShmControlSegment \<Rightarrow> 'o \<times> VardisShmControlSegment)
     \<Rightarrow> ('o \<times> VardisShmControlSegment, DcpStatus) action" where
  "rtdb_create spec val =
     rtdb_helper pqCreateRequest (\<lambda>q CS. CS\<lparr>pqCreateRequest := q\<rparr>) pqCreateConfirm (\<lambda>q CS. CS\<lparr>pqCreateConfirm := q\<rparr>)
       (request_into ser_RTDB_Create_Request \<lparr>crq_s_type = stVardis_RTDB_Create, crq_spec = spec, crq_value = val\<rparr>)"

definition rtdb_delete ::
  "VarIdT \<Rightarrow> rtdb_call \<Rightarrow> ('o \<times> VardisShmControlSegment \<Rightarrow> 'o \<times> VardisShmControlSegment)
     \<Rightarrow> ('o \<times> VardisShmControlSegment, DcpStatus) action" where
  "rtdb_delete varId =
     rtdb_helper pqDeleteRequest (\<lambda>q CS. CS\<lparr>pqDeleteRequest := q\<rparr>) pqDeleteConfirm (\<lambda>q CS. CS\<lparr>pqDeleteConfirm := q\<rparr>)
       (request_into ser_RTDB_Delete_Request \<lparr>irq_s_type = stVardis_RTDB_Delete, irq_varId = varId\<rparr>)"

definition rtdb_update ::
  "VarIdT \<Rightarrow> VarValueT \<Rightarrow> rtdb_call \<Rightarrow> ('o \<times> VardisShmControlSegment \<Rightarrow> 'o \<times> VardisShmControlSegment)
     \<Rightarrow> ('o \<times> VardisShmControlSegment, DcpStatus) action" where
  "rtdb_update varId val =
     rtdb_helper pqUpdateRequest (\<lambda>q CS. CS\<lparr>pqUpdateRequest := q\<rparr>) pqUpdateConfirm (\<lambda>q CS. CS\<lparr>pqUpdateConfirm := q\<rparr>)
       (request_into ser_RTDB_Update_Request \<lparr>urq_s_type = stVardis_RTDB_Update, urq_varId = varId, urq_value = val\<rparr>)"

section \<open>The steps of a call\<close>

text \<open>
  What a call does to the segment, one method of a queue at a time: it resets the confirm queue, sends its request, and
  takes its confirm.  A method that waits releases the mutex meanwhile; the step is the rest of the method when the
  wait ends, and \<open>signalled\<close> says whether it ended in time.
\<close>

datatype rtdb_kind = CreateKind | DeleteKind | UpdateKind

fun confirm_queue_of :: "rtdb_kind \<Rightarrow> VardisShmControlSegment \<Rightarrow> ShmFiniteQueue" where
  "confirm_queue_of CreateKind CS = pqCreateConfirm CS"
| "confirm_queue_of DeleteKind CS = pqDeleteConfirm CS"
| "confirm_queue_of UpdateKind CS = pqUpdateConfirm CS"

fun set_confirm_queue :: "rtdb_kind \<Rightarrow> ShmFiniteQueue \<Rightarrow> VardisShmControlSegment \<Rightarrow> VardisShmControlSegment" where
  "set_confirm_queue CreateKind q CS = CS\<lparr>pqCreateConfirm := q\<rparr>"
| "set_confirm_queue DeleteKind q CS = CS\<lparr>pqDeleteConfirm := q\<rparr>"
| "set_confirm_queue UpdateKind q CS = CS\<lparr>pqUpdateConfirm := q\<rparr>"

datatype rtdb_op =
    ResetConfirms rtdb_kind
  | SendCreate VarSpecT VarValueT
  | SendDelete VarIdT
  | SendUpdate VarIdT VarValueT
  | TakeConfirm rtdb_kind DcpStatus

definition send_request :: "unit PushHandler \<Rightarrow> bool \<Rightarrow> bool \<Rightarrow> ShmFiniteQueue \<Rightarrow> ShmFiniteQueue" where
  "send_request handler owns signalled q =
     snd (snd (push_wait handler defaultLongSharedMemoryLockTimeoutMS owns (\<lambda>q. (signalled, q)) ((), q)))"

fun rtdb_step :: "rtdb_op \<Rightarrow> bool \<Rightarrow> bool \<Rightarrow> VardisShmControlSegment \<Rightarrow> VardisShmControlSegment" where
  "rtdb_step (ResetConfirms kind) owns signalled CS = set_confirm_queue kind (snd (shm_reset (confirm_queue_of kind CS))) CS"
| "rtdb_step (SendCreate spec val) owns signalled CS = CS\<lparr>pqCreateRequest := send_request
     (request_into ser_RTDB_Create_Request \<lparr>crq_s_type = stVardis_RTDB_Create, crq_spec = spec, crq_value = val\<rparr>)
     owns signalled (pqCreateRequest CS)\<rparr>"
| "rtdb_step (SendDelete varId) owns signalled CS = CS\<lparr>pqDeleteRequest := send_request
     (request_into ser_RTDB_Delete_Request \<lparr>irq_s_type = stVardis_RTDB_Delete, irq_varId = varId\<rparr>)
     owns signalled (pqDeleteRequest CS)\<rparr>"
| "rtdb_step (SendUpdate varId val) owns signalled CS = CS\<lparr>pqUpdateRequest := send_request
     (request_into ser_RTDB_Update_Request \<lparr>urq_s_type = stVardis_RTDB_Update, urq_varId = varId, urq_value = val\<rparr>)
     owns signalled (pqUpdateRequest CS)\<rparr>"
| "rtdb_step (TakeConfirm kind junk) owns signalled CS = set_confirm_queue kind
     (snd (snd (pop_wait conf_handler defaultLongSharedMemoryLockTimeoutMS owns (\<lambda>q. (signalled, q)) (junk, confirm_queue_of kind CS)))) CS"

text \<open>The arguments of the services are objects of the types of the library, whose lengths are right.\<close>

fun rtdb_op_ok :: "rtdb_op \<Rightarrow> bool" where
  "rtdb_op_ok (SendCreate spec val) \<longleftrightarrow> wf_VarSpecT spec \<and> wf_VarValueT val"
| "rtdb_op_ok (SendUpdate varId val) \<longleftrightarrow> wf_VarValueT val"
| "rtdb_op_ok _ \<longleftrightarrow> True"

text \<open>
  Every call is such a sequence of steps, cut short by an exception or a timeout; between sending and waiting for the
  confirm there is what the others do.
\<close>

definition call_states :: "rtdb_kind \<Rightarrow> rtdb_op \<Rightarrow> rtdb_call \<Rightarrow> bool \<Rightarrow> bool
    \<Rightarrow> ('o \<times> VardisShmControlSegment \<Rightarrow> 'o \<times> VardisShmControlSegment) \<Rightarrow> 'o \<Rightarrow> VardisShmControlSegment \<Rightarrow> ('o \<times> VardisShmControlSegment) set" where
  "call_states kind send call b1 b2 others d CS =
     (let CS0 = rtdb_step (ResetConfirms kind) True True CS;
          CS1 = rtdb_step send (rc_owns_request call) b1 CS0;
          (d2, CS2) = others (d, CS1)
      in {(d, CS0), (d, CS1), (d2, rtdb_step (TakeConfirm kind (rc_junk call)) (rc_owns_confirm call) b2 CS2)})"

lemma rtdb_calls_are_steps:
  assumes "rc_wait_request call = (\<lambda>q. (b1, q))" "rc_wait_confirm call = (\<lambda>q. (b2, q))"
  shows "snd (rtdb_create spec val call others (d, CS)) \<in> call_states CreateKind (SendCreate spec val) call b1 b2 others d CS"
    and "snd (rtdb_delete i call others (d, CS)) \<in> call_states DeleteKind (SendDelete i) call b1 b2 others d CS"
    and "snd (rtdb_update i val call others (d, CS)) \<in> call_states UpdateKind (SendUpdate i val) call b1 b2 others d CS"
  using assms
  by (auto simp: rtdb_create_def rtdb_delete_def rtdb_update_def rtdb_helper_def call_states_def await_confirm_def bindE_def zoomE_def
      send_request_def Let_def split: prod.split sum.split if_split)

section \<open>Reading a variable\<close>

text \<open>The output parameters of a read, with the values the caller left in them.\<close>

record read_response =
  responseVarId :: VarIdT
  responseVarLen :: VarLenT
  responseTimeStamp :: TimeStampT
  value_buffer :: "u8 list"

text \<open>State: the variable store in shared memory and whether its lock is held.  The buffer is \<open>None\<close> for a null pointer.\<close>

definition rtdb_read ::
  "VarIdT \<Rightarrow> nat \<Rightarrow> bool \<Rightarrow> read_response \<Rightarrow> (ArrayContents \<times> bool, DcpStatus \<times> read_response) action" where
  "rtdb_read varId value_bufsize has_buffer out =
     bindE (throw_if VardisClientLibException (\<lambda>_. \<not> has_buffer \<or> value_bufsize < MAX_maxValueLength)) (\<lambda>_.
     bindE (modifyE (\<lambda>(st, locked). (st, True))) (\<lambda>_.
     bindE (getE (\<lambda>(st, locked). identifier_is_allocated varId st)) (\<lambda>isAllocated.
     bindE (if \<not> isAllocated then retE (False, out)
            else bindE (zoomE fst (\<lambda>st (_, locked). (st, locked)) (get_db_entry_ref varId)) (\<lambda>theEntry.
                 bindE (zoomE fst (\<lambda>st (_, locked). (st, locked)) (read_value_block varId value_bufsize (Some (value_buffer out)))) (\<lambda>(buf, len).
                 bindE (modifyE (\<lambda>(st, locked). (modify_stats (\<lambda>s. s\<lparr>count_handle_rtdb_read := count_handle_rtdb_read s + 1\<rparr>) st, locked))) (\<lambda>_.
                 retE (db_isDeleted theEntry,
                       \<lparr>responseVarId = db_varId theEntry, responseVarLen = len,
                        responseTimeStamp = db_tStamp theEntry, value_buffer = buf\<rparr>))))) (\<lambda>(isDeleted, out).
     bindE (modifyE (\<lambda>(st, locked). (st, False))) (\<lambda>_.
     retE (if \<not> isAllocated then VARDIS_STATUS_VARIABLE_DOES_NOT_EXIST
           else if isDeleted then VARDIS_STATUS_VARIABLE_IS_DELETED
           else VARDIS_STATUS_OK, out))))))"

section \<open>Client and demon together\<close>

text \<open>
  The demon's turn: the RTDB thread serves the application \<open>name\<close>.  The segment is one piece of memory, which
  both the demon and the client see.
\<close>

definition demon_turn ::
  "nat \<Rightarrow> (nat \<Rightarrow> bool) \<Rightarrow> (nat \<Rightarrow> TimeStampT) \<Rightarrow> string
     \<Rightarrow> (nat \<times> VardisRuntimeData) \<times> VardisShmControlSegment \<Rightarrow> (nat \<times> VardisRuntimeData) \<times> VardisShmControlSegment" where
  "demon_turn csz owns clock name = (\<lambda>((k, rt), CS).
     case handle_client_shared_memory csz owns clock name
            (k, rt\<lparr>clientApplications := (clientApplications rt)(name \<mapsto> (the (clientApplications rt name))\<lparr>vc_pSCS := CS\<rparr>)\<rparr>) of
       (r, (k', rt')) \<Rightarrow> ((k', case r of Inl _ \<Rightarrow> rt'\<lparr>vardis_exitFlag := True\<rparr> | Inr _ \<Rightarrow> rt'),
                         vc_pSCS (the (clientApplications rt' name))))"

lemma conf_handler_ok: "conf_handler (enc_RTDB_Confirm conf) retval = (Inr (), snd (cnf_type_status conf))"
  using confirm_codec.des [where x = conf and r = "[]" and d = "MemoryChunkDisassemblyArea (length (enc_RTDB_Confirm conf)) (enc_RTDB_Confirm conf)"]
  by (simp add: conf_handler_def)

lemma shm_reset_empty:
  assumes "shm_ok q" "shm_msgs q = []"
  obtains q' where "shm_reset q = (Inr (), q')" "shm_ok q'" "shm_msgs q' = []" "shape q' = shape q"
proof -
  obtain q' where q': "shm_reset q = (Inr (), q')" "holds [] q'" "shm_msgs q' = []" "length (free q') = numberBuffers q'"
    "has_data q' = (shm_msgs q \<noteq> [])" "shape q' = shape q" by (rule shm_reset_ok [OF assms(1)])
  have "length (shm_msgs q) + length (free q) = numberBuffers q" using assms(1) by (auto elim: shm_okE)
  moreover have "numberBuffers q' = numberBuffers q" using q'(6) by (simp add: shape_def)
  ultimately have "length (shm_msgs q') + length (free q') = length (shm_msgs q) + length (free q)" using q'(3,4) by simp
  then have "shm_ok q'" using q'(2,3,5,6) assms(2) by (intro shm_okI [OF assms(1)]) simp_all
  with that q' show thesis by blast
qed

text \<open>An access to one pair of queues of the segment.\<close>

definition queue_lens ::
  "(VardisShmControlSegment \<Rightarrow> ShmFiniteQueue) \<Rightarrow> (ShmFiniteQueue \<Rightarrow> VardisShmControlSegment \<Rightarrow> VardisShmControlSegment)
   \<Rightarrow> (VardisShmControlSegment \<Rightarrow> ShmFiniteQueue) \<Rightarrow> (ShmFiniteQueue \<Rightarrow> VardisShmControlSegment \<Rightarrow> VardisShmControlSegment) \<Rightarrow> bool" where
  "queue_lens rq set_rq cq set_cq \<longleftrightarrow>
     (\<forall>q CS. rq (set_rq q CS) = q \<and> rq (set_cq q CS) = rq CS \<and> cq (set_cq q CS) = q \<and> cq (set_rq q CS) = cq CS)"

lemma queue_lenses:
  "queue_lens pqCreateRequest (\<lambda>q CS. CS\<lparr>pqCreateRequest := q\<rparr>) pqCreateConfirm (\<lambda>q CS. CS\<lparr>pqCreateConfirm := q\<rparr>)"
  "queue_lens pqDeleteRequest (\<lambda>q CS. CS\<lparr>pqDeleteRequest := q\<rparr>) pqDeleteConfirm (\<lambda>q CS. CS\<lparr>pqDeleteConfirm := q\<rparr>)"
  "queue_lens pqUpdateRequest (\<lambda>q CS. CS\<lparr>pqUpdateRequest := q\<rparr>) pqUpdateConfirm (\<lambda>q CS. CS\<lparr>pqUpdateConfirm := q\<rparr>)"
  by (simp_all add: queue_lens_def)

text \<open>The request reaches the queue; what becomes of the call is up to the confirm that the demon leaves.\<close>

lemma rtdb_helper_request:
  assumes "queue_lens rq set_rq cq set_cq" "shm_ok (rq CS)" "shm_msgs (rq CS) = []" "shm_ok (cq CS)" "shm_msgs (cq CS) = []"
    "writes handler () (bufferSize (rq CS)) m ()" "m \<noteq> []" "rc_owns_request call"
  obtains rq1 cq1 where "shm_ok rq1" "shm_msgs rq1 = [m]" "shape rq1 = shape (rq CS)"
    "shm_ok cq1" "shm_msgs cq1 = []" "shape cq1 = shape (cq CS)"
    "\<forall>(others :: 'o \<times> VardisShmControlSegment \<Rightarrow> 'o \<times> VardisShmControlSegment) d.
       rtdb_helper rq set_rq cq set_cq handler call others (d, CS) =
       await_confirm cq set_cq call (others (d, set_rq rq1 (set_cq cq1 CS)))"
proof -
  obtain cq1 where c: "shm_reset (cq CS) = (Inr (), cq1)" "shm_ok cq1" "shm_msgs cq1 = []" "shape cq1 = shape (cq CS)"
    by (rule shm_reset_empty [OF assms(4,5)])
  obtain rq1 where r: "push_wait handler defaultLongSharedMemoryLockTimeoutMS True (rc_wait_request call) ((), rq CS) = (Inr False, ((), rq1))"
    "shm_ok rq1" "shm_msgs rq1 = [m]" "shape rq1 = shape (rq CS)"
    by (rule push_wait_ok [OF assms(2,6,7,3) long_timeout_nonzero])
  note l = assms(1) [unfolded queue_lens_def]
  show thesis
  proof (rule that [OF r(2-4) c(2-4)], intro allI)
    fix others :: "'o \<times> VardisShmControlSegment \<Rightarrow> 'o \<times> VardisShmControlSegment" and d
    show "rtdb_helper rq set_rq cq set_cq handler call others (d, CS) =
       await_confirm cq set_cq call (others (d, set_rq rq1 (set_cq cq1 CS)))"
      using c(1) r(1) l assms(8) by (simp add: rtdb_helper_def bindE_def zoomE_def split_beta)
  qed
qed

lemma confirm_received:
  assumes "shm_ok q" "shm_msgs q = [enc_RTDB_Confirm conf]"
  obtains q' where "pop_wait conf_handler defaultLongSharedMemoryLockTimeoutMS True wait (junk, q)
      = (Inr (False, False), (snd (cnf_type_status conf), q'))" "shm_ok q'" "shm_msgs q' = []" "shape q' = shape q"
proof -
  obtain q' where "pop_wait conf_handler defaultLongSharedMemoryLockTimeoutMS True wait (junk, q)
      = (Inr (False, [] \<noteq> ([] :: u8 list list)), (snd (cnf_type_status conf), q'))" "shm_ok q'" "shm_msgs q' = []" "shape q' = shape q"
    by (rule pop_wait_ok [where handler = conf_handler and wait = wait, OF assms(1,2) conf_handler_ok long_timeout_nonzero])
  then show thesis using that by simp
qed

text \<open>An application that uses its segment for nothing else.\<close>

definition idle_segment :: "VardisShmControlSegment \<Rightarrow> bool" where
  "idle_segment CS \<longleftrightarrow> seg_msgs CS = ([], [], [], [], [], [])"

lemma served_client:
  assumes "serve_segment csz owns clock (k, protocol_data rt, False, vc_pSCS c) = (Inr (), (k', pd', x', CS'))"
    "\<not> vardis_exitFlag rt" "get_vardis_isactive (vardis_store (protocol_data rt))" "clientApplications rt name = Some c"
  shows "handle_client_shared_memory csz owns clock name (k, rt)
    = (Inr (), (k', rt\<lparr>protocol_data := pd', vardis_exitFlag := x', clientApplications := (clientApplications rt)(name \<mapsto> c\<lparr>vc_pSCS := CS'\<rparr>)\<rparr>))"
  using assms by (simp add: handle_client_shared_memory_def on_client_def zoomE_def)

lemma demon_turn_served:
  assumes "serve_segment csz owns clock (k, protocol_data rt, False, CS) = (Inr (), (k', pd', x', CS'))"
    "get_vardis_isactive (vardis_store (protocol_data rt))" "\<not> vardis_exitFlag rt" "clientApplications rt name = Some c"
  shows "demon_turn csz owns clock name ((k, rt), CS) =
    ((k', rt\<lparr>protocol_data := pd', vardis_exitFlag := x', clientApplications := (clientApplications rt)(name \<mapsto> c\<lparr>vc_pSCS := CS'\<rparr>)\<rparr>), CS')"
  using assms by (simp add: demon_turn_def handle_client_shared_memory_def on_client_def zoomE_def)

lemma wf_vardis_served:
  assumes "wf_vardis csz rt" "wf_pd pd'" "segment_ok csz CS'" "clientApplications rt name = Some c"
  shows "wf_vardis csz (rt\<lparr>protocol_data := pd', vardis_exitFlag := x', clientApplications := (clientApplications rt)(name \<mapsto> c\<lparr>vc_pSCS := CS'\<rparr>)\<rparr>)"
  using assms by (auto simp: wf_vardis_def)

lemma request_into_writes:
  assumes "codec ser des enc ok" "ok r" "length (enc r) \<le> sz" "0 < sz"
  shows "writes (request_into ser r) h sz (enc r) h"
  using serialize_into_writes [OF assms(1-3) order_refl assms(4), of h] by (simp add: request_into_def writes_def)

text \<open>One call of a client, with the demon's turn in between, the demon being active and getting its mutexes.\<close>

definition turn_ok :: "nat \<Rightarrow> VardisRuntimeData \<Rightarrow> string \<Rightarrow> VardisShmControlSegment \<Rightarrow> (nat \<Rightarrow> bool) \<Rightarrow> rtdb_call \<Rightarrow> bool" where
  "turn_ok csz rt name CS owns call \<longleftrightarrow> wf_vardis csz rt \<and> \<not> vardis_exitFlag rt \<and> name \<in> dom (clientApplications rt)
     \<and> get_vardis_isactive (vardis_store (protocol_data rt)) \<and> segment_ok csz CS \<and> idle_segment CS \<and> 5 \<le> csz
     \<and> (\<forall>k. owns k) \<and> rc_owns_request call \<and> rc_owns_confirm call"

lemma call_answered:
  assumes t: "turn_ok csz rt name CS owns call" and l: "queue_lens rq set_rq cq set_cq"
    and q: "rq CS \<in> {pqCreateRequest CS, pqDeleteRequest CS, pqUpdateRequest CS}"
      "cq CS \<in> {pqCreateConfirm CS, pqDeleteConfirm CS, pqUpdateConfirm CS}"
    and w: "writes handler () maxRTDBServiceBufferSize m ()" "m \<noteq> []"
    and served: "\<And>rq1 cq1. shm_ok rq1 \<Longrightarrow> shm_msgs rq1 = [m] \<Longrightarrow> shape rq1 = shape (rq CS) \<Longrightarrow> shm_ok cq1 \<Longrightarrow> shm_msgs cq1 = []
      \<Longrightarrow> shape cq1 = shape (cq CS) \<Longrightarrow>
      \<exists>k' CS2. serve_segment csz owns clock (k, protocol_data rt, False, set_rq rq1 (set_cq cq1 CS)) = (Inr (), (k', pd', False, CS2))
        \<and> wf_pd pd' \<and> segment_ok csz CS2 \<and> shm_msgs (cq CS2) = [enc_RTDB_Confirm conf] \<and> shm_ok (cq CS2)
        \<and> (\<forall>q. shm_ok q \<and> shape q = shape (cq CS2) \<and> shm_msgs q = [] \<longrightarrow> segment_ok csz (set_cq q CS2) \<and> idle_segment (set_cq q CS2))"
  obtains k' rt' CS' where
    "rtdb_helper rq set_rq cq set_cq handler call (demon_turn csz owns clock name) ((k, rt), CS)
       = (Inr (snd (cnf_type_status conf)), ((k', rt'), CS'))"
    "protocol_data rt' = pd'" "\<not> vardis_exitFlag rt'" "wf_vardis csz rt'" "segment_ok csz CS'" "idle_segment CS'"
proof -
  obtain c where c: "clientApplications rt name = Some c" using t by (auto simp: turn_ok_def)
  have ok: "shm_ok (rq CS)" "shm_msgs (rq CS) = []" "bufferSize (rq CS) = maxRTDBServiceBufferSize" "shm_ok (cq CS)" "shm_msgs (cq CS) = []"
    using t q by (auto simp: turn_ok_def segment_ok_def rtdb_queue_ok_def idle_segment_def seg_msgs_def)
  have o: "rc_owns_request call" "rc_owns_confirm call" using t by (simp_all add: turn_ok_def)
  have w': "writes handler () (bufferSize (rq CS)) m ()" using w(1) ok(3) by simp
  obtain rq1 cq1 where req: "shm_ok rq1" "shm_msgs rq1 = [m]" "shape rq1 = shape (rq CS)"
    "shm_ok cq1" "shm_msgs cq1 = []" "shape cq1 = shape (cq CS)"
    "\<forall>(others :: (nat \<times> VardisRuntimeData) \<times> VardisShmControlSegment \<Rightarrow> (nat \<times> VardisRuntimeData) \<times> VardisShmControlSegment) d.
       rtdb_helper rq set_rq cq set_cq handler call others (d, CS) =
       await_confirm cq set_cq call (others (d, set_rq rq1 (set_cq cq1 CS)))"
    by (rule rtdb_helper_request [OF l ok(1,2,4,5) w' w(2) o(1)])
  obtain k' CS2 where s: "serve_segment csz owns clock (k, protocol_data rt, False, set_rq rq1 (set_cq cq1 CS)) = (Inr (), (k', pd', False, CS2))"
    "wf_pd pd'" "segment_ok csz CS2" "shm_msgs (cq CS2) = [enc_RTDB_Confirm conf]" "shm_ok (cq CS2)"
    "\<forall>q. shm_ok q \<and> shape q = shape (cq CS2) \<and> shm_msgs q = [] \<longrightarrow> segment_ok csz (set_cq q CS2) \<and> idle_segment (set_cq q CS2)"
    using served [OF req(1-6)] by blast
  let ?rt = "rt\<lparr>protocol_data := pd', vardis_exitFlag := False, clientApplications := (clientApplications rt)(name \<mapsto> c\<lparr>vc_pSCS := CS2\<rparr>)\<rparr>"
  have d: "demon_turn csz owns clock name ((k, rt), set_rq rq1 (set_cq cq1 CS)) = ((k', ?rt), CS2)"
    by (rule demon_turn_served [OF s(1)]) (use t c in \<open>simp_all add: turn_ok_def\<close>)
  obtain q' where q': "pop_wait conf_handler defaultLongSharedMemoryLockTimeoutMS True (rc_wait_confirm call) (rc_junk call, cq CS2)
      = (Inr (False, False), (snd (cnf_type_status conf), q'))" "shm_ok q'" "shm_msgs q' = []" "shape q' = shape (cq CS2)"
    by (rule confirm_received [OF s(5,4)])
  have "wf_vardis csz ?rt" using t by (intro wf_vardis_served [OF _ s(2,3) c]) (simp add: turn_ok_def)
  moreover have "rtdb_helper rq set_rq cq set_cq handler call (demon_turn csz owns clock name) ((k, rt), CS)
       = (Inr (snd (cnf_type_status conf)), ((k', ?rt), set_cq q' CS2))"
    unfolding req(7) [rule_format] d by (simp add: await_confirm_def o(2) q'(1))
  ultimately show thesis using that [of k' ?rt "set_cq q' CS2"] s(6) q'(2-4) by simp
qed

section \<open>The services from end to end\<close>

lemma request_sizes:
  "wf_RTDB_Create_Request r \<Longrightarrow> length (enc_RTDB_Create_Request r) \<le> maxRTDBServiceBufferSize"
  "length (enc_RTDB_Id_Request i) \<le> maxRTDBServiceBufferSize"
  "wf_RTDB_Update_Request u \<Longrightarrow> length (enc_RTDB_Update_Request u) \<le> maxRTDBServiceBufferSize"
proof -
  have b: "mb_length d \<le> 255" if "wf_StringT d" for d using wf_StringT_length [OF that] that by (simp add: wf_StringT_def)
  have v: "mb_length v \<le> 255" if "wf_VarValueT v" for v using wf_VarValueT_fields(1,4) [OF that] by simp
  note sizes = be_bytes16_def enc_byte_def VarSpecT_total_size_def VarValueT_total_size_def maxRTDBServiceBufferSize_def
    MAX_maxValueLength_def MAX_maxDescriptionLength_def VarLenT_max_val_def VarCreateT_fixed_size_def VarSpecT_fixed_size_def
  show "length (enc_RTDB_Id_Request i) \<le> maxRTDBServiceBufferSize" by (simp add: enc_RTDB_Id_Request_def sizes)
  show "length (enc_RTDB_Update_Request u) \<le> maxRTDBServiceBufferSize" if "wf_RTDB_Update_Request u"
    using that v [of "urq_value u"] by (simp add: enc_RTDB_Update_Request_def wf_RTDB_Update_Request_def length_enc_VarValueT sizes)
  show "length (enc_RTDB_Create_Request r) \<le> maxRTDBServiceBufferSize" if w: "wf_RTDB_Create_Request r"
  proof -
    have "wf_StringT (spec_descr (crq_spec r))" "wf_VarValueT (crq_value r)"
      using w by (simp_all add: wf_RTDB_Create_Request_def wf_VarSpecT_def)
    with w b [of "spec_descr (crq_spec r)"] v [of "crq_value r"] show ?thesis
      by (simp add: enc_RTDB_Create_Request_def wf_RTDB_Create_Request_def length_enc_VarSpecT length_enc_VarValueT sizes)
  qed
qed

lemma request_nonempty: "enc_RTDB_Create_Request r \<noteq> []" "enc_RTDB_Id_Request i \<noteq> []" "enc_RTDB_Update_Request u \<noteq> []"
  by (simp_all add: enc_RTDB_Create_Request_def enc_RTDB_Id_Request_def enc_RTDB_Update_Request_def be_bytes16_def)

lemma buffer_positive: "0 < maxRTDBServiceBufferSize"
  by (simp add: maxRTDBServiceBufferSize_def)

lemma single_request_room:
  "length ([] :: u8 list list) + length [r] \<le> maxServicePrimitiveQueueLength"
  "length ([] :: u8 list list) + length [] \<le> maxServicePrimitiveQueueLength"
  by (simp_all add: maxServicePrimitiveQueueLength_def)

text \<open>Once the client has taken its confirm, the segment is idle again.\<close>

lemma settled:
  assumes "segment_ok csz CS"
  shows "seg_msgs CS = ([], [], [], [m], [], []) \<Longrightarrow> shm_ok q \<Longrightarrow> shape q = shape (pqCreateConfirm CS) \<Longrightarrow> shm_msgs q = []
      \<Longrightarrow> segment_ok csz (CS\<lparr>pqCreateConfirm := q\<rparr>) \<and> idle_segment (CS\<lparr>pqCreateConfirm := q\<rparr>)"
    and "seg_msgs CS = ([], [], [], [], [m], []) \<Longrightarrow> shm_ok q \<Longrightarrow> shape q = shape (pqDeleteConfirm CS) \<Longrightarrow> shm_msgs q = []
      \<Longrightarrow> segment_ok csz (CS\<lparr>pqDeleteConfirm := q\<rparr>) \<and> idle_segment (CS\<lparr>pqDeleteConfirm := q\<rparr>)"
    and "seg_msgs CS = ([], [], [], [], [], [m]) \<Longrightarrow> shm_ok q \<Longrightarrow> shape q = shape (pqUpdateConfirm CS) \<Longrightarrow> shm_msgs q = []
      \<Longrightarrow> segment_ok csz (CS\<lparr>pqUpdateConfirm := q\<rparr>) \<and> idle_segment (CS\<lparr>pqUpdateConfirm := q\<rparr>)"
  using segment_okD [OF assms] rtdb_queue_ok_shape [of q "pqCreateConfirm CS"] rtdb_queue_ok_shape [of q "pqDeleteConfirm CS"]
    rtdb_queue_ok_shape [of q "pqUpdateConfirm CS"]
  by (simp_all add: segment_ok_def idle_segment_def seg_msgs_def)

text \<open>The segment with one request in it.\<close>

lemma requested:
  assumes "segment_ok csz CS" "idle_segment CS" "shm_ok rq" "shm_ok cq" "shm_msgs rq = [m]" "shm_msgs cq = []"
  shows "shape rq = shape (pqCreateRequest CS) \<Longrightarrow> shape cq = shape (pqCreateConfirm CS) \<Longrightarrow>
      segment_ok csz (CS\<lparr>pqCreateConfirm := cq, pqCreateRequest := rq\<rparr>)
      \<and> seg_msgs (CS\<lparr>pqCreateConfirm := cq, pqCreateRequest := rq\<rparr>) = ([m], [], [], [], [], [])"
    and "shape rq = shape (pqDeleteRequest CS) \<Longrightarrow> shape cq = shape (pqDeleteConfirm CS) \<Longrightarrow>
      segment_ok csz (CS\<lparr>pqDeleteConfirm := cq, pqDeleteRequest := rq\<rparr>)
      \<and> seg_msgs (CS\<lparr>pqDeleteConfirm := cq, pqDeleteRequest := rq\<rparr>) = ([], [m], [], [], [], [])"
    and "shape rq = shape (pqUpdateRequest CS) \<Longrightarrow> shape cq = shape (pqUpdateConfirm CS) \<Longrightarrow>
      segment_ok csz (CS\<lparr>pqUpdateConfirm := cq, pqUpdateRequest := rq\<rparr>)
      \<and> seg_msgs (CS\<lparr>pqUpdateConfirm := cq, pqUpdateRequest := rq\<rparr>) = ([], [], [m], [], [], [])"
  using segment_okD [OF assms(1)] assms(2,5,6) rtdb_queue_ok_shape [OF assms(3)] rtdb_queue_ok_shape [OF assms(4)]
  by (simp_all add: segment_ok_def idle_segment_def seg_msgs_def)

lemma create_call:
  assumes t: "turn_ok csz rt name CS owns call"
    and d: "wf_VarSpecT spec" "wf_VarValueT val" "0 < mb_length (spec_descr spec)"
  defines "r \<equiv> \<lparr>crq_s_type = stVardis_RTDB_Create, crq_spec = spec, crq_value = val\<rparr>"
  obtains k' rt' CS' where
    "rtdb_create spec val call (demon_turn csz owns clock name) ((k, rt), CS) = (Inr (create_status (protocol_data rt) r), ((k', rt'), CS'))"
    "handle_rtdb_create_request (clock (Suc k)) (clock (Suc (Suc k))) r (protocol_data rt)
       = (Inr (RTDB_Create_Confirm (create_status (protocol_data rt) r) (spec_varId spec)), protocol_data rt')"
    "\<not> vardis_exitFlag rt'" "wf_vardis csz rt'" "segment_ok csz CS'" "idle_segment CS'"
proof -
  have des: "described r" using d by (simp add: described_def r_def wf_RTDB_Create_Request_def)
  have wf: "wf_pd (protocol_data rt)" "segment_ok csz CS" "5 \<le> csz" "\<forall>k. owns k" "idle_segment CS"
    using t by (simp_all add: turn_ok_def wf_vardis_def)
  obtain pd' where pd': "handle_rtdb_create_request (clock (Suc k)) (clock (Suc (Suc k))) r (protocol_data rt)
      = (Inr (RTDB_Create_Confirm (create_status (protocol_data rt) r) (spec_varId spec)), pd')"
    using create_answered [OF des wf(1)] by (auto simp: r_def)
  have w: "writes (request_into ser_RTDB_Create_Request r) () maxRTDBServiceBufferSize (enc_RTDB_Create_Request r) ()"
    by (rule request_into_writes [OF create_request_codec.codec_axioms _ request_sizes(1) buffer_positive])
      (use des in \<open>simp_all add: described_def\<close>)
  let ?conf = "RTDB_Create_Confirm (create_status (protocol_data rt) r) (spec_varId spec)"
  obtain k' rt' CS' where
    "rtdb_helper pqCreateRequest (\<lambda>q CS. CS\<lparr>pqCreateRequest := q\<rparr>) pqCreateConfirm (\<lambda>q CS. CS\<lparr>pqCreateConfirm := q\<rparr>)
       (request_into ser_RTDB_Create_Request r) call (demon_turn csz owns clock name) ((k, rt), CS)
       = (Inr (snd (cnf_type_status ?conf)), ((k', rt'), CS'))"
    "protocol_data rt' = pd'" "\<not> vardis_exitFlag rt'" "wf_vardis csz rt'" "segment_ok csz CS'" "idle_segment CS'"
  proof (rule call_answered [OF t queue_lenses(1) _ _ w request_nonempty(1)])
    fix rq1 cq1
    assume q: "shm_ok rq1" "shm_msgs rq1 = [enc_RTDB_Create_Request r]" "shape rq1 = shape (pqCreateRequest CS)"
      "shm_ok cq1" "shm_msgs cq1 = []" "shape cq1 = shape (pqCreateConfirm CS)"
    let ?CS = "CS\<lparr>pqCreateConfirm := cq1, pqCreateRequest := rq1\<rparr>"
    have ok: "segment_ok csz ?CS"
      and m: "seg_msgs ?CS = (map enc_RTDB_Create_Request [r], map enc_RTDB_Id_Request [], map enc_RTDB_Update_Request [], [], [], [])"
      using requested(1) [OF wf(2,5) q(1,4,2,5,3,6)] by simp_all
    have good: "\<forall>r \<in> set [r]. described r" "\<forall>u \<in> set []. wf_RTDB_Update_Request u" using des by simp_all
    obtain c1 k1 pd1 c2 k2 pd2 c3 k' pd2' CS2 where s:
      "serve_all (create_handler clock) [r] (Suc k, protocol_data rt) = (c1, k1, pd1)" "serve_all delete_handler [] (Suc k1, pd1) = (c2, k2, pd2)"
      "serve_all (update_handler clock) [] (Suc k2, pd2) = (c3, k', pd2')"
      "serve_segment csz owns clock (k, protocol_data rt, False, ?CS) = (Inr (), (k', pd2', False, CS2))" "wf_pd pd2'" "segment_ok csz CS2"
      "seg_msgs CS2 = ([], [], [], [] @ map enc_RTDB_Confirm c1, [] @ map enc_RTDB_Confirm c2, [] @ map enc_RTDB_Confirm c3)"
      by (rule segment_served [OF ok m good wf(1,3) single_request_room(1) single_request_room(2) single_request_room(2) wf(4),
            where clock = clock and k = k and x = False]) blast
    have e: "c1 = [?conf]" "c2 = []" "c3 = []" "pd2' = pd'"
      using s(1-3) pd' by (auto simp: create_handler_def)
    then have m2: "seg_msgs CS2 = ([], [], [], [enc_RTDB_Confirm ?conf], [], [])" using s(7) by simp
    have "shm_ok (pqCreateConfirm CS2)" "shm_msgs (pqCreateConfirm CS2) = [enc_RTDB_Confirm ?conf]"
      using rtdb_queue_okD(1) [OF segment_okD(4) [OF s(6)]] m2 by (simp_all add: seg_msgs_def)
    then show "\<exists>k' CS2. serve_segment csz owns clock (k, protocol_data rt, False, ?CS) = (Inr (), (k', pd', False, CS2))
        \<and> wf_pd pd' \<and> segment_ok csz CS2 \<and> shm_msgs (pqCreateConfirm CS2) = [enc_RTDB_Confirm ?conf] \<and> shm_ok (pqCreateConfirm CS2)
        \<and> (\<forall>q. shm_ok q \<and> shape q = shape (pqCreateConfirm CS2) \<and> shm_msgs q = []
              \<longrightarrow> segment_ok csz (CS2\<lparr>pqCreateConfirm := q\<rparr>) \<and> idle_segment (CS2\<lparr>pqCreateConfirm := q\<rparr>))"
      using s(4-6) e(4) settled(1) [OF s(6) m2] by (intro exI [of _ k'] exI [of _ CS2]) simp
  qed simp_all
  then show thesis using that pd' by (simp add: rtdb_create_def r_def RTDB_Create_Confirm_def)
qed

lemma delete_call:
  fixes varId :: VarIdT
  assumes t: "turn_ok csz rt name CS owns call"
  defines "r \<equiv> \<lparr>irq_s_type = stVardis_RTDB_Delete, irq_varId = varId\<rparr>"
  obtains k' rt' CS' where
    "rtdb_delete varId call (demon_turn csz owns clock name) ((k, rt), CS) = (Inr (delete_status (protocol_data rt) r), ((k', rt'), CS'))"
    "handle_rtdb_delete_request r (protocol_data rt)
       = (Inr (RTDB_Delete_Confirm (delete_status (protocol_data rt) r) varId), protocol_data rt')"
    "\<not> vardis_exitFlag rt'" "wf_vardis csz rt'" "segment_ok csz CS'" "idle_segment CS'"
proof -
  have wf: "wf_pd (protocol_data rt)" "segment_ok csz CS" "5 \<le> csz" "\<forall>k. owns k" "idle_segment CS"
    using t by (simp_all add: turn_ok_def wf_vardis_def)
  obtain pd' where pd': "handle_rtdb_delete_request r (protocol_data rt)
      = (Inr (RTDB_Delete_Confirm (delete_status (protocol_data rt) r) varId), pd')"
    using handle_rtdb_delete_spec [of r "protocol_data rt"] by (simp add: r_def)
  have w: "writes (request_into ser_RTDB_Delete_Request r) () maxRTDBServiceBufferSize (enc_RTDB_Id_Request r) ()"
    by (rule request_into_writes [OF delete_request_codec.codec_axioms _ request_sizes(2) buffer_positive]) simp
  let ?conf = "RTDB_Delete_Confirm (delete_status (protocol_data rt) r) varId"
  obtain k' rt' CS' where
    "rtdb_helper pqDeleteRequest (\<lambda>q CS. CS\<lparr>pqDeleteRequest := q\<rparr>) pqDeleteConfirm (\<lambda>q CS. CS\<lparr>pqDeleteConfirm := q\<rparr>)
       (request_into ser_RTDB_Delete_Request r) call (demon_turn csz owns clock name) ((k, rt), CS)
       = (Inr (snd (cnf_type_status ?conf)), ((k', rt'), CS'))"
    "protocol_data rt' = pd'" "\<not> vardis_exitFlag rt'" "wf_vardis csz rt'" "segment_ok csz CS'" "idle_segment CS'"
  proof (rule call_answered [OF t queue_lenses(2) _ _ w request_nonempty(2)])
    fix rq1 cq1
    assume q: "shm_ok rq1" "shm_msgs rq1 = [enc_RTDB_Id_Request r]" "shape rq1 = shape (pqDeleteRequest CS)"
      "shm_ok cq1" "shm_msgs cq1 = []" "shape cq1 = shape (pqDeleteConfirm CS)"
    let ?CS = "CS\<lparr>pqDeleteConfirm := cq1, pqDeleteRequest := rq1\<rparr>"
    have ok: "segment_ok csz ?CS"
      and m: "seg_msgs ?CS = (map enc_RTDB_Create_Request [], map enc_RTDB_Id_Request [r], map enc_RTDB_Update_Request [], [], [], [])"
      using requested(2) [OF wf(2,5) q(1,4,2,5,3,6)] by simp_all
    have good: "\<forall>r \<in> set []. described r" "\<forall>u \<in> set []. wf_RTDB_Update_Request u" by simp_all
    obtain c1 k1 pd1 c2 k2 pd2 c3 k' pd2' CS2 where s:
      "serve_all (create_handler clock) [] (Suc k, protocol_data rt) = (c1, k1, pd1)" "serve_all delete_handler [r] (Suc k1, pd1) = (c2, k2, pd2)"
      "serve_all (update_handler clock) [] (Suc k2, pd2) = (c3, k', pd2')"
      "serve_segment csz owns clock (k, protocol_data rt, False, ?CS) = (Inr (), (k', pd2', False, CS2))" "wf_pd pd2'" "segment_ok csz CS2"
      "seg_msgs CS2 = ([], [], [], [] @ map enc_RTDB_Confirm c1, [] @ map enc_RTDB_Confirm c2, [] @ map enc_RTDB_Confirm c3)"
      by (rule segment_served [OF ok m good wf(1,3) single_request_room(2) single_request_room(1) single_request_room(2) wf(4),
            where clock = clock and k = k and x = False]) blast
    have e: "c1 = []" "c2 = [?conf]" "c3 = []" "pd2' = pd'"
      using s(1-3) pd' by (auto simp: delete_handler_def)
    then have m2: "seg_msgs CS2 = ([], [], [], [], [enc_RTDB_Confirm ?conf], [])" using s(7) by simp
    have "shm_ok (pqDeleteConfirm CS2)" "shm_msgs (pqDeleteConfirm CS2) = [enc_RTDB_Confirm ?conf]"
      using rtdb_queue_okD(1) [OF segment_okD(5) [OF s(6)]] m2 by (simp_all add: seg_msgs_def)
    then show "\<exists>k' CS2. serve_segment csz owns clock (k, protocol_data rt, False, ?CS) = (Inr (), (k', pd', False, CS2))
        \<and> wf_pd pd' \<and> segment_ok csz CS2 \<and> shm_msgs (pqDeleteConfirm CS2) = [enc_RTDB_Confirm ?conf] \<and> shm_ok (pqDeleteConfirm CS2)
        \<and> (\<forall>q. shm_ok q \<and> shape q = shape (pqDeleteConfirm CS2) \<and> shm_msgs q = []
              \<longrightarrow> segment_ok csz (CS2\<lparr>pqDeleteConfirm := q\<rparr>) \<and> idle_segment (CS2\<lparr>pqDeleteConfirm := q\<rparr>))"
      using s(4-6) e(4) settled(2) [OF s(6) m2] by (intro exI [of _ k'] exI [of _ CS2]) simp
  qed simp_all
  then show thesis using that pd' by (simp add: rtdb_delete_def r_def RTDB_Delete_Confirm_def)
qed

lemma update_call:
  fixes varId :: VarIdT
  assumes t: "turn_ok csz rt name CS owns call"
    and d: "wf_VarValueT val"
  defines "r \<equiv> \<lparr>urq_s_type = stVardis_RTDB_Update, urq_varId = varId, urq_value = val\<rparr>"
  obtains k' rt' CS' where
    "rtdb_update varId val call (demon_turn csz owns clock name) ((k, rt), CS) = (Inr (update_status (protocol_data rt) r), ((k', rt'), CS'))"
    "handle_rtdb_update_request (clock (Suc (Suc (Suc k)))) r (protocol_data rt)
       = (Inr (RTDB_Update_Confirm (update_status (protocol_data rt) r) varId), protocol_data rt')"
    "\<not> vardis_exitFlag rt'" "wf_vardis csz rt'" "segment_ok csz CS'" "idle_segment CS'"
proof -
  have ur: "wf_RTDB_Update_Request r" using d by (simp add: r_def wf_RTDB_Update_Request_def)
  have wf: "wf_pd (protocol_data rt)" "segment_ok csz CS" "5 \<le> csz" "\<forall>k. owns k" "idle_segment CS"
    using t by (simp_all add: turn_ok_def wf_vardis_def)
  obtain pd' where pd': "handle_rtdb_update_request (clock (Suc (Suc (Suc k)))) r (protocol_data rt)
      = (Inr (RTDB_Update_Confirm (update_status (protocol_data rt) r) varId), pd')"
    using handle_rtdb_update_spec [OF wf(1) ur, of "clock (Suc (Suc (Suc k)))"] by (simp add: r_def)
  have w: "writes (request_into ser_RTDB_Update_Request r) () maxRTDBServiceBufferSize (enc_RTDB_Update_Request r) ()"
    by (rule request_into_writes [OF update_request_codec.codec_axioms _ request_sizes(3) buffer_positive])
      (use ur in simp_all)
  let ?conf = "RTDB_Update_Confirm (update_status (protocol_data rt) r) varId"
  obtain k' rt' CS' where
    "rtdb_helper pqUpdateRequest (\<lambda>q CS. CS\<lparr>pqUpdateRequest := q\<rparr>) pqUpdateConfirm (\<lambda>q CS. CS\<lparr>pqUpdateConfirm := q\<rparr>)
       (request_into ser_RTDB_Update_Request r) call (demon_turn csz owns clock name) ((k, rt), CS)
       = (Inr (snd (cnf_type_status ?conf)), ((k', rt'), CS'))"
    "protocol_data rt' = pd'" "\<not> vardis_exitFlag rt'" "wf_vardis csz rt'" "segment_ok csz CS'" "idle_segment CS'"
  proof (rule call_answered [OF t queue_lenses(3) _ _ w request_nonempty(3)])
    fix rq1 cq1
    assume q: "shm_ok rq1" "shm_msgs rq1 = [enc_RTDB_Update_Request r]" "shape rq1 = shape (pqUpdateRequest CS)"
      "shm_ok cq1" "shm_msgs cq1 = []" "shape cq1 = shape (pqUpdateConfirm CS)"
    let ?CS = "CS\<lparr>pqUpdateConfirm := cq1, pqUpdateRequest := rq1\<rparr>"
    have ok: "segment_ok csz ?CS"
      and m: "seg_msgs ?CS = (map enc_RTDB_Create_Request [], map enc_RTDB_Id_Request [], map enc_RTDB_Update_Request [r], [], [], [])"
      using requested(3) [OF wf(2,5) q(1,4,2,5,3,6)] by simp_all
    have good: "\<forall>r \<in> set []. described r" "\<forall>u \<in> set [r]. wf_RTDB_Update_Request u" using ur by simp_all
    obtain c1 k1 pd1 c2 k2 pd2 c3 k' pd2' CS2 where s:
      "serve_all (create_handler clock) [] (Suc k, protocol_data rt) = (c1, k1, pd1)" "serve_all delete_handler [] (Suc k1, pd1) = (c2, k2, pd2)"
      "serve_all (update_handler clock) [r] (Suc k2, pd2) = (c3, k', pd2')"
      "serve_segment csz owns clock (k, protocol_data rt, False, ?CS) = (Inr (), (k', pd2', False, CS2))" "wf_pd pd2'" "segment_ok csz CS2"
      "seg_msgs CS2 = ([], [], [], [] @ map enc_RTDB_Confirm c1, [] @ map enc_RTDB_Confirm c2, [] @ map enc_RTDB_Confirm c3)"
      by (rule segment_served [OF ok m good wf(1,3) single_request_room(2) single_request_room(2) single_request_room(1) wf(4),
            where clock = clock and k = k and x = False]) blast
    have e: "c1 = []" "c2 = []" "c3 = [?conf]" "pd2' = pd'"
      using s(1-3) pd' by (auto simp: update_handler_def)
    then have m2: "seg_msgs CS2 = ([], [], [], [], [], [enc_RTDB_Confirm ?conf])" using s(7) by simp
    have "shm_ok (pqUpdateConfirm CS2)" "shm_msgs (pqUpdateConfirm CS2) = [enc_RTDB_Confirm ?conf]"
      using rtdb_queue_okD(1) [OF segment_okD(6) [OF s(6)]] m2 by (simp_all add: seg_msgs_def)
    then show "\<exists>k' CS2. serve_segment csz owns clock (k, protocol_data rt, False, ?CS) = (Inr (), (k', pd', False, CS2))
        \<and> wf_pd pd' \<and> segment_ok csz CS2 \<and> shm_msgs (pqUpdateConfirm CS2) = [enc_RTDB_Confirm ?conf] \<and> shm_ok (pqUpdateConfirm CS2)
        \<and> (\<forall>q. shm_ok q \<and> shape q = shape (pqUpdateConfirm CS2) \<and> shm_msgs q = []
              \<longrightarrow> segment_ok csz (CS2\<lparr>pqUpdateConfirm := q\<rparr>) \<and> idle_segment (CS2\<lparr>pqUpdateConfirm := q\<rparr>))"
      using s(4-6) e(4) settled(3) [OF s(6) m2] by (intro exI [of _ k'] exI [of _ CS2]) simp
  qed simp_all
  then show thesis using that pd' by (simp add: rtdb_update_def r_def RTDB_Update_Confirm_def)
qed

end
