(* ===== verification/VardisCommands.thy ===== *)
theory VardisCommands
  imports VardisManagement BpClient
begin

text \<open>
  The commands of the client library of VarDis over the command socket, \<open>dcp/vardis/vardisclient_lib.cc\<close>.

  The memory images of requests and confirms are an argument, the record \<open>client_layout\<close>: how a request is
  written, and how the members of a confirm are read out of the buffer.
\<close>

section \<open>Data\<close>

record VardisClientRuntime =
  vcl_isRegistered :: bool
  vcl_commandSock :: CommandSocket
  vcl_shmSegmentName :: string
  vcl_ownNodeIdentifier :: NodeIdentifierT

record client_layout =
  cl_register_request :: "string \<Rightarrow> bool \<Rightarrow> u8 list"
  cl_deregister_request :: "string \<Rightarrow> u8 list"
  cl_simple_request :: "DcpServiceType \<Rightarrow> u8 list"
  cl_describe_variable_request :: "VarIdT \<Rightarrow> u8 list"
  cl_register_confirm :: confirm_reader
  cl_own_node_identifier :: "u8 list \<Rightarrow> NodeIdentifierT"
  cl_simple_confirm :: confirm_reader
  cl_describe_database_confirm :: confirm_reader
  cl_number_descriptions :: "u8 list \<Rightarrow> nat"
  cl_description_size :: nat
  cl_description :: "u8 list \<Rightarrow> DescribeDatabaseVariableDescription"
  cl_describe_variable_confirm :: confirm_reader
  cl_var_description :: "u8 list \<Rightarrow> DescribeVariableDescription"
  cl_statistics_confirm :: confirm_reader
  cl_protocol_stats :: "u8 list \<Rightarrow> VardisProtocolStatistics"

type_synonym ('w, 'a) client_action = "('w \<times> VardisClientRuntime, 'a) action"

text \<open>A conversation over a connection that is opened for it.\<close>

definition converse :: "'w sockets \<Rightarrow> (VardisClientRuntime \<Rightarrow> ('w \<times> int, 'a) action) \<Rightarrow> ('w, 'a) client_action" where
  "converse S m = (\<lambda>(w, cl).
     case with_client_socket S (vcl_commandSock cl) (m cl) w of (r, w') \<Rightarrow> (r, (w', cl)))"

section \<open>Registration\<close>

definition register_with_vardis :: "client_layout \<Rightarrow> 'w sockets \<Rightarrow> bool \<Rightarrow> ('w, DcpStatus) client_action" where
  "register_with_vardis L S delete_old_registration =
     bindE (converse S (\<lambda>cl.
       bindE (sendRequestAndReadResponseBlock S (cl_register_request L (vcl_shmSegmentName cl) delete_old_registration)
                vardisCommandSocketBufferSize) (\<lambda>(nrcvd, buffer).
       if nrcvd \<noteq> conf_sizeof (cl_register_confirm L) then abort_client S
       else if conf_s_type (cl_register_confirm L) buffer \<noteq> stVardis_Register then abort_client S
       else retE (conf_status_code (cl_register_confirm L) buffer, cl_own_node_identifier L buffer)))) (\<lambda>(status_code, own_node_identifier).
     bindE (if status_code = VARDIS_STATUS_OK
            then modifyE (\<lambda>(w, cl). (w, cl\<lparr>vcl_isRegistered := True, vcl_ownNodeIdentifier := own_node_identifier\<rparr>))
            else retE ()) (\<lambda>_.
     retE status_code))"

definition deregister_with_vardis :: "client_layout \<Rightarrow> 'w sockets \<Rightarrow> ('w, DcpStatus) client_action" where
  "deregister_with_vardis L S =
     bindE (converse S (\<lambda>cl.
       bindE (sendRequestAndReadResponseBlock S (cl_deregister_request L (vcl_shmSegmentName cl))
                vardisCommandSocketBufferSize) (\<lambda>(nrcvd, buffer).
       if nrcvd \<noteq> conf_sizeof (cl_simple_confirm L) then abort_client S
       else if conf_s_type (cl_simple_confirm L) buffer \<noteq> stVardis_Deregister then abort_client S
       else retE (conf_status_code (cl_simple_confirm L) buffer)))) (\<lambda>status_code.
     bindE (if status_code = VARDIS_STATUS_OK
            then modifyE (\<lambda>(w, cl). (w, cl\<lparr>vcl_isRegistered := False\<rparr>))
            else retE ()) (\<lambda>_.
     retE status_code))"

text \<open>
  The constructor: the members are constructed first, the socket from the configured name and timeout and the
  variable store from the global segment.  Opening the global segment (\<open>global_store\<close>) and the segment of the client
  (\<open>attach\<close>: whether it gives an address) is up to the operating system.
\<close>

definition new_VardisClientRuntime ::
  "client_layout \<Rightarrow> 'w sockets \<Rightarrow> string \<Rightarrow> u16 \<Rightarrow> string \<Rightarrow> dcp_error + unit \<Rightarrow> dcp_error + bool \<Rightarrow> bool \<Rightarrow> bool
     \<Rightarrow> 'w \<Rightarrow> (dcp_error + VardisClientRuntime) \<times> 'w" where
  "new_VardisClientRuntime L S cmdsock_name timeout shmSegmentName global_store attach do_register delete_old_registration w =
     (case new_CommandSocket cmdsock_name timeout of Inl e \<Rightarrow> (Inl e, w) | Inr sock \<Rightarrow>
     (case global_store of Inl e \<Rightarrow> (Inl e, w) | Inr _ \<Rightarrow>
     (let cl = \<lparr>vcl_isRegistered = False, vcl_commandSock = sock, vcl_shmSegmentName = shmSegmentName,
               vcl_ownNodeIdentifier = nullNodeIdentifier\<rparr> in
      if shmSegmentName = [] then (Inl VardisClientLibException, w)
      else if strlen shmSegmentName > maxShmAreaNameLength - 1 then (Inl VardisClientLibException, w)
      else if cmdsock_name = [] then (Inl VardisClientLibException, w)
      else if strlen cmdsock_name > max_command_socket_name_length then (Inl VardisClientLibException, w)
      else if \<not> do_register then (Inr cl, w)
      else (case register_with_vardis L S delete_old_registration (w, cl) of
              (Inl e, (w, cl)) \<Rightarrow> (Inl e, w)
            | (Inr reg_response, (w, cl)) \<Rightarrow>
                if reg_response \<noteq> VARDIS_STATUS_OK then (Inl VardisClientLibException, w)
                else (case attach of
                        Inl e \<Rightarrow> (Inl e, w)
                      | Inr attached \<Rightarrow> if attached then (Inr cl, w) else (Inl VardisClientLibException, w))))))"

definition delete_VardisClientRuntime :: "client_layout \<Rightarrow> 'w sockets \<Rightarrow> ('w, unit) client_action" where
  "delete_VardisClientRuntime L S = (\<lambda>(w, cl).
     if vcl_isRegistered cl then bindE (deregister_with_vardis L S) (\<lambda>_. retE ()) (w, cl) else (Inr (), (w, cl)))"

section \<open>Simple services\<close>

definition shutdown_vardis :: "client_layout \<Rightarrow> 'w sockets \<Rightarrow> ('w, DcpStatus) client_action" where
  "shutdown_vardis L S =
     bindE (converse S (\<lambda>_. sendRequest S (cl_simple_request L stVardis_Shutdown))) (\<lambda>_.
     bindE (modifyE (\<lambda>(w, cl). (w, cl\<lparr>vcl_isRegistered := False\<rparr>))) (\<lambda>_.
     retE VARDIS_STATUS_OK))"

definition simple_vardis_service :: "client_layout \<Rightarrow> 'w sockets \<Rightarrow> DcpServiceType \<Rightarrow> ('w, DcpStatus) client_action" where
  "simple_vardis_service L S s_type = (\<lambda>(w, cl).
     case simple_request_confirm_service S (vcl_commandSock cl) (cl_simple_request L s_type) s_type (cl_simple_confirm L) w of
       (r, w') \<Rightarrow> (r, (w', cl)))"

definition activate_vardis :: "client_layout \<Rightarrow> 'w sockets \<Rightarrow> ('w, DcpStatus) client_action" where
  "activate_vardis L S = simple_vardis_service L S stVardis_Activate"

definition deactivate_vardis :: "client_layout \<Rightarrow> 'w sockets \<Rightarrow> ('w, DcpStatus) client_action" where
  "deactivate_vardis L S = simple_vardis_service L S stVardis_Deactivate"

definition retrieve_statistics :: "client_layout \<Rightarrow> 'w sockets \<Rightarrow> ('w, DcpStatus \<times> VardisProtocolStatistics) client_action" where
  "retrieve_statistics L S =
     converse S (\<lambda>_.
       bindE (sendRequestAndReadResponseBlock S (cl_simple_request L stVardis_GetStatistics) (conf_sizeof (cl_statistics_confirm L)))
         (\<lambda>(nrcvd, buffer).
       if nrcvd < conf_sizeof (cl_statistics_confirm L) then abort_client S
       else retE (conf_status_code (cl_statistics_confirm L) buffer, cl_protocol_stats L buffer)))"

section \<open>Descriptions\<close>

fun read_descriptions :: "client_layout \<Rightarrow> 'w sockets \<Rightarrow> nat \<Rightarrow> ('w \<times> int, DescribeDatabaseVariableDescription list) action" where
  "read_descriptions L S 0 = retE []"
| "read_descriptions L S (Suc n) =
     bindE (read_whole_response S (cl_description_size L) default_max_attempts) (\<lambda>(nread, descbuffer).
     if nread < cl_description_size L then abort_client S
     else bindE (read_descriptions L S n) (\<lambda>descrs. retE (cl_description L descbuffer # descrs)))"

definition describe_database ::
  "client_layout \<Rightarrow> 'w sockets \<Rightarrow> ('w, DcpStatus \<times> DescribeDatabaseVariableDescription list) client_action" where
  "describe_database L S =
     converse S (\<lambda>_.
       bindE (sendRequestAndReadResponseBlock S (cl_simple_request L stVardis_RTDB_DescribeDatabase)
                (conf_sizeof (cl_describe_database_confirm L))) (\<lambda>(nrcvd, buffer).
       if nrcvd < conf_sizeof (cl_describe_database_confirm L) then abort_client S
       else bindE (read_descriptions L S (cl_number_descriptions L buffer)) (\<lambda>db_descr_list.
            retE (conf_status_code (cl_describe_database_confirm L) buffer, db_descr_list))))"

definition describe_variable ::
  "client_layout \<Rightarrow> 'w sockets \<Rightarrow> VarIdT \<Rightarrow> bool \<Rightarrow> ('w, DcpStatus \<times> DescribeVariableDescription \<times> u8 list) client_action" where
  "describe_variable L S varId has_buffer =
     converse S (\<lambda>_.
       if \<not> has_buffer then abort_client S
       else bindE (sendRequestAndReadResponseBlock S (cl_describe_variable_request L varId)
                     (conf_sizeof (cl_describe_variable_confirm L))) (\<lambda>(nrcvd, conf_buffer).
            if nrcvd < conf_sizeof (cl_describe_variable_confirm L) then abort_client S
            else (let var_descr = cl_var_description L conf_buffer in
                  bindE (read_whole_response S (unat (dv_value_length var_descr)) default_max_attempts) (\<lambda>(nread, buffer).
                  if nread < unat (dv_value_length var_descr) then abort_client S
                  else retE (conf_status_code (cl_describe_variable_confirm L) conf_buffer, var_descr, buffer)))))"

section \<open>Client and demon agree\<close>

text \<open>
  What the two sides know of the memory images: an object that the demon writes has the size the client
  expects, and the client reads its members out of it.  The text of a description has its place in the object.
\<close>

definition layouts_agree :: "client_layout \<Rightarrow> (vardis_message \<Rightarrow> u8 list) \<Rightarrow> bool" where
  "layouts_agree L img \<longleftrightarrow>
     (\<forall>st n bs. bs = img (VardisDescribeDatabase_Confirm st n) \<longrightarrow> length bs = conf_sizeof (cl_describe_database_confirm L)
        \<and> conf_status_code (cl_describe_database_confirm L) bs = st \<and> (n < 2 ^ 64 \<longrightarrow> cl_number_descriptions L bs = n))
   \<and> (\<forall>d bs. bs = img (VariableDescription d) \<and> length (dd_description d) = MAX_maxDescriptionLength + 1 \<longrightarrow> length bs = cl_description_size L \<and> cl_description L bs = d)
   \<and> (\<forall>st d bs. bs = img (VardisDescribeVariable_Confirm st d) \<and> length (dv_description d) = MAX_maxDescriptionLength + 1 \<longrightarrow> length bs = conf_sizeof (cl_describe_variable_confirm L)
        \<and> conf_status_code (cl_describe_variable_confirm L) bs = st \<and> cl_var_description L bs = d)
   \<and> (\<forall>bs. img (ValueBytes bs) = bs)"

text \<open>
  A connection to the demon: opening and writing the request succeed, and afterwards the peer's stream holds the
  objects \<open>msgs\<close>.
\<close>

definition connected ::
  "'w sockets \<Rightarrow> (vardis_message \<Rightarrow> u8 list) \<Rightarrow> CommandSocket \<Rightarrow> u8 list \<Rightarrow> vardis_message list \<Rightarrow> 'w \<Rightarrow> int \<Rightarrow> ('w \<Rightarrow> u8 list) \<Rightarrow> bool" where
  "connected S img c request msgs w fd pending \<longleftrightarrow> 0 \<le> fd \<and> peer_stream S fd pending
     \<and> (\<exists>w1 n w2. open_client S c (w, ()) = (Inr fd, (w1, ())) \<and> sys_write S fd request w1 = (n, w2) \<and> 0 \<le> n
          \<and> pending w2 = concat (map img msgs))"

lemma read_object:
  assumes "peer_stream S fd pending" "0 \<le> fd" "pending w = bs @ rest" "length bs = n"
  obtains w' where "read_whole_response S n k (w, fd) = (Inr (n, bs), (w', fd))" "pending w' = rest"
proof -
  obtain w' where "read_whole_response S n k (w, fd) = (Inr (min n (length (pending w)), take n (pending w)), (w', fd))"
    "pending w' = drop n (pending w)" by (rule read_whole_response_stream [OF assms(1,2)])
  then show thesis using that assms(3,4) by simp
qed

lemma request_object:
  assumes "connected S img c request (m # msgs) w fd pending" "length (img m) = n"
  obtains w1 w' where "open_client S c (w, ()) = (Inr fd, (w1, ()))"
    "sendRequestAndReadResponseBlock S request n (w1, fd) = (Inr (n, img m), (w', fd))" "pending w' = concat (map img msgs)"
proof -
  obtain w1 k w2 where w: "open_client S c (w, ()) = (Inr fd, (w1, ()))" "sys_write S fd request w1 = (k, w2)" "0 \<le> k"
    "pending w2 = img m @ concat (map img msgs)" and p: "peer_stream S fd pending" "0 \<le> fd"
    using assms(1) by (auto simp: connected_def)
  obtain w' where "read_whole_response S n default_max_attempts (w2, fd) = (Inr (n, img m), (w', fd))" "pending w' = concat (map img msgs)"
    by (rule read_object [OF p w(4) assms(2)])
  then show thesis using that w by (simp add: sendRequestAndReadResponseBlock_def bindE_def)
qed

lemma read_descriptions_ok:
  assumes "peer_stream S fd pending" "0 \<le> fd" "layouts_agree L img" "\<forall>d \<in> set ds. length (dd_description d) = MAX_maxDescriptionLength + 1"
    "pending w = concat (map (\<lambda>d. img (VariableDescription d)) ds)"
  obtains w' where "read_descriptions L S (length ds) (w, fd) = (Inr ds, (w', fd))"
proof -
  have "\<exists>w'. read_descriptions L S (length ds) (w, fd) = (Inr ds, (w', fd))"
    using assms(4,5)
  proof (induction ds arbitrary: w)
    case (Cons d ds)
    have l: "length (img (VariableDescription d)) = cl_description_size L" "cl_description L (img (VariableDescription d)) = d"
      using assms(3) Cons.prems(1) unfolding layouts_agree_def by (auto simp del: One_nat_def)
    have "pending w = img (VariableDescription d) @ concat (map (\<lambda>d. img (VariableDescription d)) ds)" using Cons.prems(2) by simp
    from read_object [OF assms(1,2) this l(1)] obtain w1 where
      w1: "read_whole_response S (cl_description_size L) default_max_attempts (w, fd) = (Inr (cl_description_size L, img (VariableDescription d)), (w1, fd))"
        "pending w1 = concat (map (\<lambda>d. img (VariableDescription d)) ds)" by blast
    have "\<forall>d \<in> set ds. length (dd_description d) = MAX_maxDescriptionLength + 1" using Cons.prems(1) by simp
    from Cons.IH [OF this w1(2)] obtain w' where "read_descriptions L S (length ds) (w1, fd) = (Inr ds, (w', fd))" by blast
    with w1(1) l(2) show ?case by (simp add: bindE_def)
  qed simp
  with that show thesis by blast
qed

lemma describe_database_receives:
  assumes "layouts_agree L img" "length ds < 2 ^ 64" "\<forall>d \<in> set ds. length (dd_description d) = MAX_maxDescriptionLength + 1"
    "connected S img (vcl_commandSock cl) (cl_simple_request L stVardis_RTDB_DescribeDatabase)
       (VardisDescribeDatabase_Confirm st (length ds) # map VariableDescription ds) w fd pending"
  obtains w' where "describe_database L S (w, cl) = (Inr (st, ds), (w', cl))"
proof -
  let ?conf = "VardisDescribeDatabase_Confirm st (length ds)" and ?n = "conf_sizeof (cl_describe_database_confirm L)"
  have c: "length (img ?conf) = ?n" "conf_status_code (cl_describe_database_confirm L) (img ?conf) = st"
    "cl_number_descriptions L (img ?conf) = length ds"
    using assms(1,2) unfolding layouts_agree_def by blast+
  have p: "peer_stream S fd pending" "0 \<le> fd" using assms(4) by (simp_all add: connected_def)
  obtain w1 w2 where w: "open_client S (vcl_commandSock cl) (w, ()) = (Inr fd, (w1, ()))"
    "sendRequestAndReadResponseBlock S (cl_simple_request L stVardis_RTDB_DescribeDatabase) ?n (w1, fd) = (Inr (?n, img ?conf), (w2, fd))"
    "pending w2 = concat (map img (map VariableDescription ds))"
    by (rule request_object [OF assms(4) c(1)])
  have "pending w2 = concat (map (\<lambda>d. img (VariableDescription d)) ds)" using w(3) by (simp add: comp_def)
  from read_descriptions_ok [OF p assms(1,3) this] obtain w3 where w3: "read_descriptions L S (length ds) (w2, fd) = (Inr ds, (w3, fd))" .
  have "describe_database L S (w, cl) = (Inr (st, ds), (if fd \<ge> 0 then sys_close S fd w3 else w3, cl))"
    using w(1,2) w3 c(2,3) p(2) by (simp add: describe_database_def converse_def with_client_socket_def bindE_def)
  with that show thesis by blast
qed

lemma describe_variable_receives:
  assumes "layouts_agree L img" "length bs = unat (dv_value_length d)" "length (dv_description d) = MAX_maxDescriptionLength + 1"
    "connected S img (vcl_commandSock cl) (cl_describe_variable_request L i) [VardisDescribeVariable_Confirm st d, ValueBytes bs] w fd pending"
  obtains w' where "describe_variable L S i True (w, cl) = (Inr (st, d, bs), (w', cl))"
proof -
  let ?conf = "VardisDescribeVariable_Confirm st d" and ?n = "conf_sizeof (cl_describe_variable_confirm L)"
  have c: "length (img ?conf) = ?n" "conf_status_code (cl_describe_variable_confirm L) (img ?conf) = st"
    "cl_var_description L (img ?conf) = d" "img (ValueBytes bs) = bs"
    using assms(1,3) unfolding layouts_agree_def by blast+
  have p: "peer_stream S fd pending" "0 \<le> fd" using assms(4) by (simp_all add: connected_def)
  obtain w1 w2 where w: "open_client S (vcl_commandSock cl) (w, ()) = (Inr fd, (w1, ()))"
    "sendRequestAndReadResponseBlock S (cl_describe_variable_request L i) ?n (w1, fd) = (Inr (?n, img ?conf), (w2, fd))"
    "pending w2 = concat (map img [ValueBytes bs])"
    by (rule request_object [OF assms(4) c(1)])
  have "pending w2 = bs @ []" using w(3) c(4) by simp
  from read_object [OF p this assms(2)] obtain w3 where
    w3: "read_whole_response S (unat (dv_value_length d)) default_max_attempts (w2, fd) = (Inr (unat (dv_value_length d), bs), (w3, fd))" by blast
  have "describe_variable L S i True (w, cl) = (Inr (st, d, bs), (if fd \<ge> 0 then sys_close S fd w3 else w3, cl))"
    using w(1,2) w3 c(2,3) p(2) by (simp add: describe_variable_def converse_def with_client_socket_def bindE_def Let_def)
  with that show thesis by blast
qed

end
