(* ===== verification/VardisRuntime.thy ===== *)
theory VardisRuntime
  imports VardisClientLib VardisCommands VardisExamples
begin

text \<open>
  The whole VarDis demon with its applications as a state machine: the steps of the protocol threads, rounds of the
  RTDB thread, commands, and the steps of the calls that applications make through the client library.  Then what a client finds that
  reads a variable from the store itself, and how a call fails that meets an old confirm or no room for its own.
  The last section has a concrete demon with one application.
\<close>

section \<open>Steps of an application\<close>

text \<open>Whatever an application does with the services of the library, and however its waits and locks come out, the segment
  stays safe.\<close>

lemma fair_now: "fair_wait (\<lambda>q. (b, q))"
  by (simp add: fair_wait_def)

lemma send_request_safe:
  assumes "rtdb_queue_safe maxRTDBServiceBufferSize q" "codec ser des enc ok" "ok r" "length (enc r) \<le> maxRTDBServiceBufferSize"
  shows "rtdb_queue_safe maxRTDBServiceBufferSize (send_request (request_into ser r) owns signalled q)"
proof -
  have q: "holds [] q" "bufferSize q = maxRTDBServiceBufferSize" using assms(1) by (simp_all add: rtdb_queue_safe_def)
  have "stays_inside (request_into ser r) () (bufferSize q)"
    using request_into_writes [OF assms(2-4) buffer_positive, of "()"] by (auto simp: q(2) writes_def stays_inside_def)
  from push_wait_keeps [OF q(1) this fair_now, of _ owns signalled] show ?thesis
    by (intro rtdb_queue_safe_shape [OF _ _ assms(1)]) (simp_all add: send_request_def keeps_def)
qed

lemma confirm_step_safe:
  assumes "segment_safe csz CS"
  shows "rtdb_queue_safe (maxRTDBConfirmBufferSize csz) (confirm_queue_of kind CS)"
    and "rtdb_queue_safe (maxRTDBConfirmBufferSize csz) q \<Longrightarrow> segment_safe csz (set_confirm_queue kind q CS)"
  using assms by (cases kind; simp add: segment_safe_def)+

lemma rtdb_step_safe:
  assumes "segment_safe csz CS" "rtdb_op_ok rtdb_op"
  shows "segment_safe csz (rtdb_step rtdb_op owns signalled CS)"
proof (cases rtdb_op)
  case (ResetConfirms kind)
  note q = confirm_step_safe(1) [OF assms(1), of kind]
  obtain q' where "shm_reset (confirm_queue_of kind CS) = (Inr (), q')" "holds [] q'" "shape q' = shape (confirm_queue_of kind CS)"
    by (rule shm_reset_keeps [OF rtdb_queue_safeD(1) [OF q]])
  then show ?thesis
    using confirm_step_safe(2) [OF assms(1) rtdb_queue_safe_shape [OF _ _ q]] ResetConfirms by simp
next
  case (SendCreate spec val)
  let ?r = "\<lparr>crq_s_type = stVardis_RTDB_Create, crq_spec = spec, crq_value = val\<rparr>"
  have r: "wf_RTDB_Create_Request ?r" using assms(2) SendCreate by (simp add: wf_RTDB_Create_Request_def)
  show ?thesis
    using send_request_safe [OF segment_safeD(1) [OF assms(1)] create_request_codec.codec_axioms r request_sizes(1) [OF r]] assms(1) SendCreate
    by (simp add: segment_safe_def)
next
  case (SendDelete i)
  show ?thesis
    using send_request_safe [OF segment_safeD(2) [OF assms(1)] delete_request_codec.codec_axioms _ request_sizes(2)] assms(1) SendDelete
    by (simp add: segment_safe_def)
next
  case (SendUpdate i val)
  let ?r = "\<lparr>urq_s_type = stVardis_RTDB_Update, urq_varId = i, urq_value = val\<rparr>"
  have r: "wf_RTDB_Update_Request ?r" using assms(2) SendUpdate by (simp add: wf_RTDB_Update_Request_def)
  show ?thesis
    using send_request_safe [OF segment_safeD(3) [OF assms(1)] update_request_codec.codec_axioms r request_sizes(3) [OF r]] assms(1) SendUpdate
    by (simp add: segment_safe_def)
next
  case (TakeConfirm kind junk)
  note q = confirm_step_safe(1) [OF assms(1), of kind]
  from pop_wait_keeps [OF rtdb_queue_safeD(1) [OF q] fair_now, of conf_handler _ owns signalled junk] show ?thesis
    using confirm_step_safe(2) [OF assms(1) rtdb_queue_safe_shape [OF _ _ q]] TakeConfirm by (simp add: keeps_def)
qed

section \<open>A client reads the store\<close>

lemma rtdb_read_spec:
  assumes "wf_pd pd" "MAX_maxValueLength \<le> n"
  shows "rtdb_read i n True out (vardis_store pd, l) =
    (if \<not> used pd i then (Inr (VARDIS_STATUS_VARIABLE_DOES_NOT_EXIST, out), (vardis_store pd, False))
     else (Inr (if db_isDeleted (entry pd i) then VARDIS_STATUS_VARIABLE_IS_DELETED else VARDIS_STATUS_OK,
             \<lparr>responseVarId = i, responseVarLen = of_nat (length (val_of pd i)), responseTimeStamp = db_tStamp (entry pd i),
              value_buffer = val_of pd i @ drop (length (val_of pd i)) (value_buffer out)\<rparr>),
           (vardis_store (with_stats (\<lambda>s. s\<lparr>count_handle_rtdb_read := count_handle_rtdb_read s + 1\<rparr>) pd), False)))"
proof (cases "used pd i")
  case False
  then show ?thesis using assms(2) by (simp add: rtdb_read_def identifier_is_allocated_def bindE_def)
next
  case True
  note v = var_lengths [OF assms(1) True]
  have "\<not> n < length (val_of pd i)" using v(2) assms(2) by simp
  with True v(3) assms(2) show ?thesis
    by (simp add: rtdb_read_def identifier_is_allocated_def bindE_def get_db_entry_ref_def read_value_block_def throw_unused_def
        zoomE_def memcpy_at_def with_stats_def)
qed

lemma rtdb_read_safe:
  assumes "wf_pd pd"
  shows "wf_pd (pd\<lparr>vardis_store := fst (snd (rtdb_read i n has_buffer out (vardis_store pd, l)))\<rparr>)"
proof (cases "has_buffer \<and> MAX_maxValueLength \<le> n")
  case False
  then have "rtdb_read i n has_buffer out (vardis_store pd, l) = (Inl VardisClientLibException, (vardis_store pd, l))"
    by (auto simp: rtdb_read_def bindE_def)
  then show ?thesis using assms by simp
next
  case True
  have s: "pd\<lparr>vardis_store := vardis_store (with_stats f pd)\<rparr> = with_stats f pd" for f by (simp add: with_stats_def)
  show ?thesis
    using rtdb_read_spec [OF assms, of n i out l] assms with_stats_wf(1) [OF assms] True by (simp add: s)
qed

section \<open>Steps\<close>

inductive vardis_step :: "nat \<Rightarrow> VardisRuntimeData \<Rightarrow> VardisRuntimeData \<Rightarrow> bool" for csz where
  protocol: "demon_step \<lparr>protocol_data = protocol_data rt, vardis_exitFlag = False\<rparr> d \<Longrightarrow> \<not> vardis_exitFlag rt
    \<Longrightarrow> vardis_step csz rt (rt\<lparr>protocol_data := protocol_data d, vardis_exitFlag := vardis_exitFlag d\<rparr>)"
| rtdb: "\<not> vardis_exitFlag rt \<Longrightarrow> vardis_step csz rt (snd (rtdb_round csz owns clock (k, rt)))"
| command: "\<not> vardis_exitFlag rt \<Longrightarrow> command_ok cmd \<Longrightarrow> handle_vardis_command csz cmd rt = (r, rt')
    \<Longrightarrow> vardis_step csz rt (case r of Inl _ \<Rightarrow> rt'\<lparr>vardis_exitFlag := True\<rparr> | Inr _ \<Rightarrow> rt')"
| client_call: "\<not> vardis_exitFlag rt \<Longrightarrow> clientApplications rt name = Some c \<Longrightarrow> rtdb_op_ok rtdb_op
    \<Longrightarrow> vardis_step csz rt (rt\<lparr>clientApplications := (clientApplications rt)(name \<mapsto> c\<lparr>vc_pSCS := rtdb_step rtdb_op owns signalled (vc_pSCS c)\<rparr>)\<rparr>)"
| client_read: "\<not> vardis_exitFlag rt
    \<Longrightarrow> vardis_step csz rt (rt\<lparr>protocol_data := (protocol_data rt)\<lparr>vardis_store :=
          fst (snd (rtdb_read i n has_buffer out (vardis_store (protocol_data rt), locked)))\<rparr>\<rparr>)"

definition initial_vardis :: "VardisProtocolData \<Rightarrow> VardisRuntimeData" where
  "initial_vardis pd = \<lparr>protocol_data = pd, vardis_exitFlag = False, clientApplications = Map.empty\<rparr>"

lemma vardis_step_ok:
  assumes "vardis_step csz rt rt'" "vardis_ok csz rt" "5 \<le> csz"
  shows "vardis_ok csz rt'"
  using assms(1,2)
proof cases
  case (protocol d)
  have "demon_ok d" by (rule demon_step_ok [OF protocol(2)]) (use assms(2) protocol(3) in \<open>simp add: demon_ok_def vardis_ok_def safe_vardis_def\<close>)
  then show ?thesis using assms(2) protocol by (simp add: demon_ok_def vardis_ok_def safe_vardis_def)
next
  case (rtdb owns clock k)
  then show ?thesis using rtdb_round_safe [OF assms(2,3)] by simp
next
  case (command cmd r rt1)
  show ?thesis
  proof (cases r)
    case (Inl e)
    then show ?thesis using command by (simp add: vardis_ok_def)
  next
    case (Inr msgs)
    then show ?thesis using vardis_command_safe [OF assms(2) command(2,3)] command(1,4) by simp
  qed
next
  case (client_call name c rtdb_op owns signalled)
  have s: "safe_vardis csz rt" using assms(2) client_call(2) by (simp add: vardis_ok_def)
  then have "segment_safe csz (rtdb_step rtdb_op owns signalled (vc_pSCS c))"
    using client_call(3,4) by (intro rtdb_step_safe) (simp_all add: safe_vardis_def)
  then show ?thesis using s client_call by (auto simp: safe_vardis_def vardis_ok_def)
next
  case (client_read i n has_buffer out locked)
  then show ?thesis using assms(2) rtdb_read_safe by (simp add: safe_vardis_def vardis_ok_def)
qed

lemma vardis_reachable_ok:
  assumes "(vardis_step csz)\<^sup>*\<^sup>* (initial_vardis pd) rt" "wf_pd pd" "5 \<le> csz"
  shows "vardis_ok csz rt"
  using assms(1)
proof (induction rule: rtranclp_induct)
  case base
  show ?case using assms(2) by (simp add: initial_vardis_def vardis_ok_def safe_vardis_def)
next
  case (step rt1 rt2)
  then show ?case using vardis_step_ok assms(3) by blast
qed

text \<open>What a producer holds after its own update.\<close>

lemma own_update_visible:
  assumes "wf_pd pd" "wf_RTDB_Update_Request u" "update_status pd u = VARDIS_STATUS_OK"
  shows "used (own_updated_pd now u pd) (urq_varId u)" "val_of (own_updated_pd now u pd) (urq_varId u) = mb_bytes (urq_value u)"
    "\<not> db_isDeleted (entry (own_updated_pd now u pd) (urq_varId u))" "db_tStamp (entry (own_updated_pd now u pd) (urq_varId u)) = now"
proof -
  have v: "wf_VarValueT (urq_value u)" using assms(2) by (simp add: wf_RTDB_Update_Request_def)
  have "length (mb_bytes (urq_value u)) \<le> valueBufferSize (vardis_store pd)" "used pd (urq_varId u)" "\<not> db_isDeleted (entry pd (urq_varId u))"
    using assms(3) wf_pdD(3) [OF assms(1)] wf_VarValueT_fields(1) [OF v] by (simp_all add: update_status_OK wf_conf_def)
  then show "used (own_updated_pd now u pd) (urq_varId u)" "val_of (own_updated_pd now u pd) (urq_varId u) = mb_bytes (urq_value u)"
    "\<not> db_isDeleted (entry (own_updated_pd now u pd) (urq_varId u))" "db_tStamp (entry (own_updated_pd now u pd) (urq_varId u)) = now"
    using wf_pdD(1) [OF assms(1)] by (simp_all add: own_updated_pd_def value_bytes_put_value)
qed

section \<open>Calls that fail\<close>

text \<open>A full confirm queue: the request is carried out, its confirm is lost, and the demon exits.\<close>

lemma create_unconfirmed:
  assumes "segment_ok csz CS" "seg_msgs CS = ([enc_RTDB_Create_Request r], [], [], cc, dc, uc)" "length cc = maxServicePrimitiveQueueLength"
    "described r" "wf_pd pd" "5 \<le> csz" "\<forall>k. owns k" "length dc \<le> maxServicePrimitiveQueueLength" "length uc \<le> maxServicePrimitiveQueueLength"
    "handle_rtdb_create_request (clock (Suc k)) (clock (Suc (Suc k))) r pd = (Inr conf, pd')"
  obtains k' CS' where "serve_segment csz owns clock (k, pd, False, CS) = (Inr (), (k', pd', True, CS'))"
    "seg_msgs CS' = ([], [], [], cc, dc, uc)" "segment_ok csz CS'"
proof -
  note s = segment_okD [OF assms(1)]
  have m: "shm_msgs (pqCreateRequest CS) = [enc_RTDB_Create_Request r]" "room (pqCreateConfirm CS) = 0"
    using assms(2,3) rtdb_queue_okD(3) [OF s(4)] by (simp_all add: seg_msgs_def)
  have "\<exists>pd1. handle_rtdb_create_request (clock (Suc k)) (clock (Suc (Suc k))) r pd
      = (Inr (RTDB_Create_Confirm (create_status pd r) (spec_varId (crq_spec r))), pd1) \<and> wf_pd pd1"
    by (rule create_answered [OF assms(4,5)])
  then have wf': "wf_pd pd'" using assms(10) by auto
  have c: "create_handler clock r (Suc k, pd) = (Inr conf, (Suc k + 2, pd'))" using assms(10) by (simp add: create_handler_def)
  have "request_handler csz owns des_RTDB_Create_Request (create_handler clock) ser_RTDB_Confirm (enc_RTDB_Create_Request r)
      (Suc k, pd, False, pqCreateConfirm CS) = (Inr (), (Suc (Suc k + 2), pd', True, pqCreateConfirm CS))"
    by (rule create_service.request_unconfirmed [OF assms(4) c rtdb_queue_okD(2) [OF s(4)] assms(6) m(2)])
  then have f: "forE (request_handler csz owns des_RTDB_Create_Request (create_handler clock) ser_RTDB_Confirm)
      (shm_msgs (pqCreateRequest CS)) (Suc k, pd, False, pqCreateConfirm CS) = (Inr (), (Suc (Suc k + 2), pd', True, pqCreateConfirm CS))"
    using m(1) by simp
  obtain rq' where q: "popall_nowait (request_handler csz owns des_RTDB_Create_Request (create_handler clock) ser_RTDB_Confirm)
      defaultLongSharedMemoryLockTimeoutMS True ((Suc k, pd, False, pqCreateConfirm CS), pqCreateRequest CS)
      = (Inr False, ((Suc (Suc k + 2), pd', True, pqCreateConfirm CS), rq'))" "shm_ok rq'" "shm_msgs rq' = []" "shape rq' = shape (pqCreateRequest CS)"
    by (rule popall_nowait_ok [OF rtdb_queue_okD(1) [OF s(1)] f long_timeout_nonzero])
  let ?CS1 = "CS\<lparr>pqCreateRequest := rq'\<rparr>"
  have 1: "serve_creates csz owns clock (k, pd, False, CS) = (Inr (), (Suc (Suc k + 2), pd', True, ?CS1))"
    using q(1) assms(7) by (simp add: serve_creates_def zoomE_def handle_request_queue_def)
  have ok1: "segment_ok csz ?CS1" using s rtdb_queue_ok_shape [OF q(2,4) s(1)] by (simp add: segment_ok_def)
  have m1: "seg_msgs ?CS1 = ([], map enc_RTDB_Id_Request [], [], cc, dc, uc)" using assms(2) q(3) by (simp add: seg_msgs_def)
  have r: "length dc + length ([] :: RTDB_Delete_Request list) \<le> maxServicePrimitiveQueueLength"
    "length uc + length ([] :: RTDB_Update_Request list) \<le> maxServicePrimitiveQueueLength" using assms(8,9) by simp_all
  obtain cs2 k2 pd2 CS2 where 2: "serve_all delete_handler [] (Suc (Suc (Suc k + 2)), pd') = (cs2, k2, pd2)"
    "serve_deletes csz owns (Suc (Suc k + 2), pd', True, ?CS1) = (Inr (), (k2, pd2, True, CS2))" "segment_ok csz CS2"
    "seg_msgs CS2 = ([], [], [], cc, dc @ map enc_RTDB_Confirm cs2, uc)" "wf_pd pd2"
    by (rule deletes_served [OF ok1 m1 wf' assms(6) r(1) assms(7), where k = "Suc (Suc k + 2)" and x = True]) blast
  have e2: "cs2 = []" "pd2 = pd'" using 2(1) by simp_all
  have m2: "seg_msgs CS2 = ([], [], map enc_RTDB_Update_Request [], cc, dc, uc)" using 2(4) e2 by simp
  have g: "\<forall>u \<in> set []. wf_RTDB_Update_Request u" by simp
  obtain cs3 k3 pd3 CS3 where 3: "serve_all (update_handler clock) [] (Suc k2, pd2) = (cs3, k3, pd3)"
    "serve_updates csz owns clock (k2, pd2, True, CS2) = (Inr (), (k3, pd3, True, CS3))" "segment_ok csz CS3"
    "seg_msgs CS3 = ([], [], [], cc, dc, uc @ map enc_RTDB_Confirm cs3)"
    by (rule updates_served [OF 2(3) m2 g 2(5) assms(6) r(2) assms(7), where clock = clock and k = k2 and x = True]) blast
  have e3: "cs3 = []" "pd3 = pd'" using 3(1) e2 by simp_all
  have "serve_segment csz owns clock (k, pd, False, CS) = (Inr (), (k3, pd', True, CS3))"
    using 1 2(2) 3(2) e3(2) by (simp add: serve_segment_def bindE_def)
  then show thesis using that 3(3,4) e3(1) by simp
qed

text \<open>An old confirm in the queue: resetting the queue leaves its flag, and the client reads an empty queue unless the
  demon has answered by then.\<close>

lemma pop_wait_stale:
  assumes "holds [] q" "shm_msgs q = []" "has_data q" "t \<noteq> 0"
  shows "pop_wait handler t True wait (h, q) = (Inl RingBufferException, (h, q))"
proof -
  have w: "wf_rb (shm_queue q)" "queued q = []" using assms(1,2) by (simp_all add: holds_def shm_msgs_def)
  show ?thesis
    using assms(3,4) rbq.pop_empty [OF w]
    by (simp add: pop_wait_def bindE_step pop_head_def drain_buffer_def) (simp add: bindE_def zoomE_def)
qed

lemma create_meets_old_confirm:
  assumes "segment_ok csz CS" "shm_msgs (pqCreateRequest CS) = []" "shm_msgs (pqCreateConfirm CS) \<noteq> []"
    "wf_VarSpecT spec" "wf_VarValueT val" "rc_owns_request call" "rc_owns_confirm call"
  shows "\<exists>CS'. rtdb_create spec val call id (d, CS) = (Inl RingBufferException, (d, CS'))
    \<and> shm_msgs (pqCreateRequest CS') = [enc_RTDB_Create_Request \<lparr>crq_s_type = stVardis_RTDB_Create, crq_spec = spec, crq_value = val\<rparr>]"
proof -
  let ?r = "\<lparr>crq_s_type = stVardis_RTDB_Create, crq_spec = spec, crq_value = val\<rparr>"
  note s = segment_okD [OF assms(1)]
  obtain cq where c: "shm_reset (pqCreateConfirm CS) = (Inr (), cq)" "holds [] cq" "shm_msgs cq = []" "has_data cq"
    using shm_reset_ok [OF rtdb_queue_okD(1) [OF s(4)]] assms(3) by metis
  have wf: "wf_RTDB_Create_Request ?r" using assms(4,5) by (simp add: wf_RTDB_Create_Request_def)
  have b: "bufferSize (pqCreateRequest CS) = maxRTDBServiceBufferSize" using s(1) by (simp add: rtdb_queue_ok_def)
  have w: "writes (request_into ser_RTDB_Create_Request ?r) () (bufferSize (pqCreateRequest CS)) (enc_RTDB_Create_Request ?r) ()"
    unfolding b by (rule request_into_writes [OF create_request_codec.codec_axioms wf request_sizes(1) [OF wf] buffer_positive])
  obtain rq where r: "push_wait (request_into ser_RTDB_Create_Request ?r) defaultLongSharedMemoryLockTimeoutMS True (rc_wait_request call)
      ((), pqCreateRequest CS) = (Inr False, ((), rq))" "shm_msgs rq = [enc_RTDB_Create_Request ?r]"
    by (rule push_wait_ok [OF rtdb_queue_okD(1) [OF s(1)] w request_nonempty(1) assms(2) long_timeout_nonzero])
  let ?CS = "CS\<lparr>pqCreateRequest := rq, pqCreateConfirm := cq\<rparr>"
  have swap: "CS\<lparr>pqCreateConfirm := cq, pqCreateRequest := rq\<rparr> = ?CS" "?CS\<lparr>pqCreateConfirm := cq\<rparr> = ?CS"
    by (cases CS, simp)+
  have p: "pop_wait conf_handler defaultLongSharedMemoryLockTimeoutMS True (rc_wait_confirm call) (h, cq)
      = (Inl RingBufferException, (h, cq))" for h
    by (rule pop_wait_stale [OF c(2-4) long_timeout_nonzero])
  have a: "await_confirm pqCreateConfirm (\<lambda>q CS. CS\<lparr>pqCreateConfirm := q\<rparr>) call (d, ?CS) = (Inl RingBufferException, (d, ?CS))"
    using assms(7) p by (simp add: await_confirm_def swap(2))
  have "rtdb_create spec val call id (d, CS) = (Inl RingBufferException, (d, ?CS))"
    using c(1) r(1) assms(6) a by (simp add: rtdb_create_def rtdb_helper_def bindE_def zoomE_def swap(1))
  with r(2) show ?thesis by (intro exI [of _ ?CS]) simp
qed

end
