(* ===== verification/VardisClientExamples.thy ===== *)
theory VardisClientExamples
  imports VardisRuntime
begin

text \<open>
  A concrete demon with one application, a concrete way of writing messages into memory, and a connection as a
  byte stream: the properties of the clients are shown to apply to them.
\<close>

section \<open>A demon with one application\<close>

definition example_segment :: VardisShmControlSegment where
  "example_segment = projr (new_VardisShmControlSegment 8
     (replicate 6 (replicate 31 \<lparr>d_offs = 0, d_len = 0\<rparr>, replicate 31 \<lparr>d_offs = 0, d_len = 0\<rparr>, \<lambda>_. 0)))"

definition example_vardis :: "VardisProtocolData \<Rightarrow> VardisRuntimeData" where
  "example_vardis pd = \<lparr>protocol_data = pd, vardis_exitFlag = False,
     clientApplications = [''app'' \<mapsto> \<lparr>vc_clientName = ''app'', vc_pSCS = example_segment\<rparr>]\<rparr>"

definition prompt_call :: rtdb_call where
  "prompt_call = \<lparr>rc_owns_request = True, rc_wait_request = (\<lambda>q. (True, q)), rc_owns_confirm = True, rc_wait_confirm = (\<lambda>q. (True, q)), rc_junk = 0\<rparr>"

lemma example_vardis_simps [simp]:
  "protocol_data (example_vardis pd) = pd" "\<not> vardis_exitFlag (example_vardis pd)"
  "clientApplications (example_vardis pd) = [''app'' \<mapsto> \<lparr>vc_clientName = ''app'', vc_pSCS = example_segment\<rparr>]"
  by (simp_all add: example_vardis_def)

lemma example_segment: "segment_ok 8 example_segment" "idle_segment example_segment"
proof -
  obtain CS where cs: "new_VardisShmControlSegment 8
     (replicate 6 (replicate 31 \<lparr>d_offs = 0, d_len = 0\<rparr>, replicate 31 \<lparr>d_offs = 0, d_len = 0\<rparr>, \<lambda>_. 0)) = Inr CS" "segment_ok 8 CS"
    "\<forall>q \<in> {pqCreateRequest CS, pqDeleteRequest CS, pqUpdateRequest CS, pqCreateConfirm CS, pqDeleteConfirm CS, pqUpdateConfirm CS}.
       shm_msgs q = []"
    by (rule new_vardis_segment_ok [of "replicate 6 (replicate 31 \<lparr>d_offs = 0, d_len = 0\<rparr>, replicate 31 \<lparr>d_offs = 0, d_len = 0\<rparr>, \<lambda>_. 0)" 8])
      (simp_all add: raw_memory_ok_def maxServicePrimitiveQueueLength_def)
  then have "example_segment = CS" by (simp only: example_segment_def sum.sel)
  with cs(2,3) show "segment_ok 8 example_segment" "idle_segment example_segment" by (simp_all add: idle_segment_def seg_msgs_def)
qed

lemma example_vardis_ok:
  assumes "wf_pd pd"
  shows "wf_vardis 8 (example_vardis pd)"
  using assms example_segment(1) by (simp add: wf_vardis_def example_vardis_def)

lemma example_turn:
  assumes "wf_pd pd" "get_vardis_isactive (vardis_store pd)"
  shows "turn_ok 8 (example_vardis pd) ''app'' example_segment (\<lambda>_. True) prompt_call"
  using example_vardis_ok [OF assms(1)] example_segment assms(2)
  by (simp add: turn_ok_def prompt_call_def)

text \<open>A segment with requests, and with confirms that the application has not taken.\<close>

lemma fill_queue:
  assumes "rtdb_queue_ok bufsize q" "shm_msgs q = []" "\<forall>m \<in> set ms. m \<noteq> [] \<and> length m \<le> bufsize"
    "length ms \<le> maxServicePrimitiveQueueLength"
  shows "\<exists>q'. rtdb_queue_ok bufsize q' \<and> shm_msgs q' = ms"
  using assms(3,4)
proof (induction ms rule: rev_induct)
  case (snoc m ms)
  then obtain q' where q': "rtdb_queue_ok bufsize q'" "shm_msgs q' = ms" by auto
  have m: "m \<noteq> []" "length m \<le> bufsize" using snoc.prems(1) by simp_all
  let ?h = "\<lambda>_ (u, bs). (Inr (length m), (u, m @ drop (length m) bs))"
  have w: "writes ?h () (bufferSize q') m ()" using m(2) q'(1) by (simp add: writes_def rtdb_queue_ok_def)
  have l: "length (shm_msgs q') < maxCapacity (shm_queue q')"
    using snoc.prems(2) q' by (simp add: rtdb_queue_ok_def del: length_shm_msgs)
  obtain q'' where "push_nowait ?h 1 True ((), q') = (Inr (False, False), ((), q''))"
    "shm_ok q''" "shm_msgs q'' = shm_msgs q' @ [m]" "shape q'' = shape q'"
    by (rule push_nowait_ok [where t = 1, OF rtdb_queue_okD(1) [OF q'(1)] w m(1) l]) simp_all
  then show ?case using q' rtdb_queue_ok_shape [of q'' q'] by auto
qed (use assms in auto)

lemma filled_segment:
  assumes "\<forall>r \<in> set crs. wf_RTDB_Create_Request r" "\<forall>r \<in> set urs. wf_RTDB_Update_Request r"
    "length crs \<le> maxServicePrimitiveQueueLength" "length drs \<le> maxServicePrimitiveQueueLength"
    "length urs \<le> maxServicePrimitiveQueueLength" "length cs \<le> maxServicePrimitiveQueueLength"
  obtains CS where "segment_ok 8 CS"
    "seg_msgs CS = (map enc_RTDB_Create_Request crs, map enc_RTDB_Id_Request drs, map enc_RTDB_Update_Request urs,
       map enc_RTDB_Confirm cs, [], [])"
proof -
  note s = segment_okD [OF example_segment(1)]
  have e: "shm_msgs (pqCreateRequest example_segment) = []" "shm_msgs (pqDeleteRequest example_segment) = []"
    "shm_msgs (pqUpdateRequest example_segment) = []" "shm_msgs (pqCreateConfirm example_segment) = []"
    using example_segment(2) by (simp_all add: idle_segment_def seg_msgs_def)
  have "enc_RTDB_Confirm conf \<noteq> []" "length (enc_RTDB_Confirm conf) \<le> maxRTDBConfirmBufferSize 8" for conf
    by (simp_all add: length_enc_RTDB_Confirm maxRTDBConfirmBufferSize_def flip: length_greater_0_conv)
  then obtain cq where cq: "rtdb_queue_ok (maxRTDBConfirmBufferSize 8) cq" "shm_msgs cq = map enc_RTDB_Confirm cs"
    using fill_queue [OF s(4) e(4), of "map enc_RTDB_Confirm cs"] assms(6) by auto
  obtain crq where crq: "rtdb_queue_ok maxRTDBServiceBufferSize crq" "shm_msgs crq = map enc_RTDB_Create_Request crs"
    using fill_queue [OF s(1) e(1), of "map enc_RTDB_Create_Request crs"] assms(1,3) request_nonempty request_sizes by auto
  obtain drq where drq: "rtdb_queue_ok maxRTDBServiceBufferSize drq" "shm_msgs drq = map enc_RTDB_Id_Request drs"
    using fill_queue [OF s(2) e(2), of "map enc_RTDB_Id_Request drs"] assms(4) request_nonempty request_sizes by auto
  obtain urq where urq: "rtdb_queue_ok maxRTDBServiceBufferSize urq" "shm_msgs urq = map enc_RTDB_Update_Request urs"
    using fill_queue [OF s(3) e(3), of "map enc_RTDB_Update_Request urs"] assms(2,5) request_nonempty request_sizes by auto
  show thesis
    by (rule that [of "example_segment\<lparr>pqCreateRequest := crq, pqDeleteRequest := drq, pqUpdateRequest := urq, pqCreateConfirm := cq\<rparr>"])
      (use s example_segment(2) crq drq urq cq in \<open>simp_all add: segment_ok_def seg_msgs_def idle_segment_def\<close>)
qed

text \<open>Variable 7 is created, created once more with a value that is too long, deleted and updated.\<close>

definition create_long :: RTDB_Create_Request where
  "create_long = create_7\<lparr>crq_value := vv_of (replicate 40 0)\<rparr>"

definition delete_7 :: RTDB_Delete_Request where
  "delete_7 = \<lparr>irq_s_type = stVardis_RTDB_Delete, irq_varId = 7\<rparr>"

definition update_gone_7 :: RTDB_Update_Request where
  "update_gone_7 = \<lparr>urq_s_type = stVardis_RTDB_Update, urq_varId = 7, urq_value = vv_of [3]\<rparr>"

lemma requests_7: "described create_7" "described create_long" "wf_RTDB_Update_Request update_gone_7"
  using create_7_ok(2)
  by (simp_all add: described_def create_long_def update_gone_7_def wf_RTDB_Create_Request_def wf_RTDB_Update_Request_def) (simp_all add: create_7_def)

lemma served_7:
  "\<exists>k1 pd1 k2 pd2 k3 pd3. serve_all (create_handler (\<lambda>_. 1000)) [create_7, create_long] (1, fresh_node node_A)
      = ([RTDB_Create_Confirm VARDIS_STATUS_OK 7, RTDB_Create_Confirm VARDIS_STATUS_VALUE_TOO_LONG 7], k1, pd1)
    \<and> serve_all delete_handler [delete_7] (Suc k1, pd1) = ([RTDB_Delete_Confirm VARDIS_STATUS_OK 7], k2, pd2)
    \<and> serve_all (update_handler (\<lambda>_. 1000)) [update_gone_7] (Suc k2, pd2)
        = ([RTDB_Update_Confirm VARDIS_STATUS_VARIABLE_IS_DELETED 7], k3, pd3)"
proof -
  have s: "create_status producer create_long = VARDIS_STATUS_VALUE_TOO_LONG" "delete_status producer delete_7 = VARDIS_STATUS_OK"
    using producer by (simp_all add: create_status_def delete_status_def delete_7_def create_long_def create_7_def own_entry_def same_conf_def fresh_node)
  have c: "handle_rtdb_create_request 1000 1000 create_long producer = (Inr (RTDB_Create_Confirm VARDIS_STATUS_VALUE_TOO_LONG 7), producer)"
    using handle_rtdb_create_refused [of producer create_long 1000 1000] by (simp add: s vardis_status_defs) (simp add: create_long_def create_7_def)
  define pd where "pd = with_stats (\<lambda>s. s\<lparr>count_handle_rtdb_delete := count_handle_rtdb_delete s + 1\<rparr>) (deleted_pd 7 producer)"
  have d: "handle_rtdb_delete_request delete_7 producer = (Inr (RTDB_Delete_Confirm VARDIS_STATUS_OK 7), pd)"
    by (simp add: handle_rtdb_delete_spec s pd_def) (simp add: delete_7_def)
  have w: "wf_pd pd" "wf_RTDB_Update_Request update_gone_7"
    using with_stats_wf(1) [OF deleted_pd_wf(1) [OF producer(1)]] producer(3) by (simp_all add: pd_def update_gone_7_def wf_RTDB_Update_Request_def)
  have act: "get_vardis_isactive (vardis_store pd)"
    using producer(7) by (simp add: pd_def with_stats_def deleted_pd_def get_vardis_isactive_def modify_stats_def modify_db_entry_def modify_id_state_def)
  have u: "update_status pd update_gone_7 = VARDIS_STATUS_VARIABLE_IS_DELETED"
    using producer act [unfolded pd_def] by (simp add: pd_def update_status_def update_gone_7_def with_stats_def deleted_pd_def own_entry_def same_conf_def fresh_node)
  have e: "handle_rtdb_update_request 1000 update_gone_7 pd = (Inr (RTDB_Update_Confirm VARDIS_STATUS_VARIABLE_IS_DELETED 7), pd)"
    unfolding handle_rtdb_update_spec [OF w] u by (simp add: vardis_status_defs update_gone_7_def)
  show ?thesis by (simp add: create_handler_def delete_handler_def update_handler_def producer(8) c d e)
qed

section \<open>Messages in memory\<close>

text \<open>Objects without padding, big endian.\<close>

definition u16_at :: "nat \<Rightarrow> u8 list \<Rightarrow> u16" where
  "u16_at k bs = push_bit 8 (ucast (bs ! k)) + ucast (bs ! (k + 1))"

definition u64_at :: "nat \<Rightarrow> u8 list \<Rightarrow> u64" where
  "u64_at k bs = push_bit 56 (ucast (bs ! k)) + push_bit 48 (ucast (bs ! (k + 1))) + push_bit 40 (ucast (bs ! (k + 2)))
     + push_bit 32 (ucast (bs ! (k + 3))) + push_bit 24 (ucast (bs ! (k + 4))) + push_bit 16 (ucast (bs ! (k + 5)))
     + push_bit 8 (ucast (bs ! (k + 6))) + ucast (bs ! (k + 7))"

definition node_at :: "nat \<Rightarrow> u8 list \<Rightarrow> NodeIdentifierT" where
  "node_at k bs = NodeIdentifierT (bs ! k) (bs ! (k + 1)) (bs ! (k + 2)) (bs ! (k + 3)) (bs ! (k + 4)) (bs ! (k + 5))"

fun node_bytes :: "NodeIdentifierT \<Rightarrow> u8 list" where
  "node_bytes (NodeIdentifierT a b c d e f) = [a, b, c, d, e, f]"

definition flag_byte :: "bool \<Rightarrow> u8" where
  "flag_byte b = (if b then 1 else 0)"

fun example_image :: "vardis_message \<Rightarrow> u8 list" where
  "example_image (VardisDescribeDatabase_Confirm st n) = be_bytes16 st @ be_bytes64 (of_nat n)"
| "example_image (VariableDescription d) =
     be_bytes64 (dd_creationTime d) @ be_bytes64 (dd_tStamp d) @ be_bytes16 (dd_timeout d) @ node_bytes (dd_prodId d)
       @ [dd_varId d, dd_repCnt d, flag_byte (dd_isDeleted d)] @ dd_description d"
| "example_image (VardisDescribeVariable_Confirm st d) =
     be_bytes16 st @ be_bytes64 (dv_creationTime d) @ be_bytes64 (dv_tStamp d) @ be_bytes16 (dv_timeout d) @ node_bytes (dv_prodId d)
       @ [dv_varId d, dv_repCnt d, flag_byte (dv_isDeleted d), dv_seqno d, dv_countUpdate d, dv_countCreate d, dv_countDelete d,
          dv_value_length d] @ dv_description d"
| "example_image (ValueBytes bs) = bs"
| "example_image (VardisSimple_Confirm srv st) = be_bytes16 srv @ be_bytes16 st"
| "example_image (VardisRegister_Confirm st own) = be_bytes16 st @ node_bytes own"
| "example_image (VardisGetStatistics_Confirm st stats) = be_bytes16 st"

definition example_layout :: client_layout where
  "example_layout = \<lparr>
     cl_register_request = \<lambda>name del_old. flag_byte del_old # map of_char name,
     cl_deregister_request = map of_char,
     cl_simple_request = be_bytes16,
     cl_describe_variable_request = \<lambda>i. [i],
     cl_register_confirm = \<lparr>conf_sizeof = 8, conf_s_type = \<lambda>_. stVardis_Register, conf_status_code = u16_at 0\<rparr>,
     cl_own_node_identifier = node_at 2,
     cl_simple_confirm = \<lparr>conf_sizeof = 4, conf_s_type = u16_at 0, conf_status_code = u16_at 2\<rparr>,
     cl_describe_database_confirm = \<lparr>conf_sizeof = 10, conf_s_type = \<lambda>_. stVardis_RTDB_DescribeDatabase, conf_status_code = u16_at 0\<rparr>,
     cl_number_descriptions = \<lambda>bs. unat (u64_at 2 bs),
     cl_description_size = 283,
     cl_description = \<lambda>bs. \<lparr>dd_varId = bs ! 24, dd_prodId = node_at 18 bs, dd_repCnt = bs ! 25, dd_creationTime = u64_at 0 bs,
       dd_timeout = u16_at 16 bs, dd_description = drop 27 bs, dd_tStamp = u64_at 8 bs, dd_isDeleted = bs ! 26 \<noteq> 0\<rparr>,
     cl_describe_variable_confirm = \<lparr>conf_sizeof = 290, conf_s_type = \<lambda>_. stVardis_RTDB_DescribeVariable, conf_status_code = u16_at 0\<rparr>,
     cl_var_description = \<lambda>bs. \<lparr>dv_varId = bs ! 26, dv_prodId = node_at 20 bs, dv_repCnt = bs ! 27, dv_creationTime = u64_at 2 bs,
       dv_timeout = u16_at 18 bs, dv_description = drop 34 bs, dv_seqno = bs ! 29, dv_tStamp = u64_at 10 bs, dv_countUpdate = bs ! 30,
       dv_countCreate = bs ! 31, dv_countDelete = bs ! 32, dv_isDeleted = bs ! 28 \<noteq> 0, dv_value_length = bs ! 33\<rparr>,
     cl_statistics_confirm = \<lparr>conf_sizeof = 2, conf_s_type = \<lambda>_. stVardis_GetStatistics, conf_status_code = u16_at 0\<rparr>,
     cl_protocol_stats = \<lambda>_. new_VardisProtocolStatistics\<rparr>"

lemmas read_at = u16_at_def u64_at_def node_at_def be_bytes16_def be_bytes64_def be_join16 be_join64 flag_byte_def

lemma examples_agree: "layouts_agree example_layout example_image"
proof -
  have n: "unat (u64_at 2 (example_image (VardisDescribeDatabase_Confirm st n))) = n" if "n < 2 ^ 64" for st n
    using that by (simp add: read_at unat_of_nat take_bit_eq_mod)
  have d: "cl_description example_layout (example_image (VariableDescription d)) = d" for d
    by (cases d; cases "dd_prodId d") (simp add: example_layout_def read_at)
  have v: "cl_var_description example_layout (example_image (VardisDescribeVariable_Confirm st d)) = d" for st d
    by (cases d; cases "dv_prodId d") (simp add: example_layout_def read_at)
  have l: "length (node_bytes i) = 6" for i by (cases i) simp
  show ?thesis
    unfolding layouts_agree_def using d v n l
    by (auto simp: example_layout_def be_bytes16_def be_bytes64_def MAX_maxDescriptionLength_def) (simp_all add: read_at)
qed

section \<open>A connection\<close>

text \<open>The state of the operating system is what the peer has written; a read gives at most three bytes.\<close>

definition stream_sockets :: "u8 list \<Rightarrow> u8 list sockets" where
  "stream_sockets answer = \<lparr>
     sys_socket = \<lambda>w. (3, w), sys_umask = \<lambda>_ w. (18, w), sys_bind = \<lambda>_ _ w. (0, w), sys_set_rcvtimeo = \<lambda>_ _ w. (0, w),
     sys_listen = \<lambda>_ _ w. (0, w), sys_connect = \<lambda>_ _ w. (0, w), sys_select = \<lambda>_ _ w. (1, w), sys_accept = \<lambda>_ w. (5, w),
     sys_read = \<lambda>_ n w. ((int (length (take (min 3 n) w)), take (min 3 n) w), drop (min 3 n) w),
     sys_write = \<lambda>_ bs w. (int (length bs), answer), sys_close = \<lambda>_ w. w, sys_unlink = \<lambda>_ w. w\<rparr>"

definition example_socket :: CommandSocket where
  "example_socket = \<lparr>the_command_socket = 4, data_socket = -1, socketName = ''/tmp/vardis'', socketTimeoutMS = 500\<rparr>"

definition example_client :: VardisClientRuntime where
  "example_client = \<lparr>vcl_isRegistered = True, vcl_commandSock = example_socket, vcl_shmSegmentName = ''app'',
     vcl_ownNodeIdentifier = node_A\<rparr>"

lemma stream_sockets: "peer_stream (stream_sockets answer) fd (\<lambda>w. w)" "posix_read (stream_sockets answer)"
  by (auto simp: peer_stream_def posix_read_def stream_sockets_def)

lemma stream_connected:
  "connected (stream_sockets (concat (map img msgs))) img example_socket request msgs w 3 (\<lambda>w. w)"
proof -
  have "open_client (stream_sockets (concat (map img msgs))) example_socket (w, ()) = (Inr 3, (w, ()))"
    by (simp add: open_client_def bindE_def stream_sockets_def example_socket_def max_command_socket_name_length_def
        maxUnixDomainSocketPathLength_def strlen_def)
  then show ?thesis using stream_sockets(1) by (simp add: connected_def) (simp add: stream_sockets_def)
qed

end
