(* ===== verification/PropsClients.thy ===== *)
theory PropsClients
  imports VardisClientExamples
begin

text \<open>
  The properties of the VarDis demon and its applications: the RTDB service in shared memory, the commands over
  the socket, and the client library, each with a witness at the concrete demon of \<open>VardisClientExamples\<close>.
\<close>

section \<open>The RTDB service\<close>

text \<open>C12. A create call of the client library comes back: when the demon is active and takes its turn, both get the mutexes in
  time, the application's segment is idle, and the description of the new variable is not empty, then the request is put into
  shared memory, the demon's RTDB thread carries it out as the protocol prescribes, and the call returns the status the demon has
  determined; the segment is idle again.  The condition on the description is needed: with an empty one the handler of the
  demon throws, and the demon ends without a confirm.\<close>

theorem rtdb_create_answered:
  assumes "turn_ok csz rt name CS owns call" "wf_VarSpecT spec" "wf_VarValueT val" "0 < mb_length (spec_descr spec)"
    "r = \<lparr>crq_s_type = stVardis_RTDB_Create, crq_spec = spec, crq_value = val\<rparr>"
  shows "\<exists>k' rt' CS'. rtdb_create spec val call (demon_turn csz owns clock name) ((k, rt), CS)
        = (Inr (create_status (protocol_data rt) r), ((k', rt'), CS'))
    \<and> handle_rtdb_create_request (clock (Suc k)) (clock (Suc (Suc k))) r (protocol_data rt)
        = (Inr (RTDB_Create_Confirm (create_status (protocol_data rt) r) (spec_varId spec)), protocol_data rt')
    \<and> \<not> vardis_exitFlag rt' \<and> wf_vardis csz rt' \<and> segment_ok csz CS' \<and> idle_segment CS'"
  unfolding assms(5) by (rule create_call [OF assms(1-4), where k = k and clock = clock]) blast

theorem rtdb_create_answered_witness:
  "\<exists>k' rt' CS'. rtdb_create (crq_spec create_7) (crq_value create_7) prompt_call (demon_turn 8 (\<lambda>_. True) (\<lambda>_. 1000) ''app'')
      ((0, example_vardis (fresh_node node_A)), example_segment) = (Inr VARDIS_STATUS_OK, ((k', rt'), CS'))
    \<and> protocol_data rt' = producer"
proof -
  have w: "wf_VarSpecT (crq_spec create_7)" "wf_VarValueT (crq_value create_7)" "0 < mb_length (spec_descr (crq_spec create_7))"
    using create_7_ok(2) by (simp_all add: wf_RTDB_Create_Request_def) (simp add: create_7_def)
  have e: "create_7 = \<lparr>crq_s_type = stVardis_RTDB_Create, crq_spec = crq_spec create_7, crq_value = crq_value create_7\<rparr>"
    by (simp add: create_7_def)
  have i: "spec_varId (crq_spec create_7) = 7" by (simp add: create_7_def)
  from rtdb_create_answered [OF example_turn [OF fresh_node(2,9) [of node_A]] w e, where k = 0 and clock = "\<lambda>_. 1000"]
  show ?thesis using create_7_ok(1) producer(8) by (auto simp: i)
qed



text \<open>C14. The RTDB thread serves an application completely and in order, when the store is active, the mutexes are obtained in
  time, every waiting create and update request is well-formed, no create has an empty description, and each confirm queue has
  room for the confirms of its kind: then all requests that wait in the three request queues are carried out, first the creates,
  then the deletes, then the updates, each queue in the order of its requests, and the confirms of each kind are appended to its
  confirm queue in the same order.  Without room for the confirms the demon ends instead (C15).\<close>

theorem requests_served_in_order:
  assumes "wf_vardis csz rt" "\<not> vardis_exitFlag rt" "get_vardis_isactive (vardis_store (protocol_data rt))"
    "clientApplications rt name = Some c" "5 \<le> csz" "\<forall>k. owns k"
    "seg_msgs (vc_pSCS c) = (map enc_RTDB_Create_Request crs, map enc_RTDB_Id_Request drs, map enc_RTDB_Update_Request urs, cc, dc, uc)"
    "\<forall>r \<in> set crs. described r" "\<forall>r \<in> set urs. wf_RTDB_Update_Request r"
    "length cc + length crs \<le> maxServicePrimitiveQueueLength" "length dc + length drs \<le> maxServicePrimitiveQueueLength"
    "length uc + length urs \<le> maxServicePrimitiveQueueLength"
  shows "\<exists>c1 k1 pd1 c2 k2 pd2 c3 k' pd' CS'.
      serve_all (create_handler clock) crs (Suc k, protocol_data rt) = (c1, k1, pd1) \<and> serve_all delete_handler drs (Suc k1, pd1) = (c2, k2, pd2)
    \<and> serve_all (update_handler clock) urs (Suc k2, pd2) = (c3, k', pd')
    \<and> length c1 = length crs \<and> length c2 = length drs \<and> length c3 = length urs
    \<and> seg_msgs CS' = ([], [], [], cc @ map enc_RTDB_Confirm c1, dc @ map enc_RTDB_Confirm c2, uc @ map enc_RTDB_Confirm c3)
    \<and> handle_client_shared_memory csz owns clock name (k, rt)
        = (Inr (), (k', rt\<lparr>protocol_data := pd', clientApplications := (clientApplications rt)(name \<mapsto> c\<lparr>vc_pSCS := CS'\<rparr>)\<rparr>))
    \<and> wf_pd pd' \<and> segment_ok csz CS'"
proof -
  have ok: "segment_ok csz (vc_pSCS c)" "wf_pd (protocol_data rt)" using assms(1,4) by (auto simp: wf_vardis_def)
  obtain c1 k1 pd1 c2 k2 pd2 c3 k' pd' CS' where s:
    "serve_all (create_handler clock) crs (Suc k, protocol_data rt) = (c1, k1, pd1)" "serve_all delete_handler drs (Suc k1, pd1) = (c2, k2, pd2)"
    "serve_all (update_handler clock) urs (Suc k2, pd2) = (c3, k', pd')"
    "length c1 = length crs" "length c2 = length drs" "length c3 = length urs"
    "serve_segment csz owns clock (k, protocol_data rt, False, vc_pSCS c) = (Inr (), (k', pd', False, CS'))" "wf_pd pd'" "segment_ok csz CS'"
    "seg_msgs CS' = ([], [], [], cc @ map enc_RTDB_Confirm c1, dc @ map enc_RTDB_Confirm c2, uc @ map enc_RTDB_Confirm c3)"
    by (rule segment_served [OF ok(1) assms(7,8,9) ok(2) assms(5,10-12,6), where clock = clock and k = k and x = False])
  have "rt\<lparr>vardis_exitFlag := False\<rparr> = rt" using assms(2) by (cases rt) simp
  then have "handle_client_shared_memory csz owns clock name (k, rt)
      = (Inr (), (k', rt\<lparr>protocol_data := pd', clientApplications := (clientApplications rt)(name \<mapsto> c\<lparr>vc_pSCS := CS'\<rparr>)\<rparr>))"
    using served_client [OF s(7) assms(2-4)] by (cases rt) simp
  with s show ?thesis by blast
qed

theorem requests_served_in_order_witness:
  "\<exists>rt c k' rt' c'. wf_vardis 8 rt \<and> clientApplications rt ''app'' = Some c
    \<and> seg_msgs (vc_pSCS c) = ([enc_RTDB_Create_Request create_7, enc_RTDB_Create_Request create_long], [enc_RTDB_Id_Request delete_7],
         [enc_RTDB_Update_Request update_gone_7], [], [], [])
    \<and> handle_client_shared_memory 8 (\<lambda>_. True) (\<lambda>_. 1000) ''app'' (0, rt) = (Inr (), (k', rt'))
    \<and> clientApplications rt' ''app'' = Some c'
    \<and> seg_msgs (vc_pSCS c') = ([], [], [],
         map enc_RTDB_Confirm [RTDB_Create_Confirm VARDIS_STATUS_OK 7, RTDB_Create_Confirm VARDIS_STATUS_VALUE_TOO_LONG 7],
         [enc_RTDB_Confirm (RTDB_Delete_Confirm VARDIS_STATUS_OK 7)],
         [enc_RTDB_Confirm (RTDB_Update_Confirm VARDIS_STATUS_VARIABLE_IS_DELETED 7)])"
proof -
  have g: "\<forall>r \<in> set [create_7, create_long]. described r" "\<forall>r \<in> set [update_gone_7]. wf_RTDB_Update_Request r"
    using requests_7 by simp_all
  obtain CS where CS: "segment_ok 8 CS" "seg_msgs CS = (map enc_RTDB_Create_Request [create_7, create_long],
      map enc_RTDB_Id_Request [delete_7], map enc_RTDB_Update_Request [update_gone_7], map enc_RTDB_Confirm [], [], [])"
    by (rule filled_segment [of "[create_7, create_long]" "[update_gone_7]" "[delete_7]" "[]"])
      (use requests_7 in \<open>simp_all add: described_def maxServicePrimitiveQueueLength_def\<close>)
  let ?c = "\<lparr>vc_clientName = ''app'', vc_pSCS = CS\<rparr>" and ?a = "fresh_node node_A"
  let ?rt = "\<lparr>protocol_data = ?a, vardis_exitFlag = False, clientApplications = [''app'' \<mapsto> ?c]\<rparr>"
  have wf: "wf_vardis 8 ?rt" using CS(1) by (simp add: wf_vardis_def fresh_node)
  have m: "seg_msgs (vc_pSCS ?c) = (map enc_RTDB_Create_Request [create_7, create_long],
      map enc_RTDB_Id_Request [delete_7], map enc_RTDB_Update_Request [update_gone_7], [], [], [])" using CS(2) by simp
  obtain k1 pd1 k2 pd2 k3 pd3 where e: "serve_all (create_handler (\<lambda>_. 1000)) [create_7, create_long] (1, ?a)
      = ([RTDB_Create_Confirm VARDIS_STATUS_OK 7, RTDB_Create_Confirm VARDIS_STATUS_VALUE_TOO_LONG 7], k1, pd1)"
    "serve_all delete_handler [delete_7] (Suc k1, pd1) = ([RTDB_Delete_Confirm VARDIS_STATUS_OK 7], k2, pd2)"
    "serve_all (update_handler (\<lambda>_. 1000)) [update_gone_7] (Suc k2, pd2)
      = ([RTDB_Update_Confirm VARDIS_STATUS_VARIABLE_IS_DELETED 7], k3, pd3)"
    using served_7 by blast
  have r: "length ([] :: u8 list list) + length [create_7, create_long] \<le> maxServicePrimitiveQueueLength"
    "length ([] :: u8 list list) + length [delete_7] \<le> maxServicePrimitiveQueueLength"
    "length ([] :: u8 list list) + length [update_gone_7] \<le> maxServicePrimitiveQueueLength"
    by (simp_all add: maxServicePrimitiveQueueLength_def)
  have h: "\<not> vardis_exitFlag ?rt" "get_vardis_isactive (vardis_store (protocol_data ?rt))" "clientApplications ?rt ''app'' = Some ?c"
    "5 \<le> (8 :: nat)" "\<forall>k :: nat. (\<lambda>_. True) k" by (simp_all add: fresh_node)
  obtain d1 l1 q1 d2 l2 q2 d3 k' pd' CS' where
    "serve_all (create_handler (\<lambda>_. 1000)) [create_7, create_long] (Suc 0, protocol_data ?rt) = (d1, l1, q1)"
    "serve_all delete_handler [delete_7] (Suc l1, q1) = (d2, l2, q2)"
    "serve_all (update_handler (\<lambda>_. 1000)) [update_gone_7] (Suc l2, q2) = (d3, k', pd')"
    and s: "seg_msgs CS' = ([], [], [], [] @ map enc_RTDB_Confirm d1, [] @ map enc_RTDB_Confirm d2, [] @ map enc_RTDB_Confirm d3)"
    "handle_client_shared_memory 8 (\<lambda>_. True) (\<lambda>_. 1000) ''app'' (0, ?rt)
      = (Inr (), (k', ?rt\<lparr>protocol_data := pd', clientApplications := (clientApplications ?rt)(''app'' \<mapsto> ?c\<lparr>vc_pSCS := CS'\<rparr>)\<rparr>))"
    using requests_served_in_order [OF wf h m g r, where k = 0 and clock = "\<lambda>_. 1000"] by blast
  with e have d: "d1 = [RTDB_Create_Confirm VARDIS_STATUS_OK 7, RTDB_Create_Confirm VARDIS_STATUS_VALUE_TOO_LONG 7]"
    "d2 = [RTDB_Delete_Confirm VARDIS_STATUS_OK 7]" "d3 = [RTDB_Update_Confirm VARDIS_STATUS_VARIABLE_IS_DELETED 7]"
    by (simp_all del: serve_all.simps)
  show ?thesis
    by (intro exI conjI, rule wf, rule h(3)) (rule m [simplified list.map], rule s(2), simp, simp add: s(1) d)
qed

text \<open>C11. Invariant of the demon and its applications: in every state that a running demon reaches from a freshly initialized
  store, by the steps of the protocol threads, rounds of the RTDB thread with the mutexes obtained in time or not, commands,
  reads of the store by applications, and the steps of the create, delete and update calls of applications (resetting the confirm
  queue, sending a well-formed request, taking a confirm), interleaved in any way and with any outcome of their locks and waits,
  the protocol data is well-formed and in every queue of every segment no buffer is used twice, all buffers lie inside the
  segment, the capacities are those of the construction and messages fit into their buffers.  Not claimed is that the
  flag of a queue is right or that no buffer is lost: resetting a queue leaves its flag (C16).\<close>

theorem vardis_runtime_invariant:
  assumes "initialize_array_store vbs dbs mem maxsumm maxdescrlen maxvallen maxrep own = Inr st" "maxdescrlen \<le> 255" "maxvallen \<le> 255"
    "(vardis_step csz)\<^sup>*\<^sup>* (initial_vardis (new_VardisProtocolData st)) rt" "5 \<le> csz" "\<not> vardis_exitFlag rt"
  shows "safe_vardis csz rt"
proof -
  have "wf_pd (new_VardisProtocolData st)" by (rule initialized_wf [OF assms(1-3)])
  then show ?thesis using vardis_reachable_ok [OF assms(4) _ assms(5)] assms(6) by (simp add: vardis_ok_def)
qed

theorem vardis_runtime_invariant_witness:
  "\<exists>rt c. (vardis_step 8)\<^sup>*\<^sup>* (initial_vardis (fresh_node node_A)) rt \<and> clientApplications rt ''app'' = Some c
    \<and> safe_vardis 8 rt \<and> segment_safe 8 (vc_pSCS c)"
proof -
  let ?rt = "initial_vardis (fresh_node node_A)"
  let ?raws = "replicate 6 (replicate 31 \<lparr>d_offs = 0, d_len = 0\<rparr>, replicate 31 \<lparr>d_offs = 0, d_len = 0\<rparr>, \<lambda>_. 0)"
  have raws: "length ?raws = 6" "\<forall>raw \<in> set ?raws. raw_memory_ok raw" by (simp_all add: raw_memory_ok_def maxServicePrimitiveQueueLength_def)
  let ?cmd = "VardisRegister (Inr ?raws) (Some \<lparr>vrq_shm_area_name = ''app'', vrq_delete_old_registration = False\<rparr>)"
  obtain c where c: "handleVardisRegisterRequest 8 (Inr ?raws) (Some \<lparr>vrq_shm_area_name = ''app'', vrq_delete_old_registration = False\<rparr>) ?rt
      = (Inr [VardisRegister_Confirm VARDIS_STATUS_OK (ownNodeIdentifier (protocol_data ?rt))],
         ?rt\<lparr>clientApplications := (clientApplications ?rt)(''app'' \<mapsto> c)\<rparr>)"
    by (rule register_new [OF refl raws, where csz = 8 and rt = ?rt and name = "''app''" and del_old = False]) (simp_all add: initial_vardis_def)
  let ?rt1 = "?rt\<lparr>clientApplications := (clientApplications ?rt)(''app'' \<mapsto> c)\<rparr>"
  let ?op = "SendCreate (crq_spec create_7) (crq_value create_7)"
  let ?c = "c\<lparr>vc_pSCS := rtdb_step ?op True True (vc_pSCS c)\<rparr>"
  let ?rt2 = "?rt1\<lparr>clientApplications := (clientApplications ?rt1)(''app'' \<mapsto> ?c)\<rparr>"
  have "vardis_step 8 ?rt ?rt1"
    using vardis_step.command [of ?rt ?cmd 8] c raws by (simp add: initial_vardis_def command_ok_def)
  moreover have "vardis_step 8 ?rt1 ?rt2"
    by (rule vardis_step.client_call) (use create_7_ok(2) in \<open>simp_all add: initial_vardis_def wf_RTDB_Create_Request_def\<close>)
  ultimately have r: "(vardis_step 8)\<^sup>*\<^sup>* ?rt ?rt2" by simp
  have safe: "safe_vardis 8 ?rt2"
    by (rule vardis_runtime_invariant [OF fresh_node(1) [of node_A]]) (use r in \<open>simp_all add: fresh_node_def initial_vardis_def\<close>)
  have app: "clientApplications ?rt2 ''app'' = Some ?c" by simp
  then have "segment_safe 8 (vc_pSCS ?c)" using safe unfolding safe_vardis_def by blast
  with r safe app show ?thesis by blast
qed

text \<open>C15. An application that does not take its confirms ends the demon: when its create-confirm queue is full and it has sent one more
  create request, the demon carries the request out, drops the confirm, and sets its exit flag, for all applications.\<close>

theorem unread_confirms_stop_demon:
  assumes "wf_vardis csz rt" "\<not> vardis_exitFlag rt" "get_vardis_isactive (vardis_store (protocol_data rt))"
    "clientApplications rt name = Some c" "5 \<le> csz" "\<forall>k. owns k"
    "seg_msgs (vc_pSCS c) = ([enc_RTDB_Create_Request r], [], [], cc, [], [])" "length cc = maxServicePrimitiveQueueLength" "described r"
  shows "\<exists>k' rt' c'. handle_client_shared_memory csz owns clock name (k, rt) = (Inr (), (k', rt')) \<and> vardis_exitFlag rt'
    \<and> handle_rtdb_create_request (clock (Suc k)) (clock (Suc (Suc k))) r (protocol_data rt)
        = (Inr (RTDB_Create_Confirm (create_status (protocol_data rt) r) (spec_varId (crq_spec r))), protocol_data rt')
    \<and> clientApplications rt' name = Some c' \<and> seg_msgs (vc_pSCS c') = ([], [], [], cc, [], [])"
proof -
  have ok: "segment_ok csz (vc_pSCS c)" "wf_pd (protocol_data rt)" using assms(1,4) by (auto simp: wf_vardis_def)
  obtain pd' where pd': "handle_rtdb_create_request (clock (Suc k)) (clock (Suc (Suc k))) r (protocol_data rt)
      = (Inr (RTDB_Create_Confirm (create_status (protocol_data rt) r) (spec_varId (crq_spec r))), pd')"
    using create_answered [OF assms(9) ok(2)] by blast
  obtain k' CS' where "serve_segment csz owns clock (k, protocol_data rt, False, vc_pSCS c) = (Inr (), (k', pd', True, CS'))"
    "seg_msgs CS' = ([], [], [], cc, [], [])"
    by (rule create_unconfirmed [OF ok(1) assms(7,8,9) ok(2) assms(5,6) _ _ pd']) simp_all
  then show ?thesis using served_client [OF _ assms(2-4)] pd' by fastforce
qed

theorem unread_confirms_stop_demon_witness:
  "\<exists>rt k' rt'. wf_vardis 8 rt \<and> \<not> vardis_exitFlag rt
    \<and> handle_client_shared_memory 8 (\<lambda>_. True) (\<lambda>_. 1000) ''app'' (0, rt) = (Inr (), (k', rt')) \<and> vardis_exitFlag rt'"
proof -
  let ?conf = "RTDB_Create_Confirm VARDIS_STATUS_OK 7"
  obtain CS where CS: "segment_ok 8 CS"
    "seg_msgs CS = (map enc_RTDB_Create_Request [create_7], map enc_RTDB_Id_Request [], map enc_RTDB_Update_Request [],
       map enc_RTDB_Confirm (replicate maxServicePrimitiveQueueLength ?conf), [], [])"
    by (rule filled_segment [of "[create_7]" "[]" "[]" "replicate maxServicePrimitiveQueueLength ?conf"])
      (simp_all add: create_7_ok(2) maxServicePrimitiveQueueLength_def)
  let ?c = "\<lparr>vc_clientName = ''app'', vc_pSCS = CS\<rparr>" and ?a = "fresh_node node_A"
  let ?rt = "\<lparr>protocol_data = ?a, vardis_exitFlag = False, clientApplications = [''app'' \<mapsto> ?c]\<rparr>"
  have d: "described create_7" using create_7_ok(2) by (simp add: described_def) (simp add: create_7_def)
  have wf: "wf_vardis 8 ?rt" using CS(1) by (simp add: wf_vardis_def fresh_node)
  show ?thesis
    using unread_confirms_stop_demon [OF wf _ _ _ _ _ _ _ d, where name = "''app''" and c = ?c and owns = "\<lambda>_. True" and k = 0 and clock = "\<lambda>_. 1000"]
      CS(2) wf by (fastforce simp: fresh_node)
qed

text \<open>C16. A late confirm breaks the next call: when a confirm is still in the queue, because an earlier call timed out, the next create
  call resets the queue, which leaves its flag set, sends the request, and unless the demon has answered in the meantime it ends with
  a ring buffer exception; the request stays in the queue and will be carried out.\<close>

theorem stale_confirm_breaks_call:
  assumes "segment_ok csz CS" "shm_msgs (pqCreateRequest CS) = []" "shm_msgs (pqCreateConfirm CS) \<noteq> []"
    "wf_VarSpecT spec" "wf_VarValueT val" "rc_owns_request call" "rc_owns_confirm call"
  shows "\<exists>CS'. rtdb_create spec val call id (d, CS) = (Inl RingBufferException, (d, CS'))
    \<and> shm_msgs (pqCreateRequest CS') = [enc_RTDB_Create_Request \<lparr>crq_s_type = stVardis_RTDB_Create, crq_spec = spec, crq_value = val\<rparr>]"
  by (rule create_meets_old_confirm [OF assms])

theorem stale_confirm_breaks_call_witness:
  "\<exists>CS CS'. segment_ok 8 CS \<and> rtdb_create (crq_spec create_7) (crq_value create_7) prompt_call id ((), CS) = (Inl RingBufferException, ((), CS'))"
proof -
  let ?conf = "RTDB_Create_Confirm VARDIS_STATUS_OK 7"
  obtain CS where CS: "segment_ok 8 CS"
    "seg_msgs CS = (map enc_RTDB_Create_Request [], map enc_RTDB_Id_Request [], map enc_RTDB_Update_Request [],
       map enc_RTDB_Confirm [?conf], [], [])"
    by (rule filled_segment [of "[]" "[]" "[]" "[?conf]"]) (simp_all add: maxServicePrimitiveQueueLength_def)
  have "wf_VarSpecT (crq_spec create_7)" "wf_VarValueT (crq_value create_7)"
    using create_7_ok(2) by (simp_all add: wf_RTDB_Create_Request_def)
  from stale_confirm_breaks_call [OF CS(1) _ _ this, where call = prompt_call and d = "()"] CS
  show ?thesis by (auto simp: seg_msgs_def prompt_call_def)
qed

section \<open>Commands\<close>

text \<open>C17. A silent client ends the demon: when a client connects to the command socket and closes the connection without sending
  anything, the round of the command thread ends normally but leaves the data socket in use, so that the next round sets the
  exit flag of the demon.\<close>

theorem silent_client_stops_demon:
  assumes "data_socket c = -1" "is_open c" "\<not> vardis_exitFlag rt"
    "sys_select S (the_command_socket c) (milliseconds_to_timeval (socketTimeoutMS c)) w = (rv, w1)" "0 < rv"
    "sys_accept S (the_command_socket c) w1 = (fd, w2)" "0 \<le> fd"
    "sys_read S fd vardisCommandSocketBufferSize w2 = ((0, bs), w3)"
  shows "vardis_command_thread_round S s_type_of decode img csz (w, c, rt) = (w3, c\<lparr>data_socket := fd\<rparr>, rt)
    \<and> vardis_command_thread_round S s_type_of decode img csz (w3, c\<lparr>data_socket := fd\<rparr>, rt)
      = (w3, c\<lparr>data_socket := fd\<rparr>, rt\<lparr>vardis_exitFlag := True\<rparr>)"
proof -
  have l: "flag_lens vardis_exitFlag (\<lambda>x rt. rt\<lparr>vardis_exitFlag := x\<rparr> :: VardisRuntimeData)" by (simp add: flag_lens_def)
  show ?thesis
    using assms(7) by (simp add: vardis_command_thread_round_def vardis_command_round_def command_round_silent [OF l assms(1,2,4-8)]
        command_round_in_use)
qed

theorem silent_client_stops_demon_witness:
  "(let S = stream_sockets []; rt = initial_vardis (fresh_node node_A);
        s1 = vardis_command_thread_round S (\<lambda>_. 0) (\<lambda>_ _ _. VardisShutdown) example_image 8 ([], example_socket, rt);
        s2 = vardis_command_thread_round S (\<lambda>_. 0) (\<lambda>_ _ _. VardisShutdown) example_image 8 s1
    in \<not> vardis_exitFlag (snd (snd s1)) \<and> vardis_exitFlag (snd (snd s2)))"
proof -
  let ?S = "stream_sockets []" and ?rt = "initial_vardis (fresh_node node_A)"
  have h: "data_socket example_socket = -1" "is_open example_socket" "\<not> vardis_exitFlag ?rt"
    "sys_select ?S (the_command_socket example_socket) (milliseconds_to_timeval (socketTimeoutMS example_socket)) [] = (1, [])"
    "sys_accept ?S (the_command_socket example_socket) [] = (5, [])" "sys_read ?S 5 vardisCommandSocketBufferSize [] = ((0, []), [])"
    by (simp_all add: example_socket_def is_open_def initial_vardis_def stream_sockets_def)
  from silent_client_stops_demon [OF h(1-4) _ h(5) _ h(6)] h(3) show ?thesis by (simp add: Let_def)
qed

text \<open>C18. The database as an application sees it: when the demon answers a command to describe its database and the client reads
  the answer from the socket, in whatever pieces it arrives, the client gets exactly one description per variable the demon holds,
  in ascending order, each with what the demon has stored about the variable.\<close>

theorem describe_database_end_to_end:
  assumes "wf_pd (protocol_data rt)" "length junk = MAX_maxDescriptionLength + 1" "layouts_agree L img"
    "handleVardisRTDBDescribeDatabaseRequest junk (Some ()) rt = (Inr msgs, rt')"
    "connected S img (vcl_commandSock cl) (cl_simple_request L stVardis_RTDB_DescribeDatabase) msgs w fd pending"
  shows "\<exists>w'. rt' = rt \<and> describe_database L S (w, cl) = (Inr (VARDIS_STATUS_OK,
      map (database_description junk (protocol_data rt)) (sorted_list_of_set {i. used (protocol_data rt) i})), (w', cl))"
proof -
  let ?vars = "sorted_list_of_set {i. used (protocol_data rt) i}" and ?d = "database_description junk (protocol_data rt)"
  have m: "msgs = VardisDescribeDatabase_Confirm VARDIS_STATUS_OK (length (map ?d ?vars)) # map VariableDescription (map ?d ?vars)" "rt' = rt"
    using assms(4) by (auto simp: describe_database_ok [OF assms(1,2)] Let_def comp_def)
  have "card {i. used (protocol_data rt) i} \<le> 256" using card_mono [of "UNIV :: VarIdT set" "{i. used (protocol_data rt) i}"] by (simp add: card_word)
  then have n: "length (map ?d ?vars) < 2 ^ 64" by simp
  have "length (dd_description (?d i)) = MAX_maxDescriptionLength + 1" if "used (protocol_data rt) i" for i
    using var_lengths(1) [OF assms(1) that] assms(2) by (simp add: database_description_def)
  then have "\<forall>d \<in> set (map ?d ?vars). length (dd_description d) = MAX_maxDescriptionLength + 1" by simp
  from describe_database_receives [OF assms(3) n this assms(5) [unfolded m(1)]] m(2) show ?thesis by blast
qed

theorem describe_database_end_to_end_witness:
  "\<exists>msgs w' d. handleVardisRTDBDescribeDatabaseRequest (replicate 256 0) (Some ()) (initial_vardis producer) = (Inr msgs, initial_vardis producer)
    \<and> describe_database example_layout (stream_sockets (concat (map example_image msgs))) ([], example_client)
        = (Inr (VARDIS_STATUS_OK, [d]), (w', example_client))
    \<and> dd_varId d = 7 \<and> dd_prodId d = node_A \<and> take 3 (dd_description d) = [116, 101, 0]"
proof -
  let ?rt = "initial_vardis producer" and ?junk = "replicate 256 (0 :: u8)"
  have wf: "wf_pd (protocol_data ?rt)" "length ?junk = MAX_maxDescriptionLength + 1"
    by (simp_all add: initial_vardis_def producer MAX_maxDescriptionLength_def)
  define msgs where "msgs = VardisDescribeDatabase_Confirm VARDIS_STATUS_OK 1 # map VariableDescription [database_description ?junk producer 7]"
  have v: "{i. used (protocol_data ?rt) i} = {7}" by (auto simp: initial_vardis_def producer)
  have h: "handleVardisRTDBDescribeDatabaseRequest ?junk (Some ()) ?rt = (Inr msgs, ?rt)"
    by (simp add: describe_database_ok [OF wf] v msgs_def) (simp add: initial_vardis_def)
  have c: "connected (stream_sockets (concat (map example_image msgs))) example_image (vcl_commandSock example_client)
      (cl_simple_request example_layout stVardis_RTDB_DescribeDatabase) msgs [] 3 (\<lambda>w. w)"
    by (simp add: example_client_def stream_connected)
  have d: "dd_varId (database_description ?junk producer 7) = 7" "dd_prodId (database_description ?junk producer 7) = node_A"
    "take 3 (dd_description (database_description ?junk producer 7)) = [116, 101, 0]"
    by (simp_all add: database_description_def producer own_entry_def)
  from describe_database_end_to_end [OF wf examples_agree h c] h d show ?thesis
    by (simp add: v) (auto simp: initial_vardis_def)
qed

text \<open>A response arrives whole: whatever pieces the reads of the socket give, \<open>read_whole_response\<close> collects what the peer has
  written, up to the size of the buffer; what is beyond is not read.\<close>

lemma response_reassembled:
  assumes "peer_stream S fd pending" "0 \<le> fd"
  shows "\<exists>w'. read_whole_response S buffer_len max_attempts (w, fd)
      = (Inr (min buffer_len (length (pending w)), take buffer_len (pending w)), (w', fd)) \<and> pending w' = drop buffer_len (pending w)"
  by (rule read_whole_response_stream [OF assms]) blast

text \<open>C19. Reading a response ends: whatever the peer and the operating system do, within what POSIX promises of \<open>read\<close>,
  \<open>read_whole_response\<close> returns after at most twice as many system calls as the buffer has bytes, and two more, and never with
  more bytes than the buffer holds.\<close>

theorem response_ends:
  assumes "posix_read S" "counts_calls S calls" "read_whole_response S buffer_len max_attempts (w, fd) = (r, (w', fd'))"
  shows "calls w' \<le> calls w + 2 * buffer_len + 2 \<and> fd' = fd \<and> (\<forall>n bs. r = Inr (n, bs) \<longrightarrow> n \<le> buffer_len \<and> length bs = n)"
proof (cases "fd < 0")
  case True
  then show ?thesis using assms(3) by (auto simp: read_whole_response_def)
next
  case False
  then have "read_rounds S fd buffer_len max_attempts 0 0 [] w = (r, w')" "fd' = fd"
    using assms(3) by (auto simp: read_whole_response_def split: prod.splits)
  with read_rounds_calls [OF assms(1,2) _ _ this(1)] show ?thesis by simp
qed

theorem response_ends_witness:
  "\<exists>r w'. read_whole_response ((stream_sockets [])\<lparr>sys_select := \<lambda>_ _ w. (1, 0 # w), sys_read := \<lambda>_ n w. ((int n, replicate n 9), 0 # w)\<rparr>) 5 1
      ([], 3) = (r, (w', 3)) \<and> length w' \<le> 12"
proof -
  let ?S = "(stream_sockets [])\<lparr>sys_select := \<lambda>_ _ w. (1, 0 # w), sys_read := \<lambda>_ n w. ((int n, replicate n 9), 0 # w)\<rparr>"
  obtain r w' fd' where r: "read_whole_response ?S 5 1 ([], 3) = (r, (w', fd'))"
    by (cases "read_whole_response ?S 5 1 ([], 3)"; cases "snd (read_whole_response ?S 5 1 ([], 3))") simp
  have "posix_read ?S" "counts_calls ?S length" by (simp_all add: posix_read_def counts_calls_def)
  from response_ends [OF this r] r show ?thesis by simp
qed

end
