(* ===== verification/SimBp.thy ===== *)
theory SimBp
  imports BpBeacon
begin

text \<open>
  The beaconing protocol of the simulation, \<open>dcpsimulation/src/dcpsim/bp/BeaconingProtocol.cc\<close> (paths
  relative to \<open>dcp-vardis-project\<close>).  It is a module of the simulator OMNeT++: the simulator calls a handler for each
  message that arrives, and the handler sends messages.  It uses the wire formats of the implementation.

  State: the members of the module, and the list of what it has sent, in order.  The simulation time (a number
  of ticks) and the random beacon period are arguments.  A payload is a byte list; as the code notes,
  the simulator merges the chunks that are put into a packet.  \<open>error\<close> and a failing \<open>assert\<close> end the simulation and are exceptions here.
\<close>

section \<open>Messages\<close>

type_synonym simtime_t = int

text \<open>The protocols that are known to the message dispatcher.\<close>

datatype sim_protocol = protocolDcpSRP | protocolDcpVardis

definition convertProtocolIdToProtocol :: "BPProtocolIdT \<Rightarrow> ('s, sim_protocol) action" where
  "convertProtocolIdToProtocol protId =
     (if protId = BP_PROTID_SRP then retE protocolDcpSRP
      else if protId = BP_PROTID_VARDIS then retE protocolDcpVardis
      else throwE cRuntimeError)"

datatype bp_request =
    RegisterProtocol_Request (rq_protId: int) string int BPQueueingMode int bool
  | DeregisterProtocol_Request (rq_protId: int)
  | TransmitPayload_Request (rq_protId: int) "u8 list"
  | ClearBuffer_Request (rq_protId: int)
  | QueryNumberBufferedPayloads_Request (rq_protId: int)

datatype bp_message =
    RegisterProtocol_Confirm DcpStatus NodeIdentifierT
  | DeregisterProtocol_Confirm DcpStatus
  | TransmitPayload_Confirm DcpStatus
  | ClearBuffer_Confirm DcpStatus
  | QueryNumberBufferedPayloads_Confirm DcpStatus int int
  | PayloadTransmitted_Indication int simtime_t
  | ReceivePayload_Indication int "u8 list"

datatype bp_output =
    ToClient sim_protocol bp_message
  | ToUWB "u8 list"
  | ScheduleBeacon simtime_t

section \<open>Data\<close>

record SimClientProtocolData =
  sc_protocolId :: BPProtocolIdT
  sc_protocolName :: string
  sc_maxPayloadSizeB :: BPLengthT
  sc_queueMode :: BPQueueingMode
  sc_maxEntries :: u32
  sc_timeStampRegistration :: TimeStampT
  sc_queue :: "u8 list list"
  sc_bufferOccupied :: bool
  sc_bufferEntry :: "u8 list option"
  sc_allowMultiplePayloads :: bool

record RegisteredProtocol =
  rp_protId :: BPProtocolIdT
  rp_protData :: SimClientProtocolData
  rp_protProtocol :: sim_protocol

record sim_bp =
  sb_ownNodeId :: NodeIdentifierT
  sb_networkIdentifier :: BPNetworkIdentifierT
  sb_maximumPacketSizeB :: BPLengthT
  sb_seqno :: u32
  sb_registeredProtocols :: "BPProtocolIdT \<rightharpoonup> RegisteredProtocol"
  sb_sent :: "bp_output list"

definition sim_bp_send :: "bp_output \<Rightarrow> (sim_bp, unit) action" where
  "sim_bp_send m = modifyE (\<lambda>s. s\<lparr>sb_sent := sb_sent s @ [m]\<rparr>)"

definition initialize_BeaconingProtocol ::
  "NodeIdentifierT \<Rightarrow> BPNetworkIdentifierT \<Rightarrow> BPLengthT \<Rightarrow> simtime_t \<Rightarrow> simtime_t \<Rightarrow> dcp_error + sim_bp" where
  "initialize_BeaconingProtocol own netw maxPacketSize now period =
     (if \<not> maxPacketSize > 0 then Inl assertion_failure
      else Inr \<lparr>sb_ownNodeId = own, sb_networkIdentifier = netw, sb_maximumPacketSizeB = maxPacketSize, sb_seqno = 0,
                sb_registeredProtocols = Map.empty, sb_sent = [ScheduleBeacon (now + period)]\<rparr>)"

section \<open>Generation of beacons\<close>

text \<open>
  Sizes are 16-bit numbers, and a sum that is compared with one is one as well.  A null pointer is \<open>None\<close>.
\<close>

definition chunk_length :: "u8 list \<Rightarrow> BPLengthT" where
  "chunk_length ch = of_nat (length ch)"

definition extractFittingPayload :: "BPLengthT \<Rightarrow> BPLengthT \<Rightarrow> (RegisteredProtocol, u8 list option) action" where
  "extractFittingPayload bytesUsed maxBytes = (\<lambda>rp.
     let d = rp_protData rp; remainingBytes = maxBytes - bytesUsed in
     if \<not> bytesUsed \<le> maxBytes then (Inl assertion_failure, rp)
     else if is_queue_mode (sc_queueMode d) \<and> sc_queue d \<noteq> []
          \<and> chunk_length (hd (sc_queue d)) + of_nat BPPayloadHeaderT_fixed_size \<le> remainingBytes then
       (Inr (Some (hd (sc_queue d))), rp\<lparr>rp_protData := d\<lparr>sc_queue := tl (sc_queue d)\<rparr>\<rparr>)
     else if \<not> sc_bufferOccupied d then (Inr None, rp)
     else (case sc_bufferEntry d of
             None \<Rightarrow> (Inl null_pointer, rp)
           | Some thePayload \<Rightarrow>
               if chunk_length thePayload + of_nat BPPayloadHeaderT_fixed_size > remainingBytes then (Inr None, rp)
               else if sc_queueMode d = BP_QMODE_ONCE then
                 (Inr (Some thePayload), rp\<lparr>rp_protData := d\<lparr>sc_bufferEntry := None, sc_bufferOccupied := False\<rparr>\<rparr>)
               else if sc_queueMode d = BP_QMODE_REPEAT then (Inr (Some thePayload), rp)
               else (Inl cRuntimeError, rp)))"

text \<open>What is built up in the course of a beacon; the chunks are a list of headers and payloads in turn.\<close>

record sim_gen =
  sg_bp :: sim_bp
  sg_beaconChunks :: "u8 list list"
  sg_bytesUsed :: BPLengthT
  sg_numPayloadsAdded :: nat

definition payload_header_chunk :: "BPProtocolIdT \<Rightarrow> BPLengthT \<Rightarrow> dcp_error + u8 list" where
  "payload_header_chunk protId payloadSizeB =
     (case ByteVectorAssemblyArea_vect BPPayloadHeaderT_fixed_size (replicate BPPayloadHeaderT_fixed_size 0) of
        Inl e \<Rightarrow> Inl e
      | Inr area \<Rightarrow>
          (case ser_BPPayloadHeaderT \<lparr>ph_protocolId = protId, ph_length = payloadSizeB\<rparr> area of
             (Inl e, _) \<Rightarrow> Inl e
           | (Inr _, area) \<Rightarrow> Inr (take (bytes_used area) (aa_buffer area))))"

definition put_registered :: "BPProtocolIdT \<Rightarrow> RegisteredProtocol \<Rightarrow> sim_bp \<Rightarrow> sim_bp" where
  "put_registered p rp s = s\<lparr>sb_registeredProtocols := (sb_registeredProtocols s)(p \<mapsto> rp)\<rparr>"

definition addPayload :: "BPProtocolIdT \<Rightarrow> BPLengthT \<Rightarrow> simtime_t \<Rightarrow> (sim_gen, unit) action" where
  "addPayload p maxBytes nextBeaconGenerationEpoch = (\<lambda>g.
     let rp = the (sb_registeredProtocols (sg_bp g) p); protId = rp_protId rp in
     case extractFittingPayload (sg_bytesUsed g) maxBytes rp of
       (Inl e, rp) \<Rightarrow> (Inl e, g)
     | (Inr None, rp) \<Rightarrow> (Inr (), g)
     | (Inr (Some thePayload), rp) \<Rightarrow>
         bindE (modifyE (\<lambda>g. g\<lparr>sg_bp := put_registered p rp (sg_bp g)\<rparr>)) (\<lambda>_.
         case payload_header_chunk protId (chunk_length thePayload) of
           Inl e \<Rightarrow> throwE e
         | Inr payloadHeader \<Rightarrow>
             bindE (modifyE (\<lambda>g. g\<lparr>sg_beaconChunks := sg_beaconChunks g @ [payloadHeader, thePayload],
                        sg_bytesUsed := sg_bytesUsed g + of_nat BPPayloadHeaderT_fixed_size + chunk_length thePayload,
                        sg_numPayloadsAdded := sg_numPayloadsAdded g + 1\<rparr>)) (\<lambda>_.
             bindE (convertProtocolIdToProtocol protId) (\<lambda>theProtocol.
             zoomE sg_bp (\<lambda>s g. g\<lparr>sg_bp := s\<rparr>)
               (sim_bp_send (ToClient theProtocol (PayloadTransmitted_Indication (uint protId) nextBeaconGenerationEpoch)))))) g)"

definition sim_beacon_header :: "sim_bp \<Rightarrow> nat \<Rightarrow> BPHeaderT" where
  "sim_beacon_header s numChunks =
     \<lparr>bh_version = bpHeaderVersion, bh_magicNo = bpMagicNo, bh_senderId = sb_ownNodeId s,
      bh_networkId = sb_networkIdentifier s, bh_length = of_nat BPHeaderT_fixed_size,
      bh_numPayloads = of_nat (numChunks div 2), bh_seqno = sb_seqno s\<rparr>"

definition constructAndTransmitBeacon :: "u8 list list \<Rightarrow> (sim_bp, unit) action" where
  "constructAndTransmitBeacon beaconChunks = (\<lambda>s.
     if beaconChunks = [] then (Inr (), s)
     else case ByteVectorAssemblyArea_vect BPHeaderT_fixed_size (replicate BPHeaderT_fixed_size 0) of
            Inl e \<Rightarrow> (Inl e, s)
          | Inr area \<Rightarrow>
              (let bpHdr = sim_beacon_header s (length beaconChunks); s = s\<lparr>sb_seqno := sb_seqno s + 1\<rparr> in
               case ser_BPHeaderT bpHdr area of
                 (Inl e, _) \<Rightarrow> (Inl e, s)
               | (Inr _, area) \<Rightarrow>
                   sim_bp_send (ToUWB (concat (take (bytes_used area) (aa_buffer area) # beaconChunks))) s))"

text \<open>The protocols in the order of the map.\<close>

definition sim_protocol_ids :: "sim_bp \<Rightarrow> BPProtocolIdT list" where
  "sim_protocol_ids s = sorted_list_of_set (dom (sb_registeredProtocols s))"

definition handleGenerateBeaconMsg :: "simtime_t \<Rightarrow> simtime_t \<Rightarrow> (sim_bp, unit) action" where
  "handleGenerateBeaconMsg now period = (\<lambda>s.
     let nextBeaconGenerationEpoch = now + period in
     bindE (sim_bp_send (ScheduleBeacon nextBeaconGenerationEpoch)) (\<lambda>_ s.
     if dom (sb_registeredProtocols s) = {} then (Inr (), s)
     else (case forE (\<lambda>p. addPayload p (sb_maximumPacketSizeB s) nextBeaconGenerationEpoch) (sim_protocol_ids s)
                  \<lparr>sg_bp = s, sg_beaconChunks = [], sg_bytesUsed = of_nat BPHeaderT_fixed_size, sg_numPayloadsAdded = 0\<rparr> of
             (Inl e, g) \<Rightarrow> (Inl e, sg_bp g)
           | (Inr _, g) \<Rightarrow>
               if length (sg_beaconChunks g) mod 2 \<noteq> 0 then (Inl assertion_failure, sg_bp g)
               else if sg_numPayloadsAdded g > 0 then constructAndTransmitBeacon (sg_beaconChunks g) (sg_bp g)
               else (Inr (), sg_bp g))) s)"
section \<open>Received packets\<close>

text \<open>
  A packet is a list of chunks.  The loop over the payloads of a beacon; the block of a payload is read into a vector
  of its length.
\<close>

fun sim_receive_payloads :: "nat \<Rightarrow> (da \<times> sim_bp, unit) action" where
  "sim_receive_payloads 0 = retE ()"
| "sim_receive_payloads (Suc n) =
     bindE (zoomE fst (\<lambda>a (_, s). (a, s)) des_BPPayloadHeaderT) (\<lambda>bpPHdr.
     bindE (convertProtocolIdToProtocol (ph_protocolId bpPHdr)) (\<lambda>theProtocol.
     bindE (zoomE fst (\<lambda>a (_, s). (a, s))
       (deserialize_byte_block (unat (ph_length bpPHdr)) (Some (replicate (unat (ph_length bpPHdr)) 0)))) (\<lambda>bvPld.
     bindE (zoomE snd (\<lambda>s (a, _). (a, s))
       (sim_bp_send (ToClient theProtocol (ReceivePayload_Indication (uint (ph_protocolId bpPHdr)) bvPld)))) (\<lambda>_.
     sim_receive_payloads n))))"

definition handleReceivedPacket :: "u8 list list \<Rightarrow> (sim_bp, unit) action" where
  "handleReceivedPacket packet = (\<lambda>s.
     case packet of
       [] \<Rightarrow> (Inl cRuntimeError, s)
     | bvPacket # leftover \<Rightarrow>
         (case des_BPHeaderT (ByteVectorDisassemblyArea bvPacket) of
            (Inl e, _) \<Rightarrow> (Inl e, s)
          | (Inr bpHdr, area) \<Rightarrow>
              if \<not> isWellFormed bpHdr (sb_ownNodeId s) (sb_networkIdentifier s) then (Inl cRuntimeError, s)
              else (case sim_receive_payloads (unat (bh_numPayloads bpHdr)) (area, s) of
                      (Inl e, (_, s)) \<Rightarrow> (Inl e, s)
                    | (Inr _, (_, s)) \<Rightarrow> if leftover \<noteq> [] then (Inl cRuntimeError, s) else (Inr (), s))))"

section \<open>Requests of client protocols\<close>

definition clientProtocolRegistered :: "BPProtocolIdT \<Rightarrow> sim_bp \<Rightarrow> bool" where
  "clientProtocolRegistered protocolId s \<longleftrightarrow> sb_registeredProtocols s protocolId \<noteq> None"

abbreviation confirm_to :: "sim_protocol \<Rightarrow> bp_message \<Rightarrow> (sim_bp, unit) action" where
  "confirm_to theProtocol conf \<equiv> sim_bp_send (ToClient theProtocol conf)"

definition sendRegisterProtocolConfirm :: "DcpStatus \<Rightarrow> sim_protocol \<Rightarrow> (sim_bp, unit) action" where
  "sendRegisterProtocolConfirm status theProtocol =
     bindE (getE sb_ownNodeId) (\<lambda>own. confirm_to theProtocol (RegisterProtocol_Confirm status own))"

text \<open>Times of registration are readings of the system clock.\<close>

definition handleRegisterProtocolRequestMsg ::
  "TimeStampT \<Rightarrow> int \<Rightarrow> string \<Rightarrow> int \<Rightarrow> BPQueueingMode \<Rightarrow> int \<Rightarrow> bool \<Rightarrow> (sim_bp, unit) action" where
  "handleRegisterProtocolRequestMsg system_time protId protName maxPayloadSize queueingMode maxEntries allowMultiplePayloads =
     (let protocolId = word_of_int protId;
          clientProtData = \<lparr>sc_protocolId = protocolId, sc_protocolName = protName, sc_maxPayloadSizeB = word_of_int maxPayloadSize,
            sc_queueMode = queueingMode, sc_maxEntries = word_of_int maxEntries, sc_timeStampRegistration = system_time, sc_queue = [],
            sc_bufferOccupied = False, sc_bufferEntry = None, sc_allowMultiplePayloads = allowMultiplePayloads\<rparr> in
      bindE (convertProtocolIdToProtocol protocolId) (\<lambda>theProtocol s.
      (if clientProtocolRegistered protocolId s then sendRegisterProtocolConfirm BP_STATUS_PROTOCOL_ALREADY_REGISTERED theProtocol
       else if sc_maxPayloadSizeB clientProtData \<le> 0 then sendRegisterProtocolConfirm BP_STATUS_ILLEGAL_MAX_PAYLOAD_SIZE theProtocol
       else if sc_maxPayloadSizeB clientProtData > sb_maximumPacketSizeB s - of_nat (BPHeaderT_fixed_size + BPPayloadHeaderT_fixed_size) then
         sendRegisterProtocolConfirm BP_STATUS_ILLEGAL_MAX_PAYLOAD_SIZE theProtocol
       else if is_queue_mode (sc_queueMode clientProtData) \<and> sc_maxEntries clientProtData \<le> 0 then
         sendRegisterProtocolConfirm BP_STATUS_ILLEGAL_DROPPING_QUEUE_SIZE theProtocol
       else
         bindE (modifyE (put_registered protocolId
                  \<lparr>rp_protId = protocolId, rp_protData = clientProtData, rp_protProtocol = theProtocol\<rparr>)) (\<lambda>_.
         sendRegisterProtocolConfirm BP_STATUS_OK theProtocol)) s))"

definition handleDeregisterProtocolRequestMsg :: "int \<Rightarrow> (sim_bp, unit) action" where
  "handleDeregisterProtocolRequestMsg protId =
     (let protocolId = word_of_int protId in
      bindE (convertProtocolIdToProtocol protocolId) (\<lambda>theProtocol s.
      (if \<not> clientProtocolRegistered protocolId s then confirm_to theProtocol (DeregisterProtocol_Confirm BP_STATUS_UNKNOWN_PROTOCOL)
       else bindE (modifyE (\<lambda>s. s\<lparr>sb_registeredProtocols := (sb_registeredProtocols s)(protocolId := None)\<rparr>)) (\<lambda>_.
            confirm_to theProtocol (DeregisterProtocol_Confirm BP_STATUS_OK))) s))"

definition set_protData :: "BPProtocolIdT \<Rightarrow> (SimClientProtocolData \<Rightarrow> SimClientProtocolData) \<Rightarrow> (sim_bp, unit) action" where
  "set_protData p f = modifyE (\<lambda>s. let rp = the (sb_registeredProtocols s p) in
     put_registered p (rp\<lparr>rp_protData := f (rp_protData rp)\<rparr>) s)"

definition handleTransmitPayloadRequestMsg :: "int \<Rightarrow> u8 list \<Rightarrow> (sim_bp, unit) action" where
  "handleTransmitPayloadRequestMsg protId dataChunk =
     (let protocolId = word_of_int protId; dataChunkLengthB = chunk_length dataChunk in
      bindE (convertProtocolIdToProtocol protocolId) (\<lambda>theProtocol s.
      (case sb_registeredProtocols s protocolId of
         None \<Rightarrow> confirm_to theProtocol (TransmitPayload_Confirm BP_STATUS_UNKNOWN_PROTOCOL)
       | Some rp \<Rightarrow>
           (let d = rp_protData rp in
            if dataChunkLengthB > sc_maxPayloadSizeB d
               \<or> dataChunkLengthB > sb_maximumPacketSizeB s - of_nat (BPPayloadHeaderT_fixed_size + BPHeaderT_fixed_size)
            then confirm_to theProtocol (TransmitPayload_Confirm BP_STATUS_PAYLOAD_TOO_LARGE)
            else if dataChunkLengthB = 0 then confirm_to theProtocol (TransmitPayload_Confirm BP_STATUS_EMPTY_PAYLOAD)
            else if sc_queueMode d = BP_QMODE_ONCE \<or> sc_queueMode d = BP_QMODE_REPEAT then
              bindE (set_protData protocolId (\<lambda>d. d\<lparr>sc_bufferOccupied := True, sc_bufferEntry := Some dataChunk\<rparr>)) (\<lambda>_.
              confirm_to theProtocol (TransmitPayload_Confirm BP_STATUS_OK))
            else if is_queue_mode (sc_queueMode d) then
              (if sc_queueMode d = BP_QMODE_QUEUE_DROPTAIL \<and> length (sc_queue d) \<ge> unat (sc_maxEntries d) then
                 confirm_to theProtocol (TransmitPayload_Confirm BP_STATUS_OK)
               else
                 bindE (if sc_queueMode d = BP_QMODE_QUEUE_DROPHEAD \<and> length (sc_queue d) \<ge> unat (sc_maxEntries d)
                        then set_protData protocolId (\<lambda>d. d\<lparr>sc_queue := tl (sc_queue d)\<rparr>) else retE ()) (\<lambda>_.
                 bindE (set_protData protocolId (\<lambda>d. d\<lparr>sc_queue := sc_queue d @ [dataChunk]\<rparr>)) (\<lambda>_.
                 confirm_to theProtocol (TransmitPayload_Confirm BP_STATUS_OK))))
            else throwE cRuntimeError)) s))"

definition handleClearBufferRequestMsg :: "int \<Rightarrow> (sim_bp, unit) action" where
  "handleClearBufferRequestMsg protId =
     (let protocolId = word_of_int protId in
      bindE (convertProtocolIdToProtocol protocolId) (\<lambda>theProtocol s.
      (case sb_registeredProtocols s protocolId of
         None \<Rightarrow> confirm_to theProtocol (TransmitPayload_Confirm BP_STATUS_UNKNOWN_PROTOCOL)
       | Some rp \<Rightarrow>
           if sc_queueMode (rp_protData rp) = BP_QMODE_ONCE \<or> sc_queueMode (rp_protData rp) = BP_QMODE_REPEAT then
             bindE (set_protData protocolId (\<lambda>d. d\<lparr>sc_bufferOccupied := False, sc_bufferEntry := None\<rparr>)) (\<lambda>_.
             confirm_to theProtocol (ClearBuffer_Confirm BP_STATUS_OK))
           else if is_queue_mode (sc_queueMode (rp_protData rp)) then
             bindE (set_protData protocolId (\<lambda>d. d\<lparr>sc_queue := []\<rparr>)) (\<lambda>_.
             confirm_to theProtocol (ClearBuffer_Confirm BP_STATUS_OK))
           else bindE (confirm_to theProtocol (ClearBuffer_Confirm BP_STATUS_UNKNOWN_QUEUEING_MODE)) (\<lambda>_. throwE cRuntimeError)) s))"

definition handleQueryNumberBufferedPayloadsRequestMsg :: "int \<Rightarrow> (sim_bp, unit) action" where
  "handleQueryNumberBufferedPayloadsRequestMsg protId =
     (let protocolId = word_of_int protId in
      bindE (convertProtocolIdToProtocol protocolId) (\<lambda>theProtocol s.
      (case sb_registeredProtocols s protocolId of
         None \<Rightarrow> confirm_to theProtocol (QueryNumberBufferedPayloads_Confirm BP_STATUS_UNKNOWN_PROTOCOL (uint protocolId) 0)
       | Some rp \<Rightarrow>
           if sc_queueMode (rp_protData rp) = BP_QMODE_ONCE \<or> sc_queueMode (rp_protData rp) = BP_QMODE_REPEAT then
             confirm_to theProtocol (QueryNumberBufferedPayloads_Confirm BP_STATUS_OK (uint protocolId)
               (if sc_bufferOccupied (rp_protData rp) then 1 else 0))
           else if is_queue_mode (sc_queueMode (rp_protData rp)) then
             confirm_to theProtocol (QueryNumberBufferedPayloads_Confirm BP_STATUS_OK (uint protocolId)
               (int (length (sc_queue (rp_protData rp)))))
           else throwE cRuntimeError) s))"

text \<open>The dispatcher does not know the request to clear the buffer.\<close>

fun handleClientMessage :: "TimeStampT \<Rightarrow> bp_request \<Rightarrow> (sim_bp, unit) action" where
  "handleClientMessage system_time (RegisterProtocol_Request protId protName maxPayloadSize queueingMode maxEntries allowMultiplePayloads) =
     handleRegisterProtocolRequestMsg system_time protId protName maxPayloadSize queueingMode maxEntries allowMultiplePayloads"
| "handleClientMessage system_time (DeregisterProtocol_Request protId) = handleDeregisterProtocolRequestMsg protId"
| "handleClientMessage system_time (TransmitPayload_Request protId bvdata) = handleTransmitPayloadRequestMsg protId bvdata"
| "handleClientMessage system_time (QueryNumberBufferedPayloads_Request protId) = handleQueryNumberBufferedPayloadsRequestMsg protId"
| "handleClientMessage system_time (ClearBuffer_Request protId) = throwE cRuntimeError"

section \<open>The module\<close>

datatype bp_event =
    FromClient TimeStampT bp_request
  | FromUWB "u8 list list"
  | GenerateBeacon simtime_t simtime_t

fun sim_bp_handleMessage :: "bp_event \<Rightarrow> (sim_bp, unit) action" where
  "sim_bp_handleMessage (FromClient system_time req) = handleClientMessage system_time req"
| "sim_bp_handleMessage (FromUWB packet) = handleReceivedPacket packet"
| "sim_bp_handleMessage (GenerateBeacon now period) = handleGenerateBeaconMsg now period"

end
