(* ===== verification/SimBeacon.thy ===== *)
theory SimBeacon
  imports SimBp
begin

text \<open>
  Correctness of the simulated beaconing protocol: the invariant of its members, what it puts into a
  beacon, and what a receiver makes of that beacon.
\<close>

section \<open>The invariant\<close>

definition sim_buffered :: "SimClientProtocolData \<Rightarrow> u8 list list" where
  "sim_buffered d = sc_queue d @ (case sc_bufferEntry d of None \<Rightarrow> [] | Some pl \<Rightarrow> [pl])"

definition sim_protocol_of :: "BPProtocolIdT \<Rightarrow> sim_protocol" where
  "sim_protocol_of p = (if p = BP_PROTID_SRP then protocolDcpSRP else protocolDcpVardis)"

abbreviation sim_known :: "BPProtocolIdT \<Rightarrow> bool" where
  "sim_known p \<equiv> p = BP_PROTID_SRP \<or> p = BP_PROTID_VARDIS"

definition sim_data_ok :: "nat \<Rightarrow> SimClientProtocolData \<Rightarrow> bool" where
  "sim_data_ok limit d \<longleftrightarrow> unat (sc_maxPayloadSizeB d) \<le> limit
     \<and> (\<forall>pl \<in> set (sim_buffered d). pl \<noteq> [] \<and> length pl \<le> unat (sc_maxPayloadSizeB d))
     \<and> (sc_bufferOccupied d \<longleftrightarrow> sc_bufferEntry d \<noteq> None)
     \<and> (sc_bufferOccupied d \<longrightarrow> sc_queueMode d = BP_QMODE_ONCE \<or> sc_queueMode d = BP_QMODE_REPEAT)
     \<and> (sc_queue d \<noteq> [] \<longrightarrow> is_queue_mode (sc_queueMode d))
     \<and> (is_queue_mode (sc_queueMode d) \<longrightarrow> 0 < unat (sc_maxEntries d))
     \<and> length (sc_queue d) \<le> unat (sc_maxEntries d)"

definition sim_client_ok :: "nat \<Rightarrow> BPProtocolIdT \<Rightarrow> RegisteredProtocol \<Rightarrow> bool" where
  "sim_client_ok limit p rp \<longleftrightarrow> rp_protId rp = p \<and> sim_known p \<and> rp_protProtocol rp = sim_protocol_of p
     \<and> sim_data_ok limit (rp_protData rp)"

text \<open>The largest packet has room for the headers.\<close>

definition sim_limit :: "sim_bp \<Rightarrow> nat" where
  "sim_limit s = unat (sb_maximumPacketSizeB s) - (BPHeaderT_fixed_size + BPPayloadHeaderT_fixed_size)"

definition sim_bp_ok :: "sim_bp \<Rightarrow> bool" where
  "sim_bp_ok s \<longleftrightarrow> BPHeaderT_fixed_size + BPPayloadHeaderT_fixed_size \<le> unat (sb_maximumPacketSizeB s)
     \<and> (\<forall>p rp. sb_registeredProtocols s p = Some rp \<longrightarrow> sim_client_ok (sim_limit s) p rp)"

lemma sim_limit_bound: "sim_limit s + BPHeaderT_fixed_size + BPPayloadHeaderT_fixed_size < 65536" if "sim_bp_ok s"
  using that unat_u16_less [of "sb_maximumPacketSizeB s"] by (simp add: sim_bp_ok_def sim_limit_def)

lemma sim_ids:
  assumes "sim_bp_ok s"
  shows "finite (dom (sb_registeredProtocols s))" "set (sim_protocol_ids s) = dom (sb_registeredProtocols s)"
    "distinct (sim_protocol_ids s)"
proof -
  have "dom (sb_registeredProtocols s) \<subseteq> {BP_PROTID_SRP, BP_PROTID_VARDIS}"
    using assms by (auto simp: sim_bp_ok_def sim_client_ok_def)
  then show f: "finite (dom (sb_registeredProtocols s))" by (rule finite_subset) simp
  show "set (sim_protocol_ids s) = dom (sb_registeredProtocols s)" "distinct (sim_protocol_ids s)"
    using f by (simp_all add: sim_protocol_ids_def)
qed

lemma convert_known [simp]: "sim_known p \<Longrightarrow> convertProtocolIdToProtocol p = retE (sim_protocol_of p)"
  by (auto simp: convertProtocolIdToProtocol_def sim_protocol_of_def)

section \<open>What goes into a beacon\<close>

text \<open>The reference: the oldest payload of each protocol in turn, if there is room for it.\<close>

definition sim_pending :: "RegisteredProtocol \<Rightarrow> u8 list option" where
  "sim_pending rp = (case sim_buffered (rp_protData rp) of [] \<Rightarrow> None | pl # _ \<Rightarrow> Some pl)"

definition sim_taken :: "RegisteredProtocol \<Rightarrow> RegisteredProtocol" where
  "sim_taken rp = rp\<lparr>rp_protData := (let d = rp_protData rp in
     if is_queue_mode (sc_queueMode d) then d\<lparr>sc_queue := tl (sc_queue d)\<rparr>
     else if sc_queueMode d = BP_QMODE_ONCE then d\<lparr>sc_bufferEntry := None, sc_bufferOccupied := False\<rparr> else d)\<rparr>"

fun sim_contributions :: "nat \<Rightarrow> nat \<Rightarrow> RegisteredProtocol list \<Rightarrow> (BPProtocolIdT \<times> u8 list) list" where
  "sim_contributions maxB u [] = []"
| "sim_contributions maxB u (rp # rps) = (case sim_pending rp of
     None \<Rightarrow> sim_contributions maxB u rps
   | Some pl \<Rightarrow> if u + BPPayloadHeaderT_fixed_size + length pl \<le> maxB
                then (rp_protId rp, pl) # sim_contributions maxB (u + BPPayloadHeaderT_fixed_size + length pl) rps
                else sim_contributions maxB u rps)"

lemma modes_apart: "\<not> is_queue_mode BP_QMODE_ONCE" "\<not> is_queue_mode BP_QMODE_REPEAT" "BP_QMODE_ONCE \<noteq> BP_QMODE_REPEAT"
  by (simp_all add: is_queue_mode_def qmode_defs)

lemma sim_pending_facts:
  assumes "sim_client_ok limit p rp" "sim_pending rp = Some pl"
  shows "pl \<noteq> []" "length pl \<le> limit" "pl \<in> set (sim_buffered (rp_protData rp))"
  using assms by (fastforce simp: sim_client_ok_def sim_data_ok_def sim_pending_def split: list.splits)+

lemma chunk_fits:
  fixes b m :: BPLengthT
  assumes "unat b \<le> unat m" "n + BPPayloadHeaderT_fixed_size < 65536"
  shows "of_nat n + of_nat BPPayloadHeaderT_fixed_size \<le> m - b \<longleftrightarrow> unat b + BPPayloadHeaderT_fixed_size + n \<le> unat m"
proof -
  have "unat (of_nat n + of_nat BPPayloadHeaderT_fixed_size :: BPLengthT) = n + BPPayloadHeaderT_fixed_size"
    using assms(2) by (simp add: unat_of_nat take_bit_eq_mod of_nat_add [symmetric] del: of_nat_add)
  then show ?thesis using assms(1) by (simp add: word_le_nat_alt unat_sub) linarith
qed

lemma sim_extract_ok:
  assumes "sim_client_ok limit p rp" "limit + BPPayloadHeaderT_fixed_size < 65536" "unat b \<le> unat m"
  shows "extractFittingPayload b m rp = (case sim_pending rp of
      None \<Rightarrow> (Inr None, rp)
    | Some pl \<Rightarrow> if unat b + BPPayloadHeaderT_fixed_size + length pl \<le> unat m then (Inr (Some pl), sim_taken rp) else (Inr None, rp))"
proof (cases "sim_pending rp")
  case None
  then show ?thesis using assms(1,3)
    by (auto simp: extractFittingPayload_def sim_pending_def sim_buffered_def sim_client_ok_def sim_data_ok_def Let_def word_le_nat_alt
        split: list.splits option.splits)
next
  case (Some pl)
  have "length pl \<le> limit" using sim_pending_facts [OF assms(1) Some] by simp
  then have fit: "chunk_length pl + of_nat BPPayloadHeaderT_fixed_size \<le> m - b \<longleftrightarrow> unat b + BPPayloadHeaderT_fixed_size + length pl \<le> unat m"
    unfolding chunk_length_def using assms(2,3) by (intro chunk_fits) simp_all
  show ?thesis
  proof (cases "sc_queue (rp_protData rp)")
    case Nil
    then have e: "sc_bufferEntry (rp_protData rp) = Some pl" "sc_bufferOccupied (rp_protData rp)"
      using Some assms(1) by (auto simp: sim_pending_def sim_buffered_def sim_client_ok_def sim_data_ok_def split: option.splits)
    then have "sc_queueMode (rp_protData rp) = BP_QMODE_ONCE \<or> sc_queueMode (rp_protData rp) = BP_QMODE_REPEAT"
      using assms(1) by (simp add: sim_client_ok_def sim_data_ok_def)
    moreover have "b \<le> m" using assms(3) by (simp add: word_le_nat_alt)
    moreover have "chunk_length pl + of_nat BPPayloadHeaderT_fixed_size > m - b \<longleftrightarrow> \<not> unat b + BPPayloadHeaderT_fixed_size + length pl \<le> unat m"
      unfolding fit [symmetric] by (simp add: not_le)
    ultimately show ?thesis using Some Nil e modes_apart
      by (elim disjE) (simp_all add: extractFittingPayload_def sim_taken_def Let_def)
  next
    case (Cons q qs)
    then have "q = pl" "is_queue_mode (sc_queueMode (rp_protData rp))" "\<not> sc_bufferOccupied (rp_protData rp)"
      using Some assms(1) modes_apart by (auto simp: sim_pending_def sim_buffered_def sim_client_ok_def sim_data_ok_def)
    then show ?thesis using Some Cons assms(3) fit
      by (simp add: extractFittingPayload_def sim_taken_def Let_def word_le_nat_alt)
  qed
qed

lemma new_vect_area:
  assumes "0 < n"
  shows "\<exists>a. ByteVectorAssemblyArea_vect n (replicate n 0) = Inr a \<and> wf_aa a \<and> bytes_used a = 0 \<and> bytes_available a = n
    \<and> aa_buffer a = replicate n 0"
  using assms by (simp add: ByteVectorAssemblyArea_vect_def wf_aa_def wf_area_def)

lemma payload_header_chunk_eq: "payload_header_chunk p l = Inr (enc_BPPayloadHeaderT \<lparr>ph_protocolId = p, ph_length = l\<rparr>)"
proof -
  let ?n = "BPPayloadHeaderT_fixed_size" and ?h = "\<lparr>ph_protocolId = p, ph_length = l\<rparr>"
  obtain t where t: "ByteVectorAssemblyArea_vect ?n (replicate ?n 0) = Inr t" "aa_buffer t = replicate ?n 0" "bytes_used t = 0"
    "bytes_available t = ?n" "wf_aa t"
    using new_vect_area [of ?n] by (auto simp: BPPayloadHeaderT_fixed_size_def)
  have s: "ser_BPPayloadHeaderT ?h t = (Inr (), aa_append (enc_BPPayloadHeaderT ?h) t)" using t(4,5) by (intro pldhdr_codec.ser) simp_all
  show ?thesis using t s by (simp add: payload_header_chunk_def aa_append_def memcpy_at_def)
qed

text \<open>The members after the payloads \<open>pls\<close> were taken, and the indications that were sent for them.\<close>

abbreviation sim_transmitted :: "simtime_t \<Rightarrow> (BPProtocolIdT \<times> u8 list) list \<Rightarrow> bp_output list" where
  "sim_transmitted t pls \<equiv> map (\<lambda>(p, _). ToClient (sim_protocol_of p) (PayloadTransmitted_Indication (uint p) t)) pls"

definition sim_take :: "simtime_t \<Rightarrow> (BPProtocolIdT \<times> u8 list) list \<Rightarrow> sim_bp \<Rightarrow> sim_bp" where
  "sim_take t pls s = s\<lparr>sb_registeredProtocols := (\<lambda>p. if p \<in> fst ` set pls then map_option sim_taken (sb_registeredProtocols s p)
      else sb_registeredProtocols s p), sb_sent := sb_sent s @ sim_transmitted t pls\<rparr>"

definition sim_gen_with :: "simtime_t \<Rightarrow> (BPProtocolIdT \<times> u8 list) list \<Rightarrow> sim_gen \<Rightarrow> sim_gen" where
  "sim_gen_with t pls g = \<lparr>sg_bp = sim_take t pls (sg_bp g),
     sg_beaconChunks = sg_beaconChunks g
       @ concat (map (\<lambda>(p, pl). [enc_BPPayloadHeaderT \<lparr>ph_protocolId = p, ph_length = chunk_length pl\<rparr>, pl]) pls),
     sg_bytesUsed = sg_bytesUsed g + of_nat (length (enc_payloads pls)), sg_numPayloadsAdded = sg_numPayloadsAdded g + length pls\<rparr>"

lemma sim_take_Nil [simp]: "sim_take t [] s = s"
  by (simp add: sim_take_def)

lemma sim_gen_with_Nil [simp]: "sim_gen_with t [] g = g"
  by (simp add: sim_gen_with_def)

lemma sim_gen_with_Cons:
  assumes "fst x \<notin> fst ` set pls"
  shows "sim_gen_with t pls (sim_gen_with t [x] g) = sim_gen_with t (x # pls) g"
  using assms by (auto simp: sim_gen_with_def sim_take_def split_beta fun_eq_iff)

lemma sim_gen_with_reg: "p \<notin> fst ` set pls \<Longrightarrow> sb_registeredProtocols (sg_bp (sim_gen_with t pls g)) p = sb_registeredProtocols (sg_bp g) p"
  by (simp add: sim_gen_with_def sim_take_def)

lemma addPayload_ok:
  assumes "sb_registeredProtocols (sg_bp g) p = Some rp" "sim_client_ok limit p rp" "limit + BPPayloadHeaderT_fixed_size < 65536"
    "unat (sg_bytesUsed g) \<le> unat maxB"
  shows "addPayload p maxB t g = (Inr (), sim_gen_with t (sim_contributions (unat maxB) (unat (sg_bytesUsed g)) [rp]) g)"
proof -
  have p: "rp_protId rp = p" "sim_known p" using assms(2) by (auto simp: sim_client_ok_def)
  note e = sim_extract_ok [OF assms(2,3,4)]
  show ?thesis
  proof (cases "sim_pending rp")
    case (Some pl)
    have put: "put_registered p (sim_taken rp) (sg_bp g) = (sg_bp g)\<lparr>sb_registeredProtocols :=
        (\<lambda>q. if q = p then map_option sim_taken (sb_registeredProtocols (sg_bp g) q) else sb_registeredProtocols (sg_bp g) q)\<rparr>"
      using assms(1) by (auto simp: put_registered_def fun_eq_iff)
    then show ?thesis using Some assms(1) e
      by (auto simp: p(1) convert_known [OF p(2)] addPayload_def bindE_def zoomE_def payload_header_chunk_eq sim_bp_send_def sim_gen_with_def sim_take_def
          chunk_length_def BPPayloadHeaderT_fixed_size_def)
  qed (use assms(1) e in \<open>simp add: addPayload_def\<close>)
qed

lemma sim_contributions_keys: "fst ` set (sim_contributions maxB u rps) \<subseteq> rp_protId ` set rps"
  by (induction maxB u rps rule: sim_contributions.induct) (fastforce split: option.splits if_splits)+

lemma sim_contributions_room:
  "u \<le> maxB \<Longrightarrow> u + length (enc_payloads (sim_contributions maxB u rps)) \<le> maxB"
proof (induction maxB u rps rule: sim_contributions.induct)
  case (2 maxB u rp rps)
  then show ?case by (cases "sim_pending rp") (auto simp: BPPayloadHeaderT_fixed_size_def)
qed simp

lemma sim_contributions_Cons:
  "sim_contributions maxB u (rp # rps) = sim_contributions maxB u [rp]
    @ sim_contributions maxB (u + length (enc_payloads (sim_contributions maxB u [rp]))) rps"
  by (auto simp: BPPayloadHeaderT_fixed_size_def add.assoc split: option.split)

text \<open>The loop over the registered protocols.\<close>

lemma add_payloads_ok:
  fixes maxB :: BPLengthT
  assumes "\<forall>p \<in> set ps. \<exists>rp. sb_registeredProtocols (sg_bp g) p = Some rp \<and> sim_client_ok limit p rp" "distinct ps"
    "limit + BPPayloadHeaderT_fixed_size < 65536" "unat (sg_bytesUsed g) \<le> unat maxB"
  shows "forE (\<lambda>p. addPayload p maxB t) ps g = (Inr (), sim_gen_with t
    (sim_contributions (unat maxB) (unat (sg_bytesUsed g)) (map (\<lambda>p. the (sb_registeredProtocols (sg_bp g) p)) ps)) g)"
  using assms(1,2,4)
proof (induction ps arbitrary: g)
  case (Cons p ps)
  let ?rps = "map (\<lambda>p. the (sb_registeredProtocols (sg_bp g) p)) ps"
  obtain rp where rp: "sb_registeredProtocols (sg_bp g) p = Some rp" "sim_client_ok limit p rp" using Cons.prems(1) by auto
  let ?x = "sim_contributions (unat maxB) (unat (sg_bytesUsed g)) [rp]"
  let ?g = "sim_gen_with t ?x g"
  have keys: "fst ` set ?x \<subseteq> {p}"
    using sim_contributions_keys [of "unat maxB" "unat (sg_bytesUsed g)" "[rp]"] rp(2) by (simp add: sim_client_ok_def)
  have same: "sb_registeredProtocols (sg_bp ?g) q = sb_registeredProtocols (sg_bp g) q" if "q \<in> set ps" for q
    using keys Cons.prems(2) that by (intro sim_gen_with_reg) auto
  have room: "unat (sg_bytesUsed g) + length (enc_payloads ?x) \<le> unat maxB" using Cons.prems(3) by (rule sim_contributions_room)
  then have b: "unat (sg_bytesUsed ?g) = unat (sg_bytesUsed g) + length (enc_payloads ?x)"
    using unat_u16_less [of maxB] unat_u16_less [of "sg_bytesUsed g"]
    by (simp add: sim_gen_with_def unat_word_ariths unat_of_nat take_bit_eq_mod del: sim_contributions.simps)
  have ih: "forE (\<lambda>p. addPayload p maxB t) ps ?g
      = (Inr (), sim_gen_with t (sim_contributions (unat maxB) (unat (sg_bytesUsed ?g)) ?rps) ?g)"
    using Cons.IH [of ?g] Cons.prems(1,2) room b same by (simp cong: map_cong)
  let ?y = "sim_contributions (unat maxB) (unat (sg_bytesUsed ?g)) ?rps"
  have ids: "rp_protId ` set ?rps = set ps"
    using Cons.prems(1) by (force simp: sim_client_ok_def image_image)
  have "sim_gen_with t ?y ?g = sim_gen_with t (?x @ ?y) g"
  proof (cases ?x)
    case (Cons x xs)
    then have x: "?x = [x]" "fst x = p" using keys by (cases xs; auto split: option.splits if_splits)+
    have "p \<notin> fst ` set ?y"
      using sim_contributions_keys [of "unat maxB" "unat (sg_bytesUsed ?g)" ?rps] ids Cons.prems(2) by auto
    then show ?thesis unfolding x(1) using x(2) by (simp add: sim_gen_with_Cons)
  qed simp
  moreover have "sim_contributions (unat maxB) (unat (sg_bytesUsed g)) (rp # ?rps) = ?x @ ?y"
    unfolding b by (rule sim_contributions_Cons)
  ultimately show ?case
    using addPayload_ok [OF rp assms(3) Cons.prems(3)] ih rp(1) by (simp del: sim_contributions.simps)
qed simp

section \<open>The beacon\<close>

definition sim_beacon_payloads :: "sim_bp \<Rightarrow> (BPProtocolIdT \<times> u8 list) list" where
  "sim_beacon_payloads s = sim_contributions (unat (sb_maximumPacketSizeB s)) BPHeaderT_fixed_size
     (map (\<lambda>p. the (sb_registeredProtocols s p)) (sim_protocol_ids s))"

definition sim_beacon :: "sim_bp \<Rightarrow> (BPProtocolIdT \<times> u8 list) list \<Rightarrow> u8 list" where
  "sim_beacon s pls = enc_BPHeaderT (sim_beacon_header s (2 * length pls)) @ enc_payloads pls"

lemma beacon_chunks:
  "concat (concat (map (\<lambda>(p, pl). [enc_BPPayloadHeaderT \<lparr>ph_protocolId = p, ph_length = chunk_length pl\<rparr>, pl]) pls)) = enc_payloads pls"
  "length (concat (map (\<lambda>(p, pl). [enc_BPPayloadHeaderT \<lparr>ph_protocolId = p, ph_length = chunk_length pl\<rparr>, pl]) pls)) = 2 * length pls"
  by (induction pls) (auto simp: enc_payload_def chunk_length_def)

lemma constructAndTransmitBeacon_ok:
  assumes "chunks \<noteq> []"
  shows "constructAndTransmitBeacon chunks s = (Inr (), s\<lparr>sb_seqno := sb_seqno s + 1,
    sb_sent := sb_sent s @ [ToUWB (enc_BPHeaderT (sim_beacon_header s (length chunks)) @ concat chunks)]\<rparr>)"
proof -
  let ?n = "BPHeaderT_fixed_size" and ?h = "sim_beacon_header s (length chunks)"
  obtain t where t: "ByteVectorAssemblyArea_vect ?n (replicate ?n 0) = Inr t" "aa_buffer t = replicate ?n 0" "bytes_used t = 0"
    "bytes_available t = ?n" "wf_aa t"
    using new_vect_area [of ?n] by (auto simp: BPHeaderT_fixed_size_def)
  have s: "ser_BPHeaderT ?h t = (Inr (), aa_append (enc_BPHeaderT ?h) t)" using t(4,5) by (intro bphdr_codec.ser) simp_all
  show ?thesis using assms t s by (simp add: constructAndTransmitBeacon_def aa_append_def memcpy_at_def sim_bp_send_def Let_def)
qed

text \<open>A beacon is generated: the next one is scheduled, the clients are told which payloads are taken, and these are sent.\<close>

lemma handleGenerateBeaconMsg_ok:
  assumes "sim_bp_ok s"
  shows "handleGenerateBeaconMsg now period s =
    (let pls = sim_beacon_payloads s; s1 = sim_take (now + period) pls (s\<lparr>sb_sent := sb_sent s @ [ScheduleBeacon (now + period)]\<rparr>) in
     (Inr (), if pls = [] then s1 else s1\<lparr>sb_seqno := sb_seqno s + 1, sb_sent := sb_sent s1 @ [ToUWB (sim_beacon s pls)]\<rparr>))"
proof -
  let ?s = "s\<lparr>sb_sent := sb_sent s @ [ScheduleBeacon (now + period)]\<rparr>" and ?pls = "sim_beacon_payloads s"
  let ?g = "\<lparr>sg_bp = ?s, sg_beaconChunks = [], sg_bytesUsed = of_nat BPHeaderT_fixed_size, sg_numPayloadsAdded = 0\<rparr>"
  have u: "unat (of_nat BPHeaderT_fixed_size :: BPLengthT) = BPHeaderT_fixed_size" by (simp add: BPHeaderT_fixed_size_def)
  have ids: "sim_protocol_ids ?s = sim_protocol_ids s" by (simp add: sim_protocol_ids_def)
  have "\<forall>p \<in> set (sim_protocol_ids s). \<exists>rp. sb_registeredProtocols (sg_bp ?g) p = Some rp \<and> sim_client_ok (sim_limit s) p rp"
    using assms sim_ids(2) [OF assms] by (auto simp: sim_bp_ok_def)
  moreover have "BPHeaderT_fixed_size \<le> unat (sb_maximumPacketSizeB s)" using assms by (simp add: sim_bp_ok_def)
  moreover have "sim_limit s + BPPayloadHeaderT_fixed_size < 65536" using sim_limit_bound [OF assms] by simp
  ultimately have loop: "forE (\<lambda>p. addPayload p (sb_maximumPacketSizeB s) (now + period)) (sim_protocol_ids s) ?g
      = (Inr (), sim_gen_with (now + period) ?pls ?g)"
    using add_payloads_ok [of "sim_protocol_ids s" ?g "sim_limit s" "sb_maximumPacketSizeB s" "now + period"] sim_ids(3) [OF assms] u
    by (simp add: sim_beacon_payloads_def)
  have none: "?pls = []" if "dom (sb_registeredProtocols s) = {}"
    using that by (simp add: sim_beacon_payloads_def sim_protocol_ids_def)
  let ?chunks = "concat (map (\<lambda>(p, pl). [enc_BPPayloadHeaderT \<lparr>ph_protocolId = p, ph_length = chunk_length pl\<rparr>, pl]) ?pls)"
  have g: "sg_beaconChunks (sim_gen_with (now + period) ?pls ?g) = ?chunks" "sg_numPayloadsAdded (sim_gen_with (now + period) ?pls ?g) = length ?pls"
    "sg_bp (sim_gen_with (now + period) ?pls ?g) = sim_take (now + period) ?pls ?s"
    by (simp_all add: sim_gen_with_def)
  have h: "sim_beacon_header (sim_take (now + period) ?pls ?s) n = sim_beacon_header s n" "sb_seqno (sim_take (now + period) ?pls ?s) = sb_seqno s" for n
    by (simp_all add: sim_beacon_header_def sim_take_def)
  have c: "?pls \<noteq> [] \<Longrightarrow> ?chunks \<noteq> []" using beacon_chunks(2) [of ?pls] by fastforce
  show ?thesis
    using none loop g h beacon_chunks [of ?pls] constructAndTransmitBeacon_ok [OF c]
    by (auto simp: handleGenerateBeaconMsg_def bindE_def sim_bp_send_def ids Let_def sim_beacon_def)
qed

section \<open>Facts on the payloads of a beacon\<close>

lemma sim_contributions_sound:
  "(p, pl) \<in> set (sim_contributions maxB u rps) \<Longrightarrow> \<exists>rp \<in> set rps. rp_protId rp = p \<and> sim_pending rp = Some pl"
  by (induction maxB u rps rule: sim_contributions.induct) (auto split: option.splits if_splits)

lemma sim_contributions_distinct: "distinct (map rp_protId rps) \<Longrightarrow> distinct (map fst (sim_contributions maxB u rps))"
proof (induction maxB u rps rule: sim_contributions.induct)
  case (2 maxB u rp rps)
  then show ?case
    using sim_contributions_keys [of maxB _ rps] by (cases "sim_pending rp") fastforce+
qed simp

lemma sim_beacon_payloads_facts:
  assumes "sim_bp_ok s"
  shows "\<And>p pl. (p, pl) \<in> set (sim_beacon_payloads s) \<Longrightarrow> \<exists>rp. sb_registeredProtocols s p = Some rp \<and> sim_pending rp = Some pl
      \<and> sim_known p \<and> pl \<noteq> [] \<and> length pl < 65536"
    and "distinct (map fst (sim_beacon_payloads s))" "length (sim_beacon_payloads s) \<le> 2"
    and "length (sim_beacon s (sim_beacon_payloads s)) \<le> unat (sb_maximumPacketSizeB s)"
proof -
  have reg: "\<exists>rp. sb_registeredProtocols s p = Some rp \<and> sim_client_ok (sim_limit s) p rp" if "p \<in> set (sim_protocol_ids s)" for p
    using assms that sim_ids(2) [OF assms] by (auto simp: sim_bp_ok_def)
  show facts: "\<exists>rp. sb_registeredProtocols s p = Some rp \<and> sim_pending rp = Some pl \<and> sim_known p \<and> pl \<noteq> [] \<and> length pl < 65536"
    if m: "(p, pl) \<in> set (sim_beacon_payloads s)" for p pl
  proof -
    obtain rp where rp: "rp \<in> set (map (\<lambda>p. the (sb_registeredProtocols s p)) (sim_protocol_ids s))" "rp_protId rp = p" "sim_pending rp = Some pl"
      using sim_contributions_sound [OF m [unfolded sim_beacon_payloads_def]] by auto
    then obtain q where q: "q \<in> set (sim_protocol_ids s)" "rp = the (sb_registeredProtocols s q)" by auto
    with reg [OF q(1)] rp(2) have ok: "sb_registeredProtocols s p = Some rp" "sim_client_ok (sim_limit s) p rp"
      by (auto simp: sim_client_ok_def)
    have "length pl < 65536" using sim_pending_facts(2) [OF ok(2) rp(3)] sim_limit_bound [OF assms] by simp
    moreover have "sim_known p" using ok(2) by (simp add: sim_client_ok_def)
    ultimately show ?thesis using ok(1) rp(3) sim_pending_facts(1) [OF ok(2) rp(3)] by blast
  qed
  have "rp_protId (the (sb_registeredProtocols s p)) = p" if "p \<in> set (sim_protocol_ids s)" for p
    using reg [OF that] by (auto simp: sim_client_ok_def)
  then have ids: "map rp_protId (map (\<lambda>p. the (sb_registeredProtocols s p)) (sim_protocol_ids s)) = sim_protocol_ids s"
    by (simp add: comp_def cong: map_cong)
  show d: "distinct (map fst (sim_beacon_payloads s))"
    unfolding sim_beacon_payloads_def by (rule sim_contributions_distinct) (simp only: ids sim_ids(3) [OF assms])
  have "set (map fst (sim_beacon_payloads s)) \<subseteq> {BP_PROTID_SRP, BP_PROTID_VARDIS}"
    using facts by fastforce
  then have "card (set (map fst (sim_beacon_payloads s))) \<le> card {BP_PROTID_SRP, BP_PROTID_VARDIS}" by (rule card_mono [rotated]) simp
  also have "\<dots> \<le> 2" by (simp add: card_insert_if)
  finally show "length (sim_beacon_payloads s) \<le> 2" using distinct_card [OF d] by simp
  have "BPHeaderT_fixed_size \<le> unat (sb_maximumPacketSizeB s)" using assms by (simp add: sim_bp_ok_def)
  then show "length (sim_beacon s (sim_beacon_payloads s)) \<le> unat (sb_maximumPacketSizeB s)"
    unfolding sim_beacon_payloads_def by (simp add: sim_beacon_def sim_contributions_room)
qed

lemma sim_taken_ok: "sim_client_ok limit p rp \<Longrightarrow> sim_client_ok limit p (sim_taken rp)"
  and sim_taken_buffered: "set (sim_buffered (rp_protData (sim_taken rp))) \<subseteq> set (sim_buffered (rp_protData rp))"
proof -
  have tl: "x \<in> set (tl q) \<Longrightarrow> x \<in> set q" for x :: "u8 list" and q by (cases q) simp_all
  show sub: "set (sim_buffered (rp_protData (sim_taken rp))) \<subseteq> set (sim_buffered (rp_protData rp))"
    by (auto simp: sim_taken_def sim_buffered_def Let_def dest: tl)
  show "sim_client_ok limit p rp \<Longrightarrow> sim_client_ok limit p (sim_taken rp)"
    using sub modes_apart by (auto simp: sim_client_ok_def sim_data_ok_def sim_taken_def Let_def split: if_splits)
qed

lemma sim_take_ok:
  assumes "sim_bp_ok s"
  shows "sim_bp_ok (sim_take t pls s)"
  using assms by (auto simp: sim_bp_ok_def sim_take_def sim_limit_def intro: sim_taken_ok split: if_splits)

lemma sim_beacon_wf:
  assumes "sim_bp_ok s" "sim_beacon_payloads s \<noteq> []"
  shows "own \<noteq> sb_ownNodeId s \<Longrightarrow> isWellFormed (sim_beacon_header s (2 * length (sim_beacon_payloads s))) own (sb_networkIdentifier s)"
    "unat (bh_numPayloads (sim_beacon_header s (2 * length (sim_beacon_payloads s)))) = length (sim_beacon_payloads s)"
proof -
  have l: "0 < length (sim_beacon_payloads s)" "length (sim_beacon_payloads s) \<le> 2"
    using assms(2) sim_beacon_payloads_facts(3) [OF assms(1)] by simp_all
  show n: "unat (bh_numPayloads (sim_beacon_header s (2 * length (sim_beacon_payloads s)))) = length (sim_beacon_payloads s)"
    using l by (simp add: sim_beacon_header_def unat_of_nat take_bit_eq_mod)
  with l(1) have "0 < bh_numPayloads (sim_beacon_header s (2 * length (sim_beacon_payloads s)))"
    unfolding word_less_nat_alt by simp
  then show "isWellFormed (sim_beacon_header s (2 * length (sim_beacon_payloads s))) own (sb_networkIdentifier s)"
    if "own \<noteq> sb_ownNodeId s" using that by (simp add: isWellFormed_def sim_beacon_header_def BPHeaderT_fixed_size_def)
qed

end
