(* ===== verification/SimNetwork.thy ===== *)
theory SimNetwork
  imports SimBeacon
begin

text \<open>
  The simulated beaconing protocol on several nodes: reception of a beacon, the requests of the clients, and runs
  in which any node handles any of its messages.
\<close>

section \<open>Reception of a beacon\<close>

abbreviation sim_received :: "(BPProtocolIdT \<times> u8 list) list \<Rightarrow> bp_output list" where
  "sim_received pls \<equiv> map (\<lambda>(p, pl). ToClient (sim_protocol_of p) (ReceivePayload_Indication (uint p) pl)) pls"

definition sim_payload_ok :: "BPProtocolIdT \<times> u8 list \<Rightarrow> bool" where
  "sim_payload_ok = (\<lambda>(p, pl). sim_known p \<and> pl \<noteq> [] \<and> length pl < 65536)"

lemma sim_receive_payloads_ok:
  assumes "wf_da a" "da_rest a = enc_payloads pls @ r" "\<forall>x \<in> set pls. sim_payload_ok x"
  shows "\<exists>a'. sim_receive_payloads (length pls) (a, s) = (Inr (), (a', s\<lparr>sb_sent := sb_sent s @ sim_received pls\<rparr>))"
  using assms
proof (induction pls arbitrary: a s)
  case (Cons x pls)
  obtain p pl where x: "x = (p, pl)" by (cases x)
  let ?hdr = "\<lparr>ph_protocolId = p, ph_length = of_nat (length pl) :: u16\<rparr>"
  have ok: "sim_known p" "pl \<noteq> []" "length pl < 65536" using Cons.prems(3) by (auto simp: x sim_payload_ok_def)
  have rest: "da_rest a = enc_BPPayloadHeaderT ?hdr @ (pl @ enc_payloads pls @ r)"
    using Cons.prems(2) by (simp add: x enc_payload_def [of "(p, pl)"])
  let ?a1 = "da_advance BPPayloadHeaderT_fixed_size a"
  have av: "BPPayloadHeaderT_fixed_size + length pl \<le> bytes_available a"
    using length_da_rest [OF Cons.prems(1)] rest by simp
  have hdr: "des_BPPayloadHeaderT a = (Inr ?hdr, ?a1)" using pldhdr_codec.des [OF _ Cons.prems(1) rest] by simp
  have a1: "wf_da ?a1" "da_rest ?a1 = pl @ enc_payloads pls @ r" using Cons.prems(1) av rest by simp_all
  have u: "unat (of_nat (length pl) :: u16) = length pl" using ok(3) by (simp add: unat_of_nat take_bit_eq_mod)
  let ?a2 = "da_advance (length pl) ?a1"
  have blk: "deserialize_byte_block (length pl) (Some (replicate (length pl) 0)) ?a1 = (Inr pl, ?a2)"
    using a1 ok(2) by (intro des_block) simp_all
  have a2: "wf_da ?a2" "da_rest ?a2 = enc_payloads pls @ r" using Cons.prems(1) av rest by simp_all
  obtain a' where ih: "sim_receive_payloads (length pls) (?a2, s\<lparr>sb_sent := sb_sent s @ sim_received [x]\<rparr>)
      = (Inr (), (a', s\<lparr>sb_sent := sb_sent s @ sim_received (x # pls)\<rparr>))"
    using Cons.IH [OF a2, of "s\<lparr>sb_sent := sb_sent s @ sim_received [x]\<rparr>"] Cons.prems(3) by auto
  then show ?case
    by (intro exI [of _ a']) (simp add: x bindE_def zoomE_def hdr u blk convert_known [OF ok(1)] sim_bp_send_def)
qed (auto simp: retE_def)

lemma handleReceivedPacket_ok:
  assumes "isWellFormed hdr (sb_ownNodeId s) (sb_networkIdentifier s)" "unat (bh_numPayloads hdr) = length pls"
    "\<forall>x \<in> set pls. sim_payload_ok x"
  shows "handleReceivedPacket [enc_BPHeaderT hdr @ enc_payloads pls @ r] s = (Inr (), s\<lparr>sb_sent := sb_sent s @ sim_received pls\<rparr>)"
proof -
  let ?b = "enc_BPHeaderT hdr @ enc_payloads pls @ r"
  let ?d = "ByteVectorDisassemblyArea ?b" and ?a = "da_advance BPHeaderT_fixed_size (ByteVectorDisassemblyArea ?b)"
  have d: "wf_da ?d" "da_rest ?d = enc_BPHeaderT hdr @ (enc_payloads pls @ r)" by (rule wf_new_areas) (rule da_rest_new)
  have h: "des_BPHeaderT ?d = (Inr hdr, ?a)" using bphdr_codec.des [OF _ d] by simp
  have "BPHeaderT_fixed_size \<le> bytes_available ?d" using length_da_rest [OF d(1)] d(2) by simp
  then have "wf_da ?a" "da_rest ?a = enc_payloads pls @ r" using d by simp_all
  from sim_receive_payloads_ok [OF this assms(3)] obtain a' where
    "sim_receive_payloads (length pls) (?a, s) = (Inr (), (a', s\<lparr>sb_sent := sb_sent s @ sim_received pls\<rparr>))" by blast
  then show ?thesis using h assms(1,2) by (simp add: handleReceivedPacket_def)
qed

lemma own_packet_ends:
  assumes "bh_senderId hdr = sb_ownNodeId s"
  shows "handleReceivedPacket [enc_BPHeaderT hdr @ r] s = (Inl cRuntimeError, s)"
proof -
  have d: "wf_da (ByteVectorDisassemblyArea (enc_BPHeaderT hdr @ r))" "da_rest (ByteVectorDisassemblyArea (enc_BPHeaderT hdr @ r)) = enc_BPHeaderT hdr @ r"
    by (rule wf_new_areas) (rule da_rest_new)
  then show ?thesis using bphdr_codec.des [OF _ d] assms by (simp add: handleReceivedPacket_def isWellFormed_def)
qed

section \<open>Requests\<close>

text \<open>The change that the request of a client may make.\<close>

definition sim_request_small :: "bp_request \<Rightarrow> bool" where
  "sim_request_small req \<longleftrightarrow> (\<forall>pr pl. req = TransmitPayload_Request pr pl \<longrightarrow> length pl < 65536)"

definition sim_only_confirms :: "bp_output list \<Rightarrow> bool" where
  "sim_only_confirms os \<longleftrightarrow> (\<forall>x \<in> set os. \<exists>t m. x = ToClient t m \<and> (\<forall>pr pl. m \<noteq> ReceivePayload_Indication pr pl))"

definition sim_request_done :: "bp_request \<Rightarrow> sim_bp \<Rightarrow> sim_bp \<Rightarrow> bool" where
  "sim_request_done req s s' \<longleftrightarrow> (\<exists>regs os. s' = s\<lparr>sb_registeredProtocols := regs, sb_sent := sb_sent s @ os\<rparr> \<and> sim_only_confirms os
     \<and> (\<forall>p rp. regs p = Some rp \<longrightarrow> sim_client_ok (sim_limit s) p rp
        \<and> (\<forall>pl \<in> set (sim_buffered (rp_protData rp)).
             (\<exists>old. sb_registeredProtocols s p = Some old \<and> pl \<in> set (sim_buffered (rp_protData old)))
             \<or> (\<exists>pr. req = TransmitPayload_Request pr pl \<and> p = word_of_int pr))))"

lemma sim_request_done_same:
  assumes "sim_bp_ok s" "sim_only_confirms os" "s' = s\<lparr>sb_sent := sb_sent s @ os\<rparr>"
  shows "sim_request_done req s s'"
  unfolding sim_request_done_def using assms
  by (intro exI [of _ "sb_registeredProtocols s"] exI [of _ os]) (auto simp: sim_bp_ok_def)

lemma sim_request_done_put:
  assumes "sim_bp_ok s" "sim_only_confirms os" "sim_client_ok (sim_limit s) p rp"
    "\<And>pl. pl \<in> set (sim_buffered (rp_protData rp)) \<Longrightarrow>
       (\<exists>old. sb_registeredProtocols s p = Some old \<and> pl \<in> set (sim_buffered (rp_protData old)))
       \<or> (\<exists>pr. req = TransmitPayload_Request pr pl \<and> p = word_of_int pr)"
    "s' = (put_registered p rp s)\<lparr>sb_sent := sb_sent s @ os\<rparr>"
  shows "sim_request_done req s s'"
  unfolding sim_request_done_def using assms
  by (intro exI [of _ "(sb_registeredProtocols s)(p \<mapsto> rp)"] exI [of _ os]) (auto simp: sim_bp_ok_def put_registered_def)

lemma only_confirms [simp]: "sim_only_confirms []" "sim_only_confirms [ToClient t m] \<longleftrightarrow> (\<forall>pr pl. m \<noteq> ReceivePayload_Indication pr pl)"
  by (auto simp: sim_only_confirms_def)

lemma sim_limit_le:
  assumes "sim_bp_ok s" "w \<le> sb_maximumPacketSizeB s - of_nat (BPHeaderT_fixed_size + BPPayloadHeaderT_fixed_size)"
  shows "unat w \<le> sim_limit s"
proof -
  have "unat (of_nat (BPHeaderT_fixed_size + BPPayloadHeaderT_fixed_size) :: BPLengthT) = BPHeaderT_fixed_size + BPPayloadHeaderT_fixed_size"
    by (simp add: BPHeaderT_fixed_size_def BPPayloadHeaderT_fixed_size_def)
  then show ?thesis
    using assms unfolding sim_bp_ok_def sim_limit_def word_le_nat_alt by (simp add: unat_sub word_le_nat_alt)
qed

lemma sim_register_done:
  assumes "sim_bp_ok s"
  shows "sim_request_done req s (snd (handleRegisterProtocolRequestMsg st pr name mx qm me am s))"
proof (cases "sim_known (word_of_int pr)")
  case True
  let ?p = "word_of_int pr :: BPProtocolIdT"
  let ?d = "\<lparr>sc_protocolId = ?p, sc_protocolName = name, sc_maxPayloadSizeB = word_of_int mx, sc_queueMode = qm,
    sc_maxEntries = word_of_int me, sc_timeStampRegistration = st, sc_queue = [], sc_bufferOccupied = False, sc_bufferEntry = None,
    sc_allowMultiplePayloads = am\<rparr>"
  have new: "sim_client_ok (sim_limit s) ?p \<lparr>rp_protId = ?p, rp_protData = ?d, rp_protProtocol = sim_protocol_of ?p\<rparr>"
    if "\<not> (word_of_int mx :: u16) > sb_maximumPacketSizeB s - of_nat (BPHeaderT_fixed_size + BPPayloadHeaderT_fixed_size)"
       "\<not> (is_queue_mode qm \<and> (word_of_int me :: u32) \<le> 0)"
    using sim_limit_le [OF assms, of "word_of_int mx"] that True
    by (auto simp: sim_client_ok_def sim_data_ok_def sim_buffered_def not_less unat_gt_0)
  note defs = handleRegisterProtocolRequestMsg_def Let_def bindE_def convert_known [OF True] sendRegisterProtocolConfirm_def
    sim_bp_send_def
  let ?A = "clientProtocolRegistered ?p s" and ?B = "(word_of_int mx :: u16) \<le> 0"
    and ?C = "(word_of_int mx :: u16) > sb_maximumPacketSizeB s - of_nat (BPHeaderT_fixed_size + BPPayloadHeaderT_fixed_size)"
    and ?D = "is_queue_mode qm \<and> (word_of_int me :: u32) \<le> 0"
  let ?st = "if ?A then BP_STATUS_PROTOCOL_ALREADY_REGISTERED else if ?B \<or> ?C then BP_STATUS_ILLEGAL_MAX_PAYLOAD_SIZE
    else if ?D then BP_STATUS_ILLEGAL_DROPPING_QUEUE_SIZE else BP_STATUS_OK"
  let ?s = "if ?A \<or> ?B \<or> ?C \<or> ?D then s
    else put_registered ?p \<lparr>rp_protId = ?p, rp_protData = ?d, rp_protProtocol = sim_protocol_of ?p\<rparr> s"
  let ?os = "[ToClient (sim_protocol_of ?p) (RegisterProtocol_Confirm ?st (sb_ownNodeId s))]"
  have eq: "snd (handleRegisterProtocolRequestMsg st pr name mx qm me am s) = ?s\<lparr>sb_sent := sb_sent s @ ?os\<rparr>"
    by (cases ?A; cases ?B; cases ?C; cases ?D) (auto simp: defs put_registered_def)
  show ?thesis
  proof (cases "?A \<or> ?B \<or> ?C \<or> ?D")
    case True
    then have "snd (handleRegisterProtocolRequestMsg st pr name mx qm me am s) = s\<lparr>sb_sent := sb_sent s @ ?os\<rparr>"
      unfolding eq by (simp only: if_True)
    then show ?thesis by (rule sim_request_done_same [OF assms, rotated]) simp
  next
    case False
    then have "snd (handleRegisterProtocolRequestMsg st pr name mx qm me am s)
        = (put_registered ?p \<lparr>rp_protId = ?p, rp_protData = ?d, rp_protProtocol = sim_protocol_of ?p\<rparr> s)\<lparr>sb_sent := sb_sent s @ ?os\<rparr>"
      unfolding eq by (simp only: if_False)
    moreover have "sim_client_ok (sim_limit s) ?p \<lparr>rp_protId = ?p, rp_protData = ?d, rp_protProtocol = sim_protocol_of ?p\<rparr>"
      using False by (intro new) simp_all
    ultimately show ?thesis
      by (intro sim_request_done_put [OF assms, of ?os]) (simp_all add: sim_buffered_def)
  qed
qed (auto simp: handleRegisterProtocolRequestMsg_def Let_def bindE_def convertProtocolIdToProtocol_def
    intro: sim_request_done_same [OF assms, of "[]"])

lemma sim_deregister_done:
  assumes "sim_bp_ok s"
  shows "sim_request_done req s (snd (handleDeregisterProtocolRequestMsg pr s))"
proof (cases "sim_known (word_of_int pr)")
  case True
  let ?p = "word_of_int pr :: BPProtocolIdT"
  note defs = handleDeregisterProtocolRequestMsg_def Let_def bindE_def convert_known [OF True] sim_bp_send_def
  show ?thesis
  proof (cases "clientProtocolRegistered ?p s")
    case True
    then show ?thesis using assms unfolding sim_request_done_def
      by (intro exI [of _ "(sb_registeredProtocols s)(?p := None)"]
          exI [of _ "[ToClient (sim_protocol_of ?p) (DeregisterProtocol_Confirm BP_STATUS_OK)]"])
        (auto simp: defs sim_bp_ok_def)
  next
    case False
    then show ?thesis
      by (intro sim_request_done_same [OF assms, of "[ToClient (sim_protocol_of ?p) (DeregisterProtocol_Confirm BP_STATUS_UNKNOWN_PROTOCOL)]"])
        (auto simp: defs)
  qed
qed (auto simp: handleDeregisterProtocolRequestMsg_def Let_def bindE_def convertProtocolIdToProtocol_def
    intro: sim_request_done_same [OF assms, of "[]"])

lemma sim_query_done:
  assumes "sim_bp_ok s"
  shows "sim_request_done req s (snd (handleQueryNumberBufferedPayloadsRequestMsg pr s))"
proof (cases "sim_known (word_of_int pr)")
  case True
  have "\<exists>os. sim_only_confirms os \<and> snd (handleQueryNumberBufferedPayloadsRequestMsg pr s) = s\<lparr>sb_sent := sb_sent s @ os\<rparr>"
    by (cases "sb_registeredProtocols s (word_of_int pr)")
      (auto simp: handleQueryNumberBufferedPayloadsRequestMsg_def Let_def bindE_def convert_known [OF True] sim_bp_send_def
        intro: exI [of _ "[]"] exI [of _ "[ToClient t c]" for t c])
  then show ?thesis using sim_request_done_same [OF assms] by blast
qed (auto simp: handleQueryNumberBufferedPayloadsRequestMsg_def Let_def bindE_def convertProtocolIdToProtocol_def
    intro: sim_request_done_same [OF assms, of "[]"])

lemma sim_stored_done:
  assumes "sim_bp_ok s" "sb_registeredProtocols s (word_of_int pr) = Some rp" "sim_data_ok (sim_limit s) d"
    "set (sim_buffered d) \<subseteq> insert pl (set (sim_buffered (rp_protData rp)))" "sim_only_confirms os"
  shows "sim_request_done (TransmitPayload_Request pr pl) s
    ((put_registered (word_of_int pr) (rp\<lparr>rp_protData := d\<rparr>) s)\<lparr>sb_sent := sb_sent s @ os\<rparr>)"
proof -
  have "sim_client_ok (sim_limit s) (word_of_int pr) (rp\<lparr>rp_protData := d\<rparr>)"
    using assms(1,2,3) by (simp add: sim_bp_ok_def sim_client_ok_def)
  then show ?thesis using assms(2,4) by (intro sim_request_done_put [OF assms(1,5)]) auto
qed

lemma set_protData_eq:
  "sb_registeredProtocols s p = Some rp \<Longrightarrow> set_protData p f s = (Inr (), put_registered p (rp\<lparr>rp_protData := f (rp_protData rp)\<rparr>) s)"
  by (simp add: set_protData_def)

lemma put_registered_facts [simp]:
  "sb_registeredProtocols (put_registered p rp s) p = Some rp" "sb_sent (put_registered p rp s) = sb_sent s"
  "put_registered p rp' (put_registered p rp s) = put_registered p rp' s"
  by (simp_all add: put_registered_def)

definition sim_too_large :: "sim_bp \<Rightarrow> RegisteredProtocol \<Rightarrow> u8 list \<Rightarrow> bool" where
  "sim_too_large s rp pl \<longleftrightarrow> chunk_length pl > sc_maxPayloadSizeB (rp_protData rp)
     \<or> chunk_length pl > sb_maximumPacketSizeB s - of_nat (BPPayloadHeaderT_fixed_size + BPHeaderT_fixed_size)"

text \<open>What a client protocol stores of a payload that is not too large.\<close>

definition sim_stored :: "u8 list \<Rightarrow> SimClientProtocolData \<Rightarrow> SimClientProtocolData" where
  "sim_stored pl d =
     (if is_queue_mode (sc_queueMode d) then
        if length (sc_queue d) < unat (sc_maxEntries d) then d\<lparr>sc_queue := sc_queue d @ [pl]\<rparr>
        else if sc_queueMode d = BP_QMODE_QUEUE_DROPHEAD then d\<lparr>sc_queue := tl (sc_queue d) @ [pl]\<rparr>
        else d
      else d\<lparr>sc_bufferOccupied := True, sc_bufferEntry := Some pl\<rparr>)"

lemma queue_modes: "is_queue_mode m \<Longrightarrow> m \<noteq> BP_QMODE_QUEUE_DROPTAIL \<Longrightarrow> m = BP_QMODE_QUEUE_DROPHEAD"
  "BP_QMODE_QUEUE_DROPTAIL \<noteq> BP_QMODE_QUEUE_DROPHEAD" "is_queue_mode BP_QMODE_QUEUE_DROPHEAD" "is_queue_mode BP_QMODE_QUEUE_DROPTAIL"
  by (auto simp: is_queue_mode_def qmode_defs)

lemma sim_data_ok_stored:
  assumes "sim_data_ok limit d" "pl \<noteq> []" "length pl \<le> unat (sc_maxPayloadSizeB d)" "bp_queueing_mode_known (sc_queueMode d)"
  shows "sim_data_ok limit (sim_stored pl d)" "set (sim_buffered (sim_stored pl d)) \<subseteq> insert pl (set (sim_buffered d))"
proof -
  have "sim_data_ok limit (sim_stored pl d) \<and> set (sim_buffered (sim_stored pl d)) \<subseteq> insert pl (set (sim_buffered d))"
  proof (cases "is_queue_mode (sc_queueMode d)")
    case True
    then have b: "sc_bufferEntry d = None" "\<not> sc_bufferOccupied d" using assms(1) modes_apart by (auto simp: sim_data_ok_def)
    have "x \<in> set (tl (sc_queue d)) \<Longrightarrow> x \<in> set (sc_queue d)" for x by (cases "sc_queue d") simp_all
    with b show ?thesis using True assms(1-3)
      by (auto simp: sim_stored_def sim_data_ok_def sim_buffered_def not_less)
  next
    case False
    then have "sc_queue d = []" "sc_queueMode d = BP_QMODE_ONCE \<or> sc_queueMode d = BP_QMODE_REPEAT"
      using assms(1,4) queue_modes by (auto simp: sim_data_ok_def bp_queueing_mode_known_def)
    then show ?thesis using False assms(1-3) by (simp add: sim_stored_def sim_data_ok_def sim_buffered_def)
  qed
  then show "sim_data_ok limit (sim_stored pl d)" "set (sim_buffered (sim_stored pl d)) \<subseteq> insert pl (set (sim_buffered d))" by blast+
qed

lemma transmit_stored:
  assumes "sb_registeredProtocols s (word_of_int pr) = Some rp" "sim_known (word_of_int pr)" "\<not> sim_too_large s rp pl"
    "chunk_length pl \<noteq> 0" "bp_queueing_mode_known (sc_queueMode (rp_protData rp))"
  shows "handleTransmitPayloadRequestMsg pr pl s = (Inr (),
    (put_registered (word_of_int pr) (rp\<lparr>rp_protData := sim_stored pl (rp_protData rp)\<rparr>) s)\<lparr>sb_sent := sb_sent s
      @ [ToClient (sim_protocol_of (word_of_int pr)) (TransmitPayload_Confirm BP_STATUS_OK)]\<rparr>)"
proof -
  let ?d = "rp_protData rp"
  note defs = handleTransmitPayloadRequestMsg_def Let_def bindE_def convert_known [OF assms(2)] sim_bp_send_def set_protData_eq
    sim_stored_def assms(1,4)
  have fits: "\<not> (chunk_length pl > sc_maxPayloadSizeB ?d
     \<or> chunk_length pl > sb_maximumPacketSizeB s - of_nat (BPPayloadHeaderT_fixed_size + BPHeaderT_fixed_size))"
    using assms(3) by (simp only: sim_too_large_def simp_thms)
  have full: "put_registered (word_of_int pr) (rp\<lparr>rp_protData := ?d\<rparr>) s = s"
    using assms(1) by (simp add: put_registered_def fun_upd_idem)
  consider "sc_queueMode ?d = BP_QMODE_ONCE" | "sc_queueMode ?d = BP_QMODE_REPEAT"
    | "sc_queueMode ?d = BP_QMODE_QUEUE_DROPTAIL" | "sc_queueMode ?d = BP_QMODE_QUEUE_DROPHEAD"
    using assms(5) by (auto simp: bp_queueing_mode_known_def)
  then show ?thesis
    using fits full queue_modes modes_apart by cases (auto simp: defs not_less not_le simp del: of_nat_add)
qed

text \<open>The check of the length sees its lower 16 bits: a payload of \<open>65536 + k\<close> bytes is accepted and stored where one of \<open>k\<close>
  bytes would be.\<close>

lemma long_payload_accepted:
  assumes "sb_registeredProtocols s (word_of_int pr) = Some rp" "sim_known (word_of_int pr)"
    "bp_queueing_mode_known (sc_queueMode (rp_protData rp))" "length short = k" "length pl = 65536 + k" "0 < k" "k < 65536"
    "\<not> sim_too_large s rp short"
  shows "handleTransmitPayloadRequestMsg pr pl s = (Inr (),
    (put_registered (word_of_int pr) (rp\<lparr>rp_protData := sim_stored pl (rp_protData rp)\<rparr>) s)\<lparr>sb_sent := sb_sent s
      @ [ToClient (sim_protocol_of (word_of_int pr)) (TransmitPayload_Confirm BP_STATUS_OK)]\<rparr>)"
proof -
  have e: "chunk_length pl = chunk_length short" using assms(4,5) by (simp add: chunk_length_def)
  have "unat (chunk_length short) = k" using assms(4,7) by (simp add: chunk_length_def unat_of_nat take_bit_eq_mod)
  then have "chunk_length pl \<noteq> 0" using e assms(6) by auto
  then show ?thesis using assms(8) e by (intro transmit_stored [OF assms(1,2) _ _ assms(3)]) (simp_all add: sim_too_large_def)
qed

lemma sim_transmit_done:
  assumes "sim_bp_ok s" "length pl < 65536"
  shows "sim_request_done (TransmitPayload_Request pr pl) s (snd (handleTransmitPayloadRequestMsg pr pl s))"
proof -
  let ?p = "word_of_int pr :: BPProtocolIdT"
  note defs = handleTransmitPayloadRequestMsg_def Let_def bindE_def sim_bp_send_def
  have len: "unat (chunk_length pl) = length pl" using assms(2) by (simp add: chunk_length_def unat_of_nat take_bit_eq_mod)
  show ?thesis
  proof (cases "sim_known ?p")
    case False
    then show ?thesis
      by (auto simp: defs convertProtocolIdToProtocol_def intro: sim_request_done_same [OF assms(1), of "[]"])
  next
    case True
    note defs = defs convert_known [OF True]
    show ?thesis
    proof (cases "sb_registeredProtocols s ?p")
      case None
      then show ?thesis
        by (intro sim_request_done_same [OF assms(1), of "[ToClient (sim_protocol_of ?p) (TransmitPayload_Confirm BP_STATUS_UNKNOWN_PROTOCOL)]"])
          (auto simp: defs)
    next
      case (Some rp)
      consider (large) "sim_too_large s rp pl" | (empty) "\<not> sim_too_large s rp pl" "chunk_length pl = 0"
        | (mode) "\<not> sim_too_large s rp pl" "chunk_length pl \<noteq> 0" "\<not> bp_queueing_mode_known (sc_queueMode (rp_protData rp))"
        | (ok) "\<not> sim_too_large s rp pl" "chunk_length pl \<noteq> 0" "bp_queueing_mode_known (sc_queueMode (rp_protData rp))" by blast
      then show ?thesis
      proof cases
        case large
        with Some show ?thesis
          by (intro sim_request_done_same [OF assms(1), of "[ToClient (sim_protocol_of ?p) (TransmitPayload_Confirm BP_STATUS_PAYLOAD_TOO_LARGE)]"])
            (simp_all add: defs sim_too_large_def)
      next
        case empty
        with Some show ?thesis
          by (intro sim_request_done_same [OF assms(1), of "[ToClient (sim_protocol_of ?p) (TransmitPayload_Confirm BP_STATUS_EMPTY_PAYLOAD)]"])
            (simp_all add: defs sim_too_large_def)
      next
        case mode
        with Some show ?thesis
          by (intro sim_request_done_same [OF assms(1), of "[]"])
            (simp_all add: defs sim_too_large_def bp_queueing_mode_known_def is_queue_mode_def)
      next
        case ok
        have "pl \<noteq> []" using ok(2) by (auto simp: chunk_length_def)
        moreover have "length pl \<le> unat (sc_maxPayloadSizeB (rp_protData rp))"
          using ok(1) len by (simp add: sim_too_large_def word_less_nat_alt)
        moreover have "sim_data_ok (sim_limit s) (rp_protData rp)" using assms(1) Some by (auto simp: sim_bp_ok_def sim_client_ok_def)
        ultimately show ?thesis
          using transmit_stored [OF Some True ok] sim_data_ok_stored [of "sim_limit s" "rp_protData rp" pl] ok(3)
          by (simp add: sim_stored_done [OF assms(1) Some])
      qed
    qed
  qed
qed

lemma handleClientMessage_done:
  assumes "sim_bp_ok s" "sim_request_small req"
  shows "sim_request_done req s (snd (handleClientMessage st req s))"
proof (cases req)
  case (TransmitPayload_Request pr pl)
  then show ?thesis using assms by (simp add: sim_request_small_def sim_transmit_done)
next
  case (ClearBuffer_Request pr)
  then show ?thesis by (auto intro: sim_request_done_same [OF assms(1), of "[]"])
qed (use sim_register_done [OF assms(1)] sim_deregister_done [OF assms(1)] sim_query_done [OF assms(1)] in simp_all)

section \<open>Runs of several nodes\<close>

text \<open>
  The nodes are the elements of a type; node \<open>i\<close> has the identifier \<open>own i\<close>.  Any node may handle any request of a client, generate a beacon, or receive a packet
  that some node has sent.  A run ends when a handler ends the simulation, so each step returns normally.
\<close>

definition sim_event_possible :: "('n \<Rightarrow> sim_bp) \<Rightarrow> bp_event \<Rightarrow> bool" where
  "sim_event_possible net ev = (case ev of
     FromClient st req \<Rightarrow> True
   | FromUWB packet \<Rightarrow> \<exists>j b. packet = [b] \<and> ToUWB b \<in> set (sb_sent (net j))
   | GenerateBeacon now period \<Rightarrow> True)"

inductive sim_run :: "('n \<Rightarrow> NodeIdentifierT) \<Rightarrow> BPNetworkIdentifierT \<Rightarrow> BPLengthT \<Rightarrow> ('n \<times> bp_event) list \<Rightarrow> ('n \<Rightarrow> sim_bp) \<Rightarrow> bool"
  for own netw maxB where
  sim_run_start: "\<forall>i. \<exists>now period. initialize_BeaconingProtocol (own i) netw maxB now period = Inr (net i) \<Longrightarrow> sim_run own netw maxB [] net"
| sim_run_step: "sim_run own netw maxB evs net \<Longrightarrow> sim_event_possible net ev \<Longrightarrow> sim_bp_handleMessage ev (net i) = (Inr (), s')
    \<Longrightarrow> sim_run own netw maxB (evs @ [(i, ev)]) (net(i := s'))"

text \<open>No client hands over a payload whose length does not fit 16 bits: such a payload is accepted with its length
  cut off.\<close>

abbreviation payloads_below_64K :: "('n \<times> bp_event) list \<Rightarrow> bool" where
  "payloads_below_64K evs \<equiv> \<forall>j st pr pl. (j, FromClient st (TransmitPayload_Request pr pl)) \<in> set evs \<longrightarrow> length pl < 65536"

text \<open>Node \<open>i\<close> was asked to transmit \<open>pl\<close> for the protocol \<open>p\<close>.\<close>

definition sim_asked :: "('n \<times> bp_event) list \<Rightarrow> 'n \<Rightarrow> BPProtocolIdT \<Rightarrow> u8 list \<Rightarrow> bool" where
  "sim_asked evs i p pl \<longleftrightarrow> (\<exists>st pr. (i, FromClient st (TransmitPayload_Request pr pl)) \<in> set evs \<and> word_of_int pr = p)"

lemma sim_asked_snoc:
  "sim_asked (evs @ [(i, ev)]) j p pl \<longleftrightarrow> sim_asked evs j p pl \<or> i = j \<and> (\<exists>st pr. ev = FromClient st (TransmitPayload_Request pr pl) \<and> word_of_int pr = p)"
  by (auto simp: sim_asked_def)

definition sim_buffers_asked :: "('n \<times> bp_event) list \<Rightarrow> 'n \<Rightarrow> sim_bp \<Rightarrow> bool" where
  "sim_buffers_asked evs i s \<longleftrightarrow> (\<forall>p rp pl. sb_registeredProtocols s p = Some rp \<longrightarrow> pl \<in> set (sim_buffered (rp_protData rp)) \<longrightarrow> sim_asked evs i p pl)"

text \<open>What a node has sent: beacons with payloads that it was asked to transmit, and indications of payloads that another node was asked for.\<close>

definition sim_beacon_asked :: "('n \<times> bp_event) list \<Rightarrow> 'n \<Rightarrow> NodeIdentifierT \<Rightarrow> BPNetworkIdentifierT \<Rightarrow> nat \<Rightarrow> u8 list \<Rightarrow> bool" where
  "sim_beacon_asked evs i own netw limit b \<longleftrightarrow> (\<exists>hdr pls. b = enc_BPHeaderT hdr @ enc_payloads pls \<and> bh_senderId hdr = own
     \<and> unat (bh_numPayloads hdr) = length pls \<and> (\<forall>own'. own' \<noteq> own \<longrightarrow> isWellFormed hdr own' netw) \<and> length b \<le> limit
     \<and> (\<forall>(p, pl) \<in> set pls. sim_payload_ok (p, pl) \<and> sim_asked evs i p pl))"

definition sim_sent_asked :: "('n \<times> bp_event) list \<Rightarrow> 'n \<Rightarrow> NodeIdentifierT \<Rightarrow> BPNetworkIdentifierT \<Rightarrow> nat \<Rightarrow> bp_output list \<Rightarrow> bool" where
  "sim_sent_asked evs i own netw limit os \<longleftrightarrow> (\<forall>b. ToUWB b \<in> set os \<longrightarrow> sim_beacon_asked evs i own netw limit b)
     \<and> (\<forall>t pr pl. ToClient t (ReceivePayload_Indication pr pl) \<in> set os
          \<longrightarrow> t = sim_protocol_of (word_of_int pr) \<and> (\<exists>j. j \<noteq> i \<and> sim_asked evs j (word_of_int pr) pl))"

definition sim_node_ok :: "('n \<times> bp_event) list \<Rightarrow> 'n \<Rightarrow> NodeIdentifierT \<Rightarrow> BPNetworkIdentifierT \<Rightarrow> BPLengthT \<Rightarrow> sim_bp \<Rightarrow> bool" where
  "sim_node_ok evs i own netw maxB s \<longleftrightarrow> sim_bp_ok s \<and> sb_ownNodeId s = own \<and> sb_networkIdentifier s = netw \<and> sb_maximumPacketSizeB s = maxB
     \<and> sim_buffers_asked evs i s \<and> sim_sent_asked evs i own netw (unat maxB) (sb_sent s)"

lemma sim_node_ok_mono:
  assumes "sim_node_ok evs i own netw maxB s" "\<And>j p pl. sim_asked evs j p pl \<Longrightarrow> sim_asked evs' j p pl"
  shows "sim_node_ok evs' i own netw maxB s"
proof -
  have b: "sim_beacon_asked evs i own netw limit b \<Longrightarrow> sim_beacon_asked evs' i own netw limit b" for limit b
    unfolding sim_beacon_asked_def using assms(2) by (elim exE) (intro exI, auto)
  have "sim_sent_asked evs i own netw (unat maxB) (sb_sent s) \<Longrightarrow> sim_sent_asked evs' i own netw (unat maxB) (sb_sent s)"
    unfolding sim_sent_asked_def using b assms(2) by metis
  moreover have "sim_buffers_asked evs i s \<Longrightarrow> sim_buffers_asked evs' i s"
    unfolding sim_buffers_asked_def using assms(2) by blast
  ultimately show ?thesis using assms(1) by (simp add: sim_node_ok_def)
qed

lemma sim_bp_ok_frame [simp]:
  "sim_bp_ok (s\<lparr>sb_sent := os\<rparr>) = sim_bp_ok s" "sim_bp_ok (s\<lparr>sb_seqno := q\<rparr>) = sim_bp_ok s"
  by (simp_all add: sim_bp_ok_def sim_limit_def)

lemma sim_buffers_asked_frame [simp]:
  "sim_buffers_asked evs i (s\<lparr>sb_sent := os\<rparr>) = sim_buffers_asked evs i s"
  "sim_buffers_asked evs i (s\<lparr>sb_seqno := q\<rparr>) = sim_buffers_asked evs i s"
  by (simp_all add: sim_buffers_asked_def)

lemma sim_sent_asked_append [simp]:
  "sim_sent_asked evs i own netw limit (xs @ ys) \<longleftrightarrow> sim_sent_asked evs i own netw limit xs \<and> sim_sent_asked evs i own netw limit ys"
  by (auto simp: sim_sent_asked_def)

lemma sim_sent_asked_quiet [simp]:
  "sim_sent_asked evs i own netw limit []" "sim_sent_asked evs i own netw limit (ScheduleBeacon t # xs) \<longleftrightarrow> sim_sent_asked evs i own netw limit xs"
  "sim_sent_asked evs i own netw limit (sim_transmitted t pls)"
  by (auto simp: sim_sent_asked_def)

lemma sim_only_confirms_asked: "sim_only_confirms os \<Longrightarrow> sim_sent_asked evs i own netw limit os"
  by (fastforce simp: sim_sent_asked_def sim_only_confirms_def)

text \<open>The three kinds of events.\<close>

lemma sim_node_request:
  assumes "sim_node_ok evs i own netw maxB s" "sim_request_small req"
  shows "sim_node_ok (evs @ [(i, FromClient st req)]) i own netw maxB (snd (handleClientMessage st req s))"
proof -
  let ?evs = "evs @ [(i, FromClient st req)]"
  have old: "sim_node_ok ?evs i own netw maxB s"
    by (rule sim_node_ok_mono [OF assms(1)]) (simp add: sim_asked_snoc)
  then have s: "sim_bp_ok s" by (simp add: sim_node_ok_def)
  obtain regs os where r: "snd (handleClientMessage st req s) = s\<lparr>sb_registeredProtocols := regs, sb_sent := sb_sent s @ os\<rparr>" "sim_only_confirms os"
    "\<And>p rp. regs p = Some rp \<Longrightarrow> sim_client_ok (sim_limit s) p rp"
    "\<And>p rp pl. regs p = Some rp \<Longrightarrow> pl \<in> set (sim_buffered (rp_protData rp)) \<Longrightarrow>
        (\<exists>old. sb_registeredProtocols s p = Some old \<and> pl \<in> set (sim_buffered (rp_protData old)))
        \<or> (\<exists>pr. req = TransmitPayload_Request pr pl \<and> p = word_of_int pr)"
    using handleClientMessage_done [OF s assms(2), of st] unfolding sim_request_done_def by blast
  let ?s = "s\<lparr>sb_registeredProtocols := regs, sb_sent := sb_sent s @ os\<rparr>"
  have "sim_bp_ok ?s" using s r(3) by (simp add: sim_bp_ok_def sim_limit_def)
  moreover have "sim_buffers_asked ?evs i ?s"
    unfolding sim_buffers_asked_def
  proof (intro allI impI)
    fix p rp pl assume "sb_registeredProtocols ?s p = Some rp" "pl \<in> set (sim_buffered (rp_protData rp))"
    with r(4) [of p rp pl] show "sim_asked ?evs i p pl"
      using old by (auto simp: sim_node_ok_def sim_buffers_asked_def sim_asked_snoc)
  qed
  ultimately show ?thesis
    using old sim_only_confirms_asked [OF r(2)] unfolding r(1) by (simp add: sim_node_ok_def)
qed

lemma sim_node_generate:
  assumes "sim_node_ok evs i own netw maxB s"
  shows "sim_node_ok (evs @ [(i, GenerateBeacon now period)]) i own netw maxB (snd (handleGenerateBeaconMsg now period s))"
proof -
  let ?evs = "evs @ [(i, GenerateBeacon now period)]" and ?pls = "sim_beacon_payloads s"
  have old: "sim_node_ok ?evs i own netw maxB s" by (rule sim_node_ok_mono [OF assms]) (simp add: sim_asked_snoc)
  then have s: "sim_bp_ok s" and b: "sim_buffers_asked ?evs i s" by (simp_all add: sim_node_ok_def)
  let ?s1 = "sim_take (now + period) ?pls (s\<lparr>sb_sent := sb_sent s @ [ScheduleBeacon (now + period)]\<rparr>)"
  have pls: "sim_payload_ok (p, pl) \<and> sim_asked ?evs i p pl" if m: "(p, pl) \<in> set ?pls" for p pl
  proof -
    obtain rp where rp: "sb_registeredProtocols s p = Some rp" "sim_pending rp = Some pl" "sim_payload_ok (p, pl)"
      using sim_beacon_payloads_facts(1) [OF s m] by (auto simp: sim_payload_ok_def)
    then have "pl \<in> set (sim_buffered (rp_protData rp))" by (auto simp: sim_pending_def split: list.splits)
    with rp b show ?thesis by (auto simp: sim_buffers_asked_def)
  qed
  have "sim_bp_ok ?s1" using s by (intro sim_take_ok) (simp add: sim_bp_ok_def sim_limit_def)
  moreover have "sim_buffers_asked ?evs i ?s1"
    unfolding sim_buffers_asked_def
  proof (intro allI impI)
    fix p rp pl assume r: "sb_registeredProtocols ?s1 p = Some rp" "pl \<in> set (sim_buffered (rp_protData rp))"
    then obtain rp' where "sb_registeredProtocols s p = Some rp'" "pl \<in> set (sim_buffered (rp_protData rp'))"
      using sim_taken_buffered by (fastforce simp: sim_take_def split: if_splits)
    with b show "sim_asked ?evs i p pl" by (simp add: sim_buffers_asked_def)
  qed
  moreover have "sim_sent_asked ?evs i own netw (unat maxB) (sb_sent ?s1)"
    using old by (simp add: sim_take_def sim_node_ok_def)
  ultimately have s1: "sim_node_ok ?evs i own netw maxB ?s1"
    using old by (simp add: sim_node_ok_def) (simp add: sim_take_def)
  show ?thesis
  proof (cases "?pls = []")
    case True
    with s1 show ?thesis by (simp add: handleGenerateBeaconMsg_ok [OF s] Let_def)
  next
    case False
    let ?h = "sim_beacon_header s (2 * length ?pls)"
    have "sim_beacon_asked ?evs i own netw (unat maxB) (sim_beacon s ?pls)"
      unfolding sim_beacon_asked_def
    proof (intro exI conjI)
      show "sim_beacon s ?pls = enc_BPHeaderT ?h @ enc_payloads ?pls" by (simp add: sim_beacon_def)
      show "bh_senderId ?h = own" using old by (simp add: sim_beacon_header_def sim_node_ok_def)
      show "unat (bh_numPayloads ?h) = length ?pls" by (rule sim_beacon_wf(2) [OF s False])
    qed (use pls sim_beacon_wf(1) [OF s False] sim_beacon_payloads_facts(4) [OF s] old in \<open>auto simp: sim_node_ok_def\<close>)
    then have "sim_sent_asked ?evs i own netw (unat maxB) [ToUWB (sim_beacon s ?pls)]" by (simp add: sim_sent_asked_def)
    with s1 False show ?thesis
      by (simp add: handleGenerateBeaconMsg_ok [OF s] Let_def sim_node_ok_def)
  qed
qed

lemma sim_node_receive:
  assumes "sim_node_ok evs i own netw maxB s" "sim_beacon_asked evs j own' netw limit b" "j \<noteq> i" "own' \<noteq> own"
  obtains pls where "handleReceivedPacket [b] s = (Inr (), s\<lparr>sb_sent := sb_sent s @ sim_received pls\<rparr>)"
    "\<forall>(p, pl) \<in> set pls. sim_asked evs j p pl"
    "sim_node_ok (evs @ [(i, FromUWB [b])]) i own netw maxB (s\<lparr>sb_sent := sb_sent s @ sim_received pls\<rparr>)"
proof -
  let ?evs = "evs @ [(i, FromUWB [b])]"
  have old: "sim_node_ok ?evs i own netw maxB s" by (rule sim_node_ok_mono [OF assms(1)]) (simp add: sim_asked_snoc)
  obtain hdr pls where b: "b = enc_BPHeaderT hdr @ enc_payloads pls" "unat (bh_numPayloads hdr) = length pls"
    "isWellFormed hdr own netw" "\<forall>x \<in> set pls. sim_payload_ok x" "\<forall>(p, pl) \<in> set pls. sim_asked evs j p pl"
    using assms(2,4) by (fastforce simp: sim_beacon_asked_def)
  have r: "handleReceivedPacket [b] s = (Inr (), s\<lparr>sb_sent := sb_sent s @ sim_received pls\<rparr>)"
    using handleReceivedPacket_ok [of hdr s pls "[]"] b old by (auto simp: sim_node_ok_def)
  have "sim_sent_asked ?evs i own netw (unat maxB) (sim_received pls)"
    using b(5) assms(3) by (fastforce simp: sim_sent_asked_def sim_asked_snoc)
  with old have "sim_node_ok ?evs i own netw maxB (s\<lparr>sb_sent := sb_sent s @ sim_received pls\<rparr>)"
    by (simp add: sim_node_ok_def)
  with r b(5) show thesis by (intro that [of pls]) simp_all
qed

lemma initialize_facts:
  assumes "initialize_BeaconingProtocol own netw maxB now period = Inr s" "BPHeaderT_fixed_size + BPPayloadHeaderT_fixed_size \<le> unat maxB"
  shows "sim_node_ok [] i own netw maxB s"
  using assms by (auto simp: initialize_BeaconingProtocol_def sim_node_ok_def sim_bp_ok_def sim_buffers_asked_def split: if_splits)

lemma sim_run_ok:
  assumes "sim_run own netw maxB evs net" "inj own" "BPHeaderT_fixed_size + BPPayloadHeaderT_fixed_size \<le> unat maxB"
    "payloads_below_64K evs"
  shows "sim_node_ok evs i (own i) netw maxB (net i)"
  using assms(1,4)
proof (induction arbitrary: i)
  case (sim_run_start net)
  then obtain now period where "initialize_BeaconingProtocol (own i) netw maxB now period = Inr (net i)" by blast
  then show ?case by (rule initialize_facts [OF _ assms(3)])
next
  case (sim_run_step evs net ev k s')
  have small: "payloads_below_64K evs" "\<And>st req. ev = FromClient st req \<Longrightarrow> sim_request_small req"
    using sim_run_step.prems by (auto simp: sim_request_small_def)
  note IH = sim_run_step.IH [OF small(1)]
  show ?case
  proof (cases "i = k")
    case False
    then show ?thesis using sim_node_ok_mono [OF IH] by (simp add: sim_asked_snoc)
  next
    case True
    have "sim_node_ok (evs @ [(k, ev)]) k (own k) netw maxB s'"
    proof (cases ev)
      case (FromClient st req)
      then show ?thesis
        using sim_node_request [OF IH [of k], of req st] small(2) sim_run_step.hyps(3) by simp
    next
      case (GenerateBeacon now period)
      then show ?thesis using sim_node_generate [OF IH [of k], of now period] sim_run_step.hyps(3) by simp
    next
      case (FromUWB packet)
      then obtain j b where b: "packet = [b]" "ToUWB b \<in> set (sb_sent (net j))"
        using sim_run_step.hyps(2) by (auto simp: sim_event_possible_def)
      then have asked: "sim_beacon_asked evs j (own j) netw (unat maxB) b"
        using IH [of j] by (auto simp: sim_node_ok_def sim_sent_asked_def)
      show ?thesis
      proof (cases "j = k")
        case False
        then have "own j \<noteq> own k" using assms(2) by (auto dest: injD)
        from sim_node_receive [OF IH [of k] asked False this] show ?thesis
          using sim_run_step.hyps(3) FromUWB b(1) by auto
      next
        case True
        then have "handleReceivedPacket packet (net k) = (Inl cRuntimeError, net k)"
          using asked b(1) IH [of k] by (auto simp: sim_beacon_asked_def sim_node_ok_def intro: own_packet_ends)
        then show ?thesis using sim_run_step.hyps(3) FromUWB by simp
      qed
    qed
    then show ?thesis using True by simp
  qed
qed

end
