(* ===== verification/SimVardis.thy ===== *)
theory SimVardis
  imports SimNetwork VardisPropagation VardisManagement
begin

text \<open>
  The VarDis protocol of the simulation: \<open>dcpsimulation/src/dcpsim/vardis/VardisProtocol.cc\<close> and the class it is
  derived from, \<open>bp/BPClientProtocol.cc\<close>.  The module keeps the variable store and the protocol data of the
  implementation; both exist once the registration with the beaconing protocol is confirmed.

  State: the members of the two classes, the self messages that are scheduled, and the list of what was sent.  \<open>SimTime\<close> values are
  numbers of ticks; the delay that the code computes with floating-point numbers is an argument.
\<close>

section \<open>Messages\<close>

datatype rtdb_request =
    RTDBCreate_Request RTDB_Create_Request
  | RTDBUpdate_Request RTDB_Update_Request
  | RTDBDelete_Request RTDB_Delete_Request
  | RTDBRead_Request RTDB_Read_Request
  | RTDBDescribeDatabase_Request
  | RTDBDescribeVariable_Request VarIdT
  | Unknown_Request

text \<open>The fields of a variable description in the confirm of the simulation.\<close>

record sim_variable =
  svd_varId :: VarIdT
  svd_prodId :: NodeIdentifierT
  svd_repCnt :: VarRepCntT
  svd_descr :: StringT
  svd_value :: VarValueT
  svd_seqno :: VarSeqnoT
  svd_tstamp :: TimeStampT
  svd_countUpdate :: VarRepCntT
  svd_countCreate :: VarRepCntT
  svd_countDelete :: VarRepCntT
  svd_isDeleted :: bool

datatype rtdb_confirm =
    RTDBCreate_Confirm DcpStatus VarIdT
  | RTDBUpdate_Confirm DcpStatus VarIdT
  | RTDBDelete_Confirm DcpStatus
  | RTDBRead_Confirm DcpStatus RTDB_Read_Confirm
  | RTDBDescribeDatabase_Confirm DcpStatus "DescribeDatabaseVariableDescription list"
  | RTDBDescribeVariable_Confirm DcpStatus "sim_variable option"

datatype self_message = registerMsg | bufferCheckMsg | sendPayloadMsg

datatype vardis_output =
    SendToBP bp_request
  | SendToApplication nat rtdb_confirm
  | ScheduleAt self_message simtime_t

section \<open>State\<close>

record sim_vardis =
  sv_ownNodeId :: NodeIdentifierT
  sv_maxPayloadSize :: BPLengthT
  sv_maxValueLength :: nat
  sv_maxDescriptionLength :: nat
  sv_maxRepetitions :: u8
  sv_maxSummaries :: u8
  sv_bufferCheckPeriod :: simtime_t
  sv_registerMsg :: bool
  sv_registrationRequested :: bool
  sv_successfullyRegistered :: bool
  sv_protocol_data :: "VardisProtocolData option"
  sv_sendPayloadScheduled :: bool
  sv_payloadSent :: bool
  sv_outputs :: "vardis_output list"

definition sim_vardis_send :: "vardis_output \<Rightarrow> (sim_vardis, unit) action" where
  "sim_vardis_send m = modifyE (\<lambda>s. s\<lparr>sv_outputs := sv_outputs s @ [m]\<rparr>)"

text \<open>Differences of a 16-bit number and a \<open>size_t\<close> are taken modulo \<open>2 ^ 64\<close>.\<close>

definition size_t_minus :: "BPLengthT \<Rightarrow> nat \<Rightarrow> nat" where
  "size_t_minus m n = unat (ucast m - of_nat n :: 64 word)"

definition vardis_parameters_ok :: "BPLengthT \<Rightarrow> nat \<Rightarrow> nat \<Rightarrow> u8 \<Rightarrow> u8 \<Rightarrow> simtime_t \<Rightarrow> bool" where
  "vardis_parameters_ok mps mval mdescr mrep msumm period \<longleftrightarrow>
     mps > 0 \<and> mps \<le> 1400
     \<and> mval > 0 \<and> mval \<le> min VarLenT_max_val (size_t_minus mps ICHeaderT_fixed_size)
     \<and> mdescr > 0 \<and> of_nat mdescr \<le> mps - of_nat (ICHeaderT_fixed_size + VarSpecT_fixed_size + VarUpdateT_fixed_size + mval)
     \<and> mrep > 0 \<and> mrep \<le> 15
     \<and> unat msumm \<le> size_t_minus mps ICHeaderT_fixed_size div VarSummT_fixed_size
     \<and> period > 0"

definition initialize_VardisProtocol ::
  "NodeIdentifierT \<Rightarrow> BPLengthT \<Rightarrow> nat \<Rightarrow> nat \<Rightarrow> u8 \<Rightarrow> u8 \<Rightarrow> simtime_t \<Rightarrow> simtime_t \<Rightarrow> dcp_error + sim_vardis" where
  "initialize_VardisProtocol own mps mval mdescr mrep msumm period now =
     (if \<not> vardis_parameters_ok mps mval mdescr mrep msumm period then Inl assertion_failure
      else Inr \<lparr>sv_ownNodeId = own, sv_maxPayloadSize = mps, sv_maxValueLength = mval, sv_maxDescriptionLength = mdescr,
                sv_maxRepetitions = mrep, sv_maxSummaries = msumm, sv_bufferCheckPeriod = period,
                sv_registerMsg = True, sv_registrationRequested = False, sv_successfullyRegistered = False,
                sv_protocol_data = None, sv_sendPayloadScheduled = False, sv_payloadSent = False,
                sv_outputs = [ScheduleAt registerMsg now, ScheduleAt bufferCheckMsg (now + period)]\<rparr>)"

text \<open>Calls of the protocol data through its pointer.\<close>

definition on_protocol_data :: "(VardisProtocolData, 'a) action \<Rightarrow> (sim_vardis, 'a) action" where
  "on_protocol_data m = (\<lambda>s. case sv_protocol_data s of
     None \<Rightarrow> (Inl null_pointer, s)
   | Some pd \<Rightarrow> (case m pd of (r, pd') \<Rightarrow> (r, s\<lparr>sv_protocol_data := Some pd'\<rparr>)))"

definition vardisActive :: "(sim_vardis, bool) action" where
  "vardisActive = on_protocol_data (getE (\<lambda>pd. get_vardis_isactive (vardis_store pd)))"

section \<open>Registration with the beaconing protocol\<close>

definition sendToBP :: "bp_request \<Rightarrow> (sim_vardis, unit) action" where
  "sendToBP req = sim_vardis_send (SendToBP req)"

definition sendRegisterProtocolRequest ::
  "BPProtocolIdT \<Rightarrow> string \<Rightarrow> BPLengthT \<Rightarrow> BPQueueingMode \<Rightarrow> bool \<Rightarrow> u32 \<Rightarrow> (sim_vardis, unit) action" where
  "sendRegisterProtocolRequest protId protName maxPayloadLenB queueingMode allowMultiplePayloads maxEntries =
     sendToBP (RegisterProtocol_Request (uint protId) protName (uint maxPayloadLenB) queueingMode (uint maxEntries) allowMultiplePayloads)"

definition sendDeregisterProtocolRequest :: "BPProtocolIdT \<Rightarrow> (sim_vardis, unit) action" where
  "sendDeregisterProtocolRequest protId = sendToBP (DeregisterProtocol_Request (uint protId))"

definition dcpVersionNumber :: string where
  "dcpVersionNumber = ''1.3''"

definition registerAsBPClient :: "(sim_vardis, unit) action" where
  "registerAsBPClient = bindE (getE sv_maxPayloadSize) (\<lambda>maxPayloadSize.
     sendRegisterProtocolRequest BP_PROTID_VARDIS (''VarDis -- Variable Dissemination Protocol V'' @ dcpVersionNumber)
       maxPayloadSize BP_QMODE_QUEUE_DROPHEAD False 10)"

text \<open>
  A confirmed registration creates the store and the protocol data; \<open>memory\<close> is the previous contents of the memory of the store.
  The handler of the base class logs the status.
\<close>

definition handleBPRegisterProtocol_Confirm :: "(nat \<Rightarrow> u8) \<times> (nat \<Rightarrow> u8) \<Rightarrow> DcpStatus \<Rightarrow> (sim_vardis, bool) action" where
  "handleBPRegisterProtocol_Confirm memory status = (\<lambda>s.
     if status \<noteq> BP_STATUS_OK then (Inl cRuntimeError, s)
     else case initialize_array_store (VarLenT_max_val + 1) (MAX_maxDescriptionLength + 1) (Some memory) (ucast (sv_maxSummaries s))
                 (sv_maxDescriptionLength s) (sv_maxValueLength s) (sv_maxRepetitions s) (sv_ownNodeId s) of
            Inl e \<Rightarrow> (Inl e, s)
          | Inr store \<Rightarrow> (Inr (status = BP_STATUS_OK),
              s\<lparr>sv_protocol_data := Some (new_VardisProtocolData (set_vardis_isactive True store))\<rparr>))"

definition handle_registerMsg :: "(sim_vardis, unit) action" where
  "handle_registerMsg =
     bindE (throw_if assertion_failure sv_registrationRequested) (\<lambda>_.
     bindE (modifyE (\<lambda>s. s\<lparr>sv_registrationRequested := True, sv_registerMsg := False\<rparr>)) (\<lambda>_.
     registerAsBPClient))"

text \<open>The messages that the base class handles; the result tells whether it did.\<close>

definition hasHandledMessageBPClient :: "(nat \<Rightarrow> u8) \<times> (nat \<Rightarrow> u8) \<Rightarrow> bp_message \<Rightarrow> (sim_vardis, bool) action" where
  "hasHandledMessageBPClient memory msg =
     (case msg of
        RegisterProtocol_Confirm status _ \<Rightarrow>
          bindE (throw_if assertion_failure (\<lambda>s. \<not> sv_registrationRequested s)) (\<lambda>_.
          bindE (throw_if assertion_failure sv_successfullyRegistered) (\<lambda>_.
          bindE (handleBPRegisterProtocol_Confirm memory status) (\<lambda>ok.
          bindE (if ok then modifyE (\<lambda>s. s\<lparr>sv_successfullyRegistered := True, sv_registrationRequested := False\<rparr>) else retE ()) (\<lambda>_.
          retE True))))
      | DeregisterProtocol_Confirm status \<Rightarrow>
          bindE (throw_if assertion_failure sv_registrationRequested) (\<lambda>_.
          bindE (throw_if assertion_failure (\<lambda>s. \<not> sv_successfullyRegistered s)) (\<lambda>_.
          bindE (if status = BP_STATUS_OK then modifyE (\<lambda>s. s\<lparr>sv_successfullyRegistered := True, sv_registrationRequested := False\<rparr>)
                 else retE ()) (\<lambda>_.
          retE True)))
      | TransmitPayload_Confirm status \<Rightarrow>
          bindE (throw_if assertion_failure sv_registrationRequested) (\<lambda>_.
          bindE (throw_if assertion_failure (\<lambda>s. \<not> sv_successfullyRegistered s)) (\<lambda>_.
          retE True))
      | _ \<Rightarrow> retE False)"

section \<open>Payloads for transmission\<close>

text \<open>The payload is built in a byte vector of the largest size, which is then cut to what was used.\<close>

definition constructPayload :: "BPLengthT \<Rightarrow> u8 list \<Rightarrow> (VardisProtocolData, u8 list \<times> nat) action" where
  "constructPayload maxPayloadSize bv = (\<lambda>pd.
     case ByteVectorAssemblyArea_vect (unat maxPayloadSize) bv of
       Inl e \<Rightarrow> (Inl e, pd)
     | Inr area \<Rightarrow>
         (case make_containers \<lparr>tx_pd = pd, tx_area = area, tx_containers = 0\<rparr> of
            (Inl e, s) \<Rightarrow> (Inl e, tx_pd s)
          | (Inr _, s) \<Rightarrow> (Inr (take (bytes_used (tx_area s)) (aa_buffer (tx_area s)), tx_containers s), tx_pd s)))"

definition generatePayload :: "(sim_vardis, unit) action" where
  "generatePayload =
     bindE vardisActive (\<lambda>active.
     if \<not> active then retE ()
     else
       bindE (getE sv_maxPayloadSize) (\<lambda>maxPayloadSize.
       bindE (on_protocol_data (constructPayload maxPayloadSize (replicate (unat maxPayloadSize) 0))) (\<lambda>(bv, containers_added).
       if containers_added > 0 then
         bindE (sendToBP (TransmitPayload_Request (uint BP_PROTID_VARDIS) bv)) (\<lambda>_.
         modifyE (\<lambda>s. s\<lparr>sv_payloadSent := True\<rparr>))
       else retE ())))"

section \<open>Self messages\<close>

definition handleBufferCheckMsg :: "simtime_t \<Rightarrow> (sim_vardis, unit) action" where
  "handleBufferCheckMsg now =
     bindE (getE sv_bufferCheckPeriod) (\<lambda>period.
     bindE (sim_vardis_send (ScheduleAt bufferCheckMsg (now + period))) (\<lambda>_.
     sendToBP (QueryNumberBufferedPayloads_Request (uint BP_PROTID_VARDIS))))"

text \<open>The simulator takes the message off its list before it is handled.\<close>

definition handleSendPayloadMsg :: "(sim_vardis, unit) action" where
  "handleSendPayloadMsg =
     bindE (modifyE (\<lambda>s. s\<lparr>sv_sendPayloadScheduled := False\<rparr>)) (\<lambda>_.
     generatePayload)"

section \<open>Messages of the beaconing protocol\<close>

text \<open>
  \<open>wait\<close> maps the time until the next beacon to the delay with which the payload is generated.  The simulator
  refuses to schedule a message that is already scheduled.
\<close>

definition handleBPPayloadTransmittedIndication :: "(simtime_t \<Rightarrow> simtime_t) \<Rightarrow> simtime_t \<Rightarrow> int \<Rightarrow> simtime_t \<Rightarrow> (sim_vardis, unit) action" where
  "handleBPPayloadTransmittedIndication wait now protId nextBeaconTransmissionEpoch =
     (let generationDelay = nextBeaconTransmissionEpoch - now in
      if protId \<noteq> uint BP_PROTID_VARDIS \<or> \<not> generationDelay > 0 then throwE assertion_failure
      else
        bindE (modifyE (\<lambda>s. s\<lparr>sv_payloadSent := False\<rparr>)) (\<lambda>_.
        bindE (throw_if cRuntimeError sv_sendPayloadScheduled) (\<lambda>_.
        bindE (modifyE (\<lambda>s. s\<lparr>sv_sendPayloadScheduled := True\<rparr>)) (\<lambda>_.
        sim_vardis_send (ScheduleAt sendPayloadMsg (now + wait generationDelay))))))"

definition handleBPQueryNumberBufferedPayloadsConfirm :: "int \<Rightarrow> int \<Rightarrow> (sim_vardis, unit) action" where
  "handleBPQueryNumberBufferedPayloadsConfirm protId numberBuffered =
     (if protId \<noteq> uint BP_PROTID_VARDIS \<or> \<not> numberBuffered \<ge> 0 then throwE assertion_failure
      else (\<lambda>s. if numberBuffered = 0 \<and> \<not> sv_payloadSent s \<and> \<not> sv_sendPayloadScheduled s then generatePayload s
                else (Inr (), s)))"

text \<open>The loop is that of the receiver of the implementation, with its own exception.\<close>

definition sim_extractInstructionContainerElements :: "(da, 'a) action \<Rightarrow> ICHeaderT \<Rightarrow> (da, 'a list) action" where
  "sim_extractInstructionContainerElements des icHeader =
     (if icNumRecords icHeader = 0 then throwE cRuntimeError
      else repeatE (unat (icNumRecords icHeader)) des)"

definition sim_dispatch_container :: "ICHeaderT \<Rightarrow> rx_lists \<Rightarrow> (da, rx_lists) action" where
  "sim_dispatch_container h rx =
     (if icType h = ICTYPE_SUMMARIES then
        bindE (sim_extractInstructionContainerElements des_VarSummT h) (\<lambda>xs.
        retE (rx\<lparr>icSummaries := icSummaries rx @ xs\<rparr>))
      else if icType h = ICTYPE_UPDATES then
        bindE (sim_extractInstructionContainerElements des_VarUpdateT h) (\<lambda>xs.
        retE (rx\<lparr>icUpdates := icUpdates rx @ xs\<rparr>))
      else if icType h = ICTYPE_REQUEST_VARUPDATES then
        bindE (sim_extractInstructionContainerElements des_VarReqUpdateT h) (\<lambda>xs.
        retE (rx\<lparr>icRequestVarUpdates := icRequestVarUpdates rx @ xs\<rparr>))
      else if icType h = ICTYPE_REQUEST_VARCREATES then
        bindE (sim_extractInstructionContainerElements des_VarReqCreateT h) (\<lambda>xs.
        retE (rx\<lparr>icRequestVarCreates := icRequestVarCreates rx @ xs\<rparr>))
      else if icType h = ICTYPE_CREATE_VARIABLES then
        bindE (sim_extractInstructionContainerElements des_VarCreateT h) (\<lambda>xs.
        retE (rx\<lparr>icCreateVariables := icCreateVariables rx @ xs\<rparr>))
      else if icType h = ICTYPE_DELETE_VARIABLES then
        bindE (sim_extractInstructionContainerElements des_VarDeleteT h) (\<lambda>xs.
        retE (rx\<lparr>icDeleteVariables := icDeleteVariables rx @ xs\<rparr>))
      else throwE cRuntimeError)"

text \<open>The \<open>while\<close> loop; the value \<open>None\<close> stands for a loop that does not end.\<close>

partial_function (option) sim_parse_containers :: "rx_lists \<Rightarrow> da \<Rightarrow> ((dcp_error + rx_lists) \<times> da) option" where
  "sim_parse_containers rx area =
     (if bytes_used area < bytes_available area then
        (case des_ICHeaderT area of
           (Inl e, area1) \<Rightarrow> Some (Inl e, area1)
         | (Inr icHeader, area1) \<Rightarrow>
             (case sim_dispatch_container icHeader rx area1 of
                (Inl e, area2) \<Rightarrow> Some (Inl e, area2)
              | (Inr rx', area2) \<Rightarrow> sim_parse_containers rx' area2))
      else Some (Inr rx, area))"

text \<open>The records are applied in the specified order; \<open>clock\<close> as in \<open>process_records\<close>.\<close>

definition processVarCreateList :: "(nat \<Rightarrow> TimeStampT) \<Rightarrow> VarCreateT list \<Rightarrow> (VardisProtocolData, unit) action" where
  "processVarCreateList clock creates = forE (\<lambda>(k, c). process_var_create (clock k) c) (List.enumerate 0 creates)"

definition processVarDeleteList :: "VarDeleteT list \<Rightarrow> (VardisProtocolData, unit) action" where
  "processVarDeleteList deletes = forE process_var_delete deletes"

definition processVarUpdateList :: "(nat \<Rightarrow> TimeStampT) \<Rightarrow> nat \<Rightarrow> VarUpdateT list \<Rightarrow> (VardisProtocolData, unit) action" where
  "processVarUpdateList clock n updates = forE (\<lambda>(k, u). process_var_update (clock k) u) (List.enumerate n updates)"

definition processVarSummaryList :: "VarSummT list \<Rightarrow> (VardisProtocolData, unit) action" where
  "processVarSummaryList summs = forE process_var_summary summs"

definition processVarReqUpdateList :: "VarReqUpdateT list \<Rightarrow> (VardisProtocolData, unit) action" where
  "processVarReqUpdateList requpdates = forE process_var_requpdate requpdates"

definition processVarReqCreateList :: "VarReqCreateT list \<Rightarrow> (VardisProtocolData, unit) action" where
  "processVarReqCreateList reqcreates = forE process_var_reqcreate reqcreates"

definition sim_process_records :: "(nat \<Rightarrow> TimeStampT) \<Rightarrow> rx_lists \<Rightarrow> (VardisProtocolData, unit) action" where
  "sim_process_records clock rx =
     bindE (processVarCreateList clock (icCreateVariables rx)) (\<lambda>_.
     bindE (processVarDeleteList (icDeleteVariables rx)) (\<lambda>_.
     bindE (processVarUpdateList clock (length (icCreateVariables rx)) (icUpdates rx)) (\<lambda>_.
     bindE (processVarSummaryList (icSummaries rx)) (\<lambda>_.
     bindE (processVarReqUpdateList (icRequestVarUpdates rx)) (\<lambda>_.
     processVarReqCreateList (icRequestVarCreates rx))))))"

definition handleBPReceivedPayloadIndication ::
  "(nat \<Rightarrow> TimeStampT) \<Rightarrow> int \<Rightarrow> u8 list \<Rightarrow> sim_vardis \<Rightarrow> ((dcp_error + unit) \<times> sim_vardis) option" where
  "handleBPReceivedPayloadIndication clock protId bvpayload s =
     (if protId \<noteq> uint BP_PROTID_VARDIS then Some (Inl assertion_failure, s)
      else case vardisActive s of
             (Inl e, s) \<Rightarrow> Some (Inl e, s)
           | (Inr active, s) \<Rightarrow>
               if \<not> active then Some (Inr (), s)
               else (case sim_parse_containers new_rx_lists (ByteVectorDisassemblyArea bvpayload) of
                       None \<Rightarrow> None
                     | Some (Inl e, _) \<Rightarrow> Some (Inl e, s)
                     | Some (Inr rx, _) \<Rightarrow> Some (on_protocol_data (sim_process_records clock rx) s)))"

section \<open>Requests of applications\<close>

text \<open>The application is known by the protocol that the dispatcher has recorded; times are readings of the system clock.\<close>

definition sendConfirmation :: "nat \<Rightarrow> rtdb_confirm \<Rightarrow> (sim_vardis, unit) action" where
  "sendConfirmation theProtocol confMsg = sim_vardis_send (SendToApplication theProtocol confMsg)"

definition sendRTDBCreateConfirm :: "DcpStatus \<Rightarrow> VarIdT \<Rightarrow> nat \<Rightarrow> (sim_vardis, unit) action" where
  "sendRTDBCreateConfirm status varId theProtocol = sendConfirmation theProtocol (RTDBCreate_Confirm status varId)"

definition sendRTDBUpdateConfirm :: "DcpStatus \<Rightarrow> VarIdT \<Rightarrow> nat \<Rightarrow> (sim_vardis, unit) action" where
  "sendRTDBUpdateConfirm status varId theProtocol = sendConfirmation theProtocol (RTDBUpdate_Confirm status varId)"

definition handleRTDBCreateRequest :: "TimeStampT \<times> TimeStampT \<Rightarrow> nat \<Rightarrow> RTDB_Create_Request \<Rightarrow> (sim_vardis, unit) action" where
  "handleRTDBCreateRequest tms theProtocol crReq =
     bindE (on_protocol_data (handle_rtdb_create_request (fst tms) (snd tms) crReq)) (\<lambda>crConf.
     sendRTDBCreateConfirm (snd (cnf_type_status crConf)) (spec_varId (crq_spec crReq)) theProtocol)"

definition handleRTDBUpdateRequest :: "TimeStampT \<times> TimeStampT \<Rightarrow> nat \<Rightarrow> RTDB_Update_Request \<Rightarrow> (sim_vardis, unit) action" where
  "handleRTDBUpdateRequest tms theProtocol updReq =
     bindE (on_protocol_data (handle_rtdb_update_request (fst tms) updReq)) (\<lambda>updConf.
     sendRTDBUpdateConfirm (snd (cnf_type_status updConf)) (urq_varId updReq) theProtocol)"

definition handleRTDBReadRequest :: "nat \<Rightarrow> RTDB_Read_Request \<Rightarrow> (sim_vardis, unit) action" where
  "handleRTDBReadRequest theProtocol rReq =
     bindE (on_protocol_data (handle_rtdb_read_request rReq)) (\<lambda>rConf.
     sendConfirmation theProtocol (RTDBRead_Confirm (snd (cnf_type_status rConf)) rConf))"

definition handleRTDBDeleteRequest :: "nat \<Rightarrow> RTDB_Delete_Request \<Rightarrow> (sim_vardis, unit) action" where
  "handleRTDBDeleteRequest theProtocol delReq =
     bindE (on_protocol_data (handle_rtdb_delete_request delReq)) (\<lambda>delConf.
     sendConfirmation theProtocol (RTDBDelete_Confirm (snd (cnf_type_status delConf))))"

text \<open>
  The array of descriptions has as many elements as the store has variables, and an index beyond it ends the simulation.
  \<open>descr0\<close> is a new description; its fields \<open>creationTime\<close> and \<open>timeout\<close> are not set.
\<close>

definition sim_description :: "DescribeDatabaseVariableDescription \<Rightarrow> VarIdT \<Rightarrow> (ArrayContents, DescribeDatabaseVariableDescription) action" where
  "sim_description descr0 varId =
     bindE (get_db_entry_ref varId) (\<lambda>db_entry.
     bindE (read_description_block varId (Some (dd_description descr0))) (\<lambda>description.
     retE (descr0\<lparr>dd_varId := db_varId db_entry, dd_prodId := db_prodId db_entry, dd_repCnt := db_repCnt db_entry,
           dd_tStamp := db_tStamp db_entry, dd_isDeleted := db_isDeleted db_entry, dd_description := description\<rparr>)))"

fun sim_descriptions :: "DescribeDatabaseVariableDescription \<Rightarrow> nat \<Rightarrow> VarIdT list \<Rightarrow> DescribeDatabaseVariableDescription list
     \<Rightarrow> (ArrayContents, DescribeDatabaseVariableDescription list) action" where
  "sim_descriptions descr0 i [] descrs = retE descrs"
| "sim_descriptions descr0 i (varId # varIds) descrs =
     bindE (sim_description descr0 varId) (\<lambda>descr.
     if i \<ge> length descrs then throwE cRuntimeError
     else sim_descriptions descr0 (i + 1) varIds (descrs[i := descr]))"

definition handleRTDBDescribeDatabaseRequest :: "DescribeDatabaseVariableDescription \<Rightarrow> nat \<Rightarrow> (sim_vardis, unit) action" where
  "handleRTDBDescribeDatabaseRequest descr0 theProtocol =
     bindE (on_protocol_data (getE (\<lambda>pd. replicate (get_number_variables (vardis_store pd)) descr0))) (\<lambda>descrs.
     bindE vardisActive (\<lambda>active.
     if \<not> active then sendConfirmation theProtocol (RTDBDescribeDatabase_Confirm VARDIS_STATUS_INACTIVE [])
     else
       bindE (on_protocol_data (getE (\<lambda>pd. sorted_list_of_set (active_variables pd)))) (\<lambda>varIds.
       bindE (on_protocol_data (on_store (sim_descriptions descr0 0 varIds descrs))) (\<lambda>descrs.
       sendConfirmation theProtocol (RTDBDescribeDatabase_Confirm VARDIS_STATUS_OK descrs)))))"

definition sim_variable_entry :: "VarIdT \<Rightarrow> (ArrayContents, sim_variable) action" where
  "sim_variable_entry varId =
     bindE (get_db_entry_ref varId) (\<lambda>theEntry.
     bindE (read_value varId) (\<lambda>value.
     bindE (read_description varId) (\<lambda>descr.
     retE \<lparr>svd_varId = varId, svd_prodId = db_prodId theEntry, svd_repCnt = db_repCnt theEntry, svd_descr = descr, svd_value = value,
           svd_seqno = db_seqno theEntry, svd_tstamp = db_tStamp theEntry, svd_countUpdate = db_countUpdate theEntry,
           svd_countCreate = db_countCreate theEntry, svd_countDelete = db_countDelete theEntry, svd_isDeleted = db_isDeleted theEntry\<rparr>)))"

definition handleRTDBDescribeVariableRequest :: "nat \<Rightarrow> VarIdT \<Rightarrow> (sim_vardis, unit) action" where
  "handleRTDBDescribeVariableRequest theProtocol varId =
     bindE vardisActive (\<lambda>active.
     if \<not> active then sendConfirmation theProtocol (RTDBDescribeVariable_Confirm VARDIS_STATUS_INACTIVE None)
     else
       bindE (on_protocol_data (getE (variableExists varId))) (\<lambda>exists.
       if \<not> exists then sendConfirmation theProtocol (RTDBDescribeVariable_Confirm VARDIS_STATUS_VARIABLE_DOES_NOT_EXIST None)
       else
         bindE (on_protocol_data (on_store (sim_variable_entry varId))) (\<lambda>varDescr.
         sendConfirmation theProtocol (RTDBDescribeVariable_Confirm VARDIS_STATUS_OK (Some varDescr)))))"

fun handleApplicationMessage ::
  "TimeStampT \<times> TimeStampT \<Rightarrow> DescribeDatabaseVariableDescription \<Rightarrow> nat \<Rightarrow> rtdb_request \<Rightarrow> (sim_vardis, unit) action" where
  "handleApplicationMessage tms descr0 app (RTDBUpdate_Request req) = handleRTDBUpdateRequest tms app req"
| "handleApplicationMessage tms descr0 app (RTDBRead_Request req) = handleRTDBReadRequest app req"
| "handleApplicationMessage tms descr0 app (RTDBCreate_Request req) = handleRTDBCreateRequest tms app req"
| "handleApplicationMessage tms descr0 app (RTDBDelete_Request req) = handleRTDBDeleteRequest app req"
| "handleApplicationMessage tms descr0 app RTDBDescribeDatabase_Request = handleRTDBDescribeDatabaseRequest descr0 app"
| "handleApplicationMessage tms descr0 app (RTDBDescribeVariable_Request varId) = handleRTDBDescribeVariableRequest app varId"
| "handleApplicationMessage tms descr0 app Unknown_Request = throwE cRuntimeError"

section \<open>The module\<close>

text \<open>
  What the environment contributes to a message of the beaconing protocol: the memory for a store, the clock, the time and
  the delay of the next payload.
\<close>

record vardis_env =
  ve_memory :: "(nat \<Rightarrow> u8) \<times> (nat \<Rightarrow> u8)"
  ve_clock :: "nat \<Rightarrow> TimeStampT"
  ve_now :: simtime_t
  ve_wait :: "simtime_t \<Rightarrow> simtime_t"

fun handleBPMessage :: "vardis_env \<Rightarrow> bp_message \<Rightarrow> sim_vardis \<Rightarrow> ((dcp_error + unit) \<times> sim_vardis) option" where
  "handleBPMessage env (PayloadTransmitted_Indication protId epoch) s =
     Some (handleBPPayloadTransmittedIndication (ve_wait env) (ve_now env) protId epoch s)"
| "handleBPMessage env (ReceivePayload_Indication protId bvpayload) s = handleBPReceivedPayloadIndication (ve_clock env) protId bvpayload s"
| "handleBPMessage env (QueryNumberBufferedPayloads_Confirm status protId numberBuffered) s =
     Some (handleBPQueryNumberBufferedPayloadsConfirm protId numberBuffered s)"
| "handleBPMessage env msg s = Some (Inl cRuntimeError, s)"

datatype vardis_event =
    SelfMessage simtime_t self_message
  | FromBP vardis_env bp_message
  | FromApplication "TimeStampT \<times> TimeStampT" DescribeDatabaseVariableDescription nat rtdb_request

fun vardis_handleMessage :: "vardis_event \<Rightarrow> sim_vardis \<Rightarrow> ((dcp_error + unit) \<times> sim_vardis) option" where
  "vardis_handleMessage (SelfMessage now registerMsg) s = Some (handle_registerMsg s)"
| "vardis_handleMessage (SelfMessage now bufferCheckMsg) s = Some (handleBufferCheckMsg now s)"
| "vardis_handleMessage (SelfMessage now sendPayloadMsg) s = Some (handleSendPayloadMsg s)"
| "vardis_handleMessage (FromApplication tms descr0 app req) s = Some (handleApplicationMessage tms descr0 app req s)"
| "vardis_handleMessage (FromBP env msg) s =
     (case hasHandledMessageBPClient (ve_memory env) msg s of
        (Inl e, s) \<Rightarrow> Some (Inl e, s)
      | (Inr True, s) \<Rightarrow> Some (Inr (), s)
      | (Inr False, s) \<Rightarrow> handleBPMessage env msg s)"

end
