(* ===== verification/VardisActivity.thy ===== *)
theory VardisActivity
  imports VardisReceive
begin

text \<open>
  The flag of the store that tells whether VarDis is active is only changed by the commands: no received record
  changes it.
\<close>

definition activity :: "bool \<Rightarrow> VardisProtocolData \<Rightarrow> bool" where
  "activity a pd \<longleftrightarrow> get_vardis_isactive (vardis_store pd) = a"

lemma activity_snd:
  "(b \<Longrightarrow> activity a (snd x)) \<Longrightarrow> (\<not> b \<Longrightarrow> activity a (snd y)) \<Longrightarrow> activity a (snd (if b then x else y))"
  "activity a s \<Longrightarrow> activity a (snd (r, s))"
  "activity a s \<Longrightarrow> preserves (activity a) (bindE m f) \<Longrightarrow> activity a (snd (bindE m f s))"
  "activity a s \<Longrightarrow> preserves (activity a) (reqCreateQ_insert i) \<Longrightarrow> activity a (snd (reqCreateQ_insert i s))"
  by (simp_all add: preserves_def)

lemma preserves_on_store: "preserves (\<lambda>st. get_vardis_isactive st = a) m \<Longrightarrow> preserves (activity a) (on_store m)"
  unfolding preserves_def activity_def
proof (intro allI impI)
  fix pd :: VardisProtocolData assume "\<forall>st. get_vardis_isactive st = a \<longrightarrow> get_vardis_isactive (snd (m st)) = a"
    and "get_vardis_isactive (vardis_store pd) = a"
  then have "get_vardis_isactive (snd (m (vardis_store pd))) = a" by simp
  then show "get_vardis_isactive (vardis_store (snd (on_store m pd))) = a"
    by (cases "m (vardis_store pd)") (simp add: on_store_def zoomE_def)
qed

lemma store_activity [simp]:
  "get_vardis_isactive (modify_stats f st) = get_vardis_isactive st"
  "get_vardis_isactive (modify_id_state i g st) = get_vardis_isactive st"
  "get_vardis_isactive (modify_db_entry i h st) = get_vardis_isactive st"
  by (simp_all add: get_vardis_isactive_def modify_stats_def modify_id_state_def modify_db_entry_def)

lemma store_operations_keep_activity:
  fixes a
  defines "P \<equiv> \<lambda>st. get_vardis_isactive st = a"
  shows "preserves P (allocate_identifier i)" "preserves P (set_db_entry i e)" "preserves P (update_description i d)"
    "preserves P (update_value i v)" "preserves P (get_db_entry_ref i)" "preserves P (read_value i)"
  unfolding P_def
  by (auto simp: preserves_def bindE_def allocate_identifier_def set_db_entry_def update_description_def update_value_def
      get_db_entry_ref_def read_value_def throw_unused_def Let_def rb_pop_def zoomE_def get_vardis_isactive_def modify_id_state_def split: sum.splits prod.splits if_splits)

lemma modify_keeps_activity:
  fixes a
  shows "preserves (activity a) (modify_entry i h)" "preserves (activity a) (count_stats g)" "preserves (activity a) (producerIsMe i)"
    "preserves (activity a) (modifyE (\<lambda>pd. pd\<lparr>active_variables := av pd\<rparr>))"
  using preserves_on_store [OF store_operations_keep_activity(5)]
  by (auto simp: modify_entry_def count_stats_def producerIsMe_def activity_def preserves_def [where m = "modifyE _" for f] intro!: wf_intros)

lemma queues_keep_activity:
  fixes a i
  defines "P \<equiv> activity a"
  shows "preserves P (createQ_remove i)" "preserves P (deleteQ_remove i)" "preserves P (updateQ_remove i)" "preserves P (summaryQ_remove i)"
    "preserves P (reqUpdQ_remove i)" "preserves P (reqCreateQ_remove i)" "preserves P (createQ_insert i)" "preserves P (deleteQ_insert i)"
    "preserves P (updateQ_insert i)" "preserves P (summaryQ_insert i)" "preserves P (reqUpdQ_insert i)" "preserves P (reqCreateQ_insert i)"
  unfolding P_def by (simp_all add: queue_op_defs preserves_def activity_def)

lemmas activity_intros = store_operations_keep_activity [THEN preserves_on_store] modify_keeps_activity
  queues_keep_activity

lemma process_var_create_activity: "preserves (activity a) (process_var_create now c)"
  unfolding process_var_create_def Let_def
  by (rule preservesI) (intro activity_snd wf_intros activity_intros; assumption?)

lemma process_var_delete_activity: "preserves (activity a) (process_var_delete d)"
  unfolding process_var_delete_def Let_def
  by (rule preservesI) (intro activity_snd wf_intros activity_intros; assumption?)

lemma process_var_update_activity: "preserves (activity a) (process_var_update now u)"
  unfolding process_var_update_def Let_def
  by (rule preservesI) (intro activity_snd wf_intros activity_intros; assumption?)

lemma process_var_summary_activity: "preserves (activity a) (process_var_summary y)"
  unfolding process_var_summary_def Let_def
  by (rule preservesI) (intro activity_snd wf_intros activity_intros; assumption?)

lemma process_var_requpdate_activity: "preserves (activity a) (process_var_requpdate q)"
  unfolding process_var_requpdate_def Let_def
  by (rule preservesI) (intro activity_snd wf_intros activity_intros; assumption?)

lemma process_var_reqcreate_activity: "preserves (activity a) (process_var_reqcreate r)"
  unfolding process_var_reqcreate_def Let_def
  by (rule preservesI) (intro activity_snd wf_intros activity_intros; assumption?)

lemma process_records_activity: "preserves (activity a) (process_records clock rx)"
  unfolding process_records_def
  by (intro wf_intros; simp add: split_beta process_var_create_activity process_var_delete_activity process_var_update_activity
      process_var_summary_activity process_var_requpdate_activity process_var_reqcreate_activity)

end
