(* ===== verification/SimVardisCorrect.thy ===== *)
theory SimVardisCorrect
  imports SimVardis VardisActivity
begin

text \<open>
  Correctness of the simulated VarDis protocol: its receiver does what the receiver of the implementation does, its
  payloads are those of the implementation's transmitter, and every handler keeps the invariant.
\<close>

section \<open>The receiver of the implementation\<close>

text \<open>The same value, or an exception of each.\<close>

definition agrees :: "dcp_error + 'a \<Rightarrow> dcp_error + 'a \<Rightarrow> bool" where
  "agrees r r' \<longleftrightarrow> (case r of Inr x \<Rightarrow> r' = Inr x | Inl e \<Rightarrow> \<exists>e'. r' = Inl e')"

lemma agrees_simps [simp]: "agrees (Inr x) r' \<longleftrightarrow> r' = Inr x" "agrees (Inl e) (Inl e')" "agrees r r"
  by (auto simp: agrees_def split: sum.split)

lemma sim_extract_same:
  "icNumRecords h \<noteq> 0 \<Longrightarrow> sim_extractInstructionContainerElements des h = extractInstructionContainerElements des h"
  by (simp add: sim_extractInstructionContainerElements_def extractInstructionContainerElements_def)

lemma sim_dispatch_agrees:
  assumes "dispatch_container h rx d = (r, d')"
  shows "\<exists>r'. sim_dispatch_container h rx d = (r', d') \<and> agrees r r'"
proof (cases "icNumRecords h = 0")
  case True
  then have "r = Inl VardisReceiveException \<and> d' = d"
    using assms by (auto simp: dispatch_container_def extractInstructionContainerElements_def split: if_splits)
  moreover have "sim_dispatch_container h rx d = (Inl cRuntimeError, d)"
    using True by (simp add: sim_dispatch_container_def sim_extractInstructionContainerElements_def)
  ultimately show ?thesis by simp
next
  case False
  show ?thesis
  proof (cases "icType h \<in> {ICTYPE_SUMMARIES, ICTYPE_UPDATES, ICTYPE_REQUEST_VARUPDATES, ICTYPE_REQUEST_VARCREATES,
      ICTYPE_CREATE_VARIABLES, ICTYPE_DELETE_VARIABLES}")
    case True
    then have "sim_dispatch_container h rx d = dispatch_container h rx d"
      unfolding sim_dispatch_container_def dispatch_container_def sim_extract_same [OF False] by auto
    then show ?thesis using assms by simp
  next
    case unknown: False
    then have "r = Inl VardisReceiveException \<and> d' = d" using assms by (simp add: dispatch_container_def)
    with unknown show ?thesis by (simp add: sim_dispatch_container_def)
  qed
qed

lemma sim_parse_agrees:
  "wf_da d \<Longrightarrow> rx_ok rx \<Longrightarrow> parse_containers rx d = Some (r, d') \<Longrightarrow> \<exists>r'. sim_parse_containers rx d = Some (r', d') \<and> agrees r r'"
proof (induction "bytes_available d" arbitrary: d rx rule: less_induct)
  case less
  show ?case
  proof (cases "bytes_used d < bytes_available d")
    case False
    then have "r = Inr rx \<and> d' = d" using less.prems(3) by (simp add: parse_containers.simps [of rx d])
    with False show ?thesis by (simp add: sim_parse_containers.simps [of rx d])
  next
    case True
    obtain q d1 where h: "des_ICHeaderT d = (q, d1)" by (cases "des_ICHeaderT d")
    show ?thesis
    proof (cases q)
      case (Inl e)
      then show ?thesis using less.prems(3) True h by (simp add: parse_containers.simps [of rx d] sim_parse_containers.simps [of rx d])
    next
      case q: (Inr hdr)
      note H = header_codec.des_soundD [OF h [unfolded q] less.prems(1)]
      have l: "bytes_available d1 < bytes_available d"
        using H(2) length_da_rest [OF less.prems(1)] length_da_rest [OF H(3)] by (simp add: ICHeaderT_fixed_size_def)
      obtain p d2 where c: "dispatch_container hdr rx d1 = (p, d2)" by (cases "dispatch_container hdr rx d1")
      obtain p' where c': "sim_dispatch_container hdr rx d1 = (p', d2)" "agrees p p'" using sim_dispatch_agrees [OF c] by blast
      show ?thesis
      proof (cases p)
        case (Inl e)
        with c'(2) obtain e' where "p' = Inl e'" by (auto simp: agrees_def)
        moreover have "r = Inl e \<and> d' = d2" using less.prems(3) True h q c Inl by (simp add: parse_containers.simps [of rx d])
        ultimately show ?thesis using True h q c'(1) by (simp add: sim_parse_containers.simps [of rx d])
      next
        case (Inr rx')
        from dispatch_sound [OF c [unfolded Inr] H(3) less.prems(2)] l
        have "bytes_available d2 < bytes_available d" "wf_da d2" "rx_ok rx'" by auto
        note ih = less.hyps [OF this]
        have "parse_containers rx' d2 = Some (r, d')"
          using less.prems(3) True h q c Inr by (simp add: parse_containers.simps [of rx d])
        from ih [OF this] show ?thesis
          using True h q c' Inr by (simp add: sim_parse_containers.simps [of rx d])
      qed
    qed
  qed
qed

lemma sim_process_records_same: "sim_process_records = process_records"
  by (intro ext) (simp add: sim_process_records_def process_records_def processVarCreateList_def processVarDeleteList_def
      processVarUpdateList_def processVarSummaryList_def processVarReqUpdateList_def processVarReqCreateList_def)

lemma rx_ok_new: "rx_ok new_rx_lists"
  by (simp add: rx_ok_def new_rx_lists_def)

lemma vardisActive_simps:
  "sv_protocol_data s = Some pd \<Longrightarrow> vardisActive s = (Inr (get_vardis_isactive (vardis_store pd)), s)"
  "sv_protocol_data s = None \<Longrightarrow> vardisActive s = (Inl null_pointer, s)"
  by (simp_all add: vardisActive_def on_protocol_data_def)

lemma sim_receive_agrees:
  assumes "sv_protocol_data s = Some pd" "get_vardis_isactive (vardis_store pd)"
    "process_received_payload clock (ByteVectorDisassemblyArea bv) pd = Some (r, pd')"
  shows "\<exists>r'. handleBPReceivedPayloadIndication clock (uint BP_PROTID_VARDIS) bv s = Some (r', s\<lparr>sv_protocol_data := Some pd'\<rparr>) \<and> agrees r r'"
proof -
  have w: "wf_da (ByteVectorDisassemblyArea bv)" by (rule wf_new_areas)
  obtain p d' where p: "parse_containers new_rx_lists (ByteVectorDisassemblyArea bv) = Some (p, d')"
    using parse_containers_total [OF w rx_ok_new] by blast
  obtain p' where p': "sim_parse_containers new_rx_lists (ByteVectorDisassemblyArea bv) = Some (p', d')" "agrees p p'"
    using sim_parse_agrees [OF w rx_ok_new p] by blast
  have s: "s\<lparr>sv_protocol_data := Some pd\<rparr> = s" using assms(1) by simp
  show ?thesis
  proof (cases p)
    case (Inl e)
    with p'(2) obtain e' where "p' = Inl e'" by (auto simp: agrees_def)
    moreover have "r = Inl e" "pd' = pd" using assms(3) p Inl by (simp_all add: process_received_payload_def)
    ultimately show ?thesis
      using assms(1,2) p'(1) s by (simp add: handleBPReceivedPayloadIndication_def vardisActive_simps)
  next
    case (Inr rx)
    then show ?thesis
      using assms p p' by (simp add: handleBPReceivedPayloadIndication_def vardisActive_simps process_received_payload_def
          on_protocol_data_def sim_process_records_same)
  qed
qed

section \<open>The transmitter of the implementation\<close>

text \<open>The payload and the state after it are those of \<open>construct_payload\<close> for an area of the largest payload size.\<close>

lemma constructPayload_ok:
  assumes "wf_pd pd" "0 < mps"
  obtains ch k where "choice_ok pd ch"
    "constructPayload mps (replicate (unat mps) 0) pd = (Inr (payload_bytes (sent_containers pd ch), k), after_sending ch pd)"
    "wf_pd (after_sending ch pd)" "same_conf pd (after_sending ch pd)" "length (payload_bytes (sent_containers pd ch)) \<le> unat mps"
    "k = 0 \<longleftrightarrow> payload_bytes (sent_containers pd ch) = []"
    "queue (createQ pd) \<noteq> [] \<and> instructionSizeVarCreate pd (hd (queue (createQ pd))) + 2 \<le> unat mps
       \<longrightarrow> hd (queue (createQ pd)) \<in> set (tx_creates ch)"
proof -
  let ?bv = "replicate (unat mps) (0 :: u8)"
  have n: "0 < unat mps" using assms(2) by (simp add: word_less_nat_alt)
  obtain a where a: "ByteVectorAssemblyArea_vect (unat mps) ?bv = Inr a" "wf_aa a" "bytes_used a = 0" "bytes_available a = unat mps" "aa_buffer a = ?bv"
    using new_vect_area [OF n] by blast
  obtain ch where ch: "choice_ok pd ch" "sends make_containers pd a (payload_bytes (sent_containers pd ch)) (after_sending ch pd)"
    "queue (createQ pd) \<noteq> [] \<and> instructionSizeVarCreate pd (hd (queue (createQ pd))) + 2 \<le> unat mps
       \<longrightarrow> hd (queue (createQ pd)) \<in> set (tx_creates ch)"
    using make_containers_spec [OF assms(1) a(2)] unfolding a(4) by blast
  from ch(2) have "\<exists>k. make_containers \<lparr>tx_pd = pd, tx_area = a, tx_containers = 0\<rparr> =
      (Inr (), \<lparr>tx_pd = after_sending ch pd, tx_area = aa_append (payload_bytes (sent_containers pd ch)) a, tx_containers = k\<rparr>)
      \<and> 0 \<le> k \<and> (0 = k \<longleftrightarrow> payload_bytes (sent_containers pd ch) = [])"
    unfolding sends_def by (elim conjE) (erule allE [of _ 0])
  then obtain k where k: "make_containers \<lparr>tx_pd = pd, tx_area = a, tx_containers = 0\<rparr> =
      (Inr (), \<lparr>tx_pd = after_sending ch pd, tx_area = aa_append (payload_bytes (sent_containers pd ch)) a, tx_containers = k\<rparr>)"
    "0 = k \<longleftrightarrow> payload_bytes (sent_containers pd ch) = []" by (elim exE conjE) (rule that)
  have l: "length (payload_bytes (sent_containers pd ch)) \<le> unat mps" using ch(2) a(4) by (simp add: sends_def)
  then have "take (length (payload_bytes (sent_containers pd ch))) (aa_buffer (aa_append (payload_bytes (sent_containers pd ch)) a))
      = payload_bytes (sent_containers pd ch)"
    using a(3,5) by (simp add: aa_append_def memcpy_at_def)
  then have "constructPayload mps ?bv pd = (Inr (payload_bytes (sent_containers pd ch), k), after_sending ch pd)"
    using a(1,3) k(1) by (simp add: constructPayload_def)
  with ch l k(2) show thesis by (intro that [of ch k]) (simp_all add: sends_def)
qed

section \<open>The invariant\<close>

text \<open>
  The store exists just when the registration is confirmed; before that, at most one of the register message and the request
  is on its way.
\<close>

definition sim_conf :: "sim_vardis \<Rightarrow> VardisProtocolData \<Rightarrow> bool" where
  "sim_conf s pd \<longleftrightarrow> ownNodeIdentifier pd = sv_ownNodeId s \<and> maxDescriptionLength pd = sv_maxDescriptionLength s
     \<and> maxValueLength pd = sv_maxValueLength s \<and> sv_maxDescriptionLength s < MAX_maxDescriptionLength"

lemma sim_conf_cong:
  "same_conf pd pd' \<Longrightarrow> sim_conf s pd \<Longrightarrow> sim_conf s pd'"
  "sim_conf (s\<lparr>sv_protocol_data := p\<rparr>) pd = sim_conf s pd" "sim_conf (s\<lparr>sv_outputs := os\<rparr>) pd = sim_conf s pd"
  "sim_conf (s\<lparr>sv_payloadSent := b\<rparr>) pd = sim_conf s pd" "sim_conf (s\<lparr>sv_sendPayloadScheduled := b\<rparr>) pd = sim_conf s pd"
  "sim_conf (s\<lparr>sv_successfullyRegistered := b\<rparr>) pd = sim_conf s pd" "sim_conf (s\<lparr>sv_registrationRequested := b\<rparr>) pd = sim_conf s pd"
  "sim_conf (s\<lparr>sv_registerMsg := b\<rparr>) pd = sim_conf s pd"
  by (simp_all add: sim_conf_def same_conf_def)

definition sim_vardis_ok :: "sim_vardis \<Rightarrow> bool" where
  "sim_vardis_ok s \<longleftrightarrow> vardis_parameters_ok (sv_maxPayloadSize s) (sv_maxValueLength s) (sv_maxDescriptionLength s)
       (sv_maxRepetitions s) (sv_maxSummaries s) (sv_bufferCheckPeriod s)
     \<and> (sv_successfullyRegistered s \<longleftrightarrow> sv_protocol_data s \<noteq> None)
     \<and> \<not> (sv_registrationRequested s \<and> sv_successfullyRegistered s)
     \<and> (sv_registerMsg s \<longrightarrow> \<not> sv_registrationRequested s \<and> \<not> sv_successfullyRegistered s)
     \<and> (\<forall>pd. sv_protocol_data s = Some pd \<longrightarrow> wf_pd pd \<and> sim_conf s pd)"

definition keeps_ok :: "(sim_vardis, 'a) action \<Rightarrow> bool" where
  "keeps_ok m \<longleftrightarrow> (\<forall>s x s'. sim_vardis_ok s \<longrightarrow> m s = (Inr x, s') \<longrightarrow> sim_vardis_ok s')"

lemma keeps_okD: "keeps_ok m \<Longrightarrow> sim_vardis_ok s \<Longrightarrow> m s = (Inr x, s') \<Longrightarrow> sim_vardis_ok s'"
  unfolding keeps_ok_def by blast

lemma keeps_bindE: "keeps_ok m \<Longrightarrow> (\<And>x. keeps_ok (f x)) \<Longrightarrow> keeps_ok (bindE m f)"
  unfolding keeps_ok_def by (blast elim: bindE_InrE)

lemma keeps_simple:
  "keeps_ok (retE x)" "keeps_ok (throwE e)" "keeps_ok (getE g)" "keeps_ok (throw_if e P)" "keeps_ok (sim_vardis_send m)"
  by (auto simp: keeps_ok_def sim_vardis_send_def sim_vardis_ok_def sim_conf_cong split: if_splits)

lemma keeps_if: "(b \<Longrightarrow> keeps_ok m) \<Longrightarrow> (\<not> b \<Longrightarrow> keeps_ok n) \<Longrightarrow> keeps_ok (if b then m else n)"
  by simp

lemma keeps_on_protocol_data:
  assumes "\<And>pd x pd'. wf_pd pd \<Longrightarrow> m pd = (Inr x, pd') \<Longrightarrow> wf_pd pd' \<and> same_conf pd pd'"
  shows "keeps_ok (on_protocol_data m)"
  unfolding keeps_ok_def
proof (intro allI impI)
  fix s x s' assume ok: "sim_vardis_ok s" and r: "on_protocol_data m s = (Inr x, s')"
  obtain pd pd' where pd: "sv_protocol_data s = Some pd" "m pd = (Inr x, pd')" "s' = s\<lparr>sv_protocol_data := Some pd'\<rparr>"
    using r by (auto simp: on_protocol_data_def split: option.splits prod.splits)
  then have "wf_pd pd' \<and> same_conf pd pd'" using ok by (intro assms) (auto simp: sim_vardis_ok_def)
  then show "sim_vardis_ok s'" using ok pd(1,3) by (auto simp: sim_vardis_ok_def sim_conf_cong)
qed

lemma keeps_reads: "keeps_ok (on_protocol_data (getE g))" "keeps_ok vardisActive"
  unfolding vardisActive_def by (intro keeps_on_protocol_data; simp)+

lemma keeps_unregistered: "keeps_ok (modifyE (\<lambda>s. s\<lparr>sv_payloadSent := b\<rparr>))" "keeps_ok (modifyE (\<lambda>s. s\<lparr>sv_sendPayloadScheduled := b\<rparr>))"
  by (auto simp: keeps_ok_def sim_vardis_ok_def sim_conf_cong)

lemmas keeps_rules = keeps_bindE keeps_simple keeps_if keeps_reads keeps_unregistered

text \<open>The handlers of the implementation, with the node identifier.\<close>

lemma own_pd_frames [simp]:
  "same_conf pd (with_stats f (deleted_pd i pd))" "same_conf pd (with_stats f pd)" "same_conf pd (own_updated_pd now r pd)"
  by (simp_all add: with_stats_def deleted_pd_def own_updated_pd_def same_conf_def)

lemma rtdb_handlers_keep:
  "wf_pd pd \<Longrightarrow> wf_RTDB_Create_Request c \<Longrightarrow> handle_rtdb_create_request t1 t2 c pd = (Inr x, pd') \<Longrightarrow> wf_pd pd' \<and> same_conf pd pd'"
  "wf_pd pd \<Longrightarrow> wf_RTDB_Update_Request u \<Longrightarrow> handle_rtdb_update_request t u pd = (Inr x, pd') \<Longrightarrow> wf_pd pd' \<and> same_conf pd pd'"
  "wf_pd pd \<Longrightarrow> handle_rtdb_delete_request d pd = (Inr x, pd') \<Longrightarrow> wf_pd pd' \<and> same_conf pd pd'"
  "wf_pd pd \<Longrightarrow> handle_rtdb_read_request r pd = (Inr y, pd') \<Longrightarrow> wf_pd pd' \<and> same_conf pd pd'"
proof -
  assume wf: "wf_pd pd"
  show "wf_pd pd' \<and> same_conf pd pd'" if c: "wf_RTDB_Create_Request c" "handle_rtdb_create_request t1 t2 c pd = (Inr x, pd')"
  proof -
    have "same_conf pd pd'"
    proof (cases "create_status pd c = VARDIS_STATUS_OK")
      case False
      then show ?thesis using handle_rtdb_create_refused [OF False] c(2) by simp
    next
      case True
      then have "mb_length (spec_descr (crq_spec c)) > 0"
        using handle_rtdb_create_empty_description [OF wf True, of t1 t2] c(2) by fastforce
      from handle_rtdb_create_accept [OF wf True c(1) this, of t1 t2] c(2) show ?thesis by auto
    qed
    then show ?thesis using create_request_ok [OF wf c] by simp
  qed
  show "wf_pd pd' \<and> same_conf pd pd'" if "wf_RTDB_Update_Request u" "handle_rtdb_update_request t u pd = (Inr x, pd')"
    using handlers_ok(2) [OF wf that] that by (auto simp: handle_rtdb_update_spec [OF wf] split: if_splits)
  show "wf_pd pd' \<and> same_conf pd pd'" if "handle_rtdb_delete_request d pd = (Inr x, pd')"
    using handlers_ok(1) [OF wf that] that by (auto simp: handle_rtdb_delete_spec split: if_splits)
  show "wf_pd pd' \<and> same_conf pd pd'" if "handle_rtdb_read_request r pd = (Inr y, pd')"
    using handlers_ok(3) [OF wf that] that by (auto simp: handle_rtdb_read_spec [OF wf] split: if_splits)
qed

lemma keeps_create: "wf_RTDB_Create_Request c \<Longrightarrow> keeps_ok (handleRTDBCreateRequest tms app c)"
  unfolding handleRTDBCreateRequest_def sendRTDBCreateConfirm_def sendConfirmation_def
  by (intro keeps_bindE keeps_simple keeps_on_protocol_data) (rule rtdb_handlers_keep(1))

lemma keeps_update: "wf_RTDB_Update_Request u \<Longrightarrow> keeps_ok (handleRTDBUpdateRequest tms app u)"
  unfolding handleRTDBUpdateRequest_def sendRTDBUpdateConfirm_def sendConfirmation_def
  by (intro keeps_bindE keeps_simple keeps_on_protocol_data) (rule rtdb_handlers_keep(2))

lemma keeps_delete: "keeps_ok (handleRTDBDeleteRequest app d)"
  unfolding handleRTDBDeleteRequest_def sendConfirmation_def
  by (intro keeps_bindE keeps_simple keeps_on_protocol_data) (rule rtdb_handlers_keep(3))

lemma keeps_read: "keeps_ok (handleRTDBReadRequest app r)"
  unfolding handleRTDBReadRequest_def sendConfirmation_def
  by (intro keeps_bindE keeps_simple keeps_on_protocol_data) (rule rtdb_handlers_keep(4))

text \<open>The descriptions only read the store.\<close>

definition reads_only :: "('s, 'a) action \<Rightarrow> bool" where
  "reads_only m \<longleftrightarrow> (\<forall>s. snd (m s) = s)"

lemma reads_only_rules:
  "reads_only (Pair r)" "reads_only (retE x)" "reads_only (throwE e)" "reads_only (getE g)" "reads_only (throw_if e P)"
  "reads_only m \<Longrightarrow> (\<And>x. reads_only (f x)) \<Longrightarrow> reads_only (bindE m f)"
  by (auto simp: reads_only_def bindE_def split: sum.split prod.split) (metis snd_conv)+

lemma reads_only_store: "reads_only m \<Longrightarrow> reads_only (on_store m)"
  unfolding reads_only_def
proof
  fix pd :: VardisProtocolData assume "\<forall>st. snd (m st) = st"
  then have "snd (m (vardis_store pd)) = vardis_store pd" by simp
  then show "snd (on_store m pd) = pd" by (cases "m (vardis_store pd)") (simp add: on_store_def zoomE_def)
qed

lemma reads_only_access: "reads_only (get_db_entry_ref i)" "reads_only (read_value i)" "reads_only (read_description i)"
    "reads_only (read_description_block i b)"
  by (auto simp: reads_only_def get_db_entry_ref_def read_value_def read_description_def read_description_block_def throw_unused_def bindE_def)

lemma reads_only_descriptions: "reads_only (sim_descriptions descr0 n vs ds)"
  by (induction descr0 n vs ds rule: sim_descriptions.induct)
    (auto simp: sim_description_def intro!: reads_only_rules reads_only_access)

lemma reads_only_variable: "reads_only (sim_variable_entry i)"
  by (simp add: sim_variable_entry_def reads_only_rules reads_only_access)

lemma keeps_reads_only: "reads_only m \<Longrightarrow> keeps_ok (on_protocol_data m)"
proof (intro keeps_on_protocol_data)
  fix pd x pd' assume "reads_only m" "wf_pd pd" "m pd = (Inr x, pd')"
  moreover from this have "pd' = pd" by (metis reads_only_def snd_conv)
  ultimately show "wf_pd pd' \<and> same_conf pd pd'" by simp
qed

lemma keeps_describe: "keeps_ok (handleRTDBDescribeDatabaseRequest descr0 app)" "keeps_ok (handleRTDBDescribeVariableRequest app i)"
  unfolding handleRTDBDescribeDatabaseRequest_def handleRTDBDescribeVariableRequest_def sendConfirmation_def
  by (intro keeps_rules keeps_reads_only reads_only_store reads_only_descriptions reads_only_variable)+

section \<open>Every message\<close>

lemma keeps_generate: "keeps_ok generatePayload"
  unfolding keeps_ok_def
proof (intro allI impI)
  fix s x s' assume ok: "sim_vardis_ok s" and r: "generatePayload s = (Inr x, s')"
  show "sim_vardis_ok s'"
  proof (cases "sv_protocol_data s")
    case None
    then show ?thesis using r by (simp add: generatePayload_def vardisActive_simps bindE_def)
  next
    case (Some pd)
    have wf: "wf_pd pd" "0 < sv_maxPayloadSize s" "sim_conf s pd"
      using ok Some by (auto simp: sim_vardis_ok_def vardis_parameters_ok_def)
    obtain ch k where c: "constructPayload (sv_maxPayloadSize s) (replicate (unat (sv_maxPayloadSize s)) 0) pd
        = (Inr (payload_bytes (sent_containers pd ch), k), after_sending ch pd)"
      "wf_pd (after_sending ch pd)" "same_conf pd (after_sending ch pd)"
      by (rule constructPayload_ok [OF wf(1,2)])
    have keep: "sim_vardis_ok (s\<lparr>sv_protocol_data := Some (after_sending ch pd)\<rparr>)"
      using ok Some c(2,3) by (auto simp: sim_vardis_ok_def sim_conf_cong)
    show ?thesis
    proof (cases "get_vardis_isactive (vardis_store pd) \<and> k > 0")
      case True
      then show ?thesis using r keep Some c(1)
        by (auto simp: generatePayload_def vardisActive_simps bindE_def on_protocol_data_def sendToBP_def sim_vardis_send_def sim_vardis_ok_def sim_conf_cong)
    next
      case False
      then show ?thesis using r ok keep Some c(1)
        by (auto simp: generatePayload_def vardisActive_simps bindE_def on_protocol_data_def split: if_splits)
    qed
  qed
qed

text \<open>Whatever bytes a payload has, its processing ends, and the invariant is kept even when it ends with an exception.\<close>

lemma sim_receive_total:
  assumes "sim_vardis_ok s"
  obtains r s' where "handleBPReceivedPayloadIndication clock protId bv s = Some (r, s')" "sim_vardis_ok s'" "sv_outputs s' = sv_outputs s"
proof (cases "protId = uint BP_PROTID_VARDIS \<and> (\<exists>pd. sv_protocol_data s = Some pd \<and> get_vardis_isactive (vardis_store pd))")
  case False
  then have "\<exists>r. handleBPReceivedPayloadIndication clock protId bv s = Some (r, s)"
    by (cases "sv_protocol_data s") (auto simp: handleBPReceivedPayloadIndication_def vardisActive_simps)
  then show ?thesis using that assms by blast
next
  case True
  then obtain pd where pd: "sv_protocol_data s = Some pd" "get_vardis_isactive (vardis_store pd)" "protId = uint BP_PROTID_VARDIS" by blast
  then have wf: "wf_pd pd" "sim_conf s pd" using assms by (auto simp: sim_vardis_ok_def)
  have w: "wf_da (ByteVectorDisassemblyArea bv)" by (rule wf_new_areas)
  obtain r pd' where
    p: "process_received_payload clock (ByteVectorDisassemblyArea bv) pd = Some (r, pd')" "wf_pd pd'" "same_conf pd pd'"
    by (rule process_received_payload_total [OF wf(1) w, of clock])
  from sim_receive_agrees [OF pd(1,2) p(1)] obtain r' where
    "handleBPReceivedPayloadIndication clock protId bv s = Some (r', s\<lparr>sv_protocol_data := Some pd'\<rparr>)"
    using pd(3) by auto
  moreover have "sim_vardis_ok (s\<lparr>sv_protocol_data := Some pd'\<rparr>)" using assms pd(1) wf(2) p(2,3) by (auto simp: sim_vardis_ok_def sim_conf_cong)
  ultimately show ?thesis using that by simp
qed

lemma sim_registered:
  assumes "sim_vardis_ok s" "sv_registrationRequested s" "handleBPRegisterProtocol_Confirm mem status s = (Inr ok, s1)"
  shows "ok" "sim_vardis_ok (s1\<lparr>sv_successfullyRegistered := True, sv_registrationRequested := False\<rparr>)"
proof -
  obtain store where st: "initialize_array_store (VarLenT_max_val + 1) (MAX_maxDescriptionLength + 1) (Some mem) (ucast (sv_maxSummaries s))
      (sv_maxDescriptionLength s) (sv_maxValueLength s) (sv_maxRepetitions s) (sv_ownNodeId s) = Inr store"
    and s1: "ok = True" "s1 = s\<lparr>sv_protocol_data := Some (new_VardisProtocolData (set_vardis_isactive True store))\<rparr>"
    using assms(3) by (auto simp: handleBPRegisterProtocol_Confirm_def split: if_splits sum.splits)
  then show ok by simp
  have d: "\<not> sv_maxDescriptionLength s \<ge> MAX_maxDescriptionLength + 1 - 8" "\<not> sv_maxValueLength s \<ge> VarLenT_max_val + 1 - 8"
    using st by (auto simp: initialize_array_store_def split: prod.splits if_splits)
  have "wf_pd (new_VardisProtocolData store)"
    by (rule initialized_wf [OF st]) (use d in \<open>simp_all add: MAX_maxDescriptionLength_def VarLenT_max_val_def\<close>)
  then have "wf_pd ((new_VardisProtocolData store)\<lparr>vardis_store := set_vardis_isactive True (vardis_store (new_VardisProtocolData store))\<rparr>)"
    by (rule wf_pd_set_active)
  moreover have "(new_VardisProtocolData store)\<lparr>vardis_store := set_vardis_isactive True (vardis_store (new_VardisProtocolData store))\<rparr>
      = new_VardisProtocolData (set_vardis_isactive True store)"
    by (simp add: new_VardisProtocolData_def set_vardis_isactive_def get_own_node_identifier_def get_conf_max_summaries_def
        get_conf_max_description_length_def get_conf_max_value_length_def get_conf_max_repetitions_def)
  moreover have "sim_conf s (new_VardisProtocolData (set_vardis_isactive True store))"
    using st d(1) by (auto simp: sim_conf_def new_VardisProtocolData_def set_vardis_isactive_def get_own_node_identifier_def initialize_array_store_def
        get_conf_max_description_length_def get_conf_max_value_length_def Let_def split: prod.splits sum.splits if_splits)
  ultimately show "sim_vardis_ok (s1\<lparr>sv_successfullyRegistered := True, sv_registrationRequested := False\<rparr>)"
    using assms(1,2) s1(2) by (simp add: sim_vardis_ok_def sim_conf_cong)
qed

lemma keeps_registration: "keeps_ok (hasHandledMessageBPClient mem msg)"
  unfolding keeps_ok_def
proof (intro allI impI)
  fix s x s' assume ok: "sim_vardis_ok s" and r: "hasHandledMessageBPClient mem msg s = (Inr x, s')"
  show "sim_vardis_ok s'"
  proof (cases msg)
    case (RegisterProtocol_Confirm status own)
    then obtain b s1 where s1: "sv_registrationRequested s" "handleBPRegisterProtocol_Confirm mem status s = (Inr b, s1)"
      "s' = (if b then s1\<lparr>sv_successfullyRegistered := True, sv_registrationRequested := False\<rparr> else s1)"
      using r by (auto simp: hasHandledMessageBPClient_def bindE_def split: if_splits prod.splits sum.splits)
    then show ?thesis using sim_registered [OF ok s1(1,2)] by simp
  qed (use ok r in \<open>auto simp: hasHandledMessageBPClient_def bindE_def sim_vardis_ok_def sim_conf_cong split: if_splits\<close>)
qed

lemma keeps_register_message: "sv_registerMsg s \<Longrightarrow> sim_vardis_ok s \<Longrightarrow> handle_registerMsg s = (Inr x, s') \<Longrightarrow> sim_vardis_ok s'"
  by (auto simp: handle_registerMsg_def registerAsBPClient_def sendRegisterProtocolRequest_def sendToBP_def sim_vardis_send_def
      bindE_def sim_vardis_ok_def sim_conf_cong split: if_splits)

lemma keeps_bp_messages:
  "keeps_ok (handleBPPayloadTransmittedIndication w now p t)" "keeps_ok (handleBPQueryNumberBufferedPayloadsConfirm p n)"
  "keeps_ok (handleBufferCheckMsg now)" "keeps_ok handleSendPayloadMsg"
proof -
  show "keeps_ok (handleBPPayloadTransmittedIndication w now p t)"
    unfolding handleBPPayloadTransmittedIndication_def Let_def by (intro keeps_rules)
  show "keeps_ok (handleBufferCheckMsg now)"
    unfolding handleBufferCheckMsg_def sendToBP_def by (intro keeps_rules)
  show "keeps_ok handleSendPayloadMsg"
    unfolding handleSendPayloadMsg_def by (intro keeps_rules keeps_generate)
  show "keeps_ok (handleBPQueryNumberBufferedPayloadsConfirm p n)"
    using keeps_generate by (auto simp: handleBPQueryNumberBufferedPayloadsConfirm_def keeps_ok_def split: if_splits)
qed

text \<open>
  An event: the requests of applications carry well-formed values, and the register message is handled once, when it is scheduled.
\<close>

definition vardis_event_ok :: "sim_vardis \<Rightarrow> vardis_event \<Rightarrow> bool" where
  "vardis_event_ok s ev = (case ev of
     SelfMessage now m \<Rightarrow> m = registerMsg \<longrightarrow> sv_registerMsg s
   | FromBP env msg \<Rightarrow> True
   | FromApplication tms descr0 app req \<Rightarrow> (case req of
       RTDBCreate_Request c \<Rightarrow> wf_RTDB_Create_Request c | RTDBUpdate_Request u \<Rightarrow> wf_RTDB_Update_Request u | _ \<Rightarrow> True))"

lemma vardis_handleMessage_ok:
  assumes "sim_vardis_ok s" "vardis_event_ok s ev" "vardis_handleMessage ev s = Some (Inr (), s')"
  shows "sim_vardis_ok s'"
proof (cases ev)
  case (SelfMessage now m)
  then show ?thesis
    using assms keeps_register_message keeps_okD [OF keeps_bp_messages(3) assms(1)] keeps_okD [OF keeps_bp_messages(4) assms(1)]
    by (cases m) (auto simp: vardis_event_ok_def)
next
  case (FromApplication tms descr0 app req)
  then show ?thesis
    using assms keeps_okD [OF keeps_create assms(1)] keeps_okD [OF keeps_update assms(1)] keeps_okD [OF keeps_delete assms(1)]
      keeps_okD [OF keeps_read assms(1)] keeps_okD [OF keeps_describe(1) assms(1)] keeps_okD [OF keeps_describe(2) assms(1)]
    by (cases req) (auto simp: vardis_event_ok_def)
next
  case (FromBP env msg)
  obtain r s1 where h: "hasHandledMessageBPClient (ve_memory env) msg s = (r, s1)" by (cases "hasHandledMessageBPClient (ve_memory env) msg s")
  with assms(3) FromBP obtain b where b: "r = Inr b" by (cases r) simp_all
  have ok: "sim_vardis_ok s1" using keeps_okD [OF keeps_registration assms(1)] h b by simp
  show ?thesis
  proof (cases b)
    case True
    then show ?thesis using assms(3) FromBP h b ok by simp
  next
    case False
    then have m: "handleBPMessage env msg s1 = Some (Inr (), s')" using assms(3) FromBP h b by simp
    show ?thesis
    proof (cases msg)
      case (ReceivePayload_Indication p bv)
      then show ?thesis using m sim_receive_total [OF ok, of "ve_clock env" p bv] by force
    qed (use m keeps_okD [OF keeps_bp_messages(1) ok] keeps_okD [OF keeps_bp_messages(2) ok] in auto)
  qed
qed

inductive sim_vardis_reachable :: "sim_vardis \<Rightarrow> sim_vardis \<Rightarrow> bool" for s0 where
  sim_vardis_start: "sim_vardis_reachable s0 s0"
| sim_vardis_step: "sim_vardis_reachable s0 s \<Longrightarrow> vardis_event_ok s ev \<Longrightarrow> vardis_handleMessage ev s = Some (Inr (), s') \<Longrightarrow> sim_vardis_reachable s0 s'"

lemma sim_vardis_reachable_ok:
  assumes "initialize_VardisProtocol own mps mval mdescr mrep msumm period now = Inr s0" "sim_vardis_reachable s0 s"
  shows "sim_vardis_ok s"
  using assms(2)
proof induction
  case sim_vardis_start
  show ?case
  proof (cases "vardis_parameters_ok mps mval mdescr mrep msumm period")
    case True
    have "s0 = projr (initialize_VardisProtocol own mps mval mdescr mrep msumm period now)" using assms(1) by simp
    with True show ?thesis by (simp add: initialize_VardisProtocol_def sim_vardis_ok_def)
  next
    case False
    then show ?thesis using assms(1) by (simp add: initialize_VardisProtocol_def)
  qed
next
  case (sim_vardis_step s ev s')
  show ?case by (rule vardis_handleMessage_ok [OF sim_vardis_step.IH sim_vardis_step.hyps(2,3)])
qed

end
