(* ===== verification/SimDissemination.thy ===== *)
theory SimDissemination
  imports SimVardisCorrect
begin

text \<open>
  The modules of several simulated nodes together: what VarDis hands to the beaconing protocol goes
  out with the next beacon, and the VarDis module of another node applies it.
\<close>

section \<open>Generation of payloads\<close>

lemma generatePayload_ok:
  assumes "sim_vardis_ok s" "sv_protocol_data s = Some pd" "get_vardis_isactive (vardis_store pd)"
  obtains ch where "choice_ok pd ch" "length (payload_bytes (sent_containers pd ch)) \<le> unat (sv_maxPayloadSize s)"
    "generatePayload s = (Inr (), if payload_bytes (sent_containers pd ch) = [] then s\<lparr>sv_protocol_data := Some (after_sending ch pd)\<rparr>
       else s\<lparr>sv_protocol_data := Some (after_sending ch pd), sv_payloadSent := True,
         sv_outputs := sv_outputs s @ [SendToBP (TransmitPayload_Request (uint BP_PROTID_VARDIS) (payload_bytes (sent_containers pd ch)))]\<rparr>)"
    "queue (createQ pd) \<noteq> [] \<and> instructionSizeVarCreate pd (hd (queue (createQ pd))) + 2 \<le> unat (sv_maxPayloadSize s)
       \<longrightarrow> hd (queue (createQ pd)) \<in> set (tx_creates ch)"
proof -
  have wf: "wf_pd pd" "0 < sv_maxPayloadSize s"
    using assms(1,2) by (auto simp: sim_vardis_ok_def vardis_parameters_ok_def)
  obtain ch k where c: "choice_ok pd ch" "constructPayload (sv_maxPayloadSize s) (replicate (unat (sv_maxPayloadSize s)) 0) pd
      = (Inr (payload_bytes (sent_containers pd ch), k), after_sending ch pd)"
    "length (payload_bytes (sent_containers pd ch)) \<le> unat (sv_maxPayloadSize s)"
    "k = 0 \<longleftrightarrow> payload_bytes (sent_containers pd ch) = []"
    "queue (createQ pd) \<noteq> [] \<and> instructionSizeVarCreate pd (hd (queue (createQ pd))) + 2 \<le> unat (sv_maxPayloadSize s)
       \<longrightarrow> hd (queue (createQ pd)) \<in> set (tx_creates ch)"
    by (rule constructPayload_ok [OF wf])
  have eq: "generatePayload s = (Inr (), if payload_bytes (sent_containers pd ch) = [] then s\<lparr>sv_protocol_data := Some (after_sending ch pd)\<rparr>
       else s\<lparr>sv_protocol_data := Some (after_sending ch pd), sv_payloadSent := True,
         sv_outputs := sv_outputs s @ [SendToBP (TransmitPayload_Request (uint BP_PROTID_VARDIS) (payload_bytes (sent_containers pd ch)))]\<rparr>)"
    using assms(2,3) c(2,4) by (cases "k = 0") (simp_all add: generatePayload_def vardisActive_simps bindE_def on_protocol_data_def sendToBP_def sim_vardis_send_def)
  show thesis by (rule that [OF c(1,3) eq c(5)])
qed

text \<open>A nonempty choice gives a nonempty payload.\<close>

lemma creates_nonempty: "tx_creates ch \<noteq> [] \<Longrightarrow> payload_bytes (sent_containers pd ch) \<noteq> []"
  by (auto simp: sent_containers_def container_bytes_def enc_ICHeaderT_def enc_byte_def)

section \<open>All that is pending\<close>

definition sim_pendings :: "RegisteredProtocol list \<Rightarrow> (BPProtocolIdT \<times> u8 list) list" where
  "sim_pendings rps = concat (map (\<lambda>rp. case sim_pending rp of None \<Rightarrow> [] | Some pl \<Rightarrow> [(rp_protId rp, pl)]) rps)"

lemma sim_pendings_simps [simp]:
  "sim_pendings [] = []" "sim_pendings (rp # rps) = (case sim_pending rp of None \<Rightarrow> [] | Some pl \<Rightarrow> [(rp_protId rp, pl)]) @ sim_pendings rps"
  by (simp_all add: sim_pendings_def)

lemma sim_contributions_all:
  "u + length (enc_payloads (sim_pendings rps)) \<le> maxB \<Longrightarrow> sim_contributions maxB u rps = sim_pendings rps"
  by (induction maxB u rps rule: sim_contributions.induct)
    (auto simp: BPPayloadHeaderT_fixed_size_def add.assoc split: option.splits)

abbreviation sim_protocols :: "sim_bp \<Rightarrow> RegisteredProtocol list" where
  "sim_protocols s \<equiv> map (\<lambda>p. the (sb_registeredProtocols s p)) (sim_protocol_ids s)"

text \<open>The largest payloads of all registered protocols share a packet.\<close>

definition sim_shares :: "sim_bp \<Rightarrow> bool" where
  "sim_shares s \<longleftrightarrow> BPHeaderT_fixed_size + sum_list (map (\<lambda>rp. BPPayloadHeaderT_fixed_size + unat (sc_maxPayloadSizeB (rp_protData rp))) (sim_protocols s))
     \<le> unat (sb_maximumPacketSizeB s)"

lemma sim_pendings_member: "rp \<in> set rps \<Longrightarrow> sim_pending rp = Some pl \<Longrightarrow> (rp_protId rp, pl) \<in> set (sim_pendings rps)"
  by (induction rps) auto

lemma sim_pendings_length:
  assumes "\<forall>rp \<in> set rps. \<exists>p limit. sim_client_ok limit p rp"
  shows "length (enc_payloads (sim_pendings rps))
    \<le> sum_list (map (\<lambda>rp. BPPayloadHeaderT_fixed_size + unat (sc_maxPayloadSizeB (rp_protData rp))) rps)"
  using assms
proof (induction rps)
  case (Cons rp rps)
  then obtain p limit where ok: "sim_client_ok limit p rp" by auto
  show ?case
  proof (cases "sim_pending rp")
    case (Some pl)
    then have "length pl \<le> unat (sc_maxPayloadSizeB (rp_protData rp))"
      using sim_pending_facts(3) [OF ok Some] ok by (simp add: sim_client_ok_def sim_data_ok_def)
    then show ?thesis using Cons Some by (simp add: BPPayloadHeaderT_fixed_size_def)
  qed (use Cons in simp)
qed simp

lemma sim_shares_all:
  assumes "sim_bp_ok s" "sim_shares s"
  shows "sim_beacon_payloads s = sim_pendings (sim_protocols s)"
proof -
  have "\<forall>rp \<in> set (sim_protocols s). \<exists>p limit. sim_client_ok limit p rp"
    using assms(1) sim_ids(2) [OF assms(1)] by (fastforce simp: sim_bp_ok_def)
  from sim_pendings_length [OF this] assms(2) show ?thesis
    unfolding sim_beacon_payloads_def by (intro sim_contributions_all) (simp add: sim_shares_def)
qed

lemma sim_pending_sent:
  assumes "sim_bp_ok s" "sim_shares s" "sb_registeredProtocols s p = Some rp" "sim_pending rp = Some pl"
  shows "(p, pl) \<in> set (sim_beacon_payloads s)"
proof -
  have "rp \<in> set (sim_protocols s)" using assms(3) sim_ids(2) [OF assms(1)] by (auto simp: image_iff intro!: bexI [of _ p])
  moreover have "rp_protId rp = p" using assms(1,3) by (auto simp: sim_bp_ok_def sim_client_ok_def)
  ultimately show ?thesis
    unfolding sim_shares_all [OF assms(1,2)] using sim_pendings_member [OF _ assms(4)] by blast
qed

section \<open>Reception\<close>

lemma receive_sent_vector:
  assumes "wf_pd A" "choice_ok A ch"
  shows "process_received_payload clock (ByteVectorDisassemblyArea (payload_bytes (sent_containers A ch))) B
    = Some (process_records clock (received A ch) B)"
proof -
  let ?d = "ByteVectorDisassemblyArea (payload_bytes (sent A ch))"
  have "wf_da ?d" "da_rest ?d = payload_bytes (sent A ch)" by (rule wf_new_areas) (rule da_rest_new)
  from parse_containers_reads [OF sent_wf [OF assms] this, of new_rx_lists] show ?thesis
    by (auto simp: process_received_payload_def received_def payload_sent ByteVectorDisassemblyArea_def)
qed

lemma sim_creation_received:
  assumes "wf_pd A" "choice_ok A ch" "i \<in> set (tx_creates ch)"
    "sim_vardis_ok s" "sv_protocol_data s = Some B" "get_vardis_isactive (vardis_store B)" "create_accepted B (create_record A i)"
  obtains B' t where
    "vardis_handleMessage (FromBP env (ReceivePayload_Indication (uint BP_PROTID_VARDIS) (payload_bytes (sent_containers A ch)))) s
       = Some (Inr (), s\<lparr>sv_protocol_data := Some B'\<rparr>)"
    "wf_pd B'" "get_vardis_isactive (vardis_store B')"
    "view B' i = (True, (data_of (entry A i))\<lparr>db_tStamp := t\<rparr>, val_of A i, descr_of A i)"
proof -
  have wf: "wf_pd B" using assms(4,5) by (auto simp: sim_vardis_ok_def)
  obtain B' t where b: "process_received_payload (ve_clock env) (MemoryChunkDisassemblyArea
      (length (payload_bytes (sent_containers A ch))) (payload_bytes (sent_containers A ch))) B = Some (Inr (), B')"
    "wf_pd B'" "view B' i = (True, (data_of (entry A i))\<lparr>db_tStamp := t\<rparr>, val_of A i, descr_of A i)"
    by (rule create_reaches_neighbour [OF assms(1-3) wf assms(7), of "ve_clock env"])
  then have r: "process_records (ve_clock env) (received A ch) B = (Inr (), B')" by (simp add: receive_sent [OF assms(1,2)])
  then have "process_received_payload (ve_clock env) (ByteVectorDisassemblyArea (payload_bytes (sent_containers A ch))) B = Some (Inr (), B')"
    by (simp add: receive_sent_vector [OF assms(1,2)])
  from sim_receive_agrees [OF assms(5,6) this] have
    "handleBPReceivedPayloadIndication (ve_clock env) (uint BP_PROTID_VARDIS) (payload_bytes (sent_containers A ch)) s
      = Some (Inr (), s\<lparr>sv_protocol_data := Some B'\<rparr>)" by auto
  moreover have "activity True B" using assms(6) by (simp add: activity_def)
  then have "activity True B'" using preservesD [OF process_records_activity _ r] by blast
  ultimately show thesis using that b(2,3) by (simp add: hasHandledMessageBPClient_def activity_def)
qed

section \<open>Handing a payload to the beaconing protocol\<close>

text \<open>A registered VarDis module whose queue is empty, for payloads of up to \<open>mps\<close> bytes.\<close>

definition sim_serves_vardis :: "BPLengthT \<Rightarrow> sim_bp \<Rightarrow> bool" where
  "sim_serves_vardis mps s \<longleftrightarrow> (\<exists>rp. sb_registeredProtocols s BP_PROTID_VARDIS = Some rp
     \<and> sc_queueMode (rp_protData rp) = BP_QMODE_QUEUE_DROPHEAD \<and> sc_queue (rp_protData rp) = []
     \<and> mps \<le> sc_maxPayloadSizeB (rp_protData rp))"

lemma vardis_id_known [simp]: "sim_protocol_of BP_PROTID_VARDIS = protocolDcpVardis"
  by (simp add: sim_protocol_of_def BP_PROTID_SRP_def BP_PROTID_VARDIS_def)

lemma sim_request_done_ok:
  assumes "sim_bp_ok s" "sim_request_done req s s'"
  shows "sim_bp_ok s'"
proof -
  obtain regs xs where s': "s' = s\<lparr>sb_registeredProtocols := regs, sb_sent := sb_sent s @ xs\<rparr>"
    and "\<And>p rp. regs p = Some rp \<Longrightarrow> sim_client_ok (sim_limit s) p rp"
    using assms(2) unfolding sim_request_done_def by blast
  then show ?thesis using assms(1) unfolding s' by (simp add: sim_bp_ok_def sim_limit_def)
qed

lemma transmit_queued:
  assumes "sim_bp_ok s" "sim_shares s" "sim_serves_vardis mps s" "bv \<noteq> []" "length bv \<le> unat mps"
  obtains s1 where "sim_bp_handleMessage (FromClient st (TransmitPayload_Request (uint BP_PROTID_VARDIS) bv)) s = (Inr (), s1)"
    "sim_bp_ok s1" "sim_shares s1" "(BP_PROTID_VARDIS, bv) \<in> set (sim_beacon_payloads s1)"
    "sb_ownNodeId s1 = sb_ownNodeId s" "sb_networkIdentifier s1 = sb_networkIdentifier s"
proof -
  let ?p = "BP_PROTID_VARDIS"
  obtain rp where rp: "sb_registeredProtocols s ?p = Some rp" "sc_queueMode (rp_protData rp) = BP_QMODE_QUEUE_DROPHEAD"
    "sc_queue (rp_protData rp) = []" "mps \<le> sc_maxPayloadSizeB (rp_protData rp)"
    using assms(3) by (auto simp: sim_serves_vardis_def)
  have ok: "sim_client_ok (sim_limit s) ?p rp" using assms(1) rp(1) by (simp add: sim_bp_ok_def)
  then have d: "sim_data_ok (sim_limit s) (rp_protData rp)" by (simp add: sim_client_ok_def)
  have l: "length bv \<le> unat (sc_maxPayloadSizeB (rp_protData rp))" "unat (sc_maxPayloadSizeB (rp_protData rp)) \<le> sim_limit s"
    using assms(5) rp(4) d by (auto simp: word_le_nat_alt sim_data_ok_def)
  have c: "unat (chunk_length bv) = length bv"
    using l sim_limit_bound [OF assms(1)] by (simp add: chunk_length_def unat_of_nat take_bit_eq_mod)
  have room: "unat (sb_maximumPacketSizeB s - of_nat (BPPayloadHeaderT_fixed_size + BPHeaderT_fixed_size)) = sim_limit s"
  proof -
    have "unat (of_nat (BPPayloadHeaderT_fixed_size + BPHeaderT_fixed_size) :: BPLengthT) = BPPayloadHeaderT_fixed_size + BPHeaderT_fixed_size"
      by (simp add: BPPayloadHeaderT_fixed_size_def BPHeaderT_fixed_size_def)
    then show ?thesis using assms(1) by (simp add: unat_sub word_le_nat_alt sim_bp_ok_def sim_limit_def add.commute)
  qed
  have large: "\<not> sim_too_large s rp bv"
    unfolding sim_too_large_def word_less_nat_alt room c using l by simp
  have empty: "chunk_length bv \<noteq> 0" using c assms(4) by (metis length_0_conv unsigned_0)
  let ?d = "rp_protData rp" and ?rp = "rp\<lparr>rp_protData := sim_stored bv (rp_protData rp)\<rparr>"
  let ?s1 = "(put_registered ?p ?rp s)\<lparr>sb_sent := sb_sent s @ [ToClient protocolDcpVardis (TransmitPayload_Confirm BP_STATUS_OK)]\<rparr>"
  have stored: "sim_stored bv ?d = ?d\<lparr>sc_queue := [bv]\<rparr>"
    using rp(2,3) d queue_modes by (simp add: sim_stored_def sim_data_ok_def)
  have eq: "handleTransmitPayloadRequestMsg (uint ?p) bv s = (Inr (), ?s1)"
    using transmit_stored [of s "uint ?p" rp bv] rp(1,2) large empty by (simp add: bp_queueing_mode_known_def)
  have "length bv < 65536" using l sim_limit_bound [OF assms(1)] by simp
  then have s1: "sim_bp_ok ?s1"
    using sim_request_done_ok [OF assms(1) sim_transmit_done [OF assms(1), of bv "uint ?p"]] eq by simp
  have "sim_shares ?s1"
  proof -
    have "dom (sb_registeredProtocols ?s1) = dom (sb_registeredProtocols s)" using rp(1) by (auto simp: put_registered_def)
    then have ids: "sim_protocol_ids ?s1 = sim_protocol_ids s" by (simp add: sim_protocol_ids_def)
    have "(\<lambda>q. unat (sc_maxPayloadSizeB (rp_protData (the (sb_registeredProtocols ?s1 q)))))
        = (\<lambda>q. unat (sc_maxPayloadSizeB (rp_protData (the (sb_registeredProtocols s q)))))"
      using rp(1) stored by (auto simp: put_registered_def fun_eq_iff)
    then show ?thesis
      using assms(2) ids unfolding sim_shares_def by (simp add: comp_def put_registered_def fun_eq_iff)
  qed
  moreover have "sim_pending ?rp = Some bv" using stored by (simp add: sim_pending_def sim_buffered_def)
  then have "(?p, bv) \<in> set (sim_beacon_payloads ?s1)"
    by (intro sim_pending_sent [OF s1 calculation, of _ ?rp]) simp
  ultimately show thesis using that [of ?s1] eq s1 by (simp add: put_registered_def)
qed

end
