(* ===== verification/PropsSim.thy ===== *)
theory PropsSim
  imports SimDissemination VardisExamples PropsBp
begin

text \<open>
  Properties of the simulated protocols, with witnesses on two concrete nodes.
\<close>

section \<open>Two nodes\<close>

definition example_registration :: RegisteredProtocol where
  "example_registration = \<lparr>rp_protId = BP_PROTID_VARDIS,
     rp_protData = \<lparr>sc_protocolId = BP_PROTID_VARDIS, sc_protocolName = ''VarDis'', sc_maxPayloadSizeB = 1000,
       sc_queueMode = BP_QMODE_QUEUE_DROPHEAD, sc_maxEntries = 10, sc_timeStampRegistration = 0, sc_queue = [],
       sc_bufferOccupied = False, sc_bufferEntry = None, sc_allowMultiplePayloads = False\<rparr>,
     rp_protProtocol = protocolDcpVardis\<rparr>"

definition example_bp :: "NodeIdentifierT \<Rightarrow> sim_bp" where
  "example_bp own = \<lparr>sb_ownNodeId = own, sb_networkIdentifier = 1, sb_maximumPacketSizeB = 1400, sb_seqno = 0,
     sb_registeredProtocols = [BP_PROTID_VARDIS \<mapsto> example_registration], sb_sent = []\<rparr>"

definition example_sim_vardis :: "NodeIdentifierT \<Rightarrow> VardisProtocolData \<Rightarrow> sim_vardis" where
  "example_sim_vardis own pd = \<lparr>sv_ownNodeId = own, sv_maxPayloadSize = 1000, sv_maxValueLength = 32, sv_maxDescriptionLength = 32,
     sv_maxRepetitions = 5, sv_maxSummaries = 20, sv_bufferCheckPeriod = 25, sv_registerMsg = False, sv_registrationRequested = False,
     sv_successfullyRegistered = True, sv_protocol_data = Some pd, sv_sendPayloadScheduled = False, sv_payloadSent = False, sv_outputs = []\<rparr>"

definition example_description :: DescribeDatabaseVariableDescription where
  "example_description = \<lparr>dd_varId = 0, dd_prodId = node_A, dd_repCnt = 0, dd_creationTime = 0, dd_timeout = 0,
     dd_description = replicate 256 0, dd_tStamp = 0, dd_isDeleted = False\<rparr>"

lemma example_bp:
  "sim_bp_ok (example_bp own)" "sim_shares (example_bp own)" "sim_serves_vardis 1000 (example_bp own)"
  "sb_ownNodeId (example_bp own) = own" "sb_networkIdentifier (example_bp own) = 1"
proof -
  show "sim_bp_ok (example_bp own)"
    using modes_apart queue_modes
    by (simp add: sim_bp_ok_def sim_client_ok_def sim_data_ok_def sim_limit_def sim_buffered_def example_bp_def example_registration_def
        BPHeaderT_fixed_size_def BPPayloadHeaderT_fixed_size_def)
  show "sim_shares (example_bp own)"
    by (simp add: sim_shares_def sim_protocol_ids_def example_bp_def example_registration_def BPHeaderT_fixed_size_def BPPayloadHeaderT_fixed_size_def)
qed (simp_all add: sim_serves_vardis_def example_bp_def example_registration_def)

lemma example_sim_vardis:
  assumes "wf_pd pd" "ownNodeIdentifier pd = own" "maxDescriptionLength pd = 32" "maxValueLength pd = 32"
  shows "sim_vardis_ok (example_sim_vardis own pd)" "sv_protocol_data (example_sim_vardis own pd) = Some pd"
  using assms by (simp_all add: sim_vardis_ok_def sim_conf_def example_sim_vardis_def vardis_parameters_ok_def size_t_minus_def
      VarLenT_max_val_def ICHeaderT_fixed_size_def VarSpecT_fixed_size_def VarUpdateT_fixed_size_def VarSummT_fixed_size_def
      MAX_maxDescriptionLength_def flip: numeral_2_eq_2)

section \<open>Dissemination\<close>

text \<open>C30. A variable crosses the simulation.  At the first node, the creation of variable \<open>i\<close> is next in the queue of the active VarDis module
  and fits a payload; at its beaconing protocol VarDis is registered in the mode DROPHEAD with an empty queue and payloads
  that are long enough, and the largest payloads of all registered protocols fit one packet together.  The second node has another identifier and
  the same network identifier, its VarDis module is active and accepts the creation: it does not hold the variable, or only an
  older incarnation, is not the producer itself, and its limits admit the description, the value and the repetition count, none of which is empty or zero.  Then the next
  payload of the first module, queued by its beaconing protocol and sent with the next beacon, reaches the second module, and there a
  read request is answered with the value that the first node has.\<close>

theorem creation_crosses_simulation:
  assumes A: "sim_vardis_ok sA" "sv_protocol_data sA = Some A" "get_vardis_isactive (vardis_store A)"
    and q: "queue (createQ A) \<noteq> []" "hd (queue (createQ A)) = i" "instructionSizeVarCreate A i + 2 \<le> unat (sv_maxPayloadSize sA)"
    and bA: "sim_bp_ok bA" "sim_shares bA" "sim_serves_vardis (sv_maxPayloadSize sA) bA"
    and bB: "sb_ownNodeId bB \<noteq> sb_ownNodeId bA" "sb_networkIdentifier bB = sb_networkIdentifier bA"
    and B: "sim_vardis_ok sB" "sv_protocol_data sB = Some B" "get_vardis_isactive (vardis_store B)" "create_accepted B (create_record A i)"
  shows "\<exists>sA' bv bA1 bA2 b bB' sB' sB'' c.
      vardis_handleMessage (SelfMessage now sendPayloadMsg) sA = Some (Inr (), sA')
    \<and> sv_outputs sA' = sv_outputs sA @ [SendToBP (TransmitPayload_Request (uint BP_PROTID_VARDIS) bv)]
    \<and> sim_bp_handleMessage (FromClient st (TransmitPayload_Request (uint BP_PROTID_VARDIS) bv)) bA = (Inr (), bA1)
    \<and> sim_bp_handleMessage (GenerateBeacon now' period) bA1 = (Inr (), bA2) \<and> ToUWB b \<in> set (sb_sent bA2)
    \<and> sim_bp_handleMessage (FromUWB [b]) bB = (Inr (), bB')
    \<and> ToClient protocolDcpVardis (ReceivePayload_Indication (uint BP_PROTID_VARDIS) bv) \<in> set (sb_sent bB')
    \<and> vardis_handleMessage (FromBP env (ReceivePayload_Indication (uint BP_PROTID_VARDIS) bv)) sB = Some (Inr (), sB')
    \<and> vardis_handleMessage (FromApplication tms d app (RTDBRead_Request \<lparr>irq_s_type = stVardis_RTDB_Read, irq_varId = i\<rparr>)) sB' = Some (Inr (), sB'')
    \<and> sv_outputs sB'' = sv_outputs sB @ [SendToApplication app (RTDBRead_Confirm VARDIS_STATUS_OK c)] \<and> rcf_value c = vv_of (val_of A i)"
proof -
  let ?sA = "sA\<lparr>sv_sendPayloadScheduled := False\<rparr>" and ?r = "\<lparr>irq_s_type = stVardis_RTDB_Read, irq_varId = i\<rparr>"
  have wfA: "wf_pd A" using A(1,2) by (auto simp: sim_vardis_ok_def)
  have okA: "sim_vardis_ok ?sA" using A(1) by (auto simp: sim_vardis_ok_def sim_conf_cong)
  obtain ch where ch: "choice_ok A ch" "length (payload_bytes (sent_containers A ch)) \<le> unat (sv_maxPayloadSize sA)" "i \<in> set (tx_creates ch)"
    "generatePayload ?sA = (Inr (), if payload_bytes (sent_containers A ch) = [] then ?sA\<lparr>sv_protocol_data := Some (after_sending ch A)\<rparr>
       else ?sA\<lparr>sv_protocol_data := Some (after_sending ch A), sv_payloadSent := True,
         sv_outputs := sv_outputs sA @ [SendToBP (TransmitPayload_Request (uint BP_PROTID_VARDIS) (payload_bytes (sent_containers A ch)))]\<rparr>)"
    by (rule generatePayload_ok [OF okA, of A]) (use A(2,3) q in auto)
  let ?bv = "payload_bytes (sent_containers A ch)"
  have ne: "?bv \<noteq> []" using creates_nonempty [of ch] ch(3) by force
  obtain bA1 where bA1: "sim_bp_handleMessage (FromClient st (TransmitPayload_Request (uint BP_PROTID_VARDIS) ?bv)) bA = (Inr (), bA1)"
    "sim_bp_ok bA1" "(BP_PROTID_VARDIS, ?bv) \<in> set (sim_beacon_payloads bA1)" "sb_ownNodeId bA1 = sb_ownNodeId bA"
    "sb_networkIdentifier bA1 = sb_networkIdentifier bA"
    by (rule transmit_queued [OF bA ne ch(2), of st])
  let ?pls = "sim_beacon_payloads bA1" and ?hdr = "sim_beacon_header bA1 (2 * length (sim_beacon_payloads bA1))"
  have pls: "?pls \<noteq> []" "\<forall>x \<in> set ?pls. sim_payload_ok x"
    using bA1(3) sim_beacon_payloads_facts(1) [OF bA1(2)] by (auto simp: sim_payload_ok_def)
  obtain bA2 where bA2: "handleGenerateBeaconMsg now' period bA1 = (Inr (), bA2)" "ToUWB (sim_beacon bA1 ?pls) \<in> set (sb_sent bA2)"
    using pls(1) by (auto simp: handleGenerateBeaconMsg_ok [OF bA1(2)] Let_def)
  have wf: "isWellFormed ?hdr (sb_ownNodeId bB) (sb_networkIdentifier bB)" "unat (bh_numPayloads ?hdr) = length ?pls"
    using sim_beacon_wf(1) [OF bA1(2) pls(1), of "sb_ownNodeId bB"] sim_beacon_wf(2) [OF bA1(2) pls(1)] bB bA1(4,5) by simp_all
  let ?bB = "bB\<lparr>sb_sent := sb_sent bB @ sim_received ?pls\<rparr>"
  have bB': "handleReceivedPacket [sim_beacon bA1 ?pls] bB = (Inr (), ?bB)"
    using handleReceivedPacket_ok [OF wf pls(2), where r = "[]"] by (simp add: sim_beacon_def)
  have ind: "ToClient protocolDcpVardis (ReceivePayload_Indication (uint BP_PROTID_VARDIS) ?bv) \<in> set (sb_sent ?bB)"
    using bA1(3) by (force simp flip: vardis_id_known)
  obtain B' t where B': "vardis_handleMessage (FromBP env (ReceivePayload_Indication (uint BP_PROTID_VARDIS) ?bv)) sB
      = Some (Inr (), sB\<lparr>sv_protocol_data := Some B'\<rparr>)" "wf_pd B'" "get_vardis_isactive (vardis_store B')"
    "view B' i = (True, (data_of (entry A i))\<lparr>db_tStamp := t\<rparr>, val_of A i, descr_of A i)"
    by (rule sim_creation_received [OF wfA ch(1,3) B, of env])
  have e: "used B' i" "val_of B' i = val_of A i" and de: "data_of (entry B' i) = (data_of (entry A i))\<lparr>db_tStamp := t\<rparr>"
    using B'(4) by (simp_all add: view_def)
  have "db_isDeleted (entry B' i) = db_isDeleted (entry A i)" using arg_cong [OF de, of db_isDeleted] by (simp add: data_of_def)
  then have "\<not> db_isDeleted (entry B' i)" using queued_once(3) [OF wfA ch(1,3)] by simp
  then have rd: "read_status B' ?r = VARDIS_STATUS_OK" using B'(3) e(1) by (simp add: read_status_def)
  let ?c = "\<lparr>cnf_type_status = (stVardis_RTDB_Read, VARDIS_STATUS_OK), cnf_varId = i, rcf_value = vv_of (val_of B' i), rcf_tStamp = db_tStamp (entry B' i)\<rparr>"
  obtain B'' where "handle_rtdb_read_request ?r B' = (Inr ?c, B'')"
    using rd by (simp add: handle_rtdb_read_spec [OF B'(2)])
  then have sB'': "vardis_handleMessage (FromApplication tms d app (RTDBRead_Request ?r)) (sB\<lparr>sv_protocol_data := Some B'\<rparr>)
      = Some (Inr (), sB\<lparr>sv_protocol_data := Some B'', sv_outputs := sv_outputs sB @ [SendToApplication app (RTDBRead_Confirm VARDIS_STATUS_OK ?c)]\<rparr>)"
    by (simp add: handleRTDBReadRequest_def bindE_def on_protocol_data_def sendConfirmation_def sim_vardis_send_def)
  let ?s2 = "?sA\<lparr>sv_protocol_data := Some (after_sending ch A), sv_payloadSent := True,
      sv_outputs := sv_outputs sA @ [SendToBP (TransmitPayload_Request (uint BP_PROTID_VARDIS) ?bv)]\<rparr>"
  have g: "vardis_handleMessage (SelfMessage now sendPayloadMsg) sA = Some (Inr (), ?s2)"
    using ch(4) ne by (simp add: handleSendPayloadMsg_def bindE_def)
  show ?thesis
  proof (intro exI conjI)
    show "vardis_handleMessage (SelfMessage now sendPayloadMsg) sA = Some (Inr (), ?s2)" by (rule g)
    show "sim_bp_handleMessage (FromClient st (TransmitPayload_Request (uint BP_PROTID_VARDIS) ?bv)) bA = (Inr (), bA1)" by (rule bA1(1))
    show "ToUWB (sim_beacon bA1 ?pls) \<in> set (sb_sent bA2)" by (rule bA2(2))
    show "sim_bp_handleMessage (FromUWB [sim_beacon bA1 ?pls]) bB = (Inr (), ?bB)" using bB' by simp
    show "vardis_handleMessage (FromBP env (ReceivePayload_Indication (uint BP_PROTID_VARDIS) ?bv)) sB = Some (Inr (), sB\<lparr>sv_protocol_data := Some B'\<rparr>)"
      by (rule B'(1))
    show "rcf_value ?c = vv_of (val_of A i)" using e(2) by simp
    show "vardis_handleMessage (FromApplication tms d app (RTDBRead_Request ?r)) (sB\<lparr>sv_protocol_data := Some B'\<rparr>) =
        Some (Inr (), sB\<lparr>sv_protocol_data := Some B'', sv_outputs := sv_outputs sB @ [SendToApplication app (RTDBRead_Confirm VARDIS_STATUS_OK ?c)]\<rparr>)"
      by (rule sB'')
  qed (use bA2(1) ind in simp_all)
qed

theorem creation_crosses_simulation_witness:
  "\<exists>sA' bv bA1 bA2 b bB' sB' sB'' c.
      vardis_handleMessage (SelfMessage 5 sendPayloadMsg) (example_sim_vardis node_A producer) = Some (Inr (), sA')
    \<and> sv_outputs sA' = sv_outputs (example_sim_vardis node_A producer) @ [SendToBP (TransmitPayload_Request (uint BP_PROTID_VARDIS) bv)]
    \<and> sim_bp_handleMessage (FromClient 0 (TransmitPayload_Request (uint BP_PROTID_VARDIS) bv)) (example_bp node_A) = (Inr (), bA1)
    \<and> sim_bp_handleMessage (GenerateBeacon 10 100) bA1 = (Inr (), bA2) \<and> ToUWB b \<in> set (sb_sent bA2)
    \<and> sim_bp_handleMessage (FromUWB [b]) (example_bp node_B) = (Inr (), bB')
    \<and> ToClient protocolDcpVardis (ReceivePayload_Indication (uint BP_PROTID_VARDIS) bv) \<in> set (sb_sent bB')
    \<and> vardis_handleMessage (FromBP \<lparr>ve_memory = (\<lambda>_. 0, \<lambda>_. 0), ve_clock = \<lambda>_. 0, ve_now = 12, ve_wait = id\<rparr>
        (ReceivePayload_Indication (uint BP_PROTID_VARDIS) bv)) (example_sim_vardis node_B (fresh_node node_B)) = Some (Inr (), sB')
    \<and> vardis_handleMessage (FromApplication (0, 0) example_description 1 (RTDBRead_Request \<lparr>irq_s_type = stVardis_RTDB_Read, irq_varId = 7\<rparr>)) sB'
        = Some (Inr (), sB'')
    \<and> sv_outputs sB'' = sv_outputs (example_sim_vardis node_B (fresh_node node_B)) @ [SendToApplication 1 (RTDBRead_Confirm VARDIS_STATUS_OK c)]
    \<and> rcf_value c = vv_of (val_of producer 7)"
proof (rule creation_crosses_simulation)
  have pd: "ownNodeIdentifier producer = node_A" "maxDescriptionLength producer = 32" "maxValueLength producer = 32"
    using producer(2) by (simp_all add: same_conf_def fresh_node)
  show "sim_vardis_ok (example_sim_vardis node_A producer)" by (rule example_sim_vardis [OF producer(1) pd])
  show "sim_vardis_ok (example_sim_vardis node_B (fresh_node node_B))" by (rule example_sim_vardis [OF fresh_node(2,4,5,6)])
  show "instructionSizeVarCreate producer 7 + 2 \<le> unat (sv_maxPayloadSize (example_sim_vardis node_A producer))"
    using create_record_wf(2) [OF producer(1), of 7] length_enc_VarCreateT [OF create_record_wf(1) [OF producer(1), of 7]]
    by (simp add: VarCreateT_total_size_def VarCreateT_fixed_size_def VarSpecT_fixed_size_def VarUpdateT_fixed_size_def
        create_record_def producer example_sim_vardis_def del: length_enc_VarCreateT length_value_bytes length_descr_bytes)
  show "sb_ownNodeId (example_bp node_B) \<noteq> sb_ownNodeId (example_bp node_A)" by (simp add: example_bp node_A_def node_B_def)
  show "create_accepted (fresh_node node_B) (create_record producer 7)" by (rule consumer_accepts)
qed (simp_all add: example_bp example_sim_vardis_def producer producer_createQ fresh_node)

section \<open>Runs of a network\<close>

text \<open>A run of two nodes: VarDis registers at one of them and has a payload queued.\<close>

definition example_own :: "bool \<Rightarrow> NodeIdentifierT" where
  "example_own i = (if i then node_B else node_A)"

abbreviation example_requests :: "(bool \<times> bp_event) list" where
  "example_requests \<equiv>
     [(False, FromClient 0 (RegisterProtocol_Request (uint BP_PROTID_VARDIS) ''VarDis'' 1000 BP_QMODE_QUEUE_DROPHEAD 10 False)),
      (False, FromClient 0 (TransmitPayload_Request (uint BP_PROTID_VARDIS) [1, 2, 3]))]"

lemma example_own_inj: "inj example_own"
  by (auto simp: inj_def example_own_def node_A_def node_B_def split: if_splits)

lemma example_run:
  obtains net rp where "sim_run example_own 1 1400 example_requests net" "sb_registeredProtocols (net False) = [BP_PROTID_VARDIS \<mapsto> rp]"
    "sim_buffered (rp_protData rp) = [[1, 2, 3]]"
proof -
  define net0 where "net0 i = \<lparr>sb_ownNodeId = example_own i, sb_networkIdentifier = 1, sb_maximumPacketSizeB = 1400, sb_seqno = 0,
    sb_registeredProtocols = Map.empty, sb_sent = [ScheduleBeacon 100]\<rparr>" for i
  let ?e1 = "FromClient 0 (RegisterProtocol_Request (uint BP_PROTID_VARDIS) ''VarDis'' 1000 BP_QMODE_QUEUE_DROPHEAD 10 False)"
  let ?e2 = "FromClient 0 (TransmitPayload_Request (uint BP_PROTID_VARDIS) [1, 2, 3])"
  define s1 where "s1 = (net0 False)\<lparr>sb_registeredProtocols := [BP_PROTID_VARDIS \<mapsto> example_registration],
    sb_sent := [ScheduleBeacon 100, ToClient protocolDcpVardis (RegisterProtocol_Confirm BP_STATUS_OK node_A)]\<rparr>"
  have r0: "sim_run example_own 1 1400 [] net0"
    by (rule sim_run_start, rule allI, rule exI [of _ 0], rule exI [of _ 100]) (simp add: net0_def initialize_BeaconingProtocol_def)
  have "sim_bp_handleMessage ?e1 (net0 False) = (Inr (), s1)"
    by (simp add: handleRegisterProtocolRequestMsg_def Let_def bindE_def clientProtocolRegistered_def net0_def s1_def example_own_def example_registration_def
        BPHeaderT_fixed_size_def BPPayloadHeaderT_fixed_size_def queue_modes sendRegisterProtocolConfirm_def sim_bp_send_def put_registered_def)
  from sim_run_step [OF r0 _ this] have r1: "sim_run example_own 1 1400 [(False, ?e1)] (net0(False := s1))"
    by (simp add: sim_event_possible_def)
  let ?rp = "example_registration\<lparr>rp_protData := sim_stored [1, 2, 3] (rp_protData example_registration)\<rparr>"
  have "sim_bp_handleMessage ?e2 s1 = (Inr (), (put_registered BP_PROTID_VARDIS ?rp s1)
      \<lparr>sb_sent := sb_sent s1 @ [ToClient protocolDcpVardis (TransmitPayload_Confirm BP_STATUS_OK)]\<rparr>)" (is "_ = (Inr (), ?s2)")
    using transmit_stored [of s1 "uint BP_PROTID_VARDIS" example_registration "[1, 2, 3]"]
    by (simp add: s1_def net0_def example_registration_def sim_too_large_def chunk_length_def bp_queueing_mode_known_def
        BPHeaderT_fixed_size_def BPPayloadHeaderT_fixed_size_def)
  with sim_run_step [OF r1, of ?e2 False ?s2] have "sim_run example_own 1 1400 example_requests ((net0(False := s1))(False := ?s2))"
    by (simp add: sim_event_possible_def)
  moreover have "sim_buffered (rp_protData ?rp) = [[1, 2, 3]]"
    using queue_modes by (simp add: sim_buffered_def sim_stored_def example_registration_def)
  ultimately show thesis by (intro that [of "(net0(False := s1))(False := ?s2)" ?rp]) (simp_all add: put_registered_def s1_def)
qed

lemma sim_pending_some:
  assumes "sim_bp_ok s" "sb_registeredProtocols s p = Some rp" "sim_pending rp = Some pl"
  shows "sim_beacon_payloads s \<noteq> []"
proof -
  have some: "sim_contributions maxB u rps \<noteq> []"
    if "rp \<in> set rps" "\<forall>rp' \<in> set rps. \<forall>pl'. sim_pending rp' = Some pl' \<longrightarrow> u + BPPayloadHeaderT_fixed_size + length pl' \<le> maxB" for maxB u rps
    using that assms(3) by (induction maxB u rps rule: sim_contributions.induct) (auto split: option.splits)
  have ok: "sim_client_ok (sim_limit s) q rp'" if "sb_registeredProtocols s q = Some rp'" for q rp'
    using assms(1) that by (simp add: sim_bp_ok_def)
  have limit: "BPHeaderT_fixed_size + BPPayloadHeaderT_fixed_size + sim_limit s = unat (sb_maximumPacketSizeB s)"
    using assms(1) by (simp add: sim_bp_ok_def sim_limit_def)
  show ?thesis
    unfolding sim_beacon_payloads_def
  proof (rule some)
    show "rp \<in> set (sim_protocols s)" using assms(2) sim_ids(2) [OF assms(1)] by (auto simp: image_iff intro!: bexI [of _ p])
    show "\<forall>rp' \<in> set (sim_protocols s). \<forall>pl'. sim_pending rp' = Some pl'
        \<longrightarrow> BPHeaderT_fixed_size + BPPayloadHeaderT_fixed_size + length pl' \<le> unat (sb_maximumPacketSizeB s)"
      using sim_pending_facts(2) [OF ok] limit sim_ids(2) [OF assms(1)] by fastforce
  qed
qed

lemma sim_beacon_received:
  assumes "sim_run own netw maxB evs net" "inj own" "BPHeaderT_fixed_size + BPPayloadHeaderT_fixed_size \<le> unat maxB"
    "payloads_below_64K evs" "sim_beacon_payloads (net i) \<noteq> []" "j \<noteq> i"
  shows "handleReceivedPacket [sim_beacon (net i) (sim_beacon_payloads (net i))] (net j)
    = (Inr (), (net j)\<lparr>sb_sent := sb_sent (net j) @ sim_received (sim_beacon_payloads (net i))\<rparr>)"
proof -
  have ok: "sim_node_ok evs k (own k) netw maxB (net k)" for k by (rule sim_run_ok [OF assms(1-4)])
  then have s: "sim_bp_ok (net i)" by (simp add: sim_node_ok_def)
  have "sb_ownNodeId (net j) \<noteq> sb_ownNodeId (net i)" "sb_networkIdentifier (net j) = sb_networkIdentifier (net i)"
    using ok [of i] ok [of j] assms(2,6) by (auto simp: sim_node_ok_def dest: injD)
  moreover have "\<forall>x \<in> set (sim_beacon_payloads (net i)). sim_payload_ok x"
    using sim_beacon_payloads_facts(1) [OF s] by (auto simp: sim_payload_ok_def)
  ultimately show ?thesis
    using handleReceivedPacket_ok [OF _ sim_beacon_wf(2) [OF s assms(5)], of "net j" "[]"]
      sim_beacon_wf(1) [OF s assms(5), of "sb_ownNodeId (net j)"] by (simp add: sim_beacon_def)
qed

text \<open>The run goes on with a beacon and its reception.\<close>

lemma example_delivery:
  obtains evs net where "sim_run example_own 1 1400 evs net" "payloads_below_64K evs"
    "ToClient protocolDcpVardis (ReceivePayload_Indication (uint BP_PROTID_VARDIS) [1, 2, 3]) \<in> set (sb_sent (net True))"
proof -
  obtain net rp where r: "sim_run example_own 1 1400 example_requests net" "sb_registeredProtocols (net False) = [BP_PROTID_VARDIS \<mapsto> rp]"
    "sim_buffered (rp_protData rp) = [[1, 2, 3]]" by (rule example_run)
  have m: "BPHeaderT_fixed_size + BPPayloadHeaderT_fixed_size \<le> unat (1400 :: BPLengthT)"
    by (simp add: BPHeaderT_fixed_size_def BPPayloadHeaderT_fixed_size_def)
  have small: "payloads_below_64K example_requests" by auto
  let ?pls = "sim_beacon_payloads (net False)" and ?b = "sim_beacon (net False) (sim_beacon_payloads (net False))"
  have s: "sim_bp_ok (net False)" using sim_run_ok [OF r(1) example_own_inj m small, of False] by (simp add: sim_node_ok_def)
  have "sim_pending rp = Some [1, 2, 3]" using r(3) by (simp add: sim_pending_def)
  then have pl: "?pls \<noteq> []" using sim_pending_some [OF s, of BP_PROTID_VARDIS rp] r(2) by simp
  obtain s' where g: "sim_bp_handleMessage (GenerateBeacon 100 100) (net False) = (Inr (), s')" "ToUWB ?b \<in> set (sb_sent s')"
    using pl by (auto simp: handleGenerateBeaconMsg_ok [OF s] Let_def)
  let ?net = "net(False := s')"
  have r1: "sim_run example_own 1 1400 (example_requests @ [(False, GenerateBeacon 100 100)]) ?net"
    by (rule sim_run_step [OF r(1) _ g(1)]) (simp add: sim_event_possible_def)
  have p: "sim_event_possible ?net (FromUWB [?b])"
    using g(2) by (auto simp: sim_event_possible_def intro!: exI [of _ False])
  have "sim_bp_handleMessage (FromUWB [?b]) (?net True) = (Inr (), (net True)\<lparr>sb_sent := sb_sent (net True) @ sim_received ?pls\<rparr>)"
    using sim_beacon_received [OF r(1) example_own_inj m small pl, of True] by simp
  note r2 = sim_run_step [OF r1 p this]
  obtain q p' where q: "(q, p') \<in> set ?pls" using pl by (cases ?pls) auto
  then obtain rp' where "sb_registeredProtocols (net False) q = Some rp'" "sim_pending rp' = Some p'"
    using sim_beacon_payloads_facts(1) [OF s] by blast
  with q have "(BP_PROTID_VARDIS, [1, 2, 3]) \<in> set ?pls" using r(2,3) by (auto simp: sim_pending_def split: if_splits)
  then show thesis by (intro that [OF r2]) (simp, force simp flip: vardis_id_known)
qed

text \<open>C31. In every run of a simulated network, with any requests of clients, beacons and receptions in any order, in which no client asks to
  transmit a payload of 65536 bytes or more, a payload that the beaconing protocol of a node hands to a client is one that a client of
  another node has asked to transmit for the same protocol, and it goes to the client of that protocol.  The nodes have different
  identifiers, the same network identifier, and a packet size with room for the headers.  The bound on the payloads is needed: a longer one is accepted
  with its length cut to 16 bits.\<close>

theorem simulated_payload_origin:
  assumes "sim_run own netw maxB evs net" "inj own" "BPHeaderT_fixed_size + BPPayloadHeaderT_fixed_size \<le> unat maxB"
    and small: "\<forall>j st pr pl. (j, FromClient st (TransmitPayload_Request pr pl)) \<in> set evs \<longrightarrow> length pl < 65536"
    and "ToClient t (ReceivePayload_Indication pr pl) \<in> set (sb_sent (net i))"
  shows "t = sim_protocol_of (word_of_int pr)
    \<and> (\<exists>j st pr'. j \<noteq> i \<and> (j, FromClient st (TransmitPayload_Request pr' pl)) \<in> set evs \<and> word_of_int pr' = (word_of_int pr :: BPProtocolIdT))"
proof -
  have "sim_sent_asked evs i (own i) netw (unat maxB) (sb_sent (net i))"
    using sim_run_ok [OF assms(1-4), of i] by (simp add: sim_node_ok_def)
  then have "t = sim_protocol_of (word_of_int pr)" "\<exists>j. j \<noteq> i \<and> sim_asked evs j (word_of_int pr) pl"
    using assms(5) unfolding sim_sent_asked_def by blast+
  then show ?thesis unfolding sim_asked_def by blast
qed

theorem simulated_payload_origin_witness:
  "\<exists>evs net. sim_run example_own 1 1400 evs net
    \<and> ToClient protocolDcpVardis (ReceivePayload_Indication (uint BP_PROTID_VARDIS) [1, 2, 3]) \<in> set (sb_sent (net True))
    \<and> (\<exists>j st pr'. j \<noteq> True \<and> (j, FromClient st (TransmitPayload_Request pr' [1, 2, 3])) \<in> set evs)"
proof -
  obtain evs net where r: "sim_run example_own 1 1400 evs net" "payloads_below_64K evs"
    "ToClient protocolDcpVardis (ReceivePayload_Indication (uint BP_PROTID_VARDIS) [1, 2, 3]) \<in> set (sb_sent (net True))"
    by (rule example_delivery)
  have "BPHeaderT_fixed_size + BPPayloadHeaderT_fixed_size \<le> unat (1400 :: BPLengthT)"
    by (simp add: BPHeaderT_fixed_size_def BPPayloadHeaderT_fixed_size_def)
  from simulated_payload_origin [OF r(1) example_own_inj this r(2,3)] r show ?thesis by blast
qed

text \<open>C32. In every state that a simulated network reaches without a client asking to transmit a payload of 65536 bytes or more (C31 says why this is
  needed), the nodes having different identifiers, the same network identifier, and a packet size with room for the headers, a node that has a
  payload waiting for a registered protocol can generate a beacon: the beacon is within the packet size, it holds payloads that were waiting, at least one, and every other node handles it
  without an exception and indicates exactly these payloads to its clients.\<close>

theorem beacons_accepted_in_simulation:
  assumes "sim_run own netw maxB evs net" "inj own" "BPHeaderT_fixed_size + BPPayloadHeaderT_fixed_size \<le> unat maxB"
    and small: "\<forall>j st pr pl. (j, FromClient st (TransmitPayload_Request pr pl)) \<in> set evs \<longrightarrow> length pl < 65536"
    and "sb_registeredProtocols (net i) p = Some rp" "sim_buffered (rp_protData rp) \<noteq> []"
  shows "\<exists>s' b pls. sim_bp_handleMessage (GenerateBeacon now period) (net i) = (Inr (), s') \<and> ToUWB b \<in> set (sb_sent s')
    \<and> length b \<le> unat maxB \<and> pls \<noteq> []
    \<and> (\<forall>(q, pl) \<in> set pls. \<exists>rp'. sb_registeredProtocols (net i) q = Some rp' \<and> hd (sim_buffered (rp_protData rp')) = pl \<and> pl \<noteq> [])
    \<and> (\<forall>j. j \<noteq> i \<longrightarrow> sim_bp_handleMessage (FromUWB [b]) (net j)
         = (Inr (), (net j)\<lparr>sb_sent := sb_sent (net j) @ sim_received pls\<rparr>))"
proof -
  have ok: "sim_node_ok evs j (own j) netw maxB (net j)" for j by (rule sim_run_ok [OF assms(1-4)])
  then have s: "sim_bp_ok (net i)" by (simp add: sim_node_ok_def)
  let ?pls = "sim_beacon_payloads (net i)"
  obtain pl where "sim_pending rp = Some pl" using assms(6) by (cases "sim_buffered (rp_protData rp)") (simp_all add: sim_pending_def)
  with sim_pending_some [OF s assms(5)] have ne: "?pls \<noteq> []" .
  note facts = sim_beacon_payloads_facts [OF s]
  have pls: "\<forall>x \<in> set ?pls. sim_payload_ok x" using facts(1) by (auto simp: sim_payload_ok_def)
  have taken: "\<forall>(q, pl) \<in> set ?pls. \<exists>rp'. sb_registeredProtocols (net i) q = Some rp' \<and> hd (sim_buffered (rp_protData rp')) = pl \<and> pl \<noteq> []"
    using facts(1) by (fastforce simp: sim_pending_def split: list.splits)
  note received = sim_beacon_received [OF assms(1-4) ne]
  have b: "length (sim_beacon (net i) ?pls) \<le> unat maxB" using facts(4) ok [of i] by (simp add: sim_node_ok_def)
  obtain s' where "handleGenerateBeaconMsg now period (net i) = (Inr (), s')" "ToUWB (sim_beacon (net i) ?pls) \<in> set (sb_sent s')"
    using ne by (auto simp: handleGenerateBeaconMsg_ok [OF s] Let_def)
  with ne b taken received show ?thesis by (intro exI [of _ s'] exI [of _ "sim_beacon (net i) ?pls"] exI [of _ ?pls]) simp
qed

theorem beacons_accepted_in_simulation_witness:
  "\<exists>net rp s' b pls. sim_run example_own 1 1400 example_requests net
    \<and> sb_registeredProtocols (net False) BP_PROTID_VARDIS = Some rp \<and> sim_buffered (rp_protData rp) \<noteq> []
    \<and> sim_bp_handleMessage (GenerateBeacon 100 100) (net False) = (Inr (), s') \<and> ToUWB b \<in> set (sb_sent s') \<and> pls \<noteq> []
    \<and> sim_bp_handleMessage (FromUWB [b]) (net True) = (Inr (), (net True)\<lparr>sb_sent := sb_sent (net True) @ sim_received pls\<rparr>)"
proof -
  obtain net rp where r: "sim_run example_own 1 1400 example_requests net" "sb_registeredProtocols (net False) = [BP_PROTID_VARDIS \<mapsto> rp]"
    "sim_buffered (rp_protData rp) = [[1, 2, 3]]" by (rule example_run)
  have m: "BPHeaderT_fixed_size + BPPayloadHeaderT_fixed_size \<le> unat (1400 :: BPLengthT)"
    by (simp add: BPHeaderT_fixed_size_def BPPayloadHeaderT_fixed_size_def)
  have small: "payloads_below_64K example_requests" by auto
  have ne: "sim_buffered (rp_protData rp) \<noteq> []" and reg: "sb_registeredProtocols (net False) BP_PROTID_VARDIS = Some rp"
    using r(2,3) by simp_all
  obtain s' b pls where "sim_bp_handleMessage (GenerateBeacon 100 100) (net False) = (Inr (), s')" "ToUWB b \<in> set (sb_sent s')" "pls \<noteq> []"
    "\<forall>j. j \<noteq> False \<longrightarrow> sim_bp_handleMessage (FromUWB [b]) (net j) = (Inr (), (net j)\<lparr>sb_sent := sb_sent (net j) @ sim_received pls\<rparr>)"
    using beacons_accepted_in_simulation [OF r(1) example_own_inj m small reg ne, of 100 100] by (elim exE conjE) (rule that)
  with spec [OF this(4), of True] show ?thesis
    using r(1) reg ne by (intro exI [of _ net] exI [of _ rp] exI [of _ s'] exI [of _ b] exI [of _ pls]) simp
qed

section \<open>The simulated VarDis module\<close>

lemma vardis_handleMessage_total:
  assumes "sim_vardis_ok s"
  shows "vardis_handleMessage ev s \<noteq> None"
proof (cases ev)
  case (FromBP env msg)
  obtain r s1 where h: "hasHandledMessageBPClient (ve_memory env) msg s = (r, s1)" by (cases "hasHandledMessageBPClient (ve_memory env) msg s")
  show ?thesis
  proof (cases "r = Inr False")
    case True
    then have ok: "sim_vardis_ok s1" using keeps_okD [OF keeps_registration assms] h by simp
    show ?thesis
    proof (cases msg)
      case (ReceivePayload_Indication p bv)
      then show ?thesis using FromBP h True sim_receive_total [OF ok, of "ve_clock env" p bv] by fastforce
    qed (use FromBP h True in auto)
  next
    case False
    then show ?thesis using FromBP h by (cases r) (auto split: bool.splits)
  qed
next
  case (SelfMessage now m)
  then show ?thesis by (cases m) simp_all
qed simp

text \<open>C34. The VarDis module of the simulation keeps its invariant: in every state that it reaches after its initialization, the store and
  the protocol data exist just when the registration with the beaconing protocol is confirmed, they are well formed and have the node
  identifier and the limits of the module's parameters, a registration is not both requested and confirmed, the register message is
  pending only before the request, and the handling of every message ends.\<close>

theorem sim_vardis_invariant:
  assumes "initialize_VardisProtocol own mps mval mdescr mrep msumm period now = Inr s0" "sim_vardis_reachable s0 s"
  shows "(sv_successfullyRegistered s \<longleftrightarrow> sv_protocol_data s \<noteq> None)
    \<and> \<not> (sv_registrationRequested s \<and> sv_successfullyRegistered s)
    \<and> (sv_registerMsg s \<longrightarrow> \<not> sv_registrationRequested s \<and> \<not> sv_successfullyRegistered s)
    \<and> (\<forall>pd. sv_protocol_data s = Some pd \<longrightarrow> wf_pd pd \<and> ownNodeIdentifier pd = sv_ownNodeId s
         \<and> maxDescriptionLength pd = sv_maxDescriptionLength s \<and> maxValueLength pd = sv_maxValueLength s)
    \<and> (\<forall>ev. vardis_handleMessage ev s \<noteq> None)"
proof -
  have "sim_vardis_ok s" by (rule sim_vardis_reachable_ok [OF assms])
  then show ?thesis using vardis_handleMessage_total by (auto simp: sim_vardis_ok_def sim_conf_def)
qed

theorem sim_vardis_invariant_witness:
  "\<exists>s0 s pd. initialize_VardisProtocol node_A 1000 32 32 5 20 25 0 = Inr s0 \<and> sim_vardis_reachable s0 s
    \<and> sv_protocol_data s = Some pd \<and> wf_pd pd \<and> ownNodeIdentifier pd = sv_ownNodeId s \<and> (\<forall>ev. vardis_handleMessage ev s \<noteq> None)"
proof -
  obtain s0 where s0: "initialize_VardisProtocol node_A 1000 32 32 5 20 25 0 = Inr s0" "sv_registerMsg s0" "\<not> sv_registrationRequested s0"
    "\<not> sv_successfullyRegistered s0" "sv_ownNodeId s0 = node_A" "sv_maxSummaries s0 = 20" "sv_maxDescriptionLength s0 = 32"
    "sv_maxValueLength s0 = 32" "sv_maxRepetitions s0 = 5"
    by (simp add: initialize_VardisProtocol_def vardis_parameters_ok_def size_t_minus_def VarLenT_max_val_def ICHeaderT_fixed_size_def
        VarSpecT_fixed_size_def VarUpdateT_fixed_size_def VarSummT_fixed_size_def flip: numeral_2_eq_2)
  obtain s1 where s1: "vardis_handleMessage (SelfMessage 0 registerMsg) s0 = Some (Inr (), s1)" "sv_registrationRequested s1"
    "\<not> sv_successfullyRegistered s1" "sv_ownNodeId s1 = node_A" "sv_maxSummaries s1 = 20" "sv_maxDescriptionLength s1 = 32"
    "sv_maxValueLength s1 = 32" "sv_maxRepetitions s1 = 5"
    using s0 by (simp add: handle_registerMsg_def registerAsBPClient_def sendRegisterProtocolRequest_def sendToBP_def sim_vardis_send_def bindE_def)
  have r1: "sim_vardis_reachable s0 s1"
    by (rule sim_vardis_step [OF sim_vardis_start _ s1(1)]) (simp add: vardis_event_ok_def s0(2))
  let ?env = "\<lparr>ve_memory = (\<lambda>_. 0, \<lambda>_. 0), ve_clock = \<lambda>_. 0, ve_now = 1, ve_wait = id\<rparr>"
  obtain store where "initialize_array_store (VarLenT_max_val + 1) (MAX_maxDescriptionLength + 1) (Some (\<lambda>_. 0, \<lambda>_. 0)) 20 32 32 5 node_A = Inr store"
    by (rule wf_initialize_array_store [of 32 "VarLenT_max_val + 1" 32 "MAX_maxDescriptionLength + 1" "\<lambda>_. 0" "\<lambda>_. 0" 20 5 node_A])
      (simp_all add: VarLenT_max_val_def MAX_maxDescriptionLength_def)
  then obtain s where s: "vardis_handleMessage (FromBP ?env (RegisterProtocol_Confirm BP_STATUS_OK node_A)) s1 = Some (Inr (), s)" "sv_successfullyRegistered s"
    using s1 by (simp add: hasHandledMessageBPClient_def handleBPRegisterProtocol_Confirm_def bindE_def)
  have r: "sim_vardis_reachable s0 s"
    by (rule sim_vardis_step [OF r1 _ s(1)]) (simp add: vardis_event_ok_def)
  from sim_vardis_invariant [OF s0(1) r] s(2) s0(1) r show ?thesis by auto
qed

text \<open>C33. The receiver of the simulation is the receiver of the demon: for the same store, the same clock and any bytes, a payload leads to
  the same store and protocol data, and the handler returns normally when that of the demon does and ends with an exception when that
  does.\<close>

theorem simulated_receiver_like_demon:
  assumes "sim_vardis_ok s" "sv_protocol_data s = Some pd" "get_vardis_isactive (vardis_store pd)"
  shows "\<exists>r r' pd'. process_received_payload (ve_clock env) (ByteVectorDisassemblyArea bv) pd = Some (r, pd')
    \<and> vardis_handleMessage (FromBP env (ReceivePayload_Indication (uint BP_PROTID_VARDIS) bv)) s
        = Some (r', s\<lparr>sv_protocol_data := Some pd'\<rparr>)
    \<and> (r = Inr () \<longleftrightarrow> r' = Inr ())"
proof -
  have wf: "wf_pd pd" "wf_da (ByteVectorDisassemblyArea bv)" using assms(1,2) by (auto simp: sim_vardis_ok_def intro: wf_new_areas)
  obtain r pd' where r: "process_received_payload (ve_clock env) (ByteVectorDisassemblyArea bv) pd = Some (r, pd')"
    by (rule process_received_payload_total [OF wf, of "ve_clock env"])
  obtain r' where r': "handleBPReceivedPayloadIndication (ve_clock env) (uint BP_PROTID_VARDIS) bv s = Some (r', s\<lparr>sv_protocol_data := Some pd'\<rparr>)"
    "agrees r r'" using sim_receive_agrees [OF assms(2,3) r] by blast
  have "r = Inr () \<longleftrightarrow> r' = Inr ()" using r'(2) by (cases r) (auto simp: agrees_def)
  with r r'(1) show ?thesis by (auto simp: hasHandledMessageBPClient_def)
qed

theorem simulated_receiver_like_demon_witness:
  "\<exists>r r' pd'. process_received_payload (\<lambda>_. 7) (ByteVectorDisassemblyArea [2, 1, 9]) (fresh_node node_B) = Some (r, pd')
    \<and> vardis_handleMessage (FromBP \<lparr>ve_memory = (\<lambda>_. 0, \<lambda>_. 0), ve_clock = \<lambda>_. 7, ve_now = 12, ve_wait = id\<rparr>
        (ReceivePayload_Indication (uint BP_PROTID_VARDIS) [2, 1, 9])) (example_sim_vardis node_B (fresh_node node_B))
      = Some (r', (example_sim_vardis node_B (fresh_node node_B))\<lparr>sv_protocol_data := Some pd'\<rparr>)
    \<and> (r = Inr () \<longleftrightarrow> r' = Inr ())"
  using simulated_receiver_like_demon [OF example_sim_vardis [OF fresh_node(2,4,5,6)] fresh_node(9),
      of "\<lparr>ve_memory = (\<lambda>_. 0, \<lambda>_. 0), ve_clock = \<lambda>_. 7, ve_now = 12, ve_wait = id\<rparr>" "[2, 1, 9]"] by (simp del: vardis_handleMessage.simps)

lemma description_limit:
  assumes "sim_vardis_ok s" "sv_protocol_data s = Some pd"
    "ICHeaderT_fixed_size + VarSpecT_fixed_size + VarUpdateT_fixed_size + sv_maxValueLength s \<le> unat (sv_maxPayloadSize s)"
  shows "ICHeaderT_fixed_size + VarSpecT_fixed_size + VarUpdateT_fixed_size + sv_maxValueLength s + sv_maxDescriptionLength s
    \<le> unat (sv_maxPayloadSize s)"
proof -
  let ?k = "ICHeaderT_fixed_size + VarSpecT_fixed_size + VarUpdateT_fixed_size + sv_maxValueLength s"
  have d: "sv_maxDescriptionLength s < 65536" using assms(1,2) by (auto simp: sim_vardis_ok_def sim_conf_def MAX_maxDescriptionLength_def)
  have k: "?k < 65536" using assms(3) unat_u16_less [of "sv_maxPayloadSize s"] by linarith
  have le: "of_nat (sv_maxDescriptionLength s) \<le> sv_maxPayloadSize s - of_nat ?k"
    using assms(1) unfolding sim_vardis_ok_def vardis_parameters_ok_def by (elim conjE)
  have "unat (of_nat (sv_maxDescriptionLength s) :: BPLengthT) = sv_maxDescriptionLength s" "unat (of_nat ?k :: BPLengthT) = ?k"
    using d k by (simp_all add: unat_of_nat take_bit_eq_mod del: of_nat_add)
  then have "unat (sv_maxPayloadSize s - of_nat ?k) = unat (sv_maxPayloadSize s) - ?k"
    using assms(3) by (simp add: unat_sub word_le_nat_alt del: of_nat_add)
  with le show ?thesis
    using assms(3) d by (simp add: word_le_nat_alt unat_of_nat take_bit_eq_mod del: of_nat_add)
qed

text \<open>C35. No variable is too large to be disseminated: when the parameters of the module are such that the fixed parts of a creation and
  the longest value fit a payload (the module checks this only modulo \<open>2 ^ 16\<close>), every variable that an application creates fits a
  payload as a creation record with its container header, and as an update record as well.\<close>

theorem created_variable_fits_payload:
  assumes "sim_vardis_ok s" "sv_protocol_data s = Some pd" "wf_RTDB_Create_Request c" "spec_varId (crq_spec c) = i"
    and "ICHeaderT_fixed_size + VarSpecT_fixed_size + VarUpdateT_fixed_size + sv_maxValueLength s \<le> unat (sv_maxPayloadSize s)"
    and "vardis_handleMessage (FromApplication tms d app (RTDBCreate_Request c)) s = Some (Inr (), s')"
    and "SendToApplication app (RTDBCreate_Confirm VARDIS_STATUS_OK i) = last (sv_outputs s')"
  shows "\<exists>pd'. sv_protocol_data s' = Some pd' \<and> sv_maxPayloadSize s' = sv_maxPayloadSize s
    \<and> instructionSizeVarCreate pd' i + ICHeaderT_fixed_size \<le> unat (sv_maxPayloadSize s)
    \<and> instructionSizeVarUpdate pd' i + ICHeaderT_fixed_size \<le> unat (sv_maxPayloadSize s)"
proof -
  have wf: "wf_pd pd" "sim_conf s pd" using assms(1,2) by (auto simp: sim_vardis_ok_def)
  obtain x pd' where h: "handle_rtdb_create_request (fst tms) (snd tms) c pd = (Inr x, pd')"
    "s' = s\<lparr>sv_protocol_data := Some pd', sv_outputs := sv_outputs s @ [SendToApplication app (RTDBCreate_Confirm (snd (cnf_type_status x)) i)]\<rparr>"
    using assms(2,4,6) by (auto simp: handleRTDBCreateRequest_def bindE_def on_protocol_data_def sendRTDBCreateConfirm_def sendConfirmation_def
        sim_vardis_send_def split: sum.splits prod.splits)
  then have st: "snd (cnf_type_status x) = VARDIS_STATUS_OK" using assms(7) by simp
  have ok: "create_status pd c = VARDIS_STATUS_OK"
  proof (rule ccontr)
    assume no: "create_status pd c \<noteq> VARDIS_STATUS_OK"
    then have "x = RTDB_Create_Confirm (create_status pd c) (spec_varId (crq_spec c))"
      using handle_rtdb_create_refused [OF no, of "fst tms" "snd tms"] h(1) by simp
    with st no show False by (simp add: RTDB_Create_Confirm_def)
  qed
  have ne: "mb_length (spec_descr (crq_spec c)) > 0"
    using handle_rtdb_create_empty_description [OF wf(1) ok, of "fst tms" "snd tms"] h(1) by fastforce
  obtain pd2 where p: "handle_rtdb_create_request (fst tms) (snd tms) c pd = (Inr (RTDB_Create_Confirm VARDIS_STATUS_OK i), pd2)"
    "wf_pd pd2" "same_conf pd pd2" "used pd2 = (used pd)(i := True)"
    using handle_rtdb_create_accept [OF wf(1) ok assms(3) ne, of "fst tms" "snd tms"] assms(4) by metis
  have "pd2 = pd'" using p(1) h(1) by simp
  with p have p': "wf_pd pd'" "same_conf pd pd'" "used pd' i" by (simp_all add: fun_eq_iff)
  have "length (val_of pd' i) \<le> sv_maxValueLength s" "length (descr_of pd' i) \<le> sv_maxDescriptionLength s"
    using wf_varD(3,4) [OF p'(1,3)] p'(2) wf(2) by (simp_all add: wf_bytes_def same_conf_def sim_conf_def del: length_value_bytes length_descr_bytes)
  with description_limit [OF assms(1,2,5)] h(2) show ?thesis
    by (simp add: instructionSizeVarCreate_def instructionSizeVarUpdate_def size_of_value_def size_of_description_def)
qed

theorem created_variable_fits_payload_witness:
  "\<exists>s' pd'. vardis_handleMessage (FromApplication (1000, 1000) example_description 1 (RTDBCreate_Request create_7))
      (example_sim_vardis node_A (fresh_node node_A)) = Some (Inr (), s')
    \<and> sv_protocol_data s' = Some pd' \<and> instructionSizeVarCreate pd' 7 + ICHeaderT_fixed_size \<le> 1000"
proof -
  let ?s = "example_sim_vardis node_A (fresh_node node_A)"
  let ?s' = "?s\<lparr>sv_protocol_data := Some producer, sv_outputs := [SendToApplication 1 (RTDBCreate_Confirm VARDIS_STATUS_OK 7)]\<rparr>"
  have i: "spec_varId (crq_spec create_7) = 7" by (simp add: create_7_def)
  have h: "vardis_handleMessage (FromApplication (1000, 1000) example_description 1 (RTDBCreate_Request create_7)) ?s = Some (Inr (), ?s')"
    using producer(8) i by (simp add: handleRTDBCreateRequest_def bindE_def on_protocol_data_def sendRTDBCreateConfirm_def sendConfirmation_def
        sim_vardis_send_def example_sim_vardis_def RTDB_Create_Confirm_def)
  have k: "ICHeaderT_fixed_size + VarSpecT_fixed_size + VarUpdateT_fixed_size + sv_maxValueLength ?s \<le> unat (sv_maxPayloadSize ?s)"
    by (simp add: example_sim_vardis_def ICHeaderT_fixed_size_def VarSpecT_fixed_size_def VarUpdateT_fixed_size_def)
  have "SendToApplication 1 (RTDBCreate_Confirm VARDIS_STATUS_OK 7) = last (sv_outputs ?s')" by simp
  from created_variable_fits_payload [OF example_sim_vardis [OF fresh_node(2,4,5,6)] create_7_ok(2) i k h this] h
  show ?thesis by (auto simp: example_sim_vardis_def)
qed

section \<open>Frames of other networks\<close>

text \<open>C36. A frame of another network ends the simulation, while the demon ignores it: the handler of received packets raises an error for
  a header with another network identifier and changes nothing, where the receiver of the demon drops the frame without setting its
  exit flag.\<close>

theorem foreign_beacon_ends_simulation:
  assumes "bh_networkId hdr \<noteq> sb_networkIdentifier s" "bh_networkId hdr \<noteq> ownNetworkIdentifier rt" "bp_isActive rt"
  shows "sim_bp_handleMessage (FromUWB [enc_BPHeaderT hdr @ payload]) s = (Inl cRuntimeError, s)
    \<and> receiver_frame L env (enc_BPHeaderT hdr @ payload) rt = rt\<lparr>cntBPPayloads := cntBPPayloads rt + 1\<rparr>"
proof -
  let ?d = "ByteVectorDisassemblyArea (enc_BPHeaderT hdr @ payload)"
  have d: "wf_da ?d" "da_rest ?d = enc_BPHeaderT hdr @ payload" by (rule wf_new_areas) (rule da_rest_new)
  note h = bphdr_codec.des [OF _ d, simplified]
  have "receiver_frame L env (enc_BPHeaderT hdr @ payload) rt = rt\<lparr>cntBPPayloads := cntBPPayloads rt + 1\<rparr>"
    using assms(2,3) h by (simp add: receiver_frame_def Let_def bp_process_received_payload_def bindE_def zoomE_def isWellFormed_def)
  then show ?thesis using h assms(1) by (simp add: handleReceivedPacket_def isWellFormed_def)
qed

theorem foreign_beacon_ends_simulation_witness:
  "sim_bp_handleMessage (FromUWB [enc_BPHeaderT (sim_beacon_header ((example_bp node_B)\<lparr>sb_networkIdentifier := 2\<rparr>) 2) @ [0, 1, 0, 1, 5]])
      (example_bp node_A) = (Inl cRuntimeError, example_bp node_A)
    \<and> receiver_frame layout1 (\<lambda>_. (True, \<lambda>q. (False, q)))
        (enc_BPHeaderT (sim_beacon_header ((example_bp node_B)\<lparr>sb_networkIdentifier := 2\<rparr>) 2) @ [0, 1, 0, 1, 5]) (idle_demon 1)
      = (idle_demon 1)\<lparr>cntBPPayloads := cntBPPayloads (idle_demon 1) + 1\<rparr>"
  by (rule foreign_beacon_ends_simulation) (simp_all add: sim_beacon_header_def example_bp_def idle_demon_def)

end
