(* ===== verification/Spec2Isabelle.thy ===== *)
theory Spec2Isabelle
  imports PropsVardis PropsCommon PropsAvl PropsShm PropsBp PropsSrp PropsClients PropsSim
begin

text \<open>
  Verification of the DCP/VarDis implementation
  (\<open>dcp-vardis-project/dcpimplementation/src/dcp\<close>; paths below are relative to it).

  The program.  A fleet of nodes exchanges beacons.  The beaconing demon (BP) carries the
  payloads of client protocols; demon and clients hand payloads to each other through finite
  queues of buffers in shared memory.  VarDis is the client protocol that keeps a replicated
  real-time database: each variable has one producer, which creates, updates and deletes it,
  and instruction records in the payloads of all nodes spread these operations to the
  others.

  How the model reads.  An operation that changes a state and may throw is an \<open>action\<close>
  (theory \<open>Prelude\<close>): a function from the state to a result (\<open>Inl\<close> the exception class,
  \<open>Inr\<close> the value) and the new state; what was changed before an exception stays changed.
  Unsigned integers of the code are words of their width; sizes, which the code never lets
  grow near their limit, are natural numbers (so that a difference of sizes, as of the buffer sizes of the
  variable store, 256 bytes, and a word of 8 bytes, does not wrap), and the indices and heights of the
  search tree, bounded by the size of its array, are integers.  Raw memory is a byte list, or a function from
  offsets to bytes for the store's buffers.  The system clock is an argument.

  Theories, in the order of the code:
    \<^item> \<open>Prelude\<close>: exceptions (\<open>common/exceptions.h\<close>), actions and their rules, loops over lists.
    \<^item> \<open>Area\<close>: \<open>common/area.h\<close>, both kinds of areas, with the counters of the base class.
    \<^item> \<open>RingBuffer\<close>: \<open>common/fixedmem_ring_buffer.h\<close>; the locale \<open>bounded_queue\<close> is the contract
      of a bounded FIFO queue, interpreted on the ring buffer.
    \<^item> \<open>Codec\<close>: the locale \<open>codec\<close>, the contract of a type that can be serialized (its bytes, how
      \<open>serialize\<close> appends them, that \<open>deserialize\<close> reads exactly them), with the lemmas on
      sequences of records; the integral types (\<open>common/transmissible_type.h\<close>).
    \<^item> \<open>DcpTypes\<close>, \<open>DcpServices\<close>, \<open>VardisTypes\<close>: the data types and wire formats of
      \<open>common/global_types_constants.h\<close>, \<open>common/memblock.h\<close>, \<open>common/services_status.h\<close>,
      \<open>vardis/vardis_service_primitives.h\<close> and \<open>vardis/vardis_transmissible_types.h\<close>; each is an
      interpretation of \<open>codec\<close>.
    \<^item> \<open>VardisStore\<close>: \<open>vardis/vardis_store_array.h\<close>; the locale \<open>variable_store\<close> is the contract
      the protocol relies on.
    \<^item> \<open>VarIdQueue\<close>: the queues of \<open>vardis/vardis_protocol_data.h\<close>; locale \<open>unique_queue\<close>.
    \<^item> \<open>VardisProtocol\<close>: processing of received records and of client requests
      (\<open>vardis/vardis_protocol_data.cc\<close>) and the scrubber (\<open>vardis/vardis_scrubber.cc\<close>);
      \<open>VardisInvariant\<close> and \<open>VardisScrub\<close> their lemmas: the invariant \<open>wf_pd\<close> and the
      functional behaviour of every operation on every branch.
    \<^item> \<open>VardisTransmit\<close>: construction of payloads (\<open>vardis/vardis_protocol_data.cc\<close>,
      \<open>vardis/vardis_transmitter.cc\<close>); \<open>VardisContainers\<close> and \<open>VardisPayload\<close> prove it against the
      specification \<open>sends\<close> by way of the locales \<open>container\<close> and \<open>container_maker\<close>.
    \<^item> \<open>VardisReceive\<close>: parsing and processing of payloads (\<open>vardis/vardis_receiver.cc\<close>).
    \<^item> \<open>VardisDemon\<close>: the threads of the demon as a step relation, and the invariant of its
      reachable states.
    \<^item> \<open>VardisPropagation\<close>: composition of the transmitter of one node with the receiver of
      another.
    \<^item> \<open>VardisExamples\<close>: concrete nodes at which the properties are applied.
    \<^item> \<open>AvlTree\<close>, \<open>AvlOps\<close>: \<open>common/fixedmem_avl_tree.h\<close>, the search tree in an array of nodes.
      \<open>AvlSpec\<close> is the tree as a datatype with its balancing; \<open>AvlRefine\<close> relates the array to
      it and shows that the operations on the array implement those on the datatype;
      \<open>AvlMap\<close> has the locale \<open>bounded_map\<close>, the contract of a finite map of limited size, and
      its interpretation on the array.
    \<^item> \<open>ShmQueue\<close>: \<open>common/sharedmem_finite_queue.h\<close>.  \<open>ShmInvariant\<close> says which buffer is where,
      \<open>ShmChannel\<close> what the operations do with the messages in the queue and the locale
      \<open>message_channel\<close>, the contract between writer and reader; \<open>ShmSafety\<close> what holds whatever
      handlers and other processes do.
    \<^item> \<open>BpTypes\<close>: \<open>bp/bp_transmissible_types.h\<close>, interpretations of \<open>codec\<close>.  \<open>BpSegment\<close>: the queues of
      a client and the data of the demon (\<open>bp/bp_shm_control_segment.cc\<close>,
      \<open>bp/bp_client_protocol_data.h\<close>, \<open>bp/bp_runtime_data.h\<close>).  \<open>BpTransmit\<close>:
      \<open>bp/bp_transmitter.cc\<close>.  \<open>BpReceive\<close>: \<open>bp/bp_receiver.cc\<close>.  \<open>BpManagement\<close>:
      \<open>bp/bp_management_command.cc\<close> and \<open>bp/bp_management_payload.cc\<close>.
    \<^item> \<open>BpBeacon\<close> and \<open>BpDeliver\<close>: what a beacon contains and what a receiver makes of it;
      \<open>BpDemon\<close> and \<open>BpInvariant\<close>: the threads and the clients as a step relation, and the
      invariant of its reachable states; \<open>BpRegister\<close>: registration, and two concrete demons;
      \<open>BpFaults\<close>: the transmitter after a queue was reset.
    \<^item> \<open>BpClient\<close>: how a client sends and receives payloads (\<open>bp/bpclient_lib_payload.cc\<close>).
    \<^item> \<open>AvlUpdate\<close>: changes of data in the tree through the reference that the search returns.
      \<open>SrpStore\<close>: \<open>srp/srp_store_fixedmem.h\<close>, the neighbour table of the state reporting protocol (SRP).
      \<open>SrpTable\<close>: its invariant, and the operations on the map of neighbours it stands for; \<open>SrpMap\<close>:
      the locale \<open>neighbour_map\<close>, what lists of records and of removals do to such a map, with its
      interpretation on the store.  \<open>SrpDemon\<close>: \<open>srp/srp_transmitter.cc\<close>, \<open>srp/srp_receiver.cc\<close>,
      \<open>srp/srp_scrubber.cc\<close>, \<open>srp/srpclient_lib.cc\<close>, and the threads as a step relation.  \<open>SrpRounds\<close>:
      what each round does; \<open>SrpInvariant\<close>: the invariant of reachable states, and that rounds
      return; \<open>SrpExamples\<close>: two concrete nodes.
    \<^item> \<open>CommandSocket\<close>: \<open>common/command_socket.cc\<close>, both sides of the sockets for commands.
    \<^item> \<open>VardisRtdb\<close>, \<open>VardisManagement\<close>: how the VarDis demon serves applications
      (\<open>vardis/vardis_management_rtdb.cc\<close>, \<open>vardis/vardis_management_command.cc\<close>), with the queues of an application
      (\<open>VardisSegment\<close>: \<open>segment_ok\<close>, which holds of segments in proper use, and the weaker \<open>segment_safe\<close>, which nothing that
      applications do with the client library breaks); \<open>VardisClientLib\<close>, \<open>VardisCommands\<close>: the client library
      (\<open>vardis/vardisclient_lib.cc\<close>, \<open>vardis/vardisclient_lib_rtdb.cc\<close>), what a call gets back, and the steps it
      consists of; \<open>VardisRuntime\<close>: demon and applications with these steps as a step relation; \<open>VardisClientExamples\<close>: concrete ones.
    \<^item> \<open>SimBp\<close>: the beaconing protocol of the simulation (\<open>dcpsimulation/src/dcpsim/bp/BeaconingProtocol.cc\<close>, beside the
      implementation).  \<open>SimBeacon\<close>: its invariant, and what a beacon holds; \<open>SimNetwork\<close>: what a receiver makes of it, requests of
      clients, and the runs of a network.  \<open>SimVardis\<close>: VarDis in the simulation (\<open>vardis/VardisProtocol.cc\<close>,
      \<open>bp/BPClientProtocol.cc\<close>), which uses the store and the protocol data of the implementation; \<open>SimVardisCorrect\<close>: its
      receiver against that of the demon, and its invariant; \<open>VardisActivity\<close>: what received records leave unchanged;
      \<open>SimDissemination\<close>: both protocols of several nodes together.
    \<^item> \<open>PropsVardis\<close>, \<open>PropsBp\<close>, \<open>PropsSrp\<close>, \<open>PropsAvl\<close>, \<open>PropsShm\<close>, \<open>PropsCommon\<close>, \<open>PropsClients\<close>, \<open>PropsSim\<close>: the properties.

  Parameters.  What the operating system decides is an argument of the operations on shared
  memory: whether a mutex was obtained in time, whether a condition variable was signalled in
  time and what the other processes made of the queue meanwhile (in the step relation of the BP
  demon: anything that respects the invariant of the queue; in that of the VarDis demon these are steps
  of their own).  The layout of the service
  primitives of BP in memory is the record \<open>bp_layout\<close>; \<open>layout_ok\<close> says that objects have the
  size of their type and that a stored field is read back.  Likewise \<open>esd_layout\<close> is the layout of
  the records of SRP and \<open>ind_reader\<close> how a client reads an indication.  Floating point numbers are
  of a type parameter, with their operations in the record \<open>fp\<close>.  The system calls on sockets are the record \<open>sockets\<close>: what
  reading from a descriptor gives, and the stream of bytes of the peer.  The size of the service primitives of VarDis in memory,
  their layout, uninitialized buffers, and the clock as a function of the number of its readings are arguments.  For the simulation
  the simulated time, the delay of the next payload, the previous contents of memory and the fields of a new object are.

  Bounds.  The loop over the containers of a payload and the recursive methods of the search
  tree are \<open>partial_function (option)\<close>; \<open>parse_containers_total\<close> shows that the loop ends for
  every payload, and the refinement lemmas of \<open>AvlRefine\<close> give the methods a value on every
  array that represents a tree.  The loop that empties a queue takes one element out in each
  round and runs for as many rounds as there are elements.  The deliveries of a beacon are as
  many as its header says.  A client that waits for a payload may wait for ever: its attempts, and the
  payloads it gets, are lists, and when a list is used up the result is \<open>None\<close> (it still waits);
  \<open>receive_payloads_returns\<close> shows that as many rounds as there are payloads are enough.  All other
  loops are structural.

  Not modelled: log output, printing and configuration files, the network card, mutexes inside the VarDis store (a step of a
  demon is what a thread does while it holds a lock), the allocation of memory and shared memory, the averages in the statistics of
  BP, which are floating point numbers, the commands of the client library of BP (the demon's side of them is) and the command line
  programs; of the simulation the state reporting protocol, the applications and the mobility models.
\<close>

end
